(* ===== verification/Prelude.thy ===== *)
theory Prelude
  imports Main "HOL-Library.Word" "HOL-Library.AList" "HOL-Library.Sublist"
begin

text \<open>
  Shared vocabulary of the development: the machine types of the Rust sources, checked and
  saturating arithmetic, insertion-ordered maps (\<^verbatim>\<open>indexmap::IndexMap\<close> and, with an arbitrary but
  fixed order, \<^verbatim>\<open>std::collections::HashMap\<close>), rendering of numbers, and two interfaces stated as
  locales: a bounded first-in first-out history, and a machine with an invariant.
\<close>

section \<open>Machine types\<close>

type_synonym u64 = "64 word"
type_synonym u32 = "32 word"
type_synonym u16 = "16 word"
type_synonym i32 = "32 word"
type_synonym usize = nat
type_synonym service_id = string

text \<open>
  A \<^verbatim>\<open>Duration\<close> is a number of nanoseconds, an \<^verbatim>\<open>Instant\<close> a reading of the monotonic clock in
  nanoseconds. A \<^verbatim>\<open>usize\<close> is a natural number whose saturation point is \<open>USIZE_MAX\<close>.
\<close>

type_synonym duration = nat
type_synonym instant = nat

definition USIZE_MAX :: nat where
  "USIZE_MAX = 2 ^ 64 - 1"

definition U64_MAX :: u64 where
  "U64_MAX = - 1"

definition NANOS_PER_MS :: nat where
  "NANOS_PER_MS = 1000000"

definition NANOS_PER_SEC :: nat where
  "NANOS_PER_SEC = 1000000000"

text \<open>The largest instant of the platform clock (a signed 64-bit number of seconds).\<close>

definition INSTANT_MAX :: instant where
  "INSTANT_MAX = (2 ^ 63 - 1) * NANOS_PER_SEC + 999999999"

definition from_millis :: "nat \<Rightarrow> duration" where
  "from_millis n = n * NANOS_PER_MS"

definition from_secs :: "nat \<Rightarrow> duration" where
  "from_secs n = n * NANOS_PER_SEC"

definition as_millis :: "duration \<Rightarrow> nat" where
  "as_millis d = d div NANOS_PER_MS"

definition instant_checked_add :: "instant \<Rightarrow> duration \<Rightarrow> instant option" where
  "instant_checked_add t d = (if t + d \<le> INSTANT_MAX then Some (t + d) else None)"

definition usize_saturating_add :: "usize \<Rightarrow> usize \<Rightarrow> usize" where
  "usize_saturating_add a b = min (a + b) USIZE_MAX"

definition u64_checked_add :: "u64 \<Rightarrow> u64 \<Rightarrow> u64 option" where
  "u64_checked_add a b = (if unat a + unat b < 2 ^ 64 then Some (a + b) else None)"

definition u64_saturating_add :: "u64 \<Rightarrow> u64 \<Rightarrow> u64" where
  "u64_saturating_add a b = (if unat a + unat b < 2 ^ 64 then a + b else U64_MAX)"

text \<open>\<^verbatim>\<open>u64::try_from(n).ok()\<close> on a wider number.\<close>

definition u64_try_from :: "nat \<Rightarrow> u64 option" where
  "u64_try_from n = (if n < 2 ^ 64 then Some (of_nat n) else None)"

named_theorems machine_defs

lemmas machine_defs' [machine_defs] =
  USIZE_MAX_def NANOS_PER_MS_def NANOS_PER_SEC_def from_millis_def from_secs_def as_millis_def

lemma unat_u64_less: "unat (w :: u64) < 2 ^ 64"
  using unsigned_less [of w] by simp

lemma unat_U64_MAX [simp]: "unat U64_MAX = 2 ^ 64 - 1"
  by (simp add: U64_MAX_def unsigned_minus_1_eq_mask mask_eq_exp_minus_1)

lemma unat_add_u64: "unat (a :: u64) + unat b < 2 ^ 64 \<Longrightarrow> unat (a + b) = unat a + unat b"
  by (simp add: unat_word_ariths)

lemma unat_u64_checked_add:
  "u64_checked_add a b = Some c \<Longrightarrow> unat c = unat a + unat b"
  by (auto simp: u64_checked_add_def unat_word_ariths split: if_splits)

lemma unat_u64_saturating_add:
  "unat (u64_saturating_add a b) = min (unat a + unat b) (2 ^ 64 - 1)"
  by (auto simp: u64_saturating_add_def unat_word_ariths)

lemma u64_saturating_add_ge: "a \<le> u64_saturating_add a b"
  using unat_u64_less [of a] by (simp add: word_le_nat_alt unat_u64_saturating_add)

lemma u64_saturating_add_1_gr:
  assumes "a \<noteq> U64_MAX"
  shows "a < u64_saturating_add a 1"
proof -
  have "unat a \<noteq> 2 ^ 64 - 1"
    using assms unat_U64_MAX word_unat_eq_iff by metis
  then have "unat a + 1 \<le> 2 ^ 64 - 1"
    using unat_u64_less [of a] by simp
  then show ?thesis
    by (simp add: word_less_nat_alt unat_u64_saturating_add)
qed

lemma usize_saturating_add_le [simp]: "usize_saturating_add a b \<le> a + b"
  by (simp add: usize_saturating_add_def)

lemma usize_saturating_add_exact: "a + b \<le> USIZE_MAX \<Longrightarrow> usize_saturating_add a b = a + b"
  by (simp add: usize_saturating_add_def)

section \<open>Results\<close>

text \<open>The \<^verbatim>\<open>?\<close> operator on results.\<close>

definition and_then :: "'e + 'a \<Rightarrow> ('a \<Rightarrow> 'e + 'b) \<Rightarrow> 'e + 'b" where
  "and_then x f = (case x of Inl e \<Rightarrow> Inl e | Inr v \<Rightarrow> f v)"

definition ensure :: "bool \<Rightarrow> 'e \<Rightarrow> 'e + unit" where
  "ensure b e = (if b then Inr () else Inl e)"

definition ok_or :: "'e \<Rightarrow> 'a option \<Rightarrow> 'e + 'a" where
  "ok_or e x = (case x of None \<Rightarrow> Inl e | Some v \<Rightarrow> Inr v)"

definition map_err :: "('d \<Rightarrow> 'e) \<Rightarrow> 'd + 'a \<Rightarrow> 'e + 'a" where
  "map_err f x = map_sum f id x"

lemma and_then_simps [simp]: "and_then (Inl e) f = Inl e" "and_then (Inr v) f = f v"
  by (simp_all add: and_then_def)

lemma and_then_Inr: "and_then x f = Inr y \<longleftrightarrow> (\<exists>v. x = Inr v \<and> f v = Inr y)"
  by (cases x) auto

lemma ensure_Inr: "ensure b e = Inr u \<longleftrightarrow> b"
  by (simp add: ensure_def)

lemma ok_or_Inr: "ok_or e x = Inr v \<longleftrightarrow> x = Some v"
  by (cases x) (auto simp: ok_or_def)

lemma map_err_Inr: "map_err f x = Inr v \<longleftrightarrow> x = Inr v"
  by (cases x) (auto simp: map_err_def)

lemmas result_simps = and_then_Inr ensure_Inr ok_or_Inr map_err_Inr

section \<open>Rendering\<close>

fun decimal :: "nat \<Rightarrow> string" where
  "decimal n =
     (if n < 10 then [char_of (48 + n)] else decimal (n div 10) @ [char_of (48 + n mod 10)])"

declare decimal.simps [simp del]

abbreviation show_u64 :: "u64 \<Rightarrow> string" where
  "show_u64 w \<equiv> decimal (unat w)"

text \<open>A signed 32-bit integer as \<^verbatim>\<open>format!\<close> prints it.\<close>

definition show_i32 :: "i32 \<Rightarrow> string" where
  "show_i32 w = (let i = sint w in
     if i < 0 then CHR ''-'' # decimal (nat (- i)) else decimal (nat i))"

text \<open>\<^verbatim>\<open>slice.join(sep)\<close>.\<close>

fun join_with :: "string \<Rightarrow> string list \<Rightarrow> string" where
  "join_with sep [] = []"
| "join_with sep [x] = x"
| "join_with sep (x # y # ys) = x @ sep @ join_with sep (y # ys)"

text \<open>A string in backquotes, as the messages of the sources quote identifiers.\<close>

definition quoted :: "string \<Rightarrow> string" where
  "quoted s = ''`'' @ s @ ''`''"

lemma decimal_nonempty [simp]: "decimal n \<noteq> []"
  by (subst decimal.simps) simp

section \<open>Insertion-ordered maps\<close>

text \<open>
  An \<^verbatim>\<open>IndexMap\<close> is an association list with distinct keys: \<^verbatim>\<open>insert\<close> replaces in place or appends
  (\<open>AList.update\<close>), \<^verbatim>\<open>shift_remove\<close> deletes and keeps the order of the rest (\<open>AList.delete\<close>),
  \<^verbatim>\<open>get_mut\<close> changes the value under a key (\<open>AList.map_entry\<close>).
\<close>

type_synonym ('k, 'v) imap = "('k \<times> 'v) list"

abbreviation im_get :: "('k, 'v) imap \<Rightarrow> 'k \<Rightarrow> 'v option" where
  "im_get \<equiv> map_of"

abbreviation im_insert :: "'k \<Rightarrow> 'v \<Rightarrow> ('k, 'v) imap \<Rightarrow> ('k, 'v) imap" where
  "im_insert \<equiv> AList.update"

abbreviation im_remove :: "'k \<Rightarrow> ('k, 'v) imap \<Rightarrow> ('k, 'v) imap" where
  "im_remove \<equiv> AList.delete"

abbreviation im_modify :: "'k \<Rightarrow> ('v \<Rightarrow> 'v) \<Rightarrow> ('k, 'v) imap \<Rightarrow> ('k, 'v) imap" where
  "im_modify \<equiv> AList.map_entry"

definition im_keys :: "('k, 'v) imap \<Rightarrow> 'k list" where
  "im_keys m = map fst m"

definition im_contains :: "('k, 'v) imap \<Rightarrow> 'k \<Rightarrow> bool" where
  "im_contains m k \<longleftrightarrow> im_get m k \<noteq> None"

definition im_wf :: "('k, 'v) imap \<Rightarrow> bool" where
  "im_wf m \<longleftrightarrow> distinct (im_keys m)"

text \<open>\<^verbatim>\<open>extend\<close>: insert every entry of the second map, in its order.\<close>

definition im_extend :: "('k, 'v) imap \<Rightarrow> ('k, 'v) imap \<Rightarrow> ('k, 'v) imap" where
  "im_extend m other = fold (\<lambda>(k, v). im_insert k v) other m"

named_theorems imap_simps

lemma im_get_insert [imap_simps]: "im_get (im_insert k v m) = (im_get m)(k \<mapsto> v)"
  by (rule update_conv')

lemma im_get_remove [imap_simps]: "im_get (im_remove k m) = (im_get m)(k := None)"
  by (rule delete_conv')

lemma im_get_modify [imap_simps]:
  "im_get (im_modify k f m) x = (if x = k then map_option f (im_get m k) else im_get m x)"
  by (simp add: map_of_map_entry split: option.split)

lemma set_im_keys [imap_simps]: "set (im_keys m) = dom (im_get m)"
  by (simp add: im_keys_def dom_map_of_conv_image_fst)

lemma im_keys_insert:
  "im_keys (im_insert k v m) = (if k \<in> set (im_keys m) then im_keys m else im_keys m @ [k])"
  by (simp add: im_keys_def update_keys)

lemma im_keys_remove: "im_keys (im_remove k m) = removeAll k (im_keys m)"
  by (simp add: im_keys_def delete_keys)

lemma im_keys_modify [simp]: "im_keys (im_modify k f m) = im_keys m"
  by (induction m) (auto simp: im_keys_def)

lemma im_contains_insert [imap_simps]:
  "im_contains (im_insert k v m) x \<longleftrightarrow> x = k \<or> im_contains m x"
  by (simp add: im_contains_def im_get_insert)

lemma im_contains_iff: "im_contains m k \<longleftrightarrow> k \<in> set (im_keys m)"
  by (auto simp: im_contains_def set_im_keys)

lemma im_wf_Nil [simp]: "im_wf []"
  by (simp add: im_wf_def im_keys_def)

lemma im_wf_insert [simp]: "im_wf m \<Longrightarrow> im_wf (im_insert k v m)"
  by (simp add: im_wf_def im_keys_insert)

lemma im_wf_remove [simp]: "im_wf m \<Longrightarrow> im_wf (im_remove k m)"
  by (simp add: im_wf_def im_keys_remove distinct_removeAll)

lemma im_wf_modify [simp]: "im_wf (im_modify k f m) = im_wf m"
  by (simp add: im_wf_def)

lemma im_get_in_set: "im_wf m \<Longrightarrow> (k, v) \<in> set m \<longleftrightarrow> im_get m k = Some v"
  by (simp add: im_wf_def im_keys_def)

lemma set_im_modify:
  "im_wf m \<Longrightarrow> (x, v) \<in> set (im_modify k f m) \<longleftrightarrow>
     (if x = k then \<exists>v'. (x, v') \<in> set m \<and> v = f v' else (x, v) \<in> set m)"
  by (induction m) (auto simp: im_wf_def im_keys_def image_iff)

lemma im_contains_remove [imap_simps]:
  "im_contains (im_remove k m) x \<longleftrightarrow> x \<noteq> k \<and> im_contains m x"
  by (simp add: im_contains_def im_get_remove)

lemma im_contains_modify [imap_simps]: "im_contains (im_modify k f m) x = im_contains m x"
  by (simp add: im_contains_iff)

lemma im_get_keys: "im_get m k = Some v \<Longrightarrow> k \<in> set (im_keys m)"
  by (auto simp: set_im_keys)

lemma im_keys_Cons [simp]: "im_keys ((k, v) # m) = k # im_keys m"
  by (simp add: im_keys_def)

lemma im_keys_Nil [simp]: "im_keys [] = []"
  by (simp add: im_keys_def)

lemma im_insert_fresh: "k \<notin> set (im_keys m) \<Longrightarrow> im_insert k v m = m @ [(k, v)]"
  by (induction m) (auto simp: im_keys_def)

lemma im_wf_Cons: "im_wf ((k, v) # m) \<longleftrightarrow> k \<notin> set (im_keys m) \<and> im_wf m"
  by (simp add: im_wf_def)

text \<open>An insertion-ordered map is determined by the order of its keys and its lookups.\<close>

lemma im_eqI:
  "im_keys m = im_keys m' \<Longrightarrow> im_wf m \<Longrightarrow> im_get m = im_get m' \<Longrightarrow> m = m'"
proof (induction m arbitrary: m')
  case Nil
  then show ?case by (cases m') (auto simp: im_keys_def)
next
  case (Cons a m)
  obtain k v where a: "a = (k, v)" by fastforce
  from Cons.prems(1) a obtain v' m'' where m': "m' = (k, v') # m''" "im_keys m = im_keys m''"
    by (cases m') (auto simp: im_keys_def)
  have k: "k \<notin> set (im_keys m)" "im_wf m"
    using Cons.prems(2) a by (simp_all add: im_wf_Cons)
  have get: "(if x = k then Some v else im_get m x) = (if x = k then Some v' else im_get m'' x)" for x
    using fun_cong [OF Cons.prems(3), of x] by (auto simp: a m' split: if_splits)
  have "im_get m x = im_get m'' x" for x
  proof (cases "x = k")
    case True
    then show ?thesis
      using k m'(2) set_im_keys [of m] set_im_keys [of m''] by (auto simp: domIff)
  next
    case False
    then show ?thesis using get [of x] by simp
  qed
  then have "m = m''"
    using Cons.IH [OF m'(2) k(2)] by blast
  moreover have "v = v'"
    using get [of k] by simp
  ultimately show ?case
    by (simp add: a m')
qed

lemma im_extend_Nil [simp]: "im_extend m [] = m"
  by (simp add: im_extend_def)

lemma im_extend_Cons [simp]: "im_extend m ((k, v) # other) = im_extend (im_insert k v m) other"
  by (simp add: im_extend_def)

lemma im_wf_extend [simp]: "im_wf m \<Longrightarrow> im_wf (im_extend m other)"
  by (induction other arbitrary: m) auto

lemma im_get_extend [imap_simps]:
  "im_wf other \<Longrightarrow> im_get (im_extend m other) = im_get m ++ im_get other"
proof (induction other arbitrary: m)
  case (Cons a other)
  obtain k v where a: "a = (k, v)" by fastforce
  have "k \<notin> dom (im_get other)" "im_wf other"
    using Cons.prems by (simp_all add: a im_wf_Cons set_im_keys)
  then show ?case
    by (intro ext)
       (auto simp: a Cons.IH im_get_insert map_add_def fun_upd_apply split: option.split)
qed simp

lemma im_keys_extend:
  "im_wf other \<Longrightarrow>
   im_keys (im_extend m other) = im_keys m @ filter (\<lambda>k. k \<notin> set (im_keys m)) (im_keys other)"
proof (induction other arbitrary: m)
  case (Cons a other)
  obtain k v where a: "a = (k, v)" by fastforce
  have k: "k \<notin> set (im_keys other)" "im_wf other"
    using Cons.prems by (simp_all add: a im_wf_Cons)
  have "filter (\<lambda>x. x \<noteq> k \<and> x \<notin> set (im_keys m)) (im_keys other) =
        filter (\<lambda>x. x \<notin> set (im_keys m)) (im_keys other)"
    using k(1) by (intro filter_cong) auto
  then show ?case
    using k by (simp add: a Cons.IH im_keys_insert insert_absorb)
qed simp

lemma im_extend_twice:
  assumes "im_wf m" "im_wf other"
  shows "im_extend (im_extend m other) other = im_extend m other"
proof (rule im_eqI)
  show "im_keys (im_extend (im_extend m other) other) = im_keys (im_extend m other)"
    using assms by (auto simp: im_keys_extend filter_empty_conv)
qed (use assms in \<open>auto simp: imap_simps map_add_def split: option.splits\<close>)

lemma im_get_None: "im_get m k = None \<longleftrightarrow> k \<notin> set (im_keys m)"
  by (simp add: set_im_keys domIff)

lemma im_get_fold_insert:
  assumes "distinct (im_keys m)"
  shows "im_get (fold (\<lambda>(i, s). im_insert i s) m base) j =
    (case im_get m j of None \<Rightarrow> im_get base j | Some s \<Rightarrow> Some s)"
  using assms
proof (induction m arbitrary: base)
  case (Cons p m)
  obtain i s where p: "p = (i, s)" by fastforce
  then have "im_get m i = None" using Cons.prems by (simp add: im_get_None)
  then show ?case using Cons p by (auto simp: im_get_insert split: option.split)
qed simp

lemma im_wf_fold_insert: "im_wf base \<Longrightarrow> im_wf (fold (\<lambda>(i, s). im_insert i s) m base)"
  by (induction m arbitrary: base) auto

lemma im_get_filter:
  assumes "distinct (im_keys m)"
  shows "im_get (filter P m) j = (case im_get m j of None \<Rightarrow> None | Some s \<Rightarrow> if P (j, s) then Some s else None)"
  using assms
proof (induction m)
  case (Cons p m)
  obtain i s where p: "p = (i, s)" by fastforce
  then have "im_get m i = None" using Cons.prems by (simp add: im_get_None)
  then show ?case using Cons p by auto
qed simp

lemma im_keys_filter_distinct: "distinct (im_keys m) \<Longrightarrow> distinct (im_keys (filter P m))"
  by (auto simp: im_keys_def distinct_map intro: inj_on_subset)

lemma find_SomeD: "List.find P xs = Some x \<Longrightarrow> x \<in> set xs \<and> P x"
  by (auto simp: find_Some_iff)

section \<open>Intervals\<close>

lemma filter_less_upt: "filter (\<lambda>q. c < q) [x ..< y] = [max (Suc c) x ..< y]" for c x y :: nat
proof (induction y)
  case (Suc y)
  show ?case
  proof (cases "x \<le> y")
    case True
    then have "filter (\<lambda>q. c < q) [x ..< Suc y] = [max (Suc c) x ..< y] @ filter (\<lambda>q. c < q) [y]"
      using Suc by simp
    then show ?thesis using True by (cases "c < y") (simp_all add: max_def)
  next
    case False
    then show ?thesis by simp
  qed
qed simp

lemma take_upt_min: "take m [i ..< j] = [i ..< min (i + m) j]"
  by (cases "i + m \<le> j") (simp_all add: min_def)

section \<open>Bounded histories\<close>

text \<open>\<^verbatim>\<open>while cond(&queue) { queue.pop_front(); }\<close>, which stops on an empty queue.\<close>

fun pop_front_while :: "('a list \<Rightarrow> bool) \<Rightarrow> 'a list \<Rightarrow> 'a list" where
  "pop_front_while c [] = []"
| "pop_front_while c (x # xs) = (if c (x # xs) then pop_front_while c xs else x # xs)"

lemma suffix_pop_front_while: "suffix (pop_front_while c q) q"
  by (induction q) (auto simp: suffix_Cons)

lemma pop_front_while_ge:
  "0 < n \<Longrightarrow> pop_front_while (\<lambda>q. n \<le> length q) q = drop (Suc (length q) - n) q"
  by (induction q) (auto simp: Suc_diff_le)

lemma pop_front_while_gr:
  "pop_front_while (\<lambda>q. n < length q) q = drop (length q - n) q"
  by (induction q) (auto simp: Suc_diff_le)

text \<open>
  The contract of a bounded history: recording an item appends it, as \<open>stamp\<close> completes it, and
  drops the oldest ones, so that at most \<open>cap\<close> items stay.
\<close>

locale bounded_history =
  fixes hrecord :: "'q \<Rightarrow> 'a \<Rightarrow> 'q"
    and items :: "'q \<Rightarrow> 'b list"
    and stamp :: "'q \<Rightarrow> 'a \<Rightarrow> 'b"
    and cap :: nat
  assumes cap_pos: "0 < cap"
    and items_record:
      "items (hrecord q x) = drop (Suc (length (items q)) - cap) (items q @ [stamp q x])"
begin

lemma items_record_snoc:
  "items (hrecord q x) = drop (Suc (length (items q)) - cap) (items q) @ [stamp q x]"
  using cap_pos by (simp add: items_record)

lemma length_record: "length (items (hrecord q x)) \<le> cap"
  by (simp add: items_record)

lemma length_record_exact: "length (items (hrecord q x)) = min (Suc (length (items q))) cap"
  using cap_pos by (simp add: items_record min_def del: drop_append)

lemma last_record: "items (hrecord q x) \<noteq> [] \<and> last (items (hrecord q x)) = stamp q x"
  by (simp add: items_record_snoc)

lemma suffix_record: "suffix (items (hrecord q x)) (items q @ [stamp q x])"
  by (simp only: items_record suffix_drop)

lemma set_record: "y \<in> set (items (hrecord q x)) \<Longrightarrow> y = stamp q x \<or> y \<in> set (items q)"
  by (auto simp: items_record_snoc dest: in_set_dropD)

lemma sorted_record:
  assumes "sorted_wrt R (items q)" and "\<And>y. y \<in> set (items q) \<Longrightarrow> R y (stamp q x)"
  shows "sorted_wrt R (items (hrecord q x))"
  using assms by (auto simp: items_record_snoc sorted_wrt_append sorted_wrt_drop dest: in_set_dropD)

end

text \<open>A history that keeps the items as they are: after any number of records, the last ones.\<close>

locale plain_history =
  bounded_history hrecord items "\<lambda>_ x. x" cap
  for hrecord :: "'q \<Rightarrow> 'a \<Rightarrow> 'q" and items :: "'q \<Rightarrow> 'a list" and cap :: nat
begin

lemma items_fold:
  "items (foldl hrecord q xs) =
     (if xs = [] then items q
      else drop (length (items q) + length xs - cap) (items q @ xs))"
proof (induction xs rule: rev_induct)
  case Nil
  then show ?case by simp
next
  case (snoc x xs)
  show ?case
  proof (cases "xs = []")
    case True
    then show ?thesis by (simp add: items_record)
  next
    case False
    let ?A = "length (items q) + length xs"
    have IH: "items (foldl hrecord q xs) = drop (?A - cap) (items q @ xs)"
      using snoc False by simp
    then have len: "length (items (foldl hrecord q xs)) = ?A - (?A - cap)"
      by (simp del: drop_append)
    have "items (foldl hrecord q (xs @ [x])) =
        drop (Suc (?A - (?A - cap)) - cap) (drop (?A - cap) (items q @ xs) @ [x])"
      by (simp add: items_record len IH del: drop_append)
    also have "drop (?A - cap) (items q @ xs) @ [x] = drop (?A - cap) (items q @ xs @ [x])"
      by simp
    also have "drop (Suc (?A - (?A - cap)) - cap) \<dots> = drop (Suc ?A - cap) (items q @ xs @ [x])"
      by (cases "?A \<le> cap") (simp_all add: Suc_diff_le del: drop_append)
    finally show ?thesis by simp
  qed
qed

end

section \<open>Machines and invariants\<close>

text \<open>A run of a labelled machine: a list of labels that leads from one state to another.\<close>

inductive run :: "('s \<Rightarrow> 'e \<Rightarrow> 's \<Rightarrow> bool) \<Rightarrow> 's \<Rightarrow> 'e list \<Rightarrow> 's \<Rightarrow> bool"
  for step :: "'s \<Rightarrow> 'e \<Rightarrow> 's \<Rightarrow> bool" where
  run_Nil: "run step s [] s"
| run_Cons: "step s e t \<Longrightarrow> run step t es u \<Longrightarrow> run step s (e # es) u"

inductive_cases run_NilE: "run step s [] t"
inductive_cases run_ConsE: "run step s (e # es) t"

inductive_simps run_Nil_iff [simp]: "run step s [] t"
inductive_simps run_Cons_iff: "run step s (e # es) t"

text \<open>A machine whose steps keep a property of its states.\<close>

locale invariant_machine =
  fixes step :: "'s \<Rightarrow> 'e \<Rightarrow> 's \<Rightarrow> bool"
    and inv :: "'s \<Rightarrow> bool"
  assumes step_inv: "inv s \<Longrightarrow> step s e t \<Longrightarrow> inv t"
begin

lemma run_inv: "run step s es t \<Longrightarrow> inv s \<Longrightarrow> inv t"
  by (induction rule: run.induct) (blast intro: step_inv)+

end

end
