(* ===== verification/Log_Buffer.thy ===== *)
theory Log_Buffer
  imports Prelude
begin

text \<open>
  The in-memory log tail of one service (\<^verbatim>\<open>crates/micromux/src/model/memory.rs\<close>) and the retention
  types it is configured by (\<^verbatim>\<open>crates/micromux/src/model.rs\<close>). Strings are lists of bytes, so
  \<^verbatim>\<open>str::len\<close> is \<open>length\<close>, and a character starts at every byte that is no UTF-8 continuation byte.
\<close>

section \<open>Byte-bounded strings\<close>

definition utf8_cont :: "char \<Rightarrow> bool" where
  "utf8_cont c \<longleftrightarrow> (let n = (of_char c :: nat) in 128 \<le> n \<and> n < 192)"

text \<open>The byte indices \<^verbatim>\<open>char_indices\<close> yields.\<close>

definition char_indices :: "string \<Rightarrow> nat list" where
  "char_indices s = filter (\<lambda>i. \<not> utf8_cont (s ! i)) [0..<length s]"

definition trim_to_last_bytes :: "string \<Rightarrow> usize \<Rightarrow> string" where
  "trim_to_last_bytes line max_bytes =
     (if length line \<le> max_bytes then line
      else if max_bytes = 0 then []
      else
        let min_start = length line - max_bytes;
            start = (case find (\<lambda>idx. min_start \<le> idx) (char_indices line) of
                       Some idx \<Rightarrow> idx | None \<Rightarrow> length line)
        in drop start line)"

definition truncate_to_first_bytes :: "string \<Rightarrow> usize \<Rightarrow> string" where
  "truncate_to_first_bytes line max_bytes =
     (if length line \<le> max_bytes then line
      else
        let starts = takeWhile (\<lambda>idx. idx \<le> max_bytes) (char_indices line);
            end_at = (if starts = [] then 0 else last starts)
        in take end_at line)"

lemma char_indices_less: "i \<in> set (char_indices s) \<Longrightarrow> i < length s \<and> \<not> utf8_cont (s ! i)"
  by (simp add: char_indices_def)

lemma trim_to_last_bytes_suffix: "suffix (trim_to_last_bytes line n) line"
  by (simp add: trim_to_last_bytes_def suffix_drop Let_def)

lemma trim_to_last_bytes_length: "length (trim_to_last_bytes line n) \<le> n"
  by (auto simp: trim_to_last_bytes_def Let_def find_Some_iff split: option.split)

lemma trim_to_last_bytes_boundary:
  assumes "n < length line" and "trim_to_last_bytes line n \<noteq> []"
  shows "\<not> utf8_cont (hd (trim_to_last_bytes line n))"
proof -
  obtain i where i: "find (\<lambda>idx. length line - n \<le> idx) (char_indices line) = Some i"
    and eq: "trim_to_last_bytes line n = drop i line"
    using assms by (auto simp: trim_to_last_bytes_def Let_def split: if_splits option.splits)
  from i have "i \<in> set (char_indices line)"
    by (auto simp: find_Some_iff)
  then show ?thesis
    by (simp add: eq hd_drop_conv_nth char_indices_less)
qed

lemma truncate_to_first_bytes_prefix: "prefix (truncate_to_first_bytes line n) line"
  by (simp add: truncate_to_first_bytes_def take_is_prefix Let_def)

lemma truncate_to_first_bytes_length: "length (truncate_to_first_bytes line n) \<le> n"
proof (cases "takeWhile (\<lambda>idx. idx \<le> n) (char_indices line) = []")
  case False
  then have "last (takeWhile (\<lambda>idx. idx \<le> n) (char_indices line)) \<le> n"
    using set_takeWhileD [OF last_in_set] by blast
  then show ?thesis by (simp add: truncate_to_first_bytes_def Let_def min_def)
qed (simp add: truncate_to_first_bytes_def Let_def)

section \<open>Retention\<close>

datatype log_limit = LogLimit_Bounded usize | LogLimit_Unbounded

fun log_limit_bounded :: "usize \<Rightarrow> log_limit" where
  "log_limit_bounded value = LogLimit_Bounded (max value 1)"

fun as_option :: "log_limit \<Rightarrow> usize option" where
  "as_option (LogLimit_Bounded value) = Some value"
| "as_option LogLimit_Unbounded = None"

record memory_log_retention =
  max_lines :: log_limit
  max_bytes :: log_limit

definition default_memory_log_retention :: memory_log_retention where
  "default_memory_log_retention =
     \<lparr>max_lines = LogLimit_Bounded 1000, max_bytes = LogLimit_Bounded (64 * 1024 * 1024)\<rparr>"

record disk_log_retention =
  retained_runs :: usize

definition default_disk_log_retention :: disk_log_retention where
  "default_disk_log_retention = \<lparr>retained_runs = 5\<rparr>"

record log_retention =
  lr_memory :: memory_log_retention
  lr_disk :: disk_log_retention

definition default_log_retention :: log_retention where
  "default_log_retention =
     \<lparr>lr_memory = default_memory_log_retention, lr_disk = default_disk_log_retention\<rparr>"

record log_line =
  ll_seq :: u64
  ll_run_generation :: u64
  ll_timestamp_unix_ms :: u64
  ll_line :: string

section \<open>The buffer\<close>

record memory_log_buffer =
  mb_entries :: "log_line list"
  mb_current_bytes :: usize
  mb_retention :: memory_log_retention

definition buffer_new :: "memory_log_retention \<Rightarrow> memory_log_buffer" where
  "buffer_new retention =
     \<lparr>mb_entries = [], mb_current_bytes = 0, mb_retention = retention\<rparr>"

text \<open>The eviction loops of \<^verbatim>\<open>push\<close>: by bytes before the line is added, by lines after it.\<close>

fun evict_bytes :: "usize \<Rightarrow> usize \<Rightarrow> log_line list \<Rightarrow> usize \<Rightarrow> log_line list \<times> usize" where
  "evict_bytes max_b line_len [] cur = ([], cur)"
| "evict_bytes max_b line_len (old # es) cur =
     (if max_b < usize_saturating_add cur line_len
      then evict_bytes max_b line_len es (cur - length (ll_line old))
      else (old # es, cur))"

fun evict_lines :: "usize \<Rightarrow> log_line list \<Rightarrow> usize \<Rightarrow> log_line list \<times> usize" where
  "evict_lines max_l [] cur = ([], cur)"
| "evict_lines max_l (old # es) cur =
     (if max_l < length (old # es)
      then evict_lines max_l es (cur - length (ll_line old))
      else (old # es, cur))"

definition trim_line :: "memory_log_retention \<Rightarrow> log_line \<Rightarrow> log_line" where
  "trim_line retention line =
     (case as_option (max_bytes retention) of
        Some m \<Rightarrow> line\<lparr>ll_line := trim_to_last_bytes (ll_line line) m\<rparr>
      | None \<Rightarrow> line)"

definition buffer_push :: "memory_log_buffer \<Rightarrow> log_line \<Rightarrow> memory_log_buffer" where
  "buffer_push b line0 =
     (let line = trim_line (mb_retention b) line0;
          line_len = length (ll_line line);
          (es, cur) = (case as_option (max_bytes (mb_retention b)) of
                         Some m \<Rightarrow> evict_bytes m line_len (mb_entries b) (mb_current_bytes b)
                       | None \<Rightarrow> (mb_entries b, mb_current_bytes b));
          es' = es @ [line];
          cur' = usize_saturating_add cur line_len;
          (es'', cur'') = (case as_option (max_lines (mb_retention b)) of
                             Some m \<Rightarrow> evict_lines m es' cur'
                           | None \<Rightarrow> (es', cur'))
      in b\<lparr>mb_entries := es'', mb_current_bytes := cur''\<rparr>)"

definition buffer_append :: "memory_log_buffer \<Rightarrow> log_line \<Rightarrow> memory_log_buffer" where
  "buffer_append b line = buffer_push b line"

definition buffer_replace_last :: "memory_log_buffer \<Rightarrow> log_line \<Rightarrow> memory_log_buffer" where
  "buffer_replace_last b line =
     (if mb_entries b \<noteq> [] \<and> ll_seq (last (mb_entries b)) = ll_seq line
      then buffer_push
             (b\<lparr>mb_entries := butlast (mb_entries b),
                mb_current_bytes := mb_current_bytes b - length (ll_line (last (mb_entries b)))\<rparr>)
             line
      else b)"

definition buffer_reconfigure ::
  "memory_log_buffer \<Rightarrow> memory_log_retention \<Rightarrow> memory_log_buffer" where
  "buffer_reconfigure b retention =
     foldl buffer_push (buffer_new retention) (mb_entries b)"

fun clear_front :: "u64 \<Rightarrow> log_line list \<Rightarrow> usize \<Rightarrow> log_line list \<times> usize" where
  "clear_front next_seq [] cur = ([], cur)"
| "clear_front next_seq (old # es) cur =
     (if ll_seq old < next_seq
      then clear_front next_seq es (cur - length (ll_line old))
      else (old # es, cur))"

definition buffer_clear_before_next_seq :: "memory_log_buffer \<Rightarrow> u64 \<Rightarrow> memory_log_buffer" where
  "buffer_clear_before_next_seq b next_seq =
     (let (es, cur) = clear_front next_seq (mb_entries b) (mb_current_bytes b)
      in b\<lparr>mb_entries := es, mb_current_bytes := cur\<rparr>)"

definition buffer_lines :: "memory_log_buffer \<Rightarrow> usize option \<Rightarrow> log_line list" where
  "buffer_lines b tail =
     (let len = length (mb_entries b);
          skip = (case tail of None \<Rightarrow> 0 | Some n \<Rightarrow> len - n)
      in drop skip (mb_entries b))"

definition first_retained_seq :: "memory_log_buffer \<Rightarrow> u64 option" where
  "first_retained_seq b =
     (case mb_entries b of [] \<Rightarrow> None | line # _ \<Rightarrow> Some (ll_seq line))"

text \<open>
  \<^verbatim>\<open>partition_point\<close> on a partitioned sequence is the length of its leading run of matches; the
  buffer is partitioned because its sequence numbers increase (\<open>buffer_wf\<close>).
\<close>

definition partition_point :: "('a \<Rightarrow> bool) \<Rightarrow> 'a list \<Rightarrow> nat" where
  "partition_point p xs = length (takeWhile p xs)"

definition buffer_lines_since :: "memory_log_buffer \<Rightarrow> u64 \<Rightarrow> u64 option \<times> log_line list" where
  "buffer_lines_since b after =
     (let first_retained = first_retained_seq b;
          start = partition_point (\<lambda>line. ll_seq line \<le> after) (mb_entries b)
      in (first_retained, drop start (mb_entries b)))"

section \<open>Well-formed buffers\<close>

definition total_bytes :: "log_line list \<Rightarrow> nat" where
  "total_bytes es = sum_list (map (\<lambda>l. length (ll_line l)) es)"

definition within_limit :: "nat \<Rightarrow> log_limit \<Rightarrow> bool" where
  "within_limit n l \<longleftrightarrow> (case as_option l of None \<Rightarrow> True | Some m \<Rightarrow> n \<le> m)"

text \<open>
  The byte count is exact, both limits hold and the sequence numbers increase. The saturating
  byte count is exact below its saturation point: the byte limit lies below it, or there is none
  and the retained bytes stay within it, which \<open>fits\<close> states for the line about to be added.
\<close>

definition buffer_wf :: "memory_log_buffer \<Rightarrow> bool" where
  "buffer_wf b \<longleftrightarrow>
     mb_current_bytes b = total_bytes (mb_entries b) \<and>
     within_limit (total_bytes (mb_entries b)) (max_bytes (mb_retention b)) \<and>
     within_limit (length (mb_entries b)) (max_lines (mb_retention b)) \<and>
     sorted_wrt (\<lambda>x y. ll_seq x < ll_seq y) (mb_entries b)"

definition fits :: "memory_log_buffer \<Rightarrow> log_line \<Rightarrow> bool" where
  "fits b line \<longleftrightarrow>
     (case as_option (max_bytes (mb_retention b)) of
        Some m \<Rightarrow> m < USIZE_MAX
      | None \<Rightarrow> total_bytes (mb_entries b) + length (ll_line line) \<le> USIZE_MAX)"

lemma total_bytes_simps [simp]:
  "total_bytes [] = 0"
  "total_bytes (l # es) = length (ll_line l) + total_bytes es"
  "total_bytes (es @ fs) = total_bytes es + total_bytes fs"
  by (simp_all add: total_bytes_def)

lemma within_limit_mono: "m \<le> n \<Longrightarrow> within_limit n l \<Longrightarrow> within_limit m l"
  by (auto simp: within_limit_def split: option.splits)

lemma total_bytes_suffix: "suffix es fs \<Longrightarrow> total_bytes es \<le> total_bytes fs"
  by (auto simp: suffix_def)

lemma evict_bytes_spec:
  assumes "evict_bytes m n es (total_bytes es) = (es', cur')" and "m < USIZE_MAX" and "n \<le> m"
  shows "suffix es' es \<and> cur' = total_bytes es' \<and> total_bytes es' + n \<le> m"
  using assms
proof (induction es)
  case (Cons old es)
  then show ?case
    by (auto simp: usize_saturating_add_def suffix_ConsI split: if_splits)
qed auto

lemma evict_lines_spec:
  "evict_lines m es (total_bytes es) = (drop (length es - m) es, total_bytes (drop (length es - m) es))"
  by (induction es) (auto simp: Suc_diff_le)

lemma clear_front_spec:
  "clear_front n es (total_bytes es) =
     (dropWhile (\<lambda>l. ll_seq l < n) es, total_bytes (dropWhile (\<lambda>l. ll_seq l < n) es))"
  by (induction es) auto

lemma length_trim_line:
  "as_option (max_bytes r) = Some m \<Longrightarrow> length (ll_line (trim_line r line)) \<le> m"
  by (simp add: trim_line_def trim_to_last_bytes_length)

lemma length_trim_line_le: "length (ll_line (trim_line r line)) \<le> length (ll_line line)"
  by (auto simp: trim_line_def suffix_length_le trim_to_last_bytes_suffix split: option.split)

lemma trim_line_simps [simp]:
  "ll_seq (trim_line r line) = ll_seq line"
  "ll_run_generation (trim_line r line) = ll_run_generation line"
  "ll_timestamp_unix_ms (trim_line r line) = ll_timestamp_unix_ms line"
  by (simp_all add: trim_line_def split: option.split)

text \<open>
  One push: the byte eviction leaves a suffix of the old entries in which the new line fits, the
  line is appended, and the line limit keeps the last entries.
\<close>

lemma buffer_push_spec:
  assumes wf: "buffer_wf b" and fits: "fits b line"
  obtains es where
    "suffix es (mb_entries b)"
    "mb_entries (buffer_push b line) =
       (let es' = es @ [trim_line (mb_retention b) line]
        in case as_option (max_lines (mb_retention b)) of
             None \<Rightarrow> es' | Some m \<Rightarrow> drop (length es' - m) es')"
    "mb_current_bytes (buffer_push b line) = total_bytes (mb_entries (buffer_push b line))"
    "within_limit (total_bytes (es @ [trim_line (mb_retention b) line])) (max_bytes (mb_retention b))"
proof -
  let ?l = "trim_line (mb_retention b) line"
  let ?n = "length (ll_line ?l)"
  obtain es cur where ev: "(case as_option (max_bytes (mb_retention b)) of
        Some m \<Rightarrow> evict_bytes m ?n (mb_entries b) (mb_current_bytes b)
      | None \<Rightarrow> (mb_entries b, mb_current_bytes b)) = (es, cur)"
    by (cases "case as_option (max_bytes (mb_retention b)) of
        Some m \<Rightarrow> evict_bytes m ?n (mb_entries b) (mb_current_bytes b)
      | None \<Rightarrow> (mb_entries b, mb_current_bytes b)") blast
  have cb: "mb_current_bytes b = total_bytes (mb_entries b)"
    using wf by (simp add: buffer_wf_def)
  have *: "suffix es (mb_entries b) \<and> cur = total_bytes es \<and>
      within_limit (total_bytes es + ?n) (max_bytes (mb_retention b)) \<and>
      total_bytes es + ?n \<le> USIZE_MAX"
  proof (cases "as_option (max_bytes (mb_retention b))")
    case None
    with ev cb fits length_trim_line_le [of "mb_retention b" line] show ?thesis
      by (auto simp: within_limit_def fits_def)
  next
    case (Some m)
    then have "evict_bytes m ?n (mb_entries b) (total_bytes (mb_entries b)) = (es, cur)"
      using ev cb by simp
    moreover have "m < USIZE_MAX" using fits Some by (simp add: fits_def)
    moreover have "?n \<le> m" using Some by (rule length_trim_line)
    ultimately show ?thesis
      using evict_bytes_spec [of m ?n "mb_entries b" es cur] Some
      by (auto simp: within_limit_def)
  qed
  then have add: "usize_saturating_add cur ?n = total_bytes (es @ [?l])"
    by (simp add: usize_saturating_add_exact)
  show thesis
  proof (rule that [of es])
    show "suffix es (mb_entries b)" using * by simp
    show "within_limit (total_bytes (es @ [?l])) (max_bytes (mb_retention b))"
      using * by simp
  qed (use ev add evict_lines_spec [of _ "es @ [?l]"] in
      \<open>auto simp: buffer_push_def Let_def split: option.splits\<close>)
qed

lemma mb_retention_push [simp]: "mb_retention (buffer_push b line) = mb_retention b"
  by (simp add: buffer_push_def Let_def split: prod.split)

lemma buffer_push_suffix:
  assumes "buffer_wf b" and "fits b line"
  shows "suffix (mb_entries (buffer_push b line)) (mb_entries b @ [trim_line (mb_retention b) line])"
proof -
  obtain es where "suffix es (mb_entries b)"
    and eq: "mb_entries (buffer_push b line) =
       (let es' = es @ [trim_line (mb_retention b) line]
        in case as_option (max_lines (mb_retention b)) of
             None \<Rightarrow> es' | Some m \<Rightarrow> drop (length es' - m) es')"
    using buffer_push_spec [OF assms] by blast
  then have s: "suffix (es @ [trim_line (mb_retention b) line])
      (mb_entries b @ [trim_line (mb_retention b) line])"
    by simp
  have "suffix (mb_entries (buffer_push b line)) (es @ [trim_line (mb_retention b) line])"
    unfolding eq Let_def
    by (cases "as_option (max_lines (mb_retention b))") (simp_all only: option.case suffix_drop suffix_order.refl)
  then show ?thesis using s by (rule suffix_order.trans)
qed

lemma sorted_wrt_suffix: "suffix xs ys \<Longrightarrow> sorted_wrt R ys \<Longrightarrow> sorted_wrt R xs"
  by (auto simp: suffix_def sorted_wrt_append)

text \<open>The line is newer than everything retained.\<close>

definition newer :: "memory_log_buffer \<Rightarrow> log_line \<Rightarrow> bool" where
  "newer b line \<longleftrightarrow> (\<forall>l \<in> set (mb_entries b). ll_seq l < ll_seq line)"

lemma buffer_push_wf:
  assumes wf: "buffer_wf b" and fits: "fits b line" and new: "newer b line"
  shows "buffer_wf (buffer_push b line)"
proof -
  let ?l = "trim_line (mb_retention b) line"
  obtain es where es: "suffix es (mb_entries b)"
    and eq: "mb_entries (buffer_push b line) = (let es' = es @ [?l]
        in case as_option (max_lines (mb_retention b)) of
             None \<Rightarrow> es' | Some m \<Rightarrow> drop (length es' - m) es')"
    and cb: "mb_current_bytes (buffer_push b line) = total_bytes (mb_entries (buffer_push b line))"
    and lim: "within_limit (total_bytes (es @ [?l])) (max_bytes (mb_retention b))"
    using buffer_push_spec [OF wf fits] by blast
  have suf: "suffix (mb_entries (buffer_push b line)) (es @ [?l])"
    unfolding eq Let_def
    by (cases "as_option (max_lines (mb_retention b))") (simp_all only: option.case suffix_drop suffix_order.refl)
  have "sorted_wrt (\<lambda>x y. ll_seq x < ll_seq y) (mb_entries b @ [?l])"
    using wf new by (auto simp: buffer_wf_def newer_def sorted_wrt_append)
  then have "sorted_wrt (\<lambda>x y. ll_seq x < ll_seq y) (mb_entries (buffer_push b line))"
    using sorted_wrt_suffix [OF buffer_push_suffix [OF wf fits]] by blast
  moreover have "within_limit (total_bytes (mb_entries (buffer_push b line))) (max_bytes (mb_retention b))"
    using within_limit_mono [OF total_bytes_suffix [OF suf] lim] .
  moreover have "within_limit (length (mb_entries (buffer_push b line))) (max_lines (mb_retention b))"
    unfolding eq Let_def within_limit_def
    by (cases "as_option (max_lines (mb_retention b))") (simp_all del: drop_append)
  ultimately show ?thesis using cb by (simp add: buffer_wf_def)
qed

lemma total_bytes_trim: "total_bytes (map (trim_line r) es) \<le> total_bytes es"
  by (induction es) (auto intro!: add_mono length_trim_line_le)

lemma buffer_new_simps [simp]:
  "mb_entries (buffer_new r) = []" "mb_retention (buffer_new r) = r"
  by (simp_all add: buffer_new_def)

lemma buffer_new_wf [simp]: "buffer_wf (buffer_new r)"
  by (simp add: buffer_new_def buffer_wf_def within_limit_def split: option.split)

definition fits_all :: "memory_log_retention \<Rightarrow> log_line list \<Rightarrow> bool" where
  "fits_all r es \<longleftrightarrow>
     (case as_option (max_bytes r) of
        Some m \<Rightarrow> m < USIZE_MAX | None \<Rightarrow> total_bytes es \<le> USIZE_MAX)"

lemma foldl_push_wf:
  assumes "sorted_wrt (\<lambda>x y. ll_seq x < ll_seq y) es" and "fits_all r es"
  shows "mb_retention (foldl buffer_push (buffer_new r) es) = r \<and>
    buffer_wf (foldl buffer_push (buffer_new r) es) \<and>
    suffix (mb_entries (foldl buffer_push (buffer_new r) es)) (map (trim_line r) es)"
  using assms
proof (induction es rule: rev_induct)
  case (snoc l es)
  let ?b = "foldl buffer_push (buffer_new r) es"
  have IH: "mb_retention ?b = r" "buffer_wf ?b" "suffix (mb_entries ?b) (map (trim_line r) es)"
    using snoc by (auto simp: sorted_wrt_append fits_all_def split: option.splits)
  have "fits ?b l"
    using total_bytes_suffix [OF IH(3)] total_bytes_trim [of r es] snoc.prems(2) IH(1)
    by (auto simp: fits_def fits_all_def split: option.splits)
  moreover have "newer ?b l"
    using set_mono_suffix [OF IH(3)] snoc.prems(1) by (fastforce simp: newer_def sorted_wrt_append)
  ultimately have "buffer_wf (buffer_push ?b l)"
    and "suffix (mb_entries (buffer_push ?b l)) (mb_entries ?b @ [trim_line r l])"
    using buffer_push_wf [of ?b l] buffer_push_suffix [of ?b l] IH by simp_all
  moreover have "suffix (mb_entries ?b @ [trim_line r l]) (map (trim_line r) (es @ [l]))"
    using IH(3) by simp
  ultimately show ?case
    using IH(1) by (auto intro: suffix_order.trans)
qed simp

lemma buffer_reconfigure_wf:
  assumes "buffer_wf b" and "fits_all r (mb_entries b)"
  shows "buffer_wf (buffer_reconfigure b r) \<and> mb_retention (buffer_reconfigure b r) = r \<and>
    suffix (mb_entries (buffer_reconfigure b r)) (map (trim_line r) (mb_entries b))"
proof -
  have "sorted_wrt (\<lambda>x y. ll_seq x < ll_seq y) (mb_entries b)"
    using assms(1) by (simp add: buffer_wf_def)
  then show ?thesis
    using foldl_push_wf [OF _ assms(2)] by (simp add: buffer_reconfigure_def)
qed

lemma buffer_clear_eq:
  "buffer_wf b \<Longrightarrow> buffer_clear_before_next_seq b n =
     b\<lparr>mb_entries := dropWhile (\<lambda>l. ll_seq l < n) (mb_entries b),
       mb_current_bytes := total_bytes (dropWhile (\<lambda>l. ll_seq l < n) (mb_entries b))\<rparr>"
  by (simp add: buffer_clear_before_next_seq_def buffer_wf_def clear_front_spec)

lemma buffer_suffix_wf:
  assumes "buffer_wf b" and "suffix es (mb_entries b)"
  shows "buffer_wf (b\<lparr>mb_entries := es, mb_current_bytes := total_bytes es\<rparr>)"
  using assms within_limit_mono [OF total_bytes_suffix [OF assms(2)]]
    within_limit_mono [OF suffix_length_le [OF assms(2)]] sorted_wrt_suffix [OF assms(2)]
  by (simp add: buffer_wf_def)

lemma suffix_dropWhile': "suffix (dropWhile p xs) xs"
  by (rule suffix_dropWhile)

lemma buffer_clear_wf: "buffer_wf b \<Longrightarrow> buffer_wf (buffer_clear_before_next_seq b n)"
  by (simp add: buffer_clear_eq buffer_suffix_wf suffix_dropWhile)

lemma sorted_partition:
  assumes "sorted_wrt (\<lambda>x y. f x < f y) xs"
  shows "dropWhile (\<lambda>x. f x \<le> (n :: 'b :: linorder)) xs = filter (\<lambda>x. n < f x) xs"
  using assms by (induction xs) (auto simp: filter_id_conv intro!: filter_True [symmetric])

lemma buffer_replace_last_wf:
  assumes wf: "buffer_wf b" and fits: "fits b line"
  shows "buffer_wf (buffer_replace_last b line)"
proof (cases "mb_entries b \<noteq> [] \<and> ll_seq (last (mb_entries b)) = ll_seq line")
  case True
  then obtain es l where es: "mb_entries b = es @ [l]" and seq: "ll_seq l = ll_seq line"
    by (metis append_butlast_last_id)
  let ?b = "b\<lparr>mb_entries := es, mb_current_bytes := total_bytes es\<rparr>"
  have "buffer_replace_last b line = buffer_push ?b line"
    using True wf by (simp add: buffer_replace_last_def es buffer_wf_def)
  moreover have "buffer_wf ?b"
  proof -
    have "within_limit (total_bytes es) (max_bytes (mb_retention b))"
      and "within_limit (length es) (max_lines (mb_retention b))"
      using wf within_limit_mono [of "total_bytes es" "total_bytes (es @ [l])"]
        within_limit_mono [of "length es" "length (es @ [l])"]
      by (auto simp: buffer_wf_def es)
    then show ?thesis using wf by (simp add: buffer_wf_def es sorted_wrt_append)
  qed
  moreover have "fits ?b line"
    using fits by (auto simp: fits_def es split: option.splits)
  moreover have "newer ?b line"
    using wf seq by (auto simp: newer_def buffer_wf_def es sorted_wrt_append)
  ultimately show ?thesis
    using buffer_push_wf [of ?b line] by simp
next
  case False
  then show ?thesis using wf by (auto simp: buffer_replace_last_def)
qed

text \<open>The cursors of the retained lines, and how each operation changes them.\<close>

definition buffer_seqs :: "memory_log_buffer \<Rightarrow> u64 list" where
  "buffer_seqs b = map ll_seq (mb_entries b)"

lemma evict_bytes_suffix: "suffix (fst (evict_bytes m n es cur)) es"
  by (induction es arbitrary: cur) (auto simp: suffix_ConsI)

lemma evict_lines_suffix: "suffix (fst (evict_lines m es cur)) es"
  by (induction es arbitrary: cur) (auto simp: suffix_ConsI)

lemma clear_front_suffix: "suffix (fst (clear_front n es cur)) es"
  by (induction es arbitrary: cur) (auto simp: suffix_ConsI)

lemma buffer_seqs_push: "suffix (buffer_seqs (buffer_push b line)) (buffer_seqs b @ [ll_seq line])"
proof -
  let ?l = "trim_line (mb_retention b) line"
  obtain es where es: "suffix es (mb_entries b)"
    and new: "suffix (mb_entries (buffer_push b line)) (es @ [?l])"
  proof -
    let ?r = "case as_option (max_bytes (mb_retention b)) of
        Some m \<Rightarrow> evict_bytes m (length (ll_line ?l)) (mb_entries b) (mb_current_bytes b)
      | None \<Rightarrow> (mb_entries b, mb_current_bytes b)"
    have "suffix (fst ?r) (mb_entries b)"
      by (simp add: evict_bytes_suffix split: option.split)
    moreover have "suffix (mb_entries (buffer_push b line)) (fst ?r @ [?l])"
      using evict_lines_suffix [of _ "fst ?r @ [?l]" "usize_saturating_add (snd ?r) (length (ll_line ?l))"]
      by (auto simp: buffer_push_def Let_def split_def split: option.splits)
    ultimately show ?thesis by (rule that)
  qed
  have "suffix (mb_entries (buffer_push b line)) (mb_entries b @ [?l])"
    using es by (intro suffix_order.trans [OF new]) simp
  then have "suffix (map ll_seq (mb_entries (buffer_push b line))) (map ll_seq (mb_entries b @ [?l]))"
    by (rule map_mono_suffix)
  then show ?thesis by (simp add: buffer_seqs_def)
qed

lemma buffer_seqs_replace: "suffix (buffer_seqs (buffer_replace_last b line)) (buffer_seqs b)"
proof (cases "mb_entries b \<noteq> [] \<and> ll_seq (last (mb_entries b)) = ll_seq line")
  case True
  let ?b = "b\<lparr>mb_entries := butlast (mb_entries b),
              mb_current_bytes := mb_current_bytes b - length (ll_line (last (mb_entries b)))\<rparr>"
  have "buffer_seqs ?b @ [ll_seq line] = buffer_seqs b"
    using True by (metis append_butlast_last_id buffer_seqs_def last_map list.map_disc_iff map_butlast
        memory_log_buffer.select_convs(1) memory_log_buffer.surjective
        memory_log_buffer.update_convs(1) memory_log_buffer.update_convs(2))
  then show ?thesis
    using True buffer_seqs_push [of ?b line] by (simp add: buffer_replace_last_def)
qed (auto simp: buffer_replace_last_def)

lemma buffer_seqs_foldl:
  "suffix (buffer_seqs (foldl buffer_push b es)) (buffer_seqs b @ map ll_seq es)"
proof (induction es arbitrary: b)
  case (Cons l es)
  have "suffix (buffer_seqs (buffer_push b l) @ map ll_seq es) ((buffer_seqs b @ [ll_seq l]) @ map ll_seq es)"
    using buffer_seqs_push [of b l] by (subst same_suffix_suffix) simp_all
  then show ?case
    using Cons [of "buffer_push b l"] by (auto intro: suffix_order.trans)
qed simp

lemma buffer_seqs_reconfigure: "suffix (buffer_seqs (buffer_reconfigure b r)) (buffer_seqs b)"
  using buffer_seqs_foldl [of "buffer_new r" "mb_entries b"]
  by (simp add: buffer_reconfigure_def buffer_seqs_def)

lemma buffer_seqs_clear: "suffix (buffer_seqs (buffer_clear_before_next_seq b n)) (buffer_seqs b)"
  using clear_front_suffix [of n "mb_entries b" "mb_current_bytes b"]
  by (auto simp: buffer_clear_before_next_seq_def buffer_seqs_def map_mono_suffix split: prod.split)

lemma buffer_seqs_new [simp]: "buffer_seqs (buffer_new r) = []"
  by (simp add: buffer_seqs_def)

section \<open>Properties\<close>

text \<open>
  Pushing a line that is newer than everything retained keeps the buffer well-formed (exact
  byte count, both retention limits, increasing cursors), and what it retains is a suffix of the
  old lines followed by the (byte-trimmed) new one: eviction only ever drops the oldest lines.
\<close>

theorem log_push_bounded_suffix:
  assumes "buffer_wf b" and "fits b line" and "newer b line"
  shows "buffer_wf (buffer_push b line) \<and>
    suffix (mb_entries (buffer_push b line)) (mb_entries b @ [trim_line (mb_retention b) line])"
  using buffer_push_wf [OF assms] buffer_push_suffix [OF assms(1,2)] by simp

theorem log_push_bounded_suffix_witness:
  "buffer_wf (buffer_push (buffer_new \<lparr>max_lines = LogLimit_Bounded 2, max_bytes = LogLimit_Bounded 8\<rparr>)
       \<lparr>ll_seq = 1, ll_run_generation = 1, ll_timestamp_unix_ms = 7, ll_line = ''hello world''\<rparr>) \<and>
   suffix (mb_entries (buffer_push (buffer_new \<lparr>max_lines = LogLimit_Bounded 2, max_bytes = LogLimit_Bounded 8\<rparr>)
       \<lparr>ll_seq = 1, ll_run_generation = 1, ll_timestamp_unix_ms = 7, ll_line = ''hello world''\<rparr>))
     [\<lparr>ll_seq = 1, ll_run_generation = 1, ll_timestamp_unix_ms = 7, ll_line = ''lo world''\<rparr>]"
  using log_push_bounded_suffix
    [of "buffer_new \<lparr>max_lines = LogLimit_Bounded 2, max_bytes = LogLimit_Bounded 8\<rparr>"
        "\<lparr>ll_seq = 1, ll_run_generation = 1, ll_timestamp_unix_ms = 7, ll_line = ''hello world''\<rparr>"]
  by (simp add: fits_def newer_def USIZE_MAX_def trim_line_def trim_to_last_bytes_def
      char_indices_def utf8_cont_def upt_rec)

text \<open>
  An incremental reader that passes the last cursor it saw gets exactly the retained lines with
  a larger cursor, no gap and no duplicate, plus the first retained cursor.
\<close>

theorem lines_since_exact:
  assumes "buffer_wf b"
  shows "buffer_lines_since b after =
    (map_option ll_seq (case mb_entries b of [] \<Rightarrow> None | l # _ \<Rightarrow> Some l),
     filter (\<lambda>l. after < ll_seq l) (mb_entries b))"
  using assms sorted_partition [of ll_seq "mb_entries b" after]
  by (simp add: buffer_lines_since_def partition_point_def first_retained_seq_def buffer_wf_def
      dropWhile_eq_drop [symmetric] split: list.split)

theorem lines_since_exact_witness:
  "buffer_lines_since
     (buffer_push (buffer_new default_memory_log_retention)
       \<lparr>ll_seq = 4, ll_run_generation = 1, ll_timestamp_unix_ms = 7, ll_line = ''up''\<rparr>) 3 =
   (Some 4, [\<lparr>ll_seq = 4, ll_run_generation = 1, ll_timestamp_unix_ms = 7, ll_line = ''up''\<rparr>])"
proof -
  let ?l = "\<lparr>ll_seq = 4, ll_run_generation = 1, ll_timestamp_unix_ms = 7, ll_line = ''up''\<rparr>"
  let ?b = "buffer_push (buffer_new default_memory_log_retention) ?l"
  have "buffer_wf ?b"
    by (rule buffer_push_wf)
       (simp_all add: fits_def newer_def USIZE_MAX_def default_memory_log_retention_def)
  moreover have "mb_entries ?b = [?l]"
    by (simp add: buffer_push_def buffer_new_def trim_line_def trim_to_last_bytes_def
        default_memory_log_retention_def usize_saturating_add_def USIZE_MAX_def)
  ultimately show ?thesis
    using lines_since_exact [of ?b 3] by simp
qed

text \<open>
  Reconfiguring the retention re-admits the retained lines under the new limits: the result is
  well-formed for them and keeps the newest lines, each trimmed to the new byte limit.
\<close>

theorem log_reconfigure_suffix:
  assumes "buffer_wf b" and "fits_all r (mb_entries b)"
  shows "buffer_wf (buffer_reconfigure b r) \<and> mb_retention (buffer_reconfigure b r) = r \<and>
    suffix (mb_entries (buffer_reconfigure b r)) (map (trim_line r) (mb_entries b))"
  by (rule buffer_reconfigure_wf [OF assms])

theorem log_reconfigure_suffix_witness:
  "buffer_wf (buffer_reconfigure
      (buffer_new default_memory_log_retention)
      \<lparr>max_lines = LogLimit_Bounded 1, max_bytes = LogLimit_Unbounded\<rparr>)"
  using log_reconfigure_suffix [of "buffer_new default_memory_log_retention"
      "\<lparr>max_lines = LogLimit_Bounded 1, max_bytes = LogLimit_Unbounded\<rparr>"]
  by (simp add: fits_all_def)

end
