(* ===== verification/Spec.thy ===== *)
theory Spec
  imports Prelude Log_Buffer
begin

text \<open>
  The normalized service definitions of \<^verbatim>\<open>src/crates/micromux/src/spec.rs\<close> and the runnable
  \<^verbatim>\<open>Service\<close> of \<^verbatim>\<open>src/crates/micromux/src/service.rs\<close>: validation of identifiers, normalization of
  commands and timings, the overlay of a partial definition, and the opening of the working
  directory a service is anchored to. The file system is a parameter.
\<close>

section \<open>Identifiers and timings\<close>

definition DEFAULT_HEALTHCHECK_INTERVAL :: duration where
  "DEFAULT_HEALTHCHECK_INTERVAL = from_secs 30"

definition DEFAULT_HEALTHCHECK_TIMEOUT :: duration where
  "DEFAULT_HEALTHCHECK_TIMEOUT = from_secs 30"

definition DEFAULT_STOP_GRACE_PERIOD :: duration where
  "DEFAULT_STOP_GRACE_PERIOD = from_secs 10"

definition MAX_STOP_GRACE_PERIOD :: duration where
  "MAX_STOP_GRACE_PERIOD = from_secs (5 * 60)"

definition is_ascii_alphanumeric :: "char \<Rightarrow> bool" where
  "is_ascii_alphanumeric c \<longleftrightarrow>
     (let n = of_char c :: nat in
        48 \<le> n \<and> n \<le> 57 \<or> 65 \<le> n \<and> n \<le> 90 \<or> 97 \<le> n \<and> n \<le> 122)"

definition service_id_is_valid :: "string \<Rightarrow> bool" where
  "service_id_is_valid i \<longleftrightarrow>
     1 \<le> length i \<and> length i \<le> 64 \<and>
     list_all (\<lambda>c. is_ascii_alphanumeric c \<or> c \<in> set ''._-'') i"

section \<open>Definitions of services\<close>

datatype dependency_condition =
    DependencyCondition_Started
  | DependencyCondition_Healthy
  | DependencyCondition_CompletedSuccessfully

record dependency_spec =
  dep_service :: service_id
  dep_condition :: dependency_condition

datatype restart_policy =
    RestartPolicy_Always
  | RestartPolicy_UnlessStopped
  | RestartPolicy_Never
  | RestartPolicy_OnFailure "usize option"

definition restart_policy_display :: "restart_policy \<Rightarrow> string" where
  "restart_policy_display p = (case p of
       RestartPolicy_Always \<Rightarrow> ''Always''
     | RestartPolicy_UnlessStopped \<Rightarrow> ''UnlessStopped''
     | RestartPolicy_Never \<Rightarrow> ''Never''
     | RestartPolicy_OnFailure None \<Rightarrow> ''OnFailure { max_attempts: None }''
     | RestartPolicy_OnFailure (Some n) \<Rightarrow>
         ''OnFailure { max_attempts: Some('' @ decimal n @ '') }'')"

record healthcheck_spec =
  hs_test :: "string list"
  hs_start_delay :: "duration option"
  hs_interval :: duration
  hs_timeout :: duration
  hs_retries :: usize

definition default_healthcheck_retries :: usize where
  "default_healthcheck_retries = 1"

definition healthcheck_spec_default :: healthcheck_spec where
  "healthcheck_spec_default =
     \<lparr> hs_test = [], hs_start_delay = None, hs_interval = DEFAULT_HEALTHCHECK_INTERVAL,
       hs_timeout = DEFAULT_HEALTHCHECK_TIMEOUT, hs_retries = default_healthcheck_retries \<rparr>"

text \<open>The health check of a parsed configuration file (\<^verbatim>\<open>config::HealthCheck\<close>, spans dropped).\<close>

record config_health_check =
  ch_test :: "string \<times> string list"
  ch_start_delay :: "duration option"
  ch_interval :: "duration option"
  ch_timeout :: "duration option"
  ch_retries :: "usize option"

definition healthcheck_spec_from :: "config_health_check \<Rightarrow> healthcheck_spec" where
  "healthcheck_spec_from h =
     \<lparr> hs_test = fst (ch_test h) # snd (ch_test h),
       hs_start_delay = ch_start_delay h,
       hs_interval = (case ch_interval h of None \<Rightarrow> DEFAULT_HEALTHCHECK_INTERVAL | Some d \<Rightarrow> d),
       hs_timeout = (case ch_timeout h of None \<Rightarrow> DEFAULT_HEALTHCHECK_TIMEOUT | Some d \<Rightarrow> d),
       hs_retries = max (case ch_retries h of None \<Rightarrow> 1 | Some n \<Rightarrow> n) 1 \<rparr>"

record service_spec =
  ss_name :: "string option"
  ss_command :: "string list"
  ss_working_dir :: "string option"
  ss_environment :: "(string, string) imap"
  ss_depends_on :: "dependency_spec list"
  ss_healthcheck :: "healthcheck_spec option"
  ss_ports :: "u16 list"
  ss_restart :: restart_policy
  ss_stop_grace_period :: duration

definition service_spec_default :: service_spec where
  "service_spec_default =
     \<lparr> ss_name = None, ss_command = [], ss_working_dir = None, ss_environment = [],
       ss_depends_on = [], ss_healthcheck = None, ss_ports = [],
       ss_restart = RestartPolicy_Never, ss_stop_grace_period = DEFAULT_STOP_GRACE_PERIOD \<rparr>"

record dynamic_origin =
  do_created_at_unix_ms :: u64
  do_expires_at_unix_ms :: "u64 option"
  do_owner :: "string option"
  do_revision :: u64

datatype service_origin = ServiceOrigin_Configured | ServiceOrigin_Dynamic dynamic_origin

datatype lease = Lease_After duration | Lease_Unbounded

datatype startup_mode = StartupMode_Enabled | StartupMode_Disabled

datatype retired_reason =
    RetiredReason_Stopped | RetiredReason_Expired | RetiredReason_Removed | RetiredReason_Unknown

section \<open>Normalization\<close>

datatype spec_error =
    SpecError_EmptyCommand
  | SpecError_ZeroHealthcheckInterval
  | SpecError_ZeroHealthcheckTimeout
  | SpecError_ZeroStopGracePeriod
  | SpecError_StopGracePeriodTooLong

fun spec_error_message :: "spec_error \<Rightarrow> string" where
  "spec_error_message SpecError_EmptyCommand = ''command is empty''"
| "spec_error_message SpecError_ZeroHealthcheckInterval =
     ''healthcheck interval must be greater than zero''"
| "spec_error_message SpecError_ZeroHealthcheckTimeout =
     ''healthcheck timeout must be greater than zero''"
| "spec_error_message SpecError_ZeroStopGracePeriod =
     ''stop grace period must be greater than zero''"
| "spec_error_message SpecError_StopGracePeriodTooLong =
     ''stop grace period must not exceed 5m''"

text \<open>The Unix form of a \<^verbatim>\<open>CMD-SHELL\<close> command.\<close>

fun normalize_command :: "string list \<Rightarrow> spec_error + string list" where
  "normalize_command [] = Inl SpecError_EmptyCommand"
| "normalize_command (first # rest) =
     (if first = ''CMD'' then
        if rest = [] then Inl SpecError_EmptyCommand else Inr rest
      else if first = ''CMD-SHELL'' then
        if rest = [] then Inl SpecError_EmptyCommand
        else Inr [''sh'', ''-c'', join_with '' '' rest]
      else Inr (first # rest))"

definition normalize_healthcheck :: "healthcheck_spec \<Rightarrow> spec_error + healthcheck_spec" where
  "normalize_healthcheck h =
     (case normalize_command (hs_test h) of
        Inl e \<Rightarrow> Inl e
      | Inr test \<Rightarrow>
          if hs_interval h = 0 then Inl SpecError_ZeroHealthcheckInterval
          else if hs_timeout h = 0 then Inl SpecError_ZeroHealthcheckTimeout
          else Inr (h\<lparr> hs_test := test, hs_retries := max (hs_retries h) 1 \<rparr>))"

text \<open>
  \<^verbatim>\<open>ServiceSpec::normalize\<close> mutates the definition in place. Its only caller drops the definition
  when the result is an error, so an error carries none.
\<close>

definition normalize :: "service_spec \<Rightarrow> spec_error + service_spec" where
  "normalize s =
     (case normalize_command (ss_command s) of
        Inl e \<Rightarrow> Inl e
      | Inr command \<Rightarrow>
          if ss_stop_grace_period s = 0 then Inl SpecError_ZeroStopGracePeriod
          else if MAX_STOP_GRACE_PERIOD < ss_stop_grace_period s
            then Inl SpecError_StopGracePeriodTooLong
          else
            (case ss_healthcheck s of
               None \<Rightarrow> Inr (s\<lparr> ss_command := command \<rparr>)
             | Some h \<Rightarrow>
                 (case normalize_healthcheck h of
                    Inl e \<Rightarrow> Inl e
                  | Inr h' \<Rightarrow> Inr (s\<lparr> ss_command := command, ss_healthcheck := Some h' \<rparr>))))"

section \<open>Partial definitions\<close>

datatype 'a spec_field = SpecField_Unspecified | SpecField_Clear | SpecField_Value 'a

record partial_service_spec =
  ps_name :: "string spec_field"
  ps_command :: "string list option"
  ps_working_dir :: "string spec_field"
  ps_environment :: "(string, string) imap option"
  ps_depends_on :: "dependency_spec list option"
  ps_healthcheck :: "healthcheck_spec spec_field"
  ps_ports :: "u16 list option"
  ps_restart :: "restart_policy option"
  ps_stop_grace_period :: "duration option"

fun overlay_field :: "'a spec_field \<Rightarrow> 'a option \<Rightarrow> 'a option" where
  "overlay_field SpecField_Unspecified old = old"
| "overlay_field SpecField_Clear old = None"
| "overlay_field (SpecField_Value v) old = Some v"

fun overlay_value :: "'a option \<Rightarrow> 'a \<Rightarrow> 'a" where
  "overlay_value None old = old"
| "overlay_value (Some v) old = v"

definition apply_to :: "partial_service_spec \<Rightarrow> service_spec \<Rightarrow> service_spec" where
  "apply_to p base =
     base\<lparr> ss_name := overlay_field (ps_name p) (ss_name base),
           ss_command := overlay_value (ps_command p) (ss_command base),
           ss_working_dir := overlay_field (ps_working_dir p) (ss_working_dir base),
           ss_environment :=
             (case ps_environment p of
                None \<Rightarrow> ss_environment base
              | Some env \<Rightarrow> im_extend (ss_environment base) env),
           ss_depends_on := overlay_value (ps_depends_on p) (ss_depends_on base),
           ss_healthcheck := overlay_field (ps_healthcheck p) (ss_healthcheck base),
           ss_ports := overlay_value (ps_ports p) (ss_ports base),
           ss_restart := overlay_value (ps_restart p) (ss_restart base),
           ss_stop_grace_period :=
             overlay_value (ps_stop_grace_period p) (ss_stop_grace_period base) \<rparr>"

record dynamic_service_params =
  dp_service :: service_id
  dp_spec :: partial_service_spec
  dp_from_service :: "service_id option"
  dp_extra_args :: "string list"
  dp_expires_after :: "lease option"
  dp_owner :: "string option"
  dp_idempotency_key :: "string option"

section \<open>Paths\<close>

fun split_path :: "string \<Rightarrow> string \<Rightarrow> string list" where
  "split_path acc [] = [rev acc]"
| "split_path acc (c # cs) =
     (if c = CHR ''/'' then rev acc # split_path [] cs else split_path (c # acc) cs)"

definition is_absolute :: "string \<Rightarrow> bool" where
  "is_absolute p \<longleftrightarrow> (case p of [] \<Rightarrow> False | c # _ \<Rightarrow> c = CHR ''/'')"

text \<open>\<^verbatim>\<open>Path::components\<close>: empty and \<^verbatim>\<open>.\<close> segments vanish, except a leading \<^verbatim>\<open>.\<close>.\<close>

definition path_components :: "string \<Rightarrow> string list" where
  "path_components p =
     (let segments = split_path [] p;
          lead = (if is_absolute p then [''/'']
                  else if hd segments = ''.'' then [''.''] else [])
      in lead @ filter (\<lambda>s. s \<noteq> [] \<and> s \<noteq> ''.'') segments)"

definition path_starts_with :: "string \<Rightarrow> string \<Rightarrow> bool" where
  "path_starts_with p root \<longleftrightarrow> prefix (path_components root) (path_components p)"

definition path_join :: "string \<Rightarrow> string \<Rightarrow> string" where
  "path_join base p =
     (if is_absolute p then p
      else if base = [] \<or> last base = CHR ''/'' then base @ p else base @ ''/'' @ p)"

section \<open>Runnable services\<close>

text \<open>
  An open working directory is a descriptor. \<^verbatim>\<open>fs_open\<close> opens a path, \<^verbatim>\<open>fs_is_dir\<close> reads the metadata
  of the opened file; both return the text of the operating system's error on the left.
  \<^verbatim>\<open>canonicalize\<close> resolves a path, \<^verbatim>\<open>fs_fd_path\<close> is the path of an open descriptor.
\<close>

record filesystem =
  fs_open :: "string \<Rightarrow> string + nat"
  fs_is_dir :: "nat \<Rightarrow> string + bool"
  fs_fd_path :: "nat \<Rightarrow> string"
  fs_canonicalize :: "string \<Rightarrow> string + string"

definition open_working_directory :: "filesystem \<Rightarrow> string option \<Rightarrow> string + nat option" where
  "open_working_directory fs path =
     (case path of
        None \<Rightarrow> Inr None
      | Some p \<Rightarrow>
          (case fs_open fs p of
             Inl e \<Rightarrow> Inl (''failed to access working directory '' @ p @ '': '' @ e)
           | Inr fd \<Rightarrow>
               (case fs_is_dir fs fd of
                  Inl e \<Rightarrow> Inl (''failed to access working directory '' @ p @ '': '' @ e)
                | Inr False \<Rightarrow>
                    Inl (''failed to access working directory '' @ p @ '': '' @
                         ''path is not a directory'')
                | Inr True \<Rightarrow> Inr (Some fd))))"

record service =
  svc_id :: service_id
  svc_spec :: service_spec
  svc_origin :: service_origin
  svc_startup_mode :: startup_mode
  svc_enable_color :: bool
  svc_log_retention :: log_retention
  svc_working_directory :: "nat option"

type_synonym service_map = "(service_id, service) imap"

definition service_dynamic ::
  "filesystem \<Rightarrow> service_id \<Rightarrow> service_spec \<Rightarrow> service_origin \<Rightarrow> log_retention \<Rightarrow> string + service"
where
  "service_dynamic fs i spec origin retention =
     (case open_working_directory fs (ss_working_dir spec) of
        Inl e \<Rightarrow> Inl e
      | Inr fd \<Rightarrow>
          Inr \<lparr> svc_id = i, svc_spec = spec, svc_origin = origin,
                svc_startup_mode = StartupMode_Enabled, svc_enable_color = True,
                svc_log_retention = retention, svc_working_directory = fd \<rparr>)"

definition replace_spec :: "filesystem \<Rightarrow> service_spec \<Rightarrow> service \<Rightarrow> string + service" where
  "replace_spec fs spec s =
     (case open_working_directory fs (ss_working_dir spec) of
        Inl e \<Rightarrow> Inl e
      | Inr fd \<Rightarrow> Inr (s\<lparr> svc_spec := spec, svc_working_directory := fd \<rparr>))"

definition spawn_working_directory :: "filesystem \<Rightarrow> service \<Rightarrow> string option" where
  "spawn_working_directory fs s = map_option (fs_fd_path fs) (svc_working_directory s)"

definition argv :: "service \<Rightarrow> string list" where
  "argv s = ss_command (svc_spec s)"

definition working_dir_display :: "service \<Rightarrow> string option" where
  "working_dir_display s = ss_working_dir (svc_spec s)"

definition display_name :: "service \<Rightarrow> string" where
  "display_name s = (case ss_name (svc_spec s) of None \<Rightarrow> svc_id s | Some n \<Rightarrow> n)"

fun is_dynamic_origin :: "service_origin \<Rightarrow> bool" where
  "is_dynamic_origin ServiceOrigin_Configured = False"
| "is_dynamic_origin (ServiceOrigin_Dynamic _) = True"

definition depends_on_ids :: "service \<Rightarrow> service_id list" where
  "depends_on_ids s = map dep_service (ss_depends_on (svc_spec s))"

section \<open>Properties\<close>

text \<open>A command that can be spawned, and one that normalization leaves alone.\<close>

definition plain_command :: "string list \<Rightarrow> bool" where
  "plain_command c \<longleftrightarrow> c \<noteq> [] \<and> hd c \<notin> {''CMD'', ''CMD-SHELL''}"

definition healthcheck_ok :: "healthcheck_spec \<Rightarrow> bool" where
  "healthcheck_ok h \<longleftrightarrow>
     hs_test h \<noteq> [] \<and> 0 < hs_interval h \<and> 0 < hs_timeout h \<and> 1 \<le> hs_retries h"

definition spec_ok :: "service_spec \<Rightarrow> bool" where
  "spec_ok s \<longleftrightarrow>
     ss_command s \<noteq> [] \<and> 0 < ss_stop_grace_period s \<and>
     ss_stop_grace_period s \<le> MAX_STOP_GRACE_PERIOD \<and>
     (case ss_healthcheck s of None \<Rightarrow> True | Some h \<Rightarrow> healthcheck_ok h)"

text \<open>What normalization is free to change.\<close>

definition same_but_commands :: "service_spec \<Rightarrow> service_spec \<Rightarrow> bool" where
  "same_but_commands s t \<longleftrightarrow>
     t\<lparr> ss_command := ss_command s, ss_healthcheck := ss_healthcheck s \<rparr> = s \<and>
     map_option (\<lambda>h. (hs_start_delay h, hs_interval h, hs_timeout h)) (ss_healthcheck t) =
     map_option (\<lambda>h. (hs_start_delay h, hs_interval h, hs_timeout h)) (ss_healthcheck s)"

lemma normalize_command_nonempty: "normalize_command c = Inr c' \<Longrightarrow> c' \<noteq> []"
  by (cases c) (auto split: if_splits)

lemma normalize_command_plain: "plain_command c \<Longrightarrow> normalize_command c = Inr c"
  by (cases c) (auto simp: plain_command_def)

lemma normalize_command_error:
  "normalize_command c = Inl e \<longleftrightarrow>
     e = SpecError_EmptyCommand \<and> (c = [] \<or> c = [''CMD''] \<or> c = [''CMD-SHELL''])"
  by (cases c) auto

lemma normalize_healthcheck_ok:
  "normalize_healthcheck h = Inr h' \<Longrightarrow>
     healthcheck_ok h' \<and> hs_start_delay h' = hs_start_delay h \<and>
     hs_interval h' = hs_interval h \<and> hs_timeout h' = hs_timeout h"
  by (auto simp: normalize_healthcheck_def healthcheck_ok_def dest: normalize_command_nonempty
      split: sum.splits if_splits)

lemma normalize_healthcheck_idem:
  "healthcheck_ok h \<Longrightarrow> plain_command (hs_test h) \<Longrightarrow> normalize_healthcheck h = Inr h"
  by (simp add: normalize_healthcheck_def healthcheck_ok_def normalize_command_plain max_absorb1)

lemma normalize_imp_spec_ok: "normalize s = Inr s' \<Longrightarrow> spec_ok s'"
  by (auto simp: normalize_def spec_ok_def dest: normalize_command_nonempty normalize_healthcheck_ok
      split: sum.splits if_splits option.splits)

text \<open>
  Normalization. When \<^verbatim>\<open>ServiceSpec::normalize\<close> accepts a definition, the result has a command
  to execute, a graceful-stop window of more than zero and at most five minutes, and, if it has a
  health check, a probe command, a positive interval, a positive timeout and at least one retry;
  nothing but the two commands and the retry count differs from the input. It rejects exactly the
  definitions with an empty command or a timing outside these bounds, and a definition whose
  commands carry no \<^verbatim>\<open>CMD\<close> or \<^verbatim>\<open>CMD-SHELL\<close> marker is already normal.
\<close>

theorem normalize_postcondition:
  "(normalize s = Inr s' \<longrightarrow> spec_ok s' \<and> same_but_commands s s') \<and>
   (isl (normalize s) \<longleftrightarrow>
      isl (normalize_command (ss_command s)) \<or> ss_stop_grace_period s = 0 \<or>
      MAX_STOP_GRACE_PERIOD < ss_stop_grace_period s \<or>
      (\<exists>h. ss_healthcheck s = Some h \<and>
         (isl (normalize_command (hs_test h)) \<or> hs_interval h = 0 \<or> hs_timeout h = 0))) \<and>
   (spec_ok s \<and> plain_command (ss_command s) \<and>
      (\<forall>h. ss_healthcheck s = Some h \<longrightarrow> plain_command (hs_test h)) \<longrightarrow> normalize s = Inr s)"
proof (intro conjI impI)
  assume N: "normalize s = Inr s'"
  then show "spec_ok s'"
    by (rule normalize_imp_spec_ok)
  show "same_but_commands s s'"
    using N by (auto simp: normalize_def same_but_commands_def dest: normalize_healthcheck_ok
        split: sum.splits if_splits option.splits)
next
  show "isl (normalize s) \<longleftrightarrow>
      isl (normalize_command (ss_command s)) \<or> ss_stop_grace_period s = 0 \<or>
      MAX_STOP_GRACE_PERIOD < ss_stop_grace_period s \<or>
      (\<exists>h. ss_healthcheck s = Some h \<and>
         (isl (normalize_command (hs_test h)) \<or> hs_interval h = 0 \<or> hs_timeout h = 0))"
    by (auto simp: normalize_def normalize_healthcheck_def split: sum.splits option.splits)
next
  assume "spec_ok s \<and> plain_command (ss_command s) \<and>
    (\<forall>h. ss_healthcheck s = Some h \<longrightarrow> plain_command (hs_test h))"
  then show "normalize s = Inr s"
    by (auto simp: normalize_def spec_ok_def normalize_command_plain normalize_healthcheck_idem
        split: option.splits)
qed

definition example_spec :: service_spec where
  "example_spec = service_spec_default\<lparr> ss_command := [''CMD-SHELL'', ''serve'', ''--fast''],
     ss_healthcheck := Some (healthcheck_spec_default\<lparr> hs_test := [''CMD'', ''probe''],
       hs_retries := 0 \<rparr>) \<rparr>"

definition example_normal :: service_spec where
  "example_normal = service_spec_default\<lparr> ss_command := [''sh'', ''-c'', ''serve --fast''],
     ss_healthcheck := Some (healthcheck_spec_default\<lparr> hs_test := [''probe''],
       hs_retries := 1 \<rparr>) \<rparr>"

lemma example_spec_normalizes: "normalize example_spec = Inr example_normal"
  by (simp add: example_spec_def example_normal_def normalize_def normalize_healthcheck_def
      service_spec_default_def healthcheck_spec_default_def machine_defs DEFAULT_STOP_GRACE_PERIOD_def
      MAX_STOP_GRACE_PERIOD_def DEFAULT_HEALTHCHECK_INTERVAL_def DEFAULT_HEALTHCHECK_TIMEOUT_def
      default_healthcheck_retries_def)

theorem normalize_postcondition_witness:
  "spec_ok example_normal \<and> same_but_commands example_spec example_normal"
  using normalize_postcondition [of example_spec example_normal] example_spec_normalizes by simp

text \<open>
  Normalization of an already normalized definition may strip a second marker: a clone of a
  service whose normalized command starts with a program named \<^verbatim>\<open>CMD\<close> runs another command.
\<close>

lemma normalize_twice_differs:
  "normalize_command [''CMD'', ''CMD'', ''x''] = Inr [''CMD'', ''x''] \<and>
   normalize_command [''CMD'', ''x''] = Inr [''x'']"
  by simp

definition unspecified :: partial_service_spec where
  "unspecified =
     \<lparr> ps_name = SpecField_Unspecified, ps_command = None, ps_working_dir = SpecField_Unspecified,
       ps_environment = None, ps_depends_on = None, ps_healthcheck = SpecField_Unspecified,
       ps_ports = None, ps_restart = None, ps_stop_grace_period = None \<rparr>"

lemma overlay_field_twice [simp]: "overlay_field f (overlay_field f x) = overlay_field f x"
  by (cases f) simp_all

lemma overlay_value_twice [simp]: "overlay_value f (overlay_value f x) = overlay_value f x"
  by (cases f) simp_all

text \<open>
  The overlay of a partial definition. \<^verbatim>\<open>PartialServiceSpec::apply_to\<close> lets every given field win
  and keeps the base everywhere else: the merged environment maps a key to the overriding value if
  there is one and to the base value otherwise, the base keys keep their order and the new ones
  follow, a partial definition with no field is neutral, and applying the same one twice changes
  nothing more.
\<close>

theorem apply_to_overlay:
  assumes "im_wf (ss_environment base)" and "\<And>env. ps_environment p = Some env \<Longrightarrow> im_wf env"
  shows "ss_name (apply_to p base) = overlay_field (ps_name p) (ss_name base) \<and>
         ss_command (apply_to p base) = overlay_value (ps_command p) (ss_command base) \<and>
         im_get (ss_environment (apply_to p base)) =
           (case ps_environment p of None \<Rightarrow> im_get (ss_environment base)
            | Some env \<Rightarrow> im_get (ss_environment base) ++ im_get env) \<and>
         prefix (im_keys (ss_environment base)) (im_keys (ss_environment (apply_to p base))) \<and>
         im_wf (ss_environment (apply_to p base)) \<and>
         apply_to unspecified base = base \<and>
         apply_to p (apply_to p base) = apply_to p base"
  using assms
  by (auto simp: apply_to_def imap_simps im_keys_extend im_extend_twice unspecified_def
      split: option.split)

theorem apply_to_overlay_witness:
  "apply_to (unspecified\<lparr> ps_name := SpecField_Clear, ps_environment := Some [(''B'', ''2''), (''A'', ''1'')] \<rparr>)
     (example_spec\<lparr> ss_name := Some ''web'', ss_environment := [(''A'', ''0'')] \<rparr>) =
   example_spec\<lparr> ss_environment := [(''A'', ''1''), (''B'', ''2'')] \<rparr> \<and>
   im_wf (ss_environment
     (apply_to (unspecified\<lparr> ps_environment := Some [(''B'', ''2''), (''A'', ''1'')] \<rparr>) example_spec))"
  using apply_to_overlay [of example_spec "unspecified\<lparr> ps_environment := Some [(''B'', ''2''), (''A'', ''1'')] \<rparr>"]
  by (simp add: apply_to_def unspecified_def example_spec_def service_spec_default_def
      im_wf_def im_keys_def)


section \<open>An example service\<close>

definition example_service :: "service_id \<Rightarrow> service_id list \<Rightarrow> service" where
  "example_service i ds =
     \<lparr> svc_id = i,
       svc_spec = example_normal\<lparr> ss_depends_on :=
         map (\<lambda>d. \<lparr> dep_service = d, dep_condition = DependencyCondition_Started \<rparr>) ds \<rparr>,
       svc_origin = ServiceOrigin_Configured, svc_startup_mode = StartupMode_Enabled,
       svc_enable_color = True, svc_log_retention = default_log_retention,
       svc_working_directory = None \<rparr>"

lemma depends_on_ids_example [simp]: "depends_on_ids (example_service i ds) = ds"
  by (simp add: depends_on_ids_def example_service_def comp_def)

end
