(* ===== verification/Snapshot.thy ===== *)
theory Snapshot
  imports Spec
begin

text \<open>
  The data that the session model publishes, \<^verbatim>\<open>src/crates/micromux/src/model.rs\<close>: snapshots of
  services, lifecycle events and the banners that mirror some of them in the log, change
  notifications, health attempts.
\<close>

section \<open>Snapshots\<close>

definition MODEL_STRING_MAX_BYTES :: usize where
  "MODEL_STRING_MAX_BYTES = 16 * 1024"

definition HEALTH_HISTORY :: usize where
  "HEALTH_HISTORY = 8"

definition HEALTH_OUTPUT_MAX_LINES :: usize where
  "HEALTH_OUTPUT_MAX_LINES = 200"

definition EVENT_HISTORY :: usize where
  "EVENT_HISTORY = 256"

datatype health = Health_Healthy | Health_Unhealthy | Health_Unknown

datatype desired = Desired_Enabled | Desired_Disabled | Desired_Unknown

datatype execution =
    Execution_Pending
  | Execution_Blocked
  | Execution_Starting
  | Execution_Running
  | Execution_Stopping
  | Execution_Exited
  | Execution_Unknown

datatype origin_kind = OriginKind_Configured | OriginKind_Dynamic | OriginKind_Unknown

record dynamic_service_info =
  di_created_at_unix_ms :: u64
  di_expires_at_unix_ms :: "u64 option"
  di_owner :: "string option"
  di_revision :: u64

record healthcheck_config =
  hc_retries :: usize
  hc_interval :: duration
  hc_timeout :: duration

definition healthcheck_config_from :: "healthcheck_spec \<Rightarrow> healthcheck_config" where
  "healthcheck_config_from h =
     \<lparr> hc_retries = hs_retries h, hc_interval = hs_interval h, hc_timeout = hs_timeout h \<rparr>"

record restart_state =
  rst_backoff_delay :: duration
  rst_restarts_remaining :: "usize option"

record service_snapshot =
  sn_id :: service_id
  sn_name :: string
  sn_origin :: origin_kind
  sn_dynamic :: "dynamic_service_info option"
  sn_retired :: "retired_reason option"
  sn_retired_at_unix_ms :: "u64 option"
  sn_desired :: desired
  sn_execution :: execution
  sn_health :: "health option"
  sn_run_generation :: u64
  sn_pid :: "u32 option"
  sn_started_at_unix_ms :: "u64 option"
  sn_advertised_ports :: "u16 list"
  sn_healthcheck_configured :: bool
  sn_healthcheck :: "healthcheck_config option"
  sn_stop_grace_period :: duration
  sn_config_stale :: bool
  sn_restart_state :: "restart_state option"
  sn_last_exit_code :: "i32 option"
  sn_command :: "string list"
  sn_working_dir :: "string option"
  sn_uptime :: "duration option"
  sn_restart_policy :: restart_policy

definition snapshot_initial ::
  "service_id \<Rightarrow> string \<Rightarrow> u16 list \<Rightarrow> healthcheck_config option \<Rightarrow> restart_policy \<Rightarrow>
   string list \<Rightarrow> string option \<Rightarrow> service_snapshot"
where
  "snapshot_initial i name ports healthcheck policy command working_dir =
     \<lparr> sn_id = i, sn_name = name, sn_origin = OriginKind_Configured, sn_dynamic = None,
       sn_retired = None, sn_retired_at_unix_ms = None, sn_desired = Desired_Enabled,
       sn_execution = Execution_Pending, sn_health = None, sn_run_generation = 0, sn_pid = None,
       sn_started_at_unix_ms = None, sn_advertised_ports = ports,
       sn_healthcheck_configured = (healthcheck \<noteq> None), sn_healthcheck = healthcheck,
       sn_stop_grace_period = DEFAULT_STOP_GRACE_PERIOD, sn_config_stale = False,
       sn_restart_state = None, sn_last_exit_code = None, sn_command = command,
       sn_working_dir = working_dir, sn_uptime = None, sn_restart_policy = policy \<rparr>"

section \<open>Lifecycle events\<close>

datatype service_event_kind =
    ServiceEventKind_RestartRequested
  | ServiceEventKind_EnableRequested
  | ServiceEventKind_DisableRequested
  | ServiceEventKind_ConfigReloaded
  | ServiceEventKind_SpawnFailed
  | ServiceEventKind_Spawned
  | ServiceEventKind_Healthy
  | ServiceEventKind_Unhealthy
  | ServiceEventKind_Exited
  | ServiceEventKind_BackoffScheduled
  | ServiceEventKind_DependencyBlocked
  | ServiceEventKind_DependencyReady
  | ServiceEventKind_InputDropped
  | ServiceEventKind_Created
  | ServiceEventKind_Replaced
  | ServiceEventKind_LeaseRenewed
  | ServiceEventKind_Retired
  | ServiceEventKind_Unknown

record service_event =
  se_seq :: u64
  se_at_unix_ms :: u64
  se_run_generation :: u64
  se_kind :: service_event_kind
  se_detail :: string
  se_exit_code :: "i32 option"
  se_pid :: "u32 option"
  se_delay_ms :: "u64 option"
  se_blocked_on :: "service_id list option"

definition BANNER_WIDTH :: usize where
  "BANNER_WIDTH = 56"

definition BANNER_MIN_FILL :: usize where
  "BANNER_MIN_FILL = 3"

text \<open>The number of characters of a UTF-8 string, \<^verbatim>\<open>label.chars().count()\<close>.\<close>

definition chars_count :: "string \<Rightarrow> nat" where
  "chars_count s = length (char_indices s)"

definition ESC :: char where
  "ESC = CHR 0x1B"

definition banner_line :: "string \<Rightarrow> string" where
  "banner_line label =
     (let fill = max (BANNER_WIDTH - (chars_count label + 2)) (2 * BANNER_MIN_FILL);
          left = replicate (fill div 2) CHR ''='';
          right = replicate (fill - fill div 2) CHR ''=''
      in ESC # ''[1;34m'' @ left @ '' '' @ label @ '' '' @ right @ [ESC] @ ''[0m'')"

definition log_banner :: "service_event \<Rightarrow> string option" where
  "log_banner e =
     (if se_kind e \<in> {ServiceEventKind_RestartRequested, ServiceEventKind_EnableRequested,
         ServiceEventKind_DisableRequested, ServiceEventKind_SpawnFailed,
         ServiceEventKind_BackoffScheduled, ServiceEventKind_DependencyBlocked,
         ServiceEventKind_DependencyReady, ServiceEventKind_InputDropped,
         ServiceEventKind_Replaced, ServiceEventKind_Retired}
      then Some (banner_line (se_detail e)) else None)"

text \<open>
  \<^verbatim>\<open>service_event\<close> of \<^verbatim>\<open>scheduler.rs\<close>; the reading of the wall clock is \<open>None\<close> when the clock is
  before the epoch.
\<close>

definition service_event :: "u64 option \<Rightarrow> u64 \<Rightarrow> service_event_kind \<Rightarrow> string \<Rightarrow> service_event" where
  "service_event unix run_generation kind detail =
     \<lparr> se_seq = 0, se_at_unix_ms = (case unix of None \<Rightarrow> 0 | Some t \<Rightarrow> t),
       se_run_generation = run_generation, se_kind = kind, se_detail = detail,
       se_exit_code = None, se_pid = None, se_delay_ms = None, se_blocked_on = None \<rparr>"

section \<open>Changes, health attempts\<close>

datatype change_kind =
    ChangeKind_Status
  | ChangeKind_Logs
  | ChangeKind_Health
  | ChangeKind_Roster
  | ChangeKind_Events
  | ChangeKind_Heartbeat
  | ChangeKind_Unknown

record session_change =
  ch_service_id :: service_id
  ch_kind :: change_kind

datatype output_stream = OutputStream_Stdout | OutputStream_Stderr | OutputStream_Unknown

datatype log_update_kind = LogUpdateKind_Append | LogUpdateKind_LiveSnapshot u64

record health_line =
  hl_stream :: output_stream
  hl_line :: string

record health_result =
  hr_success :: bool
  hr_exit_code :: i32
  hr_cancelled :: bool

record health_attempt =
  ha_run_generation :: u64
  ha_attempt :: u64
  ha_command :: string
  ha_output :: "health_line list"
  ha_result :: "health_result option"

section \<open>The width of a banner\<close>

lemma chars_count_filter: "chars_count s = length (filter (\<lambda>c. \<not> utf8_cont c) s)"
proof -
  have "map ((!) s) (char_indices s) = filter (\<lambda>c. \<not> utf8_cont c) (map ((!) s) [0..<length s])"
    by (simp add: char_indices_def filter_map comp_def)
  then have "length (char_indices s) = length (filter (\<lambda>c. \<not> utf8_cont c) s)"
    by (metis length_map map_nth)
  then show ?thesis by (simp add: chars_count_def)
qed

lemma chars_count_append [simp]: "chars_count (s @ t) = chars_count s + chars_count t"
  by (simp add: chars_count_filter)

lemma chars_count_Nil [simp]: "chars_count [] = 0"
  by (simp add: chars_count_filter)

lemma chars_count_Cons [simp]: "chars_count (c # s) = (if utf8_cont c then 0 else 1) + chars_count s"
  by (simp add: chars_count_filter)

lemma chars_count_replicate [simp]: "\<not> utf8_cont c \<Longrightarrow> chars_count (replicate n c) = n"
  by (simp add: chars_count_filter)

lemma no_cont_ascii [simp]: "utf8_cont c \<longleftrightarrow> 128 \<le> (of_char c :: nat) \<and> (of_char c :: nat) < 192"
  by (simp add: utf8_cont_def Let_def)

text \<open>The colour sequences around a banner take eleven characters.\<close>

text \<open>
  Lifecycle banners. A banner carries its label between two rules of at least three signs each
  whose lengths differ by at most one; not counting the eleven characters of the two colour
  sequences it is exactly 56 characters wide when the label has at most 48 characters, and eight
  characters wider than the label when it is longer.
\<close>

theorem banner_line_width:
  "\<exists>l r. banner_line label =
      (ESC # ''[1;34m'') @ replicate l CHR ''='' @ '' '' @ label @ '' '' @ replicate r CHR ''='' @
      (ESC # ''[0m'') \<and>
     3 \<le> l \<and> l \<le> r \<and> r \<le> l + 1 \<and>
     chars_count (banner_line label) =
       11 + (if chars_count label \<le> 48 then 56 else chars_count label + 8)"
proof -
  define fill where "fill = max (BANNER_WIDTH - (chars_count label + 2)) (2 * BANNER_MIN_FILL)"
  have fill: "fill = (if chars_count label \<le> 48 then 54 - chars_count label else 6)"
    by (simp add: fill_def BANNER_WIDTH_def BANNER_MIN_FILL_def)
  have eq: "banner_line label =
      (ESC # ''[1;34m'') @ replicate (fill div 2) CHR ''='' @ '' '' @ label @ '' '' @
      replicate (fill - fill div 2) CHR ''='' @ (ESC # ''[0m'')"
    by (simp add: banner_line_def fill_def Let_def)
  have "chars_count (banner_line label) = 11 + (fill + 2 + chars_count label)"
    by (simp add: eq ESC_def)
  then have "chars_count (banner_line label) =
       11 + (if chars_count label \<le> 48 then 56 else chars_count label + 8)"
    by (simp add: fill)
  moreover have "3 \<le> fill div 2" "fill div 2 \<le> fill - fill div 2"
    "fill - fill div 2 \<le> fill div 2 + 1"
    by (auto simp: fill)
  ultimately show ?thesis
    using eq by blast
qed

end
