(* ===== verification/Input.thy ===== *)
theory Input
  imports Prelude "HOL-Library.Multiset"
begin

text \<open>
  Terminal input on its way to a service, \<^verbatim>\<open>src/crates/micromux/src/scheduler/input.rs\<close>: a byte
  budget shared by the whole session with a share per service, the reservations that prepared
  payloads hold in it, and the bounded queue to the scheduler. A reservation is released by
  \<^verbatim>\<open>Drop\<close>; the operation \<open>release\<close> is that destructor. The identity of the shared budget
  (\<^verbatim>\<open>Arc::ptr_eq\<close>) is a number.
\<close>

section \<open>The budget\<close>

definition MAX_PTY_INPUT_BATCH_BYTES :: usize where
  "MAX_PTY_INPUT_BATCH_BYTES = 64 * 1024"

definition MAX_PTY_PASTE_BYTES :: usize where
  "MAX_PTY_PASTE_BYTES = 1024 * 1024"

definition PTY_INPUT_GLOBAL_MAX_BYTES :: usize where
  "PTY_INPUT_GLOBAL_MAX_BYTES = 8 * MAX_PTY_PASTE_BYTES"

definition PTY_INPUT_PER_SERVICE_MAX_BYTES :: usize where
  "PTY_INPUT_PER_SERVICE_MAX_BYTES = 2 * MAX_PTY_PASTE_BYTES"

definition PTY_INPUT_CHANNEL_CAPACITY :: usize where
  "PTY_INPUT_CHANNEL_CAPACITY = 64"

definition usize_checked_add :: "usize \<Rightarrow> usize \<Rightarrow> usize option" where
  "usize_checked_add a b = (if a + b \<le> USIZE_MAX then Some (a + b) else None)"

record input_budget =
  ib_id :: nat
  ib_used :: usize
  ib_per_service :: "(service_id, usize) imap"
  ib_max_bytes :: usize
  ib_per_service_max_bytes :: usize

record input_permit =
  ip_budget :: nat
  ip_service_id :: service_id
  ip_bytes :: usize

datatype input_budget_exhausted = InputBudgetExhausted_Global | InputBudgetExhausted_Service

definition shared_with_limits :: "nat \<Rightarrow> usize \<Rightarrow> usize \<Rightarrow> input_budget" where
  "shared_with_limits i max_bytes per_service_max_bytes =
     \<lparr> ib_id = i, ib_used = 0, ib_per_service = [], ib_max_bytes = max_bytes,
       ib_per_service_max_bytes = per_service_max_bytes \<rparr>"

definition budget_shared :: "nat \<Rightarrow> input_budget" where
  "budget_shared i =
     shared_with_limits i PTY_INPUT_GLOBAL_MAX_BYTES PTY_INPUT_PER_SERVICE_MAX_BYTES"

definition service_used :: "input_budget \<Rightarrow> service_id \<Rightarrow> usize" where
  "service_used b s = (case im_get (ib_per_service b) s of None \<Rightarrow> 0 | Some n \<Rightarrow> n)"

definition try_reserve ::
  "input_budget \<Rightarrow> service_id \<Rightarrow> usize \<Rightarrow>
   input_budget_exhausted + (input_budget \<times> input_permit)"
where
  "try_reserve b s bytes =
     (case usize_checked_add (ib_used b) bytes of
        None \<Rightarrow> Inl InputBudgetExhausted_Global
      | Some next_global \<Rightarrow>
          if ib_max_bytes b < next_global then Inl InputBudgetExhausted_Global
          else
            (case usize_checked_add (service_used b s) bytes of
               None \<Rightarrow> Inl InputBudgetExhausted_Service
             | Some next_service \<Rightarrow>
                 if ib_per_service_max_bytes b < next_service
                 then Inl InputBudgetExhausted_Service
                 else
                   Inr (b\<lparr> ib_used := next_global,
                           ib_per_service :=
                             (if 0 < bytes then im_insert s next_service (ib_per_service b)
                              else ib_per_service b) \<rparr>,
                        \<lparr> ip_budget = ib_id b, ip_service_id = s, ip_bytes = bytes \<rparr>)))"

definition absorb :: "input_permit \<Rightarrow> input_permit \<Rightarrow> input_permit" where
  "absorb p other = p\<lparr> ip_bytes := ip_bytes p + ip_bytes other \<rparr>"

definition release :: "input_permit \<Rightarrow> input_budget \<Rightarrow> input_budget" where
  "release p b =
     (if ip_bytes p = 0 then b
      else
        let b = b\<lparr> ib_used := ib_used b - ip_bytes p \<rparr> in
        case im_get (ib_per_service b) (ip_service_id p) of
          None \<Rightarrow> b
        | Some n \<Rightarrow>
            if n - ip_bytes p = 0
            then b\<lparr> ib_per_service := im_remove (ip_service_id p) (ib_per_service b) \<rparr>
            else b\<lparr> ib_per_service :=
                     im_insert (ip_service_id p) (n - ip_bytes p) (ib_per_service b) \<rparr>)"

section \<open>Prepared input\<close>

datatype pty_input_kind = PtyInputKind_Input | PtyInputKind_Paste

fun kind_as_str :: "pty_input_kind \<Rightarrow> string" where
  "kind_as_str PtyInputKind_Input = ''input''"
| "kind_as_str PtyInputKind_Paste = ''paste''"

fun kind_max_bytes :: "pty_input_kind \<Rightarrow> usize" where
  "kind_max_bytes PtyInputKind_Input = MAX_PTY_INPUT_BATCH_BYTES"
| "kind_max_bytes PtyInputKind_Paste = MAX_PTY_PASTE_BYTES"

record prepared_pty_input =
  pi_service_id :: service_id
  pi_data :: string
  pi_kind :: pty_input_kind
  pi_permit :: input_permit

datatype pty_input_prepare_error =
    PtyInputPrepareError_TooLarge pty_input_kind usize usize
  | PtyInputPrepareError_BudgetExhausted pty_input_kind usize usize
  | PtyInputPrepareError_ServiceBudgetExhausted pty_input_kind usize usize

definition prepare ::
  "input_budget \<Rightarrow> service_id \<Rightarrow> string \<Rightarrow> pty_input_kind \<Rightarrow>
   pty_input_prepare_error + (input_budget \<times> prepared_pty_input)"
where
  "prepare b s data kind =
     (let bytes = length data; max_bytes = kind_max_bytes kind in
      if max_bytes < bytes then Inl (PtyInputPrepareError_TooLarge kind bytes max_bytes)
      else
        case try_reserve b s bytes of
          Inl InputBudgetExhausted_Global \<Rightarrow>
            Inl (PtyInputPrepareError_BudgetExhausted kind bytes (ib_max_bytes b))
        | Inl InputBudgetExhausted_Service \<Rightarrow>
            Inl (PtyInputPrepareError_ServiceBudgetExhausted kind bytes
                  (ib_per_service_max_bytes b))
        | Inr (b', permit) \<Rightarrow>
            Inr (b', \<lparr> pi_service_id = s, pi_data = data, pi_kind = kind, pi_permit = permit \<rparr>))"

text \<open>\<^verbatim>\<open>try_merge\<close> gives the other payload back on the left when the two do not merge.\<close>

definition try_merge ::
  "prepared_pty_input \<Rightarrow> prepared_pty_input \<Rightarrow> prepared_pty_input + prepared_pty_input"
where
  "try_merge i other =
     (if pi_kind i \<noteq> PtyInputKind_Input \<or> pi_kind other \<noteq> PtyInputKind_Input \<or>
         pi_service_id i \<noteq> pi_service_id other \<or>
         ip_budget (pi_permit i) \<noteq> ip_budget (pi_permit other) \<or>
         MAX_PTY_INPUT_BATCH_BYTES < length (pi_data i) + length (pi_data other)
      then Inl other
      else Inr (i\<lparr> pi_data := pi_data i @ pi_data other,
                   pi_permit := absorb (pi_permit i) (pi_permit other) \<rparr>))"

section \<open>The queue to the scheduler\<close>

record 'a channel =
  chan_items :: "'a list"
  chan_capacity :: usize
  chan_closed :: bool

datatype 'a try_send_error = TrySendError_Full 'a | TrySendError_Closed 'a

definition channel_try_send :: "'a channel \<Rightarrow> 'a \<Rightarrow> 'a try_send_error + 'a channel" where
  "channel_try_send c x =
     (if chan_closed c then Inl (TrySendError_Closed x)
      else if chan_capacity c \<le> length (chan_items c) then Inl (TrySendError_Full x)
      else Inr (c\<lparr> chan_items := chan_items c @ [x] \<rparr>))"

datatype pty_input_send_error =
    PtyInputSendError_Full prepared_pty_input
  | PtyInputSendError_Closed prepared_pty_input
  | PtyInputSendError_WrongSession prepared_pty_input

record terminal_control =
  tc_input :: "prepared_pty_input channel"
  tc_budget :: input_budget

definition terminal_channel :: "nat \<Rightarrow> terminal_control" where
  "terminal_channel i =
     \<lparr> tc_input = \<lparr> chan_items = [], chan_capacity = PTY_INPUT_CHANNEL_CAPACITY,
                    chan_closed = False \<rparr>,
       tc_budget = budget_shared i \<rparr>"

definition prepare_input ::
  "terminal_control \<Rightarrow> service_id \<Rightarrow> string \<Rightarrow>
   pty_input_prepare_error + (terminal_control \<times> prepared_pty_input)"
where
  "prepare_input tc s data =
     map_sum id (map_prod (\<lambda>b. tc\<lparr> tc_budget := b \<rparr>) id)
       (prepare (tc_budget tc) s data PtyInputKind_Input)"

definition prepare_paste ::
  "terminal_control \<Rightarrow> service_id \<Rightarrow> string \<Rightarrow>
   pty_input_prepare_error + (terminal_control \<times> prepared_pty_input)"
where
  "prepare_paste tc s data =
     map_sum id (map_prod (\<lambda>b. tc\<lparr> tc_budget := b \<rparr>) id)
       (prepare (tc_budget tc) s data PtyInputKind_Paste)"

definition terminal_try_send ::
  "terminal_control \<Rightarrow> prepared_pty_input \<Rightarrow> pty_input_send_error + terminal_control"
where
  "terminal_try_send tc i =
     (if ib_id (tc_budget tc) \<noteq> ip_budget (pi_permit i)
      then Inl (PtyInputSendError_WrongSession i)
      else
        case channel_try_send (tc_input tc) i of
          Inr c \<Rightarrow> Inr (tc\<lparr> tc_input := c \<rparr>)
        | Inl (TrySendError_Full x) \<Rightarrow> Inl (PtyInputSendError_Full x)
        | Inl (TrySendError_Closed x) \<Rightarrow> Inl (PtyInputSendError_Closed x))"

section \<open>The session as a machine\<close>

text \<open>
  All prepared payloads that exist, whichever queue or writer holds them, and the moves the code
  makes on them: reserve a payload, be refused, merge two, drop one (after a write, a rejected
  send, or with the queue that held it).
\<close>

record input_session =
  is_budget :: input_budget
  is_held :: "prepared_pty_input list"

datatype input_event =
    Input_Prepare service_id string pty_input_kind
  | Input_Refuse service_id string pty_input_kind pty_input_prepare_error
  | Input_Merge
  | Input_Drop

inductive input_step :: "input_session \<Rightarrow> input_event \<Rightarrow> input_session \<Rightarrow> bool" where
  input_prepare:
    "prepare (is_budget st) s data kind = Inr (b, i) \<Longrightarrow>
     input_step st (Input_Prepare s data kind)
       \<lparr> is_budget = b, is_held = is_held st @ [i] \<rparr>"
| input_refuse:
    "prepare (is_budget st) s data kind = Inl e \<Longrightarrow>
     input_step st (Input_Refuse s data kind e) st"
| input_merge:
    "is_held st = xs @ i # ys @ other # zs \<Longrightarrow> try_merge i other = Inr i' \<Longrightarrow>
     input_step st Input_Merge (st\<lparr> is_held := xs @ i' # ys @ zs \<rparr>)"
| input_drop:
    "is_held st = xs @ i # ys \<Longrightarrow>
     input_step st Input_Drop
       \<lparr> is_budget = release (pi_permit i) (is_budget st), is_held = xs @ ys \<rparr>"

inductive_cases input_stepE: "input_step st e st'"

definition session_new :: "nat \<Rightarrow> input_session" where
  "session_new i = \<lparr> is_budget = budget_shared i, is_held = [] \<rparr>"

text \<open>The payload bytes alive, in all and for one service.\<close>

definition held_bytes :: "prepared_pty_input list \<Rightarrow> nat" where
  "held_bytes xs = sum_list (map (\<lambda>i. length (pi_data i)) xs)"

definition held_for :: "service_id \<Rightarrow> prepared_pty_input list \<Rightarrow> nat" where
  "held_for s xs = held_bytes (filter (\<lambda>i. pi_service_id i = s) xs)"

definition input_ok :: "input_budget \<Rightarrow> prepared_pty_input \<Rightarrow> bool" where
  "input_ok b i \<longleftrightarrow>
     pi_permit i = \<lparr> ip_budget = ib_id b, ip_service_id = pi_service_id i,
                     ip_bytes = length (pi_data i) \<rparr> \<and>
     length (pi_data i) \<le> kind_max_bytes (pi_kind i)"

definition budget_inv :: "input_session \<Rightarrow> bool" where
  "budget_inv st \<longleftrightarrow>
     im_wf (ib_per_service (is_budget st)) \<and>
     (\<forall>i \<in> set (is_held st). input_ok (is_budget st) i) \<and>
     ib_used (is_budget st) = held_bytes (is_held st) \<and>
     (\<forall>s. im_get (ib_per_service (is_budget st)) s =
        (if held_for s (is_held st) = 0 then None else Some (held_for s (is_held st)))) \<and>
     held_bytes (is_held st) \<le> ib_max_bytes (is_budget st) \<and>
     (\<forall>s. held_for s (is_held st) \<le> ib_per_service_max_bytes (is_budget st))"

lemma held_bytes_simps [simp]:
  "held_bytes [] = 0"
  "held_bytes (i # xs) = length (pi_data i) + held_bytes xs"
  "held_bytes (xs @ ys) = held_bytes xs + held_bytes ys"
  by (simp_all add: held_bytes_def)

lemma held_for_simps [simp]:
  "held_for s [] = 0"
  "held_for s (i # xs) = (if pi_service_id i = s then length (pi_data i) else 0) + held_for s xs"
  "held_for s (xs @ ys) = held_for s xs + held_for s ys"
  by (simp_all add: held_for_def)

lemma held_for_le: "held_for s xs \<le> held_bytes xs"
  by (induction xs) auto

lemma budget_inv_service_used: "budget_inv st \<Longrightarrow> service_used (is_budget st) s = held_for s (is_held st)"
  by (simp add: budget_inv_def service_used_def)

lemma try_reserve_Inr:
  "try_reserve b s n = Inr (b', p) \<Longrightarrow>
     b' = b\<lparr> ib_used := ib_used b + n,
             ib_per_service := (if 0 < n then im_insert s (service_used b s + n) (ib_per_service b)
                                else ib_per_service b) \<rparr> \<and>
     p = \<lparr> ip_budget = ib_id b, ip_service_id = s, ip_bytes = n \<rparr> \<and>
     ib_used b + n \<le> ib_max_bytes b \<and> service_used b s + n \<le> ib_per_service_max_bytes b"
  by (auto simp: try_reserve_def usize_checked_add_def split: if_splits)

lemma prepare_Inr:
  "prepare b s data kind = Inr (b', i) \<longleftrightarrow>
     length data \<le> kind_max_bytes kind \<and>
     (\<exists>p. try_reserve b s (length data) = Inr (b', p) \<and>
        i = \<lparr> pi_service_id = s, pi_data = data, pi_kind = kind, pi_permit = p \<rparr>)"
  by (auto simp: prepare_def Let_def split: sum.splits input_budget_exhausted.splits prod.splits)

lemma prepare_inv:
  assumes "budget_inv st" and "prepare (is_budget st) s data kind = Inr (b, i)"
  shows "budget_inv \<lparr> is_budget = b, is_held = is_held st @ [i] \<rparr>"
proof -
  obtain p where p: "try_reserve (is_budget st) s (length data) = Inr (b, p)"
    and i: "i = \<lparr> pi_service_id = s, pi_data = data, pi_kind = kind, pi_permit = p \<rparr>"
    and len: "length data \<le> kind_max_bytes kind"
    using assms(2) by (auto simp: prepare_Inr)
  have "\<And>i. input_ok (is_budget st) i \<Longrightarrow> input_ok b i"
    using try_reserve_Inr [OF p] by (simp add: input_ok_def)
  moreover have "input_ok b i"
    using try_reserve_Inr [OF p] len by (simp add: input_ok_def i)
  ultimately show ?thesis
    using try_reserve_Inr [OF p] assms(1) budget_inv_service_used [OF assms(1), of s]
    by (auto simp: budget_inv_def i imap_simps fun_upd_apply)
qed

lemma budget_inv_same_bytes:
  "budget_inv st \<Longrightarrow> \<forall>i \<in> set xs. input_ok (is_budget st) i \<Longrightarrow>
   held_bytes xs = held_bytes (is_held st) \<Longrightarrow>
   (\<And>s. held_for s xs = held_for s (is_held st)) \<Longrightarrow> budget_inv (st\<lparr> is_held := xs \<rparr>)"
  by (simp add: budget_inv_def)

lemma merge_inv:
  assumes "budget_inv st" and "is_held st = xs @ i # ys @ other # zs"
    and "try_merge i other = Inr i'"
  shows "budget_inv (st\<lparr> is_held := xs @ i' # ys @ zs \<rparr>)"
proof -
  have i': "i' = i\<lparr> pi_data := pi_data i @ pi_data other,
                    pi_permit := absorb (pi_permit i) (pi_permit other) \<rparr>"
    and kind: "pi_kind i = PtyInputKind_Input" "pi_service_id other = pi_service_id i"
    and len: "length (pi_data i) + length (pi_data other) \<le> MAX_PTY_INPUT_BATCH_BYTES"
    using assms(3) by (auto simp: try_merge_def split: if_splits)
  have ok: "\<forall>j \<in> set (xs @ i # ys @ other # zs). input_ok (is_budget st) j"
    using assms(1) unfolding budget_inv_def assms(2) by blast
  show ?thesis
  proof (rule budget_inv_same_bytes [OF assms(1)])
    show "\<forall>j \<in> set (xs @ i' # ys @ zs). input_ok (is_budget st) j"
      using ok kind len by (auto simp: input_ok_def i' absorb_def)
    show "held_for s (xs @ i' # ys @ zs) = held_for s (is_held st)" for s
      by (simp add: assms(2) i' kind)
  qed (simp add: assms(2) i')
qed

lemma release_get:
  "ip_bytes p \<noteq> 0 \<Longrightarrow> im_get (ib_per_service b) (ip_service_id p) = Some n \<Longrightarrow>
   im_get (ib_per_service (release p b)) s =
     (if s = ip_service_id p then if n - ip_bytes p = 0 then None else Some (n - ip_bytes p)
      else im_get (ib_per_service b) s)"
  by (simp add: release_def Let_def imap_simps)

lemma release_inv:
  assumes "budget_inv st" and "is_held st = xs @ i # ys"
  shows "budget_inv \<lparr> is_budget = release (pi_permit i) (is_budget st), is_held = xs @ ys \<rparr>"
proof -
  let ?b = "is_budget st"
  let ?n = "length (pi_data i)"
  have ok: "input_ok ?b i" and sum: "ib_used ?b = held_bytes (xs @ ys) + ?n"
    and per: "\<And>s. im_get (ib_per_service ?b) s =
        (if held_for s (is_held st) = 0 then None else Some (held_for s (is_held st)))"
    using assms by (simp_all add: budget_inv_def)
  have same: "input_ok (release (pi_permit i) ?b) j = input_ok ?b j" for j
    by (simp add: input_ok_def release_def Let_def split: option.split)
  have limits: "ib_max_bytes (release (pi_permit i) ?b) = ib_max_bytes ?b"
    "ib_per_service_max_bytes (release (pi_permit i) ?b) = ib_per_service_max_bytes ?b"
    "im_wf (ib_per_service (release (pi_permit i) ?b))"
    using assms(1) by (simp_all add: budget_inv_def release_def Let_def split: option.split)
  have used: "ib_used (release (pi_permit i) ?b) = held_bytes (xs @ ys)"
    using ok sum by (simp add: input_ok_def release_def Let_def split: option.split)
  have mine: "held_for (pi_service_id i) (is_held st) = held_for (pi_service_id i) (xs @ ys) + ?n"
    by (simp add: assms(2))
  have "im_get (ib_per_service (release (pi_permit i) ?b)) s =
      (if held_for s (xs @ ys) = 0 then None else Some (held_for s (xs @ ys)))" for s
  proof (cases "?n = 0")
    case True
    then show ?thesis
      using ok per [of s] by (simp add: release_def input_ok_def assms(2))
  next
    case False
    then have here: "im_get (ib_per_service ?b) (pi_service_id i) =
        Some (held_for (pi_service_id i) (xs @ ys) + ?n)"
      using per [of "pi_service_id i"] mine by simp
    have permit: "ip_bytes (pi_permit i) = ?n" "ip_service_id (pi_permit i) = pi_service_id i"
      using ok by (simp_all add: input_ok_def)
    have "held_for s (is_held st) = held_for s (xs @ ys)" if "s \<noteq> pi_service_id i"
      using that by (simp add: assms(2))
    then show ?thesis
      using release_get [of "pi_permit i" ?b _ s] permit here False per [of s]
      by (simp del: held_for_simps)
  qed
  moreover have "held_bytes (xs @ ys) \<le> ib_max_bytes ?b"
    using assms by (simp add: budget_inv_def)
  moreover have "held_for s (xs @ ys) \<le> ib_per_service_max_bytes ?b" for s
  proof -
    have "held_for s (xs @ ys) \<le> held_for s (is_held st)"
      by (simp add: assms(2))
    also have "\<dots> \<le> ib_per_service_max_bytes ?b"
      using assms(1) by (simp add: budget_inv_def)
    finally show ?thesis .
  qed
  moreover have "\<forall>j \<in> set (xs @ ys). input_ok (release (pi_permit i) ?b) j"
    using assms unfolding same budget_inv_def by auto
  ultimately show ?thesis
    unfolding budget_inv_def by (simp add: limits used del: held_bytes_simps held_for_simps)
qed

interpretation input: invariant_machine input_step budget_inv
proof unfold_locales
  fix st e st'
  assume "budget_inv st" and "input_step st e st'"
  then show "budget_inv st'"
    by (auto elim!: input_stepE intro: prepare_inv merge_inv release_inv)
qed

definition same_limits :: "input_budget \<Rightarrow> input_budget \<Rightarrow> bool" where
  "same_limits b b' \<longleftrightarrow>
     ib_id b' = ib_id b \<and> ib_max_bytes b' = ib_max_bytes b \<and>
     ib_per_service_max_bytes b' = ib_per_service_max_bytes b"

lemma release_same_limits: "same_limits b0 b \<Longrightarrow> same_limits b0 (release p b)"
  by (simp add: same_limits_def release_def Let_def split: option.split)

lemma prepare_same_limits:
  "prepare b s data kind = Inr (b', i) \<Longrightarrow> same_limits b0 b \<Longrightarrow> same_limits b0 b'"
  by (auto simp: prepare_Inr same_limits_def dest!: try_reserve_Inr)

interpretation input_limits: invariant_machine input_step "\<lambda>st. same_limits b (is_budget st)"
  by unfold_locales (auto elim!: input_stepE intro: release_same_limits prepare_same_limits)

lemma session_new_inv: "budget_inv (session_new i)"
  by (simp add: session_new_def budget_inv_def budget_shared_def shared_with_limits_def)

lemma empty_budget:
  assumes "budget_inv st" and "is_held st = []"
  shows "ib_used (is_budget st) = 0" and "ib_per_service (is_budget st) = []"
proof -
  show "ib_used (is_budget st) = 0"
    using assms by (simp add: budget_inv_def)
  have "im_get (ib_per_service (is_budget st)) s = None" for s
    using assms by (simp add: budget_inv_def)
  then show "ib_per_service (is_budget st) = []"
    by (metis dom_eq_empty_conv map_of_eq_empty_iff)
qed

text \<open>
  C2. Accounting of terminal input. After any sequence of reservations, refusals, merges and
  releases in a session, the budget's counters are exactly the bytes of the payloads that are
  alive, in all and per service, so at most 8 MiB of input are retained by the session and at most
  2 MiB by one service; when no payload is left the budget is the one the session started with.
\<close>

theorem input_budget_accounting:
  assumes "run input_step (session_new i) es st"
  shows "ib_used (is_budget st) = held_bytes (is_held st) \<and>
         held_bytes (is_held st) \<le> 8 * 1024 * 1024 \<and>
         service_used (is_budget st) s = held_for s (is_held st) \<and>
         held_for s (is_held st) \<le> 2 * 1024 * 1024 \<and>
         (is_held st = [] \<longrightarrow> is_budget st = budget_shared i)"
proof -
  have inv: "budget_inv st"
    using assms session_new_inv by (rule input.run_inv)
  have "same_limits (budget_shared i) (is_budget (session_new i))"
    by (simp add: session_new_def same_limits_def)
  then have lim: "same_limits (budget_shared i) (is_budget st)"
    using input_limits.run_inv [OF assms] by blast
  then have max: "ib_max_bytes (is_budget st) = 8 * 1024 * 1024"
    "ib_per_service_max_bytes (is_budget st) = 2 * 1024 * 1024"
    by (simp_all add: same_limits_def budget_shared_def shared_with_limits_def
        PTY_INPUT_GLOBAL_MAX_BYTES_def PTY_INPUT_PER_SERVICE_MAX_BYTES_def MAX_PTY_PASTE_BYTES_def)
  have "is_budget st = budget_shared i" if "is_held st = []"
    using empty_budget [OF inv that] lim
    by (simp add: same_limits_def budget_shared_def shared_with_limits_def)
  then show ?thesis
    using inv budget_inv_service_used [OF inv, of s] max by (simp add: budget_inv_def)
qed

theorem input_budget_accounting_witness:
  "held_for ''web''
     [\<lparr> pi_service_id = ''web'', pi_data = ''ls'', pi_kind = PtyInputKind_Input,
        pi_permit = \<lparr> ip_budget = 7, ip_service_id = ''web'', ip_bytes = 2 \<rparr> \<rparr>] \<le> 2 * 1024 * 1024"
proof -
  let ?i = "\<lparr> pi_service_id = ''web'', pi_data = ''ls'', pi_kind = PtyInputKind_Input,
        pi_permit = \<lparr> ip_budget = 7, ip_service_id = ''web'', ip_bytes = 2 \<rparr> \<rparr>"
  let ?b = "(budget_shared 7)\<lparr> ib_used := 2, ib_per_service := [(''web'', 2)] \<rparr>"
  have "prepare (budget_shared 7) ''web'' ''ls'' PtyInputKind_Input = Inr (?b, ?i)"
    by (simp add: prepare_def try_reserve_def usize_checked_add_def budget_shared_def
        shared_with_limits_def service_used_def USIZE_MAX_def MAX_PTY_INPUT_BATCH_BYTES_def
        PTY_INPUT_GLOBAL_MAX_BYTES_def PTY_INPUT_PER_SERVICE_MAX_BYTES_def MAX_PTY_PASTE_BYTES_def)
  then have "run input_step (session_new 7) [Input_Prepare ''web'' ''ls'' PtyInputKind_Input]
      \<lparr> is_budget = ?b, is_held = [?i] \<rparr>"
    using input_prepare [of "session_new 7"] by (fastforce simp: session_new_def run_Cons_iff)
  from input_budget_accounting [OF this, of "''web''"] show ?thesis by simp
qed

text \<open>
  What is refused. With the counters exact, \<^verbatim>\<open>PreparedPtyInput::prepare\<close> accepts a payload if and
  only if it is within the bound of its kind, the session's total with it is within the session
  budget and the service's total with it is within the service's share; the error names the first
  of the three bounds that is exceeded.
\<close>

theorem prepare_accepts_iff_fits:
  assumes "budget_inv st" and "ib_max_bytes (is_budget st) \<le> USIZE_MAX"
    and "ib_per_service_max_bytes (is_budget st) \<le> USIZE_MAX"
  shows "case prepare (is_budget st) s data kind of
      Inr (b, i) \<Rightarrow> length data \<le> kind_max_bytes kind \<and>
        held_bytes (is_held st @ [i]) \<le> ib_max_bytes b \<and>
        held_for s (is_held st @ [i]) \<le> ib_per_service_max_bytes b \<and>
        pi_data i = data \<and> pi_service_id i = s
    | Inl (PtyInputPrepareError_TooLarge k n m) \<Rightarrow>
        k = kind \<and> n = length data \<and> m = kind_max_bytes kind \<and> m < n
    | Inl (PtyInputPrepareError_BudgetExhausted k n m) \<Rightarrow>
        k = kind \<and> n = length data \<and> n \<le> kind_max_bytes kind \<and>
        m = ib_max_bytes (is_budget st) \<and> m < held_bytes (is_held st) + n
    | Inl (PtyInputPrepareError_ServiceBudgetExhausted k n m) \<Rightarrow>
        k = kind \<and> n = length data \<and> n \<le> kind_max_bytes kind \<and>
        held_bytes (is_held st) + n \<le> ib_max_bytes (is_budget st) \<and>
        m = ib_per_service_max_bytes (is_budget st) \<and> m < held_for s (is_held st) + n"
proof -
  have "ib_used (is_budget st) = held_bytes (is_held st)"
    using assms(1) by (simp add: budget_inv_def)
  then show ?thesis
    using assms(2,3) budget_inv_service_used [OF assms(1), of s]
    by (simp add: prepare_def try_reserve_def usize_checked_add_def Let_def not_le
        split: option.split)
qed

theorem prepare_accepts_iff_fits_witness:
  "case prepare (budget_shared 0) ''web'' ''q'' PtyInputKind_Input of
     Inl _ \<Rightarrow> False | Inr (b, i) \<Rightarrow> pi_data i = ''q''"
proof -
  have "\<exists>r. prepare (budget_shared 0) ''web'' ''q'' PtyInputKind_Input = Inr r"
    by (simp add: prepare_def try_reserve_def usize_checked_add_def budget_shared_def
        shared_with_limits_def service_used_def USIZE_MAX_def MAX_PTY_INPUT_BATCH_BYTES_def
        PTY_INPUT_GLOBAL_MAX_BYTES_def PTY_INPUT_PER_SERVICE_MAX_BYTES_def MAX_PTY_PASTE_BYTES_def)
  then obtain b i where p: "prepare (budget_shared 0) ''web'' ''q'' PtyInputKind_Input = Inr (b, i)"
    by auto
  have "ib_max_bytes (budget_shared 0) \<le> USIZE_MAX" "ib_per_service_max_bytes (budget_shared 0) \<le> USIZE_MAX"
    by (simp_all add: budget_shared_def shared_with_limits_def USIZE_MAX_def
        PTY_INPUT_GLOBAL_MAX_BYTES_def PTY_INPUT_PER_SERVICE_MAX_BYTES_def MAX_PTY_PASTE_BYTES_def)
  then show ?thesis
    using prepare_accepts_iff_fits [OF session_new_inv [of 0], of PtyInputKind_Input "''q''" "''web''"] p
    by (simp add: session_new_def)
qed

end
