(* ===== verification/Runtime.thy ===== *)
theory Runtime
  imports Snapshot Input
begin

text \<open>
  The runtime state of one service, \<^verbatim>\<open>ServiceRuntime\<close> of \<^verbatim>\<open>src/crates/micromux/src/scheduler.rs\<close>, with
  its restart tracker, its live process, the readers that still drain a finished run, and the
  throttle of dropped-input reports; and the projection of that state into a snapshot. A handler
  reads the monotonic clock \<open>now\<close> and the wall clock \<open>unix\<close>, which are arguments.
\<close>

section \<open>Constants and states\<close>

definition RESTART_BACKOFF_BASE :: duration where
  "RESTART_BACKOFF_BASE = from_millis 250"

definition RESTART_BACKOFF_MAX :: duration where
  "RESTART_BACKOFF_MAX = from_secs 10"

definition RESTART_BACKOFF_RESET :: duration where
  "RESTART_BACKOFF_RESET = RESTART_BACKOFF_MAX"

definition POST_EXIT_DRAIN_GRACE :: duration where
  "POST_EXIT_DRAIN_GRACE = from_secs 5"

definition INPUT_DROP_REPORT_INTERVAL :: duration where
  "INPUT_DROP_REPORT_INTERVAL = from_secs 1"

datatype desired_state = DesiredState_Enabled | DesiredState_Disabled

type_synonym run_id = u64

datatype state =
    State_Pending
  | State_Starting
  | State_Running "health option"
  | State_Disabled
  | State_Exited i32
  | State_Killed

section \<open>Restart tracking\<close>

record restart_tracker =
  rt_backoff_until :: "instant option"
  rt_backoff_delay :: "duration option"
  rt_on_failure_max :: "usize option"
  rt_on_failure_remaining :: "usize option"

fun on_failure_max :: "restart_policy \<Rightarrow> usize option" where
  "on_failure_max (RestartPolicy_OnFailure (Some n)) = Some n"
| "on_failure_max _ = None"

definition restart_tracker_new :: "restart_policy \<Rightarrow> restart_tracker" where
  "restart_tracker_new policy =
     \<lparr> rt_backoff_until = None, rt_backoff_delay = None,
       rt_on_failure_max = on_failure_max policy,
       rt_on_failure_remaining = on_failure_max policy \<rparr>"

definition tracker_reconfigure :: "restart_policy \<Rightarrow> restart_tracker \<Rightarrow> restart_tracker" where
  "tracker_reconfigure policy t =
     (if rt_on_failure_max t \<noteq> on_failure_max policy
      then t\<lparr> rt_on_failure_max := on_failure_max policy,
              rt_on_failure_remaining := on_failure_max policy \<rparr>
      else t)"

definition clear_backoff :: "restart_tracker \<Rightarrow> restart_tracker" where
  "clear_backoff t = t\<lparr> rt_backoff_until := None, rt_backoff_delay := None \<rparr>"

definition reset_failure_budget :: "restart_tracker \<Rightarrow> restart_tracker" where
  "reset_failure_budget t = t\<lparr> rt_on_failure_remaining := rt_on_failure_max t \<rparr>"

definition next_delay :: "duration option \<Rightarrow> duration" where
  "next_delay d = (case d of None \<Rightarrow> RESTART_BACKOFF_BASE | Some d \<Rightarrow> min (d * 2) RESTART_BACKOFF_MAX)"

definition apply_backoff :: "instant \<Rightarrow> bool \<Rightarrow> restart_tracker \<Rightarrow> restart_tracker" where
  "apply_backoff now is_stable t =
     (let t = (if is_stable then reset_failure_budget (t\<lparr> rt_backoff_delay := None \<rparr>) else t);
          d = next_delay (rt_backoff_delay t)
      in t\<lparr> rt_backoff_delay := Some d, rt_backoff_until := Some (now + d) \<rparr>)"

fun remaining_failure_restarts :: "restart_policy \<Rightarrow> restart_tracker \<Rightarrow> usize option" where
  "remaining_failure_restarts (RestartPolicy_OnFailure (Some n)) t =
     Some (case rt_on_failure_remaining t of None \<Rightarrow> n | Some r \<Rightarrow> r)"
| "remaining_failure_restarts _ t = None"

fun decrement_failure_restart :: "restart_policy \<Rightarrow> restart_tracker \<Rightarrow> restart_tracker" where
  "decrement_failure_restart (RestartPolicy_OnFailure (Some n)) t =
     t\<lparr> rt_on_failure_remaining :=
          Some ((case rt_on_failure_remaining t of None \<Rightarrow> n | Some r \<Rightarrow> r) - 1) \<rparr>"
| "decrement_failure_restart _ t = t"

definition active_restart_state ::
  "instant \<Rightarrow> restart_policy \<Rightarrow> restart_tracker \<Rightarrow> restart_state option"
where
  "active_restart_state now policy t =
     (case (rt_backoff_until t, rt_backoff_delay t) of
        (Some deadline, Some d) \<Rightarrow>
          if now < deadline
          then Some \<lparr> rst_backoff_delay = d,
                      rst_restarts_remaining = remaining_failure_restarts policy t \<rparr>
          else None
      | _ \<Rightarrow> None)"

section \<open>Terminals of a run\<close>

datatype pty_input_drop = PtyInputDrop_QueueFull | PtyInputDrop_WriterStopped

fun pty_input_drop_message :: "pty_input_drop \<Rightarrow> string" where
  "pty_input_drop_message PtyInputDrop_QueueFull = ''the input queue is full''"
| "pty_input_drop_message PtyInputDrop_WriterStopped = ''the PTY writer has stopped''"

definition PTY_WRITE_QUEUE_CAPACITY :: usize where
  "PTY_WRITE_QUEUE_CAPACITY = 64"

datatype pty_write = PtyWrite_Input prepared_pty_input | PtyWrite_TerminalResponse string

record pty_size =
  sz_rows :: u16
  sz_cols :: u16
  sz_pixel_width :: u16
  sz_pixel_height :: u16

text \<open>
  The handles of a pseudo terminal: whether the master is still open and the size it was last
  given, the queue of its writer (\<open>None\<close> after teardown), and the packed size its reader sees.
\<close>

record pty_handles =
  ph_master :: "pty_size option"
  ph_write_queue :: "pty_write channel option"
  ph_size :: u32

definition write_input :: "prepared_pty_input \<Rightarrow> pty_handles \<Rightarrow> pty_input_drop + pty_handles" where
  "write_input input h =
     (case ph_write_queue h of
        None \<Rightarrow> Inl PtyInputDrop_WriterStopped
      | Some q \<Rightarrow>
          (case channel_try_send q (PtyWrite_Input input) of
             Inr q' \<Rightarrow> Inr (h\<lparr> ph_write_queue := Some q' \<rparr>)
           | Inl (TrySendError_Closed _) \<Rightarrow> Inl PtyInputDrop_WriterStopped
           | Inl (TrySendError_Full _) \<Rightarrow> Inl PtyInputDrop_QueueFull))"

definition pack_size :: "pty_size \<Rightarrow> u32" where
  "pack_size sz = or (push_bit 16 (ucast (sz_rows sz))) (ucast (sz_cols sz))"

definition pty_resize :: "pty_size \<Rightarrow> pty_handles \<Rightarrow> pty_handles" where
  "pty_resize sz h =
     h\<lparr> ph_size := pack_size sz, ph_master := map_option (\<lambda>_. sz) (ph_master h) \<rparr>"

section \<open>Runs\<close>

record log_reader_handle =
  lrh_cancelled :: bool

definition reader_cancel :: "log_reader_handle \<Rightarrow> log_reader_handle" where
  "reader_cancel r = r\<lparr> lrh_cancelled := True \<rparr>"

record running_service =
  rs_run_id :: run_id
  rs_pid :: "u32 option"
  rs_terminate :: bool
  rs_log_reader :: "log_reader_handle option"
  rs_pty :: pty_handles
  rs_since :: instant

definition running_cancel :: "running_service \<Rightarrow> running_service" where
  "running_cancel r = r\<lparr> rs_terminate := True \<rparr>"

definition running_stable :: "instant \<Rightarrow> running_service \<Rightarrow> bool" where
  "running_stable now r \<longleftrightarrow> RESTART_BACKOFF_RESET \<le> now - rs_since r"

record draining_log_reader =
  dr_run_id :: run_id
  dr_handle :: log_reader_handle
  dr_cancel_at :: "instant option"

definition drain_request_cancel :: "draining_log_reader \<Rightarrow> draining_log_reader" where
  "drain_request_cancel d =
     (case dr_cancel_at d of
        None \<Rightarrow> d
      | Some _ \<Rightarrow> d\<lparr> dr_cancel_at := None, dr_handle := reader_cancel (dr_handle d) \<rparr>)"

definition drain_cancel_if_due :: "instant \<Rightarrow> draining_log_reader \<Rightarrow> draining_log_reader" where
  "drain_cancel_if_due now d =
     (case dr_cancel_at d of
        None \<Rightarrow> d
      | Some t \<Rightarrow> if now < t then d else drain_request_cancel d)"

text \<open>What a spawn captured of the configuration, \<^verbatim>\<open>RunConfig::from(&Service)\<close>.\<close>

record run_config =
  rc_command :: "string list"
  rc_working_dir :: "string option"
  rc_advertised_ports :: "u16 list"
  rc_healthcheck :: "healthcheck_config option"
  rc_stop_grace_period :: duration

definition run_config_from :: "service \<Rightarrow> run_config" where
  "run_config_from s =
     \<lparr> rc_command = argv s, rc_working_dir = working_dir_display s,
       rc_advertised_ports = ss_ports (svc_spec s),
       rc_healthcheck = map_option healthcheck_config_from (ss_healthcheck (svc_spec s)),
       rc_stop_grace_period = ss_stop_grace_period (svc_spec s) \<rparr>"

section \<open>Reports of dropped input\<close>

record input_drop_throttle =
  idt_report_at :: "instant option"
  idt_suppressed :: usize

definition throttle_default :: input_drop_throttle where
  "throttle_default = \<lparr> idt_report_at = None, idt_suppressed = 0 \<rparr>"

definition throttle_record :: "instant \<Rightarrow> input_drop_throttle \<Rightarrow> bool \<times> input_drop_throttle" where
  "throttle_record now t =
     (if idt_report_at t = None
      then (True, t\<lparr> idt_report_at := instant_checked_add now INPUT_DROP_REPORT_INTERVAL \<rparr>)
      else (False, t\<lparr> idt_suppressed := usize_saturating_add (idt_suppressed t) 1 \<rparr>))"

definition throttle_take_due ::
  "instant \<Rightarrow> input_drop_throttle \<Rightarrow> usize option \<times> input_drop_throttle"
where
  "throttle_take_due now t =
     (case idt_report_at t of
        None \<Rightarrow> (None, t)
      | Some deadline \<Rightarrow>
          if now < deadline then (None, t)
          else if idt_suppressed t = 0 then (None, t\<lparr> idt_report_at := None \<rparr>)
          else (Some (idt_suppressed t),
                t\<lparr> idt_suppressed := 0,
                    idt_report_at := instant_checked_add now INPUT_DROP_REPORT_INTERVAL \<rparr>))"

section \<open>The runtime of a service\<close>

record service_runtime =
  sr_desired :: desired_state
  sr_start_requested :: bool
  sr_clear_logs_on_start :: bool
  sr_next_run_id :: u64
  sr_running :: "running_service option"
  sr_restart :: restart_tracker
  sr_state :: state
  sr_last_run_id :: "run_id option"
  sr_uptime_started_at :: "instant option"
  sr_started_at_unix_ms :: "u64 option"
  sr_last_exit_code :: "i32 option"
  sr_run_config :: "run_config option"
  sr_draining_log_readers :: "draining_log_reader list"
  sr_retired :: "retired_reason option"
  sr_retired_at_unix_ms :: "u64 option"
  sr_expires_at :: "instant option"
  sr_blocked_on :: "service_id list"
  sr_input_drops :: input_drop_throttle

type_synonym runtimes = "(service_id, service_runtime) imap"

definition runtime_new :: "service \<Rightarrow> service_runtime" where
  "runtime_new s =
     (let des = (case svc_startup_mode s of
                   StartupMode_Enabled \<Rightarrow> DesiredState_Enabled
                 | StartupMode_Disabled \<Rightarrow> DesiredState_Disabled)
      in \<lparr> sr_desired = des, sr_start_requested = False, sr_clear_logs_on_start = False,
           sr_next_run_id = 0, sr_running = None,
           sr_restart = restart_tracker_new (ss_restart (svc_spec s)),
           sr_state = (case des of
                         DesiredState_Enabled \<Rightarrow> State_Pending
                       | DesiredState_Disabled \<Rightarrow> State_Disabled),
           sr_last_run_id = None, sr_uptime_started_at = None, sr_started_at_unix_ms = None,
           sr_last_exit_code = None, sr_run_config = None, sr_draining_log_readers = [],
           sr_retired = None, sr_retired_at_unix_ms = None, sr_expires_at = None,
           sr_blocked_on = [], sr_input_drops = throttle_default \<rparr>)"

definition runtime_reconfigure :: "restart_policy \<Rightarrow> service_runtime \<Rightarrow> service_runtime" where
  "runtime_reconfigure policy r = r\<lparr> sr_restart := tracker_reconfigure policy (sr_restart r) \<rparr>"

definition is_live :: "service_runtime \<Rightarrow> bool" where
  "is_live r \<longleftrightarrow> sr_retired r = None"

definition is_retired :: "service_runtime \<Rightarrow> bool" where
  "is_retired r \<longleftrightarrow> sr_retired r \<noteq> None"

definition current_run_id :: "service_runtime \<Rightarrow> run_id option" where
  "current_run_id r = map_option rs_run_id (sr_running r)"

definition run_generation :: "service_runtime \<Rightarrow> u64" where
  "run_generation r =
     (case current_run_id r of
        Some i \<Rightarrow> i
      | None \<Rightarrow> (case sr_last_run_id r of Some i \<Rightarrow> i | None \<Rightarrow> 0))"

definition mark_started ::
  "instant \<Rightarrow> u64 option \<Rightarrow> running_service \<Rightarrow> service_runtime \<Rightarrow> service_runtime"
where
  "mark_started now unix running r =
     r\<lparr> sr_uptime_started_at := Some now, sr_started_at_unix_ms := unix, sr_running := Some running,
        sr_state := State_Running None, sr_input_drops := throttle_default \<rparr>"

definition mark_starting :: "service_runtime \<Rightarrow> service_runtime" where
  "mark_starting r = r\<lparr> sr_state := State_Starting \<rparr>"

definition mark_health :: "health \<Rightarrow> service_runtime \<Rightarrow> bool \<times> service_runtime" where
  "mark_health h r =
     (case sr_state r of
        State_Running current \<Rightarrow>
          if current = Some h then (False, r)
          else (True, r\<lparr> sr_state := State_Running (Some h) \<rparr>)
      | State_Starting \<Rightarrow> (True, r\<lparr> sr_state := State_Running (Some h) \<rparr>)
      | _ \<Rightarrow> (False, r))"

definition mark_killed :: "service_runtime \<Rightarrow> service_runtime" where
  "mark_killed r =
     (if sr_desired r = DesiredState_Enabled then r\<lparr> sr_state := State_Killed \<rparr> else r)"

definition allocate_run_id :: "service_runtime \<Rightarrow> run_id \<times> service_runtime" where
  "allocate_run_id r =
     (let next_id = (case u64_checked_add (sr_next_run_id r) 1 of None \<Rightarrow> 1 | Some n \<Rightarrow> n)
      in (next_id, r\<lparr> sr_next_run_id := next_id \<rparr>))"

text \<open>The end of both \<^verbatim>\<open>request_restart\<close> and \<^verbatim>\<open>request_enable\<close>.\<close>

definition signal_restart :: "service_runtime \<Rightarrow> service_runtime" where
  "signal_restart r =
     (let r = (if sr_state r = State_Disabled \<and> sr_running r = None
               then r\<lparr> sr_state := State_Pending \<rparr> else r)
      in case sr_running r of
           None \<Rightarrow> r
         | Some running \<Rightarrow>
             r\<lparr> sr_running := Some (running_cancel running), sr_state := State_Killed \<rparr>)"

definition request_restart :: "service_runtime \<Rightarrow> service_runtime" where
  "request_restart r =
     signal_restart
       (r\<lparr> sr_desired := DesiredState_Enabled, sr_start_requested := True,
           sr_clear_logs_on_start := True,
           sr_restart := reset_failure_budget (clear_backoff (sr_restart r)) \<rparr>)"

definition request_enable :: "service_runtime \<Rightarrow> service_runtime" where
  "request_enable r =
     (let r = r\<lparr> sr_desired := DesiredState_Enabled,
                 sr_restart := reset_failure_budget (clear_backoff (sr_restart r)) \<rparr>
      in if sr_running r \<noteq> None \<and> sr_state r \<noteq> State_Disabled \<and> sr_state r \<noteq> State_Killed
         then r
         else signal_restart (r\<lparr> sr_start_requested := True, sr_clear_logs_on_start := False \<rparr>))"

definition runtime_disable :: "service_runtime \<Rightarrow> service_runtime" where
  "runtime_disable r =
     r\<lparr> sr_desired := DesiredState_Disabled, sr_start_requested := False,
        sr_clear_logs_on_start := False, sr_restart := clear_backoff (sr_restart r),
        sr_state := State_Disabled, sr_running := map_option running_cancel (sr_running r) \<rparr>"

definition will_auto_restart :: "restart_policy \<Rightarrow> i32 \<Rightarrow> service_runtime \<Rightarrow> bool" where
  "will_auto_restart policy exit_code r =
     (case policy of
        RestartPolicy_Always \<Rightarrow> True
      | RestartPolicy_UnlessStopped \<Rightarrow> True
      | RestartPolicy_Never \<Rightarrow> False
      | RestartPolicy_OnFailure max_attempts \<Rightarrow>
          if exit_code = 0 then False
          else if max_attempts = None then True
          else (case remaining_failure_restarts policy (sr_restart r) of
                  None \<Rightarrow> False | Some remaining \<Rightarrow> 0 < remaining))"

definition finish_run_state ::
  "instant \<Rightarrow> restart_policy \<Rightarrow> i32 \<Rightarrow> run_id option \<Rightarrow> bool \<Rightarrow> service_runtime \<Rightarrow> service_runtime"
where
  "finish_run_state now policy exit_code finished_run_id is_stable r =
     (let r = (case finished_run_id of None \<Rightarrow> r | Some i \<Rightarrow> r\<lparr> sr_last_run_id := Some i \<rparr>);
          r = r\<lparr> sr_uptime_started_at := None, sr_started_at_unix_ms := None,
                 sr_last_exit_code := Some exit_code \<rparr>
      in if sr_desired r = DesiredState_Disabled
         then r\<lparr> sr_state := State_Disabled, sr_restart := clear_backoff (sr_restart r) \<rparr>
         else
           let r = r\<lparr> sr_state := State_Exited exit_code \<rparr>
           in if sr_start_requested r then r\<lparr> sr_restart := clear_backoff (sr_restart r) \<rparr>
              else if will_auto_restart policy exit_code r
                then r\<lparr> sr_restart := apply_backoff now is_stable (sr_restart r) \<rparr>
              else r\<lparr> sr_restart := clear_backoff (sr_restart r) \<rparr>)"

definition finish_current_run ::
  "instant \<Rightarrow> restart_policy \<Rightarrow> i32 \<Rightarrow> service_runtime \<Rightarrow> service_runtime"
where
  "finish_current_run now policy exit_code r =
     (case sr_running r of
        None \<Rightarrow> finish_run_state now policy exit_code None False r
      | Some running \<Rightarrow>
          let drains =
                (case rs_log_reader running of
                   None \<Rightarrow> sr_draining_log_readers r
                 | Some reader \<Rightarrow>
                     sr_draining_log_readers r @
                     [\<lparr> dr_run_id = rs_run_id running, dr_handle = reader,
                        dr_cancel_at = Some (now + POST_EXIT_DRAIN_GRACE) \<rparr>])
          in finish_run_state now policy exit_code (Some (rs_run_id running))
               (running_stable now running)
               (r\<lparr> sr_running := None, sr_draining_log_readers := drains \<rparr>))"

definition runtime_cancel_due_drains :: "instant \<Rightarrow> service_runtime \<Rightarrow> service_runtime" where
  "runtime_cancel_due_drains now r =
     r\<lparr> sr_draining_log_readers := map (drain_cancel_if_due now) (sr_draining_log_readers r) \<rparr>"

text \<open>\<^verbatim>\<open>position\<close> and \<^verbatim>\<open>remove\<close>: the first element that satisfies the predicate goes.\<close>

fun remove_first :: "('a \<Rightarrow> bool) \<Rightarrow> 'a list \<Rightarrow> 'a list" where
  "remove_first p [] = []"
| "remove_first p (x # xs) = (if p x then xs else x # remove_first p xs)"

definition finish_log_reader :: "run_id \<Rightarrow> service_runtime \<Rightarrow> service_runtime" where
  "finish_log_reader i r =
     r\<lparr> sr_running :=
          map_option (\<lambda>running. if rs_run_id running = i then running\<lparr> rs_log_reader := None \<rparr>
                                else running) (sr_running r),
        sr_draining_log_readers := remove_first (\<lambda>d. dr_run_id d = i) (sr_draining_log_readers r) \<rparr>"

definition finish_failed_start ::
  "instant \<Rightarrow> restart_policy \<Rightarrow> run_id \<Rightarrow> i32 \<Rightarrow> service_runtime \<Rightarrow> service_runtime"
where
  "finish_failed_start now policy i exit_code r =
     finish_run_state now policy exit_code (Some i) False r"

section \<open>Projection into a snapshot\<close>

fun project_execution :: "bool \<Rightarrow> state \<Rightarrow> bool \<Rightarrow> bool \<Rightarrow> execution" where
  "project_execution True (State_Running h) ran_before blocked = Execution_Running"
| "project_execution True State_Killed ran_before blocked = Execution_Stopping"
| "project_execution True State_Disabled ran_before blocked = Execution_Stopping"
| "project_execution True State_Starting ran_before blocked = Execution_Starting"
| "project_execution True State_Pending ran_before blocked = Execution_Starting"
| "project_execution True (State_Exited c) ran_before blocked = Execution_Starting"
| "project_execution False State_Pending ran_before blocked =
     (if blocked then Execution_Blocked else Execution_Pending)"
| "project_execution False State_Starting ran_before blocked = Execution_Starting"
| "project_execution False (State_Running h) ran_before blocked = Execution_Starting"
| "project_execution False State_Killed ran_before blocked = Execution_Stopping"
| "project_execution False (State_Exited c) ran_before blocked =
     (if blocked then Execution_Blocked else Execution_Exited)"
| "project_execution False State_Disabled ran_before blocked =
     (if ran_before then Execution_Exited else Execution_Pending)"

definition project_snapshot ::
  "instant \<Rightarrow> service \<Rightarrow> service_runtime \<Rightarrow> service_snapshot \<times> instant option"
where
  "project_snapshot now s r =
     (let running = (sr_running r \<noteq> None);
          ran_before = (sr_last_run_id r \<noteq> None);
          exec = project_execution running (sr_state r) ran_before (sr_blocked_on r \<noteq> []);
          hlth = (case (exec, sr_state r) of
                    (Execution_Running, State_Running h) \<Rightarrow> h
                  | _ \<Rightarrow> None);
          current_config = run_config_from s;
          rc = (case sr_run_config r of None \<Rightarrow> current_config | Some c \<Rightarrow> c)
      in (\<lparr> sn_id = svc_id s, sn_name = display_name s,
            sn_origin = (case svc_origin s of
                           ServiceOrigin_Configured \<Rightarrow> OriginKind_Configured
                         | ServiceOrigin_Dynamic _ \<Rightarrow> OriginKind_Dynamic),
            sn_dynamic = (case svc_origin s of
                            ServiceOrigin_Configured \<Rightarrow> None
                          | ServiceOrigin_Dynamic origin \<Rightarrow>
                              Some \<lparr> di_created_at_unix_ms = do_created_at_unix_ms origin,
                                     di_expires_at_unix_ms = do_expires_at_unix_ms origin,
                                     di_owner = do_owner origin,
                                     di_revision = do_revision origin \<rparr>),
            sn_retired = sr_retired r, sn_retired_at_unix_ms = sr_retired_at_unix_ms r,
            sn_desired = (case sr_desired r of
                            DesiredState_Enabled \<Rightarrow> Desired_Enabled
                          | DesiredState_Disabled \<Rightarrow> Desired_Disabled),
            sn_execution = exec, sn_health = hlth, sn_run_generation = run_generation r,
            sn_pid = Option.bind (sr_running r) rs_pid,
            sn_started_at_unix_ms = sr_started_at_unix_ms r,
            sn_advertised_ports = rc_advertised_ports rc,
            sn_healthcheck_configured = (rc_healthcheck rc \<noteq> None),
            sn_healthcheck = rc_healthcheck rc,
            sn_stop_grace_period = rc_stop_grace_period rc,
            sn_config_stale = (case sr_run_config r of
                                 None \<Rightarrow> False | Some captured \<Rightarrow> captured \<noteq> current_config),
            sn_restart_state =
              active_restart_state now (ss_restart (svc_spec s)) (sr_restart r),
            sn_last_exit_code = sr_last_exit_code r, sn_command = rc_command rc,
            sn_working_dir = rc_working_dir rc, sn_uptime = None,
            sn_restart_policy = ss_restart (svc_spec s) \<rparr>,
          sr_uptime_started_at r))"

section \<open>Well-formed runtimes\<close>

text \<open>
  The failure budget of a tracker belongs to the policy of its service and never exceeds it; a
  deadline and a delay are armed together, and the delay is within its bounds.
\<close>

definition budget_ok :: "restart_tracker \<Rightarrow> bool" where
  "budget_ok t \<longleftrightarrow>
     (case rt_on_failure_max t of
        None \<Rightarrow> rt_on_failure_remaining t = None
      | Some m \<Rightarrow> (\<exists>k \<le> m. rt_on_failure_remaining t = Some k))"

definition backoff_ok :: "restart_tracker \<Rightarrow> bool" where
  "backoff_ok t \<longleftrightarrow>
     (rt_backoff_until t = None \<longleftrightarrow> rt_backoff_delay t = None) \<and>
     (\<forall>d. rt_backoff_delay t = Some d \<longrightarrow> RESTART_BACKOFF_BASE \<le> d \<and> d \<le> RESTART_BACKOFF_MAX)"

definition tracker_ok :: "restart_policy \<Rightarrow> restart_tracker \<Rightarrow> bool" where
  "tracker_ok policy t \<longleftrightarrow>
     rt_on_failure_max t = on_failure_max policy \<and> budget_ok t \<and> backoff_ok t"

named_theorems tracker_ops

lemma backoff_bounds [simp]: "RESTART_BACKOFF_BASE \<le> RESTART_BACKOFF_MAX"
  by (simp add: RESTART_BACKOFF_BASE_def RESTART_BACKOFF_MAX_def machine_defs)

lemma next_delay_bounds:
  "\<forall>d. prev = Some d \<longrightarrow> RESTART_BACKOFF_BASE \<le> d \<Longrightarrow>
   RESTART_BACKOFF_BASE \<le> next_delay prev \<and> next_delay prev \<le> RESTART_BACKOFF_MAX"
  by (auto simp: next_delay_def split: option.split)

lemma tracker_ok_new [tracker_ops]: "tracker_ok policy (restart_tracker_new policy)"
  by (auto simp: tracker_ok_def restart_tracker_new_def budget_ok_def backoff_ok_def
      split: option.split)

lemma tracker_ok_reconfigure [tracker_ops]:
  "tracker_ok old t \<Longrightarrow> tracker_ok policy (tracker_reconfigure policy t)"
  by (auto simp: tracker_ok_def tracker_reconfigure_def budget_ok_def backoff_ok_def
      split: option.splits)

lemma tracker_ok_clear [tracker_ops]: "tracker_ok policy t \<Longrightarrow> tracker_ok policy (clear_backoff t)"
  by (auto simp: tracker_ok_def clear_backoff_def budget_ok_def backoff_ok_def
      split: option.split)

lemma tracker_ok_reset [tracker_ops]:
  "tracker_ok policy t \<Longrightarrow> tracker_ok policy (reset_failure_budget t)"
  by (auto simp: tracker_ok_def reset_failure_budget_def budget_ok_def backoff_ok_def
      split: option.splits)

lemma tracker_ok_apply [tracker_ops]:
  assumes "tracker_ok policy t"
  shows "tracker_ok policy (apply_backoff now is_stable t)"
proof -
  let ?t = "if is_stable then reset_failure_budget (t\<lparr> rt_backoff_delay := None \<rparr>) else t"
  have "RESTART_BACKOFF_BASE \<le> next_delay (rt_backoff_delay ?t) \<and>
      next_delay (rt_backoff_delay ?t) \<le> RESTART_BACKOFF_MAX"
    using assms
    by (intro next_delay_bounds) (simp add: tracker_ok_def backoff_ok_def reset_failure_budget_def)
  then show ?thesis
    using assms
    by (auto simp: apply_backoff_def tracker_ok_def budget_ok_def backoff_ok_def Let_def
        reset_failure_budget_def split: option.splits)
qed

lemma tracker_ok_decrement [tracker_ops]:
  "tracker_ok policy t \<Longrightarrow> tracker_ok policy (decrement_failure_restart policy t)"
  by (cases "(policy, t)" rule: decrement_failure_restart.cases)
     (auto simp: tracker_ok_def budget_ok_def backoff_ok_def split: option.splits)

text \<open>The shape of a runtime between two handlers, under the policy of its service.\<close>

fun state_shape :: "state \<Rightarrow> bool \<Rightarrow> bool" where
  "state_shape State_Pending live \<longleftrightarrow> \<not> live"
| "state_shape State_Starting live \<longleftrightarrow> False"
| "state_shape (State_Running h) live \<longleftrightarrow> live"
| "state_shape State_Disabled live \<longleftrightarrow> True"
| "state_shape (State_Exited c) live \<longleftrightarrow> \<not> live"
| "state_shape State_Killed live \<longleftrightarrow> live"

lemma state_shape_True:
  "state_shape s True \<longleftrightarrow> s = State_Disabled \<or> s = State_Killed \<or> (\<exists>h. s = State_Running h)"
  by (cases s) auto

lemma state_shape_False:
  "state_shape s False \<longleftrightarrow> s = State_Disabled \<or> s = State_Pending \<or> (\<exists>c. s = State_Exited c)"
  by (cases s) auto

definition runtime_ok :: "restart_policy \<Rightarrow> service_runtime \<Rightarrow> bool" where
  "runtime_ok policy r \<longleftrightarrow>
     tracker_ok policy (sr_restart r) \<and> state_shape (sr_state r) (sr_running r \<noteq> None) \<and>
     (sr_desired r = DesiredState_Disabled \<longleftrightarrow> sr_state r = State_Disabled) \<and>
     (sr_running r = None \<longleftrightarrow> sr_uptime_started_at r = None) \<and>
     (sr_start_requested r \<longrightarrow> sr_desired r = DesiredState_Enabled) \<and>
     (sr_retired r \<noteq> None \<longrightarrow> sr_desired r = DesiredState_Disabled \<and> sr_expires_at r = None) \<and>
     (sr_running r \<noteq> None \<longrightarrow> sr_blocked_on r = [] \<and> sr_run_config r \<noteq> None) \<and>
     (sr_running r = None \<longrightarrow> sr_started_at_unix_ms r = None)"

lemmas runtime_ops_defs =
  runtime_new_def runtime_reconfigure_def mark_started_def mark_health_def mark_killed_def
  signal_restart_def request_restart_def request_enable_def runtime_disable_def
  finish_run_state_def finish_current_run_def runtime_cancel_due_drains_def finish_log_reader_def
  finish_failed_start_def

section \<open>Every operation keeps the shape\<close>

named_theorems runtime_ok_intros

lemma runtime_ok_new [runtime_ok_intros]:
  "runtime_ok (ss_restart (svc_spec s)) (runtime_new s)"
  by (simp add: runtime_ok_def runtime_new_def tracker_ok_new Let_def
      split: startup_mode.split desired_state.split)

lemma runtime_ok_reconfigure [runtime_ok_intros]:
  "runtime_ok old r \<Longrightarrow> runtime_ok policy (runtime_reconfigure policy r)"
  by (cases "sr_running r") (auto simp: runtime_ok_def runtime_reconfigure_def tracker_ok_reconfigure)

lemma runtime_ok_health [runtime_ok_intros]:
  "runtime_ok policy r \<Longrightarrow> runtime_ok policy (snd (mark_health h r))"
  by (auto simp: runtime_ok_def mark_health_def split: state.splits)

lemma runtime_ok_killed [runtime_ok_intros]:
  "runtime_ok policy r \<Longrightarrow> sr_running r \<noteq> None \<Longrightarrow> runtime_ok policy (mark_killed r)"
  by (auto simp: runtime_ok_def mark_killed_def state_shape_True)

lemma signal_restart_ok:
  assumes "tracker_ok policy (sr_restart r)" and "sr_desired r = DesiredState_Enabled"
    and "sr_retired r = None" and "sr_running r = None \<longleftrightarrow> sr_uptime_started_at r = None"
    and "sr_running r \<noteq> None \<longrightarrow> sr_blocked_on r = [] \<and> sr_run_config r \<noteq> None"
    and "sr_running r = None \<longrightarrow> sr_started_at_unix_ms r = None"
    and "state_shape (sr_state r) (sr_running r \<noteq> None)"
  shows "runtime_ok policy (signal_restart r)"
  using assms
  by (cases "sr_running r"; cases "sr_state r") (auto simp: runtime_ok_def signal_restart_def Let_def)

lemma runtime_ok_restart [runtime_ok_intros]:
  "runtime_ok policy r \<Longrightarrow> sr_retired r = None \<Longrightarrow> runtime_ok policy (request_restart r)"
  unfolding request_restart_def
  by (rule signal_restart_ok) (auto simp: runtime_ok_def tracker_ops)

lemma runtime_ok_enable [runtime_ok_intros]:
  assumes "runtime_ok policy r" and "sr_retired r = None"
  shows "runtime_ok policy (request_enable r)"
proof (cases "sr_running r \<noteq> None \<and> sr_state r \<noteq> State_Disabled \<and> sr_state r \<noteq> State_Killed")
  case True
  then show ?thesis
    using assms by (auto simp: runtime_ok_def request_enable_def tracker_ops Let_def)
next
  case False
  have "runtime_ok policy (signal_restart
      (r\<lparr> sr_desired := DesiredState_Enabled,
          sr_restart := reset_failure_budget (clear_backoff (sr_restart r)),
          sr_start_requested := True, sr_clear_logs_on_start := False \<rparr>))"
    using assms by (intro signal_restart_ok) (auto simp: runtime_ok_def tracker_ops)
  moreover have "request_enable r = signal_restart
      (r\<lparr> sr_desired := DesiredState_Enabled,
          sr_restart := reset_failure_budget (clear_backoff (sr_restart r)),
          sr_start_requested := True, sr_clear_logs_on_start := False \<rparr>)"
    using False by (auto simp: request_enable_def Let_def)
  ultimately show ?thesis by simp
qed

lemma runtime_ok_disable [runtime_ok_intros]:
  "runtime_ok policy r \<Longrightarrow> runtime_ok policy (runtime_disable r)"
  by (auto simp: runtime_ok_def runtime_disable_def tracker_ops)

lemma runtime_ok_retire [runtime_ok_intros]:
  "runtime_ok policy r \<Longrightarrow>
   runtime_ok policy ((runtime_disable r)\<lparr> sr_retired := reason, sr_retired_at_unix_ms := at_ms,
     sr_expires_at := None \<rparr>)"
  by (auto simp: runtime_ok_def runtime_disable_def tracker_ops)

lemma runtime_ok_revive [runtime_ok_intros]:
  "runtime_ok policy r \<Longrightarrow>
   runtime_ok policy (r\<lparr> sr_retired := None, sr_retired_at_unix_ms := None, sr_expires_at := e \<rparr>)"
  by (auto simp: runtime_ok_def)

lemma runtime_ok_expires [runtime_ok_intros]:
  "runtime_ok policy r \<Longrightarrow> sr_retired r = None \<Longrightarrow> runtime_ok policy (r\<lparr> sr_expires_at := e \<rparr>)"
  by (auto simp: runtime_ok_def)

lemma runtime_ok_drains [runtime_ok_intros]:
  "runtime_ok policy r \<Longrightarrow> runtime_ok policy (r\<lparr> sr_draining_log_readers := ds \<rparr>)"
  by (auto simp: runtime_ok_def)

lemma runtime_ok_drops [runtime_ok_intros]:
  "runtime_ok policy r \<Longrightarrow> runtime_ok policy (r\<lparr> sr_input_drops := t \<rparr>)"
  by (auto simp: runtime_ok_def)

lemma runtime_ok_log_reader [runtime_ok_intros]:
  "runtime_ok policy r \<Longrightarrow> runtime_ok policy (finish_log_reader i r)"
  by (auto simp: runtime_ok_def finish_log_reader_def)

lemma runtime_ok_pty [runtime_ok_intros]:
  "runtime_ok policy r \<Longrightarrow> runtime_ok policy (r\<lparr> sr_running := map_option f (sr_running r) \<rparr>)"
  by (auto simp: runtime_ok_def)

lemma runtime_ok_blocked [runtime_ok_intros]:
  "runtime_ok policy r \<Longrightarrow> sr_running r = None \<or> bs = [] \<Longrightarrow>
   runtime_ok policy (r\<lparr> sr_blocked_on := bs \<rparr>)"
  by (auto simp: runtime_ok_def)

text \<open>A finished run, from any state in which the fields about the process are reset.\<close>

lemma finish_run_state_ok:
  assumes "tracker_ok policy (sr_restart r)" and "sr_running r = None"
    and "sr_start_requested r \<longrightarrow> sr_desired r = DesiredState_Enabled"
    and "sr_retired r \<noteq> None \<longrightarrow> sr_desired r = DesiredState_Disabled \<and> sr_expires_at r = None"
  shows "runtime_ok policy (finish_run_state now policy' exit_code i is_stable r)"
  using assms
  by (cases "sr_desired r")
     (auto simp: runtime_ok_def finish_run_state_def tracker_ops Let_def
      split: option.split)

lemma runtime_ok_finish [runtime_ok_intros]:
  assumes "runtime_ok policy r"
  shows "runtime_ok policy (finish_current_run now policy' exit_code r)"
proof (cases "sr_running r")
  case None
  with assms show ?thesis
    unfolding finish_current_run_def
    by (simp, intro finish_run_state_ok) (auto simp: runtime_ok_def)
next
  case (Some running)
  with assms show ?thesis
    unfolding finish_current_run_def Let_def
    by (simp, intro finish_run_state_ok) (auto simp: runtime_ok_def)
qed

lemma runtime_ok_failed_start [runtime_ok_intros]:
  "runtime_ok policy r \<Longrightarrow> sr_running r = None \<Longrightarrow>
   runtime_ok policy (finish_failed_start now policy' i exit_code r)"
  unfolding finish_failed_start_def
  by (rule finish_run_state_ok) (auto simp: runtime_ok_def)

section \<open>Properties of the runtime\<close>

lemma next_delay_closed:
  "next_delay (Some (min (RESTART_BACKOFF_BASE * 2 ^ k) RESTART_BACKOFF_MAX)) =
     min (RESTART_BACKOFF_BASE * 2 ^ Suc k) RESTART_BACKOFF_MAX"
  by (simp add: next_delay_def min_def)

lemma apply_backoff_unstable:
  "apply_backoff now False t =
     t\<lparr> rt_backoff_delay := Some (next_delay (rt_backoff_delay t)),
         rt_backoff_until := Some (now + next_delay (rt_backoff_delay t)) \<rparr>"
  by (simp add: apply_backoff_def Let_def)

text \<open>
  C3. The restart backoff. After a run that ended with no backoff armed, the \<open>k\<close>-th consecutive
  unstable exit waits 250 ms doubled \<open>k - 1\<close> times, capped at ten seconds, counted from the time
  of that exit; a stable run in between starts the sequence again.
\<close>

theorem backoff_schedule:
  assumes "rt_backoff_delay t = None" and "nows \<noteq> []"
  shows "let d = min (250 * NANOS_PER_MS * 2 ^ (length nows - 1)) (10 * NANOS_PER_SEC);
             t' = fold (\<lambda>now. apply_backoff now False) nows t
         in rt_backoff_delay t' = Some d \<and> rt_backoff_until t' = Some (last nows + d) \<and>
            rt_backoff_delay (apply_backoff now True t') = Some (250 * NANOS_PER_MS)"
  using assms(2)
proof (induction nows rule: rev_nonempty_induct)
  case (single x)
  then show ?case
    using assms(1)
    by (simp add: apply_backoff_def next_delay_def reset_failure_budget_def RESTART_BACKOFF_BASE_def
        RESTART_BACKOFF_MAX_def machine_defs)
next
  case (snoc x xs)
  obtain k where k: "length xs = Suc k"
    using snoc.hyps by (cases xs) auto
  have base: "250 * NANOS_PER_MS = RESTART_BACKOFF_BASE" "10 * NANOS_PER_SEC = RESTART_BACKOFF_MAX"
    by (simp_all add: RESTART_BACKOFF_BASE_def RESTART_BACKOFF_MAX_def from_millis_def from_secs_def)
  have IH: "rt_backoff_delay (fold (\<lambda>now. apply_backoff now False) xs t) =
      Some (min (RESTART_BACKOFF_BASE * 2 ^ k) RESTART_BACKOFF_MAX)"
    using snoc.IH by (simp add: Let_def base k)
  then show ?case
    unfolding Let_def base
    by (simp add: apply_backoff_unstable next_delay_closed k del: power_Suc)
       (simp add: apply_backoff_def reset_failure_budget_def next_delay_def)
qed

theorem backoff_schedule_witness:
  "rt_backoff_delay (fold (\<lambda>now. apply_backoff now False) [1, 2, 3]
     (restart_tracker_new RestartPolicy_Always)) = Some 1000000000"
  using backoff_schedule [of "restart_tracker_new RestartPolicy_Always" "[1, 2, 3]"]
  by (simp add: restart_tracker_new_def machine_defs Let_def)

text \<open>
  Order of exit and end of output. For a run that is alive and has no parked reader, handling
  the end of its log reader before or after handling its exit leads to the same runtime, in which
  the run holds no reader.
\<close>

theorem log_reader_exit_commute:
  assumes "current_run_id r = Some i" and "i \<notin> dr_run_id ` set (sr_draining_log_readers r)"
  shows "finish_log_reader i (finish_current_run now policy exit_code r) =
           finish_current_run now policy exit_code (finish_log_reader i r) \<and>
         i \<notin> dr_run_id ` set (sr_draining_log_readers
           (finish_log_reader i (finish_current_run now policy exit_code r)))"
proof -
  obtain running where running: "sr_running r = Some running" "rs_run_id running = i"
    using assms(1) by (auto simp: current_run_id_def)
  have keep: "i \<notin> dr_run_id ` set ds \<Longrightarrow> remove_first (\<lambda>d. dr_run_id d = i) ds = ds"
    "i \<notin> dr_run_id ` set ds \<Longrightarrow> dr_run_id d = i \<Longrightarrow> remove_first (\<lambda>d. dr_run_id d = i) (ds @ [d]) = ds"
    for ds d by (induction ds) auto
  have *: "finish_run_state now policy exit_code (Some i) st
        (r\<lparr> sr_running := None, sr_draining_log_readers := ds \<rparr>) =
      (finish_run_state now policy exit_code (Some i) st (r\<lparr> sr_running := None \<rparr>))
        \<lparr> sr_draining_log_readers := ds \<rparr>" for st ds
    by (simp add: finish_run_state_def will_auto_restart_def Let_def cong: restart_policy.case_cong)
  have sel: "sr_running (finish_run_state now policy exit_code (Some i) st (r\<lparr> sr_running := None \<rparr>)) = None"
    for st by (simp add: finish_run_state_def Let_def)
  have stab: "running_stable now (running\<lparr> rs_log_reader := None \<rparr>) = running_stable now running"
    by (simp add: running_stable_def)
  show ?thesis
    using assms(2) running
    by (cases "rs_log_reader running")
       (simp_all add: finish_current_run_def finish_log_reader_def Let_def * sel keep stab)
qed

definition example_pty :: pty_handles where
  "example_pty =
     \<lparr> ph_master = Some \<lparr> sz_rows = 24, sz_cols = 80, sz_pixel_width = 0, sz_pixel_height = 0 \<rparr>,
       ph_write_queue = Some \<lparr> chan_items = [], chan_capacity = PTY_WRITE_QUEUE_CAPACITY,
                               chan_closed = False \<rparr>,
       ph_size = 0 \<rparr>"

definition example_running :: "run_id \<Rightarrow> instant \<Rightarrow> running_service" where
  "example_running i since =
     \<lparr> rs_run_id = i, rs_pid = Some 42, rs_terminate = False,
       rs_log_reader = Some \<lparr> lrh_cancelled = False \<rparr>, rs_pty = example_pty, rs_since = since \<rparr>"

definition example_live :: service_runtime where
  "example_live =
     (mark_started 5 (Some 1000) (example_running 1 5)
       (runtime_new (example_service ''web'' [])))
     \<lparr> sr_next_run_id := 1, sr_run_config := Some (run_config_from (example_service ''web'' [])) \<rparr>"

theorem log_reader_exit_commute_witness:
  "finish_log_reader 1 (finish_current_run 9 RestartPolicy_Always 0 example_live) =
     finish_current_run 9 RestartPolicy_Always 0 (finish_log_reader 1 example_live)"
  using log_reader_exit_commute [of example_live 1 9 RestartPolicy_Always 0]
  by (simp add: example_live_def mark_started_def runtime_new_def current_run_id_def
      example_running_def Let_def)

text \<open>
  Health verdicts. A verdict changes a runtime exactly when a process is live or being spawned
  and the cached verdict differs; the operation reports exactly the real changes, keeps every other
  field, and afterwards a live run carries the verdict.
\<close>

theorem mark_health_semantics:
  "let (changed, r') = mark_health h r in
     (changed \<longleftrightarrow> r' \<noteq> r) \<and>
     (changed \<longleftrightarrow> sr_state r = State_Starting \<or>
        (\<exists>old. sr_state r = State_Running old \<and> old \<noteq> Some h)) \<and>
     r'\<lparr> sr_state := sr_state r \<rparr> = r \<and>
     sr_state r' = (case sr_state r of
         State_Running _ \<Rightarrow> State_Running (Some h)
       | State_Starting \<Rightarrow> State_Running (Some h)
       | s \<Rightarrow> s)"
proof -
  have "r\<lparr> sr_state := s \<rparr> \<noteq> r" if "s \<noteq> sr_state r" for s
    using that by (metis service_runtime.select_convs(7) service_runtime.surjective
        service_runtime.update_convs(7))
  then show ?thesis
    by (auto simp: mark_health_def split: state.split)
qed

lemma project_snapshot_sel [simp]:
  "sn_id (fst (project_snapshot now s r)) = svc_id s"
  "sn_execution (fst (project_snapshot now s r)) =
     project_execution (sr_running r \<noteq> None) (sr_state r) (sr_last_run_id r \<noteq> None)
       (sr_blocked_on r \<noteq> [])"
  "sn_desired (fst (project_snapshot now s r)) =
     (if sr_desired r = DesiredState_Enabled then Desired_Enabled else Desired_Disabled)"
  "sn_health (fst (project_snapshot now s r)) =
     (case sr_state r of State_Running h \<Rightarrow> if sr_running r \<noteq> None then h else None | _ \<Rightarrow> None)"
  "sn_pid (fst (project_snapshot now s r)) = Option.bind (sr_running r) rs_pid"
  "sn_started_at_unix_ms (fst (project_snapshot now s r)) = sr_started_at_unix_ms r"
  "sn_retired (fst (project_snapshot now s r)) = sr_retired r"
  "sn_run_generation (fst (project_snapshot now s r)) = run_generation r"
  "snd (project_snapshot now s r) = sr_uptime_started_at r"
  by (cases "sr_running r"; cases "sr_state r"; cases "sr_desired r";
      simp add: project_snapshot_def Let_def split: option.split execution.split)+

text \<open>
  The projection of a well-formed runtime. The published phase is never a passing one: a
  service is Running exactly when its process is live and not asked to stop, Stopping exactly when
  its process is live and a stop or a restart is in flight (so a disabled service that still drains
  is never reported as exited), and Exited, Blocked or Pending only without a process. Health is
  published only for a Running service, a process id only with a live process, and the retirement
  of a service only together with the desire to be disabled.
\<close>

theorem snapshot_projection:
  assumes "runtime_ok policy r"
  shows "let sn = fst (project_snapshot now s r); live = (sr_running r \<noteq> None) in
      sn_execution sn \<notin> {Execution_Starting, Execution_Unknown} \<and>
      (sn_execution sn = Execution_Running \<longleftrightarrow> live \<and> (\<exists>h. sr_state r = State_Running h)) \<and>
      (sn_execution sn = Execution_Stopping \<longleftrightarrow>
         live \<and> (sn_desired sn = Desired_Disabled \<or> sr_state r = State_Killed)) \<and>
      (sn_execution sn \<in> {Execution_Pending, Execution_Blocked, Execution_Exited} \<longleftrightarrow> \<not> live) \<and>
      (sn_execution sn = Execution_Blocked \<longrightarrow>
         sr_blocked_on r \<noteq> [] \<and> sn_desired sn = Desired_Enabled) \<and>
      (sn_health sn \<noteq> None \<longrightarrow> sn_execution sn = Execution_Running) \<and>
      (sn_pid sn \<noteq> None \<longrightarrow> live) \<and>
      (sn_started_at_unix_ms sn \<noteq> None \<longrightarrow> live) \<and>
      (snd (project_snapshot now s r) \<noteq> None \<longleftrightarrow> live) \<and>
      (sn_retired sn \<noteq> None \<longrightarrow> sn_desired sn = Desired_Disabled)"
proof (cases "sr_running r")
  case None
  then show ?thesis
    using assms
    by (cases "sr_desired r")
       (auto simp: runtime_ok_def Let_def state_shape_False split: if_splits)
next
  case (Some running)
  then show ?thesis
    using assms
    by (cases "sr_desired r")
       (auto simp: runtime_ok_def Let_def state_shape_True split: if_splits)
qed

theorem snapshot_projection_witness:
  "sn_execution (fst (project_snapshot 7 (example_service ''web'' []) example_live)) =
     Execution_Running"
proof -
  have ok: "runtime_ok RestartPolicy_Never example_live"
    using runtime_ok_new [of "example_service ''web'' []"]
    by (simp add: runtime_ok_def example_live_def mark_started_def runtime_new_def Let_def
        example_service_def example_normal_def service_spec_default_def)
  show ?thesis
    using snapshot_projection [OF ok, of 7 "example_service ''web'' []"]
    by (simp add: Let_def) (simp add: example_live_def mark_started_def)
qed

section \<open>Dropped input is reported\<close>

text \<open>
  The drops of one run and the timer ticks between them, in the order the scheduler handles them;
  a report is its time and the number of drops it stands for.
\<close>

datatype throttle_event = ThrottleEvent_Drop instant | ThrottleEvent_Tick instant

fun event_time :: "throttle_event \<Rightarrow> instant" where
  "event_time (ThrottleEvent_Drop now) = now"
| "event_time (ThrottleEvent_Tick now) = now"

fun is_drop :: "throttle_event \<Rightarrow> bool" where
  "is_drop (ThrottleEvent_Drop _) = True"
| "is_drop (ThrottleEvent_Tick _) = False"

fun throttle_step ::
  "throttle_event \<Rightarrow> input_drop_throttle \<Rightarrow> (instant \<times> nat) list \<times> input_drop_throttle"
where
  "throttle_step (ThrottleEvent_Drop now) t =
     (let (report, t') = throttle_record now t in (if report then [(now, 1)] else [], t'))"
| "throttle_step (ThrottleEvent_Tick now) t =
     (let (count, t') = throttle_take_due now t
      in (case count of None \<Rightarrow> [] | Some n \<Rightarrow> [(now, n)], t'))"

fun throttle_trace ::
  "throttle_event list \<Rightarrow> input_drop_throttle \<Rightarrow> (instant \<times> nat) list \<times> input_drop_throttle"
where
  "throttle_trace [] t = ([], t)"
| "throttle_trace (e # es) t =
     (let (rs, t') = throttle_step e t; (rs', t'') = throttle_trace es t' in (rs @ rs', t''))"

lemma throttle_step_times: "x \<in> set (fst (throttle_step e t)) \<Longrightarrow> fst x = event_time e"
  by (cases e) (auto split: prod.splits option.splits if_splits)

lemma throttle_trace_times:
  "x \<in> set (fst (throttle_trace es t)) \<Longrightarrow> fst x \<in> event_time ` set es"
proof (induction es arbitrary: t)
  case (Cons e es)
  obtain rs t' where step: "throttle_step e t = (rs, t')" by fastforce
  obtain rs' t'' where rest: "throttle_trace es t' = (rs', t'')" by fastforce
  have "x \<in> set rs \<Longrightarrow> fst x = event_time e" "x \<in> set rs' \<Longrightarrow> fst x \<in> event_time ` set es"
    using throttle_step_times [of x e t] Cons.IH [of t'] step rest by simp_all
  then show ?case
    using Cons.prems step rest by auto
qed simp

lemma throttle_trace_spaced:
  assumes "sorted (map event_time es)"
    and "\<forall>e \<in> set es. event_time e + INPUT_DROP_REPORT_INTERVAL \<le> INSTANT_MAX"
  shows "sorted_wrt (\<lambda>x y. fst x + INPUT_DROP_REPORT_INTERVAL \<le> fst y) (fst (throttle_trace es t)) \<and>
         (\<forall>d. idt_report_at t = Some d \<longrightarrow> (\<forall>x \<in> set (fst (throttle_trace es t)). d \<le> fst x))"
  using assms
proof (induction es arbitrary: t)
  case (Cons e es)
  obtain rs t' where step: "throttle_step e t = (rs, t')" by fastforce
  obtain rs' t'' where rest: "throttle_trace es t' = (rs', t'')" by fastforce
  let ?now = "event_time e"
  have IH: "sorted_wrt (\<lambda>x y. fst x + INPUT_DROP_REPORT_INTERVAL \<le> fst y) rs'"
    "\<And>d x. idt_report_at t' = Some d \<Longrightarrow> x \<in> set rs' \<Longrightarrow> d \<le> fst x"
    using Cons.IH [of t'] Cons.prems rest by auto
  have later: "?now \<le> fst x" if "x \<in> set rs'" for x
    using throttle_trace_times [of x es t'] that rest Cons.prems by auto
  have next_at: "instant_checked_add ?now INPUT_DROP_REPORT_INTERVAL =
      Some (?now + INPUT_DROP_REPORT_INTERVAL)"
    using Cons.prems by (simp add: instant_checked_add_def)
  consider (quiet) "rs = []" "idt_report_at t' = idt_report_at t"
    | (reset) "rs = []" "\<exists>d. idt_report_at t = Some d \<and> d \<le> ?now"
    | (report) n where "rs = [(?now, n)]"
        "idt_report_at t' = Some (?now + INPUT_DROP_REPORT_INTERVAL)"
        "\<forall>d. idt_report_at t = Some d \<longrightarrow> d \<le> ?now"
    using step next_at
    by (cases e) (auto simp: throttle_record_def throttle_take_due_def split: option.splits if_splits)
  then show ?case
  proof cases
    case quiet
    then show ?thesis using IH step rest by auto
  next
    case reset
    then show ?thesis using IH step rest later by (auto intro: le_trans)
  next
    case report
    then show ?thesis using IH step rest later by (auto intro: le_trans)
  qed
qed simp

lemma throttle_trace_counts:
  assumes "idt_suppressed t + length (filter is_drop es) \<le> USIZE_MAX"
  shows "sum_list (map snd (fst (throttle_trace es t))) + idt_suppressed (snd (throttle_trace es t)) =
           idt_suppressed t + length (filter is_drop es)"
  using assms
proof (induction es arbitrary: t)
  case (Cons e es)
  obtain rs t' where step: "throttle_step e t = (rs, t')" by fastforce
  obtain rs' t'' where rest: "throttle_trace es t' = (rs', t'')" by fastforce
  have "sum_list (map snd rs) + idt_suppressed t' =
      idt_suppressed t + (if is_drop e then 1 else 0) \<and>
      idt_suppressed t' \<le> idt_suppressed t + (if is_drop e then 1 else 0)"
    using step Cons.prems
    by (cases e) (auto simp: throttle_record_def throttle_take_due_def usize_saturating_add_exact
        split: option.splits if_splits)
  then show ?case
    using Cons.IH [of t'] Cons.prems step rest by (auto split: if_splits)
qed simp

text \<open>
  Reports of discarded input. While a run is alive, every discarded input is in exactly one
  report or still counted as suppressed, and two reports of one service are at least a second
  apart, whatever the order of drops and timer ticks.
\<close>

theorem input_drop_reports:
  assumes "sorted (map event_time es)" and "length es \<le> USIZE_MAX"
    and "\<forall>e \<in> set es. event_time e + NANOS_PER_SEC \<le> INSTANT_MAX"
  shows "let (reports, t) = throttle_trace es throttle_default in
      sum_list (map snd reports) + idt_suppressed t = length (filter is_drop es) \<and>
      sorted_wrt (\<lambda>x y. fst x + NANOS_PER_SEC \<le> fst y) reports"
proof -
  have I: "INPUT_DROP_REPORT_INTERVAL = NANOS_PER_SEC"
    by (simp add: INPUT_DROP_REPORT_INTERVAL_def from_secs_def)
  have "length (filter is_drop es) \<le> USIZE_MAX"
    using assms(2) length_filter_le [of is_drop es] by linarith
  then show ?thesis
    using throttle_trace_counts [of throttle_default es] throttle_trace_spaced [of es throttle_default]
      assms by (auto simp: I throttle_default_def split: prod.split)
qed

theorem input_drop_reports_witness:
  "fst (throttle_trace
      [ThrottleEvent_Drop 0, ThrottleEvent_Drop 1, ThrottleEvent_Drop 2,
       ThrottleEvent_Tick 1000000000] throttle_default) = [(0, 1), (1000000000, 2)] \<and>
   sorted_wrt (\<lambda>x y. fst x + NANOS_PER_SEC \<le> fst y) [(0, 1 :: nat), (1000000000, 2)]"
  using input_drop_reports [of "[ThrottleEvent_Drop 0, ThrottleEvent_Drop 1, ThrottleEvent_Drop 2,
       ThrottleEvent_Tick 1000000000]"]
  by (simp add: throttle_default_def throttle_record_def throttle_take_due_def
      instant_checked_add_def INSTANT_MAX_def INPUT_DROP_REPORT_INTERVAL_def machine_defs
      usize_saturating_add_def)

section \<open>A stable run on a spent budget\<close>

text \<open>
  The failure budget is reset by the backoff of a stable run, but the budget is asked first whether there
  is a backoff at all: when the last retry ran stably and then fails, it is not restarted.
\<close>

lemma stable_exit_on_spent_budget:
  assumes "sr_desired r = DesiredState_Enabled" and "\<not> sr_start_requested r" and "exit_code \<noteq> 0"
    and "rt_on_failure_remaining (sr_restart r) = Some 0"
  shows "let policy = RestartPolicy_OnFailure (Some n);
             r' = finish_run_state now policy exit_code i True r
         in \<not> will_auto_restart policy exit_code r' \<and> rt_on_failure_remaining (sr_restart r') = Some 0"
  using assms
  by (cases i) (simp_all add: finish_run_state_def will_auto_restart_def clear_backoff_def Let_def)

end
