(* ===== verification/Disk_Log.thy ===== *)
theory Disk_Log
  imports Prelude
begin

text \<open>
  The queue to the worker that writes run logs to disk, \<^verbatim>\<open>src/crates/micromux/src/model/disk.rs\<close>, and
  the entry the session model keeps for one run, \<^verbatim>\<open>src/crates/micromux/src/model/runlog.rs\<close>. The
  length of an encoded record (\<^verbatim>\<open>serde_json\<close>) is a parameter. The shared metadata of a run is
  identified by the path of the run's file, for which it is created.
\<close>

section \<open>Records and commands\<close>

definition DISK_LOG_QUEUE_MAX_BYTES :: usize where
  "DISK_LOG_QUEUE_MAX_BYTES = 8 * 1024 * 1024"

datatype disk_log_op = DiskLogOp_Append | DiskLogOp_ReplaceLast

record disk_log_record =
  dlr_seq :: u64
  dlr_run_generation :: u64
  dlr_timestamp_unix_ms :: u64
  dlr_op :: disk_log_op
  dlr_line :: string

datatype disk_log_command =
    DiskLogCommand_Begin string
  | DiskLogCommand_Write string disk_log_record usize
  | DiskLogCommand_Remove string
  | DiskLogCommand_Flush

text \<open>What the model asks the writer for; a write still has to reserve its bytes.\<close>

datatype disk_request =
    DiskRequest_Begin string
  | DiskRequest_Write string disk_log_record
  | DiskRequest_Remove string

record disk_log_writer =
  dw_tx :: "disk_log_command list"
  dw_queued_bytes :: usize
  dw_overflow_warned :: bool

definition disk_writer_new :: disk_log_writer where
  "disk_writer_new = \<lparr> dw_tx = [], dw_queued_bytes = 0, dw_overflow_warned = False \<rparr>"

text \<open>\<^verbatim>\<open>DiskQueueBudget::try_reserve\<close>: the loop around the exchange only retries on a race.\<close>

definition disk_try_reserve :: "usize \<Rightarrow> disk_log_writer \<Rightarrow> disk_log_writer option" where
  "disk_try_reserve bytes w =
     (let current = dw_queued_bytes w; next_bytes = current + bytes in
      if USIZE_MAX < next_bytes then None
      else if DISK_LOG_QUEUE_MAX_BYTES < next_bytes then None
      else Some (w\<lparr> dw_queued_bytes := next_bytes,
                    dw_overflow_warned :=
                      (if current < DISK_LOG_QUEUE_MAX_BYTES div 2 then False
                       else dw_overflow_warned w) \<rparr>))"

text \<open>
  \<^verbatim>\<open>encoded_len\<close> is the length of the encoded record, \<open>None\<close> when it cannot be encoded;
  \<^verbatim>\<open>command_size\<close> is \<^verbatim>\<open>size_of::<DiskLogCommand>()\<close>.
\<close>

record disk_encoding =
  encoded_len :: "disk_log_record \<Rightarrow> usize option"
  command_size :: usize

definition queued_bytes :: "disk_encoding \<Rightarrow> string \<Rightarrow> disk_log_record \<Rightarrow> usize" where
  "queued_bytes enc path r =
     (case encoded_len enc r of
        None \<Rightarrow> USIZE_MAX
      | Some n \<Rightarrow>
          usize_saturating_add (usize_saturating_add (usize_saturating_add n 1) (length path))
            (command_size enc))"

fun disk_send :: "disk_encoding \<Rightarrow> disk_request \<Rightarrow> disk_log_writer \<Rightarrow> disk_log_writer" where
  "disk_send enc (DiskRequest_Begin path) w = w\<lparr> dw_tx := dw_tx w @ [DiskLogCommand_Begin path] \<rparr>"
| "disk_send enc (DiskRequest_Remove path) w = w\<lparr> dw_tx := dw_tx w @ [DiskLogCommand_Remove path] \<rparr>"
| "disk_send enc (DiskRequest_Write path r) w =
     (let bytes = queued_bytes enc path r in
      case disk_try_reserve bytes w of
        None \<Rightarrow> w\<lparr> dw_overflow_warned := True \<rparr>
      | Some w' \<Rightarrow> w'\<lparr> dw_tx := dw_tx w' @ [DiskLogCommand_Write path r bytes] \<rparr>)"

text \<open>The worker takes the oldest command; its permit is dropped once it is handled.\<close>

fun command_bytes :: "disk_log_command \<Rightarrow> usize" where
  "command_bytes (DiskLogCommand_Write path r bytes) = bytes"
| "command_bytes _ = 0"

definition disk_recv :: "disk_log_writer \<Rightarrow> (disk_log_command \<times> disk_log_writer) option" where
  "disk_recv w =
     (case dw_tx w of
        [] \<Rightarrow> None
      | c # cs \<Rightarrow> Some (c, w\<lparr> dw_tx := cs, dw_queued_bytes := dw_queued_bytes w - command_bytes c \<rparr>))"

section \<open>The entry of a run\<close>

definition hex_digit :: "nat \<Rightarrow> char" where
  "hex_digit n = (if n < 10 then char_of (48 + n) else char_of (87 + n))"

definition service_log_dir_name :: "string \<Rightarrow> string" where
  "service_log_dir_name value =
     (if value = [] then ''_''
      else concat (map (\<lambda>c. [hex_digit (of_char c div 16), hex_digit (of_char c mod 16)]) value))"

record run_log_entry =
  rl_run_generation :: u64
  rl_path :: "string option"
  rl_last_seq :: "u64 option"
  rl_live_snapshot_id :: "u64 option"

definition run_log_path :: "string \<Rightarrow> service_id \<Rightarrow> u64 \<Rightarrow> string" where
  "run_log_path dir s generation =
     dir @ ''/'' @ service_log_dir_name s @ ''/run-'' @ show_u64 generation @ ''.jsonl''"

definition run_log_entry_new ::
  "service_id \<Rightarrow> u64 \<Rightarrow> string option \<Rightarrow> bool \<Rightarrow> run_log_entry \<times> disk_request list"
where
  "run_log_entry_new s generation spool_dir disk =
     (let path = map_option (\<lambda>dir. run_log_path dir s generation) spool_dir in
      (\<lparr> rl_run_generation = generation, rl_path = path, rl_last_seq = None,
         rl_live_snapshot_id = None \<rparr>,
       case path of None \<Rightarrow> [] | Some p \<Rightarrow> if disk then [DiskRequest_Begin p] else []))"

definition append_metadata :: "u64 \<Rightarrow> run_log_entry \<Rightarrow> run_log_entry" where
  "append_metadata seq entry = entry\<lparr> rl_last_seq := Some seq \<rparr>"

definition replace_metadata :: "u64 \<Rightarrow> run_log_entry \<Rightarrow> run_log_entry" where
  "replace_metadata seq entry =
     (if rl_last_seq entry = None then append_metadata seq entry else entry\<lparr> rl_last_seq := Some seq \<rparr>)"

definition enqueue_remove :: "bool \<Rightarrow> run_log_entry \<Rightarrow> run_log_entry \<times> disk_request list" where
  "enqueue_remove disk entry =
     (entry\<lparr> rl_path := None \<rparr>,
      case rl_path entry of None \<Rightarrow> [] | Some p \<Rightarrow> if disk then [DiskRequest_Remove p] else [])"

section \<open>The bound on queued writes\<close>

definition queue_ok :: "disk_log_writer \<Rightarrow> bool" where
  "queue_ok w \<longleftrightarrow>
     dw_queued_bytes w = sum_list (map command_bytes (dw_tx w)) \<and>
     dw_queued_bytes w \<le> DISK_LOG_QUEUE_MAX_BYTES"

datatype disk_queue_event = DiskQueue_Send disk_encoding disk_request | DiskQueue_Recv

inductive disk_queue_step :: "disk_log_writer \<Rightarrow> disk_queue_event \<Rightarrow> disk_log_writer \<Rightarrow> bool" where
  queue_send: "disk_queue_step w (DiskQueue_Send enc r) (disk_send enc r w)"
| queue_recv: "disk_recv w = Some (c, w') \<Longrightarrow> disk_queue_step w DiskQueue_Recv w'"

inductive_cases disk_queue_stepE: "disk_queue_step w e w'"

lemma disk_send_ok: "queue_ok w \<Longrightarrow> queue_ok (disk_send enc r w)"
  by (cases r) (auto simp: queue_ok_def disk_try_reserve_def Let_def)

lemma disk_recv_ok: "queue_ok w \<Longrightarrow> disk_recv w = Some (c, w') \<Longrightarrow> queue_ok w'"
  by (auto simp: queue_ok_def disk_recv_def split: list.splits)

interpretation disk_queue: invariant_machine disk_queue_step queue_ok
  by unfold_locales (auto elim!: disk_queue_stepE intro: disk_send_ok disk_recv_ok)

text \<open>
  The disk queue. Whatever records are logged and however slowly the worker takes them, the
  writes waiting in the queue reserve exactly the bytes the budget counts, never more than 8 MiB;
  a record that does not fit is dropped without disturbing the queue, and the commands that open
  and remove files are never dropped.
\<close>

theorem disk_queue_bounded:
  assumes "run disk_queue_step disk_writer_new es w"
  shows "sum_list (map command_bytes (dw_tx w)) = dw_queued_bytes w \<and>
         sum_list (map command_bytes (dw_tx w)) \<le> 8 * 1024 * 1024 \<and>
         prefix (dw_tx w) (dw_tx (disk_send enc r w)) \<and>
         (dw_tx (disk_send enc r w) = dw_tx w \<longleftrightarrow>
            (\<exists>p q. r = DiskRequest_Write p q \<and>
               8 * 1024 * 1024 < dw_queued_bytes w + queued_bytes enc p q))"
proof -
  have "queue_ok disk_writer_new"
    by (simp add: queue_ok_def disk_writer_new_def)
  then have ok: "queue_ok w"
    using assms by (blast intro: disk_queue.run_inv)
  have "8 * 1024 * 1024 \<le> USIZE_MAX"
    by (simp add: USIZE_MAX_def)
  then have "dw_tx (disk_send enc r w) = dw_tx w \<longleftrightarrow>
      (\<exists>p q. r = DiskRequest_Write p q \<and>
         8 * 1024 * 1024 < dw_queued_bytes w + queued_bytes enc p q)"
    by (cases r) (auto simp: disk_try_reserve_def Let_def DISK_LOG_QUEUE_MAX_BYTES_def)
  moreover have "prefix (dw_tx w) (dw_tx (disk_send enc r w))"
    by (cases r) (auto simp: disk_try_reserve_def Let_def)
  ultimately show ?thesis
    using ok by (simp add: queue_ok_def DISK_LOG_QUEUE_MAX_BYTES_def)
qed

theorem disk_queue_bounded_witness:
  "sum_list (map command_bytes (dw_tx
     (disk_send \<lparr> encoded_len = \<lambda>_. Some 100, command_size = 96 \<rparr>
        (DiskRequest_Write ''p'' \<lparr> dlr_seq = 1, dlr_run_generation = 1, dlr_timestamp_unix_ms = 0,
           dlr_op = DiskLogOp_Append, dlr_line = ''x'' \<rparr>) disk_writer_new))) = 198"
proof -
  let ?enc = "\<lparr> encoded_len = \<lambda>_ :: disk_log_record. Some 100, command_size = 96 \<rparr>"
  let ?r = "DiskRequest_Write ''p'' \<lparr> dlr_seq = 1, dlr_run_generation = 1,
      dlr_timestamp_unix_ms = 0, dlr_op = DiskLogOp_Append, dlr_line = ''x'' \<rparr>"
  have "run disk_queue_step disk_writer_new [DiskQueue_Send ?enc ?r] (disk_send ?enc ?r disk_writer_new)"
    by (rule run_Cons) (rule queue_send, rule run_Nil)
  from disk_queue_bounded [OF this] show ?thesis
    by (simp add: disk_try_reserve_def queued_bytes_def disk_writer_new_def Let_def USIZE_MAX_def
        DISK_LOG_QUEUE_MAX_BYTES_def usize_saturating_add_def)
qed

end
