(* ===== verification/Session_Model.thy ===== *)
theory Session_Model
  imports Snapshot Disk_Log Log_Buffer
begin

text \<open>
  The session model of \<^verbatim>\<open>src/crates/micromux/src/model.rs\<close>: one entry per service with its
  snapshot, visible log tail, retained runs, health attempts and lifecycle events; the writes of
  the scheduler (\<^verbatim>\<open>SessionModelWriter\<close>) and of a run (\<^verbatim>\<open>RunSink\<close>); and the queries of readers. Every
  write happens under one lock, so it is one function on the model; the notifications it publishes
  are appended to \<^verbatim>\<open>sm_changes\<close> in order, the requests to the disk worker go through its queue.
\<close>

section \<open>Entries\<close>

record service_entry =
  en_snapshot :: service_snapshot
  en_started_at :: "instant option"
  en_latest_begun_run :: u64
  en_visible :: memory_log_buffer
  en_runs :: "run_log_entry list"
  en_next_log_seq :: u64
  en_last_ingest_timestamp_unix_ms :: u64
  en_log_retention :: log_retention
  en_spool_dir :: "string option"
  en_disk :: bool
  en_health :: "health_attempt list"
  en_events :: "service_event list"
  en_next_event_seq :: u64

definition clamp_retention :: "log_retention \<Rightarrow> log_retention" where
  "clamp_retention r =
     r\<lparr> lr_disk := \<lparr> retained_runs = max (retained_runs (lr_disk r)) 1 \<rparr> \<rparr>"

definition entry_new ::
  "service_snapshot \<Rightarrow> log_retention \<Rightarrow> string option \<Rightarrow> bool \<Rightarrow> service_entry"
where
  "entry_new snapshot retention spool_dir disk =
     \<lparr> en_snapshot = snapshot, en_started_at = None,
       en_latest_begun_run = sn_run_generation snapshot,
       en_visible = buffer_new (lr_memory (clamp_retention retention)), en_runs = [],
       en_next_log_seq = 1, en_last_ingest_timestamp_unix_ms = 0,
       en_log_retention = clamp_retention retention, en_spool_dir = spool_dir, en_disk = disk,
       en_health = [], en_events = [], en_next_event_seq = 1 \<rparr>"

definition current_snapshot :: "instant \<Rightarrow> service_entry \<Rightarrow> service_snapshot" where
  "current_snapshot now e =
     (en_snapshot e)\<lparr> sn_uptime := map_option (\<lambda>started. now - started) (en_started_at e) \<rparr>"

definition latest_run_generation :: "service_entry \<Rightarrow> u64" where
  "latest_run_generation e = sn_run_generation (en_snapshot e)"

definition next_ingest_timestamp :: "u64 option \<Rightarrow> service_entry \<Rightarrow> u64 \<times> service_entry" where
  "next_ingest_timestamp unix e =
     (let t = max (case unix of None \<Rightarrow> 0 | Some t \<Rightarrow> t) (en_last_ingest_timestamp_unix_ms e)
      in (t, e\<lparr> en_last_ingest_timestamp_unix_ms := t \<rparr>))"

text \<open>\<^verbatim>\<open>while self.runs.len() > retained_runs { pop_front, remove its file }\<close>.\<close>

fun evict_runs :: "nat \<Rightarrow> bool \<Rightarrow> run_log_entry list \<Rightarrow> run_log_entry list \<times> disk_request list" where
  "evict_runs n disk [] = ([], [])"
| "evict_runs n disk (r # rs) =
     (if n < length (r # rs)
      then let (kept, reqs) = evict_runs n disk rs
           in (kept, snd (enqueue_remove disk r) @ reqs)
      else (r # rs, []))"

definition has_run :: "service_entry \<Rightarrow> u64 \<Rightarrow> bool" where
  "has_run e generation \<longleftrightarrow> list_ex (\<lambda>r. rl_run_generation r = generation) (en_runs e)"

text \<open>
  \<^verbatim>\<open>ensure_run\<close> makes sure that the run has an entry; the position it returns is that of the first
  entry of the generation, or of the last entry when it created one.
\<close>

definition ensure_run :: "u64 \<Rightarrow> service_entry \<Rightarrow> nat \<times> service_entry \<times> disk_request list" where
  "ensure_run generation e =
     (if has_run e generation
      then (length (takeWhile (\<lambda>r. rl_run_generation r \<noteq> generation) (en_runs e)), e, [])
      else
        let (r, begin_reqs) =
              run_log_entry_new (sn_id (en_snapshot e)) generation (en_spool_dir e) (en_disk e);
            (kept, remove_reqs) =
              evict_runs (retained_runs (lr_disk (en_log_retention e))) (en_disk e) (en_runs e @ [r])
        in (length kept - 1, e\<lparr> en_runs := kept \<rparr>, begin_reqs @ remove_reqs))"

definition update_run :: "nat \<Rightarrow> (run_log_entry \<Rightarrow> run_log_entry) \<Rightarrow> service_entry \<Rightarrow> service_entry" where
  "update_run i f e = e\<lparr> en_runs := (en_runs e)[i := f (en_runs e ! i)] \<rparr>"

definition entry_begin_run :: "u64 \<Rightarrow> service_entry \<Rightarrow> service_entry \<times> disk_request list" where
  "entry_begin_run generation e =
     (let (i, e, reqs) = ensure_run generation (e\<lparr> en_latest_begun_run := generation \<rparr>);
          e = (if i < length (en_runs e)
               then update_run i (\<lambda>r. r\<lparr> rl_live_snapshot_id := None \<rparr>) e else e)
      in (e\<lparr> en_health := [] \<rparr>, reqs))"

definition latest_current_health :: "service_entry \<Rightarrow> health_attempt option" where
  "latest_current_health e =
     (if sn_execution (en_snapshot e) = Execution_Running
      then List.find (\<lambda>a. ha_run_generation a = sn_run_generation (en_snapshot e))
             (rev (en_health e))
      else None)"

section \<open>Logs\<close>

text \<open>How an update of a run resolves: the operation, the sequence number, the counter after it.\<close>

definition resolve_update ::
  "log_update_kind \<Rightarrow> run_log_entry \<Rightarrow> u64 \<Rightarrow> bool \<Rightarrow> u64 option \<Rightarrow>
   disk_log_op \<times> u64 \<times> u64 \<times> run_log_entry"
where
  "resolve_update update r next_seq current_run visible_last_seq =
     (case update of
        LogUpdateKind_Append \<Rightarrow>
          (DiskLogOp_Append, next_seq, u64_saturating_add next_seq 1,
           append_metadata next_seq (r\<lparr> rl_live_snapshot_id := None \<rparr>))
      | LogUpdateKind_LiveSnapshot i \<Rightarrow>
          (let resolved =
                 (if rl_live_snapshot_id r = Some i
                  then (case rl_last_seq r of
                          None \<Rightarrow> None
                        | Some seq \<Rightarrow>
                            if \<not> current_run \<or> visible_last_seq = Some seq then Some seq else None)
                  else None)
           in case resolved of
                Some seq \<Rightarrow>
                  (DiskLogOp_ReplaceLast, seq, next_seq,
                   (replace_metadata seq r)\<lparr> rl_live_snapshot_id := Some i \<rparr>)
              | None \<Rightarrow>
                  (DiskLogOp_Append, next_seq, u64_saturating_add next_seq 1,
                   (append_metadata next_seq r)\<lparr> rl_live_snapshot_id := Some i \<rparr>)))"

definition last_seq_of :: "log_line list \<Rightarrow> u64 option" where
  "last_seq_of ls = (if ls = [] then None else Some (ll_seq (last ls)))"

definition entry_append_log ::
  "u64 \<Rightarrow> log_update_kind \<Rightarrow> string \<Rightarrow> string option \<Rightarrow> u64 \<Rightarrow> service_entry \<Rightarrow>
   service_entry \<times> disk_request list"
where
  "entry_append_log generation update line disk_line timestamp e =
     (if generation \<noteq> en_latest_begun_run e \<and> \<not> has_run e generation then (e, [])
      else
        let visible_last_seq = last_seq_of (mb_entries (en_visible e));
            current_run = (generation = en_latest_begun_run e);
            (i, e, reqs) = ensure_run generation e
        in if \<not> i < length (en_runs e) then (e, reqs)
           else
             let (op, seq, next_seq, r) =
                   resolve_update update (en_runs e ! i) (en_next_log_seq e) current_run
                     visible_last_seq;
                 entry = \<lparr> ll_seq = seq, ll_run_generation = generation,
                           ll_timestamp_unix_ms = timestamp, ll_line = line \<rparr>;
                 writes =
                   (case (rl_path r, disk_line) of
                      (Some path, Some text) \<Rightarrow>
                        if en_disk e
                        then [DiskRequest_Write path
                                \<lparr> dlr_seq = seq, dlr_run_generation = generation,
                                  dlr_timestamp_unix_ms = timestamp, dlr_op = op,
                                  dlr_line = text \<rparr>]
                        else []
                    | _ \<Rightarrow> []);
                 e = (update_run i (\<lambda>_. r) e)\<lparr> en_next_log_seq := next_seq \<rparr>;
                 e = (if current_run
                      then e\<lparr> en_visible :=
                             (case op of
                                DiskLogOp_Append \<Rightarrow> buffer_append (en_visible e) entry
                              | DiskLogOp_ReplaceLast \<Rightarrow> buffer_replace_last (en_visible e) entry) \<rparr>
                      else e)
             in (e, reqs @ writes))"

definition append_banner ::
  "string \<Rightarrow> string option \<Rightarrow> u64 \<Rightarrow> service_entry \<Rightarrow> service_entry \<times> disk_request list"
where
  "append_banner line disk_line timestamp e =
     entry_append_log (en_latest_begun_run e) LogUpdateKind_Append line disk_line timestamp e"

definition clear_visible_logs :: "service_entry \<Rightarrow> service_entry" where
  "clear_visible_logs e =
     (let e = e\<lparr> en_visible := buffer_clear_before_next_seq (en_visible e) (en_next_log_seq e) \<rparr>
      in if en_runs e = [] then e
         else update_run (length (en_runs e) - 1) (\<lambda>r. r\<lparr> rl_live_snapshot_id := None \<rparr>) e)"

definition entry_reconfigure ::
  "log_retention \<Rightarrow> service_entry \<Rightarrow> service_entry \<times> disk_request list"
where
  "entry_reconfigure retention e =
     (let retention = clamp_retention retention;
          (kept, reqs) = evict_runs (retained_runs (lr_disk retention)) (en_disk e) (en_runs e)
      in (e\<lparr> en_visible := buffer_reconfigure (en_visible e) (lr_memory retention),
             en_log_retention := retention, en_runs := kept \<rparr>, reqs))"

definition remove_retained_run_files :: "service_entry \<Rightarrow> service_entry \<times> disk_request list" where
  "remove_retained_run_files e =
     (e\<lparr> en_runs := map (\<lambda>r. fst (enqueue_remove (en_disk e) r)) (en_runs e) \<rparr>,
      concat (map (\<lambda>r. snd (enqueue_remove (en_disk e) r)) (en_runs e)))"

section \<open>The model\<close>

record session_model =
  sm_services :: "(service_id, service_entry) imap"
  sm_changes :: "session_change list"
  sm_spool_dir :: "string option"
  sm_disk :: "disk_log_writer option"

definition publish :: "service_id \<Rightarrow> change_kind \<Rightarrow> session_model \<Rightarrow> session_model" where
  "publish s kind m = m\<lparr> sm_changes := sm_changes m @ [\<lparr> ch_service_id = s, ch_kind = kind \<rparr>] \<rparr>"

definition send_disk :: "disk_encoding \<Rightarrow> disk_request list \<Rightarrow> session_model \<Rightarrow> session_model" where
  "send_disk enc reqs m = m\<lparr> sm_disk := map_option (fold (disk_send enc) reqs) (sm_disk m) \<rparr>"

text \<open>Writing one entry: the entry changes, its disk requests are queued.\<close>

definition update_entry ::
  "disk_encoding \<Rightarrow> service_id \<Rightarrow> (service_entry \<Rightarrow> service_entry \<times> disk_request list) \<Rightarrow>
   session_model \<Rightarrow> session_model"
where
  "update_entry enc s f m =
     (case im_get (sm_services m) s of
        None \<Rightarrow> m
      | Some e \<Rightarrow>
          send_disk enc (snd (f e))
            (m\<lparr> sm_services := im_insert s (fst (f e)) (sm_services m) \<rparr>))"

definition insert_service :: "service_snapshot \<Rightarrow> log_retention \<Rightarrow> session_model \<Rightarrow> session_model" where
  "insert_service snapshot retention m =
     (if im_contains (sm_services m) (sn_id snapshot) then m
      else publish (sn_id snapshot) ChangeKind_Roster
             (m\<lparr> sm_services := im_insert (sn_id snapshot)
                   (entry_new snapshot retention (sm_spool_dir m) (sm_disk m \<noteq> None))
                   (sm_services m) \<rparr>))"

definition remove_service :: "disk_encoding \<Rightarrow> service_id \<Rightarrow> session_model \<Rightarrow> session_model" where
  "remove_service enc s m =
     (case im_get (sm_services m) s of
        None \<Rightarrow> m
      | Some e \<Rightarrow>
          publish s ChangeKind_Roster
            (send_disk enc (snd (remove_retained_run_files e))
               (m\<lparr> sm_services := im_remove s (sm_services m) \<rparr>)))"

definition push_event :: "service_event \<Rightarrow> service_entry \<Rightarrow> service_entry" where
  "push_event ev e =
     e\<lparr> en_events :=
          pop_front_while (\<lambda>q. EVENT_HISTORY \<le> length q) (en_events e) @
          [ev\<lparr> se_seq := en_next_event_seq e \<rparr>],
        en_next_event_seq := u64_saturating_add (en_next_event_seq e) 1 \<rparr>"

text \<open>The part of \<^verbatim>\<open>append_event\<close> under the entry's lock.\<close>

definition event_write ::
  "u64 option \<Rightarrow> service_event \<Rightarrow> string option \<Rightarrow> string option \<Rightarrow> service_entry \<Rightarrow>
   service_entry \<times> disk_request list"
where
  "event_write unix ev banner disk_line e =
     (let (timestamp, e) = next_ingest_timestamp unix e; e = push_event ev e
      in case banner of
           None \<Rightarrow> (e, [])
         | Some line \<Rightarrow> append_banner line disk_line timestamp e)"

definition append_event ::
  "disk_encoding \<Rightarrow> u64 option \<Rightarrow> service_id \<Rightarrow> service_event \<Rightarrow> session_model \<Rightarrow> session_model"
where
  "append_event enc unix s ev m =
     (let ev = ev\<lparr> se_detail := truncate_to_first_bytes (se_detail ev) MODEL_STRING_MAX_BYTES \<rparr>;
          banner = log_banner ev;
          disk_line = (if sm_disk m \<noteq> None then banner else None)
      in if im_get (sm_services m) s = None then m
         else
           let m = update_entry enc s (event_write unix ev banner disk_line) m;
               m = publish s ChangeKind_Events m
           in if banner \<noteq> None then publish s ChangeKind_Logs m else m)"

definition write_snapshot ::
  "service_snapshot \<Rightarrow> instant option \<Rightarrow> session_model \<Rightarrow> session_model"
where
  "write_snapshot snapshot started_at m =
     (case im_get (sm_services m) (sn_id snapshot) of
        None \<Rightarrow> m
      | Some e \<Rightarrow>
          publish (sn_id snapshot) ChangeKind_Status
            (m\<lparr> sm_services := im_insert (sn_id snapshot)
                  (e\<lparr> en_snapshot := snapshot, en_started_at := started_at \<rparr>) (sm_services m) \<rparr>))"

definition clear_logs :: "disk_encoding \<Rightarrow> service_id \<Rightarrow> session_model \<Rightarrow> session_model" where
  "clear_logs enc s m =
     (if im_get (sm_services m) s = None then m
      else publish s ChangeKind_Logs (update_entry enc s (\<lambda>e. (clear_visible_logs e, [])) m))"

definition begin_run :: "disk_encoding \<Rightarrow> service_id \<Rightarrow> u64 \<Rightarrow> session_model \<Rightarrow> session_model" where
  "begin_run enc s generation m =
     publish s ChangeKind_Health (publish s ChangeKind_Logs
       (update_entry enc s (entry_begin_run generation) m))"

definition reconfigure_log_retention ::
  "disk_encoding \<Rightarrow> service_id \<Rightarrow> log_retention \<Rightarrow> session_model \<Rightarrow> session_model"
where
  "reconfigure_log_retention enc s retention m =
     (if im_get (sm_services m) s = None then m
      else publish s ChangeKind_Logs (update_entry enc s (entry_reconfigure retention) m))"

definition new_with_retention ::
  "(service_snapshot \<times> log_retention) list \<Rightarrow> string option \<Rightarrow> session_model"
where
  "new_with_retention initial spool_dir =
     (let disk = (if spool_dir \<noteq> None then Some disk_writer_new else None) in
      \<lparr> sm_services = fold (\<lambda>(snapshot, retention). im_insert (sn_id snapshot)
                         (entry_new snapshot retention spool_dir (disk \<noteq> None))) initial [],
        sm_changes = [], sm_spool_dir = spool_dir, sm_disk = disk \<rparr>)"

section \<open>Writes of a run\<close>

definition sink_append_log ::
  "disk_encoding \<Rightarrow> u64 option \<Rightarrow> service_id \<Rightarrow> u64 \<Rightarrow> output_stream \<Rightarrow> log_update_kind \<Rightarrow> string \<Rightarrow>
   session_model \<Rightarrow> session_model"
where
  "sink_append_log enc unix s generation stream update line m =
     (let line = (case stream of OutputStream_Stderr \<Rightarrow> ''[stderr] '' @ line | _ \<Rightarrow> line);
          line = (case update of
                    LogUpdateKind_Append \<Rightarrow> truncate_to_first_bytes line MODEL_STRING_MAX_BYTES
                  | LogUpdateKind_LiveSnapshot _ \<Rightarrow> line);
          disk_line = (if sm_disk m \<noteq> None then Some line else None)
      in if im_get (sm_services m) s = None then m
         else publish s ChangeKind_Logs
                (update_entry enc s
                   (\<lambda>e. let (timestamp, e) = next_ingest_timestamp unix e
                        in entry_append_log generation update line disk_line timestamp e) m))"

definition push_health_attempt :: "health_attempt \<Rightarrow> service_entry \<Rightarrow> service_entry" where
  "push_health_attempt a e =
     e\<lparr> en_health := pop_front_while (\<lambda>q. HEALTH_HISTORY \<le> length q) (en_health e) @ [a] \<rparr>"

definition start_health_attempt ::
  "disk_encoding \<Rightarrow> service_id \<Rightarrow> u64 \<Rightarrow> u64 \<Rightarrow> string \<Rightarrow> session_model \<Rightarrow> session_model"
where
  "start_health_attempt enc s generation attempt command m =
     (case im_get (sm_services m) s of
        None \<Rightarrow> m
      | Some e \<Rightarrow>
          if en_latest_begun_run e \<noteq> generation then m
          else publish s ChangeKind_Health
                 (update_entry enc s
                    (\<lambda>e. (push_health_attempt
                            \<lparr> ha_run_generation = generation, ha_attempt = attempt,
                              ha_command =
                                truncate_to_first_bytes command MODEL_STRING_MAX_BYTES,
                              ha_output = [], ha_result = None \<rparr> e, [])) m))"

text \<open>\<^verbatim>\<open>iter_mut().find\<close>: the first attempt that matches changes.\<close>

fun modify_first :: "('a \<Rightarrow> bool) \<Rightarrow> ('a \<Rightarrow> 'a) \<Rightarrow> 'a list \<Rightarrow> 'a list" where
  "modify_first p f [] = []"
| "modify_first p f (x # xs) = (if p x then f x # xs else x # modify_first p f xs)"

definition push_health_output :: "health_line \<Rightarrow> health_attempt \<Rightarrow> health_attempt" where
  "push_health_output l a =
     a\<lparr> ha_output :=
          pop_front_while (\<lambda>q. HEALTH_OUTPUT_MAX_LINES \<le> length q) (ha_output a) @ [l] \<rparr>"

definition update_attempt ::
  "disk_encoding \<Rightarrow> service_id \<Rightarrow> u64 \<Rightarrow> u64 \<Rightarrow> (health_attempt \<Rightarrow> health_attempt) \<Rightarrow>
   session_model \<Rightarrow> session_model"
where
  "update_attempt enc s generation attempt f m =
     (let matches = (\<lambda>a. ha_run_generation a = generation \<and> ha_attempt a = attempt) in
      case im_get (sm_services m) s of
        None \<Rightarrow> m
      | Some e \<Rightarrow>
          if en_latest_begun_run e \<noteq> generation \<or> \<not> list_ex matches (en_health e) then m
          else publish s ChangeKind_Health
                 (update_entry enc s
                    (\<lambda>e. (e\<lparr> en_health := modify_first matches f (en_health e) \<rparr>, [])) m))"

definition append_health_line ::
  "disk_encoding \<Rightarrow> service_id \<Rightarrow> u64 \<Rightarrow> u64 \<Rightarrow> output_stream \<Rightarrow> string \<Rightarrow> session_model \<Rightarrow> session_model"
where
  "append_health_line enc s generation attempt stream line m =
     update_attempt enc s generation attempt
       (push_health_output
          \<lparr> hl_stream = stream,
            hl_line = truncate_to_first_bytes line MODEL_STRING_MAX_BYTES \<rparr>) m"

definition finish_health_attempt ::
  "disk_encoding \<Rightarrow> service_id \<Rightarrow> u64 \<Rightarrow> u64 \<Rightarrow> bool \<Rightarrow> i32 \<Rightarrow> bool \<Rightarrow> session_model \<Rightarrow> session_model"
where
  "finish_health_attempt enc s generation attempt success exit_code cancelled m =
     update_attempt enc s generation attempt
       (\<lambda>a. a\<lparr> ha_result := Some \<lparr> hr_success = success, hr_exit_code = exit_code,
                                   hr_cancelled = cancelled \<rparr> \<rparr>) m"

section \<open>Queries\<close>

definition query_services :: "instant \<Rightarrow> session_model \<Rightarrow> service_snapshot list" where
  "query_services now m = map (\<lambda>(_, e). current_snapshot now e) (sm_services m)"

definition query_service :: "instant \<Rightarrow> service_id \<Rightarrow> session_model \<Rightarrow> service_snapshot option" where
  "query_service now s m = map_option (current_snapshot now) (im_get (sm_services m) s)"

definition query_logs :: "service_id \<Rightarrow> usize option \<Rightarrow> session_model \<Rightarrow> log_line list" where
  "query_logs s tail m =
     (case im_get (sm_services m) s of None \<Rightarrow> [] | Some e \<Rightarrow> buffer_lines (en_visible e) tail)"

definition query_logs_since ::
  "service_id \<Rightarrow> u64 \<Rightarrow> session_model \<Rightarrow> u64 option \<times> log_line list"
where
  "query_logs_since s after m =
     (case im_get (sm_services m) s of
        None \<Rightarrow> (None, []) | Some e \<Rightarrow> buffer_lines_since (en_visible e) after)"

definition query_healthchecks :: "service_id \<Rightarrow> session_model \<Rightarrow> health_attempt list" where
  "query_healthchecks s m =
     (case im_get (sm_services m) s of None \<Rightarrow> [] | Some e \<Rightarrow> en_health e)"

definition query_latest_health :: "service_id \<Rightarrow> session_model \<Rightarrow> health_attempt option" where
  "query_latest_health s m = Option.bind (im_get (sm_services m) s) latest_current_health"

definition query_events ::
  "service_id \<Rightarrow> u64 option \<Rightarrow> usize option \<Rightarrow> session_model \<Rightarrow> service_event list \<times> bool"
where
  "query_events s after tail m =
     (case im_get (sm_services m) s of
        None \<Rightarrow> ([], False)
      | Some e \<Rightarrow>
          let limit = min (case tail of None \<Rightarrow> EVENT_HISTORY | Some n \<Rightarrow> n) EVENT_HISTORY;
              cursor = (case after of None \<Rightarrow> 0 | Some a \<Rightarrow> a);
              retention_truncated =
                (case en_events e of
                   [] \<Rightarrow> False
                 | first # _ \<Rightarrow> u64_saturating_add cursor 1 < se_seq first);
              matching = filter (\<lambda>ev. case after of None \<Rightarrow> True | Some a \<Rightarrow> a < se_seq ev)
                           (en_events e);
              truncated = retention_truncated \<or> limit < length matching
          in if after \<noteq> None then (take limit matching, truncated)
             else (drop (length matching - limit) matching, truncated))"

section \<open>Bounded histories of an entry\<close>

interpretation event_log: bounded_history
  "\<lambda>e ev. push_event ev e" en_events "\<lambda>e ev. ev\<lparr> se_seq := en_next_event_seq e \<rparr>" EVENT_HISTORY
  by unfold_locales (simp_all add: push_event_def EVENT_HISTORY_def pop_front_while_ge)

interpretation health_log: plain_history
  "\<lambda>e a. push_health_attempt a e" en_health HEALTH_HISTORY
  by unfold_locales (simp_all add: push_health_attempt_def HEALTH_HISTORY_def pop_front_while_ge)

interpretation health_output: plain_history
  "\<lambda>a l. push_health_output l a" ha_output HEALTH_OUTPUT_MAX_LINES
  by unfold_locales (simp_all add: push_health_output_def HEALTH_OUTPUT_MAX_LINES_def pop_front_while_ge)

text \<open>
  Until the counter saturates, the retained events carry consecutive sequence numbers that end
  just before the counter.
\<close>

definition events_ok :: "service_entry \<Rightarrow> bool" where
  "events_ok e \<longleftrightarrow>
     length (en_events e) \<le> EVENT_HISTORY \<and> en_next_event_seq e \<noteq> 0 \<and>
     (en_next_event_seq e \<noteq> U64_MAX \<longrightarrow>
        length (en_events e) = min (unat (en_next_event_seq e) - 1) EVENT_HISTORY \<and>
        map (\<lambda>ev. unat (se_seq ev)) (en_events e) =
          [unat (en_next_event_seq e) - length (en_events e) ..< unat (en_next_event_seq e)])"

definition attempt_ok :: "health_attempt \<Rightarrow> bool" where
  "attempt_ok a \<longleftrightarrow>
     length (ha_command a) \<le> MODEL_STRING_MAX_BYTES \<and>
     length (ha_output a) \<le> HEALTH_OUTPUT_MAX_LINES \<and>
     (\<forall>l \<in> set (ha_output a). length (hl_line l) \<le> MODEL_STRING_MAX_BYTES)"

definition health_ok :: "service_entry \<Rightarrow> bool" where
  "health_ok e \<longleftrightarrow>
     length (en_health e) \<le> HEALTH_HISTORY \<and>
     (\<forall>a \<in> set (en_health e). ha_run_generation a = en_latest_begun_run e \<and> attempt_ok a)"

definition run_ids :: "service_entry \<Rightarrow> u64 list" where
  "run_ids e = map rl_run_generation (en_runs e)"

definition runs_ok :: "service_entry \<Rightarrow> bool" where
  "runs_ok e \<longleftrightarrow>
     1 \<le> retained_runs (lr_disk (en_log_retention e)) \<and>
     length (en_runs e) \<le> retained_runs (lr_disk (en_log_retention e)) \<and> distinct (run_ids e)"

definition visible_ok :: "service_entry \<Rightarrow> bool" where
  "visible_ok e \<longleftrightarrow>
     (en_next_log_seq e \<noteq> U64_MAX \<longrightarrow>
        sorted_wrt (<) (buffer_seqs (en_visible e)) \<and>
        (\<forall>q \<in> set (buffer_seqs (en_visible e)). q < en_next_log_seq e))"

definition entry_ok :: "service_entry \<Rightarrow> bool" where
  "entry_ok e \<longleftrightarrow> events_ok e \<and> health_ok e \<and> runs_ok e \<and> visible_ok e"

definition model_ok :: "session_model \<Rightarrow> bool" where
  "model_ok m \<longleftrightarrow>
     im_wf (sm_services m) \<and>
     (\<forall>s e. im_get (sm_services m) s = Some e \<longrightarrow> entry_ok e \<and> sn_id (en_snapshot e) = s)"

lemma saturating_step:
  assumes "u64_saturating_add n 1 \<noteq> U64_MAX"
  shows "n \<noteq> U64_MAX" and "unat (u64_saturating_add n 1) = Suc (unat n)" and "n < u64_saturating_add n 1"
proof -
  have "unat (u64_saturating_add n 1) \<noteq> 2 ^ 64 - 1"
    using assms unat_U64_MAX word_unat_eq_iff by metis
  then show "unat (u64_saturating_add n 1) = Suc (unat n)"
    using unat_u64_saturating_add [of n 1] by (simp add: min_def split: if_splits)
  then show "n \<noteq> U64_MAX"
    using unat_u64_less [of "u64_saturating_add n 1"] by auto
  then show "n < u64_saturating_add n 1"
    by (rule u64_saturating_add_1_gr)
qed

lemma saturating_step_pos: "u64_saturating_add n 1 \<noteq> 0"
proof
  assume "u64_saturating_add n 1 = 0"
  then have "unat (u64_saturating_add n 1) = 0"
    by simp
  then show False
    using unat_u64_saturating_add [of n 1] by (simp add: min_def split: if_splits)
qed

lemma events_ok_push:
  assumes "events_ok e"
  shows "events_ok (push_event ev e)"
proof -
  let ?e = "push_event ev e"
  let ?n = "en_next_event_seq e" and ?k = "length (en_events e)"
  have next_seq: "en_next_event_seq ?e = u64_saturating_add ?n 1"
    by (simp add: push_event_def)
  have len: "length (en_events ?e) = min (Suc ?k) EVENT_HISTORY"
    by (rule event_log.length_record_exact)
  have "length (en_events ?e) = min (unat (en_next_event_seq ?e) - 1) EVENT_HISTORY \<and>
        map (\<lambda>ev. unat (se_seq ev)) (en_events ?e) =
          [unat (en_next_event_seq ?e) - length (en_events ?e) ..< unat (en_next_event_seq ?e)]"
    if room: "u64_saturating_add ?n 1 \<noteq> U64_MAX"
  proof -
    note step = saturating_step [OF room]
    have pos: "0 < unat ?n"
      using assms by (simp add: events_ok_def unat_gt_0)
    have old: "?k = min (unat ?n - 1) EVENT_HISTORY"
      "map (\<lambda>ev. unat (se_seq ev)) (en_events e) = [unat ?n - ?k ..< unat ?n]"
      using assms step(1) by (simp_all add: events_ok_def)
    have k: "?k < unat ?n"
      using old(1) pos by linarith
    have "map (\<lambda>ev. unat (se_seq ev)) (en_events ?e) =
        drop (Suc ?k - EVENT_HISTORY) [unat ?n - ?k ..< unat ?n] @ [unat ?n]"
      by (simp add: event_log.items_record_snoc old(2) del: drop_upt flip: drop_map)
    also have "\<dots> = [unat ?n - ?k + (Suc ?k - EVENT_HISTORY) ..< Suc (unat ?n)]"
      using k by (simp add: drop_upt EVENT_HISTORY_def)
    also have "unat ?n - ?k + (Suc ?k - EVENT_HISTORY) = Suc (unat ?n) - min (Suc ?k) EVENT_HISTORY"
      using k by (simp add: min_def EVENT_HISTORY_def)
    finally have seqs: "map (\<lambda>ev. unat (se_seq ev)) (en_events ?e) =
        [Suc (unat ?n) - min (Suc ?k) EVENT_HISTORY ..< Suc (unat ?n)]" .
    have "min (Suc ?k) EVENT_HISTORY = min (unat ?n) EVENT_HISTORY"
      unfolding old(1) using pos by (auto simp: min_def EVENT_HISTORY_def)
    then show ?thesis
      using seqs by (simp add: next_seq step(2) len del: upt_Suc)
  qed
  then show ?thesis
    unfolding events_ok_def next_seq
    using event_log.length_record saturating_step_pos by simp
qed

section \<open>Every write keeps an entry well-formed\<close>

lemma entry_ok_new: "entry_ok (entry_new snapshot retention spool_dir disk)"
proof -
  have "(1 :: u64) \<noteq> U64_MAX"
    by (simp add: U64_MAX_def)
  then show ?thesis
    by (simp add: entry_ok_def events_ok_def health_ok_def runs_ok_def visible_ok_def entry_new_def
        run_ids_def clamp_retention_def)
qed

lemma evict_runs_kept: "fst (evict_runs n disk rs) = drop (length rs - n) rs"
  by (induction rs) (auto simp: Suc_diff_le split: prod.split)

lemma run_ids_update:
  "(\<And>r. rl_run_generation (f r) = rl_run_generation r) \<Longrightarrow> run_ids (update_run i f e) = run_ids e"
  by (cases "i < length (en_runs e)")
     (simp_all add: run_ids_def update_run_def map_update list_update_beyond,
      metis list_update_id nth_map)

lemma has_run_iff: "has_run e g \<longleftrightarrow> g \<in> set (run_ids e)"
  by (auto simp: has_run_def run_ids_def list_ex_iff)

lemma length_takeWhile_less: "\<exists>x \<in> set xs. \<not> p x \<Longrightarrow> length (takeWhile p xs) < length xs"
  by (induction xs) auto

lemma ensure_run_spec:
  assumes "ensure_run g e = (i, e', reqs)" and "runs_ok e"
  shows "i < length (en_runs e')" and "rl_run_generation (en_runs e' ! i) = g" and "runs_ok e'"
    and "e' = e\<lparr> en_runs := en_runs e' \<rparr>" and "has_run e g \<Longrightarrow> e' = e \<and> reqs = []"
    and "\<not> has_run e g \<Longrightarrow> suffix (run_ids e') (run_ids e @ [g])"
proof -
  have main: "i < length (en_runs e') \<and> rl_run_generation (en_runs e' ! i) = g \<and> runs_ok e' \<and>
      e' = e\<lparr> en_runs := en_runs e' \<rparr> \<and> (has_run e g \<longrightarrow> e' = e \<and> reqs = []) \<and>
      (\<not> has_run e g \<longrightarrow> suffix (run_ids e') (run_ids e @ [g]))"
  proof (cases "has_run e g")
    case True
    let ?p = "\<lambda>r. rl_run_generation r \<noteq> g"
    have "\<exists>r \<in> set (en_runs e). \<not> ?p r"
      using True by (auto simp: has_run_def list_ex_iff)
    then have "length (takeWhile ?p (en_runs e)) < length (en_runs e)"
      by (rule length_takeWhile_less)
    moreover have "\<not> ?p (en_runs e ! length (takeWhile ?p (en_runs e)))"
      using calculation by (rule nth_length_takeWhile)
    ultimately show ?thesis
      using True assms by (auto simp: ensure_run_def)
  next
    case False
    let ?n = "retained_runs (lr_disk (en_log_retention e))"
    let ?new = "run_log_entry_new (sn_id (en_snapshot e)) g (en_spool_dir e) (en_disk e)"
    define r where "r = fst ?new"
    have r: "rl_run_generation r = g"
      by (simp add: r_def run_log_entry_new_def Let_def)
    define kept where "kept = fst (evict_runs ?n (en_disk e) (en_runs e @ [r]))"
    have "ensure_run g e = (length kept - 1, e\<lparr> en_runs := kept \<rparr>,
        snd ?new @ snd (evict_runs ?n (en_disk e) (en_runs e @ [r])))"
      using False by (simp add: ensure_run_def Let_def split_def r_def kept_def)
    then have e'': "e' = e\<lparr> en_runs := kept \<rparr>" and i': "i = length kept - 1"
      using assms(1) by simp_all
    have runs: "en_runs e' = drop (Suc (length (en_runs e)) - ?n) (en_runs e @ [r])"
      by (simp add: e'' kept_def evict_runs_kept)
    have e': "e' = e\<lparr> en_runs := en_runs e' \<rparr>" and i: "i = length (en_runs e') - 1"
      by (simp_all add: e'' i')
    have n: "1 \<le> ?n" "length (en_runs e) \<le> ?n"
      using assms(2) by (simp_all add: runs_ok_def)
    have kept: "en_runs e' = drop (Suc (length (en_runs e)) - ?n) (en_runs e) @ [r]"
      using n by (simp add: runs)
    have ids: "run_ids e' = drop (Suc (length (en_runs e)) - ?n) (run_ids e) @ [g]"
      by (simp add: run_ids_def kept r drop_map)
    have "g \<notin> set (run_ids e)"
      using False by (simp add: has_run_iff)
    then have "distinct (run_ids e')"
      using assms(2) by (auto simp: ids runs_ok_def dest: in_set_dropD)
    moreover have "en_log_retention e' = en_log_retention e"
      by (subst e') simp
    moreover have "length (en_runs e') \<le> ?n"
      using n by (simp add: kept)
    moreover have "suffix (run_ids e') (run_ids e @ [g])"
      by (simp add: ids suffix_drop)
    ultimately show ?thesis
      using n e' False by (simp add: runs_ok_def i kept nth_append r)
  qed
  then show "i < length (en_runs e')" and "rl_run_generation (en_runs e' ! i) = g" and "runs_ok e'"
    and "e' = e\<lparr> en_runs := en_runs e' \<rparr>" and "has_run e g \<Longrightarrow> e' = e \<and> reqs = []"
    and "\<not> has_run e g \<Longrightarrow> suffix (run_ids e') (run_ids e @ [g])"
    by blast+
qed


definition log_frame :: "service_entry \<Rightarrow> service_entry \<Rightarrow> bool" where
  "log_frame e e' \<longleftrightarrow>
     e' = e\<lparr> en_visible := en_visible e', en_runs := en_runs e',
             en_next_log_seq := en_next_log_seq e' \<rparr>"

lemma visible_ok_suffix:
  "visible_ok e \<Longrightarrow> suffix (buffer_seqs (en_visible e')) (buffer_seqs (en_visible e)) \<Longrightarrow>
   en_next_log_seq e' = en_next_log_seq e \<Longrightarrow> visible_ok e'"
  by (auto simp: visible_ok_def sorted_wrt_suffix dest: set_mono_suffix)

lemma visible_ok_push:
  assumes "visible_ok e" and "en_next_log_seq e' = u64_saturating_add (en_next_log_seq e) 1"
    and "suffix (buffer_seqs (en_visible e')) (buffer_seqs (en_visible e) @ [en_next_log_seq e])"
  shows "visible_ok e'"
  unfolding visible_ok_def
proof (intro impI)
  assume "en_next_log_seq e' \<noteq> U64_MAX"
  then have step: "en_next_log_seq e \<noteq> U64_MAX" "en_next_log_seq e < en_next_log_seq e'"
    using saturating_step [of "en_next_log_seq e"] by (simp_all add: assms(2))
  then have "sorted_wrt (<) (buffer_seqs (en_visible e) @ [en_next_log_seq e])"
    using assms(1) by (auto simp: visible_ok_def sorted_wrt_append)
  moreover have "\<forall>q \<in> set (buffer_seqs (en_visible e) @ [en_next_log_seq e]). q < en_next_log_seq e'"
    using assms(1) step by (auto simp: visible_ok_def)
  ultimately show "sorted_wrt (<) (buffer_seqs (en_visible e')) \<and>
      (\<forall>q \<in> set (buffer_seqs (en_visible e')). q < en_next_log_seq e')"
    using sorted_wrt_suffix [OF assms(3)] set_mono_suffix [OF assms(3)] by blast
qed

lemma resolve_update_cases:
  assumes "resolve_update update r n current_run visible = (op, seq, n', r')"
  shows "rl_run_generation r' = rl_run_generation r \<and>
         (op = DiskLogOp_Append \<and> seq = n \<and> n' = u64_saturating_add n 1 \<or>
          op = DiskLogOp_ReplaceLast \<and> n' = n \<and> rl_last_seq r = Some seq)"
  using assms
  by (auto simp: resolve_update_def Let_def append_metadata_def replace_metadata_def
      split: log_update_kind.splits option.splits if_splits)

lemma log_frame_fields:
  "log_frame e e' \<Longrightarrow> en_snapshot e' = en_snapshot e \<and> en_started_at e' = en_started_at e \<and>
     en_latest_begun_run e' = en_latest_begun_run e \<and> en_health e' = en_health e \<and>
     en_events e' = en_events e \<and> en_next_event_seq e' = en_next_event_seq e \<and>
     en_log_retention e' = en_log_retention e"
proof -
  assume "log_frame e e'"
  then have eq: "e' = e\<lparr> en_visible := en_visible e', en_runs := en_runs e',
             en_next_log_seq := en_next_log_seq e' \<rparr>"
    by (simp only: log_frame_def)
  show ?thesis
    by (intro conjI) (subst eq, simp)+
qed

text \<open>What a log record does to an entry, whatever run it belongs to.\<close>

lemma entry_append_log_spec:
  assumes "runs_ok e" and "fst (entry_append_log g update line disk_line ts e) = e'"
  shows "log_frame e e'" and "runs_ok e'" and "visible_ok e \<Longrightarrow> visible_ok e'"
    and "g \<noteq> en_latest_begun_run e \<Longrightarrow> en_visible e' = en_visible e \<and> run_ids e' = run_ids e"
proof -
  have "log_frame e e' \<and> runs_ok e' \<and> (visible_ok e \<longrightarrow> visible_ok e') \<and>
    (g \<noteq> en_latest_begun_run e \<longrightarrow> en_visible e' = en_visible e \<and> run_ids e' = run_ids e)"
  proof (cases "g \<noteq> en_latest_begun_run e \<and> \<not> has_run e g")
    case True
    then show ?thesis
      using assms by (simp add: entry_append_log_def log_frame_def)
  next
    case False
    obtain i e1 reqs where en: "ensure_run g e = (i, e1, reqs)"
      by (metis prod_cases3)
    note run = ensure_run_spec [OF en assms(1)]
    obtain op seq n' r where up: "resolve_update update (en_runs e1 ! i) (en_next_log_seq e1)
        (g = en_latest_begun_run e) (last_seq_of (mb_entries (en_visible e))) = (op, seq, n', r)"
      by (metis prod_cases4)
    note res = resolve_update_cases [OF up]
    let ?l = "\<lparr> ll_seq = seq, ll_run_generation = g, ll_timestamp_unix_ms = ts, ll_line = line \<rparr>"
    let ?e2 = "(update_run i (\<lambda>_. r) e1)\<lparr> en_next_log_seq := n' \<rparr>"
    have e': "e' = (if g = en_latest_begun_run e
        then ?e2\<lparr> en_visible := (case op of DiskLogOp_Append \<Rightarrow> buffer_append (en_visible ?e2) ?l
          | DiskLogOp_ReplaceLast \<Rightarrow> buffer_replace_last (en_visible ?e2) ?l) \<rparr> else ?e2)"
      unfolding assms(2) [symmetric] entry_append_log_def if_not_P [OF False]
      using run(1) by (simp add: en up Let_def)
    obtain rs where e1': "e1 = e\<lparr> en_runs := rs \<rparr>"
      using run(4) by blast
    then have e1: "en_visible e1 = en_visible e" "en_next_log_seq e1 = en_next_log_seq e"
      "en_log_retention e1 = en_log_retention e"
      by simp_all
    have frame: "log_frame e e'"
      by (simp add: log_frame_def e' update_run_def e1')
    have ids: "run_ids e' = run_ids e1"
    proof -
      have "map rl_run_generation ((en_runs e1)[i := r]) = map rl_run_generation (en_runs e1)"
        using res run(1) by (metis list_update_id map_update nth_map)
      then show ?thesis by (simp add: e' run_ids_def update_run_def)
    qed
    have "length (en_runs e') = length (en_runs e1)"
      by (simp add: e' update_run_def)
    then have runs: "runs_ok e'"
      using run(3) ids by (simp add: runs_ok_def e' update_run_def)
    have late: "en_visible e' = en_visible e \<and> run_ids e' = run_ids e" if "g \<noteq> en_latest_begun_run e"
      using that False run(5) ids e1 by (simp add: e' update_run_def)
    have "visible_ok e'" if ok: "visible_ok e"
    proof (cases "op = DiskLogOp_Append")
      case True
      have "suffix (buffer_seqs (en_visible e')) (buffer_seqs (en_visible e) @ [en_next_log_seq e]) \<or>
            suffix (buffer_seqs (en_visible e')) (buffer_seqs (en_visible e))"
        using True res buffer_seqs_push [of "en_visible e" ?l]
        by (auto simp: e' update_run_def e1 buffer_append_def simp del: suffix_snoc)
      then show ?thesis
      proof
        assume "suffix (buffer_seqs (en_visible e')) (buffer_seqs (en_visible e) @ [en_next_log_seq e])"
        then show ?thesis
          using True res by (intro visible_ok_push [OF ok]) (simp_all add: e' update_run_def e1)
      next
        assume s: "suffix (buffer_seqs (en_visible e')) (buffer_seqs (en_visible e))"
        have "en_next_log_seq e' = u64_saturating_add (en_next_log_seq e) 1"
          using True res by (simp add: e' update_run_def e1)
        then show ?thesis
          using ok s saturating_step [of "en_next_log_seq e"]
          by (fastforce simp: visible_ok_def sorted_wrt_suffix dest: set_mono_suffix less_trans)
      qed
    next
      case False
      then show ?thesis
        using ok res buffer_seqs_replace [of "en_visible e" ?l]
        by (intro visible_ok_suffix [OF ok]) (auto simp: e' update_run_def e1)
    qed
    then show ?thesis using frame runs late by blast
  qed
  then show "log_frame e e'" and "runs_ok e'" and "visible_ok e \<Longrightarrow> visible_ok e'"
    and "g \<noteq> en_latest_begun_run e \<Longrightarrow> en_visible e' = en_visible e \<and> run_ids e' = run_ids e"
    by blast+
qed


named_theorems entry_ok_intros

lemma entry_ok_push [entry_ok_intros]: "entry_ok e \<Longrightarrow> entry_ok (push_event ev e)"
  using events_ok_push [of e ev]
  by (simp add: entry_ok_def health_ok_def runs_ok_def visible_ok_def run_ids_def push_event_def)

lemma entry_ok_timestamp [entry_ok_intros]:
  "entry_ok e \<Longrightarrow> entry_ok (e\<lparr> en_last_ingest_timestamp_unix_ms := t \<rparr>)"
  by (simp add: entry_ok_def events_ok_def health_ok_def runs_ok_def visible_ok_def run_ids_def)

lemma entry_ok_snapshot [entry_ok_intros]:
  "entry_ok e \<Longrightarrow> entry_ok (e\<lparr> en_snapshot := sn, en_started_at := st \<rparr>)"
  by (simp add: entry_ok_def events_ok_def health_ok_def runs_ok_def visible_ok_def run_ids_def)

lemma entry_ok_log_frame:
  "entry_ok e \<Longrightarrow> log_frame e e' \<Longrightarrow> runs_ok e' \<Longrightarrow> visible_ok e' \<Longrightarrow> entry_ok e'"
  using log_frame_fields [of e e'] by (simp add: entry_ok_def events_ok_def health_ok_def)

lemma entry_ok_append_log [entry_ok_intros]:
  "entry_ok e \<Longrightarrow> entry_ok (fst (entry_append_log g update line disk_line ts e))"
  by (rule entry_ok_log_frame [OF _ entry_append_log_spec(1,2,3) [OF _ refl]])
     (simp_all add: entry_ok_def)

lemma entry_ok_banner [entry_ok_intros]:
  "entry_ok e \<Longrightarrow> entry_ok (fst (append_banner line disk_line ts e))"
  by (simp add: append_banner_def entry_ok_append_log)

lemma entry_ok_clear [entry_ok_intros]:
  assumes "entry_ok e"
  shows "entry_ok (clear_visible_logs e)"
proof -
  let ?e = "e\<lparr> en_visible := buffer_clear_before_next_seq (en_visible e) (en_next_log_seq e) \<rparr>"
  have vis: "visible_ok ?e"
    by (rule visible_ok_suffix [of e]) (use assms buffer_seqs_clear in \<open>simp_all add: entry_ok_def\<close>)
  let ?u = "update_run (length (en_runs ?e) - 1) (\<lambda>r. r\<lparr> rl_live_snapshot_id := None \<rparr>) ?e"
  have "run_ids ?u = run_ids ?e"
    by (rule run_ids_update) simp
  then have "entry_ok ?u"
    using assms vis
    by (simp add: entry_ok_def events_ok_def health_ok_def runs_ok_def visible_ok_def run_ids_def
        update_run_def)
  moreover have "entry_ok ?e"
    using assms vis
    by (simp add: entry_ok_def events_ok_def health_ok_def runs_ok_def run_ids_def)
  ultimately show ?thesis
    by (simp add: clear_visible_logs_def Let_def)
qed

lemma entry_ok_reconfigure [entry_ok_intros]:
  assumes "entry_ok e"
  shows "entry_ok (fst (entry_reconfigure retention e))"
proof -
  let ?r = "clamp_retention retention"
  let ?runs = "drop (length (en_runs e) - retained_runs (lr_disk ?r)) (en_runs e)"
  let ?e = "e\<lparr> en_visible := buffer_reconfigure (en_visible e) (lr_memory ?r),
             en_log_retention := ?r, en_runs := ?runs \<rparr>"
  have "fst (entry_reconfigure retention e) = ?e"
    by (simp add: entry_reconfigure_def Let_def split_def evict_runs_kept)
  moreover have "visible_ok ?e"
    by (rule visible_ok_suffix [of e])
       (use assms buffer_seqs_reconfigure in \<open>simp_all add: entry_ok_def\<close>)
  moreover have "runs_ok ?e"
    using assms
    by (simp add: entry_ok_def runs_ok_def run_ids_def clamp_retention_def distinct_drop flip: drop_map)
  ultimately show ?thesis
    using assms by (simp add: entry_ok_def events_ok_def health_ok_def)
qed

lemma entry_begin_run_spec:
  assumes "entry_ok e" and "fst (entry_begin_run g e) = e'"
  shows "entry_ok e'" and "en_latest_begun_run e' = g" and "en_health e' = []"
    and "g \<in> set (run_ids e')" and "en_snapshot e' = en_snapshot e"
    and "en_started_at e' = en_started_at e"
proof -
  obtain i e1 reqs where en: "ensure_run g (e\<lparr> en_latest_begun_run := g \<rparr>) = (i, e1, reqs)"
    by (metis prod_cases3)
  have ok: "runs_ok (e\<lparr> en_latest_begun_run := g \<rparr>)"
    using assms(1) by (simp add: entry_ok_def runs_ok_def run_ids_def)
  note run = ensure_run_spec [OF en ok]
  obtain rs where e1: "e1 = e\<lparr> en_latest_begun_run := g, en_runs := rs \<rparr>"
    using run(4) by (metis service_entry.update_convs(5))
  let ?u = "update_run i (\<lambda>r. r\<lparr> rl_live_snapshot_id := None \<rparr>) e1"
  have ids: "run_ids ?u = run_ids e1"
    by (rule run_ids_update) simp
  have e': "e' = ?u\<lparr> en_health := [] \<rparr>"
    using assms(2) run(1) by (simp add: entry_begin_run_def en Let_def)
  have "g \<in> set (run_ids e1)"
    using run(1,2) by (force simp: run_ids_def)
  then show "g \<in> set (run_ids e')"
    using ids by (simp add: e' run_ids_def)
  show "entry_ok e'"
    using assms(1) run(3) ids
    by (simp add: e' entry_ok_def events_ok_def health_ok_def runs_ok_def visible_ok_def run_ids_def
        update_run_def e1)
  show "en_latest_begun_run e' = g" and "en_health e' = []" and "en_snapshot e' = en_snapshot e"
    and "en_started_at e' = en_started_at e"
    by (simp_all add: e' update_run_def e1)
qed

lemma modify_first_set: "a \<in> set (modify_first p f xs) \<Longrightarrow> a \<in> set xs \<or> (\<exists>b \<in> set xs. p b \<and> a = f b)"
  by (induction xs) (auto split: if_splits)

lemma modify_first_length [simp]: "length (modify_first p f xs) = length xs"
  by (induction xs) simp_all

lemma entry_ok_attempt [entry_ok_intros]:
  assumes "entry_ok e" and "ha_run_generation a = en_latest_begun_run e" and "attempt_ok a"
  shows "entry_ok (push_health_attempt a e)"
proof -
  have "health_ok (push_health_attempt a e)"
    using assms health_log.length_record [of a e] health_log.set_record [of _ a e]
    by (auto simp: entry_ok_def health_ok_def push_health_attempt_def)
  then show ?thesis
    using assms(1)
    by (simp add: entry_ok_def events_ok_def runs_ok_def visible_ok_def run_ids_def
        push_health_attempt_def)
qed

lemma entry_ok_modify_attempt [entry_ok_intros]:
  assumes "entry_ok e"
    and "\<And>a. attempt_ok a \<Longrightarrow> attempt_ok (f a) \<and> ha_run_generation (f a) = ha_run_generation a"
  shows "entry_ok (e\<lparr> en_health := modify_first p f (en_health e) \<rparr>)"
proof -
  have "health_ok (e\<lparr> en_health := modify_first p f (en_health e) \<rparr>)"
    using assms by (auto simp: entry_ok_def health_ok_def dest!: modify_first_set)
  then show ?thesis
    using assms(1) by (simp add: entry_ok_def events_ok_def runs_ok_def visible_ok_def run_ids_def)
qed

lemma push_health_output_generation [simp]:
  "ha_run_generation (push_health_output l a) = ha_run_generation a"
  by (simp add: push_health_output_def)

lemma attempt_ok_output:
  assumes "attempt_ok a" and "length (hl_line l) \<le> MODEL_STRING_MAX_BYTES"
  shows "attempt_ok (push_health_output l a)"
proof -
  have "ha_command (push_health_output l a) = ha_command a"
    by (simp add: push_health_output_def)
  moreover have "length (hl_line l') \<le> MODEL_STRING_MAX_BYTES"
    if "l' \<in> set (ha_output (push_health_output l a))" for l'
    using health_output.set_record [OF that] assms by (auto simp: attempt_ok_def)
  ultimately show ?thesis
    using assms(1) health_output.length_record [of l a] by (simp add: attempt_ok_def)
qed

section \<open>Every write keeps the model well-formed\<close>

named_theorems model_ok_intros

lemma send_disk_services [simp]: "sm_services (send_disk enc reqs m) = sm_services m"
  by (simp add: send_disk_def)

lemma publish_services [simp]: "sm_services (publish s k m) = sm_services m"
  by (simp add: publish_def)

lemma model_ok_publish [simp]: "model_ok (publish s k m) = model_ok m"
  by (simp add: model_ok_def)

lemma update_entry_get:
  "im_get (sm_services (update_entry enc s f m)) x =
     (if x = s then map_option (\<lambda>e. fst (f e)) (im_get (sm_services m) s)
      else im_get (sm_services m) x)"
  by (simp add: update_entry_def im_get_insert split: option.split)

lemma update_entry_keys [simp]:
  "im_keys (sm_services (update_entry enc s f m)) = im_keys (sm_services m)"
  by (auto simp: update_entry_def im_keys_insert im_get_keys split: option.split)

lemma model_ok_update:
  assumes "model_ok m"
    and "\<And>e. im_get (sm_services m) s = Some e \<Longrightarrow> entry_ok e \<Longrightarrow>
           entry_ok (fst (f e)) \<and> sn_id (en_snapshot (fst (f e))) = sn_id (en_snapshot e)"
  shows "model_ok (update_entry enc s f m)"
proof -
  have "im_wf (sm_services (update_entry enc s f m))"
    using assms(1) by (simp add: model_ok_def im_wf_def)
  then show ?thesis
    using assms by (auto simp: model_ok_def update_entry_get split: if_splits)
qed

lemma model_ok_insert_service [model_ok_intros]:
  "model_ok m \<Longrightarrow> model_ok (insert_service snapshot retention m)"
  by (auto simp: insert_service_def model_ok_def im_get_insert entry_ok_new)
     (simp add: entry_new_def)

lemma model_ok_remove_service [model_ok_intros]: "model_ok m \<Longrightarrow> model_ok (remove_service enc s m)"
  by (auto simp: remove_service_def model_ok_def im_get_remove split: option.split if_splits)

lemma model_ok_write_snapshot [model_ok_intros]:
  "model_ok m \<Longrightarrow> model_ok (write_snapshot snapshot started_at m)"
  by (auto simp: write_snapshot_def model_ok_def im_get_insert entry_ok_snapshot split: option.split)

lemma append_log_snapshot [simp]:
  "runs_ok e \<Longrightarrow>
   en_snapshot (fst (entry_append_log g update line disk_line ts e)) = en_snapshot e \<and>
   en_started_at (fst (entry_append_log g update line disk_line ts e)) = en_started_at e"
  using log_frame_fields [OF entry_append_log_spec(1) [OF _ refl]] by blast

lemma push_event_snapshot [simp]:
  "en_snapshot (push_event ev e) = en_snapshot e"
  "en_started_at (push_event ev e) = en_started_at e"
  by (simp_all add: push_event_def)

lemma event_entry_ok:
  assumes "entry_ok e"
  shows "entry_ok (fst (event_write unix ev banner disk_line e)) \<and>
         en_snapshot (fst (event_write unix ev banner disk_line e)) = en_snapshot e \<and>
         en_started_at (fst (event_write unix ev banner disk_line e)) = en_started_at e"
proof -
  let ?e = "push_event ev (snd (next_ingest_timestamp unix e))"
  have "entry_ok ?e"
    using assms by (simp add: next_ingest_timestamp_def Let_def entry_ok_intros)
  moreover have "runs_ok ?e"
    using calculation by (simp add: entry_ok_def)
  ultimately show ?thesis
    by (simp add: event_write_def append_banner_def entry_ok_intros next_ingest_timestamp_def Let_def
        split: option.split)
qed

lemma model_ok_append_event [model_ok_intros]:
  "model_ok m \<Longrightarrow> model_ok (append_event enc unix s ev m)"
  by (auto intro!: model_ok_update simp: append_event_def Let_def event_entry_ok)

lemma model_ok_clear_logs [model_ok_intros]: "model_ok m \<Longrightarrow> model_ok (clear_logs enc s m)"
  by (auto intro!: model_ok_update simp: clear_logs_def entry_ok_clear)
     (simp add: clear_visible_logs_def update_run_def Let_def)

lemma model_ok_begin_run [model_ok_intros]: "model_ok m \<Longrightarrow> model_ok (begin_run enc s g m)"
  by (auto intro!: model_ok_update simp: begin_run_def entry_begin_run_spec [OF _ refl])

lemma reconfigure_snapshot [simp]:
  "en_snapshot (fst (entry_reconfigure retention e)) = en_snapshot e"
  "en_started_at (fst (entry_reconfigure retention e)) = en_started_at e"
  by (simp_all add: entry_reconfigure_def Let_def split_def)

lemma model_ok_reconfigure_log [model_ok_intros]:
  "model_ok m \<Longrightarrow> model_ok (reconfigure_log_retention enc s retention m)"
  by (auto intro!: model_ok_update simp: reconfigure_log_retention_def entry_ok_reconfigure)

lemma model_ok_sink_append_log [model_ok_intros]:
  assumes "model_ok m"
  shows "model_ok (sink_append_log enc unix s g stream update line m)"
proof -
  have "entry_ok (e\<lparr> en_last_ingest_timestamp_unix_ms := t \<rparr>)"
    "runs_ok (e\<lparr> en_last_ingest_timestamp_unix_ms := t \<rparr>)" if "entry_ok e" for e t
    using entry_ok_timestamp [OF that, of t] by (simp_all add: entry_ok_def)
  then show ?thesis
    using assms
    by (auto intro!: model_ok_update simp: sink_append_log_def Let_def next_ingest_timestamp_def
        entry_ok_append_log)
qed

lemma model_ok_start_attempt [model_ok_intros]:
  "model_ok m \<Longrightarrow> model_ok (start_health_attempt enc s g attempt command m)"
  by (auto intro!: model_ok_update entry_ok_attempt simp: start_health_attempt_def attempt_ok_def
      truncate_to_first_bytes_length split: option.split)
     (simp add: push_health_attempt_def)

lemma model_ok_update_attempt:
  assumes "model_ok m"
    and "\<And>a. attempt_ok a \<Longrightarrow> attempt_ok (f a) \<and> ha_run_generation (f a) = ha_run_generation a"
  shows "model_ok (update_attempt enc s g attempt f m)"
  using assms
  by (auto intro!: model_ok_update entry_ok_modify_attempt simp: update_attempt_def Let_def
      split: option.split)

lemma model_ok_health_line [model_ok_intros]:
  "model_ok m \<Longrightarrow> model_ok (append_health_line enc s g attempt stream line m)"
  unfolding append_health_line_def
  by (rule model_ok_update_attempt)
     (simp_all add: attempt_ok_output truncate_to_first_bytes_length)

lemma model_ok_finish_attempt [model_ok_intros]:
  "model_ok m \<Longrightarrow> model_ok (finish_health_attempt enc s g attempt success code cancelled m)"
  unfolding finish_health_attempt_def
  by (rule model_ok_update_attempt) (simp_all add: attempt_ok_def)

lemma model_ok_new: "model_ok (new_with_retention initial spool_dir)"
proof -
  define P where
    "P ss \<longleftrightarrow> im_wf ss \<and> (\<forall>s e. im_get ss s = Some e \<longrightarrow> entry_ok e \<and> sn_id (en_snapshot e) = s)"
    for ss
  have step: "P ss \<Longrightarrow> P (fold (\<lambda>(snapshot, retention). im_insert (sn_id snapshot)
      (entry_new snapshot retention spool_dir disk)) initial ss)" for ss disk
  proof (induction initial arbitrary: ss)
    case (Cons a initial)
    obtain snapshot retention where a: "a = (snapshot, retention)" by fastforce
    let ?e = "entry_new snapshot retention spool_dir disk"
    have "entry_ok ?e" "sn_id (en_snapshot ?e) = sn_id snapshot"
      by (simp add: entry_ok_new) (simp add: entry_new_def)
    then have "P (im_insert (sn_id snapshot) ?e ss)"
      using Cons.prems by (simp add: P_def im_get_insert)
    then show ?case
      by (simp add: a Cons.IH)
  qed simp
  have "P []"
    by (simp add: P_def)
  then have "P (sm_services (new_with_retention initial spool_dir))"
    unfolding new_with_retention_def Let_def session_model.select_convs by (rule step)
  then show ?thesis
    unfolding model_ok_def P_def .
qed


section \<open>The model as a machine\<close>

datatype model_write =
    Write_Insert service_snapshot log_retention
  | Write_Remove service_id
  | Write_Event "u64 option" service_id service_event
  | Write_Snapshot service_snapshot "instant option"
  | Write_ClearLogs service_id
  | Write_BeginRun service_id u64
  | Write_Retention service_id log_retention
  | Sink_Log "u64 option" service_id u64 output_stream log_update_kind string
  | Sink_StartAttempt service_id u64 u64 string
  | Sink_HealthLine service_id u64 u64 output_stream string
  | Sink_FinishAttempt service_id u64 u64 bool i32 bool

fun apply_write :: "disk_encoding \<Rightarrow> model_write \<Rightarrow> session_model \<Rightarrow> session_model" where
  "apply_write enc (Write_Insert sn r) m = insert_service sn r m"
| "apply_write enc (Write_Remove s) m = remove_service enc s m"
| "apply_write enc (Write_Event unix s ev) m = append_event enc unix s ev m"
| "apply_write enc (Write_Snapshot sn st) m = write_snapshot sn st m"
| "apply_write enc (Write_ClearLogs s) m = clear_logs enc s m"
| "apply_write enc (Write_BeginRun s g) m = begin_run enc s g m"
| "apply_write enc (Write_Retention s r) m = reconfigure_log_retention enc s r m"
| "apply_write enc (Sink_Log unix s g stream update line) m =
     sink_append_log enc unix s g stream update line m"
| "apply_write enc (Sink_StartAttempt s g a command) m = start_health_attempt enc s g a command m"
| "apply_write enc (Sink_HealthLine s g a stream line) m =
     append_health_line enc s g a stream line m"
| "apply_write enc (Sink_FinishAttempt s g a success code cancelled) m =
     finish_health_attempt enc s g a success code cancelled m"

lemma model_ok_apply_write: "model_ok m \<Longrightarrow> model_ok (apply_write enc w m)"
  by (cases w) (simp_all add: model_ok_intros)

interpretation model_machine: invariant_machine "\<lambda>m w m'. m' = apply_write enc w m" model_ok
  by unfold_locales (simp add: model_ok_apply_write)

text \<open>
  C4. Bounds of the session model. After any writes of the scheduler and of any runs, late ones
  included, each service has one entry under its own id that keeps at most 256 lifecycle events, at
  most eight health attempts, all of the run that began last and each with at most 200 lines of
  output of at most 16 KiB, and at most as many runs as its retention allows, each once; the
  cursors of its visible log increase strictly as long as the counter has not saturated.
\<close>

theorem session_model_bounded:
  assumes "run (\<lambda>m w m'. m' = apply_write enc w m) (new_with_retention initial spool) ws m"
    and "im_get (sm_services m) s = Some e"
  shows "sn_id (en_snapshot e) = s \<and> length (en_events e) \<le> 256 \<and>
         length (en_health e) \<le> 8 \<and>
         list_all (\<lambda>a. ha_run_generation a = en_latest_begun_run e \<and> length (ha_output a) \<le> 200 \<and>
                      list_all (\<lambda>l. length (hl_line l) \<le> 16384) (ha_output a)) (en_health e) \<and>
         length (en_runs e) \<le> retained_runs (lr_disk (en_log_retention e)) \<and>
         distinct (map rl_run_generation (en_runs e)) \<and>
         (en_next_log_seq e = U64_MAX \<or>
          sorted_wrt (\<lambda>x y. ll_seq x < ll_seq y) (query_logs s None m))"
proof -
  have "model_ok m"
    using model_machine.run_inv [OF assms(1)] model_ok_new by blast
  then have ok: "entry_ok e" and sn: "sn_id (en_snapshot e) = s"
    using assms(2) by (simp_all add: model_ok_def)
  have "sorted_wrt (\<lambda>x y. ll_seq x < ll_seq y) (query_logs s None m)" if "en_next_log_seq e \<noteq> U64_MAX"
    using ok that assms(2)
    by (simp add: entry_ok_def visible_ok_def buffer_seqs_def query_logs_def buffer_lines_def
        sorted_wrt_map)
  then show ?thesis
    using ok sn
    by (auto simp: entry_ok_def events_ok_def health_ok_def attempt_ok_def runs_ok_def run_ids_def
        list_all_iff EVENT_HISTORY_def HEALTH_HISTORY_def HEALTH_OUTPUT_MAX_LINES_def
        MODEL_STRING_MAX_BYTES_def)
qed


definition example_snapshot :: "service_id \<Rightarrow> service_snapshot" where
  "example_snapshot s = snapshot_initial s s [] None RestartPolicy_Never [''serve''] None"

definition example_model :: session_model where
  "example_model = new_with_retention [(example_snapshot ''web'', default_log_retention)] None"

definition example_enc :: disk_encoding where
  "example_enc = \<lparr> encoded_len = (\<lambda>r. Some (length (dlr_line r))), command_size = 96 \<rparr>"

lemma example_model_get:
  "im_get (sm_services example_model) ''web'' =
     Some (entry_new (example_snapshot ''web'') default_log_retention None False)"
  by (simp add: example_model_def new_with_retention_def Let_def example_snapshot_def
      snapshot_initial_def)

theorem session_model_bounded_witness:
  "length (en_events (push_event (service_event None 0 ServiceEventKind_Spawned ''up'')
     (entry_new (example_snapshot ''web'') default_log_retention None False))) \<le> 256"
proof -
  let ?w = "Write_Event None ''web'' (service_event None 0 ServiceEventKind_Spawned ''up'')"
  let ?m = "apply_write example_enc ?w example_model"
  have "run (\<lambda>m w m'. m' = apply_write example_enc w m) example_model [?w] ?m"
    by (rule run_Cons) (rule refl, rule run_Nil)
  moreover have "im_get (sm_services ?m) ''web'' =
      Some (push_event (service_event None 0 ServiceEventKind_Spawned ''up'')
        (entry_new (example_snapshot ''web'') default_log_retention None False))"
    by (simp add: append_event_def Let_def example_model_get update_entry_get event_write_def
        next_ingest_timestamp_def service_event_def log_banner_def MODEL_STRING_MAX_BYTES_def
        truncate_to_first_bytes_def entry_new_def push_event_def)
  ultimately show ?thesis
    using session_model_bounded [of example_enc _ None] unfolding example_model_def by blast
qed

text \<open>
  The lifecycle timeline of a reader. Asked for the events after a cursor (or, without one,
  for the newest), \<^verbatim>\<open>SessionModelReader::events\<close> returns events with consecutive sequence numbers
  beyond the cursor, at most as many as asked for; the truncation flag is raised exactly when the
  answer is not every event recorded after the cursor, so a follower never misses a gap.
\<close>

theorem events_query_exact:
  assumes "model_ok m" and "im_get (sm_services m) s = Some e"
    and "en_next_event_seq e \<noteq> U64_MAX"
  shows "let (evs, truncated) = query_events s after tail m;
             cursor = (case after of None \<Rightarrow> 0 | Some a \<Rightarrow> unat a)
         in (\<exists>lo hi. cursor < lo \<and> map (\<lambda>ev. unat (se_seq ev)) evs = [lo ..< hi]) \<and>
            set evs \<subseteq> set (en_events e) \<and>
            length evs \<le> (case tail of None \<Rightarrow> 256 | Some n \<Rightarrow> n) \<and>
            (truncated \<longleftrightarrow>
               map (\<lambda>ev. unat (se_seq ev)) evs \<noteq> [Suc cursor ..< unat (en_next_event_seq e)])"
proof -
  let ?n = "unat (en_next_event_seq e)" and ?k = "length (en_events e)"
  let ?seq = "\<lambda>ev. unat (se_seq ev)"
  define cur where "cur = (case after of None \<Rightarrow> 0 | Some a \<Rightarrow> unat a)"
  define limit where "limit = min (case tail of None \<Rightarrow> EVENT_HISTORY | Some n \<Rightarrow> n) EVENT_HISTORY"
  define matching where
    "matching = filter (\<lambda>ev. case after of None \<Rightarrow> True | Some a \<Rightarrow> a < se_seq ev) (en_events e)"
  have ok: "events_ok e"
    using assms(1,2) by (simp add: model_ok_def entry_ok_def)
  then have pos: "0 < ?n"
    by (simp add: events_ok_def unat_gt_0)
  have k: "?k = min (?n - 1) EVENT_HISTORY" and seqs: "map ?seq (en_events e) = [?n - ?k ..< ?n]"
    using ok assms(3) by (simp_all add: events_ok_def)
  have first: "?seq (hd (en_events e)) = ?n - ?k" if "en_events e \<noteq> []"
  proof -
    have "?n - ?k < ?n"
      using that pos by (simp add: length_greater_0_conv)
    then have "hd (map ?seq (en_events e)) = ?n - ?k"
      unfolding seqs by (rule hd_upt)
    then show ?thesis
      using that by (simp add: hd_map)
  qed
  have "map ?seq matching = filter (\<lambda>q. case after of None \<Rightarrow> True | Some a \<Rightarrow> unat a < q) [?n - ?k ..< ?n]"
    by (cases after) (simp_all add: matching_def word_less_nat_alt filter_map comp_def flip: seqs)
  also have "\<dots> = [max (Suc cur) (?n - ?k) ..< ?n]"
  proof -
    have "?k < ?n"
      using k pos by linarith
    then have "max (Suc 0) (?n - ?k) = ?n - ?k"
      by (simp add: max_absorb2)
    then show ?thesis
      by (simp add: cur_def filter_less_upt split: option.split)
  qed
  finally have match: "map ?seq matching = [max (Suc cur) (?n - ?k) ..< ?n]" .
  then have len: "length matching = ?n - max (Suc cur) (?n - ?k)"
    by (metis length_map length_upt)
  define rt where "rt = (case en_events e of [] \<Rightarrow> False
    | f # _ \<Rightarrow> u64_saturating_add (case after of None \<Rightarrow> 0 | Some a \<Rightarrow> a) 1 < se_seq f)"
  have rt: "rt \<longleftrightarrow> en_events e \<noteq> [] \<and> Suc cur < ?n - ?k"
  proof (cases "en_events e")
    case (Cons f fs)
    have "unat (u64_saturating_add (case after of None \<Rightarrow> 0 | Some a \<Rightarrow> a) 1) =
        min (Suc cur) (2 ^ 64 - 1)"
      by (simp add: unat_u64_saturating_add cur_def split: option.split)
    moreover have "?n - ?k \<le> 2 ^ 64 - 1"
      using unat_u64_less [of "en_next_event_seq e"] by linarith
    ultimately show ?thesis
      using first Cons by (simp add: rt_def word_less_nat_alt min_def)
  qed (simp add: rt_def)
  define evs where "evs = (if after \<noteq> None then take limit matching
      else drop (length matching - limit) matching)"
  have query: "query_events s after tail m = (evs, rt \<or> limit < length matching)"
    using assms(2)
    by (simp add: query_events_def Let_def limit_def matching_def rt_def evs_def)
  define lo where "lo = max (Suc cur) (?n - ?k)"
  have all: "lo = Suc cur" if "\<not> rt"
    using that rt k pos by (auto simp: lo_def EVENT_HISTORY_def)
  have evs: "map ?seq evs = (if after \<noteq> None then [lo ..< min (lo + limit) ?n]
      else [lo + (?n - lo - limit) ..< ?n])"
    using match by (simp add: evs_def lo_def take_upt_min flip: take_map drop_map)
      (simp add: len)
  have full: "map ?seq evs = [lo ..< ?n]" if "\<not> limit < length matching"
    using that by (simp add: evs_def match lo_def)
  have short: "length evs < length [Suc cur ..< ?n]" if "rt \<or> limit < length matching"
  proof -
    have "?k \<noteq> 0 \<and> ?k \<le> ?n" if rt
      using that rt k by (auto simp: EVENT_HISTORY_def)
    then show ?thesis
      using that len rt by (auto simp: evs_def)
  qed
  have "map ?seq evs \<noteq> [Suc cur ..< ?n]" if "rt \<or> limit < length matching"
    using short [OF that] by (metis length_map less_irrefl)
  moreover have "map ?seq evs = [Suc cur ..< ?n]" if "\<not> (rt \<or> limit < length matching)"
    using full all that by simp
  moreover have "set evs \<subseteq> set (en_events e)"
    by (auto simp: evs_def matching_def dest: in_set_takeD in_set_dropD)
  moreover have "length evs \<le> (case tail of None \<Rightarrow> 256 | Some n \<Rightarrow> n)"
    by (auto simp: evs_def limit_def EVENT_HISTORY_def split: option.split)
  moreover have "\<exists>l h. cur < l \<and> map ?seq evs = [l ..< h]"
  proof (cases "after = None")
    case True
    then show ?thesis
      using evs by (intro exI [of _ "lo + (?n - lo - limit)"] exI [of _ ?n]) (simp add: lo_def)
  next
    case False
    then show ?thesis
      using evs by (intro exI [of _ lo] exI [of _ "min (lo + limit) ?n"]) (simp add: lo_def)
  qed
  ultimately show ?thesis
    unfolding query Let_def cur_def [symmetric] by auto
qed

theorem events_query_exact_witness:
  "snd (query_events ''web'' (Some 0) (Some 10) example_model) = False"
proof -
  have "(1 :: u64) \<noteq> U64_MAX"
    by (simp add: U64_MAX_def)
  then have "en_next_event_seq (entry_new (example_snapshot ''web'') default_log_retention None False) \<noteq>
      U64_MAX"
    by (simp add: entry_new_def)
  from events_query_exact [OF _ example_model_get this, of "Some 0" "Some 10"] model_ok_new
  show ?thesis
    by (auto simp: example_model_def [symmetric] query_events_def example_model_get)
       (simp_all add: entry_new_def)
qed

text \<open>
  Late records of a run. A record of a run that is not the one that began last never changes
  what readers see of the current run: health records leave the model as it is, a log record
  leaves the visible log, the timeline, the health history and the set of retained runs as they
  are, and if the retention already evicted its run the record is dropped altogether instead of
  bringing the run back in place of a newer one.
\<close>

theorem late_records_isolated:
  assumes "model_ok m" and "im_get (sm_services m) s = Some e" and "g \<noteq> en_latest_begun_run e"
  shows "start_health_attempt enc s g a command m = m \<and>
         append_health_line enc s g a stream line m = m \<and>
         finish_health_attempt enc s g a success code cancelled m = m \<and>
         (\<exists>e'. im_get (sm_services (sink_append_log enc unix s g stream update line m)) s = Some e' \<and>
            en_visible e' = en_visible e \<and> en_health e' = en_health e \<and>
            en_events e' = en_events e \<and> en_snapshot e' = en_snapshot e \<and>
            en_latest_begun_run e' = en_latest_begun_run e \<and>
            map rl_run_generation (en_runs e') = map rl_run_generation (en_runs e) \<and>
            (g \<notin> rl_run_generation ` set (en_runs e) \<longrightarrow> en_runs e' = en_runs e \<and>
               sm_disk (sink_append_log enc unix s g stream update line m) = sm_disk m))"
proof -
  let ?e = "snd (next_ingest_timestamp unix e)"
  have same: "en_visible ?e = en_visible e" "en_health ?e = en_health e" "en_events ?e = en_events e"
    "en_snapshot ?e = en_snapshot e" "en_latest_begun_run ?e = en_latest_begun_run e"
    "en_runs ?e = en_runs e" "en_log_retention ?e = en_log_retention e"
    by (simp_all add: next_ingest_timestamp_def Let_def)
  have ok: "runs_ok ?e"
    using assms(1,2) same by (simp add: model_ok_def entry_ok_def runs_ok_def run_ids_def)
  obtain msg disk_msg where
    sinked: "sink_append_log enc unix s g stream update line m = publish s ChangeKind_Logs
      (update_entry enc s (\<lambda>e. let (timestamp, e) = next_ingest_timestamp unix e
         in entry_append_log g update msg disk_msg timestamp e) m)"
    using assms(2) by (auto simp: sink_append_log_def Let_def)
  define r where "r = entry_append_log g update msg disk_msg (fst (next_ingest_timestamp unix e)) ?e"
  have get: "im_get (sm_services (sink_append_log enc unix s g stream update line m)) s = Some (fst r)"
    using assms(2) by (simp add: sinked update_entry_get r_def split_def Let_def)
  note spec = entry_append_log_spec [OF ok, of g update msg disk_msg
      "fst (next_ingest_timestamp unix e)" "fst r", unfolded r_def, OF refl, folded r_def]
  have late: "en_visible (fst r) = en_visible e \<and> run_ids (fst r) = run_ids e"
    using spec(4) assms(3) same by (simp add: run_ids_def)
  have gone: "r = (?e, [])" if "g \<notin> rl_run_generation ` set (en_runs e)"
  proof -
    have "\<not> has_run ?e g"
      using that same by (auto simp: has_run_iff run_ids_def)
    then show ?thesis
      using assms(3) same by (simp add: r_def entry_append_log_def)
  qed
  have disk: "sm_disk (sink_append_log enc unix s g stream update line m) = sm_disk m"
    if "g \<notin> rl_run_generation ` set (en_runs e)"
    using gone [OF that] assms(2)
    by (simp add: sinked publish_def update_entry_def send_disk_def r_def split_def Let_def option.map_id0)
  show ?thesis
    using assms(2,3) get late log_frame_fields [OF spec(1)] same gone disk
    by (auto simp: start_health_attempt_def append_health_line_def finish_health_attempt_def
        update_attempt_def run_ids_def)
qed

theorem late_records_isolated_witness:
  "start_health_attempt example_enc ''web'' 7 1 ''probe'' example_model = example_model"
proof -
  have "7 \<noteq> en_latest_begun_run (entry_new (example_snapshot ''web'') default_log_retention None False)"
    by (simp add: entry_new_def example_snapshot_def snapshot_initial_def)
  from late_records_isolated [OF _ example_model_get this] model_ok_new show ?thesis
    unfolding example_model_def by blast
qed

end
