(* ===== verification/Schedule.thy ===== *)
theory Schedule
  imports Runtime Session_Model
begin

text \<open>
  A scheduling pass, \<^verbatim>\<open>src/crates/micromux/src/scheduler/schedule.rs\<close>: which services may start,
  what a start does to the runtime and to the model, and the loop that starts everything that can
  start. The spawn of a process (\<^verbatim>\<open>pty::start_service_with_pty_size\<close>) is a parameter; one pass reads
  both clocks once.
\<close>

section \<open>The context of a pass\<close>

record started_pty =
  sp_pid :: "u32 option"
  sp_handles :: pty_handles
  sp_log_reader :: log_reader_handle

record pass_env =
  pe_now :: instant
  pe_unix :: "u64 option"
  pe_enc :: disk_encoding
  pe_spawn :: "service \<Rightarrow> run_id \<Rightarrow> pty_size \<Rightarrow> string + started_pty"

record schedule_context =
  cx_services :: service_map
  cx_runtimes :: runtimes
  cx_pty_size :: pty_size
  cx_model :: session_model

definition sync_model ::
  "instant \<Rightarrow> service \<Rightarrow> service_runtime \<Rightarrow> session_model \<Rightarrow> session_model"
where
  "sync_model now s r m =
     (let (snapshot, started_at) = project_snapshot now s r in write_snapshot snapshot started_at m)"

definition set_runtime :: "service_id \<Rightarrow> service_runtime \<Rightarrow> schedule_context \<Rightarrow> schedule_context" where
  "set_runtime i r ctx = ctx\<lparr> cx_runtimes := im_insert i r (cx_runtimes ctx) \<rparr>"

definition ctx_sync ::
  "pass_env \<Rightarrow> service \<Rightarrow> service_runtime \<Rightarrow> schedule_context \<Rightarrow> schedule_context"
where
  "ctx_sync env s r ctx = ctx\<lparr> cx_model := sync_model (pe_now env) s r (cx_model ctx) \<rparr>"

definition ctx_event ::
  "pass_env \<Rightarrow> service_id \<Rightarrow> service_event \<Rightarrow> schedule_context \<Rightarrow> schedule_context"
where
  "ctx_event env i ev ctx =
     ctx\<lparr> cx_model := append_event (pe_enc env) (pe_unix env) i ev (cx_model ctx) \<rparr>"

section \<open>Dependencies\<close>

record blocked_dependency =
  bd_service :: service_id
  bd_condition :: dependency_condition

definition describe_dependency :: "blocked_dependency \<Rightarrow> string" where
  "describe_dependency b =
     bd_service b @ '' '' @
     (case bd_condition b of
        DependencyCondition_Started \<Rightarrow> ''to start''
      | DependencyCondition_Healthy \<Rightarrow> ''to become healthy''
      | DependencyCondition_CompletedSuccessfully \<Rightarrow> ''to complete successfully'')"

definition describe_blockers :: "blocked_dependency list \<Rightarrow> string" where
  "describe_blockers blocked = join_with '', '' (map describe_dependency blocked)"

fun condition_met :: "dependency_condition \<Rightarrow> state \<Rightarrow> bool" where
  "condition_met DependencyCondition_Started (State_Running h) = True"
| "condition_met DependencyCondition_Healthy (State_Running (Some Health_Healthy)) = True"
| "condition_met DependencyCondition_CompletedSuccessfully (State_Exited code) = (code = 0)"
| "condition_met _ _ = False"

definition dependency_ready :: "runtimes \<Rightarrow> dependency_spec \<Rightarrow> bool" where
  "dependency_ready rts dep =
     (case im_get rts (dep_service dep) of
        None \<Rightarrow> False
      | Some r \<Rightarrow>
          \<not> (sr_desired r = DesiredState_Disabled \<or> sr_start_requested r) \<and>
          condition_met (dep_condition dep) (sr_state r))"

definition blocking_dependencies :: "runtimes \<Rightarrow> service \<Rightarrow> blocked_dependency list" where
  "blocking_dependencies rts s =
     map (\<lambda>dep. \<lparr> bd_service = dep_service dep, bd_condition = dep_condition dep \<rparr>)
       (filter (\<lambda>dep. \<not> dependency_ready rts dep) (ss_depends_on (svc_spec s)))"

section \<open>Start candidates\<close>

datatype start_check = StartCheck_Skip | StartCheck_Consider "i32 option"

definition should_consider_start ::
  "instant \<Rightarrow> runtimes \<Rightarrow> service_id \<Rightarrow> service \<Rightarrow> start_check"
where
  "should_consider_start now rts i s =
     (case im_get rts i of
        None \<Rightarrow> StartCheck_Skip
      | Some r \<Rightarrow>
          if sr_desired r = DesiredState_Disabled \<or> sr_running r \<noteq> None then StartCheck_Skip
          else if \<not> sr_start_requested r \<and>
                  (case rt_backoff_until (sr_restart r) of None \<Rightarrow> False | Some t \<Rightarrow> now < t)
            then StartCheck_Skip
          else
            (case sr_state r of
               State_Pending \<Rightarrow> StartCheck_Consider None
             | State_Exited code \<Rightarrow>
                 if sr_start_requested r \<or> will_auto_restart (ss_restart (svc_spec s)) code r
                 then StartCheck_Consider (Some code) else StartCheck_Skip
             | _ \<Rightarrow> StartCheck_Skip))"

definition decrement_failure_budget ::
  "service \<Rightarrow> bool \<Rightarrow> i32 option \<Rightarrow> service_runtime \<Rightarrow> service_runtime"
where
  "decrement_failure_budget s explicit_start exited_code r =
     (if \<not> explicit_start \<and> (case exited_code of None \<Rightarrow> False | Some c \<Rightarrow> c \<noteq> 0) \<and>
         (case ss_restart (svc_spec s) of RestartPolicy_OnFailure _ \<Rightarrow> True | _ \<Rightarrow> False)
      then r\<lparr> sr_restart := decrement_failure_restart (ss_restart (svc_spec s)) (sr_restart r) \<rparr>
      else r)"

section \<open>Recording blocks\<close>

definition record_dependency_block ::
  "pass_env \<Rightarrow> service_id \<Rightarrow> service \<Rightarrow> blocked_dependency list \<Rightarrow>
   schedule_context \<Rightarrow> schedule_context"
where
  "record_dependency_block env i s blocked ctx =
     (let blocked_on = map bd_service blocked in
      case im_get (cx_runtimes ctx) i of
        None \<Rightarrow> ctx
      | Some r \<Rightarrow>
          if sr_blocked_on r = blocked_on then ctx
          else
            let r = r\<lparr> sr_blocked_on := blocked_on \<rparr>;
                ev = (service_event (pe_unix env) (run_generation r)
                        ServiceEventKind_DependencyBlocked
                        (''waiting for '' @ describe_blockers blocked))
                     \<lparr> se_blocked_on := Some blocked_on \<rparr>
            in ctx_event env i ev (ctx_sync env s r (set_runtime i r ctx)))"

definition clear_dependency_block ::
  "pass_env \<Rightarrow> service_id \<Rightarrow> service \<Rightarrow> schedule_context \<Rightarrow> schedule_context"
where
  "clear_dependency_block env i s ctx =
     (case im_get (cx_runtimes ctx) i of
        None \<Rightarrow> ctx
      | Some r \<Rightarrow>
          if sr_blocked_on r = [] then ctx
          else let r = r\<lparr> sr_blocked_on := [] \<rparr> in ctx_sync env s r (set_runtime i r ctx))"

section \<open>Starting\<close>

definition spawned_detail :: "u32 option \<Rightarrow> string" where
  "spawned_detail pid =
     (case pid of
        None \<Rightarrow> ''spawned service process''
      | Some p \<Rightarrow> ''spawned service process with pid '' @ decimal (unat p))"

definition backoff_event :: "u64 option \<Rightarrow> u64 \<Rightarrow> duration \<Rightarrow> service_event" where
  "backoff_event unix generation delay =
     (service_event unix generation ServiceEventKind_BackoffScheduled
        (''automatic restart scheduled after '' @ decimal (as_millis delay) @ '' ms''))
     \<lparr> se_delay_ms := u64_try_from (as_millis delay) \<rparr>"

definition finish_service_start ::
  "pass_env \<Rightarrow> service_id \<Rightarrow> service \<Rightarrow> run_id \<Rightarrow> string + started_pty \<Rightarrow>
   schedule_context \<Rightarrow> bool \<times> schedule_context"
where
  "finish_service_start env i s rid result ctx =
     (case im_get (cx_runtimes ctx) i of
        None \<Rightarrow> (False, ctx)
      | Some r \<Rightarrow>
          (case result of
             Inr started \<Rightarrow>
               let r = mark_started (pe_now env) (pe_unix env)
                         \<lparr> rs_run_id = rid, rs_pid = sp_pid started, rs_terminate = False,
                           rs_log_reader = Some (sp_log_reader started),
                           rs_pty = sp_handles started, rs_since = pe_now env \<rparr> r;
                   ev = (service_event (pe_unix env) rid ServiceEventKind_Spawned
                           (spawned_detail (sp_pid started)))\<lparr> se_pid := sp_pid started \<rparr>
               in (True, ctx_event env i ev (ctx_sync env s r (set_runtime i r ctx)))
           | Inl err \<Rightarrow>
               let r = finish_failed_start (pe_now env) (ss_restart (svc_spec s)) rid (- 1) r;
                   ctx = ctx_sync env s r (set_runtime i r ctx);
                   ctx = ctx_event env i
                           (service_event (pe_unix env) rid ServiceEventKind_SpawnFailed
                              (''failed to spawn service: '' @ err)) ctx;
                   ctx = ctx_event env i
                           ((service_event (pe_unix env) rid ServiceEventKind_Exited
                               ''service spawn failed'')\<lparr> se_exit_code := Some (- 1) \<rparr>) ctx
               in (False,
                   case rt_backoff_delay (sr_restart r) of
                     None \<Rightarrow> ctx
                   | Some delay \<Rightarrow> ctx_event env i (backoff_event (pe_unix env) rid delay) ctx)))"

text \<open>The runtime of a service at the moment its process is spawned.\<close>

definition prepare_start ::
  "service \<Rightarrow> i32 option \<Rightarrow> service_runtime \<Rightarrow> service_runtime"
where
  "prepare_start s exited_code r =
     (let r = decrement_failure_budget s (sr_start_requested r) exited_code r
      in (mark_starting
            (r\<lparr> sr_start_requested := False, sr_clear_logs_on_start := False,
                sr_draining_log_readers :=
                  map drain_request_cancel (sr_draining_log_readers r) \<rparr>))
         \<lparr> sr_run_config := Some (run_config_from s) \<rparr>)"

definition start_service_if_ready ::
  "pass_env \<Rightarrow> service_id \<Rightarrow> service \<Rightarrow> i32 option \<Rightarrow> schedule_context \<Rightarrow>
   bool \<times> schedule_context"
where
  "start_service_if_ready env i s exited_code ctx =
     (if blocking_dependencies (cx_runtimes ctx) s \<noteq> [] then (False, ctx)
      else
        case im_get (cx_runtimes ctx) i of
          None \<Rightarrow> (False, ctx)
        | Some r \<Rightarrow>
            let (r, ctx) =
                  (if sr_blocked_on r \<noteq> []
                   then (r\<lparr> sr_blocked_on := [] \<rparr>,
                         ctx_event env i
                           (service_event (pe_unix env) (run_generation r)
                              ServiceEventKind_DependencyReady ''dependencies are ready'') ctx)
                   else (r, ctx));
                clear = sr_clear_logs_on_start r;
                r = prepare_start s exited_code r;
                ctx = ctx_sync env s r ctx;
                (rid, r) = allocate_run_id r;
                ctx = set_runtime i r ctx;
                ctx = ctx\<lparr> cx_model := begin_run (pe_enc env) i rid (cx_model ctx) \<rparr>;
                ctx = (if clear then ctx\<lparr> cx_model := clear_logs (pe_enc env) i (cx_model ctx) \<rparr>
                       else ctx)
            in finish_service_start env i s rid (pe_spawn env s rid (cx_pty_size ctx)) ctx)"

section \<open>The pass\<close>

definition record_stable_block ::
  "pass_env \<Rightarrow> service_id \<times> service \<Rightarrow> schedule_context \<Rightarrow> schedule_context"
where
  "record_stable_block env = (\<lambda>(i, s) ctx.
     (case should_consider_start (pe_now env) (cx_runtimes ctx) i s of
        StartCheck_Skip \<Rightarrow> ctx
      | StartCheck_Consider _ \<Rightarrow>
          (let blocked = blocking_dependencies (cx_runtimes ctx) s in
           if blocked \<noteq> [] then record_dependency_block env i s blocked ctx else ctx)))"

definition record_stable_dependency_blocks :: "pass_env \<Rightarrow> schedule_context \<Rightarrow> schedule_context" where
  "record_stable_dependency_blocks env ctx = fold (record_stable_block env) (cx_services ctx) ctx"

definition schedule_service ::
  "pass_env \<Rightarrow> service_id \<times> service \<Rightarrow> bool \<times> schedule_context \<Rightarrow> bool \<times> schedule_context"
where
  "schedule_service env = (\<lambda>(i, s) (started, ctx).
     (case should_consider_start (pe_now env) (cx_runtimes ctx) i s of
        StartCheck_Skip \<Rightarrow> (started, clear_dependency_block env i s ctx)
      | StartCheck_Consider exited_code \<Rightarrow>
          (let (ok, ctx) = start_service_if_ready env i s exited_code ctx
           in (started \<or> ok, ctx))))"

definition schedule_round :: "pass_env \<Rightarrow> schedule_context \<Rightarrow> bool \<times> schedule_context" where
  "schedule_round env ctx = fold (schedule_service env) (cx_services ctx) (False, ctx)"

section \<open>The effect on runtimes alone\<close>

text \<open>
  A pass changes the model only by publishing; its effect on the runtimes is the following
  function of the runtimes.
\<close>

definition started_runtime ::
  "pass_env \<Rightarrow> pty_size \<Rightarrow> service \<Rightarrow> i32 option \<Rightarrow> service_runtime \<Rightarrow> bool \<times> service_runtime"
where
  "started_runtime env sz s exited_code r =
     (let (rid, r) = allocate_run_id (prepare_start s exited_code (r\<lparr> sr_blocked_on := [] \<rparr>)) in
      case pe_spawn env s rid sz of
        Inr started \<Rightarrow>
          (True, mark_started (pe_now env) (pe_unix env)
             \<lparr> rs_run_id = rid, rs_pid = sp_pid started, rs_terminate = False,
               rs_log_reader = Some (sp_log_reader started), rs_pty = sp_handles started,
               rs_since = pe_now env \<rparr> r)
      | Inl err \<Rightarrow>
          (False, finish_failed_start (pe_now env) (ss_restart (svc_spec s)) rid (- 1) r))"

definition schedule_runtime ::
  "pass_env \<Rightarrow> pty_size \<Rightarrow> service_id \<times> service \<Rightarrow> bool \<times> runtimes \<Rightarrow> bool \<times> runtimes"
where
  "schedule_runtime env sz = (\<lambda>(i, s) (started, rts).
     (case (should_consider_start (pe_now env) rts i s, im_get rts i) of
        (_, None) \<Rightarrow> (started, rts)
      | (StartCheck_Skip, Some r) \<Rightarrow>
          (started, if sr_blocked_on r = [] then rts
                    else im_insert i (r\<lparr> sr_blocked_on := [] \<rparr>) rts)
      | (StartCheck_Consider code, Some r) \<Rightarrow>
          if blocking_dependencies rts s \<noteq> [] then (started, rts)
          else let (ok, r') = started_runtime env sz s code r
               in (started \<or> ok, im_insert i r' rts)))"

lemma im_insert_twice: "im_insert k v (im_insert k v' m) = im_insert k v m"
  by (induction m) auto

lemma ctx_simps [simp]:
  "cx_runtimes (set_runtime i r ctx) = im_insert i r (cx_runtimes ctx)"
  "cx_services (set_runtime i r ctx) = cx_services ctx"
  "cx_pty_size (set_runtime i r ctx) = cx_pty_size ctx"
  "cx_model (set_runtime i r ctx) = cx_model ctx"
  "cx_runtimes (ctx_sync env s r ctx) = cx_runtimes ctx"
  "cx_services (ctx_sync env s r ctx) = cx_services ctx"
  "cx_pty_size (ctx_sync env s r ctx) = cx_pty_size ctx"
  "cx_runtimes (ctx_event env i ev ctx) = cx_runtimes ctx"
  "cx_services (ctx_event env i ev ctx) = cx_services ctx"
  "cx_pty_size (ctx_event env i ev ctx) = cx_pty_size ctx"
  by (simp_all add: set_runtime_def ctx_sync_def ctx_event_def)

lemma finish_service_start_effect:
  assumes "im_get (cx_runtimes ctx) i = Some r"
  shows "cx_services (snd (finish_service_start env i s rid result ctx)) = cx_services ctx"
    and "cx_pty_size (snd (finish_service_start env i s rid result ctx)) = cx_pty_size ctx"
    and "fst (finish_service_start env i s rid result ctx) = (case result of Inr _ \<Rightarrow> True | Inl _ \<Rightarrow> False)"
    and "cx_runtimes (snd (finish_service_start env i s rid result ctx)) =
      im_insert i
        (case result of
           Inr started \<Rightarrow> mark_started (pe_now env) (pe_unix env)
             \<lparr> rs_run_id = rid, rs_pid = sp_pid started, rs_terminate = False,
               rs_log_reader = Some (sp_log_reader started), rs_pty = sp_handles started,
               rs_since = pe_now env \<rparr> r
         | Inl err \<Rightarrow> finish_failed_start (pe_now env) (ss_restart (svc_spec s)) rid (- 1) r)
        (cx_runtimes ctx)"
  using assms
  by (simp_all add: finish_service_start_def Let_def split: sum.split option.split)

lemma start_service_effect:
  "cx_services (snd (start_service_if_ready env i s code ctx)) = cx_services ctx \<and>
   cx_pty_size (snd (start_service_if_ready env i s code ctx)) = cx_pty_size ctx \<and>
   (fst (start_service_if_ready env i s code ctx), cx_runtimes (snd (start_service_if_ready env i s code ctx))) =
     (case im_get (cx_runtimes ctx) i of
        None \<Rightarrow> (False, cx_runtimes ctx)
      | Some r \<Rightarrow>
          if blocking_dependencies (cx_runtimes ctx) s \<noteq> [] then (False, cx_runtimes ctx)
          else let (ok, r') = started_runtime env (cx_pty_size ctx) s code r
               in (ok, im_insert i r' (cx_runtimes ctx)))"
proof (cases "im_get (cx_runtimes ctx) i")
  case None
  then show ?thesis by (simp add: start_service_if_ready_def)
next
  case (Some r)
  let ?r = "r\<lparr> sr_blocked_on := [] \<rparr>"
  obtain rid r1 where alloc: "allocate_run_id (prepare_start s code ?r) = (rid, r1)"
    by fastforce
  have same: "r\<lparr> sr_blocked_on := [] \<rparr> = r" if "sr_blocked_on r = []"
    using that by simp
  show ?thesis
  proof (cases "blocking_dependencies (cx_runtimes ctx) s = []")
    case False
    then show ?thesis using Some by (simp add: start_service_if_ready_def)
  next
    case True
    show ?thesis
    proof (cases "sr_blocked_on r = []")
      case t: True
      have "allocate_run_id (prepare_start s code r) = (rid, r1)"
        using alloc by (simp only: same [OF t])
      then show ?thesis
        using True Some alloc t
        by (simp add: start_service_if_ready_def finish_service_start_effect [of _ _ r1]
            im_get_insert im_insert_twice started_runtime_def Let_def split: sum.split)
    next
      case False
      show ?thesis
        using True Some alloc False
        by (simp add: start_service_if_ready_def finish_service_start_effect [of _ _ r1]
            im_get_insert im_insert_twice started_runtime_def Let_def split: sum.split)
    qed
  qed
qed


lemma clear_block_effect:
  "cx_services (clear_dependency_block env i s ctx) = cx_services ctx \<and>
   cx_pty_size (clear_dependency_block env i s ctx) = cx_pty_size ctx \<and>
   cx_runtimes (clear_dependency_block env i s ctx) =
     (case im_get (cx_runtimes ctx) i of
        None \<Rightarrow> cx_runtimes ctx
      | Some r \<Rightarrow> if sr_blocked_on r = [] then cx_runtimes ctx
                  else im_insert i (r\<lparr> sr_blocked_on := [] \<rparr>) (cx_runtimes ctx))"
  by (simp add: clear_dependency_block_def Let_def split: option.split)

lemma schedule_service_effect:
  assumes "schedule_service env p (b, ctx) = (b', ctx')"
  shows "cx_services ctx' = cx_services ctx \<and> cx_pty_size ctx' = cx_pty_size ctx \<and>
         (b', cx_runtimes ctx') = schedule_runtime env (cx_pty_size ctx) p (b, cx_runtimes ctx)"
proof -
  obtain i s where p: "p = (i, s)" by fastforce
  show ?thesis
  proof (cases "should_consider_start (pe_now env) (cx_runtimes ctx) i s")
    case StartCheck_Skip
    then show ?thesis
      using assms clear_block_effect [of env i s ctx]
      by (auto simp: schedule_service_def schedule_runtime_def p split: option.split)
  next
    case (StartCheck_Consider code)
    obtain ok c where st: "start_service_if_ready env i s code ctx = (ok, c)" by fastforce
    show ?thesis
      using assms StartCheck_Consider start_service_effect [of env i s code ctx]
      by (auto simp: schedule_service_def schedule_runtime_def p st split: option.splits prod.splits if_splits)
  qed
qed

lemma schedule_round_effect:
  assumes "schedule_round env ctx = (b, ctx')"
  shows "cx_services ctx' = cx_services ctx \<and> cx_pty_size ctx' = cx_pty_size ctx \<and>
         (b, cx_runtimes ctx') =
           fold (schedule_runtime env (cx_pty_size ctx)) (cx_services ctx) (False, cx_runtimes ctx)"
proof -
  have "fold (schedule_service env) ps (b0, ctx0) = (b, ctx') \<Longrightarrow>
      cx_services ctx' = cx_services ctx0 \<and> cx_pty_size ctx' = cx_pty_size ctx0 \<and>
      (b, cx_runtimes ctx') = fold (schedule_runtime env (cx_pty_size ctx0)) ps (b0, cx_runtimes ctx0)"
    for ps b0 ctx0
  proof (induction ps arbitrary: b0 ctx0)
    case (Cons p ps)
    obtain b1 ctx1 where step: "schedule_service env p (b0, ctx0) = (b1, ctx1)" by fastforce
    note eff = schedule_service_effect [OF step]
    have "fold (schedule_service env) ps (b1, ctx1) = (b, ctx')"
      using Cons.prems step by simp
    from Cons.IH [OF this] eff show ?case
      by (metis (no_types, lifting) comp_apply fold_simps(2))
  qed simp
  then show ?thesis
    using assms by (simp add: schedule_round_def)
qed

section \<open>What one service's turn does\<close>

definition idle :: "runtimes \<Rightarrow> service_id set" where
  "idle rts = {i. \<exists>r. im_get rts i = Some r \<and> sr_running r = None}"

lemma consider_startD:
  "should_consider_start now rts i s = StartCheck_Consider code \<Longrightarrow>
     \<exists>r. im_get rts i = Some r \<and> sr_desired r = DesiredState_Enabled \<and> sr_running r = None \<and>
       (sr_start_requested r \<or>
        (\<forall>t. rt_backoff_until (sr_restart r) = Some t \<longrightarrow> t \<le> now)) \<and>
       (sr_state r = State_Pending \<and> code = None \<or>
        (\<exists>c. sr_state r = State_Exited c \<and> code = Some c \<and>
           (sr_start_requested r \<or> will_auto_restart (ss_restart (svc_spec s)) c r)))"
  by (cases "im_get rts i")
     (auto simp: should_consider_start_def not_less split: if_splits option.splits state.splits
       intro: desired_state.exhaust)

lemma started_runtime_running:
  "started_runtime env sz s code r = (ok, r') \<Longrightarrow> sr_running r = None \<Longrightarrow>
     (ok \<longleftrightarrow> sr_running r' \<noteq> None)"
  by (auto simp: started_runtime_def allocate_run_id_def prepare_start_def mark_starting_def
      decrement_failure_budget_def mark_started_def finish_failed_start_def finish_run_state_def
      Let_def split: sum.splits if_splits)


lemma schedule_runtime_cases:
  assumes "schedule_runtime env sz (i, s) (b, rts) = (b', rts')"
  obtains (unknown) "im_get rts i = None" "b' = b" "rts' = rts"
    | (skip) r where "im_get rts i = Some r"
        "should_consider_start (pe_now env) rts i s = StartCheck_Skip" "b' = b"
        "rts' = (if sr_blocked_on r = [] then rts else im_insert i (r\<lparr> sr_blocked_on := [] \<rparr>) rts)"
    | (blocked) r code where "im_get rts i = Some r"
        "should_consider_start (pe_now env) rts i s = StartCheck_Consider code"
        "blocking_dependencies rts s \<noteq> []" "b' = b" "rts' = rts"
    | (start) r code ok r' where "im_get rts i = Some r"
        "should_consider_start (pe_now env) rts i s = StartCheck_Consider code"
        "blocking_dependencies rts s = []" "started_runtime env sz s code r = (ok, r')"
        "b' = (b \<or> ok)" "rts' = im_insert i r' rts"
  using assms
  by (cases "im_get rts i"; cases "should_consider_start (pe_now env) rts i s")
     (auto simp: schedule_runtime_def split: prod.splits if_splits)

text \<open>A turn never stops a process, and reports a start only if the service was idle and now runs.\<close>

lemma schedule_runtime_idle:
  assumes "schedule_runtime env sz (i, s) (b, rts) = (b', rts')"
  shows "idle rts' \<subseteq> idle rts" and "im_keys rts' = im_keys rts"
    and "b' \<longleftrightarrow> b \<or> (i \<in> idle rts \<and> i \<notin> idle rts')"
proof -
  have "idle rts' \<subseteq> idle rts \<and> im_keys rts' = im_keys rts \<and>
      (b' \<longleftrightarrow> b \<or> (i \<in> idle rts \<and> i \<notin> idle rts'))"
    using assms
  proof (cases rule: schedule_runtime_cases)
    case (skip r)
    then show ?thesis
      using im_get_keys [of rts i r] by (auto simp: idle_def im_get_insert im_keys_insert)
  next
    case (start r code ok r')
    have "sr_running r = None"
      using consider_startD [OF start(2)] start(1) by auto
    then have "ok \<longleftrightarrow> sr_running r' \<noteq> None"
      using started_runtime_running [OF start(4)] by blast
    then show ?thesis
      using start \<open>sr_running r = None\<close> im_get_keys [of rts i r]
      by (auto simp: idle_def im_get_insert im_keys_insert)
  qed auto
  then show "idle rts' \<subseteq> idle rts" and "im_keys rts' = im_keys rts"
    and "b' \<longleftrightarrow> b \<or> (i \<in> idle rts \<and> i \<notin> idle rts')"
    by blast+
qed

lemma schedule_fold_idle:
  assumes "fold (schedule_runtime env sz) ps (b, rts) = (b', rts')"
  shows "idle rts' \<subseteq> idle rts" and "im_keys rts' = im_keys rts"
    and "b' \<longleftrightarrow> b \<or> idle rts' \<noteq> idle rts"
proof -
  have "idle rts' \<subseteq> idle rts \<and> im_keys rts' = im_keys rts \<and> (b' \<longleftrightarrow> b \<or> idle rts' \<noteq> idle rts)"
    using assms
  proof (induction ps arbitrary: b rts)
    case (Cons p ps)
    obtain i s where p: "p = (i, s)" by fastforce
    obtain b1 rts1 where step: "schedule_runtime env sz (i, s) (b, rts) = (b1, rts1)" by fastforce
    have "fold (schedule_runtime env sz) ps (b1, rts1) = (b', rts')"
      using Cons.prems step p by simp
    from Cons.IH [OF this] schedule_runtime_idle [OF step] show ?case
    proof (cases "i \<in> idle rts \<and> i \<notin> idle rts1")
      case False
      have "idle rts1 = idle rts"
        using step
      proof (cases rule: schedule_runtime_cases)
        case (start r code ok r')
        then show ?thesis
          using False schedule_runtime_idle(1) [OF step]
          by (auto simp: idle_def im_get_insert split: if_splits)
      qed (auto simp: idle_def im_get_insert)
      then show ?thesis
        using Cons.IH [OF \<open>fold (schedule_runtime env sz) ps (b1, rts1) = (b', rts')\<close>]
          schedule_runtime_idle [OF step] False by simp
    qed auto
  qed auto
  then show "idle rts' \<subseteq> idle rts" and "im_keys rts' = im_keys rts"
    and "b' \<longleftrightarrow> b \<or> idle rts' \<noteq> idle rts"
    by blast+
qed

lemma finite_idle [simp]: "finite (idle rts)"
  by (rule finite_subset [of _ "set (im_keys rts)"]) (auto simp: idle_def dest: im_get_keys)

text \<open>
  The loop of \<^verbatim>\<open>schedule_ready\<close>. It ends because a round that started something leaves fewer idle
  services than it found.
\<close>

function schedule_ready :: "pass_env \<Rightarrow> schedule_context \<Rightarrow> schedule_context" where
  "schedule_ready env ctx =
     (let (started, ctx') = schedule_round env ctx
      in if started then schedule_ready env ctx' else record_stable_dependency_blocks env ctx')"
  by pat_completeness auto

termination schedule_ready
proof (relation "measure (\<lambda>(env, ctx). card (idle (cx_runtimes ctx)))")
  fix env ctx x started ctx'
  assume "x = schedule_round env ctx" and "(started, ctx') = x" and "started"
  then have round: "schedule_round env ctx = (True, ctx')" by simp
  then have "(True, cx_runtimes ctx') =
      fold (schedule_runtime env (cx_pty_size ctx)) (cx_services ctx) (False, cx_runtimes ctx)"
    using schedule_round_effect by blast
  from schedule_fold_idle [OF this [symmetric]]
  have "idle (cx_runtimes ctx') \<subset> idle (cx_runtimes ctx)" by auto
  then show "((env, ctx'), env, ctx) \<in> measure (\<lambda>(env, ctx). card (idle (cx_runtimes ctx)))"
    by (simp add: psubset_card_mono)
qed simp

declare schedule_ready.simps [simp del]

end
