(* ===== verification/Graph.thy ===== *)
theory Graph
  imports Spec
begin

text \<open>
  Validation of the dependency graph, \<^verbatim>\<open>ServiceGraph::new\<close> of \<^verbatim>\<open>src/crates/micromux/src/graph.rs\<close>.
  The topological sort of the \<^verbatim>\<open>petgraph\<close> crate is a parameter; what the code relies on is the
  contract stated by the locale \<open>toposort_contract\<close>.
\<close>

section \<open>The check\<close>

datatype graph_error =
    GraphError_UnknownDependency service_id service_id
  | GraphError_Cycle service_id

fun graph_error_message :: "graph_error \<Rightarrow> string" where
  "graph_error_message (GraphError_UnknownDependency s d) =
     ''service '' @ quoted s @ '' depends on unknown '' @ quoted d"
| "graph_error_message (GraphError_Cycle s) = ''cycle detected at service: '' @ quoted s"

text \<open>
  \<^verbatim>\<open>petgraph::algo::toposort\<close> on the graph with these nodes and edges: \<open>None\<close> when it found an
  order, otherwise the node it reports the cycle at.
\<close>

type_synonym toposort = "service_id list \<Rightarrow> (service_id \<times> service_id) list \<Rightarrow> service_id option"

text \<open>The edges of one service, up to its first dependency that is not a node.\<close>

fun add_edges ::
  "service_id list \<Rightarrow> service_id \<Rightarrow> service_id list \<Rightarrow> graph_error + (service_id \<times> service_id) list"
where
  "add_edges nodes name [] = Inr []"
| "add_edges nodes name (d # ds) =
     (if d \<in> set nodes then map_sum id ((#) (d, name)) (add_edges nodes name ds)
      else Inl (GraphError_UnknownDependency name d))"

fun collect_edges ::
  "service_id list \<Rightarrow> service_map \<Rightarrow> graph_error + (service_id \<times> service_id) list"
where
  "collect_edges nodes [] = Inr []"
| "collect_edges nodes ((name, s) # rest) =
     (case add_edges nodes name (depends_on_ids s) of
        Inl e \<Rightarrow> Inl e
      | Inr es \<Rightarrow> map_sum id ((@) es) (collect_edges nodes rest))"

definition service_graph_new :: "toposort \<Rightarrow> service_map \<Rightarrow> graph_error + unit" where
  "service_graph_new toposort services =
     (let nodes = im_keys services in
      case collect_edges nodes services of
        Inl e \<Rightarrow> Inl e
      | Inr es \<Rightarrow>
          (case toposort nodes es of
             None \<Rightarrow> Inr ()
           | Some v \<Rightarrow> Inl (GraphError_Cycle (if v \<in> set nodes then v else ''<unknown>''))))"

section \<open>What the check establishes\<close>

definition dependency_edges :: "service_map \<Rightarrow> (service_id \<times> service_id) set" where
  "dependency_edges services = {(d, n). \<exists>s. (n, s) \<in> set services \<and> d \<in> set (depends_on_ids s)}"

definition deps_known :: "service_map \<Rightarrow> bool" where
  "deps_known services \<longleftrightarrow>
     (\<forall>(n, s) \<in> set services. set (depends_on_ids s) \<subseteq> set (im_keys services))"

definition graph_ok :: "service_map \<Rightarrow> bool" where
  "graph_ok services \<longleftrightarrow> deps_known services \<and> acyclic (dependency_edges services)"

lemma map_sum_id_eq [simp]:
  "map_sum id f x = Inl e \<longleftrightarrow> x = Inl e"
  "map_sum id f x = Inr y \<longleftrightarrow> (\<exists>z. x = Inr z \<and> y = f z)"
  by (cases x; auto)+

lemma add_edges_known: "set ds \<subseteq> set nodes \<Longrightarrow> add_edges nodes name ds = Inr (map (\<lambda>d. (d, name)) ds)"
  by (induction ds) auto

lemma add_edges_Inl:
  "add_edges nodes name ds = Inl e \<Longrightarrow>
     \<exists>d. e = GraphError_UnknownDependency name d \<and> d \<in> set ds \<and> d \<notin> set nodes"
  by (induction ds) (auto split: if_splits)

lemma add_edges_Inr:
  "add_edges nodes name ds = Inr es \<longleftrightarrow>
     set ds \<subseteq> set nodes \<and> es = map (\<lambda>d. (d, name)) ds"
  by (induction ds arbitrary: es) auto

lemma collect_edges_known:
  "\<forall>(n, s) \<in> set services. set (depends_on_ids s) \<subseteq> set nodes \<Longrightarrow>
   collect_edges nodes services =
     Inr (concat (map (\<lambda>(n, s). map (\<lambda>d. (d, n)) (depends_on_ids s)) services))"
  by (induction services) (auto simp: add_edges_known)

lemma collect_edges_Inl:
  "collect_edges nodes services = Inl e \<Longrightarrow>
     \<exists>n s d. e = GraphError_UnknownDependency n d \<and> (n, s) \<in> set services \<and>
       d \<in> set (depends_on_ids s) \<and> d \<notin> set nodes"
proof (induction services)
  case (Cons a rest)
  then show ?case
    by (cases a) (auto split: sum.splits dest!: add_edges_Inl; blast)
qed simp

lemma collect_edges_Inr:
  "collect_edges nodes services = Inr es \<longleftrightarrow>
     (\<forall>(n, s) \<in> set services. set (depends_on_ids s) \<subseteq> set nodes) \<and>
     es = concat (map (\<lambda>(n, s). map (\<lambda>d. (d, n)) (depends_on_ids s)) services)"
proof (cases "\<forall>(n, s) \<in> set services. set (depends_on_ids s) \<subseteq> set nodes")
  case True
  then show ?thesis using collect_edges_known [OF True] by auto
next
  case False
  have "\<exists>n s. (n, s) \<in> set services \<and> \<not> set (depends_on_ids s) \<subseteq> set nodes"
    using False by blast
  then have "\<exists>e. collect_edges nodes services = Inl e"
  proof (induction services)
    case (Cons a rest)
    then show ?case
      by (cases a) (auto split: sum.splits simp: add_edges_Inr)
  qed simp
  then show ?thesis using False by auto
qed

lemma set_collected_edges:
  "set (concat (map (\<lambda>(n, s). map (\<lambda>d. (d, n)) (depends_on_ids s)) services)) =
     dependency_edges services"
  by (force simp: dependency_edges_def)

lemma edges_in_keys:
  "deps_known services \<Longrightarrow>
     dependency_edges services \<subseteq> set (im_keys services) \<times> set (im_keys services)"
  by (force simp: deps_known_def dependency_edges_def im_keys_def)

lemma finite_dependency_edges [simp]: "finite (dependency_edges services)"
  unfolding set_collected_edges [symmetric] by (rule finite_set)

section \<open>The contract of the topological sort\<close>

locale toposort_contract =
  fixes toposort :: toposort
  assumes cycle_found: "toposort nodes es = Some v \<Longrightarrow> (v, v) \<in> (set es)\<^sup>+"
    and order_found:
      "toposort nodes es = None \<Longrightarrow> set es \<subseteq> set nodes \<times> set nodes \<Longrightarrow> acyclic (set es)"
begin

lemma accepts_iff: "service_graph_new toposort services = Inr () \<longleftrightarrow> graph_ok services"
proof (cases "collect_edges (im_keys services) services")
  case (Inl e)
  then have "\<not> deps_known services"
    by (auto simp: deps_known_def dest!: collect_edges_Inl)
  with Inl show ?thesis
    by (simp add: service_graph_new_def graph_ok_def)
next
  case (Inr es)
  then have known: "deps_known services" and es: "set es = dependency_edges services"
    using set_collected_edges by (auto simp: deps_known_def collect_edges_Inr)
  then have sub: "set es \<subseteq> set (im_keys services) \<times> set (im_keys services)"
    using edges_in_keys by simp
  have "toposort (im_keys services) es = None \<longleftrightarrow> acyclic (set es)"
    using order_found [OF _ sub] cycle_found by (cases "toposort (im_keys services) es")
      (auto simp: acyclic_def)
  then show ?thesis
    using known Inr es
    by (cases "toposort (im_keys services) es")
       (simp_all add: service_graph_new_def graph_ok_def Let_def)
qed

lemma rejects_why:
  assumes "service_graph_new toposort services = Inl e"
  shows "(\<exists>n d. e = GraphError_UnknownDependency n d \<and> (d, n) \<in> dependency_edges services \<and>
            d \<notin> set (im_keys services)) \<or>
         (\<exists>n. e = GraphError_Cycle n \<and> n \<in> set (im_keys services) \<and>
            (n, n) \<in> (dependency_edges services)\<^sup>+)"
proof (cases "collect_edges (im_keys services) services")
  case (Inl e')
  then show ?thesis
    using assms by (auto simp: service_graph_new_def dependency_edges_def dest!: collect_edges_Inl)
next
  case (Inr es)
  then have known: "deps_known services" and es: "set es = dependency_edges services"
    using set_collected_edges by (auto simp: deps_known_def collect_edges_Inr)
  obtain v where v: "toposort (im_keys services) es = Some v"
    using assms Inr by (cases "toposort (im_keys services) es") (auto simp: service_graph_new_def)
  have cyc: "(v, v) \<in> (dependency_edges services)\<^sup>+"
    using cycle_found [OF v] es by simp
  then have "v \<in> set (im_keys services)"
    using subsetD [OF trancl_subset_Sigma [OF edges_in_keys [OF known]] cyc] by simp
  then show ?thesis
    using assms Inr v cyc by (auto simp: service_graph_new_def Let_def)
qed

end

text \<open>A topological sort by transitive closure, which shows that the contract can be met.\<close>

definition closure_toposort :: toposort where
  "closure_toposort nodes es = List.find (\<lambda>v. (v, v) \<in> (set es)\<^sup>+) nodes"

lemma closure_toposort_order:
  assumes "closure_toposort nodes es = None" and "set es \<subseteq> set nodes \<times> set nodes"
  shows "acyclic (set es)"
proof -
  have "(v, v) \<notin> (set es)\<^sup>+" for v
    using assms trancl_subset_Sigma [OF assms(2)]
    by (auto simp: closure_toposort_def find_None_iff)
  then show ?thesis
    by (simp add: acyclic_def)
qed

interpretation closure: toposort_contract closure_toposort
  by unfold_locales
     (auto simp: closure_toposort_def find_Some_iff closure_toposort_order)

section \<open>Start orders\<close>

text \<open>A valid roster has an order in which every service comes after all its dependencies.\<close>

definition start_order :: "service_map \<Rightarrow> service_id list \<Rightarrow> bool" where
  "start_order services ord \<longleftrightarrow>
     distinct ord \<and> set ord = set (im_keys services) \<and>
     (\<forall>i < length ord. \<forall>d. (d, ord ! i) \<in> dependency_edges services \<longrightarrow> d \<in> set (take i ord))"

lemma acyclic_linearize:
  assumes "finite A" and "finite r" and "acyclic r" and "\<And>a b. (a, b) \<in> r \<Longrightarrow> b \<in> A \<Longrightarrow> a \<in> A"
  shows "\<exists>ord. distinct ord \<and> set ord = A \<and>
           (\<forall>i < length ord. \<forall>d. (d, ord ! i) \<in> r \<longrightarrow> d \<in> set (take i ord))"
  using assms
proof (induction A rule: finite_psubset_induct)
  case (psubset A)
  show ?case
  proof (cases "A = {}")
    case True
    then show ?thesis by (intro exI [of _ "[]"]) simp
  next
    case False
    then obtain x where x: "x \<in> A"
      by blast
    have wf: "wf (r\<inverse>)"
      using psubset.prems by (simp add: finite_acyclic_wf_converse)
    obtain m where m: "m \<in> A" "\<And>y. (y, m) \<in> r\<inverse> \<Longrightarrow> y \<notin> A"
      by (rule wfE_min [OF wf x]) (rule that)
    have "\<exists>ord. distinct ord \<and> set ord = A - {m} \<and>
        (\<forall>i < length ord. \<forall>d. (d, ord ! i) \<in> r \<longrightarrow> d \<in> set (take i ord))"
    proof (rule psubset.IH)
      show "A - {m} \<subset> A" using m(1) by blast
      show "a \<in> A - {m}" if "(a, b) \<in> r" "b \<in> A - {m}" for a b
        using that psubset.prems(3) [OF that(1)] m(2) [of b] by blast
    qed (fact psubset.prems)+
    then obtain ord where ord: "distinct ord \<and> set ord = A - {m} \<and>
        (\<forall>i < length ord. \<forall>d. (d, ord ! i) \<in> r \<longrightarrow> d \<in> set (take i ord))" ..
    have "d \<in> set (take i (ord @ [m]))"
      if i: "i < length (ord @ [m])" and d: "(d, (ord @ [m]) ! i) \<in> r" for i d
    proof (cases "i < length ord")
      case True
      then show ?thesis using ord d by (simp add: nth_append)
    next
      case False
      then have "(d, m) \<in> r" and il: "i = length ord" using i d by (simp_all add: nth_append)
      then have "d \<in> A"
        using psubset.prems(3) m(1) by blast
      moreover have "d \<noteq> m"
        using \<open>(d, m) \<in> r\<close> psubset.prems(2) by (auto simp: acyclic_def)
      ultimately have "d \<in> A - {m}" by simp
      then show ?thesis using ord il by simp
    qed
    moreover have "distinct (ord @ [m])" "set (ord @ [m]) = A"
      using ord m(1) by auto
    ultimately show ?thesis
      by blast
  qed
qed

lemma graph_ok_start_order: "graph_ok services \<Longrightarrow> \<exists>ord. start_order services ord"
  unfolding start_order_def
  by (rule acyclic_linearize) (use edges_in_keys in \<open>auto simp: graph_ok_def\<close>)

lemma start_order_graph_ok:
  assumes "start_order services ord"
  shows "graph_ok services"
proof -
  have before: "\<exists>j < i. ord ! j = d"
    if "i < length ord" "(d, ord ! i) \<in> dependency_edges services" for d i
    using assms that by (fastforce simp: start_order_def in_set_conv_nth)
  have ord: "set ord = set (im_keys services)"
    using assms by (simp add: start_order_def)
  have target: "n \<in> set ord" if "(d, n) \<in> dependency_edges services" for d n
    using that unfolding ord by (force simp: dependency_edges_def im_keys_def)
  have key: "\<exists>i < length ord. ord ! i = n" if "(d, n) \<in> dependency_edges services" for d n
    using target [OF that] by (simp add: in_set_conv_nth)
  have "d \<in> set (im_keys services)" if e: "(d, n) \<in> dependency_edges services" for d n
  proof -
    obtain i where i: "i < length ord" "ord ! i = n"
      using key [OF e] by blast
    then obtain j where "j < i" "ord ! j = d"
      using before [of i d] e by blast
    then have "d \<in> set ord"
      using i by auto
    then show ?thesis by (simp add: ord)
  qed
  then have "deps_known services"
    by (fastforce simp: deps_known_def dependency_edges_def)
  moreover have "acyclic (dependency_edges services)"
  proof -
    have up: "\<exists>j < i. ord ! j = d"
      if "(d, n) \<in> (dependency_edges services)\<^sup>+" "i < length ord" "ord ! i = n" for d n i
      using that
    proof (induction arbitrary: i rule: trancl_induct)
      case (base y)
      then show ?case using before by blast
    next
      case (step y z)
      then obtain j where "j < i" "ord ! j = y" using before by blast
      then show ?case using step.IH [of j] step.prems by (meson less_trans)
    qed
    have "(d, d) \<notin> (dependency_edges services)\<^sup>+" for d
    proof
      assume loop: "(d, d) \<in> (dependency_edges services)\<^sup>+"
      then obtain e where "(e, d) \<in> dependency_edges services" by (meson tranclD2)
      then obtain i where i: "i < length ord" "ord ! i = d" using key by blast
      with up [OF loop] obtain j where "j < i" "ord ! j = d" by blast
      then show False
        using i assms nth_eq_iff_index_eq [of ord i j] by (simp add: start_order_def)
    qed
    then show ?thesis by (simp add: acyclic_def)
  qed
  ultimately show ?thesis by (simp add: graph_ok_def)
qed

text \<open>
  C1. The dependency check. If the topological sort keeps its contract, \<^verbatim>\<open>ServiceGraph::new\<close>
  accepts a roster exactly when its services can be put in an order in which each comes after all
  its dependencies; when it rejects one, the error names a service and an unknown dependency of
  it, or a service that transitively depends on itself.
\<close>

theorem service_graph_new_correct:
  assumes "toposort_contract toposort"
  shows "case service_graph_new toposort services of
      Inr _ \<Rightarrow> \<exists>ord. start_order services ord
    | Inl e \<Rightarrow> (\<nexists>ord. start_order services ord) \<and>
        ((\<exists>n d. e = GraphError_UnknownDependency n d \<and> (d, n) \<in> dependency_edges services \<and>
            d \<notin> set (im_keys services)) \<or>
         (\<exists>n. e = GraphError_Cycle n \<and> n \<in> set (im_keys services) \<and>
            (n, n) \<in> (dependency_edges services)\<^sup>+))"
proof (cases "service_graph_new toposort services")
  case (Inl e)
  have "service_graph_new toposort services \<noteq> Inr ()"
    using Inl by simp
  then have "\<not> graph_ok services"
    using toposort_contract.accepts_iff [OF assms, of services] by blast
  then show ?thesis
    using Inl toposort_contract.rejects_why [OF assms Inl] start_order_graph_ok by auto
next
  case (Inr u)
  then have "graph_ok services"
    using toposort_contract.accepts_iff [OF assms, of services] by simp
  then show ?thesis
    using Inr graph_ok_start_order by simp
qed

theorem service_graph_new_correct_witness:
  "\<exists>ord. start_order
     [(''web'', example_service ''web'' [''db'']), (''db'', example_service ''db'' [])] ord"
proof -
  let ?m = "[(''web'', example_service ''web'' [''db'']), (''db'', example_service ''db'' [])]"
  have edges: "{(''db'', ''web'')}\<^sup>+ = {(''db'', ''web'') :: string \<times> string}"
    by (auto elim: trancl.cases dest: tranclD2)
  have "service_graph_new closure_toposort ?m = Inr ()"
    by (simp add: service_graph_new_def im_keys_def closure_toposort_def edges)
  then show ?thesis
    using service_graph_new_correct [OF closure.toposort_contract_axioms, of ?m] by simp
qed

end
