(* ===== verification/Schedule_Pass.thy ===== *)
theory Schedule_Pass
  imports Schedule Graph
begin

text \<open>
  What a whole pass of \<^verbatim>\<open>schedule_ready\<close> guarantees: at most one spawn per service, dependencies
  respected, every remaining candidate reported as blocked by exactly its unmet dependencies, and
  everything started that can be started.
\<close>

section \<open>One start\<close>

lemma started_success:
  assumes "started_runtime env sz s code r = (True, r')"
  shows "sr_running r' \<noteq> None \<and> sr_state r' = State_Running None \<and> sr_desired r' = sr_desired r \<and>
    \<not> sr_start_requested r' \<and> sr_blocked_on r' = [] \<and> sr_retired r' = sr_retired r \<and>
    sr_run_config r' = Some (run_config_from s)"
  using assms
  by (auto simp: started_runtime_def allocate_run_id_def prepare_start_def mark_starting_def
      decrement_failure_budget_def mark_started_def Let_def split: sum.splits)

lemma prepare_start_fields:
  "sr_running (prepare_start s code r) = sr_running r"
  "sr_desired (prepare_start s code r) = sr_desired r"
  "sr_start_requested (prepare_start s code r) = False"
  "sr_blocked_on (prepare_start s code r) = sr_blocked_on r"
  "sr_retired (prepare_start s code r) = sr_retired r"
  "sr_expires_at (prepare_start s code r) = sr_expires_at r"
  "sr_uptime_started_at (prepare_start s code r) = sr_uptime_started_at r"
  "sr_started_at_unix_ms (prepare_start s code r) = sr_started_at_unix_ms r"
  "sr_state (prepare_start s code r) = State_Starting"
  "sr_run_config (prepare_start s code r) = Some (run_config_from s)"
  by (simp_all add: prepare_start_def decrement_failure_budget_def mark_starting_def Let_def)

lemma prepare_start_tracker:
  "tracker_ok (ss_restart (svc_spec s)) (sr_restart r) \<Longrightarrow>
   tracker_ok (ss_restart (svc_spec s)) (sr_restart (prepare_start s code r))"
  by (auto simp: prepare_start_def decrement_failure_budget_def mark_starting_def Let_def
      intro: tracker_ok_decrement)

lemma remaining_clear [simp]:
  "remaining_failure_restarts policy (clear_backoff t) = remaining_failure_restarts policy t"
  by (cases "(policy, t)" rule: remaining_failure_restarts.cases) (simp_all add: clear_backoff_def)

lemma will_auto_restart_cong:
  "remaining_failure_restarts policy (sr_restart r) = remaining_failure_restarts policy (sr_restart r')
   \<Longrightarrow> will_auto_restart policy c r = will_auto_restart policy c r'"
  by (cases policy) (simp_all add: will_auto_restart_def)

lemma started_failure:
  assumes "started_runtime env sz s code r = (False, r')" and "sr_desired r = DesiredState_Enabled"
    and "tracker_ok (ss_restart (svc_spec s)) (sr_restart r)"
  shows "sr_running r' = sr_running r \<and> sr_state r' = State_Exited (- 1) \<and>
    sr_desired r' = DesiredState_Enabled \<and> \<not> sr_start_requested r' \<and> sr_blocked_on r' = [] \<and>
    sr_retired r' = sr_retired r \<and>
    (will_auto_restart (ss_restart (svc_spec s)) (- 1) r' \<longrightarrow>
       (\<exists>t. rt_backoff_until (sr_restart r') = Some t \<and> pe_now env < t))"
proof -
  let ?p = "ss_restart (svc_spec s)"
  obtain rid r1 where r1: "allocate_run_id (prepare_start s code (r\<lparr> sr_blocked_on := [] \<rparr>)) = (rid, r1)"
    by fastforce
  have f: "sr_running r1 = sr_running r" "sr_desired r1 = DesiredState_Enabled"
    "\<not> sr_start_requested r1" "sr_blocked_on r1 = []" "sr_retired r1 = sr_retired r"
    "tracker_ok ?p (sr_restart r1)"
    using r1 assms(2,3) prepare_start_tracker [of s "r\<lparr> sr_blocked_on := [] \<rparr>" code]
    by (auto simp: allocate_run_id_def Let_def prepare_start_fields)
  have r': "r' = finish_failed_start (pe_now env) ?p rid (- 1) r1"
    using assms(1) r1 by (auto simp: started_runtime_def split: sum.splits)
  have "0 < RESTART_BACKOFF_BASE"
    by (simp add: RESTART_BACKOFF_BASE_def machine_defs)
  moreover have "RESTART_BACKOFF_BASE \<le> next_delay (rt_backoff_delay (sr_restart r1))"
    using f(6) by (intro conjunct1 [OF next_delay_bounds]) (auto simp: tracker_ok_def backoff_ok_def)
  ultimately have "0 < next_delay (rt_backoff_delay (sr_restart r1))" by simp
  moreover have "will_auto_restart ?p (- 1)
      (q\<lparr> sr_restart := clear_backoff (sr_restart q) \<rparr>) = will_auto_restart ?p (- 1) q" for q
    by (rule will_auto_restart_cong) simp
  ultimately show ?thesis
    using f(1-5)
    unfolding r' finish_failed_start_def finish_run_state_def Let_def
    by (simp add: apply_backoff_unstable) (auto cong: will_auto_restart_cong)
qed

text \<open>Starting keeps the runtime well-formed, whatever the spawn answers.\<close>

lemma started_runtime_ok:
  assumes "runtime_ok (ss_restart (svc_spec s)) r" and "sr_running r = None"
    and "sr_desired r = DesiredState_Enabled" and "started_runtime env sz s code r = (ok, r')"
  shows "runtime_ok (ss_restart (svc_spec s)) r'"
proof -
  let ?p = "ss_restart (svc_spec s)"
  obtain rid r1 where r1: "allocate_run_id (prepare_start s code (r\<lparr> sr_blocked_on := [] \<rparr>)) = (rid, r1)"
    by fastforce
  have t: "tracker_ok ?p (sr_restart (prepare_start s code (r\<lparr> sr_blocked_on := [] \<rparr>)))"
    using assms(1) by (intro prepare_start_tracker) (simp add: runtime_ok_def)
  have f: "sr_running r1 = None" "sr_desired r1 = DesiredState_Enabled" "\<not> sr_start_requested r1"
    "sr_blocked_on r1 = []" "sr_retired r1 = sr_retired r" "tracker_ok ?p (sr_restart r1)"
    "sr_expires_at r1 = sr_expires_at r" "sr_run_config r1 \<noteq> None"
    using r1 t assms(2,3) by (auto simp: allocate_run_id_def Let_def prepare_start_fields)
  have live: "sr_retired r = None"
    using assms(1,3) by (auto simp: runtime_ok_def)
  show ?thesis
  proof (cases "pe_spawn env s rid sz")
    case (Inl err)
    have "r' = finish_failed_start (pe_now env) ?p rid (- 1) r1"
      using assms(4) r1 Inl by (simp add: started_runtime_def)
    then show ?thesis
      using f live by (simp add: finish_failed_start_def finish_run_state_ok)
  next
    case (Inr st)
    then show ?thesis
      using assms(4) r1 f live
      by (auto simp: started_runtime_def runtime_ok_def mark_started_def)
  qed
qed

section \<open>Runtimes up to the recorded blockers\<close>

definition unblock :: "service_runtime \<Rightarrow> service_runtime" where
  "unblock r = r\<lparr> sr_blocked_on := [] \<rparr>"

lemma unblock_id: "sr_blocked_on r = [] \<Longrightarrow> unblock r = r"
  by (cases r) (simp add: unblock_def)

lemma unblock_eqD:
  assumes "unblock r = unblock r'"
  shows "sr_desired r = sr_desired r'" "sr_running r = sr_running r'" "sr_state r = sr_state r'"
    "sr_start_requested r = sr_start_requested r'" "sr_restart r = sr_restart r'"
    "sr_retired r = sr_retired r'" "sr_next_run_id r = sr_next_run_id r'"
    "sr_run_config r = sr_run_config r'"
proof -
  have "f (unblock r) = f (unblock r')" for f :: "service_runtime \<Rightarrow> 'x" using assms by simp
  from this [of sr_desired] show "sr_desired r = sr_desired r'" by (simp add: unblock_def)
next
  have "f (unblock r) = f (unblock r')" for f :: "service_runtime \<Rightarrow> 'x" using assms by simp
  from this [of sr_running] show "sr_running r = sr_running r'" by (simp add: unblock_def)
qed (use assms in \<open>auto simp: unblock_def dest: arg_cong [where f = sr_state]
       arg_cong [where f = sr_start_requested] arg_cong [where f = sr_restart]
       arg_cong [where f = sr_retired] arg_cong [where f = sr_next_run_id]
       arg_cong [where f = sr_run_config]\<close>)

definition same_but_blocks :: "runtimes \<Rightarrow> runtimes \<Rightarrow> bool" where
  "same_but_blocks rts rts' \<longleftrightarrow>
     (\<forall>i. map_option unblock (im_get rts i) = map_option unblock (im_get rts' i))"

lemma consider_cong:
  assumes "map_option unblock (im_get rts i) = map_option unblock (im_get rts' i)"
  shows "should_consider_start now rts i s = should_consider_start now rts' i s"
proof (cases "im_get rts i")
  case None
  then show ?thesis using assms by (simp add: should_consider_start_def)
next
  case (Some r)
  then obtain r' where r': "im_get rts' i = Some r'" "unblock r = unblock r'"
    using assms by (cases "im_get rts' i") auto
  note eq = unblock_eqD [OF r'(2)]
  have "will_auto_restart (ss_restart (svc_spec s)) c r = will_auto_restart (ss_restart (svc_spec s)) c r'"
    for c by (rule will_auto_restart_cong) (simp add: eq)
  then show ?thesis
    using Some r'(1) by (simp add: should_consider_start_def eq cong: state.case_cong)
qed

lemma blocking_cong:
  assumes "\<And>d. d \<in> set (ss_depends_on (svc_spec s)) \<Longrightarrow>
      map_option unblock (im_get rts (dep_service d)) = map_option unblock (im_get rts' (dep_service d))"
  shows "blocking_dependencies rts s = blocking_dependencies rts' s"
proof -
  have "dependency_ready rts d = dependency_ready rts' d" if d: "d \<in> set (ss_depends_on (svc_spec s))" for d
  proof (cases "im_get rts (dep_service d)")
    case None
    then show ?thesis using assms [OF d] by (simp add: dependency_ready_def)
  next
    case (Some r)
    then obtain r' where r': "im_get rts' (dep_service d) = Some r'" "unblock r = unblock r'"
      using assms [OF d] by (cases "im_get rts' (dep_service d)") auto
    then show ?thesis using Some unblock_eqD [OF r'(2)] by (simp add: dependency_ready_def)
  qed
  then show ?thesis
    by (simp add: blocking_dependencies_def cong: filter_cong)
qed

lemma same_but_blocks_refl [simp]: "same_but_blocks rts rts"
  by (simp add: same_but_blocks_def)

lemma same_but_blocks_consider:
  "same_but_blocks rts rts' \<Longrightarrow> should_consider_start now rts' i s = should_consider_start now rts i s"
  by (rule consider_cong) (simp add: same_but_blocks_def)

lemma same_but_blocks_blocking:
  "same_but_blocks rts rts' \<Longrightarrow> blocking_dependencies rts' s = blocking_dependencies rts s"
  by (rule blocking_cong) (simp add: same_but_blocks_def)

lemma blocking_nil_iff:
  "blocking_dependencies rts s = [] \<longleftrightarrow>
     (\<forall>d \<in> set (ss_depends_on (svc_spec s)). dependency_ready rts d)"
  by (simp add: blocking_dependencies_def filter_empty_conv)

section \<open>Recording the blocks that remain\<close>

definition record_runtime :: "instant \<Rightarrow> service_id \<times> service \<Rightarrow> runtimes \<Rightarrow> runtimes" where
  "record_runtime now = (\<lambda>(i, s) rts.
     (case (should_consider_start now rts i s, im_get rts i) of
        (StartCheck_Consider _, Some r) \<Rightarrow>
          let blocked = blocking_dependencies rts s in
          if blocked \<noteq> [] \<and> sr_blocked_on r \<noteq> map bd_service blocked
          then im_insert i (r\<lparr> sr_blocked_on := map bd_service blocked \<rparr>) rts else rts
      | _ \<Rightarrow> rts))"

lemma record_block_effect:
  "cx_services (record_stable_block env p ctx) = cx_services ctx \<and>
   cx_runtimes (record_stable_block env p ctx) = record_runtime (pe_now env) p (cx_runtimes ctx)"
  by (cases p)
     (auto simp: record_stable_block_def record_runtime_def record_dependency_block_def Let_def
       split: start_check.split option.split)

lemma record_blocks_effect:
  "cx_services (record_stable_dependency_blocks env ctx) = cx_services ctx \<and>
   cx_runtimes (record_stable_dependency_blocks env ctx) =
     fold (record_runtime (pe_now env)) (cx_services ctx) (cx_runtimes ctx)"
proof -
  have "cx_services (fold (record_stable_block env) ps c) = cx_services c \<and>
      cx_runtimes (fold (record_stable_block env) ps c) = fold (record_runtime (pe_now env)) ps (cx_runtimes c)"
    for ps c
    by (induction ps arbitrary: c) (simp_all add: record_block_effect)
  then show ?thesis by (simp add: record_stable_dependency_blocks_def)
qed

lemma record_runtime_other: "j \<noteq> fst p \<Longrightarrow> im_get (record_runtime now p rts) j = im_get rts j"
  by (cases p) (auto simp: record_runtime_def Let_def im_get_insert split: start_check.split option.split)

lemma record_runtime_same: "same_but_blocks rts (record_runtime now p rts)"
  by (cases p)
     (auto simp: same_but_blocks_def record_runtime_def Let_def im_get_insert unblock_def
       split: start_check.split option.split)

lemma record_runtime_keys: "im_keys (record_runtime now p rts) = im_keys rts"
  by (cases p) (auto simp: record_runtime_def Let_def im_keys_insert dest: im_get_keys
      split: start_check.split option.split)

lemma record_fold_same: "same_but_blocks rts (fold (record_runtime now) ps rts)"
proof (induction ps arbitrary: rts)
  case (Cons p ps)
  from Cons.IH [of "record_runtime now p rts"] record_runtime_same [of rts now p] show ?case
    by (simp add: same_but_blocks_def)
qed simp

lemma record_fold_other:
  "j \<notin> set (im_keys ps) \<Longrightarrow> im_get (fold (record_runtime now) ps rts) j = im_get rts j"
  by (induction ps arbitrary: rts) (auto simp: im_keys_def record_runtime_other)

lemma record_fold_get:
  assumes "im_wf ps" and "(i, s) \<in> set ps" and "im_get rts i = Some r"
  shows "im_get (fold (record_runtime now) ps rts) i =
    Some (case should_consider_start now rts i s of
            StartCheck_Skip \<Rightarrow> r
          | StartCheck_Consider _ \<Rightarrow>
              if blocking_dependencies rts s = [] then r
              else r\<lparr> sr_blocked_on := map bd_service (blocking_dependencies rts s) \<rparr>)"
  using assms
proof (induction ps arbitrary: rts)
  case (Cons p ps)
  show ?case
  proof (cases "p = (i, s)")
    case True
    then have "i \<notin> set (im_keys ps)"
      using Cons.prems(1) by (simp add: im_wf_def im_keys_def)
    then have "im_get (fold (record_runtime now) (p # ps) rts) i = im_get (record_runtime now p rts) i"
      by (simp add: record_fold_other)
    moreover have "sr_blocked_on r = b \<Longrightarrow> r\<lparr> sr_blocked_on := b \<rparr> = r" for b
      by auto
    ultimately show ?thesis
      using True Cons.prems(3)
      by (auto simp: record_runtime_def Let_def im_get_insert split: start_check.split)
  next
    case False
    have ne: "fst p \<noteq> i"
      using False Cons.prems(1,2) by (auto simp: im_wf_def im_keys_def image_iff)
    have wf: "im_wf ps" using Cons.prems(1) by (simp add: im_wf_def im_keys_def)
    have mem: "(i, s) \<in> set ps" using False Cons.prems(2) by auto
    have get: "im_get (record_runtime now p rts) i = Some r"
      using ne Cons.prems(3) record_runtime_other [of i p now rts] by auto
    show ?thesis
      using Cons.IH [OF wf mem get]
      unfolding same_but_blocks_consider [OF record_runtime_same]
        same_but_blocks_blocking [OF record_runtime_same] by simp
  qed
qed simp

section \<open>The turns of a pass\<close>

definition runtimes_ok :: "service_map \<Rightarrow> runtimes \<Rightarrow> bool" where
  "runtimes_ok services rts \<longleftrightarrow>
     (\<forall>(i, s) \<in> set services. \<forall>r. im_get rts i = Some r \<longrightarrow> runtime_ok (ss_restart (svc_spec s)) r)"

lemma runtimes_okD:
  "runtimes_ok services rts \<Longrightarrow> (i, s) \<in> set services \<Longrightarrow> im_get rts i = Some r \<Longrightarrow>
     runtime_ok (ss_restart (svc_spec s)) r"
  by (auto simp: runtimes_ok_def)

definition settled :: "instant \<Rightarrow> runtimes \<Rightarrow> service_id \<Rightarrow> service \<Rightarrow> bool" where
  "settled now rts i s \<longleftrightarrow>
     (\<forall>r. im_get rts i = Some r \<longrightarrow>
        (case should_consider_start now rts i s of
           StartCheck_Skip \<Rightarrow> sr_blocked_on r = []
         | StartCheck_Consider _ \<Rightarrow> blocking_dependencies rts s \<noteq> []))"

lemma im_wf_unique: "im_wf m \<Longrightarrow> (i, s) \<in> set m \<Longrightarrow> (i, s') \<in> set m \<Longrightarrow> s = s'"
  by (metis im_wf_def im_keys_def map_of_is_SomeI option.inject)

lemma turn_other:
  "schedule_runtime env sz (i, s) (b, rts) = (b', rts') \<Longrightarrow> j \<noteq> i \<Longrightarrow> im_get rts' j = im_get rts j"
  by (erule schedule_runtime_cases) (auto simp: im_get_insert)

lemma skip_unless_startable:
  "im_get rts i = Some r \<Longrightarrow> sr_running r \<noteq> None \<Longrightarrow>
     should_consider_start now rts i s = StartCheck_Skip"
  "im_get rts i = Some r \<Longrightarrow> sr_state r = State_Exited c \<Longrightarrow> \<not> sr_start_requested r \<Longrightarrow>
     (will_auto_restart (ss_restart (svc_spec s)) c r \<longrightarrow>
        (\<exists>t. rt_backoff_until (sr_restart r) = Some t \<and> now < t)) \<Longrightarrow>
     should_consider_start now rts i s = StartCheck_Skip"
  by (auto simp: should_consider_start_def split: option.split)

text \<open>A service that was spawned, with or without success, is no candidate again in the pass.\<close>

lemma spawned_skip:
  assumes "im_get rts i = Some r'" and "started_runtime env sz s code r = (ok, r')"
    and "sr_desired r = DesiredState_Enabled" and "runtime_ok (ss_restart (svc_spec s)) r"
  shows "should_consider_start (pe_now env) rts i s = StartCheck_Skip \<and> sr_blocked_on r' = []"
proof (cases ok)
  case True
  with assms(1,2) show ?thesis
    using started_success [of env sz s code r r'] skip_unless_startable(1) [OF assms(1)] by auto
next
  case False
  then have "started_runtime env sz s code r = (False, r')" using assms(2) by simp
  moreover have "tracker_ok (ss_restart (svc_spec s)) (sr_restart r)"
    using assms(4) by (simp add: runtime_ok_def)
  ultimately show ?thesis
    using started_failure [OF _ assms(3)] skip_unless_startable(2) [OF assms(1)] by blast
qed

lemma started_runtime_cong:
  "unblock r = unblock r' \<Longrightarrow> started_runtime env sz s code r = started_runtime env sz s code r'"
  by (simp add: started_runtime_def unblock_def)

text \<open>No turn makes a running dependency unready, and a turn that starts nothing readies nothing.\<close>

lemma turn_dependency:
  assumes "schedule_runtime env sz (i, s) (b, rts) = (b', rts')"
    and "\<And>r. im_get rts i = Some r \<Longrightarrow> runtime_ok (ss_restart (svc_spec s)) r"
  shows "dependency_ready rts d \<Longrightarrow> dep_condition d \<noteq> DependencyCondition_CompletedSuccessfully \<Longrightarrow>
      dependency_ready rts' d" (is "?a \<Longrightarrow> ?b \<Longrightarrow> ?c")
    and "\<not> b' \<Longrightarrow> dependency_ready rts' d \<Longrightarrow> dependency_ready rts d" (is "?d \<Longrightarrow> ?e \<Longrightarrow> ?f")
proof -
  have "(?a \<longrightarrow> ?b \<longrightarrow> ?c) \<and> (?d \<longrightarrow> ?e \<longrightarrow> ?f)"
  proof (cases "dep_service d = i")
    case False
    then have "im_get rts' (dep_service d) = im_get rts (dep_service d)"
      using turn_other [OF assms(1)] by blast
    then show ?thesis by (simp add: dependency_ready_def)
  next
    case True
    from assms(1) show ?thesis
    proof (cases rule: schedule_runtime_cases)
      case (start r code ok r')
      note c = consider_startD [OF start(2)]
      have en: "sr_desired r = DesiredState_Enabled" using c start(1) by auto
      have "tracker_ok (ss_restart (svc_spec s)) (sr_restart r)"
        using assms(2) [OF start(1)] by (simp add: runtime_ok_def)
      then have fail: "\<not> ok \<Longrightarrow> sr_state r' = State_Exited (- 1)"
        using started_failure [of env sz s code r r'] start(4) en by auto
      have "\<not> condition_met DependencyCondition_Started (sr_state r)"
        "\<not> condition_met DependencyCondition_Healthy (sr_state r)"
        using c start(1) by auto
      then show ?thesis
        using start fail True
        by (cases "dep_condition d"; cases ok) (auto simp: dependency_ready_def im_get_insert)
    qed (use True in \<open>auto simp: dependency_ready_def im_get_insert\<close>)
  qed
  then show "?a \<Longrightarrow> ?b \<Longrightarrow> ?c" and "?d \<Longrightarrow> ?e \<Longrightarrow> ?f" by blast+
qed

lemma turn_runtimes_ok:
  assumes "schedule_runtime env sz (i, s) (b, rts) = (b', rts')" and "im_wf services"
    and "(i, s) \<in> set services" and "runtimes_ok services rts"
  shows "runtimes_ok services rts'"
proof -
  have "runtime_ok (ss_restart (svc_spec s)) q" if "im_get rts' i = Some q" for q
    using assms(1)
  proof (cases rule: schedule_runtime_cases)
    case unknown
    then show ?thesis using that by simp
  next
    case (skip r)
    have "runtime_ok (ss_restart (svc_spec s)) r"
      using runtimes_okD [OF assms(4,3) skip(1)] .
    then have "runtime_ok (ss_restart (svc_spec s)) (r\<lparr> sr_blocked_on := [] \<rparr>)"
      by (rule runtime_ok_blocked) simp
    then show ?thesis
      using that skip \<open>runtime_ok (ss_restart (svc_spec s)) r\<close>
      by (simp add: im_get_insert split: if_splits)
  next
    case (blocked r code)
    then show ?thesis using that assms(3,4) by (auto simp: runtimes_ok_def)
  next
    case (start r code ok r')
    have "runtime_ok (ss_restart (svc_spec s)) r"
      using start(1) assms(3,4) by (auto simp: runtimes_ok_def)
    then show ?thesis
      using started_runtime_ok [OF _ _ _ start(4)] consider_startD [OF start(2)] start(1,6) that
      by (auto simp: im_get_insert)
  qed
  note own = this
  have "runtime_ok (ss_restart (svc_spec s')) q" if "(j, s') \<in> set services" "im_get rts' j = Some q" for j s' q
  proof (cases "j = i")
    case True
    then show ?thesis using own that im_wf_unique [OF assms(2,3)] by blast
  next
    case False
    then show ?thesis
      using that turn_other [OF assms(1)] runtimes_okD [OF assms(4)] by simp
  qed
  then show ?thesis by (auto simp: runtimes_ok_def)
qed

lemma turn_settles:
  assumes "schedule_runtime env sz (i, s) (b, rts) = (False, rts')"
    and "\<And>r. im_get rts i = Some r \<Longrightarrow> runtime_ok (ss_restart (svc_spec s)) r"
  shows "settled (pe_now env) rts' i s"
    and "j \<noteq> i \<Longrightarrow> settled (pe_now env) rts j s' \<Longrightarrow> settled (pe_now env) rts' j s'"
proof -
  show "settled (pe_now env) rts' i s"
    using assms(1)
  proof (cases rule: schedule_runtime_cases)
    case unknown
    then show ?thesis by (simp add: settled_def)
  next
    case (skip r)
    have "should_consider_start (pe_now env) rts' i s = should_consider_start (pe_now env) rts i s"
      using skip by (intro consider_cong) (auto simp: im_get_insert unblock_def)
    then show ?thesis using skip by (auto simp: settled_def im_get_insert)
  next
    case (blocked r code)
    then show ?thesis by (simp add: settled_def)
  next
    case (start r code ok r')
    have "im_get rts' i = Some r'" using start by (simp add: im_get_insert)
    moreover have "sr_desired r = DesiredState_Enabled"
      using consider_startD [OF start(2)] start(1) by auto
    ultimately show ?thesis
      using spawned_skip [OF _ start(4) _ assms(2)] start(1) by (simp add: settled_def)
  qed
  assume "j \<noteq> i" and s: "settled (pe_now env) rts j s'"
  then have same: "im_get rts' j = im_get rts j" using turn_other [OF assms(1)] by blast
  then have "should_consider_start (pe_now env) rts' j s' = should_consider_start (pe_now env) rts j s'"
    by (intro consider_cong) simp
  moreover have "blocking_dependencies rts s' \<noteq> [] \<Longrightarrow> blocking_dependencies rts' s' \<noteq> []"
    using turn_dependency(2) [OF assms] unfolding blocking_nil_iff by blast
  ultimately show "settled (pe_now env) rts' j s'"
    using s unfolding settled_def same
    by (cases "should_consider_start (pe_now env) rts j s'") simp_all
qed

section \<open>What a pass made of one service\<close>

text \<open>
  Either the runtime is untouched up to the recorded blockers, or the service was spawned exactly
  once, from the runtime it had when the pass began; of a successful start, the dependencies that
  must run still do.
\<close>

definition spawned_in_pass ::
  "pass_env \<Rightarrow> pty_size \<Rightarrow> runtimes \<Rightarrow> runtimes \<Rightarrow> service_id \<Rightarrow> service \<Rightarrow> service_runtime \<Rightarrow>
   service_runtime \<Rightarrow> bool"
where
  "spawned_in_pass env sz rts0 rts i s r0 r \<longleftrightarrow>
     (\<exists>code ok. should_consider_start (pe_now env) rts0 i s = StartCheck_Consider code \<and>
        started_runtime env sz s code r0 = (ok, r) \<and>
        (ok \<longrightarrow> (\<forall>d \<in> set (ss_depends_on (svc_spec s)).
           dep_condition d \<noteq> DependencyCondition_CompletedSuccessfully \<longrightarrow> dependency_ready rts d)))"

definition pass_outcome ::
  "pass_env \<Rightarrow> pty_size \<Rightarrow> runtimes \<Rightarrow> runtimes \<Rightarrow> service_id \<Rightarrow> service \<Rightarrow> bool"
where
  "pass_outcome env sz rts0 rts i s \<longleftrightarrow>
     (\<forall>r0. im_get rts0 i = Some r0 \<longrightarrow>
        (\<exists>r. im_get rts i = Some r \<and>
           (unblock r = unblock r0 \<or> spawned_in_pass env sz rts0 rts i s r0 r)))"

text \<open>The invariant of the pass that begins with the runtimes \<open>rts0\<close>.\<close>

definition pass_inv :: "pass_env \<Rightarrow> pty_size \<Rightarrow> service_map \<Rightarrow> runtimes \<Rightarrow> runtimes \<Rightarrow> bool" where
  "pass_inv env sz services rts0 rts \<longleftrightarrow>
     im_keys rts = im_keys rts0 \<and> runtimes_ok services rts \<and>
     (\<forall>(i, s) \<in> set services. pass_outcome env sz rts0 rts i s)"

lemma pass_inv_init: "runtimes_ok services rts \<Longrightarrow> pass_inv env sz services rts rts"
  by (auto simp: pass_inv_def pass_outcome_def)

lemma spawned_in_pass_mono:
  assumes "spawned_in_pass env sz rts0 rts i s r0 r"
    and "\<And>d. dep_condition d \<noteq> DependencyCondition_CompletedSuccessfully \<Longrightarrow>
      dependency_ready rts d \<Longrightarrow> dependency_ready rts' d"
  shows "spawned_in_pass env sz rts0 rts' i s r0 r"
  using assms unfolding spawned_in_pass_def by blast

lemma outcome_turn:
  assumes turn: "schedule_runtime env sz (i, s) (b, rts) = (b', rts')"
    and ok: "\<And>r. im_get rts i = Some r \<Longrightarrow> runtime_ok (ss_restart (svc_spec s)) r"
    and ok0: "\<And>r. im_get rts0 i = Some r \<Longrightarrow> runtime_ok (ss_restart (svc_spec s)) r"
    and out: "pass_outcome env sz rts0 rts i s"
  shows "pass_outcome env sz rts0 rts' i s"
proof -
  note mono = turn_dependency(1) [OF turn ok]
  have "\<exists>r'. im_get rts' i = Some r' \<and>
      (unblock r' = unblock r0 \<or> spawned_in_pass env sz rts0 rts' i s r0 r')"
    if r0: "im_get rts0 i = Some r0" for r0
  proof -
    obtain r where r: "im_get rts i = Some r"
      "unblock r = unblock r0 \<or> spawned_in_pass env sz rts0 rts i s r0 r"
      using out r0 unfolding pass_outcome_def by blast
    from r(2) show ?thesis
    proof
      assume sp: "spawned_in_pass env sz rts0 rts i s r0 r"
      then obtain code ok where c: "should_consider_start (pe_now env) rts0 i s = StartCheck_Consider code"
        "started_runtime env sz s code r0 = (ok, r)"
        unfolding spawned_in_pass_def by blast
      have "sr_desired r0 = DesiredState_Enabled" using consider_startD [OF c(1)] r0 by auto
      then have "should_consider_start (pe_now env) rts i s = StartCheck_Skip" "sr_blocked_on r = []"
        using spawned_skip [OF r(1) c(2) _ ok0 [OF r0]] by simp_all
      then have "rts' = rts" using turn r(1) by (simp add: schedule_runtime_def)
      then show ?thesis using r(1) sp by blast
    next
      assume same: "unblock r = unblock r0"
      from turn show ?thesis
      proof (cases rule: schedule_runtime_cases)
        case (start q code ok r')
        have q: "q = r" using start(1) r(1) by simp
        have "should_consider_start (pe_now env) rts0 i s = StartCheck_Consider code"
          using start(2) consider_cong [of rts0 i rts] r0 r(1) same by simp
        moreover have "started_runtime env sz s code r0 = (ok, r')"
          using start(4) q started_runtime_cong [OF same] by simp
        moreover have "\<forall>d \<in> set (ss_depends_on (svc_spec s)).
            dep_condition d \<noteq> DependencyCondition_CompletedSuccessfully \<longrightarrow> dependency_ready rts' d"
          using start(3) mono unfolding blocking_nil_iff by blast
        ultimately have "spawned_in_pass env sz rts0 rts' i s r0 r'"
          unfolding spawned_in_pass_def by blast
        then show ?thesis using start(6) by (simp add: im_get_insert)
      qed (use r(1) same in \<open>auto simp: im_get_insert unblock_def\<close>)
    qed
  qed
  then show ?thesis by (simp add: pass_outcome_def)
qed

lemma outcome_other:
  assumes "im_get rts' j = im_get rts j"
    and "\<And>d. dep_condition d \<noteq> DependencyCondition_CompletedSuccessfully \<Longrightarrow>
      dependency_ready rts d \<Longrightarrow> dependency_ready rts' d"
    and "pass_outcome env sz rts0 rts j s"
  shows "pass_outcome env sz rts0 rts' j s"
  using assms(3) spawned_in_pass_mono [OF _ assms(2)] unfolding pass_outcome_def assms(1) by blast

lemma pass_inv_turn:
  assumes turn: "schedule_runtime env sz (i, s) (b, rts) = (b', rts')" and "im_wf services"
    and "(i, s) \<in> set services" and "runtimes_ok services rts0" and "pass_inv env sz services rts0 rts"
  shows "pass_inv env sz services rts0 rts'"
proof -
  have rok: "runtimes_ok services rts" and out: "\<And>j s'. (j, s') \<in> set services \<Longrightarrow> pass_outcome env sz rts0 rts j s'"
    using assms(5) by (auto simp: pass_inv_def)
  have ok: "\<And>r. im_get rts i = Some r \<Longrightarrow> runtime_ok (ss_restart (svc_spec s)) r"
    using runtimes_okD [OF rok assms(3)] .
  have "pass_outcome env sz rts0 rts' j s'" if "(j, s') \<in> set services" for j s'
  proof (cases "j = i")
    case True
    then have "s' = s" using im_wf_unique [OF assms(2,3)] that by auto
    then show ?thesis
      using outcome_turn [OF turn ok runtimes_okD [OF assms(4,3)] out [OF assms(3)]] True by simp
  next
    case False
    show ?thesis
      by (rule outcome_other [OF turn_other [OF turn False] turn_dependency(1) [OF turn ok] out [OF that]])
  qed
  then show ?thesis
    using assms(5) turn_runtimes_ok [OF turn assms(2,3) rok] schedule_runtime_idle(2) [OF turn]
    by (auto simp: pass_inv_def)
qed

lemma pass_inv_round:
  assumes "im_wf services" and "runtimes_ok services rts0"
  shows "set ps \<subseteq> set services \<Longrightarrow> pass_inv env sz services rts0 rts \<Longrightarrow>
    fold (schedule_runtime env sz) ps (b, rts) = (b', rts') \<Longrightarrow> pass_inv env sz services rts0 rts'"
proof (induction ps arbitrary: b rts)
  case (Cons p ps)
  obtain i s where p: "p = (i, s)" by fastforce
  obtain b1 rts1 where step: "schedule_runtime env sz (i, s) (b, rts) = (b1, rts1)" by fastforce
  have mem: "(i, s) \<in> set services" using Cons.prems(1) p by simp
  have "pass_inv env sz services rts0 rts1"
    by (rule pass_inv_turn [OF step assms(1) mem assms(2) Cons.prems(2)])
  then show ?case
    using Cons.IH [of rts1 b1] Cons.prems(1,3) p step by simp
qed simp

text \<open>After a round that started nothing, every service is settled.\<close>

lemma quiet_round_settles:
  assumes "fold (schedule_runtime env sz) ps (b, rts) = (False, rts')" and "im_wf ps"
    and "im_wf services" and "set ps \<subseteq> set services" and "runtimes_ok services rts"
  shows "\<not> b" and "\<forall>(i, s) \<in> set ps. settled (pe_now env) rts' i s"
    and "\<And>j s. j \<notin> set (im_keys ps) \<Longrightarrow> settled (pe_now env) rts j s \<Longrightarrow> settled (pe_now env) rts' j s"
proof -
  have "\<not> b \<and> (\<forall>(i, s) \<in> set ps. settled (pe_now env) rts' i s) \<and>
    (\<forall>j s. j \<notin> set (im_keys ps) \<longrightarrow> settled (pe_now env) rts j s \<longrightarrow> settled (pe_now env) rts' j s)"
    using assms
  proof (induction ps arbitrary: b rts)
    case (Cons p ps)
    obtain i s where p: "p = (i, s)" by fastforce
    obtain b1 rts1 where step: "schedule_runtime env sz (i, s) (b, rts) = (b1, rts1)" by fastforce
    have mem: "(i, s) \<in> set services" using Cons.prems(4) p by simp
    have i: "i \<notin> set (im_keys ps)" and wf: "im_wf ps"
      using Cons.prems(2) p by (simp_all add: im_wf_def im_keys_def)
    have fold: "fold (schedule_runtime env sz) ps (b1, rts1) = (False, rts')"
      using Cons.prems(1) p step by simp
    have ok1: "runtimes_ok services rts1"
      by (rule turn_runtimes_ok [OF step Cons.prems(3) mem Cons.prems(5)])
    have sub: "set ps \<subseteq> set services" using Cons.prems(4) by simp
    note IH = Cons.IH [OF fold wf Cons.prems(3) sub ok1]
    then have step': "schedule_runtime env sz (i, s) (b, rts) = (False, rts1)" using step by simp
    have rok: "\<And>r. im_get rts i = Some r \<Longrightarrow> runtime_ok (ss_restart (svc_spec s)) r"
      using runtimes_okD [OF Cons.prems(5) mem] .
    have own: "settled (pe_now env) rts1 i s"
      by (rule turn_settles(1) [OF step' rok])
    have other: "settled (pe_now env) rts1 j s'" if "j \<noteq> i" "settled (pe_now env) rts j s'" for j s'
      by (rule turn_settles(2) [OF step' rok that])
    have "\<not> b" using schedule_runtime_idle(3) [OF step'] by simp
    moreover have "settled (pe_now env) rts' i s" using IH i own by blast
    moreover have "settled (pe_now env) rts' j s'"
      if "j \<notin> set (im_keys (p # ps))" "settled (pe_now env) rts j s'" for j s'
    proof -
      have "j \<noteq> i" "j \<notin> set (im_keys ps)" using that(1) p by (simp_all add: im_keys_def)
      then show ?thesis using IH other that(2) by blast
    qed
    ultimately show ?case using IH p by auto
  qed simp
  then show "\<not> b" and "\<forall>(i, s) \<in> set ps. settled (pe_now env) rts' i s"
    and "\<And>j s. j \<notin> set (im_keys ps) \<Longrightarrow> settled (pe_now env) rts j s \<Longrightarrow> settled (pe_now env) rts' j s"
    by blast+
qed

section \<open>The whole pass\<close>

text \<open>Every pass ends with a round that started nothing, followed by the recording of blocks.\<close>

lemma schedule_ready_last:
  assumes "im_wf (cx_services ctx)" and "runtimes_ok (cx_services ctx) rts0"
    and "pass_inv env (cx_pty_size ctx) (cx_services ctx) rts0 (cx_runtimes ctx)"
  obtains rts where "pass_inv env (cx_pty_size ctx) (cx_services ctx) rts0 rts"
    "\<forall>(i, s) \<in> set (cx_services ctx). settled (pe_now env) rts i s"
    "cx_runtimes (schedule_ready env ctx) = fold (record_runtime (pe_now env)) (cx_services ctx) rts"
    "cx_services (schedule_ready env ctx) = cx_services ctx"
  using assms
proof (induction env ctx arbitrary: thesis rule: schedule_ready.induct)
  case (1 env ctx)
  obtain b ctx' where round: "schedule_round env ctx = (b, ctx')" by fastforce
  note eff = schedule_round_effect [OF round]
  have fold: "fold (schedule_runtime env (cx_pty_size ctx)) (cx_services ctx) (False, cx_runtimes ctx) =
      (b, cx_runtimes ctx')" using eff by simp
  have inv: "pass_inv env (cx_pty_size ctx) (cx_services ctx) rts0 (cx_runtimes ctx')"
    by (rule pass_inv_round [OF 1(3,4) subset_refl 1(5) fold])
  show ?case
  proof (cases b)
    case True
    have rec: "schedule_ready env ctx = schedule_ready env ctx'"
      using round True by (subst schedule_ready.simps) simp
    show ?thesis
      by (rule 1(1) [OF refl, of b ctx']) (use eff round True inv 1(2-4) rec in auto)
  next
    case False
    have "schedule_ready env ctx = record_stable_dependency_blocks env ctx'"
      using round False by (subst schedule_ready.simps) simp
    moreover have "\<forall>(i, s) \<in> set (cx_services ctx). settled (pe_now env) (cx_runtimes ctx') i s"
      using fold False 1(5)
      by (intro quiet_round_settles(2) [OF _ 1(3) 1(3) subset_refl]) (auto simp: pass_inv_def)
    ultimately show ?thesis
      using 1(2) [OF inv] eff record_blocks_effect [of env ctx'] by simp
  qed
qed


lemma schedule_ready_outcome:
  assumes "im_wf (cx_services ctx)" and "runtimes_ok (cx_services ctx) (cx_runtimes ctx)"
    and "(i, s) \<in> set (cx_services ctx)" and "im_get (cx_runtimes ctx) i = Some r0"
  obtains r where "im_get (cx_runtimes (schedule_ready env ctx)) i = Some r"
    "unblock r = unblock r0 \<or>
       spawned_in_pass env (cx_pty_size ctx) (cx_runtimes ctx) (cx_runtimes (schedule_ready env ctx)) i s r0 r"
    "case should_consider_start (pe_now env) (cx_runtimes (schedule_ready env ctx)) i s of
       StartCheck_Skip \<Rightarrow> sr_blocked_on r = []
     | StartCheck_Consider _ \<Rightarrow>
         blocking_dependencies (cx_runtimes (schedule_ready env ctx)) s \<noteq> [] \<and>
         sr_blocked_on r = map bd_service
           (blocking_dependencies (cx_runtimes (schedule_ready env ctx)) s)"
proof -
  obtain rts where last: "pass_inv env (cx_pty_size ctx) (cx_services ctx) (cx_runtimes ctx) rts"
    "\<forall>(i, s) \<in> set (cx_services ctx). settled (pe_now env) rts i s"
    "cx_runtimes (schedule_ready env ctx) = fold (record_runtime (pe_now env)) (cx_services ctx) rts"
    using schedule_ready_last [OF assms(1,2) pass_inv_init [OF assms(2)]] by metis
  let ?after = "cx_runtimes (schedule_ready env ctx)"
  have same: "same_but_blocks rts ?after" unfolding last(3) by (rule record_fold_same)
  have "pass_outcome env (cx_pty_size ctx) (cx_runtimes ctx) rts i s"
    using last(1) assms(3) by (auto simp: pass_inv_def)
  then obtain r where r: "im_get rts i = Some r"
    "unblock r = unblock r0 \<or> spawned_in_pass env (cx_pty_size ctx) (cx_runtimes ctx) rts i s r0 r"
    using assms(4) unfolding pass_outcome_def by blast
  note get = record_fold_get [OF assms(1,3) r(1), of "pe_now env", folded last(3)]
  have set: "settled (pe_now env) rts i s" using last(2) assms(3) by auto
  have ready: "dependency_ready rts d = dependency_ready ?after d" for d
  proof -
    have "map_option unblock (im_get rts (dep_service d)) = map_option unblock (im_get ?after (dep_service d))"
      using same by (simp add: same_but_blocks_def)
    then show ?thesis
      by (cases "im_get rts (dep_service d)"; cases "im_get ?after (dep_service d)")
         (auto simp: dependency_ready_def dest: unblock_eqD)
  qed
  show thesis
  proof (cases "should_consider_start (pe_now env) rts i s")
    case StartCheck_Skip
    have "spawned_in_pass env (cx_pty_size ctx) (cx_runtimes ctx) rts i s r0 r \<Longrightarrow>
        spawned_in_pass env (cx_pty_size ctx) (cx_runtimes ctx) ?after i s r0 r"
      by (erule spawned_in_pass_mono) (simp add: ready)
    then show thesis
      using that [of r] get StartCheck_Skip r set
      by (auto simp: same_but_blocks_consider [OF same] settled_def)
  next
    case (StartCheck_Consider code)
    have "\<not> spawned_in_pass env (cx_pty_size ctx) (cx_runtimes ctx) rts i s r0 r"
    proof
      assume "spawned_in_pass env (cx_pty_size ctx) (cx_runtimes ctx) rts i s r0 r"
      then obtain c ok where c: "should_consider_start (pe_now env) (cx_runtimes ctx) i s = StartCheck_Consider c"
        "started_runtime env (cx_pty_size ctx) s c r0 = (ok, r)"
        unfolding spawned_in_pass_def by blast
      have "sr_desired r0 = DesiredState_Enabled" using consider_startD [OF c(1)] assms(4) by auto
      then show False
        using spawned_skip [OF r(1) c(2) _ runtimes_okD [OF assms(2,3,4)]] StartCheck_Consider by simp
    qed
    then have "unblock r = unblock r0" using r(2) by blast
    moreover have "blocking_dependencies rts s \<noteq> []"
      using set r(1) StartCheck_Consider by (simp add: settled_def)
    ultimately show thesis
      using that [of "r\<lparr> sr_blocked_on := map bd_service (blocking_dependencies rts s) \<rparr>"]
        get StartCheck_Consider
      by (simp add: same_but_blocks_consider [OF same] same_but_blocks_blocking [OF same] unblock_def)
  qed
qed

text \<open>
  C5. A pass leaves nothing undecided. When \<^verbatim>\<open>schedule_ready\<close> returns, every service is either no
  candidate for a start and reports no blockers, or it is a candidate that is held back, and the
  blockers its runtime reports are exactly the services of its unmet dependencies, in the order the
  definition lists them.
\<close>

theorem schedule_pass_fixpoint:
  assumes "im_wf (cx_services ctx)" and "runtimes_ok (cx_services ctx) (cx_runtimes ctx)"
    and "(i, s) \<in> set (cx_services ctx)" and "im_get (cx_runtimes ctx) i \<noteq> None"
  shows "let rts = cx_runtimes (schedule_ready env ctx) in
    \<exists>r. im_get rts i = Some r \<and>
      (case should_consider_start (pe_now env) rts i s of
         StartCheck_Skip \<Rightarrow> sr_blocked_on r = []
       | StartCheck_Consider _ \<Rightarrow> sr_blocked_on r \<noteq> [] \<and>
           sr_blocked_on r = map dep_service
             (filter (\<lambda>d. \<not> dependency_ready rts d) (ss_depends_on (svc_spec s))))"
proof -
  obtain r0 where "im_get (cx_runtimes ctx) i = Some r0" using assms(4) by auto
  from schedule_ready_outcome [OF assms(1,2,3) this, of env] obtain r where
    r: "im_get (cx_runtimes (schedule_ready env ctx)) i = Some r"
    "case should_consider_start (pe_now env) (cx_runtimes (schedule_ready env ctx)) i s of
       StartCheck_Skip \<Rightarrow> sr_blocked_on r = []
     | StartCheck_Consider _ \<Rightarrow>
         blocking_dependencies (cx_runtimes (schedule_ready env ctx)) s \<noteq> [] \<and>
         sr_blocked_on r = map bd_service
           (blocking_dependencies (cx_runtimes (schedule_ready env ctx)) s)"
    by metis
  have "map bd_service (blocking_dependencies rts s) =
      map dep_service (filter (\<lambda>d. \<not> dependency_ready rts d) (ss_depends_on (svc_spec s)))" for rts
    by (simp add: blocking_dependencies_def comp_def)
  then show ?thesis
    using r unfolding Let_def
    by (cases "should_consider_start (pe_now env) (cx_runtimes (schedule_ready env ctx)) i s")
       (auto simp: blocking_dependencies_def)
qed


section \<open>A concrete pass\<close>

definition example_services :: service_map where
  "example_services =
     [(''web'', example_service ''web'' [''db'']), (''db'', example_service ''db'' [])]"

definition example_pass :: pass_env where
  "example_pass =
     \<lparr> pe_now = 10, pe_unix = Some 1000, pe_enc = example_enc,
       pe_spawn = (\<lambda>s rid sz. Inr \<lparr> sp_pid = Some 42, sp_handles = example_pty,
                                     sp_log_reader = \<lparr> lrh_cancelled = False \<rparr> \<rparr>) \<rparr>"

definition example_context :: schedule_context where
  "example_context =
     \<lparr> cx_services = example_services,
       cx_runtimes = map (\<lambda>(i, s). (i, runtime_new s)) example_services,
       cx_pty_size = \<lparr> sz_rows = 24, sz_cols = 80, sz_pixel_width = 0, sz_pixel_height = 0 \<rparr>,
       cx_model = example_model \<rparr>"

lemma example_context_ok:
  "im_wf (cx_services example_context)"
  "runtimes_ok (cx_services example_context) (cx_runtimes example_context)"
  "(''web'', example_service ''web'' [''db'']) \<in> set (cx_services example_context)"
  "(''db'', example_service ''db'' []) \<in> set (cx_services example_context)"
  "im_get (cx_runtimes example_context) ''web'' = Some (runtime_new (example_service ''web'' [''db'']))"
  "im_get (cx_runtimes example_context) ''db'' = Some (runtime_new (example_service ''db'' []))"
  by (auto simp: example_context_def example_services_def im_wf_def im_keys_def runtimes_ok_def
      intro: runtime_ok_new)

lemma no_dependencies: "ss_depends_on (svc_spec (example_service i [])) = []"
  by (simp add: example_service_def)

theorem schedule_pass_fixpoint_witness:
  "\<exists>r. im_get (cx_runtimes (schedule_ready example_pass example_context)) ''db'' = Some r \<and>
     sr_blocked_on r = []"
  using schedule_pass_fixpoint [OF example_context_ok(1,2,4), of example_pass] example_context_ok(6)
  by (cases "should_consider_start (pe_now example_pass)
        (cx_runtimes (schedule_ready example_pass example_context)) ''db'' (example_service ''db'' [])")
     (auto simp: Let_def no_dependencies)



text \<open>
  Every startable service is started: the roster has a start order, nothing has run yet, every
  dependency only has to be started, and the spawns succeed.
\<close>

lemma pass_reaches:
  assumes wf: "im_wf (cx_services ctx)" and ok: "runtimes_ok (cx_services ctx) (cx_runtimes ctx)"
    and graph: "graph_ok (cx_services ctx)"
    and fresh: "\<And>i s. (i, s) \<in> set (cx_services ctx) \<Longrightarrow>
      \<exists>r. im_get (cx_runtimes ctx) i = Some r \<and> sr_desired r = DesiredState_Enabled \<and>
        sr_state r = State_Pending \<and>
        (sr_start_requested r \<or> (\<forall>t. rt_backoff_until (sr_restart r) = Some t \<longrightarrow> t \<le> pe_now env))"
    and conds: "\<And>i s d. (i, s) \<in> set (cx_services ctx) \<Longrightarrow> d \<in> set (ss_depends_on (svc_spec s)) \<Longrightarrow>
      dep_condition d = DependencyCondition_Started"
    and spawns: "\<And>s rid sz. \<not> isl (pe_spawn env s rid sz)"
    and mem: "i \<in> set (im_keys (cx_services ctx))"
  shows "\<exists>r. im_get (cx_runtimes (schedule_ready env ctx)) i = Some r \<and>
    sr_running r \<noteq> None \<and> sr_state r = State_Running None \<and> sr_desired r = DesiredState_Enabled \<and>
    \<not> sr_start_requested r"
    (is "?runs i")
proof -
  obtain ord where ord: "start_order (cx_services ctx) ord" using graph_ok_start_order [OF graph] ..
  let ?after = "cx_runtimes (schedule_ready env ctx)"
  have "?runs (ord ! k)" if "k < length ord" for k
    using that
  proof (induction k rule: less_induct)
    case (less k)
    have "ord ! k \<in> set (im_keys (cx_services ctx))"
      using ord less.prems nth_mem by (fastforce simp: start_order_def)
    then obtain s where s: "(ord ! k, s) \<in> set (cx_services ctx)" by (auto simp: im_keys_def)
    from fresh [OF s] obtain r0 where r0: "im_get (cx_runtimes ctx) (ord ! k) = Some r0"
      "sr_desired r0 = DesiredState_Enabled" "sr_state r0 = State_Pending"
      "sr_start_requested r0 \<or> (\<forall>t. rt_backoff_until (sr_restart r0) = Some t \<longrightarrow> t \<le> pe_now env)"
      by auto
    have idle: "sr_running r0 = None"
      using runtimes_okD [OF ok s r0(1)] r0(3) by (auto simp: runtime_ok_def)
    obtain r where r: "im_get ?after (ord ! k) = Some r"
      "unblock r = unblock r0 \<or>
         spawned_in_pass env (cx_pty_size ctx) (cx_runtimes ctx) ?after (ord ! k) s r0 r"
      "case should_consider_start (pe_now env) ?after (ord ! k) s of
         StartCheck_Skip \<Rightarrow> sr_blocked_on r = []
       | StartCheck_Consider _ \<Rightarrow>
           blocking_dependencies ?after s \<noteq> [] \<and>
           sr_blocked_on r = map bd_service (blocking_dependencies ?after s)"
      by (rule schedule_ready_outcome [OF wf ok s r0(1), of env])
    from r(2) show ?case
    proof
      assume same: "unblock r = unblock r0"
      have "should_consider_start (pe_now env) ?after (ord ! k) s = StartCheck_Consider None"
        using r(1) r0 idle unblock_eqD [OF same] by (auto simp: should_consider_start_def split: option.split)
      then have "blocking_dependencies ?after s \<noteq> []" using r(3) by simp
      then obtain d where d: "d \<in> set (ss_depends_on (svc_spec s))" "\<not> dependency_ready ?after d"
        unfolding blocking_nil_iff by blast
      have "(dep_service d, ord ! k) \<in> dependency_edges (cx_services ctx)"
        using s d(1) by (auto simp: dependency_edges_def depends_on_ids_def)
      then have "dep_service d \<in> set (take k ord)"
        using ord less.prems unfolding start_order_def by blast
      then obtain j where "j < k" "ord ! j = dep_service d" by (auto simp: in_set_conv_nth)
      then have "?runs (dep_service d)" using less.IH [of j] less.prems by simp
      then have "dependency_ready ?after d"
        using conds [OF s d(1)] by (auto simp: dependency_ready_def)
      then show ?thesis using d(2) by simp
    next
      assume "spawned_in_pass env (cx_pty_size ctx) (cx_runtimes ctx) ?after (ord ! k) s r0 r"
      then obtain code okay where st: "started_runtime env (cx_pty_size ctx) s code r0 = (okay, r)"
        unfolding spawned_in_pass_def by blast
      have okay
      proof (rule ccontr)
        assume "\<not> okay"
        then show False
          using st spawns by (auto simp: started_runtime_def isl_def split: prod.splits sum.splits)
      qed
      then show ?thesis
        using started_success [of env _ s code r0 r] st r(1) r0(2) by auto
    qed
  qed
  then show ?thesis
    using mem ord unfolding start_order_def by (metis in_set_conv_nth)
qed

text \<open>
  C7. Nothing startable is left behind. If the roster passes the dependency check, every dependency
  only waits for its service to be started (none for it to be healthy or to have completed), every
  service is enabled, pending and without a backoff, and every spawn succeeds, then one call of \<^verbatim>\<open>schedule_ready\<close> starts every service, in whatever order the definitions are
  listed.
\<close>

theorem schedule_pass_starts_all:
  assumes "im_wf (cx_services ctx)" and "runtimes_ok (cx_services ctx) (cx_runtimes ctx)"
    and "service_graph_new toposort (cx_services ctx) = Inr ()" and "toposort_contract toposort"
    and "\<forall>(i, s) \<in> set (cx_services ctx).
      (\<forall>d \<in> set (ss_depends_on (svc_spec s)). dep_condition d = DependencyCondition_Started) \<and>
      (\<exists>r. im_get (cx_runtimes ctx) i = Some r \<and> sr_desired r = DesiredState_Enabled \<and>
         sr_state r = State_Pending \<and> rt_backoff_until (sr_restart r) = None)"
    and "\<forall>s rid sz. \<not> isl (pe_spawn env s rid sz)"
  shows "\<forall>i \<in> set (im_keys (cx_services ctx)).
    \<exists>r. im_get (cx_runtimes (schedule_ready env ctx)) i = Some r \<and> sr_state r = State_Running None"
proof
  fix i assume "i \<in> set (im_keys (cx_services ctx))"
  moreover have "graph_ok (cx_services ctx)"
    using toposort_contract.accepts_iff [OF assms(4)] assms(3) by simp
  ultimately show "\<exists>r. im_get (cx_runtimes (schedule_ready env ctx)) i = Some r \<and> sr_state r = State_Running None"
    using pass_reaches [OF assms(1,2), of env i] assms(5,6) by fastforce
qed

lemma example_graph_ok: "graph_ok example_services"
  by (rule start_order_graph_ok [of _ "[''db'', ''web'']"])
     (auto simp: start_order_def example_services_def im_keys_def dependency_edges_def
       less_Suc_eq nth_Cons')

theorem schedule_pass_starts_all_witness:
  "\<exists>r. im_get (cx_runtimes (schedule_ready example_pass example_context)) ''web'' = Some r \<and>
     sr_state r = State_Running None"
proof -
  have acc: "service_graph_new closure_toposort (cx_services example_context) = Inr ()"
    using closure.accepts_iff example_graph_ok by (simp add: example_context_def)
  have "\<forall>i \<in> set (im_keys (cx_services example_context)).
      \<exists>r. im_get (cx_runtimes (schedule_ready example_pass example_context)) i = Some r \<and>
        sr_state r = State_Running None"
    by (rule schedule_pass_starts_all
          [OF example_context_ok(1,2) acc closure.toposort_contract_axioms])
       (auto simp: example_context_def example_services_def example_service_def runtime_new_def
         restart_tracker_new_def example_pass_def)
  then show ?thesis
    by (simp add: example_context_def example_services_def im_keys_def)
qed


end
