(* ===== verification/Scheduler_State.thy ===== *)
theory Scheduler_State
  imports Schedule_Pass "HOL-Library.Char_ord" "HOL-Library.List_Lexorder"
begin

text \<open>
  The state of the scheduler task (\<^verbatim>\<open>SchedulerRuntime\<close> of \<^verbatim>\<open>scheduler.rs\<close> with the roster that
  \<^verbatim>\<open>run\<close> owns), the session constants its handlers read, the replies of \<^verbatim>\<open>scheduler/control.rs\<close>, and
  the small operations every handler is made of.
\<close>

section \<open>Session constants\<close>

record dynamic_services_policy =
  dy_enabled :: bool
  dy_allowed_working_roots :: "string list"
  dy_max_services :: usize
  dy_max_lifetime :: "duration option"

definition default_dynamic_services_policy :: dynamic_services_policy where
  "default_dynamic_services_policy =
     \<lparr> dy_enabled = False, dy_allowed_working_roots = [''.''], dy_max_services = 4,
       dy_max_lifetime = Some (12 * 60 * 60 * NANOS_PER_SEC) \<rparr>"

text \<open>
  What does not change in a session: the path of the configuration file if there is one, the
  directory of the session, its policy, and the code of other crates (the encoding of disk records,
  the topological sort, the digest of a request by \<^verbatim>\<open>serde_json\<close> and the standard hasher).
\<close>

record session_config =
  cf_reload :: "string option"
  cf_config_dir :: string
  cf_policy :: dynamic_services_policy
  cf_log_retention :: log_retention
  cf_enc :: disk_encoding
  cf_toposort :: toposort
  cf_digest :: "string \<Rightarrow> u64 option \<Rightarrow> dynamic_service_params \<Rightarrow> string + u64"

text \<open>What the task observes of the world when it wakes up.\<close>

record wake =
  wk_now :: instant
  wk_unix :: "u64 option"
  wk_fs :: filesystem
  wk_spawn :: "service \<Rightarrow> run_id \<Rightarrow> pty_size \<Rightarrow> string + started_pty"

definition pass_of :: "session_config \<Rightarrow> wake \<Rightarrow> pass_env" where
  "pass_of cf wk =
     \<lparr> pe_now = wk_now wk, pe_unix = wk_unix wk, pe_enc = cf_enc cf, pe_spawn = wk_spawn wk \<rparr>"

definition unix_or_default :: "wake \<Rightarrow> u64" where
  "unix_or_default wk = (case wk_unix wk of None \<Rightarrow> 0 | Some t \<Rightarrow> t)"

section \<open>Replies\<close>

datatype command_rejection =
    CommandRejection_UnknownService
  | CommandRejection_InvalidState string
  | CommandRejection_ConfigReload string
  | CommandRejection_PolicyDenied string
  | CommandRejection_LimitExceeded string
  | CommandRejection_RevisionMismatch u64 u64
  | CommandRejection_InvalidSpec string

record service_command_ack =
  ca_service :: service_id
  ca_observed_generation :: u64

record dynamic_service_ack =
  da_service :: service_id
  da_revision :: u64
  da_observed_generation :: u64
  da_expires_at_unix_ms :: "u64 option"
  da_command :: "string list"
  da_working_dir :: "string option"
  da_ports :: "u16 list"
  da_env_keys :: "string list"
  da_restart :: restart_policy
  da_healthcheck_configured :: bool
  da_already_retired :: bool
  da_idempotent_replay :: bool

definition dynamic_service_ack_new ::
  "service_id \<Rightarrow> u64 \<Rightarrow> u64 \<Rightarrow> u64 option \<Rightarrow> service_spec \<Rightarrow> bool \<Rightarrow> bool \<Rightarrow> dynamic_service_ack"
where
  "dynamic_service_ack_new i revision observed expires_at spec already_retired replay =
     \<lparr> da_service = i, da_revision = revision, da_observed_generation = observed,
       da_expires_at_unix_ms = expires_at, da_command = ss_command spec,
       da_working_dir = ss_working_dir spec, da_ports = ss_ports spec,
       da_env_keys = sort (im_keys (ss_environment spec)), da_restart = ss_restart spec,
       da_healthcheck_configured = (ss_healthcheck spec \<noteq> None),
       da_already_retired = already_retired, da_idempotent_replay = replay \<rparr>"

section \<open>The state of the task\<close>

record idempotency_record =
  id_key :: string
  id_digest :: u64
  id_service :: service_id
  id_revision :: u64
  id_ack :: dynamic_service_ack

record scheduler =
  sc_services :: service_map
  sc_runtimes :: runtimes
  sc_model :: session_model
  sc_pty_size :: pty_size
  sc_idempotency :: "idempotency_record list"
  sc_shutdown :: bool

definition initial_pty_size :: pty_size where
  "initial_pty_size = \<lparr> sz_rows = 24, sz_cols = 80, sz_pixel_width = 0, sz_pixel_height = 0 \<rparr>"

definition scheduler_new :: "service_map \<Rightarrow> session_model \<Rightarrow> scheduler" where
  "scheduler_new services m =
     \<lparr> sc_services = services,
       sc_runtimes = map (\<lambda>(i, s). (i, runtime_new s)) services,
       sc_model = m, sc_pty_size = initial_pty_size, sc_idempotency = [], sc_shutdown = False \<rparr>"

text \<open>The entries \<^verbatim>\<open>lib.rs\<close> seeds the model with before the task runs.\<close>

definition initial_model_entries :: "service_map \<Rightarrow> (service_snapshot \<times> log_retention) list" where
  "initial_model_entries services =
     map (\<lambda>(i, s).
       ((snapshot_initial i (display_name s) (ss_ports (svc_spec s))
           (map_option healthcheck_config_from (ss_healthcheck (svc_spec s)))
           (ss_restart (svc_spec s)) (argv s) (working_dir_display s))
          \<lparr> sn_stop_grace_period := ss_stop_grace_period (svc_spec s),
            sn_desired := (case svc_startup_mode s of
                             StartupMode_Enabled \<Rightarrow> Desired_Enabled
                           | StartupMode_Disabled \<Rightarrow> Desired_Disabled) \<rparr>,
        svc_log_retention s)) services"

section \<open>Steps shared by the handlers\<close>

text \<open>\<^verbatim>\<open>if let Some(runtime) = self.services.get_mut(id)\<close>.\<close>

definition modify_runtime ::
  "service_id \<Rightarrow> (service_runtime \<Rightarrow> service_runtime) \<Rightarrow> scheduler \<Rightarrow> scheduler"
where
  "modify_runtime i f sc =
     (case im_get (sc_runtimes sc) i of
        None \<Rightarrow> sc
      | Some r \<Rightarrow> sc\<lparr> sc_runtimes := im_insert i (f r) (sc_runtimes sc) \<rparr>)"

definition sync :: "wake \<Rightarrow> service_id \<Rightarrow> scheduler \<Rightarrow> scheduler" where
  "sync wk i sc =
     (case (im_get (sc_services sc) i, im_get (sc_runtimes sc) i) of
        (Some s, Some r) \<Rightarrow> sc\<lparr> sc_model := sync_model (wk_now wk) s r (sc_model sc) \<rparr>
      | _ \<Rightarrow> sc)"

definition sync_all :: "wake \<Rightarrow> scheduler \<Rightarrow> scheduler" where
  "sync_all wk sc = fold (sync wk) (im_keys (sc_services sc)) sc"

definition write_event ::
  "session_config \<Rightarrow> wake \<Rightarrow> service_id \<Rightarrow> service_event \<Rightarrow> scheduler \<Rightarrow> scheduler"
where
  "write_event cf wk i ev sc =
     sc\<lparr> sc_model := append_event (cf_enc cf) (wk_unix wk) i ev (sc_model sc) \<rparr>"

definition generation_of :: "service_id \<Rightarrow> scheduler \<Rightarrow> u64" where
  "generation_of i sc =
     (case im_get (sc_runtimes sc) i of None \<Rightarrow> 0 | Some r \<Rightarrow> run_generation r)"

text \<open>\<^verbatim>\<open>SchedulerRuntime::append_event\<close>.\<close>

definition log_event ::
  "session_config \<Rightarrow> wake \<Rightarrow> service_id \<Rightarrow> service_event_kind \<Rightarrow> string \<Rightarrow> scheduler \<Rightarrow> scheduler"
where
  "log_event cf wk i kind detail sc =
     write_event cf wk i (service_event (wk_unix wk) (generation_of i sc) kind detail) sc"

datatype roster_entry_state =
    RosterEntryState_LiveConfigured
  | RosterEntryState_RetiredConfigured
  | RosterEntryState_LiveDynamic
  | RosterEntryState_RetiredDynamic

definition roster_entry_state :: "runtimes \<Rightarrow> service_id \<Rightarrow> service \<Rightarrow> roster_entry_state option" where
  "roster_entry_state rts i s =
     map_option
       (\<lambda>r. case (svc_origin s, is_retired r) of
              (ServiceOrigin_Configured, False) \<Rightarrow> RosterEntryState_LiveConfigured
            | (ServiceOrigin_Configured, True) \<Rightarrow> RosterEntryState_RetiredConfigured
            | (ServiceOrigin_Dynamic _, False) \<Rightarrow> RosterEntryState_LiveDynamic
            | (ServiceOrigin_Dynamic _, True) \<Rightarrow> RosterEntryState_RetiredDynamic)
       (im_get rts i)"

text \<open>
  Equality of definitions as \<^verbatim>\<open>derive(PartialEq)\<close> gives it: the environment is an \<^verbatim>\<open>IndexMap\<close>, whose
  equality ignores the order of its entries.
\<close>

definition same_environment :: "(string, string) imap \<Rightarrow> (string, string) imap \<Rightarrow> bool" where
  "same_environment a b \<longleftrightarrow>
     length a = length b \<and> list_all (\<lambda>(k, v). im_get b k = Some v) a"

definition same_spec :: "service_spec \<Rightarrow> service_spec \<Rightarrow> bool" where
  "same_spec a b \<longleftrightarrow>
     a\<lparr> ss_environment := [] \<rparr> = b\<lparr> ss_environment := [] \<rparr> \<and>
     same_environment (ss_environment a) (ss_environment b)"

end
