(* ===== verification/Dynamic.thy ===== *)
theory Dynamic
  imports Scheduler_State
begin

text \<open>
  Services created at run time (\<^verbatim>\<open>start_dynamic\<close>, \<^verbatim>\<open>replace_dynamic\<close>, \<^verbatim>\<open>stop_dynamic\<close>,
  \<^verbatim>\<open>renew_dynamic\<close>, \<^verbatim>\<open>expire_due\<close> and \<^verbatim>\<open>evict_retired\<close> of \<^verbatim>\<open>scheduler.rs\<close>): the policy, leases,
  revisions, the window of idempotent replies, and the bounded roster of retired services.
\<close>

section \<open>Roots\<close>

text \<open>Whether a canonical path lies under one of the roots the policy allows.\<close>

definition within_roots :: "filesystem \<Rightarrow> string list \<Rightarrow> string \<Rightarrow> bool" where
  "within_roots fs roots p \<longleftrightarrow>
     list_ex (\<lambda>root. case fs_canonicalize fs root of
                       Inl _ \<Rightarrow> False | Inr r \<Rightarrow> path_starts_with p r) roots"

section \<open>Checks\<close>

definition require_dynamic_enabled :: "session_config \<Rightarrow> command_rejection + unit" where
  "require_dynamic_enabled cf =
     ensure (dy_enabled (cf_policy cf))
       (CommandRejection_PolicyDenied
          ''set control.dynamic_services.enabled: true in micromux.yaml and restart the session'')"

definition retired_guidance :: "retired_reason \<Rightarrow> string" where
  "retired_guidance reason =
     (case reason of
        RetiredReason_Removed \<Rightarrow>
          ''the service was removed from micromux.yaml; re-add it and run reconcile_config to revive it''
      | _ \<Rightarrow> ''the dynamic service is retired; use replace_dynamic_service to revive it'')"

definition validate_service_id :: "service_id \<Rightarrow> command_rejection + unit" where
  "validate_service_id i =
     ensure (service_id_is_valid i)
       (CommandRejection_InvalidSpec
          (''service id '' @ quoted i @ '' must match [A-Za-z0-9._-]{1,64}''))"

definition request_digest ::
  "session_config \<Rightarrow> string \<Rightarrow> u64 option \<Rightarrow> dynamic_service_params \<Rightarrow> command_rejection + u64"
where
  "request_digest cf operation expected params =
     map_err (\<lambda>e. CommandRejection_InvalidSpec (''failed to encode request: '' @ e))
       (cf_digest cf operation expected params)"

definition dynamic_origin_of :: "service \<Rightarrow> command_rejection + dynamic_origin" where
  "dynamic_origin_of s =
     (case svc_origin s of
        ServiceOrigin_Dynamic origin \<Rightarrow> Inr origin
      | ServiceOrigin_Configured \<Rightarrow>
          Inl (CommandRejection_InvalidState ''the service is configured, not dynamic''))"

definition live_dynamic_count :: "service_map \<Rightarrow> runtimes \<Rightarrow> nat" where
  "live_dynamic_count services rts =
     length (filter (\<lambda>(i, s). roster_entry_state rts i s = Some RosterEntryState_LiveDynamic) services)"

definition require_dynamic_slot :: "session_config \<Rightarrow> scheduler \<Rightarrow> command_rejection + unit" where
  "require_dynamic_slot cf sc =
     (let live = live_dynamic_count (sc_services sc) (sc_runtimes sc);
          maximum = dy_max_services (cf_policy cf)
      in ensure (live < maximum)
           (CommandRejection_LimitExceeded
              (''control.dynamic_services.max_services is '' @ decimal maximum @ ''; '' @
               decimal live @ '' dynamic services are live'')))"

section \<open>Leases\<close>

definition effective_lifetime :: "duration option \<Rightarrow> lease option \<Rightarrow> duration option" where
  "effective_lifetime maximum requested =
     (case requested of
        Some (Lease_After d) \<Rightarrow> Some (case maximum of Some m \<Rightarrow> min d m | None \<Rightarrow> d)
      | _ \<Rightarrow> maximum)"

definition expiry_deadline :: "wake \<Rightarrow> duration \<Rightarrow> command_rejection + instant" where
  "expiry_deadline wk lifetime =
     ok_or (CommandRejection_InvalidSpec
              ''effective expires_after is too large for the monotonic clock'')
       (instant_checked_add (wk_now wk) lifetime)"

definition lease_deadlines ::
  "wake \<Rightarrow> duration option \<Rightarrow> command_rejection + instant option \<times> u64 option"
where
  "lease_deadlines wk lifetime =
     (case lifetime of
        None \<Rightarrow> Inr (None, None)
      | Some d \<Rightarrow>
          and_then (expiry_deadline wk d) (\<lambda>deadline.
            let ms = (case u64_try_from (as_millis d) of None \<Rightarrow> U64_MAX | Some ms \<Rightarrow> ms)
            in Inr (Some deadline, Some (u64_saturating_add (unix_or_default wk) ms))))"

definition lease_detail :: "u64 option \<Rightarrow> string" where
  "lease_detail expires =
     (case expires of
        None \<Rightarrow> ''lease is unbounded'' | Some t \<Rightarrow> ''lease expires at '' @ show_u64 t)"

section \<open>Idempotent replies\<close>

definition IDEMPOTENCY_WINDOW :: usize where
  "IDEMPOTENCY_WINDOW = 64"

definition dynamic_revision :: "service_map \<Rightarrow> service_id \<Rightarrow> u64 option" where
  "dynamic_revision services i =
     (case im_get services i of
        None \<Rightarrow> None
      | Some s \<Rightarrow>
          (case svc_origin s of
             ServiceOrigin_Configured \<Rightarrow> None
           | ServiceOrigin_Dynamic origin \<Rightarrow> Some (do_revision origin)))"

definition replay_idempotent ::
  "string option \<Rightarrow> u64 \<Rightarrow> scheduler \<Rightarrow> command_rejection + dynamic_service_ack option"
where
  "replay_idempotent key digest sc =
     (case key of
        None \<Rightarrow> Inr None
      | Some k \<Rightarrow>
          (case List.find (\<lambda>rec. id_key rec = k) (sc_idempotency sc) of
             None \<Rightarrow> Inr None
           | Some rec \<Rightarrow>
               if id_digest rec \<noteq> digest
               then Inl (CommandRejection_PolicyDenied
                           ''idempotency key reused with a different request'')
               else if dynamic_revision (sc_services sc) (id_service rec) \<noteq> Some (id_revision rec)
               then Inr None
               else Inr (Some ((id_ack rec)\<lparr> da_idempotent_replay := True \<rparr>))))"

definition remember ::
  "string option \<Rightarrow> u64 \<Rightarrow> dynamic_service_ack \<Rightarrow> idempotency_record list \<Rightarrow> idempotency_record list"
where
  "remember key digest ack window =
     (case key of
        None \<Rightarrow> window
      | Some k \<Rightarrow>
          pop_front_while (\<lambda>q. IDEMPOTENCY_WINDOW \<le> length q)
            (filter (\<lambda>rec. id_key rec \<noteq> k) window) @
          [\<lparr> id_key = k, id_digest = digest, id_service = da_service ack,
             id_revision = da_revision ack, id_ack = ack \<rparr>])"

definition remember_idempotent ::
  "string option \<Rightarrow> u64 \<Rightarrow> dynamic_service_ack \<Rightarrow> scheduler \<Rightarrow> scheduler"
where
  "remember_idempotent key digest ack sc =
     sc\<lparr> sc_idempotency := remember key digest ack (sc_idempotency sc) \<rparr>"

section \<open>From a request to a candidate\<close>

definition materialize_spec ::
  "session_config \<Rightarrow> wake \<Rightarrow> service_map \<Rightarrow> dynamic_service_params \<Rightarrow>
   command_rejection + service_spec \<times> duration option"
where
  "materialize_spec cf wk services params =
     and_then
       (case dp_from_service params of
          None \<Rightarrow> Inr service_spec_default
        | Some f \<Rightarrow>
            map_err (\<lambda>_. CommandRejection_InvalidSpec (''from_service '' @ quoted f @ '' does not exist''))
              (ok_or () (map_option svc_spec (im_get services f)))) (\<lambda>base.
     and_then (map_err (\<lambda>e. CommandRejection_InvalidSpec (spec_error_message e))
                 (normalize (apply_to (dp_spec params) base))) (\<lambda>spec.
     let spec = spec\<lparr> ss_command := ss_command spec @ dp_extra_args params \<rparr>;
         dir = (case ss_working_dir spec of None \<Rightarrow> cf_config_dir cf | Some d \<Rightarrow> d);
         dir = (if is_absolute dir then dir else path_join (cf_config_dir cf) dir)
     in and_then
          (map_err (\<lambda>e. CommandRejection_InvalidSpec
                          (''working directory '' @ quoted dir @ '' cannot be resolved: '' @ e))
             (fs_canonicalize (wk_fs wk) dir)) (\<lambda>dir.
        and_then
          (ensure (within_roots (wk_fs wk) (dy_allowed_working_roots (cf_policy cf)) dir)
             (CommandRejection_PolicyDenied
                (''working directory '' @ quoted dir @
                 '' is outside control.dynamic_services.allowed_working_roots''))) (\<lambda>_.
        Inr (spec\<lparr> ss_working_dir := Some dir \<rparr>,
             effective_lifetime (dy_max_lifetime (cf_policy cf)) (dp_expires_after params))))))"

definition validate_anchor :: "session_config \<Rightarrow> wake \<Rightarrow> service \<Rightarrow> command_rejection + unit" where
  "validate_anchor cf wk candidate =
     and_then
       (ok_or (CommandRejection_InvalidSpec ''dynamic service has no resolved working directory'')
          (spawn_working_directory (wk_fs wk) candidate)) (\<lambda>path.
     and_then
       (map_err (\<lambda>e. CommandRejection_InvalidSpec
                       (''anchored working directory '' @ quoted path @ '' cannot be resolved: '' @ e))
          (fs_canonicalize (wk_fs wk) path)) (\<lambda>dir.
     ensure (within_roots (wk_fs wk) (dy_allowed_working_roots (cf_policy cf)) dir)
       (CommandRejection_PolicyDenied
          (''anchored working directory '' @ quoted dir @
           '' is outside control.dynamic_services.allowed_working_roots''))))"

fun validate_dependencies ::
  "runtimes \<Rightarrow> service_id \<Rightarrow> dependency_spec list \<Rightarrow> command_rejection + unit"
where
  "validate_dependencies rts i [] = Inr ()"
| "validate_dependencies rts i (d # ds) =
     (if dep_service d = i
      then Inl (CommandRejection_InvalidSpec (''service '' @ quoted i @ '' cannot depend on itself''))
      else
        case im_get rts (dep_service d) of
          None \<Rightarrow> Inl (CommandRejection_InvalidSpec
                         (''service '' @ quoted i @ '' depends on unknown '' @ quoted (dep_service d)))
        | Some r \<Rightarrow>
            (case sr_retired r of
               Some reason \<Rightarrow>
                 Inl (CommandRejection_InvalidSpec
                        (''service '' @ quoted i @ '' depends on retired service '' @
                         quoted (dep_service d) @ ''; '' @ retired_guidance reason))
             | None \<Rightarrow> validate_dependencies rts i ds))"

definition validate_candidate ::
  "session_config \<Rightarrow> wake \<Rightarrow> scheduler \<Rightarrow> service \<Rightarrow> command_rejection + unit"
where
  "validate_candidate cf wk sc candidate =
     and_then (if is_dynamic_origin (svc_origin candidate) then validate_anchor cf wk candidate
               else Inr ()) (\<lambda>_.
     and_then (validate_dependencies (sc_runtimes sc) (svc_id candidate)
                 (ss_depends_on (svc_spec candidate))) (\<lambda>_.
     map_err (\<lambda>e. CommandRejection_InvalidSpec (graph_error_message e))
       (service_graph_new (cf_toposort cf)
          (im_insert (svc_id candidate) candidate (sc_services sc)))))"

section \<open>Operations\<close>

text \<open>The part of \<^verbatim>\<open>start_dynamic\<close> after the last check: the roster, the runtime and the model.\<close>

definition install_dynamic ::
  "session_config \<Rightarrow> wake \<Rightarrow> service \<Rightarrow> instant option \<Rightarrow> u64 option \<Rightarrow> scheduler \<Rightarrow> scheduler"
where
  "install_dynamic cf wk s expires_at expires_unix sc =
     (let i = svc_id s;
          r = request_enable ((runtime_new s)\<lparr> sr_expires_at := expires_at \<rparr>);
          snapshot = fst (project_snapshot (wk_now wk) s r)
      in log_event cf wk i ServiceEventKind_Created
           (''dynamic service created with revision 1; '' @ lease_detail expires_unix)
           (sc\<lparr> sc_services := im_insert i s (sc_services sc),
                sc_runtimes := im_insert i r (sc_runtimes sc),
                sc_model := insert_service snapshot (svc_log_retention s) (sc_model sc) \<rparr>))"

definition already_exists :: "service_id \<Rightarrow> scheduler \<Rightarrow> command_rejection + unit" where
  "already_exists i sc =
     (case im_get (sc_services sc) i of
        None \<Rightarrow> Inr ()
      | Some s \<Rightarrow>
          Inl (CommandRejection_InvalidSpec
                 (''service '' @ quoted i @ '' already exists'' @
                  (if roster_entry_state (sc_runtimes sc) i s = Some RosterEntryState_RetiredDynamic
                   then ''; use replace_dynamic_service to revive the retired entry''
                   else []))))"

text \<open>The part of \<^verbatim>\<open>start_dynamic\<close> after the check for a remembered reply.\<close>

definition start_new ::
  "session_config \<Rightarrow> wake \<Rightarrow> dynamic_service_params \<Rightarrow> u64 \<Rightarrow> scheduler \<Rightarrow>
   command_rejection + dynamic_service_ack \<times> scheduler"
where
  "start_new cf wk params digest sc =
     (let i = dp_service params in
      and_then (already_exists i sc) (\<lambda>_.
      and_then (require_dynamic_slot cf sc) (\<lambda>_.
      and_then (materialize_spec cf wk (sc_services sc) params) (\<lambda>(spec, lifetime).
      and_then (lease_deadlines wk lifetime) (\<lambda>(expires_at, expires_unix).
      and_then
        (map_err CommandRejection_InvalidSpec
           (service_dynamic (wk_fs wk) i spec
              (ServiceOrigin_Dynamic
                 \<lparr> do_created_at_unix_ms = unix_or_default wk,
                   do_expires_at_unix_ms = expires_unix, do_owner = dp_owner params,
                   do_revision = 1 \<rparr>)
              (cf_log_retention cf))) (\<lambda>s.
      and_then (validate_candidate cf wk sc s) (\<lambda>_.
      let ack = dynamic_service_ack_new i 1 0 expires_unix spec False False
      in Inr (ack, remember_idempotent (dp_idempotency_key params) digest ack
                     (install_dynamic cf wk s expires_at expires_unix sc)))))))))"

definition start_dynamic ::
  "session_config \<Rightarrow> wake \<Rightarrow> dynamic_service_params \<Rightarrow> scheduler \<Rightarrow>
   command_rejection + dynamic_service_ack \<times> scheduler"
where
  "start_dynamic cf wk params sc =
     and_then (require_dynamic_enabled cf) (\<lambda>_.
     and_then (validate_service_id (dp_service params)) (\<lambda>_.
     and_then (request_digest cf ''start'' None params) (\<lambda>digest.
     and_then (replay_idempotent (dp_idempotency_key params) digest sc) (\<lambda>replay.
     case replay of
       Some ack \<Rightarrow> Inr (ack, sc)
     | None \<Rightarrow> start_new cf wk params digest sc))))"

text \<open>The effect of \<^verbatim>\<open>replace_dynamic\<close> once the candidate is accepted.\<close>

definition replace_runtime ::
  "service_spec \<Rightarrow> instant option \<Rightarrow> service_runtime \<Rightarrow> service_runtime"
where
  "replace_runtime spec expires_at r =
     request_restart (runtime_reconfigure (ss_restart spec)
       (r\<lparr> sr_retired := None, sr_retired_at_unix_ms := None, sr_expires_at := expires_at \<rparr>))"

text \<open>The part of \<^verbatim>\<open>replace_dynamic\<close> after the check for a remembered reply.\<close>

definition replace_existing ::
  "session_config \<Rightarrow> wake \<Rightarrow> service_id \<Rightarrow> u64 \<Rightarrow> dynamic_service_params \<Rightarrow> u64 \<Rightarrow> scheduler \<Rightarrow>
   command_rejection + dynamic_service_ack \<times> scheduler"
where
  "replace_existing cf wk i expected params digest sc =
     and_then (ok_or CommandRejection_UnknownService (im_get (sc_services sc) i)) (\<lambda>current.
     and_then (dynamic_origin_of current) (\<lambda>origin.
     and_then
       (ensure (do_revision origin = expected)
          (CommandRejection_RevisionMismatch expected (do_revision origin))) (\<lambda>_.
     and_then
       (if roster_entry_state (sc_runtimes sc) i current = Some RosterEntryState_RetiredDynamic
        then require_dynamic_slot cf sc else Inr ()) (\<lambda>_.
     and_then
       (ok_or (CommandRejection_InvalidSpec
                 (''service '' @ quoted i @ '' has exhausted its revision counter''))
          (u64_checked_add (do_revision origin) 1)) (\<lambda>revision.
     and_then (materialize_spec cf wk (sc_services sc) params) (\<lambda>(spec, lifetime).
     and_then (lease_deadlines wk lifetime) (\<lambda>(expires_at, expires_unix).
     and_then (map_err CommandRejection_InvalidSpec (replace_spec (wk_fs wk) spec current)) (\<lambda>replaced.
     let candidate = replaced\<lparr> svc_origin := ServiceOrigin_Dynamic
           \<lparr> do_created_at_unix_ms = do_created_at_unix_ms origin,
             do_expires_at_unix_ms = expires_unix,
             do_owner = (case dp_owner params of None \<Rightarrow> do_owner origin | Some x \<Rightarrow> Some x),
             do_revision = revision \<rparr> \<rparr>
     in
     and_then (validate_candidate cf wk sc candidate) (\<lambda>_.
     and_then (ok_or CommandRejection_UnknownService (im_get (sc_runtimes sc) i)) (\<lambda>r.
     let sc' = sc\<lparr> sc_runtimes := im_insert i (replace_runtime spec expires_at r) (sc_runtimes sc),
                   sc_services := im_insert i candidate (sc_services sc) \<rparr>;
         sc' = log_event cf wk i ServiceEventKind_Replaced
                 (''dynamic service replaced with revision '' @ show_u64 revision @ ''; '' @
                  lease_detail expires_unix) (sync wk i sc');
         ack = dynamic_service_ack_new i revision (run_generation r) expires_unix spec False False
     in Inr (ack, remember_idempotent (dp_idempotency_key params) digest ack sc')))))))))))"

definition replace_dynamic ::
  "session_config \<Rightarrow> wake \<Rightarrow> service_id \<Rightarrow> u64 \<Rightarrow> dynamic_service_params \<Rightarrow> scheduler \<Rightarrow>
   command_rejection + dynamic_service_ack \<times> scheduler"
where
  "replace_dynamic cf wk i expected params sc =
     and_then (require_dynamic_enabled cf) (\<lambda>_.
     and_then
       (ensure (dp_service params = i)
          (CommandRejection_InvalidSpec
             (''params.service '' @ quoted (dp_service params) @ '' does not match target '' @ quoted i))) (\<lambda>_.
     and_then (request_digest cf ''replace'' (Some expected) params) (\<lambda>digest.
     and_then (replay_idempotent (dp_idempotency_key params) digest sc) (\<lambda>replay.
     case replay of
       Some ack \<Rightarrow> Inr (ack, sc)
     | None \<Rightarrow> replace_existing cf wk i expected params digest sc))))"

text \<open>How a service is retired, by \<^verbatim>\<open>stop_dynamic\<close>, \<^verbatim>\<open>expire_due\<close> and the removal from the configuration.\<close>

definition retire_runtime :: "wake \<Rightarrow> retired_reason \<Rightarrow> service_runtime \<Rightarrow> service_runtime" where
  "retire_runtime wk reason r =
     (runtime_disable r)\<lparr> sr_retired := Some reason, sr_retired_at_unix_ms := wk_unix wk,
                          sr_expires_at := None \<rparr>"

definition stop_dynamic ::
  "session_config \<Rightarrow> wake \<Rightarrow> service_id \<Rightarrow> scheduler \<Rightarrow>
   command_rejection + dynamic_service_ack \<times> scheduler"
where
  "stop_dynamic cf wk i sc =
     and_then (require_dynamic_enabled cf) (\<lambda>_.
     and_then (ok_or CommandRejection_UnknownService (im_get (sc_services sc) i)) (\<lambda>s.
     and_then (dynamic_origin_of s) (\<lambda>origin.
     and_then (ok_or CommandRejection_UnknownService (im_get (sc_runtimes sc) i)) (\<lambda>r.
     Inr (dynamic_service_ack_new i (do_revision origin) (run_generation r)
            (do_expires_at_unix_ms origin) (svc_spec s) (is_retired r) False,
          if is_retired r then sc
          else log_event cf wk i ServiceEventKind_Retired
                 ''dynamic service retired because stop was requested''
                 (sync wk i (modify_runtime i (retire_runtime wk RetiredReason_Stopped) sc)))))))"

definition renew_dynamic ::
  "session_config \<Rightarrow> wake \<Rightarrow> service_id \<Rightarrow> u64 \<Rightarrow> lease option \<Rightarrow> scheduler \<Rightarrow>
   command_rejection + dynamic_service_ack \<times> scheduler"
where
  "renew_dynamic cf wk i expected expires_after sc =
     and_then (require_dynamic_enabled cf) (\<lambda>_.
     and_then (ok_or CommandRejection_UnknownService (im_get (sc_services sc) i)) (\<lambda>s.
     and_then (dynamic_origin_of s) (\<lambda>origin.
     and_then
       (ensure (do_revision origin = expected)
          (CommandRejection_RevisionMismatch expected (do_revision origin))) (\<lambda>_.
     and_then (ok_or CommandRejection_UnknownService (im_get (sc_runtimes sc) i)) (\<lambda>r.
     and_then
       (ensure (is_live r)
          (CommandRejection_InvalidState
             ''the dynamic service is retired; use replace_dynamic_service to revive it'')) (\<lambda>_.
     and_then
       (lease_deadlines wk (effective_lifetime (dy_max_lifetime (cf_policy cf)) expires_after))
       (\<lambda>(expires_at, expires_unix).
     let sc' = modify_runtime i (\<lambda>r. r\<lparr> sr_expires_at := expires_at \<rparr>) sc;
         s' = s\<lparr> svc_origin := ServiceOrigin_Dynamic (origin\<lparr> do_expires_at_unix_ms := expires_unix \<rparr>) \<rparr>;
         sc' = sc'\<lparr> sc_services := im_insert i s' (sc_services sc') \<rparr>
     in Inr (dynamic_service_ack_new i (do_revision origin) (run_generation r) expires_unix
               (svc_spec s) False False,
             log_event cf wk i ServiceEventKind_LeaseRenewed
               (''dynamic service lease renewed; '' @ lease_detail expires_unix) (sync wk i sc')))))))))"

section \<open>Expiry and eviction\<close>

definition expired :: "instant \<Rightarrow> service_runtime \<Rightarrow> bool" where
  "expired now r \<longleftrightarrow>
     is_live r \<and> (case sr_expires_at r of None \<Rightarrow> False | Some deadline \<Rightarrow> deadline \<le> now)"

definition expire_service :: "session_config \<Rightarrow> wake \<Rightarrow> service_id \<Rightarrow> scheduler \<Rightarrow> scheduler" where
  "expire_service cf wk i sc =
     log_event cf wk i ServiceEventKind_Retired ''dynamic service retired because its lease expired''
       (sync wk i (modify_runtime i (retire_runtime wk RetiredReason_Expired) sc))"

definition expire_due :: "session_config \<Rightarrow> wake \<Rightarrow> scheduler \<Rightarrow> bool \<times> scheduler" where
  "expire_due cf wk sc =
     (let due = im_keys (filter (\<lambda>(i, r). expired (wk_now wk) r) (sc_runtimes sc))
      in (due \<noteq> [], fold (expire_service cf wk) due sc))"

definition next_expiry :: "scheduler \<Rightarrow> instant option" where
  "next_expiry sc =
     (case List.map_filter (\<lambda>(i, r). if is_live r then sr_expires_at r else None) (sc_runtimes sc) of
        [] \<Rightarrow> None
      | t # ts \<Rightarrow> Some (fold min ts t))"

definition MAX_RETIRED_SERVICES :: usize where
  "MAX_RETIRED_SERVICES = 8"

definition retired_count :: "runtimes \<Rightarrow> nat" where
  "retired_count rts = length (filter (\<lambda>(i, r). is_retired r) rts)"

definition depended_on :: "service_map \<Rightarrow> service_id list" where
  "depended_on services = concat (map (\<lambda>(i, s). depends_on_ids s) services)"

definition evictable :: "service_map \<Rightarrow> service_id \<Rightarrow> service_runtime \<Rightarrow> bool" where
  "evictable services i r \<longleftrightarrow>
     is_retired r \<and> sr_running r = None \<and> sr_draining_log_readers r = [] \<and>
     i \<notin> set (depended_on services)"

text \<open>The candidates with their retirement time, and the smallest pair.\<close>

definition eviction_candidates :: "service_map \<Rightarrow> runtimes \<Rightarrow> (u64 \<times> service_id) list" where
  "eviction_candidates services rts =
     List.map_filter
       (\<lambda>(i, s). case im_get rts i of
            None \<Rightarrow> None
          | Some r \<Rightarrow>
              if evictable services i r
              then Some (case sr_retired_at_unix_ms r of None \<Rightarrow> 0 | Some t \<Rightarrow> t, i) else None)
       services"

definition older :: "u64 \<times> service_id \<Rightarrow> u64 \<times> service_id \<Rightarrow> u64 \<times> service_id" where
  "older x y =
     (if fst x < fst y \<or> (fst x = fst y \<and> snd x \<le> snd y) then x else y)"

definition eviction_candidate :: "service_map \<Rightarrow> runtimes \<Rightarrow> service_id option" where
  "eviction_candidate services rts =
     (case eviction_candidates services rts of
        [] \<Rightarrow> None | c # cs \<Rightarrow> Some (snd (fold older cs c)))"

definition remove_entry :: "session_config \<Rightarrow> service_id \<Rightarrow> scheduler \<Rightarrow> scheduler" where
  "remove_entry cf i sc =
     sc\<lparr> sc_runtimes := im_remove i (sc_runtimes sc),
         sc_services := im_remove i (sc_services sc),
         sc_model := remove_service (cf_enc cf) i (sc_model sc) \<rparr>"

lemma fold_older_in: "fold older cs c \<in> set (c # cs)"
  by (induction cs arbitrary: c) (auto simp: older_def)

lemma eviction_candidateD:
  assumes "eviction_candidate services rts = Some i"
  shows "\<exists>r. im_get rts i = Some r \<and> evictable services i r"
proof -
  obtain c cs where c: "eviction_candidates services rts = c # cs" "i = snd (fold older cs c)"
    using assms by (auto simp: eviction_candidate_def split: list.splits)
  have "fold older cs c \<in> set (eviction_candidates services rts)"
    using fold_older_in [of cs c] c(1) by simp
  then show ?thesis
    using c(2) by (auto simp: eviction_candidates_def map_filter_def split: option.splits if_splits)
qed

function evict_retired :: "session_config \<Rightarrow> scheduler \<Rightarrow> scheduler" where
  "evict_retired cf sc =
     (if retired_count (sc_runtimes sc) \<le> MAX_RETIRED_SERVICES then sc
      else
        case eviction_candidate (sc_services sc) (sc_runtimes sc) of
          None \<Rightarrow> sc
        | Some i \<Rightarrow> evict_retired cf (remove_entry cf i sc))"
  by pat_completeness auto

lemma length_im_remove: "im_get m k \<noteq> None \<Longrightarrow> length (im_remove k m) < length m"
  by (induction m) (auto simp: AList.delete_eq le_imp_less_Suc)

termination evict_retired
proof (relation "measure (\<lambda>(cf, sc). length (sc_runtimes sc))")
  fix cf and sc :: scheduler and i
  assume "eviction_candidate (sc_services sc) (sc_runtimes sc) = Some i"
  then have "im_get (sc_runtimes sc) i \<noteq> None" using eviction_candidateD by fastforce
  then show "((cf, remove_entry cf i sc), cf, sc) \<in> measure (\<lambda>(cf, sc). length (sc_runtimes sc))"
    by (simp add: remove_entry_def length_im_remove)
qed simp

declare evict_retired.simps [simp del]

end
