(* ===== verification/Events.thy ===== *)
theory Events
  imports Dynamic
begin

text \<open>
  Process events, discarded terminal input, the timers of the scheduler task and its shutdown
  (\<^verbatim>\<open>handle_event\<close>, \<^verbatim>\<open>record_input_drop\<close>, \<^verbatim>\<open>next_backoff\<close>, \<^verbatim>\<open>drain_on_shutdown\<close> of
  \<^verbatim>\<open>scheduler.rs\<close>, \<^verbatim>\<open>ProcessEvent\<close> of \<^verbatim>\<open>scheduler/types.rs\<close>).
\<close>

section \<open>Process events\<close>

datatype process_event =
    ProcessEvent_Killed service_id run_id
  | ProcessEvent_Exited service_id run_id i32
  | ProcessEvent_LogReaderFinished service_id run_id
  | ProcessEvent_Healthy service_id run_id
  | ProcessEvent_Unhealthy service_id run_id
  | ProcessEvent_InputDropped service_id run_id string string

fun event_service_id :: "process_event \<Rightarrow> service_id" where
  "event_service_id (ProcessEvent_Killed i _) = i"
| "event_service_id (ProcessEvent_Exited i _ _) = i"
| "event_service_id (ProcessEvent_LogReaderFinished i _) = i"
| "event_service_id (ProcessEvent_Healthy i _) = i"
| "event_service_id (ProcessEvent_Unhealthy i _) = i"
| "event_service_id (ProcessEvent_InputDropped i _ _ _) = i"

fun event_run_id :: "process_event \<Rightarrow> run_id" where
  "event_run_id (ProcessEvent_Killed _ n) = n"
| "event_run_id (ProcessEvent_Exited _ n _) = n"
| "event_run_id (ProcessEvent_LogReaderFinished _ n) = n"
| "event_run_id (ProcessEvent_Healthy _ n) = n"
| "event_run_id (ProcessEvent_Unhealthy _ n) = n"
| "event_run_id (ProcessEvent_InputDropped _ n _ _) = n"

section \<open>Discarded input\<close>

definition record_input_drop ::
  "session_config \<Rightarrow> wake \<Rightarrow> service_id \<Rightarrow> string \<Rightarrow> string \<Rightarrow> scheduler \<Rightarrow> scheduler"
where
  "record_input_drop cf wk i kind reason sc =
     (case im_get (sc_runtimes sc) i of
        None \<Rightarrow> sc
      | Some r \<Rightarrow>
          (let (report, t) = throttle_record (wk_now wk) (sr_input_drops r);
               sc = modify_runtime i (\<lambda>r. r\<lparr> sr_input_drops := t \<rparr>) sc
           in if \<not> report then sc
              else log_event cf wk i ServiceEventKind_InputDropped
                     (''terminal '' @ kind @ '' discarded: '' @ reason) sc))"

definition running_pty :: "service_id \<Rightarrow> scheduler \<Rightarrow> pty_input_drop + pty_handles" where
  "running_pty i sc =
     (case im_get (sc_runtimes sc) i of
        None \<Rightarrow> Inl PtyInputDrop_WriterStopped
      | Some r \<Rightarrow> ok_or PtyInputDrop_WriterStopped (map_option rs_pty (sr_running r)))"

definition set_pty :: "pty_handles \<Rightarrow> service_runtime \<Rightarrow> service_runtime" where
  "set_pty h r = r\<lparr> sr_running := map_option (\<lambda>running. running\<lparr> rs_pty := h \<rparr>) (sr_running r) \<rparr>"

text \<open>The arm of \<^verbatim>\<open>run\<close> that takes a payload from the input channel.\<close>

definition handle_input ::
  "session_config \<Rightarrow> wake \<Rightarrow> prepared_pty_input \<Rightarrow> scheduler \<Rightarrow> scheduler"
where
  "handle_input cf wk input sc =
     (let i = pi_service_id input
      in case and_then (running_pty i sc) (write_input input) of
           Inr h \<Rightarrow> modify_runtime i (set_pty h) sc
         | Inl e \<Rightarrow> record_input_drop cf wk i (kind_as_str (pi_kind input)) (pty_input_drop_message e) sc)"

definition next_input_drop_report :: "scheduler \<Rightarrow> instant option" where
  "next_input_drop_report sc =
     (case List.map_filter (\<lambda>(i, r). idt_report_at (sr_input_drops r)) (sc_runtimes sc) of
        [] \<Rightarrow> None | t # ts \<Rightarrow> Some (fold min ts t))"

text \<open>First every throttle is read, then the reports are written.\<close>

definition due_drop_reports :: "wake \<Rightarrow> runtimes \<Rightarrow> (service_id \<times> usize) list" where
  "due_drop_reports wk rts =
     List.map_filter
       (\<lambda>(i, r). map_option (\<lambda>n. (i, n)) (fst (throttle_take_due (wk_now wk) (sr_input_drops r)))) rts"

definition dropped_detail :: "usize \<Rightarrow> string" where
  "dropped_detail n =
     decimal n @ '' additional terminal input '' @
     (if n = 1 then ''batch was'' else ''batches were'') @ '' discarded''"

definition report_due_input_drops :: "session_config \<Rightarrow> wake \<Rightarrow> scheduler \<Rightarrow> scheduler" where
  "report_due_input_drops cf wk sc =
     (let due = due_drop_reports wk (sc_runtimes sc);
          take = (\<lambda>r. r\<lparr> sr_input_drops := snd (throttle_take_due (wk_now wk) (sr_input_drops r)) \<rparr>);
          sc = sc\<lparr> sc_runtimes := map (\<lambda>(i, r). (i, take r)) (sc_runtimes sc) \<rparr>
      in fold (\<lambda>(i, n). log_event cf wk i ServiceEventKind_InputDropped (dropped_detail n)) due sc)"

section \<open>Handlers\<close>

definition handle_health_event ::
  "session_config \<Rightarrow> wake \<Rightarrow> service_id \<Rightarrow> health \<Rightarrow> service_event_kind \<Rightarrow> string \<Rightarrow>
   scheduler \<Rightarrow> bool \<times> scheduler"
where
  "handle_health_event cf wk i h kind detail sc =
     (let changed = (case im_get (sc_runtimes sc) i of
                       None \<Rightarrow> False | Some r \<Rightarrow> fst (mark_health h r));
          sc = sync wk i (modify_runtime i (\<lambda>r. snd (mark_health h r)) sc)
      in (True, if changed then log_event cf wk i kind detail sc else sc))"

definition exited_detail :: "i32 \<Rightarrow> string" where
  "exited_detail code = ''service process exited with code '' @ show_i32 code"

definition handle_exit_event ::
  "session_config \<Rightarrow> wake \<Rightarrow> service_id \<Rightarrow> run_id \<Rightarrow> i32 \<Rightarrow> scheduler \<Rightarrow> bool \<times> scheduler"
where
  "handle_exit_event cf wk i rid code sc =
     (let sc = (case im_get (sc_services sc) i of
                  None \<Rightarrow> sc
                | Some s \<Rightarrow>
                    modify_runtime i
                      (finish_current_run (wk_now wk) (ss_restart (svc_spec s)) code) sc);
          sc = sync wk i sc;
          sc = write_event cf wk i
                 ((service_event (wk_unix wk) rid ServiceEventKind_Exited (exited_detail code))
                    \<lparr> se_exit_code := Some code \<rparr>) sc
      in (True,
          case Option.bind (im_get (sc_runtimes sc) i)
                 (\<lambda>r. if rt_backoff_until (sr_restart r) = None then None
                      else rt_backoff_delay (sr_restart r)) of
            None \<Rightarrow> sc
          | Some delay \<Rightarrow> write_event cf wk i (backoff_event (wk_unix wk) rid delay) sc))"

text \<open>Whether an event is about the live run, a parked reader, or input of the run that ended last.\<close>

definition event_relevant :: "process_event \<Rightarrow> service_runtime \<Rightarrow> bool" where
  "event_relevant ev r \<longleftrightarrow>
     current_run_id r = Some (event_run_id ev) \<or>
     (case ev of
        ProcessEvent_LogReaderFinished _ rid \<Rightarrow>
          list_ex (\<lambda>d. dr_run_id d = rid) (sr_draining_log_readers r)
      | ProcessEvent_InputDropped _ rid _ _ \<Rightarrow>
          current_run_id r = None \<and> sr_last_run_id r = Some rid
      | _ \<Rightarrow> False)"

definition handle_event ::
  "session_config \<Rightarrow> wake \<Rightarrow> process_event \<Rightarrow> scheduler \<Rightarrow> bool \<times> scheduler"
where
  "handle_event cf wk ev sc =
     (let i = event_service_id ev
      in case im_get (sc_runtimes sc) i of
           None \<Rightarrow> (False, sc)
         | Some r \<Rightarrow>
             if \<not> event_relevant ev r then (False, sc)
             else
               (case ev of
                  ProcessEvent_Healthy _ _ \<Rightarrow>
                    handle_health_event cf wk i Health_Healthy ServiceEventKind_Healthy
                      ''service became healthy'' sc
                | ProcessEvent_Unhealthy _ _ \<Rightarrow>
                    handle_health_event cf wk i Health_Unhealthy ServiceEventKind_Unhealthy
                      ''service became unhealthy'' sc
                | ProcessEvent_Killed _ _ \<Rightarrow> (True, sync wk i (modify_runtime i mark_killed sc))
                | ProcessEvent_Exited _ rid code \<Rightarrow> handle_exit_event cf wk i rid code sc
                | ProcessEvent_LogReaderFinished _ rid \<Rightarrow>
                    (False, modify_runtime i (finish_log_reader rid) sc)
                | ProcessEvent_InputDropped _ _ kind reason \<Rightarrow>
                    (False, record_input_drop cf wk i kind reason sc)))"

section \<open>Timers\<close>

definition next_drain_deadline :: "scheduler \<Rightarrow> instant option" where
  "next_drain_deadline sc =
     (case List.map_filter dr_cancel_at
             (concat (map (\<lambda>(i, r). sr_draining_log_readers r) (sc_runtimes sc))) of
        [] \<Rightarrow> None | t # ts \<Rightarrow> Some (fold min ts t))"

definition cancel_due_drains :: "wake \<Rightarrow> scheduler \<Rightarrow> scheduler" where
  "cancel_due_drains wk sc =
     sc\<lparr> sc_runtimes :=
           map (\<lambda>(i, r). (i, runtime_cancel_due_drains (wk_now wk) r)) (sc_runtimes sc) \<rparr>"

definition next_backoff :: "wake \<Rightarrow> scheduler \<Rightarrow> instant option" where
  "next_backoff wk sc =
     (case filter (\<lambda>deadline. wk_now wk < deadline)
             (List.map_filter (\<lambda>(i, r). rt_backoff_until (sr_restart r)) (sc_runtimes sc)) of
        [] \<Rightarrow> None | t # ts \<Rightarrow> Some (fold min ts t))"

section \<open>Shutdown\<close>

definition running_count :: "runtimes \<Rightarrow> nat" where
  "running_count rts = length (filter (\<lambda>(i, r). sr_running r \<noteq> None) rts)"

definition cancel_all_running :: "scheduler \<Rightarrow> scheduler" where
  "cancel_all_running sc =
     sc\<lparr> sc_runtimes :=
           map (\<lambda>(i, r). (i, r\<lparr> sr_running := map_option running_cancel (sr_running r) \<rparr>))
             (sc_runtimes sc) \<rparr>"

definition PTY_HANGUP_AFTER_ESCALATION :: duration where
  "PTY_HANGUP_AFTER_ESCALATION = from_secs 2"

definition HEALTH_TASK_STOP_TIMEOUT :: duration where
  "HEALTH_TASK_STOP_TIMEOUT = from_secs 2"

definition max_stop_grace :: "runtimes \<Rightarrow> duration" where
  "max_stop_grace rts =
     (case List.map_filter
             (\<lambda>(i, r). if sr_running r = None then None
                       else map_option rc_stop_grace_period (sr_run_config r)) rts of
        [] \<Rightarrow> DEFAULT_STOP_GRACE_PERIOD | d # ds \<Rightarrow> fold max ds d)"

definition drain_deadline :: "instant \<Rightarrow> runtimes \<Rightarrow> instant" where
  "drain_deadline now rts =
     (let budget = max_stop_grace rts + PTY_HANGUP_AFTER_ESCALATION + HEALTH_TASK_STOP_TIMEOUT +
                   from_secs 2
      in case instant_checked_add now budget of None \<Rightarrow> now | Some t \<Rightarrow> t)"

text \<open>
  The drain takes events until nothing runs, the deadline passes or the channel closes: the events
  are those that arrive before the deadline, with the clock at which each is handled.
\<close>

fun drain_events ::
  "session_config \<Rightarrow> (wake \<times> process_event) list \<Rightarrow> scheduler \<Rightarrow> scheduler"
where
  "drain_events cf [] sc = sc"
| "drain_events cf ((wk, ev) # evs) sc =
     (if running_count (sc_runtimes sc) = 0 then sc
      else drain_events cf evs (snd (handle_event cf wk ev sc)))"

definition drain_on_shutdown ::
  "session_config \<Rightarrow> instant \<Rightarrow> (wake \<times> process_event) list \<Rightarrow> scheduler \<Rightarrow> scheduler"
where
  "drain_on_shutdown cf now evs sc =
     (if running_count (sc_runtimes sc) = 0 then sc
      else drain_events cf
             (takeWhile (\<lambda>(wk, ev). wk_now wk < drain_deadline now (sc_runtimes sc)) evs) sc)"

end
