(* ===== verification/Reconcile.thy ===== *)
theory Reconcile
  imports Events
begin

text \<open>
  Configuration changes while the session runs: the reload before a restart, which never adds or
  removes services, and the explicit reconciliation, which does (\<^verbatim>\<open>load_services_from_disk\<close>,
  \<^verbatim>\<open>validate_reloaded_services\<close>, \<^verbatim>\<open>reload_services\<close>, \<^verbatim>\<open>reconcile_actions\<close>,
  \<^verbatim>\<open>validate_reconcile_candidate\<close>, \<^verbatim>\<open>apply_reconcile\<close> and \<^verbatim>\<open>reconcile_config\<close> of \<^verbatim>\<open>scheduler.rs\<close>).
\<close>

section \<open>Loading\<close>

text \<open>
  The end of \<^verbatim>\<open>load_services_from_disk\<close>: what the configuration parser read, or the text of its
  error, goes through the dependency check.
\<close>

definition load_services :: "session_config \<Rightarrow> string \<Rightarrow> string + service_map \<Rightarrow> string + service_map" where
  "load_services cf path parsed =
     and_then parsed (\<lambda>services.
     and_then
       (map_err (\<lambda>e. ''validate '' @ path @ '': '' @ graph_error_message e)
          (service_graph_new (cf_toposort cf) services)) (\<lambda>_.
     Inr services))"

text \<open>
  A load that is under way: process events are handled until it completes or the session is asked to
  shut down.
\<close>

datatype load =
    Load_Finished "(wake \<times> process_event) list" "string + service_map"
  | Load_Interrupted "(wake \<times> process_event) list"

definition handle_events ::
  "session_config \<Rightarrow> (wake \<times> process_event) list \<Rightarrow> scheduler \<Rightarrow> scheduler"
where
  "handle_events cf evs sc = fold (\<lambda>(wk, ev) sc. snd (handle_event cf wk ev sc)) evs sc"

definition interrupted :: string where
  "interrupted = ''config reload interrupted by session shutdown''"

definition await_loaded_services ::
  "session_config \<Rightarrow> string \<Rightarrow> load \<Rightarrow> scheduler \<Rightarrow> (string + service_map) \<times> scheduler"
where
  "await_loaded_services cf path ld sc =
     (if sc_shutdown sc then (Inl interrupted, sc)
      else
        case ld of
          Load_Finished evs parsed \<Rightarrow> (load_services cf path parsed, handle_events cf evs sc)
        | Load_Interrupted evs \<Rightarrow>
            (Inl interrupted, (handle_events cf evs sc)\<lparr> sc_shutdown := True \<rparr>))"

section \<open>Reload\<close>

definition live_configured :: "runtimes \<Rightarrow> service_id \<times> service \<Rightarrow> bool" where
  "live_configured rts = (\<lambda>(i, s). roster_entry_state rts i s = Some RosterEntryState_LiveConfigured)"

definition is_dynamic_in :: "service_map \<Rightarrow> service_id \<Rightarrow> bool" where
  "is_dynamic_in services i =
     (case im_get services i of None \<Rightarrow> False | Some s \<Rightarrow> is_dynamic_origin (svc_origin s))"

definition validate_reloaded_services ::
  "service_map \<Rightarrow> runtimes \<Rightarrow> service_map \<Rightarrow> string + unit"
where
  "validate_reloaded_services current rts updated =
     (case List.find (is_dynamic_in current) (im_keys updated) of
        Some i \<Rightarrow>
          Inl (quoted i @ '' exists as a dynamic service in this session; rename it or restart the '' @
               ''session to discard dynamic entries'')
      | None \<Rightarrow>
          (let configured = im_keys (filter (live_configured rts) current);
               missing = filter (\<lambda>i. \<not> im_contains updated i) configured;
               added = filter (\<lambda>i. i \<notin> set configured) (im_keys updated)
           in if missing = [] \<and> added = [] then Inr ()
              else if added = [] then
                Inl (''config reload cannot remove services while the session is running: '' @
                     join_with '', '' missing)
              else if missing = [] then
                Inl (''config reload cannot add services while the session is running; use '' @
                     ''reconcile_config: '' @ join_with '', '' added)
              else
                Inl (''config reload cannot add/remove services while the session is running; use '' @
                     ''reconcile_config; removed: '' @ join_with '', '' missing @
                     ''; added: '' @ join_with '', '' added)))"

text \<open>Services that a reload keeps as they are: dynamic ones and retired ones.\<close>

definition kept_by_reload :: "runtimes \<Rightarrow> service_id \<times> service \<Rightarrow> bool" where
  "kept_by_reload rts = (\<lambda>(i, s).
     roster_entry_state rts i s \<in>
       {Some RosterEntryState_RetiredConfigured, Some RosterEntryState_LiveDynamic,
        Some RosterEntryState_RetiredDynamic})"

definition merge_reloaded :: "service_map \<Rightarrow> runtimes \<Rightarrow> service_map \<Rightarrow> service_map" where
  "merge_reloaded services rts updated =
     fold (\<lambda>(i, s). im_insert i s) (filter (kept_by_reload rts) services) updated"

definition changed_by_reload :: "service_map \<Rightarrow> runtimes \<Rightarrow> service_map \<Rightarrow> service_id list" where
  "changed_by_reload services rts merged =
     List.map_filter
       (\<lambda>(i, s). case im_get merged i of
            None \<Rightarrow> None
          | Some u \<Rightarrow> if same_spec (svc_spec u) (svc_spec s) then None else Some i)
       (filter (live_configured rts) services)"

text \<open>One configured service takes over its new policy and retention.\<close>

definition reconfigure_service ::
  "session_config \<Rightarrow> service_map \<Rightarrow> service_id \<Rightarrow> scheduler \<Rightarrow> scheduler"
where
  "reconfigure_service cf merged i sc =
     (case im_get merged i of
        None \<Rightarrow> sc
      | Some s \<Rightarrow>
          if is_dynamic_origin (svc_origin s) then sc
          else
            let sc = modify_runtime i (runtime_reconfigure (ss_restart (svc_spec s))) sc
            in sc\<lparr> sc_model :=
                     reconfigure_log_retention (cf_enc cf) i (svc_log_retention s) (sc_model sc) \<rparr>)"

definition apply_reload ::
  "session_config \<Rightarrow> wake \<Rightarrow> service_map \<Rightarrow> scheduler \<Rightarrow> scheduler"
where
  "apply_reload cf wk merged sc =
     (let changed = changed_by_reload (sc_services sc) (sc_runtimes sc) merged;
          sc = fold (reconfigure_service cf merged) (im_keys (sc_runtimes sc)) sc;
          sc = sync_all wk (sc\<lparr> sc_services := merged \<rparr>)
      in fold (\<lambda>i. log_event cf wk i ServiceEventKind_ConfigReloaded
                     (''reloaded changed service specs: '' @ join_with '', '' changed)) changed sc)"

definition reload_services ::
  "session_config \<Rightarrow> wake \<Rightarrow> load \<Rightarrow> scheduler \<Rightarrow> (command_rejection + unit) \<times> scheduler"
where
  "reload_services cf wk ld sc =
     (case cf_reload cf of
        None \<Rightarrow> (Inr (), sc)
      | Some path \<Rightarrow>
          (let (loaded, sc) = await_loaded_services cf path ld sc
           in case and_then (map_err CommandRejection_ConfigReload loaded) (\<lambda>updated.
                   and_then (map_err CommandRejection_ConfigReload
                      (validate_reloaded_services (sc_services sc) (sc_runtimes sc) updated)) (\<lambda>_.
                   let merged = merge_reloaded (sc_services sc) (sc_runtimes sc) updated
                   in and_then
                        (map_err (\<lambda>e. CommandRejection_ConfigReload (graph_error_message e))
                           (service_graph_new (cf_toposort cf) merged)) (\<lambda>_.
                      Inr merged))) of
                Inl e \<Rightarrow> (Inl e, sc)
              | Inr merged \<Rightarrow> (Inr (), apply_reload cf wk merged sc)))"

section \<open>Reconciliation\<close>

datatype reconcile_action_kind =
    ReconcileActionKind_Added
  | ReconcileActionKind_Removed
  | ReconcileActionKind_Changed

record reconcile_action =
  ra_service :: service_id
  ra_action :: reconcile_action_kind
  ra_detail :: string

record reconcile_receipt =
  rr_config_path :: string
  rr_dry_run :: bool
  rr_actions :: "reconcile_action list"

definition changed_parts :: "service \<Rightarrow> service \<Rightarrow> string list" where
  "changed_parts current updated =
     (if same_spec (svc_spec current) (svc_spec updated) then [] else [''service spec'']) @
     (if svc_startup_mode current = svc_startup_mode updated then [] else [''startup mode'']) @
     (if svc_log_retention current = svc_log_retention updated then [] else [''log retention'']) @
     (if svc_enable_color current = svc_enable_color updated then [] else [''color''])"

definition reconcile_updated ::
  "service_map \<Rightarrow> runtimes \<Rightarrow> service_id \<times> service \<Rightarrow> reconcile_action option"
where
  "reconcile_updated services rts = (\<lambda>(i, u).
     (case im_get services i of
        Some s \<Rightarrow>
          if live_configured rts (i, s)
          then if changed_parts s u = [] then None
               else Some \<lparr> ra_service = i, ra_action = ReconcileActionKind_Changed,
                           ra_detail = ''changed '' @ join_with '', '' (changed_parts s u) \<rparr>
          else Some \<lparr> ra_service = i, ra_action = ReconcileActionKind_Added,
                      ra_detail = ''configured service added'' \<rparr>
      | None \<Rightarrow> Some \<lparr> ra_service = i, ra_action = ReconcileActionKind_Added,
                       ra_detail = ''configured service added'' \<rparr>))"

definition reconcile_removed ::
  "service_map \<Rightarrow> runtimes \<Rightarrow> service_map \<Rightarrow> reconcile_action list"
where
  "reconcile_removed services rts updated =
     map (\<lambda>(i, s). \<lparr> ra_service = i, ra_action = ReconcileActionKind_Removed,
                     ra_detail = ''configured service removed'' \<rparr>)
       (filter (\<lambda>(i, s). live_configured rts (i, s) \<and> \<not> im_contains updated i) services)"

definition reconcile_actions ::
  "service_map \<Rightarrow> runtimes \<Rightarrow> service_map \<Rightarrow> reconcile_action list"
where
  "reconcile_actions services rts updated =
     sort_key ra_service
       (List.map_filter (reconcile_updated services rts) updated @
        reconcile_removed services rts updated)"

definition removed_services :: "reconcile_action list \<Rightarrow> service_id list" where
  "removed_services actions =
     map ra_service (filter (\<lambda>a. ra_action a = ReconcileActionKind_Removed) actions)"

text \<open>The roster the reconciliation would leave: the new services, the dynamic ones, the tombstones.\<close>

definition retained_by_reconcile ::
  "runtimes \<Rightarrow> service_map \<Rightarrow> reconcile_action list \<Rightarrow> service_id \<times> service \<Rightarrow> bool"
where
  "retained_by_reconcile rts updated actions = (\<lambda>(i, s).
     (let st = roster_entry_state rts i s
      in st \<in> {Some RosterEntryState_LiveDynamic, Some RosterEntryState_RetiredDynamic} \<or>
         i \<in> set (removed_services actions) \<or>
         (st = Some RosterEntryState_RetiredConfigured \<and> \<not> im_contains updated i)))"

definition reconcile_candidate ::
  "service_map \<Rightarrow> runtimes \<Rightarrow> service_map \<Rightarrow> reconcile_action list \<Rightarrow> service_map"
where
  "reconcile_candidate services rts updated actions =
     fold (\<lambda>(i, s). im_insert i s) (filter (retained_by_reconcile rts updated actions) services) updated"

definition orphaned_dependents ::
  "service_map \<Rightarrow> runtimes \<Rightarrow> reconcile_action list \<Rightarrow> service_id list"
where
  "orphaned_dependents services rts actions =
     sort (im_keys (filter
       (\<lambda>(i, s). roster_entry_state rts i s = Some RosterEntryState_LiveDynamic \<and>
                 list_ex (\<lambda>d. d \<in> set (removed_services actions)) (depends_on_ids s)) services))"

definition validate_reconcile_candidate ::
  "session_config \<Rightarrow> service_map \<Rightarrow> runtimes \<Rightarrow> service_map \<Rightarrow> reconcile_action list \<Rightarrow>
   command_rejection + unit"
where
  "validate_reconcile_candidate cf services rts updated actions =
     (case List.find (is_dynamic_in services) (im_keys updated) of
        Some i \<Rightarrow>
          Inl (CommandRejection_InvalidSpec
                 (''service '' @ quoted i @ '' exists as a live or retired dynamic service; stop it or '' @
                  ''rename the configured service''))
      | None \<Rightarrow>
          (case orphaned_dependents services rts actions of
             [] \<Rightarrow>
               map_err (\<lambda>e. CommandRejection_InvalidSpec (graph_error_message e))
                 (service_graph_new (cf_toposort cf)
                    (reconcile_candidate services rts updated actions))
           | d # ds \<Rightarrow>
               Inl (CommandRejection_InvalidSpec
                      (''cannot remove configured services while live dynamic services depend on '' @
                       ''them: '' @ join_with '', '' (d # ds)))))"

section \<open>Applying a reconciliation\<close>

definition revive_runtime :: "service \<Rightarrow> service_runtime \<Rightarrow> service_runtime" where
  "revive_runtime s r =
     (let r = runtime_reconfigure (ss_restart (svc_spec s))
                (r\<lparr> sr_retired := None, sr_retired_at_unix_ms := None, sr_expires_at := None \<rparr>)
      in case svc_startup_mode s of
           StartupMode_Enabled \<Rightarrow> request_restart r
         | StartupMode_Disabled \<Rightarrow> runtime_disable r)"

definition insert_definition :: "service_id \<Rightarrow> service \<Rightarrow> scheduler \<Rightarrow> scheduler" where
  "insert_definition i s sc = sc\<lparr> sc_services := im_insert i s (sc_services sc) \<rparr>"

definition set_retention :: "session_config \<Rightarrow> service_id \<Rightarrow> service \<Rightarrow> scheduler \<Rightarrow> scheduler" where
  "set_retention cf i s sc =
     sc\<lparr> sc_model := reconfigure_log_retention (cf_enc cf) i (svc_log_retention s) (sc_model sc) \<rparr>"

definition apply_added ::
  "session_config \<Rightarrow> wake \<Rightarrow> service_id \<Rightarrow> service \<Rightarrow> scheduler \<Rightarrow> scheduler"
where
  "apply_added cf wk i s sc =
     (let reviving = (case im_get (sc_services sc) i of
                        None \<Rightarrow> False
                      | Some current \<Rightarrow>
                          roster_entry_state (sc_runtimes sc) i current =
                            Some RosterEntryState_RetiredConfigured)
      in if reviving
         then log_event cf wk i ServiceEventKind_Created
                ''configured service revived by config reconciliation''
                (sync wk i (set_retention cf i s (insert_definition i s
                   (modify_runtime i (revive_runtime s) sc))))
         else
           let r = runtime_new s; snapshot = fst (project_snapshot (wk_now wk) s r)
           in log_event cf wk i ServiceEventKind_Created
                ''configured service added by config reconciliation''
                (sc\<lparr> sc_services := im_insert i s (sc_services sc),
                     sc_runtimes := im_insert i r (sc_runtimes sc),
                     sc_model := insert_service snapshot (svc_log_retention s) (sc_model sc) \<rparr>))"

definition apply_changed ::
  "session_config \<Rightarrow> wake \<Rightarrow> string \<Rightarrow> service_id \<Rightarrow> service \<Rightarrow> scheduler \<Rightarrow> scheduler"
where
  "apply_changed cf wk detail i s sc =
     log_event cf wk i ServiceEventKind_ConfigReloaded (''config reconciliation '' @ detail)
       (sync wk i (set_retention cf i s (insert_definition i s
          (modify_runtime i (runtime_reconfigure (ss_restart (svc_spec s))) sc))))"

definition apply_updated ::
  "session_config \<Rightarrow> wake \<Rightarrow> reconcile_action list \<Rightarrow> service_id \<times> service \<Rightarrow> scheduler \<Rightarrow> scheduler"
where
  "apply_updated cf wk actions = (\<lambda>(i, s) sc.
     (case List.find (\<lambda>a. ra_service a = i) (rev actions) of
        None \<Rightarrow> sc
      | Some a \<Rightarrow>
          (case ra_action a of
             ReconcileActionKind_Added \<Rightarrow> apply_added cf wk i s sc
           | ReconcileActionKind_Changed \<Rightarrow> apply_changed cf wk (ra_detail a) i s sc
           | ReconcileActionKind_Removed \<Rightarrow> sc)))"

definition apply_removed :: "session_config \<Rightarrow> wake \<Rightarrow> service_id \<Rightarrow> scheduler \<Rightarrow> scheduler" where
  "apply_removed cf wk i sc =
     log_event cf wk i ServiceEventKind_Retired
       ''configured service retired because it was removed by config reconciliation''
       (sync wk i (modify_runtime i (retire_runtime wk RetiredReason_Removed) sc))"

definition apply_reconcile ::
  "session_config \<Rightarrow> wake \<Rightarrow> service_map \<Rightarrow> reconcile_action list \<Rightarrow> scheduler \<Rightarrow> scheduler"
where
  "apply_reconcile cf wk updated actions sc =
     fold (apply_removed cf wk) (removed_services actions)
       (fold (apply_updated cf wk actions) updated sc)"

definition reconcile_config ::
  "session_config \<Rightarrow> wake \<Rightarrow> load \<Rightarrow> bool \<Rightarrow> scheduler \<Rightarrow>
   (command_rejection + reconcile_receipt) \<times> scheduler"
where
  "reconcile_config cf wk ld dry_run sc =
     (case cf_reload cf of
        None \<Rightarrow>
          (Inl (CommandRejection_ConfigReload
                  ''session has no config path; config reconciliation is unavailable''), sc)
      | Some path \<Rightarrow>
          (case await_loaded_services cf path ld sc of
             (Inl e, sc) \<Rightarrow> (Inl (CommandRejection_ConfigReload e), sc)
           | (Inr updated, sc) \<Rightarrow>
               (let actions = reconcile_actions (sc_services sc) (sc_runtimes sc) updated
                in case validate_reconcile_candidate cf (sc_services sc) (sc_runtimes sc) updated actions of
                     Inl e \<Rightarrow> (Inl e, sc)
                   | Inr _ \<Rightarrow>
                       (Inr \<lparr> rr_config_path = path, rr_dry_run = dry_run, rr_actions = actions \<rparr>,
                        if dry_run then sc else apply_reconcile cf wk updated actions sc))))"

end
