(* ===== verification/Commands.thy ===== *)
theory Commands
  imports Reconcile
begin

text \<open>
  The commands of a session (\<^verbatim>\<open>Command\<close> of \<^verbatim>\<open>scheduler/types.rs\<close>, \<^verbatim>\<open>handle_command\<close> of
  \<^verbatim>\<open>scheduler.rs\<close>), the scheduling pass with its reload, and the loop of the scheduler task.
\<close>

section \<open>Lifecycle commands\<close>

definition check_known :: "service_id \<Rightarrow> scheduler \<Rightarrow> command_rejection + service_runtime" where
  "check_known i sc = ok_or CommandRejection_UnknownService (im_get (sc_runtimes sc) i)"

definition check_live :: "service_runtime \<Rightarrow> command_rejection + unit" where
  "check_live r =
     (case sr_retired r of
        None \<Rightarrow> Inr ()
      | Some reason \<Rightarrow> Inl (CommandRejection_InvalidState (retired_guidance reason)))"

definition service_ack :: "service_id \<Rightarrow> service_runtime \<Rightarrow> service_command_ack" where
  "service_ack i r = \<lparr> ca_service = i, ca_observed_generation = run_generation r \<rparr>"

text \<open>What restart, enable and disable do to one service once they are admitted.\<close>

definition command_service ::
  "session_config \<Rightarrow> wake \<Rightarrow> (service_runtime \<Rightarrow> service_runtime) \<Rightarrow> service_event_kind \<Rightarrow> string \<Rightarrow>
   service_id \<Rightarrow> scheduler \<Rightarrow> scheduler"
where
  "command_service cf wk f kind detail i sc =
     log_event cf wk i kind detail (sync wk i (modify_runtime i f sc))"

definition reload_then ::
  "session_config \<Rightarrow> wake \<Rightarrow> load \<Rightarrow>
   (scheduler \<Rightarrow> (command_rejection + 'a) \<times> scheduler) \<Rightarrow>
   scheduler \<Rightarrow> (command_rejection + 'a) \<times> scheduler"
where
  "reload_then cf wk ld k sc =
     (case reload_services cf wk ld sc of
        (Inl e, sc) \<Rightarrow> (Inl e, sc)
      | (Inr _, sc) \<Rightarrow> k sc)"

definition apply_restart ::
  "session_config \<Rightarrow> wake \<Rightarrow> load \<Rightarrow> service_id \<Rightarrow> scheduler \<Rightarrow>
   (command_rejection + service_command_ack list) \<times> scheduler"
where
  "apply_restart cf wk ld i sc =
     (case and_then (check_known i sc) (\<lambda>r.
           and_then (check_live r) (\<lambda>_.
           ensure (sr_desired r \<noteq> DesiredState_Disabled)
             (CommandRejection_InvalidState
                ''the service is disabled; enable it before restarting''))) of
        Inl e \<Rightarrow> (Inl e, sc)
      | Inr _ \<Rightarrow>
          reload_then cf wk ld
            (\<lambda>sc. case check_known i sc of
                    Inl e \<Rightarrow> (Inl e, sc)
                  | Inr r \<Rightarrow>
                      (Inr [service_ack i r],
                       command_service cf wk request_restart ServiceEventKind_RestartRequested
                         ''service restart requested'' i sc)) sc)"

definition apply_enable ::
  "session_config \<Rightarrow> wake \<Rightarrow> load \<Rightarrow> service_id \<Rightarrow> scheduler \<Rightarrow>
   (command_rejection + service_command_ack list) \<times> scheduler"
where
  "apply_enable cf wk ld i sc =
     (case and_then (check_known i sc) check_live of
        Inl e \<Rightarrow> (Inl e, sc)
      | Inr _ \<Rightarrow>
          reload_then cf wk ld
            (\<lambda>sc. case check_known i sc of
                    Inl e \<Rightarrow> (Inl e, sc)
                  | Inr r \<Rightarrow>
                      (Inr [service_ack i r],
                       command_service cf wk request_enable ServiceEventKind_EnableRequested
                         ''service enable requested'' i sc)) sc)"

definition apply_disable ::
  "session_config \<Rightarrow> wake \<Rightarrow> service_id \<Rightarrow> scheduler \<Rightarrow>
   (command_rejection + service_command_ack list) \<times> scheduler"
where
  "apply_disable cf wk i sc =
     (case check_known i sc of
        Inl e \<Rightarrow> (Inl e, sc)
      | Inr r \<Rightarrow>
          (Inr [service_ack i r],
           command_service cf wk runtime_disable ServiceEventKind_DisableRequested
             ''service disable requested'' i sc))"

text \<open>One service of \<^verbatim>\<open>restart_all\<close>: retired and disabled services are passed over.\<close>

definition restart_one ::
  "session_config \<Rightarrow> wake \<Rightarrow> service_id \<Rightarrow> service_command_ack list \<times> scheduler \<Rightarrow>
   service_command_ack list \<times> scheduler"
where
  "restart_one cf wk i = (\<lambda>(acks, sc).
     (case im_get (sc_runtimes sc) i of
        None \<Rightarrow> (acks, sc)
      | Some r \<Rightarrow>
          if sr_desired r = DesiredState_Enabled \<and> is_live r
          then (acks @ [service_ack i r],
                command_service cf wk request_restart ServiceEventKind_RestartRequested
                  ''service restart requested by restart_all'' i sc)
          else (acks, sc)))"

definition apply_restart_all ::
  "session_config \<Rightarrow> wake \<Rightarrow> load \<Rightarrow> scheduler \<Rightarrow>
   (command_rejection + service_command_ack list) \<times> scheduler"
where
  "apply_restart_all cf wk ld sc =
     reload_then cf wk ld
       (\<lambda>sc. let (acks, sc) = fold (restart_one cf wk) (im_keys (sc_services sc)) ([], sc)
             in (Inr acks, sc)) sc"

definition resize_all :: "u16 \<Rightarrow> u16 \<Rightarrow> scheduler \<Rightarrow> scheduler" where
  "resize_all cols rows sc =
     (let sz = \<lparr> sz_rows = rows, sz_cols = cols, sz_pixel_width = 0, sz_pixel_height = 0 \<rparr>
      in sc\<lparr> sc_pty_size := sz,
             sc_runtimes :=
               map (\<lambda>(i, r). (i, r\<lparr> sr_running :=
                      map_option (\<lambda>running. running\<lparr> rs_pty := pty_resize sz (rs_pty running) \<rparr>)
                        (sr_running r) \<rparr>)) (sc_runtimes sc) \<rparr>)"

section \<open>Dispatch\<close>

datatype command =
    Command_Restart service_id
  | Command_RestartAll
  | Command_Disable service_id
  | Command_Enable service_id
  | Command_ReconcileConfig bool
  | Command_StartDynamic dynamic_service_params
  | Command_ReplaceDynamic service_id u64 dynamic_service_params
  | Command_RenewDynamic service_id u64 "lease option"
  | Command_StopDynamic service_id
  | Command_ResizeAll u16 u16

datatype reply =
    Reply_Service "command_rejection + service_command_ack list"
  | Reply_Dynamic "command_rejection + dynamic_service_ack"
  | Reply_Reconcile "command_rejection + reconcile_receipt"
  | Reply_None

definition reply_dynamic ::
  "command_rejection + dynamic_service_ack \<times> scheduler \<Rightarrow> scheduler \<Rightarrow> bool \<times> reply \<times> scheduler"
where
  "reply_dynamic result sc =
     (case result of
        Inl e \<Rightarrow> (True, Reply_Dynamic (Inl e), sc)
      | Inr (ack, sc') \<Rightarrow> (True, Reply_Dynamic (Inr ack), sc'))"

text \<open>The handler answers whether a scheduling pass is needed, the reply, and the state.\<close>

definition handle_command ::
  "session_config \<Rightarrow> wake \<Rightarrow> load \<Rightarrow> command \<Rightarrow> scheduler \<Rightarrow> bool \<times> reply \<times> scheduler"
where
  "handle_command cf wk ld cmd sc =
     (case cmd of
        Command_Restart i \<Rightarrow>
          (let (result, sc) = apply_restart cf wk ld i sc in (True, Reply_Service result, sc))
      | Command_Enable i \<Rightarrow>
          (let (result, sc) = apply_enable cf wk ld i sc in (True, Reply_Service result, sc))
      | Command_RestartAll \<Rightarrow>
          (let (result, sc) = apply_restart_all cf wk ld sc in (True, Reply_Service result, sc))
      | Command_Disable i \<Rightarrow>
          (let (result, sc) = apply_disable cf wk i sc in (True, Reply_Service result, sc))
      | Command_ReconcileConfig dry_run \<Rightarrow>
          (let (result, sc) = reconcile_config cf wk ld dry_run sc
           in (True, Reply_Reconcile result, sc))
      | Command_StartDynamic params \<Rightarrow> reply_dynamic (start_dynamic cf wk params sc) sc
      | Command_ReplaceDynamic i expected params \<Rightarrow>
          reply_dynamic (replace_dynamic cf wk i expected params sc) sc
      | Command_RenewDynamic i expected expires_after \<Rightarrow>
          reply_dynamic (renew_dynamic cf wk i expected expires_after sc) sc
      | Command_StopDynamic i \<Rightarrow> reply_dynamic (stop_dynamic cf wk i sc) sc
      | Command_ResizeAll cols rows \<Rightarrow> (False, Reply_None, resize_all cols rows sc))"

section \<open>The scheduling pass of the task\<close>

definition due_auto_restart :: "instant \<Rightarrow> service \<Rightarrow> service_runtime \<Rightarrow> bool" where
  "due_auto_restart now s r \<longleftrightarrow>
     \<not> (sr_desired r = DesiredState_Disabled \<or> sr_running r \<noteq> None \<or> sr_start_requested r) \<and>
     \<not> (case rt_backoff_until (sr_restart r) of None \<Rightarrow> False | Some t \<Rightarrow> now < t) \<and>
     (case sr_state r of
        State_Exited code \<Rightarrow> will_auto_restart (ss_restart (svc_spec s)) code r
      | _ \<Rightarrow> False)"

definition has_due_auto_restart :: "wake \<Rightarrow> scheduler \<Rightarrow> bool" where
  "has_due_auto_restart wk sc =
     list_ex (\<lambda>(i, s). case im_get (sc_runtimes sc) i of
                          None \<Rightarrow> False | Some r \<Rightarrow> due_auto_restart (wk_now wk) s r) (sc_services sc)"

definition reload_before_auto_restart ::
  "session_config \<Rightarrow> wake \<Rightarrow> load \<Rightarrow> scheduler \<Rightarrow> scheduler"
where
  "reload_before_auto_restart cf wk ld sc =
     (if cf_reload cf = None \<or> \<not> has_due_auto_restart wk sc then sc
      else snd (reload_services cf wk ld sc))"

definition context_of :: "scheduler \<Rightarrow> schedule_context" where
  "context_of sc =
     \<lparr> cx_services = sc_services sc, cx_runtimes = sc_runtimes sc,
       cx_pty_size = sc_pty_size sc, cx_model = sc_model sc \<rparr>"

definition with_context :: "scheduler \<Rightarrow> schedule_context \<Rightarrow> scheduler" where
  "with_context sc ctx = sc\<lparr> sc_runtimes := cx_runtimes ctx, sc_model := cx_model ctx \<rparr>"

definition schedule_pass :: "session_config \<Rightarrow> wake \<Rightarrow> load \<Rightarrow> scheduler \<Rightarrow> scheduler" where
  "schedule_pass cf wk ld sc =
     (let sc = reload_before_auto_restart cf wk ld sc
      in if sc_shutdown sc then sc
         else with_context sc (schedule_ready (pass_of cf wk) (context_of sc)))"

section \<open>The loop\<close>

text \<open>The arms of the \<^verbatim>\<open>select!\<close> in \<^verbatim>\<open>run\<close>.\<close>

datatype arm =
    Arm_Shutdown
  | Arm_Command command load
  | Arm_Input prepared_pty_input
  | Arm_Event process_event
  | Arm_Backoff
  | Arm_Expiry
  | Arm_DrainDeadline
  | Arm_InputDropReport

definition run_arm :: "session_config \<Rightarrow> wake \<Rightarrow> arm \<Rightarrow> scheduler \<Rightarrow> bool \<times> scheduler" where
  "run_arm cf wk a sc =
     (case a of
        Arm_Shutdown \<Rightarrow> (False, sc\<lparr> sc_shutdown := True \<rparr>)
      | Arm_Command cmd ld \<Rightarrow>
          (let (needs, _, sc) = handle_command cf wk ld cmd sc in (needs, sc))
      | Arm_Input input \<Rightarrow> (False, handle_input cf wk input sc)
      | Arm_Event ev \<Rightarrow> handle_event cf wk ev sc
      | Arm_Backoff \<Rightarrow> (True, sc)
      | Arm_Expiry \<Rightarrow> expire_due cf wk sc
      | Arm_DrainDeadline \<Rightarrow> (False, cancel_due_drains wk sc)
      | Arm_InputDropReport \<Rightarrow> (False, report_due_input_drops cf wk sc))"

text \<open>One round of the loop: the arm, the bounded roster, the pass with its own possible reload.\<close>

definition run_round :: "session_config \<Rightarrow> wake \<Rightarrow> arm \<Rightarrow> load \<Rightarrow> scheduler \<Rightarrow> scheduler" where
  "run_round cf wk a ld sc =
     (let (needs, sc) = run_arm cf wk a sc
      in if sc_shutdown sc then sc
         else
           let sc = evict_retired cf sc
           in if needs then schedule_pass cf wk ld sc else sc)"

text \<open>The task: the check of the dependencies, the state, the first pass.\<close>

definition scheduler_start ::
  "session_config \<Rightarrow> wake \<Rightarrow> load \<Rightarrow> service_map \<Rightarrow> string option \<Rightarrow> graph_error + scheduler"
where
  "scheduler_start cf wk ld services spool_dir =
     and_then (service_graph_new (cf_toposort cf) services) (\<lambda>_.
     Inr (schedule_pass cf wk ld
            (scheduler_new services
               (new_with_retention (initial_model_entries services) spool_dir))))"

definition shut_down :: "session_config \<Rightarrow> instant \<Rightarrow> (wake \<times> process_event) list \<Rightarrow> scheduler \<Rightarrow> scheduler" where
  "shut_down cf now evs sc = drain_on_shutdown cf now evs (cancel_all_running sc)"

end
