(* ===== verification/Publishing.thy ===== *)
theory Publishing
  imports Commands
begin

text \<open>
  The invariant that ties the roster, the runtimes and the published model together, and its
  preservation by the steps the handlers of the scheduler are made of: every service has one
  definition, one runtime that is well-formed under its restart policy, and one model entry, and the
  entry shows the projection of the runtime as of some instant.
\<close>

section \<open>What a model entry shows\<close>

definition published :: "session_model \<Rightarrow> service_id \<Rightarrow> (service_snapshot \<times> instant option) option" where
  "published m i = map_option (\<lambda>e. (en_snapshot e, en_started_at e)) (im_get (sm_services m) i)"

named_theorems published_simps

lemma published_write_snapshot [published_simps]:
  "published (write_snapshot sn started m) i =
     (if i = sn_id sn \<and> published m i \<noteq> None then Some (sn, started) else published m i)"
  by (auto simp: published_def write_snapshot_def im_get_insert split: option.split)

lemma published_sync_model [published_simps]:
  "published (sync_model now s r m) i =
     (if i = svc_id s \<and> published m i \<noteq> None then Some (project_snapshot now s r) else published m i)"
proof -
  obtain sn started where p: "project_snapshot now s r = (sn, started)" by fastforce
  moreover have "sn_id (fst (project_snapshot now s r)) = svc_id s"
    by (simp add: project_snapshot_def Let_def)
  ultimately show ?thesis
    by (cases "i = svc_id s") (auto simp: sync_model_def published_simps)
qed

lemma published_update:
  assumes "\<And>e. im_get (sm_services m) s = Some e \<Longrightarrow>
      en_snapshot (fst (f e)) = en_snapshot e \<and> en_started_at (fst (f e)) = en_started_at e"
  shows "published (update_entry enc s f m) i = published m i"
  using assms by (cases "im_get (sm_services m) s") (auto simp: published_def update_entry_get)

lemma published_publish [published_simps]: "published (publish s k m) i = published m i"
  by (simp add: published_def)

lemma published_append_event [published_simps]:
  assumes "model_ok m"
  shows "published (append_event enc unix s ev m) i = published m i"
proof -
  have "en_snapshot (fst (event_write unix ev' b dl e)) = en_snapshot e \<and>
      en_started_at (fst (event_write unix ev' b dl e)) = en_started_at e"
    if "im_get (sm_services m) s = Some e" for e ev' b dl
  proof -
    have "entry_ok e" using assms that by (auto simp: model_ok_def)
    from event_entry_ok [OF this] show ?thesis by blast
  qed
  then show ?thesis
    by (simp add: append_event_def Let_def published_simps published_update)
qed

lemma published_clear_logs [published_simps]: "published (clear_logs enc s m) i = published m i"
  by (simp add: clear_logs_def published_simps published_update clear_visible_logs_def
      update_run_def Let_def)

lemma published_reconfigure [published_simps]:
  "published (reconfigure_log_retention enc s retention m) i = published m i"
  by (simp add: reconfigure_log_retention_def published_simps published_update)

lemma published_insert_service [published_simps]:
  "published m (sn_id sn) = None \<Longrightarrow>
   published (insert_service sn retention m) i =
     (if i = sn_id sn then Some (sn, None) else published m i)"
  by (auto simp: published_def insert_service_def im_get_insert entry_new_def im_contains_iff
      set_im_keys Let_def)

lemma published_remove_service [published_simps]:
  "published (remove_service enc s m) i = (if i = s then None else published m i)"
  by (auto simp: published_def remove_service_def im_get_remove split: option.split)

lemma published_begin_run [published_simps]:
  assumes "model_ok m"
  shows "published (begin_run enc s g m) i = published m i"
proof -
  have "en_snapshot (fst (entry_begin_run g e)) = en_snapshot e \<and>
      en_started_at (fst (entry_begin_run g e)) = en_started_at e"
    if "im_get (sm_services m) s = Some e" for e
    using entry_begin_run_spec(5,6) [OF _ refl, of e g] assms that by (auto simp: model_ok_def)
  then show ?thesis
    by (simp add: begin_run_def published_simps published_update)
qed

lemma model_ok_sync [model_ok_intros]: "model_ok m \<Longrightarrow> model_ok (sync_model now s r m)"
  by (auto simp: sync_model_def split_def intro: model_ok_write_snapshot)

section \<open>The invariant\<close>

definition roster_ok :: "service_map \<Rightarrow> runtimes \<Rightarrow> bool" where
  "roster_ok services rts \<longleftrightarrow>
     im_wf services \<and> im_wf rts \<and> dom (im_get rts) = dom (im_get services) \<and>
     (\<forall>i s r. im_get services i = Some s \<longrightarrow> im_get rts i = Some r \<longrightarrow>
        svc_id s = i \<and> runtime_ok (ss_restart (svc_spec s)) r)"

definition shown :: "service_id set \<Rightarrow> service_map \<Rightarrow> runtimes \<Rightarrow> session_model \<Rightarrow> bool" where
  "shown X services rts m \<longleftrightarrow>
     model_ok m \<and> dom (published m) = dom (im_get services) \<and>
     (\<forall>i s r. i \<notin> X \<longrightarrow> im_get services i = Some s \<longrightarrow> im_get rts i = Some r \<longrightarrow>
        (\<exists>now. published m i = Some (project_snapshot now s r)))"

definition in_step :: "service_id set \<Rightarrow> scheduler \<Rightarrow> bool" where
  "in_step X sc \<longleftrightarrow>
     roster_ok (sc_services sc) (sc_runtimes sc) \<and>
     shown X (sc_services sc) (sc_runtimes sc) (sc_model sc)"

lemma roster_ok_runtimes_ok: "roster_ok services rts \<Longrightarrow> runtimes_ok services rts"
  by (auto simp: roster_ok_def runtimes_ok_def im_get_in_set)

lemma roster_okD:
  "roster_ok services rts \<Longrightarrow> im_get services i = Some s \<Longrightarrow> im_get rts i = Some r \<Longrightarrow>
     svc_id s = i \<and> runtime_ok (ss_restart (svc_spec s)) r"
  unfolding roster_ok_def by blast

lemma roster_ok_dom: "roster_ok services rts \<Longrightarrow> dom (im_get rts) = dom (im_get services)"
  unfolding roster_ok_def by (elim conjE)

lemma roster_ok_pair:
  assumes "roster_ok services rts" and "im_get rts i = Some r"
  obtains s where "im_get services i = Some s"
  using roster_ok_dom [OF assms(1)] assms(2) by (metis domD domI)

lemma roster_ok_get:
  assumes "roster_ok services rts" and "im_get services i = Some s"
  obtains r where "im_get rts i = Some r"
  using roster_ok_dom [OF assms(1)] assms(2) by (metis domD domI)

section \<open>Steps that keep it\<close>

named_theorems in_step_intros

lemma in_step_mono: "in_step X sc \<Longrightarrow> X \<subseteq> Y \<Longrightarrow> in_step Y sc"
  by (auto simp: in_step_def shown_def)

lemma in_step_same:
  "in_step X sc \<Longrightarrow> sc_services sc' = sc_services sc \<Longrightarrow> sc_runtimes sc' = sc_runtimes sc \<Longrightarrow>
   sc_model sc' = sc_model sc \<Longrightarrow> in_step X sc'"
  by (simp add: in_step_def)

text \<open>A change of one runtime that keeps it well-formed leaves only its own entry behind.\<close>

lemma in_step_modify [in_step_intros]:
  assumes "in_step X sc"
    and "\<And>s r. im_get (sc_services sc) i = Some s \<Longrightarrow> im_get (sc_runtimes sc) i = Some r \<Longrightarrow>
      runtime_ok (ss_restart (svc_spec s)) r \<Longrightarrow> runtime_ok (ss_restart (svc_spec s)) (f r)"
  shows "in_step (insert i X) (modify_runtime i f sc)"
proof (cases "im_get (sc_runtimes sc) i")
  case None
  then show ?thesis
    using in_step_mono [OF assms(1)] by (auto simp: modify_runtime_def)
next
  case (Some r)
  have "roster_ok (sc_services sc) (im_insert i (f r) (sc_runtimes sc))"
    using assms Some unfolding in_step_def roster_ok_def by (auto simp: im_get_insert)
  moreover have "shown (insert i X) (sc_services sc) (im_insert i (f r) (sc_runtimes sc)) (sc_model sc)"
    using assms(1) unfolding in_step_def shown_def by (simp add: im_get_insert)
  ultimately show ?thesis
    using Some by (simp add: modify_runtime_def in_step_def)
qed

text \<open>A change that the projection does not see leaves nothing behind.\<close>

lemma in_step_modify_quiet [in_step_intros]:
  assumes "in_step X sc"
    and "\<And>s r. im_get (sc_services sc) i = Some s \<Longrightarrow> im_get (sc_runtimes sc) i = Some r \<Longrightarrow>
      runtime_ok (ss_restart (svc_spec s)) r \<Longrightarrow> runtime_ok (ss_restart (svc_spec s)) (f r)"
    and "\<And>now s r. project_snapshot now s (f r) = project_snapshot now s r"
  shows "in_step X (modify_runtime i f sc)"
proof (cases "im_get (sc_runtimes sc) i")
  case None
  then show ?thesis using assms(1) by (simp add: modify_runtime_def)
next
  case (Some r)
  have "roster_ok (sc_services sc) (im_insert i (f r) (sc_runtimes sc))"
    using assms Some unfolding in_step_def roster_ok_def by (auto simp: im_get_insert)
  moreover have "shown X (sc_services sc) (im_insert i (f r) (sc_runtimes sc)) (sc_model sc)"
    using assms(1,3) Some unfolding in_step_def shown_def by (auto simp: im_get_insert)
  ultimately show ?thesis
    using Some by (simp add: modify_runtime_def in_step_def)
qed

lemma in_step_map [in_step_intros]:
  assumes "in_step X sc"
    and "\<And>p r. runtime_ok p r \<Longrightarrow> runtime_ok p (f r)"
    and "\<And>now s r. project_snapshot now s (f r) = project_snapshot now s r"
  shows "in_step X (sc\<lparr> sc_runtimes := map (\<lambda>(i, r). (i, f r)) (sc_runtimes sc) \<rparr>)"
proof -
  let ?rts = "map (\<lambda>(i, r). (i, f r)) (sc_runtimes sc)"
  have get: "im_get ?rts i = map_option f (im_get (sc_runtimes sc) i)" for i
    by (simp add: map_of_map)
  have keys: "im_keys ?rts = im_keys (sc_runtimes sc)"
    by (simp add: im_keys_def comp_def split_def)
  have ok: "roster_ok (sc_services sc) (sc_runtimes sc)"
    using assms(1) by (simp add: in_step_def)
  have "im_wf ?rts" "dom (im_get ?rts) = dom (im_get (sc_services sc))"
    using ok by (auto simp: roster_ok_def im_wf_def keys get dom_def)
  moreover have "svc_id s = i \<and> runtime_ok (ss_restart (svc_spec s)) r"
    if "im_get (sc_services sc) i = Some s" "im_get ?rts i = Some r" for i s r
    using that roster_okD [OF ok] assms(2) by (auto simp: get)
  ultimately have "roster_ok (sc_services sc) ?rts"
    using ok by (simp add: roster_ok_def)
  moreover have "shown X (sc_services sc) ?rts (sc_model sc)"
    using assms(1,3) unfolding in_step_def shown_def by (auto simp: get)
  ultimately show ?thesis by (simp add: in_step_def)
qed

lemma in_step_sync [in_step_intros]:
  assumes "in_step X sc"
  shows "in_step (X - {i}) (sync wk i sc)"
proof (cases "im_get (sc_services sc) i")
  case None
  then show ?thesis
    using assms by (auto simp: sync_def in_step_def shown_def)
next
  case (Some s)
  then obtain r where r: "im_get (sc_runtimes sc) i = Some r"
    using assms unfolding in_step_def roster_ok_def by (metis domD domI)
  have id: "svc_id s = i" using assms Some r roster_okD unfolding in_step_def by blast
  have "published (sc_model sc) i \<noteq> None"
    using assms Some unfolding in_step_def shown_def by (metis domD domI option.discI)
  then show ?thesis
    using assms Some r id
    by (auto simp: sync_def in_step_def shown_def published_sync_model model_ok_sync dom_def)
qed

lemma in_step_write_event [in_step_intros]: "in_step X sc \<Longrightarrow> in_step X (write_event cf wk i ev sc)"
  by (auto simp: write_event_def in_step_def shown_def published_append_event model_ok_append_event dom_def)

lemma in_step_log_event [in_step_intros]:
  "in_step X sc \<Longrightarrow> in_step X (log_event cf wk i kind detail sc)"
  by (simp add: log_event_def in_step_write_event)

lemma in_step_retention [in_step_intros]: "in_step X sc \<Longrightarrow> in_step X (set_retention cf i s sc)"
  by (auto simp: set_retention_def in_step_def shown_def published_reconfigure
      model_ok_reconfigure_log dom_def)

text \<open>The pattern of most handlers.\<close>

lemma in_step_modify_sync:
  assumes "in_step {} sc"
    and "\<And>s r. im_get (sc_services sc) i = Some s \<Longrightarrow> im_get (sc_runtimes sc) i = Some r \<Longrightarrow>
      runtime_ok (ss_restart (svc_spec s)) r \<Longrightarrow> runtime_ok (ss_restart (svc_spec s)) (f r)"
  shows "in_step {} (sync wk i (modify_runtime i f sc))"
proof -
  have "in_step (insert i {}) (modify_runtime i f sc)"
    by (rule in_step_modify [OF assms])
  from in_step_sync [OF this, where i = i and wk = wk] show ?thesis by simp
qed


text \<open>A new service, a new definition of a known one, and a removed one.\<close>

lemma in_step_install:
  assumes "in_step X sc" and "im_get (sc_services sc) i = None" and "svc_id s = i"
    and "runtime_ok (ss_restart (svc_spec s)) r" and "sr_running r = None"
  shows "in_step X (sc\<lparr> sc_services := im_insert i s (sc_services sc),
           sc_runtimes := im_insert i r (sc_runtimes sc),
           sc_model := insert_service (fst (project_snapshot now s r)) retention (sc_model sc) \<rparr>)"
proof -
  have sn: "sn_id (fst (project_snapshot now s r)) = i" "snd (project_snapshot now s r) = None"
    using assms(3-5) by (auto simp: project_snapshot_def Let_def runtime_ok_def)
  then have p: "(fst (project_snapshot now s r), None) = project_snapshot now s r"
    by (metis prod.collapse)
  have new: "im_get (sc_runtimes sc) i = None" "published (sc_model sc) i = None"
    using assms(1,2) unfolding in_step_def roster_ok_def shown_def by blast+
  have "roster_ok (im_insert i s (sc_services sc)) (im_insert i r (sc_runtimes sc))"
    using assms unfolding in_step_def roster_ok_def by (auto simp: im_get_insert)
  moreover have "shown X (im_insert i s (sc_services sc)) (im_insert i r (sc_runtimes sc))
      (insert_service (fst (project_snapshot now s r)) retention (sc_model sc))"
    unfolding shown_def
  proof (intro conjI allI impI)
    show "model_ok (insert_service (fst (project_snapshot now s r)) retention (sc_model sc))"
      using assms(1) by (simp add: in_step_def shown_def model_ok_insert_service)
    show "dom (published (insert_service (fst (project_snapshot now s r)) retention (sc_model sc))) =
        dom (im_get (im_insert i s (sc_services sc)))"
      using assms(1) new(2) sn(1)
      by (auto simp: in_step_def shown_def published_insert_service im_get_insert dom_def split: if_splits)
    fix j s' r'
    assume j: "j \<notin> X" "im_get (im_insert i s (sc_services sc)) j = Some s'"
      "im_get (im_insert i r (sc_runtimes sc)) j = Some r'"
    show "\<exists>now'. published (insert_service (fst (project_snapshot now s r)) retention (sc_model sc)) j =
        Some (project_snapshot now' s' r')"
    proof (cases "j = i")
      case True
      then show ?thesis
        using j new(2) sn(1) p by (auto simp: im_get_insert published_insert_service)
    next
      case False
      then have "\<exists>now'. published (sc_model sc) j = Some (project_snapshot now' s' r')"
        using j assms(1) unfolding in_step_def shown_def by (auto simp: im_get_insert)
      then show ?thesis
        using False new(2) sn(1) by (simp add: published_insert_service)
    qed
  qed
  ultimately show ?thesis by (simp add: in_step_def)
qed

lemma in_step_redefine:
  assumes "in_step X sc" and "im_get (sc_services sc) i \<noteq> None" and "svc_id s' = i"
    and "\<And>s r. im_get (sc_services sc) i = Some s \<Longrightarrow> im_get (sc_runtimes sc) i = Some r \<Longrightarrow>
      runtime_ok (ss_restart (svc_spec s)) r \<Longrightarrow> runtime_ok (ss_restart (svc_spec s')) (f r)"
  shows "in_step (insert i X) (insert_definition i s' (modify_runtime i f sc))"
proof -
  obtain s where s: "im_get (sc_services sc) i = Some s" using assms(2) by auto
  then obtain r where r: "im_get (sc_runtimes sc) i = Some r"
    using assms(1) unfolding in_step_def roster_ok_def by (metis domD domI)
  have "roster_ok (im_insert i s' (sc_services sc)) (im_insert i (f r) (sc_runtimes sc))"
    using assms(1,3) assms(4) [OF s r] s r unfolding in_step_def roster_ok_def
    by (auto simp: im_get_insert)
  moreover have "shown (insert i X) (im_insert i s' (sc_services sc)) (im_insert i (f r) (sc_runtimes sc))
      (sc_model sc)"
    using assms(1) s unfolding in_step_def shown_def by (auto simp: im_get_insert)
  ultimately show ?thesis
    using r by (simp add: modify_runtime_def insert_definition_def in_step_def)
qed

lemma in_step_remove_entry [in_step_intros]:
  assumes "in_step X sc"
  shows "in_step X (remove_entry cf i sc)"
proof -
  have "roster_ok (im_remove i (sc_services sc)) (im_remove i (sc_runtimes sc))"
    using assms unfolding in_step_def roster_ok_def by (auto simp: im_get_remove split: if_splits)
  moreover have "shown X (im_remove i (sc_services sc)) (im_remove i (sc_runtimes sc))
      (remove_service (cf_enc cf) i (sc_model sc))"
    using assms unfolding in_step_def shown_def
    by (auto simp: im_get_remove published_remove_service model_ok_remove_service dom_def split: if_splits)
  ultimately show ?thesis by (simp add: remove_entry_def in_step_def)
qed

section \<open>A scheduling pass keeps it\<close>

text \<open>The same invariant on the context of a pass, from an arbitrary state of the task.\<close>

definition ctx_in_step :: "service_id set \<Rightarrow> schedule_context \<Rightarrow> bool" where
  "ctx_in_step X ctx \<longleftrightarrow>
     roster_ok (cx_services ctx) (cx_runtimes ctx) \<and>
     shown X (cx_services ctx) (cx_runtimes ctx) (cx_model ctx)"

lemma shown_event: "shown X services rts m \<Longrightarrow> shown X services rts (append_event enc unix i ev m)"
  by (auto simp: shown_def published_append_event model_ok_append_event dom_def)

lemma shown_begin_run: "shown X services rts m \<Longrightarrow> shown X services rts (begin_run enc i g m)"
  by (auto simp: shown_def published_begin_run model_ok_begin_run dom_def)

lemma shown_clear_logs: "shown X services rts m \<Longrightarrow> shown X services rts (clear_logs enc i m)"
  by (auto simp: shown_def published_clear_logs model_ok_clear_logs dom_def)

lemma shown_mono: "shown X services rts m \<Longrightarrow> X \<subseteq> Y \<Longrightarrow> shown Y services rts m"
  by (auto simp: shown_def)

lemma shown_set: "shown X services rts m \<Longrightarrow> shown (insert i X) services (im_insert i r rts) m"
  by (auto simp: shown_def im_get_insert)

lemma shown_sync:
  assumes "shown (insert i X) services rts m" and "im_get services i = Some s"
    and "im_get rts i = Some r" and "svc_id s = i"
  shows "shown X services rts (sync_model now s r m)"
proof -
  have "published m i \<noteq> None"
    using assms(1,2) unfolding shown_def by (metis domD domI option.discI)
  then show ?thesis
    using assms by (auto simp: shown_def published_sync_model model_ok_sync dom_def)
qed

text \<open>Setting the runtime and publishing it.\<close>

lemma shown_set_sync:
  assumes "shown X services rts m" and "im_get services i = Some s" and "svc_id s = i"
  shows "shown X services (im_insert i r rts) (sync_model now s r m)"
  using shown_sync [OF shown_set [OF assms(1)] assms(2) _ assms(3)] by (simp add: im_get_insert)

lemma shown_sync_any:
  assumes "shown X services rts m" and "svc_id s = i" and "i \<in> X"
  shows "shown X services rts (sync_model now s r m)"
  using assms by (auto simp: shown_def published_sync_model model_ok_sync dom_def)


lemma shown_start_set:
  "shown X services rts m \<Longrightarrow> i \<in> X \<Longrightarrow> shown X services (im_insert i r rts) m"
  using shown_set [of X services rts m i r] by (simp add: insert_absorb)

lemma finish_start_shown:
  assumes "shown {i} (cx_services ctx) (cx_runtimes ctx) (cx_model ctx)"
    and "im_get (cx_services ctx) i = Some s" and "svc_id s = i"
    and "finish_service_start env i s rid result ctx = (b, ctx')"
    and "im_get (cx_runtimes ctx) i = Some r0"
  shows "shown {} (cx_services ctx') (cx_runtimes ctx') (cx_model ctx')"
proof -
  have publish: "shown {} (cx_services ctx) (im_insert i r (cx_runtimes ctx))
      (sync_model (pe_now env) s r (cx_model ctx))" for r
  proof -
    have "shown {i} (cx_services ctx) (im_insert i r (cx_runtimes ctx)) (cx_model ctx)"
      by (rule shown_start_set [OF assms(1)]) simp
    then show ?thesis
      by (rule shown_sync) (use assms(2,3) in \<open>simp_all add: im_get_insert\<close>)
  qed
  show ?thesis
    using assms(4,5)
    by (cases result)
       (auto simp: finish_service_start_def Let_def ctx_event_def ctx_sync_def set_runtime_def
         intro!: shown_event publish split: option.splits)
qed

lemma start_service_shown:
  assumes "shown {} (cx_services ctx) (cx_runtimes ctx) (cx_model ctx)"
    and "im_get (cx_services ctx) i = Some s" and "svc_id s = i"
    and "start_service_if_ready env i s code ctx = (b, ctx')"
  shows "shown {} (cx_services ctx') (cx_runtimes ctx') (cx_model ctx')"
proof (cases "blocking_dependencies (cx_runtimes ctx) s = [] \<and> im_get (cx_runtimes ctx) i \<noteq> None")
  case False
  then show ?thesis
    using assms(1,4) by (auto simp: start_service_if_ready_def split: if_splits option.splits)
next
  case True
  then obtain r where r: "im_get (cx_runtimes ctx) i = Some r" by auto
  define ctx1 where "ctx1 =
    (if sr_blocked_on r \<noteq> []
     then ctx_event env i (service_event (pe_unix env) (run_generation r)
            ServiceEventKind_DependencyReady ''dependencies are ready'') ctx
     else ctx)"
  define r1 where "r1 = prepare_start s code (if sr_blocked_on r \<noteq> [] then r\<lparr> sr_blocked_on := [] \<rparr> else r)"
  obtain rid r2 where r2: "allocate_run_id r1 = (rid, r2)" by fastforce
  define ctx2 where "ctx2 = set_runtime i r2 (ctx_sync env s r1 ctx1)"
  define ctx3 where "ctx3 = ctx2\<lparr> cx_model := begin_run (pe_enc env) i rid (cx_model ctx2) \<rparr>"
  define ctx4 where "ctx4 =
    (if sr_clear_logs_on_start r
     then ctx3\<lparr> cx_model := clear_logs (pe_enc env) i (cx_model ctx3) \<rparr> else ctx3)"
  have same: "cx_services ctx1 = cx_services ctx" "cx_runtimes ctx1 = cx_runtimes ctx"
    "cx_pty_size ctx1 = cx_pty_size ctx" "cx_services ctx4 = cx_services ctx"
    "cx_runtimes ctx4 = im_insert i r2 (cx_runtimes ctx)" "cx_pty_size ctx4 = cx_pty_size ctx"
    by (simp_all add: ctx1_def ctx2_def ctx3_def ctx4_def)
  have "shown {} (cx_services ctx) (cx_runtimes ctx) (cx_model ctx1)"
    using assms(1) by (simp add: ctx1_def ctx_event_def shown_event)
  then have "shown {i} (cx_services ctx) (cx_runtimes ctx) (cx_model ctx1)"
    by (rule shown_mono) simp
  then have "shown {i} (cx_services ctx) (im_insert i r2 (cx_runtimes ctx)) (cx_model ctx2)"
    unfolding ctx2_def using assms(3)
    by (simp add: set_runtime_def ctx_sync_def shown_start_set shown_sync_any)
  then have four: "shown {i} (cx_services ctx4) (cx_runtimes ctx4) (cx_model ctx4)"
    unfolding same by (simp add: ctx4_def ctx3_def shown_begin_run shown_clear_logs)
  have fin: "finish_service_start env i s rid (pe_spawn env s rid (cx_pty_size ctx4)) ctx4 = (b, ctx')"
    using assms(4) True r r2
    by (simp add: start_service_if_ready_def Let_def ctx4_def ctx3_def ctx2_def ctx1_def r1_def
        split: if_splits)
  show ?thesis
    by (rule finish_start_shown [OF four _ assms(3) fin])
       (use assms(2) in \<open>simp_all add: same im_get_insert\<close>)
qed

lemma schedule_service_shown:
  assumes "shown {} (cx_services ctx) (cx_runtimes ctx) (cx_model ctx)"
    and "im_get (cx_services ctx) i = Some s" and "svc_id s = i"
    and "schedule_service env (i, s) (b, ctx) = (b', ctx')"
  shows "shown {} (cx_services ctx') (cx_runtimes ctx') (cx_model ctx')"
proof (cases "should_consider_start (pe_now env) (cx_runtimes ctx) i s")
  case StartCheck_Skip
  then show ?thesis
    using assms shown_set_sync [OF assms(1-3)]
    by (auto simp: schedule_service_def clear_dependency_block_def Let_def ctx_sync_def set_runtime_def
        split: option.splits)
next
  case (StartCheck_Consider code)
  obtain ok c where "start_service_if_ready env i s code ctx = (ok, c)" by fastforce
  moreover from start_service_shown [OF assms(1-3) this]
  have "shown {} (cx_services c) (cx_runtimes c) (cx_model c)" .
  ultimately show ?thesis
    using assms(4) StartCheck_Consider by (auto simp: schedule_service_def)
qed

lemma record_block_shown:
  assumes "shown {} (cx_services ctx) (cx_runtimes ctx) (cx_model ctx)"
    and "im_get (cx_services ctx) i = Some s" and "svc_id s = i"
  shows "shown {} (cx_services (record_stable_block env (i, s) ctx))
    (cx_runtimes (record_stable_block env (i, s) ctx)) (cx_model (record_stable_block env (i, s) ctx))"
  using assms(1)
  by (auto simp: record_stable_block_def record_dependency_block_def Let_def ctx_sync_def set_runtime_def
      ctx_event_def intro!: shown_event shown_set_sync [OF assms]
      split: start_check.split option.split)

lemma roster_ok_same_keys:
  assumes "roster_ok services rts" and "im_keys rts' = im_keys rts" and "runtimes_ok services rts'"
  shows "roster_ok services rts'"
proof -
  have "dom (im_get rts') = dom (im_get rts)"
    unfolding set_im_keys [symmetric] assms(2) ..
  also have "\<dots> = dom (im_get services)"
    by (rule roster_ok_dom [OF assms(1)])
  finally have doms: "dom (im_get rts') = dom (im_get services)" .
  have "im_wf rts" using assms(1) unfolding roster_ok_def by (elim conjE)
  then have wf: "im_wf rts'" by (simp add: im_wf_def assms(2))
  have "svc_id s = i \<and> runtime_ok (ss_restart (svc_spec s)) r"
    if g: "im_get services i = Some s" "im_get rts' i = Some r" for i s r
  proof -
    obtain r0 where "im_get rts i = Some r0"
      by (rule roster_ok_get [OF assms(1) g(1)])
    then have "svc_id s = i" using roster_okD [OF assms(1) that(1)] by blast
    moreover have "(i, s) \<in> set services" using that(1) by (rule map_of_SomeD)
    ultimately show ?thesis using runtimes_okD [OF assms(3) _ that(2)] by blast
  qed
  then show ?thesis
    using assms(1) doms wf unfolding roster_ok_def by blast
qed

lemma ctx_in_step_turn:
  assumes "ctx_in_step {} ctx" and "(i, s) \<in> set (cx_services ctx)"
    and "schedule_service env (i, s) (b, ctx) = (b', ctx')"
  shows "ctx_in_step {} ctx'" and "cx_services ctx' = cx_services ctx"
proof -
  note eff = schedule_service_effect [OF assms(3)]
  have ros: "roster_ok (cx_services ctx) (cx_runtimes ctx)" using assms(1) by (simp add: ctx_in_step_def)
  then have wf: "im_wf (cx_services ctx)" by (simp add: roster_ok_def)
  have get: "im_get (cx_services ctx) i = Some s" using assms(2) wf by (simp add: im_get_in_set)
  obtain r0 where "im_get (cx_runtimes ctx) i = Some r0"
    by (rule roster_ok_get [OF ros get])
  then have id: "svc_id s = i" using roster_okD [OF ros get] by blast
  have turn: "schedule_runtime env (cx_pty_size ctx) (i, s) (b, cx_runtimes ctx) = (b', cx_runtimes ctx')"
    using eff by simp
  have "roster_ok (cx_services ctx) (cx_runtimes ctx')"
    by (rule roster_ok_same_keys [OF ros schedule_runtime_idle(2) [OF turn]
          turn_runtimes_ok [OF turn wf assms(2) roster_ok_runtimes_ok [OF ros]]])
  moreover have "shown {} (cx_services ctx') (cx_runtimes ctx') (cx_model ctx')"
    using schedule_service_shown [OF _ get id assms(3)] assms(1) by (simp add: ctx_in_step_def)
  ultimately show "ctx_in_step {} ctx'" using eff by (simp add: ctx_in_step_def)
  show "cx_services ctx' = cx_services ctx" using eff by simp
qed


lemma ctx_in_step_round:
  assumes "ctx_in_step {} ctx" and "schedule_round env ctx = (b, ctx')"
  shows "ctx_in_step {} ctx' \<and> cx_services ctx' = cx_services ctx"
proof -
  have "ctx_in_step {} c \<Longrightarrow> set ps \<subseteq> set (cx_services c) \<Longrightarrow>
      fold (schedule_service env) ps (b0, c) = (b, ctx') \<Longrightarrow>
      ctx_in_step {} ctx' \<and> cx_services ctx' = cx_services c" for ps b0 c
  proof (induction ps arbitrary: b0 c)
    case (Cons p ps)
    obtain i s where p: "p = (i, s)" by fastforce
    obtain b1 c1 where step: "schedule_service env (i, s) (b0, c) = (b1, c1)" by fastforce
    have mem: "(i, s) \<in> set (cx_services c)" using Cons.prems(2) p by simp
    note turn = ctx_in_step_turn [OF Cons.prems(1) mem step]
    show ?case
      using Cons.IH [OF turn(1), of b1] Cons.prems(2,3) p step turn(2) by simp
  qed simp
  then show ?thesis
    using assms unfolding schedule_round_def by blast
qed

lemma ctx_in_step_record:
  assumes "ctx_in_step {} ctx"
  shows "ctx_in_step {} (record_stable_dependency_blocks env ctx) \<and>
    cx_services (record_stable_dependency_blocks env ctx) = cx_services ctx"
proof -
  have "ctx_in_step {} c \<Longrightarrow> set ps \<subseteq> set (cx_services c) \<Longrightarrow>
      ctx_in_step {} (fold (record_stable_block env) ps c) \<and>
      cx_services (fold (record_stable_block env) ps c) = cx_services c" for ps c
  proof (induction ps arbitrary: c)
    case (Cons p ps)
    obtain i s where p: "p = (i, s)" by fastforce
    let ?c = "record_stable_block env (i, s) c"
    note eff = record_block_effect [of env "(i, s)" c]
    have ros: "roster_ok (cx_services c) (cx_runtimes c)" using Cons.prems(1) by (simp add: ctx_in_step_def)
    have get: "im_get (cx_services c) i = Some s"
      using Cons.prems(2) p ros by (simp add: im_get_in_set roster_ok_def)
    obtain r where r: "im_get (cx_runtimes c) i = Some r" by (rule roster_ok_get [OF ros get])
    have own: "svc_id s = i" "runtime_ok (ss_restart (svc_spec s)) r" using roster_okD [OF ros get r] by simp_all
    have "runtime_ok (ss_restart (svc_spec s')) q"
      if q: "(j, s') \<in> set (cx_services c)" "im_get (cx_runtimes ?c) j = Some q" for j s' q
    proof (cases "j = i \<and> (\<exists>code. should_consider_start (pe_now env) (cx_runtimes c) i s = StartCheck_Consider code)")
      case True
      have ss: "s' = s" using True q(1) ros im_wf_unique [of "cx_services c" i] get
        by (auto simp: roster_ok_def im_get_in_set)
      have "sr_running r = None" using True consider_startD r by fastforce
      then have "runtime_ok (ss_restart (svc_spec s)) (r\<lparr> sr_blocked_on := bs \<rparr>)" for bs
        using runtime_ok_blocked [OF own(2)] by blast
      then show ?thesis
        using True q(2) r eff own(2) ss
        by (auto simp: record_runtime_def Let_def im_get_insert split: if_splits option.splits)
    next
      case False
      then have "im_get (cx_runtimes ?c) j = im_get (cx_runtimes c) j"
        using eff record_runtime_other [of j "(i, s)" "pe_now env" "cx_runtimes c"]
        by (auto simp: record_runtime_def split: start_check.splits)
      then show ?thesis
        using q runtimes_okD [OF roster_ok_runtimes_ok [OF ros]] by simp
    qed
    then have "runtimes_ok (cx_services c) (cx_runtimes ?c)" by (auto simp: runtimes_ok_def)
    then have "roster_ok (cx_services ?c) (cx_runtimes ?c)"
      using roster_ok_same_keys [OF ros _ , of "cx_runtimes ?c"] eff
        record_runtime_keys [of "pe_now env" "(i, s)" "cx_runtimes c"] by simp
    then have "ctx_in_step {} ?c"
      using record_block_shown [OF _ get own(1)] Cons.prems(1) by (simp add: ctx_in_step_def)
    then show ?case
      using Cons.IH [of ?c] Cons.prems(2) p eff by simp
  qed simp
  then show ?thesis
    using assms unfolding record_stable_dependency_blocks_def by blast
qed

lemma ctx_in_step_ready:
  "ctx_in_step {} ctx \<Longrightarrow>
   ctx_in_step {} (schedule_ready env ctx) \<and> cx_services (schedule_ready env ctx) = cx_services ctx"
proof (induction env ctx rule: schedule_ready.induct)
  case (1 env ctx)
  obtain b ctx' where round: "schedule_round env ctx = (b, ctx')" by fastforce
  note ok = ctx_in_step_round [OF 1(2) round]
  show ?case
  proof (cases b)
    case True
    have "schedule_ready env ctx = schedule_ready env ctx'"
      using round True by (subst schedule_ready.simps) simp
    then show ?thesis
      using 1(1) [OF refl, of b ctx'] round True ok by simp
  next
    case False
    have "schedule_ready env ctx = record_stable_dependency_blocks env ctx'"
      using round False by (subst schedule_ready.simps) simp
    then show ?thesis using ctx_in_step_record [of ctx' env] ok by simp
  qed
qed

lemma in_step_ready [in_step_intros]:
  assumes "in_step {} sc"
  shows "in_step {} (with_context sc (schedule_ready env (context_of sc)))"
proof -
  have "ctx_in_step {} (context_of sc)"
    using assms by (simp add: in_step_def ctx_in_step_def context_of_def)
  moreover define c where "c = schedule_ready env (context_of sc)"
  ultimately have "ctx_in_step {} c" "cx_services c = cx_services (context_of sc)"
    using ctx_in_step_ready by blast+
  moreover have "cx_services (context_of sc) = sc_services sc" by (simp add: context_of_def)
  ultimately show ?thesis
    unfolding c_def [symmetric] by (simp add: in_step_def ctx_in_step_def with_context_def)
qed

end
