(* ===== verification/Handlers.thy ===== *)
theory Handlers
  imports Publishing
begin

text \<open>
  What the handlers of the scheduler do when they succeed, step by step, and the proof that each of
  them keeps the roster, the runtimes and the published model together.
\<close>

section \<open>What an accepted dynamic request does\<close>

lemma service_dynamic_Inr:
  assumes "service_dynamic fs i spec origin retention = Inr s"
  shows "svc_id s = i \<and> svc_spec s = spec \<and> svc_origin s = origin \<and> svc_log_retention s = retention"
  using assms by (auto simp: service_dynamic_def split: sum.splits)

lemma replace_spec_Inr:
  assumes "replace_spec fs spec s = Inr s'"
  shows "svc_id s' = svc_id s \<and> svc_spec s' = spec \<and> svc_origin s' = svc_origin s"
  using assms by (auto simp: replace_spec_def split: sum.splits)

lemma dynamic_origin_Inr: "dynamic_origin_of s = Inr v \<longleftrightarrow> svc_origin s = ServiceOrigin_Dynamic v"
  by (auto simp: dynamic_origin_of_def split: service_origin.splits)

lemma already_exists_Inr: "already_exists i sc = Inr u \<longleftrightarrow> im_get (sc_services sc) i = None"
  by (auto simp: already_exists_def split: option.splits)

lemma require_slot_Inr:
  "require_dynamic_slot cf sc = Inr u \<longleftrightarrow>
     live_dynamic_count (sc_services sc) (sc_runtimes sc) < dy_max_services (cf_policy cf)"
  by (simp add: require_dynamic_slot_def Let_def ensure_Inr)

lemma lease_deadlines_Inr:
  assumes "lease_deadlines wk lifetime = Inr (at, unix)"
  shows "(at = None \<longleftrightarrow> lifetime = None) \<and> (unix = None \<longleftrightarrow> lifetime = None) \<and>
    (\<forall>d. lifetime = Some d \<longrightarrow> at = instant_checked_add (wk_now wk) d)"
  using assms
  by (auto simp: lease_deadlines_def result_simps expiry_deadline_def Let_def split: option.splits)

lemma effective_lifetime_capped: "maximum \<noteq> None \<Longrightarrow> effective_lifetime maximum requested \<noteq> None"
  by (auto simp: effective_lifetime_def split: option.split lease.split)

lemma materialize_lifetime:
  assumes "materialize_spec cf wk services params = Inr (spec, lifetime)"
  shows "lifetime = effective_lifetime (dy_max_lifetime (cf_policy cf)) (dp_expires_after params)"
  using assms by (auto simp: materialize_spec_def result_simps Let_def)

text \<open>The accepted start.\<close>

definition started_dynamic ::
  "session_config \<Rightarrow> wake \<Rightarrow> dynamic_service_params \<Rightarrow> scheduler \<Rightarrow> service \<Rightarrow> instant option \<Rightarrow>
   u64 option \<Rightarrow> bool"
where
  "started_dynamic cf wk params sc s expires_at expires_unix \<longleftrightarrow>
     dy_enabled (cf_policy cf) \<and> service_id_is_valid (dp_service params) \<and>
     im_get (sc_services sc) (dp_service params) = None \<and>
     live_dynamic_count (sc_services sc) (sc_runtimes sc) < dy_max_services (cf_policy cf) \<and>
     lease_deadlines wk
       (effective_lifetime (dy_max_lifetime (cf_policy cf)) (dp_expires_after params)) =
       Inr (expires_at, expires_unix) \<and>
     svc_id s = dp_service params \<and>
     svc_origin s = ServiceOrigin_Dynamic
       \<lparr> do_created_at_unix_ms = unix_or_default wk, do_expires_at_unix_ms = expires_unix,
         do_owner = dp_owner params, do_revision = 1 \<rparr> \<and>
     validate_candidate cf wk sc s = Inr ()"

lemma replay_someD:
  assumes "replay_idempotent key digest sc = Inr (Some a)"
  obtains k rec where "key = Some k" "rec \<in> set (sc_idempotency sc)" "id_key rec = k"
    "id_digest rec = digest" "a = (id_ack rec)\<lparr> da_idempotent_replay := True \<rparr>"
  using assms
  by (auto simp: replay_idempotent_def dest!: find_SomeD split: option.splits if_splits)

lemma start_new_Inr:
  assumes "start_new cf wk params digest sc = Inr (ack, sc')"
    and "dy_enabled (cf_policy cf)" and "service_id_is_valid (dp_service params)"
  obtains s expires_at expires_unix where
    "started_dynamic cf wk params sc s expires_at expires_unix"
    "ack = dynamic_service_ack_new (dp_service params) 1 0 expires_unix (svc_spec s) False False"
    "sc' = remember_idempotent (dp_idempotency_key params) digest ack
             (install_dynamic cf wk s expires_at expires_unix sc)"
proof -
  obtain spec lifetime expires_at expires_unix s where
    "already_exists (dp_service params) sc = Inr ()" "require_dynamic_slot cf sc = Inr ()"
    and m: "materialize_spec cf wk (sc_services sc) params = Inr (spec, lifetime)"
    and l: "lease_deadlines wk lifetime = Inr (expires_at, expires_unix)"
    and d: "service_dynamic (wk_fs wk) (dp_service params) spec
                (ServiceOrigin_Dynamic
                   \<lparr> do_created_at_unix_ms = unix_or_default wk,
                     do_expires_at_unix_ms = expires_unix, do_owner = dp_owner params,
                     do_revision = 1 \<rparr>)
                (cf_log_retention cf) = Inr s"
    and "validate_candidate cf wk sc s = Inr ()"
    and fin: "ack = dynamic_service_ack_new (dp_service params) 1 0 expires_unix spec False False"
      "sc' = remember_idempotent (dp_idempotency_key params) digest ack
                       (install_dynamic cf wk s expires_at expires_unix sc)"
    using assms(1) by (auto simp: start_new_def result_simps Let_def)
  moreover note service_dynamic_Inr [OF d] materialize_lifetime [OF m]
  ultimately have "started_dynamic cf wk params sc s expires_at expires_unix"
    using assms(2,3) by (simp add: started_dynamic_def already_exists_Inr require_slot_Inr)
  then show thesis
    by (rule that [OF _ _ fin(2)]) (use fin(1) service_dynamic_Inr [OF d] in simp)
qed

lemma start_dynamic_cases:
  assumes "start_dynamic cf wk params sc = Inr (ack, sc')"
  obtains (replayed) k where "dp_idempotency_key params = Some k" "sc' = sc"
    "k \<in> id_key ` set (sc_idempotency sc)" "da_idempotent_replay ack"
  | (started) s expires_at expires_unix digest where
    "started_dynamic cf wk params sc s expires_at expires_unix"
    "ack = dynamic_service_ack_new (dp_service params) 1 0 expires_unix (svc_spec s) False False"
    "sc' = remember_idempotent (dp_idempotency_key params) digest ack
             (install_dynamic cf wk s expires_at expires_unix sc)"
proof -
  obtain digest replay where pre: "dy_enabled (cf_policy cf)" "service_id_is_valid (dp_service params)"
    "replay_idempotent (dp_idempotency_key params) digest sc = Inr replay"
    and body: "(case replay of Some ack \<Rightarrow> Inr (ack, sc)
        | None \<Rightarrow> start_new cf wk params digest sc) = Inr (ack, sc')"
    using assms unfolding start_dynamic_def result_simps require_dynamic_enabled_def
      validate_service_id_def by blast
  show thesis
  proof (cases replay)
    case (Some a)
    show thesis
      by (rule replay_someD [OF pre(3) [unfolded Some]]) (use replayed body Some in auto)
  next
    case None
    then show thesis
      using body by (auto elim!: start_new_Inr [OF _ pre(1,2)] intro: started)
  qed
qed

text \<open>The accepted replacement.\<close>

definition replaced_dynamic ::
  "session_config \<Rightarrow> wake \<Rightarrow> service_id \<Rightarrow> u64 \<Rightarrow> dynamic_service_params \<Rightarrow> scheduler \<Rightarrow> service \<Rightarrow>
   dynamic_origin \<Rightarrow> service_runtime \<Rightarrow> service \<Rightarrow> instant option \<Rightarrow> u64 option \<Rightarrow> bool"
where
  "replaced_dynamic cf wk i expected params sc current origin r candidate expires_at expires_unix \<longleftrightarrow>
     dy_enabled (cf_policy cf) \<and> dp_service params = i \<and>
     im_get (sc_services sc) i = Some current \<and> im_get (sc_runtimes sc) i = Some r \<and>
     svc_origin current = ServiceOrigin_Dynamic origin \<and> do_revision origin = expected \<and>
     (is_retired r \<longrightarrow>
        live_dynamic_count (sc_services sc) (sc_runtimes sc) < dy_max_services (cf_policy cf)) \<and>
     lease_deadlines wk
       (effective_lifetime (dy_max_lifetime (cf_policy cf)) (dp_expires_after params)) =
       Inr (expires_at, expires_unix) \<and>
     svc_id candidate = svc_id current \<and>
     u64_checked_add expected 1 =
       (case svc_origin candidate of
          ServiceOrigin_Dynamic o' \<Rightarrow> Some (do_revision o') | ServiceOrigin_Configured \<Rightarrow> None) \<and>
     (\<exists>o'. svc_origin candidate = ServiceOrigin_Dynamic o' \<and>
        do_created_at_unix_ms o' = do_created_at_unix_ms origin \<and>
        do_expires_at_unix_ms o' = expires_unix) \<and>
     validate_candidate cf wk sc candidate = Inr ()"

lemma retired_dynamic_state:
  "im_get rts i = Some r \<Longrightarrow> svc_origin s = ServiceOrigin_Dynamic v \<Longrightarrow>
   roster_entry_state rts i s =
     Some (if is_retired r then RosterEntryState_RetiredDynamic else RosterEntryState_LiveDynamic)"
  by (simp add: roster_entry_state_def)

lemma replace_existing_Inr:
  assumes "replace_existing cf wk i expected params digest sc = Inr (ack, sc')"
    and "dy_enabled (cf_policy cf)" and "dp_service params = i"
  obtains current origin r candidate expires_at expires_unix detail where
    "replaced_dynamic cf wk i expected params sc current origin r candidate expires_at expires_unix"
    "ack = dynamic_service_ack_new i (expected + 1) (run_generation r) expires_unix (svc_spec candidate)
       False False"
    "sc' = remember_idempotent (dp_idempotency_key params) digest ack
       (log_event cf wk i ServiceEventKind_Replaced detail
         (sync wk i (insert_definition i candidate
           (modify_runtime i (replace_runtime (svc_spec candidate) expires_at) sc))))"
proof -
  obtain current origin revision spec lifetime expires_at expires_unix replaced r where
    cur: "im_get (sc_services sc) i = Some current" "svc_origin current = ServiceOrigin_Dynamic origin"
      "do_revision origin = expected"
      "(if roster_entry_state (sc_runtimes sc) i current = Some RosterEntryState_RetiredDynamic
        then require_dynamic_slot cf sc else Inr ()) = Inr ()"
    and rev: "u64_checked_add (do_revision origin) 1 = Some revision"
    and m: "materialize_spec cf wk (sc_services sc) params = Inr (spec, lifetime)"
    and l: "lease_deadlines wk lifetime = Inr (expires_at, expires_unix)"
    and d: "replace_spec (wk_fs wk) spec current = Inr replaced"
    and r: "im_get (sc_runtimes sc) i = Some r"
    and v: "validate_candidate cf wk sc (replaced\<lparr> svc_origin := ServiceOrigin_Dynamic
           \<lparr> do_created_at_unix_ms = do_created_at_unix_ms origin,
             do_expires_at_unix_ms = expires_unix,
             do_owner = (case dp_owner params of None \<Rightarrow> do_owner origin | Some x \<Rightarrow> Some x),
             do_revision = revision \<rparr> \<rparr>) = Inr ()"
    and fin: "ack = dynamic_service_ack_new i revision (run_generation r) expires_unix spec False False"
      "sc' = remember_idempotent (dp_idempotency_key params) digest ack
        (log_event cf wk i ServiceEventKind_Replaced
           (''dynamic service replaced with revision '' @ show_u64 revision @ ''; '' @
            lease_detail expires_unix) (sync wk i
             (sc\<lparr> sc_runtimes := im_insert i (replace_runtime spec expires_at r) (sc_runtimes sc),
                  sc_services := im_insert i (replaced\<lparr> svc_origin := ServiceOrigin_Dynamic
                     \<lparr> do_created_at_unix_ms = do_created_at_unix_ms origin,
                       do_expires_at_unix_ms = expires_unix,
                       do_owner = (case dp_owner params of None \<Rightarrow> do_owner origin | Some x \<Rightarrow> Some x),
                       do_revision = revision \<rparr> \<rparr>) (sc_services sc) \<rparr>)))"
    using assms(1) unfolding replace_existing_def Let_def result_simps dynamic_origin_Inr
    by (auto simp: result_simps)
  define candidate where "candidate = replaced\<lparr> svc_origin := ServiceOrigin_Dynamic
           \<lparr> do_created_at_unix_ms = do_created_at_unix_ms origin,
             do_expires_at_unix_ms = expires_unix,
             do_owner = (case dp_owner params of None \<Rightarrow> do_owner origin | Some x \<Rightarrow> Some x),
             do_revision = revision \<rparr> \<rparr>"
  note eq = replace_spec_Inr [OF d]
  have slot: "is_retired r \<longrightarrow>
      live_dynamic_count (sc_services sc) (sc_runtimes sc) < dy_max_services (cf_policy cf)"
    using cur(4) retired_dynamic_state [OF r cur(2)] by (auto simp: require_slot_Inr)
  have accepted: "replaced_dynamic cf wk i expected params sc current origin r candidate expires_at expires_unix"
    using assms(2,3) cur rev l v r eq slot materialize_lifetime [OF m]
    unfolding replaced_dynamic_def by (simp add: candidate_def)
  have "revision = expected + 1"
    using rev cur(3) by (auto simp: u64_checked_add_def split: if_splits)
  then show thesis
    by (intro that [OF accepted, where detail = "''dynamic service replaced with revision '' @ show_u64 revision @
            ''; '' @ lease_detail expires_unix"])
       (use fin r eq in \<open>auto simp: candidate_def modify_runtime_def insert_definition_def\<close>)
qed

lemma replace_dynamic_cases:
  assumes "replace_dynamic cf wk i expected params sc = Inr (ack, sc')"
  obtains (replayed) k where "dp_idempotency_key params = Some k" "sc' = sc"
    "k \<in> id_key ` set (sc_idempotency sc)" "da_idempotent_replay ack"
  | (replaced) current origin r candidate expires_at expires_unix digest detail where
    "replaced_dynamic cf wk i expected params sc current origin r candidate expires_at expires_unix"
    "ack = dynamic_service_ack_new i (expected + 1) (run_generation r) expires_unix (svc_spec candidate)
       False False"
    "sc' = remember_idempotent (dp_idempotency_key params) digest ack
       (log_event cf wk i ServiceEventKind_Replaced detail
         (sync wk i (insert_definition i candidate
           (modify_runtime i (replace_runtime (svc_spec candidate) expires_at) sc))))"
proof -
  obtain digest replay where pre: "dy_enabled (cf_policy cf)" "dp_service params = i"
    "replay_idempotent (dp_idempotency_key params) digest sc = Inr replay"
    and body: "(case replay of Some ack \<Rightarrow> Inr (ack, sc)
        | None \<Rightarrow> replace_existing cf wk i expected params digest sc) = Inr (ack, sc')"
    using assms unfolding replace_dynamic_def result_simps require_dynamic_enabled_def by blast
  show thesis
  proof (cases replay)
    case (Some a)
    show thesis
      by (rule replay_someD [OF pre(3) [unfolded Some]]) (use replayed body Some in auto)
  next
    case None
    then have "replace_existing cf wk i expected params digest sc = Inr (ack, sc')" using body by simp
    then show thesis
      by (rule replace_existing_Inr [OF _ pre(1,2)]) (rule replaced)
  qed
qed

section \<open>Dynamic services\<close>

lemma in_step_remember [in_step_intros]:
  "in_step X sc \<Longrightarrow> in_step X (remember_idempotent key digest ack sc)"
  by (rule in_step_same) (simp_all add: remember_idempotent_def)

lemma runtime_ok_fresh_dynamic:
  "runtime_ok (ss_restart (svc_spec s)) (request_enable ((runtime_new s)\<lparr> sr_expires_at := at \<rparr>))"
  by (intro runtime_ok_intros) (simp_all add: runtime_new_def Let_def)

lemma fresh_dynamic_idle: "sr_running (request_enable ((runtime_new s)\<lparr> sr_expires_at := at \<rparr>)) = None"
  by (simp add: request_enable_def signal_restart_def runtime_new_def Let_def split: state.split)

lemma in_step_install_dynamic:
  assumes "in_step X sc" and "im_get (sc_services sc) (svc_id s) = None"
  shows "in_step X (install_dynamic cf wk s expires_at expires_unix sc)"
  unfolding install_dynamic_def Let_def
  by (rule in_step_log_event, rule in_step_install [OF assms refl])
     (rule runtime_ok_fresh_dynamic, rule fresh_dynamic_idle)

lemma in_step_start_dynamic:
  assumes "in_step {} sc" and "start_dynamic cf wk params sc = Inr (ack, sc')"
  shows "in_step {} sc'"
  using assms(2)
proof (cases rule: start_dynamic_cases)
  case (started s expires_at expires_unix digest)
  then show ?thesis
    using in_step_install_dynamic [OF assms(1)]
    by (auto simp: started_dynamic_def intro: in_step_remember)
qed (use assms(1) in simp)

lemma in_step_replace_dynamic:
  assumes "in_step {} sc" and "replace_dynamic cf wk i expected params sc = Inr (ack, sc')"
  shows "in_step {} sc'"
  using assms(2)
proof (cases rule: replace_dynamic_cases)
  case (replaced current origin r candidate expires_at expires_unix digest detail)
  have ros: "roster_ok (sc_services sc) (sc_runtimes sc)" using assms(1) by (simp add: in_step_def)
  have "in_step (insert i {}) (insert_definition i candidate
      (modify_runtime i (replace_runtime (svc_spec candidate) expires_at) sc))"
  proof (rule in_step_redefine [OF assms(1)])
    show "im_get (sc_services sc) i \<noteq> None" "svc_id candidate = i"
      using replaced(1) roster_okD [OF ros] by (auto simp: replaced_dynamic_def)
  next
    fix s r assume "runtime_ok (ss_restart (svc_spec s)) r"
    then show "runtime_ok (ss_restart (svc_spec candidate))
        (replace_runtime (svc_spec candidate) expires_at r)"
      unfolding replace_runtime_def
      by (intro runtime_ok_restart runtime_ok_reconfigure runtime_ok_revive)
         (simp_all add: runtime_reconfigure_def)
  qed
  from in_step_sync [OF this, where i = i and wk = wk] show ?thesis
    using replaced(3) by (auto intro: in_step_remember in_step_log_event)
qed (use assms(1) in simp)

lemma runtime_ok_retired [runtime_ok_intros]:
  "runtime_ok policy r \<Longrightarrow> runtime_ok policy (retire_runtime wk reason r)"
  unfolding retire_runtime_def by (rule runtime_ok_retire)

lemma in_step_stop_dynamic:
  assumes "in_step {} sc" and "stop_dynamic cf wk i sc = Inr (ack, sc')"
  shows "in_step {} sc'"
  using assms
  by (auto simp: stop_dynamic_def result_simps
      intro!: in_step_log_event in_step_modify_sync runtime_ok_retired split: if_splits)

text \<open>The accepted renewal.\<close>

lemma renew_dynamic_Inr:
  assumes "renew_dynamic cf wk i expected expires_after sc = Inr (ack, sc')"
  obtains s origin r expires_at expires_unix detail where
    "dy_enabled (cf_policy cf)" "im_get (sc_services sc) i = Some s"
    "im_get (sc_runtimes sc) i = Some r" "svc_origin s = ServiceOrigin_Dynamic origin"
    "do_revision origin = expected" "is_live r"
    "lease_deadlines wk (effective_lifetime (dy_max_lifetime (cf_policy cf)) expires_after) =
       Inr (expires_at, expires_unix)"
    "ack = dynamic_service_ack_new i expected (run_generation r) expires_unix (svc_spec s) False False"
    "sc' = log_event cf wk i ServiceEventKind_LeaseRenewed detail
       (sync wk i (insert_definition i
          (s\<lparr> svc_origin := ServiceOrigin_Dynamic (origin\<lparr> do_expires_at_unix_ms := expires_unix \<rparr>) \<rparr>)
          (modify_runtime i (\<lambda>r. r\<lparr> sr_expires_at := expires_at \<rparr>) sc)))"
  using assms
  by (auto simp: renew_dynamic_def result_simps Let_def dynamic_origin_Inr insert_definition_def
      require_dynamic_enabled_def)

lemma in_step_renew_dynamic:
  assumes "in_step {} sc" and "renew_dynamic cf wk i expected expires_after sc = Inr (ack, sc')"
  shows "in_step {} sc'"
proof -
  obtain s origin r expires_at expires_unix detail where
    s: "im_get (sc_services sc) i = Some s" and r: "im_get (sc_runtimes sc) i = Some r" and "is_live r"
    and sc': "sc' = log_event cf wk i ServiceEventKind_LeaseRenewed detail
       (sync wk i (insert_definition i
          (s\<lparr> svc_origin := ServiceOrigin_Dynamic (origin\<lparr> do_expires_at_unix_ms := expires_unix \<rparr>) \<rparr>)
          (modify_runtime i (\<lambda>r. r\<lparr> sr_expires_at := expires_at \<rparr>) sc)))"
    by (rule renew_dynamic_Inr [OF assms(2)])
  have ros: "roster_ok (sc_services sc) (sc_runtimes sc)" using assms(1) by (simp add: in_step_def)
  have "in_step (insert i {}) (insert_definition i
          (s\<lparr> svc_origin := ServiceOrigin_Dynamic (origin\<lparr> do_expires_at_unix_ms := expires_unix \<rparr>) \<rparr>)
          (modify_runtime i (\<lambda>r. r\<lparr> sr_expires_at := expires_at \<rparr>) sc))"
    by (rule in_step_redefine [OF assms(1)])
       (use s r \<open>is_live r\<close> roster_okD [OF ros s r] in
         \<open>auto simp: is_live_def intro!: runtime_ok_expires\<close>)
  from in_step_sync [OF this, where i = i and wk = wk] show ?thesis
    unfolding sc' by (auto intro: in_step_log_event)
qed

section \<open>Expiry and eviction\<close>

lemma in_step_fold:
  assumes "in_step X sc" and "\<And>x sc. in_step X sc \<Longrightarrow> in_step X (f x sc)"
  shows "in_step X (fold f xs sc)"
  using assms by (induction xs arbitrary: sc) auto

lemma in_step_expire_service [in_step_intros]: "in_step {} sc \<Longrightarrow> in_step {} (expire_service cf wk i sc)"
  unfolding expire_service_def by (intro in_step_log_event in_step_modify_sync runtime_ok_retired)

lemma in_step_expire_due: "in_step {} sc \<Longrightarrow> in_step {} (snd (expire_due cf wk sc))"
  unfolding expire_due_def Let_def
  by (auto intro: in_step_fold in_step_expire_service)

lemma in_step_evict [in_step_intros]: "in_step {} sc \<Longrightarrow> in_step {} (evict_retired cf sc)"
proof (induction cf sc rule: evict_retired.induct)
  case (1 cf sc)
  then show ?case
    by (subst evict_retired.simps) (auto simp: in_step_remove_entry split: option.split)
qed

section \<open>Process events, input and timers\<close>

lemma project_drops [simp]: "project_snapshot now s (r\<lparr> sr_input_drops := t \<rparr>) = project_snapshot now s r"
  by (cases "sr_running r") (simp_all add: project_snapshot_def Let_def run_generation_def current_run_id_def)

lemma project_drains [simp]:
  "project_snapshot now s (r\<lparr> sr_draining_log_readers := ds \<rparr>) = project_snapshot now s r"
  by (cases "sr_running r") (simp_all add: project_snapshot_def Let_def run_generation_def current_run_id_def)

lemma in_step_input_drop [in_step_intros]:
  "in_step X sc \<Longrightarrow> in_step X (record_input_drop cf wk i kind reason sc)"
  unfolding record_input_drop_def
  by (auto simp: Let_def intro!: in_step_log_event in_step_modify_quiet runtime_ok_drops
      split: option.split prod.split)

lemma running_ptyD:
  assumes "running_pty i sc = Inr h" and "im_get (sc_runtimes sc) i = Some r"
  shows "\<exists>running. sr_running r = Some running \<and> rs_pty running = h"
  using assms by (auto simp: running_pty_def ok_or_Inr)

lemma project_pty [simp]:
  "project_snapshot now s (r\<lparr> sr_running := map_option (\<lambda>running. running\<lparr> rs_pty := f running \<rparr>)
     (sr_running r) \<rparr>) = project_snapshot now s r"
  by (cases "sr_running r") (simp_all add: project_snapshot_def Let_def run_generation_def current_run_id_def)

lemma in_step_handle_input [in_step_intros]: "in_step X sc \<Longrightarrow> in_step X (handle_input cf wk input sc)"
  unfolding handle_input_def Let_def set_pty_def
  by (auto intro!: in_step_input_drop in_step_modify_quiet runtime_ok_pty split: sum.split)

lemma in_step_drop_reports [in_step_intros]:
  assumes "in_step X sc"
  shows "in_step X (report_due_input_drops cf wk sc)"
  unfolding report_due_input_drops_def Let_def
  by (rule in_step_fold, rule in_step_map [OF assms])
     (auto intro: runtime_ok_drops in_step_log_event)

lemma in_step_cancel_drains [in_step_intros]:
  assumes "in_step X sc"
  shows "in_step X (cancel_due_drains wk sc)"
  unfolding cancel_due_drains_def
  by (rule in_step_map [OF assms]) (auto simp: runtime_cancel_due_drains_def intro: runtime_ok_drains)

lemma in_step_exit_event:
  assumes "in_step {} sc"
  shows "in_step {} (snd (handle_exit_event cf wk i rid code sc))"
proof (cases "im_get (sc_services sc) i")
  case None
  then show ?thesis
    using in_step_sync [OF assms, where i = i and wk = wk]
    by (auto simp: handle_exit_event_def Let_def intro!: in_step_write_event split: option.split)
next
  case (Some s)
  have "in_step {} (sync wk i (modify_runtime i (finish_current_run (wk_now wk) p code) sc))" for p
    by (intro in_step_modify_sync [OF assms] runtime_ok_finish)
  then show ?thesis
    using Some
    by (auto simp: handle_exit_event_def Let_def intro!: in_step_write_event split: option.split)
qed

lemma in_step_health_event:
  assumes "in_step {} sc"
  shows "in_step {} (snd (handle_health_event cf wk i h kind detail sc))"
  using assms
  by (auto simp: handle_health_event_def Let_def
      intro!: in_step_log_event in_step_modify_sync runtime_ok_health)

lemma event_relevant_running:
  "event_relevant (ProcessEvent_Killed i rid) r \<Longrightarrow> sr_running r \<noteq> None"
  by (auto simp: event_relevant_def current_run_id_def)

lemma project_log_reader [simp]:
  "project_snapshot now s (finish_log_reader rid r) = project_snapshot now s r"
  by (cases "sr_running r")
     (simp_all add: project_snapshot_def Let_def run_generation_def current_run_id_def finish_log_reader_def)

lemma in_step_event:
  assumes "in_step {} sc"
  shows "in_step {} (snd (handle_event cf wk ev sc))"
proof (cases "im_get (sc_runtimes sc) (event_service_id ev)")
  case (Some r)
  show ?thesis
  proof (cases "event_relevant ev r")
    case True
    have "in_step {} (sync wk i (modify_runtime i mark_killed sc))" if "ev = ProcessEvent_Killed i rid" for i rid
      using Some True that event_relevant_running
      by (intro in_step_modify_sync [OF assms] runtime_ok_killed) auto
    moreover have "in_step {} (modify_runtime i (finish_log_reader rid) sc)" for i rid
      by (intro in_step_modify_quiet [OF assms] runtime_ok_log_reader) auto
    ultimately show ?thesis
      using Some True assms
      by (cases ev)
         (auto simp: handle_event_def Let_def in_step_exit_event in_step_health_event in_step_input_drop)
  qed (use Some assms in \<open>simp add: handle_event_def Let_def\<close>)
qed (use assms in \<open>simp add: handle_event_def Let_def\<close>)

lemma in_step_events [in_step_intros]: "in_step {} sc \<Longrightarrow> in_step {} (handle_events cf evs sc)"
  unfolding handle_events_def by (rule in_step_fold) (auto intro: in_step_event)

section \<open>Reload\<close>

text \<open>
  What the parser delivers: configured services under their own ids. The events that arrive while a
  load is awaited are arbitrary.
\<close>

definition configured_ok :: "service_map \<Rightarrow> bool" where
  "configured_ok services \<longleftrightarrow>
     im_wf services \<and>
     list_all (\<lambda>(i, s). svc_id s = i \<and> svc_origin s = ServiceOrigin_Configured) services"

definition load_ok :: "load \<Rightarrow> bool" where
  "load_ok ld \<longleftrightarrow>
     (case ld of
        Load_Finished evs parsed \<Rightarrow> (case parsed of Inl _ \<Rightarrow> True | Inr services \<Rightarrow> configured_ok services)
      | Load_Interrupted evs \<Rightarrow> True)"

lemma configured_okD:
  "configured_ok services \<Longrightarrow> im_get services i = Some s \<Longrightarrow>
     svc_id s = i \<and> svc_origin s = ServiceOrigin_Configured"
  by (auto simp: configured_ok_def list_all_iff dest: map_of_SomeD)

lemma load_services_Inr:
  "load_services cf path parsed = Inr services \<longleftrightarrow>
     parsed = Inr services \<and> service_graph_new (cf_toposort cf) services = Inr ()"
  by (auto simp: load_services_def result_simps)

lemma in_step_shutdown_flag [in_step_intros]: "in_step X sc \<Longrightarrow> in_step X (sc\<lparr> sc_shutdown := b \<rparr>)"
  by (rule in_step_same) simp_all

lemma await_loaded:
  assumes "await_loaded_services cf path ld sc = (result, sc')" and "load_ok ld"
  shows "in_step {} sc \<Longrightarrow> in_step {} sc'"
    and "result = Inr services \<Longrightarrow>
      configured_ok services \<and> service_graph_new (cf_toposort cf) services = Inr ()"
  using assms
  by (auto simp: await_loaded_services_def load_ok_def load_services_Inr
      intro!: in_step_shutdown_flag in_step_events split: if_splits load.splits)

lemma in_step_sync_fold:
  "in_step X sc \<Longrightarrow> in_step (X - set is) (fold (sync wk) is sc)"
proof (induction "is" arbitrary: X sc)
  case (Cons i "is")
  have "X - set (i # is) = X - {i} - set is" by auto
  then show ?case using Cons.IH [OF in_step_sync [OF Cons.prems, where i = i and wk = wk]] by simp
qed simp

lemma in_step_sync_all [in_step_intros]:
  assumes "in_step X sc"
  shows "in_step {} (sync_all wk sc)"
proof -
  have *: "in_step (X - set (im_keys (sc_services sc))) (sync_all wk sc)"
    unfolding sync_all_def by (rule in_step_sync_fold [OF assms])
  have same: "sc_services (fold (sync wk) is sc) = sc_services sc" for "is" and sc :: scheduler
    by (induction "is" arbitrary: sc) (auto simp: sync_def split: option.split)
  have "dom (im_get (sc_services (sync_all wk sc))) = set (im_keys (sc_services sc))"
    by (simp add: sync_all_def same set_im_keys)
  then have "i \<notin> X - set (im_keys (sc_services sc))"
    if "im_get (sc_services (sync_all wk sc)) i = Some s" for i s
    using that by auto
  then show ?thesis
    using * unfolding in_step_def shown_def by blast
qed

text \<open>The roster after a reload has the services it had before.\<close>

lemma merged_get:
  assumes "distinct (im_keys services)"
  shows "im_get (merge_reloaded services rts updated) i =
    (case im_get services i of
       Some s \<Rightarrow> if kept_by_reload rts (i, s) then Some s else im_get updated i
     | None \<Rightarrow> im_get updated i)"
  unfolding merge_reloaded_def
  using im_get_fold_insert [OF im_keys_filter_distinct [OF assms]] im_get_filter [OF assms]
  by (simp split: option.split)

text \<open>An accepted reload: every service is kept, or is live, configured and redefined.\<close>

lemma live_or_kept:
  assumes "im_get rts i = Some r"
  shows "live_configured rts (i, s) \<longleftrightarrow> \<not> kept_by_reload rts (i, s)"
  using assms
  by (auto simp: live_configured_def kept_by_reload_def roster_entry_state_def
      split: service_origin.splits bool.splits if_splits)

lemma reload_validated:
  assumes "validate_reloaded_services services rts updated = Inr ()"
  shows "i \<in> set (im_keys updated) \<longleftrightarrow> i \<in> set (im_keys (filter (live_configured rts) services))"
proof -
  let ?live = "im_keys (filter (live_configured rts) services)"
  have "filter (\<lambda>i. \<not> im_contains updated i) ?live = []"
    "filter (\<lambda>i. i \<notin> set ?live) (im_keys updated) = []"
    using assms by (auto simp: validate_reloaded_services_def Let_def split: option.splits if_splits)
  then show ?thesis
    by (auto simp: filter_empty_conv im_contains_iff)
qed

lemma reload_merged:
  assumes ros: "roster_ok services rts" and upd: "configured_ok updated"
    and val: "validate_reloaded_services services rts updated = Inr ()"
  defines "merged \<equiv> merge_reloaded services rts updated"
  shows "im_wf merged" and "dom (im_get merged) = dom (im_get services)"
    and "im_get services i = Some s \<Longrightarrow>
      (kept_by_reload rts (i, s) \<and> im_get merged i = Some s) \<or>
      (live_configured rts (i, s) \<and>
       (\<exists>u. im_get merged i = Some u \<and> im_get updated i = Some u \<and> svc_id u = i \<and>
          svc_origin u = ServiceOrigin_Configured))"
proof -
  have wf: "distinct (im_keys services)" using ros by (simp add: roster_ok_def im_wf_def)
  show "im_wf merged"
    unfolding merged_def merge_reloaded_def
    by (rule im_wf_fold_insert) (use upd in \<open>simp add: configured_ok_def\<close>)
  have live: "im_get updated i \<noteq> None \<longleftrightarrow>
      (\<exists>s. im_get services i = Some s \<and> live_configured rts (i, s))" for i
    using reload_validated [OF val, of i] im_get_filter [OF wf, of "live_configured rts" i]
      im_get_None [of updated i] im_get_None [of "filter (live_configured rts) services" i]
    by (simp split: option.splits if_splits)
  show own: "(kept_by_reload rts (i, s) \<and> im_get merged i = Some s) \<or>
      (live_configured rts (i, s) \<and>
       (\<exists>u. im_get merged i = Some u \<and> im_get updated i = Some u \<and> svc_id u = i \<and>
          svc_origin u = ServiceOrigin_Configured))"
    if s: "im_get services i = Some s" for i s
  proof -
    obtain r where r: "im_get rts i = Some r" by (rule roster_ok_get [OF ros s])
    show ?thesis
    proof (cases "kept_by_reload rts (i, s)")
      case True
      then show ?thesis using s by (simp add: merged_def merged_get [OF wf])
    next
      case False
      then have "live_configured rts (i, s)" using live_or_kept [OF r] by simp
      moreover obtain u where "im_get updated i = Some u" using live s calculation by blast
      ultimately show ?thesis
        using False s configured_okD [OF upd] by (auto simp: merged_def merged_get [OF wf])
    qed
  qed
  have "im_get merged i \<noteq> None \<longleftrightarrow> im_get services i \<noteq> None" for i
    using own [of i] live [of i] by (cases "im_get services i") (auto simp: merged_def merged_get [OF wf])
  then show "dom (im_get merged) = dom (im_get services)" by (auto simp: dom_def)
qed

text \<open>The loop over the runtimes: each takes the policy of its service in the merged roster.\<close>

definition reconfigured :: "service_map \<Rightarrow> service_id \<Rightarrow> service_runtime \<Rightarrow> service_runtime" where
  "reconfigured merged i r =
     (case im_get merged i of
        None \<Rightarrow> r
      | Some s \<Rightarrow>
          if is_dynamic_origin (svc_origin s) then r
          else runtime_reconfigure (ss_restart (svc_spec s)) r)"

lemma reconfigure_service_eq:
  "sc_services (reconfigure_service cf merged i sc) = sc_services sc"
  "im_get (sc_runtimes (reconfigure_service cf merged i sc)) j =
     (if j = i then map_option (reconfigured merged i) (im_get (sc_runtimes sc) i)
      else im_get (sc_runtimes sc) j)"
  "im_keys (sc_runtimes (reconfigure_service cf merged i sc)) = im_keys (sc_runtimes sc)"
  by (cases "im_get (sc_runtimes sc) i";
      auto simp: reconfigure_service_def reconfigured_def modify_runtime_def Let_def im_get_insert
      im_keys_insert im_get_keys split: option.split)+

lemma reconfigure_service_model:
  "model_ok (sc_model sc) \<Longrightarrow> model_ok (sc_model (reconfigure_service cf merged i sc))"
  "published (sc_model (reconfigure_service cf merged i sc)) j = published (sc_model sc) j"
  by (auto simp: reconfigure_service_def Let_def model_ok_reconfigure_log published_reconfigure
      modify_runtime_def split: option.split)

lemma reconfigure_fold:
  fixes cf merged
  defines "F ks sc \<equiv> fold (reconfigure_service cf merged) ks sc"
  shows "sc_services (F ks sc) = sc_services sc"
    and "im_keys (sc_runtimes (F ks sc)) = im_keys (sc_runtimes sc)"
    and "distinct ks \<Longrightarrow> im_get (sc_runtimes (F ks sc)) j =
      (if j \<in> set ks then map_option (reconfigured merged j) (im_get (sc_runtimes sc) j)
       else im_get (sc_runtimes sc) j)"
    and "model_ok (sc_model sc) \<Longrightarrow> model_ok (sc_model (F ks sc))"
    and "published (sc_model (F ks sc)) j = published (sc_model sc) j"
  unfolding F_def
  by (induction ks arbitrary: sc)
     (auto simp: reconfigure_service_eq reconfigure_service_model split: if_splits)

lemma in_step_apply_reload:
  assumes step: "in_step {} sc" and upd: "configured_ok updated"
    and val: "validate_reloaded_services (sc_services sc) (sc_runtimes sc) updated = Inr ()"
  shows "in_step {} (apply_reload cf wk (merge_reloaded (sc_services sc) (sc_runtimes sc) updated) sc)"
proof -
  define merged where "merged = merge_reloaded (sc_services sc) (sc_runtimes sc) updated"
  define sc1 where "sc1 = fold (reconfigure_service cf merged) (im_keys (sc_runtimes sc)) sc"
  have ros: "roster_ok (sc_services sc) (sc_runtimes sc)" and shown: "shown {} (sc_services sc) (sc_runtimes sc) (sc_model sc)"
    using step by (simp_all add: in_step_def)
  have wf: "im_wf (sc_runtimes sc)" using ros unfolding roster_ok_def by (elim conjE)
  note merged = reload_merged [OF ros upd val, folded merged_def]
  note fold = reconfigure_fold [where cf = cf and merged = merged and sc = sc and ks = "im_keys (sc_runtimes sc)", folded sc1_def]
  have get: "im_get (sc_runtimes sc1) i = map_option (reconfigured merged i) (im_get (sc_runtimes sc) i)" for i
    using fold(3) wf im_get_None [of "sc_runtimes sc" i] by (auto simp: im_wf_def)
  have wf1: "im_wf (sc_runtimes sc1)" using wf by (simp add: im_wf_def fold(2))
  have "dom (im_get (sc_runtimes sc1)) = dom (im_get (sc_runtimes sc))"
    by (auto simp: get dom_def)
  then have doms: "dom (im_get (sc_runtimes sc1)) = dom (im_get merged)"
    using merged(2) roster_ok_dom [OF ros] by simp
  have own: "svc_id u = i \<and> runtime_ok (ss_restart (svc_spec u)) q"
    if u: "im_get merged i = Some u" and q: "im_get (sc_runtimes sc1) i = Some q" for i u q
  proof -
    obtain r where r: "im_get (sc_runtimes sc) i = Some r" "q = reconfigured merged i r"
      using q get by auto
    obtain s where s: "im_get (sc_services sc) i = Some s" by (rule roster_ok_pair [OF ros r(1)])
    note ok = roster_okD [OF ros s r(1)]
    have "runtime_ok (ss_restart (svc_spec u)) q \<and> svc_id u = i"
    proof (cases "is_dynamic_origin (svc_origin u)")
      case True
      then show ?thesis using merged(3) [OF s] u r ok by (auto simp: reconfigured_def)
    next
      case False
      then show ?thesis using merged(3) [OF s] u r ok
        by (auto simp: reconfigured_def intro: runtime_ok_reconfigure)
    qed
    then show ?thesis by simp
  qed
  have "roster_ok merged (sc_runtimes sc1)"
    unfolding roster_ok_def using merged(1) wf1 doms own by blast
  moreover have "shown UNIV merged (sc_runtimes sc1) (sc_model sc1)"
    using shown merged(2) fold(4) by (auto simp: shown_def fold(5) dom_def)
  ultimately have "in_step UNIV (sc1\<lparr> sc_services := merged \<rparr>)" by (simp add: in_step_def)
  then have "in_step {} (sync_all wk (sc1\<lparr> sc_services := merged \<rparr>))" by (rule in_step_sync_all)
  then show ?thesis
    unfolding apply_reload_def Let_def merged_def [symmetric] sc1_def [symmetric]
    by (rule in_step_fold) (rule in_step_log_event)
qed

lemma in_step_reload:
  assumes "in_step {} sc" and "load_ok ld"
  shows "in_step {} (snd (reload_services cf wk ld sc))"
proof (cases "cf_reload cf")
  case (Some path)
  obtain result sc1 where a: "await_loaded_services cf path ld sc = (result, sc1)" by fastforce
  note loaded = await_loaded [OF a assms(2)]
  have "in_step {} (apply_reload cf wk (merge_reloaded (sc_services sc1) (sc_runtimes sc1) updated) sc1)"
    if "result = Inr updated" "validate_reloaded_services (sc_services sc1) (sc_runtimes sc1) updated = Inr ()"
    for updated
    using in_step_apply_reload [OF loaded(1) [OF assms(1)] _ that(2)] loaded(2) that(1) by blast
  then show ?thesis
    using Some a loaded(1) [OF assms(1)]
    by (auto simp: reload_services_def result_simps Let_def split: sum.split)
qed (use assms in \<open>simp add: reload_services_def\<close>)

section \<open>Reconciliation\<close>

text \<open>A step of the reconciliation touches one service.\<close>

definition only_at :: "service_id \<Rightarrow> scheduler \<Rightarrow> scheduler \<Rightarrow> bool" where
  "only_at i sc sc' \<longleftrightarrow>
     (\<forall>j. j \<noteq> i \<longrightarrow>
        im_get (sc_services sc') j = im_get (sc_services sc) j \<and>
        im_get (sc_runtimes sc') j = im_get (sc_runtimes sc) j)"

lemma log_event_sel [simp]:
  "sc_services (log_event cf wk i kind detail sc) = sc_services sc"
  "sc_runtimes (log_event cf wk i kind detail sc) = sc_runtimes sc"
  by (simp_all add: log_event_def write_event_def)

lemma sync_sel [simp]: "sc_services (sync wk i sc) = sc_services sc" "sc_runtimes (sync wk i sc) = sc_runtimes sc"
  by (auto simp: sync_def split: option.split)

lemma set_retention_sel [simp]:
  "sc_services (set_retention cf i s sc) = sc_services sc"
  "sc_runtimes (set_retention cf i s sc) = sc_runtimes sc"
  by (simp_all add: set_retention_def)

lemma modify_runtime_sel [simp]:
  "sc_services (modify_runtime i f sc) = sc_services sc"
  "im_get (sc_runtimes (modify_runtime i f sc)) j =
     (if j = i then map_option f (im_get (sc_runtimes sc) i) else im_get (sc_runtimes sc) j)"
  by (auto simp: modify_runtime_def im_get_insert split: option.split)

lemma insert_definition_sel [simp]:
  "sc_services (insert_definition i s sc) = im_insert i s (sc_services sc)"
  "sc_runtimes (insert_definition i s sc) = sc_runtimes sc"
  by (simp_all add: insert_definition_def)

lemma apply_updated_only_at: "only_at i sc (apply_updated cf wk actions (i, s) sc)"
  by (auto simp: only_at_def apply_updated_def apply_added_def apply_changed_def Let_def im_get_insert
      split: option.split reconcile_action_kind.split)

lemma runtime_ok_revived [runtime_ok_intros]:
  assumes "runtime_ok policy r"
  shows "runtime_ok (ss_restart (svc_spec s)) (revive_runtime s r)"
proof -
  let ?r = "runtime_reconfigure (ss_restart (svc_spec s))
      (r\<lparr> sr_retired := None, sr_retired_at_unix_ms := None, sr_expires_at := None \<rparr>)"
  have ok: "runtime_ok (ss_restart (svc_spec s)) ?r"
    by (rule runtime_ok_reconfigure [OF runtime_ok_revive [OF assms]])
  have "sr_retired ?r = None" by (simp add: runtime_reconfigure_def)
  then show ?thesis
    unfolding revive_runtime_def Let_def
    using runtime_ok_restart [OF ok] runtime_ok_disable [OF ok] by (auto split: startup_mode.split)
qed

lemma in_step_redefined:
  assumes "in_step {} sc" and "im_get (sc_services sc) i \<noteq> None" and "svc_id s = i"
    and "\<And>p r. runtime_ok p r \<Longrightarrow> runtime_ok (ss_restart (svc_spec s)) (f r)"
  shows "in_step {} (sync wk i (set_retention cf i s (insert_definition i s (modify_runtime i f sc))))"
proof -
  have "in_step (insert i {}) (insert_definition i s (modify_runtime i f sc))"
    by (rule in_step_redefine [OF assms(1-3)]) (rule assms(4))
  from in_step_sync [OF in_step_retention [OF this, where i = i], where i = i and wk = wk]
  show ?thesis by simp
qed

lemma in_step_apply_changed:
  assumes "in_step {} sc" and "im_get (sc_services sc) i \<noteq> None" and "svc_id s = i"
  shows "in_step {} (apply_changed cf wk detail i s sc)"
  unfolding apply_changed_def
  by (rule in_step_log_event, rule in_step_redefined [OF assms]) (rule runtime_ok_reconfigure)

lemma in_step_apply_added:
  assumes "in_step {} sc" and "svc_id s = i"
    and "im_get (sc_services sc) i = None \<or>
      (\<exists>c. im_get (sc_services sc) i = Some c \<and>
         roster_entry_state (sc_runtimes sc) i c = Some RosterEntryState_RetiredConfigured)"
  shows "in_step {} (apply_added cf wk i s sc)"
proof (cases "im_get (sc_services sc) i")
  case None
  have "runtime_ok (ss_restart (svc_spec s)) (runtime_new s)" "sr_running (runtime_new s) = None"
    by (rule runtime_ok_new) (simp add: runtime_new_def Let_def)
  then show ?thesis
    using None in_step_install [OF assms(1) None assms(2)]
    by (auto simp: apply_added_def Let_def intro!: in_step_log_event)
next
  case (Some c)
  have "in_step {} (sync wk i (set_retention cf i s (insert_definition i s
      (modify_runtime i (revive_runtime s) sc))))"
    by (rule in_step_redefined [OF assms(1) _ assms(2)]) (use Some in \<open>auto intro: runtime_ok_revived\<close>)
  then show ?thesis
    using Some assms(3) by (auto simp: apply_added_def Let_def intro!: in_step_log_event)
qed

lemma reconcile_action_cases:
  assumes "a \<in> set (reconcile_actions services rts updated)"
  obtains (added) u where "(ra_service a, u) \<in> set updated" "ra_action a = ReconcileActionKind_Added"
    "\<And>s. im_get services (ra_service a) = Some s \<Longrightarrow> \<not> live_configured rts (ra_service a, s)"
  | (changed) u s where "(ra_service a, u) \<in> set updated" "ra_action a = ReconcileActionKind_Changed"
    "im_get services (ra_service a) = Some s" "live_configured rts (ra_service a, s)"
    "changed_parts s u \<noteq> []"
  | (removed) s where "(ra_service a, s) \<in> set services" "ra_action a = ReconcileActionKind_Removed"
    "live_configured rts (ra_service a, s)" "im_get updated (ra_service a) = None"
proof -
  have mem: "(\<exists>p \<in> set updated. reconcile_updated services rts p = Some a) \<or>
      a \<in> set (reconcile_removed services rts updated)"
    using assms by (auto simp: reconcile_actions_def map_filter_def)
  then show thesis
  proof
    assume "\<exists>p \<in> set updated. reconcile_updated services rts p = Some a"
    then show thesis
      using added changed by (auto simp: reconcile_updated_def split: option.splits if_splits)
  next
    assume "a \<in> set (reconcile_removed services rts updated)"
    then show thesis
      using removed im_get_None [of updated] by (auto simp: reconcile_removed_def im_contains_iff)
  qed
qed

text \<open>The roster and the runtimes at the services that are still to be visited.\<close>

definition untouched :: "service_id set \<Rightarrow> scheduler \<Rightarrow> scheduler \<Rightarrow> bool" where
  "untouched I sc0 sc \<longleftrightarrow>
     (\<forall>j \<in> I. im_get (sc_services sc) j = im_get (sc_services sc0) j \<and>
        im_get (sc_runtimes sc) j = im_get (sc_runtimes sc0) j)"

lemma untouched_roster_state:
  "untouched I sc0 sc \<Longrightarrow> i \<in> I \<Longrightarrow>
   roster_entry_state (sc_runtimes sc) i s = roster_entry_state (sc_runtimes sc0) i s"
  by (simp add: untouched_def roster_entry_state_def)

lemma untouched_step:
  assumes "untouched I sc0 sc" and "only_at i sc sc'" and "I' \<subseteq> I" and "i \<notin> I'"
  shows "untouched I' sc0 sc'"
  unfolding untouched_def
proof
  fix j assume "j \<in> I'"
  then have "j \<in> I" "j \<noteq> i" using assms(3,4) by auto
  then show "im_get (sc_services sc') j = im_get (sc_services sc0) j \<and>
      im_get (sc_runtimes sc') j = im_get (sc_runtimes sc0) j"
    using assms(1,2) by (simp add: untouched_def only_at_def)
qed

lemma in_step_apply_updated_one:
  assumes sc0: "in_step {} sc0" and same: "untouched I sc0 sc" "i \<in> I" and step: "in_step {} sc"
    and actions: "actions = reconcile_actions (sc_services sc0) (sc_runtimes sc0) updated"
    and id: "svc_id s = i" and static: "\<not> is_dynamic_in (sc_services sc0) i"
  shows "in_step {} (apply_updated cf wk actions (i, s) sc)"
proof (cases "List.find (\<lambda>a. ra_service a = i) (rev actions)")
  case None
  then show ?thesis using step by (simp add: apply_updated_def)
next
  case (Some a)
  then have a: "a \<in> set actions" "ra_service a = i" using find_SomeD [OF Some] by auto
  have get: "im_get (sc_services sc) i = im_get (sc_services sc0) i"
    using same by (simp add: untouched_def)
  have ros: "roster_ok (sc_services sc0) (sc_runtimes sc0)" using sc0 by (simp add: in_step_def)
  from a(1) [unfolded actions] show ?thesis
  proof (cases rule: reconcile_action_cases)
    case (added u)
    have "roster_entry_state (sc_runtimes sc) i c = Some RosterEntryState_RetiredConfigured"
      if c: "im_get (sc_services sc0) i = Some c" for c
    proof -
      obtain r where "im_get (sc_runtimes sc0) i = Some r" by (rule roster_ok_get [OF ros c])
      then show ?thesis
        using added(3) c a(2) static untouched_roster_state [OF same, of c]
        by (auto simp: is_dynamic_in_def live_configured_def roster_entry_state_def
            split: service_origin.splits bool.splits)
    qed
    then have "in_step {} (apply_added cf wk i s sc)"
      by (intro in_step_apply_added [OF step id]) (cases "im_get (sc_services sc0) i", auto simp: get)
    then show ?thesis using Some added(2) by (simp add: apply_updated_def)
  next
    case (changed u c)
    then have "in_step {} (apply_changed cf wk (ra_detail a) i s sc)"
      by (intro in_step_apply_changed [OF step _ id]) (use a get in auto)
    then show ?thesis using Some changed(2) by (simp add: apply_updated_def)
  next
    case (removed c)
    then show ?thesis using Some step by (simp add: apply_updated_def)
  qed
qed

lemma in_step_apply_updated:
  assumes sc0: "in_step {} sc0"
    and actions: "actions = reconcile_actions (sc_services sc0) (sc_runtimes sc0) updated"
    and ps: "\<And>i s. (i, s) \<in> set ps \<Longrightarrow> svc_id s = i \<and> \<not> is_dynamic_in (sc_services sc0) i"
    and "distinct (map fst ps)" and "untouched (fst ` set ps) sc0 sc" and "in_step {} sc"
  shows "in_step {} (fold (apply_updated cf wk actions) ps sc)"
  using assms(3-)
proof (induction ps arbitrary: sc)
  case (Cons p ps)
  obtain i s where p: "p = (i, s)" by fastforce
  let ?sc = "apply_updated cf wk actions (i, s) sc"
  have "in_step {} ?sc"
    by (rule in_step_apply_updated_one [OF sc0 Cons.prems(3) _ Cons.prems(4) actions])
       (use Cons.prems(1) [of i s] p in auto)
  moreover have "untouched (fst ` set ps) sc0 ?sc"
    by (rule untouched_step [OF Cons.prems(3) apply_updated_only_at]) (use Cons.prems(2) p in auto)
  moreover have "svc_id s = i \<and> \<not> is_dynamic_in (sc_services sc0) i" if "(i, s) \<in> set ps" for i s
    by (rule Cons.prems(1)) (simp add: that)
  moreover have "distinct (map fst ps)" using Cons.prems(2) by simp
  ultimately have "in_step {} (fold (apply_updated cf wk actions) ps ?sc)"
    using Cons.IH [of ?sc] by blast
  then show ?case by (simp add: p)
qed simp

lemma reconcile_static:
  assumes "validate_reconcile_candidate cf services rts updated actions = Inr ()"
    and "i \<in> set (im_keys updated)"
  shows "\<not> is_dynamic_in services i"
  using assms by (auto simp: validate_reconcile_candidate_def find_None_iff split: option.splits)

lemma in_step_apply_reconcile:
  assumes "in_step {} sc" and "configured_ok updated"
    and actions: "actions = reconcile_actions (sc_services sc) (sc_runtimes sc) updated"
    and val: "validate_reconcile_candidate cf (sc_services sc) (sc_runtimes sc) updated actions = Inr ()"
  shows "in_step {} (apply_reconcile cf wk updated actions sc)"
  unfolding apply_reconcile_def
proof (rule in_step_fold)
  show "in_step {} (fold (apply_updated cf wk actions) updated sc)"
  proof (rule in_step_apply_updated [OF assms(1) actions])
    fix i s assume m: "(i, s) \<in> set updated"
    then have "i \<in> set (im_keys updated)" by (force simp: im_keys_def)
    then show "svc_id s = i \<and> \<not> is_dynamic_in (sc_services sc) i"
      using assms(2) m reconcile_static [OF val] by (auto simp: configured_ok_def list_all_iff)
  qed (use assms(1,2) in \<open>auto simp: configured_ok_def im_wf_def im_keys_def untouched_def\<close>)
next
  show "in_step {} sc \<Longrightarrow> in_step {} (apply_removed cf wk i sc)" for i sc
    unfolding apply_removed_def by (intro in_step_log_event in_step_modify_sync runtime_ok_retired)
qed

lemma in_step_reconcile:
  assumes "in_step {} sc" and "load_ok ld"
  shows "in_step {} (snd (reconcile_config cf wk ld dry_run sc))"
proof (cases "cf_reload cf")
  case (Some path)
  obtain result sc1 where a: "await_loaded_services cf path ld sc = (result, sc1)" by fastforce
  note loaded = await_loaded [OF a assms(2)]
  show ?thesis
  proof (cases result)
    case (Inr updated)
    let ?actions = "reconcile_actions (sc_services sc1) (sc_runtimes sc1) updated"
    have "in_step {} (apply_reconcile cf wk updated ?actions sc1)"
      if "validate_reconcile_candidate cf (sc_services sc1) (sc_runtimes sc1) updated ?actions = Inr ()"
      using in_step_apply_reconcile [OF loaded(1) [OF assms(1)] _ refl that] loaded(2) [OF Inr] by blast
    then show ?thesis
      using Some a Inr loaded(1) [OF assms(1)]
      by (cases "validate_reconcile_candidate cf (sc_services sc1) (sc_runtimes sc1) updated ?actions")
         (simp_all add: reconcile_config_def Let_def)
  qed (use Some a loaded(1) [OF assms(1)] in \<open>auto simp: reconcile_config_def\<close>)
qed (use assms in \<open>simp add: reconcile_config_def\<close>)

end
