(* ===== verification/Roster_Spec.thy ===== *)
theory Roster_Spec
  imports Handlers
begin

text \<open>
  What the roster of a session promises, without the processes: an abstract machine whose state maps
  each service to its origin, its dependencies, why it is retired, and its lease. Its invariant says
  that the dependencies stay closed and acyclic, that the policy of dynamic services holds, and that
  no live dynamic service is left with a removed configured dependency.
\<close>

section \<open>The abstract roster\<close>

record roster_view =
  rv_origin :: service_origin
  rv_depends :: "service_id list"
  rv_retired :: "retired_reason option"
  rv_expires :: "instant option"

type_synonym roster = "service_id \<rightharpoonup> roster_view"

definition rv_dynamic :: "roster_view \<Rightarrow> bool" where
  "rv_dynamic e \<longleftrightarrow> is_dynamic_origin (rv_origin e)"

definition live_dynamic :: "roster \<Rightarrow> service_id set" where
  "live_dynamic v = {i. \<exists>e. v i = Some e \<and> rv_dynamic e \<and> rv_retired e = None}"

definition roster_edges :: "roster \<Rightarrow> (service_id \<times> service_id) set" where
  "roster_edges v = {(d, n). \<exists>e. v n = Some e \<and> d \<in> set (rv_depends e)}"

definition roster_graph_ok :: "roster \<Rightarrow> bool" where
  "roster_graph_ok v \<longleftrightarrow> fst ` roster_edges v \<subseteq> dom v \<and> acyclic (roster_edges v)"

text \<open>A live dynamic service has a deadline if the policy caps lifetimes, and its origin says so.\<close>

definition leased :: "dynamic_services_policy \<Rightarrow> roster_view \<Rightarrow> bool" where
  "leased p e \<longleftrightarrow>
     (case rv_origin e of
        ServiceOrigin_Configured \<Rightarrow> False
      | ServiceOrigin_Dynamic origin \<Rightarrow>
          (do_expires_at_unix_ms origin = None \<longleftrightarrow> rv_expires e = None) \<and>
          (dy_max_lifetime p \<noteq> None \<longrightarrow> rv_expires e \<noteq> None))"

definition depends_on_live :: "roster \<Rightarrow> roster_view \<Rightarrow> bool" where
  "depends_on_live v e \<longleftrightarrow>
     (\<forall>d \<in> set (rv_depends e). \<exists>x. v d = Some x \<and> rv_retired x = None)"

text \<open>A change of the configuration at one service.\<close>

definition configured_change :: "roster_view option \<Rightarrow> roster_view option \<Rightarrow> bool" where
  "configured_change old new \<longleftrightarrow>
     new = old \<or>
     (\<exists>e. new = Some e \<and> \<not> rv_dynamic e \<and> rv_retired e = None \<and> rv_expires e = None \<and>
        (\<forall>e0. old = Some e0 \<longrightarrow> \<not> rv_dynamic e0)) \<or>
     (\<exists>e. old = Some e \<and> \<not> rv_dynamic e \<and> rv_retired e = None \<and>
        new = Some (e\<lparr> rv_retired := Some RetiredReason_Removed, rv_expires := None \<rparr>))"

inductive roster_step :: "dynamic_services_policy \<Rightarrow> roster \<Rightarrow> instant \<Rightarrow> roster \<Rightarrow> bool"
  for p :: dynamic_services_policy
where
  Start: "v i = None \<Longrightarrow> card (live_dynamic v) < dy_max_services p \<Longrightarrow>
    rv_origin e = ServiceOrigin_Dynamic origin \<Longrightarrow> do_revision origin = 1 \<Longrightarrow>
    rv_retired e = None \<Longrightarrow> leased p e \<Longrightarrow> depends_on_live v e \<Longrightarrow>
    roster_graph_ok (v(i \<mapsto> e)) \<Longrightarrow> roster_step p v now (v(i \<mapsto> e))"
| Replace: "v i = Some e0 \<Longrightarrow> rv_origin e0 = ServiceOrigin_Dynamic origin0 \<Longrightarrow>
    (rv_retired e0 \<noteq> None \<Longrightarrow> card (live_dynamic v) < dy_max_services p) \<Longrightarrow>
    rv_origin e = ServiceOrigin_Dynamic origin \<Longrightarrow>
    unat (do_revision origin) = unat (do_revision origin0) + 1 \<Longrightarrow>
    rv_retired e = None \<Longrightarrow> leased p e \<Longrightarrow> depends_on_live v e \<Longrightarrow>
    roster_graph_ok (v(i \<mapsto> e)) \<Longrightarrow> roster_step p v now (v(i \<mapsto> e))"
| Renew: "v i = Some e0 \<Longrightarrow> rv_origin e0 = ServiceOrigin_Dynamic origin0 \<Longrightarrow> rv_retired e0 = None \<Longrightarrow>
    e = e0\<lparr> rv_origin := ServiceOrigin_Dynamic (origin0\<lparr> do_expires_at_unix_ms := u \<rparr>),
            rv_expires := t \<rparr> \<Longrightarrow>
    leased p e \<Longrightarrow> roster_step p v now (v(i \<mapsto> e))"
| Stop: "v i = Some e \<Longrightarrow> rv_dynamic e \<Longrightarrow> rv_retired e = None \<Longrightarrow>
    roster_step p v now
      (v(i \<mapsto> e\<lparr> rv_retired := Some RetiredReason_Stopped, rv_expires := None \<rparr>))"
| Expire: "v i = Some e \<Longrightarrow> rv_dynamic e \<Longrightarrow> rv_retired e = None \<Longrightarrow> rv_expires e = Some t \<Longrightarrow> t \<le> now \<Longrightarrow>
    roster_step p v now
      (v(i \<mapsto> e\<lparr> rv_retired := Some RetiredReason_Expired, rv_expires := None \<rparr>))"
| Configure: "(\<And>i. configured_change (v i) (v' i)) \<Longrightarrow> finite (dom v') \<Longrightarrow> roster_graph_ok v' \<Longrightarrow>
    (\<And>i e d. v i = Some e \<Longrightarrow> i \<in> live_dynamic v \<Longrightarrow> d \<in> set (rv_depends e) \<Longrightarrow>
       map_option rv_retired (v d) = Some None \<Longrightarrow> map_option rv_retired (v' d) = Some None) \<Longrightarrow>
    roster_step p v now v'"
| Evict: "v i = Some e \<Longrightarrow> rv_retired e \<noteq> None \<Longrightarrow> (\<And>n. (i, n) \<notin> roster_edges v) \<Longrightarrow>
    roster_step p v now (v(i := None))"

inductive_cases roster_stepE: "roster_step p v now v'"

section \<open>Its invariant\<close>

definition lease_ok :: "dynamic_services_policy \<Rightarrow> roster_view \<Rightarrow> bool" where
  "lease_ok p e \<longleftrightarrow>
     (rv_retired e \<noteq> None \<or> \<not> rv_dynamic e \<longrightarrow> rv_expires e = None) \<and>
     (rv_retired e = None \<and> rv_dynamic e \<longrightarrow> leased p e)"

definition no_removed_dependency :: "roster \<Rightarrow> bool" where
  "no_removed_dependency v \<longleftrightarrow>
     (\<forall>i \<in> live_dynamic v. \<forall>e d x. v i = Some e \<longrightarrow> d \<in> set (rv_depends e) \<longrightarrow> v d = Some x \<longrightarrow>
        \<not> rv_dynamic x \<longrightarrow> rv_retired x = None)"

definition roster_inv :: "dynamic_services_policy \<Rightarrow> roster \<Rightarrow> bool" where
  "roster_inv p v \<longleftrightarrow>
     finite (dom v) \<and> roster_graph_ok v \<and> card (live_dynamic v) \<le> dy_max_services p \<and>
     (\<forall>i e. v i = Some e \<longrightarrow> lease_ok p e) \<and> no_removed_dependency v"

lemma live_dynamic_upd:
  "live_dynamic (v(i \<mapsto> e)) =
     (if rv_dynamic e \<and> rv_retired e = None then insert i (live_dynamic v) else live_dynamic v - {i})"
  by (auto simp: live_dynamic_def)

lemma live_dynamic_drop: "live_dynamic (v(i := None)) = live_dynamic v - {i}"
  by (auto simp: live_dynamic_def)

lemma finite_live_dynamic: "finite (dom v) \<Longrightarrow> finite (live_dynamic v)"
  by (rule finite_subset [of _ "dom v"]) (auto simp: live_dynamic_def)

lemma roster_edges_same:
  assumes "\<And>i. map_option rv_depends (v' i) = map_option rv_depends (v i)"
  shows "roster_edges v' = roster_edges v" and "dom v' = dom v"
proof -
  have "(\<exists>e. v' n = Some e \<and> d \<in> set (rv_depends e)) \<longleftrightarrow> (\<exists>e. v n = Some e \<and> d \<in> set (rv_depends e))" for d n
    using assms [of n] by (cases "v n"; cases "v' n") auto
  then show "roster_edges v' = roster_edges v" by (simp add: roster_edges_def)
  have "v' i = None \<longleftrightarrow> v i = None" for i using assms [of i] by (cases "v i"; cases "v' i") auto
  then show "dom v' = dom v" by (auto simp: dom_def)
qed

text \<open>Changes of the lifecycle of one service leave the dependencies alone.\<close>

lemma graph_ok_same_depends:
  assumes "roster_graph_ok v" and "v i = Some e0" and "rv_depends e = rv_depends e0"
  shows "roster_graph_ok (v(i \<mapsto> e))"
  using roster_edges_same [of "v(i \<mapsto> e)" v] assms by (auto simp: roster_graph_ok_def)

lemma roster_inv_upd:
  assumes inv: "roster_inv p v" and graph: "roster_graph_ok (v(i \<mapsto> e))" and dyn: "rv_dynamic e"
    and slot: "rv_retired e = None \<Longrightarrow> i \<in> live_dynamic v \<or> card (live_dynamic v) < dy_max_services p"
    and lease: "lease_ok p e"
    and deps: "\<And>d x. rv_retired e = None \<Longrightarrow> d \<in> set (rv_depends e) \<Longrightarrow> v d = Some x \<Longrightarrow>
      \<not> rv_dynamic x \<Longrightarrow> rv_retired x = None"
  shows "roster_inv p (v(i \<mapsto> e))"
proof -
  have fin: "finite (live_dynamic v)" using inv finite_live_dynamic by (auto simp: roster_inv_def)
  have "card (live_dynamic (v(i \<mapsto> e))) \<le> dy_max_services p"
  proof (cases "rv_retired e = None")
    case True
    then show ?thesis
      using inv slot fin dyn by (auto simp: live_dynamic_upd roster_inv_def card_insert_if)
  next
    case False
    then have "live_dynamic (v(i \<mapsto> e)) = live_dynamic v - {i}" by (auto simp: live_dynamic_upd)
    moreover have "card (live_dynamic v) \<le> dy_max_services p" using inv by (simp add: roster_inv_def)
    ultimately show ?thesis
      using card_Diff1_le [of "live_dynamic v" i] by simp
  qed
  moreover have "no_removed_dependency (v(i \<mapsto> e))"
    unfolding no_removed_dependency_def
  proof (intro ballI allI impI)
    fix j e' d x
    assume j: "j \<in> live_dynamic (v(i \<mapsto> e))" "(v(i \<mapsto> e)) j = Some e'" "d \<in> set (rv_depends e')"
      and x: "(v(i \<mapsto> e)) d = Some x" "\<not> rv_dynamic x"
    have d: "v d = Some x" using x dyn by (auto split: if_splits)
    show "rv_retired x = None"
    proof (cases "j = i")
      case True
      then show ?thesis using deps j d x(2) by (auto simp: live_dynamic_def)
    next
      case False
      then have "j \<in> live_dynamic v" "v j = Some e'" using j by (auto simp: live_dynamic_upd split: if_splits)
      then show ?thesis using inv d j(3) x(2) unfolding roster_inv_def no_removed_dependency_def by blast
    qed
  qed
  moreover have "\<forall>j e'. (v(i \<mapsto> e)) j = Some e' \<longrightarrow> lease_ok p e'"
    using inv lease by (auto simp: roster_inv_def)
  moreover have "finite (dom (v(i \<mapsto> e)))" using inv by (simp add: roster_inv_def)
  ultimately show ?thesis using graph unfolding roster_inv_def by blast
qed

lemma roster_inv_step:
  assumes inv: "roster_inv p v" and step: "roster_step p v now v'"
  shows "roster_inv p v'"
  using step
proof cases
  case (Start i e origin)
  then show ?thesis
    by (auto intro!: roster_inv_upd [OF inv] simp: rv_dynamic_def lease_ok_def depends_on_live_def)
next
  case (Replace i e0 origin0 e origin)
  have "i \<in> live_dynamic v \<or> card (live_dynamic v) < dy_max_services p"
    using Replace(2-4) by (cases "rv_retired e0 = None") (auto simp: live_dynamic_def rv_dynamic_def)
  then show ?thesis
    using Replace
    by (auto intro!: roster_inv_upd [OF inv] simp: rv_dynamic_def lease_ok_def depends_on_live_def)
next
  case (Renew i e0 origin0 e u t)
  have "i \<in> live_dynamic v" using Renew by (simp add: live_dynamic_def rv_dynamic_def)
  moreover have "roster_graph_ok (v(i \<mapsto> e))"
    by (rule graph_ok_same_depends) (use inv Renew in \<open>auto simp: roster_inv_def\<close>)
  moreover have "rv_retired x = None"
    if "d \<in> set (rv_depends e0)" "v d = Some x" "\<not> rv_dynamic x" for d x
    using inv calculation(1) Renew(2) that unfolding roster_inv_def no_removed_dependency_def by blast
  ultimately show ?thesis
    using Renew(1,3-6)
    by (auto intro!: roster_inv_upd [OF inv] simp: rv_dynamic_def lease_ok_def)
next
  case (Stop i e)
  have "roster_graph_ok (v(i \<mapsto> e\<lparr> rv_retired := Some RetiredReason_Stopped, rv_expires := None \<rparr>))"
    by (rule graph_ok_same_depends) (use inv Stop in \<open>auto simp: roster_inv_def\<close>)
  then show ?thesis
    using Stop by (auto intro!: roster_inv_upd [OF inv] simp: rv_dynamic_def lease_ok_def)
next
  case (Expire i e t)
  have "roster_graph_ok (v(i \<mapsto> e\<lparr> rv_retired := Some RetiredReason_Expired, rv_expires := None \<rparr>))"
    by (rule graph_ok_same_depends) (use inv Expire in \<open>auto simp: roster_inv_def\<close>)
  then show ?thesis
    using Expire by (auto intro!: roster_inv_upd [OF inv] simp: rv_dynamic_def lease_ok_def)
next
  case Configure
  have cases: "v' i = v i \<or> (\<exists>e. v' i = Some e \<and> \<not> rv_dynamic e \<and> rv_expires e = None)" for i
    using Configure(1) [of i] by (auto simp: configured_change_def rv_dynamic_def)
  have old_static: "\<not> rv_dynamic e0" if "v i = Some e0" "v' i \<noteq> v i" for i e0
    using Configure(1) [of i] that by (auto simp: configured_change_def)
  have live: "live_dynamic v' = live_dynamic v"
  proof (rule set_eqI)
    fix i show "i \<in> live_dynamic v' \<longleftrightarrow> i \<in> live_dynamic v"
      using cases [of i] old_static [of i] by (cases "v' i = v i") (auto simp: live_dynamic_def)
  qed
  have "\<forall>i e. v' i = Some e \<longrightarrow> lease_ok p e"
    using inv cases unfolding roster_inv_def lease_ok_def by (metis option.inject)
  moreover have "no_removed_dependency v'"
    unfolding no_removed_dependency_def
  proof (intro ballI allI impI)
    fix i e d x
    assume i: "i \<in> live_dynamic v'" "v' i = Some e" "d \<in> set (rv_depends e)"
      and x: "v' d = Some x" "\<not> rv_dynamic x"
    have i0: "i \<in> live_dynamic v" using i(1) live by simp
    then obtain e0 where e0: "v i = Some e0" "rv_dynamic e0" by (auto simp: live_dynamic_def)
    have e: "v i = Some e"
      using old_static [OF e0(1)] e0(2) i(2) by (cases "v' i = v i") auto
    have "d \<in> dom v" using inv e i(3) unfolding roster_inv_def roster_graph_ok_def roster_edges_def by force
    then obtain x0 where x0: "v d = Some x0" by blast
    have "\<not> rv_dynamic x0" using old_static [OF x0] x x0 by (cases "v' d = v d") auto
    then have "rv_retired x0 = None"
      using inv i0 e i(3) x0 unfolding roster_inv_def no_removed_dependency_def by blast
    then show "rv_retired x = None"
      using Configure(4) [OF e i0 i(3)] x0 x(1) by simp
  qed
  ultimately show ?thesis
    using inv Configure(2,3) live by (simp add: roster_inv_def)
next
  case (Evict i e)
  have sub: "roster_edges (v(i := None)) \<subseteq> roster_edges v"
    by (auto simp: roster_edges_def split: if_splits)
  have graph: "fst ` roster_edges v \<subseteq> dom v" "acyclic (roster_edges v)"
    using inv by (simp_all add: roster_inv_def roster_graph_ok_def)
  have "fst ` roster_edges (v(i := None)) \<subseteq> dom v - {i}"
  proof
    fix d assume "d \<in> fst ` roster_edges (v(i := None))"
    then obtain n where "(d, n) \<in> roster_edges (v(i := None))" by auto
    then have n: "(d, n) \<in> roster_edges v" by (rule subsetD [OF sub])
    then have "d \<noteq> i" using Evict(4) by blast
    moreover have "d \<in> dom v" by (rule subsetD [OF graph(1)]) (use n in force)
    ultimately show "d \<in> dom v - {i}" by simp
  qed
  then have "roster_graph_ok (v(i := None))"
    using acyclic_subset [OF graph(2) sub] by (simp add: roster_graph_ok_def)
  moreover have live: "live_dynamic (v(i := None)) = live_dynamic v"
    using Evict(2,3) by (auto simp: live_dynamic_def)
  moreover have "no_removed_dependency (v(i := None))"
    unfolding no_removed_dependency_def live
  proof (intro ballI allI impI)
    fix j e' d x
    assume "j \<in> live_dynamic v" "(v(i := None)) j = Some e'" "d \<in> set (rv_depends e')"
      "(v(i := None)) d = Some x" "\<not> rv_dynamic x"
    moreover from this have "v j = Some e'" "v d = Some x" by (auto split: if_splits)
    ultimately show "rv_retired x = None"
      using inv unfolding roster_inv_def no_removed_dependency_def by blast
  qed
  ultimately show ?thesis
    using inv Evict(1) by (simp add: roster_inv_def)
qed

text \<open>The abstract machine keeps the invariant, so every run of it does.\<close>

interpretation roster: invariant_machine "roster_step p" "roster_inv p" for p
  by unfold_locales (rule roster_inv_step)

end
