(* ===== verification/Refinement.thy ===== *)
theory Refinement
  imports Roster_Spec
begin

text \<open>
  Every handler of the scheduler implements steps of the abstract roster: the projection of the
  scheduler's state after a handler is reached from the projection before it by steps that the
  abstract machine allows.
\<close>

section \<open>The projection\<close>

definition view_of :: "service \<Rightarrow> service_runtime \<Rightarrow> roster_view" where
  "view_of s r =
     \<lparr> rv_origin = svc_origin s, rv_depends = depends_on_ids s, rv_retired = sr_retired r,
       rv_expires = sr_expires_at r \<rparr>"

lemma view_of_sel [simp]:
  "rv_origin (view_of s r) = svc_origin s" "rv_depends (view_of s r) = depends_on_ids s"
  "rv_retired (view_of s r) = sr_retired r" "rv_expires (view_of s r) = sr_expires_at r"
  by (simp_all add: view_of_def)

definition roster_of :: "scheduler \<Rightarrow> roster" where
  "roster_of sc i =
     (case (im_get (sc_services sc) i, im_get (sc_runtimes sc) i) of
        (Some s, Some r) \<Rightarrow> Some (view_of s r)
      | _ \<Rightarrow> None)"

abbreviation roster_steps :: "session_config \<Rightarrow> instant \<Rightarrow> roster \<Rightarrow> roster \<Rightarrow> bool" where
  "roster_steps cf now \<equiv> (\<lambda>v v'. roster_step (cf_policy cf) v now v')\<^sup>*\<^sup>*"

lemma one_step: "roster_step (cf_policy cf) v now v' \<Longrightarrow> roster_steps cf now v v'"
  by (rule r_into_rtranclp [of "\<lambda>v v'. roster_step (cf_policy cf) v now v'"])

lemma roster_of_same:
  "sc_services sc' = sc_services sc \<Longrightarrow> sc_runtimes sc' = sc_runtimes sc \<Longrightarrow> roster_of sc' = roster_of sc"
  by (simp add: roster_of_def fun_eq_iff)

lemma roster_of_event [simp]: "roster_of (log_event cf wk i kind detail sc) = roster_of sc"
  by (rule roster_of_same) simp_all

lemma roster_of_write [simp]: "roster_of (write_event cf wk i ev sc) = roster_of sc"
  by (rule roster_of_same) (simp_all add: write_event_def)

lemma roster_of_sync [simp]: "roster_of (sync wk i sc) = roster_of sc"
  by (rule roster_of_same) simp_all

lemma roster_of_retention [simp]: "roster_of (set_retention cf i s sc) = roster_of sc"
  by (rule roster_of_same) simp_all

lemma roster_of_remember [simp]: "roster_of (remember_idempotent key digest ack sc) = roster_of sc"
  by (rule roster_of_same) (simp_all add: remember_idempotent_def)

lemma roster_of_flag [simp]: "roster_of (sc\<lparr> sc_shutdown := b \<rparr>) = roster_of sc"
  by (rule roster_of_same) simp_all

text \<open>A change of a runtime that keeps why it is retired and its lease.\<close>

definition lifecycle_same :: "service_runtime \<Rightarrow> service_runtime \<Rightarrow> bool" where
  "lifecycle_same r r' \<longleftrightarrow> sr_retired r' = sr_retired r \<and> sr_expires_at r' = sr_expires_at r"

lemma roster_of_modify:
  "roster_of (modify_runtime i f sc) =
     (case (im_get (sc_services sc) i, im_get (sc_runtimes sc) i) of
        (Some s, Some r) \<Rightarrow> (roster_of sc)(i \<mapsto> view_of s (f r))
      | _ \<Rightarrow> roster_of sc)"
  by (auto simp: roster_of_def fun_eq_iff split: option.split)

lemma roster_of_modify_same:
  assumes "\<And>r. im_get (sc_runtimes sc) i = Some r \<Longrightarrow> lifecycle_same r (f r)"
  shows "roster_of (modify_runtime i f sc) = roster_of sc"
  using assms
  by (auto simp: roster_of_def fun_eq_iff view_of_def lifecycle_same_def split: option.split)

lemma roster_of_map:
  assumes "\<And>r. lifecycle_same r (f r)"
  shows "roster_of (sc\<lparr> sc_runtimes := map (\<lambda>(i, r). (i, f r)) (sc_runtimes sc) \<rparr>) = roster_of sc"
  using assms
  by (auto simp: roster_of_def fun_eq_iff view_of_def lifecycle_same_def map_of_map split: option.split)

lemma roster_of_redefine:
  assumes "im_get (sc_runtimes sc) i = Some r"
  shows "roster_of (insert_definition i s (modify_runtime i f sc)) = (roster_of sc)(i \<mapsto> view_of s (f r))"
  using assms by (auto simp: roster_of_def fun_eq_iff im_get_insert split: option.split)

lemma roster_of_get:
  "im_get (sc_services sc) i = Some s \<Longrightarrow> im_get (sc_runtimes sc) i = Some r \<Longrightarrow>
   roster_of sc i = Some (view_of s r)"
  by (simp add: roster_of_def)

lemma roster_ok_view:
  assumes "roster_ok (sc_services sc) (sc_runtimes sc)"
  shows "map_option rv_depends (roster_of sc i) = map_option depends_on_ids (im_get (sc_services sc) i)"
    and "map_option rv_retired (roster_of sc i) = map_option sr_retired (im_get (sc_runtimes sc) i)"
    and "dom (roster_of sc) = dom (im_get (sc_services sc))"
proof -
  have dom: "im_get (sc_services sc) j = None \<longleftrightarrow> im_get (sc_runtimes sc) j = None" for j
    by (metis domIff roster_ok_dom [OF assms])
  then show "map_option rv_depends (roster_of sc i) = map_option depends_on_ids (im_get (sc_services sc) i)"
    "map_option rv_retired (roster_of sc i) = map_option sr_retired (im_get (sc_runtimes sc) i)"
    using dom [of i] by (auto simp: roster_of_def split: option.split)
  have "roster_of sc j = None \<longleftrightarrow> im_get (sc_services sc) j = None" for j
    using dom [of j] by (auto simp: roster_of_def split: option.split)
  then show "dom (roster_of sc) = dom (im_get (sc_services sc))" by (auto simp: dom_def)
qed

lemma graph_ok_view:
  assumes "im_wf services" and "\<And>i. map_option rv_depends (v i) = map_option depends_on_ids (im_get services i)"
  shows "roster_graph_ok v \<longleftrightarrow> graph_ok services"
proof -
  have get: "(n, s) \<in> set services \<longleftrightarrow> im_get services n = Some s" for n s
    using assms(1) by (simp add: im_get_in_set)
  have edges: "roster_edges v = dependency_edges services"
  proof -
    have "(\<exists>e. v n = Some e \<and> d \<in> set (rv_depends e)) \<longleftrightarrow>
        (\<exists>s. im_get services n = Some s \<and> d \<in> set (depends_on_ids s))" for d n
      using assms(2) [of n] by (cases "v n"; cases "im_get services n") auto
    then show ?thesis by (simp add: roster_edges_def dependency_edges_def get)
  qed
  have "dom v = set (im_keys services)"
  proof -
    have "v i = None \<longleftrightarrow> im_get services i = None" for i
      using assms(2) [of i] by (cases "v i"; cases "im_get services i") auto
    then show ?thesis by (auto simp: set_im_keys dom_def)
  qed
  moreover have "fst ` dependency_edges services \<subseteq> set (im_keys services) \<longleftrightarrow> deps_known services"
    by (force simp: deps_known_def dependency_edges_def)
  ultimately show ?thesis
    unfolding roster_graph_ok_def graph_ok_def edges by simp
qed

lemma live_count:
  assumes "roster_ok (sc_services sc) (sc_runtimes sc)"
  shows "live_dynamic_count (sc_services sc) (sc_runtimes sc) = card (live_dynamic (roster_of sc))"
proof -
  let ?P = "\<lambda>(i, s). roster_entry_state (sc_runtimes sc) i s = Some RosterEntryState_LiveDynamic"
  have wf: "distinct (im_keys (sc_services sc))" using assms by (simp add: roster_ok_def im_wf_def)
  have "live_dynamic (roster_of sc) = set (im_keys (filter ?P (sc_services sc)))"
  proof (rule set_eqI)
    fix i
    show "i \<in> live_dynamic (roster_of sc) \<longleftrightarrow> i \<in> set (im_keys (filter ?P (sc_services sc)))"
      unfolding set_im_keys
      using im_get_filter [OF wf, of ?P i]
      by (auto simp: live_dynamic_def roster_of_def rv_dynamic_def roster_entry_state_def domIff is_retired_def
          split: option.splits service_origin.splits bool.splits)
  qed
  moreover have "distinct (im_keys (filter ?P (sc_services sc)))" by (rule im_keys_filter_distinct [OF wf])
  ultimately have "card (live_dynamic (roster_of sc)) = length (im_keys (filter ?P (sc_services sc)))"
    by (simp add: distinct_card)
  then show ?thesis by (simp add: live_dynamic_count_def im_keys_def)
qed

section \<open>Dynamic services\<close>

lemma validate_dependencies_Inr:
  "validate_dependencies rts i ds = Inr () \<Longrightarrow>
   \<forall>d \<in> set ds. dep_service d \<noteq> i \<and> (\<exists>r. im_get rts (dep_service d) = Some r \<and> sr_retired r = None)"
  by (induction ds) (auto split: if_splits option.splits)

lemma validated_candidate:
  assumes ros: "roster_ok (sc_services sc) (sc_runtimes sc)" and toposort: "toposort_contract (cf_toposort cf)"
    and val: "validate_candidate cf wk sc s = Inr ()" and e: "rv_depends e = depends_on_ids s"
  shows "depends_on_live (roster_of sc) e" and "roster_graph_ok ((roster_of sc)(svc_id s \<mapsto> e))"
proof -
  have deps: "validate_dependencies (sc_runtimes sc) (svc_id s) (ss_depends_on (svc_spec s)) = Inr ()"
    and graph: "service_graph_new (cf_toposort cf) (im_insert (svc_id s) s (sc_services sc)) = Inr ()"
    using val by (auto simp: validate_candidate_def result_simps)
  show "depends_on_live (roster_of sc) e"
    unfolding depends_on_live_def
  proof
    fix d assume "d \<in> set (rv_depends e)"
    then obtain r where "im_get (sc_runtimes sc) d = Some r" "sr_retired r = None"
      using validate_dependencies_Inr [OF deps] by (auto simp: e depends_on_ids_def)
    then show "\<exists>x. roster_of sc d = Some x \<and> rv_retired x = None"
      using roster_ok_view(2) [OF ros, of d] by auto
  qed
  have "graph_ok (im_insert (svc_id s) s (sc_services sc))"
    using graph toposort_contract.accepts_iff [OF toposort] by simp
  moreover have "im_wf (im_insert (svc_id s) s (sc_services sc))"
    using ros by (simp add: roster_ok_def)
  moreover have "map_option rv_depends (((roster_of sc)(svc_id s \<mapsto> e)) i) =
      map_option depends_on_ids (im_get (im_insert (svc_id s) s (sc_services sc)) i)" for i
    using roster_ok_view(1) [OF ros, of i] by (simp add: im_get_insert e)
  ultimately show "roster_graph_ok ((roster_of sc)(svc_id s \<mapsto> e))"
    using graph_ok_view by blast
qed

lemma lease_granted:
  assumes "lease_deadlines wk (effective_lifetime (dy_max_lifetime p) requested) = Inr (at, unix)"
    and "rv_origin e = ServiceOrigin_Dynamic origin" and "do_expires_at_unix_ms origin = unix"
    and "rv_expires e = at"
  shows "leased p e"
  using lease_deadlines_Inr [OF assms(1)] effective_lifetime_capped [of "dy_max_lifetime p" requested] assms(2-4)
  by (auto simp: leased_def)

lemma fresh_dynamic_lifecycle:
  "sr_retired (request_enable ((runtime_new s)\<lparr> sr_expires_at := at \<rparr>)) = None"
  "sr_expires_at (request_enable ((runtime_new s)\<lparr> sr_expires_at := at \<rparr>)) = at"
  by (auto simp: request_enable_def signal_restart_def runtime_new_def Let_def split: state.split)

lemma in_step_roster_ok: "in_step X sc \<Longrightarrow> roster_ok (sc_services sc) (sc_runtimes sc)"
  by (simp add: in_step_def)

lemma refine_start:
  assumes step: "in_step {} sc" and toposort: "toposort_contract (cf_toposort cf)"
    and result: "start_dynamic cf wk params sc = Inr (ack, sc')"
  shows "roster_steps cf (wk_now wk) (roster_of sc) (roster_of sc')"
  using result
proof (cases rule: start_dynamic_cases)
  case (started s expires_at expires_unix digest)
  note ros = in_step_roster_ok [OF step]
  define r where "r = request_enable ((runtime_new s)\<lparr> sr_expires_at := expires_at \<rparr>)"
  have after: "roster_of sc' = (roster_of sc)(svc_id s \<mapsto> view_of s r)"
    using started(3)
    by (auto simp: install_dynamic_def Let_def r_def [symmetric] roster_of_def fun_eq_iff im_get_insert
        split: option.split)
  have s: "im_get (sc_services sc) (svc_id s) = None"
    "live_dynamic_count (sc_services sc) (sc_runtimes sc) < dy_max_services (cf_policy cf)"
    "lease_deadlines wk (effective_lifetime (dy_max_lifetime (cf_policy cf)) (dp_expires_after params)) =
       Inr (expires_at, expires_unix)"
    "svc_origin s = ServiceOrigin_Dynamic
       \<lparr> do_created_at_unix_ms = unix_or_default wk, do_expires_at_unix_ms = expires_unix,
         do_owner = dp_owner params, do_revision = 1 \<rparr>"
    "validate_candidate cf wk sc s = Inr ()"
    using started(1) by (simp_all add: started_dynamic_def)
  have "roster_step (cf_policy cf) (roster_of sc) (wk_now wk) (roster_of sc')"
    unfolding after
  proof (rule Start [where origin = "\<lparr> do_created_at_unix_ms = unix_or_default wk,
        do_expires_at_unix_ms = expires_unix, do_owner = dp_owner params, do_revision = 1 \<rparr>"])
    show "roster_of sc (svc_id s) = None" using s(1) by (simp add: roster_of_def)
    show "card (live_dynamic (roster_of sc)) < dy_max_services (cf_policy cf)"
      using s(2) live_count [OF ros] by simp
    show "leased (cf_policy cf) (view_of s r)"
      by (rule lease_granted [OF s(3), where origin = "\<lparr> do_created_at_unix_ms = unix_or_default wk,
            do_expires_at_unix_ms = expires_unix, do_owner = dp_owner params, do_revision = 1 \<rparr>"])
        (use s(4) in \<open>simp_all add: r_def fresh_dynamic_lifecycle\<close>)
    show "depends_on_live (roster_of sc) (view_of s r)"
      "roster_graph_ok ((roster_of sc)(svc_id s \<mapsto> view_of s r))"
      using validated_candidate [OF ros toposort s(5)] by simp_all
  qed (use s(4) in \<open>simp_all add: r_def fresh_dynamic_lifecycle\<close>)
  then show ?thesis by (rule one_step)
qed simp

lemma replace_runtime_lifecycle:
  "sr_retired (replace_runtime spec at r) = None" "sr_expires_at (replace_runtime spec at r) = at"
  by (auto simp: replace_runtime_def request_restart_def signal_restart_def runtime_reconfigure_def Let_def
      split: option.split)

lemma unat_checked_succ: "u64_checked_add a 1 = Some b \<Longrightarrow> unat b = unat a + 1"
  using unat_u64_checked_add [of a 1 b] by simp

lemma refine_replace:
  assumes step: "in_step {} sc" and toposort: "toposort_contract (cf_toposort cf)"
    and result: "replace_dynamic cf wk i expected params sc = Inr (ack, sc')"
  shows "roster_steps cf (wk_now wk) (roster_of sc) (roster_of sc')"
  using result
proof (cases rule: replace_dynamic_cases)
  case (replaced current origin r c expires_at expires_unix digest detail)
  note ros = in_step_roster_ok [OF step]
  define r' where "r' = replace_runtime (svc_spec c) expires_at r"
  have s: "im_get (sc_services sc) i = Some current" "im_get (sc_runtimes sc) i = Some r"
    "svc_origin current = ServiceOrigin_Dynamic origin" "do_revision origin = expected"
    "is_retired r \<longrightarrow> live_dynamic_count (sc_services sc) (sc_runtimes sc) < dy_max_services (cf_policy cf)"
    "lease_deadlines wk (effective_lifetime (dy_max_lifetime (cf_policy cf)) (dp_expires_after params)) =
       Inr (expires_at, expires_unix)"
    "validate_candidate cf wk sc c = Inr ()" "svc_id c = svc_id current"
    using replaced(1) by (auto simp: replaced_dynamic_def)
  obtain o' where o': "svc_origin c = ServiceOrigin_Dynamic o'" "do_expires_at_unix_ms o' = expires_unix"
    "u64_checked_add expected 1 = Some (do_revision o')"
    using replaced(1) by (auto simp: replaced_dynamic_def)
  have id: "svc_id c = i" using roster_okD [OF ros s(1,2)] s(8) by simp
  have after: "roster_of sc' = (roster_of sc)(i \<mapsto> view_of c r')"
    using replaced(3) roster_of_redefine [OF s(2)] by (simp add: r'_def)
  have "roster_step (cf_policy cf) (roster_of sc) (wk_now wk) (roster_of sc')"
    unfolding after
  proof (rule Replace)
    show "roster_of sc i = Some (view_of current r)" by (rule roster_of_get [OF s(1,2)])
    show "rv_retired (view_of current r) \<noteq> None \<Longrightarrow>
        card (live_dynamic (roster_of sc)) < dy_max_services (cf_policy cf)"
      using s(5) live_count [OF ros] by (simp add: is_retired_def)
    show "unat (do_revision o') = unat (do_revision origin) + 1"
      using unat_checked_succ [OF o'(3)] s(4) by simp
    show "leased (cf_policy cf) (view_of c r')"
      by (rule lease_granted [OF s(6)]) (use o' in \<open>simp_all add: r'_def replace_runtime_lifecycle\<close>)
    show "depends_on_live (roster_of sc) (view_of c r')" "roster_graph_ok ((roster_of sc)(i \<mapsto> view_of c r'))"
      using validated_candidate [OF ros toposort s(7)] id by simp_all
  qed (use s(3) o'(1) in \<open>simp_all add: r'_def replace_runtime_lifecycle\<close>)
  then show ?thesis by (rule one_step)
qed simp

lemma refine_renew:
  assumes step: "in_step {} sc" and result: "renew_dynamic cf wk i expected expires_after sc = Inr (ack, sc')"
  shows "roster_steps cf (wk_now wk) (roster_of sc) (roster_of sc')"
proof -
  obtain s origin r expires_at expires_unix detail where
    s: "im_get (sc_services sc) i = Some s" "im_get (sc_runtimes sc) i = Some r"
      "svc_origin s = ServiceOrigin_Dynamic origin" "is_live r"
      "lease_deadlines wk (effective_lifetime (dy_max_lifetime (cf_policy cf)) expires_after) =
         Inr (expires_at, expires_unix)"
    and sc': "sc' = log_event cf wk i ServiceEventKind_LeaseRenewed detail
       (sync wk i (insert_definition i
          (s\<lparr> svc_origin := ServiceOrigin_Dynamic (origin\<lparr> do_expires_at_unix_ms := expires_unix \<rparr>) \<rparr>)
          (modify_runtime i (\<lambda>r. r\<lparr> sr_expires_at := expires_at \<rparr>) sc)))"
    by (rule renew_dynamic_Inr [OF result])
  define e where "e = (view_of s r)\<lparr> rv_origin := ServiceOrigin_Dynamic
      (origin\<lparr> do_expires_at_unix_ms := expires_unix \<rparr>), rv_expires := expires_at \<rparr>"
  have after: "roster_of sc' = (roster_of sc)(i \<mapsto> e)"
    using sc' roster_of_redefine [OF s(2)] by (simp add: e_def view_of_def depends_on_ids_def)
  have "leased (cf_policy cf) e"
    by (rule lease_granted [OF s(5), where origin = "origin\<lparr> do_expires_at_unix_ms := expires_unix \<rparr>"])
       (simp_all add: e_def)
  then have "roster_step (cf_policy cf) (roster_of sc) (wk_now wk) (roster_of sc')"
    unfolding after
    by (intro Renew [where v = "roster_of sc" and i = i, OF roster_of_get [OF s(1,2)]]) (use s in \<open>simp_all add: e_def is_live_def\<close>)
  then show ?thesis by (rule one_step)
qed

lemma retire_lifecycle [simp]:
  "sr_retired (retire_runtime wk reason r) = Some reason" "sr_expires_at (retire_runtime wk reason r) = None"
  by (simp_all add: retire_runtime_def)

lemma roster_of_retire:
  assumes "im_get (sc_services sc) i = Some s" and "im_get (sc_runtimes sc) i = Some r"
  shows "roster_of (modify_runtime i (retire_runtime wk reason) sc) =
    (roster_of sc)(i \<mapsto> (view_of s r)\<lparr> rv_retired := Some reason, rv_expires := None \<rparr>)"
  using assms by (simp add: roster_of_modify view_of_def)

lemma refine_stop:
  assumes step: "in_step {} sc" and result: "stop_dynamic cf wk i sc = Inr (ack, sc')"
  shows "roster_steps cf (wk_now wk) (roster_of sc) (roster_of sc')"
proof -
  obtain s origin r where
    s: "im_get (sc_services sc) i = Some s" "im_get (sc_runtimes sc) i = Some r"
      "svc_origin s = ServiceOrigin_Dynamic origin"
    and sc': "roster_of sc' = (if is_retired r then roster_of sc
      else roster_of (modify_runtime i (retire_runtime wk RetiredReason_Stopped) sc))"
    using result by (auto simp: stop_dynamic_def result_simps dynamic_origin_Inr)
  show ?thesis
  proof (cases "is_retired r")
    case False
    have "roster_step (cf_policy cf) (roster_of sc) (wk_now wk) (roster_of sc')"
      unfolding sc' if_not_P [OF False] roster_of_retire [OF s(1,2)]
      by (rule Stop [where v = "roster_of sc" and i = i, OF roster_of_get [OF s(1,2)]])
         (use False s(3) in \<open>simp_all add: rv_dynamic_def is_retired_def\<close>)
    then show ?thesis by (rule one_step)
  qed (simp add: sc')
qed

section \<open>Expiry and eviction\<close>

lemma roster_steps_inv: "roster_steps cf now v v' \<Longrightarrow> roster_inv (cf_policy cf) v \<Longrightarrow> roster_inv (cf_policy cf) v'"
  by (induction rule: rtranclp_induct) (auto intro: roster_inv_step)

lemma refine_expire_service:
  assumes ros: "roster_ok (sc_services sc) (sc_runtimes sc)" and inv: "roster_inv (cf_policy cf) (roster_of sc)"
    and r: "im_get (sc_runtimes sc) i = Some r" "expired (wk_now wk) r"
  shows "roster_steps cf (wk_now wk) (roster_of sc) (roster_of (expire_service cf wk i sc))"
proof -
  obtain s where s: "im_get (sc_services sc) i = Some s" by (rule roster_ok_pair [OF ros r(1)])
  obtain t where t: "sr_expires_at r = Some t" "t \<le> wk_now wk" "sr_retired r = None"
    using r(2) by (auto simp: expired_def is_live_def split: option.splits)
  have "lease_ok (cf_policy cf) (view_of s r)"
    using inv roster_of_get [OF s r(1)] by (simp add: roster_inv_def)
  then have dyn: "rv_dynamic (view_of s r)" using t by (auto simp: lease_ok_def)
  have "roster_step (cf_policy cf) (roster_of sc) (wk_now wk) (roster_of (expire_service cf wk i sc))"
    unfolding expire_service_def roster_of_event roster_of_sync roster_of_retire [OF s r(1)]
    by (rule Expire [where v = "roster_of sc" and i = i, OF roster_of_get [OF s r(1)] dyn _ _ t(2)]) (simp_all add: t)
  then show ?thesis by (rule one_step)
qed

lemma expire_service_other:
  "j \<noteq> i \<Longrightarrow> im_get (sc_runtimes (expire_service cf wk i sc)) j = im_get (sc_runtimes sc) j"
  by (simp add: expire_service_def)

lemma refine_expire_fold:
  assumes "in_step {} sc" and "roster_inv (cf_policy cf) (roster_of sc)" and "distinct is"
    and "\<And>i. i \<in> set is \<Longrightarrow> \<exists>r. im_get (sc_runtimes sc) i = Some r \<and> expired (wk_now wk) r"
  shows "roster_steps cf (wk_now wk) (roster_of sc) (roster_of (fold (expire_service cf wk) is sc))"
  using assms
proof (induction "is" arbitrary: sc)
  case (Cons i ks)
  let ?sc = "expire_service cf wk i sc"
  obtain r where r: "im_get (sc_runtimes sc) i = Some r" "expired (wk_now wk) r"
    using Cons.prems(4) [of i] by auto
  note first = refine_expire_service [OF in_step_roster_ok [OF Cons.prems(1)] Cons.prems(2) r]
  have "\<exists>r. im_get (sc_runtimes ?sc) j = Some r \<and> expired (wk_now wk) r" if j: "j \<in> set ks" for j
  proof -
    have "j \<noteq> i" using Cons.prems(3) j by auto
    moreover have "\<exists>r. im_get (sc_runtimes sc) j = Some r \<and> expired (wk_now wk) r"
      by (rule Cons.prems(4)) (simp add: j)
    ultimately show ?thesis using expire_service_other [of j i cf wk sc] by simp
  qed
  then have "roster_steps cf (wk_now wk) (roster_of ?sc) (roster_of (fold (expire_service cf wk) ks ?sc))"
    using Cons.IH [OF in_step_expire_service [OF Cons.prems(1)] roster_steps_inv [OF first Cons.prems(2)]]
      Cons.prems(3) by simp
  then show ?case using rtranclp_trans [OF first] by simp
qed simp

lemma refine_expire_due:
  assumes step: "in_step {} sc" and inv: "roster_inv (cf_policy cf) (roster_of sc)"
  shows "roster_steps cf (wk_now wk) (roster_of sc) (roster_of (snd (expire_due cf wk sc)))"
proof -
  have wf: "distinct (im_keys (sc_runtimes sc))"
    using in_step_roster_ok [OF step] by (simp add: roster_ok_def im_wf_def)
  let ?due = "filter (\<lambda>(i, r). expired (wk_now wk) r) (sc_runtimes sc)"
  have "\<exists>r. im_get (sc_runtimes sc) i = Some r \<and> expired (wk_now wk) r" if "i \<in> set (im_keys ?due)" for i
    using that im_get_filter [OF wf, of "\<lambda>(i, r). expired (wk_now wk) r" i]
    by (auto simp: set_im_keys split: option.splits if_splits)
  then show ?thesis
    using refine_expire_fold [OF step inv im_keys_filter_distinct [OF wf]]
    by (simp add: expire_due_def Let_def)
qed

lemma roster_of_remove: "roster_of (remove_entry cf i sc) = (roster_of sc)(i := None)"
  if "roster_ok (sc_services sc) (sc_runtimes sc)"
  using that
  by (auto simp: roster_ok_def roster_of_def remove_entry_def fun_eq_iff im_get_remove split: option.split)

lemma not_depended_on:
  assumes ros: "roster_ok (sc_services sc) (sc_runtimes sc)" and "i \<notin> set (depended_on (sc_services sc))"
  shows "(i, n) \<notin> roster_edges (roster_of sc)"
proof
  assume "(i, n) \<in> roster_edges (roster_of sc)"
  then obtain e where "roster_of sc n = Some e" "i \<in> set (rv_depends e)" by (auto simp: roster_edges_def)
  then obtain s where "im_get (sc_services sc) n = Some s" "i \<in> set (depends_on_ids s)"
    using roster_ok_view(1) [OF ros, of n] by (cases "im_get (sc_services sc) n") auto
  then show False
    using assms(2) map_of_SomeD by (force simp: depended_on_def)
qed

lemma refine_evict:
  "in_step {} sc \<Longrightarrow> roster_steps cf now (roster_of sc) (roster_of (evict_retired cf sc))"
proof (induction cf sc rule: evict_retired.induct)
  case (1 cf sc)
  show ?case
  proof (cases "retired_count (sc_runtimes sc) \<le> MAX_RETIRED_SERVICES \<or>
      eviction_candidate (sc_services sc) (sc_runtimes sc) = None")
    case True
    then show ?thesis by (subst evict_retired.simps) (auto split: option.split)
  next
    case False
    then obtain i where i: "eviction_candidate (sc_services sc) (sc_runtimes sc) = Some i" by blast
    note ros = in_step_roster_ok [OF 1(2)]
    obtain r where r: "im_get (sc_runtimes sc) i = Some r" "evictable (sc_services sc) i r"
      using eviction_candidateD [OF i] by blast
    obtain s where s: "im_get (sc_services sc) i = Some s" by (rule roster_ok_pair [OF ros r(1)])
    have "roster_step (cf_policy cf) (roster_of sc) now (roster_of (remove_entry cf i sc))"
      unfolding roster_of_remove [OF ros]
      by (rule Evict [where v = "roster_of sc" and i = i, OF roster_of_get [OF s r(1)]])
         (use r(2) not_depended_on [OF ros] in \<open>auto simp: evictable_def is_retired_def\<close>)
    moreover have "roster_steps cf now (roster_of (remove_entry cf i sc))
        (roster_of (evict_retired cf (remove_entry cf i sc)))"
      using 1(1) [OF _ i in_step_remove_entry [OF 1(2)]] False by simp
    ultimately show ?thesis
      using False i
      by (subst evict_retired.simps) (auto intro: converse_rtranclp_into_rtranclp)
  qed
qed

section \<open>What leaves the roster alone\<close>

lemma lifecycle_same_ops:
  "lifecycle_same r (finish_current_run now policy code r)"
  "lifecycle_same r (mark_killed r)"
  "lifecycle_same r (snd (mark_health h r))"
  "lifecycle_same r (finish_log_reader rid r)"
  "lifecycle_same r (r\<lparr> sr_input_drops := t \<rparr>)"
  "lifecycle_same r (r\<lparr> sr_draining_log_readers := ds \<rparr>)"
  "lifecycle_same r (r\<lparr> sr_running := x \<rparr>)"
  "lifecycle_same r (runtime_reconfigure policy r)"
  "lifecycle_same r (request_restart r)"
  "lifecycle_same r (request_enable r)"
  "lifecycle_same r (runtime_disable r)"
  by (auto simp: lifecycle_same_def runtime_ops_defs Let_def split: option.split state.split)

lemma roster_of_input_drop [simp]: "roster_of (record_input_drop cf wk i kind reason sc) = roster_of sc"
  by (auto simp: record_input_drop_def Let_def roster_of_modify_same lifecycle_same_ops
      split: option.split prod.split)

lemma roster_of_handle_input [simp]: "roster_of (handle_input cf wk input sc) = roster_of sc"
  by (auto simp: handle_input_def Let_def set_pty_def roster_of_modify_same lifecycle_same_ops
      split: sum.split)

lemma roster_of_fold:
  assumes "\<And>x sc. roster_of (f x sc) = roster_of sc"
  shows "roster_of (fold f xs sc) = roster_of sc"
  using assms by (induction xs arbitrary: sc) auto

lemma roster_of_drop_reports [simp]: "roster_of (report_due_input_drops cf wk sc) = roster_of sc"
  unfolding report_due_input_drops_def Let_def
  by (subst roster_of_fold) (auto simp: roster_of_map lifecycle_same_ops)

lemma roster_of_cancel_drains [simp]: "roster_of (cancel_due_drains wk sc) = roster_of sc"
  unfolding cancel_due_drains_def
  by (rule roster_of_map) (simp add: runtime_cancel_due_drains_def lifecycle_same_ops)

lemma roster_of_handle_event [simp]: "roster_of (snd (handle_event cf wk ev sc)) = roster_of sc"
  by (cases ev)
     (auto simp: handle_event_def handle_health_event_def handle_exit_event_def Let_def
       roster_of_modify_same lifecycle_same_ops split: option.split)

lemma roster_of_events [simp]: "roster_of (handle_events cf evs sc) = roster_of sc"
  unfolding handle_events_def by (rule roster_of_fold) auto

lemma roster_of_await:
  "await_loaded_services cf path ld sc = (result, sc') \<Longrightarrow> roster_of sc' = roster_of sc"
  by (auto simp: await_loaded_services_def split: if_splits load.splits)

lemma roster_of_resize [simp]: "roster_of (resize_all cols rows sc) = roster_of sc"
proof -
  have "roster_of (resize_all cols rows sc) = roster_of (sc\<lparr> sc_runtimes := sc_runtimes (resize_all cols rows sc) \<rparr>)"
    by (rule roster_of_same) (simp_all add: resize_all_def Let_def)
  also have "\<dots> = roster_of sc"
    by (simp add: resize_all_def Let_def roster_of_map lifecycle_same_ops)
  finally show ?thesis .
qed

text \<open>A scheduling pass starts and settles processes; it retires nothing and grants no lease.\<close>

lemma started_lifecycle:
  "started_runtime env sz s code r = (ok, r') \<Longrightarrow> lifecycle_same r r'"
  by (auto simp: started_runtime_def allocate_run_id_def prepare_start_def mark_starting_def
      decrement_failure_budget_def mark_started_def finish_failed_start_def finish_run_state_def
      lifecycle_same_def Let_def split: sum.splits)

lemma unblock_lifecycle:
  assumes "unblock r = unblock r0"
  shows "lifecycle_same r0 r"
proof -
  have "sr_retired (unblock r) = sr_retired (unblock r0)" "sr_expires_at (unblock r) = sr_expires_at (unblock r0)"
    using assms by simp_all
  then show ?thesis by (simp add: lifecycle_same_def unblock_def)
qed

lemma roster_of_ready:
  assumes step: "in_step {} sc"
  shows "roster_of (with_context sc (schedule_ready env (context_of sc))) = roster_of sc"
proof (rule ext)
  fix i
  let ?ctx = "context_of sc" and ?sc = "with_context sc (schedule_ready env (context_of sc))"
  have same: "cx_services ?ctx = sc_services sc" "cx_runtimes ?ctx = sc_runtimes sc"
    "sc_services ?sc = sc_services sc" "sc_runtimes ?sc = cx_runtimes (schedule_ready env ?ctx)"
    by (simp_all add: context_of_def with_context_def)
  note ros = in_step_roster_ok [OF step]
  show "roster_of ?sc i = roster_of sc i"
  proof (cases "im_get (sc_services sc) i")
    case None
    then show ?thesis by (simp add: roster_of_def same)
  next
    case (Some s)
    obtain r0 where r0: "im_get (sc_runtimes sc) i = Some r0" by (rule roster_ok_get [OF ros Some])
    have wf: "im_wf (cx_services ?ctx)" "runtimes_ok (cx_services ?ctx) (cx_runtimes ?ctx)"
      "(i, s) \<in> set (cx_services ?ctx)" "im_get (cx_runtimes ?ctx) i = Some r0"
      using ros roster_ok_runtimes_ok [OF ros] Some r0 map_of_SomeD
      by (auto simp: same roster_ok_def)
    obtain r where r: "im_get (cx_runtimes (schedule_ready env ?ctx)) i = Some r"
      "unblock r = unblock r0 \<or>
       spawned_in_pass env (cx_pty_size ?ctx) (cx_runtimes ?ctx) (cx_runtimes (schedule_ready env ?ctx)) i s r0 r"
      by (rule schedule_ready_outcome [OF wf, of env])
    have "lifecycle_same r0 r"
      using r(2) unblock_lifecycle started_lifecycle unfolding spawned_in_pass_def by blast
    then show ?thesis
      using Some r0 r(1) by (simp add: roster_of_def same view_of_def lifecycle_same_def)
  qed
qed

section \<open>Reload\<close>

lemma roster_of_sync_all [simp]: "roster_of (sync_all wk sc) = roster_of sc"
  unfolding sync_all_def by (rule roster_of_fold) simp

lemma lifecycle_reconfigured: "lifecycle_same r (reconfigured merged i r)"
  by (auto simp: reconfigured_def lifecycle_same_ops lifecycle_same_def [of r r] split: option.split)

lemma sync_all_services [simp]: "sc_services (sync_all wk sc) = sc_services sc"
proof -
  have "sc_services (fold (sync wk) ks sc) = sc_services sc" for ks
    by (induction ks arbitrary: sc) auto
  then show ?thesis by (simp add: sync_all_def)
qed

lemma configured_unleased:
  assumes "roster_inv p (roster_of sc)" and "im_get (sc_services sc) i = Some s"
    and "im_get (sc_runtimes sc) i = Some r" and "svc_origin s = ServiceOrigin_Configured"
  shows "sr_expires_at r = None"
proof -
  have "lease_ok p (view_of s r)"
    using assms(1) roster_of_get [OF assms(2,3)] by (simp add: roster_inv_def)
  then show ?thesis using assms(4) by (simp add: lease_ok_def rv_dynamic_def)
qed

lemma live_configuredD:
  assumes "live_configured rts (i, s)" and "im_get rts i = Some r"
  shows "svc_origin s = ServiceOrigin_Configured" and "sr_retired r = None"
  using assms
  by (auto simp: live_configured_def roster_entry_state_def is_retired_def
      split: service_origin.splits bool.splits)

lemma refine_apply_reload:
  assumes step: "in_step {} sc" and inv: "roster_inv (cf_policy cf) (roster_of sc)"
    and upd: "configured_ok updated"
    and val: "validate_reloaded_services (sc_services sc) (sc_runtimes sc) updated = Inr ()"
    and graph: "graph_ok (merge_reloaded (sc_services sc) (sc_runtimes sc) updated)"
  shows "roster_step (cf_policy cf) (roster_of sc) now
    (roster_of (apply_reload cf wk (merge_reloaded (sc_services sc) (sc_runtimes sc) updated) sc))"
proof -
  define merged where "merged = merge_reloaded (sc_services sc) (sc_runtimes sc) updated"
  define sc1 where "sc1 = fold (reconfigure_service cf merged) (im_keys (sc_runtimes sc)) sc"
  define v' where "v' = roster_of (apply_reload cf wk merged sc)"
  note ros = in_step_roster_ok [OF step]
  note merged = reload_merged [OF ros upd val, folded merged_def]
  have wf: "distinct (im_keys (sc_runtimes sc))" using ros by (simp add: roster_ok_def im_wf_def)
  have get: "im_get (sc_runtimes sc1) i = map_option (reconfigured merged i) (im_get (sc_runtimes sc) i)" for i
    using reconfigure_fold(3) [OF wf, of cf merged sc i] im_get_None [of "sc_runtimes sc" i]
    by (auto simp: sc1_def)
  have "v' = roster_of (sc1\<lparr> sc_services := merged \<rparr>)"
    unfolding v'_def apply_reload_def Let_def sc1_def [symmetric] by (subst roster_of_fold) simp_all
  then have v': "v' i = (case (im_get merged i, im_get (sc_runtimes sc) i) of
      (Some u, Some r) \<Rightarrow> Some (view_of u (reconfigured merged i r)) | _ \<Rightarrow> None)" for i
    by (auto simp: roster_of_def get split: option.split)
  have pointwise: "v' i = roster_of sc i \<or>
      (\<exists>s r u. im_get (sc_services sc) i = Some s \<and> im_get (sc_runtimes sc) i = Some r \<and>
         svc_origin s = ServiceOrigin_Configured \<and> sr_retired r = None \<and> sr_expires_at r = None \<and>
         svc_origin u = ServiceOrigin_Configured \<and> v' i = Some (view_of u (reconfigured merged i r)))" for i
  proof (cases "im_get (sc_services sc) i")
    case None
    then have "im_get merged i = None" using merged(2) by (metis domIff)
    then show ?thesis using None by (simp add: v' roster_of_def)
  next
    case (Some s)
    obtain r where r: "im_get (sc_runtimes sc) i = Some r" by (rule roster_ok_get [OF ros Some])
    from merged(3) [OF Some] show ?thesis
    proof
      assume "kept_by_reload (sc_runtimes sc) (i, s) \<and> im_get merged i = Some s"
      then show ?thesis
        using Some r lifecycle_reconfigured [of r merged i]
        by (simp add: v' roster_of_def view_of_def lifecycle_same_def)
    next
      assume a: "live_configured (sc_runtimes sc) (i, s) \<and>
        (\<exists>u. im_get merged i = Some u \<and> im_get updated i = Some u \<and> svc_id u = i \<and>
           svc_origin u = ServiceOrigin_Configured)"
      then obtain u where u: "im_get merged i = Some u" "svc_origin u = ServiceOrigin_Configured" by blast
      note live = live_configuredD [OF conjunct1 [OF a] r]
      show ?thesis
        using Some r u live configured_unleased [OF inv Some r live(1)]
        by (intro disjI2 exI [of _ s] exI [of _ r] exI [of _ u]) (simp add: v')
    qed
  qed
  have "roster_step (cf_policy cf) (roster_of sc) now v'"
  proof (rule Configure)
    show change: "configured_change (roster_of sc i) (v' i)" for i
      using pointwise [of i] lifecycle_reconfigured [of _ merged i]
      by (auto simp: configured_change_def rv_dynamic_def roster_of_def lifecycle_same_def)
    have dom: "v' i = None \<longleftrightarrow> roster_of sc i = None" for i
      using pointwise [of i] by (auto simp: roster_of_def)
    then have "dom v' = dom (roster_of sc)" by (auto simp: dom_def)
    then show "finite (dom v')" using inv by (simp add: roster_inv_def)
    have "map_option rv_depends (v' i) = map_option depends_on_ids (im_get merged i)" for i
    proof (cases "im_get merged i")
      case (Some u)
      then obtain s where s: "im_get (sc_services sc) i = Some s" using merged(2) by (metis domIff not_None_eq)
      obtain r where "im_get (sc_runtimes sc) i = Some r" by (rule roster_ok_get [OF ros s])
      then show ?thesis using Some by (simp add: v')
    qed (simp add: v')
    then show "roster_graph_ok v'"
      using graph_ok_view [OF merged(1)] graph by (simp add: merged_def)
    show "map_option rv_retired (v' d) = Some None"
      if "map_option rv_retired (roster_of sc d) = Some None" for d
      using pointwise [of d] that lifecycle_reconfigured [of _ merged d] by (auto simp: lifecycle_same_def)
  qed
  then show ?thesis by (simp add: v'_def merged_def)
qed

lemma refine_reload:
  assumes step: "in_step {} sc" and inv: "roster_inv (cf_policy cf) (roster_of sc)"
    and toposort: "toposort_contract (cf_toposort cf)" and "load_ok ld"
  shows "roster_steps cf now (roster_of sc) (roster_of (snd (reload_services cf wk ld sc)))"
proof (cases "cf_reload cf")
  case (Some path)
  obtain result sc1 where a: "await_loaded_services cf path ld sc = (result, sc1)" by fastforce
  note loaded = await_loaded [OF a assms(4)]
  have same: "roster_of sc1 = roster_of sc" by (rule roster_of_await [OF a])
  have accepted: "roster_steps cf now (roster_of sc)
      (roster_of (apply_reload cf wk (merge_reloaded (sc_services sc1) (sc_runtimes sc1) updated) sc1))"
    if r: "result = Inr updated" "validate_reloaded_services (sc_services sc1) (sc_runtimes sc1) updated = Inr ()"
      "service_graph_new (cf_toposort cf) (merge_reloaded (sc_services sc1) (sc_runtimes sc1) updated) = Inr ()"
    for updated
  proof (rule one_step)
    have "graph_ok (merge_reloaded (sc_services sc1) (sc_runtimes sc1) updated)"
      using r(3) toposort_contract.accepts_iff [OF toposort] by simp
    then show "roster_step (cf_policy cf) (roster_of sc) now
      (roster_of (apply_reload cf wk (merge_reloaded (sc_services sc1) (sc_runtimes sc1) updated) sc1))"
      using refine_apply_reload [OF loaded(1) [OF step] _ _ r(2)] loaded(2) [OF r(1)] inv
      unfolding same by blast
  qed
  show ?thesis
    using Some a same accepted
    by (auto simp: reload_services_def result_simps Let_def split: sum.split)
qed (simp add: reload_services_def)

section \<open>Reconciliation\<close>

text \<open>What applying the actions does to one service of the new configuration.\<close>

definition updated_view ::
  "reconcile_action list \<Rightarrow> service_id \<Rightarrow> service \<Rightarrow> roster_view option \<Rightarrow> roster_view option"
where
  "updated_view actions i s old =
     (case List.find (\<lambda>a. ra_service a = i) (rev actions) of
        None \<Rightarrow> old
      | Some a \<Rightarrow>
          (case ra_action a of
             ReconcileActionKind_Added \<Rightarrow>
               Some \<lparr> rv_origin = svc_origin s, rv_depends = depends_on_ids s, rv_retired = None,
                      rv_expires = None \<rparr>
           | ReconcileActionKind_Changed \<Rightarrow>
               map_option (\<lambda>e. e\<lparr> rv_origin := svc_origin s, rv_depends := depends_on_ids s \<rparr>) old
           | ReconcileActionKind_Removed \<Rightarrow> old))"

definition removed_view :: "roster_view option \<Rightarrow> roster_view option" where
  "removed_view old =
     map_option (\<lambda>e. e\<lparr> rv_retired := Some RetiredReason_Removed, rv_expires := None \<rparr>) old"

lemma revived_lifecycle: "sr_retired (revive_runtime s r) = None" "sr_expires_at (revive_runtime s r) = None"
  using lifecycle_same_ops(8-) unfolding revive_runtime_def Let_def
  by (auto simp: lifecycle_same_def split: startup_mode.split)

lemma new_lifecycle: "sr_retired (runtime_new s) = None" "sr_expires_at (runtime_new s) = None"
  by (simp_all add: runtime_new_def Let_def)

lemma roster_of_apply_updated:
  assumes "roster_ok (sc_services sc) (sc_runtimes sc)"
  shows "roster_of (apply_updated cf wk actions (i, s) sc) =
    (roster_of sc)(i := updated_view actions i s (roster_of sc i))"
proof -
  have added: "roster_of (apply_added cf wk i s sc) =
      (roster_of sc)(i \<mapsto> \<lparr> rv_origin = svc_origin s, rv_depends = depends_on_ids s, rv_retired = None,
        rv_expires = None \<rparr>)"
  proof (cases "\<exists>c. im_get (sc_services sc) i = Some c \<and>
      roster_entry_state (sc_runtimes sc) i c = Some RosterEntryState_RetiredConfigured")
    case True
    then obtain r where "im_get (sc_runtimes sc) i = Some r" by (auto simp: roster_entry_state_def)
    then show ?thesis
      using True roster_of_redefine [of sc i r s "revive_runtime s"]
      by (auto simp: apply_added_def view_of_def revived_lifecycle)
  next
    case False
    then have "roster_of (apply_added cf wk i s sc) =
        roster_of (sc\<lparr> sc_services := im_insert i s (sc_services sc),
          sc_runtimes := im_insert i (runtime_new s) (sc_runtimes sc) \<rparr>)"
      by (intro roster_of_same) (auto simp: apply_added_def Let_def split: option.split)
    then show ?thesis
      by (auto simp: roster_of_def fun_eq_iff im_get_insert view_of_def new_lifecycle split: option.split)
  qed
  have changed: "roster_of (apply_changed cf wk detail i s sc) =
      (roster_of sc)(i := map_option (\<lambda>e. e\<lparr> rv_origin := svc_origin s, rv_depends := depends_on_ids s \<rparr>)
         (roster_of sc i))" for detail
  proof (cases "im_get (sc_runtimes sc) i")
    case None
    then show ?thesis
      by (auto simp: apply_changed_def roster_of_def fun_eq_iff im_get_insert split: option.split)
  next
    case (Some r)
    obtain c where c: "im_get (sc_services sc) i = Some c" by (rule roster_ok_pair [OF assms Some])
    have "lifecycle_same r (runtime_reconfigure p r)" for p by (rule lifecycle_same_ops)
    then show ?thesis
      using roster_of_get [OF c Some] roster_of_redefine [OF Some]
      by (simp add: apply_changed_def view_of_def lifecycle_same_def)
  qed
  show ?thesis
    using added changed
    by (auto simp: apply_updated_def updated_view_def split: option.split reconcile_action_kind.split)
qed

lemma roster_of_apply_updates:
  assumes step: "in_step {} sc"
    and actions: "actions = reconcile_actions (sc_services sc) (sc_runtimes sc) updated"
    and ps: "\<And>i s. (i, s) \<in> set ps \<Longrightarrow> svc_id s = i \<and> \<not> is_dynamic_in (sc_services sc) i"
    and dist: "distinct (map fst ps)"
  shows "roster_of (fold (apply_updated cf wk actions) ps sc) j =
    (case im_get ps j of
       None \<Rightarrow> roster_of sc j
     | Some s \<Rightarrow> updated_view actions j s (roster_of sc j))"
  using ps dist
proof (induction ps arbitrary: j rule: rev_induct)
  case (snoc p ps)
  obtain i s where p: "p = (i, s)" by fastforce
  let ?sc = "fold (apply_updated cf wk actions) ps sc"
  have own: "svc_id s = i \<and> \<not> is_dynamic_in (sc_services sc) i" if "(i, s) \<in> set ps" for i s
    by (rule snoc.prems(1)) (simp add: that)
  have dist: "distinct (map fst ps)" "i \<notin> fst ` set ps" using snoc.prems(2) p by auto
  have "untouched (fst ` set ps) sc sc" by (simp add: untouched_def)
  then have "in_step {} ?sc"
    by (intro in_step_apply_updated [OF step actions own dist(1) _ step])
  note after = roster_of_apply_updated [OF in_step_roster_ok [OF this], of cf wk actions i s]
  have "im_get ps i = None" using dist(2) by (simp add: im_get_None im_keys_def)
  moreover have "roster_of ?sc k = (case im_get ps k of None \<Rightarrow> roster_of sc k
      | Some s \<Rightarrow> updated_view actions k s (roster_of sc k))" for k
    by (rule snoc.IH [OF own dist(1)])
  ultimately show ?case
    using after by (simp add: p map_add_def split: option.split)
qed simp

lemma roster_of_apply_removed:
  "roster_of (apply_removed cf wk i sc) = (roster_of sc)(i := removed_view (roster_of sc i))"
  by (auto simp: apply_removed_def roster_of_modify removed_view_def fun_eq_iff roster_of_def view_of_def
      split: option.split)

lemma roster_of_apply_removals:
  "roster_of (fold (apply_removed cf wk) ks sc) j =
     (if j \<in> set ks then removed_view (roster_of sc j) else roster_of sc j)"
proof (induction ks arbitrary: sc)
  case (Cons k ks)
  have "removed_view (removed_view x) = removed_view x" for x
    by (cases x) (simp_all add: removed_view_def)
  then show ?case using Cons by (simp add: roster_of_apply_removed)
qed simp

text \<open>The actions name every difference, and only differences.\<close>

lemma find_rev_action:
  "List.find (\<lambda>a. ra_service a = i) (rev actions) = Some a \<Longrightarrow> a \<in> set actions \<and> ra_service a = i"
  using find_SomeD [of "\<lambda>a. ra_service a = i" "rev actions" a] by simp

lemma find_rev_no_action:
  "List.find (\<lambda>a. ra_service a = i) (rev actions) = None \<longleftrightarrow> i \<notin> ra_service ` set actions"
  by (auto simp: find_None_iff)

lemma reconcile_updated_in:
  assumes "(i, u) \<in> set updated" and "reconcile_updated services rts (i, u) = Some a"
  shows "a \<in> set (reconcile_actions services rts updated)"
  using assms by (force simp: reconcile_actions_def map_filter_def)

lemma same_spec_depends: "same_spec (svc_spec a) (svc_spec b) \<Longrightarrow> depends_on_ids a = depends_on_ids b"
proof -
  assume "same_spec (svc_spec a) (svc_spec b)"
  then have "ss_depends_on ((svc_spec a)\<lparr> ss_environment := [] \<rparr>) =
      ss_depends_on ((svc_spec b)\<lparr> ss_environment := [] \<rparr>)" by (simp add: same_spec_def)
  then show ?thesis by (simp add: depends_on_ids_def)
qed

lemma no_action_same:
  assumes "i \<notin> ra_service ` set (reconcile_actions services rts updated)" and "(i, u) \<in> set updated"
  obtains s where "im_get services i = Some s" "live_configured rts (i, s)"
    "depends_on_ids s = depends_on_ids u"
proof -
  have "reconcile_updated services rts (i, u) = None"
  proof (rule ccontr)
    assume "reconcile_updated services rts (i, u) \<noteq> None"
    then obtain a where a: "reconcile_updated services rts (i, u) = Some a" by blast
    then have "ra_service a = i" by (auto simp: reconcile_updated_def split: option.splits if_splits)
    then show False using assms(1) reconcile_updated_in [OF assms(2) a] by blast
  qed
  then obtain s where "im_get services i = Some s" "live_configured rts (i, s)" "changed_parts s u = []"
    by (auto simp: reconcile_updated_def split: option.splits if_splits)
  then show thesis
    using that same_spec_depends by (auto simp: changed_parts_def split: if_splits)
qed

lemma removed_iff:
  assumes "im_wf services"
  shows "i \<in> set (removed_services (reconcile_actions services rts updated)) \<longleftrightarrow>
    (\<exists>s. im_get services i = Some s \<and> live_configured rts (i, s) \<and> im_get updated i = None)"
proof -
  have "i \<in> set (removed_services (reconcile_actions services rts updated)) \<longleftrightarrow>
      (\<exists>a \<in> set (reconcile_actions services rts updated).
         ra_action a = ReconcileActionKind_Removed \<and> ra_service a = i)"
    by (auto simp: removed_services_def)
  also have "\<dots> \<longleftrightarrow> (\<exists>s. (i, s) \<in> set services \<and> live_configured rts (i, s) \<and> im_get updated i = None)"
  proof
    assume "\<exists>a \<in> set (reconcile_actions services rts updated).
         ra_action a = ReconcileActionKind_Removed \<and> ra_service a = i"
    then obtain a where a: "a \<in> set (reconcile_actions services rts updated)"
      "ra_action a = ReconcileActionKind_Removed" "ra_service a = i" by blast
    from a(1) show "\<exists>s. (i, s) \<in> set services \<and> live_configured rts (i, s) \<and> im_get updated i = None"
      by (cases rule: reconcile_action_cases) (use a(2,3) in auto)
  next
    assume "\<exists>s. (i, s) \<in> set services \<and> live_configured rts (i, s) \<and> im_get updated i = None"
    then show "\<exists>a \<in> set (reconcile_actions services rts updated).
         ra_action a = ReconcileActionKind_Removed \<and> ra_service a = i"
      using im_get_None [of updated i]
      by (force simp: reconcile_actions_def reconcile_removed_def im_contains_iff)
  qed
  finally show ?thesis using assms by (simp add: im_get_in_set)
qed

text \<open>The kinds of services a reconciliation finds, and what it makes of each.\<close>

lemma updated_view_cases:
  assumes ros: "roster_ok (sc_services sc) (sc_runtimes sc)" and wf: "im_wf updated"
    and inv: "roster_inv p (roster_of sc)"
    and u: "im_get updated i = Some u" and static: "\<not> is_dynamic_in (sc_services sc) i"
    and configured: "svc_origin u = ServiceOrigin_Configured"
  defines "actions \<equiv> reconcile_actions (sc_services sc) (sc_runtimes sc) updated"
  obtains (kept) e where "roster_of sc i = Some e" "rv_retired e = None"
      "updated_view actions i u (roster_of sc i) = Some e" "rv_depends e = depends_on_ids u"
  | (defined) e where "updated_view actions i u (roster_of sc i) = Some e" "\<not> rv_dynamic e"
      "rv_retired e = None" "rv_expires e = None" "rv_depends e = depends_on_ids u"
proof (cases "List.find (\<lambda>a. ra_service a = i) (rev actions)")
  case None
  then obtain s where s: "im_get (sc_services sc) i = Some s" "live_configured (sc_runtimes sc) (i, s)"
    "depends_on_ids s = depends_on_ids u"
    using no_action_same [of i "sc_services sc" "sc_runtimes sc" updated u] find_rev_no_action [of i actions]
      map_of_SomeD [OF u] by (auto simp: actions_def)
  obtain r where r: "im_get (sc_runtimes sc) i = Some r" by (rule roster_ok_get [OF ros s(1)])
  show thesis
    by (rule kept [OF roster_of_get [OF s(1) r]])
       (use None s r live_configuredD [OF s(2) r] roster_of_get [OF s(1) r] in
         \<open>simp_all add: updated_view_def\<close>)
next
  case (Some a)
  then have a: "a \<in> set actions" "ra_service a = i" using find_rev_action by blast+
  from a(1) [unfolded actions_def] show thesis
  proof (cases rule: reconcile_action_cases)
    case (added u')
    then show thesis
      using Some configured
      by (intro defined [of "\<lparr> rv_origin = svc_origin u, rv_depends = depends_on_ids u,
            rv_retired = None, rv_expires = None \<rparr>"])
         (simp_all add: updated_view_def rv_dynamic_def)
  next
    case (changed u' s)
    have s: "im_get (sc_services sc) i = Some s" "live_configured (sc_runtimes sc) (i, s)"
      using changed a(2) by simp_all
    obtain r where r: "im_get (sc_runtimes sc) i = Some r" by (rule roster_ok_get [OF ros s(1)])
    note live = live_configuredD [OF s(2) r]
    show thesis
      by (rule defined [of "(view_of s r)\<lparr> rv_origin := svc_origin u, rv_depends := depends_on_ids u \<rparr>"])
         (use Some changed(2) roster_of_get [OF s(1) r] live configured
            configured_unleased [OF inv s(1) r live(1)] in \<open>simp_all add: updated_view_def rv_dynamic_def\<close>)
  next
    case (removed s)
    then show thesis using u a(2) by simp
  qed
qed

lemma is_dynamic_in_view:
  assumes "roster_ok (sc_services sc) (sc_runtimes sc)" and "\<not> is_dynamic_in (sc_services sc) i"
    and "roster_of sc i = Some e"
  shows "\<not> rv_dynamic e"
  using assms by (auto simp: is_dynamic_in_def roster_of_def rv_dynamic_def split: option.splits)

text \<open>The roster that is validated is the roster that results.\<close>

lemma reconcile_candidate_get:
  assumes "im_wf services"
  shows "im_get (reconcile_candidate services rts updated actions) i =
    (case im_get services i of
       None \<Rightarrow> im_get updated i
     | Some s \<Rightarrow> if retained_by_reconcile rts updated actions (i, s) then Some s else im_get updated i)"
proof -
  have "distinct (im_keys services)" using assms by (simp add: im_wf_def)
  then show ?thesis
    unfolding reconcile_candidate_def
    by (simp add: im_get_fold_insert im_keys_filter_distinct im_get_filter split: option.split)
qed

text \<open>The roster after a reconciliation, service by service.\<close>

lemma roster_of_apply_reconcile:
  assumes step: "in_step {} sc" and upd: "configured_ok updated"
  defines "actions \<equiv> reconcile_actions (sc_services sc) (sc_runtimes sc) updated"
  assumes val: "validate_reconcile_candidate cf (sc_services sc) (sc_runtimes sc) updated actions = Inr ()"
  shows "roster_of (apply_reconcile cf wk updated actions sc) i =
    (case im_get updated i of
       Some u \<Rightarrow> updated_view actions i u (roster_of sc i)
     | None \<Rightarrow> if i \<in> set (removed_services actions) then removed_view (roster_of sc i) else roster_of sc i)"
proof -
  note ros = in_step_roster_ok [OF step]
  have wf: "im_wf (sc_services sc)" "im_wf updated" using ros upd by (simp_all add: roster_ok_def configured_ok_def)
  have own: "svc_id s = i \<and> \<not> is_dynamic_in (sc_services sc) i" if "(i, s) \<in> set updated" for i s
  proof -
    have "im_get updated i = Some s" using that wf(2) by (simp add: im_get_in_set)
    then show ?thesis using reconcile_static [OF val im_get_keys] configured_okD [OF upd] by blast
  qed
  have dist: "distinct (map fst updated)" using wf(2) by (simp add: im_wf_def im_keys_def)
  show ?thesis
    using roster_of_apply_updates [OF step _ own dist, where actions = actions and cf = cf and wk = wk and j = i]
      removed_iff [OF wf(1), of i "sc_runtimes sc" updated]
    by (auto simp: apply_reconcile_def roster_of_apply_removals actions_def split: option.split)
qed

lemma refine_apply_reconcile:
  assumes step: "in_step {} sc" and inv: "roster_inv (cf_policy cf) (roster_of sc)"
    and upd: "configured_ok updated" and toposort: "toposort_contract (cf_toposort cf)"
  defines "actions \<equiv> reconcile_actions (sc_services sc) (sc_runtimes sc) updated"
  assumes val: "validate_reconcile_candidate cf (sc_services sc) (sc_runtimes sc) updated actions = Inr ()"
  shows "roster_step (cf_policy cf) (roster_of sc) now (roster_of (apply_reconcile cf wk updated actions sc))"
proof -
  define v' where "v' = roster_of (apply_reconcile cf wk updated actions sc)"
  define removed where "removed = set (removed_services actions)"
  note ros = in_step_roster_ok [OF step]
  have wf: "im_wf (sc_services sc)" "im_wf updated" using ros upd by (simp_all add: roster_ok_def configured_ok_def)
  have static: "\<not> is_dynamic_in (sc_services sc) i" if "im_get updated i = Some u" for i u
    using reconcile_static [OF val im_get_keys [OF that]] .
  have removed: "i \<in> removed \<longleftrightarrow> (\<exists>s. im_get (sc_services sc) i = Some s \<and>
      live_configured (sc_runtimes sc) (i, s) \<and> im_get updated i = None)" for i
    unfolding removed_def actions_def by (rule removed_iff [OF wf(1)])
  have v': "v' i = (case im_get updated i of
      Some u \<Rightarrow> updated_view actions i u (roster_of sc i)
    | None \<Rightarrow> if i \<in> removed then removed_view (roster_of sc i) else roster_of sc i)" for i
    unfolding v'_def removed_def actions_def
    by (rule roster_of_apply_reconcile [OF step upd val [unfolded actions_def]])
  have removed_live: "\<exists>s r. roster_of sc i = Some (view_of s r) \<and> svc_origin s = ServiceOrigin_Configured \<and>
      sr_retired r = None" if i: "i \<in> removed" for i
  proof -
    obtain s where s: "im_get (sc_services sc) i = Some s" "live_configured (sc_runtimes sc) (i, s)"
      using i removed by blast
    obtain r where r: "im_get (sc_runtimes sc) i = Some r" by (rule roster_ok_get [OF ros s(1)])
    show ?thesis using roster_of_get [OF s(1) r] live_configuredD [OF s(2) r] by blast
  qed
  have "roster_step (cf_policy cf) (roster_of sc) now v'"
  proof (rule Configure)
    show "configured_change (roster_of sc i) (v' i)" for i
    proof (cases "im_get updated i")
      case None
      show ?thesis
        using removed_live [of i]
        by (cases "i \<in> removed") (auto simp: v' None configured_change_def removed_view_def rv_dynamic_def)
    next
      case (Some u)
      have "svc_origin u = ServiceOrigin_Configured" using configured_okD [OF upd Some] by simp
      then show ?thesis
      proof (cases rule: updated_view_cases [OF ros wf(2) inv Some static [OF Some], folded actions_def,
            consumes 1, case_names kept defined])
        case (kept e)
        then show ?thesis by (simp add: v' Some configured_change_def)
      next
        case (defined e)
        then show ?thesis
          using is_dynamic_in_view [OF ros static [OF Some]]
          by (auto simp: v' Some configured_change_def)
      qed
    qed
    have "dom v' \<subseteq> dom (roster_of sc) \<union> set (im_keys updated)"
    proof
      fix i assume "i \<in> dom v'"
      then show "i \<in> dom (roster_of sc) \<union> set (im_keys updated)"
        using im_get_None [of updated i]
        by (cases "im_get updated i") (auto simp: v' removed_view_def split: if_splits)
    qed
    moreover have "finite (dom (roster_of sc))" using inv by (simp add: roster_inv_def)
    ultimately show "finite (dom v')" by (meson finite_Un finite_set finite_subset)
    have same: "map_option rv_depends (v' i) = map_option depends_on_ids
        (im_get (reconcile_candidate (sc_services sc) (sc_runtimes sc) updated actions) i)" for i
    proof (cases "im_get updated i")
      case (Some u)
      have "map_option rv_depends (v' i) = Some (depends_on_ids u)"
        by (rule updated_view_cases [OF ros wf(2) inv Some static [OF Some]
              conjunct2 [OF configured_okD [OF upd Some]]])
           (simp_all add: v' Some actions_def)
      moreover have "\<not> retained_by_reconcile (sc_runtimes sc) updated actions (i, s)"
        if s: "im_get (sc_services sc) i = Some s" for s
      proof -
        have "i \<notin> removed" using removed [of i] Some by simp
        then show ?thesis
          using static [OF Some] s Some im_get_None [of updated i]
          by (auto simp: retained_by_reconcile_def Let_def is_dynamic_in_def roster_entry_state_def
              removed_def im_contains_iff split: service_origin.splits bool.splits)
      qed
      ultimately show ?thesis
        using Some by (simp add: reconcile_candidate_get [OF wf(1)] split: option.split)
    next
      case None
      have old: "map_option rv_depends (v' i) = map_option depends_on_ids (im_get (sc_services sc) i)"
        using roster_ok_view(1) [OF ros, of i]
        by (cases "roster_of sc i") (auto simp: v' None removed_view_def)
      show ?thesis
      proof (cases "im_get (sc_services sc) i")
        case (Some s)
        obtain r where r: "im_get (sc_runtimes sc) i = Some r" by (rule roster_ok_get [OF ros Some])
        have "retained_by_reconcile (sc_runtimes sc) updated actions (i, s)"
        proof (cases "live_configured (sc_runtimes sc) (i, s)")
          case True
          then have "i \<in> removed" using removed [of i] Some None by blast
          then show ?thesis by (simp add: retained_by_reconcile_def Let_def removed_def)
        next
          case False
          then show ?thesis
            using r None im_get_None [of updated i]
            by (auto simp: retained_by_reconcile_def Let_def live_configured_def roster_entry_state_def
                im_contains_iff split: service_origin.splits bool.splits)
        qed
        then show ?thesis using old Some by (simp add: reconcile_candidate_get [OF wf(1)])
      qed (use old None in \<open>simp add: reconcile_candidate_get [OF wf(1)]\<close>)
    qed
    have "service_graph_new (cf_toposort cf)
        (reconcile_candidate (sc_services sc) (sc_runtimes sc) updated actions) = Inr ()"
      using val by (auto simp: validate_reconcile_candidate_def result_simps split: option.splits list.splits)
    then have "graph_ok (reconcile_candidate (sc_services sc) (sc_runtimes sc) updated actions)"
      using toposort_contract.accepts_iff [OF toposort] by simp
    moreover have "im_wf (reconcile_candidate (sc_services sc) (sc_runtimes sc) updated actions)"
      unfolding reconcile_candidate_def by (rule im_wf_fold_insert [OF wf(2)])
    ultimately show "roster_graph_ok v'" using graph_ok_view [OF _ same] by blast
    show "map_option rv_retired (v' d) = Some None"
      if h: "roster_of sc i = Some e" "i \<in> live_dynamic (roster_of sc)" "d \<in> set (rv_depends e)"
        "map_option rv_retired (roster_of sc d) = Some None" for i e d
    proof (cases "im_get updated d")
      case (Some u)
      show ?thesis
        by (rule updated_view_cases [OF ros wf(2) inv Some static [OF Some]
              conjunct2 [OF configured_okD [OF upd Some]]])
           (simp_all add: v' Some actions_def)
    next
      case None
      have "d \<notin> removed"
      proof
        assume d: "d \<in> removed"
        obtain s r where s: "im_get (sc_services sc) i = Some s" "im_get (sc_runtimes sc) i = Some r"
          "e = view_of s r"
          using h(1) by (auto simp: roster_of_def split: option.splits)
        have "roster_entry_state (sc_runtimes sc) i s = Some RosterEntryState_LiveDynamic"
          using h(1,2) s
          by (auto simp: live_dynamic_def rv_dynamic_def roster_entry_state_def is_retired_def
              split: service_origin.splits)
        moreover have "d \<in> set (depends_on_ids s)" using h(3) s(3) by simp
        ultimately have "i \<in> set (orphaned_dependents (sc_services sc) (sc_runtimes sc) actions)"
          using map_of_SomeD [OF s(1)] d
          by (force simp: orphaned_dependents_def im_keys_def list_ex_iff removed_def)
        then show False
          using val by (auto simp: validate_reconcile_candidate_def split: option.splits list.splits)
      qed
      then show ?thesis using h(4) by (simp add: v' None)
    qed
  qed
  then show ?thesis by (simp add: v'_def)
qed

end
