(* ===== verification/Rounds.thy ===== *)
theory Rounds
  imports Refinement
begin

text \<open>
  The commands and the rounds of the scheduler task: each keeps the roster, the runtimes and the
  published model together and implements steps of the abstract roster; hence so does every run of
  the task from its start.
\<close>

section \<open>Commands\<close>

lemma in_step_live_modify:
  assumes "in_step {} sc" and "\<And>r. im_get (sc_runtimes sc) i = Some r \<Longrightarrow> sr_retired r = None"
    and "\<And>p r. runtime_ok p r \<Longrightarrow> sr_retired r = None \<Longrightarrow> runtime_ok p (f r)"
  shows "in_step {} (command_service cf wk f kind detail i sc)"
  unfolding command_service_def
  by (intro in_step_log_event in_step_modify_sync [OF assms(1)]) (auto intro: assms(2,3))

lemma roster_of_command:
  assumes "\<And>r. lifecycle_same r (f r)"
  shows "roster_of (command_service cf wk f kind detail i sc) = roster_of sc"
  using assms by (simp add: command_service_def roster_of_modify_same)

lemma check_live_Inr: "check_live r = Inr u \<longleftrightarrow> sr_retired r = None"
  by (auto simp: check_live_def split: option.splits)

lemma check_known_Inr: "check_known i sc = Inr r \<longleftrightarrow> im_get (sc_runtimes sc) i = Some r"
  by (simp add: check_known_def ok_or_Inr)

text \<open>A reload retires and revives nothing.\<close>

definition retirement :: "scheduler \<Rightarrow> service_id \<Rightarrow> retired_reason option option" where
  "retirement sc i = map_option sr_retired (im_get (sc_runtimes sc) i)"

lemma retirement_view:
  "roster_ok (sc_services sc) (sc_runtimes sc) \<Longrightarrow> retirement sc i = map_option rv_retired (roster_of sc i)"
  by (simp add: retirement_def roster_ok_view(2))

lemma sync_all_runtimes [simp]: "sc_runtimes (sync_all wk sc) = sc_runtimes sc"
proof -
  have "sc_runtimes (fold (sync wk) ks sc) = sc_runtimes sc" for ks
    by (induction ks arbitrary: sc) auto
  then show ?thesis by (simp add: sync_all_def)
qed

lemma apply_reload_retirement:
  assumes "roster_ok (sc_services sc) (sc_runtimes sc)"
  shows "retirement (apply_reload cf wk merged sc) i = retirement sc i"
proof -
  have wf: "distinct (im_keys (sc_runtimes sc))" using assms by (simp add: roster_ok_def im_wf_def)
  have "sc_runtimes (fold (\<lambda>i. log_event cf wk i kind detail) ks sc) = sc_runtimes sc" for kind detail ks sc
    by (induction ks arbitrary: sc) auto
  then have "im_get (sc_runtimes (apply_reload cf wk merged sc)) i =
      map_option (reconfigured merged i) (im_get (sc_runtimes sc) i)"
    using reconfigure_fold(3) [OF wf, where cf = cf and merged = merged and sc = sc and j = i]
      im_get_None [of "sc_runtimes sc" i]
    by (auto simp: apply_reload_def Let_def)
  then show ?thesis
    using lifecycle_reconfigured [of _ merged i]
    by (cases "im_get (sc_runtimes sc) i") (simp_all add: retirement_def lifecycle_same_def)
qed

lemma reload_retirement:
  assumes "in_step {} sc" and "load_ok ld"
  shows "retirement (snd (reload_services cf wk ld sc)) i = retirement sc i"
proof (cases "cf_reload cf")
  case (Some path)
  obtain result sc1 where a: "await_loaded_services cf path ld sc = (result, sc1)" by fastforce
  have step: "in_step {} sc1" by (rule await_loaded(1) [OF a assms(2,1)])
  have same: "retirement sc1 i = retirement sc i"
    using retirement_view [OF in_step_roster_ok [OF step]]
      retirement_view [OF in_step_roster_ok [OF assms(1)]] roster_of_await [OF a] by simp
  have "retirement (apply_reload cf wk merged sc1) i = retirement sc i" for merged
    using apply_reload_retirement [OF in_step_roster_ok [OF step]] same by simp
  then show ?thesis
    using Some a same by (auto simp: reload_services_def Let_def split: sum.split)
qed (simp add: reload_services_def)

section \<open>Each command keeps the invariant and implements the abstract roster\<close>

definition implements :: "session_config \<Rightarrow> instant \<Rightarrow> scheduler \<Rightarrow> scheduler \<Rightarrow> bool" where
  "implements cf now sc sc' \<longleftrightarrow>
     (in_step {} sc \<and> roster_inv (cf_policy cf) (roster_of sc) \<longrightarrow>
        in_step {} sc' \<and> roster_steps cf now (roster_of sc) (roster_of sc'))"

lemma implementsI:
  assumes "in_step {} sc \<Longrightarrow> roster_inv (cf_policy cf) (roster_of sc) \<Longrightarrow> in_step {} sc'"
    and "in_step {} sc \<Longrightarrow> roster_inv (cf_policy cf) (roster_of sc) \<Longrightarrow>
      roster_steps cf now (roster_of sc) (roster_of sc')"
  shows "implements cf now sc sc'"
  using assms by (simp add: implements_def)

lemma implements_same:
  "(in_step {} sc \<Longrightarrow> in_step {} sc') \<Longrightarrow> (in_step {} sc \<Longrightarrow> roster_of sc' = roster_of sc) \<Longrightarrow>
   implements cf now sc sc'"
  by (simp add: implements_def)

lemma implements_refl: "implements cf now sc sc"
  by (simp add: implements_def)

lemma implements_trans:
  assumes "implements cf now sc1 sc2" and "implements cf now sc2 sc3"
  shows "implements cf now sc1 sc3"
  using assms roster_steps_inv unfolding implements_def by (meson rtranclp_trans)

lemma implements_fold: "(\<And>x sc. implements cf now sc (f x sc)) \<Longrightarrow> implements cf now sc (fold f xs sc)"
  by (induction xs arbitrary: sc) (auto intro: implements_refl implements_trans)

lemma implements_reload:
  assumes "toposort_contract (cf_toposort cf)" and "load_ok ld"
  shows "implements cf now sc (snd (reload_services cf wk ld sc))"
  by (rule implementsI) (use in_step_reload refine_reload assms in blast)+

lemma implements_reconcile:
  assumes "toposort_contract (cf_toposort cf)" and "load_ok ld"
  shows "implements cf now sc (snd (reconcile_config cf wk ld dry_run sc))"
proof (rule implementsI)
  assume step: "in_step {} sc" and inv: "roster_inv (cf_policy cf) (roster_of sc)"
  show "in_step {} (snd (reconcile_config cf wk ld dry_run sc))"
    by (rule in_step_reconcile [OF step assms(2)])
  show "roster_steps cf now (roster_of sc) (roster_of (snd (reconcile_config cf wk ld dry_run sc)))"
  proof (cases "cf_reload cf")
    case (Some path)
    obtain result sc1 where a: "await_loaded_services cf path ld sc = (result, sc1)" by fastforce
    note loaded = await_loaded [OF a assms(2)]
    have same: "roster_of sc1 = roster_of sc" by (rule roster_of_await [OF a])
    show ?thesis
    proof (cases result)
      case (Inr updated)
      let ?actions = "reconcile_actions (sc_services sc1) (sc_runtimes sc1) updated"
      have "roster_steps cf now (roster_of sc) (roster_of (apply_reconcile cf wk updated ?actions sc1))"
        if "validate_reconcile_candidate cf (sc_services sc1) (sc_runtimes sc1) updated ?actions = Inr ()"
        using refine_apply_reconcile [OF loaded(1) [OF step] _ _ assms(1) that] loaded(2) [OF Inr] inv
        unfolding same by (intro one_step) blast
      then show ?thesis
        using Some a Inr same
        by (cases "validate_reconcile_candidate cf (sc_services sc1) (sc_runtimes sc1) updated ?actions")
           (simp_all add: reconcile_config_def Let_def)
    qed (use Some a same in \<open>simp add: reconcile_config_def\<close>)
  qed (simp add: reconcile_config_def)
qed

lemma implements_reload_then:
  assumes "toposort_contract (cf_toposort cf)" and "load_ok ld"
    and "\<And>sc1. retirement sc1 = retirement sc \<Longrightarrow> implements cf now sc1 (snd (k sc1))"
  shows "implements cf now sc (snd (reload_then cf wk ld k sc))"
proof (cases "in_step {} sc")
  case True
  obtain result sc1 where r: "reload_services cf wk ld sc = (result, sc1)" by fastforce
  have "retirement sc1 = retirement sc"
    using reload_retirement [OF True assms(2), of cf wk] r by (simp add: fun_eq_iff)
  then have "implements cf now sc1 (snd (k sc1))" by (rule assms(3))
  moreover have "implements cf now sc sc1"
    using implements_reload [OF assms(1,2), of now sc wk] r by simp
  ultimately show ?thesis
    using r implements_trans by (cases result) (auto simp: reload_then_def)
qed (simp add: implements_def)

lemma implements_live_command:
  assumes "\<And>r. im_get (sc_runtimes sc) i = Some r \<Longrightarrow> sr_retired r = None"
    and "\<And>p r. runtime_ok p r \<Longrightarrow> sr_retired r = None \<Longrightarrow> runtime_ok p (f r)"
    and "\<And>r. lifecycle_same r (f r)"
  shows "implements cf now sc (command_service cf wk f kind detail i sc)"
  by (rule implements_same) (auto intro: in_step_live_modify assms(1,2) simp: roster_of_command assms(3))

lemma retired_none:
  "retirement sc i = Some None \<Longrightarrow> im_get (sc_runtimes sc) i = Some r \<Longrightarrow> sr_retired r = None"
  by (simp add: retirement_def)

lemma implements_restart:
  assumes "toposort_contract (cf_toposort cf)" and "load_ok ld"
  shows "implements cf now sc (snd (apply_restart cf wk ld i sc))"
proof (cases "retirement sc i = Some None")
  case True
  have "implements cf now sc1
      (command_service cf wk request_restart ServiceEventKind_RestartRequested ''service restart requested'' i sc1)"
    if "retirement sc1 = retirement sc" for sc1
    by (rule implements_live_command)
       (use that True retired_none [of sc1 i] in \<open>auto intro: runtime_ok_restart lifecycle_same_ops\<close>)
  then show ?thesis
    unfolding apply_restart_def
    by (auto intro!: implements_refl implements_reload_then [OF assms]
        simp: check_known_def ok_or_def split: sum.split option.split)
next
  case False
  then have "\<exists>e. apply_restart cf wk ld i sc = (Inl e, sc)"
    by (auto simp: apply_restart_def check_known_def check_live_def ok_or_def retirement_def
        split: option.splits)
  then show ?thesis by (auto simp: implements_refl)
qed

lemma implements_enable:
  assumes "toposort_contract (cf_toposort cf)" and "load_ok ld"
  shows "implements cf now sc (snd (apply_enable cf wk ld i sc))"
proof (cases "retirement sc i = Some None")
  case True
  have "implements cf now sc1
      (command_service cf wk request_enable ServiceEventKind_EnableRequested ''service enable requested'' i sc1)"
    if "retirement sc1 = retirement sc" for sc1
    by (rule implements_live_command)
       (use that True retired_none [of sc1 i] in \<open>auto intro: runtime_ok_enable lifecycle_same_ops\<close>)
  then show ?thesis
    unfolding apply_enable_def
    by (auto intro!: implements_refl implements_reload_then [OF assms]
        simp: check_known_def ok_or_def split: sum.split option.split)
next
  case False
  then have "\<exists>e. apply_enable cf wk ld i sc = (Inl e, sc)"
    by (auto simp: apply_enable_def check_known_def check_live_def ok_or_def retirement_def
        split: option.splits)
  then show ?thesis by (auto simp: implements_refl)
qed

lemma implements_disable: "implements cf now sc (snd (apply_disable cf wk i sc))"
proof -
  have "implements cf now sc
      (command_service cf wk runtime_disable ServiceEventKind_DisableRequested ''service disable requested'' i sc)"
    unfolding command_service_def
    by (rule implements_same)
       (auto intro!: in_step_log_event in_step_modify_sync runtime_ok_disable
         simp: roster_of_modify_same lifecycle_same_ops)
  then show ?thesis
    by (auto simp: apply_disable_def intro: implements_refl split: sum.split)
qed

lemma implements_restart_one: "implements cf now sc (snd (restart_one cf wk i (acks, sc)))"
proof -
  have "implements cf now sc
      (command_service cf wk request_restart ServiceEventKind_RestartRequested
         ''service restart requested by restart_all'' i sc)"
    if "im_get (sc_runtimes sc) i = Some r" "is_live r" for r
    by (rule implements_live_command)
       (use that in \<open>auto intro: runtime_ok_restart lifecycle_same_ops simp: is_live_def\<close>)
  then show ?thesis
    by (auto simp: restart_one_def intro: implements_refl split: option.split)
qed

lemma implements_restart_each:
  "implements cf now sc (snd (fold (restart_one cf wk) ks (acks, sc)))"
proof (induction ks arbitrary: acks sc)
  case (Cons k ks)
  obtain acks1 sc1 where one: "restart_one cf wk k (acks, sc) = (acks1, sc1)" by fastforce
  then have "implements cf now sc sc1"
    using implements_restart_one [of cf now sc wk k acks] by simp
  moreover have "implements cf now sc1 (snd (fold (restart_one cf wk) ks (acks1, sc1)))" by (rule Cons.IH)
  ultimately show ?case using one by (auto intro: implements_trans)
qed (simp add: implements_refl)

lemma implements_restart_all:
  assumes "toposort_contract (cf_toposort cf)" and "load_ok ld"
  shows "implements cf now sc (snd (apply_restart_all cf wk ld sc))"
  unfolding apply_restart_all_def
  by (rule implements_reload_then [OF assms])
     (auto simp: Let_def split_def intro: implements_restart_each)

section \<open>The start\<close>

lemma active_new [simp]: "active_restart_state now policy (restart_tracker_new policy) = None"
  by (cases policy) (simp_all add: active_restart_state_def restart_tracker_new_def)

lemma initial_projection:
  assumes "svc_origin s = ServiceOrigin_Configured"
  shows "project_snapshot now s (runtime_new s) =
    ((snapshot_initial (svc_id s) (display_name s) (ss_ports (svc_spec s))
           (map_option healthcheck_config_from (ss_healthcheck (svc_spec s)))
           (ss_restart (svc_spec s)) (argv s) (working_dir_display s))
          \<lparr> sn_stop_grace_period := ss_stop_grace_period (svc_spec s),
            sn_desired := (case svc_startup_mode s of
                             StartupMode_Enabled \<Rightarrow> Desired_Enabled
                           | StartupMode_Disabled \<Rightarrow> Desired_Disabled) \<rparr>, None)"
  using assms
  by (auto simp: project_snapshot_def Let_def runtime_new_def snapshot_initial_def run_config_from_def
      run_generation_def current_run_id_def active_new split: startup_mode.split)

lemma initial_entries_published:
  assumes "configured_ok services"
  shows "published (new_with_retention (initial_model_entries services) spool) i =
    map_option (\<lambda>s. project_snapshot now s (runtime_new s)) (im_get services i)"
proof -
  let ?insert = "\<lambda>(snapshot, retention). im_insert (sn_id snapshot) (entry_new snapshot retention spool disk)"
  have "map_option (\<lambda>e. (en_snapshot e, en_started_at e))
      (im_get (fold (\<lambda>(snapshot, retention). im_insert (sn_id snapshot)
         (entry_new snapshot retention spool disk)) (initial_model_entries ps) base) i) =
    (case im_get ps i of
       None \<Rightarrow> map_option (\<lambda>e. (en_snapshot e, en_started_at e)) (im_get base i)
     | Some s \<Rightarrow> Some (project_snapshot now s (runtime_new s)))"
    if "\<forall>(i, s) \<in> set ps. svc_id s = i \<and> svc_origin s = ServiceOrigin_Configured" "distinct (map fst ps)"
    for ps base disk
    using that
  proof (induction ps arbitrary: base)
    case (Cons p ps)
    obtain j s where p: "p = (j, s)" by fastforce
    have s: "svc_id s = j" "svc_origin s = ServiceOrigin_Configured" using Cons.prems(1) p by auto
    have new: "im_get ps j = None" using Cons.prems(2) p by (simp add: im_get_None im_keys_def)
    show ?case
      using Cons s new initial_projection [OF s(2), of now]
      by (auto simp: p initial_model_entries_def im_get_insert entry_new_def snapshot_initial_def
          split: option.split)
  qed (simp add: initial_model_entries_def)
  from this [of services "spool \<noteq> None" "[]"] show ?thesis
    using assms
    by (auto simp: published_def new_with_retention_def Let_def configured_ok_def im_wf_def im_keys_def
        list_all_iff split: option.split)
qed

lemma scheduler_new_sel [simp]:
  "sc_services (scheduler_new services m) = services"
  "im_get (sc_runtimes (scheduler_new services m)) i = map_option runtime_new (im_get services i)"
  "im_keys (sc_runtimes (scheduler_new services m)) = im_keys services"
  "sc_model (scheduler_new services m) = m"
proof -
  show "im_get (sc_runtimes (scheduler_new services m)) i = map_option runtime_new (im_get services i)"
    by (simp add: scheduler_new_def map_of_map)
qed (simp_all add: scheduler_new_def im_keys_def comp_def split_def)

lemma in_step_initial:
  assumes "configured_ok services"
  shows "in_step {} (scheduler_new services (new_with_retention (initial_model_entries services) spool))"
proof -
  let ?m = "new_with_retention (initial_model_entries services) spool"
  let ?rts = "sc_runtimes (scheduler_new services ?m)"
  have "im_wf services" using assms by (simp add: configured_ok_def)
  then have wf: "im_wf ?rts" by (simp add: im_wf_def)
  have "svc_id s = i \<and> runtime_ok (ss_restart (svc_spec s)) r"
    if "im_get services i = Some s" "im_get ?rts i = Some r" for i s r
    using that configured_okD [OF assms that(1)] runtime_ok_new by auto
  moreover have "dom (im_get ?rts) = dom (im_get services)" by (auto simp: dom_def)
  ultimately have "roster_ok services ?rts"
    using \<open>im_wf services\<close> wf unfolding roster_ok_def by blast
  moreover have "shown {} services ?rts ?m"
  proof -
    have p: "published ?m i = map_option (\<lambda>s. project_snapshot 0 s (runtime_new s)) (im_get services i)" for i
      by (rule initial_entries_published [OF assms])
    then show ?thesis
      unfolding shown_def using model_ok_new by (auto simp: dom_def)
  qed
  ultimately show ?thesis by (simp add: in_step_def)
qed

lemma roster_inv_initial:
  assumes ok: "configured_ok services" and graph: "graph_ok services"
  shows "roster_inv p (roster_of (scheduler_new services m))"
proof -
  let ?sc = "scheduler_new services m"
  have get: "roster_of ?sc i = map_option (\<lambda>s. view_of s (runtime_new s)) (im_get services i)" for i
    by (simp add: roster_of_def split: option.split)
  have "\<not> rv_dynamic e \<and> rv_retired e = None \<and> rv_expires e = None" if "roster_of ?sc i = Some e" for i e
    using that configured_okD [OF ok] by (auto simp: get rv_dynamic_def new_lifecycle)
  moreover from this have "live_dynamic (roster_of ?sc) = {}" by (auto simp: live_dynamic_def)
  moreover have "roster_graph_ok (roster_of ?sc)"
    using graph_ok_view [of services "roster_of ?sc"] ok graph by (simp add: get option.map_comp comp_def configured_ok_def)
  moreover have "finite (dom (roster_of ?sc))"
  proof -
    have "dom (roster_of ?sc) = set (im_keys services)" by (auto simp: get set_im_keys dom_def)
    then show ?thesis by simp
  qed
  ultimately show ?thesis
    by (auto simp: roster_inv_def lease_ok_def no_removed_dependency_def)
qed

section \<open>The rounds of the task\<close>

lemma implements_dynamic:
  assumes "toposort_contract (cf_toposort cf)"
  shows "start_dynamic cf wk params sc = Inr (ack, sc') \<Longrightarrow> implements cf (wk_now wk) sc sc'"
    and "replace_dynamic cf wk i expected params sc = Inr (ack, sc') \<Longrightarrow> implements cf (wk_now wk) sc sc'"
    and "stop_dynamic cf wk i sc = Inr (ack, sc') \<Longrightarrow> implements cf (wk_now wk) sc sc'"
    and "renew_dynamic cf wk i expected expires_after sc = Inr (ack, sc') \<Longrightarrow> implements cf (wk_now wk) sc sc'"
proof -
  show "implements cf (wk_now wk) sc sc'" if r: "start_dynamic cf wk params sc = Inr (ack, sc')"
    by (rule implementsI) (rule in_step_start_dynamic [OF _ r], assumption, rule refine_start [OF _ assms r])
  show "implements cf (wk_now wk) sc sc'" if r: "replace_dynamic cf wk i expected params sc = Inr (ack, sc')"
    by (rule implementsI) (rule in_step_replace_dynamic [OF _ r], assumption, rule refine_replace [OF _ assms r])
  show "implements cf (wk_now wk) sc sc'" if r: "stop_dynamic cf wk i sc = Inr (ack, sc')"
    by (rule implementsI) (rule in_step_stop_dynamic [OF _ r], assumption, rule refine_stop [OF _ r])
  show "implements cf (wk_now wk) sc sc'" if r: "renew_dynamic cf wk i expected expires_after sc = Inr (ack, sc')"
    by (rule implementsI) (rule in_step_renew_dynamic [OF _ r], assumption, rule refine_renew [OF _ r])
qed

lemma in_step_resize: "in_step X sc \<Longrightarrow> in_step X (resize_all cols rows sc)"
proof -
  assume step: "in_step X sc"
  have "in_step X (sc\<lparr> sc_runtimes := sc_runtimes (resize_all cols rows sc) \<rparr>)"
    unfolding resize_all_def Let_def
    by (simp, rule in_step_map [OF step]) (auto intro: runtime_ok_pty)
  then show ?thesis
    by (rule in_step_same) (simp_all add: resize_all_def Let_def)
qed

lemma implements_command:
  assumes "toposort_contract (cf_toposort cf)" and "load_ok ld"
  shows "implements cf (wk_now wk) sc (snd (snd (handle_command cf wk ld cmd sc)))"
proof -
  note split = implements_restart [OF assms, of "wk_now wk" sc wk]
    implements_enable [OF assms, of "wk_now wk" sc wk]
    implements_restart_all [OF assms, of "wk_now wk" sc wk]
    implements_reconcile [OF assms, of "wk_now wk" sc wk]
    implements_disable [of cf "wk_now wk" sc wk]
  have "implements cf now sc (snd (snd (reply_dynamic result sc)))"
    if "\<And>ack sc'. result = Inr (ack, sc') \<Longrightarrow> implements cf now sc sc'" for result now
    using that by (auto simp: reply_dynamic_def implements_refl split: sum.split)
  moreover have "implements cf (wk_now wk) sc (resize_all cols rows sc)" for cols rows
    by (rule implements_same) (simp_all add: in_step_resize)
  ultimately show ?thesis
    using split implements_dynamic [OF assms(1)]
    by (cases cmd) (simp_all add: handle_command_def Let_def split_def)
qed

lemma implements_ready:
  "implements cf now sc (with_context sc (schedule_ready env (context_of sc)))"
  by (rule implements_same) (simp_all add: in_step_ready roster_of_ready)

lemma implements_pass:
  assumes "toposort_contract (cf_toposort cf)" and "load_ok ld"
  shows "implements cf now sc (schedule_pass cf wk ld sc)"
proof -
  let ?sc = "reload_before_auto_restart cf wk ld sc"
  have "implements cf now sc ?sc"
    using implements_reload [OF assms] by (simp add: reload_before_auto_restart_def implements_refl)
  moreover have "implements cf now ?sc (schedule_pass cf wk ld sc)"
    by (simp add: schedule_pass_def Let_def implements_refl implements_ready)
  ultimately show ?thesis by (rule implements_trans)
qed

definition arm_ok :: "arm \<Rightarrow> bool" where
  "arm_ok a \<longleftrightarrow> (case a of Arm_Command cmd ld \<Rightarrow> load_ok ld | _ \<Rightarrow> True)"

lemma implements_arm:
  assumes "toposort_contract (cf_toposort cf)" and "arm_ok a"
  shows "implements cf (wk_now wk) sc (snd (run_arm cf wk a sc))"
proof (cases a)
  case (Arm_Command cmd ld)
  then show ?thesis
    using implements_command [OF assms(1), of ld wk sc cmd] assms(2)
    by (simp add: run_arm_def arm_ok_def split_def Let_def)
next
  case Arm_Expiry
  have "implements cf (wk_now wk) sc (snd (expire_due cf wk sc))"
    by (rule implementsI) (simp_all add: in_step_expire_due refine_expire_due)
  then show ?thesis using Arm_Expiry by (simp add: run_arm_def)
qed (auto simp: run_arm_def implements_refl intro!: implements_same
       intro: in_step_intros in_step_event)

lemma implements_evict: "implements cf now sc (evict_retired cf sc)"
  by (rule implementsI) (simp_all add: in_step_evict refine_evict)

lemma implements_round:
  assumes "toposort_contract (cf_toposort cf)" and "arm_ok a" and "load_ok ld"
  shows "implements cf (wk_now wk) sc (run_round cf wk a ld sc)"
proof -
  obtain needs sc1 where arm: "run_arm cf wk a sc = (needs, sc1)" by fastforce
  have "implements cf (wk_now wk) sc sc1"
    using implements_arm [OF assms(1,2), of wk sc] arm by simp
  moreover have "implements cf (wk_now wk) sc1 (run_round cf wk a ld sc)"
    using implements_trans [OF implements_evict implements_pass [OF assms(1,3)]] implements_evict
    by (auto simp: run_round_def arm Let_def implements_refl)
  ultimately show ?thesis by (rule implements_trans)
qed

text \<open>The rounds of a session as a machine, whose labels are what the task observes.\<close>

inductive scheduler_step ::
  "session_config \<Rightarrow> scheduler \<Rightarrow> wake \<times> arm \<times> load \<Rightarrow> scheduler \<Rightarrow> bool" for cf
where
  "arm_ok a \<Longrightarrow> load_ok ld \<Longrightarrow> \<not> sc_shutdown sc \<Longrightarrow>
   scheduler_step cf sc (wk, a, ld) (run_round cf wk a ld sc)"

inductive_cases scheduler_stepE: "scheduler_step cf sc e sc'"

definition scheduler_inv :: "session_config \<Rightarrow> scheduler \<Rightarrow> bool" where
  "scheduler_inv cf sc \<longleftrightarrow> in_step {} sc \<and> roster_inv (cf_policy cf) (roster_of sc)"

lemma implements_inv: "implements cf now sc sc' \<Longrightarrow> scheduler_inv cf sc \<Longrightarrow> scheduler_inv cf sc'"
  using roster_steps_inv unfolding implements_def scheduler_inv_def by blast

lemma scheduler_step_inv:
  assumes "toposort_contract (cf_toposort cf)" and "scheduler_inv cf sc" and "scheduler_step cf sc e sc'"
  shows "scheduler_inv cf sc'"
  using assms(3,2) by (cases rule: scheduler_stepE) (auto intro: implements_inv implements_round [OF assms(1)])

lemma scheduler_start_inv:
  assumes "toposort_contract (cf_toposort cf)" and "configured_ok services" and "load_ok ld"
    and "scheduler_start cf wk ld services spool = Inr sc"
  shows "scheduler_inv cf sc"
proof -
  let ?sc = "scheduler_new services (new_with_retention (initial_model_entries services) spool)"
  have "service_graph_new (cf_toposort cf) services = Inr ()" and sc: "sc = schedule_pass cf wk ld ?sc"
    using assms(4) by (auto simp: scheduler_start_def and_then_Inr)
  then have "graph_ok services" using toposort_contract.accepts_iff [OF assms(1)] by simp
  then have "scheduler_inv cf ?sc"
    using in_step_initial [OF assms(2)] roster_inv_initial [OF assms(2)] by (simp add: scheduler_inv_def)
  then show ?thesis
    unfolding sc by (rule implements_inv [OF implements_pass [OF assms(1,3)]])
qed

interpretation session: invariant_machine "scheduler_step cf"
    "\<lambda>sc. toposort_contract (cf_toposort cf) \<longrightarrow> scheduler_inv cf sc" for cf
  by unfold_locales (blast intro: scheduler_step_inv)

text \<open>Everything that holds in a session that has run for a while.\<close>

lemma session_inv:
  assumes "toposort_contract (cf_toposort cf)" and "configured_ok services" and "load_ok ld"
    and "scheduler_start cf wk ld services spool = Inr sc0" and "run (scheduler_step cf) sc0 rounds sc"
  shows "in_step {} sc" and "roster_ok (sc_services sc) (sc_runtimes sc)"
    and "roster_inv (cf_policy cf) (roster_of sc)"
proof -
  have "scheduler_inv cf sc"
    using session.run_inv [OF assms(5)] scheduler_start_inv [OF assms(1-4)] assms(1) by blast
  then show "in_step {} sc" "roster_inv (cf_policy cf) (roster_of sc)"
    by (simp_all add: scheduler_inv_def)
  then show "roster_ok (sc_services sc) (sc_runtimes sc)" by (simp add: in_step_def)
qed

section \<open>A concrete session\<close>

definition example_config :: session_config where
  "example_config =
     \<lparr> cf_reload = None, cf_config_dir = ''/srv'',
       cf_policy = default_dynamic_services_policy\<lparr> dy_enabled := True \<rparr>,
       cf_log_retention = default_log_retention, cf_enc = example_enc,
       cf_toposort = closure_toposort, cf_digest = (\<lambda>operation expected params. Inr 7) \<rparr>"

definition example_fs :: filesystem where
  "example_fs =
     \<lparr> fs_open = (\<lambda>p. Inr 3), fs_is_dir = (\<lambda>fd. Inr True), fs_fd_path = (\<lambda>fd. ''/srv''),
       fs_canonicalize = (\<lambda>p. Inr ''/srv'') \<rparr>"

definition example_wake :: wake where
  "example_wake =
     \<lparr> wk_now = 10, wk_unix = Some 1000, wk_fs = example_fs,
       wk_spawn = (\<lambda>s rid sz. Inr \<lparr> sp_pid = Some 42, sp_handles = example_pty,
                                     sp_log_reader = \<lparr> lrh_cancelled = False \<rparr> \<rparr>) \<rparr>"

definition example_load :: load where
  "example_load = Load_Interrupted []"

definition example_session :: scheduler where
  "example_session =
     schedule_pass example_config example_wake example_load
       (scheduler_new example_services
          (new_with_retention (initial_model_entries example_services) None))"

definition example_round :: "arm \<Rightarrow> scheduler \<Rightarrow> scheduler" where
  "example_round a = run_round example_config example_wake a example_load"

lemma example_config_sel [simp]:
  "cf_reload example_config = None" "cf_toposort example_config = closure_toposort"
  "cf_policy example_config = default_dynamic_services_policy\<lparr> dy_enabled := True \<rparr>"
  by (simp_all add: example_config_def)

lemma example_toposort: "toposort_contract (cf_toposort example_config)"
  by (simp add: closure.toposort_contract_axioms)

lemma example_load_ok: "load_ok example_load"
  by (simp add: example_load_def load_ok_def)

lemma example_configured: "configured_ok example_services"
  by (simp add: configured_ok_def example_services_def im_wf_def im_keys_def example_service_def)

lemma example_start:
  "scheduler_start example_config example_wake example_load example_services None = Inr example_session"
proof -
  have "service_graph_new closure_toposort example_services = Inr ()"
    using closure.accepts_iff example_graph_ok by simp
  then show ?thesis by (simp add: scheduler_start_def example_session_def)
qed

lemma example_shutdown: "\<not> sc_shutdown example_session"
  by (simp add: example_session_def schedule_pass_def reload_before_auto_restart_def with_context_def
      scheduler_new_def Let_def)

lemma example_run:
  "arm_ok a \<Longrightarrow> run (scheduler_step example_config) example_session [(example_wake, a, example_load)]
     (example_round a example_session)"
  unfolding example_round_def
  by (simp add: run_Cons_iff, rule scheduler_step.intros) (simp_all add: example_load_ok example_shutdown)

end
