(* ===== verification/Idempotency.thy ===== *)
theory Idempotency
  imports Rounds
begin

text \<open>
  The window of remembered replies: a repeated request is answered from the window, and the window
  stays small with one record per key in every session.
\<close>

section \<open>The window\<close>

definition window_ok :: "idempotency_record list \<Rightarrow> bool" where
  "window_ok w \<longleftrightarrow> length w \<le> IDEMPOTENCY_WINDOW \<and> distinct (map id_key w)"

lemma remember_some:
  "remember (Some k) digest ack w =
     pop_front_while (\<lambda>q. IDEMPOTENCY_WINDOW \<le> length q) (filter (\<lambda>rec. id_key rec \<noteq> k) w) @
     [\<lparr> id_key = k, id_digest = digest, id_service = da_service ack, id_revision = da_revision ack,
        id_ack = ack \<rparr>]"
  by (simp add: remember_def)

lemma pop_window_suffix: "\<exists>xs. w = xs @ pop_front_while p w"
  using suffix_pop_front_while [of p w] by (auto simp: suffix_def)

lemma pop_window_length: "length (pop_front_while (\<lambda>q. n \<le> length q) w) < n \<or> n = 0"
  by (induction w) (auto simp: not_le)

lemma window_ok_remember: "window_ok w \<Longrightarrow> window_ok (remember key digest ack w)"
proof (cases key)
  case (Some k)
  assume ok: "window_ok w"
  let ?f = "filter (\<lambda>rec. id_key rec \<noteq> k) w"
  let ?p = "pop_front_while (\<lambda>q. IDEMPOTENCY_WINDOW \<le> length q) ?f"
  obtain xs where xs: "?f = xs @ ?p" using pop_window_suffix by blast
  have "distinct (map id_key ?f)" using ok by (simp add: window_ok_def distinct_map_filter)
  then have "distinct (map id_key xs @ map id_key ?p)" by (metis map_append xs)
  moreover have "set ?p \<subseteq> set ?f" using arg_cong [OF xs, of set] by auto
  then have "k \<notin> id_key ` set ?p" by auto
  moreover have "length ?p < IDEMPOTENCY_WINDOW"
    using pop_window_length [of IDEMPOTENCY_WINDOW ?f] by (simp add: IDEMPOTENCY_WINDOW_def)
  ultimately show ?thesis
    unfolding Some remember_some window_ok_def by auto
qed (simp add: remember_def)

lemma find_remembered:
  "List.find (\<lambda>rec. id_key rec = k) (remember (Some k) digest ack w) =
     Some \<lparr> id_key = k, id_digest = digest, id_service = da_service ack, id_revision = da_revision ack,
            id_ack = ack \<rparr>"
proof -
  let ?f = "filter (\<lambda>rec. id_key rec \<noteq> k) w"
  have "set (pop_front_while (\<lambda>q. IDEMPOTENCY_WINDOW \<le> length q) ?f) \<subseteq> set ?f"
    using pop_window_suffix [of ?f] by (metis set_append sup_ge2)
  then have none: "List.find (\<lambda>rec. id_key rec = k) (pop_front_while (\<lambda>q. IDEMPOTENCY_WINDOW \<le> length q) ?f) = None"
    by (auto simp: find_None_iff)
  have app: "List.find P xs = None \<Longrightarrow> List.find P (xs @ ys) = List.find P ys"
    for P and xs ys :: "idempotency_record list"
    by (induction xs) (auto split: if_splits)
  show ?thesis unfolding remember_some app [OF none] by simp
qed

section \<open>A repeated request\<close>

lemma start_dynamic_Inr:
  "start_dynamic cf wk params sc = Inr (ack, sc') \<longleftrightarrow>
     dy_enabled (cf_policy cf) \<and> service_id_is_valid (dp_service params) \<and>
     (\<exists>digest replay. request_digest cf ''start'' None params = Inr digest \<and>
        replay_idempotent (dp_idempotency_key params) digest sc = Inr replay \<and>
        (case replay of
           Some a \<Rightarrow> a = ack \<and> sc' = sc
         | None \<Rightarrow> start_new cf wk params digest sc = Inr (ack, sc')))"
  unfolding start_dynamic_def result_simps require_dynamic_enabled_def validate_service_id_def
  by (intro iffI; elim exE conjE; intro exI conjI; (assumption | rule refl)?)
     (auto split: option.splits)

text \<open>The reply to a request is remembered with the digest of the request.\<close>

lemma start_remembered:
  assumes "start_dynamic cf wk params sc = Inr (ack, sc')" and "dp_idempotency_key params = Some k"
    and "request_digest cf ''start'' None params = Inr digest"
  shows "replay_idempotent (Some k) digest sc' = Inr (Some (ack\<lparr> da_idempotent_replay := True \<rparr>))"
proof -
  obtain replay where pre: "dy_enabled (cf_policy cf)" "service_id_is_valid (dp_service params)"
    "replay_idempotent (Some k) digest sc = Inr replay"
    "case replay of Some a \<Rightarrow> a = ack \<and> sc' = sc | None \<Rightarrow> start_new cf wk params digest sc = Inr (ack, sc')"
    using assms unfolding start_dynamic_Inr by auto
  show ?thesis
  proof (cases replay)
    case (Some a)
    have "ack\<lparr> da_idempotent_replay := True \<rparr> = ack"
      by (rule replay_someD [OF pre(3) [unfolded Some]]) (use pre(4) Some in auto)
    then show ?thesis using pre(3,4) Some by simp
  next
    case None
    then have "start_new cf wk params digest sc = Inr (ack, sc')" using pre(4) by simp
    then obtain s expires_at expires_unix where s:
      "started_dynamic cf wk params sc s expires_at expires_unix"
      "ack = dynamic_service_ack_new (dp_service params) 1 0 expires_unix (svc_spec s) False False"
      "sc' = remember_idempotent (dp_idempotency_key params) digest ack
             (install_dynamic cf wk s expires_at expires_unix sc)"
      by (rule start_new_Inr [OF _ pre(1,2)])
    let ?rec = "\<lparr> id_key = k, id_digest = digest, id_service = da_service ack,
      id_revision = da_revision ack, id_ack = ack \<rparr>"
    have "List.find (\<lambda>rec. id_key rec = k) (sc_idempotency sc') = Some ?rec"
      by (simp add: s(3) remember_idempotent_def assms(2) find_remembered)
    moreover have "dynamic_revision (sc_services sc') (da_service ack) = Some (da_revision ack)"
      using s(1)
      by (simp add: s(2,3) remember_idempotent_def install_dynamic_def Let_def dynamic_revision_def
          im_get_insert dynamic_service_ack_new_def started_dynamic_def)
    ultimately show ?thesis by (simp add: replay_idempotent_def)
  qed
qed

text \<open>
  C11. Starting twice. If a request to start a dynamic service carries an idempotency key and
  succeeds, the same request sent again, at any time while the reply is remembered last, gets the
  same reply marked as a replay and changes nothing; another request under the same key is denied.
\<close>

theorem start_dynamic_idempotent:
  assumes "start_dynamic cf wk params sc = Inr (ack, sc')" and "dp_idempotency_key params = Some k"
  shows "start_dynamic cf wk' params sc' = Inr (ack\<lparr> da_idempotent_replay := True \<rparr>, sc') \<and>
    (dp_idempotency_key params' = Some k \<and> service_id_is_valid (dp_service params') \<and>
     cf_digest cf ''start'' None params' = Inr other \<and>
     cf_digest cf ''start'' None params \<noteq> Inr other \<longrightarrow>
     start_dynamic cf wk' params' sc' =
       Inl (CommandRejection_PolicyDenied ''idempotency key reused with a different request''))"
proof -
  obtain digest where pre: "dy_enabled (cf_policy cf)" "service_id_is_valid (dp_service params)"
    "request_digest cf ''start'' None params = Inr digest"
    using assms(1) unfolding start_dynamic_Inr by blast
  note again = start_remembered [OF assms pre(3)]
  have "start_dynamic cf wk' params sc' = Inr (ack\<lparr> da_idempotent_replay := True \<rparr>, sc')"
    unfolding start_dynamic_Inr using pre again assms(2) by auto
  moreover have "replay_idempotent (Some k) other sc' =
      Inl (CommandRejection_PolicyDenied ''idempotency key reused with a different request'')"
    if "other \<noteq> digest"
    using again that by (auto simp: replay_idempotent_def split: option.splits if_splits)
  moreover have "cf_digest cf ''start'' None params = Inr digest"
    using pre(3) by (simp add: request_digest_def result_simps)
  moreover have "start_dynamic cf wk' params' sc' = and_then (replay_idempotent (Some k) other sc')
      (\<lambda>replay. case replay of Some ack \<Rightarrow> Inr (ack, sc')
         | None \<Rightarrow> start_new cf wk' params' other sc')"
    if "dp_idempotency_key params' = Some k" "service_id_is_valid (dp_service params')"
      "cf_digest cf ''start'' None params' = Inr other"
    using that pre(1)
    by (simp add: start_dynamic_def require_dynamic_enabled_def validate_service_id_def ensure_def
        request_digest_def map_err_def)
  ultimately show ?thesis by auto
qed

definition example_params :: dynamic_service_params where
  "example_params =
     \<lparr> dp_service = ''api'', dp_spec = unspecified\<lparr> ps_command := Some [''serve''] \<rparr>,
       dp_from_service = None, dp_extra_args = [''--port'', ''8080''], dp_expires_after = None,
       dp_owner = Some ''agent'', dp_idempotency_key = Some ''k1'' \<rparr>"

definition example_empty :: scheduler where
  "example_empty = scheduler_new [] (new_with_retention [] None)"

lemma example_materialized:
  "materialize_spec example_config example_wake [] example_params =
     Inr (service_spec_default\<lparr> ss_command := [''serve'', ''--port'', ''8080''],
            ss_working_dir := Some ''/srv'' \<rparr>,
          Some (12 * 60 * 60 * NANOS_PER_SEC))"
  by (simp add: materialize_spec_def example_params_def unspecified_def apply_to_def normalize_def
      service_spec_default_def machine_defs DEFAULT_STOP_GRACE_PERIOD_def MAX_STOP_GRACE_PERIOD_def
      ok_or_def map_err_def ensure_def is_absolute_def path_join_def within_roots_def
      example_config_def example_wake_def example_fs_def default_dynamic_services_policy_def
      path_starts_with_def effective_lifetime_def Let_def)

lemma example_started:
  "\<exists>ack sc. start_dynamic example_config example_wake example_params example_empty = Inr (ack, sc) \<and>
     da_revision ack = 1 \<and> im_keys (sc_services sc) = [''api'']"
proof -
  have digest: "request_digest example_config ''start'' None example_params = Inr 7"
    by (simp add: request_digest_def map_err_def example_config_def)
  have fresh: "replay_idempotent (Some ''k1'') 7 example_empty = Inr None"
    "already_exists ''api'' example_empty = Inr ()" "require_dynamic_slot example_config example_empty = Inr ()"
    by (simp_all add: example_empty_def scheduler_new_def replay_idempotent_def already_exists_def
        require_dynamic_slot_def live_dynamic_count_def ensure_def default_dynamic_services_policy_def
        example_config_def)
  define spec where "spec = service_spec_default\<lparr> ss_command := [''serve'', ''--port'', ''8080''],
            ss_working_dir := Some ''/srv'' \<rparr>"
  have m: "materialize_spec example_config example_wake (sc_services example_empty) example_params =
      Inr (spec, Some (12 * 60 * 60 * NANOS_PER_SEC))"
    using example_materialized by (simp add: example_empty_def spec_def)
  obtain at unix where lease: "lease_deadlines example_wake (Some (12 * 60 * 60 * NANOS_PER_SEC)) = Inr (at, unix)"
    by (simp add: lease_deadlines_def expiry_deadline_def instant_checked_add_def ok_or_def machine_defs
        INSTANT_MAX_def example_wake_def Let_def)
  have dyn: "\<exists>s. service_dynamic (wk_fs example_wake) ''api'' spec origin retention = Inr s" for origin retention
    by (simp add: service_dynamic_def open_working_directory_def example_wake_def example_fs_def spec_def)
  have valid: "validate_candidate example_config example_wake example_empty s = Inr ()"
    if "svc_spec s = spec" "svc_id s = ''api''" "svc_working_directory s = Some 3" for s
    using that
    by (simp add: validate_candidate_def validate_anchor_def spawn_working_directory_def ok_or_def
        example_wake_def example_fs_def map_err_def ensure_def within_roots_def path_starts_with_def
        example_config_def default_dynamic_services_policy_def spec_def service_spec_default_def
        service_graph_new_def closure_toposort_def depends_on_ids_def example_empty_def im_keys_def)
  have "start_dynamic example_config example_wake example_params example_empty =
      start_new example_config example_wake example_params 7 example_empty"
    using digest fresh(1)
    by (simp add: start_dynamic_def require_dynamic_enabled_def ensure_def validate_service_id_def
        service_id_is_valid_def is_ascii_alphanumeric_def example_params_def)
  also obtain s where s: "service_dynamic (wk_fs example_wake) ''api'' spec
      (ServiceOrigin_Dynamic \<lparr> do_created_at_unix_ms = unix_or_default example_wake,
         do_expires_at_unix_ms = unix, do_owner = Some ''agent'', do_revision = 1 \<rparr>)
      (cf_log_retention example_config) = Inr s"
    using dyn by blast
  have "svc_working_directory s = Some 3"
    using s by (auto simp: service_dynamic_def open_working_directory_def example_wake_def example_fs_def spec_def)
  then have "validate_candidate example_config example_wake example_empty s = Inr ()"
    using valid service_dynamic_Inr [OF s] by blast
  then have "start_new example_config example_wake example_params 7 example_empty =
      (let ack = dynamic_service_ack_new ''api'' 1 0 unix spec False False
       in Inr (ack, remember_idempotent (Some ''k1'') 7 ack
            (install_dynamic example_config example_wake s at unix example_empty)))"
    using m lease s fresh(2,3) by (simp add: start_new_def map_err_def Let_def) (simp add: example_params_def)
  finally show ?thesis
    using service_dynamic_Inr [OF s]
    by (auto simp: Let_def dynamic_service_ack_new_def remember_idempotent_def install_dynamic_def
        log_event_def write_event_def example_empty_def scheduler_new_def)
qed

theorem start_dynamic_idempotent_witness:
  "\<exists>ack sc. start_dynamic example_config example_wake example_params example_empty = Inr (ack, sc) \<and>
     start_dynamic example_config example_wake example_params sc =
       Inr (ack\<lparr> da_idempotent_replay := True \<rparr>, sc) \<and> im_keys (sc_services sc) = [''api'']"
proof -
  obtain ack sc where s: "start_dynamic example_config example_wake example_params example_empty = Inr (ack, sc)"
    "im_keys (sc_services sc) = [''api'']"
    using example_started by blast
  have "dp_idempotency_key example_params = Some ''k1''" by (simp add: example_params_def)
  from start_dynamic_idempotent [OF s(1) this, of example_wake] show ?thesis using s by blast
qed

section \<open>Only starts and replacements write to the window\<close>

named_theorems window_simps

lemma window_steps [window_simps]:
  "sc_idempotency (modify_runtime i f sc) = sc_idempotency sc"
  "sc_idempotency (sync wk i sc) = sc_idempotency sc"
  "sc_idempotency (log_event cf wk i kind detail sc) = sc_idempotency sc"
  "sc_idempotency (write_event cf wk i ev sc) = sc_idempotency sc"
  "sc_idempotency (insert_definition i s sc) = sc_idempotency sc"
  "sc_idempotency (set_retention cf i s sc) = sc_idempotency sc"
  "sc_idempotency (remove_entry cf i sc) = sc_idempotency sc"
  "sc_idempotency (with_context sc ctx) = sc_idempotency sc"
  by (auto simp: modify_runtime_def sync_def log_event_def write_event_def insert_definition_def
      set_retention_def remove_entry_def with_context_def split: option.split)

lemma window_fold:
  "(\<And>x sc. sc_idempotency (f x sc) = sc_idempotency sc) \<Longrightarrow> sc_idempotency (fold f xs sc) = sc_idempotency sc"
  by (induction xs arbitrary: sc) auto

lemma window_sync_all [window_simps]: "sc_idempotency (sync_all wk sc) = sc_idempotency sc"
  unfolding sync_all_def by (rule window_fold) (rule window_simps)

lemma window_input_drop [window_simps]:
  "sc_idempotency (record_input_drop cf wk i kind reason sc) = sc_idempotency sc"
  by (auto simp: record_input_drop_def Let_def window_simps split: option.split prod.split)

lemma window_input [window_simps]: "sc_idempotency (handle_input cf wk input sc) = sc_idempotency sc"
  by (auto simp: handle_input_def Let_def window_simps split: sum.split)

lemma window_event [window_simps]: "sc_idempotency (snd (handle_event cf wk ev sc)) = sc_idempotency sc"
  by (cases ev) (auto simp: handle_event_def handle_health_event_def handle_exit_event_def Let_def
      window_simps split: option.split)

lemma window_timers [window_simps]:
  "sc_idempotency (report_due_input_drops cf wk sc) = sc_idempotency sc"
  "sc_idempotency (cancel_due_drains wk sc) = sc_idempotency sc"
  "sc_idempotency (snd (expire_due cf wk sc)) = sc_idempotency sc"
  "sc_idempotency (resize_all cols rows sc) = sc_idempotency sc"
  unfolding report_due_input_drops_def cancel_due_drains_def expire_due_def resize_all_def Let_def
  by (subst window_fold | auto simp: window_simps expire_service_def split_def)+

lemma window_evict [window_simps]: "sc_idempotency (evict_retired cf sc) = sc_idempotency sc"
proof (induction cf sc rule: evict_retired.induct)
  case (1 cf sc)
  then show ?case
    by (subst evict_retired.simps) (auto simp: window_simps split: option.split)
qed

lemma window_await:
  "await_loaded_services cf path ld sc = (result, sc') \<Longrightarrow> sc_idempotency sc' = sc_idempotency sc"
proof -
  have "sc_idempotency (handle_events cf evs sc) = sc_idempotency sc" for evs sc
    unfolding handle_events_def by (rule window_fold) (auto simp: window_simps)
  then show "await_loaded_services cf path ld sc = (result, sc') \<Longrightarrow> sc_idempotency sc' = sc_idempotency sc"
    by (auto simp: await_loaded_services_def split: if_splits load.splits)
qed

lemma window_apply_reload: "sc_idempotency (apply_reload cf wk merged sc) = sc_idempotency sc"
proof -
  have "sc_idempotency (reconfigure_service cf merged i sc) = sc_idempotency sc" for i sc
    by (auto simp: reconfigure_service_def Let_def window_simps split: option.split)
  then show ?thesis
    unfolding apply_reload_def Let_def
    by (subst window_fold) (auto simp: window_simps window_fold)
qed

lemma window_reload [window_simps]: "sc_idempotency (snd (reload_services cf wk ld sc)) = sc_idempotency sc"
  by (auto simp: reload_services_def Let_def window_apply_reload window_await
      split: option.split sum.split prod.split)

lemma window_apply_reconcile: "sc_idempotency (apply_reconcile cf wk updated actions sc) = sc_idempotency sc"
proof -
  have "sc_idempotency (apply_updated cf wk actions p sc) = sc_idempotency sc" for p sc
    by (auto simp: apply_updated_def apply_added_def apply_changed_def Let_def window_simps
        split: prod.split option.split reconcile_action_kind.split)
  moreover have "sc_idempotency (apply_removed cf wk i sc) = sc_idempotency sc" for i sc
    by (simp add: apply_removed_def window_simps)
  ultimately show ?thesis
    by (simp add: apply_reconcile_def window_fold)
qed

lemma window_reconcile [window_simps]:
  "sc_idempotency (snd (reconcile_config cf wk ld dry_run sc)) = sc_idempotency sc"
  by (auto simp: reconcile_config_def Let_def window_apply_reconcile
      dest: window_await split: option.split sum.split prod.split)

lemma window_command_service [window_simps]:
  "sc_idempotency (command_service cf wk f kind detail i sc) = sc_idempotency sc"
  by (simp add: command_service_def window_simps)

lemma window_reload_then:
  assumes "\<And>sc. sc_idempotency (snd (k sc)) = sc_idempotency sc"
  shows "sc_idempotency (snd (reload_then cf wk ld k sc)) = sc_idempotency sc"
proof -
  obtain result sc1 where r: "reload_services cf wk ld sc = (result, sc1)" by fastforce
  then have "sc_idempotency sc1 = sc_idempotency sc" using window_reload [of cf wk ld sc] by simp
  then show ?thesis using r assms by (cases result) (simp_all add: reload_then_def)
qed

lemma window_restart_each:
  "sc_idempotency (snd (fold (restart_one cf wk) ks (acks, sc))) = sc_idempotency sc"
proof (induction ks arbitrary: acks sc)
  case (Cons k ks)
  obtain acks1 sc1 where one: "restart_one cf wk k (acks, sc) = (acks1, sc1)" by fastforce
  have "sc_idempotency sc1 = sc_idempotency sc"
    using one by (auto simp: restart_one_def window_simps split: option.splits if_splits)
  then show ?case using Cons one by simp
qed simp

lemma window_lifecycle [window_simps]:
  "sc_idempotency (snd (apply_restart cf wk ld i sc)) = sc_idempotency sc"
  "sc_idempotency (snd (apply_enable cf wk ld i sc)) = sc_idempotency sc"
  "sc_idempotency (snd (apply_disable cf wk i sc)) = sc_idempotency sc"
  "sc_idempotency (snd (apply_restart_all cf wk ld sc)) = sc_idempotency sc"
  by (auto simp: apply_restart_def apply_enable_def apply_disable_def apply_restart_all_def Let_def
      split_def window_simps window_restart_each intro!: window_reload_then split: sum.split)

lemma window_ok_dynamic:
  assumes "window_ok (sc_idempotency sc)"
  shows "start_dynamic cf wk params sc = Inr (ack, sc') \<Longrightarrow> window_ok (sc_idempotency sc')"
    and "replace_dynamic cf wk i expected params sc = Inr (ack, sc') \<Longrightarrow> window_ok (sc_idempotency sc')"
    and "stop_dynamic cf wk i sc = Inr (ack, sc') \<Longrightarrow> window_ok (sc_idempotency sc')"
    and "renew_dynamic cf wk i expected expires_after sc = Inr (ack, sc') \<Longrightarrow> window_ok (sc_idempotency sc')"
proof -
  have remembered: "window_ok (sc_idempotency (remember_idempotent key digest ack sc1))"
    if "sc_idempotency sc1 = sc_idempotency sc" for key digest ack sc1
    using window_ok_remember [OF assms] that by (simp add: remember_idempotent_def)
  show "window_ok (sc_idempotency sc')" if "start_dynamic cf wk params sc = Inr (ack, sc')"
    using that
  proof (cases rule: start_dynamic_cases)
    case (started s expires_at expires_unix digest)
    then show ?thesis
      using remembered by (simp add: install_dynamic_def Let_def window_simps)
  qed (use assms in simp)
  show "window_ok (sc_idempotency sc')" if "replace_dynamic cf wk i expected params sc = Inr (ack, sc')"
    using that
  proof (cases rule: replace_dynamic_cases)
    case (replaced current origin r c expires_at expires_unix digest detail)
    then show ?thesis using remembered by (simp add: window_simps)
  qed (use assms in simp)
  show "window_ok (sc_idempotency sc')" if "stop_dynamic cf wk i sc = Inr (ack, sc')"
    using that assms by (auto simp: stop_dynamic_def result_simps window_simps)
  show "window_ok (sc_idempotency sc')" if "renew_dynamic cf wk i expected expires_after sc = Inr (ack, sc')"
    by (rule renew_dynamic_Inr [OF that]) (use assms in \<open>simp add: window_simps\<close>)
qed

lemma window_ok_command:
  assumes "window_ok (sc_idempotency sc)"
  shows "window_ok (sc_idempotency (snd (snd (handle_command cf wk ld cmd sc))))"
proof -
  have reply: "window_ok (sc_idempotency (snd (snd (reply_dynamic result sc))))"
    if "\<And>ack sc'. result = Inr (ack, sc') \<Longrightarrow> window_ok (sc_idempotency sc')" for result
    using that assms by (auto simp: reply_dynamic_def split: sum.split)
  show ?thesis
  proof (cases cmd)
    case (Command_ReconcileConfig dry_run)
    then show ?thesis
      using assms window_reconcile [of cf wk ld dry_run sc]
      by (simp add: handle_command_def Let_def split_def)
  qed (use assms in \<open>auto simp: handle_command_def Let_def split_def window_simps intro!: reply
      intro: window_ok_dynamic [OF assms]\<close>)
qed

lemma window_pass: "sc_idempotency (schedule_pass cf wk ld sc) = sc_idempotency sc"
  by (simp add: schedule_pass_def reload_before_auto_restart_def Let_def window_simps)

lemma window_ok_round:
  assumes "window_ok (sc_idempotency sc)"
  shows "window_ok (sc_idempotency (run_round cf wk a ld sc))"
proof -
  obtain needs sc1 where arm: "run_arm cf wk a sc = (needs, sc1)" by fastforce
  have "window_ok (sc_idempotency (snd (run_arm cf wk a sc)))"
    using assms window_ok_command [OF assms]
    by (cases a) (simp_all add: run_arm_def window_simps Let_def split_def)
  then have "window_ok (sc_idempotency sc1)" using arm by simp
  then show ?thesis
    by (simp add: run_round_def arm Let_def window_pass window_simps)
qed

interpretation window: invariant_machine "scheduler_step cf" "\<lambda>sc. window_ok (sc_idempotency sc)" for cf
  by unfold_locales (auto elim!: scheduler_stepE intro: window_ok_round)

text \<open>
  The window of remembered replies. In a session of any length the window holds at most 64
  replies and at most one per key, whatever is requested.
\<close>

theorem idempotency_window_bounded:
  assumes "scheduler_start cf wk ld services spool = Inr sc0" and "run (scheduler_step cf) sc0 rounds sc"
  shows "length (sc_idempotency sc) \<le> 64 \<and> distinct (map id_key (sc_idempotency sc))"
proof -
  have "sc_idempotency sc0 = []"
    using assms(1) by (auto simp: scheduler_start_def and_then_Inr window_pass scheduler_new_def)
  then have "window_ok (sc_idempotency sc0)" by (simp add: window_ok_def)
  then show ?thesis
    using window.run_inv [OF assms(2)] by (simp add: window_ok_def IDEMPOTENCY_WINDOW_def)
qed

theorem idempotency_window_bounded_witness:
  "length (sc_idempotency (example_round (Arm_Command (Command_StartDynamic example_params) example_load)
     example_session)) \<le> 64"
proof -
  have "arm_ok (Arm_Command (Command_StartDynamic example_params) example_load)"
    by (simp add: arm_ok_def example_load_ok)
  from idempotency_window_bounded [OF example_start example_run [OF this]] show ?thesis by blast
qed

end
