(* ===== verification/Eviction.thy ===== *)
theory Eviction
  imports Rounds
begin

text \<open>
  The bounded roster of retired services: \<^verbatim>\<open>evict_retired\<close> returns when at most eight are left or
  none can go, removes only what is retired, idle and not depended on, and takes the oldest first.
\<close>

section \<open>Candidates\<close>

definition retired_key :: "service_id \<Rightarrow> service_runtime \<Rightarrow> u64 \<times> service_id" where
  "retired_key i r = (case sr_retired_at_unix_ms r of None \<Rightarrow> 0 | Some t \<Rightarrow> t, i)"

definition not_younger :: "u64 \<times> service_id \<Rightarrow> u64 \<times> service_id \<Rightarrow> bool" where
  "not_younger x y \<longleftrightarrow> fst x < fst y \<or> (fst x = fst y \<and> snd x \<le> snd y)"

lemma not_younger_refl: "not_younger x x"
  by (simp add: not_younger_def)

lemma not_younger_trans: "not_younger x y \<Longrightarrow> not_younger y z \<Longrightarrow> not_younger x z"
  by (auto simp: not_younger_def)

lemma older_not_younger: "not_younger (older x y) x" "not_younger (older x y) y"
  by (auto simp: older_def not_younger_def not_le not_less dest: less_imp_le)

lemma fold_older_least: "x \<in> set (c # cs) \<Longrightarrow> not_younger (fold older cs c) x"
proof (induction cs arbitrary: c x)
  case (Cons d cs)
  have least: "not_younger (fold older cs (older d c)) (older d c)" by (rule Cons.IH) simp
  show ?case
  proof (cases "x \<in> set cs")
    case True
    then show ?thesis using Cons.IH [of x "older d c"] by simp
  next
    case False
    then have "x = c \<or> x = d" using Cons.prems by auto
    then have "not_younger (older d c) x" using older_not_younger [of d c] by blast
    then show ?thesis using not_younger_trans [OF least] by simp
  qed
qed (simp add: not_younger_refl)

lemma in_map_filter: "y \<in> set (List.map_filter f xs) \<longleftrightarrow> (\<exists>x \<in> set xs. f x = Some y)"
  by (induction xs) (auto split: option.splits)

lemma eviction_candidates_set:
  "set (eviction_candidates services rts) =
     {retired_key i r | i r s. (i, s) \<in> set services \<and> im_get rts i = Some r \<and> evictable services i r}"
proof (rule set_eqI)
  fix x
  have "(case im_get rts i of None \<Rightarrow> None
      | Some r \<Rightarrow> if evictable services i r
          then Some (case sr_retired_at_unix_ms r of None \<Rightarrow> 0 | Some t \<Rightarrow> t, i) else None) = Some x \<longleftrightarrow>
      (\<exists>r. im_get rts i = Some r \<and> evictable services i r \<and> x = retired_key i r)" for i
    by (cases "im_get rts i") (auto simp: retired_key_def)
  then show "x \<in> set (eviction_candidates services rts) \<longleftrightarrow>
      x \<in> {retired_key i r | i r s. (i, s) \<in> set services \<and> im_get rts i = Some r \<and> evictable services i r}"
    unfolding eviction_candidates_def in_map_filter split_def by (simp add: Bex_def) blast
qed

lemma eviction_candidate_least:
  assumes "eviction_candidate services rts = Some i" and "im_get rts i = Some r"
    and "(j, s) \<in> set services" and "im_get rts j = Some q" and "evictable services j q"
  shows "not_younger (retired_key i r) (retired_key j q)"
proof -
  obtain c cs where c: "eviction_candidates services rts = c # cs" "i = snd (fold older cs c)"
    using assms(1) by (auto simp: eviction_candidate_def split: list.splits)
  have "fold older cs c \<in> set (eviction_candidates services rts)"
    using fold_older_in [of cs c] c(1) by simp
  then have "fold older cs c = retired_key i r"
    using c(2) assms(2) by (auto simp: eviction_candidates_set retired_key_def)
  moreover have "retired_key j q \<in> set (c # cs)"
    using assms(3-5) by (auto simp: c(1) [symmetric] eviction_candidates_set)
  ultimately show ?thesis using fold_older_least by metis
qed

lemma eviction_candidate_none:
  "eviction_candidate services rts = None \<longleftrightarrow>
     (\<forall>(i, s) \<in> set services. \<forall>r. im_get rts i = Some r \<longrightarrow> \<not> evictable services i r)"
proof -
  have "eviction_candidate services rts = None \<longleftrightarrow> set (eviction_candidates services rts) = {}"
    by (auto simp: eviction_candidate_def split: list.split)
  also have "\<dots> \<longleftrightarrow> (\<forall>(i, s) \<in> set services. \<forall>r. im_get rts i = Some r \<longrightarrow> \<not> evictable services i r)"
    unfolding eviction_candidates_set by blast
  finally show ?thesis .
qed

section \<open>One eviction\<close>

lemma remove_entry_sel [simp]:
  "sc_services (remove_entry cf i sc) = im_remove i (sc_services sc)"
  "sc_runtimes (remove_entry cf i sc) = im_remove i (sc_runtimes sc)"
  by (simp_all add: remove_entry_def)

lemma set_im_remove: "(j, s) \<in> set (im_remove i m) \<longleftrightarrow> (j, s) \<in> set m \<and> j \<noteq> i"
  by (induction m) (auto simp: AList.delete_eq)

text \<open>Removing an entry never makes another one stay.\<close>

lemma evictable_mono:
  "evictable services j r \<Longrightarrow> evictable (im_remove i services) j r"
  by (force simp: evictable_def depended_on_def set_im_remove)

section \<open>What eviction guarantees\<close>

text \<open>Whether an entry of the roster was removed.\<close>

definition evicted :: "scheduler \<Rightarrow> scheduler \<Rightarrow> service_id \<Rightarrow> bool" where
  "evicted sc sc' i \<longleftrightarrow> im_get (sc_runtimes sc) i \<noteq> None \<and> im_get (sc_runtimes sc') i = None"

definition eviction_ok :: "scheduler \<Rightarrow> scheduler \<Rightarrow> bool" where
  "eviction_ok sc sc' \<longleftrightarrow>
     (\<forall>i. \<not> evicted sc sc' i \<longrightarrow>
        im_get (sc_runtimes sc') i = im_get (sc_runtimes sc) i \<and>
        im_get (sc_services sc') i = im_get (sc_services sc) i) \<and>
     (\<forall>i r. evicted sc sc' i \<longrightarrow> im_get (sc_runtimes sc) i = Some r \<longrightarrow>
        is_retired r \<and> sr_running r = None \<and> sr_draining_log_readers r = []) \<and>
     (\<forall>i j r q s. evicted sc sc' i \<longrightarrow> \<not> evicted sc sc' j \<longrightarrow> im_get (sc_runtimes sc) i = Some r \<longrightarrow>
        im_get (sc_runtimes sc) j = Some q \<longrightarrow> (j, s) \<in> set (sc_services sc) \<longrightarrow>
        evictable (sc_services sc) j q \<longrightarrow> not_younger (retired_key i r) (retired_key j q)) \<and>
     set (sc_services sc') = {(i, s) \<in> set (sc_services sc). \<not> evicted sc sc' i}"

lemma eviction_ok_refl: "eviction_ok sc sc"
  by (auto simp: eviction_ok_def evicted_def)

lemma eviction_ok_step:
  assumes c: "eviction_candidate (sc_services sc) (sc_runtimes sc) = Some i"
    and rest: "eviction_ok (remove_entry cf i sc) sc'"
  shows "eviction_ok sc sc'"
proof -
  let ?sc = "remove_entry cf i sc"
  obtain r where r: "im_get (sc_runtimes sc) i = Some r" "evictable (sc_services sc) i r"
    using eviction_candidateD [OF c] by blast
  have "im_get (sc_runtimes sc') i = None"
    using rest by (auto simp: eviction_ok_def evicted_def im_get_remove)
  then have ev: "evicted sc sc' j \<longleftrightarrow> j = i \<or> evicted ?sc sc' j" for j
    using r(1) by (auto simp: evicted_def im_get_remove)
  have keep: "im_get (sc_runtimes ?sc) j = im_get (sc_runtimes sc) j"
    "im_get (sc_services ?sc) j = im_get (sc_services sc) j" if "j \<noteq> i" for j
    using that by (simp_all add: im_get_remove)
  show ?thesis
    unfolding eviction_ok_def
  proof (intro conjI allI impI)
    fix j assume "\<not> evicted sc sc' j"
    then have "j \<noteq> i" "\<not> evicted ?sc sc' j" using ev by auto
    then show "im_get (sc_runtimes sc') j = im_get (sc_runtimes sc) j"
      "im_get (sc_services sc') j = im_get (sc_services sc) j"
      using rest keep unfolding eviction_ok_def by auto
  next
    fix j q assume j: "evicted sc sc' j" "im_get (sc_runtimes sc) j = Some q"
    have "is_retired q \<and> sr_running q = None \<and> sr_draining_log_readers q = []"
    proof (cases "j = i")
      case True
      then show ?thesis using r j(2) by (simp add: evictable_def)
    next
      case False
      then show ?thesis using j ev rest keep(1) [OF False] unfolding eviction_ok_def by auto
    qed
    then show "is_retired q" "sr_running q = None" "sr_draining_log_readers q = []" by simp_all
  next
    fix k j q t s
    assume k: "evicted sc sc' k" "im_get (sc_runtimes sc) k = Some q"
      and j: "\<not> evicted sc sc' j" "im_get (sc_runtimes sc) j = Some t" "(j, s) \<in> set (sc_services sc)"
        "evictable (sc_services sc) j t"
    have ji: "j \<noteq> i" "\<not> evicted ?sc sc' j" using j(1) ev by auto
    show "not_younger (retired_key k q) (retired_key j t)"
    proof (cases "k = i")
      case True
      then show ?thesis using eviction_candidate_least [OF c _ j(3,2,4)] k(2) by simp
    next
      case False
      have "evicted ?sc sc' k" using k(1) ev False by simp
      moreover have "im_get (sc_runtimes ?sc) k = Some q" "im_get (sc_runtimes ?sc) j = Some t"
        using k(2) j(2) keep(1) False ji by simp_all
      moreover have "(j, s) \<in> set (sc_services ?sc)" using j(3) ji by (simp add: set_im_remove)
      moreover have "evictable (sc_services ?sc) j t" using evictable_mono [OF j(4)] by simp
      ultimately show ?thesis using rest ji(2) unfolding eviction_ok_def by blast
    qed
  next
    have "set (sc_services sc') = {(i, s) \<in> set (sc_services ?sc). \<not> evicted ?sc sc' i}"
      using rest by (simp add: eviction_ok_def)
    also have "\<dots> = {(i, s) \<in> set (sc_services sc). \<not> evicted sc sc' i}"
      using ev by (auto simp: set_im_remove)
    finally show "set (sc_services sc') = {(i, s) \<in> set (sc_services sc). \<not> evicted sc sc' i}" .
  qed
qed

text \<open>The services that eviction may remove.\<close>

definition can_go :: "scheduler \<Rightarrow> service_id set" where
  "can_go sc =
     {i. \<exists>s r. (i, s) \<in> set (sc_services sc) \<and> im_get (sc_runtimes sc) i = Some r \<and>
        evictable (sc_services sc) i r}"

text \<open>
  C12. Eviction. It always returns; when it does, at most eight retired services are left or no
  retired service is idle and free of dependents. It removes only retired services without a process
  or a reader of old output, leaves every other entry as it is, and never removes a service while an
  older one that could go as well stays.
\<close>

theorem evict_retired_bounded:
  "let sc' = evict_retired cf sc in
     (retired_count (sc_runtimes sc') \<le> 8 \<or> can_go sc' = {}) \<and> eviction_ok sc sc'"
  unfolding Let_def
proof (induction cf sc rule: evict_retired.induct)
  case (1 cf sc)
  consider (few) "retired_count (sc_runtimes sc) \<le> MAX_RETIRED_SERVICES"
    | (none) "eviction_candidate (sc_services sc) (sc_runtimes sc) = None"
    | (some) i where "\<not> retired_count (sc_runtimes sc) \<le> MAX_RETIRED_SERVICES"
      "eviction_candidate (sc_services sc) (sc_runtimes sc) = Some i"
    by fastforce
  then show ?case
  proof cases
    case few
    then have "evict_retired cf sc = sc" by (subst evict_retired.simps) simp
    then show ?thesis using few by (simp add: eviction_ok_refl MAX_RETIRED_SERVICES_def)
  next
    case none
    then have "evict_retired cf sc = sc" by (subst evict_retired.simps) simp
    then show ?thesis
      using none unfolding eviction_candidate_none by (auto simp: eviction_ok_refl can_go_def)
  next
    case some
    have "evict_retired cf sc = evict_retired cf (remove_entry cf i sc)"
      using some by (subst evict_retired.simps) simp
    then show ?thesis
      using 1 [OF some] eviction_ok_step [OF some(2), of cf] by metis
  qed
qed

end
