(* ===== verification/Convergence.thy ===== *)
theory Convergence
  imports Rounds
begin

text \<open>
  A reconciliation reaches the configuration it was given: repeating it finds no action and changes
  nothing.
\<close>

section \<open>The definitions after a reconciliation\<close>

text \<open>Whether the actions define the service anew.\<close>

definition defines_anew :: "reconcile_action list \<Rightarrow> service_id \<Rightarrow> bool" where
  "defines_anew actions i \<longleftrightarrow>
     (case List.find (\<lambda>a. ra_service a = i) (rev actions) of
        None \<Rightarrow> False | Some a \<Rightarrow> ra_action a \<noteq> ReconcileActionKind_Removed)"

lemma services_apply_updated:
  "im_get (sc_services (apply_updated cf wk actions (i, s) sc)) j =
     (if j = i \<and> defines_anew actions i then Some s else im_get (sc_services sc) j)"
  by (auto simp: apply_updated_def apply_added_def apply_changed_def defines_anew_def Let_def im_get_insert
      split: option.split reconcile_action_kind.split)

lemma services_apply_updates:
  "distinct (map fst ps) \<Longrightarrow>
   im_get (sc_services (fold (apply_updated cf wk actions) ps sc)) j =
     (case im_get ps j of
        Some s \<Rightarrow> if defines_anew actions j then Some s else im_get (sc_services sc) j
      | None \<Rightarrow> im_get (sc_services sc) j)"
proof (induction ps arbitrary: sc)
  case (Cons p ps)
  obtain i s where p: "p = (i, s)" by fastforce
  have "im_get ps i = None" using Cons.prems p by (simp add: im_get_None im_keys_def)
  then show ?case
    using Cons by (auto simp: p services_apply_updated split: option.split)
qed simp

lemma services_apply_removals: "sc_services (fold (apply_removed cf wk) ks sc) = sc_services sc"
  by (induction ks arbitrary: sc) (auto simp: apply_removed_def)

lemma services_apply_reconcile:
  assumes "configured_ok updated"
  shows "im_get (sc_services (apply_reconcile cf wk updated actions sc)) j =
     (case im_get updated j of
        Some s \<Rightarrow> if defines_anew actions j then Some s else im_get (sc_services sc) j
      | None \<Rightarrow> im_get (sc_services sc) j)"
proof -
  have "distinct (map fst updated)" using assms by (simp add: configured_ok_def im_wf_def im_keys_def)
  then show ?thesis by (simp add: apply_reconcile_def services_apply_removals services_apply_updates)
qed

section \<open>Nothing is left to do\<close>

lemma live_configured_view:
  assumes "roster_ok (sc_services sc) (sc_runtimes sc)" and "im_get (sc_services sc) i = Some s"
  shows "live_configured (sc_runtimes sc) (i, s) \<longleftrightarrow>
    (\<exists>e. roster_of sc i = Some e \<and> \<not> rv_dynamic e \<and> rv_retired e = None)"
proof -
  obtain r where r: "im_get (sc_runtimes sc) i = Some r" by (rule roster_ok_get [OF assms])
  show ?thesis
    using r assms(2)
    by (auto simp: live_configured_def roster_entry_state_def roster_of_def rv_dynamic_def is_retired_def
        split: service_origin.splits bool.splits)
qed

text \<open>A definition equals itself, if its environment has one value per name.\<close>

lemma changed_parts_self: "im_wf (ss_environment (svc_spec u)) \<Longrightarrow> changed_parts u u = []"
  by (auto simp: changed_parts_def same_spec_def same_environment_def list_all_iff im_get_in_set)

definition environments_ok :: "service_map \<Rightarrow> bool" where
  "environments_ok services \<longleftrightarrow> list_all (\<lambda>(i, s). im_wf (ss_environment (svc_spec s))) services"

lemma reconcile_settles:
  fixes wk :: wake
  assumes step: "in_step {} sc" and inv: "roster_inv (cf_policy cf) (roster_of sc)"
    and upd: "configured_ok updated" and env: "environments_ok updated"
  defines "actions \<equiv> reconcile_actions (sc_services sc) (sc_runtimes sc) updated"
  assumes val: "validate_reconcile_candidate cf (sc_services sc) (sc_runtimes sc) updated actions = Inr ()"
  defines "after \<equiv> apply_reconcile cf wk updated actions sc"
  shows "reconcile_actions (sc_services after) (sc_runtimes after) updated = []"
proof -
  note ros = in_step_roster_ok [OF step]
  have step': "in_step {} after"
    unfolding after_def by (rule in_step_apply_reconcile [OF step upd _ val]) (simp add: actions_def)
  note ros' = in_step_roster_ok [OF step']
  have view: "roster_of after i = (case im_get updated i of
       Some u \<Rightarrow> updated_view actions i u (roster_of sc i)
     | None \<Rightarrow> if i \<in> set (removed_services actions) then removed_view (roster_of sc i) else roster_of sc i)" for i
    unfolding after_def actions_def
    by (rule roster_of_apply_reconcile [OF step upd val [unfolded actions_def]])
  note defs = services_apply_reconcile [OF upd, of cf wk actions sc, folded after_def]
  have wf: "im_wf (sc_services sc)" "im_wf updated" "im_wf (sc_services after)"
    using ros upd ros' by (simp_all add: roster_ok_def configured_ok_def)
  have no_update: "reconcile_updated (sc_services after) (sc_runtimes after) (i, u) = None"
    if u: "im_get updated i = Some u" for i u
  proof -
    have static: "\<not> is_dynamic_in (sc_services sc) i" by (rule reconcile_static [OF val im_get_keys [OF u]])
    have origin: "svc_origin u = ServiceOrigin_Configured" using configured_okD [OF upd u] by simp
    obtain s where s: "im_get (sc_services after) i = Some s" "changed_parts s u = []"
    proof (cases "defines_anew actions i")
      case True
      then have "im_get (sc_services after) i = Some u" using defs u by simp
      moreover have "im_wf (ss_environment (svc_spec u))"
        using env map_of_SomeD [OF u] by (auto simp: environments_ok_def list_all_iff)
      ultimately show thesis using that changed_parts_self by blast
    next
      case False
      have "i \<notin> ra_service ` set actions"
      proof
        assume "i \<in> ra_service ` set actions"
        then obtain a where a: "List.find (\<lambda>a. ra_service a = i) (rev actions) = Some a"
          using find_rev_no_action [of i actions] by fastforce
        then have "a \<in> set actions" "ra_service a = i" using find_rev_action by blast+
        moreover have "ra_action a = ReconcileActionKind_Removed" using False a by (simp add: defines_anew_def)
        ultimately show False
          unfolding actions_def using u by (auto elim!: reconcile_action_cases)
      qed
      moreover have "reconcile_updated (sc_services sc) (sc_runtimes sc) (i, u) = None"
      proof (rule ccontr)
        assume "reconcile_updated (sc_services sc) (sc_runtimes sc) (i, u) \<noteq> None"
        then obtain a where a: "reconcile_updated (sc_services sc) (sc_runtimes sc) (i, u) = Some a" by blast
        then have "ra_service a = i" by (auto simp: reconcile_updated_def split: option.splits if_splits)
        then show False
          using calculation reconcile_updated_in [OF map_of_SomeD [OF u] a] by (auto simp: actions_def)
      qed
      ultimately obtain s where "im_get (sc_services sc) i = Some s" "changed_parts s u = []"
        by (auto simp: reconcile_updated_def split: option.splits if_splits)
      then show thesis using that defs u False by simp
    qed
    have "\<exists>e. roster_of after i = Some e \<and> \<not> rv_dynamic e \<and> rv_retired e = None"
        unfolding view u
    by (rule updated_view_cases [OF ros wf(2) inv u static origin])
         (use is_dynamic_in_view [OF ros static] in \<open>auto simp: actions_def\<close>)
    then have "live_configured (sc_runtimes after) (i, s)" using live_configured_view [OF ros' s(1)] by simp
    then show ?thesis using s by (simp add: reconcile_updated_def)
  qed
  have "List.map_filter (reconcile_updated (sc_services after) (sc_runtimes after)) updated = []"
  proof -
    have "reconcile_updated (sc_services after) (sc_runtimes after) p = None" if "p \<in> set updated" for p
      using no_update [of "fst p" "snd p"] that wf(2) by (cases p) (simp add: im_get_in_set)
    then show ?thesis by (auto simp: map_filter_def filter_empty_conv)
  qed
  moreover have "reconcile_removed (sc_services after) (sc_runtimes after) updated = []"
  proof -
    have "\<not> live_configured (sc_runtimes after) (i, s)"
      if i: "(i, s) \<in> set (sc_services after)" "im_get updated i = None" for i s
    proof
      assume live: "live_configured (sc_runtimes after) (i, s)"
      have get: "im_get (sc_services after) i = Some s" using i(1) wf(3) by (simp add: im_get_in_set)
      then have old: "im_get (sc_services sc) i = Some s" using defs i(2) by simp
      obtain e where e: "roster_of after i = Some e" "\<not> rv_dynamic e" "rv_retired e = None"
        using live live_configured_view [OF ros' get] by blast
      have "i \<notin> set (removed_services actions)"
      proof
        assume "i \<in> set (removed_services actions)"
        then show False using e view [of i] i(2) by (auto simp: removed_view_def)
      qed
      then have "roster_of sc i = Some e" using e(1) view [of i] i(2) by simp
      then have "live_configured (sc_runtimes sc) (i, s)"
        using e(2,3) live_configured_view [OF ros old] by blast
      then have "i \<in> set (removed_services actions)"
        unfolding actions_def removed_iff [OF wf(1)] using old i(2) by blast
      then show False using \<open>i \<notin> set (removed_services actions)\<close> by contradiction
    qed
    then show ?thesis
      using im_get_None [of updated] by (auto simp: reconcile_removed_def filter_empty_conv im_contains_iff)
  qed
  ultimately show ?thesis by (simp add: reconcile_actions_def)
qed

section \<open>Repeating it\<close>

named_theorems shutdown_simps

lemma shutdown_steps [shutdown_simps]:
  "sc_shutdown (modify_runtime i f sc) = sc_shutdown sc"
  "sc_shutdown (sync wk i sc) = sc_shutdown sc"
  "sc_shutdown (log_event cf wk i kind detail sc) = sc_shutdown sc"
  "sc_shutdown (write_event cf wk i ev sc) = sc_shutdown sc"
  "sc_shutdown (insert_definition i s sc) = sc_shutdown sc"
  "sc_shutdown (set_retention cf i s sc) = sc_shutdown sc"
  by (auto simp: modify_runtime_def sync_def log_event_def write_event_def insert_definition_def
      set_retention_def split: option.split)

lemma shutdown_fold:
  "(\<And>x sc. sc_shutdown (f x sc) = sc_shutdown sc) \<Longrightarrow> sc_shutdown (fold f xs sc) = sc_shutdown sc"
  by (induction xs arbitrary: sc) auto

lemma shutdown_event [shutdown_simps]: "sc_shutdown (snd (handle_event cf wk ev sc)) = sc_shutdown sc"
  by (cases ev) (auto simp: handle_event_def handle_health_event_def handle_exit_event_def
      record_input_drop_def Let_def shutdown_simps split: option.split prod.split)

lemma shutdown_events [shutdown_simps]: "sc_shutdown (handle_events cf evs sc) = sc_shutdown sc"
  unfolding handle_events_def by (rule shutdown_fold) (auto simp: shutdown_simps)

lemma shutdown_apply_reconcile [shutdown_simps]:
  "sc_shutdown (apply_reconcile cf wk updated actions sc) = sc_shutdown sc"
proof -
  have "sc_shutdown (apply_updated cf wk actions p sc) = sc_shutdown sc" for p sc
    by (auto simp: apply_updated_def apply_added_def apply_changed_def Let_def shutdown_simps
        split: prod.split option.split reconcile_action_kind.split)
  moreover have "sc_shutdown (apply_removed cf wk i sc) = sc_shutdown sc" for i sc
    by (simp add: apply_removed_def shutdown_simps)
  ultimately show ?thesis by (simp add: apply_reconcile_def shutdown_fold)
qed

lemma apply_no_actions: "apply_reconcile cf wk updated [] sc = sc"
proof -
  have "fold (apply_updated cf wk []) ps sc = sc" for ps
    by (induction ps) (auto simp: apply_updated_def)
  then show ?thesis by (simp add: apply_reconcile_def removed_services_def)
qed

lemma no_actions_valid:
  assumes step: "in_step {} sc" and inv: "roster_inv p (roster_of sc)" and upd: "configured_ok updated"
    and toposort: "toposort_contract (cf_toposort cf)"
    and none: "reconcile_actions (sc_services sc) (sc_runtimes sc) updated = []"
  shows "validate_reconcile_candidate cf (sc_services sc) (sc_runtimes sc) updated [] = Inr ()"
proof -
  note ros = in_step_roster_ok [OF step]
  have wf: "im_wf (sc_services sc)" "im_wf updated" using ros upd by (simp_all add: roster_ok_def configured_ok_def)
  have same: "\<exists>s. im_get (sc_services sc) i = Some s \<and> live_configured (sc_runtimes sc) (i, s) \<and>
      depends_on_ids s = depends_on_ids u" if "im_get updated i = Some u" for i u
    by (rule no_action_same [of i "sc_services sc" "sc_runtimes sc" updated u])
       (use none map_of_SomeD [OF that] in auto)
  have static: "\<not> is_dynamic_in (sc_services sc) i" if i: "i \<in> set (im_keys updated)" for i
  proof -
    obtain u where "im_get updated i = Some u" using i by (auto simp: set_im_keys)
    then obtain s where s: "im_get (sc_services sc) i = Some s" "live_configured (sc_runtimes sc) (i, s)"
      using same by blast
    obtain r where "im_get (sc_runtimes sc) i = Some r" by (rule roster_ok_get [OF ros s(1)])
    then show ?thesis using s live_configuredD(1) by (auto simp: is_dynamic_in_def)
  qed
  have "orphaned_dependents (sc_services sc) (sc_runtimes sc) [] = []"
    by (simp add: orphaned_dependents_def removed_services_def im_keys_def split_def list_ex_iff)
  moreover have "service_graph_new (cf_toposort cf)
      (reconcile_candidate (sc_services sc) (sc_runtimes sc) updated []) = Inr ()"
  proof -
    have "map_option rv_depends (roster_of sc i) = map_option depends_on_ids
        (im_get (reconcile_candidate (sc_services sc) (sc_runtimes sc) updated []) i)" for i
    proof (cases "im_get updated i")
      case (Some u)
      obtain s where s: "im_get (sc_services sc) i = Some s" "depends_on_ids s = depends_on_ids u"
        using same [OF Some] by blast
      then show ?thesis
        using Some roster_ok_view(1) [OF ros, of i]
        by (simp add: reconcile_candidate_get [OF wf(1)])
    next
      case None
      show ?thesis
      proof (cases "im_get (sc_services sc) i")
        case (Some s)
        obtain r where r: "im_get (sc_runtimes sc) i = Some r" by (rule roster_ok_get [OF ros Some])
        have "\<not> live_configured (sc_runtimes sc) (i, s)"
          using none removed_iff [OF wf(1), of i "sc_runtimes sc" updated] Some None
          by (auto simp: removed_services_def)
        then have "retained_by_reconcile (sc_runtimes sc) updated [] (i, s)"
          using r None im_get_None [of updated i]
          by (auto simp: retained_by_reconcile_def Let_def live_configured_def roster_entry_state_def
              im_contains_iff split: service_origin.splits bool.splits)
        then show ?thesis
          using Some roster_ok_view(1) [OF ros, of i] by (simp add: reconcile_candidate_get [OF wf(1)])
      next
        case no: None
        then show ?thesis
          using None roster_ok_view(1) [OF ros, of i] by (simp add: reconcile_candidate_get [OF wf(1)])
      qed
    qed
    moreover have "im_wf (reconcile_candidate (sc_services sc) (sc_runtimes sc) updated [])"
      unfolding reconcile_candidate_def by (rule im_wf_fold_insert [OF wf(2)])
    moreover have "roster_graph_ok (roster_of sc)" using inv by (simp add: roster_inv_def)
    ultimately have "graph_ok (reconcile_candidate (sc_services sc) (sc_runtimes sc) updated [])"
      using graph_ok_view by blast
    then show ?thesis using toposort_contract.accepts_iff [OF toposort] by simp
  qed
  moreover have "List.find (is_dynamic_in (sc_services sc)) (im_keys updated) = None"
    using static by (auto simp: find_None_iff)
  ultimately show ?thesis by (simp add: validate_reconcile_candidate_def map_err_def)
qed

text \<open>
  C13. Reconciliation converges. If a session accepts a configuration, reconciling the same
  configuration again succeeds, reports no action and leaves the whole state as it is, whether or not
  it is a dry run.
\<close>

theorem reconcile_converges:
  assumes "toposort_contract (cf_toposort cf)" and "configured_ok services" and "load_ok ld"
    and "scheduler_start cf wk ld services spool = Inr sc0" and "run (scheduler_step cf) sc0 rounds sc"
    and upd: "configured_ok updated" and env: "environments_ok updated"
    and first: "reconcile_config cf wk1 (Load_Finished evs (Inr updated)) False sc = (Inr receipt, sc')"
  shows "reconcile_config cf wk2 (Load_Finished [] (Inr updated)) dry_run sc' =
    (Inr \<lparr> rr_config_path = rr_config_path receipt, rr_dry_run = dry_run, rr_actions = [] \<rparr>, sc')"
proof -
  note inv = session_inv [OF assms(1-5)]
  let ?ld = "Load_Finished evs (Inr updated)"
  obtain path where path: "cf_reload cf = Some path"
    using first by (cases "cf_reload cf") (auto simp: reconcile_config_def)
  obtain loaded sc1 where a: "await_loaded_services cf path ?ld sc = (loaded, sc1)" by fastforce
  obtain upd' where loaded: "loaded = Inr upd'"
    using first path a by (cases loaded) (auto simp: reconcile_config_def)
  have shut: "\<not> sc_shutdown sc" "sc1 = handle_events cf evs sc" and same: "upd' = updated"
    and graph: "service_graph_new (cf_toposort cf) updated = Inr ()"
    using a loaded by (auto simp: await_loaded_services_def load_services_Inr split: if_splits)
  let ?actions = "reconcile_actions (sc_services sc1) (sc_runtimes sc1) updated"
  have val: "validate_reconcile_candidate cf (sc_services sc1) (sc_runtimes sc1) updated ?actions = Inr ()"
    and sc': "sc' = apply_reconcile cf wk1 updated ?actions sc1" and receipt: "rr_config_path receipt = path"
    using first path a loaded same
    by (auto simp: reconcile_config_def Let_def split: sum.splits)
  have step1: "in_step {} sc1" unfolding shut(2) by (rule in_step_events [OF inv(1)])
  have inv1: "roster_inv (cf_policy cf) (roster_of sc1)" using inv(3) shut(2) by simp
  have step': "in_step {} sc'" unfolding sc' by (rule in_step_apply_reconcile [OF step1 upd refl val])
  have inv': "roster_inv (cf_policy cf) (roster_of sc')"
    unfolding sc' by (rule roster_inv_step [OF inv1 refine_apply_reconcile [OF step1 inv1 upd assms(1) val]])
  have none: "reconcile_actions (sc_services sc') (sc_runtimes sc') updated = []"
    unfolding sc' by (rule reconcile_settles [OF step1 inv1 upd env val])
  have "\<not> sc_shutdown sc'" using shut by (simp add: sc' shutdown_simps)
  moreover have "load_services cf path (Inr updated) = Inr updated"
    using graph by (simp add: load_services_Inr)
  ultimately have "await_loaded_services cf path (Load_Finished [] (Inr updated)) sc' = (Inr updated, sc')"
    by (simp add: await_loaded_services_def handle_events_def)
  then show ?thesis
    using path receipt none no_actions_valid [OF step' inv' upd assms(1) none]
    by (simp add: reconcile_config_def Let_def apply_no_actions)
qed

definition file_config :: session_config where
  "file_config = example_config\<lparr> cf_reload := Some ''micromux.yaml'' \<rparr>"

definition one_service :: service_map where
  "one_service = [(''db'', example_service ''db'' [])]"

lemma empty_start:
  "scheduler_start file_config example_wake example_load [] None =
     Inr (scheduler_new [] (new_with_retention [] None))"
proof -
  let ?sc = "scheduler_new [] (new_with_retention [] None)"
  have empty: "cx_services (context_of ?sc) = []"
    by (simp add: context_of_def scheduler_new_def)
  have "schedule_ready env (context_of ?sc) = context_of ?sc" for env
    by (subst schedule_ready.simps) (simp add: schedule_round_def record_stable_dependency_blocks_def empty)
  then have "schedule_pass file_config example_wake example_load ?sc = ?sc"
    by (simp add: schedule_pass_def reload_before_auto_restart_def has_due_auto_restart_def Let_def
        with_context_def context_of_def scheduler_new_def)
  then show ?thesis
    by (simp add: scheduler_start_def initial_model_entries_def service_graph_new_def im_keys_def
        file_config_def closure_toposort_def)
qed

lemma one_service_added:
  "reconcile_actions [] [] one_service =
     [\<lparr> ra_service = ''db'', ra_action = ReconcileActionKind_Added,
        ra_detail = ''configured service added'' \<rparr>]"
  by (simp add: reconcile_actions_def reconcile_removed_def reconcile_updated_def one_service_def)

theorem reconcile_converges_witness:
  "\<exists>sc. reconcile_config file_config example_wake (Load_Finished [] (Inr one_service)) True sc =
     (Inr \<lparr> rr_config_path = ''micromux.yaml'', rr_dry_run = True, rr_actions = [] \<rparr>, sc) \<and>
     im_keys (sc_services sc) = [''db'']"
proof -
  let ?sc = "scheduler_new [] (new_with_retention [] None)"
  let ?actions = "reconcile_actions [] [] one_service"
  let ?after = "apply_reconcile file_config example_wake one_service ?actions ?sc"
  have contract: "toposort_contract (cf_toposort file_config)"
    by (simp add: file_config_def closure.toposort_contract_axioms)
  have ok: "configured_ok one_service" "configured_ok []" "environments_ok one_service"
    by (simp_all add: configured_ok_def environments_ok_def one_service_def im_wf_def im_keys_def
        example_service_def example_normal_def service_spec_default_def)
  have graph: "service_graph_new closure_toposort one_service = Inr ()"
    by (simp add: service_graph_new_def one_service_def im_keys_def closure_toposort_def)
  have "validate_reconcile_candidate file_config [] [] one_service ?actions = Inr ()"
    using graph
    by (simp add: validate_reconcile_candidate_def reconcile_candidate_def orphaned_dependents_def
        is_dynamic_in_def im_keys_def map_err_def file_config_def one_service_def find_None_iff)
  moreover have "sc_services ?sc = []" "sc_runtimes ?sc = []" "\<not> sc_shutdown ?sc"
    by (simp_all add: scheduler_new_def)
  ultimately have first: "reconcile_config file_config example_wake (Load_Finished [] (Inr one_service)) False ?sc =
      (Inr \<lparr> rr_config_path = ''micromux.yaml'', rr_dry_run = False, rr_actions = ?actions \<rparr>, ?after)"
    using graph
    by (simp add: reconcile_config_def await_loaded_services_def handle_events_def file_config_def
        load_services_def map_err_def Let_def)
  have "im_keys (sc_services ?after) = [''db'']"
    unfolding one_service_added
    by (simp add: apply_reconcile_def one_service_def apply_updated_def apply_added_def scheduler_new_def
        removed_services_def Let_def)
  with reconcile_converges [OF contract ok(2) example_load_ok empty_start run_Nil ok(1,3) first,
      of example_wake True]
  show ?thesis by auto
qed

end
