(* ===== verification/Shutdown.thy ===== *)
theory Shutdown
  imports Rounds
begin

text \<open>
  The end of a session and the end of a run: which events still count, and when the drain at shutdown
  is done.
\<close>

section \<open>The run a service has\<close>

definition run_of :: "scheduler \<Rightarrow> service_id \<Rightarrow> run_id option" where
  "run_of sc i = Option.bind (im_get (sc_runtimes sc) i) current_run_id"

lemma run_of_simps [simp]:
  "run_of (sync wk i sc) j = run_of sc j"
  "run_of (log_event cf wk i kind detail sc) j = run_of sc j"
  "run_of (write_event cf wk i ev sc) j = run_of sc j"
  by (simp_all add: run_of_def write_event_def)

lemma run_of_get: "im_get (sc_runtimes sc) j = Some r \<Longrightarrow> run_of sc j = current_run_id r"
  by (simp add: run_of_def)

lemma run_of_modify:
  "run_of (modify_runtime i f sc) j =
     (if j = i then Option.bind (im_get (sc_runtimes sc) i) (\<lambda>r. current_run_id (f r)) else run_of sc j)"
  by (cases "im_get (sc_runtimes sc) i") (simp_all add: run_of_def)

lemma current_run_ops [simp]:
  "current_run_id (finish_current_run now policy code r) = None"
  "current_run_id (mark_killed r) = current_run_id r"
  "current_run_id (snd (mark_health h r)) = current_run_id r"
  "current_run_id (finish_log_reader rid r) = current_run_id r"
  "current_run_id (r\<lparr> sr_input_drops := t \<rparr>) = current_run_id r"
  by (auto simp: current_run_id_def runtime_ops_defs Let_def option.map_comp comp_def
      split: option.split state.split intro!: option.map_cong)

text \<open>An event leaves the run of a service, or ends it.\<close>

lemma run_of_event:
  "run_of (snd (handle_event cf wk ev sc)) j = run_of sc j \<or> run_of (snd (handle_event cf wk ev sc)) j = None"
  by (cases ev)
     (auto simp: handle_event_def handle_health_event_def handle_exit_event_def record_input_drop_def
       Let_def run_of_modify run_of_get split: option.split prod.split)

lemma run_of_exit:
  assumes "roster_ok (sc_services sc) (sc_runtimes sc)" and "run_of sc i = Some rid"
  shows "run_of (snd (handle_event cf wk (ProcessEvent_Exited i rid code) sc)) i = None"
proof -
  obtain r where r: "im_get (sc_runtimes sc) i = Some r" "current_run_id r = Some rid"
    using assms(2) by (auto simp: run_of_def bind_eq_Some_conv)
  obtain s where s: "im_get (sc_services sc) i = Some s" by (rule roster_ok_pair [OF assms(1) r(1)])
  show ?thesis
    using r s
    by (auto simp: handle_event_def event_relevant_def handle_exit_event_def Let_def run_of_modify
        split: option.split)
qed

section \<open>Late events\<close>

text \<open>The verdicts about a run: how it ended and how healthy it is.\<close>

fun is_verdict :: "process_event \<Rightarrow> bool" where
  "is_verdict (ProcessEvent_LogReaderFinished _ _) \<longleftrightarrow> False"
| "is_verdict (ProcessEvent_InputDropped _ _ _ _) \<longleftrightarrow> False"
| "is_verdict _ \<longleftrightarrow> True"

text \<open>What is left of a run that ended: readers that drain its output, and input that came too late.\<close>

definition bookkeeping :: "service_runtime \<Rightarrow> service_runtime \<Rightarrow> bool" where
  "bookkeeping r r' \<longleftrightarrow>
     r' = r\<lparr> sr_draining_log_readers := sr_draining_log_readers r', sr_input_drops := sr_input_drops r' \<rparr>"

lemma run_of_events: "run_of sc i = None \<Longrightarrow> run_of (handle_events cf evs sc) i = None"
proof (induction evs arbitrary: sc)
  case (Cons x evs)
  obtain wk ev where x: "x = (wk, ev)" by fastforce
  have "run_of (snd (handle_event cf wk ev sc)) i = None"
    using run_of_event [of cf wk ev sc i] Cons.prems by auto
  from Cons.IH [OF this] show ?case by (simp add: handle_events_def x)
qed (simp add: handle_events_def)

lemma late_verdict:
  assumes "run_of sc (event_service_id ev) = None" and "is_verdict ev"
  shows "handle_event cf wk ev sc = (False, sc)"
proof -
  have "current_run_id r = None" if "im_get (sc_runtimes sc) (event_service_id ev) = Some r" for r
    using assms(1) that by (simp add: run_of_get)
  then show ?thesis
    using assms(2) by (cases ev) (auto simp: handle_event_def event_relevant_def split: option.split)
qed

lemma late_bookkeeping:
  assumes "run_of sc (event_service_id ev) = None" and "\<not> is_verdict ev"
    and "handle_event cf wk ev sc = (needs_pass, sc')"
  shows "\<not> needs_pass \<and> sc_services sc' = sc_services sc \<and>
    (\<forall>j. rel_option bookkeeping (im_get (sc_runtimes sc) j) (im_get (sc_runtimes sc') j))"
proof -
  have refl: "bookkeeping r r" for r by (simp add: bookkeeping_def)
  have idle: "sr_running r = None" if "im_get (sc_runtimes sc) (event_service_id ev) = Some r" for r
    using assms(1) that by (simp add: run_of_get current_run_id_def)
  have "bookkeeping r (finish_log_reader rid r)" if "sr_running r = None" for r rid
    using that by (simp add: bookkeeping_def finish_log_reader_def)
  moreover have "bookkeeping r (r\<lparr> sr_input_drops := t \<rparr>)" for r t
    by (simp add: bookkeeping_def)
  ultimately have ops: "bookkeeping r (finish_log_reader rid r)" "bookkeeping r (r\<lparr> sr_input_drops := t \<rparr>)"
    if "sr_running r = None" for r rid t using that by blast+
  show ?thesis
  proof (cases "im_get (sc_runtimes sc) (event_service_id ev)")
    case None
    then show ?thesis using assms(3) refl by (simp add: handle_event_def option.rel_refl)
  next
    case (Some r)
    note ops = ops [OF idle [OF Some]]
    have unchanged: "rel_option bookkeeping (im_get (sc_runtimes sc) j) (im_get (sc_runtimes sc) j)" for j
      by (rule option.rel_refl) (rule refl)
    have modified: "rel_option bookkeeping (im_get (sc_runtimes sc) j)
        (im_get (sc_runtimes (modify_runtime (event_service_id ev) f sc)) j)" if "bookkeeping r (f r)" for f j
      using that Some unchanged [of j] by simp
    show ?thesis
    proof (cases ev)
      case (ProcessEvent_LogReaderFinished i rid)
      note modified' = modified [where f = "finish_log_reader rid", OF ops(1)]
      have "handle_event cf wk ev sc = (False, if event_relevant ev r
          then modify_runtime i (finish_log_reader rid) sc else sc)"
        using Some ProcessEvent_LogReaderFinished by (simp add: handle_event_def)
      then have "needs_pass = False" "sc' = (if event_relevant ev r
          then modify_runtime (event_service_id ev) (finish_log_reader rid) sc else sc)"
        using assms(3) ProcessEvent_LogReaderFinished by auto
      then show ?thesis using modified' unchanged by (simp del: modify_runtime_sel(2))
    next
      case (ProcessEvent_InputDropped i rid kind reason)
      obtain report t where t: "throttle_record (wk_now wk) (sr_input_drops r) = (report, t)" by fastforce
      note modified' = modified [where f = "\<lambda>r. r\<lparr> sr_input_drops := t \<rparr>", OF ops(2)]
      have "handle_event cf wk ev sc = (False, if event_relevant ev r
          then record_input_drop cf wk i kind reason sc else sc)"
        using Some ProcessEvent_InputDropped by (simp add: handle_event_def)
      then have result: "needs_pass = False"
        "sc' = (if event_relevant ev r then record_input_drop cf wk i kind reason sc else sc)"
        using assms(3) by auto
      define recorded where "recorded = modify_runtime (event_service_id ev) (\<lambda>r. r\<lparr> sr_input_drops := t \<rparr>) sc"
      have "record_input_drop cf wk i kind reason sc =
          (if \<not> report then recorded else log_event cf wk i ServiceEventKind_InputDropped
             (''terminal '' @ kind @ '' discarded: '' @ reason) recorded)"
        using Some ProcessEvent_InputDropped t by (simp add: record_input_drop_def recorded_def Let_def)
      moreover have "sc_services recorded = sc_services sc" by (simp add: recorded_def)
      ultimately show ?thesis
        using modified' [folded recorded_def] unchanged unfolding result by simp
    qed (use assms(2) in simp_all)
  qed
qed


text \<open>A session with one live process.\<close>

definition live_runtime :: service_runtime where
  "live_runtime =
     snd (started_runtime example_pass initial_pty_size (example_service ''db'' []) None
       (runtime_new (example_service ''db'' [])))"

definition live_session :: scheduler where
  "live_session =
     (let services = [(''db'', example_service ''db'' [])]
      in sync example_wake ''db'' (modify_runtime ''db'' (\<lambda>r. live_runtime)
           (scheduler_new services (new_with_retention (initial_model_entries services) None))))"

lemma live_runtime_run: "current_run_id live_runtime = Some 1"
  by (simp add: live_runtime_def started_runtime_def allocate_run_id_def prepare_start_def
      mark_starting_def mark_started_def decrement_failure_budget_def runtime_new_def example_pass_def
      u64_checked_add_def current_run_id_def example_service_def Let_def)

lemma live_runtime_ok: "runtime_ok (ss_restart (svc_spec (example_service ''db'' []))) live_runtime"
proof -
  obtain ok where "started_runtime example_pass initial_pty_size (example_service ''db'' []) None
      (runtime_new (example_service ''db'' [])) = (ok, live_runtime)"
    by (metis live_runtime_def prod.collapse)
  then show ?thesis
    by (rule started_runtime_ok [OF runtime_ok_new, rotated 2])
       (simp_all add: runtime_new_def example_service_def Let_def)
qed

lemma live_session_in_step: "in_step {} live_session"
proof -
  let ?services = "[(''db'', example_service ''db'' [])]"
  have "configured_ok ?services" by (simp add: configured_ok_def im_wf_def example_service_def)
  from in_step_initial [OF this] show ?thesis
    unfolding live_session_def Let_def
    by (rule in_step_modify_sync) (use live_runtime_ok in \<open>simp split: if_splits\<close>)
qed

lemma live_session_sel:
  "sc_services live_session = [(''db'', example_service ''db'' [])]"
  "im_get (sc_runtimes live_session) ''db'' = Some live_runtime" "\<not> sc_shutdown live_session"
  by (simp_all add: live_session_def Let_def sync_def modify_runtime_def scheduler_new_def)

lemmas live_session_ok = in_step_roster_ok [OF live_session_in_step]


section \<open>Draining\<close>

lemma running_count_zero:
  assumes "im_wf (sc_runtimes sc)"
  shows "running_count (sc_runtimes sc) = 0 \<longleftrightarrow> (\<forall>i. run_of sc i = None)"
proof -
  have "running_count (sc_runtimes sc) = 0 \<longleftrightarrow> (\<forall>(i, r) \<in> set (sc_runtimes sc). sr_running r = None)"
    by (auto simp: running_count_def filter_empty_conv)
  also have "\<dots> \<longleftrightarrow> (\<forall>i r. im_get (sc_runtimes sc) i = Some r \<longrightarrow> sr_running r = None)"
    using assms by (auto simp: im_get_in_set)
  also have "\<dots> \<longleftrightarrow> (\<forall>i. run_of sc i = None)"
  proof -
    have "run_of sc i = None \<longleftrightarrow> (\<forall>r. im_get (sc_runtimes sc) i = Some r \<longrightarrow> sr_running r = None)" for i
      by (cases "im_get (sc_runtimes sc) i") (simp_all add: run_of_def current_run_id_def)
    then show ?thesis by simp
  qed
  finally show ?thesis .
qed

lemma in_step_drain: "in_step {} sc \<Longrightarrow> in_step {} (drain_events cf evs sc)"
  by (induction cf evs sc rule: drain_events.induct) (auto intro: in_step_event)

lemma run_of_drain: "run_of (drain_events cf evs sc) i = run_of sc i \<or> run_of (drain_events cf evs sc) i = None"
proof (induction cf evs sc rule: drain_events.induct)
  case (2 cf wk ev evs sc)
  then show ?case using run_of_event [of cf wk ev sc i] by auto
qed simp

lemma in_step_wf: "in_step X sc \<Longrightarrow> im_wf (sc_runtimes sc)"
  by (simp add: in_step_def roster_ok_def)

text \<open>If every run that is left exits, nothing runs when the events are handled.\<close>

lemma drain_done:
  assumes "in_step {} sc"
    and "\<And>i rid. run_of sc i = Some rid \<Longrightarrow> \<exists>wk code. (wk, ProcessEvent_Exited i rid code) \<in> set evs"
  shows "running_count (sc_runtimes (drain_events cf evs sc)) = 0"
  using assms
proof (induction cf evs sc rule: drain_events.induct)
  case (1 cf sc)
  then have "run_of sc i = None" for i by (cases "run_of sc i") auto
  then show ?case using running_count_zero [OF in_step_wf [OF 1(1)]] by simp
next
  case (2 cf wk ev evs sc)
  show ?case
  proof (cases "running_count (sc_runtimes sc) = 0")
    case False
    let ?sc = "snd (handle_event cf wk ev sc)"
    have "\<exists>wk code. (wk, ProcessEvent_Exited i rid code) \<in> set evs" if run: "run_of ?sc i = Some rid" for i rid
    proof -
      have same: "run_of sc i = Some rid" using run_of_event [of cf wk ev sc i] run by auto
      then obtain wk1 code where "(wk1, ProcessEvent_Exited i rid code) \<in> set ((wk, ev) # evs)"
        using 2(3) by blast
      moreover have "ev \<noteq> ProcessEvent_Exited i rid code"
        using run_of_exit [OF in_step_roster_ok [OF 2(2)] same, of cf wk code] run by auto
      ultimately show ?thesis by auto
    qed
    then have "running_count (sc_runtimes (drain_events cf evs ?sc)) = 0"
      by (rule 2(1) [OF False in_step_event [OF 2(2)]])
    then show ?thesis using False by simp
  qed simp
qed

lemma cancel_all_sel:
  "im_get (sc_runtimes (cancel_all_running sc)) i =
     map_option (\<lambda>r. r\<lparr> sr_running := map_option running_cancel (sr_running r) \<rparr>) (im_get (sc_runtimes sc) i)"
  by (simp add: cancel_all_running_def map_of_map)

lemma run_of_cancel_all [simp]: "run_of (cancel_all_running sc) i = run_of sc i"
proof -
  have "current_run_id (r\<lparr> sr_running := map_option running_cancel (sr_running r) \<rparr>) = current_run_id r" for r
    by (cases "sr_running r") (simp_all add: current_run_id_def running_cancel_def)
  then show ?thesis
    by (cases "im_get (sc_runtimes sc) i") (simp_all add: run_of_def cancel_all_sel)
qed

lemma in_step_cancel_all: "in_step {} sc \<Longrightarrow> in_step {} (cancel_all_running sc)"
  unfolding cancel_all_running_def
proof (rule in_step_map)
  fix now s r
  have "project_snapshot now s (r\<lparr> sr_running := map_option (\<lambda>x. x\<lparr> rs_terminate := True \<rparr>) (sr_running r) \<rparr>) =
      project_snapshot now s r"
    by (cases "sr_running r") (simp_all add: project_snapshot_def Let_def run_generation_def current_run_id_def)
  then show "project_snapshot now s (r\<lparr> sr_running := map_option running_cancel (sr_running r) \<rparr>) =
      project_snapshot now s r"
    by (simp add: running_cancel_def cong: option.map_cong)
qed (auto intro: runtime_ok_pty)

text \<open>
  C15. Shutdown. In a session of any length, shutting down asks every live process to terminate and
  starts nothing: afterwards a service has the run it had or none. If the exits of the runs that are
  left all arrive before the deadline of the drain, nothing runs when it ends, whatever other events
  arrive and in whatever order.
\<close>

theorem shutdown_stops_everything:
  assumes "toposort_contract (cf_toposort cf)" and "configured_ok services" and "load_ok ld"
    and "scheduler_start cf wk ld services spool = Inr sc0" and "run (scheduler_step cf) sc0 rounds sc"
  shows "list_all (\<lambda>(i, r). case sr_running r of None \<Rightarrow> True | Some running \<Rightarrow> rs_terminate running)
      (sc_runtimes (cancel_all_running sc)) \<and>
    (run_of (shut_down cf now evs sc) i = run_of sc i \<or> run_of (shut_down cf now evs sc) i = None) \<and>
    ((\<forall>(wk', ev) \<in> set evs. wk_now wk' < drain_deadline now (sc_runtimes (cancel_all_running sc))) \<longrightarrow>
     (\<forall>j rid. run_of sc j = Some rid \<longrightarrow> (\<exists>wk' code. (wk', ProcessEvent_Exited j rid code) \<in> set evs)) \<longrightarrow>
     running_count (sc_runtimes (shut_down cf now evs sc)) = 0)"
proof (intro conjI impI)
  show "list_all (\<lambda>(i, r). case sr_running r of None \<Rightarrow> True | Some running \<Rightarrow> rs_terminate running)
      (sc_runtimes (cancel_all_running sc))"
    by (auto simp: cancel_all_running_def list_all_iff running_cancel_def split: option.split)
  show "run_of (shut_down cf now evs sc) i = run_of sc i \<or> run_of (shut_down cf now evs sc) i = None"
    using run_of_drain [of cf _ "cancel_all_running sc" i]
    by (auto simp: shut_down_def drain_on_shutdown_def)
  assume intime: "\<forall>(wk', ev) \<in> set evs. wk_now wk' < drain_deadline now (sc_runtimes (cancel_all_running sc))"
    and exits: "\<forall>j rid. run_of sc j = Some rid \<longrightarrow> (\<exists>wk' code. (wk', ProcessEvent_Exited j rid code) \<in> set evs)"
  have eq: "takeWhile (\<lambda>(wk, ev). wk_now wk < drain_deadline now (sc_runtimes (cancel_all_running sc))) evs = evs"
    using intime by (auto simp: takeWhile_eq_all_conv)
  have "running_count (sc_runtimes (drain_events cf evs (cancel_all_running sc))) = 0"
    by (rule drain_done [OF in_step_cancel_all [OF session_inv(1) [OF assms]]]) (use exits in simp)
  then show "running_count (sc_runtimes (shut_down cf now evs sc)) = 0"
    unfolding shut_down_def drain_on_shutdown_def eq by simp
qed

theorem shutdown_stops_everything_witness:
  "run_of (shut_down example_config 10 [] example_session) ''db'' \<in>
     {run_of example_session ''db'', None} \<and>
   list_all (\<lambda>(i, r). case sr_running r of None \<Rightarrow> True | Some running \<Rightarrow> rs_terminate running)
      (sc_runtimes (cancel_all_running example_session))"
  using shutdown_stops_everything [OF example_toposort example_configured example_load_ok example_start
      run_Nil, where evs = "[]" and now = 10 and i = "''db''"]
  by blast

section \<open>A restart is never lost\<close>

lemma write_event_sel [simp]:
  "sc_services (write_event cf wk i ev sc) = sc_services sc"
  "sc_runtimes (write_event cf wk i ev sc) = sc_runtimes sc"
  "sc_shutdown (write_event cf wk i ev sc) = sc_shutdown sc"
  by (simp_all add: write_event_def)

lemma shutdown_sel [simp]:
  "sc_shutdown (sync wk i sc) = sc_shutdown sc" "sc_shutdown (modify_runtime i f sc) = sc_shutdown sc"
  "sc_shutdown (log_event cf wk i kind detail sc) = sc_shutdown sc"
  by (auto simp: sync_def modify_runtime_def log_event_def split: option.split)

lemma started_run_ids:
  assumes "started_runtime env sz s code r = (ok, r')" and "sr_running r = None"
    and "sr_desired r = DesiredState_Enabled"
  shows "if ok then current_run_id r' = Some (fst (allocate_run_id r))
    else current_run_id r' = None \<and> sr_state r' = State_Exited (- 1) \<and>
      sr_last_run_id r' = Some (fst (allocate_run_id r))"
  using assms
  by (auto simp: started_runtime_def allocate_run_id_def prepare_start_def mark_starting_def
      decrement_failure_budget_def mark_started_def finish_failed_start_def finish_run_state_def
      current_run_id_def Let_def split: sum.splits)

text \<open>
  A restart that was asked for and not carried out yet: the service is wanted, the request stands and
  a process that still runs was told to terminate. Events and reloads keep it so.
\<close>

definition restart_pending :: "u64 \<Rightarrow> service_runtime \<Rightarrow> bool" where
  "restart_pending n r \<longleftrightarrow>
     sr_desired r = DesiredState_Enabled \<and> sr_start_requested r \<and> sr_next_run_id r = n \<and>
     (case sr_running r of None \<Rightarrow> True | Some running \<Rightarrow> rs_terminate running)"

lemma restart_pending_ops:
  "restart_pending (sr_next_run_id r) (request_restart r)"
  "restart_pending n r \<Longrightarrow> restart_pending n (finish_current_run now policy code r)"
  "restart_pending n r \<Longrightarrow> restart_pending n (mark_killed r)"
  "restart_pending n r \<Longrightarrow> restart_pending n (snd (mark_health h r))"
  "restart_pending n r \<Longrightarrow> restart_pending n (finish_log_reader rid r)"
  "restart_pending n r \<Longrightarrow> restart_pending n (r\<lparr> sr_input_drops := t \<rparr>)"
  "restart_pending n r \<Longrightarrow> restart_pending n (runtime_reconfigure policy r)"
  by (auto simp: restart_pending_def runtime_ops_defs running_cancel_def Let_def
      split: option.splits state.splits)

definition pending_at :: "u64 \<Rightarrow> service_id \<Rightarrow> scheduler \<Rightarrow> bool" where
  "pending_at n i sc \<longleftrightarrow> pred_option (restart_pending n) (im_get (sc_runtimes sc) i) \<and>
     im_get (sc_runtimes sc) i \<noteq> None"

lemma pending_at_get:
  "pending_at n i sc \<longleftrightarrow> (\<exists>r. im_get (sc_runtimes sc) i = Some r \<and> restart_pending n r)"
  by (auto simp: pending_at_def)

lemma pending_at_modify:
  assumes "pending_at n i sc" and "\<And>r. restart_pending n r \<Longrightarrow> restart_pending n (f r)"
  shows "pending_at n i (modify_runtime j f sc)"
  using assms by (auto simp: pending_at_get)

lemma pending_at_same [simp]:
  "pending_at n i (sync wk j sc) = pending_at n i sc"
  "pending_at n i (log_event cf wk j kind detail sc) = pending_at n i sc"
  "pending_at n i (write_event cf wk j ev sc) = pending_at n i sc"
  by (simp_all add: pending_at_def)

lemma pending_at_event:
  "pending_at n i sc \<Longrightarrow> pending_at n i (snd (handle_event cf wk ev sc))"
  by (cases ev)
     (auto simp: handle_event_def handle_health_event_def handle_exit_event_def record_input_drop_def
       Let_def restart_pending_ops intro!: pending_at_modify split: option.split prod.split)

lemma pending_at_events: "pending_at n i sc \<Longrightarrow> pending_at n i (handle_events cf evs sc)"
  unfolding handle_events_def by (induction evs arbitrary: sc) (auto intro: pending_at_event)

lemma pending_at_apply_reload:
  assumes "roster_ok (sc_services sc) (sc_runtimes sc)" and "pending_at n i sc"
  shows "pending_at n i (apply_reload cf wk merged sc)"
proof -
  have "distinct (im_keys (sc_runtimes sc))" using assms(1) by (simp add: roster_ok_def im_wf_def)
  moreover have "sc_runtimes (fold (\<lambda>i. log_event cf wk i kind detail) ks sc) = sc_runtimes sc"
    for kind detail ks sc by (induction ks arbitrary: sc) auto
  moreover have "restart_pending n (reconfigured merged i r)" if "restart_pending n r" for r
    using that by (simp add: reconfigured_def restart_pending_ops split: option.split)
  ultimately show ?thesis
    using assms(2) reconfigure_fold(3) [of "im_keys (sc_runtimes sc)" cf merged sc i]
    by (auto simp: pending_at_get apply_reload_def Let_def)
qed

lemma pending_at_reload:
  assumes "in_step {} sc" and "load_ok ld" and "pending_at n i sc"
  shows "pending_at n i (snd (reload_services cf wk ld sc))"
proof (cases "cf_reload cf")
  case (Some path)
  obtain result sc1 where a: "await_loaded_services cf path ld sc = (result, sc1)" by fastforce
  have "pending_at n i sc1"
    using a assms(3) pending_at_events [OF assms(3), of cf]
    by (auto simp: await_loaded_services_def pending_at_def split: if_splits load.splits)
  moreover have "roster_ok (sc_services sc1) (sc_runtimes sc1)"
    using await_loaded(1) [OF a assms(2,1)] by (rule in_step_roster_ok)
  ultimately show ?thesis
    using Some a pending_at_apply_reload by (auto simp: reload_services_def Let_def split: sum.split)
qed (simp add: reload_services_def assms(3))

text \<open>What a scheduling pass makes of a restart whose process has gone.\<close>

definition restart_outcome :: "u64 \<Rightarrow> service_id \<Rightarrow> scheduler \<Rightarrow> bool" where
  "restart_outcome n i sc \<longleftrightarrow>
     (\<exists>s r. im_get (sc_services sc) i = Some s \<and> im_get (sc_runtimes sc) i = Some r \<and>
        (let next_run = (case u64_checked_add n 1 of None \<Rightarrow> 1 | Some m \<Rightarrow> m)
         in current_run_id r = Some next_run \<or>
            (current_run_id r = None \<and> sr_state r = State_Exited (- 1) \<and> sr_last_run_id r = Some next_run) \<or>
            (current_run_id r = None \<and> sr_start_requested r \<and> sr_blocked_on r \<noteq> [] \<and>
             sr_blocked_on r = map bd_service (blocking_dependencies (sc_runtimes sc) s))))"

lemma pending_pass:
  assumes "in_step {} sc" and "pending_at n i sc" and "run_of sc i = None"
  shows "restart_outcome n i (with_context sc (schedule_ready env (context_of sc)))"
proof -
  obtain r where r: "im_get (sc_runtimes sc) i = Some r" "restart_pending n r"
    using assms(2) by (auto simp: pending_at_get)
  note ros = in_step_roster_ok [OF assms(1)]
  obtain s where s: "im_get (sc_services sc) i = Some s" by (rule roster_ok_pair [OF ros r(1)])
  have idle: "sr_running r = None" "sr_desired r = DesiredState_Enabled" "sr_start_requested r"
    "sr_next_run_id r = n"
    using assms(3) r by (simp_all add: run_of_get current_run_id_def restart_pending_def)
  then have due: "sr_state r = State_Pending \<or> (\<exists>code. sr_state r = State_Exited code)"
    using roster_okD [OF ros s r(1)] by (auto simp: runtime_ok_def state_shape_False)
  let ?ctx = "context_of sc"
  define rts where "rts = cx_runtimes (schedule_ready env ?ctx)"
  have "im_wf (cx_services ?ctx)" "runtimes_ok (cx_services ?ctx) (cx_runtimes ?ctx)"
    "(i, s) \<in> set (cx_services ?ctx)" "im_get (cx_runtimes ?ctx) i = Some r"
    using ros roster_ok_runtimes_ok [OF ros] s r(1)
    by (auto simp: context_of_def roster_ok_def dest: map_of_SomeD)
  from schedule_ready_outcome [OF this, of env, folded rts_def]
  obtain r' where r': "im_get rts i = Some r'"
    "unblock r' = unblock r \<or> spawned_in_pass env (cx_pty_size ?ctx) (cx_runtimes ?ctx) rts i s r r'"
    "case should_consider_start (pe_now env) rts i s of
       StartCheck_Skip \<Rightarrow> sr_blocked_on r' = []
     | StartCheck_Consider _ \<Rightarrow> blocking_dependencies rts s \<noteq> [] \<and>
         sr_blocked_on r' = map bd_service (blocking_dependencies rts s)"
    by blast
  have "current_run_id r' = Some (fst (allocate_run_id r)) \<or>
      (current_run_id r' = None \<and> sr_state r' = State_Exited (- 1) \<and>
       sr_last_run_id r' = Some (fst (allocate_run_id r))) \<or>
      (current_run_id r' = None \<and> sr_start_requested r' \<and> sr_blocked_on r' \<noteq> [] \<and>
       sr_blocked_on r' = map bd_service (blocking_dependencies rts s))"
    using r'(2)
  proof
    assume "unblock r' = unblock r"
    note eq = unblock_eqD [OF this]
    have "\<exists>code. should_consider_start (pe_now env) rts i s = StartCheck_Consider code"
      using r'(1) idle due eq by (auto simp: should_consider_start_def)
    then show ?thesis using r'(3) eq idle by (auto simp: current_run_id_def)
  next
    assume "spawned_in_pass env (cx_pty_size ?ctx) (cx_runtimes ?ctx) rts i s r r'"
    then obtain c ok where "started_runtime env (cx_pty_size ?ctx) s c r = (ok, r')"
      unfolding spawned_in_pass_def by blast
    from started_run_ids [OF this idle(1,2)] show ?thesis by (cases ok) simp_all
  qed
  moreover have "fst (allocate_run_id r) = (case u64_checked_add n 1 of None \<Rightarrow> 1 | Some m \<Rightarrow> m)"
    using idle(4) by (simp add: allocate_run_id_def Let_def)
  ultimately show ?thesis
    using r'(1) s unfolding restart_outcome_def Let_def with_context_def rts_def [symmetric] by auto
qed

lemma reload_run_of:
  assumes "in_step {} sc" and "load_ok ld" and "run_of sc i = None"
  shows "run_of (snd (reload_services cf wk ld sc)) i = None"
proof (cases "cf_reload cf")
  case (Some path)
  obtain result sc1 where a: "await_loaded_services cf path ld sc = (result, sc1)" by fastforce
  have none: "run_of sc1 i = None"
    using a assms(3) run_of_events [OF assms(3), of cf]
    by (auto simp: await_loaded_services_def run_of_def split: if_splits load.splits)
  have "roster_ok (sc_services sc1) (sc_runtimes sc1)"
    using await_loaded(1) [OF a assms(2,1)] by (rule in_step_roster_ok)
  then have "distinct (im_keys (sc_runtimes sc1))" by (simp add: roster_ok_def im_wf_def)
  moreover have "sc_runtimes (fold (\<lambda>i. log_event cf wk i kind detail) ks sc) = sc_runtimes sc"
    for kind detail ks sc by (induction ks arbitrary: sc) auto
  moreover have "current_run_id (reconfigured merged i r) = current_run_id r" for merged r
    by (simp add: reconfigured_def runtime_reconfigure_def current_run_id_def split: option.split)
  ultimately have "run_of (apply_reload cf wk merged sc1) i = None" for merged
    using none reconfigure_fold(3) [of "im_keys (sc_runtimes sc1)" cf merged sc1 i]
      im_get_None [of "sc_runtimes sc1" i]
    by (auto simp: run_of_def apply_reload_def Let_def split: if_splits)
  then show ?thesis
    using Some a none by (auto simp: reload_services_def Let_def split: sum.split)
qed (simp add: reload_services_def assms(3))

lemma pending_through_pass:
  assumes "in_step {} sc" and "load_ok ld" and "pending_at n i sc" and "run_of sc i = None"
    and "\<not> sc_shutdown (schedule_pass cf wk ld sc)"
  shows "restart_outcome n i (schedule_pass cf wk ld sc)"
proof -
  define sc' where "sc' = reload_before_auto_restart cf wk ld sc"
  have pass: "schedule_pass cf wk ld sc =
      (if sc_shutdown sc' then sc' else with_context sc' (schedule_ready (pass_of cf wk) (context_of sc')))"
    by (simp add: schedule_pass_def sc'_def Let_def)
  moreover from this have "\<not> sc_shutdown sc'" using assms(5) by (auto split: if_splits)
  moreover have "in_step {} sc'" "pending_at n i sc'" "run_of sc' i = None"
    using in_step_reload [OF assms(1,2), of cf wk] pending_at_reload [OF assms(1-3), of cf wk]
      reload_run_of [OF assms(1,2,4), of cf wk] assms(1,3,4)
    by (simp_all add: sc'_def reload_before_auto_restart_def)
  ultimately show ?thesis using pending_pass by simp
qed


definition reloading :: session_config where
  "reloading = example_config\<lparr> cf_reload := Some ''micromux.yaml'' \<rparr>"

definition reloaded_db :: load where
  "reloaded_db = Load_Finished [(example_wake, ProcessEvent_Healthy ''db'' 1)]
     (Inr [(''db'', example_service ''db'' [])])"

lemma live_runtime_live:
  "is_live live_runtime" "sr_desired live_runtime = DesiredState_Enabled" "sr_retired live_runtime = None"
  by (simp_all add: live_runtime_def started_runtime_def allocate_run_id_def prepare_start_def
      mark_starting_def mark_started_def decrement_failure_budget_def runtime_new_def example_pass_def
      u64_checked_add_def is_live_def example_service_def Let_def)

lemma reloaded_db_ok: "load_ok reloaded_db"
  by (simp add: load_ok_def reloaded_db_def configured_ok_def im_wf_def im_keys_def example_service_def
      example_normal_def service_spec_default_def)

lemma live_session_reload: "\<exists>sc0. reload_services reloading example_wake reloaded_db live_session = (Inr (), sc0)"
proof -
  define sc1 where "sc1 = handle_events reloading [(example_wake, ProcessEvent_Healthy ''db'' 1)] live_session"
  have sel: "sc_services sc1 = [(''db'', example_service ''db'' [])]" "\<not> sc_shutdown live_session"
    by (simp_all add: sc1_def handle_events_def handle_event_def handle_health_event_def live_session_sel
        modify_runtime_def sync_def Let_def split: option.split)
  have "graph": "service_graph_new closure_toposort [(''db'', example_service ''db'' [])] = Inr ()"
    by (simp add: service_graph_new_def im_keys_def closure_toposort_def)
  have step: "in_step {} sc1" unfolding sc1_def by (intro in_step_events live_session_in_step)
  have "retirement sc1 ''db'' = retirement live_session ''db''"
    using retirement_view [OF in_step_roster_ok [OF step]]
      retirement_view [OF in_step_roster_ok [OF live_session_in_step]]
    by (simp add: sc1_def)
  then have "retirement sc1 ''db'' = Some None"
    by (simp add: retirement_def live_session_sel live_runtime_live)
  then have live: "live_configured (sc_runtimes sc1) (''db'', example_service ''db'' [])"
    by (auto simp: retirement_def live_configured_def roster_entry_state_def example_service_def
        is_live_def is_retired_def)
  have "load_services reloading ''micromux.yaml'' (Inr [(''db'', example_service ''db'' [])]) =
      Inr [(''db'', example_service ''db'' [])]"
    using graph by (simp add: load_services_def map_err_def reloading_def)
  moreover have "validate_reloaded_services (sc_services sc1) (sc_runtimes sc1)
      [(''db'', example_service ''db'' [])] = Inr ()"
    using live by (simp add: validate_reloaded_services_def sel is_dynamic_in_def im_keys_def
        im_contains_def example_service_def)
  moreover have "merge_reloaded (sc_services sc1) (sc_runtimes sc1) [(''db'', example_service ''db'' [])] =
      [(''db'', example_service ''db'' [])]"
    using live by (simp add: merge_reloaded_def sel kept_by_reload_def live_configured_def)
  ultimately show ?thesis
    using graph sel(2)
    by (simp add: reload_services_def await_loaded_services_def reloaded_db_def reloading_def
        sc1_def map_err_def Let_def)
qed


end
