(* ===== verification/Std_Str.thy ===== *)
theory Std_Str
  imports Prelude "HOL-Library.List_Lexorder" "HOL-Library.Char_ord"
begin

text \<open>
  The operations of Rust's standard library on strings that the parsers of the sources use. A
  string is its UTF-8 bytes; where an operation looks for an ASCII character it may look at bytes,
  because an ASCII byte is never part of a longer character.
\<close>

section \<open>White space\<close>

text \<open>The UTF-8 encodings of the characters \<^verbatim>\<open>char::is_whitespace\<close> accepts.\<close>

definition bytes :: "nat list \<Rightarrow> string" where
  "bytes ns = map char_of ns"

definition WHITESPACE :: "string list" where
  "WHITESPACE =
     map bytes
       ([[9], [10], [11], [12], [13], [32], [0xC2, 0x85], [0xC2, 0xA0], [0xE1, 0x9A, 0x80]] @
        map (\<lambda>n. [0xE2, 0x80, n])
          [0x80, 0x81, 0x82, 0x83, 0x84, 0x85, 0x86, 0x87, 0x88, 0x89, 0x8A, 0xA8, 0xA9, 0xAF] @
        [[0xE2, 0x81, 0x9F], [0xE3, 0x80, 0x80]])"

text \<open>The first of some non-empty words that begins a text.\<close>

definition leading :: "string list \<Rightarrow> string \<Rightarrow> string option" where
  "leading ws s = List.find (\<lambda>w. w \<noteq> [] \<and> prefix w s) ws"

lemma leading_SomeD: "leading ws s = Some w \<Longrightarrow> w \<noteq> [] \<and> prefix w s"
  unfolding leading_def by (drule find_SomeD) simp

function strip_leading :: "string list \<Rightarrow> string \<Rightarrow> string" where
  "strip_leading ws s =
     (case leading ws s of None \<Rightarrow> s | Some w \<Rightarrow> strip_leading ws (drop (length w) s))"
  by auto
termination
  by (relation "measure (\<lambda>(ws, s). length s)")
     (auto dest!: leading_SomeD elim!: prefixE)

declare strip_leading.simps [simp del]

definition trim_start :: "string \<Rightarrow> string" where
  "trim_start s = strip_leading WHITESPACE s"

definition trim_end :: "string \<Rightarrow> string" where
  "trim_end s = rev (strip_leading (map rev WHITESPACE) (rev s))"

definition trim :: "string \<Rightarrow> string" where
  "trim s = trim_end (trim_start s)"

definition ends_in_whitespace :: "string \<Rightarrow> bool" where
  "ends_in_whitespace s \<longleftrightarrow> leading (map rev WHITESPACE) (rev s) \<noteq> None"

definition strip_prefix :: "string \<Rightarrow> string \<Rightarrow> string option" where
  "strip_prefix p s = (if prefix p s then Some (drop (length p) s) else None)"

definition strip_suffix :: "string \<Rightarrow> string \<Rightarrow> string option" where
  "strip_suffix p s = (if suffix p s then Some (take (length s - length p) s) else None)"

fun split_once :: "char \<Rightarrow> string \<Rightarrow> (string \<times> string) option" where
  "split_once d [] = None"
| "split_once d (c # cs) =
     (if c = d then Some ([], cs)
      else map_option (\<lambda>(a, b). (c # a, b)) (split_once d cs))"

text \<open>\<^verbatim>\<open>str::lines\<close>: a line ends in a line feed, with the carriage return before it if there is one.\<close>

definition LF :: char where
  "LF = CHR 0x0A"

definition CR :: char where
  "CR = CHR 0x0D"

definition TAB :: char where
  "TAB = CHR 0x09"

definition strip_cr :: "string \<Rightarrow> string" where
  "strip_cr s = (if s \<noteq> [] \<and> last s = CR then butlast s else s)"

fun lines_of :: "string \<Rightarrow> string \<Rightarrow> string list" where
  "lines_of line [] = (if line = [] then [] else [line])"
| "lines_of line (c # cs) =
     (if c = LF then strip_cr line # lines_of [] cs else lines_of (line @ [c]) cs)"

abbreviation str_lines :: "string \<Rightarrow> string list" where
  "str_lines \<equiv> lines_of []"

text \<open>\<^verbatim>\<open>String::from_utf8\<close>: whether some bytes are well-formed UTF-8.\<close>

definition between :: "nat \<Rightarrow> nat \<Rightarrow> char \<Rightarrow> bool" where
  "between lo hi c \<longleftrightarrow> lo \<le> of_char c \<and> of_char c \<le> hi"

fun utf8_valid :: "string \<Rightarrow> bool" where
  "utf8_valid [] = True"
| "utf8_valid (a # s) =
     (if between 0 0x7F a then utf8_valid s
      else case s of
        [] \<Rightarrow> False
      | b # s \<Rightarrow>
          if between 0xC2 0xDF a then between 0x80 0xBF b \<and> utf8_valid s
          else case s of
            [] \<Rightarrow> False
          | c # s \<Rightarrow>
              if between 0xE0 0xEF a
              then between (if of_char a = (0xE0 :: nat) then 0xA0 else 0x80)
                     (if of_char a = (0xED :: nat) then 0x9F else 0xBF) b \<and>
                   between 0x80 0xBF c \<and> utf8_valid s
              else case s of
                [] \<Rightarrow> False
              | d # s \<Rightarrow>
                  between 0xF0 0xF4 a \<and>
                  between (if of_char a = (0xF0 :: nat) then 0x90 else 0x80)
                    (if of_char a = (0xF4 :: nat) then 0x8F else 0xBF) b \<and>
                  between 0x80 0xBF c \<and> between 0x80 0xBF d \<and> utf8_valid s)"

text \<open>\<^verbatim>\<open>str::parse\<close> for an unsigned integer of a given maximum.\<close>

datatype int_error = IntError_Empty | IntError_InvalidDigit | IntError_PosOverflow

definition digit :: "char \<Rightarrow> nat option" where
  "digit c = (if between 48 57 c then Some (of_char c - 48) else None)"

fun parse_digits :: "nat \<Rightarrow> nat \<Rightarrow> string \<Rightarrow> int_error + nat" where
  "parse_digits m n [] = Inr n"
| "parse_digits m n (c # cs) =
     (case digit c of
        None \<Rightarrow> Inl IntError_InvalidDigit
      | Some d \<Rightarrow>
          if m < 10 * n + d then Inl IntError_PosOverflow else parse_digits m (10 * n + d) cs)"

definition parse_unsigned :: "nat \<Rightarrow> string \<Rightarrow> int_error + nat" where
  "parse_unsigned m s =
     (case s of
        [] \<Rightarrow> Inl IntError_Empty
      | c # cs \<Rightarrow>
          if c = CHR ''+'' \<and> cs \<noteq> [] then parse_digits m 0 cs else parse_digits m 0 s)"

definition parse_u16 :: "string \<Rightarrow> int_error + u16" where
  "parse_u16 s = map_sum id of_nat (parse_unsigned (2 ^ 16 - 1) s)"

end
