(* ===== verification/Environment.thy ===== *)
theory Environment
  imports Spec Std_Str
begin

text \<open>
  Environment files, variable interpolation (\<^verbatim>\<open>src/crates/micromux/src/env.rs\<close>) and the
  construction of a configured service from its parsed entry (\<^verbatim>\<open>Service::new\<close> of
  \<^verbatim>\<open>src/crates/micromux/src/service.rs\<close>).
\<close>

section \<open>Environment files\<close>

definition MAX_ENV_FILE_BYTES :: usize where
  "MAX_ENV_FILE_BYTES = 4 * 1024 * 1024"

text \<open>The errors of \<^verbatim>\<open>env.rs\<close>; the error of the operating system is its text.\<close>

datatype env_error =
    EnvError_MissingSeparator usize
  | EnvError_EmptyKey usize
  | EnvError_ReadFile string string
  | EnvError_ParseFile string env_error
  | EnvError_FileTooLarge string
  | EnvError_UnsetPathVariables string "string list"

text \<open>An \<^verbatim>\<open>EnvMap\<close> is an insertion-ordered map.\<close>

type_synonym env_map = "(string, string) imap"

definition strip_export_prefix :: "string \<Rightarrow> string" where
  "strip_export_prefix line =
     (let trimmed = trim_start line in
      case strip_prefix ''export'' trimmed of
        None \<Rightarrow> trimmed
      | Some s \<Rightarrow>
          (case leading WHITESPACE s of
             None \<Rightarrow> trimmed
           | Some w \<Rightarrow> trim_start (drop (length w) s)))"

text \<open>
  The scan for the closing quote, after the opening one: what has been seen (with the quote), and
  whether the previous character was an escaping backslash. \<^verbatim>\<open>None\<close>: no closing quote.
\<close>

fun scan_quoted :: "char \<Rightarrow> bool \<Rightarrow> string \<Rightarrow> string option" where
  "scan_quoted quote escaped [] = None"
| "scan_quoted quote escaped (c # cs) =
     (if escaped then map_option ((#) c) (scan_quoted quote False cs)
      else if quote = CHR 0x22 \<and> c = CHR 0x5C then map_option ((#) c) (scan_quoted quote True cs)
      else if c = quote then Some [c]
      else map_option ((#) c) (scan_quoted quote False cs))"

text \<open>The scan of an unquoted value: the first \<^verbatim>\<open>#\<close> after white space starts a comment.\<close>

fun scan_unquoted :: "string \<Rightarrow> string \<Rightarrow> string" where
  "scan_unquoted seen [] = seen"
| "scan_unquoted seen (c # cs) =
     (if c = CHR ''#'' \<and> ends_in_whitespace seen then trim_end seen
      else scan_unquoted (seen @ [c]) cs)"

definition strip_value_inline_comment :: "string \<Rightarrow> string" where
  "strip_value_inline_comment value =
     (let trimmed = trim_start value in
      case trimmed of
        [] \<Rightarrow> scan_unquoted [] trimmed
      | q # cs \<Rightarrow>
          if q = CHR 0x27 \<or> q = CHR 0x22
          then (case scan_quoted q False cs of None \<Rightarrow> trimmed | Some s \<Rightarrow> q # s)
          else scan_unquoted [] trimmed)"

fun unescape_double_quoted_value :: "string \<Rightarrow> string" where
  "unescape_double_quoted_value [] = []"
| "unescape_double_quoted_value (c # cs) =
     (if c \<noteq> CHR 0x5C then c # unescape_double_quoted_value cs
      else
        (case cs of
           [] \<Rightarrow> [CHR 0x5C]
         | d # ds \<Rightarrow>
             if d = CHR ''n'' then LF # unescape_double_quoted_value ds
             else if d = CHR ''r'' then CR # unescape_double_quoted_value ds
             else if d = CHR ''t'' then TAB # unescape_double_quoted_value ds
             else if d = CHR 0x22 then CHR 0x22 # unescape_double_quoted_value ds
             else if d = CHR 0x5C then CHR 0x5C # unescape_double_quoted_value ds
             else CHR 0x5C # d # unescape_double_quoted_value ds))"

text \<open>\<^verbatim>\<open>inner.replace('$', "$$")\<close>.\<close>

definition double_dollars :: "string \<Rightarrow> string" where
  "double_dollars s = concat (map (\<lambda>c. if c = CHR ''$'' then ''$$'' else [c]) s)"

definition enclosed :: "char \<Rightarrow> string \<Rightarrow> string option" where
  "enclosed q s = Option.bind (strip_prefix [q] s) (strip_suffix [q])"

definition parse_value :: "string \<Rightarrow> string" where
  "parse_value raw_value =
     (let value = trim raw_value in
      if length value < 2 then value
      else
        (case enclosed (CHR 0x22) value of
           Some inner \<Rightarrow> unescape_double_quoted_value inner
         | None \<Rightarrow>
             (case enclosed (CHR 0x27) value of
                Some inner \<Rightarrow> double_dollars inner
              | None \<Rightarrow> value)))"

text \<open>One line of a file: nothing to insert, an entry, or an error.\<close>

definition parse_dotenv_line :: "usize \<Rightarrow> string \<Rightarrow> env_error + (string \<times> string) option" where
  "parse_dotenv_line line_no raw_line =
     (let line = trim raw_line in
      if line = [] \<or> hd line = CHR ''#'' then Inr None
      else
        (case split_once (CHR ''='') (strip_export_prefix line) of
           None \<Rightarrow> Inl (EnvError_MissingSeparator line_no)
         | Some (key, raw_value) \<Rightarrow>
             let key = trim key in
             if key = [] then Inl (EnvError_EmptyKey line_no)
             else Inr (Some (key, parse_value (strip_value_inline_comment raw_value)))))"

fun parse_dotenv_lines :: "usize \<Rightarrow> string list \<Rightarrow> env_map \<Rightarrow> env_error + env_map" where
  "parse_dotenv_lines idx [] env = Inr env"
| "parse_dotenv_lines idx (raw_line # ls) env =
     (case parse_dotenv_line (idx + 1) raw_line of
        Inl e \<Rightarrow> Inl e
      | Inr None \<Rightarrow> parse_dotenv_lines (idx + 1) ls env
      | Inr (Some (key, value)) \<Rightarrow> parse_dotenv_lines (idx + 1) ls (im_insert key value env))"

definition parse_dotenv :: "string \<Rightarrow> env_error + env_map" where
  "parse_dotenv contents = parse_dotenv_lines 0 (str_lines contents) []"

section \<open>Interpolation\<close>

definition is_var_start :: "char \<Rightarrow> bool" where
  "is_var_start c \<longleftrightarrow> c = CHR ''_'' \<or> between 65 90 c \<or> between 97 122 c"

definition is_var_continue :: "char \<Rightarrow> bool" where
  "is_var_continue c \<longleftrightarrow> is_var_start c \<or> between 48 57 c"

text \<open>What a reference to a variable adds to the output and to the missing names.\<close>

definition lookup_var :: "(string \<Rightarrow> string option) \<Rightarrow> string \<Rightarrow> string \<times> string list" where
  "lookup_var env key =
     (case env key of Some v \<Rightarrow> (v, []) | None \<Rightarrow> ([], if key = [] then [] else [key]))"

definition emit :: "string \<times> string list \<Rightarrow> string \<times> string list \<Rightarrow> string \<times> string list" where
  "emit a b = (fst a @ fst b, snd a @ snd b)"

text \<open>The output and the missing names of a text, in the order of their references.\<close>

function interpolate :: "(string \<Rightarrow> string option) \<Rightarrow> string \<Rightarrow> string \<times> string list" where
  "interpolate env [] = ([], [])"
| "interpolate env (ch # cs) =
     (if ch \<noteq> CHR ''$'' then emit ([ch], []) (interpolate env cs)
      else
        (case cs of
           [] \<Rightarrow> (''$'', [])
         | nxt # rest \<Rightarrow>
             if nxt = CHR ''$'' then emit (''$'', []) (interpolate env rest)
             else if nxt = CHR ''{'' then
               emit (lookup_var env (takeWhile (\<lambda>c. c \<noteq> CHR ''}'') rest))
                 (interpolate env (drop 1 (dropWhile (\<lambda>c. c \<noteq> CHR ''}'') rest)))
             else if is_var_start nxt then
               emit (lookup_var env (nxt # takeWhile is_var_continue rest))
                 (interpolate env (dropWhile is_var_continue rest))
             else emit (''$'', []) (interpolate env cs)))"
  by pat_completeness auto
termination
  by (relation "measure (\<lambda>(env, s). length s)")
     (auto simp: less_Suc_eq_le intro: le_trans [OF diff_le_self] le_trans [OF length_dropWhile_le]
       le_SucI)

definition interpolate_tracking ::
  "string \<Rightarrow> (string \<Rightarrow> string option) \<Rightarrow> string list \<Rightarrow> string \<times> string list"
where
  "interpolate_tracking input env missing =
     (case interpolate env input of (out, ms) \<Rightarrow> (out, missing @ ms))"

text \<open>Every value is expanded under the values before it.\<close>

fun expand_env_loop ::
  "env_map \<Rightarrow> (string \<Rightarrow> string option) \<Rightarrow> string list \<Rightarrow> env_map \<Rightarrow> env_map \<times> string list"
where
  "expand_env_loop [] current missing out = (out, missing)"
| "expand_env_loop ((k, v) # env) current missing out =
     (case interpolate_tracking v current missing of
        (expanded, missing') \<Rightarrow>
          expand_env_loop env (current(k \<mapsto> expanded)) missing' (im_insert k expanded out))"

definition expand_env_values_tracking ::
  "env_map \<Rightarrow> (string \<Rightarrow> string option) \<Rightarrow> string list \<Rightarrow> env_map \<times> string list"
where
  "expand_env_values_tracking env base missing = expand_env_loop env base missing []"

section \<open>The host\<close>

text \<open>
  The process environment, the home directory as \<^verbatim>\<open>shellexpand::tilde\<close> expands it, and the files:
  whether a path exists and at most so many bytes of what it holds, or the error.
\<close>

record env_host =
  eh_vars :: "string \<Rightarrow> string option"
  eh_tilde :: "string \<Rightarrow> string"
  eh_exists :: "string \<Rightarrow> bool"
  eh_read :: "nat \<Rightarrow> string \<Rightarrow> string + string"

definition load_env_file :: "env_host \<Rightarrow> string \<Rightarrow> env_error + env_map" where
  "load_env_file host path =
     (case eh_read host (MAX_ENV_FILE_BYTES + 1) path of
        Inl e \<Rightarrow> Inl (EnvError_ReadFile path e)
      | Inr content \<Rightarrow>
          if MAX_ENV_FILE_BYTES < length content then Inl (EnvError_FileTooLarge path)
          else if \<not> utf8_valid content then Inl (EnvError_ReadFile path ''invalid utf-8'')
          else map_err (EnvError_ParseFile path) (parse_dotenv content))"

fun load_env_files_loop :: "env_host \<Rightarrow> string list \<Rightarrow> env_map \<Rightarrow> env_error + env_map" where
  "load_env_files_loop host [] env = Inr env"
| "load_env_files_loop host (path # paths) env =
     and_then (load_env_file host path)
       (\<lambda>parsed. load_env_files_loop host paths (im_extend env parsed))"

definition load_env_files_sync :: "env_host \<Rightarrow> string list \<Rightarrow> env_error + env_map" where
  "load_env_files_sync host paths = load_env_files_loop host paths []"

definition resolve_path :: "env_host \<Rightarrow> string \<Rightarrow> string \<Rightarrow> env_error + string" where
  "resolve_path host config_dir raw =
     (case interpolate_tracking (eh_tilde host raw) (eh_vars host) [] of
        (expanded, missing) \<Rightarrow>
          if missing \<noteq> []
          then Inl (EnvError_UnsetPathVariables raw (remdups_adj (sort missing)))
          else if is_absolute expanded then Inr expanded
          else Inr (path_join config_dir expanded))"

section \<open>Configured services\<close>

datatype service_error =
    ServiceError_Environment env_error
  | ServiceError_InvalidPort string int_error
  | ServiceError_WorkingDirectory string

record config_dependency =
  cd_name :: string
  cd_condition :: "dependency_condition option"

record config_env_file =
  ce_path :: string
  ce_optional :: bool

text \<open>The parsed entry of a service (\<^verbatim>\<open>config::Service\<close>, spans dropped).\<close>

record config_service =
  cs_name :: string
  cs_startup_mode :: startup_mode
  cs_command :: "string \<times> string list"
  cs_working_dir :: "string option"
  cs_env_file :: "config_env_file list"
  cs_environment :: "(string, string) imap"
  cs_depends_on :: "config_dependency list"
  cs_healthcheck :: "config_health_check option"
  cs_ports :: "string list"
  cs_restart :: "restart_policy option"
  cs_restart_policy :: restart_policy
  cs_stop_grace_period :: duration
  cs_color :: "bool option"
  cs_log_retention :: log_retention

definition resolve_working_directory ::
  "env_host \<Rightarrow> string \<Rightarrow> string option \<Rightarrow> env_error + string option"
where
  "resolve_working_directory host config_dir configured =
     (case configured of
        None \<Rightarrow> Inr None
      | Some d \<Rightarrow> map_sum id Some (resolve_path host config_dir d))"

fun resolve_env_files ::
  "env_host \<Rightarrow> string \<Rightarrow> config_env_file list \<Rightarrow> env_error + string list"
where
  "resolve_env_files host config_dir [] = Inr []"
| "resolve_env_files host config_dir (f # fs) =
     and_then (resolve_path host config_dir (ce_path f)) (\<lambda>path.
     and_then (resolve_env_files host config_dir fs) (\<lambda>paths.
       Inr (if ce_optional f \<and> \<not> eh_exists host path then paths else path # paths)))"

fun expand_ports ::
  "(string \<Rightarrow> string option) \<Rightarrow> string list \<Rightarrow> string list \<Rightarrow> service_error + u16 list \<times> string list"
where
  "expand_ports env [] missing = Inr ([], missing)"
| "expand_ports env (port # ports) missing =
     (case interpolate_tracking port env missing of
        (expanded, missing) \<Rightarrow>
          and_then (map_err (ServiceError_InvalidPort expanded) (parse_u16 expanded)) (\<lambda>p.
          and_then (expand_ports env ports missing) (\<lambda>(ps, missing).
            Inr (p # ps, missing))))"

text \<open>
  \<^verbatim>\<open>Service::new\<close>: the service, and the unset variables its warning names (none, no warning).
\<close>

definition service_new ::
  "env_host \<Rightarrow> filesystem \<Rightarrow> service_id \<Rightarrow> string \<Rightarrow> config_service \<Rightarrow>
   service_error + service \<times> string list"
where
  "service_new host fs i config_dir cs =
     and_then (map_err ServiceError_Environment
                 (resolve_working_directory host config_dir (cs_working_dir cs))) (\<lambda>working_dir.
     and_then (map_err ServiceError_WorkingDirectory
                 (open_working_directory fs working_dir)) (\<lambda>working_directory.
     and_then (map_err ServiceError_Environment
                 (resolve_env_files host config_dir (cs_env_file cs))) (\<lambda>env_files.
     and_then (map_err ServiceError_Environment
                 (load_env_files_sync host env_files)) (\<lambda>loaded.
       let base_env = eh_vars host;
           (env_file_env, missing) = expand_env_values_tracking loaded base_env [];
           base_with_env_file = fold (\<lambda>(k, v) env. env(k \<mapsto> v)) env_file_env base_env;
           config_env_map = fold (\<lambda>(k, v). im_insert k v) (cs_environment cs) [];
           (config_env_map, missing) =
             expand_env_values_tracking config_env_map base_with_env_file missing;
           full_env = fold (\<lambda>(k, v) env. env(k \<mapsto> v)) config_env_map base_with_env_file
       in and_then (expand_ports full_env (cs_ports cs) missing) (\<lambda>(advertised_ports, missing).
            let environment = fold (\<lambda>(k, v). im_insert k v) env_file_env [];
                environment = fold (\<lambda>(k, v). im_insert k v) config_env_map environment;
                depends_on =
                  map (\<lambda>d. \<lparr> dep_service = cd_name d,
                             dep_condition =
                               (case cd_condition d of
                                  None \<Rightarrow> DependencyCondition_Started | Some c \<Rightarrow> c) \<rparr>)
                    (cs_depends_on cs);
                spec =
                  \<lparr> ss_name = Some (cs_name cs),
                    ss_command = fst (cs_command cs) # snd (cs_command cs),
                    ss_working_dir = working_dir,
                    ss_environment = environment,
                    ss_depends_on = depends_on,
                    ss_healthcheck = map_option healthcheck_spec_from (cs_healthcheck cs),
                    ss_ports = advertised_ports,
                    ss_restart = cs_restart_policy cs,
                    ss_stop_grace_period = cs_stop_grace_period cs \<rparr>
            in Inr
                 (\<lparr> svc_id = i, svc_spec = spec, svc_origin = ServiceOrigin_Configured,
                    svc_startup_mode = cs_startup_mode cs,
                    svc_enable_color = (case cs_color cs of None \<Rightarrow> True | Some b \<Rightarrow> b),
                    svc_log_retention = cs_log_retention cs,
                    svc_working_directory = working_directory \<rparr>,
                  remdups_adj (sort missing)))))))"

end
