(* ===== verification/Environment_Facts.thy ===== *)
theory Environment_Facts
  imports Environment
begin

text \<open>
  What the environment files, interpolation and the construction of configured services guarantee:
  any environment can be written to a file and read back, a rejected file names its first faulty
  line, and a service sees its files and its own entries over the process environment.
\<close>

section \<open>Trimming\<close>

text \<open>Printable ASCII characters are not white space.\<close>

definition printable :: "char \<Rightarrow> bool" where
  "printable c \<longleftrightarrow> between 33 126 c"

lemma leading_None: "(\<And>w. w \<in> set ws \<Longrightarrow> w \<noteq> [] \<Longrightarrow> hd w \<noteq> c) \<Longrightarrow> leading ws (c # cs) = None"
  unfolding leading_def find_None_iff by (metis Cons_prefix_Cons list.exhaust list.sel(1))

lemma leading_WHITESPACE [simp]: "printable c \<Longrightarrow> leading WHITESPACE (c # cs) = None"
  by (rule leading_None) (auto simp: WHITESPACE_def bytes_def printable_def between_def)

lemma leading_WHITESPACE_rev [simp]:
  "printable c \<Longrightarrow> leading (map rev WHITESPACE) (c # cs) = None"
  by (rule leading_None) (auto simp: WHITESPACE_def bytes_def printable_def between_def)

lemma trim_start_printable [simp]: "printable c \<Longrightarrow> trim_start (c # cs) = c # cs"
  unfolding trim_start_def by (subst strip_leading.simps) simp

lemma trim_end_printable [simp]: "printable c \<Longrightarrow> trim_end (cs @ [c]) = cs @ [c]"
  unfolding trim_end_def by (subst strip_leading.simps) simp

lemma trim_printable:
  assumes "s \<noteq> []" "printable (hd s)" "printable (last s)"
  shows "trim s = s"
proof -
  have "trim_start s = s" using assms by (cases s) auto
  moreover have "trim_end s = s" using assms trim_end_printable [of "last s" "butlast s"] by simp
  ultimately show ?thesis by (simp add: trim_def)
qed

lemma var_printable: "is_var_continue c \<Longrightarrow> printable c"
  by (auto simp: is_var_continue_def is_var_start_def printable_def between_def)

lemma split_once_takeWhile:
  "split_once d s =
     (if d \<in> set s then Some (takeWhile (\<lambda>c. c \<noteq> d) s, drop 1 (dropWhile (\<lambda>c. c \<noteq> d) s)) else None)"
  by (induction s) auto

lemma split_once_at: "d \<notin> set k \<Longrightarrow> split_once d (k @ d # s) = Some (k, s)"
  by (induction k) auto

section \<open>Writing an environment file\<close>

datatype quoting = Quoting_Single | Quoting_Double

definition escape_char :: "char \<Rightarrow> string" where
  "escape_char c =
     (if c = CHR 0x5C then [CHR 0x5C, CHR 0x5C]
      else if c = CHR 0x22 then [CHR 0x5C, CHR 0x22]
      else if c = LF then [CHR 0x5C, CHR ''n'']
      else if c = CR then [CHR 0x5C, CHR ''r'']
      else if c = TAB then [CHR 0x5C, CHR ''t'']
      else if c = CHR ''$'' then ''$$''
      else [c])"

definition escape_double :: "string \<Rightarrow> string" where
  "escape_double v = concat (map escape_char v)"

fun quote_value :: "quoting \<Rightarrow> string \<Rightarrow> string" where
  "quote_value Quoting_Single v = [CHR 0x27] @ v @ [CHR 0x27]"
| "quote_value Quoting_Double v = [CHR 0x22] @ escape_double v @ [CHR 0x22]"

text \<open>Single quotes cannot hold themselves nor a line break; double quotes hold everything.\<close>

fun quotable :: "quoting \<Rightarrow> string \<Rightarrow> bool" where
  "quotable Quoting_Single v \<longleftrightarrow> CHR 0x27 \<notin> set v \<and> LF \<notin> set v"
| "quotable Quoting_Double v \<longleftrightarrow> True"

definition var_name :: "string \<Rightarrow> bool" where
  "var_name k \<longleftrightarrow> k \<noteq> [] \<and> list_all is_var_continue k"

definition quoted_line :: "string \<times> quoting \<times> string \<Rightarrow> string" where
  "quoted_line = (\<lambda>(k, q, v). k @ ''='' @ quote_value q v)"

definition quotable_entry :: "string \<times> quoting \<times> string \<Rightarrow> bool" where
  "quotable_entry = (\<lambda>(k, q, v). var_name k \<and> quotable q v)"

definition render_env :: "(string \<times> quoting \<times> string) list \<Rightarrow> string" where
  "render_env es = concat (map (\<lambda>e. quoted_line e @ [LF]) es)"

lemma lines_of_line: "LF \<notin> set l \<Longrightarrow> lines_of seen (l @ LF # s) = strip_cr (seen @ l) # lines_of [] s"
  by (induction l arbitrary: seen) auto

lemma LF_neq [simp]: "CHR 0x27 \<noteq> LF" "CHR 0x22 \<noteq> LF" "CHR 0x5C \<noteq> LF" "CHR ''n'' \<noteq> LF"
    "CHR ''r'' \<noteq> LF" "CHR ''t'' \<noteq> LF" "CHR ''$'' \<noteq> LF" "CHR ''='' \<noteq> LF"
  by (simp_all add: LF_def)

lemma LF_escape [simp]: "LF \<notin> set (escape_double v)"
proof -
  have "LF \<notin> set (escape_char c)" for c
    by (cases "c = LF") (simp_all add: escape_char_def LF_neq [symmetric])
  then show ?thesis by (simp add: escape_double_def)
qed

lemma var_name_free:
  assumes "var_name k"
  shows "LF \<notin> set k" and "CHR ''='' \<notin> set k"
proof -
  have "\<not> is_var_continue LF" "\<not> is_var_continue (CHR ''='')"
    by (simp_all add: LF_def is_var_continue_def is_var_start_def between_def)
  then show "LF \<notin> set k" "CHR ''='' \<notin> set k"
    using assms by (auto simp: var_name_def list_all_iff)
qed

lemma quoted_line_shape:
  assumes "quotable_entry e"
  shows "LF \<notin> set (quoted_line e)" and "quoted_line e \<noteq> []" and "printable (hd (quoted_line e))"
    and "printable (last (quoted_line e))" and "hd (quoted_line e) \<noteq> CHR ''#''"
    and "last (quoted_line e) \<noteq> CR"
proof -
  obtain k q v where e: "e = (k, q, v)" by (cases e)
  have k: "var_name k" "quotable q v" using assms by (auto simp: e quotable_entry_def)
  then have "is_var_continue (hd k)" "k \<noteq> []" by (auto simp: var_name_def list_all_iff)
  then show "printable (hd (quoted_line e))" "quoted_line e \<noteq> []" "hd (quoted_line e) \<noteq> CHR ''#''"
    by (auto simp: e quoted_line_def var_printable is_var_continue_def is_var_start_def between_def)
  show "LF \<notin> set (quoted_line e)"
    using k var_name_free(1) [OF k(1)] by (cases q) (auto simp: e quoted_line_def dest: LF_neq [symmetric, THEN notE])
  show "printable (last (quoted_line e))" "last (quoted_line e) \<noteq> CR"
    by (cases q; simp add: e quoted_line_def printable_def between_def CR_def)+
qed

lemma lines_render: "list_all quotable_entry es \<Longrightarrow> str_lines (render_env es) = map quoted_line es"
  by (induction es)
     (auto simp: render_env_def lines_of_line quoted_line_shape strip_cr_def)

lemma scan_single:
  "CHR 0x27 \<notin> set v \<Longrightarrow> scan_quoted (CHR 0x27) False (v @ [CHR 0x27]) = Some (v @ [CHR 0x27])"
  by (induction v) auto

lemma scan_double:
  "scan_quoted (CHR 0x22) False (escape_double v @ [CHR 0x22]) = Some (escape_double v @ [CHR 0x22])"
  by (induction v) (auto simp: escape_double_def escape_char_def LF_def CR_def TAB_def)

lemma unescape_escape: "unescape_double_quoted_value (escape_double v) = double_dollars v"
  by (induction v) (auto simp: escape_double_def escape_char_def LF_def CR_def TAB_def double_dollars_def)

lemma enclosed_same: "enclosed q ([q] @ v @ [q]) = Some v"
  by (simp add: enclosed_def strip_prefix_def strip_suffix_def suffix_def)

lemma enclosed_other: "q \<noteq> r \<Longrightarrow> enclosed q (r # s) = None"
  by (simp add: enclosed_def strip_prefix_def)

lemma parse_quoted:
  assumes "quotable q v"
  shows "parse_value (strip_value_inline_comment (quote_value q v)) = double_dollars v"
proof -
  have t: "trim (quote_value q v) = quote_value q v"
    by (rule trim_printable; cases q; simp add: printable_def between_def)
  have "strip_value_inline_comment (quote_value q v) = quote_value q v"
    using assms
    by (cases q) (simp_all add: strip_value_inline_comment_def scan_single scan_double
        printable_def between_def)
  then show ?thesis
    using t enclosed_same [of "CHR 0x22"] enclosed_same [of "CHR 0x27"]
    by (cases q) (simp_all add: parse_value_def enclosed_other unescape_escape)
qed

lemma strip_export_entry:
  assumes "var_name k"
  shows "strip_export_prefix (k @ CHR ''='' # s) = k @ CHR ''='' # s"
proof -
  let ?l = "k @ CHR ''='' # s"
  have pr: "printable c" if "c \<in> set k" for c
    using assms that by (simp add: var_name_def list_all_iff var_printable)
  have t: "trim_start ?l = ?l" using assms pr by (cases k) (auto simp: var_name_def)
  have "leading WHITESPACE (drop 6 ?l) = None" if p: "prefix ''export'' ?l"
  proof (cases "length k < 6")
    case True
    obtain zs where "?l = ''export'' @ zs" using p by (auto elim: prefixE)
    then have "(k @ CHR ''='' # s) ! length k = (''export'' @ zs) ! length k" by simp
    then have "''export'' ! length k = CHR ''=''" using True by (simp only: nth_append) simp
    then have "CHR ''='' \<in> set ''export''"
      using True nth_mem [of "length k" "''export''"] by simp
    then show ?thesis by simp
  next
    case False
    show ?thesis
    proof (cases "drop 6 k")
      case Nil
      then show ?thesis using False by (simp add: printable_def between_def)
    next
      case (Cons c cs)
      then have "c \<in> set k" by (metis in_set_dropD list.set_intros(1))
      then show ?thesis using Cons pr False by simp
    qed
  qed
  then show ?thesis
    by (auto simp: strip_export_prefix_def t strip_prefix_def Let_def eval_nat_numeral simp del: drop_append)
qed

lemma parse_entry_line:
  assumes "quotable_entry (k, q, v)"
  shows "parse_dotenv_line n (quoted_line (k, q, v)) = Inr (Some (k, double_dollars v))"
proof -
  let ?l = "quoted_line (k, q, v)"
  have k: "var_name k" "quotable q v" using assms by (auto simp: quotable_entry_def)
  have "trim ?l = ?l" by (rule trim_printable [OF quoted_line_shape(2-4) [OF assms]])
  moreover have "strip_export_prefix ?l = ?l"
    using strip_export_entry [OF k(1), of "quote_value q v"] by (simp add: quoted_line_def)
  moreover have "split_once (CHR ''='') ?l = Some (k, quote_value q v)"
    using split_once_at [OF var_name_free(2) [OF k(1)]] by (simp add: quoted_line_def)
  moreover have "trim k = k"
    by (rule trim_printable) (use k(1) in \<open>auto simp: var_name_def list_all_iff var_printable\<close>)
  moreover have "k \<noteq> []" using k(1) by (simp add: var_name_def)
  ultimately show ?thesis
    using quoted_line_shape [OF assms] parse_quoted [OF k(2)]
    by (simp add: parse_dotenv_line_def)
qed

lemma parse_entries:
  "list_all quotable_entry es \<Longrightarrow>
   parse_dotenv_lines n (map quoted_line es) env =
     Inr (im_extend env (map (\<lambda>(k, q, v). (k, double_dollars v)) es))"
  by (induction es arbitrary: n env) (auto simp: parse_entry_line)

lemma im_keys_append [simp]: "im_keys (m @ m') = im_keys m @ im_keys m'"
  by (simp add: im_keys_def)

lemma im_extend_fresh: "distinct (im_keys m @ im_keys other) \<Longrightarrow> im_extend m other = m @ other"
  by (induction other arbitrary: m) (auto simp: im_insert_fresh)

lemma interpolate_doubled: "interpolate env (double_dollars v) = (v, [])"
  by (induction v) (auto simp: double_dollars_def emit_def)

lemma expand_doubled:
  "distinct (im_keys out @ map fst es) \<Longrightarrow>
   expand_env_loop (map (\<lambda>(k, v). (k, double_dollars v)) es) current missing out = (out @ es, missing)"
  by (induction es arbitrary: current out)
     (auto simp: interpolate_tracking_def interpolate_doubled im_insert_fresh)

section \<open>Properties\<close>

text \<open>
  C16. Round trip. Every environment with variable names as keys can be written to an environment
  file, each value in single quotes (when it holds neither a single quote nor a line break) or in
  double quotes: the file parses, and its expansion under any process environment gives back
  exactly the values, dollars, quotes, backslashes and line breaks included, with no variable
  reported missing.
\<close>

theorem dotenv_roundtrip:
  assumes "list_all quotable_entry es" and "distinct (map fst es)"
  shows "\<exists>env. parse_dotenv (render_env es) = Inr env \<and>
    expand_env_values_tracking env base missing = (map (\<lambda>(k, q, v). (k, v)) es, missing)"
proof -
  let ?kv = "map (\<lambda>(k, q, v). (k, v)) es"
  let ?env = "map (\<lambda>(k, q, v). (k, double_dollars v)) es"
  have keys: "map fst ?kv = map fst es" "im_keys ?env = map fst es"
    by (induction es) (auto simp: im_keys_def)
  have "parse_dotenv (render_env es) = Inr ?env"
    using parse_entries [OF assms(1), of 0 "[]"] assms keys(2)
    by (simp add: parse_dotenv_def lines_render im_extend_fresh)
  moreover have "?env = map (\<lambda>(k, v). (k, double_dollars v)) ?kv"
    by (induction es) auto
  ultimately show ?thesis
    using expand_doubled [of "[]" ?kv base missing] assms(2) keys(1)
    by (simp add: expand_env_values_tracking_def del: map_map)
qed

definition sample_entries :: "(string \<times> quoting \<times> string) list" where
  "sample_entries =
     [(''PASS'', Quoting_Single, ''s3cr$t! #1''), (''TEXT'', Quoting_Double, [CHR 0x22, LF, CHR 0x5C, CHR ''$''])]"

theorem dotenv_roundtrip_witness:
  "\<exists>env. parse_dotenv (render_env sample_entries) = Inr env \<and>
     expand_env_values_tracking env Map.empty [] =
       ([(''PASS'', ''s3cr$t! #1''), (''TEXT'', [CHR 0x22, LF, CHR 0x5C, CHR ''$''])], [])"
  using dotenv_roundtrip [of sample_entries Map.empty "[]"]
  by (simp add: sample_entries_def quotable_entry_def var_name_def is_var_continue_def is_var_start_def
      between_def LF_def)

text \<open>What a line means: a comment or blank line, an entry, or one of two faults.\<close>

definition blank_line :: "string \<Rightarrow> bool" where
  "blank_line l \<longleftrightarrow> trim l = [] \<or> hd (trim l) = CHR ''#''"

definition line_key :: "string \<Rightarrow> string" where
  "line_key l = trim (takeWhile (\<lambda>c. c \<noteq> CHR ''='') (strip_export_prefix (trim l)))"

definition line_value :: "string \<Rightarrow> string" where
  "line_value l =
     parse_value (strip_value_inline_comment
       (drop 1 (dropWhile (\<lambda>c. c \<noteq> CHR ''='') (strip_export_prefix (trim l)))))"

fun first_fault :: "usize \<Rightarrow> string list \<Rightarrow> env_error option" where
  "first_fault n [] = None"
| "first_fault n (l # ls) =
     (if blank_line l then first_fault (n + 1) ls
      else if CHR ''='' \<notin> set (strip_export_prefix (trim l)) then Some (EnvError_MissingSeparator n)
      else if line_key l = [] then Some (EnvError_EmptyKey n)
      else first_fault (n + 1) ls)"

definition file_entries :: "string list \<Rightarrow> (string \<times> string) list" where
  "file_entries ls = map (\<lambda>l. (line_key l, line_value l)) (filter (\<lambda>l. \<not> blank_line l) ls)"

lemma parse_line_meaning:
  "parse_dotenv_line n l =
     (if blank_line l then Inr None
      else if CHR ''='' \<notin> set (strip_export_prefix (trim l)) then Inl (EnvError_MissingSeparator n)
      else if line_key l = [] then Inl (EnvError_EmptyKey n)
      else Inr (Some (line_key l, line_value l)))"
  by (simp add: parse_dotenv_line_def blank_line_def line_key_def line_value_def
      split_once_takeWhile Let_def)

lemma parse_lines_meaning:
  "parse_dotenv_lines n ls env =
     (case first_fault (n + 1) ls of
        Some e \<Rightarrow> Inl e | None \<Rightarrow> Inr (im_extend env (file_entries ls)))"
  by (induction ls arbitrary: n env)
     (auto simp: parse_line_meaning file_entries_def im_extend_def split: option.split)

text \<open>
  Environment files. A file is rejected exactly when it has a faulty line, with the error and
  the number of the first one; otherwise every entry is read, and the last assignment of a key wins.
\<close>

theorem dotenv_meaning:
  "case parse_dotenv contents of
     Inl e \<Rightarrow> first_fault 1 (str_lines contents) = Some e
   | Inr env \<Rightarrow>
       first_fault 1 (str_lines contents) = None \<and> im_wf env \<and>
       im_get env = map_of (rev (file_entries (str_lines contents)))"
proof -
  have "im_get (im_extend m es) = im_get m ++ map_of (rev es)" for m es :: env_map
    by (induction es arbitrary: m) (auto simp: im_get_insert)
  then show ?thesis
    by (auto simp: parse_dotenv_def parse_lines_meaning split: option.split)
qed

text \<open>A template: literal text, and references to variables in braces.\<close>

datatype piece = Piece_Text string | Piece_Ref string

fun piece_ok :: "piece \<Rightarrow> bool" where
  "piece_ok (Piece_Text t) \<longleftrightarrow> True"
| "piece_ok (Piece_Ref k) \<longleftrightarrow> k \<noteq> [] \<and> CHR ''}'' \<notin> set k"

fun piece_source :: "piece \<Rightarrow> string" where
  "piece_source (Piece_Text t) = double_dollars t"
| "piece_source (Piece_Ref k) = ''${'' @ k @ ''}''"

fun piece_value :: "(string \<Rightarrow> string option) \<Rightarrow> piece \<Rightarrow> string" where
  "piece_value env (Piece_Text t) = t"
| "piece_value env (Piece_Ref k) = (case env k of Some v \<Rightarrow> v | None \<Rightarrow> [])"

fun unset_refs :: "(string \<Rightarrow> string option) \<Rightarrow> piece list \<Rightarrow> string list" where
  "unset_refs env [] = []"
| "unset_refs env (Piece_Text t # ps) = unset_refs env ps"
| "unset_refs env (Piece_Ref k # ps) = (if env k = None then [k] else []) @ unset_refs env ps"

lemma interpolate_text: "interpolate env (double_dollars t @ s) = emit (t, []) (interpolate env s)"
  by (induction t) (auto simp: double_dollars_def emit_def)

lemma interpolate_ref:
  assumes "CHR ''}'' \<notin> set k"
  shows "interpolate env (CHR ''$'' # CHR ''{'' # k @ CHR ''}'' # s) = emit (lookup_var env k) (interpolate env s)"
proof -
  have "takeWhile (\<lambda>c. c \<noteq> CHR ''}'') (k @ CHR ''}'' # s) = k"
    "dropWhile (\<lambda>c. c \<noteq> CHR ''}'') (k @ CHR ''}'' # s) = CHR ''}'' # s"
    using assms by (induction k) auto
  then show ?thesis by simp
qed

text \<open>
  Interpolation. A template with references in braces and doubled dollars expands, in one pass,
  to its text with the value of every reference, however many dollars the values hold; the unset
  references, and only those, are reported, in their order.
\<close>

theorem interpolate_template:
  assumes "list_all piece_ok ps"
  shows "interpolate env (concat (map piece_source ps)) =
    (concat (map (piece_value env) ps), unset_refs env ps)"
  using assms
proof (induction ps)
  case (Cons p ps)
  then show ?case
    by (cases p)
       (simp_all add: interpolate_text interpolate_ref lookup_var_def emit_def split: option.split
         del: interpolate.simps)
qed simp

theorem interpolate_template_witness:
  "interpolate [''A'' \<mapsto> ''$B''] ''${A}-$$B-${MISSING}'' = (''$B-$B-'', [''MISSING''])"
  using interpolate_template
    [of "[Piece_Ref ''A'', Piece_Text ''-$B-'', Piece_Ref ''MISSING'']" "[''A'' \<mapsto> ''$B'']"]
  by (simp add: double_dollars_def del: interpolate.simps)

section \<open>The environment of a configured service\<close>

lemma insert_fold_append: "im_wf m \<Longrightarrow> fold (\<lambda>(k, v). im_insert k v) m [] = m"
  using im_extend_fresh [of "[]" m] by (simp add: im_extend_def im_wf_def)

lemma update_fold: "im_wf m \<Longrightarrow> fold (\<lambda>(k, v) env. env(k \<mapsto> v)) m base = base ++ im_get m"
proof (induction m arbitrary: base)
  case (Cons p m)
  obtain k v where p: "p = (k, v)" by fastforce
  then have "im_get m k = None" "im_wf m" using Cons.prems by (simp_all add: im_wf_Cons im_get_None)
  then show ?case using Cons.IH p by (auto simp: map_add_def fun_eq_iff split: option.split)
qed simp

text \<open>What every expanded entry is: its text under the base and the entries before it.\<close>

definition expanded_under :: "(string \<Rightarrow> string option) \<Rightarrow> env_map \<Rightarrow> env_map \<Rightarrow> bool" where
  "expanded_under base env out \<longleftrightarrow>
     im_keys out = im_keys env \<and>
     (\<forall>j < length env.
        snd (out ! j) = fst (interpolate (base ++ im_get (take j out)) (snd (env ! j))))"

lemma expand_loop:
  assumes "distinct (im_keys out @ im_keys env)"
    and "expand_env_loop env (base ++ im_get out) missing out = (res, ms)"
  shows "\<exists>tail. res = out @ tail \<and> im_keys tail = im_keys env \<and>
    (\<forall>j < length env.
       snd (tail ! j) = fst (interpolate (base ++ im_get (out @ take j tail)) (snd (env ! j))))"
  using assms
proof (induction env arbitrary: out missing)
  case (Cons p env)
  obtain k v where p: "p = (k, v)" by fastforce
  let ?i = "interpolate (base ++ im_get out) v" and ?m = "base ++ im_get out"
  let ?out = "out @ [(k, fst ?i)]"
  have k: "k \<notin> set (im_keys out)" "distinct (im_keys ?out @ im_keys env)"
    using Cons.prems(1) p by auto
  have "(base ++ im_get out)(k \<mapsto> fst ?i) = base ++ im_get ?out"
    using k(1) by (auto simp: map_add_def fun_eq_iff im_get_None [symmetric] split: option.split)
  then have "expand_env_loop env (base ++ im_get ?out) (missing @ snd ?i) ?out = (res, ms)"
    using Cons.prems(2) k(1)
    by (simp add: p interpolate_tracking_def im_insert_fresh case_prod_unfold)
  from Cons.IH [OF k(2) this] obtain tail where t: "res = ?out @ tail" "im_keys tail = im_keys env"
    "\<And>j. j < length env \<Longrightarrow> snd (tail ! j) =
       fst (interpolate (base ++ im_get (?out @ take j tail)) (snd (env ! j)))"
    by blast
  show ?case
    by (rule exI [of _ "(k, fst ?i) # tail"])
       (use t p in \<open>auto simp: nth_Cons split: nat.split\<close>)
qed auto

lemma expand_env_values:
  assumes "im_wf env" and "expand_env_values_tracking env base missing = (out, ms)"
  shows "expanded_under base env out"
  using expand_loop [of "[]" env base missing out ms] assms
  by (auto simp: expand_env_values_tracking_def expanded_under_def im_wf_def)

lemma load_wf: "im_wf env \<Longrightarrow> load_env_files_loop host paths env = Inr loaded \<Longrightarrow> im_wf loaded"
proof (induction paths arbitrary: env)
  case (Cons p paths)
  then obtain v where "load_env_files_loop host paths (im_extend env v) = Inr loaded"
    by (auto simp: and_then_Inr)
  then show ?case using Cons.IH [of "im_extend env v"] Cons.prems(1) by simp
qed simp

lemma expand_ports_Inr:
  "expand_ports env ports missing = Inr (ps, ms) \<Longrightarrow>
   map (\<lambda>p. parse_u16 (fst (interpolate env p))) ports = map Inr ps"
  by (induction ports arbitrary: missing ps)
     (auto simp: interpolate_tracking_def and_then_Inr map_err_Inr split: prod.splits)

text \<open>
  C17. The environment of a configured service. Its files are read in their order, each value
  expanded under the process environment and the values before it; then its own entries, which see
  the files as well. The service gets exactly these variables, its own entries winning over the
  files, and no other variable of the process; its ports are the numbers their texts expand to under
  everything.
\<close>

theorem service_new_environment:
  assumes "service_new host fs i dir cs = Inr (s, missing)" and "im_wf (cs_environment cs)"
  shows "\<exists>paths loaded files own.
    resolve_env_files host dir (cs_env_file cs) = Inr paths \<and>
    load_env_files_sync host paths = Inr loaded \<and>
    expanded_under (eh_vars host) loaded files \<and>
    expanded_under (eh_vars host ++ im_get files) (cs_environment cs) own \<and>
    im_get (ss_environment (svc_spec s)) = im_get files ++ im_get own \<and>
    map (\<lambda>p. parse_u16 (fst (interpolate (eh_vars host ++ im_get files ++ im_get own) p)))
      (cs_ports cs) = map Inr (ss_ports (svc_spec s))"
proof -
  obtain paths loaded where l: "resolve_env_files host dir (cs_env_file cs) = Inr paths"
    "load_env_files_sync host paths = Inr loaded"
    using assms(1) unfolding service_new_def by (auto simp: result_simps)
  obtain files ms where f: "expand_env_values_tracking loaded (eh_vars host) [] = (files, ms)"
    by fastforce
  have wl: "im_wf loaded" using l(2) load_wf [of "[]"] by (simp add: load_env_files_sync_def)
  note ef = expand_env_values [OF wl f]
  have wf: "im_wf files" using ef wl by (simp add: expanded_under_def im_wf_def)
  let ?base = "eh_vars host ++ im_get files"
  obtain own ms' where o: "expand_env_values_tracking (cs_environment cs) ?base ms = (own, ms')"
    by fastforce
  note eo = expand_env_values [OF assms(2) o]
  have wo: "im_wf own" using eo assms(2) by (simp add: expanded_under_def im_wf_def)
  obtain ps ms'' where p: "expand_ports (?base ++ im_get own) (cs_ports cs) ms' = Inr (ps, ms'')"
    and s: "ss_environment (svc_spec s) = im_extend files own" "ss_ports (svc_spec s) = ps"
    using assms(1) l f o wf wo unfolding service_new_def
    by (auto simp: result_simps Let_def insert_fold_append update_fold assms(2) im_extend_def)
  show ?thesis
    using l ef eo s wo expand_ports_Inr [OF p] by (auto simp: im_get_extend)
qed

definition sample_host :: env_host where
  "sample_host =
     \<lparr> eh_vars = [''HOME'' \<mapsto> ''/root''], eh_tilde = (\<lambda>p. p), eh_exists = (\<lambda>p. True),
       eh_read = (\<lambda>n p. Inr (take n (''BASE='' @ [CHR 0x27] @ ''10'' @ [CHR 0x27, LF]))) \<rparr>"

definition sample_fs :: filesystem where
  "sample_fs =
     \<lparr> fs_open = (\<lambda>p. Inr 3), fs_is_dir = (\<lambda>fd. Inr True), fs_fd_path = (\<lambda>fd. ''/srv''),
       fs_canonicalize = (\<lambda>p. Inr p) \<rparr>"

definition sample_entry :: config_service where
  "sample_entry =
     \<lparr> cs_name = ''web'', cs_startup_mode = StartupMode_Enabled, cs_command = (''serve'', []),
       cs_working_dir = None, cs_env_file = [\<lparr> ce_path = ''.env'', ce_optional = False \<rparr>],
       cs_environment = [(''PORT'', ''${BASE}23''), (''DATA'', ''$HOME/d'')], cs_depends_on = [],
       cs_healthcheck = None, cs_ports = [''$PORT''], cs_restart = None,
       cs_restart_policy = RestartPolicy_Never, cs_stop_grace_period = 1, cs_color = None,
       cs_log_retention = default_log_retention \<rparr>"

definition sample_service :: service where
  "sample_service =
     \<lparr> svc_id = ''web'',
       svc_spec =
         \<lparr> ss_name = Some ''web'', ss_command = [''serve''], ss_working_dir = None,
           ss_environment = [(''BASE'', ''10''), (''PORT'', ''1023''), (''DATA'', ''/root/d'')],
           ss_depends_on = [], ss_healthcheck = None, ss_ports = [1023],
           ss_restart = RestartPolicy_Never, ss_stop_grace_period = 1 \<rparr>,
       svc_origin = ServiceOrigin_Configured, svc_startup_mode = StartupMode_Enabled,
       svc_enable_color = True, svc_log_retention = default_log_retention,
       svc_working_directory = None \<rparr>"

lemma load_env_fileI:
  "eh_read host (MAX_ENV_FILE_BYTES + 1) p = Inr c \<Longrightarrow> length c \<le> MAX_ENV_FILE_BYTES \<Longrightarrow>
   utf8_valid c \<Longrightarrow> parse_dotenv c = Inr env \<Longrightarrow> load_env_file host p = Inr env"
  by (simp add: load_env_file_def map_err_def)

lemma sample_load: "load_env_file sample_host p = Inr [(''BASE'', ''10'')]"
proof -
  let ?c = "''BASE='' @ [CHR 0x27] @ ''10'' @ [CHR 0x27, LF]"
  let ?es = "[(''BASE'', Quoting_Single, ''10'')]"
  have c: "?c = render_env ?es" by (simp add: render_env_def quoted_line_def)
  have ok: "list_all quotable_entry ?es"
    by (simp add: quotable_entry_def var_name_def is_var_continue_def is_var_start_def between_def LF_def)
  have "parse_dotenv ?c = Inr [(''BASE'', ''10'')]"
    using parse_entries [OF ok, of 0 "[]"]
    unfolding c parse_dotenv_def lines_render [OF ok] by (simp add: double_dollars_def)
  moreover have "utf8_valid ?c" by (simp add: between_def LF_def)
  moreover have "eh_read sample_host (MAX_ENV_FILE_BYTES + 1) p = Inr ?c"
    by (simp add: sample_host_def MAX_ENV_FILE_BYTES_def)
  moreover have "length ?c \<le> MAX_ENV_FILE_BYTES"
    by (simp add: MAX_ENV_FILE_BYTES_def)
  ultimately show ?thesis by (intro load_env_fileI)
qed

lemma sample_path: "resolve_path sample_host ''/srv'' ''.env'' = Inr ''/srv/.env''"
  by (simp add: resolve_path_def sample_host_def interpolate_tracking_def emit_def is_absolute_def
      path_join_def)

lemma sample_vars: "eh_vars sample_host = [''HOME'' \<mapsto> ''/root'']" "eh_exists sample_host p"
  by (simp_all add: sample_host_def)

lemma sample_files: "resolve_env_files sample_host ''/srv'' (cs_env_file sample_entry) = Inr [''/srv/.env'']"
  by (simp add: sample_entry_def sample_path sample_vars)

lemma sample_loaded: "load_env_files_sync sample_host [''/srv/.env''] = Inr [(''BASE'', ''10'')]"
  by (simp add: load_env_files_sync_def sample_load)

lemma sample_file_env:
  "expand_env_values_tracking [(''BASE'', ''10'')] base [] = ([(''BASE'', ''10'')], [])"
  by (simp add: expand_env_values_tracking_def interpolate_tracking_def emit_def)

lemma sample_own_env:
  "expand_env_values_tracking [(''PORT'', ''${BASE}23''), (''DATA'', ''$HOME/d'')]
     [''HOME'' \<mapsto> ''/root'', ''BASE'' \<mapsto> ''10''] [] =
   ([(''PORT'', ''1023''), (''DATA'', ''/root/d'')], [])"
  by (simp add: expand_env_values_tracking_def interpolate_tracking_def emit_def lookup_var_def
      is_var_start_def is_var_continue_def between_def)

lemma sample_ports:
  "env ''PORT'' = Some ''1023'' \<Longrightarrow> expand_ports env [''$PORT''] [] = Inr ([1023], [])"
  by (simp add: interpolate_tracking_def emit_def lookup_var_def is_var_start_def
      is_var_continue_def between_def parse_u16_def parse_unsigned_def digit_def map_err_def)

lemma service_new_sample:
  "service_new sample_host sample_fs ''web'' ''/srv'' sample_entry = Inr (sample_service, [])"
  unfolding service_new_def sample_files
  by (simp add: sample_entry_def resolve_working_directory_def open_working_directory_def
      sample_loaded sample_file_env sample_own_env sample_ports sample_vars sample_service_def
      map_err_def del: expand_ports.simps)

theorem service_new_environment_witness:
  "\<exists>files own.
     expanded_under [''HOME'' \<mapsto> ''/root''] [(''BASE'', ''10'')] files \<and>
     expanded_under ([''HOME'' \<mapsto> ''/root''] ++ im_get files) (cs_environment sample_entry) own \<and>
     im_get [(''BASE'', ''10''), (''PORT'', ''1023''), (''DATA'', ''/root/d'')] = im_get files ++ im_get own"
proof -
  have "im_wf (cs_environment sample_entry)" by (simp add: sample_entry_def im_wf_def)
  from service_new_environment [OF service_new_sample this] show ?thesis
    by (auto simp: sample_files sample_loaded sample_vars sample_service_def)
qed

end
