(* ===== verification/Run_Log.thy ===== *)
theory Run_Log
  imports Disk_Log Log_Buffer Std_Str
begin

text \<open>
  The worker that writes the logs of runs to disk (\<^verbatim>\<open>run_disk_log_worker\<close> of
  \<^verbatim>\<open>src/crates/micromux/src/model/disk.rs\<close>) and the reader with its offset index
  (\<^verbatim>\<open>src/crates/micromux/src/model/runlog.rs\<close>). A file is its bytes. The encoding of a record
  (\<^verbatim>\<open>serde_json\<close>) is a parameter, and so is what the operating system does with each call: whether
  opening, writing and rolling back succeed.
\<close>

section \<open>Metadata of a run\<close>

text \<open>A file offset (\<^verbatim>\<open>u64\<close>) is a natural number that saturates at \<open>2 ^ 64 - 1\<close>.\<close>

type_synonym offset = nat

abbreviation offset_saturating_add :: "offset \<Rightarrow> nat \<Rightarrow> offset" where
  "offset_saturating_add \<equiv> usize_saturating_add"

definition DISK_RUN_FILE_MAX_BYTES :: offset where
  "DISK_RUN_FILE_MAX_BYTES = 64 * 1024 * 1024"

record disk_run_metadata =
  dm_segment_epoch :: u64
  dm_readable_len :: offset
  dm_line_count :: usize
  dm_first_seq :: "u64 option"
  dm_last_seq :: "u64 option"

definition metadata_default :: disk_run_metadata where
  "metadata_default =
     \<lparr> dm_segment_epoch = 0, dm_readable_len = 0, dm_line_count = 0, dm_first_seq = None,
       dm_last_seq = None \<rparr>"

definition begin_segment :: "disk_run_metadata \<Rightarrow> disk_run_metadata" where
  "begin_segment md =
     md\<lparr> dm_segment_epoch := u64_saturating_add (dm_segment_epoch md) 1, dm_readable_len := 0,
         dm_line_count := 0, dm_first_seq := None, dm_last_seq := None \<rparr>"

definition observe :: "disk_log_op \<Rightarrow> u64 \<Rightarrow> offset \<Rightarrow> disk_run_metadata \<Rightarrow> disk_run_metadata" where
  "observe op seq readable_len md =
     (let md = md\<lparr> dm_readable_len := readable_len \<rparr> in
      case op of
        DiskLogOp_Append \<Rightarrow>
          md\<lparr> dm_line_count := usize_saturating_add (dm_line_count md) 1,
              dm_first_seq := Some (case dm_first_seq md of None \<Rightarrow> seq | Some s \<Rightarrow> s),
              dm_last_seq := Some seq \<rparr>
      | DiskLogOp_ReplaceLast \<Rightarrow> md\<lparr> dm_last_seq := Some seq \<rparr>)"

section \<open>The worker\<close>

text \<open>
  What the operating system does while one command is handled: whether the directory and the file
  can be opened to append and to truncate, whether the length of an opened file can be read, how
  many bytes of a failing write reach the file (\<^verbatim>\<open>None\<close>: all of them, the write succeeds), and whether
  a failed write can be rolled back.
\<close>

record disk_io =
  io_append :: bool
  io_truncate :: bool
  io_length :: bool
  io_short_write :: "nat option"
  io_rollback :: bool

text \<open>The files of the spool directory, the open writers with their length, the shared metadata.\<close>

record disk_worker =
  dk_files :: "string \<Rightarrow> string option"
  dk_writers :: "string \<Rightarrow> offset option"
  dk_metadata :: "string \<Rightarrow> disk_run_metadata"

definition disk_worker_new :: disk_worker where
  "disk_worker_new =
     \<lparr> dk_files = Map.empty, dk_writers = Map.empty, dk_metadata = (\<lambda>_. metadata_default) \<rparr>"

definition file_bytes :: "disk_worker \<Rightarrow> string \<Rightarrow> string" where
  "file_bytes k path = (case dk_files k path of None \<Rightarrow> [] | Some b \<Rightarrow> b)"

definition close_writer :: "string \<Rightarrow> disk_worker \<Rightarrow> disk_worker" where
  "close_writer path k = k\<lparr> dk_writers := (dk_writers k)(path := None) \<rparr>"

definition open_disk_log_writer :: "disk_io \<Rightarrow> string \<Rightarrow> bool \<Rightarrow> disk_worker \<Rightarrow> disk_worker option" where
  "open_disk_log_writer io path trunc k =
     (if \<not> (if trunc then io_truncate io else io_append io) then None
      else
        let content = (if trunc then [] else file_bytes k path);
            bytes_written = (if trunc then 0 else if io_length io then length content else 0)
        in Some (k\<lparr> dk_files := (dk_files k)(path \<mapsto> content),
                    dk_writers := (dk_writers k)(path \<mapsto> bytes_written) \<rparr>))"

text \<open>
  \<^verbatim>\<open>write_record\<close>: the bytes of the file, and the new length of the writer unless it failed.
\<close>

definition write_record :: "disk_io \<Rightarrow> string \<Rightarrow> offset \<Rightarrow> string \<Rightarrow> string \<times> offset option" where
  "write_record io encoded record_offset content =
     (case io_short_write io of
        Some n \<Rightarrow>
          (if io_rollback io then take record_offset content else content @ take n encoded, None)
      | None \<Rightarrow>
          (content @ encoded, Some (offset_saturating_add record_offset (length encoded))))"

definition append_record ::
  "disk_io \<Rightarrow> string \<Rightarrow> disk_log_record \<Rightarrow> string \<Rightarrow> disk_worker \<Rightarrow> disk_worker"
where
  "append_record io path r encoded k =
     (case dk_writers k path of
        None \<Rightarrow> k
      | Some n \<Rightarrow>
          let written = write_record io encoded n (file_bytes k path);
              k = k\<lparr> dk_files := (dk_files k)(path \<mapsto> fst written) \<rparr>
          in case snd written of
               None \<Rightarrow> close_writer path k
             | Some len \<Rightarrow>
                 k\<lparr> dk_writers := (dk_writers k)(path \<mapsto> len),
                     dk_metadata := (dk_metadata k)
                       (path := observe (dlr_op r) (dlr_seq r) len (dk_metadata k path)) \<rparr>)"

definition set_op :: "disk_log_op \<Rightarrow> disk_log_record \<Rightarrow> disk_log_record" where
  "set_op op r = r\<lparr> dlr_op := op \<rparr>"

text \<open>A replacement of a line that is not the last one of the segment becomes an append.\<close>

definition retained_record :: "disk_run_metadata \<Rightarrow> disk_log_record \<Rightarrow> disk_log_record" where
  "retained_record md r =
     (if dlr_op r = DiskLogOp_ReplaceLast \<and> dm_last_seq md \<noteq> Some (dlr_seq r)
      then set_op DiskLogOp_Append r else r)"

definition ensure_writer :: "disk_io \<Rightarrow> string \<Rightarrow> disk_worker \<Rightarrow> disk_worker option" where
  "ensure_writer io path k =
     (if dk_writers k path \<noteq> None then Some k else open_disk_log_writer io path False k)"

text \<open>
  Rotation: the file starts again. The truncated segment has no record to replace, so a replacement
  is encoded again as its first append.
\<close>

definition rotate_and_append ::
  "(disk_log_record \<Rightarrow> string option) \<Rightarrow> disk_io \<Rightarrow> string \<Rightarrow> disk_log_record \<Rightarrow> string \<Rightarrow>
   disk_worker \<Rightarrow> disk_worker"
where
  "rotate_and_append enc io path retained encoded k =
     (let k = close_writer path k in
      case open_disk_log_writer io path True k of
        None \<Rightarrow> k
      | Some k \<Rightarrow>
          let k = k\<lparr> dk_metadata :=
                       (dk_metadata k)(path := begin_segment (dk_metadata k path)) \<rparr>
          in if dlr_op retained = DiskLogOp_ReplaceLast then
               (let retained = set_op DiskLogOp_Append retained in
                case enc retained of
                  None \<Rightarrow> k
                | Some reencoded \<Rightarrow> append_record io path retained (reencoded @ [LF]) k)
             else append_record io path retained encoded k)"

definition write_disk_record_with_limit ::
  "(disk_log_record \<Rightarrow> string option) \<Rightarrow> disk_io \<Rightarrow> string \<Rightarrow> disk_log_record \<Rightarrow> offset \<Rightarrow>
   disk_worker \<Rightarrow> disk_worker"
where
  "write_disk_record_with_limit enc io path r limit_bytes k =
     (case ensure_writer io path k of
        None \<Rightarrow> k
      | Some k \<Rightarrow>
          let retained = retained_record (dk_metadata k path) r in
          case enc retained of
            None \<Rightarrow> k
          | Some encoded \<Rightarrow>
              let encoded = encoded @ [LF];
                  rotates =
                    (case dk_writers k path of
                       None \<Rightarrow> False
                     | Some n \<Rightarrow>
                         0 < n \<and> limit_bytes < offset_saturating_add n (length encoded))
              in if rotates then rotate_and_append enc io path retained encoded k
                 else append_record io path retained encoded k)"

text \<open>
  One command. A run gives up its file when it is evicted, so nothing reads or writes the metadata
  of the run after \<^verbatim>\<open>Remove\<close>; a later run that gets the same path starts from fresh metadata.
\<close>

fun worker_handle ::
  "(disk_log_record \<Rightarrow> string option) \<Rightarrow> disk_io \<Rightarrow> disk_log_command \<Rightarrow> disk_worker \<Rightarrow> disk_worker"
where
  "worker_handle enc io (DiskLogCommand_Begin path) k =
     (let k = close_writer path k in
      case open_disk_log_writer io path True k of
        None \<Rightarrow> k
      | Some k \<Rightarrow>
          k\<lparr> dk_metadata := (dk_metadata k)(path := begin_segment (dk_metadata k path)) \<rparr>)"
| "worker_handle enc io (DiskLogCommand_Write path r permit) k =
     write_disk_record_with_limit enc io path r DISK_RUN_FILE_MAX_BYTES k"
| "worker_handle enc io (DiskLogCommand_Remove path) k =
     (let k = close_writer path k in
      k\<lparr> dk_files := (dk_files k)(path := None),
          dk_metadata := (dk_metadata k)(path := metadata_default) \<rparr>)"
| "worker_handle enc io DiskLogCommand_Flush k = k"

section \<open>The reader\<close>

definition RUN_LOG_OFFSET_CACHE :: nat where
  "RUN_LOG_OFFSET_CACHE = 4096"

definition MAX_STABLE_SEGMENT_READ_ATTEMPTS :: nat where
  "MAX_STABLE_SEGMENT_READ_ATTEMPTS = 3"

record run_log_read_index =
  ri_segment_epoch :: u64
  ri_scanned_to :: offset
  ri_last_append_seq :: "u64 option"
  ri_append_offsets :: "(u64 \<times> offset) list"

definition read_index_default :: run_log_read_index where
  "read_index_default =
     \<lparr> ri_segment_epoch = 0, ri_scanned_to = 0, ri_last_append_seq = None, ri_append_offsets = [] \<rparr>"

definition reset_scan :: "run_log_read_index \<Rightarrow> run_log_read_index" where
  "reset_scan ix = ix\<lparr> ri_scanned_to := 0, ri_last_append_seq := None, ri_append_offsets := [] \<rparr>"

definition reset_for_segment :: "u64 \<Rightarrow> run_log_read_index \<Rightarrow> run_log_read_index" where
  "reset_for_segment epoch ix =
     (if ri_segment_epoch ix \<noteq> epoch then (reset_scan ix)\<lparr> ri_segment_epoch := epoch \<rparr> else ix)"

definition reset_if_past_end :: "offset \<Rightarrow> run_log_read_index \<Rightarrow> run_log_read_index" where
  "reset_if_past_end file_len ix = (if file_len < ri_scanned_to ix then reset_scan ix else ix)"

definition offset_at_or_before :: "u64 \<Rightarrow> run_log_read_index \<Rightarrow> offset option" where
  "offset_at_or_before seq ix =
     (case partition_point (\<lambda>(s, _). s \<le> seq) (ri_append_offsets ix) of
        0 \<Rightarrow> None
      | Suc n \<Rightarrow> Some (snd (ri_append_offsets ix ! n)))"

definition observe_append :: "u64 \<Rightarrow> offset \<Rightarrow> run_log_read_index \<Rightarrow> run_log_read_index" where
  "observe_append seq off ix =
     (let offsets = ri_append_offsets ix;
          n = partition_point (\<lambda>(s, _). s < seq) offsets;
          known = n < length offsets \<and> fst (offsets ! n) = seq;
          offsets = (if known then offsets else take n offsets @ (seq, off) # drop n offsets)
      in ix\<lparr> ri_last_append_seq :=
               Some (case ri_last_append_seq ix of None \<Rightarrow> seq | Some s \<Rightarrow> max s seq),
             ri_append_offsets :=
               pop_front_while (\<lambda>q. RUN_LOG_OFFSET_CACHE < length q) offsets \<rparr>)"

definition mark_scanned_to :: "offset \<Rightarrow> run_log_read_index \<Rightarrow> run_log_read_index" where
  "mark_scanned_to off ix = ix\<lparr> ri_scanned_to := max (ri_scanned_to ix) off \<rparr>"

definition push_log_line ::
  "log_line \<Rightarrow> usize option \<Rightarrow> usize option \<Rightarrow> log_line list \<Rightarrow> log_line list"
where
  "push_log_line line tail limit ls =
     (if tail = Some 0 \<or> limit = Some 0 then ls
      else if (case limit of None \<Rightarrow> False | Some n \<Rightarrow> n \<le> length ls) then ls
      else
        let ls = ls @ [line] in
        case tail of None \<Rightarrow> ls | Some t \<Rightarrow> pop_front_while (\<lambda>q. t < length q) ls)"

definition start_offset_for_read ::
  "run_log_read_index \<Rightarrow> usize option \<Rightarrow> u64 option \<Rightarrow> offset \<Rightarrow> offset"
where
  "start_offset_for_read ix tail after file_len =
     (case tail of
        Some t \<Rightarrow>
          (case ri_last_append_seq ix of
             None \<Rightarrow> 0
           | Some l \<Rightarrow>
               (case offset_at_or_before (of_nat (unat l - t)) ix of
                  None \<Rightarrow> min 0 file_len | Some off \<Rightarrow> min off file_len))
      | None \<Rightarrow>
          (case after of
             None \<Rightarrow> 0
           | Some cursor \<Rightarrow>
               if (case ri_last_append_seq ix of None \<Rightarrow> False | Some s \<Rightarrow> s \<le> cursor)
               then min (ri_scanned_to ix) file_len
               else (case offset_at_or_before cursor ix of None \<Rightarrow> 0 | Some off \<Rightarrow> off)))"

text \<open>\<^verbatim>\<open>read_until(b'\n')\<close>: the bytes up to and with the line feed, and the rest.\<close>

fun next_chunk :: "string \<Rightarrow> string \<times> string" where
  "next_chunk [] = ([], [])"
| "next_chunk (c # cs) = (if c = LF then ([c], cs) else (case next_chunk cs of (a, b) \<Rightarrow> (c # a, b)))"

lemma next_chunk_append: "fst (next_chunk s) @ snd (next_chunk s) = s"
  by (induction s) (auto split: prod.split)

lemma next_chunk_shorter: "s \<noteq> [] \<Longrightarrow> length (snd (next_chunk s)) < length s"
proof -
  assume "s \<noteq> []"
  then have "fst (next_chunk s) \<noteq> []" by (cases s) (auto split: prod.split)
  then show ?thesis using arg_cong [OF next_chunk_append [of s], of length] by (cases "fst (next_chunk s)") auto
qed

text \<open>What one record adds to the page; \<^verbatim>\<open>None\<close> stops the scan.\<close>

definition line_of_record :: "disk_log_record \<Rightarrow> log_line" where
  "line_of_record r =
     \<lparr> ll_seq = dlr_seq r, ll_run_generation = dlr_run_generation r,
       ll_timestamp_unix_ms = dlr_timestamp_unix_ms r, ll_line = dlr_line r \<rparr>"

definition page_step ::
  "usize option \<Rightarrow> u64 option \<Rightarrow> usize option \<Rightarrow> disk_log_record \<Rightarrow> log_line list \<Rightarrow>
   log_line list option"
where
  "page_step tail after limit r ls =
     (if (case after of None \<Rightarrow> False | Some cursor \<Rightarrow> dlr_seq r \<le> cursor) then Some ls
      else if tail = None \<and> (case limit of None \<Rightarrow> False | Some n \<Rightarrow> n \<le> length ls) \<and>
              dlr_op r \<noteq> DiskLogOp_ReplaceLast
        then None
      else
        (let line = line_of_record r in
         case dlr_op r of
           DiskLogOp_Append \<Rightarrow> Some (push_log_line line tail limit ls)
         | DiskLogOp_ReplaceLast \<Rightarrow>
             if ls \<noteq> [] \<and> ll_seq (last ls) = ll_seq line then Some (butlast ls @ [line])
             else if ls = [] then Some (push_log_line line tail limit ls)
             else Some ls))"

text \<open>
  The scan from an offset over the bytes that are left: the page and the index. \<^verbatim>\<open>readable\<close> says
  whether the bytes at an offset can be read.
\<close>

function scan_segment ::
  "(string \<Rightarrow> disk_log_record option) \<Rightarrow> (offset \<Rightarrow> bool) \<Rightarrow> usize option \<Rightarrow> u64 option \<Rightarrow>
   usize option \<Rightarrow> offset \<Rightarrow> string \<Rightarrow> log_line list \<Rightarrow> run_log_read_index \<Rightarrow>
   log_line list \<times> run_log_read_index"
where
  "scan_segment dec readable tail after limit off rest ls ix =
     (if rest = [] \<or> \<not> readable off then (ls, ix)
      else
        let raw = fst (next_chunk rest);
            record_offset = off;
            off = offset_saturating_add off (length raw);
            ix = mark_scanned_to off ix
        in case (if utf8_valid raw then dec raw else None) of
             None \<Rightarrow> scan_segment dec readable tail after limit off (snd (next_chunk rest)) ls ix
           | Some r \<Rightarrow>
               let ix = (if dlr_op r = DiskLogOp_Append
                         then observe_append (dlr_seq r) record_offset ix else ix)
               in case page_step tail after limit r ls of
                    None \<Rightarrow> (ls, ix)
                  | Some ls \<Rightarrow>
                      scan_segment dec readable tail after limit off (snd (next_chunk rest)) ls ix)"
  by auto
termination
  by (relation "measure (\<lambda>(dec, readable, tail, after, limit, off, rest, ls, ix). length rest)")
     (auto intro: next_chunk_shorter)

declare scan_segment.simps [simp del]

text \<open>How a reader finds the file: whether it opens and seeks, and which bytes can be read.\<close>

record reader_io =
  rd_seek :: bool
  rd_readable :: "offset \<Rightarrow> bool"

definition read_run_log_segment ::
  "(string \<Rightarrow> disk_log_record option) \<Rightarrow> reader_io \<Rightarrow> string \<Rightarrow> offset \<Rightarrow> usize option \<Rightarrow>
   u64 option \<Rightarrow> usize option \<Rightarrow> run_log_read_index \<Rightarrow>
   log_line list option \<times> run_log_read_index"
where
  "read_run_log_segment dec io content readable_len tail after limit ix =
     (let ix = reset_if_past_end readable_len ix;
          start = start_offset_for_read ix tail after readable_len;
          ix = (if start = 0 then reset_scan ix else ix)
      in if \<not> rd_seek io then (None, ix)
         else
           (case scan_segment dec (rd_readable io) tail after limit start
                   (take (readable_len - start) (drop start content)) [] ix of
              (ls, ix) \<Rightarrow> (Some ls, ix)))"

text \<open>
  What one attempt of a reader observes: the metadata before, the file (\<^verbatim>\<open>None\<close>: it does not open), and
  the segment after the read. Three attempts, then the run counts as rotating.
\<close>

record read_attempt =
  ra_segment_epoch :: u64
  ra_readable_len :: offset
  ra_file :: "string option"
  ra_io :: reader_io
  ra_current_epoch :: u64

datatype log_run_read_error = LogRunReadError_Rotating

fun read_consistent_segment ::
  "(reader_io \<Rightarrow> string \<Rightarrow> offset \<Rightarrow> run_log_read_index \<Rightarrow> 'a option \<times> run_log_read_index) \<Rightarrow>
   nat \<Rightarrow> read_attempt list \<Rightarrow> run_log_read_index \<Rightarrow>
   (log_run_read_error + 'a option) \<times> run_log_read_index"
where
  "read_consistent_segment rd 0 attempts ix = (Inl LogRunReadError_Rotating, ix)"
| "read_consistent_segment rd (Suc n) [] ix = (Inl LogRunReadError_Rotating, ix)"
| "read_consistent_segment rd (Suc n) (a # attempts) ix =
     (case ra_file a of
        None \<Rightarrow> (Inr None, ix)
      | Some content \<Rightarrow>
          let ix = reset_for_segment (ra_segment_epoch a) ix in
          case rd (ra_io a) content (ra_readable_len a) ix of
            (None, ix) \<Rightarrow> (Inr None, reset_scan ix)
          | (Some v, ix) \<Rightarrow>
              if ra_current_epoch a = ra_segment_epoch a then (Inr (Some v), ix)
              else read_consistent_segment rd n attempts
                     (reset_for_segment (ra_current_epoch a) ix))"

definition read_run_log_file ::
  "(string \<Rightarrow> disk_log_record option) \<Rightarrow> read_attempt list \<Rightarrow> usize option \<Rightarrow> u64 option \<Rightarrow>
   usize option \<Rightarrow> run_log_read_index \<Rightarrow>
   (log_run_read_error + log_line list option) \<times> run_log_read_index"
where
  "read_run_log_file dec attempts tail after limit ix =
     read_consistent_segment
       (\<lambda>io content readable_len ix.
          read_run_log_segment dec io content readable_len tail after limit ix)
       MAX_STABLE_SEGMENT_READ_ATTEMPTS attempts ix"

end
