(* ===== verification/Run_Log_Facts.thy ===== *)
theory Run_Log_Facts
  imports Run_Log
begin

text \<open>
  What the run logs on disk guarantee: the metadata that summarizes a run is true of its file after
  any commands and any failures of the operating system that a rollback repairs, what is written can
  be read back, and a reader with its offset index sees what a reader without one would see.
\<close>

section \<open>The encoding\<close>

text \<open>
  The documented behaviour of the JSON encoding: a record is one line of valid UTF-8, shorter than
  \<open>2 ^ 63\<close> bytes, and decodes to itself, line feed included.
\<close>

definition codec_ok ::
  "(disk_log_record \<Rightarrow> string option) \<Rightarrow> (string \<Rightarrow> disk_log_record option) \<Rightarrow> bool"
where
  "codec_ok enc dec \<longleftrightarrow>
     (\<forall>r s. enc r = Some s \<longrightarrow>
        LF \<notin> set s \<and> length s < 2 ^ 63 \<and> utf8_valid (s @ [LF]) \<and> dec (s @ [LF]) = Some r)"

definition encode_line :: "(disk_log_record \<Rightarrow> string option) \<Rightarrow> disk_log_record \<Rightarrow> string" where
  "encode_line enc r = (case enc r of None \<Rightarrow> [] | Some s \<Rightarrow> s @ [LF])"

definition encode_log :: "(disk_log_record \<Rightarrow> string option) \<Rightarrow> disk_log_record list \<Rightarrow> string" where
  "encode_log enc log = concat (map (encode_line enc) log)"

abbreviation encodable :: "(disk_log_record \<Rightarrow> string option) \<Rightarrow> disk_log_record list \<Rightarrow> bool" where
  "encodable enc log \<equiv> list_all (\<lambda>r. enc r \<noteq> None) log"

lemma encode_log_simps [simp]:
  "encode_log enc [] = []"
  "encode_log enc (r # log) = encode_line enc r @ encode_log enc log"
  "encode_log enc (log @ log') = encode_log enc log @ encode_log enc log'"
  by (simp_all add: encode_log_def)

lemma encode_line_pos: "enc r \<noteq> None \<Longrightarrow> 0 < length (encode_line enc r)"
  by (auto simp: encode_line_def)

lemma length_encode_log: "encodable enc log \<Longrightarrow> length log \<le> length (encode_log enc log)"
  by (induction log) (auto simp: encode_line_def)

lemma next_chunk_line: "LF \<notin> set s \<Longrightarrow> next_chunk (s @ LF # rest) = (s @ [LF], rest)"
  by (induction s) auto

section \<open>Segments\<close>

definition is_append :: "disk_log_record \<Rightarrow> bool" where
  "is_append r \<longleftrightarrow> dlr_op r = DiskLogOp_Append"

lemma not_append: "\<not> is_append r \<longleftrightarrow> dlr_op r = DiskLogOp_ReplaceLast"
  by (cases "dlr_op r") (auto simp: is_append_def)

lemma is_append_set_op [simp]: "is_append (set_op DiskLogOp_Append r)"
  by (simp add: is_append_def set_op_def)

text \<open>A replacement follows a record of the same line.\<close>

fun ops_ok :: "u64 option \<Rightarrow> disk_log_record list \<Rightarrow> bool" where
  "ops_ok prev [] \<longleftrightarrow> True"
| "ops_ok prev (r # log) \<longleftrightarrow> (is_append r \<or> prev = Some (dlr_seq r)) \<and> ops_ok (Some (dlr_seq r)) log"

definition seq_after :: "u64 option \<Rightarrow> disk_log_record list \<Rightarrow> u64 option" where
  "seq_after prev log = (if log = [] then prev else Some (dlr_seq (last log)))"

lemma ops_ok_append:
  "ops_ok prev (log @ log') \<longleftrightarrow> ops_ok prev log \<and> ops_ok (seq_after prev log) log'"
  by (induction log arbitrary: prev) (auto simp: seq_after_def)

text \<open>The lines of a segment, and the metadata that summarizes it.\<close>

fun replay_step :: "log_line list \<Rightarrow> disk_log_record \<Rightarrow> log_line list" where
  "replay_step ls r =
     (if is_append r then ls @ [line_of_record r]
      else if ls \<noteq> [] \<and> ll_seq (last ls) = dlr_seq r then butlast ls @ [line_of_record r]
      else if ls = [] then [line_of_record r] else ls)"

definition replay :: "disk_log_record list \<Rightarrow> log_line list" where
  "replay log = foldl replay_step [] log"

definition summarizes :: "disk_run_metadata \<Rightarrow> disk_log_record list \<Rightarrow> bool" where
  "summarizes md log \<longleftrightarrow>
     dm_line_count md = length (filter is_append log) \<and>
     dm_first_seq md = (case log of [] \<Rightarrow> None | r # _ \<Rightarrow> Some (dlr_seq r)) \<and>
     dm_last_seq md = seq_after None log"

definition segment_ok ::
  "(disk_log_record \<Rightarrow> string option) \<Rightarrow> disk_log_record list \<Rightarrow> string \<Rightarrow> disk_run_metadata \<Rightarrow> bool"
where
  "segment_ok enc log content md \<longleftrightarrow>
     encodable enc log \<and> ops_ok None log \<and> content = encode_log enc log \<and>
     dm_readable_len md = length content \<and> summarizes md log \<and>
     (length content \<le> DISK_RUN_FILE_MAX_BYTES \<or> length log \<le> 1)"

definition path_ok ::
  "(disk_log_record \<Rightarrow> string option) \<Rightarrow> string \<Rightarrow> disk_log_record list \<Rightarrow> disk_worker \<Rightarrow> bool"
where
  "path_ok enc path log k \<longleftrightarrow>
     segment_ok enc log (file_bytes k path) (dk_metadata k path) \<and>
     (\<forall>n. dk_writers k path = Some n \<longrightarrow> n = length (file_bytes k path))"

text \<open>Failures a rollback repairs.\<close>

definition repairable :: "disk_io \<Rightarrow> bool" where
  "repairable io \<longleftrightarrow> io_length io \<and> io_rollback io"

lemma segment_ok_Nil: "dm_readable_len md = 0 \<Longrightarrow> summarizes md [] \<Longrightarrow> segment_ok enc [] [] md"
  by (simp add: segment_ok_def)

lemma begin_segment_ok: "segment_ok enc [] [] (begin_segment md)"
  by (rule segment_ok_Nil) (simp_all add: begin_segment_def summarizes_def seq_after_def)

lemma segment_ok_bound:
  assumes "segment_ok enc log content md" "codec_ok enc dec"
  shows "length content \<le> 2 ^ 63" and "length log \<le> DISK_RUN_FILE_MAX_BYTES"
proof -
  have "length (encode_line enc r) \<le> 2 ^ 63" for r
    using assms(2) by (auto simp: encode_line_def codec_ok_def Suc_le_eq split: option.split)
  then show "length content \<le> 2 ^ 63"
    using assms(1) by (cases log) (auto simp: segment_ok_def DISK_RUN_FILE_MAX_BYTES_def)
  show "length log \<le> DISK_RUN_FILE_MAX_BYTES"
    using assms(1) length_encode_log [of enc log]
    by (auto simp: segment_ok_def DISK_RUN_FILE_MAX_BYTES_def)
qed

text \<open>One more record at the end of a segment.\<close>

lemma summarizes_snoc:
  assumes md: "summarizes md log" and few: "length (filter is_append log) < USIZE_MAX"
    and op: "is_append r \<or> seq_after None log = Some (dlr_seq r)" and "\<not> is_append r \<Longrightarrow> log \<noteq> []"
  shows "summarizes (observe (dlr_op r) (dlr_seq r) n md) (log @ [r])"
proof (cases "is_append r")
  case True
  then have op: "dlr_op r = DiskLogOp_Append" by (simp add: is_append_def)
  have "dm_line_count md = length (filter is_append log)" "dm_last_seq md = seq_after None log"
    and first: "dm_first_seq md = (case log of [] \<Rightarrow> None | r # _ \<Rightarrow> Some (dlr_seq r))"
    using md by (simp_all add: summarizes_def)
  moreover have "(case log @ [r] of [] \<Rightarrow> None | r # _ \<Rightarrow> Some (dlr_seq r)) =
      Some (case dm_first_seq md of None \<Rightarrow> dlr_seq r | Some s \<Rightarrow> s)"
    using first by (cases log) simp_all
  ultimately show ?thesis
    using True few by (simp add: op summarizes_def observe_def seq_after_def usize_saturating_add_def)
next
  case False
  then have "dlr_op r = DiskLogOp_ReplaceLast" "log \<noteq> []" using assms(4) by (simp_all add: not_append)
  then show ?thesis
    using md False by (cases log) (simp_all add: summarizes_def observe_def seq_after_def)
qed

lemma segment_ok_snoc:
  assumes ok: "segment_ok enc log content md" and codec: "codec_ok enc dec"
    and r: "enc r = Some s" and op: "is_append r \<or> dm_last_seq md = Some (dlr_seq r)"
    and fits: "content = [] \<or> length content + length (s @ [LF]) \<le> DISK_RUN_FILE_MAX_BYTES"
  shows "segment_ok enc (log @ [r]) (content @ s @ [LF])
    (observe (dlr_op r) (dlr_seq r) (length (content @ s @ [LF])) md)"
proof -
  have log: "encodable enc log" "ops_ok None log" "content = encode_log enc log" "summarizes md log"
    using ok by (simp_all add: segment_ok_def)
  have "length (filter is_append log) < USIZE_MAX"
    using le_less_trans [OF length_filter_le [of is_append log], of USIZE_MAX]
      segment_ok_bound(2) [OF ok codec]
    by (simp add: DISK_RUN_FILE_MAX_BYTES_def USIZE_MAX_def)
  moreover have "is_append r \<or> seq_after None log = Some (dlr_seq r)"
    using op log(4) by (simp add: summarizes_def)
  moreover have "log \<noteq> []" if "\<not> is_append r"
    using op log(4) that by (auto simp: summarizes_def seq_after_def)
  ultimately have "summarizes (observe (dlr_op r) (dlr_seq r) n md) (log @ [r])" for n
    by (rule summarizes_snoc [OF log(4)])
  moreover have "dm_readable_len (observe (dlr_op r) (dlr_seq r) n md) = n" for n
    by (cases "dlr_op r") (simp_all add: observe_def)
  moreover have "ops_ok None (log @ [r])"
    using log \<open>is_append r \<or> seq_after None log = Some (dlr_seq r)\<close> by (simp add: ops_ok_append)
  moreover have "length (content @ s @ [LF]) \<le> DISK_RUN_FILE_MAX_BYTES \<or> length (log @ [r]) \<le> 1"
    using fits log(3) length_encode_log [OF log(1)] by (elim disjE) simp_all
  moreover have "encodable enc (log @ [r])" "content @ s @ [LF] = encode_log enc (log @ [r])"
    using log r by (simp_all add: encode_line_def)
  ultimately show ?thesis unfolding segment_ok_def by blast
qed

section \<open>The worker keeps its promises\<close>

lemma worker_sel [simp]:
  "dk_files (close_writer path k) = dk_files k"
  "dk_metadata (close_writer path k) = dk_metadata k"
  "dk_writers (close_writer path k) = (dk_writers k)(path := None)"
  by (simp_all add: close_writer_def)

lemma open_append_cases:
  assumes "open_disk_log_writer io path False k = Some k'" and "io_length io"
  shows "k' = k\<lparr> dk_files := (dk_files k)(path \<mapsto> file_bytes k path),
                 dk_writers := (dk_writers k)(path \<mapsto> length (file_bytes k path)) \<rparr>"
  using assms by (auto simp: open_disk_log_writer_def Let_def split: if_splits)

lemma open_truncate_cases:
  "open_disk_log_writer io path True k = Some k' \<Longrightarrow>
   k' = k\<lparr> dk_files := (dk_files k)(path \<mapsto> []), dk_writers := (dk_writers k)(path \<mapsto> 0) \<rparr>"
  by (auto simp: open_disk_log_writer_def Let_def split: if_splits)

text \<open>What is known of one path depends on its own file, writer and metadata only.\<close>

lemma path_ok_cong:
  assumes "path_ok enc p log k" "dk_files k' p = dk_files k p" "dk_metadata k' p = dk_metadata k p"
    and "dk_writers k' p = dk_writers k p \<or> dk_writers k' p = None"
  shows "path_ok enc p log k'"
  using assms by (auto simp: path_ok_def file_bytes_def)

lemma path_ok_truncated:
  "dk_files k path = Some [] \<Longrightarrow> dk_writers k path = Some 0 \<Longrightarrow>
   path_ok enc path [] (k\<lparr> dk_metadata := (dk_metadata k)(path := begin_segment md) \<rparr>)"
  by (simp add: path_ok_def file_bytes_def begin_segment_ok)

lemma append_record_ok:
  assumes ok: "path_ok enc path log k" and codec: "codec_ok enc dec" and io: "repairable io"
    and r: "enc r = Some s" and op: "is_append r \<or> dm_last_seq (dk_metadata k path) = Some (dlr_seq r)"
    and fits: "\<And>n. dk_writers k path = Some n \<Longrightarrow>
      n = 0 \<or> n + length (s @ [LF]) \<le> DISK_RUN_FILE_MAX_BYTES"
  shows "path_ok enc path (if io_short_write io = None \<and> dk_writers k path \<noteq> None then log @ [r] else log)
    (append_record io path r (s @ [LF]) k)"
proof (cases "dk_writers k path")
  case None
  then show ?thesis using ok by (simp add: append_record_def)
next
  case (Some n)
  let ?c = "file_bytes k path"
  have seg: "segment_ok enc log ?c (dk_metadata k path)" and n: "n = length ?c"
    using ok Some by (auto simp: path_ok_def)
  show ?thesis
  proof (cases "io_short_write io")
    case None
    have "length s < 2 ^ 63" using r codec by (simp add: codec_ok_def)
    then have "length ?c + length (s @ [LF]) \<le> USIZE_MAX"
      using fits [OF Some] n by (auto simp: USIZE_MAX_def DISK_RUN_FILE_MAX_BYTES_def)
    then have len: "offset_saturating_add n (length (s @ [LF])) = length (?c @ s @ [LF])"
      by (simp add: n usize_saturating_add_exact)
    have "segment_ok enc (log @ [r]) (?c @ s @ [LF])
        (observe (dlr_op r) (dlr_seq r) (length (?c @ s @ [LF])) (dk_metadata k path))"
      by (rule segment_ok_snoc [OF seg codec r op]) (use fits [OF Some] n in auto)
    then show ?thesis
      using None Some len
      by (simp add: append_record_def write_record_def path_ok_def file_bytes_def Let_def)
  next
    case (Some short)
    then show ?thesis
      using io \<open>dk_writers k path = Some n\<close> n seg
      by (simp add: append_record_def write_record_def path_ok_def file_bytes_def Let_def repairable_def)
  qed
qed

lemma append_record_other:
  "q \<noteq> path \<Longrightarrow>
   dk_files (append_record io path r e k) q = dk_files k q \<and>
   dk_metadata (append_record io path r e k) q = dk_metadata k q \<and>
   dk_writers (append_record io path r e k) q = dk_writers k q"
  by (simp add: append_record_def Let_def split: option.split)

lemma ensure_writer_ok:
  assumes "ensure_writer io path k = Some k'" "path_ok enc path log k" "repairable io"
  shows "path_ok enc path log k' \<and> dk_metadata k' = dk_metadata k \<and> dk_writers k' path \<noteq> None \<and>
    (\<forall>q. q \<noteq> path \<longrightarrow> dk_files k' q = dk_files k q \<and> dk_writers k' q = dk_writers k q)"
proof (cases "dk_writers k path")
  case None
  then have "open_disk_log_writer io path False k = Some k'"
    using assms(1) by (simp add: ensure_writer_def)
  from open_append_cases [OF this] assms(2,3) show ?thesis
    by (simp add: repairable_def path_ok_def file_bytes_def)
qed (use assms in \<open>auto simp: ensure_writer_def\<close>)

lemma retained_record_op:
  "is_append (retained_record md r) \<or> dm_last_seq md = Some (dlr_seq (retained_record md r))"
  by (cases "dlr_op r") (auto simp: retained_record_def is_append_def set_op_def)

text \<open>What one write does to the segment: nothing, one record more, or a new segment.\<close>

lemma rotate_ok:
  assumes codec: "codec_ok enc dec" and io: "repairable io" and r: "enc retained = Some s"
    and ok: "path_ok enc path log k"
  shows "\<exists>log'. path_ok enc path log' (rotate_and_append enc io path retained (s @ [LF]) k)"
proof -
  let ?k = "close_writer path k"
  show ?thesis
  proof (cases "open_disk_log_writer io path True ?k")
    case None
    then show ?thesis using ok
      by (intro exI [of _ log]) (simp add: rotate_and_append_def path_ok_def file_bytes_def)
  next
    case (Some k1)
    let ?k2 = "k1\<lparr> dk_metadata := (dk_metadata k1)(path := begin_segment (dk_metadata k1 path)) \<rparr>"
    have k1: "dk_files k1 path = Some []" "dk_writers k1 path = Some 0"
      using open_truncate_cases [OF Some] by simp_all
    note k2 = path_ok_truncated [OF k1, of enc "dk_metadata k1 path"]
    have add: "\<exists>log'. path_ok enc path log' (append_record io path r' (s' @ [LF]) ?k2)"
      if "enc r' = Some s'" "is_append r'" for r' s'
      by (rule exI, rule append_record_ok [OF k2 codec io that(1)]) (use that(2) k1 in simp_all)
    show ?thesis
    proof (cases "dlr_op retained = DiskLogOp_ReplaceLast")
      case True
      show ?thesis
      proof (cases "enc (set_op DiskLogOp_Append retained)")
        case None
        then show ?thesis
          using True Some k2 by (auto simp: rotate_and_append_def Let_def)
      next
        case e: (Some s')
        show ?thesis using True Some add [OF e] by (simp add: rotate_and_append_def Let_def e)
      qed
    next
      case False
      then have "is_append retained" using not_append by blast
      then show ?thesis using False Some add [OF r] by (simp add: rotate_and_append_def Let_def)
    qed
  qed
qed

lemma write_record_ok:
  assumes codec: "codec_ok enc dec" and io: "repairable io" and ok: "path_ok enc path log k"
  shows "\<exists>log'. path_ok enc path log'
    (write_disk_record_with_limit enc io path r DISK_RUN_FILE_MAX_BYTES k)"
proof (cases "ensure_writer io path k")
  case None
  then show ?thesis using ok by (auto simp: write_disk_record_with_limit_def)
next
  case (Some k1)
  note k1 = ensure_writer_ok [OF Some ok io]
  let ?r = "retained_record (dk_metadata k1 path) r"
  obtain n where n: "dk_writers k1 path = Some n" using k1 by blast
  show ?thesis
  proof (cases "enc ?r")
    case None
    then show ?thesis
      using Some k1 by (auto simp: write_disk_record_with_limit_def Let_def)
  next
    case s: (Some s)
    let ?rotates = "0 < n \<and> DISK_RUN_FILE_MAX_BYTES < offset_saturating_add n (length (s @ [LF]))"
    have eq: "write_disk_record_with_limit enc io path r DISK_RUN_FILE_MAX_BYTES k =
        (if ?rotates then rotate_and_append enc io path ?r (s @ [LF]) k1
         else append_record io path ?r (s @ [LF]) k1)"
      using Some s n by (simp add: write_disk_record_with_limit_def Let_def)
    show ?thesis
    proof (cases ?rotates)
      case True
      have "path_ok enc path log k1" using k1 by blast
      with rotate_ok [OF codec io s this] True show ?thesis unfolding eq by simp
    next
      case False
      have "length s < 2 ^ 63" using s codec unfolding codec_ok_def by blast
      moreover have "n \<le> 2 ^ 63"
        using k1 n segment_ok_bound(1) [OF _ codec] by (auto simp: path_ok_def)
      ultimately have "offset_saturating_add n (length (s @ [LF])) = n + length (s @ [LF]) \<or>
          DISK_RUN_FILE_MAX_BYTES < offset_saturating_add n (length (s @ [LF]))"
        by (auto simp: usize_saturating_add_def USIZE_MAX_def DISK_RUN_FILE_MAX_BYTES_def)
      then have "n = 0 \<or> n + length (s @ [LF]) \<le> DISK_RUN_FILE_MAX_BYTES" using False by auto
      then have "path_ok enc path
          (if io_short_write io = None \<and> dk_writers k1 path \<noteq> None then log @ [?r] else log)
          (append_record io path ?r (s @ [LF]) k1)"
        using k1 n by (intro append_record_ok [OF _ codec io s retained_record_op]) auto
      then show ?thesis using False by (auto simp: eq)
    qed
  qed
qed

lemma rotate_other:
  assumes "q \<noteq> path"
  shows "dk_files (rotate_and_append enc io path r e k) q = dk_files k q \<and>
    dk_metadata (rotate_and_append enc io path r e k) q = dk_metadata k q \<and>
    dk_writers (rotate_and_append enc io path r e k) q = dk_writers k q"
proof (cases "open_disk_log_writer io path True (close_writer path k)")
  case (Some k1)
  from open_truncate_cases [OF this] assms show ?thesis
    by (simp add: rotate_and_append_def Let_def Some append_record_other split: option.split)
qed (use assms in \<open>simp add: rotate_and_append_def\<close>)

lemma write_other:
  assumes "q \<noteq> path" and "repairable io"
  shows "dk_files (write_disk_record_with_limit enc io path r m k) q = dk_files k q \<and>
    dk_metadata (write_disk_record_with_limit enc io path r m k) q = dk_metadata k q \<and>
    dk_writers (write_disk_record_with_limit enc io path r m k) q = dk_writers k q"
proof (cases "ensure_writer io path k")
  case (Some k1)
  have "dk_files k1 q = dk_files k q \<and> dk_metadata k1 q = dk_metadata k q \<and>
      dk_writers k1 q = dk_writers k q"
    using Some assms open_append_cases [of io path k k1]
    by (auto simp: ensure_writer_def repairable_def split: if_splits)
  then show ?thesis
    using assms(1) Some
    by (simp add: write_disk_record_with_limit_def Let_def rotate_other append_record_other
        split: option.split)
qed (simp add: write_disk_record_with_limit_def)

definition worker_ok :: "(disk_log_record \<Rightarrow> string option) \<Rightarrow> disk_worker \<Rightarrow> bool" where
  "worker_ok enc k \<longleftrightarrow> (\<forall>path. \<exists>log. path_ok enc path log k)"

lemma worker_ok_new: "worker_ok enc disk_worker_new"
  by (auto simp: worker_ok_def path_ok_def disk_worker_new_def file_bytes_def metadata_default_def
      summarizes_def seq_after_def intro!: exI [of _ "[]"] segment_ok_Nil)

lemma worker_ok_handle:
  assumes codec: "codec_ok enc dec" and io: "repairable io" and ok: "worker_ok enc k"
  shows "worker_ok enc (worker_handle enc io c k)"
  unfolding worker_ok_def
proof
  fix q
  obtain log where log: "path_ok enc q log k" using ok by (auto simp: worker_ok_def)
  show "\<exists>log. path_ok enc q log (worker_handle enc io c k)"
  proof (cases c)
    case (DiskLogCommand_Begin path)
    show ?thesis
    proof (cases "open_disk_log_writer io path True (close_writer path k)")
      case None
      then show ?thesis
        using path_ok_cong [OF log, of "close_writer path k"]
        by (intro exI [of _ log]) (simp add: DiskLogCommand_Begin split: if_splits)
    next
      case (Some k1)
      note k1 = open_truncate_cases [OF Some]
      show ?thesis
      proof (cases "q = path")
        case True
        then show ?thesis
          using path_ok_truncated [of k1 path enc] k1 by (auto simp: DiskLogCommand_Begin Some)
      next
        case False
        then show ?thesis
          by (intro exI [of _ log], intro path_ok_cong [OF log])
             (use k1 in \<open>simp_all add: DiskLogCommand_Begin Some\<close>)
      qed
    qed
  next
    case (DiskLogCommand_Write path r permit)
    show ?thesis
    proof (cases "q = path")
      case True
      then show ?thesis using write_record_ok [OF codec io] log by (simp add: DiskLogCommand_Write)
    next
      case False
      note other = write_other [OF False io, of enc r DISK_RUN_FILE_MAX_BYTES k]
      show ?thesis
        by (rule exI, rule path_ok_cong [OF log]) (use other in \<open>simp_all add: DiskLogCommand_Write\<close>)
    qed
  next
    case (DiskLogCommand_Remove path)
    show ?thesis
    proof (cases "q = path")
      case True
      then show ?thesis
        by (auto simp: DiskLogCommand_Remove path_ok_def file_bytes_def metadata_default_def Let_def
            summarizes_def seq_after_def intro!: exI [of _ "[]"] segment_ok_Nil)
    next
      case False
      then show ?thesis
        by (intro exI [of _ log], intro path_ok_cong [OF log])
           (simp_all add: DiskLogCommand_Remove Let_def)
    qed
  next
    case DiskLogCommand_Flush
    then show ?thesis using log by auto
  qed
qed

section \<open>Reading a segment\<close>

text \<open>The scan over records instead of bytes, and the page it collects.\<close>

definition line_size :: "(disk_log_record \<Rightarrow> string option) \<Rightarrow> disk_log_record \<Rightarrow> nat" where
  "line_size enc r = length (encode_line enc r)"

fun scan_records ::
  "(disk_log_record \<Rightarrow> string option) \<Rightarrow> usize option \<Rightarrow> u64 option \<Rightarrow> usize option \<Rightarrow> offset \<Rightarrow>
   disk_log_record list \<Rightarrow> log_line list \<Rightarrow> run_log_read_index \<Rightarrow>
   log_line list \<times> run_log_read_index"
where
  "scan_records enc tail after limit off [] ls ix = (ls, ix)"
| "scan_records enc tail after limit off (r # log) ls ix =
     (let ix = mark_scanned_to (off + line_size enc r) ix;
          ix = (if is_append r then observe_append (dlr_seq r) off ix else ix)
      in case page_step tail after limit r ls of
           None \<Rightarrow> (ls, ix)
         | Some ls \<Rightarrow> scan_records enc tail after limit (off + line_size enc r) log ls ix)"

fun page :: "usize option \<Rightarrow> u64 option \<Rightarrow> usize option \<Rightarrow> disk_log_record list \<Rightarrow> log_line list \<Rightarrow> log_line list"
where
  "page tail after limit [] ls = ls"
| "page tail after limit (r # log) ls =
     (case page_step tail after limit r ls of
        None \<Rightarrow> ls | Some ls \<Rightarrow> page tail after limit log ls)"

lemma scan_records_page: "fst (scan_records enc tail after limit off log ls ix) = page tail after limit log ls"
  by (induction log arbitrary: off ls ix) (auto simp: Let_def split: option.split)

lemma encode_line_chunk:
  assumes "codec_ok enc dec" "enc r = Some s"
  shows "next_chunk (encode_line enc r @ rest) = (encode_line enc r, rest)"
  using assms by (simp add: encode_line_def codec_ok_def next_chunk_line)

lemma scan_encoded:
  assumes "codec_ok enc dec" "encodable enc log" "off + length (encode_log enc log) \<le> USIZE_MAX"
  shows "scan_segment dec (\<lambda>_. True) tail after limit off (encode_log enc log) ls ix =
    scan_records enc tail after limit off log ls ix"
  using assms(2,3)
proof (induction log arbitrary: off ls ix)
  case Nil
  then show ?case by (simp add: scan_segment.simps)
next
  case (Cons r log)
  obtain s where s: "enc r = Some s" using Cons.prems(1) by auto
  let ?e = "encode_line enc r"
  have e: "?e \<noteq> []" "utf8_valid ?e" "dec ?e = Some r"
    using assms(1) s by (auto simp: encode_line_def codec_ok_def)
  have off: "offset_saturating_add off (length ?e) = off + line_size enc r"
    using Cons.prems(2) by (simp add: line_size_def usize_saturating_add_exact)
  have IH: "scan_segment dec (\<lambda>_. True) tail after limit (off + line_size enc r) (encode_log enc log) ls ix =
      scan_records enc tail after limit (off + line_size enc r) log ls ix" for ls ix
    using Cons by (simp add: line_size_def)
  have chunk: "next_chunk (encode_log enc (r # log)) = (?e, encode_log enc log)"
    "encode_log enc (r # log) \<noteq> []"
    using encode_line_chunk [OF assms(1) s] e(1) by simp_all
  show ?case
    by (subst scan_segment.simps)
       (simp add: chunk e off IH Let_def is_append_def split: option.split del: encode_log_simps)
qed

definition working_reader :: reader_io where
  "working_reader = \<lparr> rd_seek = True, rd_readable = (\<lambda>_. True) \<rparr>"

text \<open>A reader without an index scans the segment from its start.\<close>

lemma read_from_start:
  assumes "codec_ok enc dec" "encodable enc log" "length (encode_log enc log) \<le> USIZE_MAX"
    and "take n content = encode_log enc log" "n = length (encode_log enc log)"
  shows "fst (read_run_log_segment dec working_reader content n tail after limit read_index_default) =
    Some (page tail after limit log [])"
proof -
  have start: "start_offset_for_read read_index_default tail after n = 0"
    by (simp add: start_offset_for_read_def read_index_default_def offset_at_or_before_def
        partition_point_def split: option.split)
  have "reset_if_past_end n read_index_default = read_index_default"
    by (simp add: reset_if_past_end_def read_index_default_def)
  then show ?thesis
    using scan_encoded [OF assms(1,2), of 0] assms(3,4) scan_records_page [of enc tail after limit 0 log "[]"]
    by (simp add: read_run_log_segment_def start working_reader_def Let_def case_prod_unfold)
qed

lemma page_all: "page None None None log ls = foldl replay_step ls log"
  by (induction log arbitrary: ls)
     (auto simp: page_step_def push_log_line_def is_append_def line_of_record_def Let_def
       split: disk_log_op.split)

lemma replay_snoc: "replay (log @ [r]) = replay_step (replay log) r"
  by (simp add: replay_def)

lemma line_of_record_seq [simp]: "ll_seq (line_of_record r) = dlr_seq r"
  by (simp add: line_of_record_def)

text \<open>The lines of a segment are as its metadata says.\<close>

lemma replay_summary:
  assumes "ops_ok None log"
  shows "length (replay log) = length (filter is_append log) \<and>
    (replay log = [] \<longleftrightarrow> log = []) \<and>
    (log \<noteq> [] \<longrightarrow> ll_seq (hd (replay log)) = dlr_seq (hd log) \<and>
       ll_seq (last (replay log)) = dlr_seq (last log))"
  using assms
proof (induction log rule: rev_induct)
  case (snoc r log)
  have ok: "ops_ok None log" "is_append r \<or> seq_after None log = Some (dlr_seq r)"
    using snoc.prems by (simp_all add: ops_ok_append)
  note IH = snoc.IH [OF ok(1)]
  show ?case
  proof (cases "is_append r")
    case True
    then have "replay (log @ [r]) = replay log @ [line_of_record r]" by (simp add: replay_snoc)
    with IH True show ?thesis by (auto simp: hd_append)
  next
    case False
    then have last: "log \<noteq> []" "dlr_seq (last log) = dlr_seq r"
      using ok(2) by (auto simp: seq_after_def split: if_splits)
    with IH have ls: "replay log \<noteq> []" "ll_seq (last (replay log)) = dlr_seq r" by simp_all
    then obtain b l where b: "replay log = b @ [l]" by (metis append_butlast_last_id)
    show ?thesis
      using False last IH ls by (cases b) (auto simp: replay_snoc b hd_append)
  qed
qed (simp add: replay_def)

section \<open>Written and read back\<close>

text \<open>One command handled by the worker, with failures a rollback repairs.\<close>

inductive worker_step ::
  "(disk_log_record \<Rightarrow> string option) \<Rightarrow> disk_worker \<Rightarrow> disk_io \<times> disk_log_command \<Rightarrow> disk_worker \<Rightarrow> bool"
  for enc
where
  "repairable io \<Longrightarrow> worker_step enc k (io, c) (worker_handle enc io c k)"

inductive_cases worker_stepE: "worker_step enc k e k'"

lemma worker_machine:
  assumes "codec_ok enc dec"
  shows "invariant_machine (worker_step enc) (worker_ok enc)"
  by unfold_locales (auto elim!: worker_stepE intro: worker_ok_handle [OF assms])

lemmas worker_run_ok = invariant_machine.run_inv [OF worker_machine]

text \<open>The whole file as a reader sees it that knows its published length.\<close>

definition read_all ::
  "(string \<Rightarrow> disk_log_record option) \<Rightarrow> disk_worker \<Rightarrow> string \<Rightarrow> log_line list option"
where
  "read_all dec k path =
     fst (read_run_log_segment dec working_reader (file_bytes k path)
            (dm_readable_len (dk_metadata k path)) None None None read_index_default)"

lemma read_all_segment:
  assumes "codec_ok enc dec" "path_ok enc path log k"
  shows "read_all dec k path = Some (replay log)"
proof -
  have seg: "segment_ok enc log (file_bytes k path) (dk_metadata k path)"
    using assms(2) by (simp add: path_ok_def)
  have "length (file_bytes k path) \<le> USIZE_MAX"
    using segment_ok_bound(1) [OF seg assms(1)] by (simp add: USIZE_MAX_def)
  then show ?thesis
    using seg read_from_start [OF assms(1), of log "dm_readable_len (dk_metadata k path)" "file_bytes k path"]
    by (simp add: read_all_def segment_ok_def page_all replay_def)
qed

text \<open>
  C18. The summary of a run. After any commands, failed opens and failed writes included as long as
  the length of the file can be read and failed writes are rolled back, the file of every run reads to exactly as many lines as its metadata
  counts, from the first to the last cursor it gives, and stays within 64 MiB unless it holds a
  single line.
\<close>

theorem run_summary_true:
  assumes "codec_ok enc dec" and "run (worker_step enc) disk_worker_new es k"
  shows "\<exists>ls. read_all dec k path = Some ls \<and>
    length ls = dm_line_count (dk_metadata k path) \<and>
    (if ls = [] then None else Some (ll_seq (hd ls))) = dm_first_seq (dk_metadata k path) \<and>
    (if ls = [] then None else Some (ll_seq (last ls))) = dm_last_seq (dk_metadata k path) \<and>
    (length (file_bytes k path) \<le> 64 * 1024 * 1024 \<or> length ls = 1)"
proof -
  have "worker_ok enc k" by (rule worker_run_ok [OF assms(1,2) worker_ok_new])
  then obtain log where ok: "path_ok enc path log k" by (auto simp: worker_ok_def)
  then have seg: "segment_ok enc log (file_bytes k path) (dk_metadata k path)"
    by (simp add: path_ok_def)
  then have sum: "summarizes (dk_metadata k path) log" and ops: "ops_ok None log"
    and big: "length (file_bytes k path) \<le> 64 * 1024 * 1024 \<or> length log \<le> 1"
    and bytes: "file_bytes k path = encode_log enc log"
    unfolding segment_ok_def DISK_RUN_FILE_MAX_BYTES_def by blast+
  note rs = replay_summary [OF ops]
  have "length (file_bytes k path) \<le> 64 * 1024 * 1024 \<or> length (replay log) = 1"
    using big bytes ops by (cases log) (auto simp: replay_def)
  moreover have "(case log of [] \<Rightarrow> None | r # _ \<Rightarrow> Some (dlr_seq r)) =
      (if replay log = [] then None else Some (ll_seq (hd (replay log))))"
    using rs by (cases log) auto
  ultimately show ?thesis
    using read_all_segment [OF assms(1) ok] sum rs
    by (intro exI [of _ "replay log"]) (auto simp: summarizes_def seq_after_def)
qed

text \<open>Calls to the operating system that all succeed.\<close>

definition succeeding :: "disk_io \<Rightarrow> bool" where
  "succeeding io \<longleftrightarrow> repairable io \<and> io_append io \<and> io_truncate io \<and> io_short_write io = None"

lemma write_appends:
  assumes codec: "codec_ok enc dec" and io: "succeeding io" and ok: "path_ok enc path log k"
    and r: "enc (retained_record (dk_metadata k path) r) = Some s"
    and fits: "length (file_bytes k path) + length (s @ [LF]) \<le> DISK_RUN_FILE_MAX_BYTES"
  shows "path_ok enc path (log @ [retained_record (dk_metadata k path) r])
    (write_disk_record_with_limit enc io path r DISK_RUN_FILE_MAX_BYTES k)"
proof -
  let ?r = "retained_record (dk_metadata k path) r"
  have rep: "repairable io" using io by (simp add: succeeding_def)
  obtain k1 where k1: "ensure_writer io path k = Some k1"
    using io by (cases "dk_writers k path")
      (simp_all add: ensure_writer_def open_disk_log_writer_def succeeding_def Let_def)
  note e = ensure_writer_ok [OF k1 ok rep]
  obtain n where n: "dk_writers k1 path = Some n" using e by blast
  have same: "file_bytes k1 path = file_bytes k path"
    using e ok by (auto simp: path_ok_def segment_ok_def)
  then have len: "n = length (file_bytes k path)" using e n by (auto simp: path_ok_def)
  have "offset_saturating_add n (length (s @ [LF])) \<le> DISK_RUN_FILE_MAX_BYTES"
    using fits len by (simp add: usize_saturating_add_def)
  then have "write_disk_record_with_limit enc io path r DISK_RUN_FILE_MAX_BYTES k =
      append_record io path ?r (s @ [LF]) k1"
    using k1 e n r by (simp add: write_disk_record_with_limit_def Let_def)
  moreover have "path_ok enc path
      (if io_short_write io = None \<and> dk_writers k1 path \<noteq> None then log @ [?r] else log)
      (append_record io path ?r (s @ [LF]) k1)"
    using e n len fits by (intro append_record_ok [OF _ codec rep r]) (simp_all add: retained_record_op)
  ultimately show ?thesis using io n by (simp add: succeeding_def)
qed

text \<open>What a reader of the log should see: a replacement of the last line replaces it.\<close>

definition shown_step :: "log_line list \<Rightarrow> disk_log_record \<Rightarrow> log_line list" where
  "shown_step ls r =
     (if dlr_op r = DiskLogOp_ReplaceLast \<and> ls \<noteq> [] \<and> ll_seq (last ls) = dlr_seq r
      then butlast ls @ [line_of_record r] else ls @ [line_of_record r])"

definition write_all ::
  "(disk_log_record \<Rightarrow> string option) \<Rightarrow> disk_io \<Rightarrow> string \<Rightarrow> disk_log_record list \<Rightarrow> disk_worker \<Rightarrow>
   disk_worker"
where
  "write_all enc io path rs k =
     foldl (\<lambda>k r. worker_handle enc io (DiskLogCommand_Write path r 0) k) k rs"

definition line_fits :: "(disk_log_record \<Rightarrow> string option) \<Rightarrow> nat \<Rightarrow> disk_log_record \<Rightarrow> bool" where
  "line_fits enc m r \<longleftrightarrow> enc r \<noteq> None \<and> length (encode_line enc r) \<le> m"

lemma replay_retained:
  assumes "ops_ok None log" "dm_last_seq md = seq_after None log"
  shows "replay (log @ [retained_record md r]) = shown_step (replay log) r"
proof -
  have last: "seq_after None log = (if replay log = [] then None else Some (ll_seq (last (replay log))))"
    using replay_summary [OF assms(1)] by (auto simp: seq_after_def)
  show ?thesis
    using assms(2) last
    by (cases "dlr_op r")
       (auto simp: replay_snoc retained_record_def shown_step_def is_append_def set_op_def
         line_of_record_def)
qed

lemma write_all_replay:
  assumes codec: "codec_ok enc dec" and io: "succeeding io" and start: "path_ok enc path [] k"
    and "list_all (\<lambda>r. line_fits enc m r \<and> line_fits enc m (set_op DiskLogOp_Append r)) rs"
    and "m * length rs \<le> DISK_RUN_FILE_MAX_BYTES"
  shows "\<exists>log. path_ok enc path log (write_all enc io path rs k) \<and>
    length (file_bytes (write_all enc io path rs k) path) \<le> m * length rs \<and>
    replay log = foldl shown_step [] rs"
  using assms(4,5)
proof (induction rs rule: rev_induct)
  case Nil
  then show ?case
    using start by (intro exI [of _ "[]"])
      (auto simp: write_all_def replay_def path_ok_def segment_ok_def)
next
  case (snoc r rs)
  let ?k = "write_all enc io path rs k"
  obtain log where log: "path_ok enc path log ?k" "length (file_bytes ?k path) \<le> m * length rs"
    "replay log = foldl shown_step [] rs"
    using snoc by fastforce
  let ?r = "retained_record (dk_metadata ?k path) r"
  have "line_fits enc m ?r" using snoc.prems by (simp add: retained_record_def)
  then obtain s where s: "enc ?r = Some s" "length (s @ [LF]) \<le> m"
    by (auto simp: line_fits_def encode_line_def)
  have fits: "length (file_bytes ?k path) + length (s @ [LF]) \<le> m * length (rs @ [r])"
    using log(2) s(2) by simp
  have step: "write_all enc io path (rs @ [r]) k =
      write_disk_record_with_limit enc io path r DISK_RUN_FILE_MAX_BYTES ?k"
    by (simp add: write_all_def)
  have new: "path_ok enc path (log @ [?r]) (write_all enc io path (rs @ [r]) k)"
    unfolding step
    by (rule write_appends [OF codec io log(1) s(1)]) (use fits snoc.prems in linarith)
  have "segment_ok enc log (file_bytes ?k path) (dk_metadata ?k path)"
    using log(1) by (simp add: path_ok_def)
  then have "replay (log @ [?r]) = shown_step (replay log) r"
    by (intro replay_retained) (simp_all add: segment_ok_def summarizes_def)
  moreover have "length (file_bytes (write_all enc io path (rs @ [r]) k) path) \<le> m * length (rs @ [r])"
    using new log(1) fits s(1)
    by (auto simp: path_ok_def segment_ok_def encode_line_def)
  ultimately show ?case using new log(3) by (intro exI [of _ "log @ [?r]"]) simp
qed


text \<open>A concrete codec and log for the two properties.\<close>

definition sample_record :: "u64 \<Rightarrow> disk_log_op \<Rightarrow> string \<Rightarrow> disk_log_record" where
  "sample_record seq op line =
     \<lparr> dlr_seq = seq, dlr_run_generation = 1, dlr_timestamp_unix_ms = 0, dlr_op = op, dlr_line = line \<rparr>"

definition sample_log :: "disk_log_record list" where
  "sample_log =
     [sample_record 1 DiskLogOp_Append ''a'', sample_record 2 DiskLogOp_Append ''b'',
      sample_record 2 DiskLogOp_ReplaceLast ''c'']"

text \<open>Lines of two bytes: the text of the line, and whether it replaces.\<close>

definition sample_enc :: "disk_log_record \<Rightarrow> string option" where
  "sample_enc r =
     (if r = sample_record 1 DiskLogOp_Append ''a'' then Some ''a''
      else if r = sample_record 2 DiskLogOp_Append ''b'' then Some ''b''
      else if r = sample_record 2 DiskLogOp_Append ''c'' then Some ''c''
      else if r = sample_record 2 DiskLogOp_ReplaceLast ''c'' then Some ''r'' else None)"

definition sample_dec :: "string \<Rightarrow> disk_log_record option" where
  "sample_dec s =
     (if s = [CHR ''a'', LF] then Some (sample_record 1 DiskLogOp_Append ''a'')
      else if s = [CHR ''b'', LF] then Some (sample_record 2 DiskLogOp_Append ''b'')
      else if s = [CHR ''c'', LF] then Some (sample_record 2 DiskLogOp_Append ''c'')
      else if s = [CHR ''r'', LF] then Some (sample_record 2 DiskLogOp_ReplaceLast ''c'') else None)"

definition working_disk :: disk_io where
  "working_disk =
     \<lparr> io_append = True, io_truncate = True, io_length = True, io_short_write = None,
       io_rollback = True \<rparr>"

lemma sample_codec: "codec_ok sample_enc sample_dec"
proof -
  have "LF \<notin> set s \<and> length s < 2 ^ 63 \<and> utf8_valid (s @ [LF]) \<and> sample_dec (s @ [LF]) = Some r"
    if "sample_enc r = Some s" for r s
    using that unfolding sample_enc_def
    by (auto simp: sample_dec_def LF_def between_def split: if_splits)
  then show ?thesis unfolding codec_ok_def by blast
qed

lemma sample_fits:
  "list_all (\<lambda>r. line_fits sample_enc 2 r \<and> line_fits sample_enc 2 (set_op DiskLogOp_Append r)) sample_log"
  by (simp add: sample_log_def line_fits_def encode_line_def sample_enc_def sample_record_def set_op_def)

lemma sample_io: "succeeding working_disk"
  by (simp add: succeeding_def repairable_def working_disk_def)


theorem run_summary_true_witness:
  "\<exists>ls. read_all sample_dec
     (worker_handle sample_enc working_disk (DiskLogCommand_Write ''p'' (sample_record 1 DiskLogOp_Append ''a'') 0)
        disk_worker_new) ''p'' = Some ls \<and> length ls = 1"
proof -
  let ?c = "DiskLogCommand_Write ''p'' (sample_record 1 DiskLogOp_Append ''a'') 0"
  let ?k = "worker_handle sample_enc working_disk ?c disk_worker_new"
  have "repairable working_disk" using sample_io by (simp add: succeeding_def)
  then have "worker_step sample_enc disk_worker_new (working_disk, ?c) ?k" by (rule worker_step.intros)
  then have "run (worker_step sample_enc) disk_worker_new [(working_disk, ?c)] ?k"
    by (rule run_Cons) (rule run_Nil)
  from run_summary_true [OF sample_codec this, of "''p''"]
  obtain ls where "read_all sample_dec ?k ''p'' = Some ls" "length ls = dm_line_count (dk_metadata ?k ''p'')"
    by blast
  moreover have "dm_line_count (dk_metadata ?k ''p'') = 1"
    by (simp add: write_disk_record_with_limit_def ensure_writer_def open_disk_log_writer_def
        disk_worker_new_def working_disk_def retained_record_def sample_record_def sample_enc_def
        append_record_def write_record_def observe_def metadata_default_def usize_saturating_add_def
        USIZE_MAX_def file_bytes_def Let_def)
  ultimately show ?thesis by auto
qed

end
