(* ===== verification/Run_Log_Index.thy ===== *)
theory Run_Log_Index
  imports Run_Log_Facts
begin

text \<open>
  The offset index of a reader (\<^verbatim>\<open>RunLogReadIndex\<close> of \<^verbatim>\<open>src/crates/micromux/src/model/runlog.rs\<close>): what it
  remembers of a segment stays true as the segment grows, so a read that starts in the middle of the
  file shows what a read from its start would show.
\<close>

section \<open>What an index knows\<close>

text \<open>Cursors of a segment: every line has a larger one than the lines before it.\<close>

fun cursors_ok :: "disk_log_record list \<Rightarrow> bool" where
  "cursors_ok [] \<longleftrightarrow> True"
| "cursors_ok (r # log) \<longleftrightarrow>
     list_all (\<lambda>q. dlr_seq r \<le> dlr_seq q \<and> (is_append q \<longrightarrow> dlr_seq r < dlr_seq q)) log \<and> cursors_ok log"

definition last_append :: "disk_log_record list \<Rightarrow> u64 option" where
  "last_append log =
     (if filter is_append log = [] then None else Some (dlr_seq (last (filter is_append log))))"

text \<open>
  An index is true of a segment when it has scanned to the boundary of a record, has seen exactly the
  appends before it, and remembers only offsets of such appends.
\<close>

definition offset_true ::
  "(disk_log_record \<Rightarrow> string option) \<Rightarrow> disk_log_record list \<Rightarrow> nat \<Rightarrow> u64 \<times> offset \<Rightarrow> bool"
where
  "offset_true enc log j e \<longleftrightarrow>
     (\<exists>i < j. i < length log \<and> is_append (log ! i) \<and> dlr_seq (log ! i) = fst e \<and>
        length (encode_log enc (take i log)) = snd e)"

definition index_true ::
  "(disk_log_record \<Rightarrow> string option) \<Rightarrow> disk_log_record list \<Rightarrow> nat \<Rightarrow> run_log_read_index \<Rightarrow> bool"
where
  "index_true enc log j ix \<longleftrightarrow>
     j \<le> length log \<and> ri_scanned_to ix = length (encode_log enc (take j log)) \<and>
     ri_last_append_seq ix = last_append (take j log) \<and>
     (\<forall>e \<in> set (ri_append_offsets ix). offset_true enc log j e)"

lemma index_true_reset: "index_true enc log 0 (reset_scan ix)"
  by (simp add: index_true_def reset_scan_def last_append_def)

lemma index_true_default: "index_true enc log 0 read_index_default"
  by (simp add: index_true_def read_index_default_def last_append_def)

lemma index_true_grow: "index_true enc log j ix \<Longrightarrow> index_true enc (log @ log') j ix"
  by (fastforce simp: index_true_def offset_true_def nth_append)

lemma offset_true_mono: "offset_true enc log j e \<Longrightarrow> j \<le> j' \<Longrightarrow> offset_true enc log j' e"
  by (auto simp: offset_true_def intro: less_le_trans)

lemma length_encode_take:
  "i \<le> j \<Longrightarrow> length (encode_log enc (take i log)) \<le> length (encode_log enc (take j log))"
  by (metis encode_log_simps(3) length_append le_add1 le_iff_add take_add)

lemma cursors_ok_append:
  "cursors_ok (log @ log') \<longleftrightarrow> cursors_ok log \<and> cursors_ok log' \<and>
     (\<forall>r \<in> set log. \<forall>q \<in> set log'. dlr_seq r \<le> dlr_seq q \<and> (is_append q \<longrightarrow> dlr_seq r < dlr_seq q))"
  by (induction log) (auto simp: list_all_iff)

lemma observe_append_offsets:
  assumes "e \<in> set (ri_append_offsets (observe_append seq off ix))"
  shows "e = (seq, off) \<or> e \<in> set (ri_append_offsets ix)"
proof -
  let ?n = "partition_point (\<lambda>(s, _). s < seq) (ri_append_offsets ix)"
  let ?q = "take ?n (ri_append_offsets ix) @ (seq, off) # drop ?n (ri_append_offsets ix)"
  have pop: "x \<in> set (pop_front_while c q) \<Longrightarrow> x \<in> set q" for x c and q :: "(u64 \<times> offset) list"
    by (rule subsetD [OF set_mono_suffix [OF suffix_pop_front_while]])
  let ?known = "?n < length (ri_append_offsets ix) \<and> fst (ri_append_offsets ix ! ?n) = seq"
  have eq: "ri_append_offsets (observe_append seq off ix) =
      pop_front_while (\<lambda>q. RUN_LOG_OFFSET_CACHE < length q)
        (if ?known then ri_append_offsets ix else ?q)"
    unfolding observe_append_def Let_def
    by (cases ix) (simp only: run_log_read_index.select_convs run_log_read_index.update_convs)
  have "e \<in> set (if ?known then ri_append_offsets ix else ?q)"
    using assms unfolding eq by (rule pop)
  then have "e \<in> set ?q \<or> e \<in> set (ri_append_offsets ix)"
    by (cases ?known) (simp_all only: if_True if_False simp_thms)
  then show ?thesis by (auto dest: in_set_takeD in_set_dropD)
qed

lemma last_append_max:
  assumes "cursors_ok (log @ [r])" "is_append r"
  shows "(case last_append log of None \<Rightarrow> dlr_seq r | Some s \<Rightarrow> max s (dlr_seq r)) = dlr_seq r"
proof (cases "filter is_append log")
  case Nil
  then show ?thesis by (simp add: last_append_def)
next
  case (Cons a as)
  then have "last (filter is_append log) \<in> set log"
    by (metis filter_is_subset last_in_set list.distinct(1) subsetD)
  then have "dlr_seq (last (filter is_append log)) < dlr_seq r"
    using assms by (auto simp: cursors_ok_append)
  then show ?thesis using Cons by (simp add: last_append_def max_absorb2)
qed

lemma last_append_seen:
  "cursors_ok log \<Longrightarrow> ops_ok None log \<Longrightarrow> r \<in> set log \<Longrightarrow>
   \<exists>s. last_append log = Some s \<and> dlr_seq r \<le> s"
proof (induction log arbitrary: r rule: rev_induct)
  case (snoc q log)
  have ok: "cursors_ok log" "ops_ok None log" "is_append q \<or> seq_after None log = Some (dlr_seq q)"
    using snoc.prems(1,2) by (simp_all add: cursors_ok_append ops_ok_append)
  show ?case
  proof (cases "is_append q")
    case True
    then have "last_append (log @ [q]) = Some (dlr_seq q)" by (simp add: last_append_def)
    then show ?thesis using snoc.prems(1,3) True by (auto simp: cursors_ok_append less_imp_le)
  next
    case False
    then have "last_append (log @ [q]) = last_append log" by (simp add: last_append_def)
    moreover have "\<exists>p \<in> set log. dlr_seq p = dlr_seq q"
      using ok(3) False by (auto simp: seq_after_def split: if_splits)
    ultimately show ?thesis using snoc.IH [OF ok(1,2)] snoc.prems(3) by (metis rotate1.simps(2) set_ConsD set_rotate1)
  qed
qed simp

lemma ok_take:
  assumes "cursors_ok log" "ops_ok None log"
  shows "cursors_ok (take j log)" and "ops_ok None (take j log)"
  using assms cursors_ok_append [of "take j log" "drop j log"] ops_ok_append [of None "take j log" "drop j log"]
  by simp_all

lemma encode_take_Suc:
  "i < length log \<Longrightarrow> length (encode_log enc (take (Suc i) log)) =
     length (encode_log enc (take i log)) + line_size enc (log ! i)"
  by (simp add: take_Suc_conv_app_nth line_size_def)

lemma ri_observe [simp]:
  "ri_scanned_to (observe_append seq off ix) = ri_scanned_to ix"
  "ri_last_append_seq (observe_append seq off ix) =
     Some (case ri_last_append_seq ix of None \<Rightarrow> seq | Some s \<Rightarrow> max s seq)"
  by (simp_all add: observe_append_def Let_def)

lemma ri_mark [simp]:
  "ri_scanned_to (mark_scanned_to off ix) = max (ri_scanned_to ix) off"
  "ri_last_append_seq (mark_scanned_to off ix) = ri_last_append_seq ix"
  "ri_append_offsets (mark_scanned_to off ix) = ri_append_offsets ix"
  by (simp_all add: mark_scanned_to_def)

text \<open>One record of the scan.\<close>

definition see_record ::
  "(disk_log_record \<Rightarrow> string option) \<Rightarrow> offset \<Rightarrow> disk_log_record \<Rightarrow> run_log_read_index \<Rightarrow> run_log_read_index"
where
  "see_record enc off r ix =
     (let ix = mark_scanned_to (off + line_size enc r) ix in
      if is_append r then observe_append (dlr_seq r) off ix else ix)"

lemma index_true_step:
  assumes ok: "index_true enc log j ix" and i: "i \<le> j" "i < length log"
    and log: "cursors_ok log" "ops_ok None log"
  shows "index_true enc log (max j (Suc i))
    (see_record enc (length (encode_log enc (take i log))) (log ! i) ix)" (is "index_true enc log ?j ?ix")
proof -
  let ?r = "log ! i" and ?off = "length (encode_log enc (take i log))"
  have j: "j \<le> length log" "ri_scanned_to ix = length (encode_log enc (take j log))"
    "ri_last_append_seq ix = last_append (take j log)"
    "\<And>e. e \<in> set (ri_append_offsets ix) \<Longrightarrow> offset_true enc log j e"
    using ok by (auto simp: index_true_def)
  have "offset_true enc log ?j e" if "e \<in> set (ri_append_offsets ?ix)" for e
  proof -
    have "e = (dlr_seq ?r, ?off) \<and> is_append ?r \<or> e \<in> set (ri_append_offsets ix)"
      using that by (auto simp: see_record_def Let_def split: if_splits dest!: observe_append_offsets)
    then show ?thesis
    proof
      assume e: "e = (dlr_seq ?r, ?off) \<and> is_append ?r"
      then show ?thesis using i(2) unfolding offset_true_def by (intro exI [of _ i]) simp
    next
      assume "e \<in> set (ri_append_offsets ix)"
      from offset_true_mono [OF j(4) [OF this]] show ?thesis by simp
    qed
  qed
  moreover have "ri_scanned_to ?ix = length (encode_log enc (take ?j log))"
    using j(2) length_encode_take [of "Suc i" j enc log] encode_take_Suc [OF i(2), of enc]
      length_encode_take [of j "Suc i" enc log] i(1)
    by (cases "Suc i \<le> j") (simp_all add: see_record_def Let_def max_def not_less_eq_eq)
  moreover have "ri_last_append_seq ?ix = last_append (take ?j log)"
  proof (cases "i < j")
    case True
    then have "?r \<in> set (take j log)" using i(2) j(1) by (auto simp: in_set_conv_nth intro!: exI [of _ i])
    from last_append_seen [OF ok_take [OF log] this]
    moreover have "max j (Suc i) = j" using True by simp
    ultimately show ?thesis using j(3) by (auto simp: see_record_def Let_def max_absorb1)
  next
    case False
    then have "i = j" using i(1) by simp
    then have t: "take ?j log = take j log @ [?r]" using i(2) by (simp add: take_Suc_conv_app_nth)
    show ?thesis
    proof (cases "is_append ?r")
      case True
      have "cursors_ok (take j log @ [?r])" using ok_take(1) [OF log, of ?j] t by simp
      from last_append_max [OF this True] show ?thesis
        using True j(3) by (simp add: see_record_def Let_def t) (simp add: last_append_def)
    next
      case False
      then show ?thesis using j(3) by (simp add: see_record_def Let_def t) (simp add: last_append_def)
    qed
  qed
  ultimately show ?thesis using i(2) j(1) unfolding index_true_def by simp
qed

text \<open>A scan from the boundary of a record that was seen before, or from the first unseen one.\<close>

lemma index_true_scan:
  assumes "index_true enc log j ix" "i \<le> j" "cursors_ok log" "ops_ok None log"
  shows "\<exists>j'. index_true enc log j'
    (snd (scan_records enc tail after limit (length (encode_log enc (take i log))) (drop i log) ls ix))"
  using assms(1,2)
proof (induction "length log - i" arbitrary: i j ix ls)
  case 0
  then show ?case by (auto intro: exI [of _ j])
next
  case (Suc n)
  then have i: "i < length log" by simp
  have d: "drop i log = log ! i # drop (Suc i) log" using i by (simp add: Cons_nth_drop_Suc)
  note step = index_true_step [OF Suc.prems i assms(3,4)]
  have rest: "\<exists>j'. index_true enc log j' (snd (scan_records enc tail after limit
      (length (encode_log enc (take (Suc i) log))) (drop (Suc i) log) ls'
      (see_record enc (length (encode_log enc (take i log))) (log ! i) ix)))" for ls'
    by (rule Suc.hyps(1) [OF _ step]) (use Suc.hyps(2) in simp_all)
  show ?case
    using step rest
    by (auto simp: d see_record_def Let_def encode_take_Suc [OF i] split: option.split)
qed

section \<open>Where a read starts\<close>

text \<open>A reader that resumes after a cursor skips only lines it must not show.\<close>

lemma page_skip:
  "(\<And>r. r \<in> set log \<Longrightarrow> dlr_seq r \<le> cursor) \<Longrightarrow>
   page tail (Some cursor) limit (log @ log') ls = page tail (Some cursor) limit log' ls"
  by (induction log arbitrary: ls) (auto simp: page_step_def)

lemma offset_at_or_before_SomeD:
  assumes "offset_at_or_before seq ix = Some off"
  shows "\<exists>s. (s, off) \<in> set (ri_append_offsets ix) \<and> s \<le> seq"
proof -
  let ?P = "\<lambda>(s, _ :: offset). s \<le> seq" and ?xs = "ri_append_offsets ix"
  obtain n where n: "length (takeWhile ?P ?xs) = Suc n" "off = snd (?xs ! n)"
    using assms by (auto simp: offset_at_or_before_def partition_point_def split: nat.splits)
  then have "n < length (takeWhile ?P ?xs)" by simp
  then have "takeWhile ?P ?xs ! n = ?xs ! n" "takeWhile ?P ?xs ! n \<in> set (takeWhile ?P ?xs)"
    by (rule takeWhile_nth, rule nth_mem)
  then have "?xs ! n \<in> set ?xs" "?P (?xs ! n)"
    by (metis set_takeWhileD)+
  then show ?thesis
    using n(2) by (intro exI [of _ "fst (?xs ! n)"]) (simp add: case_prod_unfold)
qed

text \<open>A segment as a reader sees it: its file may have grown past the published length.\<close>

definition readable_segment ::
  "(disk_log_record \<Rightarrow> string option) \<Rightarrow> disk_log_record list \<Rightarrow> string \<Rightarrow> offset \<Rightarrow> bool"
where
  "readable_segment enc log content n \<longleftrightarrow>
     encodable enc log \<and> ops_ok None log \<and> cursors_ok log \<and> n \<le> USIZE_MAX \<and>
     n = length (encode_log enc log) \<and> prefix (encode_log enc log) content"

lemma readable_take:
  assumes "readable_segment enc log content n" "i \<le> length log"
  shows "take (n - length (encode_log enc (take i log)))
      (drop (length (encode_log enc (take i log))) content) = encode_log enc (drop i log)"
proof -
  obtain z where z: "content = encode_log enc log @ z"
    using assms(1) by (auto simp: readable_segment_def elim: prefixE)
  have "encode_log enc log = encode_log enc (take i log) @ encode_log enc (drop i log)"
    by (metis append_take_drop_id encode_log_simps(3))
  then show ?thesis
    using assms(1) z by (simp add: readable_segment_def)
qed

text \<open>A read from the boundary of a record.\<close>

lemma read_at_boundary:
  assumes codec: "codec_ok enc dec" and seg: "readable_segment enc log content n"
    and ix: "index_true enc log j ix" and i: "i \<le> j"
    and start: "start_offset_for_read ix tail after n = length (encode_log enc (take i log))"
  shows "fst (read_run_log_segment dec working_reader content n tail after limit ix) =
      Some (page tail after limit (drop i log) []) \<and>
    (\<exists>j'. index_true enc log j'
      (snd (read_run_log_segment dec working_reader content n tail after limit ix)))"
proof -
  let ?off = "length (encode_log enc (take i log))"
  have j: "j \<le> length log" "ri_scanned_to ix = length (encode_log enc (take j log))"
    using ix by (simp_all add: index_true_def)
  have n: "n = length (encode_log enc log)" "n \<le> USIZE_MAX"
    using seg by (simp_all add: readable_segment_def)
  have past: "reset_if_past_end n ix = ix"
    using j length_encode_take [of j "length log" enc log] n by (simp add: reset_if_past_end_def)
  have d: "encodable enc (drop i log)" "?off + length (encode_log enc (drop i log)) \<le> USIZE_MAX"
    using seg n arg_cong [OF append_take_drop_id [of i log], of "\<lambda>l. length (encode_log enc l)"]
    by (auto simp: readable_segment_def list_all_iff dest: in_set_dropD simp del: append_take_drop_id)
  obtain jr where ix0: "index_true enc log jr (if ?off = 0 then reset_scan ix else ix)"
    "i \<le> jr"
  proof (cases "?off = 0")
    case True
    have "encodable enc (take i log)" using seg by (auto simp: readable_segment_def list_all_iff dest: in_set_takeD)
    then have "length (take i log) = 0" using length_encode_log [of enc "take i log"] True by simp
    then have "i = 0 \<or> log = []" by (auto simp: min_def split: if_splits)
    then show ?thesis
      using that [of 0] that [of j] True index_true_reset [of enc log ix] ix i j(1)
      by (cases "i = 0") (auto simp: index_true_def)
  next
    case False
    then show ?thesis using that [of j] ix i by simp
  qed
  have "i \<le> length log" using i j(1) by simp
  note bytes = readable_take [OF seg this]
  note scan = scan_encoded [OF codec d]
  have eq: "read_run_log_segment dec working_reader content n tail after limit ix =
      (case scan_records enc tail after limit ?off (drop i log) []
              (if ?off = 0 then reset_scan ix else ix) of (ls, ix) \<Rightarrow> (Some ls, ix))"
    unfolding read_run_log_segment_def past Let_def start bytes
    by (simp add: working_reader_def scan)
  have "cursors_ok log" "ops_ok None log" using seg by (simp_all add: readable_segment_def)
  from index_true_scan [OF ix0 this, of tail after limit "[]"]
  show ?thesis unfolding eq by (simp add: case_prod_unfold scan_records_page)
qed

text \<open>Every read starts at the boundary of a record that was scanned before.\<close>

lemma start_boundary:
  assumes seg: "readable_segment enc log content n" and ix: "index_true enc log j ix"
  shows "\<exists>i \<le> j. start_offset_for_read ix tail after n = length (encode_log enc (take i log)) \<and>
    (tail = None \<longrightarrow> after = None \<longrightarrow> i = 0) \<and>
    (tail = None \<longrightarrow> (\<forall>cursor. after = Some cursor \<longrightarrow> (\<forall>r \<in> set (take i log). dlr_seq r \<le> cursor)))"
proof -
  have j: "j \<le> length log" "ri_scanned_to ix = length (encode_log enc (take j log))"
    "ri_last_append_seq ix = last_append (take j log)"
    and offs: "\<And>e. e \<in> set (ri_append_offsets ix) \<Longrightarrow> offset_true enc log j e"
    using ix by (auto simp: index_true_def)
  have n: "length (encode_log enc (take i log)) \<le> n" for i
    using length_encode_take [of i "max i (length log)" enc log] seg by (simp add: readable_segment_def)
  have cur: "cursors_ok log" and ops: "ops_ok None log" using seg by (simp_all add: readable_segment_def)
  have found: "\<exists>i \<le> j. off = length (encode_log enc (take i log)) \<and> (\<forall>r \<in> set (take i log). dlr_seq r \<le> seq)"
    if off: "offset_at_or_before seq ix = Some off" for seq off
  proof -
    obtain s where s: "(s, off) \<in> set (ri_append_offsets ix)" "s \<le> seq"
      using offset_at_or_before_SomeD [OF off] by blast
    obtain i where i: "i < j" "i < length log" "dlr_seq (log ! i) = s"
      "length (encode_log enc (take i log)) = off"
      using offs [OF s(1)] by (auto simp: offset_true_def)
    have "dlr_seq r \<le> s" if "r \<in> set (take i log)" for r
      using that cur i(2,3) cursors_ok_append [of "take i log" "drop i log"]
      by (metis append_take_drop_id Cons_nth_drop_Suc list.set_intros(1))
    then have "\<forall>r \<in> set (take i log). dlr_seq r \<le> seq" using s(2) order_trans by blast
    then show ?thesis using i by (intro exI [of _ i]) simp
  qed
  show ?thesis
  proof (cases tail)
    case (Some t)
    show ?thesis
    proof (cases "ri_last_append_seq ix")
      case None
      then show ?thesis using Some by (intro exI [of _ 0]) (simp add: start_offset_for_read_def)
    next
      case l: (Some l)
      show ?thesis
      proof (cases "offset_at_or_before (of_nat (unat l - t)) ix")
        case None
        then show ?thesis using Some l by (intro exI [of _ 0]) (simp add: start_offset_for_read_def)
      next
        case o: (Some off)
        from found [OF o] n show ?thesis
          using Some l o by (auto simp: start_offset_for_read_def min_absorb1)
      qed
    qed
  next
    case None
    show ?thesis
    proof (cases after)
      case None
      then show ?thesis using \<open>tail = None\<close> by (intro exI [of _ 0]) (simp add: start_offset_for_read_def)
    next
      case (Some cursor)
      show ?thesis
      proof (cases "\<exists>s. ri_last_append_seq ix = Some s \<and> s \<le> cursor")
        case True
        then obtain s where s: "ri_last_append_seq ix = Some s" "s \<le> cursor" by blast
        have "dlr_seq r \<le> cursor" if "r \<in> set (take j log)" for r
          using last_append_seen [OF ok_take [OF cur ops] that] s j(3) by auto
        then show ?thesis
          using None Some s j(2) n [of j]
          by (intro exI [of _ j]) (simp add: start_offset_for_read_def min_absorb1)
      next
        case False
        show ?thesis
        proof (cases "offset_at_or_before cursor ix")
          case n0: None
          then show ?thesis
            using None Some False
            by (intro exI [of _ 0]) (auto simp: start_offset_for_read_def split: option.split)
        next
          case o: (Some off)
          from found [OF o] show ?thesis
            using None Some False o by (auto simp: start_offset_for_read_def split: option.split)
        qed
      qed
    qed
  qed
qed

section \<open>Reading with an index\<close>

text \<open>A segment that grows and a reader that reads it again and again with one index.\<close>

datatype reader_event =
    Reader_Grow "disk_log_record list"
  | Reader_Read string "usize option" "u64 option" "usize option"

inductive reader_step ::
  "(disk_log_record \<Rightarrow> string option) \<Rightarrow> (string \<Rightarrow> disk_log_record option) \<Rightarrow>
   disk_log_record list \<times> run_log_read_index \<Rightarrow> reader_event \<Rightarrow>
   disk_log_record list \<times> run_log_read_index \<Rightarrow> bool"
  for enc dec
where
  reader_grow: "reader_step enc dec (log, ix) (Reader_Grow rs) (log @ rs, ix)"
| reader_read:
    "readable_segment enc log content (length (encode_log enc log)) \<Longrightarrow>
     reader_step enc dec (log, ix) (Reader_Read content tail after limit)
       (log, snd (read_run_log_segment dec working_reader content (length (encode_log enc log))
                    tail after limit ix))"

inductive_cases reader_stepE: "reader_step enc dec s e t"

definition reader_inv :: "(disk_log_record \<Rightarrow> string option) \<Rightarrow> disk_log_record list \<times> run_log_read_index \<Rightarrow> bool" where
  "reader_inv enc s \<longleftrightarrow> (\<exists>j. index_true enc (fst s) j (snd s))"

lemma reader_machine:
  assumes "codec_ok enc dec"
  shows "invariant_machine (reader_step enc dec) (reader_inv enc)"
proof
  fix s e t assume "reader_inv enc s" and step: "reader_step enc dec s e t"
  then obtain j where j: "index_true enc (fst s) j (snd s)" by (auto simp: reader_inv_def)
  from step show "reader_inv enc t"
  proof (rule reader_stepE)
    fix log ix rs assume "s = (log, ix)" "t = (log @ rs, ix)"
    then show ?thesis using index_true_grow j by (fastforce simp: reader_inv_def)
  next
    fix log ix content tail after limit
    assume s: "s = (log, ix)"
      and t: "t = (log, snd (read_run_log_segment dec working_reader content
        (length (encode_log enc log)) tail after limit ix))"
      and seg: "readable_segment enc log content (length (encode_log enc log))"
    have ix: "index_true enc log j ix" using j s by simp
    obtain i where i: "i \<le> j"
      "start_offset_for_read ix tail after (length (encode_log enc log)) = length (encode_log enc (take i log))"
      using start_boundary [OF seg ix] by blast
    from read_at_boundary [OF assms seg ix i] show ?thesis
      by (auto simp: reader_inv_def t)
  qed
qed

lemmas reader_run_inv = invariant_machine.run_inv [OF reader_machine]

text \<open>
  C20. Reading with an index. However a segment grows and whatever was read of it before, a page from
  the start or after a cursor that the reader finds by its offset index has exactly the lines that a
  scan from the start of the file gives. A page of the last lines is another matter: read a
  second time, it can miss its first line (\<^verbatim>\<open>tail_read_gap\<close> below).
\<close>

theorem indexed_read_exact:
  assumes "codec_ok enc dec" and "run (reader_step enc dec) ([], read_index_default) es (log, ix)"
    and "readable_segment enc log content n"
  shows "fst (read_run_log_segment dec working_reader content n None after limit ix) =
    fst (read_run_log_segment dec working_reader content n None after limit read_index_default)"
proof -
  have "reader_inv enc ([], read_index_default)"
    using index_true_default by (auto simp: reader_inv_def)
  from reader_run_inv [OF assms(1,2) this] obtain j where j: "index_true enc log j ix"
    by (auto simp: reader_inv_def)
  obtain i where i: "i \<le> j"
    "start_offset_for_read ix None after n = length (encode_log enc (take i log))"
    "after = None \<longrightarrow> i = 0" "\<forall>cursor. after = Some cursor \<longrightarrow> (\<forall>r \<in> set (take i log). dlr_seq r \<le> cursor)"
    using start_boundary [OF assms(3) j, of None after] by auto
  have "page None after limit (drop i log) [] = page None after limit log []"
  proof (cases after)
    case (Some cursor)
    then show ?thesis
      using page_skip [of "take i log" cursor None limit "drop i log" "[]"] i(4) by simp
  qed (use i(3) in simp)
  moreover have "fst (read_run_log_segment dec working_reader content n None after limit read_index_default) =
      Some (page None after limit log [])"
    using assms(3) readable_take [OF assms(3), of 0]
    by (intro read_from_start [OF assms(1)]) (simp_all add: readable_segment_def)
  ultimately show ?thesis
    using read_at_boundary [OF assms(1,3) j i(1,2), of limit] by simp
qed

text \<open>A page after cursor 1 of the sample log, with the index of an earlier read.\<close>

definition sample_content :: string where
  "sample_content = encode_log sample_enc sample_log"

definition sample_index :: run_log_read_index where
  "sample_index =
     snd (read_run_log_segment sample_dec working_reader sample_content 6 None None None read_index_default)"

lemma sample_readable: "readable_segment sample_enc sample_log sample_content 6"
  by (simp add: readable_segment_def sample_content_def sample_log_def sample_enc_def sample_record_def
      encode_line_def is_append_def USIZE_MAX_def)

theorem indexed_read_exact_witness:
  "\<exists>ls. fst (read_run_log_segment sample_dec working_reader sample_content 6 None (Some 1) None sample_index) =
     Some ls \<and> map ll_line ls = [''c'']"
proof -
  have n: "length (encode_log sample_enc sample_log) = 6"
    using sample_readable by (simp add: readable_segment_def)
  have "reader_step sample_enc sample_dec ([], read_index_default) (Reader_Grow sample_log)
      (sample_log, read_index_default)"
    using reader_grow [of sample_enc sample_dec "[]" read_index_default sample_log] by simp
  moreover have "reader_step sample_enc sample_dec (sample_log, read_index_default)
      (Reader_Read sample_content None None None) (sample_log, sample_index)"
    using reader_read [of sample_enc sample_log sample_content sample_dec read_index_default None None None]
      sample_readable
    by (simp add: n sample_index_def)
  ultimately have "run (reader_step sample_enc sample_dec) ([], read_index_default)
      [Reader_Grow sample_log, Reader_Read sample_content None None None] (sample_log, sample_index)"
    by (blast intro: run_Cons run_Nil)
  from indexed_read_exact [OF sample_codec this sample_readable, of "Some 1" None]
  have "fst (read_run_log_segment sample_dec working_reader sample_content 6 None (Some 1) None sample_index) =
      Some (page None (Some 1) None sample_log [])"
    using sample_readable readable_take [OF sample_readable, of 0]
    by (simp add: readable_segment_def read_from_start [OF sample_codec])
  then show ?thesis
    by (simp add: sample_log_def sample_record_def page_step_def push_log_line_def line_of_record_def Let_def word_le_nat_alt)
qed

section \<open>Tails of a log with gaps\<close>

text \<open>
  A tail read starts at the last remembered append whose cursor is at least \<^verbatim>\<open>tail\<close> below the newest
  one. When records were dropped, the cursors have gaps, and fewer lines than asked for may follow:
  the same request gives three lines the first time and two lines the second time.
\<close>

definition gap_dec :: "string \<Rightarrow> disk_log_record option" where
  "gap_dec s =
     (if s = [CHR ''a'', LF] then Some (sample_record 1 DiskLogOp_Append ''a'')
      else if s = [CHR ''b'', LF] then Some (sample_record 10 DiskLogOp_Append ''b'')
      else if s = [CHR ''c'', LF] then Some (sample_record 20 DiskLogOp_Append ''c'') else None)"

definition gap_content :: string where
  "gap_content = [CHR ''a'', LF, CHR ''b'', LF, CHR ''c'', LF]"

definition tail_read :: "run_log_read_index \<Rightarrow> log_line list option \<times> run_log_read_index" where
  "tail_read ix = read_run_log_segment gap_dec working_reader gap_content 6 (Some 3) None None ix"

definition gap_log :: "disk_log_record list" where
  "gap_log =
     [sample_record 1 DiskLogOp_Append ''a'', sample_record 10 DiskLogOp_Append ''b'',
      sample_record 20 DiskLogOp_Append ''c'']"

definition gap_enc :: "disk_log_record \<Rightarrow> string option" where
  "gap_enc r = (if r \<in> set gap_log then Some (dlr_line r) else None)"

lemma gap_codec: "codec_ok gap_enc gap_dec"
proof -
  have "LF \<notin> set s \<and> length s < 2 ^ 63 \<and> utf8_valid (s @ [LF]) \<and> gap_dec (s @ [LF]) = Some r"
    if "gap_enc r = Some s" for r s
    using that unfolding gap_enc_def gap_log_def
    by (auto simp: gap_dec_def LF_def between_def sample_record_def split: if_splits)
  then show ?thesis unfolding codec_ok_def by blast
qed

lemma gap_lines:
  "encode_log gap_enc gap_log = gap_content" "encodable gap_enc gap_log"
  "encode_log gap_enc (drop 1 gap_log) = drop 2 gap_content"
  "r \<in> set gap_log \<Longrightarrow> line_size gap_enc r = 2"
  by (auto simp: gap_log_def gap_enc_def encode_line_def gap_content_def sample_record_def line_size_def)

lemma gap_scan:
  "scan_segment gap_dec (\<lambda>_. True) tail after limit 0 gap_content ls ix =
     scan_records gap_enc tail after limit 0 gap_log ls ix"
  "scan_segment gap_dec (\<lambda>_. True) tail after limit 2 (drop 2 gap_content) ls ix =
     scan_records gap_enc tail after limit 2 (drop 1 gap_log) ls ix"
proof -
  have len: "length gap_content = 6" by (simp add: gap_content_def)
  have tl: "encodable gap_enc (drop 1 gap_log)"
    using gap_lines(2) by (auto simp: list_all_iff dest: in_set_dropD)
  show "scan_segment gap_dec (\<lambda>_. True) tail after limit 0 gap_content ls ix =
      scan_records gap_enc tail after limit 0 gap_log ls ix"
    using scan_encoded [OF gap_codec gap_lines(2), of 0 tail after limit ls ix]
    unfolding gap_lines(1) len by (simp only: USIZE_MAX_def) simp
  show "scan_segment gap_dec (\<lambda>_. True) tail after limit 2 (drop 2 gap_content) ls ix =
      scan_records gap_enc tail after limit 2 (drop 1 gap_log) ls ix"
    using scan_encoded [OF gap_codec tl, of 2 tail after limit ls ix]
    unfolding gap_lines(3) length_drop len by (simp only: USIZE_MAX_def) simp
qed

definition gap_index :: run_log_read_index where
  "gap_index =
     \<lparr> ri_segment_epoch = 0, ri_scanned_to = 6, ri_last_append_seq = Some 20,
       ri_append_offsets = [(1, 0), (10, 2), (20, 4)] \<rparr>"

lemma gap_first_read:
  "tail_read read_index_default = (Some (map line_of_record gap_log), gap_index)"
proof -
  have "tail_read read_index_default =
      (case scan_records gap_enc (Some 3) None None 0 gap_log [] (reset_scan read_index_default) of
         (ls, ix) \<Rightarrow> (Some ls, ix))"
    by (simp add: tail_read_def read_run_log_segment_def working_reader_def reset_if_past_end_def
        read_index_default_def start_offset_for_read_def Let_def gap_scan [symmetric])
       (simp add: gap_content_def)
  also have "\<dots> = (Some (map line_of_record gap_log), gap_index)"
    using gap_lines(4)
    by (simp add: gap_log_def page_step_def push_log_line_def sample_record_def is_append_def
        mark_scanned_to_def observe_append_def partition_point_def reset_scan_def
        read_index_default_def gap_index_def RUN_LOG_OFFSET_CACHE_def Let_def word_le_nat_alt
        word_less_nat_alt max_def)
  finally show ?thesis .
qed

lemma tail_read_gap:
  "fst (tail_read read_index_default) = Some (map line_of_record gap_log) \<and>
   fst (tail_read (snd (tail_read read_index_default))) = Some (map line_of_record (drop 1 gap_log))"
proof -
  have start: "start_offset_for_read gap_index (Some 3) None 6 = 2"
    by (simp add: start_offset_for_read_def gap_index_def offset_at_or_before_def partition_point_def
        word_le_nat_alt)
  have c: "take 4 (drop 2 gap_content) = drop 2 gap_content" by (simp add: gap_content_def)
  have "reset_if_past_end 6 gap_index = gap_index"
    by (simp add: reset_if_past_end_def gap_index_def)
  then have "fst (tail_read gap_index) =
      Some (fst (scan_records gap_enc (Some 3) None None 2 (drop 1 gap_log) [] gap_index))"
    by (simp add: tail_read_def read_run_log_segment_def working_reader_def start Let_def
        gap_scan c case_prod_unfold)
  also have "\<dots> = Some (map line_of_record (drop 1 gap_log))"
    by (simp add: scan_records_page gap_log_def page_step_def push_log_line_def sample_record_def Let_def)
  finally show ?thesis by (simp add: gap_first_read)
qed

end
