(* ===== verification/Structured_Log.thy ===== *)
theory Structured_Log
  imports Complex_Main Std_Str
begin

text \<open>
  Structured JSON log records, \<^verbatim>\<open>src/crates/micromux/src/structured_log.rs\<close>: levels, messages and
  fields. A JSON value is what \<^verbatim>\<open>serde_json\<close> parsed; an object is its entries in the order they are
  iterated. A number is what the library tells of it: its value, whether it is an unsigned integer,
  and its text.
\<close>

section \<open>JSON values\<close>

record json_number =
  jn_u64 :: "u64 option"
  jn_f64 :: rat
  jn_text :: string

datatype json =
    Json_Null
  | Json_Bool bool
  | Json_Number json_number
  | Json_String string
  | Json_Array "json list"
  | Json_Object "(string \<times> json) list"

type_synonym json_object = "(string \<times> json) list"

definition ascii_lower :: "char \<Rightarrow> char" where
  "ascii_lower c = (if between 65 90 c then char_of ((of_char c :: nat) + 32) else c)"

definition eq_ignore_ascii_case :: "string \<Rightarrow> string \<Rightarrow> bool" where
  "eq_ignore_ascii_case a b \<longleftrightarrow> map ascii_lower a = map ascii_lower b"

section \<open>Levels\<close>

datatype structured_log_level =
    StructuredLogLevel_Trace | StructuredLogLevel_Debug | StructuredLogLevel_Info
  | StructuredLogLevel_Warn | StructuredLogLevel_Error | StructuredLogLevel_Fatal

fun level_rank :: "structured_log_level \<Rightarrow> nat" where
  "level_rank StructuredLogLevel_Trace = 0"
| "level_rank StructuredLogLevel_Debug = 1"
| "level_rank StructuredLogLevel_Info = 2"
| "level_rank StructuredLogLevel_Warn = 3"
| "level_rank StructuredLogLevel_Error = 4"
| "level_rank StructuredLogLevel_Fatal = 5"

text \<open>The derived order: at least as severe.\<close>

instantiation structured_log_level :: linorder
begin

definition less_eq_structured_log_level :: "structured_log_level \<Rightarrow> structured_log_level \<Rightarrow> bool" where
  "less_eq_structured_log_level a b \<longleftrightarrow> level_rank a \<le> level_rank b"

definition less_structured_log_level :: "structured_log_level \<Rightarrow> structured_log_level \<Rightarrow> bool" where
  "less_structured_log_level a b \<longleftrightarrow> level_rank a < level_rank b"

instance
proof
  fix a b :: structured_log_level
  show "a \<le> b \<Longrightarrow> b \<le> a \<Longrightarrow> a = b"
    by (cases a; cases b) (simp_all add: less_eq_structured_log_level_def)
qed (auto simp: less_eq_structured_log_level_def less_structured_log_level_def)

end

fun canonical :: "structured_log_level \<Rightarrow> string" where
  "canonical StructuredLogLevel_Trace = ''trace''"
| "canonical StructuredLogLevel_Debug = ''debug''"
| "canonical StructuredLogLevel_Info = ''info''"
| "canonical StructuredLogLevel_Warn = ''warn''"
| "canonical StructuredLogLevel_Error = ''error''"
| "canonical StructuredLogLevel_Fatal = ''fatal''"

definition LEVEL_WORDS :: "(string \<times> structured_log_level) list" where
  "LEVEL_WORDS =
     [(''trace'', StructuredLogLevel_Trace), (''debug'', StructuredLogLevel_Debug),
      (''dbg'', StructuredLogLevel_Debug), (''info'', StructuredLogLevel_Info),
      (''information'', StructuredLogLevel_Info), (''notice'', StructuredLogLevel_Info),
      (''warn'', StructuredLogLevel_Warn), (''warning'', StructuredLogLevel_Warn),
      (''error'', StructuredLogLevel_Error), (''err'', StructuredLogLevel_Error),
      (''fatal'', StructuredLogLevel_Fatal), (''critical'', StructuredLogLevel_Fatal),
      (''crit'', StructuredLogLevel_Fatal), (''panic'', StructuredLogLevel_Fatal),
      (''emerg'', StructuredLogLevel_Fatal), (''emergency'', StructuredLogLevel_Fatal),
      (''alert'', StructuredLogLevel_Fatal)]"

definition level_parse :: "string \<Rightarrow> structured_log_level option" where
  "level_parse word =
     map_option snd (List.find (\<lambda>(candidate, _). eq_ignore_ascii_case (trim word) candidate) LEVEL_WORDS)"

definition level_from_number :: "rat \<Rightarrow> structured_log_level" where
  "level_from_number n =
     (if n \<le> 15 then StructuredLogLevel_Trace
      else if n \<le> 25 then StructuredLogLevel_Debug
      else if n \<le> 35 then StructuredLogLevel_Info
      else if n \<le> 45 then StructuredLogLevel_Warn
      else if n \<le> 55 then StructuredLogLevel_Error
      else StructuredLogLevel_Fatal)"

fun level_from_value :: "json \<Rightarrow> structured_log_level option" where
  "level_from_value (Json_String text) = level_parse text"
| "level_from_value (Json_Number n) = Some (level_from_number (jn_f64 n))"
| "level_from_value _ = None"

section \<open>Keys\<close>

definition STRUCTURED_LOG_LEVEL_KEYS :: "string list" where
  "STRUCTURED_LOG_LEVEL_KEYS = [''level'', ''lvl'', ''severity'', ''levelname'', ''loglevel'']"

definition MESSAGE_KEYS :: "string list" where
  "MESSAGE_KEYS = [''message'', ''msg'']"

definition FIELDS_KEY :: string where
  "FIELDS_KEY = ''fields''"

definition key_matches :: "string \<Rightarrow> string list \<Rightarrow> bool" where
  "key_matches key candidates \<longleftrightarrow> list_ex (eq_ignore_ascii_case key) candidates"

definition is_structured_log_level_key :: "string \<Rightarrow> bool" where
  "is_structured_log_level_key key \<longleftrightarrow> list_ex (eq_ignore_ascii_case key) STRUCTURED_LOG_LEVEL_KEYS"

definition find_key :: "json_object \<Rightarrow> string list \<Rightarrow> (string \<times> json) option" where
  "find_key obj candidates = List.find (\<lambda>(key, _). key_matches key candidates) obj"

text \<open>\<^verbatim>\<open>Iterator::find_map\<close>.\<close>

fun find_map :: "('a \<Rightarrow> 'b option) \<Rightarrow> 'a list \<Rightarrow> 'b option" where
  "find_map f [] = None"
| "find_map f (x # xs) = (case f x of None \<Rightarrow> find_map f xs | Some y \<Rightarrow> Some y)"

definition find_fields_object :: "json_object \<Rightarrow> json_object option" where
  "find_fields_object obj =
     find_map (\<lambda>(key, v).
       if eq_ignore_ascii_case key FIELDS_KEY
       then (case v of Json_Object nested \<Rightarrow> Some nested | _ \<Rightarrow> None) else None) obj"

definition structured_log_level_in_object :: "json_object \<Rightarrow> structured_log_level option" where
  "structured_log_level_in_object obj =
     find_map (\<lambda>(_, v). level_from_value v) (filter (\<lambda>(key, _). is_structured_log_level_key key) obj)"

text \<open>\<^verbatim>\<open>Option::or_else\<close>.\<close>

definition or_else :: "'a option \<Rightarrow> 'a option \<Rightarrow> 'a option" where
  "or_else a b = (case a of None \<Rightarrow> b | Some x \<Rightarrow> Some x)"

definition structured_log_level_in_record :: "json_object \<Rightarrow> structured_log_level option" where
  "structured_log_level_in_record obj =
     or_else (structured_log_level_in_object obj)
       (Option.bind (find_fields_object obj) structured_log_level_in_object)"

section \<open>Rendering\<close>

definition hex4 :: "nat \<Rightarrow> string" where
  "hex4 n =
     map (\<lambda>d. char_of (if d < 10 then 48 + d else 87 + d))
       [n div 4096 mod 16, n div 256 mod 16, n div 16 mod 16, n mod 16]"

definition escape_control :: "nat \<Rightarrow> string" where
  "escape_control n =
     (if n = 10 then [CHR 0x5C, CHR ''n''] else if n = 13 then [CHR 0x5C, CHR ''r'']
      else if n = 9 then [CHR 0x5C, CHR ''t''] else [CHR 0x5C, CHR ''u''] @ hex4 n)"

text \<open>
  \<^verbatim>\<open>char::is_control\<close> accepts U+0000 to U+001F and U+007F to U+009F, the latter but for the first
  as the bytes \<open>C2 80\<close> to \<open>C2 9F\<close>.
\<close>

fun sanitize_text :: "string \<Rightarrow> string" where
  "sanitize_text [] = []"
| "sanitize_text (a # s) =
     (if between 0 31 a \<or> of_char a = (127 :: nat) then escape_control (of_char a) @ sanitize_text s
      else if of_char a = (0xC2 :: nat) then
        (case s of
           [] \<Rightarrow> [a]
         | b # s' \<Rightarrow>
             if between 0x80 0x9F b then escape_control (of_char b) @ sanitize_text s'
             else a # sanitize_text s)
      else a # sanitize_text s)"

definition render_scalar :: "(json \<Rightarrow> string) \<Rightarrow> json \<Rightarrow> string" where
  "render_scalar to_string v =
     (case v of
        Json_String text \<Rightarrow> sanitize_text text
      | Json_Null \<Rightarrow> ''null''
      | Json_Bool b \<Rightarrow> (if b then ''true'' else ''false'')
      | Json_Number n \<Rightarrow> jn_text n
      | _ \<Rightarrow> to_string v)"

end
