(* ===== verification/Agent_Logs.thy ===== *)
theory Agent_Logs
  imports Structured_Log Log_Buffer "HOL-Library.Option_ord"
begin

text \<open>
  Log records as agents see them, \<^verbatim>\<open>src/crates/micromux-mcp/src/logproc.rs\<close>: cleaning, splitting of
  embedded JSON objects, filters, limits that keep records whole, and the merge of several services.
  The JSON parser, the pattern of a regular expression, the removal of escape sequences and the
  formatting of dates are libraries and enter as parameters.
\<close>

section \<open>Libraries\<close>

text \<open>
  \<^verbatim>\<open>ll_parse\<close> parses a whole text as one JSON value; \<^verbatim>\<open>ll_stream\<close> parses the first value of a text and
  gives the number of bytes it took; \<^verbatim>\<open>ll_json\<close> prints a value; \<^verbatim>\<open>ll_rfc3339\<close> reads a date as milliseconds
  of the Unix epoch and \<^verbatim>\<open>ll_date\<close> prints one, when it is in the range of dates.
\<close>

record log_library =
  ll_parse :: "string \<Rightarrow> json option"
  ll_stream :: "string \<Rightarrow> (json \<times> nat) option"
  ll_json :: "json \<Rightarrow> string"
  ll_strip_ansi :: "string \<Rightarrow> string"
  ll_rfc3339 :: "string \<Rightarrow> int option"
  ll_date :: "int \<Rightarrow> string option"

section \<open>Embedded JSON objects\<close>

definition parse_json_object :: "log_library \<Rightarrow> string \<Rightarrow> json_object option" where
  "parse_json_object lib line =
     (let trimmed = trim_start line in
      if \<not> prefix ''{'' trimmed then None
      else (case ll_parse lib trimmed of Some (Json_Object obj) \<Rightarrow> Some obj | _ \<Rightarrow> None))"

record record_segment =
  sg_text :: string
  sg_json :: "json_object option"

definition push_plain_segment :: "record_segment list \<Rightarrow> string \<Rightarrow> record_segment list" where
  "push_plain_segment segments s =
     (let s = trim s in
      if s = [] then segments else segments @ [\<lparr> sg_text = s, sg_json = None \<rparr>])"

definition find_from :: "string \<Rightarrow> nat \<Rightarrow> nat option" where
  "find_from s cursor =
     (let t = drop cursor s in
      if CHR ''{'' \<in> set t then Some (cursor + length (takeWhile (\<lambda>c. c \<noteq> CHR ''{'') t)) else None)"

lemma takeWhile_found: "c \<in> set t \<Longrightarrow> length (takeWhile (\<lambda>x. x \<noteq> c) t) < length t"
  by (induction t) auto

lemma find_from_ge: "find_from s cursor = Some i \<Longrightarrow> cursor \<le> i \<and> i < length s"
  using takeWhile_found [of "CHR ''{''" "drop cursor s"]
  by (auto simp: find_from_def Let_def split: if_splits)

function embedded_json_object_spans ::
  "log_library \<Rightarrow> string \<Rightarrow> nat \<Rightarrow> (nat \<times> nat \<times> json_object) list"
where
  "embedded_json_object_spans lib s cursor =
     (case find_from s cursor of
        None \<Rightarrow> []
      | Some start \<Rightarrow>
          (case ll_stream lib (drop start s) of
             Some (Json_Object obj, consumed) \<Rightarrow>
               if consumed = 0 then embedded_json_object_spans lib s (start + 1)
               else (start, start + consumed, obj) #
                    embedded_json_object_spans lib s (start + consumed)
           | _ \<Rightarrow> embedded_json_object_spans lib s (start + 1)))"
  by auto
termination
  by (relation "measure (\<lambda>(lib, s, cursor). length s - cursor)") (auto dest: find_from_ge)

declare embedded_json_object_spans.simps [simp del]

definition slice :: "string \<Rightarrow> nat \<Rightarrow> nat \<Rightarrow> string" where
  "slice s a b = (if a \<le> b \<and> b \<le> length s then take (b - a) (drop a s) else [])"

fun push_spans ::
  "string \<Rightarrow> (nat \<times> nat \<times> json_object) list \<Rightarrow> nat \<Rightarrow> record_segment list \<Rightarrow> record_segment list"
where
  "push_spans s [] cursor segments = push_plain_segment segments (drop cursor s)"
| "push_spans s ((start, stop, obj) # spans) cursor segments =
     push_spans s spans stop
       (push_plain_segment segments (slice s cursor start) @
        [\<lparr> sg_text = trim (slice s start stop), sg_json = Some obj \<rparr>])"

definition record_segments :: "log_library \<Rightarrow> string \<Rightarrow> record_segment list" where
  "record_segments lib s =
     (case parse_json_object lib s of
        Some obj \<Rightarrow> [\<lparr> sg_text = s, sg_json = Some obj \<rparr>]
      | None \<Rightarrow>
          let spans = embedded_json_object_spans lib s 0 in
          if spans = [] then [\<lparr> sg_text = s, sg_json = None \<rparr>] else push_spans s spans 0 [])"

section \<open>Timestamps, messages and fields\<close>

definition TIMESTAMP_KEYS :: "string list" where
  "TIMESTAMP_KEYS = [''@timestamp'', ''timestamp'', ''time'', ''ts'', ''datetime'', ''date'']"

text \<open>A timestamp is a natural number below \<open>2 ^ 64\<close>.\<close>

definition u64_checked :: "nat \<Rightarrow> nat option" where
  "u64_checked n = (if n < 2 ^ 64 then Some n else None)"

definition parse_u64 :: "string \<Rightarrow> nat option" where
  "parse_u64 s = (case parse_unsigned (2 ^ 64 - 1) s of Inl e \<Rightarrow> None | Inr n \<Rightarrow> Some n)"

definition numeric_timestamp_to_unix_ms :: "nat \<Rightarrow> nat option" where
  "numeric_timestamp_to_unix_ms v =
     (if 10 ^ 18 \<le> v then Some (v div 1000000)
      else if 10 ^ 15 \<le> v then Some (v div 1000)
      else if 10 ^ 12 \<le> v then Some v
      else if 10 ^ 9 \<le> v then u64_checked (v * 1000)
      else None)"

fun fraction_millis :: "nat \<Rightarrow> string \<Rightarrow> nat" where
  "fraction_millis scale [] = 0"
| "fraction_millis scale (c # cs) =
     (case digit c of None \<Rightarrow> 0 | Some d \<Rightarrow> d * scale) + fraction_millis (scale div 10) cs"

definition decimal_timestamp_to_unix_ms :: "string \<Rightarrow> nat option" where
  "decimal_timestamp_to_unix_ms raw =
     (case split_once (CHR ''.'') raw of
        None \<Rightarrow> None
      | Some (whole, fraction) \<Rightarrow>
          if whole = [] \<or> \<not> list_all (\<lambda>c. digit c \<noteq> None) whole then None
          else if \<not> list_all (\<lambda>c. digit c \<noteq> None) fraction then None
          else
            (case parse_u64 whole of
               None \<Rightarrow> None
             | Some whole \<Rightarrow>
                 if 10 ^ 12 \<le> whole then numeric_timestamp_to_unix_ms whole
                 else if whole < 10 ^ 9 then None
                 else Option.bind (u64_checked (whole * 1000)) (\<lambda>millis.
                        u64_checked (millis + fraction_millis 100 (take 3 fraction)))))"

definition source_timestamp_of_value :: "log_library \<Rightarrow> json \<Rightarrow> nat option" where
  "source_timestamp_of_value lib v =
     (case v of
        Json_String s \<Rightarrow>
          let s = trim s in
          (case parse_u64 s of
             Some number \<Rightarrow> numeric_timestamp_to_unix_ms number
           | None \<Rightarrow>
               (case decimal_timestamp_to_unix_ms s of
                  Some t \<Rightarrow> Some t
                | None \<Rightarrow>
                    Option.bind (ll_rfc3339 lib s) (\<lambda>ms. if 0 \<le> ms then Some (nat ms) else None)))
      | Json_Number n \<Rightarrow>
          or_else (Option.bind (jn_u64 n) (\<lambda>w. numeric_timestamp_to_unix_ms (unat w)))
            (decimal_timestamp_to_unix_ms (jn_text n))
      | _ \<Rightarrow> None)"

definition source_timestamp_in_object :: "log_library \<Rightarrow> json_object \<Rightarrow> nat option" where
  "source_timestamp_in_object lib obj =
     find_map (\<lambda>(_, v). source_timestamp_of_value lib v)
       (filter (\<lambda>(key, _). key_matches key TIMESTAMP_KEYS) obj)"

definition source_timestamp :: "log_library \<Rightarrow> json_object \<Rightarrow> nat option" where
  "source_timestamp lib obj =
     or_else (source_timestamp_in_object lib obj)
       (Option.bind (find_fields_object obj) (source_timestamp_in_object lib))"

definition message_in_object :: "log_library \<Rightarrow> json_object \<Rightarrow> string option" where
  "message_in_object lib obj =
     map_option (\<lambda>(_, v). render_scalar (ll_json lib) v)
       (or_else (find_key obj MESSAGE_KEYS)
          (Option.bind (find_fields_object obj) (\<lambda>fs. find_key fs MESSAGE_KEYS)))"

text \<open>A \<^verbatim>\<open>BTreeMap\<close> is its entries in the order of the keys; \<^verbatim>\<open>or_insert\<close> keeps an entry that is there.\<close>

fun bt_or_insert :: "string \<Rightarrow> 'a \<Rightarrow> (string \<times> 'a) list \<Rightarrow> (string \<times> 'a) list" where
  "bt_or_insert k v [] = [(k, v)]"
| "bt_or_insert k v ((k', v') # m) =
     (if k < k' then (k, v) # (k', v') # m
      else if k = k' then (k', v') # m
      else (k', v') # bt_or_insert k v m)"

definition field_skipped :: "bool \<Rightarrow> string \<times> json \<Rightarrow> bool" where
  "field_skipped top_level = (\<lambda>(key, v).
     is_structured_log_level_key key \<or> key_matches key MESSAGE_KEYS \<or> key_matches key TIMESTAMP_KEYS \<or>
     (top_level \<and> eq_ignore_ascii_case key FIELDS_KEY \<and> (case v of Json_Object _ \<Rightarrow> True | _ \<Rightarrow> False)))"

definition append_fields :: "json_object \<Rightarrow> bool \<Rightarrow> (string \<times> json) list \<Rightarrow> (string \<times> json) list" where
  "append_fields obj top_level fs =
     fold (\<lambda>(key, v) fs. if field_skipped top_level (key, v) then fs else bt_or_insert key v fs) obj fs"

definition structured_fields :: "json_object \<Rightarrow> (string \<times> json) list" where
  "structured_fields obj =
     (let fs = append_fields obj True [] in
      case find_fields_object obj of
        None \<Rightarrow> fs | Some nested \<Rightarrow> append_fields nested False fs)"

definition render_compact_field_value :: "log_library \<Rightarrow> json \<Rightarrow> string" where
  "render_compact_field_value lib v =
     (case v of
        Json_Array vs \<Rightarrow> ''[array:'' @ decimal (length vs) @ '']''
      | Json_Object fs \<Rightarrow> ''{object:'' @ decimal (length fs) @ ''}''
      | _ \<Rightarrow> render_scalar (ll_json lib) v)"

definition timestamp_label :: "log_library \<Rightarrow> nat \<Rightarrow> string" where
  "timestamp_label lib ms =
     (if 2 ^ 63 \<le> ms then decimal ms
      else (case ll_date lib (int ms) of None \<Rightarrow> decimal ms | Some s \<Rightarrow> s))"

definition ascii_upper :: "char \<Rightarrow> char" where
  "ascii_upper c = (if between 97 122 c then char_of ((of_char c :: nat) - 32) else c)"

definition compact_line ::
  "log_library \<Rightarrow> nat \<Rightarrow> structured_log_level option \<Rightarrow> string option \<Rightarrow> (string \<times> json) list \<Rightarrow> string"
where
  "compact_line lib ms level message fs =
     timestamp_label lib ms @
     (case level of None \<Rightarrow> [] | Some l \<Rightarrow> '' '' @ map ascii_upper (canonical l)) @
     (case message of None \<Rightarrow> [] | Some m \<Rightarrow> if m = [] then [] else '' '' @ m) @
     concat (map (\<lambda>(key, v). '' '' @ sanitize_text key @ ''='' @ render_compact_field_value lib v) fs)"

section \<open>The text of a record\<close>

definition drop_cr :: "string \<Rightarrow> string" where
  "drop_cr part = (case strip_suffix [CR] part of None \<Rightarrow> part | Some p \<Rightarrow> p)"

fun split_char :: "char \<Rightarrow> string \<Rightarrow> string \<Rightarrow> string list" where
  "split_char d part [] = [part]"
| "split_char d part (c # cs) =
     (if c = d then part # split_char d [] cs else split_char d (part @ [c]) cs)"

definition join_visual_rows :: "string list \<Rightarrow> string" where
  "join_visual_rows rows =
     foldl (\<lambda>out row.
       if out = [] then row
       else if hd row \<in> set ''=,:;.)]}%'' then out @ row
       else out @ '' '' @ row) [] (filter (\<lambda>row. row \<noteq> []) (map trim rows))"

definition normalize_record_text :: "log_library \<Rightarrow> string \<Rightarrow> bool \<Rightarrow> string" where
  "normalize_record_text lib s flatten_rows =
     (if LF \<notin> set s then trim_end (drop_cr s)
      else
        let parts = map drop_cr (split_char LF [] s);
            kept = rev (dropWhile (\<lambda>part. trim (ll_strip_ansi lib part) = []) (rev parts));
            rows = map trim_end kept
        in if flatten_rows then join_visual_rows rows else join_with [LF] rows)"

section \<open>Entries\<close>

record processed_entry =
  pe_service :: "string option"
  pe_seq :: u64
  pe_run_generation :: u64
  pe_timestamp_unix_ms :: nat
  pe_source_timestamp_unix_ms :: "nat option"
  pe_line :: string
  pe_level :: "string option"
  pe_message :: "string option"
  pe_fields :: "(string \<times> json) list"

datatype log_format = LogFormat_Full | LogFormat_Compact

record shape_options =
  sh_raw :: bool
  sh_grep :: "(string \<Rightarrow> bool) option"
  sh_context :: usize
  sh_min_level :: "structured_log_level option"
  sh_since_unix_ms :: "nat option"
  sh_trace_id :: "string option"
  sh_limit :: "usize option"
  sh_format :: log_format

definition push_shaped_segment ::
  "log_library \<Rightarrow> shape_options \<Rightarrow> log_line \<Rightarrow> string option \<Rightarrow> bool \<Rightarrow> record_segment \<Rightarrow>
   (processed_entry \<times> string) list \<Rightarrow> (processed_entry \<times> string) list"
where
  "push_shaped_segment lib opts rec raw_line apply_grep seg out =
     (let level = Option.bind (sg_json seg) structured_log_level_in_record;
          source = Option.bind (sg_json seg) (source_timestamp lib);
          ingested = unat (ll_timestamp_unix_ms rec);
          effective = (case source of None \<Rightarrow> ingested | Some t \<Rightarrow> t)
      in if apply_grep \<and> (case sh_grep opts of None \<Rightarrow> False | Some m \<Rightarrow> \<not> m (sg_text seg)) then out
         else if (case sh_since_unix_ms opts of None \<Rightarrow> False | Some since \<Rightarrow> effective < since) then out
         else if (case sh_trace_id opts of None \<Rightarrow> False | Some i \<Rightarrow> \<not> sublist i (sg_text seg)) then out
         else if (case sh_min_level opts of
                    None \<Rightarrow> False
                  | Some m \<Rightarrow> (case level of None \<Rightarrow> True | Some l \<Rightarrow> \<not> m \<le> l)) then out
         else
           let message = Option.bind (sg_json seg) (message_in_object lib);
               fs = (case sg_json seg of None \<Rightarrow> [] | Some obj \<Rightarrow> structured_fields obj);
               line =
                 (if sh_format opts = LogFormat_Compact \<and> sg_json seg \<noteq> None
                  then compact_line lib effective level message fs
                  else if sh_raw opts
                  then (case raw_line of None \<Rightarrow> sg_text seg | Some l \<Rightarrow> l)
                  else sg_text seg)
           in out @ [(\<lparr> pe_service = None, pe_seq = ll_seq rec,
                        pe_run_generation = ll_run_generation rec,
                        pe_timestamp_unix_ms = ingested, pe_source_timestamp_unix_ms = source,
                        pe_line = line, pe_level = map_option canonical level,
                        pe_message = message, pe_fields = fs \<rparr>,
                      if apply_grep then [] else sg_text seg)])"

text \<open>The entries within \<^verbatim>\<open>context\<close> places of a match.\<close>

definition apply_grep_context ::
  "(string \<Rightarrow> bool) \<Rightarrow> usize \<Rightarrow> (processed_entry \<times> string) list \<Rightarrow> (processed_entry \<times> string) list"
where
  "apply_grep_context matches ctxt out =
     map snd (filter
       (\<lambda>(i, _). list_ex (\<lambda>(j, e). matches (snd e) \<and> j - ctxt \<le> i \<and>
                     i \<le> min (usize_saturating_add j ctxt) (length out - 1)) (enumerate 0 out))
       (enumerate 0 out))"

definition same_record :: "processed_entry \<Rightarrow> processed_entry \<Rightarrow> bool" where
  "same_record a b \<longleftrightarrow>
     pe_service a = pe_service b \<and> pe_run_generation a = pe_run_generation b \<and> pe_seq a = pe_seq b"

text \<open>
  The last entries, at least \<^verbatim>\<open>limit\<close> of them, and as many more as belong to the first one's record; the
  flag tells that entries were dropped.
\<close>

definition tail_preserving_record_boundaries ::
  "processed_entry list \<Rightarrow> usize \<Rightarrow> processed_entry list \<times> bool"
where
  "tail_preserving_record_boundaries es limit =
     (if limit = 0 then ([], es \<noteq> [])
      else if length es \<le> limit then (es, False)
      else
        let start = length es - limit;
            back = length (takeWhile (same_record (es ! start)) (rev (take start es)));
            start = start - back
        in (drop start es, 0 < start))"

definition truncate_preserving_record_boundaries ::
  "processed_entry list \<Rightarrow> usize \<Rightarrow> processed_entry list \<times> bool"
where
  "truncate_preserving_record_boundaries es limit =
     (if limit = 0 then ([], es \<noteq> [])
      else if length es \<le> limit then (es, False)
      else
        let stop = limit + length (takeWhile (same_record (es ! (limit - 1))) (drop limit es))
        in (take stop es, stop < length es))"

definition shape :: "log_library \<Rightarrow> log_line list \<Rightarrow> shape_options \<Rightarrow> processed_entry list" where
  "shape lib records opts =
     (let apply_grep_per_entry = (sh_grep opts = None \<or> sh_context opts = 0);
          candidates =
            fold (\<lambda>rec out.
              let segments =
                    record_segments lib (normalize_record_text lib (ll_strip_ansi lib (ll_line rec)) True);
                  raw_line =
                    (if sh_raw opts \<and> length segments = 1
                     then Some (normalize_record_text lib (ll_line rec) False) else None)
              in fold (push_shaped_segment lib opts rec raw_line apply_grep_per_entry) segments out)
              records [];
          candidates =
            (case sh_grep opts of
               Some matches \<Rightarrow>
                 if apply_grep_per_entry then candidates
                 else apply_grep_context matches (sh_context opts) candidates
             | None \<Rightarrow> candidates);
          out = map fst candidates
      in case sh_limit opts of
           None \<Rightarrow> out | Some limit \<Rightarrow> fst (tail_preserving_record_boundaries out limit))"

section \<open>Merging services\<close>

type_synonym groups = "(string option \<times> processed_entry list) list"

fun push_group :: "processed_entry \<Rightarrow> groups \<Rightarrow> groups" where
  "push_group e [] = [(pe_service e, [e])]"
| "push_group e ((s, es) # gs) =
     (if pe_service e < s then (pe_service e, [e]) # (s, es) # gs
      else if pe_service e = s then (s, es @ [e]) # gs
      else (s, es) # push_group e gs)"

definition entry_sort_timestamp :: "processed_entry \<Rightarrow> nat" where
  "entry_sort_timestamp e =
     (case pe_source_timestamp_unix_ms e of None \<Rightarrow> pe_timestamp_unix_ms e | Some t \<Rightarrow> t)"

definition head_before ::
  "string option \<times> processed_entry \<Rightarrow> string option \<times> processed_entry \<Rightarrow> bool"
where
  "head_before a b \<longleftrightarrow>
     (let ta = entry_sort_timestamp (snd a); tb = entry_sort_timestamp (snd b) in
      ta < tb \<or> (ta = tb \<and> (fst a < fst b \<or> (fst a = fst b \<and> pe_seq (snd a) < pe_seq (snd b)))))"

text \<open>\<^verbatim>\<open>Iterator::min_by\<close>: the first of the least ones.\<close>

definition min_head :: "(string option \<times> processed_entry) list \<Rightarrow> (string option \<times> processed_entry) option" where
  "min_head hs =
     (case hs of
        [] \<Rightarrow> None
      | h # hs \<Rightarrow> Some (foldl (\<lambda>best x. if head_before x best then x else best) h hs))"

definition select_group :: "groups \<Rightarrow> string option option" where
  "select_group gs =
     map_option fst (min_head
       (List.map_filter (\<lambda>(s, es). case es of [] \<Rightarrow> None | e # _ \<Rightarrow> Some (s, e)) gs))"

definition same_cursor :: "processed_entry \<Rightarrow> processed_entry \<Rightarrow> bool" where
  "same_cursor e q \<longleftrightarrow> pe_run_generation q = pe_run_generation e \<and> pe_seq q = pe_seq e"

text \<open>What is left of a group once its first record was taken.\<close>

definition take_record :: "processed_entry list \<Rightarrow> processed_entry list \<times> processed_entry list" where
  "take_record es =
     (case es of
        [] \<Rightarrow> ([], [])
      | e # es \<Rightarrow> (e # takeWhile (same_cursor e) es, dropWhile (same_cursor e) es))"

definition set_group :: "string option \<Rightarrow> processed_entry list \<Rightarrow> groups \<Rightarrow> groups" where
  "set_group s es gs = (if es = [] then im_remove s gs else im_modify s (\<lambda>_. es) gs)"

definition groups_size :: "('k \<times> 'v list) list \<Rightarrow> nat" where
  "groups_size gs = sum_list (map (\<lambda>(s, es). Suc (length es)) gs)"

lemma groups_size_modify:
  "im_get gs s = Some es \<Longrightarrow> length es' < length es \<Longrightarrow>
   groups_size (im_modify s (\<lambda>_. es') gs) < groups_size gs"
  by (induction gs) (auto simp: groups_size_def split: if_splits)

lemma groups_size_remove_le: "groups_size (im_remove s gs) \<le> groups_size gs"
  by (induction gs) (auto simp: groups_size_def)

lemma groups_size_remove: "im_get gs s = Some es \<Longrightarrow> groups_size (im_remove s gs) < groups_size gs"
proof (induction gs)
  case (Cons g gs)
  show ?case
  proof (cases "fst g = s")
    case True
    then have "im_remove s (g # gs) = im_remove s gs" by (cases g) simp
    then show ?thesis using groups_size_remove_le [of s gs] by (cases g) (simp add: groups_size_def)
  next
    case False
    then show ?thesis using Cons by (cases g) (auto simp: groups_size_def)
  qed
qed simp

lemma take_record_shorter: "snd (take_record es) \<noteq> [] \<Longrightarrow> length (snd (take_record es)) < length es"
  by (auto simp: take_record_def length_dropWhile_le less_Suc_eq_le split: list.splits)

lemma set_group_smaller:
  "im_get gs s = Some es \<Longrightarrow> groups_size (set_group s (snd (take_record es)) gs) < groups_size gs"
  by (simp add: set_group_def groups_size_remove groups_size_modify take_record_shorter)

function merge_groups :: "groups \<Rightarrow> processed_entry list" where
  "merge_groups gs =
     (case select_group gs of
        None \<Rightarrow> []
      | Some s \<Rightarrow>
          (case im_get gs s of
             None \<Rightarrow> []
           | Some es \<Rightarrow>
               fst (take_record es) @ merge_groups (set_group s (snd (take_record es)) gs)))"
  by auto
termination
  by (relation "measure groups_size") (auto intro: set_group_smaller)

declare merge_groups.simps [simp del]

definition merge_preserving_service_order :: "processed_entry list \<Rightarrow> processed_entry list" where
  "merge_preserving_service_order es = merge_groups (fold push_group es [])"

end
