(* ===== verification/Agent_Logs_Facts.thy ===== *)
theory Agent_Logs_Facts
  imports Agent_Logs "HOL-Library.Multiset"
begin

text \<open>
  What the limits and the merge of agent-facing log entries guarantee: a limit never splits the
  entries of one record, and the merge keeps every service's entries in their order and every
  record together.
\<close>

section \<open>Entries of one record\<close>

lemma same_record_refl [simp]: "same_record a a"
  by (simp add: same_record_def)

lemma same_record_sym: "same_record a b \<longleftrightarrow> same_record b a"
  by (auto simp: same_record_def)

lemma same_record_trans: "same_record a b \<Longrightarrow> same_record b c \<Longrightarrow> same_record a c"
  by (simp add: same_record_def)

lemma same_record_cut: "\<not> same_record b x \<Longrightarrow> same_record b y \<Longrightarrow> \<not> same_record x y"
  by (auto simp: same_record_def)

text \<open>The entries of every record stand next to each other.\<close>

fun records_whole :: "processed_entry list \<Rightarrow> bool" where
  "records_whole [] \<longleftrightarrow> True"
| "records_whole (e # es) \<longleftrightarrow>
     list_all (\<lambda>q. \<not> same_record e q) (dropWhile (same_record e) es) \<and> records_whole es"

lemma in_dropWhile: "q \<in> set (drop j es) \<Longrightarrow> j < length es \<Longrightarrow> \<not> P (es ! i) \<Longrightarrow> i \<le> j \<Longrightarrow> q \<in> set (dropWhile P es)"
proof (induction es arbitrary: i j)
  case (Cons e es)
  show ?case
  proof (cases "P e")
    case True
    then obtain i' where i: "i = Suc i'" using Cons.prems(3) by (cases i) auto
    then obtain j' where j: "j = Suc j'" using Cons.prems(4) by (cases j) auto
    show ?thesis using Cons.IH [of j' i'] Cons.prems True i j by simp
  next
    case False
    then show ?thesis using Cons.prems(1) set_drop_subset [of j "e # es"] by auto
  qed
qed simp

lemma records_whole_between:
  "records_whole es \<Longrightarrow> i \<le> j \<Longrightarrow> j \<le> k \<Longrightarrow> k < length es \<Longrightarrow> same_record (es ! i) (es ! k) \<Longrightarrow>
   same_record (es ! i) (es ! j)"
proof (induction es arbitrary: i j k)
  case (Cons e es)
  show ?case
  proof (cases i)
    case (Suc i')
    then obtain j' k' where "j = Suc j'" "k = Suc k'" using Cons.prems(2,3) by (cases j; cases k) auto
    then show ?thesis using Cons.IH [of i' j' k'] Cons.prems Suc by simp
  next
    case 0
    show ?thesis
    proof (cases j)
      case (Suc j')
      then obtain k' where k: "k = Suc k'" using Cons.prems(3) by (cases k) auto
      show ?thesis
      proof (rule ccontr)
        assume n: "\<not> same_record ((e # es) ! i) ((e # es) ! j)"
        have "es ! k' \<in> set (drop k' es)"
          using Cons.prems(4) k Cons_nth_drop_Suc [of k' es] by (metis Suc_less_eq length_Cons list.set_intros(1))
        then have "es ! k' \<in> set (dropWhile (same_record e) es)"
          using n 0 Suc k Cons.prems(3,4) by (intro in_dropWhile [of _ k' _ _ j']) auto
        then show False using Cons.prems(1,5) 0 k by (auto simp: list_all_iff)
      qed
    qed (use 0 in simp)
  qed
qed simp

text \<open>A cut between two records separates all records.\<close>

lemma records_cut:
  assumes "records_whole es" "0 < n" "n < length es" "\<not> same_record (es ! (n - 1)) (es ! n)"
    and "x \<in> set (take n es)" "y \<in> set (drop n es)"
  shows "\<not> same_record x y"
proof
  assume xy: "same_record x y"
  obtain i where i: "i < n" "x = es ! i" using assms(3,5) by (auto simp: in_set_conv_nth)
  obtain d where d: "d < length es - n" "y = es ! (n + d)"
    using assms(6) by (auto simp: in_set_conv_nth)
  obtain k where k: "n \<le> k" "k < length es" "y = es ! k"
    by (rule that [of "n + d"]) (use d in simp_all)
  have "same_record x (es ! (n - 1))" "same_record x (es ! n)"
    using records_whole_between [OF assms(1), of i "n - 1" k] records_whole_between [OF assms(1), of i n k]
      i k xy by auto
  then show False using assms(4) same_record_sym same_record_trans by blast
qed

lemma truncate_whole:
  assumes "records_whole es"
  shows "\<exists>n \<le> length es. truncate_preserving_record_boundaries es limit = (take n es, n < length es) \<and>
    min limit (length es) \<le> n \<and>
    (\<forall>x \<in> set (take n es). \<forall>y \<in> set (drop n es). \<not> same_record x y)"
proof -
  consider (zero) "limit = 0" | (short) "limit \<noteq> 0" "length es \<le> limit" | (long) "0 < limit" "limit < length es"
    by linarith
  then show ?thesis
  proof cases
    case zero
    then show ?thesis by (intro exI [of _ 0]) (simp add: truncate_preserving_record_boundaries_def)
  next
    case short
    then show ?thesis
      by (intro exI [of _ "length es"]) (simp add: truncate_preserving_record_boundaries_def)
  next
    case long
    let ?b = "es ! (limit - 1)"
    let ?t = "takeWhile (same_record ?b) (drop limit es)"
    let ?n = "limit + length ?t"
    have n: "?n \<le> length es" using length_takeWhile_le [of "same_record ?b" "drop limit es"] long by simp
    have eq: "truncate_preserving_record_boundaries es limit = (take ?n es, ?n < length es)"
      using long by (simp add: truncate_preserving_record_boundaries_def Let_def)
    have last: "same_record ?b (es ! (?n - 1))"
    proof (cases "?t = []")
      case False
      then have "length ?t - 1 < length ?t" by simp
      then have "same_record ?b (?t ! (length ?t - 1))" using nth_mem set_takeWhileD by metis
      moreover have "?t ! (length ?t - 1) = es ! (?n - 1)"
      proof -
        have "?t ! (length ?t - 1) = drop limit es ! (length ?t - 1)"
          using \<open>length ?t - 1 < length ?t\<close> by (rule takeWhile_nth)
        also have "\<dots> = es ! (limit + (length ?t - 1))" using long by simp
        also have "limit + (length ?t - 1) = ?n - 1" using \<open>length ?t - 1 < length ?t\<close> by linarith
        finally show ?thesis .
      qed
      ultimately show ?thesis by simp
    qed simp
    have cut: "\<not> same_record (es ! (?n - 1)) (es ! ?n)" if "?n < length es"
    proof -
      have "length ?t < length (drop limit es)" using that by simp
      then have "\<not> same_record ?b (drop limit es ! length ?t)" by (rule nth_length_takeWhile)
      then have "\<not> same_record ?b (es ! ?n)" using long by simp
      then show ?thesis using last same_record_trans by blast
    qed
    show ?thesis
    proof (cases "?n < length es")
      case True
      then show ?thesis
        using eq n records_cut [OF assms _ True cut [OF True]] long by (intro exI [of _ ?n]) auto
    next
      case False
      then show ?thesis using eq n by (intro exI [of _ ?n]) auto
    qed
  qed
qed

lemma tail_whole:
  assumes "records_whole es"
  shows "\<exists>n \<le> length es. tail_preserving_record_boundaries es limit = (drop n es, 0 < n) \<and>
    min limit (length es) \<le> length es - n \<and>
    (\<forall>x \<in> set (take n es). \<forall>y \<in> set (drop n es). \<not> same_record x y)"
proof -
  consider (zero) "limit = 0" | (short) "limit \<noteq> 0" "length es \<le> limit" | (long) "0 < limit" "limit < length es"
    by linarith
  then show ?thesis
  proof cases
    case zero
    then show ?thesis
      by (intro exI [of _ "length es"]) (simp add: tail_preserving_record_boundaries_def)
  next
    case short
    then show ?thesis by (intro exI [of _ 0]) (simp add: tail_preserving_record_boundaries_def)
  next
    case long
    let ?s = "length es - limit"
    let ?b = "es ! ?s" and ?r = "rev (take ?s es)"
    let ?t = "takeWhile (same_record ?b) ?r"
    let ?n = "?s - length ?t"
    have s: "0 < ?s" "?s < length es" using long by simp_all
    have lr: "length ?r = ?s" using s by simp
    have t: "length ?t \<le> ?s" using length_takeWhile_le [of "same_record ?b" ?r] lr by linarith
    have eq: "tail_preserving_record_boundaries es limit = (drop ?n es, 0 < ?n)"
      using long by (simp add: tail_preserving_record_boundaries_def Let_def less_diff_conv add.commute)
    have rn: "?r ! i = es ! (?s - 1 - i)" if "i < ?s" for i
      using that s by (simp add: rev_nth)
    have first: "same_record ?b (es ! ?n)"
    proof (cases "?t = []")
      case False
      then have l: "length ?t - 1 < length ?t" by simp
      then have "same_record ?b (?t ! (length ?t - 1))" using nth_mem set_takeWhileD by metis
      moreover have "?t ! (length ?t - 1) = ?r ! (length ?t - 1)" using l by (rule takeWhile_nth)
      moreover have "?r ! (length ?t - 1) = es ! ?n"
        using rn [of "length ?t - 1"] l t by simp
      ultimately show ?thesis by simp
    qed simp
    have cut: "\<not> same_record (es ! (?n - 1)) (es ! ?n)" if "0 < ?n"
    proof -
      have "length ?t < length ?r" using that lr by linarith
      then have "\<not> same_record ?b (?r ! length ?t)" by (rule nth_length_takeWhile)
      moreover have "?r ! length ?t = es ! (?n - 1)" using rn [of "length ?t"] that by simp
      ultimately have "\<not> same_record ?b (es ! (?n - 1))"
        by (simp only: not_False_eq_True)
      then show ?thesis using first by (rule same_record_cut)
    qed
    show ?thesis
    proof (cases "0 < ?n")
      case True
      have "?n < length es" using s by linarith
      then show ?thesis
        using eq records_cut [OF assms True _ cut [OF True]] long by (intro exI [of _ ?n]) auto
    next
      case False
      then show ?thesis using eq by (intro exI [of _ ?n]) auto
    qed
  qed
qed

section \<open>Grouping by service\<close>

definition of_service :: "string option \<Rightarrow> processed_entry list \<Rightarrow> processed_entry list" where
  "of_service s es = filter (\<lambda>e. pe_service e = s) es"

lemma of_service_append [simp]: "of_service s (es @ es') = of_service s es @ of_service s es'"
  by (simp add: of_service_def)

definition group_of :: "groups \<Rightarrow> string option \<Rightarrow> processed_entry list" where
  "group_of gs s = (case im_get gs s of None \<Rightarrow> [] | Some es \<Rightarrow> es)"

text \<open>Groups are sorted by service, none is empty, and each holds entries of its service.\<close>

definition groups_ok :: "groups \<Rightarrow> bool" where
  "groups_ok gs \<longleftrightarrow>
     distinct (im_keys gs) \<and>
     (\<forall>s es. im_get gs s = Some es \<longrightarrow> es \<noteq> [] \<and> (\<forall>e \<in> set es. pe_service e = s))"

lemma push_group_keys: "set (im_keys (push_group e gs)) = insert (pe_service e) (set (im_keys gs))"
  by (induction e gs rule: push_group.induct) auto

lemma push_group_sorted:
  "sorted_wrt (<) (im_keys gs) \<Longrightarrow> sorted_wrt (<) (im_keys (push_group e gs))"
  by (induction e gs rule: push_group.induct) (auto simp: push_group_keys)

lemma push_group_get:
  "sorted_wrt (<) (im_keys gs) \<Longrightarrow>
   im_get (push_group e gs) s =
     (if s = pe_service e then Some (group_of gs s @ [e]) else im_get gs s)"
proof (induction e gs rule: push_group.induct)
  case (2 e s' es gs)
  have sorted: "sorted_wrt (<) (im_keys gs)" and above: "\<And>t. t \<in> set (im_keys gs) \<Longrightarrow> s' < t"
    using 2(2) by auto
  have none: "im_get gs t = None" if "t \<le> s'" for t
    using above [of t] that by (auto simp: im_get_None)
  consider "pe_service e < s'" | "pe_service e = s'" | "s' < pe_service e" by fastforce
  then show ?case
  proof cases
    case 1
    then show ?thesis using none [of "pe_service e"] by (auto simp: group_of_def)
  next
    case b: 2
    then show ?thesis using none [of s'] by (auto simp: group_of_def)
  next
    case 3
    then show ?thesis using 2(1) [OF _ _ sorted] by (auto simp: group_of_def)
  qed
qed (auto simp: group_of_def)

lemma group_of_service: "groups_ok gs \<Longrightarrow> e \<in> set (group_of gs s) \<Longrightarrow> pe_service e = s"
  by (cases "im_get gs s") (auto simp: group_of_def groups_ok_def)

lemma groups_of_entries:
  "sorted_wrt (<) (im_keys (fold push_group es gs)) \<and>
   groups_ok (fold push_group es gs) \<and>
   (\<forall>s. group_of (fold push_group es gs) s = group_of gs s @ of_service s es)"
  if "sorted_wrt (<) (im_keys gs)" "groups_ok gs" for gs
  using that
proof (induction es arbitrary: gs)
  case Nil
  then show ?case by (simp add: of_service_def)
next
  case (Cons e es)
  let ?g = "push_group e gs"
  have sorted: "sorted_wrt (<) (im_keys ?g)" by (rule push_group_sorted [OF Cons.prems(1)])
  have ok: "groups_ok ?g"
    using Cons.prems(2) sorted[unfolded strict_sorted_iff]
      group_of_service [OF Cons.prems(2)]
    by (auto simp: groups_ok_def push_group_get [OF Cons.prems(1)] split: if_splits)
  have get: "group_of ?g s = group_of gs s @ of_service s [e]" for s
    by (simp add: group_of_def push_group_get [OF Cons.prems(1)] of_service_def)
  show ?case using Cons.IH [OF sorted ok] by (simp add: get of_service_def)
qed

section \<open>The merge\<close>

lemma select_group_Some:
  assumes "groups_ok gs" "select_group gs = Some s"
  shows "\<exists>e es. im_get gs s = Some (e # es)"
proof -
  let ?hs = "List.map_filter (\<lambda>(s, es). case es of [] \<Rightarrow> None | e # _ \<Rightarrow> Some (s, e)) gs"
  have fold: "foldl (\<lambda>best x. if head_before x best then x else best) h xs \<in> set (h # xs)" for h xs
    by (induction xs arbitrary: h) (auto split: if_splits)
  obtain h where h: "min_head ?hs = Some h" "fst h = s"
    using assms(2) by (auto simp: select_group_def)
  then have "h \<in> set ?hs"
    using fold by (auto simp: min_head_def split: list.splits)
  then obtain e es where "(s, e # es) \<in> set gs"
    using h(2) by (auto simp: map_filter_def split: list.splits)
  moreover have "im_wf gs" using assms(1) by (simp add: groups_ok_def im_wf_def)
  ultimately show ?thesis using im_get_in_set by fastforce
qed

lemma select_group_None:
  assumes "groups_ok gs" "select_group gs = None"
  shows "gs = []"
proof (rule ccontr)
  assume "gs \<noteq> []"
  then obtain s es gs' where gs: "gs = (s, es) # gs'" by (cases gs) auto
  then have "im_get gs s = Some es" by simp
  then have "es \<noteq> []" using assms(1) unfolding groups_ok_def by blast
  then obtain e es' where "es = e # es'" by (cases es) auto
  then show False
    using assms(2) gs by (simp add: select_group_def min_head_def map_filter_def)
qed

lemma set_group_get:
  "distinct (im_keys gs) \<Longrightarrow> im_get gs s = Some es \<Longrightarrow>
   im_get (set_group s es' gs) t = (if t = s then (if es' = [] then None else Some es') else im_get gs t)"
  by (simp add: set_group_def im_get_remove im_get_modify)

lemma set_group_keys: "distinct (im_keys gs) \<Longrightarrow> distinct (im_keys (set_group s es' gs))"
  by (simp add: set_group_def im_keys_remove distinct_removeAll)

lemma take_record_append: "fst (take_record es) @ snd (take_record es) = es"
  by (cases es) (simp_all add: take_record_def)

lemma set_group_ok:
  assumes "groups_ok gs" "im_get gs s = Some es"
  shows "groups_ok (set_group s (snd (take_record es)) gs)"
proof -
  have "set (snd (take_record es)) \<subseteq> set es"
    by (metis take_record_append set_append sup_ge2)
  then show ?thesis
    using assms set_group_keys [of gs s] set_group_get [of gs s es "snd (take_record es)"]
    by (auto simp: groups_ok_def split: if_splits)
qed

text \<open>The merge keeps the entries of every service in their order.\<close>

lemma merge_groups_service:
  "groups_ok gs \<Longrightarrow> of_service t (merge_groups gs) = group_of gs t"
proof (induction gs rule: merge_groups.induct)
  case (1 gs)
  show ?case
  proof (cases "select_group gs")
    case None
    then show ?thesis
      using select_group_None [OF 1(2)] by (subst merge_groups.simps) (simp add: of_service_def group_of_def)
  next
    case (Some s)
    obtain es where es: "im_get gs s = Some es" using select_group_Some [OF 1(2) Some] by blast
    let ?g = "set_group s (snd (take_record es)) gs"
    have IH: "of_service t (merge_groups ?g) = group_of ?g t"
      by (rule 1(1) [OF Some es set_group_ok [OF 1(2) es]])
    have own: "\<forall>e \<in> set es. pe_service e = s" "distinct (im_keys gs)"
      using 1(2) es by (auto simp: groups_ok_def)
    have "set (fst (take_record es)) \<subseteq> set es"
      by (metis take_record_append set_append sup_ge1)
    then have first: "of_service t (fst (take_record es)) = (if t = s then fst (take_record es) else [])"
      using own(1) by (auto simp: of_service_def filter_empty_conv filter_id_conv)
    have "group_of ?g t = (if t = s then snd (take_record es) else group_of gs t)"
      using set_group_get [OF own(2) es] by (simp add: group_of_def)
    then show ?thesis
      using first IH es take_record_append [of es]
      by (subst merge_groups.simps) (simp add: Some group_of_def)
  qed
qed

lemma records_whole_block:
  assumes "\<And>x y. x \<in> set b \<Longrightarrow> y \<in> set b \<Longrightarrow> same_record x y" and "records_whole es"
    and "\<And>x y. x \<in> set b \<Longrightarrow> y \<in> set es \<Longrightarrow> \<not> same_record x y"
  shows "records_whole (b @ es)"
  using assms(1,3)
proof (induction b)
  case (Cons e b)
  have "dropWhile (same_record e) (b @ es) = dropWhile (same_record e) es"
    using Cons.prems(1) by (simp add: dropWhile_append2)
  then have "list_all (\<lambda>q. \<not> same_record e q) (dropWhile (same_record e) (b @ es))"
    using Cons.prems(2) by (auto simp: list_all_iff dest: set_dropWhileD)
  then show ?case using Cons by simp
qed (simp add: assms(2))

text \<open>In the list of one service a record is its cursor.\<close>

lemma take_record_whole:
  assumes "records_whole es" "\<And>e. e \<in> set es \<Longrightarrow> pe_service e = s"
  shows "(\<forall>x \<in> set (fst (take_record es)). \<forall>y \<in> set (fst (take_record es)). same_record x y) \<and>
    (\<forall>x \<in> set (fst (take_record es)). \<forall>y \<in> set (snd (take_record es)). \<not> same_record x y) \<and>
    records_whole (snd (take_record es))"
proof (cases es)
  case (Cons e es')
  have eq: "same_cursor e q \<longleftrightarrow> same_record e q" if "q \<in> set es'" for q
    using assms(2) Cons that by (auto simp: same_cursor_def same_record_def)
  have tw: "takeWhile (same_cursor e) es' = takeWhile (same_record e) es'"
    "dropWhile (same_cursor e) es' = dropWhile (same_record e) es'"
    using eq by (auto intro: takeWhile_cong dropWhile_cong)
  have block: "same_record e x" if "x \<in> set (e # takeWhile (same_record e) es')" for x
    using that by (auto dest: set_takeWhileD)
  have "\<not> same_record e y" if "y \<in> set (dropWhile (same_record e) es')" for y
    using assms(1) Cons that by (simp add: list_all_iff)
  then have "\<not> same_record x y" if "x \<in> set (e # takeWhile (same_record e) es')"
    "y \<in> set (dropWhile (same_record e) es')" for x y
    using block [OF that(1)] that(2) same_record_trans by blast
  moreover have "same_record x y" if "x \<in> set (e # takeWhile (same_record e) es')"
    "y \<in> set (e # takeWhile (same_record e) es')" for x y
    using block [OF that(1)] block [OF that(2)] same_record_sym same_record_trans by blast
  moreover have "records_whole (dropWhile P l)" if "records_whole l" for P l
    using that by (induction l) auto
  then have "records_whole (dropWhile (same_record e) es')" using assms(1) Cons by simp
  ultimately show ?thesis unfolding Cons take_record_def list.case fst_conv snd_conv tw by blast
qed (simp add: take_record_def)

definition groups_whole :: "groups \<Rightarrow> bool" where
  "groups_whole gs \<longleftrightarrow> groups_ok gs \<and> (\<forall>s. records_whole (group_of gs s))"

text \<open>The merge keeps every record together.\<close>

lemma set_of_services: "e \<in> set es \<longleftrightarrow> e \<in> set (of_service (pe_service e) es)"
  by (simp add: of_service_def)

lemma merge_groups_whole: "groups_whole gs \<Longrightarrow> records_whole (merge_groups gs)"
proof (induction gs rule: merge_groups.induct)
  case (1 gs)
  have ok: "groups_ok gs" and whole: "\<And>s. records_whole (group_of gs s)"
    using 1(2) by (simp_all add: groups_whole_def)
  show ?case
  proof (cases "select_group gs")
    case None
    then show ?thesis by (subst merge_groups.simps) simp
  next
    case (Some s)
    obtain es where es: "im_get gs s = Some es" using select_group_Some [OF ok Some] by blast
    let ?b = "fst (take_record es)" and ?r = "snd (take_record es)"
    let ?g = "set_group s ?r gs"
    have own: "\<And>e. e \<in> set es \<Longrightarrow> pe_service e = s" "distinct (im_keys gs)" "records_whole es"
      using ok es whole [of s] by (auto simp: groups_ok_def group_of_def)
    note rec = take_record_whole [OF own(3,1)]
    have ok': "groups_ok ?g" by (rule set_group_ok [OF ok es])
    have get: "group_of ?g t = (if t = s then ?r else group_of gs t)" for t
      using set_group_get [OF own(2) es] by (simp add: group_of_def)
    then have "groups_whole ?g" using ok' rec whole by (simp add: groups_whole_def)
    then have IH: "records_whole (merge_groups ?g)" by (rule 1(1) [OF Some es])
    have "\<not> same_record x y" if x: "x \<in> set ?b" and y: "y \<in> set (merge_groups ?g)" for x y
    proof
      assume xy: "same_record x y"
      have "pe_service x = s" using own(1) x take_record_append [of es] by (metis UnCI set_append)
      then have "pe_service y = s" using xy by (simp add: same_record_def)
      then have "y \<in> set ?r"
        using y merge_groups_service [OF ok', of s] get [of s] set_of_services [of y "merge_groups ?g"] by simp
      then show False using rec x xy by blast
    qed
    then have "records_whole (?b @ merge_groups ?g)"
      using rec by (intro records_whole_block [OF _ IH]) blast+
    then show ?thesis by (subst merge_groups.simps) (simp add: Some es)
  qed
qed

lemma merged_service:
  "of_service s (merge_preserving_service_order es) = of_service s es"
  using groups_of_entries [of "[]" es] merge_groups_service
  by (simp add: merge_preserving_service_order_def groups_ok_def group_of_def)

lemma merged_whole:
  assumes "\<And>s. records_whole (of_service s es)"
  shows "records_whole (merge_preserving_service_order es)"
  using groups_of_entries [of "[]" es] merge_groups_whole assms
  by (simp add: merge_preserving_service_order_def groups_whole_def groups_ok_def group_of_def)

lemma merged_mset: "mset (merge_preserving_service_order es) = mset es"
proof (rule multiset_eqI)
  fix e
  have "count (mset xs) e = count (mset (of_service (pe_service e) xs)) e" for xs
    by (induction xs) (auto simp: of_service_def)
  then show "count (mset (merge_preserving_service_order es)) e = count (mset es) e"
    by (metis merged_service)
qed

text \<open>
  Merged pages. Merging the entries of several services loses and invents nothing and keeps the
  order of every service; and when the entries of each record stand together in the list of their
  service, a limit on the merged page, at its end or at its start, never separates the entries of a
  record, while it keeps at least as many entries as it allows.
\<close>

theorem merge_keeps_records:
  assumes "\<And>s. records_whole (of_service s es)"
  shows "let merged = merge_preserving_service_order es in
    mset merged = mset es \<and> (\<forall>s. of_service s merged = of_service s es) \<and>
    (\<exists>n. truncate_preserving_record_boundaries merged limit = (take n merged, n < length merged) \<and>
       min limit (length merged) \<le> n \<and>
       (\<forall>x \<in> set (take n merged). \<forall>y \<in> set (drop n merged). \<not> same_record x y)) \<and>
    (\<exists>n. tail_preserving_record_boundaries merged limit = (drop n merged, 0 < n) \<and>
       min limit (length merged) \<le> length merged - n \<and>
       (\<forall>x \<in> set (take n merged). \<forall>y \<in> set (drop n merged). \<not> same_record x y))"
proof -
  note whole = merged_whole [OF assms]
  from truncate_whole [OF whole, of limit] tail_whole [OF whole, of limit] show ?thesis
    unfolding Let_def using merged_mset merged_service by blast
qed

definition example_record :: "string \<Rightarrow> u64 \<Rightarrow> nat \<Rightarrow> processed_entry" where
  "example_record s n ms =
     \<lparr> pe_service = Some s, pe_seq = n, pe_run_generation = 1, pe_timestamp_unix_ms = ms,
       pe_source_timestamp_unix_ms = None, pe_line = [], pe_level = None, pe_message = None, pe_fields = [] \<rparr>"

definition example_entries :: "processed_entry list" where
  "example_entries =
     [example_record ''web'' 4 20, example_record ''web'' 4 10, example_record ''web'' 5 30,
      example_record ''db'' 2 15, example_record ''db'' 3 25]"

lemma example_records_whole: "records_whole (of_service s example_entries)"
  by (cases "s = Some ''web''"; cases "s = Some ''db''")
    (simp_all add: example_entries_def example_record_def of_service_def same_record_def)

theorem merge_keeps_records_witness:
  "merge_preserving_service_order example_entries =
     [example_record ''db'' 2 15, example_record ''web'' 4 20, example_record ''web'' 4 10,
      example_record ''db'' 3 25, example_record ''web'' 5 30] \<and>
   mset (merge_preserving_service_order example_entries) = mset example_entries \<and>
   (\<exists>n \<ge> 2. truncate_preserving_record_boundaries (merge_preserving_service_order example_entries) 2 =
      (take n (merge_preserving_service_order example_entries), True))"
proof -
  have m: "merge_preserving_service_order example_entries =
     [example_record ''db'' 2 15, example_record ''web'' 4 20, example_record ''web'' 4 10,
      example_record ''db'' 3 25, example_record ''web'' 5 30]"
    by (code_simp)
  have t: "truncate_preserving_record_boundaries (merge_preserving_service_order example_entries) 2 =
      (take 3 (merge_preserving_service_order example_entries), True)"
    unfolding m by (simp add: truncate_preserving_record_boundaries_def example_record_def same_record_def)
  from merge_keeps_records [OF example_records_whole, of 2] show ?thesis
    unfolding Let_def using m t by (metis numeral_le_iff semiring_norm(69,72) eval_nat_numeral(3) le_SucI le_refl)
qed

end
