(* ===== verification/Follow_Logs.thy ===== *)
theory Follow_Logs
  imports Agent_Logs_Facts
begin

text \<open>
  Following the logs of services from cursors, \<^verbatim>\<open>src/crates/micromux-mcp/src/tools/logs.rs\<close>. The
  connection to a session is a parameter: what the session answers to each request, after the
  conversion of the reply, or an error of the tool.
\<close>

section \<open>Replies and pages\<close>

record logs_result =
  lr_lines :: "log_line list"
  lr_truncated :: bool
  lr_first_retained_seq :: "u64 option"

record log_run_row =
  lg_current :: bool
  lg_last_seq :: "u64 option"

record 'e session_conn =
  cn_list_services :: "'e + string list"
  cn_follow_logs :: "string \<Rightarrow> u64 option \<Rightarrow> u64 option \<Rightarrow> 'e + logs_result"
  cn_get_logs :: "string \<Rightarrow> u64 option \<Rightarrow> usize option \<Rightarrow> 'e + logs_result"
  cn_list_log_runs :: "string \<Rightarrow> 'e + log_run_row list"

record follow_gap =
  fg_after_seq :: u64
  fg_first_seq :: u64
  fg_lost_entries_at_least :: u64

record service_follow_gap =
  sf_service :: string
  sf_after_seq :: u64
  sf_first_seq :: u64
  sf_lost_entries_at_least :: u64

record merged_follow_page =
  mp_service :: string
  mp_after_seq :: "u64 option"
  mp_raw_next_seq :: "u64 option"
  mp_gap :: "follow_gap option"
  mp_entries :: "processed_entry list"
  mp_truncated :: bool

text \<open>Only lookups read the map of the next cursors, so the order of its keys is not modelled.\<close>

type_synonym cursors = "(string, u64) imap"

record merged_follow_output =
  mo_entries :: "processed_entry list"
  mo_next :: cursors
  mo_gaps :: "service_follow_gap list"
  mo_truncated :: bool

section \<open>Cursors and gaps\<close>

definition last_of :: "'a list \<Rightarrow> 'a option" where
  "last_of xs = (if xs = [] then None else Some (last xs))"

definition u64_saturating_sub :: "u64 \<Rightarrow> u64 \<Rightarrow> u64" where
  "u64_saturating_sub a b = (if b \<le> a then a - b else 0)"

definition next_follow_cursor :: "log_line list \<Rightarrow> u64 option \<Rightarrow> u64 option" where
  "next_follow_cursor lines after = or_else (map_option ll_seq (last_of lines)) after"

definition truncate_wait_matches ::
  "processed_entry list \<Rightarrow> u64 \<Rightarrow> bool \<Rightarrow> usize \<Rightarrow> processed_entry list \<times> u64 \<times> bool"
where
  "truncate_wait_matches es raw_next server_truncated limit =
     (if length es \<le> limit then (es, raw_next, server_truncated)
      else
        let (es', truncated) = truncate_preserving_record_boundaries es limit;
            next_seq =
              (if truncated then (case last_of es' of None \<Rightarrow> raw_next | Some e \<Rightarrow> pe_seq e) else raw_next)
        in (es', next_seq, server_truncated \<or> truncated))"

definition follow_gap_of ::
  "log_line list \<Rightarrow> u64 option \<Rightarrow> u64 option \<Rightarrow> u64 option \<Rightarrow> follow_gap option"
where
  "follow_gap_of lines first_retained after run_generation =
     (if run_generation \<noteq> None then None
      else
        (case after of
           None \<Rightarrow> None
         | Some a \<Rightarrow>
             (case or_else first_retained
                     (case lines of [] \<Rightarrow> None | l # _ \<Rightarrow> Some (ll_seq l)) of
                None \<Rightarrow> None
              | Some f \<Rightarrow>
                  if u64_saturating_add a 1 < f
                  then Some \<lparr> fg_after_seq = a, fg_first_seq = f,
                              fg_lost_entries_at_least = u64_saturating_sub (u64_saturating_sub f a) 1 \<rparr>
                  else None)))"

definition follow_all_after_seq :: "cursors \<Rightarrow> string \<Rightarrow> u64 option" where
  "follow_all_after_seq cs s =
     (if cs = [] then None else Some (case im_get cs s of None \<Rightarrow> 0 | Some c \<Rightarrow> c))"

definition returned_cursors :: "processed_entry list \<Rightarrow> cursors" where
  "returned_cursors es =
     fold (\<lambda>e cs.
       case pe_service e of
         None \<Rightarrow> cs
       | Some s \<Rightarrow>
           im_insert s (case im_get cs s of None \<Rightarrow> pe_seq e | Some c \<Rightarrow> max c (pe_seq e)) cs) es []"

section \<open>Merging pages\<close>

text \<open>
  The cursor a service is followed from next: after a limit cut the merged page, it only moves past
  what is returned, unless nothing of the service matched.
\<close>

definition next_cursor ::
  "bool \<Rightarrow> bool \<Rightarrow> cursors \<Rightarrow> (string, bool) imap \<Rightarrow> merged_follow_page \<Rightarrow> u64 option"
where
  "next_cursor merge_truncated tail_mode returned matched p =
     (if merge_truncated \<and> \<not> tail_mode
      then or_else
             (or_else (im_get returned (mp_service p))
               (if im_get matched (mp_service p) = Some False then mp_raw_next_seq p else None))
             (mp_after_seq p)
      else or_else (or_else (mp_raw_next_seq p) (mp_after_seq p)) (if tail_mode then Some 0 else None))"

definition merge_follow_pages ::
  "merged_follow_page list \<Rightarrow> usize \<Rightarrow> bool \<Rightarrow> merged_follow_output"
where
  "merge_follow_pages pages limit tail_mode =
     (let page_truncated = list_ex mp_truncated pages;
          matched = fold (\<lambda>p. im_insert (mp_service p) (mp_entries p \<noteq> [])) pages [];
          es = merge_preserving_service_order (concat (map mp_entries pages));
          (es', merge_truncated) =
            (if limit < length es
             then (if tail_mode then tail_preserving_record_boundaries es limit
                   else truncate_preserving_record_boundaries es limit)
             else (es, False));
          returned = returned_cursors es';
          next_map = fold (\<lambda>p m.
            case next_cursor merge_truncated tail_mode returned matched p of
              None \<Rightarrow> m | Some c \<Rightarrow> im_insert (mp_service p) c m) pages [];
          gaps = List.map_filter (\<lambda>p. map_option (\<lambda>g.
            \<lparr> sf_service = mp_service p, sf_after_seq = fg_after_seq g, sf_first_seq = fg_first_seq g,
              sf_lost_entries_at_least = fg_lost_entries_at_least g \<rparr>) (mp_gap p)) pages
      in \<lparr> mo_entries = es', mo_next = next_map, mo_gaps = gaps,
           mo_truncated = (page_truncated \<or> merge_truncated) \<rparr>)"

definition follow_page ::
  "log_library \<Rightarrow> shape_options \<Rightarrow> string \<Rightarrow> u64 option \<Rightarrow> logs_result \<Rightarrow> merged_follow_page"
where
  "follow_page lib opts s after logs =
     \<lparr> mp_service = s, mp_after_seq = after,
       mp_raw_next_seq = next_follow_cursor (lr_lines logs) after,
       mp_gap = follow_gap_of (lr_lines logs) (lr_first_retained_seq logs) after None,
       mp_entries = map (pe_service_update (\<lambda>_. Some s)) (shape lib (lr_lines logs) opts),
       mp_truncated = lr_truncated logs \<rparr>"

fun follow_pages ::
  "log_library \<Rightarrow> shape_options \<Rightarrow> 'e session_conn \<Rightarrow> cursors \<Rightarrow> string list \<Rightarrow> 'e + merged_follow_page list"
where
  "follow_pages lib opts conn after [] = Inr []"
| "follow_pages lib opts conn after (s # ss) =
     and_then (cn_follow_logs conn s None (follow_all_after_seq after s)) (\<lambda>logs.
     and_then (follow_pages lib opts conn after ss) (\<lambda>ps.
       Inr (follow_page lib opts s (follow_all_after_seq after s) logs # ps)))"

text \<open>The options are those of \<^verbatim>\<open>LogFilters::shape\<close> without a limit.\<close>

definition follow_all_current_logs ::
  "log_library \<Rightarrow> 'e session_conn \<Rightarrow> cursors \<Rightarrow> shape_options \<Rightarrow> usize \<Rightarrow> 'e + merged_follow_output"
where
  "follow_all_current_logs lib conn after opts limit =
     and_then (cn_list_services conn) (\<lambda>services.
     and_then (follow_pages lib (opts\<lparr>sh_limit := None\<rparr>) conn after services) (\<lambda>pages.
       Inr (merge_follow_pages pages limit (after = []))))"

section \<open>Single services\<close>

definition fetch_and_shape_tail ::
  "log_library \<Rightarrow> 'e session_conn \<Rightarrow> string \<Rightarrow> u64 option \<Rightarrow> usize \<Rightarrow> shape_options \<Rightarrow>
   'e + processed_entry list \<times> bool \<times> bool"
where
  "fetch_and_shape_tail lib conn s run_generation fetch_tail opts =
     and_then (cn_get_logs conn s run_generation (Some fetch_tail)) (\<lambda>logs.
       Inr (shape lib (lr_lines logs) (opts\<lparr>sh_limit := None\<rparr>),
            fetch_tail \<le> length (lr_lines logs), lr_truncated logs))"

definition current_service_cursor :: "'e session_conn \<Rightarrow> string \<Rightarrow> 'e + u64" where
  "current_service_cursor conn s =
     and_then (cn_list_log_runs conn s) (\<lambda>runs.
       case Option.bind (List.find lg_current (rev runs)) lg_last_seq of
         Some cursor \<Rightarrow> Inr cursor
       | None \<Rightarrow>
           and_then (cn_get_logs conn s None (Some 1)) (\<lambda>logs.
             Inr (case last_of (lr_lines logs) of None \<Rightarrow> 0 | Some l \<Rightarrow> ll_seq l)))"

fun current_cursors_of :: "'e session_conn \<Rightarrow> string list \<Rightarrow> cursors \<Rightarrow> 'e + cursors" where
  "current_cursors_of conn [] cs = Inr cs"
| "current_cursors_of conn (s # ss) cs =
     and_then (current_service_cursor conn s) (\<lambda>c. current_cursors_of conn ss (im_insert s c cs))"

definition current_cursors :: "'e session_conn \<Rightarrow> 'e + cursors" where
  "current_cursors conn =
     and_then (cn_list_services conn) (\<lambda>ss. current_cursors_of conn ss [])"

definition default_shape :: shape_options where
  "default_shape =
     \<lparr> sh_raw = False, sh_grep = None, sh_context = 0, sh_min_level = None, sh_since_unix_ms = None,
       sh_trace_id = None, sh_limit = None, sh_format = LogFormat_Full \<rparr>"

definition compact_logs_since ::
  "log_library \<Rightarrow> 'e session_conn \<Rightarrow> string \<Rightarrow> u64 \<Rightarrow> usize \<Rightarrow> 'e + processed_entry list \<times> bool"
where
  "compact_logs_since lib conn s after limit =
     and_then (cn_follow_logs conn s None (Some after)) (\<lambda>logs.
       let es = shape lib (lr_lines logs) (default_shape\<lparr>sh_format := LogFormat_Compact\<rparr>) in
       if limit < length es
       then (let (es', cut) = truncate_preserving_record_boundaries es limit
             in Inr (es', lr_truncated logs \<or> cut))
       else Inr (es, lr_truncated logs))"

end
