(* ===== verification/Follow_Facts.thy ===== *)
theory Follow_Facts
  imports Follow_Logs
begin

text \<open>
  Following services never loses an entry: what \<^verbatim>\<open>shape\<close> keeps of the lines, the pages of the services,
  and the cursors of a merged page that a limit cut.
\<close>

section \<open>What shaping keeps\<close>

lemma sorted_wrt_subseq: "subseq xs ys \<Longrightarrow> sorted_wrt P ys \<Longrightarrow> sorted_wrt P xs"
proof (induction rule: list_emb.induct)
  case (list_emb_Cons2 x y xs ys)
  then show ?case by (auto dest: list_emb_set)
qed auto

lemma subseq_set: "subseq xs ys \<Longrightarrow> set xs \<subseteq> set ys"
  by (auto dest: list_emb_set)

definition shaped_from :: "log_line list \<Rightarrow> processed_entry list \<Rightarrow> bool" where
  "shaped_from lines es \<longleftrightarrow>
     sorted_wrt (\<lambda>a b. pe_seq a \<le> pe_seq b) es \<and>
     (\<forall>e \<in> set es. \<exists>l \<in> set lines. pe_seq e = ll_seq l \<and> pe_run_generation e = ll_run_generation l) \<and>
     (\<forall>e \<in> set es. pe_service e = None)"

lemma shaped_from_subseq: "shaped_from lines es \<Longrightarrow> subseq es' es \<Longrightarrow> shaped_from lines es'"
  using subseq_set [of es' es] by (auto simp: shaped_from_def intro: sorted_wrt_subseq)

lemma push_segment_appends:
  "\<exists>es. push_shaped_segment lib opts rec raw b seg out = out @ es \<and>
     (\<forall>x \<in> set es. pe_seq (fst x) = ll_seq rec \<and> pe_run_generation (fst x) = ll_run_generation rec \<and>
       pe_service (fst x) = None)"
  unfolding push_shaped_segment_def Let_def by simp

lemma push_segments_append:
  "\<exists>es. fold (push_shaped_segment lib opts rec raw b) segs out = out @ es \<and>
     (\<forall>x \<in> set es. pe_seq (fst x) = ll_seq rec \<and> pe_run_generation (fst x) = ll_run_generation rec \<and>
       pe_service (fst x) = None)"
proof (induction segs arbitrary: out)
  case (Cons seg segs)
  obtain es where es: "push_shaped_segment lib opts rec raw b seg out = out @ es"
    "\<forall>x \<in> set es. pe_seq (fst x) = ll_seq rec \<and> pe_run_generation (fst x) = ll_run_generation rec \<and>
       pe_service (fst x) = None"
    using push_segment_appends by blast
  obtain es' where "fold (push_shaped_segment lib opts rec raw b) segs (out @ es) = (out @ es) @ es'"
    "\<forall>x \<in> set es'. pe_seq (fst x) = ll_seq rec \<and> pe_run_generation (fst x) = ll_run_generation rec \<and>
       pe_service (fst x) = None"
    using Cons.IH by blast
  then show ?case using es by (intro exI [of _ "es @ es'"]) auto
qed simp

lemma shaped_from_Cons:
  assumes "\<forall>e \<in> set es. pe_seq e = ll_seq l \<and> pe_run_generation e = ll_run_generation l \<and> pe_service e = None"
    and "shaped_from ls es'" and "\<forall>x \<in> set ls. ll_seq l \<le> ll_seq x"
  shows "shaped_from (l # ls) (es @ es')"
proof -
  have "sorted_wrt (\<lambda>a b. pe_seq a \<le> pe_seq b) es"
    using assms(1) by (auto simp: sorted_wrt_iff_nth_less)
  then show ?thesis
    using assms unfolding shaped_from_def sorted_wrt_append by (auto; metis order_trans)
qed

lemma fold_records_shaped:
  assumes "sorted_wrt (\<lambda>a b. ll_seq a < ll_seq b) lines"
    and "\<And>l out. \<exists>es. f l out = out @ es \<and>
      (\<forall>x \<in> set es. pe_seq (fst x) = ll_seq l \<and> pe_run_generation (fst x) = ll_run_generation l \<and>
       pe_service (fst x) = None)"
  shows "\<exists>es. fold f lines out = out @ es \<and> shaped_from lines (map fst es)"
  using assms(1)
proof (induction lines arbitrary: out)
  case (Cons l ls)
  obtain es where es: "f l out = out @ es"
    "\<forall>x \<in> set es. pe_seq (fst x) = ll_seq l \<and> pe_run_generation (fst x) = ll_run_generation l \<and>
       pe_service (fst x) = None"
    using assms(2) by blast
  obtain es' where es': "fold f ls (out @ es) = (out @ es) @ es'" "shaped_from ls (map fst es')"
    using Cons by fastforce
  have "shaped_from (l # ls) (map fst (es @ es'))"
    unfolding map_append
    by (rule shaped_from_Cons) (use es es' Cons.prems in \<open>auto intro: less_imp_le\<close>)
  then show ?case using es es' by (intro exI [of _ "es @ es'"]) simp
qed (simp add: shaped_from_def)

lemma grep_context_subseq: "subseq (apply_grep_context m n out) out"
proof -
  have "subseq (apply_grep_context m n out) (map snd (enumerate 0 out))"
    unfolding apply_grep_context_def by (rule subseq_map) (rule subseq_filter_left)
  then show ?thesis by simp
qed

lemma shape_shaped:
  assumes "sorted_wrt (\<lambda>a b. ll_seq a < ll_seq b) lines" and "sh_limit opts = None"
  shows "shaped_from lines (shape lib lines opts)"
proof -
  define f where "f = (\<lambda>rec out.
    let segments = record_segments lib (normalize_record_text lib (ll_strip_ansi lib (ll_line rec)) True);
        raw_line = (if sh_raw opts \<and> length segments = 1
                    then Some (normalize_record_text lib (ll_line rec) False) else None)
    in fold (push_shaped_segment lib opts rec raw_line (sh_grep opts = None \<or> sh_context opts = 0))
         segments out)"
  obtain es where es: "fold f lines [] = es" "shaped_from lines (map fst es)"
    using fold_records_shaped [OF assms(1), of f "[]"] push_segments_append
    unfolding f_def Let_def by auto
  have "shape lib lines opts = map fst es \<or> (\<exists>m. shape lib lines opts = map fst (apply_grep_context m (sh_context opts) es))"
    using es(1) assms(2) unfolding shape_def f_def Let_def by (auto split: option.splits)
  then show ?thesis
    using es(2) shaped_from_subseq [OF es(2)] subseq_map [OF grep_context_subseq] by metis
qed

section \<open>Pages\<close>

text \<open>
  A page is well-formed when its entries belong to its service, are in the order of their cursors, lie
  after the cursor it was asked for and up to the cursor it ends at, and a cursor has one run.
\<close>

definition page_ok :: "merged_follow_page \<Rightarrow> bool" where
  "page_ok p \<longleftrightarrow>
     (\<forall>e \<in> set (mp_entries p). pe_service e = Some (mp_service p)) \<and>
     sorted_wrt (\<lambda>a b. pe_seq a \<le> pe_seq b) (mp_entries p) \<and>
     (\<forall>a \<in> set (mp_entries p). \<forall>b \<in> set (mp_entries p).
        pe_seq a = pe_seq b \<longrightarrow> pe_run_generation a = pe_run_generation b) \<and>
     (\<forall>e \<in> set (mp_entries p). \<forall>a. mp_after_seq p = Some a \<longrightarrow> a < pe_seq e) \<and>
     (\<forall>e \<in> set (mp_entries p). \<exists>c. mp_raw_next_seq p = Some c \<and> pe_seq e \<le> c) \<and>
     (\<forall>a c. mp_after_seq p = Some a \<longrightarrow> mp_raw_next_seq p = Some c \<longrightarrow> a \<le> c)"

lemma records_whole_sorted:
  assumes "sorted_wrt (\<lambda>a b. pe_seq a \<le> pe_seq b) es" "\<And>e. e \<in> set es \<Longrightarrow> pe_service e = s"
    and "\<And>a b. a \<in> set es \<Longrightarrow> b \<in> set es \<Longrightarrow> pe_seq a = pe_seq b \<Longrightarrow> pe_run_generation a = pe_run_generation b"
  shows "records_whole es"
  using assms
proof (induction es)
  case (Cons e es)
  have same: "same_record e q \<longleftrightarrow> pe_seq q = pe_seq e" if "q \<in> set es" for q
    using that Cons.prems(2) [of e] Cons.prems(2) [of q] Cons.prems(3) [of e q]
    by (auto simp: same_record_def)
  have "\<not> same_record e q" if q: "q \<in> set (dropWhile (same_record e) es)" for q
  proof -
    obtain x xs where d: "dropWhile (same_record e) es = x # xs" using q by (cases "dropWhile (same_record e) es") auto
    then have x: "x \<in> set es" "\<not> same_record e x"
      using set_dropWhileD [of x "same_record e" es] hd_dropWhile [of "same_record e" es] by auto
    have "subseq (x # xs) es" unfolding d [symmetric] by (rule suffix_imp_subseq) (rule suffix_dropWhile)
    then have "sorted_wrt (\<lambda>a b. pe_seq a \<le> pe_seq b) (x # xs)"
      using sorted_wrt_subseq Cons.prems(1) by fastforce
    then have "pe_seq x \<le> pe_seq q" using q d by auto
    moreover have "pe_seq e \<le> pe_seq x" using Cons.prems(1) x(1) by simp
    moreover have "pe_seq x \<noteq> pe_seq e" using same [OF x(1)] x(2) by simp
    ultimately have "pe_seq q \<noteq> pe_seq e" by auto
    then show ?thesis using same set_dropWhileD [OF q] by simp
  qed
  then show ?case using Cons by (simp add: list_all_iff)
qed simp

lemma of_service_page:
  assumes "page_ok p"
  shows "of_service s (mp_entries p) = (if s = Some (mp_service p) then mp_entries p else [])"
  using assms by (auto simp: page_ok_def of_service_def filter_empty_conv filter_id_conv)

lemma of_service_pages:
  assumes "\<forall>p \<in> set ps. page_ok p" and "distinct (map mp_service ps)"
  shows "of_service s (concat (map mp_entries ps)) =
    (case List.find (\<lambda>p. Some (mp_service p) = s) ps of None \<Rightarrow> [] | Some p \<Rightarrow> mp_entries p)"
  using assms
proof (induction ps)
  case (Cons p ps)
  show ?case
  proof (cases "Some (mp_service p) = s")
    case True
    then have "List.find (\<lambda>p. Some (mp_service p) = s) ps = None"
      using Cons.prems(2) by (auto simp: find_None_iff image_iff)
    then show ?thesis using True Cons by (simp add: of_service_page)
  next
    case False
    then show ?thesis using Cons by (auto simp: of_service_page)
  qed
qed (simp add: of_service_def)

lemma find_distinct:
  "p \<in> set ps \<Longrightarrow> distinct (map f ps) \<Longrightarrow> List.find (\<lambda>q. f q = f p) ps = Some p"
  by (induction ps) (auto simp: image_iff)

lemma pages_service:
  assumes "\<forall>p \<in> set ps. page_ok p" "distinct (map mp_service ps)" "p \<in> set ps"
  shows "of_service (Some (mp_service p)) (concat (map mp_entries ps)) = mp_entries p"
  using assms by (simp add: of_service_pages find_distinct)

lemma pages_whole:
  assumes "\<forall>p \<in> set ps. page_ok p" "distinct (map mp_service ps)"
  shows "records_whole (of_service s (concat (map mp_entries ps)))"
proof (cases "List.find (\<lambda>p. Some (mp_service p) = s) ps")
  case None
  then show ?thesis using assms by (simp add: of_service_pages)
next
  case (Some p)
  then have "p \<in> set ps" by (rule find_SomeD [THEN conjunct1])
  then have "page_ok p" using assms(1) by blast
  then have "records_whole (mp_entries p)"
    unfolding page_ok_def by (intro records_whole_sorted [where s = "Some (mp_service p)"]) blast+
  then show ?thesis using Some assms by (simp add: of_service_pages)
qed

section \<open>Cursors of a merged page\<close>

text \<open>A map filled by one insertion per page.\<close>

lemma get_fold_absent:
  "s \<notin> k ` set ps \<Longrightarrow>
   im_get (fold (\<lambda>p m. case v p of None \<Rightarrow> m | Some c \<Rightarrow> im_insert (k p) c m) ps m0) s = im_get m0 s"
  by (induction ps arbitrary: m0) (auto simp: im_get_insert split: option.splits)

lemma get_fold_page:
  "distinct (map k ps) \<Longrightarrow> p \<in> set ps \<Longrightarrow> im_get m0 (k p) = None \<Longrightarrow>
   im_get (fold (\<lambda>p m. case v p of None \<Rightarrow> m | Some c \<Rightarrow> im_insert (k p) c m) ps m0) (k p) = v p"
proof (induction ps arbitrary: m0)
  case (Cons q ps)
  show ?case
  proof (cases "p = q")
    case True
    then show ?thesis using Cons.prems by (auto simp: get_fold_absent im_get_insert split: option.splits)
  next
    case False
    then have "p \<in> set ps" using Cons.prems by simp
    moreover from this have "k p \<noteq> k q" using Cons.prems(1) by (metis distinct.simps(2) image_eqI list.map(2) list.set_map)
    ultimately have "p \<in> set ps" "k p \<noteq> k q" by simp_all
    then show ?thesis using Cons by (auto simp: im_get_insert split: option.splits)
  qed
qed simp

lemma matched_page:
  assumes "distinct (map mp_service ps)" "p \<in> set ps"
  shows "im_get (fold (\<lambda>p. im_insert (mp_service p) (mp_entries p \<noteq> [])) ps []) (mp_service p) =
    Some (mp_entries p \<noteq> [])"
  using get_fold_page [OF assms, of "[]" "\<lambda>p. Some (mp_entries p \<noteq> [])"] by simp

lemma returned_cursors_get:
  "im_get (returned_cursors es) s =
     (if of_service (Some s) es = [] then None
      else Some (Max (pe_seq ` set (of_service (Some s) es))))"
proof (induction es rule: rev_induct)
  case (snoc e es)
  show ?case
  proof (cases "pe_service e = Some s")
    case True
    then have own: "of_service (Some s) (es @ [e]) = of_service (Some s) es @ [e]"
      by (simp add: of_service_def)
    show ?thesis
      using True snoc own
      by (cases "of_service (Some s) es = []")
        (simp_all add: returned_cursors_def im_get_insert max.commute)
  next
    case False
    then have "of_service (Some s) (es @ [e]) = of_service (Some s) es" by (simp add: of_service_def)
    then show ?thesis
      using snoc False by (auto simp: returned_cursors_def im_get_insert split: option.splits)
  qed
qed (simp add: returned_cursors_def of_service_def)

text \<open>What is cut off the end of a merged page lies after everything of its service that is returned.\<close>

lemma cut_after:
  assumes ok: "page_ok p" and split: "A @ B = mp_entries p" and "A \<noteq> []"
    and apart: "\<forall>x \<in> set A. \<forall>y \<in> set B. \<not> same_record x y"
  shows "A = filter (\<lambda>e. pe_seq e \<le> Max (pe_seq ` set A)) (mp_entries p)"
proof -
  let ?c = "Max (pe_seq ` set A)"
  have "?c \<in> pe_seq ` set A" using \<open>A \<noteq> []\<close> by (intro Max_in) auto
  then obtain r where r: "r \<in> set A" "pe_seq r = ?c" by auto
  have "?c < pe_seq b" if b: "b \<in> set B" for b
  proof -
    have "r \<in> set (mp_entries p)" "b \<in> set (mp_entries p)" using r(1) b split [symmetric] by auto
    then have "pe_seq r \<noteq> pe_seq b"
      using apart r(1) b ok unfolding page_ok_def same_record_def by metis
    moreover have "sorted_wrt (\<lambda>a b. pe_seq a \<le> pe_seq b) (A @ B)" using ok split by (simp add: page_ok_def)
    then have "pe_seq r \<le> pe_seq b" using r(1) b by (simp add: sorted_wrt_append)
    ultimately show ?thesis using r(2) by simp
  qed
  then have "filter (\<lambda>e. pe_seq e \<le> ?c) B = []" by (fastforce simp: filter_empty_conv not_le)
  moreover have "filter (\<lambda>e. pe_seq e \<le> ?c) A = A" by (auto simp: filter_id_conv)
  ultimately show ?thesis using split by (metis append_Nil2 filter_append)
qed

lemma page_filter_all:
  assumes "page_ok p" "or_else (mp_raw_next_seq p) (mp_after_seq p) = Some c"
  shows "filter (\<lambda>e. pe_seq e \<le> c) (mp_entries p) = mp_entries p"
  using assms by (fastforce simp: page_ok_def or_else_def filter_id_conv)

section \<open>Following\<close>

lemma merged_pages_exact:
  fixes pages limit
  defines "out \<equiv> merge_follow_pages pages limit False"
  assumes ok: "\<forall>p \<in> set pages. page_ok p" and dist: "distinct (map mp_service pages)"
    and p: "p \<in> set pages" and after: "mp_after_seq p = Some a"
  shows "\<exists>c. im_get (mo_next out) (mp_service p) = Some c \<and> a \<le> c \<and>
    of_service (Some (mp_service p)) (mo_entries out) = filter (\<lambda>e. pe_seq e \<le> c) (mp_entries p)"
proof -
  let ?s = "mp_service p"
  define m where "m = merge_preserving_service_order (concat (map mp_entries pages))"
  define cut where "cut = (if limit < length m then truncate_preserving_record_boundaries m limit else (m, False))"
  define matched where "matched = fold (\<lambda>p. im_insert (mp_service p) (mp_entries p \<noteq> [])) pages []"
  have own: "of_service (Some ?s) m = mp_entries p"
    unfolding m_def by (simp add: merged_service pages_service [OF ok dist p])
  have "records_whole m" unfolding m_def by (rule merged_whole) (rule pages_whole [OF ok dist])
  then obtain n where cut: "cut = (take n m, n < length m)" "n \<le> length m"
    "\<forall>x \<in> set (take n m). \<forall>y \<in> set (drop n m). \<not> same_record x y"
    using truncate_whole [of m limit] unfolding cut_def by (cases "limit < length m") auto
  let ?A = "of_service (Some ?s) (take n m)" and ?B = "of_service (Some ?s) (drop n m)"
  have split: "?A @ ?B = mp_entries p" using own by (metis append_take_drop_id of_service_append)
  let ?next = "next_cursor (n < length m) False (returned_cursors (take n m)) matched p"
  have choice: "(if limit < length m
       then (if False then tail_preserving_record_boundaries m limit
             else truncate_preserving_record_boundaries m limit)
       else (m, False)) = (take n m, n < length m)"
    using cut(1) unfolding cut_def if_False .
  note out = out_def merge_follow_pages_def Let_def m_def [symmetric] choice prod.case
  have entries: "mo_entries out = take n m"
    unfolding out by simp
  have nxt: "im_get (mo_next out) ?s = ?next"
    unfolding out matched_def [symmetric] merged_follow_output.select_convs
    by (rule get_fold_page [OF dist p]) simp
  have okp: "page_ok p" using ok p by blast
  obtain c where c: "or_else (mp_raw_next_seq p) (mp_after_seq p) = Some c" "a \<le> c"
    using okp after by (cases "mp_raw_next_seq p") (auto simp: or_else_def page_ok_def)
  have matched_p: "im_get matched ?s = Some (mp_entries p \<noteq> [])"
    unfolding matched_def by (rule matched_page [OF dist p])
  consider (all) "n = length m" | (some) "n < length m" "?A \<noteq> []"
    | (none) "n < length m" "?A = []" "mp_entries p = []" | (later) "n < length m" "?A = []" "mp_entries p \<noteq> []"
    using cut(2) by fastforce
  then show ?thesis
  proof cases
    case all
    then have "?next = Some c" using c(1) by (simp add: next_cursor_def or_else_def split: option.splits)
    moreover have "?A = mp_entries p" using all own by simp
    ultimately show ?thesis using c(2) page_filter_all [OF okp c(1)] by (simp add: nxt entries)
  next
    case some
    let ?c = "Max (pe_seq ` set ?A)"
    have "?next = Some ?c" using some by (simp add: next_cursor_def returned_cursors_get or_else_def)
    moreover have "\<forall>x \<in> set ?A. \<forall>y \<in> set ?B. \<not> same_record x y" using cut(3) by (simp add: of_service_def)
    then have "?A = filter (\<lambda>e. pe_seq e \<le> ?c) (mp_entries p)" by (rule cut_after [OF okp split some(2)])
    moreover have "a \<le> ?c"
    proof -
      obtain x where "x \<in> set ?A" using some(2) by (cases ?A) auto
      then have "a < pe_seq x" using split [symmetric] okp after by (auto simp: page_ok_def)
      then show ?thesis using \<open>x \<in> set ?A\<close> by (meson List.finite_set Max_ge finite_imageI imageI less_imp_le order_trans)
    qed
    ultimately show ?thesis by (simp add: nxt entries)
  next
    case none
    then have "?next = Some c"
      using c(1) matched_p by (auto simp: next_cursor_def returned_cursors_get or_else_def split: option.splits)
    then show ?thesis using none c(2) by (simp add: nxt entries)
  next
    case later
    then have "?next = Some a"
      using after matched_p by (simp add: next_cursor_def returned_cursors_get or_else_def)
    moreover have "filter (\<lambda>e. pe_seq e \<le> a) (mp_entries p) = []"
      using okp after by (fastforce simp: page_ok_def filter_empty_conv not_le)
    ultimately show ?thesis using later by (simp add: nxt entries)
  qed
qed

text \<open>
  A reply to a request for the lines after a cursor: each line has a cursor of its own, the lines are in
  order, and all lie after the cursor asked for.
\<close>

definition reply_ok :: "u64 \<Rightarrow> logs_result \<Rightarrow> bool" where
  "reply_ok a logs \<longleftrightarrow>
     sorted_wrt (\<lambda>x y. ll_seq x < ll_seq y) (lr_lines logs) \<and> (\<forall>l \<in> set (lr_lines logs). a < ll_seq l)"

lemma sorted_seq_inj:
  "sorted_wrt (\<lambda>x y. ll_seq x < ll_seq y) ls \<Longrightarrow> x \<in> set ls \<Longrightarrow> y \<in> set ls \<Longrightarrow> ll_seq x = ll_seq y \<Longrightarrow> x = y"
  by (induction ls) auto

lemma sorted_seq_last:
  "sorted_wrt (\<lambda>x y. ll_seq x < ll_seq y) ls \<Longrightarrow> x \<in> set ls \<Longrightarrow> ll_seq x \<le> ll_seq (last ls)"
  by (induction ls) (auto intro: less_imp_le)

lemma follow_page_ok:
  assumes "reply_ok a logs" and "sh_limit opts = None"
  shows "page_ok (follow_page lib opts s (Some a) logs)"
proof -
  let ?ls = "lr_lines logs" and ?es = "shape lib (lr_lines logs) opts"
  have ls: "sorted_wrt (\<lambda>x y. ll_seq x < ll_seq y) ?ls" "\<And>l. l \<in> set ?ls \<Longrightarrow> a < ll_seq l"
    using assms(1) by (simp_all add: reply_ok_def)
  have es: "sorted_wrt (\<lambda>a b. pe_seq a \<le> pe_seq b) ?es"
    "\<And>e. e \<in> set ?es \<Longrightarrow> \<exists>l \<in> set ?ls. pe_seq e = ll_seq l \<and> pe_run_generation e = ll_run_generation l"
    using shape_shaped [OF ls(1) assms(2), of lib] by (simp_all add: shaped_from_def)
  have run: "pe_run_generation x = pe_run_generation y"
    if "x \<in> set ?es" "y \<in> set ?es" "pe_seq x = pe_seq y" for x y
    using es(2) [OF that(1)] es(2) [OF that(2)] that(3) sorted_seq_inj [OF ls(1)] by metis
  have bound: "a < pe_seq e \<and> ?ls \<noteq> [] \<and> pe_seq e \<le> ll_seq (last ?ls)" if "e \<in> set ?es" for e
    using es(2) [OF that] ls(2) sorted_seq_last [OF ls(1)] by auto
  have last: "a \<le> ll_seq (last ?ls)" if "?ls \<noteq> []"
    using ls(2) [of "last ?ls"] that by (simp add: less_imp_le)
  have p: "mp_entries (follow_page lib opts s (Some a) logs) = map (pe_service_update (\<lambda>_. Some s)) ?es"
    "mp_service (follow_page lib opts s (Some a) logs) = s"
    "mp_after_seq (follow_page lib opts s (Some a) logs) = Some a"
    "mp_raw_next_seq (follow_page lib opts s (Some a) logs) =
      (if ?ls = [] then Some a else Some (ll_seq (last ?ls)))"
    by (simp_all add: follow_page_def next_follow_cursor_def last_of_def or_else_def)
  have upd: "pe_seq (x\<lparr>pe_service := Some s\<rparr>) = pe_seq x"
    "pe_run_generation (x\<lparr>pe_service := Some s\<rparr>) = pe_run_generation x" for x
    by simp_all
  show ?thesis
    unfolding page_ok_def p ball_simps set_map
  proof (intro conjI)
    show "sorted_wrt (\<lambda>a b. pe_seq a \<le> pe_seq b) (map (pe_service_update (\<lambda>_. Some s)) ?es)"
      using es(1) by (simp add: sorted_wrt_map)
  next
    show "\<forall>x \<in> set ?es. \<forall>y \<in> set ?es.
        pe_seq (x\<lparr>pe_service := Some s\<rparr>) = pe_seq (y\<lparr>pe_service := Some s\<rparr>) \<longrightarrow>
        pe_run_generation (x\<lparr>pe_service := Some s\<rparr>) = pe_run_generation (y\<lparr>pe_service := Some s\<rparr>)"
      unfolding upd using run by blast
    show "\<forall>x \<in> set ?es. pe_service (x\<lparr>pe_service := Some s\<rparr>) = Some s" by simp
    show "\<forall>x \<in> set ?es. \<forall>b. Some a = Some b \<longrightarrow> b < pe_seq (x\<lparr>pe_service := Some s\<rparr>)"
      using bound by simp
    show "\<forall>x \<in> set ?es. \<exists>c. (if ?ls = [] then Some a else Some (ll_seq (last ?ls))) = Some c \<and>
        pe_seq (x\<lparr>pe_service := Some s\<rparr>) \<le> c"
      using bound by auto
    show "\<forall>b c. Some a = Some b \<longrightarrow> (if ?ls = [] then Some a else Some (ll_seq (last ?ls))) = Some c \<longrightarrow> b \<le> c"
      using last by auto
  qed
qed

lemma follow_pages_Inr:
  "follow_pages lib opts conn after ss = Inr ps \<Longrightarrow>
   map mp_service ps = ss \<and>
   (\<forall>p \<in> set ps. \<exists>logs. cn_follow_logs conn (mp_service p) None (follow_all_after_seq after (mp_service p)) = Inr logs \<and>
      p = follow_page lib opts (mp_service p) (follow_all_after_seq after (mp_service p)) logs)"
proof (induction ss arbitrary: ps)
  case (Cons s ss)
  then show ?case
    by (fastforce simp: and_then_Inr follow_page_def)
qed simp

text \<open>
  C21. Following every service from its cursor never loses and never repeats an entry, whatever limit
  cuts the answer: each service gets a next cursor not before its old one, and the entries returned of
  it are exactly those of its shaped lines up to that cursor, so the next request continues with the
  first entry that was not returned. This needs of the session that it answers with the lines after the
  cursor, in order, each with a cursor of its own.
\<close>

theorem follow_all_loses_nothing:
  assumes "follow_all_current_logs lib conn after opts limit = Inr out" and "after \<noteq> []"
    and "cn_list_services conn = Inr services" and "distinct services" and "s \<in> set services"
    and "\<And>s a logs. cn_follow_logs conn s None (Some a) = Inr logs \<Longrightarrow> reply_ok a logs"
  shows "\<exists>a logs c. follow_all_after_seq after s = Some a \<and>
    cn_follow_logs conn s None (Some a) = Inr logs \<and>
    im_get (mo_next out) s = Some c \<and> a \<le> c \<and>
    of_service (Some s) (mo_entries out) =
      filter (\<lambda>e. pe_seq e \<le> c)
        (map (pe_service_update (\<lambda>_. Some s)) (shape lib (lr_lines logs) (opts\<lparr>sh_limit := None\<rparr>)))"
proof -
  let ?o = "opts\<lparr>sh_limit := None\<rparr>"
  obtain pages where ps: "follow_pages lib ?o conn after services = Inr pages"
    and out: "out = merge_follow_pages pages limit False"
    using assms(1,2,3) by (auto simp: follow_all_current_logs_def and_then_Inr)
  note pages = follow_pages_Inr [OF ps]
  have asked: "follow_all_after_seq after t = Some (case im_get after t of None \<Rightarrow> 0 | Some c \<Rightarrow> c)" for t
    using assms(2) by (simp add: follow_all_after_seq_def)
  have ok: "\<forall>p \<in> set pages. page_ok p"
  proof
    fix p assume "p \<in> set pages"
    then obtain logs where logs: "cn_follow_logs conn (mp_service p) None (follow_all_after_seq after (mp_service p)) = Inr logs"
      and p: "p = follow_page lib ?o (mp_service p) (follow_all_after_seq after (mp_service p)) logs"
      using pages by blast
    show "page_ok p"
      by (subst p) (use assms(6) logs follow_page_ok asked in \<open>simp add: asked\<close>)
  qed
  obtain p where p: "p \<in> set pages" "mp_service p = s" using pages assms(5) by auto
  then obtain logs where logs: "cn_follow_logs conn s None (follow_all_after_seq after s) = Inr logs"
    and eq: "p = follow_page lib ?o s (follow_all_after_seq after s) logs"
    using pages by blast
  obtain a where a: "follow_all_after_seq after s = Some a" using asked by blast
  have "mp_after_seq p = Some a" "mp_entries p = map (pe_service_update (\<lambda>_. Some s)) (shape lib (lr_lines logs) ?o)"
    using eq a by (simp_all add: follow_page_def)
  then show ?thesis
    using merged_pages_exact [OF ok _ p(1), of a limit] pages assms(4) p(2) logs a unfolding out by auto
qed

definition plain_library :: log_library where
  "plain_library =
     \<lparr> ll_parse = (\<lambda>_. None), ll_stream = (\<lambda>_. None), ll_json = (\<lambda>_. []), ll_strip_ansi = (\<lambda>s. s),
       ll_rfc3339 = (\<lambda>_. None), ll_date = (\<lambda>_. None) \<rparr>"

definition sample_line :: "u64 \<Rightarrow> log_line" where
  "sample_line n = \<lparr> ll_seq = n, ll_run_generation = 1, ll_timestamp_unix_ms = 100 + n, ll_line = [] \<rparr>"

definition sample_conn :: "unit session_conn" where
  "sample_conn =
     \<lparr> cn_list_services = Inr [''web'', ''db''],
       cn_follow_logs = (\<lambda>s run a.
         let after = (case a of None \<Rightarrow> 0 | Some a \<Rightarrow> a) in
         Inr \<lparr> lr_lines = filter (\<lambda>l. after < ll_seq l)
                           (map sample_line (if s = ''web'' then [3, 5, 8] else [4, 6])),
               lr_truncated = False, lr_first_retained_seq = None \<rparr>),
       cn_get_logs = (\<lambda>s run tail. Inl ()),
       cn_list_log_runs = (\<lambda>s. Inl ()) \<rparr>"

lemma sample_conn_reply: "cn_follow_logs sample_conn s None (Some a) = Inr logs \<Longrightarrow> reply_ok a logs"
proof -
  assume reply: "cn_follow_logs sample_conn s None (Some a) = Inr logs"
  let ?ls = "map sample_line (if s = ''web'' then [3, 5, 8] else [4, 6])"
  have "sorted_wrt (\<lambda>x y. ll_seq x < ll_seq y) ?ls" by (simp add: sample_line_def)
  then have "sorted_wrt (\<lambda>x y. ll_seq x < ll_seq y) (filter (\<lambda>l. a < ll_seq l) ?ls)"
    by (rule sorted_wrt_filter)
  moreover have "lr_lines logs = filter (\<lambda>l. a < ll_seq l) ?ls"
    using reply by (simp add: sample_conn_def Let_def del: filter.simps list.map split del: if_split) auto
  ultimately show ?thesis unfolding reply_ok_def by simp
qed

lemma sample_shape:
  "map pe_seq (shape plain_library (map sample_line ns) (default_shape\<lparr>sh_limit := None\<rparr>)) = ns"
proof -
  have "leading ws [] = None" for ws by (auto simp: leading_def find_None_iff)
  then have empty: "strip_leading ws [] = []" for ws by (subst strip_leading.simps) simp
  have norm: "normalize_record_text plain_library [] b = []" for b
    by (simp add: normalize_record_text_def drop_cr_def trim_end_def trim_start_def strip_suffix_def empty)
  have segs: "record_segments plain_library [] = [\<lparr> sg_text = [], sg_json = None \<rparr>]"
    by (simp add: record_segments_def parse_json_object_def trim_start_def empty find_from_def
        embedded_json_object_spans.simps [of _ "[]"])
  have "map (\<lambda>x. pe_seq (fst x)) (fold (\<lambda>rec out.
      fold (push_shaped_segment plain_library default_shape rec None True) [\<lparr> sg_text = [], sg_json = None \<rparr>] out)
      (map sample_line ns) out) = map (\<lambda>x. pe_seq (fst x)) out @ ns" for out
    by (induction ns arbitrary: out)
      (simp_all add: push_shaped_segment_def default_shape_def sample_line_def Let_def)
  note shaped = this [of "[]"]
  have sel: "ll_strip_ansi plain_library s = s" "ll_line (sample_line n) = []"
    "default_shape\<lparr>sh_limit := None\<rparr> = default_shape" "sh_raw default_shape = False"
    "sh_grep default_shape = None" "sh_limit default_shape = None" for s n
    by (simp_all add: plain_library_def sample_line_def default_shape_def)
  show ?thesis
    using shaped by (simp add: shape_def sel norm segs Let_def fold_map o_def)
qed

theorem follow_all_loses_nothing_witness:
  "\<exists>out c. follow_all_current_logs plain_library sample_conn [(''web'', 3)] default_shape 2 = Inr out \<and>
     im_get (mo_next out) ''web'' = Some c \<and> 3 \<le> c \<and>
     map pe_seq (of_service (Some ''web'') (mo_entries out)) = filter (\<lambda>n. n \<le> c) [5, 8]"
proof -
  have listed: "cn_list_services sample_conn = Inr [''web'', ''db'']" by (simp add: sample_conn_def)
  obtain out where out: "follow_all_current_logs plain_library sample_conn [(''web'', 3)] default_shape 2 = Inr out"
    by (simp add: follow_all_current_logs_def listed) (simp add: sample_conn_def Let_def)
  have asked: "follow_all_after_seq [(''web'', 3)] ''web'' = Some 3" by (simp add: follow_all_after_seq_def)
  have reply: "cn_follow_logs sample_conn ''web'' None (Some 3) = Inr logs \<Longrightarrow> lr_lines logs = map sample_line [5, 8]" for logs
    by (auto simp: sample_conn_def sample_line_def)
  have seqs: "map pe_seq (filter (\<lambda>e. pe_seq e \<le> c) (map (pe_service_update (\<lambda>_. Some s)) es)) =
      filter (\<lambda>n. n \<le> c) (map pe_seq es)" for c s es
    by (simp add: filter_map o_def)
  from follow_all_loses_nothing [OF out _ listed, of "''web''"] show ?thesis
    using out asked reply seqs sample_shape [of "[5, 8]"] sample_conn_reply by fastforce
qed

end
