(* ===== verification/Run_Reader.thy ===== *)
theory Run_Reader
  imports Session_Model Run_Log
begin

text \<open>
  Reading retained runs through the session model, \<^verbatim>\<open>src/crates/micromux/src/model.rs\<close>. The metadata that
  the disk worker shares with a run is a function of the path of the run, and the read of its file
  (\<open>read_run_log_file\<close> with the locked index of the run) is a parameter; the model may change while the
  file is read, so the read takes the model before and after it.
\<close>

record log_run_summary =
  ls_run_generation :: u64
  ls_current :: bool
  ls_path :: "string option"
  ls_line_count :: usize
  ls_first_seq :: "u64 option"
  ls_last_seq :: "u64 option"

record log_run =
  lo_run_generation :: u64
  lo_current :: bool
  lo_lines :: "log_line list"

type_synonym shared_metadata = "string \<Rightarrow> disk_run_metadata"

definition run_summary :: "shared_metadata \<Rightarrow> bool \<Rightarrow> run_log_entry \<Rightarrow> log_run_summary" where
  "run_summary meta current r =
     (let m = (case rl_path r of None \<Rightarrow> metadata_default | Some p \<Rightarrow> meta p) in
      \<lparr> ls_run_generation = rl_run_generation r, ls_current = current, ls_path = rl_path r,
        ls_line_count = dm_line_count m, ls_first_seq = dm_first_seq m, ls_last_seq = dm_last_seq m \<rparr>)"

definition entry_log_runs :: "shared_metadata \<Rightarrow> service_entry \<Rightarrow> log_run_summary list" where
  "entry_log_runs meta e =
     (let latest = latest_run_generation e;
          runs = map (\<lambda>r. run_summary meta (rl_run_generation r = latest) r)
                   (filter (\<lambda>r. rl_path r \<noteq> None) (en_runs e))
      in if latest \<noteq> 0 \<and> \<not> list_ex (\<lambda>r. rl_run_generation r = latest) (en_runs e)
         then runs @ [\<lparr> ls_run_generation = latest, ls_current = True, ls_path = None,
                        ls_line_count = 0, ls_first_seq = None, ls_last_seq = None \<rparr>]
         else runs)"

definition run_log_source :: "service_entry \<Rightarrow> u64 \<Rightarrow> string option" where
  "run_log_source e generation =
     Option.bind (List.find (\<lambda>r. rl_run_generation r = generation) (en_runs e)) rl_path"

definition synthetic_empty_run :: "service_entry \<Rightarrow> u64 \<Rightarrow> log_run option" where
  "synthetic_empty_run e generation =
     (if generation = 0 \<or> generation \<noteq> latest_run_generation e \<or>
         list_ex (\<lambda>r. rl_run_generation r = generation) (en_runs e)
      then None
      else Some \<lparr> lo_run_generation = generation, lo_current = True, lo_lines = [] \<rparr>)"

definition is_current_run_path :: "service_entry \<Rightarrow> u64 \<Rightarrow> string \<Rightarrow> bool option" where
  "is_current_run_path e generation path =
     (case List.find (\<lambda>r. rl_run_generation r = generation) (en_runs e) of
        None \<Rightarrow> None
      | Some r \<Rightarrow>
          if rl_path r \<noteq> Some path then None
          else Some (rl_run_generation r = latest_run_generation e))"

definition query_log_runs :: "shared_metadata \<Rightarrow> service_id \<Rightarrow> session_model \<Rightarrow> log_run_summary list" where
  "query_log_runs meta s m =
     (case im_get (sm_services m) s of None \<Rightarrow> [] | Some e \<Rightarrow> entry_log_runs meta e)"

definition first_retained_log_seq :: "service_id \<Rightarrow> session_model \<Rightarrow> u64 option" where
  "first_retained_log_seq s m =
     Option.bind (im_get (sm_services m) s) (\<lambda>e. first_retained_seq (en_visible e))"

text \<open>What a read of the file of a run gives: no page when the file is missing or not readable.\<close>

type_synonym file_read =
  "string \<Rightarrow> usize option \<Rightarrow> u64 option \<Rightarrow> usize option \<Rightarrow> log_run_read_error + log_line list option"

definition read_run_log ::
  "file_read \<Rightarrow> session_model \<Rightarrow> session_model \<Rightarrow> service_id \<Rightarrow> u64 \<Rightarrow> usize option \<Rightarrow> u64 option \<Rightarrow>
   usize option \<Rightarrow> log_run_read_error + log_run option"
where
  "read_run_log rd before later s generation tail after limit =
     (case im_get (sm_services before) s of
        None \<Rightarrow> Inr None
      | Some e \<Rightarrow>
          (case run_log_source e generation of
             None \<Rightarrow> Inr (synthetic_empty_run e generation)
           | Some path \<Rightarrow>
               and_then (rd path tail after limit) (\<lambda>page.
               case page of
                 None \<Rightarrow> Inr None
               | Some ls \<Rightarrow>
                   (case Option.bind (im_get (sm_services later) s)
                           (\<lambda>e. is_current_run_path e generation path) of
                      None \<Rightarrow> Inr None
                    | Some current \<Rightarrow>
                        Inr (Some \<lparr> lo_run_generation = generation, lo_current = current,
                                    lo_lines = ls \<rparr>)))))"

definition try_run_log ::
  "file_read \<Rightarrow> session_model \<Rightarrow> session_model \<Rightarrow> service_id \<Rightarrow> u64 \<Rightarrow> usize option \<Rightarrow>
   log_run_read_error + log_run option"
where
  "try_run_log rd before later s generation tail =
     read_run_log rd before later s generation tail None None"

definition try_run_log_after ::
  "file_read \<Rightarrow> session_model \<Rightarrow> session_model \<Rightarrow> service_id \<Rightarrow> u64 \<Rightarrow> u64 option \<Rightarrow> usize option \<Rightarrow>
   log_run_read_error + log_run option"
where
  "try_run_log_after rd before later s generation after limit =
     read_run_log rd before later s generation None after limit"

end
