(* ===== verification/Control_Frames.thy ===== *)
theory Control_Frames
  imports Run_Reader Reconcile
begin

text \<open>
  Replies of the control server and how they are bounded to a frame,
  \<^verbatim>\<open>src/crates/micromux-control/src/protocol.rs\<close> and \<^verbatim>\<open>src/crates/micromux-control/src/server/unix.rs\<close>.
  The length of an encoded reply (\<^verbatim>\<open>serde_json::to_vec\<close>, which may fail) is a parameter.
\<close>

section \<open>Replies\<close>

record protocol_version =
  pv_major :: u16
  pv_minor :: u16

definition PROTOCOL_VERSION :: protocol_version where
  "PROTOCOL_VERSION = \<lparr> pv_major = 3, pv_minor = 9 \<rparr>"

definition supports_versioned_subscriptions :: "protocol_version \<Rightarrow> bool" where
  "supports_versioned_subscriptions v \<longleftrightarrow> pv_major v = pv_major PROTOCOL_VERSION \<and> 7 \<le> pv_minor v"

definition is_compatible_with :: "protocol_version \<Rightarrow> protocol_version \<Rightarrow> bool" where
  "is_compatible_with v peer \<longleftrightarrow> pv_major v = pv_major peer"

record service_brief =
  sb_id :: service_id
  sb_name :: string

record disk_log_read_health =
  rh_initialized :: bool
  rh_available :: bool
  rh_workers :: usize
  rh_active :: usize
  rh_queue_capacity :: usize
  rh_queued :: usize
  rh_abandoned :: usize
  rh_timed_out_requests :: usize

record dynamic_services_caps =
  dc_max_services :: usize
  dc_live_services :: usize
  dc_max_lifetime_secs :: "nat option"
  dc_allowed_working_roots :: "string list"

record session_capabilities =
  sp_dynamic_services :: "dynamic_services_caps option"
  sp_disk_log_reads :: "disk_log_read_health option"

record session_info =
  si_protocol_version :: protocol_version
  si_id :: string
  si_pid :: u32
  si_start_time :: u64
  si_name :: string
  si_working_dir :: string
  si_config_path :: string
  si_services :: "service_brief list"
  si_services_truncated :: bool
  si_micromux_version :: string
  si_capabilities :: "session_capabilities option"

definition is_same_instance :: "session_info \<Rightarrow> session_info \<Rightarrow> bool" where
  "is_same_instance a b \<longleftrightarrow>
     si_id a = si_id b \<and> si_pid a = si_pid b \<and> si_start_time a = si_start_time b"

datatype error_code =
    ErrorCode_UnknownService | ErrorCode_UnknownRun | ErrorCode_NoSession | ErrorCode_Ambiguous
  | ErrorCode_Busy | ErrorCode_Timeout | ErrorCode_InvalidState | ErrorCode_ConfigReload
  | ErrorCode_PolicyDenied | ErrorCode_LimitExceeded | ErrorCode_RevisionMismatch
  | ErrorCode_InvalidSpec | ErrorCode_SchedulerStopped | ErrorCode_UnsupportedPlatform
  | ErrorCode_ProtocolVersionMismatch | ErrorCode_BadRequest | ErrorCode_Internal | ErrorCode_Unknown

datatype response =
    Response_Description session_info
  | Response_Services "service_snapshot list"
  | Response_Service service_snapshot
  | Response_Logs "log_line list" bool "u64 option"
  | Response_LogRuns "log_run_summary list"
  | Response_Health "health_attempt option"
  | Response_HealthHistory "health_attempt list"
  | Response_Events "service_event list" bool
  | Response_Accepted "service_command_ack list"
  | Response_DynamicService dynamic_service_ack
  | Response_Reconcile reconcile_receipt
  | Response_Change session_change
  | Response_ShuttingDown
  | Response_Error error_code string

type_synonym encoder = "response \<Rightarrow> usize option"

definition RESPONSE_MAX_BYTES :: usize where
  "RESPONSE_MAX_BYTES = 512 * 1024"

definition MAX_LOG_TAIL :: usize where
  "MAX_LOG_TAIL = 2000"

definition fits_frame :: "encoder \<Rightarrow> response \<Rightarrow> bool" where
  "fits_frame enc r \<longleftrightarrow> (case enc r of None \<Rightarrow> False | Some n \<Rightarrow> n \<le> RESPONSE_MAX_BYTES)"

section \<open>Bisection\<close>

text \<open>
  The two loops of the bounds: the largest size that was seen to fit, and the smallest start that was
  seen to fit.
\<close>

function search_up :: "(nat \<Rightarrow> bool) \<Rightarrow> nat \<Rightarrow> nat \<Rightarrow> nat" where
  "search_up p low high =
     (if low < high
      then
        let middle = low + (high - low + 1) div 2 in
        if p middle then search_up p middle high else search_up p low (middle - 1)
      else low)"
  by auto
termination
  by (relation "measure (\<lambda>(p, low, high). high - low)") auto

function search_down :: "(nat \<Rightarrow> bool) \<Rightarrow> nat \<Rightarrow> nat \<Rightarrow> nat" where
  "search_down p low high =
     (if low < high
      then
        let middle = low + (high - low) div 2 in
        if p middle then search_down p low middle else search_down p (middle + 1) high
      else low)"
  by auto
termination
  by (relation "measure (\<lambda>(p, low, high). high - low)") auto

declare search_up.simps [simp del] search_down.simps [simp del]

section \<open>Log pages\<close>

definition logs_fit :: "encoder \<Rightarrow> log_line list \<Rightarrow> bool \<Rightarrow> u64 option \<Rightarrow> bool" where
  "logs_fit enc ls truncated first_retained \<longleftrightarrow> fits_frame enc (Response_Logs ls truncated first_retained)"

definition line_boundaries :: "string \<Rightarrow> bool \<Rightarrow> nat list" where
  "line_boundaries original keep_tail =
     sort (remdups
       (map (\<lambda>i. if keep_tail then length original - i else i) (char_indices original) @
        [0, length original]))"

definition line_part :: "string \<Rightarrow> bool \<Rightarrow> nat \<Rightarrow> string" where
  "line_part original keep_tail n =
     (if keep_tail then drop (length original - n) original else take n original)"

definition fit_single_log_line ::
  "encoder \<Rightarrow> log_line \<Rightarrow> bool \<Rightarrow> u64 option \<Rightarrow> log_line option"
where
  "fit_single_log_line enc line keep_tail first_retained =
     (let original = ll_line line;
          boundaries = line_boundaries original keep_tail;
          cut = (\<lambda>i. line\<lparr> ll_line := line_part original keep_tail (boundaries ! i) \<rparr>);
          low = search_up (\<lambda>i. logs_fit enc [cut i] True first_retained) 0 (length boundaries - 1)
      in if logs_fit enc [cut low] True first_retained then Some (cut low) else None)"

definition option_list :: "'a option \<Rightarrow> 'a list" where
  "option_list x = (case x of None \<Rightarrow> [] | Some y \<Rightarrow> [y])"

definition bound_tail_response_lines ::
  "encoder \<Rightarrow> log_line list \<Rightarrow> u64 option \<Rightarrow> log_line list \<times> bool"
where
  "bound_tail_response_lines enc ls first_retained =
     (if logs_fit enc ls True first_retained then (ls, False)
      else
        let low = search_down (\<lambda>i. logs_fit enc (drop i ls) True first_retained) 0 (length ls) in
        if low = length ls
        then (option_list (if ls = [] then None
                           else fit_single_log_line enc (last ls) True first_retained), True)
        else (drop low ls, True))"

definition bound_follow_response_lines ::
  "encoder \<Rightarrow> log_line list \<Rightarrow> u64 option \<Rightarrow> log_line list \<times> bool"
where
  "bound_follow_response_lines enc ls first_retained =
     (if logs_fit enc ls True first_retained then (ls, False)
      else
        let low = search_up (\<lambda>i. logs_fit enc (take i ls) True first_retained) 0 (length ls) in
        if low = 0
        then (option_list (if ls = [] then None
                           else fit_single_log_line enc (hd ls) False first_retained), True)
        else (take low ls, True))"

text \<open>The byte bound is not applied to a page that the line limit cut: \<^verbatim>\<open>||\<close> stops at the first.\<close>

definition bound_follow_response_lines_page ::
  "encoder \<Rightarrow> log_line list \<Rightarrow> u64 option \<Rightarrow> log_line list \<times> bool"
where
  "bound_follow_response_lines_page enc ls first_retained =
     (let capped = MAX_LOG_TAIL < length ls;
          ls = take MAX_LOG_TAIL ls
      in if capped then (ls, True) else bound_follow_response_lines enc ls first_retained)"

section \<open>Health and events\<close>

definition trim_health_attempt_to_fit ::
  "(health_attempt \<Rightarrow> bool) \<Rightarrow> health_attempt \<Rightarrow> health_attempt"
where
  "trim_health_attempt_to_fit p a =
     (let output = ha_output a;
          keep = (\<lambda>n. a\<lparr> ha_output := drop (length output - n) output \<rparr>);
          a1 = keep (search_up (\<lambda>n. p (keep n)) 0 (length output))
      in if p a1 then a1
         else
           let command = ha_command a;
               boundaries = char_indices command @ [length command];
               from = (\<lambda>i. a1\<lparr> ha_command := drop (boundaries ! i) command \<rparr>)
           in from (search_down (\<lambda>i. p (from i)) 0 (length boundaries - 1)))"

definition bound_health_attempt :: "encoder \<Rightarrow> health_attempt option \<Rightarrow> health_attempt option" where
  "bound_health_attempt enc a =
     (if fits_frame enc (Response_Health a) then a
      else map_option (trim_health_attempt_to_fit (\<lambda>x. fits_frame enc (Response_Health (Some x)))) a)"

definition health_history_fits :: "encoder \<Rightarrow> health_attempt list \<Rightarrow> bool" where
  "health_history_fits enc attempts \<longleftrightarrow> fits_frame enc (Response_HealthHistory attempts)"

definition bound_health_history :: "encoder \<Rightarrow> health_attempt list \<Rightarrow> health_attempt list" where
  "bound_health_history enc original =
     (if health_history_fits enc original then original
      else
        let newest = (\<lambda>n. drop (length original - n) original);
            low = search_up (\<lambda>n. health_history_fits enc (newest n)) 0 (length original);
            attempts = newest (max low 1)
        in if health_history_fits enc attempts then attempts
           else (case attempts of
                   [] \<Rightarrow> []
                 | a # rest \<Rightarrow>
                     trim_health_attempt_to_fit (\<lambda>x. health_history_fits enc [x]) a # rest))"

definition events_response_fits :: "encoder \<Rightarrow> service_event list \<Rightarrow> bool \<Rightarrow> bool" where
  "events_response_fits enc evs truncated \<longleftrightarrow> fits_frame enc (Response_Events evs truncated)"

definition bound_events ::
  "encoder \<Rightarrow> service_event list \<Rightarrow> bool \<Rightarrow> bool \<Rightarrow> service_event list \<times> bool"
where
  "bound_events enc original truncated keep_tail =
     (if events_response_fits enc original truncated then (original, truncated)
      else
        let page = (\<lambda>n. if keep_tail then drop (length original - n) original else take n original);
            low = search_up (\<lambda>n. events_response_fits enc (page n) True) 0 (length original)
        in (page low, True))"

section \<open>Whole replies\<close>

definition bounded_description :: "encoder \<Rightarrow> session_info \<Rightarrow> session_info option" where
  "bounded_description enc info =
     (let services = si_services info;
          upto = (\<lambda>n. info\<lparr> si_services := take n services, si_services_truncated := True \<rparr>);
          p = (\<lambda>n. fits_frame enc (Response_Description (upto n)));
          low = search_up p 0 (length services)
      in if p low then Some (upto low) else None)"

definition FRAME_BUDGET_MESSAGE :: string where
  "FRAME_BUDGET_MESSAGE = ''the response exceeds the control protocol frame budget''"

definition response_within_frame :: "encoder \<Rightarrow> response \<Rightarrow> response" where
  "response_within_frame enc r =
     (if fits_frame enc r then r
      else
        (case r of
           Response_Description info \<Rightarrow>
             (case bounded_description enc info of
                Some info \<Rightarrow> Response_Description info
              | None \<Rightarrow> Response_Error ErrorCode_LimitExceeded FRAME_BUDGET_MESSAGE)
         | _ \<Rightarrow> Response_Error ErrorCode_LimitExceeded FRAME_BUDGET_MESSAGE))"

end
