(* ===== verification/Control_Server.thy ===== *)
theory Control_Server
  imports Control_Frames
begin

text \<open>
  The requests of the control protocol and how the server of a session answers them,
  \<^verbatim>\<open>src/crates/micromux-control/src/protocol.rs\<close> and \<^verbatim>\<open>src/crates/micromux-control/src/server/unix.rs\<close>.
  The scheduler is reached through a port that is a parameter (\<open>None\<close>: the scheduler has stopped), and
  so are the state of the pool that reads run files and the socket.
\<close>

section \<open>Requests\<close>

datatype request =
    Request_Describe
  | Request_ListServices
  | Request_GetService service_id
  | Request_GetLogs service_id "u64 option" "usize option"
  | Request_FollowLogs service_id "u64 option" "u64 option"
  | Request_ListLogRuns service_id
  | Request_GetHealth service_id
  | Request_GetHealthHistory service_id
  | Request_GetEvents service_id "u64 option" "usize option"
  | Request_Restart service_id
  | Request_RestartAll
  | Request_Enable service_id
  | Request_Disable service_id
  | Request_StartDynamicService dynamic_service_params
  | Request_ReplaceDynamicService service_id u64 dynamic_service_params
  | Request_RenewDynamicService service_id u64 "lease option"
  | Request_StopDynamicService service_id
  | Request_ReconcileConfig bool
  | Request_Shutdown
  | Request_Subscribe
  | Request_SubscribeWithVersion protocol_version

fun is_retry_safe :: "request \<Rightarrow> bool" where
  "is_retry_safe Request_Describe = True"
| "is_retry_safe Request_ListServices = True"
| "is_retry_safe (Request_GetService s) = True"
| "is_retry_safe (Request_GetLogs s r t) = True"
| "is_retry_safe (Request_FollowLogs s r a) = True"
| "is_retry_safe (Request_ListLogRuns s) = True"
| "is_retry_safe (Request_GetHealth s) = True"
| "is_retry_safe (Request_GetHealthHistory s) = True"
| "is_retry_safe (Request_GetEvents s a t) = True"
| "is_retry_safe (Request_ReconcileConfig dry_run) = dry_run"
| "is_retry_safe _ = False"

section \<open>Acknowledgements\<close>

type_synonym 'a control_result = "(command_rejection + 'a) option"

record service_control =
  ct_restart :: "service_id \<Rightarrow> service_command_ack list control_result"
  ct_restart_all :: "service_command_ack list control_result"
  ct_enable :: "service_id \<Rightarrow> service_command_ack list control_result"
  ct_disable :: "service_id \<Rightarrow> service_command_ack list control_result"
  ct_start_dynamic :: "dynamic_service_params \<Rightarrow> dynamic_service_ack control_result"
  ct_replace_dynamic :: "service_id \<Rightarrow> u64 \<Rightarrow> dynamic_service_params \<Rightarrow> dynamic_service_ack control_result"
  ct_renew_dynamic :: "service_id \<Rightarrow> u64 \<Rightarrow> lease option \<Rightarrow> dynamic_service_ack control_result"
  ct_stop_dynamic :: "service_id \<Rightarrow> dynamic_service_ack control_result"
  ct_reconcile_config :: "bool \<Rightarrow> reconcile_receipt control_result"

fun rejection_response :: "command_rejection \<Rightarrow> response" where
  "rejection_response CommandRejection_UnknownService =
     Response_Error ErrorCode_UnknownService ''unknown service''"
| "rejection_response (CommandRejection_InvalidState m) = Response_Error ErrorCode_InvalidState m"
| "rejection_response (CommandRejection_ConfigReload m) = Response_Error ErrorCode_ConfigReload m"
| "rejection_response (CommandRejection_PolicyDenied m) = Response_Error ErrorCode_PolicyDenied m"
| "rejection_response (CommandRejection_LimitExceeded m) = Response_Error ErrorCode_LimitExceeded m"
| "rejection_response (CommandRejection_RevisionMismatch e a) =
     Response_Error ErrorCode_RevisionMismatch
       (''expected revision '' @ show_u64 e @ '', actual revision '' @ show_u64 a)"
| "rejection_response (CommandRejection_InvalidSpec m) = Response_Error ErrorCode_InvalidSpec m"

definition acknowledge_with :: "'a control_result \<Rightarrow> ('a \<Rightarrow> response) \<Rightarrow> response" where
  "acknowledge_with result ok =
     (case result of
        None \<Rightarrow> Response_Error ErrorCode_SchedulerStopped ''the scheduler has stopped''
      | Some (Inl rejection) \<Rightarrow> rejection_response rejection
      | Some (Inr v) \<Rightarrow> ok v)"

section \<open>Reads\<close>

record session_identity =
  ci_id :: string
  ci_pid :: u32
  ci_start_time :: u64
  ci_name :: string
  ci_working_dir :: string
  ci_config_path :: string
  ci_micromux_version :: string

text \<open>
  What a request reads: the time, the model when the request arrives and after the file of a run was
  read, the metadata the disk worker publishes, and the files.
\<close>

record control_reader =
  cr_now :: instant
  cr_model :: session_model
  cr_later :: session_model
  cr_metadata :: shared_metadata
  cr_read :: file_read

definition unknown_service :: "service_id \<Rightarrow> response" where
  "unknown_service s =
     Response_Error ErrorCode_UnknownService (''unknown service `'' @ s @ ''`'')"

definition unknown_run :: "service_id \<Rightarrow> u64 \<Rightarrow> response" where
  "unknown_run s generation =
     Response_Error ErrorCode_UnknownRun
       (''service `'' @ s @ ''` has no retained run `'' @ show_u64 generation @ ''`'')"

fun log_read_error :: "log_run_read_error \<Rightarrow> response" where
  "log_read_error LogRunReadError_Rotating =
     Response_Error ErrorCode_Busy ''run log is rotating; retry the read''"

definition DEFAULT_LOG_TAIL :: usize where
  "DEFAULT_LOG_TAIL = 200"

definition DEFAULT_EVENT_TAIL :: usize where
  "DEFAULT_EVENT_TAIL = 50"

definition MAX_EVENT_TAIL :: usize where
  "MAX_EVENT_TAIL = EVENT_HISTORY"

definition get_events ::
  "encoder \<Rightarrow> session_model \<Rightarrow> service_id \<Rightarrow> u64 option \<Rightarrow> usize option \<Rightarrow> response"
where
  "get_events enc m s after tail =
     (if im_get (sm_services m) s = None then unknown_service s
      else
        let requested = (case tail of None \<Rightarrow> DEFAULT_EVENT_TAIL | Some n \<Rightarrow> n);
            (evs, truncated) = query_events s after (Some (min requested MAX_EVENT_TAIL)) m;
            (evs, truncated) = bound_events enc evs truncated (after = None)
        in Response_Events evs truncated)"

definition list_log_runs :: "control_reader \<Rightarrow> service_id \<Rightarrow> response" where
  "list_log_runs r s =
     (if im_get (sm_services (cr_model r)) s = None then unknown_service s
      else Response_LogRuns (query_log_runs (cr_metadata r) s (cr_model r)))"

definition logs_reply :: "encoder \<Rightarrow> bool \<Rightarrow> u64 option \<Rightarrow> log_line list \<Rightarrow> response" where
  "logs_reply enc truncated first ls =
     (let (ls, cut) = bound_tail_response_lines enc ls first
      in Response_Logs ls (truncated \<or> cut) first)"

definition get_logs ::
  "encoder \<Rightarrow> control_reader \<Rightarrow> service_id \<Rightarrow> u64 option \<Rightarrow> usize option \<Rightarrow> response"
where
  "get_logs enc r s which_run tail =
     (let m = cr_model r in
      if im_get (sm_services m) s = None then unknown_service s
      else
        let requested =
              (case tail of
                 Some n \<Rightarrow> n | None \<Rightarrow> if which_run \<noteq> None then MAX_LOG_TAIL else DEFAULT_LOG_TAIL);
            tail = min requested MAX_LOG_TAIL;
            over = (\<lambda>ls. MAX_LOG_TAIL < requested \<and> tail \<le> length ls)
        in case which_run of
             None \<Rightarrow>
               let ls = query_logs s (Some tail) m
               in logs_reply enc (over ls) (first_retained_log_seq s m) ls
           | Some generation \<Rightarrow>
               (case try_run_log (cr_read r) m (cr_later r) s generation (Some tail) of
                  Inl e \<Rightarrow> log_read_error e
                | Inr None \<Rightarrow> unknown_run s generation
                | Inr (Some page) \<Rightarrow>
                    let ls = lo_lines page;
                        longer = (case List.find (\<lambda>x. ls_run_generation x = generation)
                                         (query_log_runs (cr_metadata r) s (cr_later r)) of
                                    None \<Rightarrow> False | Some x \<Rightarrow> length ls < ls_line_count x)
                    in logs_reply enc (over ls \<or> tail = MAX_LOG_TAIL \<and> longer) None ls))"

definition follow_reply :: "encoder \<Rightarrow> u64 option \<Rightarrow> log_line list \<Rightarrow> response" where
  "follow_reply enc first ls =
     (let (ls, truncated) = bound_follow_response_lines_page enc ls first
      in Response_Logs ls truncated first)"

definition follow_logs ::
  "encoder \<Rightarrow> control_reader \<Rightarrow> service_id \<Rightarrow> u64 option \<Rightarrow> u64 option \<Rightarrow> response"
where
  "follow_logs enc r s which_run after =
     (let m = cr_model r in
      if im_get (sm_services m) s = None then unknown_service s
      else
        case which_run of
          Some generation \<Rightarrow>
            (case try_run_log_after (cr_read r) m (cr_later r) s generation after (Some (MAX_LOG_TAIL + 1)) of
               Inl e \<Rightarrow> log_read_error e
             | Inr None \<Rightarrow> unknown_run s generation
             | Inr (Some page) \<Rightarrow>
                 follow_reply enc None
                   (case after of
                      None \<Rightarrow> lo_lines page
                    | Some cursor \<Rightarrow> filter (\<lambda>l. cursor < ll_seq l) (lo_lines page)))
        | None \<Rightarrow>
            (case after of
               Some cursor \<Rightarrow>
                 let (first, ls) = query_logs_since s cursor m in follow_reply enc first ls
             | None \<Rightarrow>
                 let ls = query_logs s None m;
                     first = (case ls of [] \<Rightarrow> None | l # _ \<Rightarrow> Some (ll_seq l));
                     long = MAX_LOG_TAIL < length ls
                 in logs_reply enc long first (if long then drop (length ls - MAX_LOG_TAIL) ls else ls)))"

definition get_health_history :: "encoder \<Rightarrow> session_model \<Rightarrow> service_id \<Rightarrow> response" where
  "get_health_history enc m s =
     (if im_get (sm_services m) s = None then unknown_service s
      else Response_HealthHistory (bound_health_history enc (query_healthchecks s m)))"

definition get_health :: "encoder \<Rightarrow> session_model \<Rightarrow> service_id \<Rightarrow> response" where
  "get_health enc m s =
     (if im_get (sm_services m) s = None then unknown_service s
      else Response_Health (bound_health_attempt enc (query_latest_health s m)))"

definition get_service :: "instant \<Rightarrow> session_model \<Rightarrow> service_id \<Rightarrow> response" where
  "get_service now m s =
     (let snapshots = query_services now m in
      case List.find (\<lambda>x. sn_id x = s) snapshots of
        Some x \<Rightarrow> Response_Service x
      | None \<Rightarrow>
          (case List.find (\<lambda>x. sn_name x = s) snapshots of
             Some x \<Rightarrow> Response_Service x | None \<Rightarrow> unknown_service s))"

definition describe ::
  "session_identity \<Rightarrow> dynamic_services_policy \<Rightarrow> disk_log_read_health \<Rightarrow> service_snapshot list \<Rightarrow> session_info"
where
  "describe ident policy health snapshots =
     \<lparr> si_protocol_version = PROTOCOL_VERSION, si_id = ci_id ident, si_pid = ci_pid ident,
       si_start_time = ci_start_time ident, si_name = ci_name ident,
       si_working_dir = ci_working_dir ident, si_config_path = ci_config_path ident,
       si_services = map (\<lambda>x. \<lparr> sb_id = sn_id x, sb_name = sn_name x \<rparr>) snapshots,
       si_services_truncated = False, si_micromux_version = ci_micromux_version ident,
       si_capabilities =
         Some \<lparr> sp_dynamic_services =
                  (if dy_enabled policy
                   then Some \<lparr> dc_max_services = dy_max_services policy,
                               dc_live_services =
                                 length (filter (\<lambda>x. sn_origin x = OriginKind_Dynamic \<and> sn_retired x = None)
                                           snapshots),
                               dc_max_lifetime_secs =
                                 map_option (\<lambda>d. d div NANOS_PER_SEC) (dy_max_lifetime policy),
                               dc_allowed_working_roots = dy_allowed_working_roots policy \<rparr>
                   else None),
                sp_disk_log_reads = Some health \<rparr> \<rparr>"

section \<open>Dispatch\<close>

text \<open>
  Reads of run files go through the pool, which may answer instead of the read (it is saturated, the
  read took too long, or its worker was lost).
\<close>

record control_server =
  cs_reader :: control_reader
  cs_control :: service_control
  cs_identity :: session_identity
  cs_policy :: dynamic_services_policy
  cs_pool_health :: disk_log_read_health
  cs_pool_refusal :: "response option"

definition pooled_read :: "control_server \<Rightarrow> response \<Rightarrow> response" where
  "pooled_read server result = (case cs_pool_refusal server of None \<Rightarrow> result | Some r \<Rightarrow> r)"

fun dispatch :: "encoder \<Rightarrow> control_server \<Rightarrow> request \<Rightarrow> response" where
  "dispatch enc server Request_Describe =
     Response_Description
       (describe (cs_identity server) (cs_policy server) (cs_pool_health server)
         (query_services (cr_now (cs_reader server)) (cr_model (cs_reader server))))"
| "dispatch enc server Request_ListServices =
     Response_Services (query_services (cr_now (cs_reader server)) (cr_model (cs_reader server)))"
| "dispatch enc server (Request_GetService s) =
     get_service (cr_now (cs_reader server)) (cr_model (cs_reader server)) s"
| "dispatch enc server (Request_GetLogs s generation tail) =
     (if generation = None then get_logs enc (cs_reader server) s None tail
      else pooled_read server (get_logs enc (cs_reader server) s generation tail))"
| "dispatch enc server (Request_FollowLogs s generation after) =
     (if generation = None then follow_logs enc (cs_reader server) s None after
      else pooled_read server (follow_logs enc (cs_reader server) s generation after))"
| "dispatch enc server (Request_ListLogRuns s) = pooled_read server (list_log_runs (cs_reader server) s)"
| "dispatch enc server (Request_GetHealth s) = get_health enc (cr_model (cs_reader server)) s"
| "dispatch enc server (Request_GetHealthHistory s) =
     get_health_history enc (cr_model (cs_reader server)) s"
| "dispatch enc server (Request_GetEvents s after tail) =
     get_events enc (cr_model (cs_reader server)) s after tail"
| "dispatch enc server (Request_Restart s) =
     acknowledge_with (ct_restart (cs_control server) s) Response_Accepted"
| "dispatch enc server Request_RestartAll =
     acknowledge_with (ct_restart_all (cs_control server)) Response_Accepted"
| "dispatch enc server (Request_Enable s) =
     acknowledge_with (ct_enable (cs_control server) s) Response_Accepted"
| "dispatch enc server (Request_Disable s) =
     acknowledge_with (ct_disable (cs_control server) s) Response_Accepted"
| "dispatch enc server (Request_StartDynamicService params) =
     acknowledge_with (ct_start_dynamic (cs_control server) params) Response_DynamicService"
| "dispatch enc server (Request_ReplaceDynamicService s revision params) =
     acknowledge_with (ct_replace_dynamic (cs_control server) s revision params) Response_DynamicService"
| "dispatch enc server (Request_RenewDynamicService s revision expires_after) =
     acknowledge_with (ct_renew_dynamic (cs_control server) s revision expires_after) Response_DynamicService"
| "dispatch enc server (Request_StopDynamicService s) =
     acknowledge_with (ct_stop_dynamic (cs_control server) s) Response_DynamicService"
| "dispatch enc server (Request_ReconcileConfig dry_run) =
     acknowledge_with (ct_reconcile_config (cs_control server) dry_run) Response_Reconcile"
| "dispatch enc server Request_Subscribe =
     Response_Error ErrorCode_BadRequest ''subscribe must be the only request on a connection''"
| "dispatch enc server (Request_SubscribeWithVersion v) =
     Response_Error ErrorCode_BadRequest ''subscribe must be the only request on a connection''"
| "dispatch enc server Request_Shutdown =
     Response_Error ErrorCode_BadRequest ''shutdown is handled before dispatch''"

section \<open>Connections\<close>

record subscription_policy =
  su_keepalive_interval :: duration
  su_keepalive_kind :: change_kind
  su_inbound_frame_window :: duration

definition IDLE_TIMEOUT :: duration where
  "IDLE_TIMEOUT = from_secs (5 * 60)"

definition SUBSCRIPTION_HEARTBEAT_INTERVAL :: duration where
  "SUBSCRIPTION_HEARTBEAT_INTERVAL = from_secs 30"

definition UNSOLICITED_SUBSCRIPTION_FRAME_WINDOW :: duration where
  "UNSOLICITED_SUBSCRIPTION_FRAME_WINDOW = from_secs 60"

definition MAX_UNSOLICITED_SUBSCRIPTION_FRAMES_PER_WINDOW :: usize where
  "MAX_UNSOLICITED_SUBSCRIPTION_FRAMES_PER_WINDOW = 32"

definition subscription_legacy :: subscription_policy where
  "subscription_legacy =
     \<lparr> su_keepalive_interval = IDLE_TIMEOUT, su_keepalive_kind = ChangeKind_Events,
       su_inbound_frame_window = UNSOLICITED_SUBSCRIPTION_FRAME_WINDOW \<rparr>"

definition subscription_versioned :: subscription_policy where
  "subscription_versioned =
     \<lparr> su_keepalive_interval = SUBSCRIPTION_HEARTBEAT_INTERVAL, su_keepalive_kind = ChangeKind_Heartbeat,
       su_inbound_frame_window = UNSOLICITED_SUBSCRIPTION_FRAME_WINDOW \<rparr>"

text \<open>
  What a connection does with a request: answer it and read the next one, or stream changes, or
  acknowledge and stop the session. The dispatched reply is \<open>None\<close> when it timed out.
\<close>

datatype connection_action =
    Connection_Reply response
  | Connection_Stream subscription_policy
  | Connection_StopSession response

fun handle_request :: "encoder \<Rightarrow> (request \<Rightarrow> response option) \<Rightarrow> request \<Rightarrow> connection_action" where
  "handle_request enc dispatched Request_Subscribe = Connection_Stream subscription_legacy"
| "handle_request enc dispatched (Request_SubscribeWithVersion v) =
     Connection_Stream
       (if supports_versioned_subscriptions v then subscription_versioned else subscription_legacy)"
| "handle_request enc dispatched Request_Shutdown =
     Connection_StopSession (response_within_frame enc Response_ShuttingDown)"
| "handle_request enc dispatched r =
     Connection_Reply (response_within_frame enc
       (case dispatched r of
          None \<Rightarrow> Response_Error ErrorCode_Timeout ''the scheduler did not respond in time''
        | Some reply \<Rightarrow> reply))"

text \<open>The frames a subscriber may send, at most so many in a sliding window.\<close>

definition inbound_accepts :: "instant list \<Rightarrow> instant \<Rightarrow> duration \<Rightarrow> bool \<times> instant list" where
  "inbound_accepts accepted_at now window =
     (let recent = dropWhile (\<lambda>accepted. window \<le> now - accepted) accepted_at in
      if MAX_UNSOLICITED_SUBSCRIPTION_FRAMES_PER_WINDOW \<le> length recent then (False, recent)
      else (True, recent @ [now]))"

definition LAG_REPLAY_SERVICE_KINDS :: "change_kind list" where
  "LAG_REPLAY_SERVICE_KINDS = [ChangeKind_Status, ChangeKind_Logs, ChangeKind_Health, ChangeKind_Events]"

definition SESSION_WIDE :: service_id where
  "SESSION_WIDE = ''*''"

definition lag_replay_changes :: "service_snapshot list \<Rightarrow> session_change list" where
  "lag_replay_changes snapshots =
     \<lparr> ch_service_id = SESSION_WIDE, ch_kind = ChangeKind_Roster \<rparr> #
     concat (map (\<lambda>x. map (\<lambda>k. \<lparr> ch_service_id = sn_id x, ch_kind = k \<rparr>) LAG_REPLAY_SERVICE_KINDS)
               snapshots)"

end
