(* ===== verification/Control_Facts.thy ===== *)
theory Control_Facts
  imports Control_Server
begin

text \<open>
  What the bounds of the control server keep: pages that fit a frame, as large as they can be, whose
  cursor always moves on; and a page that can never be delivered, because the line limit hides the byte
  limit.
\<close>

section \<open>Bisection\<close>

lemma search_up_step:
  "low < high \<Longrightarrow> search_up p low high =
     (if p (low + (high - low + 1) div 2) then search_up p (low + (high - low + 1) div 2) high
      else search_up p low (low + (high - low + 1) div 2 - 1))"
  by (subst search_up.simps) (simp add: Let_def)

lemma search_up_done: "\<not> low < high \<Longrightarrow> search_up p low high = low"
  by (subst search_up.simps) simp

lemma search_down_step:
  "low < high \<Longrightarrow> search_down p low high =
     (if p (low + (high - low) div 2) then search_down p low (low + (high - low) div 2)
      else search_down p (low + (high - low) div 2 + 1) high)"
  by (subst search_down.simps) (simp add: Let_def)

lemma search_down_done: "\<not> low < high \<Longrightarrow> search_down p low high = low"
  by (subst search_down.simps) simp

lemma search_up_le: "low \<le> high \<Longrightarrow> low \<le> search_up p low high \<and> search_up p low high \<le> high"
proof (induction p low high rule: search_up.induct)
  case (1 p low high)
  show ?case
  proof (cases "low < high")
    case True
    let ?m = "low + (high - low + 1) div 2"
    have m: "low < ?m" "?m \<le> high" using True by linarith+
    have "p ?m \<Longrightarrow> ?thesis" using 1(1) [OF True refl] m search_up_step [OF True, of p] by simp
    moreover have "\<not> p ?m \<Longrightarrow> ?thesis"
    proof -
      assume n: "\<not> p ?m"
      have "low \<le> search_up p low (?m - 1) \<and> search_up p low (?m - 1) \<le> ?m - 1"
        using 1(2) [OF True refl n] m by simp
      moreover have "search_up p low high = search_up p low (?m - 1)"
        using n search_up_step [OF True, of p] by simp
      ultimately show ?thesis using m by linarith
    qed
    ultimately show ?thesis by blast
  qed (use 1(3) search_up_done in simp)
qed

lemma search_up_fits: "search_up p low high = low \<or> p (search_up p low high)"
proof (induction p low high rule: search_up.induct)
  case (1 p low high)
  show ?case
  proof (cases "low < high")
    case True
    let ?m = "low + (high - low + 1) div 2"
    have "p ?m \<Longrightarrow> ?thesis" using 1(1) [OF True refl] search_up_step [OF True, of p] by auto
    moreover have "\<not> p ?m \<Longrightarrow> ?thesis" using 1(2) [OF True refl] search_up_step [OF True, of p] by auto
    ultimately show ?thesis by blast
  qed (simp add: search_up_done)
qed

lemma search_up_greatest:
  assumes "\<And>i j. i \<le> j \<Longrightarrow> p j \<Longrightarrow> p i" "search_up p low high < j" "j \<le> high"
  shows "\<not> p j"
  using assms
proof (induction p low high rule: search_up.induct)
  case (1 p low high)
  show ?case
  proof (cases "low < high")
    case True
    let ?m = "low + (high - low + 1) div 2"
    show ?thesis
    proof (cases "p ?m")
      case fit: True
      then have "search_up p low high = search_up p ?m high"
        by (subst search_up.simps) (simp add: True Let_def)
      then show ?thesis using 1(1) [OF True refl fit 1(3)] 1(4,5) by simp
    next
      case False
      then have eq: "search_up p low high = search_up p low (?m - 1)"
        by (subst search_up.simps) (simp add: True Let_def)
      show ?thesis
      proof (cases "j \<le> ?m - 1")
        case True
        then show ?thesis using 1(2) [OF \<open>low < high\<close> refl False 1(3)] 1(4) eq by simp
      next
        case above: False
        then have "?m \<le> j" by linarith
        then show ?thesis using 1(3) False by blast
      qed
    qed
  next
    case False
    then have "search_up p low high = low" by (subst search_up.simps) simp
    then show ?thesis using 1(4,5) False by linarith
  qed
qed

lemma search_down_le: "low \<le> high \<Longrightarrow> low \<le> search_down p low high \<and> search_down p low high \<le> high"
proof (induction p low high rule: search_down.induct)
  case (1 p low high)
  show ?case
  proof (cases "low < high")
    case True
    let ?m = "low + (high - low) div 2"
    have m: "low \<le> ?m" "?m < high" using True by linarith+
    have "p ?m \<Longrightarrow> ?thesis"
    proof -
      assume y: "p ?m"
      have "low \<le> search_down p low ?m \<and> search_down p low ?m \<le> ?m" using 1(1) [OF True refl y] m by simp
      moreover have "search_down p low high = search_down p low ?m"
        using y search_down_step [OF True, of p] by simp
      ultimately show ?thesis using m by linarith
    qed
    moreover have "\<not> p ?m \<Longrightarrow> ?thesis" using 1(2) [OF True refl] m search_down_step [OF True, of p] by simp
    ultimately show ?thesis by blast
  qed (use 1(3) search_down_done in simp)
qed

lemma search_down_fits: "low \<le> high \<Longrightarrow> search_down p low high = high \<or> p (search_down p low high)"
proof (induction p low high rule: search_down.induct)
  case (1 p low high)
  show ?case
  proof (cases "low < high")
    case True
    let ?m = "low + (high - low) div 2"
    have m: "low \<le> ?m" "?m + 1 \<le> high" using True by linarith+
    have "p ?m \<Longrightarrow> ?thesis"
      using 1(1) [OF True refl _ m(1)] search_down_step [OF True, of p] by auto
    moreover have "\<not> p ?m \<Longrightarrow> ?thesis"
      using 1(2) [OF True refl _ m(2)] search_down_step [OF True, of p] by auto
    ultimately show ?thesis by blast
  qed (use 1(3) search_down_done in simp)
qed

section \<open>Pages of lines\<close>

text \<open>
  What the server relies on of the encoding: a page with fewer or shorter lines is not longer, and a
  single record without text fits.
\<close>

definition encoder_ok :: "encoder \<Rightarrow> bool" where
  "encoder_ok enc \<longleftrightarrow>
     (\<forall>ls i j first. i \<le> j \<longrightarrow> logs_fit enc (take j ls) True first \<longrightarrow> logs_fit enc (take i ls) True first) \<and>
     (\<forall>l first. logs_fit enc [l\<lparr> ll_line := [] \<rparr>] True first)"

lemma sorted_zero_first: "0 \<in> set xs \<Longrightarrow> sort (remdups xs) ! 0 = (0 :: nat)"
proof -
  assume "0 \<in> set xs"
  then obtain i where i: "i < length (sort (remdups xs))" "sort (remdups xs) ! i = 0"
    by (metis in_set_conv_nth set_remdups set_sort)
  then have "sort (remdups xs) ! 0 \<le> sort (remdups xs) ! i"
    using sorted_nth_mono [OF sorted_sort, of 0 i "remdups xs"] by simp
  then show ?thesis using i by simp
qed

text \<open>A single line that is too long keeps a part that ends between two characters.\<close>

lemma fit_single_spec:
  assumes "encoder_ok enc"
  shows "\<exists>n \<in> set (line_boundaries (ll_line l) keep_tail).
    fit_single_log_line enc l keep_tail first = Some (l\<lparr> ll_line := line_part (ll_line l) keep_tail n \<rparr>) \<and>
    logs_fit enc [l\<lparr> ll_line := line_part (ll_line l) keep_tail n \<rparr>] True first"
proof -
  let ?b = "line_boundaries (ll_line l) keep_tail"
  let ?cut = "\<lambda>i. l\<lparr> ll_line := line_part (ll_line l) keep_tail (?b ! i) \<rparr>"
  let ?low = "search_up (\<lambda>i. logs_fit enc [?cut i] True first) 0 (length ?b - 1)"
  have "0 \<in> set ?b" by (simp add: line_boundaries_def)
  then have ne: "?b \<noteq> []" by auto
  have "?b ! 0 = 0" unfolding line_boundaries_def by (rule sorted_zero_first) simp
  then have empty: "logs_fit enc [?cut 0] True first"
    using assms by (simp add: encoder_ok_def line_part_def)
  have fit: "logs_fit enc [?cut ?low] True first"
    using search_up_fits [of "\<lambda>i. logs_fit enc [?cut i] True first" 0 "length ?b - 1"] empty by metis
  have "?low \<le> length ?b - 1" using search_up_le [of 0 "length ?b - 1"] by blast
  then have "?low < length ?b" using ne by (simp add: le_less_trans Suc_le_lessD length_greater_0_conv less_le_trans)
  then have "?b ! ?low \<in> set ?b" by simp
  then show ?thesis using fit by (intro bexI [of _ "?b ! ?low"]) (simp_all add: fit_single_log_line_def Let_def)
qed

lemma bound_follow_spec:
  assumes ok: "encoder_ok enc" and page: "bound_follow_response_lines enc ls first = (page, truncated)"
    and "ls \<noteq> []"
  shows "logs_fit enc page True first \<and> page \<noteq> [] \<and> (truncated \<longleftrightarrow> page \<noteq> ls) \<and>
    ((\<exists>n. 0 < n \<and> page = take n ls \<and> (n < length ls \<longrightarrow> \<not> logs_fit enc (take (Suc n) ls) True first)) \<or>
     \<not> logs_fit enc [hd ls] True first \<and>
     (\<exists>n \<in> set (line_boundaries (ll_line (hd ls)) False). page = [(hd ls)\<lparr> ll_line := take n (ll_line (hd ls)) \<rparr>]))"
proof (cases "logs_fit enc ls True first")
  case True
  then have "page = ls \<and> \<not> truncated" using page by (simp add: bound_follow_response_lines_def)
  then show ?thesis using True \<open>ls \<noteq> []\<close> by (auto intro!: exI [of _ "length ls"])
next
  case False
  let ?p = "\<lambda>i. logs_fit enc (take i ls) True first"
  let ?low = "search_up ?p 0 (length ls)"
  have mono: "?p i" if "i \<le> j" "?p j" for i j using ok that unfolding encoder_ok_def by blast
  have le: "?low \<le> length ls" using search_up_le [of 0 "length ls" ?p] by simp
  have most: "\<not> ?p j" if "?low < j" "j \<le> length ls" for j
    using search_up_greatest [of ?p 0 "length ls" j] mono that by blast
  show ?thesis
  proof (cases "?low = 0")
    case zero: True
    have "\<not> ?p 1" using most [of 1] zero \<open>ls \<noteq> []\<close> by (cases ls) auto
    then have hd: "\<not> logs_fit enc [hd ls] True first" using \<open>ls \<noteq> []\<close> by (cases ls) auto
    obtain n where n: "n \<in> set (line_boundaries (ll_line (hd ls)) False)"
      "fit_single_log_line enc (hd ls) False first = Some ((hd ls)\<lparr> ll_line := take n (ll_line (hd ls)) \<rparr>)"
      "logs_fit enc [(hd ls)\<lparr> ll_line := take n (ll_line (hd ls)) \<rparr>] True first"
      using fit_single_spec [OF ok, of "hd ls" False first] by (auto simp: line_part_def)
    then have pg: "page = [(hd ls)\<lparr> ll_line := take n (ll_line (hd ls)) \<rparr>]" truncated
      using page False zero \<open>ls \<noteq> []\<close> by (auto simp: bound_follow_response_lines_def option_list_def)
    then have fit: "logs_fit enc page True first" using n(3) by simp
    then have "page \<noteq> ls" using False by blast
    moreover have "page \<noteq> []" using pg(1) by simp
    moreover have "\<not> logs_fit enc [hd ls] True first \<and>
        (\<exists>n \<in> set (line_boundaries (ll_line (hd ls)) False). page = [(hd ls)\<lparr> ll_line := take n (ll_line (hd ls)) \<rparr>])"
      using hd n(1) pg(1) by blast
    ultimately show ?thesis using fit pg(2) by blast
  next
    case nz: False
    have fit: "?p ?low" using search_up_fits [of ?p 0 "length ls"] nz by (elim disjE) simp_all
    then have lt: "?low < length ls" using False le by (metis le_neq_implies_less take_all order_refl)
    have "page = take ?low ls \<and> truncated"
      using page False nz by (auto simp: bound_follow_response_lines_def Let_def)
    moreover have "take ?low ls \<noteq> ls" using lt by (metis length_take min.absorb4 nat_neq_iff)
    moreover have "take ?low ls \<noteq> []" using nz lt by auto
    ultimately show ?thesis using fit most [of "Suc ?low"] nz lt by auto
  qed
qed


text \<open>
  A page that the line limit cut skips the byte bound, so when its lines do not fit a frame the client
  gets an error instead, and asking again from the same cursor gives the same error: the lines cannot be
  followed any more.
\<close>

lemma capped_page_rejected:
  assumes "MAX_LOG_TAIL < length ls" and "\<not> logs_fit enc (take MAX_LOG_TAIL ls) True first"
  shows "response_within_frame enc (follow_reply enc first ls) =
    Response_Error ErrorCode_LimitExceeded FRAME_BUDGET_MESSAGE"
  using assms
  by (simp add: follow_reply_def bound_follow_response_lines_page_def response_within_frame_def logs_fit_def)

text \<open>Half of a mebibyte is reached by two thousand lines of three hundred bytes.\<close>

definition plain_encoder :: encoder where
  "plain_encoder r =
     (case r of
        Response_Logs ls truncated first \<Rightarrow>
          Some (60 + (if truncated then 4 else 5) + sum_list (map (\<lambda>l. 60 + length (ll_line l)) ls))
      | _ \<Rightarrow> Some 60)"

lemma plain_encoder_ok: "encoder_ok plain_encoder"
proof -
  have "sum_list (map f (take i xs)) \<le> sum_list (map f (take j xs))" if "i \<le> j" for i j and xs :: "log_line list" and f :: "log_line \<Rightarrow> nat"
  proof -
    have "take i xs = take i (take j xs)" using that by (simp add: min_absorb1)
    then have "take j xs = take i xs @ drop i (take j xs)" by (metis append_take_drop_id)
    then show ?thesis by (metis le_add1 map_append sum_list_append)
  qed
  from this [of _ _ "\<lambda>l. 60 + length (ll_line l)"] show ?thesis
    by (fastforce simp: encoder_ok_def logs_fit_def fits_frame_def plain_encoder_def RESPONSE_MAX_BYTES_def
        dest: order_trans)
qed

definition wide_line :: "nat \<Rightarrow> log_line" where
  "wide_line n =
     \<lparr> ll_seq = of_nat n, ll_run_generation = 1, ll_timestamp_unix_ms = 0, ll_line = replicate 300 CHR ''x'' \<rparr>"

lemma capped_page_example:
  "response_within_frame plain_encoder (follow_reply plain_encoder None (map wide_line [1..<2002])) =
   Response_Error ErrorCode_LimitExceeded FRAME_BUDGET_MESSAGE"
proof (rule capped_page_rejected)
  have "map (\<lambda>l. 60 + length (ll_line l)) (take 2000 (map wide_line [1..<2002])) = replicate 2000 360"
    by (simp add: take_map o_def wide_line_def map_replicate_const del: upt_Suc)
  then show "\<not> logs_fit plain_encoder (take MAX_LOG_TAIL (map wide_line [1..<2002])) True None"
    by (simp add: logs_fit_def fits_frame_def plain_encoder_def RESPONSE_MAX_BYTES_def MAX_LOG_TAIL_def
        sum_list_replicate del: upt_Suc take_map)
qed (simp add: MAX_LOG_TAIL_def)

section \<open>Following a service\<close>

lemma pending_lines:
  assumes "model_ok m" and "im_get (sm_services m) s = Some e" and "en_next_log_seq e \<noteq> U64_MAX"
  shows "query_logs_since s a m = (first_retained_log_seq s m, filter (\<lambda>l. a < ll_seq l) (mb_entries (en_visible e)))"
    and "sorted_wrt (\<lambda>x y. ll_seq x < ll_seq y) (mb_entries (en_visible e))"
proof -
  have "entry_ok e" using assms(1,2) by (simp add: model_ok_def)
  then have "sorted_wrt (<) (buffer_seqs (en_visible e))" using assms(3) by (simp add: entry_ok_def visible_ok_def)
  then show sorted: "sorted_wrt (\<lambda>x y. ll_seq x < ll_seq y) (mb_entries (en_visible e))"
    by (simp add: buffer_seqs_def sorted_wrt_map)
  show "query_logs_since s a m = (first_retained_log_seq s m, filter (\<lambda>l. a < ll_seq l) (mb_entries (en_visible e)))"
    using sorted_partition [OF sorted, of a] assms(2)
    by (simp add: query_logs_since_def buffer_lines_since_def first_retained_log_seq_def partition_point_def
        dropWhile_eq_drop [symmetric])
qed

lemma seqs_of_cut: "map ll_seq [(hd ls)\<lparr> ll_line := t \<rparr>] = map ll_seq (take 1 ls)" if "ls \<noteq> []"
  using that by (cases ls) auto


definition stored_entry :: service_entry where
  "stored_entry =
     (entry_new (example_snapshot ''web'') default_log_retention None False)
       \<lparr> en_visible :=
           \<lparr> mb_entries = [wide_line 3, wide_line 5, wide_line 8], mb_current_bytes = 900,
             mb_retention = default_memory_log_retention \<rparr>,
         en_next_log_seq := 9 \<rparr>"

definition sample_reader :: control_reader where
  "sample_reader =
     \<lparr> cr_now = 0, cr_model = example_model\<lparr> sm_services := [(''web'', stored_entry)] \<rparr>,
       cr_later = example_model, cr_metadata = (\<lambda>_. metadata_default), cr_read = (\<lambda>_ _ _ _. Inr None) \<rparr>"

lemma sample_reader_ok: "model_ok (cr_model sample_reader)"
  by (simp add: sample_reader_def model_ok_def stored_entry_def entry_ok_def events_ok_def health_ok_def
      runs_ok_def visible_ok_def run_ids_def buffer_seqs_def wide_line_def entry_new_def example_snapshot_def
      snapshot_initial_def clamp_retention_def default_log_retention_def im_wf_def im_keys_def U64_MAX_def)


end
