(* ===== verification/Config_Values.thy ===== *)
theory Config_Values
  imports Environment Structured_Log Scheduler_State
begin

text \<open>
  The values a configuration file is read into and the primitive parsers
  (\<^verbatim>\<open>src/crates/micromux/src/config/mod.rs\<close>, the first part of
  \<^verbatim>\<open>src/crates/micromux/src/config/v1.rs\<close>, \<^verbatim>\<open>src/crates/micromux/src/diagnostics.rs\<close>).

  The tree of a YAML document is that of the \<^verbatim>\<open>yaml-spanned\<close> crate without its spans, which only place
  the labels of diagnostics. What that crate computes (the documents of a text, the scalars a value
  deserializes to), \<^verbatim>\<open>humantime\<close> and \<^verbatim>\<open>shlex\<close> are fields of a record the parsers take.
\<close>

section \<open>Trees\<close>

record yaml_number =
  yn_text :: string
  yn_as_f64 :: "rat option"

datatype yaml =
    Yaml_Null
  | Yaml_Bool bool
  | Yaml_Number yaml_number
  | Yaml_String string
  | Yaml_Sequence "yaml list"
  | Yaml_Mapping "(yaml \<times> yaml) list"

type_synonym yaml_mapping = "(yaml \<times> yaml) list"

datatype yaml_kind =
    Kind_Null | Kind_Bool | Kind_Number | Kind_String | Kind_Sequence | Kind_Mapping

fun kind :: "yaml \<Rightarrow> yaml_kind" where
  "kind Yaml_Null = Kind_Null"
| "kind (Yaml_Bool _) = Kind_Bool"
| "kind (Yaml_Number _) = Kind_Number"
| "kind (Yaml_String _) = Kind_String"
| "kind (Yaml_Sequence _) = Kind_Sequence"
| "kind (Yaml_Mapping _) = Kind_Mapping"

fun as_str :: "yaml \<Rightarrow> string option" where
  "as_str (Yaml_String s) = Some s"
| "as_str _ = None"

fun as_sequence :: "yaml \<Rightarrow> yaml list option" where
  "as_sequence (Yaml_Sequence xs) = Some xs"
| "as_sequence _ = None"

fun as_mapping :: "yaml \<Rightarrow> yaml_mapping option" where
  "as_mapping (Yaml_Mapping m) = Some m"
| "as_mapping _ = None"

abbreviation field :: "yaml_mapping \<Rightarrow> string \<Rightarrow> yaml option" where
  "field m key \<equiv> map_of m (Yaml_String key)"

definition value_field :: "yaml \<Rightarrow> string \<Rightarrow> yaml option" where
  "value_field v key = Option.bind (as_mapping v) (\<lambda>m. field m key)"

section \<open>Libraries\<close>

text \<open>
  \<^verbatim>\<open>yl_string\<close>, \<^verbatim>\<open>yl_bool\<close> and \<^verbatim>\<open>yl_usize\<close> are \<^verbatim>\<open>yaml_spanned::from_value\<close> at these types and \<^verbatim>\<open>yl_variant\<close>
  the name of the variant an enumeration is deserialized from; an error is its text. \<^verbatim>\<open>yl_documents\<close> is
  \<^verbatim>\<open>from_str_all\<close>, its error the diagnostics \<^verbatim>\<open>yaml-spanned\<close> makes of it. \<^verbatim>\<open>yl_text\<close> displays a value and
  \<^verbatim>\<open>yl_env_text\<close> an error of the environment.
\<close>

datatype severity = Severity_Error | Severity_Warning | Severity_Help

type_synonym diagnostic = "severity \<times> string"

record yaml_lib =
  yl_string :: "yaml \<Rightarrow> string + string"
  yl_bool :: "yaml \<Rightarrow> string + bool"
  yl_usize :: "yaml \<Rightarrow> string + usize"
  yl_variant :: "yaml \<Rightarrow> string + string"
  yl_documents :: "string \<Rightarrow> diagnostic list + yaml list"
  yl_duration :: "string \<Rightarrow> duration option"
  yl_shlex :: "string \<Rightarrow> string list option"
  yl_text :: "yaml \<Rightarrow> string"
  yl_env_text :: "env_error \<Rightarrow> string"
  yl_host :: env_host
  yl_fs :: filesystem

section \<open>Errors and diagnostics\<close>

datatype invalid_command_reason =
    InvalidCommandReason_FailedToSplit
  | InvalidCommandReason_EmptyCommand

datatype config_error =
    ConfigError_InvalidCommand string invalid_command_reason
  | ConfigError_InvalidDuration string
  | ConfigError_MissingKey string string
  | ConfigError_UnexpectedType string "yaml_kind list" yaml_kind
  | ConfigError_InvalidValue string
  | ConfigError_Serde string
  | ConfigError_Yaml "diagnostic list"

definition warning_or_error :: "bool \<Rightarrow> severity" where
  "warning_or_error strict = (if strict then Severity_Error else Severity_Warning)"

text \<open>The messages of an error; labels and notes are dropped with the spans.\<close>

fun to_diagnostics :: "config_error \<Rightarrow> diagnostic list" where
  "to_diagnostics (ConfigError_InvalidCommand command reason) =
     [(Severity_Error, ''invalid command '' @ quoted command),
      (Severity_Help,
       case reason of
         InvalidCommandReason_FailedToSplit \<Rightarrow> ''try using a sequence''
       | InvalidCommandReason_EmptyCommand \<Rightarrow> ''use a non-empty command'')]"
| "to_diagnostics (ConfigError_InvalidDuration d) =
     [(Severity_Error, ''invalid duration '' @ quoted d),
      (Severity_Help, ''Duration must have a valid format like `2min 2s`'')]"
| "to_diagnostics (ConfigError_MissingKey key message) =
     [(Severity_Error, ''missing required key '' @ quoted key)]"
| "to_diagnostics (ConfigError_UnexpectedType message expected found) = [(Severity_Error, message)]"
| "to_diagnostics (ConfigError_InvalidValue message) = [(Severity_Error, message)]"
| "to_diagnostics (ConfigError_Serde source) = [(Severity_Error, source)]"
| "to_diagnostics (ConfigError_Yaml ds) = ds"

text \<open>
  A parser that may report: the result of a \<^verbatim>\<open>&mut Vec<Diagnostic>\<close> threaded through the calls.
\<close>

type_synonym 'a checked = "diagnostic list \<Rightarrow> (config_error + 'a) \<times> diagnostic list"

definition plain :: "config_error + 'a \<Rightarrow> 'a checked" where
  "plain r ds = (r, ds)"

definition pbind :: "'a checked \<Rightarrow> ('a \<Rightarrow> 'b checked) \<Rightarrow> 'b checked" where
  "pbind p f ds = (case p ds of (Inl e, ds') \<Rightarrow> (Inl e, ds') | (Inr v, ds') \<Rightarrow> f v ds')"

definition push :: "diagnostic list \<Rightarrow> unit checked" where
  "push new ds = (Inr (), ds @ new)"

section \<open>Primitive parsers\<close>

text \<open>\<^verbatim>\<open>Iterator::collect\<close> into a result: the first error stops it.\<close>

fun collect :: "('a \<Rightarrow> 'e + 'b) \<Rightarrow> 'a list \<Rightarrow> 'e + 'b list" where
  "collect f [] = Inr []"
| "collect f (x # xs) = and_then (f x) (\<lambda>y. and_then (collect f xs) (\<lambda>ys. Inr (y # ys)))"

text \<open>\<^verbatim>\<open>transpose\<close> of an optional result.\<close>

definition opt_traverse :: "('a \<Rightarrow> 'e + 'b) \<Rightarrow> 'a option \<Rightarrow> 'e + 'b option" where
  "opt_traverse f x = (case x of None \<Rightarrow> Inr None | Some a \<Rightarrow> map_sum id Some (f a))"

definition parse_as :: "(yaml \<Rightarrow> string + 'a) \<Rightarrow> yaml \<Rightarrow> config_error + 'a" where
  "parse_as read v = map_err ConfigError_Serde (read v)"

definition parse_optional :: "(yaml \<Rightarrow> string + 'a) \<Rightarrow> yaml option \<Rightarrow> config_error + 'a option" where
  "parse_optional read = opt_traverse (parse_as read)"

definition parse_duration_value :: "yaml_lib \<Rightarrow> yaml \<Rightarrow> config_error + duration" where
  "parse_duration_value yl v =
     (case as_str v of
        None \<Rightarrow> Inl (ConfigError_UnexpectedType ''duration must be a string'' [Kind_String] (kind v))
      | Some raw \<Rightarrow> ok_or (ConfigError_InvalidDuration (yl_text yl v)) (yl_duration yl raw))"

definition parse_duration :: "yaml_lib \<Rightarrow> yaml option \<Rightarrow> config_error + duration option" where
  "parse_duration yl = opt_traverse (parse_duration_value yl)"

datatype version = Version_V1 | Version_Latest

text \<open>The names \<^verbatim>\<open>serde\<close> accepts for the variants of the two enumerations.\<close>

definition version_of_name :: "string \<Rightarrow> version option" where
  "version_of_name name =
     (if name \<in> {''1'', ''v1'', ''V1''} then Some Version_V1
      else if name = ''latest'' then Some Version_Latest
      else None)"

definition condition_of_name :: "string \<Rightarrow> dependency_condition option" where
  "condition_of_name name =
     (if name \<in> {''service_started'', ''service-started'', ''ServiceStarted'', ''started''}
      then Some DependencyCondition_Started
      else if name \<in> {''service_healthy'', ''service-healthy'', ''ServiceHealthy'', ''healthy''}
      then Some DependencyCondition_Healthy
      else if name \<in> {''service_completed_successfully'', ''service-completed-successfully'',
                      ''ServiceCompletedSuccessfully'', ''completed''}
      then Some DependencyCondition_CompletedSuccessfully
      else None)"

definition read_variant ::
  "yaml_lib \<Rightarrow> (string \<Rightarrow> 'a option) \<Rightarrow> yaml \<Rightarrow> string + 'a"
where
  "read_variant yl of_name v =
     and_then (yl_variant yl v) (\<lambda>name.
       ok_or (''unknown variant '' @ quoted name) (of_name name))"

definition parse_version :: "yaml_lib \<Rightarrow> yaml \<Rightarrow> bool option \<Rightarrow> version checked" where
  "parse_version yl v strict =
     (case value_field v ''version'' of
        None \<Rightarrow>
          pbind (push [(warning_or_error (strict = Some True), ''missing version'')])
            (\<lambda>_. plain (Inr Version_Latest))
      | Some x \<Rightarrow>
          (case x of
             Yaml_Number n \<Rightarrow>
               if yn_as_f64 n = Some 1 then plain (Inr Version_V1)
               else plain (parse_as (read_variant yl version_of_name) x)
           | _ \<Rightarrow> plain (parse_as (read_variant yl version_of_name) x)))"

definition parse_strict :: "yaml_lib \<Rightarrow> yaml \<Rightarrow> config_error + bool option" where
  "parse_strict yl v = parse_optional (yl_bool yl) (value_field v ''strict'')"

text \<open>Unknown keys that are strings.\<close>

definition unknown_keys :: "yaml_mapping \<Rightarrow> string list \<Rightarrow> string list" where
  "unknown_keys m known = filter (\<lambda>k. k \<notin> set known) (List.map_filter (\<lambda>(k, v). as_str k) m)"

definition warn_unknown_keys :: "yaml_mapping \<Rightarrow> string list \<Rightarrow> string \<Rightarrow> bool \<Rightarrow> unit checked" where
  "warn_unknown_keys m known context_name strict =
     push (map (\<lambda>k. (warning_or_error strict, ''unknown '' @ context_name @ '' field '' @ quoted k))
             (unknown_keys m known))"

definition expect_sequence :: "yaml \<Rightarrow> string \<Rightarrow> config_error + yaml list" where
  "expect_sequence v message =
     ok_or (ConfigError_UnexpectedType message [Kind_Sequence] (kind v)) (as_sequence v)"

definition expect_mapping :: "yaml \<Rightarrow> string \<Rightarrow> config_error + yaml_mapping" where
  "expect_mapping v message =
     ok_or (ConfigError_UnexpectedType message [Kind_Mapping] (kind v)) (as_mapping v)"

definition expect_string :: "yaml \<Rightarrow> string \<Rightarrow> config_error + string" where
  "expect_string v message =
     ok_or (ConfigError_UnexpectedType message [Kind_String] (kind v)) (as_str v)"

fun parse_string_value :: "yaml \<Rightarrow> string \<Rightarrow> config_error + string" where
  "parse_string_value (Yaml_String s) message = Inr s"
| "parse_string_value (Yaml_Number n) message = Inr (yn_text n)"
| "parse_string_value (Yaml_Bool b) message = Inr (if b then ''true'' else ''false'')"
| "parse_string_value v message =
     Inl (ConfigError_UnexpectedType message [Kind_String, Kind_Number, Kind_Bool] (kind v))"

definition parse_positive_usize :: "yaml_lib \<Rightarrow> yaml \<Rightarrow> string \<Rightarrow> config_error + usize" where
  "parse_positive_usize yl v name =
     and_then (parse_as (yl_usize yl) v) (\<lambda>n.
       if n = 0 then Inl (ConfigError_InvalidValue (name @ '' must be greater than zero''))
       else Inr n)"

definition parse_positive_duration ::
  "duration option \<Rightarrow> string \<Rightarrow> config_error + duration option"
where
  "parse_positive_duration d name =
     (if d = Some 0 then Inl (ConfigError_InvalidValue (name @ '' must be greater than zero''))
      else Inr d)"

definition parse_stop_grace_period :: "duration option \<Rightarrow> config_error + duration option" where
  "parse_stop_grace_period d =
     and_then (parse_positive_duration d ''stop grace period'') (\<lambda>d.
       if d \<noteq> None \<and> MAX_STOP_GRACE_PERIOD < the d
       then Inl (ConfigError_InvalidValue ''stop grace period must not exceed 5m'')
       else Inr d)"

end
