(* ===== verification/Config_Parse.thy ===== *)
theory Config_Parse
  imports Config_Values
begin

text \<open>
  The version 1 configuration parser (\<^verbatim>\<open>src/crates/micromux/src/config/v1.rs\<close>): one function per
  block of the file, each with the diagnostics it reports.
\<close>

section \<open>Service fields\<close>

definition KNOWN_SERVICE_KEYS :: "string list" where
  "KNOWN_SERVICE_KEYS =
     [''name'', ''disabled'', ''command'', ''working_dir'', ''cwd'', ''directory'', ''env_file'',
      ''environment'', ''depends_on'', ''healthcheck'', ''ports'', ''restart'',
      ''stop_grace_period'', ''color'', ''logs'']"

definition KNOWN_HEALTHCHECK_TIMING_KEYS :: "string list" where
  "KNOWN_HEALTHCHECK_TIMING_KEYS =
     [''start_delay'', ''startup_delay'', ''initial_delay'', ''interval'', ''timeout'', ''retries'']"

definition KNOWN_HEALTHCHECK_KEYS :: "string list" where
  "KNOWN_HEALTHCHECK_KEYS =
     [''test'', ''start_delay'', ''startup_delay'', ''initial_delay'', ''interval'', ''timeout'',
      ''retries'']"

definition KNOWN_CONFIG_KEYS :: "string list" where
  "KNOWN_CONFIG_KEYS =
     [''version'', ''name'', ''strict'', ''ui'', ''control'', ''restart'', ''healthcheck'', ''logs'',
      ''services'']"

definition parse_environment :: "yaml_lib \<Rightarrow> yaml_mapping \<Rightarrow> config_error + (string, string) imap" where
  "parse_environment yl m =
     (case field m ''environment'' of
        None \<Rightarrow> Inr []
      | Some v \<Rightarrow>
          and_then (expect_mapping v ''environment must be a mapping'') (\<lambda>env_mapping.
          map_sum id (\<lambda>entries. fold (\<lambda>(k, v). im_insert k v) entries [])
            (collect (\<lambda>(k, v).
               and_then (parse_as (yl_string yl) k) (\<lambda>key.
               and_then (parse_string_value v ''environment values must be scalar'') (\<lambda>raw.
                 Inr (key, raw)))) env_mapping)))"

definition apostrophes :: "string \<Rightarrow> string" where
  "apostrophes s = [CHR 0x27] @ s @ [CHR 0x27]"

definition env_file_item :: "yaml \<Rightarrow> config_error + config_env_file" where
  "env_file_item item =
     (case item of
        Yaml_String path \<Rightarrow> Inr \<lparr> ce_path = path, ce_optional = False \<rparr>
      | Yaml_Mapping m \<Rightarrow>
          (case field m ''path'' of
             None \<Rightarrow> Inl (ConfigError_MissingKey ''path'' (''env_file entries must have a '' @ apostrophes ''path''))
           | Some path_value \<Rightarrow>
               and_then (expect_string path_value ''env_file.path must be a string'') (\<lambda>path.
               and_then
                 (case field m ''optional'' of
                    None \<Rightarrow> Inr False
                  | Some other \<Rightarrow>
                      (case other of
                         Yaml_Bool b \<Rightarrow> Inr b
                       | _ \<Rightarrow> Inl (ConfigError_UnexpectedType ''env_file.optional must be a boolean''
                                  [Kind_Bool] (kind other)))) (\<lambda>optional.
                 Inr \<lparr> ce_path = path, ce_optional = optional \<rparr>)))
      | _ \<Rightarrow> Inl (ConfigError_UnexpectedType ''env_file entries must be a string or mapping''
                 [Kind_String, Kind_Mapping] (kind item)))"

definition parse_env_file :: "yaml_mapping \<Rightarrow> config_error + config_env_file list" where
  "parse_env_file m =
     (case field m ''env_file'' of
        None \<Rightarrow> Inr []
      | Some v \<Rightarrow>
          (case v of
             Yaml_Sequence items \<Rightarrow> collect env_file_item items
           | Yaml_String _ \<Rightarrow> collect env_file_item [v]
           | Yaml_Mapping _ \<Rightarrow> collect env_file_item [v]
           | _ \<Rightarrow> Inl (ConfigError_UnexpectedType ''env_file must be a sequence, string, or mapping''
                      [Kind_Sequence, Kind_String, Kind_Mapping] (kind v))))"

definition depends_on_item :: "yaml_lib \<Rightarrow> yaml \<Rightarrow> config_error + config_dependency" where
  "depends_on_item yl item =
     (case item of
        Yaml_String name \<Rightarrow> Inr \<lparr> cd_name = name, cd_condition = None \<rparr>
      | Yaml_Mapping m \<Rightarrow>
          (case field m ''name'' of
             None \<Rightarrow> Inl (ConfigError_MissingKey ''name'' (''depends_on entries must have a '' @ apostrophes ''name''))
           | Some name_value \<Rightarrow>
               and_then (parse_as (yl_string yl) name_value) (\<lambda>name.
               and_then (parse_optional (read_variant yl condition_of_name) (field m ''condition''))
                 (\<lambda>condition. Inr \<lparr> cd_name = name, cd_condition = condition \<rparr>)))
      | _ \<Rightarrow> Inl (ConfigError_UnexpectedType ''depends_on entries must be a string or mapping''
                 [Kind_String, Kind_Mapping] (kind item)))"

definition parse_depends_on :: "yaml_lib \<Rightarrow> yaml_mapping \<Rightarrow> config_error + config_dependency list" where
  "parse_depends_on yl m =
     (case field m ''depends_on'' of
        None \<Rightarrow> Inr []
      | Some v \<Rightarrow>
          and_then (expect_sequence v ''depends_on must be a sequence'') (collect (depends_on_item yl)))"

definition parse_ports :: "yaml_mapping \<Rightarrow> config_error + string list" where
  "parse_ports m =
     (case field m ''ports'' of
        None \<Rightarrow> Inr []
      | Some v \<Rightarrow>
          and_then (expect_sequence v ''ports must be a sequence'')
            (collect (\<lambda>item. parse_string_value item ''ports entries must be a scalar'')))"

definition parse_restart_value :: "yaml \<Rightarrow> config_error + restart_policy" where
  "parse_restart_value v =
     and_then (parse_string_value v ''restart must be a string'') (\<lambda>raw.
       let normalized = map ascii_lower (trim raw);
           invalid = ConfigError_InvalidValue (''invalid restart policy '' @ quoted raw)
       in if normalized = ''always'' then Inr RestartPolicy_Always
          else if normalized \<in> {''unless-stopped'', ''unless_stopped''}
          then Inr RestartPolicy_UnlessStopped
          else if normalized \<in> {''never'', ''no''} then Inr RestartPolicy_Never
          else
            (case or_else (strip_prefix ''on-failure'' normalized)
                    (strip_prefix ''on_failure'' normalized) of
               None \<Rightarrow> Inl invalid
             | Some rest \<Rightarrow>
                 let rest = trim (dropWhile (\<lambda>c. c = CHR '':'' \<or> c = CHR ''='') rest)
                 in if rest = [] then Inr (RestartPolicy_OnFailure None)
                    else map_sum (\<lambda>_. invalid) (\<lambda>n. RestartPolicy_OnFailure (Some n))
                           (parse_unsigned USIZE_MAX rest)))"

definition parse_restart :: "yaml_mapping \<Rightarrow> config_error + restart_policy option" where
  "parse_restart m = opt_traverse parse_restart_value (field m ''restart'')"

section \<open>Commands\<close>

definition invalid_empty_command :: "string \<Rightarrow> config_error" where
  "invalid_empty_command raw =
     ConfigError_InvalidCommand raw InvalidCommandReason_EmptyCommand"

definition v1_normalize_command ::
  "string list \<Rightarrow> string \<Rightarrow> config_error + string \<times> string list"
where
  "v1_normalize_command command raw =
     (case command of
        [] \<Rightarrow> Inl (invalid_empty_command raw)
      | first # rest \<Rightarrow>
          if first = ''CMD'' then
            (case rest of
               [] \<Rightarrow> Inl (invalid_empty_command raw)
             | program # args \<Rightarrow> Inr (program, args))
          else if first = ''CMD-SHELL'' then
            (if rest = [] then Inl (invalid_empty_command raw)
             else
               and_then (map_err (\<lambda>_. invalid_empty_command raw) (normalize_command command))
                 (\<lambda>normalized.
                    case normalized of
                      [] \<Rightarrow> Inl (invalid_empty_command raw)
                    | program # args \<Rightarrow> Inr (program, args)))
          else Inr (first, rest))"

text \<open>What follows \<^verbatim>\<open>CMD-SHELL\<close> and one white-space character at the start of a text.\<close>

definition shell_payload :: "string \<Rightarrow> string option" where
  "shell_payload raw =
     Option.bind (strip_prefix ''CMD-SHELL'' (trim_start raw)) (\<lambda>s.
       map_option (\<lambda>w. drop (length w) s) (leading WHITESPACE s))"

definition parse_command :: "yaml_lib \<Rightarrow> yaml \<Rightarrow> config_error + string \<times> string list" where
  "parse_command yl v =
     (case v of
        Yaml_String raw \<Rightarrow>
          (case shell_payload raw of
             Some rest \<Rightarrow>
               let rest = trim_start rest
               in if rest = [] then Inl (invalid_empty_command raw)
                  else v1_normalize_command [''CMD-SHELL'', rest] raw
           | None \<Rightarrow>
               and_then
                 (ok_or (ConfigError_InvalidCommand raw InvalidCommandReason_FailedToSplit)
                    (yl_shlex yl raw))
                 (\<lambda>command. v1_normalize_command command raw))
      | Yaml_Sequence items \<Rightarrow>
          and_then
            (collect (\<lambda>item. parse_string_value item ''command entries must be a scalar'') items)
            (\<lambda>command. v1_normalize_command command (join_with '' '' command))
      | _ \<Rightarrow> Inl (ConfigError_UnexpectedType ''command must be a string or sequence''
                 [Kind_String, Kind_Sequence] (kind v)))"

section \<open>Interface, control and retention\<close>

record ui_config =
  ui_width :: "usize option"
  ui_pretty_json_logs :: bool

definition default_ui_config :: ui_config where
  "default_ui_config = \<lparr> ui_width = None, ui_pretty_json_logs = True \<rparr>"

record control_config =
  cc_enabled :: bool
  cc_dynamic_services :: dynamic_services_policy

definition parse_ui_config :: "yaml_lib \<Rightarrow> yaml \<Rightarrow> bool \<Rightarrow> ui_config checked" where
  "parse_ui_config yl v strict =
     (case value_field v ''ui'' of
        None \<Rightarrow> plain (Inr default_ui_config)
      | Some ui \<Rightarrow>
          pbind (plain (expect_mapping ui ''ui config must be a mapping'')) (\<lambda>m.
          pbind (warn_unknown_keys m [''width'', ''pretty_json_logs''] ''ui'' strict) (\<lambda>_.
          plain
            (and_then (parse_optional (yl_usize yl) (field m ''width'')) (\<lambda>width.
             and_then (parse_optional (yl_bool yl) (field m ''pretty_json_logs'')) (\<lambda>pretty.
               Inr \<lparr> ui_width = width,
                     ui_pretty_json_logs = (case pretty of None \<Rightarrow> True | Some b \<Rightarrow> b) \<rparr>))))))"

definition parse_lease ::
  "yaml_lib \<Rightarrow> yaml option \<Rightarrow> duration option \<Rightarrow> config_error + duration option"
where
  "parse_lease yl v fallback =
     (case v of
        None \<Rightarrow> Inr fallback
      | Some x \<Rightarrow> if as_str x = Some ''none'' then Inr None else parse_duration yl (Some x))"

definition parse_dynamic_root :: "yaml_lib \<Rightarrow> string \<Rightarrow> bool \<Rightarrow> string \<Rightarrow> config_error + string" where
  "parse_dynamic_root yl config_dir enabled raw =
     and_then (map_err (\<lambda>e. ConfigError_InvalidValue (yl_env_text yl e))
                 (resolve_path (yl_host yl) config_dir raw)) (\<lambda>path.
       if \<not> enabled then Inr path
       else map_err (\<lambda>e. ConfigError_InvalidValue
                 (''failed to canonicalize allowed working root '' @ quoted path @ '': '' @ e))
              (fs_canonicalize (yl_fs yl) path))"

definition parse_dynamic_roots ::
  "yaml_lib \<Rightarrow> yaml_mapping option \<Rightarrow> string \<Rightarrow> bool \<Rightarrow> config_error + string list"
where
  "parse_dynamic_roots yl dynamic_mapping config_dir enabled =
     and_then
       (opt_traverse
          (\<lambda>v. expect_sequence v
             ''control.dynamic_services.allowed_working_roots must be a sequence'')
          (Option.bind dynamic_mapping (\<lambda>m. field m ''allowed_working_roots''))) (\<lambda>root_values.
     and_then
       (case root_values of
          Some values \<Rightarrow> collect (parse_as (yl_string yl)) values
        | None \<Rightarrow> Inr [''.'']) (\<lambda>roots.
     collect (parse_dynamic_root yl config_dir enabled) roots))"

text \<open>The warning about the keys of an optional block.\<close>

definition warn_unknown_keys_opt ::
  "yaml_mapping option \<Rightarrow> string list \<Rightarrow> string \<Rightarrow> bool \<Rightarrow> unit checked"
where
  "warn_unknown_keys_opt m known context_name strict =
     (case m of
        None \<Rightarrow> plain (Inr ())
      | Some m \<Rightarrow> warn_unknown_keys m known context_name strict)"

definition parse_dynamic_services ::
  "yaml_lib \<Rightarrow> yaml option \<Rightarrow> string \<Rightarrow> bool \<Rightarrow> dynamic_services_policy checked"
where
  "parse_dynamic_services yl dynamic config_dir strict =
     (let defaults = default_dynamic_services_policy in
      pbind (plain (opt_traverse
               (\<lambda>d. expect_mapping d ''control.dynamic_services must be a mapping'') dynamic)) (\<lambda>m.
      pbind (warn_unknown_keys_opt m
               [''enabled'', ''allowed_working_roots'', ''max_services'', ''max_lifetime'']
               ''control.dynamic_services'' strict) (\<lambda>_.
      pbind (plain (parse_optional (yl_bool yl) (Option.bind m (\<lambda>m. field m ''enabled'')))) (\<lambda>enabled.
      let enabled = (case enabled of None \<Rightarrow> dy_enabled defaults | Some b \<Rightarrow> b) in
      pbind (plain (opt_traverse
               (\<lambda>v. parse_positive_usize yl v ''control.dynamic_services.max_services'')
               (Option.bind m (\<lambda>m. field m ''max_services'')))) (\<lambda>max_services.
      let max_services = (case max_services of None \<Rightarrow> dy_max_services defaults | Some n \<Rightarrow> n) in
      pbind (plain (parse_lease yl (Option.bind m (\<lambda>m. field m ''max_lifetime''))
               (dy_max_lifetime defaults))) (\<lambda>max_lifetime.
      pbind (plain (parse_dynamic_roots yl m config_dir enabled)) (\<lambda>roots.
      pbind (if enabled \<and> roots = []
             then push [(warning_or_error strict,
                    ''control.dynamic_services.allowed_working_roots is empty; every dynamic '' @
                    ''service will be denied'')]
             else plain (Inr ())) (\<lambda>_.
      plain (Inr \<lparr> dy_enabled = enabled, dy_allowed_working_roots = roots,
                   dy_max_services = max_services, dy_max_lifetime = max_lifetime \<rparr>)))))))))"

definition parse_control :: "yaml_lib \<Rightarrow> yaml \<Rightarrow> string \<Rightarrow> bool \<Rightarrow> control_config checked" where
  "parse_control yl v config_dir strict =
     (pbind (plain (opt_traverse (\<lambda>c. expect_mapping c ''control config must be a mapping'')
               (value_field v ''control''))) (\<lambda>m.
      pbind (warn_unknown_keys_opt m [''enabled'', ''dynamic_services''] ''control'' strict) (\<lambda>_.
      pbind (plain (parse_optional (yl_bool yl) (Option.bind m (\<lambda>m. field m ''enabled'')))) (\<lambda>enabled.
      pbind (parse_dynamic_services yl (Option.bind m (\<lambda>m. field m ''dynamic_services''))
               config_dir strict) (\<lambda>dynamic_services.
      plain (Inr \<lparr> cc_enabled = (case enabled of None \<Rightarrow> True | Some b \<Rightarrow> b),
                   cc_dynamic_services = dynamic_services \<rparr>))))))"

definition parse_log_limit :: "yaml_lib \<Rightarrow> yaml \<Rightarrow> string \<Rightarrow> config_error + log_limit" where
  "parse_log_limit yl v name =
     (if (case as_str v of
            None \<Rightarrow> False
          | Some raw \<Rightarrow>
              map ascii_lower (trim raw) \<in> {''unbounded'', ''unlimited'', ''none''})
      then Inr LogLimit_Unbounded
      else map_sum id log_limit_bounded (parse_positive_usize yl v name))"

definition warn_overridden_log_alias ::
  "yaml_mapping \<Rightarrow> yaml_mapping \<Rightarrow> string \<Rightarrow> bool \<Rightarrow> unit checked"
where
  "warn_overridden_log_alias m memory key strict =
     (if field m key \<noteq> None \<and> field memory key \<noteq> None
      then push [(warning_or_error strict,
             ''logs.'' @ key @ '' is overridden by logs.memory.'' @ key)]
      else plain (Inr ()))"

text \<open>One limit of a block, over what it was.\<close>

definition override_limit ::
  "yaml_lib \<Rightarrow> yaml_mapping \<Rightarrow> string \<Rightarrow> string \<Rightarrow> log_limit \<Rightarrow> config_error + log_limit"
where
  "override_limit yl m key name base =
     (case field m key of None \<Rightarrow> Inr base | Some v \<Rightarrow> parse_log_limit yl v name)"

definition override_memory ::
  "yaml_lib \<Rightarrow> yaml_mapping \<Rightarrow> string \<Rightarrow> memory_log_retention \<Rightarrow> config_error + memory_log_retention"
where
  "override_memory yl m prefix_name base =
     and_then (override_limit yl m ''max_lines'' (prefix_name @ ''max_lines'') (max_lines base)) (\<lambda>ls.
     and_then (override_limit yl m ''max_bytes'' (prefix_name @ ''max_bytes'') (max_bytes base)) (\<lambda>bs.
       Inr \<lparr> max_lines = ls, max_bytes = bs \<rparr>))"

definition parse_log_retention ::
  "yaml_lib \<Rightarrow> yaml option \<Rightarrow> log_retention \<Rightarrow> bool \<Rightarrow> log_retention checked"
where
  "parse_log_retention yl v base strict =
     (case v of
        None \<Rightarrow> plain (Inr base)
      | Some v \<Rightarrow>
          pbind (plain (expect_mapping v ''logs config must be a mapping'')) (\<lambda>m.
          pbind (warn_unknown_keys m
                   [''retained_runs'', ''runs'', ''history'', ''max_lines'', ''max_bytes'', ''memory'']
                   ''logs'' strict) (\<lambda>_.
          pbind (plain
                   (case or_else (field m ''retained_runs'')
                           (or_else (field m ''runs'') (field m ''history'')) of
                      None \<Rightarrow> Inr (lr_disk base)
                    | Some runs \<Rightarrow>
                        map_sum id (\<lambda>n. \<lparr> retained_runs = n \<rparr>)
                          (parse_positive_usize yl runs ''retained_runs''))) (\<lambda>disk.
          pbind (plain (opt_traverse
                   (\<lambda>memory. expect_mapping memory ''logs.memory must be a mapping'')
                   (field m ''memory''))) (\<lambda>memory.
          pbind (plain (override_memory yl m [] (lr_memory base))) (\<lambda>limits.
          pbind
            (case memory of
               None \<Rightarrow> plain (Inr limits)
             | Some memory \<Rightarrow>
                 pbind (warn_unknown_keys memory [''max_lines'', ''max_bytes''] ''logs.memory'' strict)
                   (\<lambda>_.
                 pbind (warn_overridden_log_alias m memory ''max_lines'' strict) (\<lambda>_.
                 pbind (warn_overridden_log_alias m memory ''max_bytes'' strict) (\<lambda>_.
                   plain (override_memory yl memory ''memory.'' limits))))) (\<lambda>limits.
            plain (Inr \<lparr> lr_memory = limits, lr_disk = disk \<rparr>))))))))"

section \<open>Health checks\<close>

record health_check_defaults =
  hd_start_delay :: "duration option"
  hd_interval :: "duration option"
  hd_timeout :: "duration option"
  hd_retries :: "usize option"

definition default_health_check_defaults :: health_check_defaults where
  "default_health_check_defaults =
     \<lparr> hd_start_delay = None, hd_interval = None, hd_timeout = None, hd_retries = None \<rparr>"

definition start_delay_field :: "yaml_mapping \<Rightarrow> yaml option" where
  "start_delay_field m =
     or_else (field m ''start_delay'')
       (or_else (field m ''startup_delay'') (field m ''initial_delay''))"

definition parse_health_check ::
  "yaml_lib \<Rightarrow> yaml_mapping \<Rightarrow> health_check_defaults \<Rightarrow> bool \<Rightarrow> config_health_check option checked"
where
  "parse_health_check yl m defaults strict =
     (case field m ''healthcheck'' of
        None \<Rightarrow> plain (Inr None)
      | Some v \<Rightarrow>
          pbind (plain (expect_mapping v ''healthcheck configuration must be a mapping'')) (\<lambda>h.
          pbind (warn_unknown_keys h KNOWN_HEALTHCHECK_KEYS ''healthcheck'' strict) (\<lambda>_.
          plain
            (and_then
               (case field h ''test'' of
                  None \<Rightarrow> Inl (ConfigError_MissingKey ''test'' ''missing healthcheck test command'')
                | Some t \<Rightarrow> parse_command yl t) (\<lambda>test.
             and_then (parse_duration yl (start_delay_field h)) (\<lambda>start_delay.
             and_then
               (and_then (parse_duration yl (field h ''interval'')) (\<lambda>d.
                  parse_positive_duration (or_else d (hd_interval defaults)) ''healthcheck interval''))
               (\<lambda>interval.
             and_then (parse_optional (yl_usize yl) (field h ''retries'')) (\<lambda>retries.
             and_then
               (and_then (parse_duration yl (field h ''timeout'')) (\<lambda>d.
                  parse_positive_duration (or_else d (hd_timeout defaults)) ''healthcheck timeout''))
               (\<lambda>timeout.
               Inr (Some
                 \<lparr> ch_test = test, ch_start_delay = or_else start_delay (hd_start_delay defaults),
                   ch_interval = interval, ch_timeout = timeout,
                   ch_retries = or_else retries (hd_retries defaults) \<rparr>))))))))))"

definition parse_healthcheck_defaults ::
  "yaml_lib \<Rightarrow> yaml \<Rightarrow> bool \<Rightarrow> health_check_defaults checked"
where
  "parse_healthcheck_defaults yl v strict =
     (case value_field v ''healthcheck'' of
        None \<Rightarrow> plain (Inr default_health_check_defaults)
      | Some h \<Rightarrow>
          pbind (plain (expect_mapping h ''healthcheck defaults must be a mapping'')) (\<lambda>m.
          pbind (warn_unknown_keys m KNOWN_HEALTHCHECK_TIMING_KEYS ''healthcheck defaults'' strict)
            (\<lambda>_.
          plain
            (and_then (parse_duration yl (start_delay_field m)) (\<lambda>start_delay.
             and_then
               (and_then (parse_duration yl (field m ''interval'')) (\<lambda>d.
                  parse_positive_duration d ''healthcheck interval'')) (\<lambda>interval.
             and_then
               (and_then (parse_duration yl (field m ''timeout'')) (\<lambda>d.
                  parse_positive_duration d ''healthcheck timeout'')) (\<lambda>timeout.
             and_then (parse_optional (yl_usize yl) (field m ''retries'')) (\<lambda>retries.
               Inr \<lparr> hd_start_delay = start_delay, hd_interval = interval, hd_timeout = timeout,
                     hd_retries = retries \<rparr>))))))))"

section \<open>Services\<close>

record service_defaults =
  sd_log_retention :: log_retention
  sd_restart_policy :: restart_policy
  sd_healthcheck :: health_check_defaults

definition parse_service ::
  "yaml_lib \<Rightarrow> yaml \<Rightarrow> string \<Rightarrow> service_defaults \<Rightarrow> bool \<Rightarrow> config_service checked"
where
  "parse_service yl v name defaults strict =
     (pbind (plain (expect_mapping v ''service config must be a mapping'')) (\<lambda>m.
      pbind (warn_unknown_keys m KNOWN_SERVICE_KEYS ''service'' strict) (\<lambda>_.
      pbind (plain (parse_optional (yl_string yl) (field m ''name''))) (\<lambda>own_name.
      pbind (plain (parse_optional (yl_bool yl) (field m ''disabled''))) (\<lambda>disabled.
      pbind (plain (parse_optional (yl_bool yl) (field m ''color''))) (\<lambda>color.
      pbind (plain (parse_optional (yl_string yl)
               (or_else (field m ''working_dir'') (or_else (field m ''cwd'') (field m ''directory'')))))
        (\<lambda>working_dir.
      pbind (plain
               (case field m ''command'' of
                  None \<Rightarrow> Inl (ConfigError_MissingKey ''command'' ''missing command'')
                | Some c \<Rightarrow> parse_command yl c)) (\<lambda>command.
      pbind (parse_health_check yl m (sd_healthcheck defaults) strict) (\<lambda>healthcheck.
      pbind (plain (parse_env_file m)) (\<lambda>env_file.
      pbind (plain (parse_environment yl m)) (\<lambda>environment.
      pbind (plain (parse_depends_on yl m)) (\<lambda>depends_on.
      pbind (plain (parse_ports m)) (\<lambda>ports.
      pbind (plain (parse_restart m)) (\<lambda>restart.
      pbind (plain
               (and_then (parse_duration yl (field m ''stop_grace_period''))
                  parse_stop_grace_period)) (\<lambda>stop_grace_period.
      pbind (parse_log_retention yl (field m ''logs'') (sd_log_retention defaults) strict)
        (\<lambda>retention.
      plain (Inr
        \<lparr> cs_name = (case own_name of None \<Rightarrow> name | Some n \<Rightarrow> n),
          cs_startup_mode =
            (if disabled = Some True then StartupMode_Disabled else StartupMode_Enabled),
          cs_command = command, cs_working_dir = working_dir, cs_env_file = env_file,
          cs_environment = environment, cs_depends_on = depends_on, cs_healthcheck = healthcheck,
          cs_ports = ports, cs_restart = restart,
          cs_restart_policy =
            (case restart of None \<Rightarrow> sd_restart_policy defaults | Some p \<Rightarrow> p),
          cs_stop_grace_period =
            (case stop_grace_period of None \<Rightarrow> DEFAULT_STOP_GRACE_PERIOD | Some d \<Rightarrow> d),
          cs_color = color, cs_log_retention = retention \<rparr>)))))))))))))))))"

text \<open>The loop over the entries: the parsed services and the invalid names so far.\<close>

fun parse_service_entries ::
  "yaml_lib \<Rightarrow> (string \<times> yaml) list \<Rightarrow> service_defaults \<Rightarrow> bool \<Rightarrow>
   (string, config_service) imap \<Rightarrow> string list \<Rightarrow>
   ((string, config_service) imap \<times> string list) checked"
where
  "parse_service_entries yl [] defaults strict parsed invalid = plain (Inr (parsed, invalid))"
| "parse_service_entries yl ((name, v) # entries) defaults strict parsed invalid =
     (if \<not> service_id_is_valid name then
        pbind (push [(warning_or_error strict,
                 ''service id '' @ quoted name @
                 '' must match [A-Za-z0-9._-]{1,64}; the service will not start'')]) (\<lambda>_.
        parse_service_entries yl entries defaults strict parsed (invalid @ [name]))
      else
        pbind (parse_service yl v name defaults strict) (\<lambda>s.
        parse_service_entries yl entries defaults strict (im_insert name s parsed) invalid))"

definition invalid_dependency_diagnostics ::
  "(string, config_service) imap \<Rightarrow> string list \<Rightarrow> diagnostic list"
where
  "invalid_dependency_diagnostics parsed invalid =
     concat (map (\<lambda>(i, s).
       map (\<lambda>d. (Severity_Error,
                 ''service '' @ quoted i @ '' depends on invalid service id '' @ quoted (cd_name d)))
         (filter (\<lambda>d. cd_name d \<in> set invalid) (cs_depends_on s))) parsed)"

definition parse_services ::
  "yaml_lib \<Rightarrow> yaml \<Rightarrow> service_defaults \<Rightarrow> bool \<Rightarrow> (string, config_service) imap checked"
where
  "parse_services yl v defaults strict =
     (case value_field v ''services'' of
        None \<Rightarrow>
          pbind (push [(warning_or_error strict, ''no services defined'')]) (\<lambda>_. plain (Inr []))
      | Some services \<Rightarrow>
          pbind (plain (expect_mapping services ''services must be a mapping'')) (\<lambda>m.
          pbind (plain (collect (\<lambda>(name, s).
                   and_then (parse_as (yl_string yl) name) (\<lambda>name. Inr (name, s))) m)) (\<lambda>entries.
          pbind (parse_service_entries yl entries defaults strict [] []) (\<lambda>(parsed, invalid).
          pbind (push (invalid_dependency_diagnostics parsed invalid)) (\<lambda>_.
          plain (Inr parsed))))))"

section \<open>The configuration\<close>

record config =
  cg_name :: "string option"
  cg_ui_config :: ui_config
  cg_control :: control_config
  cg_log_retention :: log_retention
  cg_restart_policy :: restart_policy
  cg_healthcheck_defaults :: health_check_defaults
  cg_services :: "(string, config_service) imap"

definition parse_config ::
  "yaml_lib \<Rightarrow> yaml \<Rightarrow> string \<Rightarrow> bool option \<Rightarrow> config checked"
where
  "parse_config yl v config_dir strict_override =
     (pbind (plain (parse_strict yl v)) (\<lambda>strict_config.
      let strict = (or_else strict_override strict_config = Some True) in
      pbind (warn_unknown_keys_opt (as_mapping v) KNOWN_CONFIG_KEYS ''top-level config'' strict)
        (\<lambda>_.
      pbind (plain (parse_optional (yl_string yl) (value_field v ''name''))) (\<lambda>name.
      pbind (parse_ui_config yl v strict) (\<lambda>ui_config.
      pbind (parse_control yl v config_dir strict) (\<lambda>control.
      pbind (plain (opt_traverse parse_restart_value (value_field v ''restart''))) (\<lambda>restart.
      let restart_policy = (case restart of None \<Rightarrow> RestartPolicy_Never | Some p \<Rightarrow> p) in
      pbind (parse_healthcheck_defaults yl v strict) (\<lambda>healthcheck_defaults.
      pbind (parse_log_retention yl (value_field v ''logs'') default_log_retention strict)
        (\<lambda>retention.
      pbind (parse_services yl v
               \<lparr> sd_log_retention = retention, sd_restart_policy = restart_policy,
                 sd_healthcheck = healthcheck_defaults \<rparr> strict) (\<lambda>services.
      plain (Inr
        \<lparr> cg_name = name, cg_ui_config = ui_config, cg_control = control,
          cg_log_retention = retention, cg_restart_policy = restart_policy,
          cg_healthcheck_defaults = healthcheck_defaults, cg_services = services \<rparr>)))))))))))"

end
