(* ===== verification/Config_Session.thy ===== *)
theory Config_Session
  imports Config_Parse Graph
begin

text \<open>
  From a configuration file to a session: reading and parsing the file
  (\<^verbatim>\<open>src/crates/micromux/src/config/mod.rs\<close>), validating it and constructing the session
  (\<^verbatim>\<open>src/crates/micromux/src/lib.rs\<close>).
\<close>

section \<open>Reading and parsing a file\<close>

definition MAX_CONFIG_FILE_BYTES :: usize where
  "MAX_CONFIG_FILE_BYTES = 4 * 1024 * 1024"

definition decode_config_bytes :: "string \<Rightarrow> string + string" where
  "decode_config_bytes content =
     (if MAX_CONFIG_FILE_BYTES < length content
      then Inl (''configuration exceeds the '' @ decimal MAX_CONFIG_FILE_BYTES @ '' byte limit'')
      else if \<not> utf8_valid content then Inl ''invalid utf-8''
      else Inr content)"

definition read_config_file :: "env_host \<Rightarrow> string \<Rightarrow> string + string" where
  "read_config_file host path =
     and_then (eh_read host (MAX_CONFIG_FILE_BYTES + 1) path) decode_config_bytes"

definition config_file_names :: "string list" where
  "config_file_names = [''micromux.yaml'', ''.micromux.yaml'', ''micromux.yml'', ''.micromux.yml'']"

text \<open>
  What canonicalizing a candidate gives. The candidates are tried concurrently, their outcomes taken
  in the order of the names.
\<close>

datatype candidate = Candidate_NotFound | Candidate_Failed string | Candidate_Found string

fun first_candidate :: "candidate list \<Rightarrow> string + string option" where
  "first_candidate [] = Inr None"
| "first_candidate (c # cs) =
     (case c of
        Candidate_NotFound \<Rightarrow> first_candidate cs
      | Candidate_Failed e \<Rightarrow> Inl e
      | Candidate_Found path \<Rightarrow> Inr (Some path))"

definition find_config_file :: "(string \<Rightarrow> candidate) \<Rightarrow> string \<Rightarrow> string + string option" where
  "find_config_file canonicalize dir =
     first_candidate (map (\<lambda>name. canonicalize (path_join dir name)) config_file_names)"

record config_file =
  cl_config_path :: "string option"
  cl_config_dir :: string
  cl_strict_override :: "bool option"
  cl_config :: config

definition from_str :: "yaml_lib \<Rightarrow> string \<Rightarrow> string \<Rightarrow> bool option \<Rightarrow> config_file checked" where
  "from_str yl raw_config config_dir strict_override =
     (case yl_documents yl raw_config of
        Inl ds \<Rightarrow> plain (Inl (ConfigError_Yaml ds))
      | Inr documents \<Rightarrow>
          if 1 < length documents
          then plain (Inl (ConfigError_InvalidValue
                 (''configuration contains a second YAML document; remove the trailing document '' @
                  ''separator'')))
          else
            let v = (if documents = [] then Yaml_Null else last documents) in
            pbind (plain (parse_strict yl v)) (\<lambda>strict_config.
            pbind (parse_version yl v (or_else strict_override strict_config)) (\<lambda>version.
            pbind (parse_config yl v config_dir strict_override) (\<lambda>config.
            plain (Inr \<lparr> cl_config_path = None, cl_config_dir = config_dir,
                         cl_strict_override = strict_override, cl_config = config \<rparr>)))))"

section \<open>Services of a configuration\<close>

fun int_error_message :: "int_error \<Rightarrow> string" where
  "int_error_message IntError_Empty = ''cannot parse integer from empty string''"
| "int_error_message IntError_InvalidDigit = ''invalid digit found in string''"
| "int_error_message IntError_PosOverflow = ''number too large to fit in target type''"

fun service_error_message :: "yaml_lib \<Rightarrow> service_error \<Rightarrow> string" where
  "service_error_message yl (ServiceError_Environment e) = yl_env_text yl e"
| "service_error_message yl (ServiceError_InvalidPort port source) =
     ''invalid port '' @ quoted port @ '': '' @ int_error_message source"
| "service_error_message yl (ServiceError_WorkingDirectory message) = message"

definition service_map_from_config :: "yaml_lib \<Rightarrow> config_file \<Rightarrow> service_error + service_map" where
  "service_map_from_config yl file =
     map_sum id (im_extend [])
       (collect (\<lambda>(name, cs).
          map_sum id (\<lambda>(service, missing). (name, service))
            (service_new (yl_host yl) (yl_fs yl) name (cl_config_dir file) cs))
          (cg_services (cl_config file)))"

section \<open>Validation\<close>

text \<open>\<^verbatim>\<open>Path::parent\<close> of a canonical path, and what fails when a session is prepared.\<close>

definition path_parent :: "string \<Rightarrow> string option" where
  "path_parent path =
     (let front = rev (drop 1 (dropWhile (\<lambda>c. c \<noteq> CHR ''/'') (rev path))) in
      if path = ''/'' \<or> path = [] then None
      else Some (if front = [] then ''/'' else front))"

datatype session_error =
    SessionError_Io string
  | SessionError_MissingConfigParent string
  | SessionError_Diagnostics string
  | SessionError_Service service_error
  | SessionError_Graph graph_error

datatype config_diagnostic_severity =
  ConfigDiagnosticSeverity_Error | ConfigDiagnosticSeverity_Warning

record validation_report =
  vr_valid :: bool
  vr_config_path :: string
  vr_services :: "service_id list"
  vr_diagnostics :: "(config_diagnostic_severity \<times> string) list"
  vr_rendered :: "string option"

definition MAX_RENDERED :: usize where
  "MAX_RENDERED = 16 * 1024"

definition any_error :: "diagnostic list \<Rightarrow> bool" where
  "any_error ds \<longleftrightarrow> (\<exists>d \<in> set ds. fst d = Severity_Error)"

fun compact_severity :: "severity \<Rightarrow> config_diagnostic_severity" where
  "compact_severity Severity_Error = ConfigDiagnosticSeverity_Error"
| "compact_severity Severity_Warning = ConfigDiagnosticSeverity_Warning"
| "compact_severity Severity_Help = ConfigDiagnosticSeverity_Warning"

text \<open>
  The pipeline between the text of a file and its report: whether it parsed, the services, all the
  diagnostics.
\<close>

definition validate_source ::
  "yaml_lib \<Rightarrow> toposort \<Rightarrow> string \<Rightarrow> string \<Rightarrow> string \<Rightarrow> bool option \<Rightarrow>
   bool \<times> service_id list \<times> diagnostic list"
where
  "validate_source yl toposort config_path config_dir raw strict_override =
     (case from_str yl raw config_dir strict_override [] of
        (Inl e, ds) \<Rightarrow> (False, [], ds @ to_diagnostics e)
      | (Inr file, ds) \<Rightarrow>
          let file = file\<lparr> cl_config_path := Some config_path \<rparr> in
          if any_error ds then (True, [], ds)
          else
            (case service_map_from_config yl file of
               Inl e \<Rightarrow> (True, [], ds @ [(Severity_Error, service_error_message yl e)])
             | Inr services \<Rightarrow>
                 (True, im_keys services,
                  ds @ (case service_graph_new toposort services of
                          Inl e \<Rightarrow> [(Severity_Error, graph_error_message e)]
                        | Inr _ \<Rightarrow> []))))"

text \<open>\<^verbatim>\<open>render\<close> is \<^verbatim>\<open>diagnostics::render_to_string\<close> over the file and its diagnostics.\<close>

definition validate_config_file ::
  "yaml_lib \<Rightarrow> toposort \<Rightarrow> (string \<Rightarrow> string \<Rightarrow> diagnostic list \<Rightarrow> string + string) \<Rightarrow>
   string \<Rightarrow> bool option \<Rightarrow> session_error + validation_report"
where
  "validate_config_file yl toposort render path strict_override =
     and_then (map_err SessionError_Io (fs_canonicalize (yl_fs yl) path)) (\<lambda>config_path.
     and_then (ok_or (SessionError_MissingConfigParent config_path) (path_parent config_path))
       (\<lambda>config_dir.
     and_then (map_err SessionError_Io (read_config_file (yl_host yl) config_path)) (\<lambda>raw.
       case validate_source yl toposort config_path config_dir raw strict_override of
         (parsed, services, ds) \<Rightarrow>
           and_then (map_err SessionError_Diagnostics (render config_path raw ds)) (\<lambda>rendered.
             let rendered =
                   (if MAX_RENDERED < length rendered
                    then truncate_to_first_bytes rendered MAX_RENDERED else rendered)
             in Inr
                  \<lparr> vr_valid = (parsed \<and> \<not> any_error ds), vr_config_path = config_path,
                    vr_services = services,
                    vr_diagnostics = map (\<lambda>(sev, message). (compact_severity sev, message)) ds,
                    vr_rendered = (if rendered = [] then None else Some rendered) \<rparr>))))"

section \<open>The session\<close>

record reload_config =
  rl_config_path :: string
  rl_strict_override :: "bool option"

record micromux =
  mm_services :: service_map
  mm_reload_config :: "reload_config option"
  mm_config_dir :: string
  mm_dynamic_policy :: dynamic_services_policy
  mm_default_log_retention :: log_retention

definition memory_retention_is_unbounded :: "log_retention \<Rightarrow> bool" where
  "memory_retention_is_unbounded r \<longleftrightarrow>
     max_lines (lr_memory r) = LogLimit_Unbounded \<or> max_bytes (lr_memory r) = LogLimit_Unbounded"

text \<open>
  \<^verbatim>\<open>Micromux::new\<close>: the session, and what its warning about unbounded memory names (the number of
  services and whether the default is), when it is given.
\<close>

definition micromux_new ::
  "yaml_lib \<Rightarrow> toposort \<Rightarrow> config_file \<Rightarrow> session_error + micromux \<times> (nat \<times> bool) option"
where
  "micromux_new yl toposort file =
     and_then (map_err SessionError_Service (service_map_from_config yl file)) (\<lambda>services.
       let unbounded =
             length (filter (\<lambda>(i, s). memory_retention_is_unbounded (svc_log_retention s)) services);
           default_unbounded = memory_retention_is_unbounded (cg_log_retention (cl_config file));
           warning =
             (if 0 < unbounded \<or> default_unbounded then Some (unbounded, default_unbounded) else None);
           reload =
             map_option (\<lambda>path.
               \<lparr> rl_config_path = path, rl_strict_override = cl_strict_override file \<rparr>)
               (cl_config_path file)
       in and_then (map_err SessionError_Graph (service_graph_new toposort services)) (\<lambda>_.
            let policy = cc_dynamic_services (cg_control (cl_config file));
                roots =
                  map (\<lambda>path. if is_absolute path then path
                             else path_join (cl_config_dir file) path)
                    (dy_allowed_working_roots policy)
            in Inr
                 (\<lparr> mm_services = services, mm_reload_config = reload,
                    mm_config_dir = cl_config_dir file,
                    mm_dynamic_policy = policy\<lparr> dy_allowed_working_roots := roots \<rparr>,
                    mm_default_log_retention = cg_log_retention (cl_config file) \<rparr>, warning)))"

end
