(* ===== verification/Config_Facts.thy ===== *)
theory Config_Facts
  imports Config_Session
begin

text \<open>
  What the configuration parser guarantees: the type of what it returns, the effect of strict mode
  and the agreement of validation with session construction.
\<close>

section \<open>Inversion of parsers\<close>

lemma plain_Inr: "plain r ds = (Inr v, ds') \<longleftrightarrow> r = Inr v \<and> ds' = ds"
  by (auto simp: plain_def)

lemma push_Inr: "push new ds = (Inr v, ds') \<longleftrightarrow> ds' = ds @ new"
  by (auto simp: push_def)

lemma pbind_Inr:
  "pbind p f ds = (Inr v, ds') \<longleftrightarrow> (\<exists>u ds1. p ds = (Inr u, ds1) \<and> f u ds1 = (Inr v, ds'))"
  by (auto simp: pbind_def split: prod.splits sum.splits)

lemmas checked_simps = plain_Inr push_Inr pbind_Inr

lemma opt_traverse_Inr:
  "opt_traverse f x = Inr y \<longleftrightarrow>
     (case x of None \<Rightarrow> y = None | Some a \<Rightarrow> \<exists>b. f a = Inr b \<and> y = Some b)"
  by (auto simp: opt_traverse_def split: option.splits)

lemma collect_Inr:
  "collect f xs = Inr ys \<longleftrightarrow> list_all2 (\<lambda>x y. f x = Inr y) xs ys"
  by (induction xs arbitrary: ys) (auto simp: and_then_Inr list_all2_Cons1)

lemma set_im_insertD: "x \<in> set (im_insert k v m) \<Longrightarrow> x = (k, v) \<or> x \<in> set m"
  by (induction m) (auto split: if_splits)

section \<open>The type of a configuration\<close>

fun positive_limit :: "log_limit \<Rightarrow> bool" where
  "positive_limit (LogLimit_Bounded n) \<longleftrightarrow> 1 \<le> n"
| "positive_limit LogLimit_Unbounded \<longleftrightarrow> True"

definition retention_typed :: "log_retention \<Rightarrow> bool" where
  "retention_typed r \<longleftrightarrow>
     positive_limit (max_lines (lr_memory r)) \<and> positive_limit (max_bytes (lr_memory r)) \<and>
     1 \<le> retained_runs (lr_disk r)"

definition health_check_typed :: "config_health_check \<Rightarrow> bool" where
  "health_check_typed h \<longleftrightarrow> ch_interval h \<noteq> Some 0 \<and> ch_timeout h \<noteq> Some 0"

definition service_typed :: "restart_policy \<Rightarrow> config_service \<Rightarrow> bool" where
  "service_typed inherited s \<longleftrightarrow>
     0 < cs_stop_grace_period s \<and> cs_stop_grace_period s \<le> MAX_STOP_GRACE_PERIOD \<and>
     cs_restart_policy s = (case cs_restart s of None \<Rightarrow> inherited | Some p \<Rightarrow> p) \<and>
     pred_option health_check_typed (cs_healthcheck s) \<and> retention_typed (cs_log_retention s)"

definition config_typed :: "config \<Rightarrow> bool" where
  "config_typed c \<longleftrightarrow>
     im_wf (cg_services c) \<and>
     (\<forall>(i, s) \<in> set (cg_services c).
        service_id_is_valid i \<and> service_typed (cg_restart_policy c) s) \<and>
     retention_typed (cg_log_retention c) \<and>
     1 \<le> dy_max_services (cc_dynamic_services (cg_control c)) \<and>
     hd_interval (cg_healthcheck_defaults c) \<noteq> Some 0 \<and>
     hd_timeout (cg_healthcheck_defaults c) \<noteq> Some 0"

lemma parse_positive_usize_pos: "parse_positive_usize yl v name = Inr n \<Longrightarrow> 1 \<le> n"
  by (auto simp: parse_positive_usize_def and_then_Inr split: if_splits)

lemma parse_positive_duration_pos: "parse_positive_duration d name = Inr r \<longleftrightarrow> d \<noteq> Some 0 \<and> r = d"
  by (auto simp: parse_positive_duration_def)

lemma parse_stop_grace_period_bounds:
  "parse_stop_grace_period d = Inr (Some g) \<Longrightarrow> 0 < g \<and> g \<le> MAX_STOP_GRACE_PERIOD"
  by (auto simp: parse_stop_grace_period_def and_then_Inr parse_positive_duration_pos split: if_splits)

lemma default_grace_bounds:
  "0 < DEFAULT_STOP_GRACE_PERIOD" "DEFAULT_STOP_GRACE_PERIOD \<le> MAX_STOP_GRACE_PERIOD"
  by (simp_all add: DEFAULT_STOP_GRACE_PERIOD_def MAX_STOP_GRACE_PERIOD_def from_secs_def NANOS_PER_SEC_def)

lemma parse_log_limit_pos: "parse_log_limit yl v name = Inr l \<Longrightarrow> positive_limit l"
  by (auto simp: parse_log_limit_def split: if_splits)

lemma override_memory_pos:
  assumes "override_memory yl m p base = Inr r"
    and "positive_limit (max_lines base)" "positive_limit (max_bytes base)"
  shows "positive_limit (max_lines r) \<and> positive_limit (max_bytes r)"
  using assms
  by (auto simp: override_memory_def override_limit_def and_then_Inr dest: parse_log_limit_pos
      split: option.splits)

lemma parse_log_retention_typed:
  assumes "parse_log_retention yl v base strict ds = (Inr r, ds')" and base: "retention_typed base"
  shows "retention_typed r"
proof (cases v)
  case (Some x)
  note inv = assms(1) [unfolded parse_log_retention_def Some option.case checked_simps]
  then obtain m disk memory limits limits' ds1 ds2 where
    disk: "(case or_else (field m ''retained_runs'') (or_else (field m ''runs'') (field m ''history'')) of
              None \<Rightarrow> Inr (lr_disk base)
            | Some runs \<Rightarrow> map_sum id (\<lambda>n. \<lparr> retained_runs = n \<rparr>)
                (parse_positive_usize yl runs ''retained_runs'')) = Inr disk"
    and first: "override_memory yl m [] (lr_memory base) = Inr limits"
    and second: "(case memory of
         None \<Rightarrow> plain (Inr limits)
       | Some memory \<Rightarrow>
           pbind (warn_unknown_keys memory [''max_lines'', ''max_bytes''] ''logs.memory'' strict) (\<lambda>_.
           pbind (warn_overridden_log_alias m memory ''max_lines'' strict) (\<lambda>_.
           pbind (warn_overridden_log_alias m memory ''max_bytes'' strict) (\<lambda>_.
             plain (override_memory yl memory ''memory.'' limits))))) ds1 = (Inr limits', ds2)"
    and r: "r = \<lparr> lr_memory = limits', lr_disk = disk \<rparr>"
    by blast
  have "1 \<le> retained_runs disk"
    using disk base by (auto simp: retention_typed_def dest: parse_positive_usize_pos split: option.splits)
  moreover have "positive_limit (max_lines limits) \<and> positive_limit (max_bytes limits)"
    using override_memory_pos [OF first] base by (simp add: retention_typed_def)
  then have "positive_limit (max_lines limits') \<and> positive_limit (max_bytes limits')"
    using second by (cases memory) (auto simp: checked_simps dest: override_memory_pos)
  ultimately show ?thesis by (simp add: r retention_typed_def)
qed (use assms in \<open>simp add: parse_log_retention_def plain_Inr\<close>)

lemma parse_health_check_typed:
  assumes "parse_health_check yl m defaults strict ds = (Inr (Some h), ds')"
  shows "health_check_typed h"
  using assms
  by (auto simp: parse_health_check_def checked_simps and_then_Inr parse_positive_duration_pos
      health_check_typed_def split: option.splits)

lemma parse_healthcheck_defaults_typed:
  assumes "parse_healthcheck_defaults yl v strict ds = (Inr h, ds')"
  shows "hd_interval h \<noteq> Some 0 \<and> hd_timeout h \<noteq> Some 0"
  using assms
  by (auto simp: parse_healthcheck_defaults_def default_health_check_defaults_def checked_simps
      and_then_Inr parse_positive_duration_pos split: option.splits)

lemma parse_dynamic_services_typed:
  assumes "parse_dynamic_services yl d config_dir strict ds = (Inr p, ds')"
  shows "1 \<le> dy_max_services p"
proof -
  note inv = assms [unfolded parse_dynamic_services_def Let_def checked_simps]
  then obtain n v where n: "opt_traverse
        (\<lambda>v. parse_positive_usize yl v ''control.dynamic_services.max_services'') v = Inr n"
    and p: "dy_max_services p = (case n of None \<Rightarrow> dy_max_services default_dynamic_services_policy | Some n \<Rightarrow> n)"
    by auto
  show ?thesis
  proof (cases n)
    case (Some k)
    then show ?thesis
      using n p by (auto simp: opt_traverse_Inr dest: parse_positive_usize_pos split: option.splits)
  qed (simp add: p default_dynamic_services_policy_def)
qed

lemma parse_control_typed:
  assumes "parse_control yl v config_dir strict ds = (Inr c, ds')"
  shows "1 \<le> dy_max_services (cc_dynamic_services c)"
  using assms by (auto simp: parse_control_def checked_simps dest: parse_dynamic_services_typed)

lemma parse_service_typed:
  assumes "parse_service yl v name defaults strict ds = (Inr s, ds')"
    and base: "retention_typed (sd_log_retention defaults)"
  shows "service_typed (sd_restart_policy defaults) s"
proof -
  note inv = assms(1) [unfolded parse_service_def checked_simps]
  then obtain m restart grace health retention ds1 ds2 ds3 ds4 where
    grace: "and_then (parse_duration yl (field m ''stop_grace_period'')) parse_stop_grace_period = Inr grace"
    and health: "parse_health_check yl m (sd_healthcheck defaults) strict ds1 = (Inr health, ds2)"
    and retention: "parse_log_retention yl (field m ''logs'') (sd_log_retention defaults) strict ds3
                      = (Inr retention, ds4)"
    and s: "cs_stop_grace_period s = (case grace of None \<Rightarrow> DEFAULT_STOP_GRACE_PERIOD | Some d \<Rightarrow> d)"
      "cs_healthcheck s = health" "cs_log_retention s = retention" "cs_restart s = restart"
      "cs_restart_policy s = (case restart of None \<Rightarrow> sd_restart_policy defaults | Some p \<Rightarrow> p)"
    by auto
  have "pred_option health_check_typed health"
    using health by (cases health) (auto dest: parse_health_check_typed)
  moreover have "0 < cs_stop_grace_period s \<and> cs_stop_grace_period s \<le> MAX_STOP_GRACE_PERIOD"
    using grace s(1) default_grace_bounds
    by (cases grace) (auto simp: and_then_Inr dest: parse_stop_grace_period_bounds)
  ultimately show ?thesis
    using s parse_log_retention_typed [OF retention base] by (simp add: service_typed_def)
qed

lemma parse_service_entries_typed:
  assumes "parse_service_entries yl entries defaults strict parsed invalid ds = (Inr (out, bad), ds')"
    and "retention_typed (sd_log_retention defaults)" and "im_wf parsed"
    and "\<forall>(i, s) \<in> set parsed. service_id_is_valid i \<and> service_typed (sd_restart_policy defaults) s"
  shows "im_wf out \<and>
    (\<forall>(i, s) \<in> set out. service_id_is_valid i \<and> service_typed (sd_restart_policy defaults) s)"
  using assms
proof (induction entries arbitrary: parsed invalid ds)
  case (Cons e entries)
  obtain name v where e: "e = (name, v)" by (cases e)
  show ?case
  proof (cases "service_id_is_valid name")
    case True
    with Cons.prems e obtain s ds1 where s: "parse_service yl v name defaults strict ds = (Inr s, ds1)"
      and rest: "parse_service_entries yl entries defaults strict (im_insert name s parsed) invalid ds1
                   = (Inr (out, bad), ds')"
      by (auto simp: checked_simps)
    from parse_service_typed [OF s] Cons.prems
    have "service_typed (sd_restart_policy defaults) s" by simp
    then have "\<forall>(i, s) \<in> set (im_insert name s parsed).
        service_id_is_valid i \<and> service_typed (sd_restart_policy defaults) s"
      using True Cons.prems(4) by (auto dest!: set_im_insertD)
    from Cons.IH [OF rest _ _ this] Cons.prems show ?thesis by (simp add: im_wf_insert)
  next
    case False
    with Cons.prems e Cons.IH [of parsed "invalid @ [name]"] show ?thesis
      by (auto simp: checked_simps)
  qed
qed (auto simp: checked_simps)

lemma parse_services_typed:
  assumes "parse_services yl v defaults strict ds = (Inr out, ds')"
    and "retention_typed (sd_log_retention defaults)"
  shows "im_wf out \<and>
    (\<forall>(i, s) \<in> set out. service_id_is_valid i \<and> service_typed (sd_restart_policy defaults) s)"
proof (cases "value_field v ''services''")
  case (Some services)
  note inv = assms(1) [unfolded parse_services_def Some option.case checked_simps]
  then obtain entries bad ds1 ds2 where
    "parse_service_entries yl entries defaults strict [] [] ds1 = (Inr (out, bad), ds2)"
    by (auto simp: checked_simps)
  from parse_service_entries_typed [OF this assms(2)] show ?thesis by simp
qed (use assms in \<open>simp add: parse_services_def checked_simps\<close>)

lemma default_retention_typed: "retention_typed default_log_retention"
  by (simp add: retention_typed_def default_log_retention_def default_memory_log_retention_def
      default_disk_log_retention_def)

lemma parse_config_typed:
  assumes "parse_config yl v config_dir so ds = (Inr c, ds')"
  shows "config_typed c"
proof -
  note inv = assms [unfolded parse_config_def Let_def checked_simps]
  then obtain strict retention restart health services ui control name ds1 ds2 ds3 ds4 ds5 ds6 ds7 where
    control: "parse_control yl v config_dir strict ds1 = (Inr control, ds2)"
    and health: "parse_healthcheck_defaults yl v strict ds3 = (Inr health, ds4)"
    and retention: "parse_log_retention yl (value_field v ''logs'') default_log_retention strict ds4
                      = (Inr retention, ds5)"
    and services: "parse_services yl v
          \<lparr> sd_log_retention = retention,
            sd_restart_policy = (case restart of None \<Rightarrow> RestartPolicy_Never | Some p \<Rightarrow> p),
            sd_healthcheck = health \<rparr> strict ds6 = (Inr services, ds7)"
    and c: "c = \<lparr> cg_name = name, cg_ui_config = ui, cg_control = control,
        cg_log_retention = retention,
        cg_restart_policy = (case restart of None \<Rightarrow> RestartPolicy_Never | Some p \<Rightarrow> p),
        cg_healthcheck_defaults = health, cg_services = services \<rparr>"
    by blast
  from parse_log_retention_typed [OF retention default_retention_typed]
  have r: "retention_typed retention" .
  from parse_services_typed [OF services] r have "im_wf services \<and>
      (\<forall>(i, s) \<in> set services. service_id_is_valid i \<and> service_typed (cg_restart_policy c) s)"
    by (simp add: c)
  then show ?thesis
    using r parse_control_typed [OF control] parse_healthcheck_defaults_typed [OF health]
    by (simp add: config_typed_def c)
qed

lemma from_str_inv:
  assumes "from_str yl raw config_dir so ds = (Inr file, ds')"
  obtains v ds1 ds2 where "parse_config yl v config_dir so ds1 = (Inr (cl_config file), ds2)"
    and "cl_config_dir file = config_dir" and "cl_strict_override file = so"
proof -
  have "\<exists>v ds1 ds2. parse_config yl v config_dir so ds1 = (Inr (cl_config file), ds2) \<and>
      cl_config_dir file = config_dir \<and> cl_strict_override file = so"
    using assms
    by (auto simp: from_str_def Let_def checked_simps split: sum.splits if_splits) blast+
  then show thesis using that by blast
qed

section \<open>Strict mode\<close>

definition escalate :: "diagnostic \<Rightarrow> diagnostic" where
  "escalate d = (Severity_Error, snd d)"

text \<open>The second parser returns what the first does and reports it with the severity of errors.\<close>

definition escalates :: "'a checked \<Rightarrow> 'a checked \<Rightarrow> bool" where
  "escalates p q \<longleftrightarrow> (\<forall>ds. q (map escalate ds) = apsnd (map escalate) (p ds))"

named_theorems escalation

lemma escalates_plain [escalation]: "escalates (plain r) (plain r)"
  by (simp add: escalates_def plain_def)

lemma escalates_push: "map escalate new = new' \<Longrightarrow> escalates (push new) (push new')"
  by (auto simp: escalates_def push_def)

lemma escalates_warn [escalation]:
  "escalates (push [(warning_or_error False, m)]) (push [(warning_or_error True, m)])"
  by (simp add: escalates_push escalate_def warning_or_error_def)

lemma escalates_bind [escalation]:
  assumes "escalates p q" and "\<And>v. escalates (f v) (g v)"
  shows "escalates (pbind p f) (pbind q g)"
  unfolding escalates_def
proof
  fix ds
  obtain r ds' where p: "p ds = (r, ds')" by (cases "p ds")
  then have "q (map escalate ds) = (r, map escalate ds')"
    using assms(1) by (simp add: escalates_def)
  then show "pbind q g (map escalate ds) = apsnd (map escalate) (pbind p f ds)"
    using p assms(2) by (cases r) (simp_all add: pbind_def escalates_def)
qed

lemma escalates_option [escalation]:
  assumes "escalates p q" and "\<And>v. escalates (f v) (g v)"
  shows "escalates (case x of None \<Rightarrow> p | Some v \<Rightarrow> f v) (case x of None \<Rightarrow> q | Some v \<Rightarrow> g v)"
  using assms by (cases x) auto

lemma escalates_if [escalation]:
  assumes "escalates p q" and "escalates p' q'"
  shows "escalates (if b then p else p') (if b then q else q')"
  using assms by simp

lemma escalates_pair [escalation]:
  assumes "\<And>x y. escalates (f x y) (g x y)"
  shows "escalates (case v of (x, y) \<Rightarrow> f x y) (case v of (x, y) \<Rightarrow> g x y)"
  using assms by (cases v) auto

lemma escalates_unknown_keys [escalation]:
  "escalates (warn_unknown_keys m known c False) (warn_unknown_keys m known c True)"
  by (simp add: warn_unknown_keys_def escalates_push escalate_def warning_or_error_def)

lemma escalates_unknown_keys_opt [escalation]:
  "escalates (warn_unknown_keys_opt m known c False) (warn_unknown_keys_opt m known c True)"
  unfolding warn_unknown_keys_opt_def by (intro escalation)

lemma escalates_alias [escalation]:
  "escalates (warn_overridden_log_alias m memory key False) (warn_overridden_log_alias m memory key True)"
  unfolding warn_overridden_log_alias_def by (intro escalation)

lemma escalates_log_retention [escalation]:
  "escalates (parse_log_retention yl v base False) (parse_log_retention yl v base True)"
  unfolding parse_log_retention_def by (intro escalation)

lemma escalates_dynamic_services [escalation]:
  "escalates (parse_dynamic_services yl d dir False) (parse_dynamic_services yl d dir True)"
  unfolding parse_dynamic_services_def Let_def by (intro escalation)

lemma escalates_control [escalation]:
  "escalates (parse_control yl v dir False) (parse_control yl v dir True)"
  unfolding parse_control_def by (intro escalation)

lemma escalates_ui [escalation]:
  "escalates (parse_ui_config yl v False) (parse_ui_config yl v True)"
  unfolding parse_ui_config_def by (intro escalation)

lemma escalates_health_check [escalation]:
  "escalates (parse_health_check yl m d False) (parse_health_check yl m d True)"
  unfolding parse_health_check_def by (intro escalation)

lemma escalates_healthcheck_defaults [escalation]:
  "escalates (parse_healthcheck_defaults yl v False) (parse_healthcheck_defaults yl v True)"
  unfolding parse_healthcheck_defaults_def by (intro escalation)

lemma escalates_service [escalation]:
  "escalates (parse_service yl v name d False) (parse_service yl v name d True)"
  unfolding parse_service_def by (intro escalation)

lemma escalates_service_entries [escalation]:
  "escalates (parse_service_entries yl es d False p i) (parse_service_entries yl es d True p i)"
  by (induction es arbitrary: p i) (auto intro!: escalation)

lemma escalates_dependency_diagnostics [escalation]:
  "escalates (push (invalid_dependency_diagnostics p i)) (push (invalid_dependency_diagnostics p i))"
  by (rule escalates_push)
     (auto simp: invalid_dependency_diagnostics_def escalate_def map_concat comp_def intro!: arg_cong [of _ _ concat])

lemma escalates_services [escalation]:
  "escalates (parse_services yl v d False) (parse_services yl v d True)"
  unfolding parse_services_def by (intro escalation)

lemma escalates_version [escalation]:
  "escalates (parse_version yl v (Some False)) (parse_version yl v (Some True))"
  unfolding parse_version_def
  by (cases "value_field v ''version''") (auto intro!: escalation split: yaml.split)

lemma strict_override: "or_else (Some b) x = Some True \<longleftrightarrow> b"
  by (simp add: or_else_def)

lemma escalates_config [escalation]:
  "escalates (parse_config yl v dir (Some False)) (parse_config yl v dir (Some True))"
  unfolding parse_config_def Let_def strict_override by (intro escalation)

lemma pbind_assoc: "pbind (pbind p f) g = pbind p (\<lambda>v. pbind (f v) g)"
  by (rule ext) (auto simp: pbind_def split: prod.splits sum.splits)

lemma escalates_result:
  assumes "escalates p q" and "\<And>c. h (f c) = g c"
  shows "pbind q (\<lambda>c. plain (Inr (g c))) [] =
    (case pbind p (\<lambda>c. plain (Inr (f c))) [] of (r, ds) \<Rightarrow> (map_sum id h r, map escalate ds))"
proof -
  obtain r ds' where p: "p [] = (r, ds')" by (cases "p []")
  then have "q [] = (r, map escalate ds')"
    using assms(1) [unfolded escalates_def, rule_format, of "[]"] by simp
  then show ?thesis using p assms(2) by (cases r) (simp_all add: pbind_def plain_def)
qed

text \<open>
  Strict mode changes no result: the file parses to the same configuration or the same error, and
  the diagnostics are those of the lenient mode with the severity of errors.
\<close>

theorem strict_mode_only_escalates:
  "from_str yl raw config_dir (Some True) [] =
     (case from_str yl raw config_dir (Some False) [] of
        (r, ds) \<Rightarrow> (map_sum id (\<lambda>file. file\<lparr> cl_strict_override := Some True \<rparr>) r, map escalate ds))"
proof (cases "yl_documents yl raw")
  case (Inr documents)
  define v where "v = (if documents = [] then Yaml_Null else last documents)"
  define parse where "parse so =
      pbind (plain (parse_strict yl v)) (\<lambda>c.
      pbind (parse_version yl v (or_else (Some so) c)) (\<lambda>_. parse_config yl v config_dir (Some so)))"
    for so
  define made where "made so config =
      \<lparr> cl_config_path = None, cl_config_dir = config_dir, cl_strict_override = Some so,
        cl_config = config \<rparr>" for so config
  have "escalates (parse False) (parse True)"
    unfolding parse_def or_else_def option.case by (intro escalation)
  note res = escalates_result [OF this, of "\<lambda>f. f\<lparr> cl_strict_override := Some True \<rparr>" "made False" "made True"]
  have from_str_parse: "from_str yl raw config_dir (Some so) [] =
      pbind (parse so) (\<lambda>c. plain (Inr (made so c))) []" if "length documents \<le> 1" for so
    using that Inr by (simp add: from_str_def parse_def made_def v_def pbind_assoc Let_def)
  show ?thesis
  proof (cases "length documents \<le> 1")
    case True
    then show ?thesis
      using res by (simp add: from_str_parse) (simp add: made_def)
  qed (simp add: from_str_def Inr plain_def)
qed (simp add: from_str_def plain_def)

section \<open>Validation and start\<close>

lemma micromux_new_Inr:
  "(\<exists>m w. micromux_new yl toposort f = Inr (m, w) \<and> P (mm_services m)) \<longleftrightarrow>
   (\<exists>services. service_map_from_config yl f = Inr services \<and>
      service_graph_new toposort services = Inr () \<and> P services)"
  by (auto simp: micromux_new_def and_then_Inr map_err_Inr Let_def)

lemma any_error_append [simp]:
  "any_error (ds @ [d]) \<longleftrightarrow> any_error ds \<or> fst d = Severity_Error"
  by (auto simp: any_error_def)

lemma validate_source_sound:
  assumes "validate_source yl toposort config_path dir raw so = (parsed, services, ds)"
  shows "parsed \<and> \<not> any_error ds \<longleftrightarrow>
    (\<exists>file ds0. from_str yl raw dir so [] = (Inr file, ds0) \<and> \<not> any_error ds0 \<and>
       (\<exists>m w. micromux_new yl toposort (file\<lparr> cl_config_path := Some config_path \<rparr>) = Inr (m, w) \<and>
          services = im_keys (mm_services m)))"
proof -
  obtain r ds0 where parse: "from_str yl raw dir so [] = (r, ds0)"
    by (cases "from_str yl raw dir so []")
  show ?thesis
  proof (cases r)
    case (Inr f)
    let ?f = "f\<lparr> cl_config_path := Some config_path \<rparr>"
    have inv: "(\<exists>m w. micromux_new yl toposort ?f = Inr (m, w) \<and> services = im_keys (mm_services m)) \<longleftrightarrow>
        (\<exists>s. service_map_from_config yl ?f = Inr s \<and> service_graph_new toposort s = Inr () \<and>
           services = im_keys s)"
      by (rule micromux_new_Inr)
    show ?thesis
    proof (cases "any_error ds0 \<or> (\<exists>e. service_map_from_config yl ?f = Inl e)")
      case True
      then show ?thesis
        using assms parse Inr inv by (auto simp: validate_source_def Let_def split: if_splits)
    next
      case False
      then obtain s where s: "service_map_from_config yl ?f = Inr s"
        by (cases "service_map_from_config yl ?f") auto
      then show ?thesis
        using assms parse Inr inv False
        by (cases "service_graph_new toposort s") (auto simp: validate_source_def Let_def)
    qed
  qed (use assms parse in \<open>auto simp: validate_source_def\<close>)
qed

text \<open>
  C24. A report is valid exactly when a session can be constructed from the file it was made of, and
  it then lists the services of that session: for the same strictness, validation accepts what
  starting accepts.
\<close>

theorem validation_agrees_with_start:
  assumes report: "validate_config_file yl toposort render path so = Inr report"
    and canonical: "fs_canonicalize (yl_fs yl) path = Inr config_path"
    and parent: "path_parent config_path = Some dir"
    and raw: "read_config_file (yl_host yl) config_path = Inr raw"
  shows "vr_valid report \<longleftrightarrow>
    (\<exists>file ds m warning.
       from_str yl raw dir so [] = (Inr file, ds) \<and> \<not> any_error ds \<and>
       micromux_new yl toposort (file\<lparr> cl_config_path := Some config_path \<rparr>) = Inr (m, warning) \<and>
       vr_services report = im_keys (mm_services m))"
proof -
  obtain parsed services ds where out: "validate_source yl toposort config_path dir raw so = (parsed, services, ds)"
    by (cases "validate_source yl toposort config_path dir raw so")
  have r: "vr_valid report = (parsed \<and> \<not> any_error ds)" "vr_services report = services"
    using report canonical parent raw out
    by (auto simp: validate_config_file_def and_then_Inr map_err_Inr ok_or_Inr Let_def map_err_def)
  show ?thesis
    using validate_source_sound [OF out] by (auto simp: r)
qed

section \<open>The services of a session\<close>

lemma service_new_typed:
  assumes new: "service_new host fs i dir cs = Inr (s, missing)" and typed: "service_typed inherited cs"
  shows "svc_id s = i \<and> svc_origin s = ServiceOrigin_Configured \<and> spec_ok (svc_spec s) \<and>
    retention_typed (svc_log_retention s) \<and>
    ss_restart (svc_spec s) = (case cs_restart cs of None \<Rightarrow> inherited | Some p \<Rightarrow> p)"
proof -
  have "svc_id s = i \<and> svc_origin s = ServiceOrigin_Configured \<and>
      svc_log_retention s = cs_log_retention cs \<and>
      ss_command (svc_spec s) = fst (cs_command cs) # snd (cs_command cs) \<and>
      ss_healthcheck (svc_spec s) = map_option healthcheck_spec_from (cs_healthcheck cs) \<and>
      ss_restart (svc_spec s) = cs_restart_policy cs \<and>
      ss_stop_grace_period (svc_spec s) = cs_stop_grace_period cs"
    using new unfolding service_new_def by (auto simp: result_simps Let_def case_prod_beta)
  moreover have "healthcheck_ok (healthcheck_spec_from h)" if "health_check_typed h" for h
    using that
    by (auto simp: healthcheck_ok_def healthcheck_spec_from_def health_check_typed_def
        DEFAULT_HEALTHCHECK_INTERVAL_def DEFAULT_HEALTHCHECK_TIMEOUT_def from_secs_def NANOS_PER_SEC_def
        split: option.splits)
  ultimately show ?thesis
    using typed by (cases "cs_healthcheck cs") (auto simp: service_typed_def spec_ok_def)
qed

lemma map_extend_Nil: "im_wf m \<Longrightarrow> im_extend [] m = m"
proof (induction m rule: rev_induct)
  case (snoc e m)
  obtain k v where e: "e = (k, v)" by (cases e)
  from snoc.prems have "im_wf m" "k \<notin> set (im_keys m)"
    by (auto simp: im_wf_def im_keys_def e)
  with snoc.IH show ?case
    by (simp add: im_extend_def e im_insert_fresh)
qed (simp add: im_extend_def)

lemma list_all2_right_in:
  assumes "list_all2 P xs ys" and "y \<in> set ys"
  obtains x where "x \<in> set xs" and "P x y"
  using assms by (induction rule: list_all2_induct) auto

lemma service_map_from_config_entries:
  assumes "service_map_from_config yl f = Inr services" and wf: "im_wf (cg_services (cl_config f))"
  shows "list_all2 (\<lambda>(name, cs) (i, s). i = name \<and>
      (\<exists>missing. service_new (yl_host yl) (yl_fs yl) name (cl_config_dir f) cs = Inr (s, missing)))
    (cg_services (cl_config f)) services"
    and "im_keys services = im_keys (cg_services (cl_config f))"
proof -
  obtain es where es: "list_all2 (\<lambda>x e. (case x of (name, cs) \<Rightarrow>
        map_sum id (\<lambda>(service, missing). (name, service))
          (service_new (yl_host yl) (yl_fs yl) name (cl_config_dir f) cs)) = Inr e)
      (cg_services (cl_config f)) es" and out: "services = im_extend [] es"
    using assms(1) by (auto simp: service_map_from_config_def collect_Inr)
  have rel: "list_all2 (\<lambda>(name, cs) (i, s). i = name \<and>
      (\<exists>missing. service_new (yl_host yl) (yl_fs yl) name (cl_config_dir f) cs = Inr (s, missing)))
    (cg_services (cl_config f)) es"
    by (rule list_all2_mono [OF es]) auto
  then have "map fst (cg_services (cl_config f)) = map fst es"
    by (induction rule: list_all2_induct) auto
  then have keys: "im_keys es = im_keys (cg_services (cl_config f))" by (simp add: im_keys_def)
  then have "im_wf es" using wf by (simp add: im_wf_def)
  then have "services = es" by (simp add: out map_extend_Nil)
  then show "list_all2 (\<lambda>(name, cs) (i, s). i = name \<and>
      (\<exists>missing. service_new (yl_host yl) (yl_fs yl) name (cl_config_dir f) cs = Inr (s, missing)))
    (cg_services (cl_config f)) services"
    and "im_keys services = im_keys (cg_services (cl_config f))"
    using rel keys by simp_all
qed

text \<open>
  C23. A file that parses gives a configuration of its type (distinct valid service ids, positive
  timings and limits, a stop grace period of at most five minutes, the restart policy of the service
  or the inherited one), and a session constructed from it has one well-formed service per entry,
  under the same id and in the same order, ready to be scheduled.
\<close>

theorem session_services_typed:
  assumes parsed: "from_str yl raw dir so ds = (Inr f, ds')"
    and started: "micromux_new yl toposort f = Inr (m, warning)"
  shows "config_typed (cl_config f) \<and> im_keys (mm_services m) = im_keys (cg_services (cl_config f)) \<and>
    (\<forall>(i, s) \<in> set (mm_services m).
       service_id_is_valid i \<and> svc_id s = i \<and> svc_origin s = ServiceOrigin_Configured \<and>
       spec_ok (svc_spec s) \<and> retention_typed (svc_log_retention s))"
proof -
  obtain v ds1 ds2 where "parse_config yl v dir so ds1 = (Inr (cl_config f), ds2)"
    using from_str_inv [OF parsed] by blast
  from parse_config_typed [OF this] have typed: "config_typed (cl_config f)" .
  then have wf: "im_wf (cg_services (cl_config f))" by (simp add: config_typed_def)
  have new: "service_map_from_config yl f = Inr (mm_services m)"
    using started by (auto simp: micromux_new_def and_then_Inr map_err_Inr Let_def)
  have "service_id_is_valid i \<and> svc_id s = i \<and> svc_origin s = ServiceOrigin_Configured \<and>
       spec_ok (svc_spec s) \<and> retention_typed (svc_log_retention s)"
    if entry: "(i, s) \<in> set (mm_services m)" for i s
  proof -
    obtain e where e: "e \<in> set (cg_services (cl_config f))" and "(\<lambda>(name, cs) (i, s). i = name \<and>
          (\<exists>missing. service_new (yl_host yl) (yl_fs yl) name (cl_config_dir f) cs = Inr (s, missing)))
        e (i, s)"
      by (rule list_all2_right_in [OF service_map_from_config_entries(1) [OF new wf] entry])
    then obtain cs missing where "e = (i, cs)"
      "service_new (yl_host yl) (yl_fs yl) i (cl_config_dir f) cs = Inr (s, missing)"
      by (cases e) auto
    with typed e show ?thesis by (auto simp: config_typed_def dest: service_new_typed)
  qed
  then show ?thesis
    using typed service_map_from_config_entries(2) [OF new wf] by auto
qed

section \<open>A file\<close>

definition sample_tree :: yaml where
  "sample_tree =
     Yaml_Mapping
       [(Yaml_String ''version'', Yaml_Number \<lparr> yn_text = ''1'', yn_as_f64 = Some 1 \<rparr>),
        (Yaml_String ''services'',
         Yaml_Mapping
           [(Yaml_String ''web'',
             Yaml_Mapping
               [(Yaml_String ''command'',
                 Yaml_Sequence [Yaml_String ''sleep'',
                   Yaml_Number \<lparr> yn_text = ''1'', yn_as_f64 = Some 1 \<rparr>])])])]"

definition sample_lib :: yaml_lib where
  "sample_lib =
     \<lparr> yl_string = (\<lambda>v. ok_or ''invalid type: expected a string'' (as_str v)),
       yl_bool = (\<lambda>v. case v of Yaml_Bool b \<Rightarrow> Inr b | _ \<Rightarrow> Inl ''invalid type: expected a boolean''),
       yl_usize = (\<lambda>v. Inl ''invalid type: expected usize''),
       yl_variant = (\<lambda>v. ok_or ''invalid type: expected a variant'' (as_str v)),
       yl_documents = (\<lambda>raw. Inr [sample_tree]), yl_duration = (\<lambda>raw. None),
       yl_shlex = (\<lambda>raw. Some [raw]), yl_text = (\<lambda>v. []), yl_env_text = (\<lambda>e. []),
       yl_host = \<lparr> eh_vars = (\<lambda>k. None), eh_tilde = id, eh_exists = (\<lambda>p. False),
                   eh_read = (\<lambda>n p. Inr ''x'') \<rparr>,
       yl_fs = \<lparr> fs_open = (\<lambda>p. Inr 3), fs_is_dir = (\<lambda>fd. Inr True), fs_fd_path = (\<lambda>fd. ''/srv''),
                 fs_canonicalize = Inr \<rparr> \<rparr>"

definition sample_config_service :: config_service where
  "sample_config_service =
     \<lparr> cs_name = ''web'', cs_startup_mode = StartupMode_Enabled, cs_command = (''sleep'', [''1'']),
       cs_working_dir = None, cs_env_file = [], cs_environment = [], cs_depends_on = [],
       cs_healthcheck = None, cs_ports = [], cs_restart = None,
       cs_restart_policy = RestartPolicy_Never, cs_stop_grace_period = DEFAULT_STOP_GRACE_PERIOD,
       cs_color = None, cs_log_retention = default_log_retention \<rparr>"

definition sample_config_file :: config_file where
  "sample_config_file =
     \<lparr> cl_config_path = None, cl_config_dir = ''/srv'', cl_strict_override = None,
       cl_config =
         \<lparr> cg_name = None, cg_ui_config = default_ui_config,
           cg_control =
             \<lparr> cc_enabled = True,
               cc_dynamic_services =
                 default_dynamic_services_policy\<lparr> dy_allowed_working_roots := [''/srv/.''] \<rparr> \<rparr>,
           cg_log_retention = default_log_retention, cg_restart_policy = RestartPolicy_Never,
           cg_healthcheck_defaults = default_health_check_defaults,
           cg_services = [(''web'', sample_config_service)] \<rparr> \<rparr>"

lemma plain_app [simp]: "plain r ds = (r, ds)"
  by (simp add: plain_def)

lemma pbind_app [simp]:
  "pbind (plain (Inl e)) f ds = (Inl e, ds)" "pbind (plain (Inr v)) f ds = f v ds"
  "pbind (push new) f ds = f () (ds @ new)"
  by (simp_all add: pbind_def push_def)

lemma no_unknown_keys: "unknown_keys m known = [] \<Longrightarrow> warn_unknown_keys m known c strict ds = (Inr (), ds)"
  by (simp add: warn_unknown_keys_def push_def)

lemmas absent_fields = value_field_def opt_traverse_def parse_optional_def parse_duration_def
  or_else_def start_delay_field_def parse_env_file_def parse_environment_def parse_depends_on_def
  parse_ports_def parse_restart_def parse_health_check_def parse_log_retention_def
  parse_stop_grace_period_def parse_positive_duration_def

lemma sample_service_parses:
  "parse_service sample_lib
     (Yaml_Mapping [(Yaml_String ''command'',
        Yaml_Sequence [Yaml_String ''sleep'', Yaml_Number \<lparr> yn_text = ''1'', yn_as_f64 = Some 1 \<rparr>])])
     ''web''
     \<lparr> sd_log_retention = default_log_retention, sd_restart_policy = RestartPolicy_Never,
       sd_healthcheck = default_health_check_defaults \<rparr> False ds
   = (Inr sample_config_service, ds)"
proof -
  have k: "unknown_keys [(Yaml_String ''command'', v)] KNOWN_SERVICE_KEYS = []" for v
    by (simp add: unknown_keys_def KNOWN_SERVICE_KEYS_def map_filter_simps)
  show ?thesis
    by (simp add: pbind_def parse_service_def expect_mapping_def ok_or_def no_unknown_keys [OF k] absent_fields
        parse_command_def v1_normalize_command_def sample_config_service_def)
qed

lemma sample_control:
  "parse_control sample_lib sample_tree ''/srv'' False ds =
     (Inr \<lparr> cc_enabled = True,
            cc_dynamic_services =
              default_dynamic_services_policy\<lparr> dy_allowed_working_roots := [''/srv/.''] \<rparr> \<rparr>, ds)"
proof -
  have "interpolate env ''.'' = (''.'', [])" for env by (simp add: emit_def)
  then have "resolve_path (yl_host sample_lib) ''/srv'' ''.'' = Inr ''/srv/.''"
    by (simp add: resolve_path_def sample_lib_def interpolate_tracking_def is_absolute_def path_join_def)
  then show ?thesis
    by (simp add: pbind_def parse_control_def parse_dynamic_services_def warn_unknown_keys_opt_def absent_fields
        sample_tree_def parse_lease_def parse_dynamic_roots_def parse_dynamic_root_def Let_def map_err_def
        default_dynamic_services_policy_def)
qed

lemma sample_services:
  "parse_services sample_lib sample_tree
     \<lparr> sd_log_retention = default_log_retention, sd_restart_policy = RestartPolicy_Never,
       sd_healthcheck = default_health_check_defaults \<rparr> False ds
   = (Inr [(''web'', sample_config_service)], ds)"
proof -
  have valid: "service_id_is_valid ''web''" by (simp add: service_id_is_valid_def is_ascii_alphanumeric_def)
  have "parse_as (yl_string sample_lib) (Yaml_String n) = Inr n" for n
    by (simp add: parse_as_def sample_lib_def ok_or_def map_err_def)
  then show ?thesis
    using valid
    by (simp add: pbind_def push_def parse_services_def sample_tree_def value_field_def expect_mapping_def ok_or_def
        sample_service_parses invalid_dependency_diagnostics_def sample_config_service_def)
qed

lemma sample_parses: "from_str sample_lib raw ''/srv'' None [] = (Inr sample_config_file, [])"
proof -
  have docs: "yl_documents sample_lib raw = Inr [sample_tree]" by (simp add: sample_lib_def)
  have version: "parse_version sample_lib sample_tree None ds = (Inr Version_V1, ds)" for ds
    by (simp add: parse_version_def value_field_def sample_tree_def)
  have k: "warn_unknown_keys_opt (as_mapping sample_tree) KNOWN_CONFIG_KEYS c False ds = (Inr (), ds)" for c ds
    by (simp add: warn_unknown_keys_opt_def sample_tree_def no_unknown_keys unknown_keys_def
        KNOWN_CONFIG_KEYS_def map_filter_simps)
  have absent: "value_field sample_tree n = None" if "n \<noteq> ''version''" "n \<noteq> ''services''" for n
    using that by (auto simp: value_field_def sample_tree_def)
  have strict: "parse_strict sample_lib sample_tree = Inr None"
    by (simp add: parse_strict_def absent parse_optional_def opt_traverse_def)
  have ui: "parse_ui_config sample_lib sample_tree False ds = (Inr default_ui_config, ds)" for ds
    by (simp add: parse_ui_config_def absent)
  have hc: "parse_healthcheck_defaults sample_lib sample_tree False ds =
      (Inr default_health_check_defaults, ds)" for ds
    by (simp add: parse_healthcheck_defaults_def absent)
  show ?thesis
    by (simp add: pbind_def from_str_def docs strict version or_else_def parse_config_def k absent parse_optional_def
        opt_traverse_def ui hc sample_control sample_services parse_log_retention_def Let_def
        sample_config_file_def)
qed

lemma sample_starts:
  "\<exists>m w. micromux_new sample_lib (\<lambda>_ _. None) (sample_config_file\<lparr> cl_config_path := p \<rparr>) = Inr (m, w) \<and>
     im_keys (mm_services m) = [''web'']"
proof -
  obtain s where "service_new (yl_host sample_lib) (yl_fs sample_lib) ''web'' ''/srv'' sample_config_service
      = Inr (s, [])" and d: "ss_depends_on (svc_spec s) = []"
    by (simp add: service_new_def resolve_working_directory_def open_working_directory_def
        load_env_files_sync_def expand_env_values_tracking_def sample_config_service_def Let_def
        map_err_def)
  then have "service_map_from_config sample_lib (sample_config_file\<lparr> cl_config_path := p \<rparr>) =
      Inr [(''web'', s)]"
    by (simp add: service_map_from_config_def sample_config_file_def im_extend_def)
  moreover have "service_graph_new (\<lambda>_ _. None) [(''web'', s)] = Inr ()"
    by (simp add: service_graph_new_def Let_def depends_on_ids_def d)
  ultimately show ?thesis by (subst micromux_new_Inr) (simp add: im_keys_def)
qed

theorem session_services_typed_witness:
  "\<exists>m w. micromux_new sample_lib (\<lambda>_ _. None) sample_config_file = Inr (m, w) \<and>
     im_keys (mm_services m) = [''web''] \<and> (\<forall>(i, s) \<in> set (mm_services m). spec_ok (svc_spec s))"
proof -
  have same: "sample_config_file\<lparr> cl_config_path := None \<rparr> = sample_config_file"
    by (simp add: sample_config_file_def)
  obtain m w where m: "micromux_new sample_lib (\<lambda>_ _. None) sample_config_file = Inr (m, w)"
    "im_keys (mm_services m) = [''web'']"
    using sample_starts [of None] unfolding same by blast
  from session_services_typed [OF sample_parses m(1)] m show ?thesis by fast
qed

theorem validation_agrees_with_start_witness:
  "\<exists>report. validate_config_file sample_lib (\<lambda>_ _. None) (\<lambda>_ _ _. Inr []) ''/srv/m.yaml'' None = Inr report \<and>
     vr_valid report \<and> vr_services report = [''web'']"
proof -
  have canonical: "fs_canonicalize (yl_fs sample_lib) ''/srv/m.yaml'' = Inr ''/srv/m.yaml''"
    by (simp add: sample_lib_def)
  have parent: "path_parent ''/srv/m.yaml'' = Some ''/srv''"
    by (simp add: path_parent_def)
  have raw: "read_config_file (yl_host sample_lib) ''/srv/m.yaml'' = Inr ''x''"
    by (simp add: read_config_file_def sample_lib_def decode_config_bytes_def MAX_CONFIG_FILE_BYTES_def
        between_def)
  let ?f = "sample_config_file\<lparr> cl_config_path := Some ''/srv/m.yaml'' \<rparr>"
  obtain services where s: "service_map_from_config sample_lib ?f = Inr services"
    "service_graph_new (\<lambda>_ _. None) services = Inr ()" "im_keys services = [''web'']"
    using sample_starts [of "Some ''/srv/m.yaml''"] by (subst (asm) micromux_new_Inr) blast
  then have source: "validate_source sample_lib (\<lambda>_ _. None) ''/srv/m.yaml'' ''/srv'' ''x'' None = (True, [''web''], [])"
    by (simp add: validate_source_def sample_parses any_error_def Let_def)
  then obtain report where report: "validate_config_file sample_lib (\<lambda>_ _. None) (\<lambda>_ _ _. Inr []) ''/srv/m.yaml'' None
      = Inr report" and services: "vr_services report = [''web'']"
    by (simp add: validate_config_file_def canonical parent raw map_err_def ok_or_def Let_def)
  have "\<exists>f ds m w. from_str sample_lib ''x'' ''/srv'' None [] = (Inr f, ds) \<and> \<not> any_error ds \<and>
       micromux_new sample_lib (\<lambda>_ _. None) (f\<lparr> cl_config_path := Some ''/srv/m.yaml'' \<rparr>) = Inr (m, w) \<and>
       vr_services report = im_keys (mm_services m)"
    using sample_starts [of "Some ''/srv/m.yaml''"] services
    by (intro exI [of _ sample_config_file] exI [of _ "[]"]) (auto simp: any_error_def sample_parses)
  with validation_agrees_with_start [OF report canonical parent raw] report services show ?thesis by blast
qed

end
