(* ===== verification/Pty_Filter.thy ===== *)
theory Pty_Filter
  imports Std_Str Log_Buffer Runtime
begin

text \<open>
  What a service writes to its terminal, byte by byte: the filter of escape sequences, the split of
  overlong lines, the style of a screen cell and the rate limit of screen snapshots
  (\<^verbatim>\<open>src/crates/micromux/src/scheduler/pty.rs\<close>).
\<close>

section \<open>Bytes\<close>

definition byte :: "nat \<Rightarrow> char" where
  "byte n = char_of n"

definition is_ascii_control :: "char \<Rightarrow> bool" where
  "is_ascii_control b \<longleftrightarrow> between 0 0x1F b \<or> b = byte 0x7F"

text \<open>
  \<^verbatim>\<open>String::from_utf8_lossy\<close>: whether the bytes start with a character and its length, or the length
  of the malformed part that one replacement character stands for.
\<close>

definition utf8_second :: "char \<Rightarrow> char \<Rightarrow> bool" where
  "utf8_second a b \<longleftrightarrow>
     (if of_char a = (0xE0 :: nat) then between 0xA0 0xBF b
      else if of_char a = (0xED :: nat) then between 0x80 0x9F b
      else if of_char a = (0xF0 :: nat) then between 0x90 0xBF b
      else if of_char a = (0xF4 :: nat) then between 0x80 0x8F b
      else between 0x80 0xBF b)"

fun utf8_unit :: "string \<Rightarrow> bool \<times> nat" where
  "utf8_unit [] = (True, 0)"
| "utf8_unit (a # s) =
     (if between 0 0x7F a then (True, 1)
      else if \<not> between 0xC2 0xF4 a then (False, 1)
      else case s of
        [] \<Rightarrow> (False, 1)
      | b # s \<Rightarrow>
          if \<not> utf8_second a b then (False, 1)
          else if between 0xC2 0xDF a then (True, 2)
          else case s of
            [] \<Rightarrow> (False, 2)
          | c # s \<Rightarrow>
              if \<not> utf8_cont c then (False, 2)
              else if between 0xE0 0xEF a then (True, 3)
              else case s of
                [] \<Rightarrow> (False, 3)
              | d # s \<Rightarrow> if utf8_cont d then (True, 4) else (False, 3))"

lemma utf8_unit_pos: "s \<noteq> [] \<Longrightarrow> 0 < snd (utf8_unit s)"
  by (cases s) (auto split: list.splits)

definition REPLACEMENT_CHARACTER :: string where
  "REPLACEMENT_CHARACTER = bytes [0xEF, 0xBF, 0xBD]"

function utf8_lossy :: "string \<Rightarrow> string" where
  "utf8_lossy s =
     (if s = [] then []
      else
        case utf8_unit s of
          (ok, n) \<Rightarrow> (if ok then take n s else REPLACEMENT_CHARACTER) @ utf8_lossy (drop n s))"
  by auto
termination
  by (relation "measure length", simp)
     (auto, metis diff_less length_greater_0_conv snd_conv utf8_unit_pos)

declare utf8_lossy.simps [simp del]

section \<open>Escape sequences\<close>

definition PTY_LOG_LINE_MAX_BYTES :: usize where
  "PTY_LOG_LINE_MAX_BYTES = 16 * 1024"

text \<open>The last character boundary at or below the limit, or the limit when there is none.\<close>

fun split_back :: "string \<Rightarrow> nat \<Rightarrow> nat" where
  "split_back line 0 = 0"
| "split_back line (Suc n) =
     (if Suc n < length line \<and> utf8_cont (line ! Suc n) then split_back line n else Suc n)"

definition bounded_line_split :: "string \<Rightarrow> nat" where
  "bounded_line_split line =
     (let limit = min PTY_LOG_LINE_MAX_BYTES (length line);
          split = split_back line limit
      in if split = 0 then limit else split)"

datatype ansi_state =
    AnsiState_Ground | AnsiState_Esc | AnsiState_Csi | AnsiState_Osc | AnsiState_Dcs
  | AnsiState_Pm | AnsiState_Apc | AnsiState_Charset

definition ANSI_SEQUENCE_PAYLOAD_MAX_BYTES :: usize where
  "ANSI_SEQUENCE_PAYLOAD_MAX_BYTES = 1024"

record ansi_filter =
  af_state :: ansi_state
  af_esc_seen :: bool
  af_csi_buf :: string
  af_string_len :: usize

definition ansi_filter_new :: ansi_filter where
  "ansi_filter_new =
     \<lparr> af_state = AnsiState_Ground, af_esc_seen = False, af_csi_buf = [], af_string_len = 0 \<rparr>"

definition captures_line_break :: "ansi_filter \<Rightarrow> bool" where
  "captures_line_break f \<longleftrightarrow> af_state f = AnsiState_Ground"

definition finish_string :: "ansi_filter \<Rightarrow> ansi_filter" where
  "finish_string f = f\<lparr> af_state := AnsiState_Ground, af_esc_seen := False, af_string_len := 0 \<rparr>"

text \<open>The length is far below the largest \<^verbatim>\<open>usize\<close>, so that its saturating increment never saturates.\<close>

definition advance_string_len :: "ansi_filter \<Rightarrow> ansi_filter \<times> bool" where
  "advance_string_len f =
     (let f = f\<lparr> af_string_len := usize_saturating_add (af_string_len f) 1 \<rparr> in
      if ANSI_SEQUENCE_PAYLOAD_MAX_BYTES < af_string_len f then (finish_string f, False)
      else (f, True))"

text \<open>One byte of a string sequence after the byte that followed an escape was considered.\<close>

definition push_string_byte :: "char \<Rightarrow> ansi_filter \<Rightarrow> ansi_filter" where
  "push_string_byte b f =
     (if b = byte 0x9C then finish_string f
      else if af_state f = AnsiState_Osc \<and> b = byte 0x07 then finish_string f
      else if b = ESC then f\<lparr> af_esc_seen := True \<rparr>
      else fst (advance_string_len f))"

definition push_string :: "char \<Rightarrow> ansi_filter \<Rightarrow> ansi_filter" where
  "push_string b f =
     (if af_esc_seen f then
        let f = f\<lparr> af_esc_seen := False \<rparr> in
        if b = CHR 0x5C then finish_string f
        else
          (case advance_string_len f of
             (f, False) \<Rightarrow> f
           | (f, True) \<Rightarrow> push_string_byte b f)
      else push_string_byte b f)"

definition start_string :: "ansi_state \<Rightarrow> ansi_filter \<Rightarrow> ansi_filter" where
  "start_string st f = f\<lparr> af_state := st, af_esc_seen := False, af_string_len := 0 \<rparr>"

definition CHARSET_BYTES :: string where
  "CHARSET_BYTES = ''()*+-./%#''"

text \<open>
  One byte: the filter after it, the line it appends to, and whether a screen was cleared.
\<close>

definition ansi_push :: "char \<Rightarrow> ansi_filter \<Rightarrow> string \<Rightarrow> ansi_filter \<times> string \<times> bool" where
  "ansi_push b f out =
     (case af_state f of
        AnsiState_Ground \<Rightarrow>
          if b = ESC then (f\<lparr> af_state := AnsiState_Esc \<rparr>, out, False)
          else if is_ascii_control b
          then (f, (if b = TAB then out @ [b] else out), False)
          else (f, out @ [b], False)
      | AnsiState_Esc \<Rightarrow>
          let f = f\<lparr> af_state := AnsiState_Ground \<rparr> in
          ((if b = CHR ''['' then f\<lparr> af_state := AnsiState_Csi, af_csi_buf := [ESC, CHR ''[''] \<rparr>
            else if b = CHR '']'' then start_string AnsiState_Osc f
            else if b = CHR ''P'' then start_string AnsiState_Dcs f
            else if b = CHR ''^'' then start_string AnsiState_Pm f
            else if b = CHR ''_'' then start_string AnsiState_Apc f
            else if b \<in> set CHARSET_BYTES then f\<lparr> af_state := AnsiState_Charset \<rparr>
            else f), out, False)
      | AnsiState_Charset \<Rightarrow> (f\<lparr> af_state := AnsiState_Ground \<rparr>, out, False)
      | AnsiState_Csi \<Rightarrow>
          let f = f\<lparr> af_csi_buf := af_csi_buf f @ [b] \<rparr> in
          if ANSI_SEQUENCE_PAYLOAD_MAX_BYTES + 2 < length (af_csi_buf f)
          then (f\<lparr> af_csi_buf := [], af_state := AnsiState_Ground \<rparr>, out, False)
          else if between 0x40 0x7E b then
            (f\<lparr> af_state := AnsiState_Ground, af_csi_buf := [] \<rparr>,
             (if b = CHR ''m'' then out @ af_csi_buf f else out), b = CHR ''J'')
          else (f, out, False)
      | _ \<Rightarrow> (push_string b f, out, False))"

section \<open>Cells\<close>

datatype sgr_color =
    SgrColor_Default
  | SgrColor_Idx nat
  | SgrColor_Rgb nat nat nat

text \<open>
  The color of a cell as the terminal emulator gives it, and its palette: an index to the components
  configured for it.
\<close>

datatype term_color =
    Color_Named nat
  | Color_Indexed nat
  | Color_Spec nat nat nat

type_synonym palette = "nat \<Rightarrow> (nat \<times> nat \<times> nat) option"

record term_cell =
  tc_column :: nat
  tc_char :: string
  tc_zerowidth :: "string list"
  tc_fg :: term_color
  tc_bg :: term_color
  tc_bold :: bool
  tc_dim :: bool
  tc_italic :: bool
  tc_any_underline :: bool
  tc_inverse :: bool
  tc_hidden :: bool
  tc_wide_char :: bool
  tc_wide_char_spacer :: bool

definition named_to_sgr_color :: "nat \<Rightarrow> palette \<Rightarrow> bool \<Rightarrow> sgr_color" where
  "named_to_sgr_color idx colors is_fg =
     (if is_fg \<and> idx = 256 \<or> \<not> is_fg \<and> idx = 257 then SgrColor_Default
      else if idx < 256 then SgrColor_Idx idx
      else (case colors idx of None \<Rightarrow> SgrColor_Default | Some (r, g, b) \<Rightarrow> SgrColor_Rgb r g b))"

fun color_to_sgr_color :: "term_color \<Rightarrow> palette \<Rightarrow> bool \<Rightarrow> sgr_color" where
  "color_to_sgr_color (Color_Named named) colors is_fg = named_to_sgr_color named colors is_fg"
| "color_to_sgr_color (Color_Indexed idx) colors is_fg = SgrColor_Idx idx"
| "color_to_sgr_color (Color_Spec r g b) colors is_fg = SgrColor_Rgb r g b"

record cell_attrs =
  ca_bold :: bool
  ca_dim :: bool
  ca_italic :: bool
  ca_underline :: bool
  ca_inverse :: bool

record cell_style =
  ct_fg :: sgr_color
  ct_bg :: sgr_color
  ct_attrs :: cell_attrs

definition no_attrs :: cell_attrs where
  "no_attrs =
     \<lparr> ca_bold = False, ca_dim = False, ca_italic = False, ca_underline = False,
       ca_inverse = False \<rparr>"

definition DEFAULT_CELL_STYLE :: cell_style where
  "DEFAULT_CELL_STYLE = \<lparr> ct_fg = SgrColor_Default, ct_bg = SgrColor_Default, ct_attrs = no_attrs \<rparr>"

definition style_of_cell :: "term_cell \<Rightarrow> palette \<Rightarrow> cell_style" where
  "style_of_cell cell colors =
     \<lparr> ct_fg = color_to_sgr_color (tc_fg cell) colors True,
       ct_bg = color_to_sgr_color (tc_bg cell) colors False,
       ct_attrs =
         \<lparr> ca_bold = tc_bold cell, ca_dim = tc_dim cell, ca_italic = tc_italic cell,
           ca_underline = tc_any_underline cell, ca_inverse = tc_inverse cell \<rparr> \<rparr>"

definition sgr_color_text :: "string \<Rightarrow> sgr_color \<Rightarrow> string" where
  "sgr_color_text base color =
     (case color of
        SgrColor_Default \<Rightarrow> []
      | SgrColor_Idx idx \<Rightarrow> '';'' @ base @ '';5;'' @ decimal idx
      | SgrColor_Rgb r g b \<Rightarrow>
          '';'' @ base @ '';2;'' @ decimal r @ '';'' @ decimal g @ '';'' @ decimal b)"

definition push_sgr :: "string \<Rightarrow> cell_style \<Rightarrow> string" where
  "push_sgr snapshot style =
     (let a = ct_attrs style in
      snapshot @ [ESC] @ ''[0'' @ (if ca_bold a then '';1'' else []) @ (if ca_dim a then '';2'' else []) @
      (if ca_italic a then '';3'' else []) @ (if ca_underline a then '';4'' else []) @
      (if ca_inverse a then '';7'' else []) @
      sgr_color_text ''38'' (ct_fg style) @ sgr_color_text ''48'' (ct_bg style) @ ''m'')"

section \<open>The rate of snapshots\<close>

definition ALT_SCREEN_MAX_UPDATES_PER_SEC :: nat where
  "ALT_SCREEN_MAX_UPDATES_PER_SEC = 4"

datatype snapshot_decision = SnapshotDecision_Emit | SnapshotDecision_Warn | SnapshotDecision_Drop

text \<open>\<^verbatim>\<open>rt_sent_in_window\<close> stays below the limit of a window and never saturates.\<close>

record rate_limit =
  rt_alt_screen :: bool
  rt_window_start :: instant
  rt_sent_in_window :: nat
  rt_warned_in_window :: bool
  rt_snapshot_id :: u64

definition rate_limit_new :: "instant \<Rightarrow> rate_limit" where
  "rate_limit_new now =
     \<lparr> rt_alt_screen = False, rt_window_start = now, rt_sent_in_window = 0,
       rt_warned_in_window = False, rt_snapshot_id = 0 \<rparr>"

definition set_alt_screen :: "bool \<Rightarrow> instant \<Rightarrow> rate_limit \<Rightarrow> rate_limit" where
  "set_alt_screen alt_screen now r =
     \<lparr> rt_alt_screen = alt_screen, rt_window_start = now, rt_sent_in_window = 0,
       rt_warned_in_window = False, rt_snapshot_id = max (rt_snapshot_id r + 1) 1 \<rparr>"

definition roll_window :: "instant \<Rightarrow> rate_limit \<Rightarrow> rate_limit" where
  "roll_window now r =
     (if from_secs 1 \<le> now - rt_window_start r
      then r\<lparr> rt_window_start := now, rt_sent_in_window := 0, rt_warned_in_window := False \<rparr>
      else r)"

definition decide_snapshot ::
  "bool \<Rightarrow> instant \<Rightarrow> rate_limit \<Rightarrow> snapshot_decision \<times> rate_limit"
where
  "decide_snapshot force now r =
     (if \<not> rt_alt_screen r \<or> force then (SnapshotDecision_Emit, r)
      else
        let r = roll_window now r in
        if rt_sent_in_window r < ALT_SCREEN_MAX_UPDATES_PER_SEC then (SnapshotDecision_Emit, r)
        else if rt_warned_in_window r then (SnapshotDecision_Drop, r)
        else (SnapshotDecision_Warn, r\<lparr> rt_warned_in_window := True \<rparr>))"

definition record_snapshot_sent :: "rate_limit \<Rightarrow> rate_limit" where
  "record_snapshot_sent r =
     (if rt_alt_screen r then r\<lparr> rt_sent_in_window := rt_sent_in_window r + 1 \<rparr> else r)"

end
