(* ===== verification/Pty_Capture.thy ===== *)
theory Pty_Capture
  imports Pty_Filter
begin

text \<open>
  The log reader of a run, \<^verbatim>\<open>spawn_log_reader_thread\<close> of
  \<^verbatim>\<open>src/crates/micromux/src/scheduler/pty.rs\<close>: it assembles the records of a service from the bytes
  of its terminal, or, while the service holds the alternate screen, the snapshots of that screen.
  The terminal emulator (\<^verbatim>\<open>alacritty_terminal\<close>) is a parameter: what it does with a byte, whether
  the alternate screen is on, and the cells it shows.
\<close>

record 't emulator =
  em_new :: "nat \<Rightarrow> nat \<Rightarrow> 't"
  em_resize :: "nat \<Rightarrow> nat \<Rightarrow> 't \<Rightarrow> 't"
  em_advance :: "char \<Rightarrow> 't \<Rightarrow> 't"
  em_alt_screen :: "'t \<Rightarrow> bool"
  em_columns :: "'t \<Rightarrow> nat"
  em_cells :: "'t \<Rightarrow> term_cell list"
  em_colors :: "'t \<Rightarrow> palette"

text \<open>An update handed to the sink of the run, always on standard output.\<close>

type_synonym log_update = "log_update_kind \<times> string"

record 't capture =
  cp_line :: string
  cp_filter :: ansi_filter
  cp_term :: 't
  cp_snapshot_mode :: bool
  cp_last_snapshot_at :: "instant option"
  cp_dirty :: bool
  cp_last_size :: u32
  cp_last_alt_screen :: bool
  cp_prev_was_cr :: bool
  cp_pending_cr_blank :: bool
  cp_rate :: rate_limit
  cp_out :: "log_update list"

definition capture_new :: "'t emulator \<Rightarrow> u16 \<Rightarrow> u16 \<Rightarrow> instant \<Rightarrow> 't capture" where
  "capture_new em rows cols now =
     \<lparr> cp_line = [], cp_filter = ansi_filter_new, cp_term = em_new em (unat cols) (unat rows),
       cp_snapshot_mode = False, cp_last_snapshot_at = None, cp_dirty = False, cp_last_size = 0,
       cp_last_alt_screen = False, cp_prev_was_cr = False, cp_pending_cr_blank = False,
       cp_rate = rate_limit_new now, cp_out = [] \<rparr>"

section \<open>Snapshots\<close>

text \<open>One cell: the text so far, the current style, and whether a spacer is to be skipped.\<close>

definition snapshot_cell ::
  "palette \<Rightarrow> nat \<Rightarrow> term_cell \<Rightarrow> string \<times> cell_style \<times> bool \<Rightarrow> string \<times> cell_style \<times> bool"
where
  "snapshot_cell colors cols cell st =
     (case st of (snapshot, style, skip) \<Rightarrow>
        let (snapshot, style, skip) =
              (if tc_column cell = 0
               then (push_sgr (if snapshot \<noteq> [] then snapshot @ [LF] else snapshot)
                       DEFAULT_CELL_STYLE, DEFAULT_CELL_STYLE, False)
               else (snapshot, style, skip))
        in if tc_wide_char_spacer cell then (snapshot, style, False)
           else
             let new_style = style_of_cell cell colors;
                 snapshot = (if new_style \<noteq> style then push_sgr snapshot new_style else snapshot);
                 c = (if tc_hidden cell then '' '' else tc_char cell)
             in (snapshot @ c @ concat (tc_zerowidth cell), new_style,
                 tc_wide_char cell \<and> tc_column cell + 1 < cols))"

definition render_screen :: "'t emulator \<Rightarrow> 't \<Rightarrow> string" where
  "render_screen em t =
     fst (fold (snapshot_cell (em_colors em t) (em_columns em t)) (em_cells em t)
            ([], DEFAULT_CELL_STYLE, False))"

definition send :: "log_update_kind \<Rightarrow> string \<Rightarrow> 't capture \<Rightarrow> 't capture" where
  "send k s c = c\<lparr> cp_out := cp_out c @ [(k, s)] \<rparr>"

definition RATE_WARNING :: string where
  "RATE_WARNING = ''[micromux] interactive output rate-limited''"

definition emit_snapshot :: "'t emulator \<Rightarrow> bool \<Rightarrow> instant \<Rightarrow> 't capture \<Rightarrow> 't capture" where
  "emit_snapshot em force now c =
     (case decide_snapshot force now (cp_rate c) of
        (SnapshotDecision_Warn, rate) \<Rightarrow>
          send LogUpdateKind_Append RATE_WARNING (c\<lparr> cp_rate := rate \<rparr>)
      | (SnapshotDecision_Drop, rate) \<Rightarrow> c\<lparr> cp_rate := rate \<rparr>
      | (SnapshotDecision_Emit, rate) \<Rightarrow>
          let c = send (LogUpdateKind_LiveSnapshot (rt_snapshot_id rate))
                    (render_screen em (cp_term c)) (c\<lparr> cp_rate := rate \<rparr>)
          in c\<lparr> cp_rate := record_snapshot_sent (cp_rate c) \<rparr>)"

section \<open>Records\<close>

text \<open>What \<^verbatim>\<open>flush\<close> keeps of a line: line ends and then spaces are trimmed from its end.\<close>

definition trimmed_line :: "string \<Rightarrow> string" where
  "trimmed_line line =
     rev (dropWhile (\<lambda>b. b = CHR '' '') (dropWhile (\<lambda>b. b = LF \<or> b = CR) (rev line)))"

definition flush_text :: "string \<Rightarrow> 't capture \<Rightarrow> 't capture" where
  "flush_text line c =
     (if trimmed_line line = [] then c
      else send LogUpdateKind_Append (utf8_lossy (trimmed_line line)) c)"

definition flush :: "'t capture \<Rightarrow> 't capture" where
  "flush c = (flush_text (cp_line c) c)\<lparr> cp_line := [] \<rparr>"

definition flush_bounded :: "'t capture \<Rightarrow> 't capture" where
  "flush_bounded c =
     (let split = bounded_line_split (cp_line c) in
      (flush_text (take split (cp_line c)) c)\<lparr> cp_line := drop split (cp_line c) \<rparr>)"

definition flush_record :: "'t capture \<Rightarrow> 't capture" where
  "flush_record c = (send LogUpdateKind_Append (utf8_lossy (cp_line c)) c)\<lparr> cp_line := [] \<rparr>"

text \<open>The byte as a part of the records.\<close>

definition record_byte :: "char \<Rightarrow> 't capture \<Rightarrow> 't capture" where
  "record_byte b c =
     (let visible = \<not> cp_snapshot_mode c \<and> captures_line_break (cp_filter c) in
      if b = CR \<and> visible then
        let c = (if cp_line c = []
                 then (if \<not> cp_prev_was_cr c then c\<lparr> cp_pending_cr_blank := True \<rparr> else c)
                 else flush_record c)
        in c\<lparr> cp_prev_was_cr := True \<rparr>
      else if b = LF \<and> visible then
        let c = (if cp_pending_cr_blank c \<or> \<not> cp_prev_was_cr c then flush_record c else c)
        in c\<lparr> cp_pending_cr_blank := False, cp_prev_was_cr := False \<rparr>
      else
        let c = c\<lparr> cp_pending_cr_blank := False, cp_prev_was_cr := False \<rparr>
        in if cp_snapshot_mode c
           then c\<lparr> cp_filter := fst (ansi_push b (cp_filter c) []) \<rparr>
           else
             (case ansi_push b (cp_filter c) (cp_line c) of
                (f, line, boundary) \<Rightarrow>
                  let c = c\<lparr> cp_filter := f, cp_line := line \<rparr>;
                      c = (if boundary then flush c else c)
                  in if PTY_LOG_LINE_MAX_BYTES \<le> length (cp_line c) then flush_bounded c else c))"

text \<open>The byte for the emulator, and the change of mode when the alternate screen changes.\<close>

definition screen_byte :: "'t emulator \<Rightarrow> instant \<Rightarrow> char \<Rightarrow> 't capture \<Rightarrow> 't capture" where
  "screen_byte em now b c =
     (let c = c\<lparr> cp_term := em_advance em b (cp_term c) \<rparr>;
          alt = em_alt_screen em (cp_term c);
          c = (if alt \<noteq> cp_last_alt_screen c then
                 let c = c\<lparr> cp_last_alt_screen := alt,
                            cp_rate := set_alt_screen alt now (cp_rate c),
                            cp_snapshot_mode := alt, cp_dirty := alt \<rparr>;
                     c = (if alt \<and> cp_line c \<noteq> [] then flush_record c else c\<lparr> cp_line := [] \<rparr>)
                 in c\<lparr> cp_prev_was_cr := False, cp_pending_cr_blank := False \<rparr>
               else c)
      in if cp_snapshot_mode c then c\<lparr> cp_dirty := True \<rparr> else c)"

text \<open>A byte with the time at which it is consumed.\<close>

definition capture_byte :: "'t emulator \<Rightarrow> instant \<times> char \<Rightarrow> 't capture \<Rightarrow> 't capture" where
  "capture_byte em nb c = (case nb of (now, b) \<Rightarrow> screen_byte em now b (record_byte b c))"

section \<open>The reader\<close>

definition high_word :: "u32 \<Rightarrow> u16" where
  "high_word w = ucast (drop_bit 16 w)"

definition low_word :: "u32 \<Rightarrow> u16" where
  "low_word w = ucast w"

definition sync_size :: "'t emulator \<Rightarrow> u32 \<Rightarrow> 't capture \<Rightarrow> 't capture" where
  "sync_size em sz c =
     (if sz \<noteq> 0 \<and> sz \<noteq> cp_last_size c
      then c\<lparr> cp_last_size := sz,
              cp_term := em_resize em (unat (low_word sz)) (unat (high_word sz)) (cp_term c),
              cp_dirty := True \<rparr>
      else c)"

definition SNAPSHOT_INTERVAL :: duration where
  "SNAPSHOT_INTERVAL = from_millis 250"

definition snapshot_if_due :: "'t emulator \<Rightarrow> instant \<Rightarrow> 't capture \<Rightarrow> 't capture" where
  "snapshot_if_due em now c =
     (let due = (case cp_last_snapshot_at c of None \<Rightarrow> True | Some t \<Rightarrow> SNAPSHOT_INTERVAL \<le> now - t) in
      if cp_snapshot_mode c \<and> cp_dirty c \<and> due
      then (emit_snapshot em False now c)\<lparr> cp_last_snapshot_at := Some now, cp_dirty := False \<rparr>
      else c)"

definition finish_stream :: "'t emulator \<Rightarrow> instant \<Rightarrow> 't capture \<Rightarrow> 't capture" where
  "finish_stream em now c = (if cp_snapshot_mode c then emit_snapshot em True now c else flush c)"

text \<open>
  One turn of the loop: the size of the terminal, the bytes that were read with the times they are
  consumed at, and the time afterwards; or the end of the output, also by an error.
\<close>

datatype reading =
    Reading_Chunk u32 "(instant \<times> char) list" instant
  | Reading_End u32 instant

fun reader_turn :: "'t emulator \<Rightarrow> reading \<Rightarrow> 't capture \<Rightarrow> 't capture" where
  "reader_turn em (Reading_Chunk sz chunk now) c =
     snapshot_if_due em now (fold (capture_byte em) chunk (sync_size em sz c))"
| "reader_turn em (Reading_End sz now) c = finish_stream em now (sync_size em sz c)"

text \<open>The whole thread: every turn up to the end of the output.\<close>

fun log_reader :: "'t emulator \<Rightarrow> reading list \<Rightarrow> 't capture \<Rightarrow> 't capture" where
  "log_reader em [] c = c"
| "log_reader em (r # rs) c =
     (case r of
        Reading_Chunk _ _ _ \<Rightarrow> log_reader em rs (reader_turn em r c)
      | Reading_End _ _ \<Rightarrow> reader_turn em r c)"

end
