(* ===== verification/Pty_Facts.thy ===== *)
theory Pty_Facts
  imports Pty_Capture
begin

text \<open>
  What the log reader guarantees for any output of a service: bounded buffers, recovery from broken
  escape sequences, and exactly the lines of a stream of lines.
\<close>

section \<open>Splits\<close>

lemma split_back_le: "split_back line n \<le> n"
  by (induction line n rule: split_back.induct) (auto simp: le_SucI)

lemma bounded_line_split_le: "bounded_line_split line \<le> min PTY_LOG_LINE_MAX_BYTES (length line)"
  using split_back_le [of line "min PTY_LOG_LINE_MAX_BYTES (length line)"]
  by (auto simp: bounded_line_split_def Let_def)

lemma bounded_line_split_pos: "line \<noteq> [] \<Longrightarrow> 0 < bounded_line_split line"
  by (auto simp: bounded_line_split_def Let_def PTY_LOG_LINE_MAX_BYTES_def)

lemma trimmed_line_le: "length (trimmed_line line) \<le> length line"
  unfolding trimmed_line_def
  by (simp add: le_trans [OF length_dropWhile_le length_dropWhile_le, of _ _ "rev line", simplified])

section \<open>The filter\<close>

lemma byte_simps: "of_char (byte n) = (n mod 256 :: nat)"
  by (simp add: byte_def)

lemma ESC_control: "is_ascii_control ESC"
  by (simp add: is_ascii_control_def between_def ESC_def)

text \<open>A string sequence counts its payload; a CSI sequence keeps it.\<close>

definition string_states :: "ansi_state set" where
  "string_states = {AnsiState_Osc, AnsiState_Dcs, AnsiState_Pm, AnsiState_Apc}"

definition filter_ok :: "ansi_filter \<Rightarrow> bool" where
  "filter_ok f \<longleftrightarrow>
     (af_state f = AnsiState_Csi \<longrightarrow>
        2 \<le> length (af_csi_buf f) \<and> length (af_csi_buf f) \<le> ANSI_SEQUENCE_PAYLOAD_MAX_BYTES + 2) \<and>
     (af_state f \<in> string_states \<longrightarrow> af_string_len f \<le> ANSI_SEQUENCE_PAYLOAD_MAX_BYTES) \<and>
     (af_state f \<notin> string_states \<longrightarrow> \<not> af_esc_seen f)"

lemma filter_ok_new: "filter_ok ansi_filter_new"
  by (simp add: filter_ok_def ansi_filter_new_def string_states_def)

text \<open>How many further bytes a sequence can take.\<close>

definition distance :: "ansi_filter \<Rightarrow> nat" where
  "distance f =
     (case af_state f of
        AnsiState_Ground \<Rightarrow> 0
      | AnsiState_Charset \<Rightarrow> 1
      | AnsiState_Csi \<Rightarrow> ANSI_SEQUENCE_PAYLOAD_MAX_BYTES + 3 - length (af_csi_buf f)
      | AnsiState_Esc \<Rightarrow> ANSI_SEQUENCE_PAYLOAD_MAX_BYTES + 3
      | _ \<Rightarrow> ANSI_SEQUENCE_PAYLOAD_MAX_BYTES + 1 - af_string_len f + (if af_esc_seen f then 0 else 1))"

lemma advance_cases:
  assumes "af_string_len f \<le> ANSI_SEQUENCE_PAYLOAD_MAX_BYTES"
  shows "advance_string_len f =
    (if af_string_len f = ANSI_SEQUENCE_PAYLOAD_MAX_BYTES
     then (finish_string (f\<lparr> af_string_len := ANSI_SEQUENCE_PAYLOAD_MAX_BYTES + 1 \<rparr>), False)
     else (f\<lparr> af_string_len := af_string_len f + 1 \<rparr>, True))"
  using assms
  by (auto simp: advance_string_len_def Let_def usize_saturating_add_def USIZE_MAX_def
      ANSI_SEQUENCE_PAYLOAD_MAX_BYTES_def)

lemma finish_string_ok: "af_state (finish_string f) = AnsiState_Ground" "\<not> af_esc_seen (finish_string f)"
  by (simp_all add: finish_string_def)

lemma push_string_step:
  assumes "filter_ok f" and "af_state f \<in> string_states"
  shows "filter_ok (push_string b f) \<and>
    (af_state (push_string b f) = AnsiState_Ground \<or>
     af_state (push_string b f) = af_state f \<and> distance (push_string b f) < distance f)"
proof -
  have len: "af_string_len f \<le> ANSI_SEQUENCE_PAYLOAD_MAX_BYTES" using assms by (simp add: filter_ok_def)
  have dist: "distance g = ANSI_SEQUENCE_PAYLOAD_MAX_BYTES + 1 - af_string_len g + (if af_esc_seen g then 0 else 1)"
    if "af_state g \<in> string_states" for g
    using that by (auto simp: distance_def string_states_def)
  have ok: "filter_ok g \<longleftrightarrow> af_string_len g \<le> ANSI_SEQUENCE_PAYLOAD_MAX_BYTES"
    if "af_state g \<in> string_states" for g
    using that by (auto simp: filter_ok_def string_states_def)
  have fin: "filter_ok (finish_string g)" for g
    by (simp add: filter_ok_def finish_string_def string_states_def)
  show ?thesis
    using assms(2) len fin
    by (auto simp: push_string_def push_string_byte_def advance_cases finish_string_ok ok dist Let_def)
qed

lemma ansi_push_step:
  assumes "filter_ok f" and "ansi_push b f out = (g, out', boundary)"
  shows "filter_ok g \<and> (af_state g = AnsiState_Ground \<or> af_state f = AnsiState_Ground \<or> distance g < distance f)"
proof (cases "af_state f \<in> string_states")
  case True
  then have "g = push_string b f" using assms(2) by (auto simp: ansi_push_def string_states_def)
  then show ?thesis using push_string_step [OF assms(1) True, of b] by auto
next
  case False
  then show ?thesis
    using assms
    by (cases "af_state f")
       (auto simp: ansi_push_def filter_ok_def string_states_def distance_def start_string_def Let_def
         ANSI_SEQUENCE_PAYLOAD_MAX_BYTES_def split: if_splits)
qed

text \<open>The filter after some bytes, and the text it lets through.\<close>

definition filter_byte :: "char \<Rightarrow> ansi_filter \<times> string \<Rightarrow> ansi_filter \<times> string" where
  "filter_byte b st = (case ansi_push b (fst st) (snd st) of (f, out, boundary) \<Rightarrow> (f, out))"

abbreviation filter_bytes :: "string \<Rightarrow> ansi_filter \<times> string \<Rightarrow> ansi_filter \<times> string" where
  "filter_bytes \<equiv> fold filter_byte"

lemma filter_byte_step:
  "filter_ok (fst st) \<Longrightarrow> filter_ok (fst (filter_byte b st)) \<and>
     (af_state (fst (filter_byte b st)) = AnsiState_Ground \<or> af_state (fst st) = AnsiState_Ground \<or>
      distance (fst (filter_byte b st)) < distance (fst st))"
  by (cases "ansi_push b (fst st) (snd st)") (auto simp: filter_byte_def dest: ansi_push_step)

lemma filter_bytes_ok: "filter_ok (fst st) \<Longrightarrow> filter_ok (fst (filter_bytes bs st))"
  by (induction bs arbitrary: st) (simp_all add: filter_byte_step)

lemma distance_le: "distance f \<le> ANSI_SEQUENCE_PAYLOAD_MAX_BYTES + 3"
  by (cases "af_state f") (auto simp: distance_def)

lemma reaches_ground:
  assumes "filter_ok (fst st)" and "distance (fst st) \<le> length bs"
  shows "\<exists>n \<le> distance (fst st). af_state (fst (filter_bytes (take n bs) st)) = AnsiState_Ground"
  using assms
proof (induction bs arbitrary: st)
  case Nil
  then have "distance (fst st) = 0" by simp
  then have "af_state (fst st) = AnsiState_Ground"
    using Nil.prems(1)
    by (cases "af_state (fst st)") (auto simp: distance_def filter_ok_def string_states_def ANSI_SEQUENCE_PAYLOAD_MAX_BYTES_def)
  then show ?case by (intro exI [of _ 0]) simp
next
  case (Cons b bs)
  note step = filter_byte_step [OF Cons.prems(1), of b]
  consider (here) "af_state (fst st) = AnsiState_Ground"
    | (ground) "af_state (fst st) \<noteq> AnsiState_Ground" "af_state (fst (filter_byte b st)) = AnsiState_Ground"
    | (closer) "distance (fst (filter_byte b st)) < distance (fst st)"
    using step by blast
  then show ?case
  proof cases
    case here
    then show ?thesis by (intro exI [of _ 0]) simp
  next
    case ground
    have "1 \<le> distance (fst st)"
      using ground(1) Cons.prems(1)
      by (cases "af_state (fst st)") (auto simp: distance_def filter_ok_def string_states_def ANSI_SEQUENCE_PAYLOAD_MAX_BYTES_def)
    then show ?thesis using ground(2) by (intro exI [of _ 1]) simp
  next
    case closer
    have "distance (fst (filter_byte b st)) \<le> length bs" using closer Cons.prems(2) by simp
    from Cons.IH [OF conjunct1 [OF step] this] obtain n where
      "n \<le> distance (fst (filter_byte b st))"
      "af_state (fst (filter_bytes (take n bs) (filter_byte b st))) = AnsiState_Ground" by blast
    then show ?thesis using closer by (intro exI [of _ "Suc n"]) simp
  qed
qed

text \<open>
  C26. A broken escape sequence never swallows the output of a service: whatever was written before,
  within the next 1027 bytes the filter is back to visible text.
\<close>

theorem filter_recovers:
  assumes "ANSI_SEQUENCE_PAYLOAD_MAX_BYTES + 3 \<le> length bs"
  shows "\<exists>n \<le> ANSI_SEQUENCE_PAYLOAD_MAX_BYTES + 3.
    captures_line_break (fst (filter_bytes (before @ take n bs) (ansi_filter_new, [])))"
proof -
  let ?st = "filter_bytes before (ansi_filter_new, [])"
  have ok: "filter_ok (fst ?st)" by (rule filter_bytes_ok) (simp add: filter_ok_new)
  from reaches_ground [OF ok, of bs] distance_le [of "fst ?st"] assms
  obtain n where "n \<le> ANSI_SEQUENCE_PAYLOAD_MAX_BYTES + 3"
    "af_state (fst (filter_bytes (take n bs) ?st)) = AnsiState_Ground"
    by (meson le_trans)
  then show ?thesis by (intro exI [of _ n]) (simp add: captures_line_break_def)
qed

section \<open>Bounded buffers\<close>

text \<open>What the line and an unfinished color sequence hold together.\<close>

definition held :: "ansi_filter \<Rightarrow> nat" where
  "held f =
     (case af_state f of
        AnsiState_Csi \<Rightarrow> length (af_csi_buf f)
      | AnsiState_Esc \<Rightarrow> 1
      | _ \<Rightarrow> 0)"

definition pending_bytes :: "'t capture \<Rightarrow> nat" where
  "pending_bytes c = length (cp_line c) + held (cp_filter c)"

definition RECORD_MAX_BYTES :: nat where
  "RECORD_MAX_BYTES = PTY_LOG_LINE_MAX_BYTES + ANSI_SEQUENCE_PAYLOAD_MAX_BYTES + 1"

text \<open>An update made from bounded bytes, a snapshot, or the warning of the rate limit.\<close>

definition update_bounded :: "log_update \<Rightarrow> bool" where
  "update_bounded u \<longleftrightarrow>
     fst u = LogUpdateKind_Append \<longrightarrow>
       snd u = RATE_WARNING \<or> (\<exists>raw. length raw \<le> RECORD_MAX_BYTES \<and> snd u = utf8_lossy raw)"

definition capture_ok :: "'t capture \<Rightarrow> bool" where
  "capture_ok c \<longleftrightarrow>
     filter_ok (cp_filter c) \<and> pending_bytes c \<le> RECORD_MAX_BYTES \<and>
     (cp_snapshot_mode c \<longrightarrow> cp_line c = []) \<and>
     (\<forall>u \<in> set (cp_out c). update_bounded u)"

lemma ansi_push_pending:
  assumes "filter_ok f" and "ansi_push b f line = (g, line', boundary)"
  shows "length line' + held g \<le> length line + held f + 1"
proof (cases "af_state f \<in> string_states")
  case True
  then have g: "g = push_string b f" "line' = line" using assms(2) by (auto simp: ansi_push_def string_states_def)
  from push_string_step [OF assms(1) True, of b] True show ?thesis
    by (auto simp: g held_def string_states_def)
next
  case False
  then show ?thesis
    using assms
    by (cases "af_state f")
       (auto simp: ansi_push_def held_def string_states_def start_string_def Let_def split: if_splits)
qed

lemma flush_text_fields [simp]:
  "cp_filter (flush_text line c) = cp_filter c" "cp_line (flush_text line c) = cp_line c"
  "cp_snapshot_mode (flush_text line c) = cp_snapshot_mode c"
  by (simp_all add: flush_text_def send_def)

lemma flush_text_out:
  "length line \<le> RECORD_MAX_BYTES \<Longrightarrow> \<forall>u \<in> set (cp_out c). update_bounded u \<Longrightarrow>
   \<forall>u \<in> set (cp_out (flush_text line c)). update_bounded u"
  using trimmed_line_le [of line]
  by (auto simp: flush_text_def send_def update_bounded_def intro!: exI [of _ "trimmed_line line"])

lemma pending_line: "length (cp_line c) \<le> pending_bytes c"
  by (simp add: pending_bytes_def)

lemma pending_clear:
  "cp_filter d = cp_filter c \<Longrightarrow> cp_line d = [] \<Longrightarrow> pending_bytes d \<le> pending_bytes c"
  by (simp add: pending_bytes_def)

lemma flush_fields [simp]:
  "cp_snapshot_mode (flush c) = cp_snapshot_mode c" "cp_filter (flush c) = cp_filter c" "cp_line (flush c) = []"
  "cp_out (flush c) = cp_out (flush_text (cp_line c) c)"
  by (simp_all add: flush_def)

lemma flush_record_fields [simp]:
  "cp_snapshot_mode (flush_record c) = cp_snapshot_mode c"
  "cp_filter (flush_record c) = cp_filter c" "cp_line (flush_record c) = []"
  "cp_out (flush_record c) = cp_out c @ [(LogUpdateKind_Append, utf8_lossy (cp_line c))]"
  by (simp_all add: flush_record_def send_def)

lemma capture_ok_flush:
  assumes "capture_ok c"
  shows "capture_ok (flush c)"
proof -
  have "length (cp_line c) \<le> RECORD_MAX_BYTES"
    using assms pending_line [of c] by (simp add: capture_ok_def)
  from flush_text_out [OF this, of c] pending_clear [of "flush c" c] assms show ?thesis
    by (simp add: capture_ok_def)
qed

lemma capture_ok_flush_record:
  assumes "capture_ok c"
  shows "capture_ok (flush_record c)"
proof -
  have "length (cp_line c) \<le> RECORD_MAX_BYTES"
    using assms pending_line [of c] by (simp add: capture_ok_def)
  then have "update_bounded (LogUpdateKind_Append, utf8_lossy (cp_line c))"
    by (auto simp: update_bounded_def)
  with pending_clear [of "flush_record c" c] assms show ?thesis
    by (simp add: capture_ok_def)
qed

lemma capture_ok_clear:
  "capture_ok c \<Longrightarrow> capture_ok (c\<lparr> cp_line := [] \<rparr>)"
  by (simp add: capture_ok_def pending_bytes_def)

lemma flush_bounded_fields [simp]:
  "cp_snapshot_mode (flush_bounded c) = cp_snapshot_mode c"
  "cp_filter (flush_bounded c) = cp_filter c"
  "cp_line (flush_bounded c) = drop (bounded_line_split (cp_line c)) (cp_line c)"
  "cp_out (flush_bounded c) = cp_out (flush_text (take (bounded_line_split (cp_line c)) (cp_line c)) c)"
  by (simp_all add: flush_bounded_def Let_def)

lemma pending_flush_bounded:
  "cp_line c \<noteq> [] \<Longrightarrow> pending_bytes (flush_bounded c) < pending_bytes c"
  using bounded_line_split_pos [of "cp_line c"] bounded_line_split_le [of "cp_line c"]
  by (simp add: pending_bytes_def)

lemma pending_short_line:
  assumes "filter_ok (cp_filter c)" and "length (cp_line c) < PTY_LOG_LINE_MAX_BYTES"
  shows "pending_bytes c \<le> RECORD_MAX_BYTES"
  using assms
  by (cases "af_state (cp_filter c)")
     (auto simp: pending_bytes_def held_def filter_ok_def RECORD_MAX_BYTES_def ANSI_SEQUENCE_PAYLOAD_MAX_BYTES_def)

lemma capture_ok_pushed:
  assumes ok: "filter_ok (cp_filter c)" "\<forall>u \<in> set (cp_out c). update_bounded u"
    and pending: "pending_bytes c \<le> RECORD_MAX_BYTES + 1" and mode: "\<not> cp_snapshot_mode c"
  shows "capture_ok (if PTY_LOG_LINE_MAX_BYTES \<le> length (cp_line c) then flush_bounded c else c)"
proof (cases "PTY_LOG_LINE_MAX_BYTES \<le> length (cp_line c)")
  case True
  then have "cp_line c \<noteq> []" by (auto simp: PTY_LOG_LINE_MAX_BYTES_def)
  from pending_flush_bounded [OF this] pending have "pending_bytes (flush_bounded c) \<le> RECORD_MAX_BYTES"
    by simp
  moreover have "length (take (bounded_line_split (cp_line c)) (cp_line c)) \<le> RECORD_MAX_BYTES"
    using bounded_line_split_le [of "cp_line c"] by (simp add: RECORD_MAX_BYTES_def)
  ultimately show ?thesis
    using True ok mode flush_text_out [of "take (bounded_line_split (cp_line c)) (cp_line c)" c]
    by (simp add: capture_ok_def)
next
  case False
  then show ?thesis using ok mode pending_short_line [OF ok(1)] by (simp add: capture_ok_def)
qed

lemma capture_ok_record_byte:
  assumes "capture_ok c"
  shows "capture_ok (record_byte b c)"
proof -
  let ?c = "c\<lparr> cp_pending_cr_blank := False, cp_prev_was_cr := False \<rparr>"
  have ok: "filter_ok (cp_filter c)" "pending_bytes c \<le> RECORD_MAX_BYTES"
    "\<forall>u \<in> set (cp_out c). update_bounded u"
    using assms by (auto simp: capture_ok_def)
  have cong: "capture_ok (d\<lparr> cp_prev_was_cr := x \<rparr>) = capture_ok d"
    "capture_ok (d\<lparr> cp_pending_cr_blank := y \<rparr>) = capture_ok d" for x y and d :: "'a capture"
    by (simp_all add: capture_ok_def pending_bytes_def)
  consider (cr) "b = CR" "\<not> cp_snapshot_mode c \<and> captures_line_break (cp_filter c)"
    | (lf) "b = LF" "b \<noteq> CR" "\<not> cp_snapshot_mode c \<and> captures_line_break (cp_filter c)"
    | (snapshot) "cp_snapshot_mode c"
    | (push) "\<not> cp_snapshot_mode c" "\<not> (captures_line_break (cp_filter c) \<and> (b = CR \<or> b = LF))"
    by blast
  then show ?thesis
  proof cases
    case cr
    then show ?thesis
      using assms capture_ok_flush_record [OF assms] by (simp add: record_byte_def Let_def cong)
  next
    case lf
    then show ?thesis
      using assms capture_ok_flush_record [OF assms] by (simp add: record_byte_def Let_def cong)
  next
    case snapshot
    obtain f line bd where p: "ansi_push b (cp_filter c) [] = (f, line, bd)"
      by (cases "ansi_push b (cp_filter c) []")
    then have f: "filter_ok f" using ansi_push_step [OF ok(1) p] by simp
    have line: "cp_line c = []" using assms snapshot by (simp add: capture_ok_def)
    have "record_byte b c = ?c\<lparr> cp_filter := f \<rparr>"
      using snapshot p by (simp add: record_byte_def)
    with pending_short_line [of "?c\<lparr> cp_filter := f \<rparr>"] f ok line show ?thesis
      by (simp add: capture_ok_def PTY_LOG_LINE_MAX_BYTES_def)
  next
    case push
    obtain f line bd where p: "ansi_push b (cp_filter c) (cp_line c) = (f, line, bd)"
      by (cases "ansi_push b (cp_filter c) (cp_line c)")
    let ?d = "?c\<lparr> cp_filter := f, cp_line := line \<rparr>"
    let ?e = "if bd then flush ?d else ?d"
    have f: "filter_ok f" using ansi_push_step [OF ok(1) p] by simp
    have same: "line = cp_line c" if bd
      using p that by (cases "af_state (cp_filter c)") (auto simp: ansi_push_def Let_def split: if_splits)
    have "pending_bytes ?d \<le> pending_bytes c + 1"
      using ansi_push_pending [OF ok(1) p] by (simp add: pending_bytes_def)
    then have "pending_bytes ?e \<le> RECORD_MAX_BYTES + 1" using ok(2) by (simp add: pending_bytes_def)
    moreover have "length (cp_line c) \<le> RECORD_MAX_BYTES" using ok(2) pending_line [of c] by simp
    then have "\<forall>u \<in> set (cp_out ?e). update_bounded u"
      using ok(3) flush_text_out [of line ?d] same by simp
    moreover have "record_byte b c =
        (if PTY_LOG_LINE_MAX_BYTES \<le> length (cp_line ?e) then flush_bounded ?e else ?e)"
      using push p by (auto simp: record_byte_def Let_def)
    ultimately show ?thesis
      using capture_ok_pushed [of ?e] f push(1) by simp
  qed
qed

lemma capture_ok_fields [simp]:
  "capture_ok (c\<lparr> cp_term := t \<rparr>) = capture_ok c" "capture_ok (c\<lparr> cp_dirty := d \<rparr>) = capture_ok c"
  "capture_ok (c\<lparr> cp_rate := r \<rparr>) = capture_ok c" "capture_ok (c\<lparr> cp_last_size := n \<rparr>) = capture_ok c"
  "capture_ok (c\<lparr> cp_last_alt_screen := a \<rparr>) = capture_ok c"
  "capture_ok (c\<lparr> cp_prev_was_cr := x \<rparr>) = capture_ok c"
  "capture_ok (c\<lparr> cp_pending_cr_blank := y \<rparr>) = capture_ok c"
  "capture_ok (c\<lparr> cp_last_snapshot_at := i \<rparr>) = capture_ok c"
  by (simp_all add: capture_ok_def pending_bytes_def)

lemma capture_ok_empty:
  "cp_line c = [] \<Longrightarrow> capture_ok c \<longleftrightarrow> filter_ok (cp_filter c) \<and> (\<forall>u \<in> set (cp_out c). update_bounded u)"
  using pending_short_line [of c] by (auto simp: capture_ok_def PTY_LOG_LINE_MAX_BYTES_def)

lemma capture_ok_screen_byte:
  assumes "capture_ok c"
  shows "capture_ok (screen_byte em now b c)"
proof -
  have "length (cp_line c) \<le> RECORD_MAX_BYTES"
    using assms pending_line [of c] by (simp add: capture_ok_def)
  then have "update_bounded (LogUpdateKind_Append, utf8_lossy (cp_line c))"
    by (auto simp: update_bounded_def)
  moreover have "filter_ok (cp_filter c)" "\<forall>u \<in> set (cp_out c). update_bounded u"
    using assms by (simp_all add: capture_ok_def)
  ultimately show ?thesis
    using assms by (simp add: screen_byte_def Let_def capture_ok_empty)
qed

lemma capture_ok_send_snapshot:
  "capture_ok c \<Longrightarrow> capture_ok (send (LogUpdateKind_LiveSnapshot i) s c)"
  "capture_ok c \<Longrightarrow> capture_ok (send LogUpdateKind_Append RATE_WARNING c)"
  by (auto simp: capture_ok_def send_def update_bounded_def pending_bytes_def)

lemma capture_ok_emit_snapshot: "capture_ok c \<Longrightarrow> capture_ok (emit_snapshot em force now c)"
  by (auto simp: emit_snapshot_def Let_def capture_ok_send_snapshot split: prod.split snapshot_decision.split)

lemma capture_ok_bytes: "capture_ok c \<Longrightarrow> capture_ok (fold (capture_byte em) bs c)"
  by (induction bs arbitrary: c)
     (auto simp: capture_byte_def capture_ok_screen_byte capture_ok_record_byte)

lemma capture_ok_turn: "capture_ok c \<Longrightarrow> capture_ok (reader_turn em r c)"
  by (cases r)
     (auto simp: snapshot_if_due_def finish_stream_def sync_size_def Let_def capture_ok_emit_snapshot
       capture_ok_flush capture_ok_bytes split: option.split)

lemma capture_ok_new: "capture_ok (capture_new em rows cols now)"
  by (simp add: capture_ok_def capture_new_def pending_bytes_def held_def ansi_filter_new_def filter_ok_def
      string_states_def)

text \<open>
  Whatever a service prints, in whatever chunks, the reader never holds more than 17409 bytes of
  an unfinished line and color sequence, and every record it appends comes from at most as many
  bytes.
\<close>

theorem capture_bounded:
  "length (cp_line (log_reader em readings (capture_new em rows cols now))) \<le> RECORD_MAX_BYTES \<and>
   length (cp_line (log_reader em readings (capture_new em rows cols now))) +
     held (cp_filter (log_reader em readings (capture_new em rows cols now))) \<le> RECORD_MAX_BYTES \<and>
   list_all update_bounded (cp_out (log_reader em readings (capture_new em rows cols now)))"
proof -
  have "capture_ok (log_reader em readings c)" if "capture_ok c" for c
    using that by (induction em readings c rule: log_reader.induct) (auto simp: capture_ok_turn simp del: reader_turn.simps split: reading.split)
  from this [OF capture_ok_new [of em rows cols now]] show ?thesis
    by (simp add: capture_ok_def pending_bytes_def list_all_iff)
qed

section \<open>Lines\<close>

text \<open>A byte of visible text.\<close>

definition plain_byte :: "char \<Rightarrow> bool" where
  "plain_byte b \<longleftrightarrow> \<not> is_ascii_control b \<or> b = TAB"

definition text_byte :: "char \<Rightarrow> bool" where
  "text_byte b \<longleftrightarrow> plain_byte b \<or> b = CR \<or> b = LF"

text \<open>
  The terminal emulator as far as lines depend on it. It enters the alternate screen only on an
  escape sequence: a new emulator is on its primary screen and stays there while it is resized and
  fed visible text and line breaks.
\<close>

inductive text_state :: "'t emulator \<Rightarrow> 't \<Rightarrow> bool" for em where
  text_new: "text_state em (em_new em cols rows)"
| text_resize: "text_state em t \<Longrightarrow> text_state em (em_resize em cols rows t)"
| text_advance: "text_state em t \<Longrightarrow> text_byte b \<Longrightarrow> text_state em (em_advance em b t)"

definition primary_on_text :: "'t emulator \<Rightarrow> bool" where
  "primary_on_text em \<longleftrightarrow> (\<forall>t. text_state em t \<longrightarrow> \<not> em_alt_screen em t)"

text \<open>Between two records: the cursor is in the first column of a new line.\<close>

definition at_start :: "'t emulator \<Rightarrow> log_update list \<Rightarrow> 't capture \<Rightarrow> bool" where
  "at_start em out c \<longleftrightarrow>
     cp_line c = [] \<and> af_state (cp_filter c) = AnsiState_Ground \<and> \<not> cp_snapshot_mode c \<and>
     \<not> cp_last_alt_screen c \<and> cp_pending_cr_blank c = cp_prev_was_cr c \<and> cp_out c = out \<and>
     text_state em (cp_term c)"

text \<open>In a line: some visible bytes of it were consumed.\<close>

definition in_line :: "'t emulator \<Rightarrow> log_update list \<Rightarrow> string \<Rightarrow> 't capture \<Rightarrow> bool" where
  "in_line em out line c \<longleftrightarrow>
     cp_line c = line \<and> af_state (cp_filter c) = AnsiState_Ground \<and> \<not> cp_snapshot_mode c \<and>
     \<not> cp_last_alt_screen c \<and> \<not> cp_pending_cr_blank c \<and> \<not> cp_prev_was_cr c \<and> cp_out c = out \<and>
     text_state em (cp_term c)"

text \<open>After a line was ended by carriage returns.\<close>

definition after_cr :: "'t emulator \<Rightarrow> log_update list \<Rightarrow> 't capture \<Rightarrow> bool" where
  "after_cr em out c \<longleftrightarrow>
     cp_line c = [] \<and> af_state (cp_filter c) = AnsiState_Ground \<and> \<not> cp_snapshot_mode c \<and>
     \<not> cp_last_alt_screen c \<and> \<not> cp_pending_cr_blank c \<and> cp_prev_was_cr c \<and> cp_out c = out \<and>
     text_state em (cp_term c)"

lemma escape_neq: "ESC \<noteq> TAB" "ESC \<noteq> CR" "ESC \<noteq> LF" "TAB \<noteq> CR" "TAB \<noteq> LF"
  by code_simp+

lemma plain_not_esc: "plain_byte b \<Longrightarrow> b \<noteq> ESC \<and> b \<noteq> CR \<and> b \<noteq> LF"
proof -
  have "is_ascii_control CR" "is_ascii_control LF"
    by (simp_all add: is_ascii_control_def between_def CR_def LF_def)
  then show "plain_byte b \<Longrightarrow> ?thesis"
    using ESC_control escape_neq by (auto simp: plain_byte_def)
qed

lemma CR_neq_LF: "CR \<noteq> LF"
  by (simp add: CR_def LF_def)

lemma screen_byte_no_alt:
  assumes "primary_on_text em" and "\<not> cp_last_alt_screen c" "\<not> cp_snapshot_mode c"
    and "text_state em (cp_term c)" and "text_byte b"
  shows "screen_byte em now b c = c\<lparr> cp_term := em_advance em b (cp_term c) \<rparr>"
proof -
  have "\<not> em_alt_screen em (em_advance em b (cp_term c))"
    using assms(1) text_advance [OF assms(4,5)] by (simp add: primary_on_text_def)
  then show ?thesis using assms(2,3) by (simp add: screen_byte_def Let_def)
qed

lemma record_byte_term: "cp_term (record_byte b c) = cp_term c"
  by (auto simp: record_byte_def Let_def flush_record_def flush_def flush_bounded_def flush_text_def
      send_def split: prod.split)

lemma capture_byte_term: "cp_term (capture_byte em (now, b) c) = em_advance em b (cp_term c)"
  by (simp add: capture_byte_def screen_byte_def flush_record_def send_def record_byte_term Let_def)

lemma ansi_push_plain:
  "af_state f = AnsiState_Ground \<Longrightarrow> plain_byte b \<Longrightarrow> ansi_push b f line = (f, line @ [b], False)"
  using plain_not_esc [of b] by (auto simp: ansi_push_def plain_byte_def)

lemma capture_plain:
  assumes "primary_on_text em" and "plain_byte b" and "length line + 1 < PTY_LOG_LINE_MAX_BYTES"
    and "in_line em out line c \<or> line = [] \<and> at_start em out c"
  shows "in_line em out (line @ [b]) (capture_byte em (now, b) c)"
proof -
  have start: "cp_line c = line" "af_state (cp_filter c) = AnsiState_Ground" "\<not> cp_snapshot_mode c"
    "\<not> cp_last_alt_screen c" "cp_out c = out" "text_state em (cp_term c)"
    using assms(4) by (auto simp: in_line_def at_start_def)
  have prim: "text_byte b" using assms(2) by (simp add: text_byte_def)
  have "record_byte b c = c\<lparr> cp_pending_cr_blank := False, cp_prev_was_cr := False,
      cp_line := line @ [b] \<rparr>"
    using start assms(3) plain_not_esc [OF assms(2)]
    by (simp add: record_byte_def Let_def ansi_push_plain [OF _ assms(2)])
  then show ?thesis
    using start text_advance [OF start(6) prim]
    by (simp add: capture_byte_def screen_byte_no_alt [OF assms(1) _ _ _ prim] in_line_def)
qed

lemma capture_plain_line:
  assumes "primary_on_text em"
    and "list_all plain_byte (map snd bs)" and "length line + length bs < PTY_LOG_LINE_MAX_BYTES"
    and "in_line em out line c \<and> line \<noteq> [] \<or> line = [] \<and> at_start em out c"
  shows "in_line em out (line @ map snd bs) (fold (capture_byte em) bs c) \<and> line @ map snd bs \<noteq> [] \<or>
    bs = [] \<and> line = [] \<and> at_start em out (fold (capture_byte em) bs c)"
  using assms(2-)
proof (induction bs arbitrary: line c)
  case (Cons nb bs)
  obtain now b where nb: "nb = (now, b)" by (cases nb)
  from capture_plain [OF assms(1), of b line out c now] Cons.prems
  have "in_line em out (line @ [b]) (capture_byte em (now, b) c)" by (auto simp: nb)
  then show ?case using Cons.IH [of "line @ [b]"] Cons.prems by (simp add: nb)
qed auto

lemma text_break: "text_byte CR" "text_byte LF"
  by (simp_all add: text_byte_def)

lemma capture_cr:
  assumes "primary_on_text em"
  shows "in_line em out line c \<Longrightarrow> line \<noteq> [] \<Longrightarrow>
      after_cr em (out @ [(LogUpdateKind_Append, utf8_lossy line)]) (capture_byte em (now, CR) c)"
    and "after_cr em out c \<Longrightarrow> after_cr em out (capture_byte em (now, CR) c)"
    and "at_start em out c \<Longrightarrow> at_start em out (capture_byte em (now, CR) c)"
  using text_break(1)
  by (auto simp: capture_byte_def record_byte_def Let_def captures_line_break_def in_line_def after_cr_def
      at_start_def screen_byte_no_alt [OF assms] flush_record_def send_def intro: text_advance)

lemma capture_lf:
  assumes "primary_on_text em"
  shows "in_line em out line c \<Longrightarrow>
      at_start em (out @ [(LogUpdateKind_Append, utf8_lossy line)]) (capture_byte em (now, LF) c)"
    and "after_cr em out c \<Longrightarrow> at_start em out (capture_byte em (now, LF) c)"
    and "at_start em out c \<Longrightarrow>
      at_start em (out @ [(LogUpdateKind_Append, utf8_lossy [])]) (capture_byte em (now, LF) c)"
  using CR_neq_LF text_break(2)
  by (auto simp: capture_byte_def record_byte_def Let_def captures_line_break_def in_line_def after_cr_def
      at_start_def screen_byte_no_alt [OF assms] flush_record_def send_def intro: text_advance)

text \<open>The bytes of one line: the carriage returns around its line feed are arbitrary.\<close>

definition line_bytes :: "string \<times> nat \<times> nat \<Rightarrow> string" where
  "line_bytes l = (case l of (line, before, after) \<Rightarrow>
     line @ replicate before CR @ [LF] @ replicate after CR)"

lemma fold_capture_cr:
  assumes no_alt: "primary_on_text em" and "map snd bs = replicate n CR"
    and "(\<And>c now. P c \<Longrightarrow> P (capture_byte em (now, CR) c))" and "P c"
  shows "P (fold (capture_byte em) bs c)"
  using assms(2,4)
proof (induction n arbitrary: bs c)
  case (Suc n)
  then obtain now bs' where bs: "bs = (now, CR) # bs'" "map snd bs' = replicate n CR"
    by (cases bs) auto
  from Suc.IH [OF bs(2) assms(3) [OF Suc.prems(2)]] show ?case by (simp add: bs(1))
qed simp

lemma cr_at_start:
  assumes no_alt: "primary_on_text em" and "map snd bs = replicate n CR"
  shows "at_start em out c \<Longrightarrow> at_start em out (fold (capture_byte em) bs c)"
    and "after_cr em out c \<Longrightarrow> after_cr em out (fold (capture_byte em) bs c)"
  using fold_capture_cr [OF assms, of "at_start em out"] capture_cr(3) [OF no_alt]
    fold_capture_cr [OF assms, of "after_cr em out"] capture_cr(2) [OF no_alt] by blast+

lemma split_bytes:
  assumes "map snd bs = x @ y"
  obtains b1 b2 where "bs = b1 @ b2" "map snd b1 = x" "map snd b2 = y"
  using assms by (auto simp: map_eq_append_conv)

lemma capture_line:
  assumes no_alt: "primary_on_text em" and start: "at_start em out c"
    and plain: "list_all plain_byte line" and short: "length line < PTY_LOG_LINE_MAX_BYTES"
    and bs: "map snd bs = line_bytes (line, before, after)"
  shows "at_start em (out @ [(LogUpdateKind_Append, utf8_lossy line)]) (fold (capture_byte em) bs c)"
proof -
  let ?out = "out @ [(LogUpdateKind_Append, utf8_lossy line)]"
  from bs have "map snd bs = line @ replicate before CR @ [LF] @ replicate after CR"
    by (simp add: line_bytes_def)
  from split_bytes [OF this] obtain b1 r1 where 1: "bs = b1 @ r1" "map snd b1 = line"
    "map snd r1 = replicate before CR @ [LF] @ replicate after CR" by metis
  from split_bytes [OF 1(3)] obtain b2 r2 where 2: "r1 = b2 @ r2" "map snd b2 = replicate before CR"
    "map snd r2 = [LF] @ replicate after CR" by metis
  from 2(3) obtain now b3 where 3: "r2 = (now, LF) # b3" "map snd b3 = replicate after CR" by auto
  let ?c1 = "fold (capture_byte em) b1 c"
  let ?c2 = "fold (capture_byte em) b2 ?c1"
  have "in_line em out line ?c1 \<and> line \<noteq> [] \<or> line = [] \<and> at_start em out ?c1"
    using capture_plain_line [OF no_alt, of b1 "[]" out c] plain short start 1(2) by auto
  then have "at_start em ?out (capture_byte em (now, LF) ?c2)"
  proof
    assume l: "in_line em out line ?c1 \<and> line \<noteq> []"
    show ?thesis
    proof (cases b2)
      case (Cons nb b2')
      then obtain t where b2: "nb = (t, CR)" "map snd b2' = replicate (before - 1) CR"
        using 2(2) by (cases nb; cases before) auto
      from capture_cr(1) [OF no_alt] l have "after_cr em ?out (capture_byte em (t, CR) ?c1)" by simp
      from cr_at_start(2) [OF no_alt b2(2) this] have "after_cr em ?out ?c2" by (simp add: b2(1) Cons)
      then show ?thesis by (rule capture_lf(2) [OF no_alt])
    qed (use capture_lf(1) [OF no_alt] l in simp)
  next
    assume "line = [] \<and> at_start em out ?c1"
    then have "line = []" and "at_start em out ?c2" using cr_at_start(1) [OF no_alt 2(2)] by auto
    then show ?thesis using capture_lf(3) [OF no_alt] by simp
  qed
  then show ?thesis using cr_at_start(1) [OF no_alt 3(2)] by (simp add: 1(1) 2(1) 3(1))
qed

definition as_record :: "string \<Rightarrow> log_update" where
  "as_record line = (LogUpdateKind_Append, utf8_lossy line)"

lemma capture_lines:
  assumes no_alt: "primary_on_text em" and start: "at_start em out c"
    and plain: "\<forall>(line, before, after) \<in> set ls.
      list_all plain_byte line \<and> length line < PTY_LOG_LINE_MAX_BYTES"
    and bs: "map snd bs = concat (map line_bytes ls)"
  shows "at_start em (out @ map (as_record \<circ> fst) ls) (fold (capture_byte em) bs c)"
  using start plain bs
proof (induction ls arbitrary: bs c out)
  case (Cons l ls)
  obtain line before after where l: "l = (line, before, after)" by (cases l)
  from split_bytes [of bs "line_bytes l" "concat (map line_bytes ls)"] Cons.prems(3)
  obtain b1 b2 where b: "bs = b1 @ b2" "map snd b1 = line_bytes l" "map snd b2 = concat (map line_bytes ls)"
    by auto
  have "at_start em (out @ [as_record line]) (fold (capture_byte em) b1 c)"
    unfolding as_record_def
    by (rule capture_line [OF no_alt Cons.prems(1)]) (use Cons.prems(2) l b(2) in auto)
  from Cons.IH [OF this _ b(3)] Cons.prems(2) show ?case by (simp add: l b(1))
qed simp

lemma flush_line:
  assumes "in_line em out line d \<or> line = [] \<and> at_start em out d"
  shows "cp_out (flush d) = out @ (if trimmed_line line = [] then [] else [as_record (trimmed_line line)])"
proof -
  have d: "cp_line d = line" "cp_out d = out" using assms by (auto simp: in_line_def at_start_def)
  then show ?thesis by (simp add: flush_text_def send_def as_record_def)
qed

section \<open>Chunks\<close>

text \<open>What the records depend on.\<close>

definition core :: "'t capture \<Rightarrow> string \<times> ansi_filter \<times> bool \<times> bool \<times> bool \<times> bool \<times> log_update list" where
  "core c = (cp_line c, cp_filter c, cp_snapshot_mode c, cp_last_alt_screen c, cp_prev_was_cr c,
     cp_pending_cr_blank c, cp_out c)"

lemma core_eq:
  "core c = core d \<longleftrightarrow>
     cp_line c = cp_line d \<and> cp_filter c = cp_filter d \<and> cp_snapshot_mode c = cp_snapshot_mode d \<and>
     cp_last_alt_screen c = cp_last_alt_screen d \<and> cp_prev_was_cr c = cp_prev_was_cr d \<and>
     cp_pending_cr_blank c = cp_pending_cr_blank d \<and> cp_out c = cp_out d"
  by (simp add: core_def)

lemma core_flush:
  assumes "core c = core d"
  shows "core (flush_record c) = core (flush_record d)" "core (flush c) = core (flush d)"
    "core (flush_bounded c) = core (flush_bounded d)"
  using assms by (simp_all add: core_eq flush_record_def flush_def flush_bounded_def flush_text_def send_def Let_def)

lemma core_flags:
  assumes "core c = core d"
  shows "core (c\<lparr> cp_prev_was_cr := x \<rparr>) = core (d\<lparr> cp_prev_was_cr := x \<rparr>)"
    "core (c\<lparr> cp_pending_cr_blank := x \<rparr>) = core (d\<lparr> cp_pending_cr_blank := x \<rparr>)"
    "core (c\<lparr> cp_filter := f \<rparr>) = core (d\<lparr> cp_filter := f \<rparr>)"
    "core (c\<lparr> cp_line := l \<rparr>) = core (d\<lparr> cp_line := l \<rparr>)"
  using assms by (simp_all add: core_eq)

lemma core_if:
  "core c = core d \<Longrightarrow> core c' = core d' \<Longrightarrow> core (if b then c else c') = core (if b then d else d')"
  by simp

lemma core_record_byte:
  assumes "core c = core d"
  shows "core (record_byte b c) = core (record_byte b d)"
proof -
  have eq: "cp_line c = cp_line d" "cp_filter c = cp_filter d" "cp_snapshot_mode c = cp_snapshot_mode d"
    "cp_prev_was_cr c = cp_prev_was_cr d" "cp_pending_cr_blank c = cp_pending_cr_blank d"
    using assms by (simp_all add: core_eq)
  obtain f line bd where p: "ansi_push b (cp_filter d) (cp_line d) = (f, line, bd)"
    by (cases "ansi_push b (cp_filter d) (cp_line d)")
  let ?e = "\<lambda>c. if bd then flush (c\<lparr> cp_pending_cr_blank := False, cp_prev_was_cr := False,
      cp_filter := f, cp_line := line \<rparr>)
    else c\<lparr> cp_pending_cr_blank := False, cp_prev_was_cr := False, cp_filter := f, cp_line := line \<rparr>"
  have e: "core (?e c) = core (?e d)" by (intro core_if core_flush core_flags assms)
  then have "cp_line (?e c) = cp_line (?e d)" by (simp only: core_eq)
  then have push: "core (if PTY_LOG_LINE_MAX_BYTES \<le> length (cp_line (?e c)) then flush_bounded (?e c) else ?e c)
      = core (if PTY_LOG_LINE_MAX_BYTES \<le> length (cp_line (?e d)) then flush_bounded (?e d) else ?e d)"
    using core_flush(3) [OF e] e by presburger
  show ?thesis
  proof (cases "\<not> cp_snapshot_mode d \<and> captures_line_break (cp_filter d) \<and> (b = CR \<or> b = LF) \<or> cp_snapshot_mode d")
    case True
    then show ?thesis
      using assms eq by (auto simp: record_byte_def Let_def intro!: core_flush core_flags)
  next
    case False
    then have "record_byte b c = (if PTY_LOG_LINE_MAX_BYTES \<le> length (cp_line (?e c)) then flush_bounded (?e c) else ?e c)"
      "record_byte b d = (if PTY_LOG_LINE_MAX_BYTES \<le> length (cp_line (?e d)) then flush_bounded (?e d) else ?e d)"
      using p eq by (auto simp: record_byte_def Let_def)
    then show ?thesis using push by simp
  qed
qed

definition line_mode :: "'t capture \<Rightarrow> bool" where
  "line_mode c \<longleftrightarrow> \<not> cp_snapshot_mode c \<and> \<not> cp_last_alt_screen c"

lemma line_mode_core: "core c = core d \<Longrightarrow> line_mode c = line_mode d"
  by (simp add: core_eq line_mode_def)

lemma line_mode_record_byte: "line_mode c \<Longrightarrow> line_mode (record_byte b c)"
  by (auto simp: line_mode_def record_byte_def Let_def flush_record_def flush_def flush_bounded_def
      flush_text_def send_def split: prod.split)

lemma core_capture_byte:
  assumes no_alt: "primary_on_text em" and eq: "core c = core d" and mode: "line_mode d"
    and prim: "text_state em (cp_term c)" "text_state em (cp_term d)" "text_byte (snd nb)"
  shows "core (capture_byte em nb c) = core (capture_byte em nb d)" "line_mode (capture_byte em nb d)"
    "text_state em (cp_term (capture_byte em nb c))" "text_state em (cp_term (capture_byte em nb d))"
proof -
  obtain t b where nb: "nb = (t, b)" by (cases nb)
  have r: "core (record_byte b c) = core (record_byte b d)" by (rule core_record_byte [OF eq])
  have "line_mode (record_byte b d)" by (rule line_mode_record_byte [OF mode])
  with r line_mode_core [OF r] prim
  show "core (capture_byte em nb c) = core (capture_byte em nb d)" "line_mode (capture_byte em nb d)"
    by (simp_all add: nb capture_byte_def line_mode_def screen_byte_no_alt [OF no_alt] record_byte_term core_eq)
  show "text_state em (cp_term (capture_byte em nb c))" "text_state em (cp_term (capture_byte em nb d))"
    using prim by (simp_all add: nb capture_byte_term text_advance)
qed

lemma core_capture_bytes:
  assumes no_alt: "primary_on_text em" and "core c = core d" and "line_mode d"
    and "text_state em (cp_term c)" and "text_state em (cp_term d)" and "\<forall>nb \<in> set bs. text_byte (snd nb)"
  shows "core (fold (capture_byte em) bs c) = core (fold (capture_byte em) bs d) \<and>
    line_mode (fold (capture_byte em) bs d) \<and> text_state em (cp_term (fold (capture_byte em) bs c)) \<and>
    text_state em (cp_term (fold (capture_byte em) bs d))"
  using assms(2-)
proof (induction bs arbitrary: c d)
  case (Cons nb bs)
  then have "text_byte (snd nb)" by simp
  note step = core_capture_byte [OF no_alt Cons.prems(1-4) this]
  from Cons.IH [OF step] Cons.prems(5) show ?case by simp
qed simp

text \<open>While it prints text, neither chunks nor the size of the terminal nor time matter.\<close>

lemma reader_chunks:
  assumes no_alt: "primary_on_text em" and "core c = core d" and "line_mode d"
    and "text_state em (cp_term c)" and "text_state em (cp_term d)"
    and "\<forall>(sz, bs, now) \<in> set rs. \<forall>nb \<in> set bs. text_byte (snd nb)"
  shows "core (log_reader em (map (\<lambda>(sz, bs, now). Reading_Chunk sz bs now) rs @ [Reading_End sz' stop]) c)
    = core (flush (fold (capture_byte em) (concat (map (\<lambda>(sz, bs, now). bs) rs)) d))"
  using assms(2-)
proof (induction rs arbitrary: c d)
  case Nil
  have "core (sync_size em sz' c) = core c" by (simp add: sync_size_def core_eq)
  moreover from this Nil have "line_mode (sync_size em sz' c)"
    using line_mode_core [of "sync_size em sz' c" d] by simp
  ultimately show ?case
    using Nil core_flush(2) [of "sync_size em sz' c" d] by (simp add: finish_stream_def line_mode_def)
next
  case (Cons r rs)
  obtain sz bs now where r: "r = (sz, bs, now)" by (cases r)
  have same: "core (sync_size em sz c) = core d" using Cons.prems(1) by (simp add: sync_size_def core_eq)
  have prim: "text_state em (cp_term (sync_size em sz c))"
    using Cons.prems(3) by (simp add: sync_size_def text_resize)
  have bytes: "\<forall>nb \<in> set bs. text_byte (snd nb)" "\<forall>(sz, bs, now) \<in> set rs. \<forall>nb \<in> set bs. text_byte (snd nb)"
    using Cons.prems(5) by (auto simp: r)
  from core_capture_bytes [OF no_alt same Cons.prems(2) prim Cons.prems(4) bytes(1)]
  have eq: "core (fold (capture_byte em) bs (sync_size em sz c)) = core (fold (capture_byte em) bs d)"
    and mode: "line_mode (fold (capture_byte em) bs d)"
    and texts: "text_state em (cp_term (fold (capture_byte em) bs (sync_size em sz c)))"
      "text_state em (cp_term (fold (capture_byte em) bs d))" by auto
  then have "snapshot_if_due em now (fold (capture_byte em) bs (sync_size em sz c))
      = fold (capture_byte em) bs (sync_size em sz c)"
    using line_mode_core [OF eq] by (simp add: snapshot_if_due_def line_mode_def)
  then show ?case using Cons.IH [OF eq mode texts bytes(2)] by (simp add: r)
qed

text \<open>
  C25. A stream of lines of visible text, each shorter than the longest line a record holds, is
  captured as exactly these lines, one record each, blank lines included, however it is cut into
  chunks, whatever the sizes of the terminal, and however many carriage returns the terminal driver
  put around the line feeds; an unterminated last line becomes a record when the output ends, unless
  it is blank. Of the terminal emulator this needs only that visible text and line breaks do not make
  it enter the alternate screen.
\<close>

theorem lines_captured_exactly:
  assumes no_alt: "primary_on_text em"
    and plain: "\<forall>(line, before, after) \<in> set ls.
      list_all plain_byte line \<and> length line < PTY_LOG_LINE_MAX_BYTES"
    and rest: "list_all plain_byte rest" "length rest < PTY_LOG_LINE_MAX_BYTES"
    and bytes: "map snd (concat (map (\<lambda>(sz, bs, now). bs) rs)) = concat (map line_bytes ls) @ rest"
  shows "cp_out (log_reader em (map (\<lambda>(sz, bs, now). Reading_Chunk sz bs now) rs @ [Reading_End sz stop])
           (capture_new em rows cols start))
    = map (\<lambda>(line, before, after). as_record line) ls @
      (if trimmed_line rest = [] then [] else [as_record (trimmed_line rest)])"
proof -
  let ?c = "capture_new em rows cols start"
  let ?bs = "concat (map (\<lambda>(sz, bs, now). bs) rs)"
  let ?recs = "map (as_record \<circ> fst) ls"
  have start: "at_start em [] ?c" by (simp add: at_start_def capture_new_def ansi_filter_new_def text_new)
  have mode: "line_mode ?c" by (simp add: line_mode_def capture_new_def)
  have prim: "text_state em (cp_term ?c)" by (simp add: capture_new_def text_new)
  from split_bytes [OF bytes] obtain b1 b2 where b: "?bs = b1 @ b2"
    "map snd b1 = concat (map line_bytes ls)" "map snd b2 = rest" by metis
  have texts: "text_byte b" if "b \<in> set (concat (map line_bytes ls) @ rest)" for b
    using that plain rest(1) by (auto simp: line_bytes_def text_byte_def list_all_iff)
  have all_text: "text_byte (snd nb)" if "nb \<in> set ?bs" for nb
  proof -
    from that have "snd nb \<in> set (map snd ?bs)" unfolding set_map by (rule imageI)
    then show ?thesis unfolding bytes by (rule texts)
  qed
  have bytes_text: "\<forall>(sz, bs, now) \<in> set rs. \<forall>nb \<in> set bs. text_byte (snd nb)"
  proof (intro ballI, clarify)
    fix sz bs now nb assume "(sz, bs, now) \<in> set rs" "nb \<in> set bs"
    then have "nb \<in> set ?bs" by (cases nb) force
    then show "text_byte (snd nb)" by (rule all_text)
  qed
  have "at_start em ?recs (fold (capture_byte em) b1 ?c)"
    using capture_lines [OF no_alt start plain b(2)] by simp
  then have "in_line em ?recs rest (fold (capture_byte em) ?bs ?c) \<or>
      rest = [] \<and> at_start em ?recs (fold (capture_byte em) ?bs ?c)"
    using capture_plain_line [OF no_alt, of b2 "[]" ?recs "fold (capture_byte em) b1 ?c"] rest b by auto
  then have "cp_out (flush (fold (capture_byte em) ?bs ?c)) =
      ?recs @ (if trimmed_line rest = [] then [] else [as_record (trimmed_line rest)])"
    by (rule flush_line)
  moreover have "?recs = map (\<lambda>(line, before, after). as_record line) ls" by auto
  ultimately show ?thesis
    using reader_chunks [OF no_alt refl mode prim prim bytes_text, of sz stop] by (simp add: core_eq)
qed

text \<open>An emulator that enters the alternate screen on any escape.\<close>

definition escape_emulator :: "bool emulator" where
  "escape_emulator =
     \<lparr> em_new = (\<lambda>_ _. False), em_resize = (\<lambda>_ _. id), em_advance = (\<lambda>b alt. b = ESC \<or> alt),
       em_alt_screen = id, em_columns = (\<lambda>_. 80), em_cells = (\<lambda>_. []), em_colors = (\<lambda>_ _. None) \<rparr>"

lemma escape_emulator_primary: "primary_on_text escape_emulator"
proof -
  have "\<not> t" if "text_state escape_emulator t" for t
    using that
  proof induction
    case (text_advance t b)
    then have "b \<noteq> ESC" using plain_not_esc [of b] escape_neq by (auto simp: text_byte_def)
    then show ?case using text_advance by (simp add: escape_emulator_def)
  qed (simp_all add: escape_emulator_def)
  moreover have "em_alt_screen escape_emulator t = t" for t by (simp add: escape_emulator_def)
  ultimately show ?thesis unfolding primary_on_text_def by blast
qed

theorem lines_captured_exactly_witness:
  "cp_out (log_reader escape_emulator
     [Reading_Chunk 5 (map (Pair 0) (''ab'' @ [CR])) 1, Reading_Chunk 6 (map (Pair 2) (CR # LF # CR # ''c'')) 3,
      Reading_End 6 4] (capture_new escape_emulator 24 80 0)) = [as_record ''ab'', as_record ''c'']"
proof -
  have plain: "list_all plain_byte ''ab''" "list_all plain_byte ''c''"
    by code_simp+
  have "trimmed_line ''c'' = ''c''" by (simp add: trimmed_line_def LF_def CR_def)
  then show ?thesis
    using lines_captured_exactly [OF escape_emulator_primary, of "[(''ab'', 2, 1)]" "''c''"
        "[(5, map (Pair 0) (''ab'' @ [CR]), 1), (6, map (Pair 2) (CR # LF # CR # ''c''), 3)]" 6 4 24 80 0] plain
    by (simp add: line_bytes_def numeral_2_eq_2 PTY_LOG_LINE_MAX_BYTES_def)
qed

theorem filter_recovers_witness:
  "\<exists>n \<le> ANSI_SEQUENCE_PAYLOAD_MAX_BYTES + 3.
    captures_line_break (fst (filter_bytes ((ESC # '']0;title'') @ take n (replicate 1027 (CHR ''x''))) (ansi_filter_new, [])))"
  by (rule filter_recovers) (simp add: ANSI_SEQUENCE_PAYLOAD_MAX_BYTES_def)

end
