(* ===== verification/Pty_Process.thy ===== *)
theory Pty_Process
  imports Runtime
begin

text \<open>
  The writer and the termination of a service process on Unix
  (\<^verbatim>\<open>src/crates/micromux/src/scheduler/pty.rs\<close>). System calls are parameters or observations: the
  outcome of a write, of a poll, of a signal and of waiting for the process. A thread or task that
  waits is a function of the list of what it observes, one entry per turn of its loop.
\<close>

section \<open>Writing to the terminal\<close>

definition PTY_INPUT_WRITE_TIMEOUT :: duration where
  "PTY_INPUT_WRITE_TIMEOUT = from_millis 500"

datatype write_error =
    WriteError_Zero
  | WriteError_TooMany
  | WriteError_Cancelled
  | WriteError_TimedOut
  | WriteError_BrokenPipe
  | WriteError_Io string

text \<open>
  A poll for writability at a time: nothing before the timeout, events of the two descriptors, an
  error to retry, or another error.
\<close>

datatype poll_result =
    Poll_TimedOut
  | Poll_Events bool bool bool
  | Poll_Retry
  | Poll_Failed string

text \<open>
  \<^verbatim>\<open>wait_until_writable\<close>; \<^verbatim>\<open>Poll_Events cancelled writable closed\<close>. \<^verbatim>\<open>None\<close>: still waiting.
\<close>

fun wait_until_writable ::
  "instant option \<Rightarrow> (instant \<times> poll_result) list \<Rightarrow> (write_error + unit) option"
where
  "wait_until_writable deadline [] = None"
| "wait_until_writable deadline ((now, r) # polls) =
     (if (case deadline of None \<Rightarrow> False | Some d \<Rightarrow> d < now) then Some (Inl WriteError_TimedOut)
      else
        (case r of
           Poll_TimedOut \<Rightarrow> Some (Inl WriteError_TimedOut)
         | Poll_Events cancelled writable closed \<Rightarrow>
             if cancelled then Some (Inl WriteError_Cancelled)
             else if writable then Some (Inr ())
             else if closed then Some (Inl WriteError_BrokenPipe)
             else wait_until_writable deadline polls
         | Poll_Retry \<Rightarrow> wait_until_writable deadline polls
         | Poll_Failed e \<Rightarrow> Some (Inl (WriteError_Io e))))"

text \<open>One turn of \<^verbatim>\<open>write_all\<close>: cancellation, the clock, the outcome of the write, the clock after.\<close>

datatype write_outcome =
    Write_Wrote nat
  | Write_Interrupted
  | Write_WouldBlock "(instant \<times> poll_result) list"
  | Write_Failed string

record write_turn =
  wt_cancelled :: bool
  wt_now :: instant
  wt_outcome :: write_outcome
  wt_after :: instant

text \<open>The result, if the call returned, and the bytes the terminal got.\<close>

fun write_turns ::
  "duration option \<Rightarrow> write_turn list \<Rightarrow> instant option \<Rightarrow> string \<Rightarrow>
   (write_error + unit) option \<times> string"
where
  "write_turns stall [] deadline remaining = (if remaining = [] then Some (Inr ()) else None, [])"
| "write_turns stall (t # ts) deadline remaining =
     (if remaining = [] then (Some (Inr ()), [])
      else if wt_cancelled t then (Some (Inl WriteError_Cancelled), [])
      else if (case deadline of None \<Rightarrow> False | Some d \<Rightarrow> d \<le> wt_now t)
      then (Some (Inl WriteError_TimedOut), [])
      else
        (case wt_outcome t of
           Write_Wrote n \<Rightarrow>
             if n = 0 then (Some (Inl WriteError_Zero), [])
             else if length remaining < n then (Some (Inl WriteError_TooMany), remaining)
             else
               map_prod id ((@) (take n remaining))
                 (write_turns stall ts
                    (Option.bind stall (instant_checked_add (wt_after t))) (drop n remaining))
         | Write_Interrupted \<Rightarrow> write_turns stall ts deadline remaining
         | Write_WouldBlock polls \<Rightarrow>
             (case wait_until_writable deadline polls of
                None \<Rightarrow> (None, [])
              | Some (Inl e) \<Rightarrow> (Some (Inl e), [])
              | Some (Inr _) \<Rightarrow> write_turns stall ts deadline remaining)
         | Write_Failed e \<Rightarrow> (Some (Inl (WriteError_Io e)), [])))"

text \<open>The call, and what the final flush of the writer returns.\<close>

definition pty_write_all ::
  "duration option \<Rightarrow> instant \<Rightarrow> write_turn list \<Rightarrow> (write_error + unit) \<Rightarrow> string \<Rightarrow>
   (write_error + unit) option \<times> string"
where
  "pty_write_all stall start turns flushed bytes =
     (case write_turns stall turns (Option.bind stall (instant_checked_add start)) bytes of
        (Some (Inr _), written) \<Rightarrow> (Some flushed, written)
      | (r, written) \<Rightarrow> (r, written))"

definition write_payload ::
  "instant \<Rightarrow> write_turn list \<Rightarrow> (write_error + unit) \<Rightarrow> string \<Rightarrow> (write_error + unit) option \<times> string"
where
  "write_payload = pty_write_all (Some PTY_INPUT_WRITE_TIMEOUT)"

definition write_terminal_response ::
  "instant \<Rightarrow> write_turn list \<Rightarrow> (write_error + unit) \<Rightarrow> string \<Rightarrow> (write_error + unit) option \<times> string"
where
  "write_terminal_response = pty_write_all None"

section \<open>Ending a process\<close>

datatype unix_signal = SIGTERM | SIGKILL

record termination_target =
  tt_pid :: "nat option"
  tt_process_group_leader_id :: "int option"

text \<open>Whether the operating system delivers a signal to a group and to a process.\<close>

record signal_os =
  so_killpg :: "int \<Rightarrow> unix_signal \<Rightarrow> bool"
  so_kill :: "nat \<Rightarrow> unix_signal \<Rightarrow> bool"

datatype termination_effect =
    Effect_Killpg int unix_signal
  | Effect_Kill nat unix_signal
  | Effect_Backend_Kill unix_signal
  | Effect_Notify_Killed
  | Effect_Close_Pty
  | Effect_Cancel_Terminate
  | Effect_Stop_Health
  | Effect_Notify_Exited i32

definition target_pid :: "termination_target \<Rightarrow> nat option" where
  "target_pid target =
     (case tt_pid target of
        None \<Rightarrow> None
      | Some pid \<Rightarrow> if pid < 2 ^ 31 then Some pid else None)"

text \<open>\<^verbatim>\<open>signal\<close>: the calls it makes, and whether one of them succeeded.\<close>

definition signal :: "signal_os \<Rightarrow> termination_target \<Rightarrow> unix_signal \<Rightarrow> termination_effect list \<times> bool" where
  "signal os target sig =
     (let to_pid =
            (case target_pid target of
               None \<Rightarrow> ([], False)
             | Some pid \<Rightarrow> ([Effect_Kill pid sig], so_kill os pid sig))
      in case tt_process_group_leader_id target of
           None \<Rightarrow> to_pid
         | Some pgid \<Rightarrow>
             if so_killpg os pgid sig then ([Effect_Killpg pgid sig], True)
             else (Effect_Killpg pgid sig # fst to_pid, snd to_pid))"

text \<open>A signal, or the kill of the terminal library when it cannot be delivered.\<close>

definition signal_or_kill ::
  "signal_os \<Rightarrow> termination_target \<Rightarrow> unix_signal \<Rightarrow> termination_effect list"
where
  "signal_or_kill os target sig =
     (case signal os target sig of
        (calls, ok) \<Rightarrow> if ok then calls else calls @ [Effect_Backend_Kill sig])"

datatype wait_result =
    Wait_Status u32
  | Wait_Failed
  | Wait_Task_Failed

definition exit_code_from_wait :: "wait_result \<Rightarrow> i32" where
  "exit_code_from_wait r =
     (case r of
        Wait_Status code \<Rightarrow> if unat code < 2 ^ 31 then ucast code else 2 ^ 31 - 1
      | _ \<Rightarrow> - 1)"

record termination_timing =
  ti_force_kill_after :: duration
  ti_pty_hangup_after :: duration

record termination_state =
  tm_started :: bool
  tm_escalated :: bool
  tm_kill_deadline :: "instant option"
  tm_pty_hangup_deadline :: "instant option"
  tm_pending_notification :: bool
  tm_pty_shutdown :: bool

definition termination_new :: termination_state where
  "termination_new =
     \<lparr> tm_started = False, tm_escalated = False, tm_kill_deadline = None,
       tm_pty_hangup_deadline = None, tm_pending_notification = False, tm_pty_shutdown = True \<rparr>"

text \<open>
  What a turn of the task sees: the outcome of waiting for the process once it has ended, whether a
  stop was requested, the clock, and whether the event channel takes the notification in time.
\<close>

record observation =
  ob_exited :: "wait_result option"
  ob_cancelled :: bool
  ob_now :: instant
  ob_notified :: bool

definition due :: "instant option \<Rightarrow> instant \<Rightarrow> bool" where
  "due deadline now \<longleftrightarrow> (case deadline of None \<Rightarrow> False | Some d \<Rightarrow> d \<le> now)"

text \<open>One turn: \<^verbatim>\<open>Inl\<close> ends the task. The branches are tried in the order of the biased select.\<close>

definition termination_turn ::
  "signal_os \<Rightarrow> termination_target \<Rightarrow> termination_timing \<Rightarrow> observation \<Rightarrow> termination_state \<Rightarrow>
   (unit + termination_state) \<times> termination_effect list"
where
  "termination_turn os target timing ob tm =
     (case ob_exited ob of
        Some res \<Rightarrow>
          (Inl (),
           [Effect_Cancel_Terminate, Effect_Stop_Health] @
           (if tm_pending_notification tm then [Effect_Notify_Killed] else []) @
           [Effect_Notify_Exited (exit_code_from_wait res)])
      | None \<Rightarrow>
          if ob_cancelled ob \<and> \<not> tm_started tm then
            (Inr (tm\<lparr> tm_started := True, tm_escalated := False,
                     tm_kill_deadline :=
                       Some (case instant_checked_add (ob_now ob) (ti_force_kill_after timing) of
                               None \<Rightarrow> ob_now ob | Some d \<Rightarrow> d),
                     tm_pty_hangup_deadline := None,
                     tm_pending_notification := \<not> ob_notified ob \<rparr>),
             signal_or_kill os target SIGTERM @
             (if ob_notified ob then [Effect_Notify_Killed] else []))
          else if tm_started tm \<and> \<not> tm_escalated tm \<and> due (tm_kill_deadline tm) (ob_now ob) then
            (Inr (tm\<lparr> tm_escalated := True,
                     tm_pty_hangup_deadline := Some (ob_now ob + ti_pty_hangup_after timing) \<rparr>),
             signal_or_kill os target SIGKILL)
          else if due (tm_pty_hangup_deadline tm) (ob_now ob) then
            (Inr (tm\<lparr> tm_pty_shutdown := False, tm_pty_hangup_deadline := None \<rparr>),
             if tm_pty_shutdown tm then [Effect_Close_Pty] else [])
          else (Inr tm, []))"

text \<open>The task: its effects with their times.\<close>

fun termination_task ::
  "signal_os \<Rightarrow> termination_target \<Rightarrow> termination_timing \<Rightarrow> observation list \<Rightarrow> termination_state \<Rightarrow>
   (instant \<times> termination_effect) list"
where
  "termination_task os target timing [] tm = []"
| "termination_task os target timing (ob # obs) tm =
     (case termination_turn os target timing ob tm of
        (next_state, effects) \<Rightarrow>
          map (Pair (ob_now ob)) effects @
          (case next_state of
             Inl _ \<Rightarrow> []
           | Inr tm \<Rightarrow> termination_task os target timing obs tm))"

section \<open>The environment of a process\<close>

definition env_vars_for_service :: "service \<Rightarrow> (string, string) imap" where
  "env_vars_for_service s =
     (if svc_enable_color s
      then fold (\<lambda>(k, v). im_insert k v)
             [(''TERM'', ''xterm-256color''), (''CLICOLOR'', ''1''), (''CLICOLOR_FORCE'', ''1''),
              (''FORCE_COLOR'', ''1'')] (ss_environment (svc_spec s))
      else ss_environment (svc_spec s))"

text \<open>What the process is given: \<^verbatim>\<open>TERM\<close> is always set.\<close>

definition spawn_environment :: "service \<Rightarrow> (string, string) imap" where
  "spawn_environment s =
     (let env = env_vars_for_service s in
      if im_contains env ''TERM'' then env else im_insert ''TERM'' ''xterm-256color'' env)"

end
