(* ===== verification/Pty_Process_Facts.thy ===== *)
theory Pty_Process_Facts
  imports Pty_Process
begin

text \<open>
  What holds of the writer and the termination task: what reaches the terminal is a prefix of the
  payload, and a stop follows its protocol.
\<close>

section \<open>Writing\<close>

lemma write_turns_prefix:
  "write_turns stall ts deadline bytes = (r, written) \<Longrightarrow>
   prefix written bytes \<and> (r = Some (Inr ()) \<longrightarrow> written = bytes)"
proof (induction stall ts deadline bytes arbitrary: r written rule: write_turns.induct)
  case (2 stall t ts deadline remaining)
  show ?case
  proof (cases "\<exists>n. wt_outcome t = Write_Wrote n \<and> n \<noteq> 0 \<and> n \<le> length remaining \<and> remaining \<noteq> [] \<and>
      \<not> wt_cancelled t \<and> \<not> (case deadline of None \<Rightarrow> False | Some d \<Rightarrow> d \<le> wt_now t)")
    case True
    then obtain n where n: "wt_outcome t = Write_Wrote n" "n \<noteq> 0" "n \<le> length remaining" "remaining \<noteq> []"
      "\<not> wt_cancelled t" "\<not> (case deadline of None \<Rightarrow> False | Some d \<Rightarrow> d \<le> wt_now t)" by blast
    let ?d = "Option.bind stall (instant_checked_add (wt_after t))"
    obtain w where w: "write_turns stall ts ?d (drop n remaining) = (r, w)" "written = take n remaining @ w"
      using 2(4) n by (cases "write_turns stall ts ?d (drop n remaining)") auto
    have "prefix w (drop n remaining) \<and> (r = Some (Inr ()) \<longrightarrow> w = drop n remaining)"
      using 2(1) n w(1) by auto
    then show ?thesis unfolding w(2)
      by (metis append_take_drop_id same_prefix_prefix)
  next
    case False
    then show ?thesis
      using 2(2-4) by (auto split: if_splits write_outcome.splits option.splits sum.splits)
  qed
qed (auto split: if_splits)

text \<open>
  What reaches the terminal is a prefix of the payload, and all of it when the write succeeds.
\<close>

theorem pty_write_prefix:
  assumes "pty_write_all stall start turns flushed bytes = (r, written)"
  shows "prefix written bytes \<and> (r = Some (Inr ()) \<longrightarrow> written = bytes)"
proof -
  obtain r0 w where w: "write_turns stall turns (Option.bind stall (instant_checked_add start)) bytes = (r0, w)"
    by (cases "write_turns stall turns (Option.bind stall (instant_checked_add start)) bytes")
  then have "written = w" "r = Some (Inr ()) \<longrightarrow> r0 = Some (Inr ())"
    using assms by (auto simp: pty_write_all_def split: option.splits sum.splits)
  with write_turns_prefix [OF w] show ?thesis by simp
qed

theorem pty_write_prefix_witness:
  "\<exists>r w. pty_write_all None 0 [\<lparr> wt_cancelled = False, wt_now = 0, wt_outcome = Write_Wrote 2, wt_after = 0 \<rparr>,
       \<lparr> wt_cancelled = True, wt_now = 0, wt_outcome = Write_Wrote 1, wt_after = 0 \<rparr>] (Inr ()) ''abc'' = (r, w) \<and>
     r \<noteq> Some (Inr ()) \<and> prefix w ''abc'' \<and> length w = 2"
proof -
  have run: "pty_write_all None 0 [\<lparr> wt_cancelled = False, wt_now = 0, wt_outcome = Write_Wrote 2, wt_after = 0 \<rparr>,
       \<lparr> wt_cancelled = True, wt_now = 0, wt_outcome = Write_Wrote 1, wt_after = 0 \<rparr>] (Inr ()) ''abc''
     = (Some (Inl WriteError_Cancelled), ''ab'')"
    by (simp add: pty_write_all_def numeral_2_eq_2)
  from pty_write_prefix [OF run] run show ?thesis by simp
qed

section \<open>Termination\<close>

fun effect_signal :: "termination_effect \<Rightarrow> unix_signal option" where
  "effect_signal (Effect_Killpg _ sig) = Some sig"
| "effect_signal (Effect_Kill _ sig) = Some sig"
| "effect_signal (Effect_Backend_Kill sig) = Some sig"
| "effect_signal _ = None"

lemma signal_or_kill_signals:
  "signal_or_kill os target sig \<noteq> []" "e \<in> set (signal_or_kill os target sig) \<Longrightarrow> effect_signal e = Some sig"
  by (auto simp: signal_or_kill_def signal_def Let_def split: option.splits if_splits prod.splits)

lemma signal_or_kill_some: "\<exists>e \<in> set (signal_or_kill os target sig). effect_signal e = Some sig"
  using signal_or_kill_signals(1) [of os target sig] signal_or_kill_signals(2) [of _ os target sig]
  by (cases "signal_or_kill os target sig") auto

definition sent :: "unix_signal \<Rightarrow> instant \<Rightarrow> (instant \<times> termination_effect) list \<Rightarrow> bool" where
  "sent sig t trace \<longleftrightarrow> (\<exists>e. (t, e) \<in> set trace \<and> effect_signal e = Some sig)"

definition kill_deadline :: "termination_timing \<Rightarrow> instant \<Rightarrow> instant" where
  "kill_deadline timing t0 =
     (case instant_checked_add t0 (ti_force_kill_after timing) of None \<Rightarrow> t0 | Some d \<Rightarrow> d)"

definition notifications :: "(instant \<times> termination_effect) list \<Rightarrow> termination_effect list" where
  "notifications trace =
     filter (\<lambda>e. e = Effect_Notify_Killed \<or> (\<exists>code. e = Effect_Notify_Exited code)) (map snd trace)"

lemma due_simps [simp]: "due None t = False" "due (Some d) t \<longleftrightarrow> d \<le> t"
  by (simp_all add: due_def)

text \<open>The kinds of turns.\<close>

lemma termination_turn_cases:
  obtains (exited) res where "ob_exited ob = Some res"
      "termination_turn os target timing ob tm =
         (Inl (), [Effect_Cancel_Terminate, Effect_Stop_Health] @
           (if tm_pending_notification tm then [Effect_Notify_Killed] else []) @
           [Effect_Notify_Exited (exit_code_from_wait res)])"
    | (stop) "ob_exited ob = None" "\<not> tm_started tm" "ob_cancelled ob"
      "termination_turn os target timing ob tm =
         (Inr \<lparr> tm_started = True, tm_escalated = False,
                tm_kill_deadline = Some (kill_deadline timing (ob_now ob)), tm_pty_hangup_deadline = None,
                tm_pending_notification = (\<not> ob_notified ob), tm_pty_shutdown = tm_pty_shutdown tm \<rparr>,
          signal_or_kill os target SIGTERM @ (if ob_notified ob then [Effect_Notify_Killed] else []))"
    | (escalate) "ob_exited ob = None" "tm_started tm" "\<not> tm_escalated tm"
      "due (tm_kill_deadline tm) (ob_now ob)"
      "termination_turn os target timing ob tm =
         (Inr (tm\<lparr> tm_escalated := True,
                  tm_pty_hangup_deadline := Some (ob_now ob + ti_pty_hangup_after timing) \<rparr>),
          signal_or_kill os target SIGKILL)"
    | (hangup) "ob_exited ob = None" "\<not> (ob_cancelled ob \<and> \<not> tm_started tm)" "due (tm_pty_hangup_deadline tm) (ob_now ob)"
      "termination_turn os target timing ob tm =
         (Inr (tm\<lparr> tm_pty_shutdown := False, tm_pty_hangup_deadline := None \<rparr>),
          if tm_pty_shutdown tm then [Effect_Close_Pty] else [])"
    | (idle) "ob_exited ob = None"
      "\<not> (tm_started tm \<and> \<not> tm_escalated tm \<and> due (tm_kill_deadline tm) (ob_now ob))"
      "\<not> (ob_cancelled ob \<and> \<not> tm_started tm)"
      "termination_turn os target timing ob tm = (Inr tm, [])"
proof -
  consider (a) res where "ob_exited ob = Some res"
    | (b) "ob_exited ob = None" "ob_cancelled ob \<and> \<not> tm_started tm"
    | (c) "ob_exited ob = None" "tm_started tm \<and> \<not> tm_escalated tm \<and> due (tm_kill_deadline tm) (ob_now ob)"
    | (d) "ob_exited ob = None" "\<not> (ob_cancelled ob \<and> \<not> tm_started tm)"
        "\<not> (tm_started tm \<and> \<not> tm_escalated tm \<and> due (tm_kill_deadline tm) (ob_now ob))"
        "due (tm_pty_hangup_deadline tm) (ob_now ob)"
    | (e) "ob_exited ob = None" "\<not> (ob_cancelled ob \<and> \<not> tm_started tm)"
        "\<not> (tm_started tm \<and> \<not> tm_escalated tm \<and> due (tm_kill_deadline tm) (ob_now ob))"
        "\<not> due (tm_pty_hangup_deadline tm) (ob_now ob)"
    by (cases "ob_exited ob") auto
  then show thesis
  proof cases
    case a
    then show thesis by (intro exited) (simp_all add: termination_turn_def)
  next
    case b
    then show thesis by (intro stop) (simp_all add: termination_turn_def kill_deadline_def)
  next
    case c
    then show thesis by (intro escalate) (simp_all add: termination_turn_def)
  next
    case d
    then show thesis by (intro hangup) (simp_all only: termination_turn_def option.case if_False simp_thms if_True)
  next
    case e
    then show thesis by (intro idle) (simp_all only: termination_turn_def option.case if_False simp_thms)
  qed
qed

lemma sent_append: "sent sig t (xs @ ys) \<longleftrightarrow> sent sig t xs \<or> sent sig t ys"
  by (auto simp: sent_def)

lemma sent_signal_or_kill:
  "sent sig t (map (Pair now) (signal_or_kill os target sig')) \<longleftrightarrow> t = now \<and> sig = sig'"
  using signal_or_kill_some [of os target sig'] signal_or_kill_signals(2) [of _ os target sig']
  by (auto simp: sent_def)

lemma sent_other [simp]:
  "\<not> sent sig t []" "sent sig t ((now, Effect_Notify_Killed) # xs) = sent sig t xs"
  "sent sig t ((now, Effect_Close_Pty) # xs) = sent sig t xs"
  "sent sig t ((now, Effect_Cancel_Terminate) # xs) = sent sig t xs"
  "sent sig t ((now, Effect_Stop_Health) # xs) = sent sig t xs"
  "sent sig t ((now, Effect_Notify_Exited c) # xs) = sent sig t xs"
  by (auto simp: sent_def)

text \<open>Induction over the turns, on the trace that is left.\<close>

lemma task_induct [case_names none exited continues]:
  assumes "\<And>tm. R tm []"
    and "\<And>ob tm es. termination_turn os target timing ob tm = (Inl (), es) \<Longrightarrow>
      R tm (map (Pair (ob_now ob)) es)"
    and "\<And>ob tm tm' es trace. termination_turn os target timing ob tm = (Inr tm', es) \<Longrightarrow>
      R tm' trace \<Longrightarrow> R tm (map (Pair (ob_now ob)) es @ trace)"
  shows "R tm (termination_task os target timing obs tm)"
  by (induction obs arbitrary: tm) (auto simp: assms split: prod.split sum.split)

definition kill_after :: "termination_timing \<Rightarrow> termination_state \<Rightarrow> (instant \<times> termination_effect) list \<Rightarrow> bool" where
  "kill_after timing tm trace \<longleftrightarrow>
     (\<forall>t. sent SIGKILL t trace \<longrightarrow>
        tm_started tm \<and> due (tm_kill_deadline tm) t \<or>
        (\<exists>t0. sent SIGTERM t0 trace \<and> kill_deadline timing t0 \<le> t))"

lemma kill_after_task: "kill_after timing tm (termination_task os target timing obs tm)"
proof (induction rule: task_induct [of "kill_after timing" os target timing])
  case (exited ob tm es)
  then show ?case
    by (cases rule: termination_turn_cases [of ob os target timing tm]) (auto simp: kill_after_def split: if_splits)
next
  case (continues ob tm tm' es trace)
  then show ?case
    by (cases rule: termination_turn_cases [of ob os target timing tm])
       (auto simp: kill_after_def sent_append sent_signal_or_kill split: if_splits, blast+)
qed (simp add: kill_after_def)

definition close_after :: "termination_timing \<Rightarrow> termination_state \<Rightarrow> (instant \<times> termination_effect) list \<Rightarrow> bool" where
  "close_after timing tm trace \<longleftrightarrow>
     (\<forall>t. (t, Effect_Close_Pty) \<in> set trace \<longrightarrow>
        due (tm_pty_hangup_deadline tm) t \<or>
        (\<exists>t1. sent SIGKILL t1 trace \<and> t1 + ti_pty_hangup_after timing \<le> t))"

lemma no_close_signal: "Effect_Close_Pty \<notin> set (signal_or_kill os target sig)"
  using signal_or_kill_signals(2) [of Effect_Close_Pty os target sig] by auto

lemma close_after_task: "close_after timing tm (termination_task os target timing obs tm)"
proof (induction rule: task_induct [of "close_after timing" os target timing])
  case (exited ob tm es)
  then show ?case
    by (cases rule: termination_turn_cases [of ob os target timing tm]) (auto simp: close_after_def split: if_splits)
next
  case (continues ob tm tm' es trace)
  then show ?case
    by (cases rule: termination_turn_cases [of ob os target timing tm])
       (auto simp: close_after_def sent_append sent_signal_or_kill no_close_signal split: if_splits,
        blast+)
qed (simp add: close_after_def)

text \<open>The notifications, given whether one is still owed and whether the stop has started.\<close>

definition notified_in_order :: "termination_state \<Rightarrow> (instant \<times> termination_effect) list \<Rightarrow> bool" where
  "notified_in_order tm trace \<longleftrightarrow>
     (if tm_started tm
      then notifications trace = [] \<or>
        (\<exists>code. notifications trace =
           (if tm_pending_notification tm then [Effect_Notify_Killed, Effect_Notify_Exited code]
            else [Effect_Notify_Exited code]))
      else
        (\<exists>code. notifications trace \<in>
           {[], [Effect_Notify_Killed], [Effect_Notify_Exited code],
            [Effect_Notify_Killed, Effect_Notify_Exited code]}) \<and>
        ((\<exists>t. sent SIGTERM t trace) \<longrightarrow> (\<forall>code. notifications trace \<noteq> [Effect_Notify_Exited code])))"

lemma notifications_append: "notifications (xs @ ys) = notifications xs @ notifications ys"
  by (simp add: notifications_def)

lemma notifications_signal: "notifications (map (Pair now) (signal_or_kill os target sig)) = []"
  using signal_or_kill_signals(2) [of _ os target sig]
  by (fastforce simp: notifications_def filter_empty_conv)

lemma notifications_simps [simp]:
  "notifications [] = []" "notifications ((t, Effect_Notify_Killed) # xs) = Effect_Notify_Killed # notifications xs"
  "notifications ((t, Effect_Notify_Exited c) # xs) = Effect_Notify_Exited c # notifications xs"
  "notifications ((t, Effect_Close_Pty) # xs) = notifications xs"
  "notifications ((t, Effect_Cancel_Terminate) # xs) = notifications xs"
  "notifications ((t, Effect_Stop_Health) # xs) = notifications xs"
  by (simp_all add: notifications_def)

definition pending_started :: "termination_state \<Rightarrow> bool" where
  "pending_started tm \<longleftrightarrow> (tm_pending_notification tm \<longrightarrow> tm_started tm)"

lemma notified_in_order_task:
  assumes "pending_started tm"
  shows "notified_in_order tm (termination_task os target timing obs tm)"
proof -
  have "pending_started tm \<longrightarrow> notified_in_order tm (termination_task os target timing obs tm)"
  proof (induction rule: task_induct
      [of "\<lambda>tm trace. pending_started tm \<longrightarrow> notified_in_order tm trace" os target timing])
    case (exited ob tm es)
    then show ?case
      by (cases rule: termination_turn_cases [of ob os target timing tm])
         (auto simp: notified_in_order_def pending_started_def split: if_splits)
  next
    case (continues ob tm tm' es trace)
    then show ?case
      by (cases rule: termination_turn_cases [of ob os target timing tm])
         (auto simp: notified_in_order_def pending_started_def notifications_append notifications_signal
           sent_append sent_signal_or_kill split: if_splits)
  qed (simp add: notified_in_order_def)
  with assms show ?thesis by simp
qed

text \<open>The trace of the task from its start.\<close>

definition stop_trace ::
  "signal_os \<Rightarrow> termination_target \<Rightarrow> termination_timing \<Rightarrow> observation list \<Rightarrow>
   (instant \<times> termination_effect) list"
where
  "stop_trace os target timing obs = termination_task os target timing obs termination_new"

text \<open>
  C27. A stop follows its protocol: the process is killed only after its grace period counted from the
  request to terminate, the terminal is closed only two seconds (the configured delay) after the
  kill, and the scheduler hears at most once that the process was killed and then once that it
  exited, in this order, never an exit alone after a stop.
\<close>

theorem termination_protocol:
  "(\<forall>t. sent SIGKILL t (stop_trace os target timing obs) \<longrightarrow>
      (\<exists>t0. sent SIGTERM t0 (stop_trace os target timing obs) \<and> kill_deadline timing t0 \<le> t)) \<and>
   (\<forall>t. (t, Effect_Close_Pty) \<in> set (stop_trace os target timing obs) \<longrightarrow>
      (\<exists>t1. sent SIGKILL t1 (stop_trace os target timing obs) \<and> t1 + ti_pty_hangup_after timing \<le> t)) \<and>
   (\<exists>code. notifications (stop_trace os target timing obs) \<in>
      {[], [Effect_Notify_Killed], [Effect_Notify_Exited code],
       [Effect_Notify_Killed, Effect_Notify_Exited code]}) \<and>
   ((\<exists>t. sent SIGTERM t (stop_trace os target timing obs)) \<longrightarrow>
      (\<forall>code. notifications (stop_trace os target timing obs) \<noteq> [Effect_Notify_Exited code]))"
proof -
  have "pending_started termination_new" by (simp add: pending_started_def termination_new_def)
  from notified_in_order_task [OF this, of os target timing obs]
    kill_after_task [of timing termination_new os target obs]
    close_after_task [of timing termination_new os target obs]
  show ?thesis
    by (simp add: stop_trace_def kill_after_def close_after_def notified_in_order_def termination_new_def due_def)
qed

definition runs_on ::
  "signal_os \<Rightarrow> termination_target \<Rightarrow> termination_timing \<Rightarrow> observation list \<Rightarrow> termination_state \<Rightarrow>
   termination_state \<Rightarrow> bool"
where
  "runs_on os target timing xs tm tm' \<longleftrightarrow>
     (\<forall>zs. termination_task os target timing (xs @ zs) tm =
        termination_task os target timing xs tm @ termination_task os target timing zs tm') \<and>
     (tm_started tm \<longrightarrow> tm_started tm' \<and> tm_kill_deadline tm' = tm_kill_deadline tm) \<and>
     (\<not> tm_started tm \<longrightarrow> tm_started tm' \<longrightarrow>
        (\<exists>ob \<in> set xs. tm_kill_deadline tm' = Some (kill_deadline timing (ob_now ob)))) \<and>
     ((\<exists>ob \<in> set xs. ob_cancelled ob) \<longrightarrow> tm_started tm') \<and>
     (tm_escalated tm' \<longrightarrow> tm_escalated tm \<or> (\<exists>t. sent SIGKILL t (termination_task os target timing xs tm)))"

lemma no_exit:
  assumes "\<forall>ob \<in> set xs. ob_exited ob = None"
  shows "\<exists>tm'. runs_on os target timing xs tm tm'"
  using assms
proof (induction xs arbitrary: tm)
  case (Cons ob xs)
  obtain tm1 es where turn: "termination_turn os target timing ob tm = (Inr tm1, es)"
    and started: "tm_started tm \<longrightarrow> tm_started tm1 \<and> tm_kill_deadline tm1 = tm_kill_deadline tm"
    and stop: "\<not> tm_started tm \<longrightarrow>
      tm_started tm1 = ob_cancelled ob \<and>
      (tm_started tm1 \<longrightarrow> tm_kill_deadline tm1 = Some (kill_deadline timing (ob_now ob)))"
    and escalated: "tm_escalated tm1 \<longrightarrow> tm_escalated tm \<or> sent SIGKILL (ob_now ob) (map (Pair (ob_now ob)) es)"
    using Cons.prems
    by (cases rule: termination_turn_cases [of ob os target timing tm])
       (auto simp: sent_signal_or_kill)
  from Cons.IH [of tm1] Cons.prems obtain tm' where tm':
    "\<forall>zs. termination_task os target timing (xs @ zs) tm1 =
        termination_task os target timing xs tm1 @ termination_task os target timing zs tm'"
    "tm_started tm1 \<longrightarrow> tm_started tm' \<and> tm_kill_deadline tm' = tm_kill_deadline tm1"
    "\<not> tm_started tm1 \<longrightarrow> tm_started tm' \<longrightarrow>
       (\<exists>ob \<in> set xs. tm_kill_deadline tm' = Some (kill_deadline timing (ob_now ob)))"
    "(\<exists>ob \<in> set xs. ob_cancelled ob) \<longrightarrow> tm_started tm'"
    "tm_escalated tm' \<longrightarrow> tm_escalated tm1 \<or> (\<exists>t. sent SIGKILL t (termination_task os target timing xs tm1))"
    by (auto simp: runs_on_def)
  show ?case unfolding runs_on_def
  proof (intro exI conjI)
    show "\<forall>zs. termination_task os target timing ((ob # xs) @ zs) tm =
        termination_task os target timing (ob # xs) tm @ termination_task os target timing zs tm'"
      using tm'(1) by (simp add: turn)
  qed (use tm'(2-) started stop escalated in \<open>auto simp: turn sent_append\<close>)
qed (auto simp: runs_on_def)

text \<open>
  A stop never hangs on the process: once the task has seen the request and looks again after
  the grace period, the process has been killed.
\<close>

theorem termination_escalates:
  assumes "\<forall>ob \<in> set (xs @ y # ys @ [z]). ob_exited ob = None"
    and "ob_cancelled y" and "\<forall>x \<in> set xs. ob_now x \<le> ob_now y"
    and "ob_now y + ti_force_kill_after timing \<le> ob_now z"
  shows "\<exists>t. sent SIGKILL t (termination_task os target timing (xs @ y # ys @ [z]) termination_new)"
proof -
  let ?task = "termination_task os target timing"
  have "\<forall>ob \<in> set (xs @ [y]). ob_exited ob = None" using assms(1) by auto
  from no_exit [OF this] obtain tm1 where r1: "runs_on os target timing (xs @ [y]) termination_new tm1" by blast
  have new: "\<not> tm_started termination_new" "\<not> tm_escalated termination_new"
    by (simp_all add: termination_new_def)
  have tm1: "?task ((xs @ [y]) @ zs) termination_new = ?task (xs @ [y]) termination_new @ ?task zs tm1" for zs
    using r1 unfolding runs_on_def by blast
  have started1: "tm_started tm1" using r1 assms(2) unfolding runs_on_def by auto
  then obtain ob where ob: "ob \<in> set (xs @ [y])" "tm_kill_deadline tm1 = Some (kill_deadline timing (ob_now ob))"
    using r1 new(1) unfolding runs_on_def by blast
  have esc1: "tm_escalated tm1 \<Longrightarrow> \<exists>t. sent SIGKILL t (?task (xs @ [y]) termination_new)"
    using r1 new(2) unfolding runs_on_def by blast
  have "\<forall>ob \<in> set ys. ob_exited ob = None" using assms(1) by auto
  from no_exit [OF this] obtain tm2 where r2: "runs_on os target timing ys tm1 tm2" by blast
  have tm2: "?task (ys @ zs) tm1 = ?task ys tm1 @ ?task zs tm2" for zs
    using r2 unfolding runs_on_def by blast
  have started2: "tm_started tm2" "tm_kill_deadline tm2 = tm_kill_deadline tm1"
    using r2 started1 unfolding runs_on_def by blast+
  have esc2: "tm_escalated tm2 \<Longrightarrow> tm_escalated tm1 \<or> (\<exists>t. sent SIGKILL t (?task ys tm1))"
    using r2 unfolding runs_on_def by blast
  have trace: "?task (xs @ y # ys @ [z]) termination_new =
      ?task (xs @ [y]) termination_new @ ?task ys tm1 @ ?task [z] tm2"
    using tm1 [of "ys @ [z]"] tm2 [of "[z]"] by simp
  show ?thesis
  proof (cases "tm_escalated tm2")
    case True
    then show ?thesis using esc1 esc2 by (auto simp: trace sent_append)
  next
    case False
    have "ob_now ob \<le> ob_now y" using ob(1) assms(3) by auto
    then have "kill_deadline timing (ob_now ob) \<le> ob_now z"
      using assms(4) by (auto simp: kill_deadline_def instant_checked_add_def split: option.splits if_splits)
    then have "termination_turn os target timing z tm2 = (Inr (tm2\<lparr> tm_escalated := True,
        tm_pty_hangup_deadline := Some (ob_now z + ti_pty_hangup_after timing) \<rparr>),
        signal_or_kill os target SIGKILL)"
      using False started2 ob(2) assms(1) by (simp add: termination_turn_def due_def)
    then have "sent SIGKILL (ob_now z) (?task [z] tm2)" by (simp add: sent_signal_or_kill)
    then show ?thesis by (auto simp: trace sent_append)
  qed
qed

definition sample_target :: termination_target where
  "sample_target = \<lparr> tt_pid = Some 42, tt_process_group_leader_id = Some 42 \<rparr>"

definition sample_timing :: termination_timing where
  "sample_timing = \<lparr> ti_force_kill_after = 5, ti_pty_hangup_after = 2 \<rparr>"

definition sample_os :: signal_os where
  "sample_os = \<lparr> so_killpg = (\<lambda>_ _. True), so_kill = (\<lambda>_ _. True) \<rparr>"

definition look :: "bool \<Rightarrow> instant \<Rightarrow> observation" where
  "look cancelled now =
     \<lparr> ob_exited = None, ob_cancelled = cancelled, ob_now = now, ob_notified = True \<rparr>"

theorem termination_protocol_witness:
  "(\<exists>t0. sent SIGTERM t0 (stop_trace sample_os sample_target sample_timing [look True 1, look True 6, look True 8]) \<and>
      kill_deadline sample_timing t0 \<le> 6) \<and>
   (\<exists>t1. sent SIGKILL t1 (stop_trace sample_os sample_target sample_timing [look True 1, look True 6, look True 8]) \<and>
      t1 + 2 \<le> (8 :: nat))"
proof -
  have trace: "stop_trace sample_os sample_target sample_timing [look True 1, look True 6, look True 8] =
      [(1, Effect_Killpg 42 SIGTERM), (1, Effect_Notify_Killed), (6, Effect_Killpg 42 SIGKILL),
       (8, Effect_Close_Pty)]"
    by (simp add: stop_trace_def termination_turn_def termination_new_def look_def signal_or_kill_def signal_def
        sample_os_def sample_target_def sample_timing_def instant_checked_add_def INSTANT_MAX_def)
  have "sent SIGKILL 6 (stop_trace sample_os sample_target sample_timing [look True 1, look True 6, look True 8])"
    and "(8, Effect_Close_Pty) \<in> set (stop_trace sample_os sample_target sample_timing [look True 1, look True 6, look True 8])"
    unfolding trace by (auto simp: sent_def)
  with termination_protocol [of sample_os sample_target sample_timing "[look True 1, look True 6, look True 8]"]
  show ?thesis by (simp add: sample_timing_def) blast
qed

theorem termination_escalates_witness:
  "\<exists>t. sent SIGKILL t (termination_task sample_os sample_target sample_timing
     ([] @ look True 1 # [] @ [look True 6]) termination_new)"
  by (rule termination_escalates) (simp_all add: look_def sample_timing_def)

end
