(* ===== verification/Health_Output.thy ===== *)
theory Health_Output
  imports Session_Model Pty_Filter
begin

text \<open>
  The output of a health probe (\<^verbatim>\<open>src/crates/micromux/src/health_check.rs\<close>): the reader that turns
  the bytes of a pipe into lines of bounded length, whatever the pieces the pipe delivers them in.
\<close>

section \<open>Reading a line\<close>

text \<open>
  What the next calls of \<^verbatim>\<open>fill_buf\<close> and the pipe behind it deliver: an error or a piece of the
  output. An empty piece and the end of the list are the end of the output. The part of a piece
  that a line leaves ks the next piece, as \<^verbatim>\<open>BufReader::consume\<close> has it.
\<close>

type_synonym reads = "(string + string) list"

definition CAPTURE_LIMIT :: usize where
  "CAPTURE_LIMIT = usize_saturating_add MODEL_STRING_MAX_BYTES 3"

text \<open>Where the first line of a piece ends: past its line feed, or at the end of the piece.\<close>

definition line_end :: "string \<Rightarrow> nat" where
  "line_end available =
     (let n = length (takeWhile (\<lambda>b. b \<noteq> LF) available)
      in if n < length available then n + 1 else length available)"

text \<open>A piece that does not end the line ks consumed whole.\<close>

fun read_line_bytes :: "reads \<Rightarrow> string \<Rightarrow> bool \<Rightarrow> (string + string option) \<times> reads" where
  "read_line_bytes [] line saw_input = (Inr (if saw_input then Some line else None), [])"
| "read_line_bytes (Inl err # rs) line saw_input = (Inl err, rs)"
| "read_line_bytes (Inr available # rs) line saw_input =
     (if available = [] then (Inr (if saw_input then Some line else None), rs)
      else
        let n = line_end available;
            line = line @ take (min n (CAPTURE_LIMIT - length line)) available
        in if available ! (n - 1) = LF
           then (Inr (Some line), if n < length available then Inr (drop n available) # rs else rs)
           else read_line_bytes rs line True)"

definition pop_lf :: "string \<Rightarrow> string" where
  "pop_lf line = (if line \<noteq> [] \<and> last line = LF then butlast line else line)"

definition line_text :: "string \<Rightarrow> string" where
  "line_text line =
     truncate_to_first_bytes (utf8_lossy (strip_cr (pop_lf line))) MODEL_STRING_MAX_BYTES"

definition read_bounded_line :: "reads \<Rightarrow> (string + string option) \<times> reads" where
  "read_bounded_line rs =
     (case read_line_bytes rs [] False of
        (Inl err, rs) \<Rightarrow> (Inl err, rs)
      | (Inr line, rs) \<Rightarrow> (Inr (map_option line_text line), rs))"

section \<open>The reader task\<close>

definition reads_left :: "reads \<Rightarrow> nat" where
  "reads_left rs = sum_list (map (\<lambda>r. case r of Inl _ \<Rightarrow> 1 | Inr c \<Rightarrow> Suc (length c)) rs)"

lemma reads_left_simps [simp]:
  "reads_left [] = 0"
  "reads_left (Inl err # rs) = Suc (reads_left rs)"
  "reads_left (Inr c # rs) = Suc (length c + reads_left rs)"
  by (simp_all add: reads_left_def)

lemma line_end_bounds:
  "available \<noteq> [] \<Longrightarrow> 0 < line_end available \<and> line_end available \<le> length available"
  by (auto simp: line_end_def Let_def)

lemma read_line_bytes_left:
  "read_line_bytes rs line saw = (r, rs') \<Longrightarrow> reads_left rs' \<le> reads_left rs \<and>
   (rs \<noteq> [] \<longrightarrow> reads_left rs' < reads_left rs)"
proof (induction rs line saw arbitrary: r rs' rule: read_line_bytes.induct)
  case (3 available rs line saw)
  have "0 < line_end available" if "available \<noteq> []"
    using line_end_bounds [OF that] by simp
  with 3 show ?case
    by (fastforce simp: Let_def split: if_splits)
qed auto

lemma read_bounded_line_left:
  assumes "read_bounded_line rs = (r, rs')" "r \<noteq> Inr None"
  shows "reads_left rs' < reads_left rs"
proof -
  obtain q where q: "read_line_bytes rs [] False = (q, rs')"
    using assms(1) by (auto simp: read_bounded_line_def split: prod.splits sum.splits)
  have "q \<noteq> Inr None"
    using assms q by (auto simp: read_bounded_line_def)
  with q have "rs \<noteq> []"
    by auto
  with q show ?thesis
    using read_line_bytes_left by blast
qed

text \<open>The lines \<^verbatim>\<open>spawn_output_task\<close> hands to the sink until the output ends.\<close>

function output_lines :: "reads \<Rightarrow> string list" where
  "output_lines rs =
     (case read_bounded_line rs of
        (Inr (Some line), rs) \<Rightarrow> line # output_lines rs
      | (Inr None, _) \<Rightarrow> []
      | (Inl err, rs) \<Rightarrow> output_lines rs)"
  by pat_completeness auto
termination
  by (relation "measure reads_left") (auto dest: read_bounded_line_left [OF sym])

declare output_lines.simps [simp del]

section \<open>The reference: whole lines, shortened\<close>

text \<open>The lines of an output, each with its line feed, and the text of one with no limit but the
  bound on model strings.\<close>

fun raw_lines :: "string \<Rightarrow> string \<Rightarrow> string list" where
  "raw_lines line [] = (if line = [] then [] else [line])"
| "raw_lines line (c # cs) =
     (if c = LF then (line @ [LF]) # raw_lines [] cs else raw_lines (line @ [c]) cs)"

declare no_cont_ascii [simp del]

subsection \<open>The limit on captured bytes does not show\<close>

lemma utf8_unit_append:
  assumes "p \<noteq> []"
  shows "utf8_unit (p @ t) = utf8_unit p \<or> utf8_unit p = (False, length p) \<and> length p \<le> 3"
proof -
  obtain a p1 where p: "p = a # p1" using assms by (cases p) auto
  show ?thesis
  proof (cases p1)
    case Nil
    then show ?thesis by (auto simp: p)
  next
    case (Cons b p2)
    note p = p this
    show ?thesis
    proof (cases p2)
      case Nil
      then show ?thesis by (auto simp: p)
    next
      case (Cons c p3)
      note p = p this
      show ?thesis by (cases p3) (auto simp: p)
    qed
  qed
qed

lemma utf8_unit_length: "s \<noteq> [] \<Longrightarrow> snd (utf8_unit s) \<le> length s"
  by (cases s) (auto split: list.splits)

lemma utf8_unit_bad: "s \<noteq> [] \<Longrightarrow> \<not> fst (utf8_unit s) \<Longrightarrow> snd (utf8_unit s) \<le> 3"
  by (cases s) (auto split: list.splits if_splits)

lemma CR_not_cont [simp]: "\<not> utf8_cont CR" "\<not> utf8_second a CR"
  "(of_char CR :: nat) = 13"
  by (auto simp: utf8_cont_def CR_def utf8_second_def between_def)

lemma utf8_unit_append_CR:
  assumes "p \<noteq> []"
  shows "utf8_unit (p @ CR # t) = utf8_unit p"
proof -
  obtain a p1 where p: "p = a # p1" using assms by (cases p) auto
  show ?thesis
  proof (cases p1)
    case Nil
    then show ?thesis by (auto simp: p)
  next
    case (Cons b p2)
    note p = p this
    show ?thesis
    proof (cases p2)
      case Nil
      then show ?thesis by (auto simp: p)
    next
      case (Cons c p3)
      note p = p this
      show ?thesis by (cases p3) (auto simp: p)
    qed
  qed
qed

lemma utf8_lossy_Nil [simp]: "utf8_lossy [] = []"
  by (simp add: utf8_lossy.simps)

lemma utf8_lossy_unit:
  "s \<noteq> [] \<Longrightarrow> utf8_lossy s =
     (if fst (utf8_unit s) then take (snd (utf8_unit s)) s else REPLACEMENT_CHARACTER) @
     utf8_lossy (drop (snd (utf8_unit s)) s)"
  by (simp add: utf8_lossy.simps [of s] split_beta)

lemma utf8_lossy_length: "length s \<le> length (utf8_lossy s)"
proof (induction s rule: length_induct)
  case (1 s)
  show ?case
  proof (cases "s = []")
    case False
    let ?n = "snd (utf8_unit s)"
    have n: "0 < ?n" "?n \<le> length s"
      using False by (simp_all add: utf8_unit_pos utf8_unit_length)
    have "length (drop ?n s) \<le> length (utf8_lossy (drop ?n s))"
      using 1 n False by (metis diff_less length_drop length_greater_0_conv)
    moreover have "?n \<le> 3" if "\<not> fst (utf8_unit s)"
      using utf8_unit_bad [OF False that] .
    ultimately show ?thesis
      using n by (auto simp: utf8_lossy_unit [OF False] REPLACEMENT_CHARACTER_def bytes_def)
  qed simp
qed

lemma utf8_lossy_starts: "utf8_lossy s = [] \<or> \<not> utf8_cont (hd (utf8_lossy s))"
proof (cases s)
  case (Cons a t)
  have "\<not> utf8_cont a" if "fst (utf8_unit s)"
    using that by (auto simp: Cons utf8_cont_def between_def Let_def split: if_splits list.splits)
  moreover have "\<not> utf8_cont (hd REPLACEMENT_CHARACTER)" "REPLACEMENT_CHARACTER \<noteq> []"
    by (simp_all add: REPLACEMENT_CHARACTER_def bytes_def utf8_cont_def)
  moreover have "0 < snd (utf8_unit s)"
    using utf8_unit_pos [of s] Cons by simp
  ultimately show ?thesis
    using Cons by (simp add: utf8_lossy_unit hd_append)
qed simp

lemma utf8_lossy_append_CR: "utf8_lossy (p @ CR # t) = utf8_lossy p @ utf8_lossy (CR # t)"
proof (induction p rule: length_induct)
  case (1 p)
  show ?case
  proof (cases "p = []")
    case False
    let ?n = "snd (utf8_unit p)"
    have n: "0 < ?n" "?n \<le> length p"
      using False by (simp_all add: utf8_unit_pos utf8_unit_length)
    have "utf8_lossy (drop ?n p @ CR # t) = utf8_lossy (drop ?n p) @ utf8_lossy (CR # t)"
      using 1 n by simp
    then show ?thesis
      using n False by (simp add: utf8_lossy_unit [of p] utf8_lossy_unit [of "p @ CR # t"]
          utf8_unit_append_CR)
  qed simp
qed

lemma utf8_lossy_append:
  "\<exists>x v. suffix v p \<and> length v \<le> 3 \<and> length p \<le> length x + length v \<and>
         utf8_lossy p = x @ utf8_lossy v \<and> utf8_lossy (p @ t) = x @ utf8_lossy (v @ t)"
proof (induction p rule: length_induct)
  case (1 p)
  show ?case
  proof (cases "p = [] \<or> utf8_unit p = (False, length p) \<and> length p \<le> 3")
    case True
    then show ?thesis
      by (intro exI [of _ "[]"] exI [of _ p]) auto
  next
    case False
    let ?n = "snd (utf8_unit p)"
    have n: "0 < ?n" "?n \<le> length p" and same: "utf8_unit (p @ t) = utf8_unit p"
      using False utf8_unit_append [of p t] by (auto simp: utf8_unit_pos utf8_unit_length)
    then have "length (drop ?n p) < length p"
      using False by simp
    then obtain x v where xv: "suffix v (drop ?n p)" "length v \<le> 3"
        "length (drop ?n p) \<le> length x + length v"
        "utf8_lossy (drop ?n p) = x @ utf8_lossy v"
        "utf8_lossy (drop ?n p @ t) = x @ utf8_lossy (v @ t)"
      using 1 by blast
    let ?u = "if fst (utf8_unit p) then take ?n p else REPLACEMENT_CHARACTER"
    have "utf8_lossy p = (?u @ x) @ utf8_lossy v"
      using False xv by (simp add: utf8_lossy_unit [of p])
    moreover have "utf8_lossy (p @ t) = (?u @ x) @ utf8_lossy (v @ t)"
      using False xv n by (simp add: utf8_lossy_unit [of "p @ t"] same)
    moreover have "suffix v p"
      using xv(1) suffix_drop suffix_order.trans by blast
    moreover have "?n \<le> length ?u"
      using False n utf8_unit_bad [of p] by (auto simp: REPLACEMENT_CHARACTER_def bytes_def)
    then have "length p \<le> length (?u @ x) + length v"
      using xv(3) n by simp
    ultimately show ?thesis
      using xv(2) by blast
  qed
qed

subsection \<open>Shortening a text that ks long enough\<close>

lemma char_indices_append:
  "char_indices (x @ y) = char_indices x @ map ((+) (length x)) (char_indices y)"
proof -
  have "[0..<length (x @ y)] = [0..<length x] @ map ((+) (length x)) [0..<length y]"
    by (rule nth_equalityI) (auto simp: nth_append)
  moreover have "filter (\<lambda>i. \<not> utf8_cont ((x @ y) ! i)) [0..<length x] = char_indices x"
    unfolding char_indices_def by (rule filter_cong) (auto simp: nth_append)
  ultimately show ?thesis
    by (simp add: char_indices_def filter_map comp_def)
qed

lemma takeWhile_le: "k \<in> set (takeWhile (\<lambda>i. i \<le> n) xs) \<Longrightarrow> k \<le> (n :: nat)"
  by (blast dest: set_takeWhileD)

lemma takeWhile_none: "(\<And>k. k \<in> set ks \<Longrightarrow> n < k) \<Longrightarrow> takeWhile (\<lambda>i. i \<le> (n :: nat)) ks = []"
  by (cases ks) force+

lemma takeWhile_le_append:
  assumes "\<And>k. k \<in> set ks \<Longrightarrow> n < k"
  shows "takeWhile (\<lambda>i. i \<le> n) (xs @ ks) = takeWhile (\<lambda>i. i \<le> (n :: nat)) xs"
  using takeWhile_none [OF assms] by (induction xs) auto

lemma truncate_append:
  assumes "n \<le> length x" "y = [] \<or> \<not> utf8_cont (hd y)"
  shows "truncate_to_first_bytes (x @ y) n = truncate_to_first_bytes x n"
proof (cases "y = []")
  case False
  let ?tw = "takeWhile (\<lambda>i. i \<le> n)"
  obtain ks where ks: "char_indices y = 0 # ks" "\<And>k. k \<in> set ks \<Longrightarrow> 0 < k"
    using False assms(2) by (cases y) (auto simp: char_indices_def upt_conv_Cons simp del: upt_Suc)
  show ?thesis
  proof (cases "n < length x")
    case True
    have "?tw (char_indices (x @ y)) = ?tw (char_indices x)"
      unfolding char_indices_append by (rule takeWhile_le_append) (use True in auto)
    moreover have "take k (x @ y) = take k x" if "k \<le> n" for k
      using that True by simp
    ultimately show ?thesis
      using True takeWhile_le [OF last_in_set, of n "char_indices x"]
      by (auto simp: truncate_to_first_bytes_def Let_def)
  next
    case False
    then have n: "n = length x"
      using assms(1) by simp
    have "?tw (char_indices x) = char_indices x"
      unfolding n by (auto simp: char_indices_def)
    moreover have "?tw (map ((+) (length x)) ks) = []"
      by (rule takeWhile_none) (use ks n in auto)
    ultimately have "?tw (char_indices (x @ y)) = char_indices x @ [n]"
      unfolding char_indices_append ks using n
      by (auto simp: takeWhile_append char_indices_def)
    then show ?thesis
      using n \<open>y \<noteq> []\<close> by (simp add: truncate_to_first_bytes_def)
  qed
qed simp

text \<open>The capture limit keeps three bytes more than the text may have: enough for the end of a
  character that the limit cuts.\<close>

lemma line_text_append:
  assumes "MODEL_STRING_MAX_BYTES + 3 \<le> length p"
  shows "truncate_to_first_bytes (utf8_lossy (p @ t)) MODEL_STRING_MAX_BYTES =
         truncate_to_first_bytes (utf8_lossy p) MODEL_STRING_MAX_BYTES"
proof -
  obtain x v where xv: "length v \<le> 3" "length p \<le> length x + length v"
      "utf8_lossy p = x @ utf8_lossy v" "utf8_lossy (p @ t) = x @ utf8_lossy (v @ t)"
    using utf8_lossy_append by blast
  then have "MODEL_STRING_MAX_BYTES \<le> length x"
    using assms by simp
  then show ?thesis
    by (simp add: xv truncate_append utf8_lossy_starts)
qed

lemma line_text_append_CR:
  assumes "MODEL_STRING_MAX_BYTES \<le> length p"
  shows "truncate_to_first_bytes (utf8_lossy (p @ CR # t)) MODEL_STRING_MAX_BYTES =
         truncate_to_first_bytes (utf8_lossy p) MODEL_STRING_MAX_BYTES"
  using assms utf8_lossy_length [of p]
  by (simp add: utf8_lossy_append_CR truncate_append utf8_lossy_starts)

lemma CAPTURE_LIMIT_eq: "CAPTURE_LIMIT = MODEL_STRING_MAX_BYTES + 3"
  by (simp add: CAPTURE_LIMIT_def MODEL_STRING_MAX_BYTES_def usize_saturating_add_def USIZE_MAX_def)

lemma strip_cr_longer:
  assumes "length p = CAPTURE_LIMIT"
  shows "truncate_to_first_bytes (utf8_lossy (strip_cr (p @ t))) MODEL_STRING_MAX_BYTES =
         truncate_to_first_bytes (utf8_lossy (strip_cr p)) MODEL_STRING_MAX_BYTES"
proof (cases "t = []")
  case False
  then have "strip_cr (p @ t) = p @ (if last t = CR then butlast t else t)"
    by (simp add: strip_cr_def butlast_append)
  then obtain t' where t': "strip_cr (p @ t) = p @ t'" ..
  show ?thesis
  proof (cases "p \<noteq> [] \<and> last p = CR")
    case True
    then obtain p' where p: "p = p' @ [CR]"
      by (metis append_butlast_last_id)
    then have "strip_cr p = p'" "p @ t' = p' @ CR # t'" "MODEL_STRING_MAX_BYTES \<le> length p'"
      using assms by (simp_all add: strip_cr_def CAPTURE_LIMIT_eq)
    then show ?thesis
      using line_text_append_CR [of p' t'] t' by metis
  next
    case False
    then have "strip_cr p = p"
      by (auto simp: strip_cr_def)
    then show ?thesis
      using assms unfolding t' by (simp add: line_text_append CAPTURE_LIMIT_eq)
  qed
qed simp

lemma line_text_captured:
  assumes "LF \<notin> set (butlast raw)"
  shows "line_text (take CAPTURE_LIMIT raw) = line_text raw"
proof (cases "length raw \<le> CAPTURE_LIMIT")
  case False
  let ?p = "take CAPTURE_LIMIT (butlast raw)"
  have p: "take CAPTURE_LIMIT raw = ?p" "length ?p = CAPTURE_LIMIT"
    using False by (simp_all add: take_butlast)
  have "last ?p \<noteq> LF" if "?p \<noteq> []"
    using in_set_takeD [OF last_in_set [OF that]] assms by auto
  then have "pop_lf ?p = ?p"
    by (metis pop_lf_def)
  moreover obtain t where "pop_lf raw = ?p @ t"
  proof (cases "raw \<noteq> [] \<and> last raw = LF")
    case True
    then show thesis
      using that [of "drop CAPTURE_LIMIT (butlast raw)"] by (simp add: pop_lf_def)
  next
    case False
    then show thesis
      using that [of "drop CAPTURE_LIMIT raw"] p(1) append_take_drop_id [of CAPTURE_LIMIT raw]
      by (auto simp: pop_lf_def simp del: append_take_drop_id)
  qed
  ultimately show ?thesis
    using strip_cr_longer [OF p(2)] by (simp add: p line_text_def)
qed simp

section \<open>The lines of an output\<close>

text \<open>The first line of an output with its line feed.\<close>

abbreviation first_line :: "string \<Rightarrow> string" where
  "first_line s \<equiv> take (line_end s) s"

lemma line_end_Nil [simp]: "line_end [] = 0"
  by (simp add: line_end_def)

lemma line_end_Cons [simp]: "line_end (c # s) = (if c = LF then 1 else Suc (line_end s))"
  by (auto simp: line_end_def Let_def)

lemma line_end_LF: "s \<noteq> [] \<Longrightarrow> s ! (line_end s - 1) = LF \<longleftrightarrow> LF \<in> set s"
proof (induction s)
  case (Cons c s)
  then show ?case
    using line_end_bounds [of s] by (cases "s = []") (auto simp: nth_Cons')
qed simp

lemma line_end_no_LF: "LF \<notin> set s \<Longrightarrow> line_end s = length s"
  by (induction s) auto

lemma line_end_append:
  "line_end (c @ s) = (if LF \<in> set c then line_end c else length c + line_end s)"
  by (induction c) auto

lemma line_end_le: "line_end s \<le> length s"
  by (induction s) auto

lemma raw_lines_first:
  "s \<noteq> [] \<Longrightarrow> raw_lines line s = (line @ first_line s) # raw_lines [] (drop (line_end s) s)"
proof (induction s arbitrary: line)
  case (Cons c s)
  then show ?case
    by (cases "s = []") auto
qed simp

lemma raw_lines_no_lf: "raw \<in> set (raw_lines line s) \<Longrightarrow> LF \<notin> set line \<Longrightarrow> LF \<notin> set (butlast raw)"
proof (induction s arbitrary: line)
  case Nil
  then show ?case
    by (auto dest: in_set_butlastD split: if_splits)
next
  case (Cons c s)
  show ?case
  proof (cases "c = LF \<and> raw = line @ [LF]")
    case True
    then show ?thesis
      using Cons.prems by (simp add: butlast_append)
  next
    case False
    then have "raw \<in> set (raw_lines (if c = LF then [] else line @ [c]) s)"
      using Cons.prems by (simp split: if_splits)
    then show ?thesis
      by (rule Cons.IH) (use Cons.prems in auto)
  qed
qed

lemma take_take_append: "take n (take n xs @ ys) = take n (xs @ ys)"
  by (cases "n \<le> length xs") auto

lemma read_line_bytes_pieces:
  assumes "[] \<notin> set cs" "length line \<le> CAPTURE_LIMIT" "concat cs \<noteq> [] \<or> saw"
  shows "\<exists>cs'. [] \<notin> set cs' \<and> concat cs' = drop (line_end (concat cs)) (concat cs) \<and>
     read_line_bytes (map Inr cs) line saw =
       (Inr (Some (take CAPTURE_LIMIT (line @ first_line (concat cs)))), map Inr cs')"
  using assms
proof (induction cs arbitrary: line saw)
  case (Cons c cs)
  let ?n = "line_end c"
  let ?line = "line @ take (min ?n (CAPTURE_LIMIT - length line)) c"
  have c: "c \<noteq> []" and n: "?n \<le> length c" and cs: "[] \<notin> set cs"
    using Cons.prems line_end_le by auto
  have line: "?line = take CAPTURE_LIMIT (line @ take ?n c)"
    using Cons.prems(2) by (simp add: min_def)
  have line_short: "length ?line \<le> CAPTURE_LIMIT"
    unfolding line by simp
  show ?case
  proof (cases "LF \<in> set c")
    case True
    let ?cs = "if ?n < length c then drop ?n c # cs else cs"
    have "read_line_bytes (map Inr (c # cs)) line saw = (Inr (Some ?line), map Inr ?cs)"
      using c True line_end_LF [OF c] by (auto simp: Let_def)
    moreover have "concat ?cs = drop (line_end (concat (c # cs))) (concat (c # cs))"
      using True n by (simp add: line_end_append)
    moreover have "[] \<notin> set ?cs"
      using Cons.prems by auto
    moreover have "first_line (concat (c # cs)) = take ?n c"
      using True n by (simp add: line_end_append)
    ultimately show ?thesis
      using line by metis
  next
    case False
    then have "read_line_bytes (map Inr (c # cs)) line saw = read_line_bytes (map Inr cs) ?line True"
      using c line_end_LF [OF c] by (simp add: Let_def)
    moreover obtain cs' where cs': "[] \<notin> set cs'" "concat cs' = drop (line_end (concat cs)) (concat cs)"
        "read_line_bytes (map Inr cs) ?line True =
           (Inr (Some (take CAPTURE_LIMIT (?line @ first_line (concat cs)))), map Inr cs')"
      using Cons.IH [OF cs, of ?line True] line_short by blast
    moreover have "take CAPTURE_LIMIT (?line @ first_line (concat cs)) =
        take CAPTURE_LIMIT (line @ first_line (concat (c # cs)))"
      using False unfolding line take_take_append by (simp add: line_end_append line_end_no_LF)
    moreover have "concat cs' = drop (line_end (concat (c # cs))) (concat (c # cs))"
      using False cs'(2) by (simp add: line_end_append)
    ultimately show ?thesis
      by metis
  qed
qed simp

lemma read_bounded_line_pieces:
  assumes "[] \<notin> set cs" "concat cs \<noteq> []"
  shows "\<exists>cs'. [] \<notin> set cs' \<and> concat cs' = drop (line_end (concat cs)) (concat cs) \<and>
     read_bounded_line (map Inr cs) = (Inr (Some (line_text (first_line (concat cs)))), map Inr cs')"
proof -
  have "first_line (concat cs) \<in> set (raw_lines [] (concat cs))"
    using assms(2) by (simp add: raw_lines_first)
  then have "LF \<notin> set (butlast (first_line (concat cs)))"
    by (rule raw_lines_no_lf) simp
  then have "line_text (take CAPTURE_LIMIT (first_line (concat cs))) = line_text (first_line (concat cs))"
    by (rule line_text_captured)
  moreover obtain cs' where "[] \<notin> set cs'" "concat cs' = drop (line_end (concat cs)) (concat cs)"
      "read_line_bytes (map Inr cs) [] False =
         (Inr (Some (take CAPTURE_LIMIT (first_line (concat cs)))), map Inr cs')"
    using read_line_bytes_pieces [of cs "[]" False] assms by auto
  ultimately show ?thesis
    by (auto simp: read_bounded_line_def)
qed

text \<open>
  The lines of a probe. However the pipe cuts the output of a probe into pieces, the reader hands
  on exactly its lines: each with its line feed and a carriage return before it removed, malformed
  UTF-8 replaced, and shortened to at most 16 KiB at a character boundary. That the reader keeps no
  more than three bytes beyond this limit of a line never shows in its text.
\<close>

theorem probe_lines_exact:
  "[] \<notin> set cs \<Longrightarrow> output_lines (map Inr cs) = map line_text (raw_lines [] (concat cs))"
proof (induction "length (concat cs)" arbitrary: cs rule: less_induct)
  case less
  show ?case
  proof (cases cs)
    case Nil
    then show ?thesis by (simp add: output_lines.simps read_bounded_line_def)
  next
    case (Cons c cs0)
    then have s: "concat cs \<noteq> []"
      using less.prems by auto
    obtain cs' where cs': "[] \<notin> set cs'" "concat cs' = drop (line_end (concat cs)) (concat cs)"
        "read_bounded_line (map Inr cs) = (Inr (Some (line_text (first_line (concat cs)))), map Inr cs')"
      using read_bounded_line_pieces [OF less.prems s] by blast
    have "length (concat cs') < length (concat cs)"
      unfolding cs'(2) using line_end_bounds [OF s] s by simp
    then have "output_lines (map Inr cs') = map line_text (raw_lines [] (concat cs'))"
      using less.hyps cs'(1) by blast
    then show ?thesis
      by (subst output_lines.simps) (simp add: cs'(2,3) raw_lines_first [OF s])
  qed
qed

theorem probe_lines_exact_witness:
  "output_lines [Inr ''a'', Inr (''b'' @ [CR, LF]), Inr ''c''] =
     map line_text [''ab'' @ [CR, LF], ''c'']"
  using probe_lines_exact [of "[''a'', ''b'' @ [CR, LF], ''c'']"] by (simp add: LF_def CR_def)

end
