(* ===== verification/Health_Check.thy ===== *)
theory Health_Check
  imports Health_Output Events
begin

text \<open>
  The health probes of a run (\<^verbatim>\<open>src/crates/micromux/src/health_check.rs\<close>): one probe from its
  start to its verdict, and the loop of probes that tells the scheduler when the service becomes
  healthy or unhealthy. What the probe's process and the two cancellation tokens do is observed: a
  list of deliveries of the output readers, of polls of a \<^verbatim>\<open>select!\<close>, of results of a system call.
  The probe's writes to the session model are the model's own writes.
\<close>

section \<open>Errors\<close>

datatype health_error_reason =
    ErrorReason_Timeout
  | ErrorReason_Failed i32
  | ErrorReason_Spawn string

record health_error =
  he_command :: string
  he_source :: health_error_reason

datatype health_outcome = Outcome_Healthy | Outcome_Cancelled

section \<open>Output readers\<close>

text \<open>
  A reader task: the lines it has still to deliver and whether the pipe closes after them (a
  descendant of the probe may keep it open).
\<close>

record reader_task =
  rt_lines :: "string list"
  rt_closes :: bool

record output_readers =
  or_stdout :: "reader_task option"
  or_stderr :: "reader_task option"

definition output_readers_default :: output_readers where
  "output_readers_default = \<lparr> or_stdout = None, or_stderr = None \<rparr>"

definition set_stdout :: "reader_task \<Rightarrow> output_readers \<Rightarrow> output_readers" where
  "set_stdout task r = r\<lparr> or_stdout := Some task \<rparr>"

definition set_stderr :: "reader_task \<Rightarrow> output_readers \<Rightarrow> output_readers" where
  "set_stderr task r = r\<lparr> or_stderr := Some task \<rparr>"

text \<open>The reader task over a pipe whose reads are \<open>rs\<close>.\<close>

definition spawn_output_task :: "reads \<Rightarrow> bool \<Rightarrow> reader_task" where
  "spawn_output_task rs closes = \<lparr> rt_lines = output_lines rs, rt_closes = closes \<rparr>"

text \<open>The calls of a probe on its process.\<close>

datatype process_call = Call_KillGroup | Call_TryWait | Call_StartKill | Call_Wait

record probe_running =
  rn_service :: service_id
  rn_generation :: u64
  rn_attempt :: u64
  rn_command :: string
  rn_readers :: output_readers
  rn_pid :: bool
  rn_sink :: "model_write list"
  rn_calls :: "process_call list"

definition write_sink :: "model_write \<Rightarrow> probe_running \<Rightarrow> probe_running" where
  "write_sink w r = r\<lparr> rn_sink := rn_sink r @ [w] \<rparr>"

definition call :: "process_call \<Rightarrow> probe_running \<Rightarrow> probe_running" where
  "call c r = r\<lparr> rn_calls := rn_calls r @ [c] \<rparr>"

text \<open>A reader task that runs delivers its next line; an aborted or ended one delivers nothing.\<close>

definition take_line :: "reader_task option \<Rightarrow> string option \<times> reader_task option" where
  "take_line t =
     (case t of
        None \<Rightarrow> (None, None)
      | Some task \<Rightarrow>
          (case rt_lines task of
             [] \<Rightarrow> (None, t)
           | line # rest \<Rightarrow> (Some line, Some (task\<lparr> rt_lines := rest \<rparr>))))"

definition append_line :: "output_stream \<Rightarrow> string option \<Rightarrow> probe_running \<Rightarrow> probe_running" where
  "append_line stream line r =
     (case line of
        None \<Rightarrow> r
      | Some line \<Rightarrow>
          write_sink (Sink_HealthLine (rn_service r) (rn_generation r) (rn_attempt r) stream line) r)"

definition deliver :: "output_stream \<Rightarrow> probe_running \<Rightarrow> probe_running" where
  "deliver stream r =
     (case stream of
        OutputStream_Stdout \<Rightarrow>
          let (line, t) = take_line (or_stdout (rn_readers r))
          in append_line stream line (r\<lparr> rn_readers := (rn_readers r)\<lparr> or_stdout := t \<rparr> \<rparr>)
      | OutputStream_Stderr \<Rightarrow>
          let (line, t) = take_line (or_stderr (rn_readers r))
          in append_line stream line (r\<lparr> rn_readers := (rn_readers r)\<lparr> or_stderr := t \<rparr> \<rparr>)
      | OutputStream_Unknown \<Rightarrow> r)"

text \<open>
  \<^verbatim>\<open>join_with_timeout\<close> at the end of its time: a task that ended is joined, another one is kept.
\<close>

definition join_with_timeout :: "reader_task option \<Rightarrow> bool \<times> reader_task option" where
  "join_with_timeout t =
     (case t of
        None \<Rightarrow> (True, None)
      | Some task \<Rightarrow> if rt_lines task = [] \<and> rt_closes task then (True, None) else (False, t))"

text \<open>\<^verbatim>\<open>OutputReaders::drain\<close> while the readers make the deliveries \<open>ds\<close>.\<close>

definition drain :: "output_stream list \<Rightarrow> probe_running \<Rightarrow> probe_running \<times> bool" where
  "drain ds r =
     (let r = fold deliver ds r;
          (stdout_drained, out) = join_with_timeout (or_stdout (rn_readers r));
          (stderr_drained, err) = join_with_timeout (or_stderr (rn_readers r))
      in (r\<lparr> rn_readers := \<lparr> or_stdout = out, or_stderr = err \<rparr> \<rparr>,
          stdout_drained \<and> stderr_drained))"

definition abort_and_join :: "probe_running \<Rightarrow> probe_running" where
  "abort_and_join r = r\<lparr> rn_readers := output_readers_default \<rparr>"

section \<open>The end of a probe\<close>

record exit_status =
  es_code :: "i32 option"

definition exit_success :: "exit_status \<Rightarrow> bool" where
  "exit_success status \<longleftrightarrow> es_code status = Some 0"

datatype completion =
    Completion_Shutdown
  | Completion_Timeout
  | Completion_Status "string + exit_status"

text \<open>
  \<^verbatim>\<open>child_exit_is_pending\<close> over the results of \<^verbatim>\<open>waitid\<close>: an interrupted call is repeated.
\<close>

datatype waitid_result = Waitid_Interrupted | Waitid_Failed string | Waitid_Pending bool

fun child_exit_is_pending :: "waitid_result list \<Rightarrow> (string + bool) option \<times> waitid_result list"
where
  "child_exit_is_pending [] = (None, [])"
| "child_exit_is_pending (Waitid_Interrupted # ws) = child_exit_is_pending ws"
| "child_exit_is_pending (Waitid_Failed err # ws) = (Some (Inl err), ws)"
| "child_exit_is_pending (Waitid_Pending status # ws) = (Some (Inr status), ws)"

lemma child_exit_is_pending_length:
  "child_exit_is_pending ws = (Some r, ws') \<Longrightarrow> length ws' < length ws"
  by (induction ws rule: child_exit_is_pending.induct) auto

text \<open>Between two checks the task sleeps until a child's signal or ten milliseconds.\<close>

function wait_for_exit_without_reaping :: "waitid_result list \<Rightarrow> (string + unit) option" where
  "wait_for_exit_without_reaping ws =
     (case child_exit_is_pending ws of
        (None, _) \<Rightarrow> None
      | (Some (Inl err), _) \<Rightarrow> Some (Inl err)
      | (Some (Inr True), _) \<Rightarrow> Some (Inr ())
      | (Some (Inr False), ws) \<Rightarrow> wait_for_exit_without_reaping ws)"
  by pat_completeness auto
termination
  by (relation "measure length") (auto dest: child_exit_is_pending_length [OF sym])

declare wait_for_exit_without_reaping.simps [simp del]

text \<open>
  \<^verbatim>\<open>wait_for_probe_status\<close> on Unix, with what \<^verbatim>\<open>Child::wait\<close> returns: None while the probe runs. The
  process group is killed after the probe has exited and before it is reaped.
\<close>

definition wait_for_probe_status ::
  "waitid_result list \<Rightarrow> string + exit_status \<Rightarrow> probe_running \<Rightarrow> (string + exit_status) option \<times> probe_running"
where
  "wait_for_probe_status ws reaped r =
     (if \<not> rn_pid r then (Some reaped, call Call_Wait r)
      else
        case wait_for_exit_without_reaping ws of
          None \<Rightarrow> (None, r)
        | Some (Inl err) \<Rightarrow> (Some (Inl err), r)
        | Some (Inr _) \<Rightarrow> (Some reaped, call Call_Wait (call Call_KillGroup r)))"

text \<open>One poll of the \<^verbatim>\<open>select!\<close>: the results of \<^verbatim>\<open>waitid\<close> so far and the cancelled tokens.\<close>

record probe_poll =
  pp_waitids :: "waitid_result list"
  pp_shutdown :: bool
  pp_terminate :: bool

text \<open>The polls until the timer elapses; the last one is made when it does.\<close>

fun select_completion ::
  "probe_poll list \<Rightarrow> string + exit_status \<Rightarrow> probe_running \<Rightarrow> completion \<times> probe_running"
where
  "select_completion [] reaped r = (Completion_Timeout, r)"
| "select_completion (p # ps) reaped r =
     (case wait_for_probe_status (pp_waitids p) reaped r of
        (Some status, r) \<Rightarrow> (Completion_Status status, r)
      | (None, r) \<Rightarrow>
          if pp_shutdown p then (Completion_Shutdown, r)
          else if pp_terminate p then (Completion_Shutdown, r)
          else select_completion ps reaped r)"

text \<open>
  \<^verbatim>\<open>cleanup_after_cancel\<close>: \<open>exited\<close> is what \<^verbatim>\<open>try_wait\<close> finds, \<open>ds\<close> the deliveries during the drain.
\<close>

definition cleanup_after_cancel :: "bool \<Rightarrow> output_stream list \<Rightarrow> probe_running \<Rightarrow> probe_running" where
  "cleanup_after_cancel exited ds r =
     (let r = (if rn_pid r then call Call_KillGroup r else r);
          r = call Call_TryWait r;
          r = (if \<not> exited then call Call_Wait (call Call_StartKill r) else r);
          (r, drained) = drain ds r
      in if \<not> drained then abort_and_join r else r)"

definition finish_attempt :: "bool \<Rightarrow> i32 \<Rightarrow> bool \<Rightarrow> probe_running \<Rightarrow> probe_running" where
  "finish_attempt success exit_code cancelled r =
     write_sink (Sink_FinishAttempt (rn_service r) (rn_generation r) (rn_attempt r)
                   success exit_code cancelled) r"

definition finish_with_exit :: "output_stream list \<Rightarrow> bool \<Rightarrow> i32 \<Rightarrow> probe_running \<Rightarrow> probe_running" where
  "finish_with_exit ds success exit_code r =
     (let (r, drained) = drain ds r;
          r = (if \<not> drained then abort_and_join r else r)
      in finish_attempt success exit_code False r)"

section \<open>One probe\<close>

definition command_string :: "healthcheck_spec \<Rightarrow> string" where
  "command_string hc = join_with '' '' (hs_test hc)"

definition emit_spawn_failed :: "service_id \<Rightarrow> u64 \<Rightarrow> u64 \<Rightarrow> string \<Rightarrow> model_write list" where
  "emit_spawn_failed s g attempt source =
     [Sink_HealthLine s g attempt OutputStream_Stderr source,
      Sink_FinishAttempt s g attempt False (- 1) False]"

text \<open>A process that was spawned: its pipes, with whether they close, and whether it has an id.\<close>

record spawned =
  pch_stdout :: "(reads \<times> bool) option"
  pch_stderr :: "(reads \<times> bool) option"
  pch_pid :: bool

text \<open>
  What a probe observes: the spawn, the deliveries of the readers until the probe completes, the
  polls, the status \<^verbatim>\<open>wait\<close> gives, what \<^verbatim>\<open>try_wait\<close> finds and the deliveries during the drain.
\<close>

record probe_obs =
  po_spawn :: "string + spawned"
  po_before :: "output_stream list"
  po_polls :: "probe_poll list"
  po_reaped :: "string + exit_status"
  po_exited :: bool
  po_drain :: "output_stream list"

definition start_readers :: "spawned \<Rightarrow> output_readers" where
  "start_readers p =
     (let r = output_readers_default;
          r = (case pch_stderr p of None \<Rightarrow> r | Some (rs, c) \<Rightarrow> set_stderr (spawn_output_task rs c) r)
      in (case pch_stdout p of None \<Rightarrow> r | Some (rs, c) \<Rightarrow> set_stdout (spawn_output_task rs c) r))"

text \<open>The verdict of a completed probe, after the probe has been cleaned up.\<close>

definition complete_probe ::
  "bool \<Rightarrow> output_stream list \<Rightarrow> completion \<Rightarrow> probe_running \<Rightarrow> (health_error + health_outcome) \<times> probe_running"
where
  "complete_probe exited ds c r =
     (case c of
        Completion_Shutdown \<Rightarrow>
          (Inr Outcome_Cancelled,
           finish_attempt False (- 1) True (cleanup_after_cancel exited ds r))
      | Completion_Timeout \<Rightarrow>
          (Inl \<lparr> he_command = rn_command r, he_source = ErrorReason_Timeout \<rparr>,
           finish_attempt False (- 1) False (cleanup_after_cancel exited ds r))
      | Completion_Status (Inr status) \<Rightarrow>
          if exit_success status then
            (Inr Outcome_Healthy,
             finish_with_exit ds True (case es_code status of None \<Rightarrow> 0 | Some n \<Rightarrow> n) r)
          else
            let exit_code = (case es_code status of None \<Rightarrow> - 1 | Some n \<Rightarrow> n)
            in (Inl \<lparr> he_command = rn_command r, he_source = ErrorReason_Failed exit_code \<rparr>,
                finish_with_exit ds False exit_code r)
      | Completion_Status (Inl err) \<Rightarrow>
          (Inl \<lparr> he_command = rn_command r, he_source = ErrorReason_Spawn err \<rparr>,
           finish_with_exit ds False (- 1) r))"

definition EMPTY_COMMAND :: string where
  "EMPTY_COMMAND = ''healthcheck command is empty''"

definition running_new :: "healthcheck_spec \<Rightarrow> service_id \<Rightarrow> u64 \<Rightarrow> u64 \<Rightarrow> spawned \<Rightarrow> probe_running" where
  "running_new hc s g attempt p =
     \<lparr> rn_service = s, rn_generation = g, rn_attempt = attempt, rn_command = command_string hc,
       rn_readers = start_readers p, rn_pid = pch_pid p,
       rn_sink = [Sink_StartAttempt s g attempt (command_string hc)], rn_calls = [] \<rparr>"

text \<open>\<^verbatim>\<open>run\<close>: the result of the probe, its writes to the sink and its calls on the process.\<close>

definition run_probe ::
  "healthcheck_spec \<Rightarrow> service_id \<Rightarrow> u64 \<Rightarrow> u64 \<Rightarrow> probe_obs \<Rightarrow>
   (health_error + health_outcome) \<times> model_write list \<times> process_call list"
where
  "run_probe hc s g attempt ob =
     (let command = command_string hc in
      if hs_test hc = [] then
        (Inl \<lparr> he_command = command, he_source = ErrorReason_Spawn EMPTY_COMMAND \<rparr>,
         emit_spawn_failed s g attempt EMPTY_COMMAND, [])
      else
        case po_spawn ob of
          Inl source \<Rightarrow>
            (Inl \<lparr> he_command = command, he_source = ErrorReason_Spawn source \<rparr>,
             Sink_StartAttempt s g attempt command # emit_spawn_failed s g attempt source, [])
        | Inr p \<Rightarrow>
            let r = fold deliver (po_before ob) (running_new hc s g attempt p);
                (c, r) = select_completion (po_polls ob) (po_reaped ob) r;
                (result, r) = complete_probe (po_exited ob) (po_drain ob) c r
            in (result, rn_sink r, rn_calls r))"

section \<open>The loop\<close>

text \<open>What a send to the scheduler observes; the tokens are polled first.\<close>

record send_obs =
  so_shutdown :: bool
  so_terminate :: bool
  so_open :: bool

record health_loop =
  hl_attempt :: usize
  hl_unhealthy :: bool
  hl_attempt_id :: u64
  hl_events :: "process_event list"
  hl_writes :: "model_write list"

definition send_health_event :: "send_obs \<Rightarrow> process_event \<Rightarrow> health_loop \<Rightarrow> bool \<times> health_loop" where
  "send_health_event so event l =
     (if so_shutdown so then (False, l)
      else if so_terminate so then (False, l)
      else if so_open so then (True, l\<lparr> hl_events := hl_events l @ [event] \<rparr>)
      else (False, l))"

definition record_probe_failure ::
  "service_id \<Rightarrow> run_id \<Rightarrow> usize \<Rightarrow> send_obs \<Rightarrow> health_loop \<Rightarrow> bool \<times> health_loop"
where
  "record_probe_failure s rid max_retries so l =
     (if hl_unhealthy l then (True, l)
      else
        let l = l\<lparr> hl_attempt := usize_saturating_add (hl_attempt l) 1 \<rparr>
        in if max_retries \<le> hl_attempt l
           then send_health_event so (ProcessEvent_Unhealthy s rid) (l\<lparr> hl_unhealthy := True \<rparr>)
           else (True, l))"

text \<open>One turn of the loop: the probe, the send of its verdict and whether the pause ends by itself.\<close>

record loop_obs =
  lo_probe :: probe_obs
  lo_send :: send_obs
  lo_pause :: bool

definition probe_turn ::
  "healthcheck_spec \<Rightarrow> service_id \<Rightarrow> run_id \<Rightarrow> loop_obs \<Rightarrow> health_loop \<Rightarrow> bool \<times> health_loop"
where
  "probe_turn hc s rid ob l =
     (let l = l\<lparr> hl_attempt_id := hl_attempt_id l + 1 \<rparr>;
          (res, writes, _) = run_probe hc s rid (hl_attempt_id l) (lo_probe ob);
          l = l\<lparr> hl_writes := hl_writes l @ writes \<rparr>;
          (goes_on, l) =
            (case res of
               Inr Outcome_Cancelled \<Rightarrow> (False, l)
             | Inr Outcome_Healthy \<Rightarrow>
                 let (sent, l) = send_health_event (lo_send ob) (ProcessEvent_Healthy s rid) l
                 in if \<not> sent then (False, l)
                    else (True, l\<lparr> hl_attempt := 0, hl_unhealthy := False \<rparr>)
             | Inl _ \<Rightarrow> record_probe_failure s rid (hs_retries hc) (lo_send ob) l)
      in (goes_on \<and> lo_pause ob, l))"

fun probe_turns ::
  "healthcheck_spec \<Rightarrow> service_id \<Rightarrow> run_id \<Rightarrow> loop_obs list \<Rightarrow> health_loop \<Rightarrow> bool \<times> health_loop"
where
  "probe_turns hc s rid [] l = (True, l)"
| "probe_turns hc s rid (ob # obs) l =
     (case probe_turn hc s rid ob l of
        (False, l) \<Rightarrow> (False, l)
      | (True, l) \<Rightarrow> probe_turns hc s rid obs l)"

definition health_loop_new :: health_loop where
  "health_loop_new =
     \<lparr> hl_attempt = 0, hl_unhealthy = False, hl_attempt_id = 0, hl_events = [], hl_writes = [] \<rparr>"

text \<open>
  \<^verbatim>\<open>run_loop\<close> for the turns observed, and whether it goes on after them; \<open>delayed\<close> tells whether the
  start delay passes by itself.
\<close>

definition run_loop ::
  "healthcheck_spec \<Rightarrow> service_id \<Rightarrow> run_id \<Rightarrow> bool \<Rightarrow> loop_obs list \<Rightarrow> bool \<times> health_loop"
where
  "run_loop hc s rid delayed obs =
     (let start_delay = (case hs_start_delay hc of None \<Rightarrow> 0 | Some d \<Rightarrow> d)
      in if start_delay \<noteq> 0 \<and> \<not> delayed then (False, health_loop_new)
         else probe_turns hc s rid obs health_loop_new)"

end
