(* ===== verification/Health_Facts.thy ===== *)
theory Health_Facts
  imports Health_Check
begin

text \<open>
  What the health probes of a run guarantee: what a probe writes to the session model, and exactly
  which verdicts the loop of probes sends to the scheduler.
\<close>

section \<open>What a probe writes\<close>

fun pending :: "output_stream \<Rightarrow> output_readers \<Rightarrow> string list" where
  "pending OutputStream_Stdout rs = (case or_stdout rs of None \<Rightarrow> [] | Some t \<Rightarrow> rt_lines t)"
| "pending OutputStream_Stderr rs = (case or_stderr rs of None \<Rightarrow> [] | Some t \<Rightarrow> rt_lines t)"
| "pending OutputStream_Unknown rs = []"

definition of_stream :: "output_stream \<Rightarrow> (output_stream \<times> string) list \<Rightarrow> string list" where
  "of_stream st ls = map snd (filter (\<lambda>l. fst l = st) ls)"

lemma of_stream_simps [simp]:
  "of_stream st [] = []"
  "of_stream st ((st', l) # ls) = (if st' = st then l # of_stream st ls else of_stream st ls)"
  "of_stream st (ls @ ls') = of_stream st ls @ of_stream st ls'"
  by (simp_all add: of_stream_def)

definition line_writes ::
  "service_id \<Rightarrow> u64 \<Rightarrow> u64 \<Rightarrow> (output_stream \<times> string) list \<Rightarrow> model_write list"
where
  "line_writes s g a ls = map (\<lambda>(st, l). Sink_HealthLine s g a st l) ls"

lemma line_writes_simps [simp]:
  "line_writes s g a [] = []"
  "line_writes s g a ((st, l) # ls) = Sink_HealthLine s g a st l # line_writes s g a ls"
  "line_writes s g a (ls @ ls') = line_writes s g a ls @ line_writes s g a ls'"
  by (simp_all add: line_writes_def)

text \<open>
  The lines that the readers hand over when they run in the order \<open>ds\<close>, \<open>f\<close> being the lines that each
  of them has still to deliver: a reader that runs gives its next line, if it has one.
\<close>

fun delivered ::
  "(output_stream \<Rightarrow> string list) \<Rightarrow> output_stream list \<Rightarrow> (output_stream \<times> string) list"
where
  "delivered f [] = []"
| "delivered f (d # ds) =
     (case f d of [] \<Rightarrow> delivered f ds | l # ls \<Rightarrow> (d, l) # delivered (f(d := ls)) ds)"

lemma of_stream_delivered: "of_stream st (delivered f ds) = take (count_list ds st) (f st)"
proof (induction ds arbitrary: f)
  case (Cons d ds)
  then show ?case by (cases "f d") auto
qed simp

text \<open>A step of a probe that writes only lines.\<close>

definition same_probe :: "probe_running \<Rightarrow> probe_running \<Rightarrow> bool" where
  "same_probe r r' \<longleftrightarrow> rn_service r' = rn_service r \<and> rn_generation r' = rn_generation r \<and>
     rn_attempt r' = rn_attempt r \<and> rn_command r' = rn_command r \<and> rn_pid r' = rn_pid r"

definition writes_lines :: "(output_stream \<times> string) list \<Rightarrow> probe_running \<Rightarrow> probe_running \<Rightarrow> bool"
where
  "writes_lines ls r r' \<longleftrightarrow> same_probe r r' \<and>
     rn_sink r' = rn_sink r @ line_writes (rn_service r) (rn_generation r) (rn_attempt r) ls"

abbreviation to_deliver :: "probe_running \<Rightarrow> output_stream \<Rightarrow> string list" where
  "to_deliver r \<equiv> \<lambda>st. pending st (rn_readers r)"

lemma writes_lines_refl: "writes_lines [] r r"
  by (simp add: writes_lines_def same_probe_def)

lemma writes_lines_trans:
  "writes_lines ls r r' \<Longrightarrow> writes_lines ls' r' r'' \<Longrightarrow> writes_lines (ls @ ls') r r''"
  by (auto simp: writes_lines_def same_probe_def)

lemma writes_lines_call: "writes_lines [] r (call c r)" "rn_readers (call c r) = rn_readers r"
  by (simp_all add: writes_lines_def same_probe_def call_def)

lemma writes_lines_then_call: "writes_lines ls r r' \<Longrightarrow> writes_lines ls r (call c r')"
  using writes_lines_trans [OF _ writes_lines_call(1)] by fastforce

lemma writes_lines_abort: "writes_lines ls r r' \<Longrightarrow> writes_lines ls r (abort_and_join r')"
  by (simp add: writes_lines_def same_probe_def abort_and_join_def)

lemma deliver_lines:
  "writes_lines (delivered (to_deliver r) [d]) r (deliver d r)"
  "to_deliver (deliver d r) = (to_deliver r)(d := tl (to_deliver r d))"
proof -
  show "writes_lines (delivered (to_deliver r) [d]) r (deliver d r)"
    by (cases d) (auto simp: deliver_def take_line_def append_line_def write_sink_def writes_lines_def
        same_probe_def split: option.splits list.splits)
  have "to_deliver (deliver d r) st = ((to_deliver r)(d := tl (to_deliver r d))) st" for st
    by (cases st; cases d) (auto simp: deliver_def take_line_def append_line_def write_sink_def
        split: option.splits list.splits)
  then show "to_deliver (deliver d r) = (to_deliver r)(d := tl (to_deliver r d))"
    by (rule ext)
qed

lemma delivered_Cons:
  "delivered f (d # ds) = delivered f [d] @ delivered (f(d := tl (f d))) ds"
  by (auto simp: fun_upd_idem split: list.split)

lemma delivers_lines:
  "writes_lines (delivered (to_deliver r) ds) r (fold deliver ds r)"
  "delivered (to_deliver r) (ds @ ds') =
     delivered (to_deliver r) ds @ delivered (to_deliver (fold deliver ds r)) ds'"
proof (induction ds arbitrary: r)
  case (Cons d ds)
  case 1
  show ?case
    using writes_lines_trans [OF deliver_lines(1) Cons.IH(1), of r d]
    by (simp add: delivered_Cons [of _ d ds] deliver_lines(2) del: delivered.simps(2))
  case 2
  show ?case
    using Cons.IH(2) [of "deliver d r"]
    by (simp add: delivered_Cons [of _ d ds] delivered_Cons [of _ d "ds @ ds'"] deliver_lines(2)
        del: delivered.simps(2))
qed (simp_all add: writes_lines_refl)

lemma drain_lines: "writes_lines (delivered (to_deliver r) ds) r (fst (drain ds r))"
  using delivers_lines(1) [of r ds]
  by (simp add: drain_def writes_lines_def same_probe_def Let_def split: prod.split)

lemma drained_lines:
  "drain ds r = (r', drained) \<Longrightarrow>
   writes_lines (delivered (to_deliver r) ds) r (if \<not> drained then abort_and_join r' else r')"
  using drain_lines [of r ds] writes_lines_abort by simp

lemma cleanup_lines: "writes_lines (delivered (to_deliver r) ds) r (cleanup_after_cancel exited ds r)"
proof -
  define r1 where "r1 = call Call_TryWait (if rn_pid r then call Call_KillGroup r else r)"
  define r2 where "r2 = (if \<not> exited then call Call_Wait (call Call_StartKill r1) else r1)"
  have r2: "writes_lines [] r r2" "rn_readers r2 = rn_readers r"
    by (simp_all add: r1_def r2_def writes_lines_then_call writes_lines_refl writes_lines_call(2))
  obtain r3 drained where d: "drain ds r2 = (r3, drained)"
    by fastforce
  have "cleanup_after_cancel exited ds r = (if \<not> drained then abort_and_join r3 else r3)"
    unfolding cleanup_after_cancel_def Let_def r1_def [symmetric] r2_def [symmetric] d by simp
  then show ?thesis
    using writes_lines_trans [OF r2(1) drained_lines [OF d]] r2(2) by simp
qed

lemma wait_lines:
  assumes "wait_for_probe_status ws reaped r = (st, r')"
  shows "writes_lines [] r r' \<and> rn_readers r' = rn_readers r"
proof -
  have "r' \<in> {r, call Call_Wait r, call Call_Wait (call Call_KillGroup r)}"
    using assms by (auto simp: wait_for_probe_status_def split: if_split_asm option.split_asm sum.split_asm
        unit.split_asm)
  then show ?thesis
    using writes_lines_refl writes_lines_then_call writes_lines_call by auto
qed

lemma select_lines:
  "select_completion ps reaped r = (c, r') \<Longrightarrow> writes_lines [] r r' \<and> rn_readers r' = rn_readers r"
proof (induction ps reaped r rule: select_completion.induct)
  case (1 reaped r)
  then show ?case by (simp add: writes_lines_refl)
next
  case (2 p ps reaped r)
  obtain st r1 where w: "wait_for_probe_status (pp_waitids p) reaped r = (st, r1)"
    by fastforce
  have "writes_lines [] r r1 \<and> rn_readers r1 = rn_readers r"
    by (rule wait_lines [OF w])
  moreover have "writes_lines [] r1 r' \<and> rn_readers r' = rn_readers r1"
    using 2 w by (auto intro: writes_lines_refl split: option.splits if_splits)
  ultimately show ?case
    using writes_lines_trans by fastforce
qed

text \<open>
  The end of a probe writes the last lines and one result, with the exit code and the flags that the
  verdict calls for.
\<close>

definition recorded_code :: "health_error + health_outcome \<Rightarrow> i32" where
  "recorded_code res =
     (case res of
        Inr Outcome_Healthy \<Rightarrow> 0
      | Inr Outcome_Cancelled \<Rightarrow> - 1
      | Inl e \<Rightarrow> (case he_source e of ErrorReason_Failed n \<Rightarrow> n | _ \<Rightarrow> - 1))"

definition finish_write ::
  "service_id \<Rightarrow> u64 \<Rightarrow> u64 \<Rightarrow> health_error + health_outcome \<Rightarrow> model_write"
where
  "finish_write s g a res =
     Sink_FinishAttempt s g a (res = Inr Outcome_Healthy) (recorded_code res) (res = Inr Outcome_Cancelled)"

lemma finish_lines:
  assumes "writes_lines ls r r'"
  shows "rn_sink (finish_attempt success code cancelled r') = rn_sink r @
    line_writes (rn_service r) (rn_generation r) (rn_attempt r) ls @
    [Sink_FinishAttempt (rn_service r) (rn_generation r) (rn_attempt r) success code cancelled]"
  using assms by (simp add: finish_attempt_def write_sink_def writes_lines_def same_probe_def)

lemma finish_with_exit_lines:
  "\<exists>r'. writes_lines (delivered (to_deliver r) ds) r r' \<and>
     finish_with_exit ds success code r = finish_attempt success code False r'"
proof -
  obtain r1 drained where d: "drain ds r = (r1, drained)" by fastforce
  show ?thesis
    using drained_lines [OF d] by (auto simp: finish_with_exit_def d Let_def)
qed

lemma complete_probe_lines:
  assumes "complete_probe exited ds c r = (res, r')"
  obtains r1 where "writes_lines (delivered (to_deliver r) ds) r r1"
    "r' = finish_attempt (res = Inr Outcome_Healthy) (recorded_code res) (res = Inr Outcome_Cancelled) r1"
proof (cases c)
  case (Completion_Status st)
  have "r' = finish_with_exit ds (res = Inr Outcome_Healthy) (recorded_code res) r \<and>
      res \<noteq> Inr Outcome_Cancelled"
  proof (cases st)
    case (Inl err)
    then show ?thesis
      using assms Completion_Status by (auto simp: complete_probe_def recorded_code_def)
  next
    case (Inr status)
    then show ?thesis
      using assms Completion_Status
      by (auto simp: complete_probe_def recorded_code_def exit_success_def Let_def split: if_splits)
  qed
  moreover obtain r1 where "writes_lines (delivered (to_deliver r) ds) r r1"
      "finish_with_exit ds (res = Inr Outcome_Healthy) (recorded_code res) r =
       finish_attempt (res = Inr Outcome_Healthy) (recorded_code res) False r1"
    using finish_with_exit_lines by blast
  ultimately show thesis
    using that [of r1] by simp
next
  case Completion_Shutdown
  then show thesis
    using assms that cleanup_lines [of r ds "exited"] by (auto simp: complete_probe_def recorded_code_def)
next
  case Completion_Timeout
  then show thesis
    using assms that cleanup_lines [of r ds "exited"] by (auto simp: complete_probe_def recorded_code_def)
qed

text \<open>The lines a probe's process has to write on a stream.\<close>

fun pipe_lines :: "output_stream \<Rightarrow> spawned \<Rightarrow> string list" where
  "pipe_lines OutputStream_Stdout p = (case pch_stdout p of None \<Rightarrow> [] | Some (rs, _) \<Rightarrow> output_lines rs)"
| "pipe_lines OutputStream_Stderr p = (case pch_stderr p of None \<Rightarrow> [] | Some (rs, _) \<Rightarrow> output_lines rs)"
| "pipe_lines OutputStream_Unknown p = []"

lemma pending_start: "pending st (start_readers p) = pipe_lines st p"
  by (cases st) (auto simp: start_readers_def output_readers_default_def set_stdout_def set_stderr_def
      spawn_output_task_def Let_def split: option.split prod.split)

definition probe_lines :: "spawned \<Rightarrow> probe_obs \<Rightarrow> (output_stream \<times> string) list" where
  "probe_lines p ob = delivered (\<lambda>st. pipe_lines st p) (po_before ob @ po_drain ob)"

lemma probe_writes:
  assumes "hs_test hc \<noteq> []" "po_spawn ob = Inr p" "run_probe hc s g a ob = (res, ws, calls)"
  shows "ws = Sink_StartAttempt s g a (command_string hc) #
    line_writes s g a (probe_lines p ob) @ [finish_write s g a res]"
proof -
  let ?r0 = "running_new hc s g a p"
  obtain c r2 where sel: "select_completion (po_polls ob) (po_reaped ob)
      (fold deliver (po_before ob) ?r0) = (c, r2)"
    by fastforce
  obtain r3 where com: "complete_probe (po_exited ob) (po_drain ob) c r2 = (res, r3)" "ws = rn_sink r3"
    using assms sel by (auto simp: run_probe_def Let_def split: prod.splits)
  obtain r1 where fin: "writes_lines (delivered (to_deliver r2) (po_drain ob)) r2 r1"
      "r3 = finish_attempt (res = Inr Outcome_Healthy) (recorded_code res) (res = Inr Outcome_Cancelled) r1"
    using complete_probe_lines [OF com(1)] .
  have "writes_lines (delivered (to_deliver ?r0) (po_before ob)) ?r0 r2"
    using writes_lines_trans [OF delivers_lines(1)] select_lines [OF sel] by fastforce
  from writes_lines_trans [OF this fin(1)]
  have "writes_lines (delivered (to_deliver ?r0) (po_before ob @ po_drain ob)) ?r0 r1"
    using select_lines [OF sel] by (simp add: delivers_lines(2))
  then have "writes_lines (probe_lines p ob) ?r0 r1"
    by (simp add: probe_lines_def running_new_def pending_start)
  from finish_lines [OF this] show ?thesis
    using com(2) fin(2) by (simp add: running_new_def finish_write_def)
qed

section \<open>A probe in the session model\<close>

lemma modify_first_last:
  "(\<And>x. x \<in> set hs \<Longrightarrow> \<not> q x) \<Longrightarrow> q x \<Longrightarrow> modify_first q f (hs @ [x]) = hs @ [f x]"
  by (induction hs) auto

text \<open>The attempt that a probe writes to: the last one of its service's current run.\<close>

definition open_attempt ::
  "service_id \<Rightarrow> u64 \<Rightarrow> u64 \<Rightarrow> health_attempt list \<Rightarrow> health_attempt \<Rightarrow> session_model \<Rightarrow> bool"
where
  "open_attempt s g a hs att m \<longleftrightarrow>
     ha_run_generation att = g \<and> ha_attempt att = a \<and>
     (\<forall>h \<in> set hs. ha_run_generation h \<noteq> g \<or> ha_attempt h \<noteq> a) \<and>
     (\<exists>e. im_get (sm_services m) s = Some e \<and> en_latest_begun_run e = g \<and> en_health e = hs @ [att])"

lemma update_open_attempt:
  assumes "open_attempt s g a hs att m"
    and "ha_run_generation (f att) = g" "ha_attempt (f att) = a"
  shows "open_attempt s g a hs (f att) (update_attempt enc s g a f m)"
proof -
  let ?q = "\<lambda>h. ha_run_generation h = g \<and> ha_attempt h = a"
  have "modify_first ?q f (hs @ [att]) = hs @ [f att]"
    using assms(1) by (intro modify_first_last) (auto simp: open_attempt_def)
  then show ?thesis
    using assms by (auto simp: open_attempt_def update_attempt_def update_entry_get Let_def)
qed

lemma start_open_attempt:
  assumes "im_get (sm_services m) s = Some e" "en_latest_begun_run e = g"
    and "\<And>h. h \<in> set (en_health e) \<Longrightarrow> ha_run_generation h \<noteq> g \<or> ha_attempt h \<noteq> a"
  shows "open_attempt s g a (drop (Suc (length (en_health e)) - HEALTH_HISTORY) (en_health e))
    \<lparr> ha_run_generation = g, ha_attempt = a,
      ha_command = truncate_to_first_bytes command MODEL_STRING_MAX_BYTES, ha_output = [],
      ha_result = None \<rparr> (start_health_attempt enc s g a command m)"
  using assms
  by (auto simp: open_attempt_def start_health_attempt_def update_entry_get
      health_log.items_record_snoc dest: in_set_dropD)
     (simp_all add: push_health_attempt_def)

definition model_line :: "output_stream \<times> string \<Rightarrow> health_line" where
  "model_line = (\<lambda>(st, l). \<lparr> hl_stream = st, hl_line = truncate_to_first_bytes l MODEL_STRING_MAX_BYTES \<rparr>)"

lemma push_health_output_ids [simp]:
  "ha_run_generation (push_health_output l att) = ha_run_generation att"
  "ha_attempt (push_health_output l att) = ha_attempt att"
  by (simp_all add: push_health_output_def)

lemma lines_open_attempt:
  assumes "open_attempt s g a hs att m"
  shows "open_attempt s g a hs (foldl (\<lambda>att l. push_health_output l att) att (map model_line ls))
    (fold (apply_write enc) (line_writes s g a ls) m)"
  using assms
proof (induction ls arbitrary: att m)
  case (Cons l ls)
  obtain st t where l: "l = (st, t)" by fastforce
  have "open_attempt s g a hs (push_health_output (model_line l) att)
      (append_health_line enc s g a st t m)"
    unfolding append_health_line_def l model_line_def prod.case
    by (rule update_open_attempt [OF Cons.prems]) (use Cons.prems in \<open>simp_all add: open_attempt_def\<close>)
  then show ?case
    using Cons.IH by (simp add: l)
qed simp

lemma finish_open_attempt:
  assumes "open_attempt s g a hs att m"
  shows "open_attempt s g a hs
    (att\<lparr> ha_result := Some \<lparr> hr_success = success, hr_exit_code = code, hr_cancelled = cancelled \<rparr> \<rparr>)
    (finish_health_attempt enc s g a success code cancelled m)"
  unfolding finish_health_attempt_def
  by (rule update_open_attempt [OF assms]) (use assms in \<open>simp_all add: open_attempt_def\<close>)

text \<open>The record of a probe: its last lines, its exit code and its verdict.\<close>

definition probe_record ::
  "u64 \<Rightarrow> u64 \<Rightarrow> string \<Rightarrow> (output_stream \<times> string) list \<Rightarrow> health_error + health_outcome \<Rightarrow>
   health_attempt"
where
  "probe_record g a command ls res =
     \<lparr> ha_run_generation = g, ha_attempt = a,
       ha_command = truncate_to_first_bytes command MODEL_STRING_MAX_BYTES,
       ha_output = drop (length ls - HEALTH_OUTPUT_MAX_LINES) (map model_line ls),
       ha_result = Some \<lparr> hr_success = (res = Inr Outcome_Healthy), hr_exit_code = recorded_code res,
                          hr_cancelled = (res = Inr Outcome_Cancelled) \<rparr> \<rparr>"

lemma fold_push_output:
  "foldl (\<lambda>att l. push_health_output l att) att ls =
     att\<lparr> ha_output := ha_output (foldl (\<lambda>att l. push_health_output l att) att ls) \<rparr>"
proof -
  let ?f = "foldl (\<lambda>att l. push_health_output l att) att"
  have "ha_run_generation (?f ls) = ha_run_generation att \<and> ha_attempt (?f ls) = ha_attempt att \<and>
      ha_command (?f ls) = ha_command att \<and> ha_result (?f ls) = ha_result att"
    by (induction ls rule: rev_induct) (simp_all add: push_health_output_def)
  then show ?thesis
    by (intro health_attempt.equality) simp_all
qed

text \<open>
  C28. What a probe records. A probe that was spawned by the current run writes the start of its
  attempt, then the lines its readers delivered, in the order in which they were delivered, while it
  ran and in the drain after it, of each stream as many as its reader delivered, then one result and
  nothing after it. In the session model that is one attempt, the newest of its service, with the
  last 200 of these lines and a final result that has the exit code and the flags (success, failure
  or cancellation) of the verdict.
\<close>

theorem probe_recorded:
  assumes "hs_test hc \<noteq> []" and "po_spawn ob = Inr p"
    and "run_probe hc s g a ob = (res, ws, calls)"
    and "im_get (sm_services m) s = Some e" and "en_latest_begun_run e = g"
    and "\<And>h. h \<in> set (en_health e) \<Longrightarrow> ha_run_generation h \<noteq> g \<or> ha_attempt h \<noteq> a"
  shows "ws = Sink_StartAttempt s g a (command_string hc) #
      line_writes s g a (probe_lines p ob) @ [finish_write s g a res] \<and>
    (\<forall>st. of_stream st (probe_lines p ob) =
       take (count_list (po_before ob @ po_drain ob) st) (pipe_lines st p)) \<and>
    (\<exists>e'. im_get (sm_services (fold (apply_write enc) ws m)) s = Some e' \<and>
       en_health e' = drop (Suc (length (en_health e)) - HEALTH_HISTORY) (en_health e) @
         [probe_record g a (command_string hc) (probe_lines p ob) res])"
proof -
  define ls where "ls = probe_lines p ob"
  have ws: "ws = Sink_StartAttempt s g a (command_string hc) #
      line_writes s g a ls @ [finish_write s g a res]"
    using probe_writes [OF assms(1-3)] by (simp add: ls_def)
  let ?hs = "drop (Suc (length (en_health e)) - HEALTH_HISTORY) (en_health e)"
  let ?att = "\<lparr> ha_run_generation = g, ha_attempt = a,
      ha_command = truncate_to_first_bytes (command_string hc) MODEL_STRING_MAX_BYTES,
      ha_output = [], ha_result = None \<rparr>"
  let ?out = "foldl (\<lambda>att l. push_health_output l att) ?att (map model_line ls)"
  have "open_attempt s g a ?hs (?out\<lparr> ha_result := Some \<lparr> hr_success = (res = Inr Outcome_Healthy),
        hr_exit_code = recorded_code res, hr_cancelled = (res = Inr Outcome_Cancelled) \<rparr> \<rparr>)
      (fold (apply_write enc) ws m)"
    using finish_open_attempt [OF lines_open_attempt [OF start_open_attempt [OF assms(4-6)]]]
    by (simp add: ws finish_write_def)
  moreover have "ha_output ?out = drop (length ls - HEALTH_OUTPUT_MAX_LINES) (map model_line ls)"
    by (simp add: health_output.items_fold)
  then have "?out = ?att\<lparr> ha_output := drop (length ls - HEALTH_OUTPUT_MAX_LINES) (map model_line ls) \<rparr>"
    using fold_push_output [of ?att "map model_line ls"] by metis
  ultimately have "\<exists>e'. im_get (sm_services (fold (apply_write enc) ws m)) s = Some e' \<and>
      en_health e' = ?hs @ [probe_record g a (command_string hc) ls res]"
    by (auto simp: open_attempt_def probe_record_def)
  then show ?thesis
    using ws of_stream_delivered by (simp add: ls_def probe_lines_def)
qed

definition example_probe_spec :: healthcheck_spec where
  "example_probe_spec = healthcheck_spec_default\<lparr> hs_test := [''true''], hs_retries := 2 \<rparr>"

definition example_process :: spawned where
  "example_process =
     \<lparr> pch_stdout = Some ([Inr ''a'', Inr (''b'' @ [CR, LF]), Inr ''c''], True), pch_stderr = None,
       pch_pid = True \<rparr>"

definition example_probe :: probe_obs where
  "example_probe =
     \<lparr> po_spawn = Inr example_process, po_before = [OutputStream_Stdout],
       po_polls = [\<lparr> pp_waitids = [Waitid_Pending True], pp_shutdown = False, pp_terminate = False \<rparr>],
       po_reaped = Inr \<lparr> es_code = Some 0 \<rparr>, po_exited = True, po_drain = [OutputStream_Stdout] \<rparr>"

lemma example_probe_result:
  "fst (run_probe example_probe_spec s g a example_probe) = Inr Outcome_Healthy"
proof -
  have "wait_for_exit_without_reaping [Waitid_Pending True] = Some (Inr ())"
    by (subst wait_for_exit_without_reaping.simps) simp
  then have "fst (select_completion (po_polls example_probe) (po_reaped example_probe) r) =
      Completion_Status (Inr \<lparr> es_code = Some 0 \<rparr>)" for r
    by (simp add: example_probe_def wait_for_probe_status_def)
  then show ?thesis
    by (simp add: run_probe_def example_probe_spec_def example_probe_def Let_def
        complete_probe_def exit_success_def split_beta)
qed

lemma example_probe_lines:
  "probe_lines example_process example_probe =
     [(OutputStream_Stdout, line_text (''ab'' @ [CR, LF])), (OutputStream_Stdout, line_text ''c'')]"
  using probe_lines_exact [of "[''a'', ''b'' @ [CR, LF], ''c'']"]
  by (simp add: probe_lines_def example_process_def example_probe_def LF_def CR_def)

theorem probe_recorded_witness:
  "\<exists>e'. im_get (sm_services (fold (apply_write example_enc)
      (fst (snd (run_probe example_probe_spec ''web'' 0 1 example_probe))) example_model)) ''web'' = Some e' \<and>
    length (en_health e') = 1 \<and>
    map hl_stream (ha_output (last (en_health e'))) = [OutputStream_Stdout, OutputStream_Stdout] \<and>
    map_option hr_success (ha_result (last (en_health e'))) = Some True"
proof -
  obtain res ws calls where r: "run_probe example_probe_spec ''web'' 0 1 example_probe = (res, ws, calls)"
    by (cases "run_probe example_probe_spec ''web'' 0 1 example_probe") auto
  then have "res = Inr Outcome_Healthy"
    using example_probe_result [of "''web''" 0 1] by simp
  moreover have "hs_test example_probe_spec \<noteq> []" "po_spawn example_probe = Inr example_process"
    by (simp_all add: example_probe_spec_def example_probe_def)
  moreover have "\<exists>e'. im_get (sm_services (fold (apply_write example_enc) ws example_model)) ''web'' = Some e' \<and>
      en_health e' = [probe_record 0 1 (command_string example_probe_spec)
        (probe_lines example_process example_probe) res]"
    using probe_recorded [OF calculation(2,3) r example_model_get, where enc = example_enc,
        THEN conjunct2, THEN conjunct2]
    by (simp only: entry_new_def) (simp add: example_snapshot_def snapshot_initial_def)
  ultimately show ?thesis
    using r by (auto simp: probe_record_def example_probe_lines model_line_def HEALTH_OUTPUT_MAX_LINES_def)
qed

section \<open>The verdicts of the loop\<close>

text \<open>
  The reference: from the outcomes of the probes in order (whether each was healthy), the verdicts
  they call for. A service is healthy after every healthy probe, and becomes unhealthy with the
  probe that completes a streak of as many failures as its retries allow, at least one. A cancelled
  probe is no outcome: the loop ends with it.
\<close>

definition streak :: "bool list \<Rightarrow> nat" where
  "streak oks = length (takeWhile Not (rev oks))"

definition verdict_after :: "service_id \<Rightarrow> run_id \<Rightarrow> usize \<Rightarrow> bool list \<Rightarrow> process_event list" where
  "verdict_after s rid retries oks =
     (if last oks then [ProcessEvent_Healthy s rid]
      else if streak oks = max 1 retries then [ProcessEvent_Unhealthy s rid]
      else [])"

definition verdicts :: "service_id \<Rightarrow> run_id \<Rightarrow> usize \<Rightarrow> bool list \<Rightarrow> process_event list" where
  "verdicts s rid retries oks =
     concat (map (\<lambda>i. verdict_after s rid retries (take (Suc i) oks)) [0..<length oks])"

text \<open>
  The outcomes of the turns of the loop up to the first cancelled probe; the attempts are numbered
  from the given one on.
\<close>

fun outcomes :: "healthcheck_spec \<Rightarrow> service_id \<Rightarrow> run_id \<Rightarrow> u64 \<Rightarrow> loop_obs list \<Rightarrow> bool list" where
  "outcomes hc s rid n [] = []"
| "outcomes hc s rid n (ob # obs) =
     (case fst (run_probe hc s rid (n + 1) (lo_probe ob)) of
        Inr Outcome_Cancelled \<Rightarrow> []
      | Inr Outcome_Healthy \<Rightarrow> True # outcomes hc s rid (n + 1) obs
      | Inl _ \<Rightarrow> False # outcomes hc s rid (n + 1) obs)"

lemma streak_snoc [simp]:
  "streak [] = 0" "streak (oks @ [b]) = (if b then 0 else Suc (streak oks))"
  by (simp_all add: streak_def)

lemma verdicts_snoc [simp]:
  "verdicts s rid retries [] = []"
  "verdicts s rid retries (oks @ [b]) =
     verdicts s rid retries oks @ verdict_after s rid retries (oks @ [b])"
proof -
  have same: "map (\<lambda>i. verdict_after s rid retries (take (Suc i) (oks @ [b]))) [0..<length oks] =
      map (\<lambda>i. verdict_after s rid retries (take (Suc i) oks)) [0..<length oks]"
    by (rule map_cong) auto
  then show "verdicts s rid retries (oks @ [b]) =
      verdicts s rid retries oks @ verdict_after s rid retries (oks @ [b])"
    by (simp only: verdicts_def length_append_singleton upt_Suc_append [OF le0] map_append
        concat_append same) simp
qed (simp add: verdicts_def)

lemma verdicts_prefix: "prefix (verdicts s rid retries oks) (verdicts s rid retries (oks @ oks'))"
proof (induction oks' rule: rev_induct)
  case (snoc b oks')
  then show ?case
    using verdicts_snoc(2) [of s rid retries "oks @ oks'" b]
    by (metis append_assoc prefix_order.trans prefixI)
qed simp

definition loop_inv ::
  "service_id \<Rightarrow> run_id \<Rightarrow> usize \<Rightarrow> bool list \<Rightarrow> health_loop \<Rightarrow> bool"
where
  "loop_inv s rid retries oks l \<longleftrightarrow>
     hl_attempt l = min (streak oks) (max 1 retries) \<and>
     (hl_unhealthy l \<longleftrightarrow> max 1 retries \<le> streak oks) \<and>
     hl_events l = verdicts s rid retries oks"

lemma send_health_event_cases:
  assumes "send_health_event so ev l = (sent, l')"
  shows "sent \<and> l' = l\<lparr> hl_events := hl_events l @ [ev] \<rparr> \<or> \<not> sent \<and> l' = l"
  using assms by (auto simp: send_health_event_def split: if_splits)

lemma failure_step:
  assumes "loop_inv s rid retries oks l" "retries \<le> USIZE_MAX"
    and "record_probe_failure s rid retries so l = (goes_on, l')"
  shows "if goes_on then loop_inv s rid retries (oks @ [False]) l'
         else hl_events l' = verdicts s rid retries oks"
proof (cases "hl_unhealthy l")
  case True
  then show ?thesis
    using assms by (auto simp: record_probe_failure_def loop_inv_def verdict_after_def)
next
  case False
  have "usize_saturating_add (hl_attempt l) 1 = Suc (streak oks)"
    using assms(1,2) False by (auto simp: loop_inv_def usize_saturating_add_def USIZE_MAX_def)
  then show ?thesis
    using assms(1,3) False send_health_event_cases
    by (fastforce simp: record_probe_failure_def loop_inv_def verdict_after_def Let_def
        split: if_splits)
qed

lemma turn_step:
  assumes "loop_inv s rid (hs_retries hc) oks l" "hs_retries hc \<le> USIZE_MAX"
    and "probe_turn hc s rid ob l = (goes_on, l')"
    and "run_probe hc s rid (hl_attempt_id l + 1) (lo_probe ob) = (res, ws, calls)"
  shows "if res = Inr Outcome_Cancelled
    then \<not> goes_on \<and> hl_events l' = verdicts s rid (hs_retries hc) oks
    else loop_inv s rid (hs_retries hc) (oks @ [res = Inr Outcome_Healthy]) l' \<or>
      \<not> goes_on \<and> hl_events l' = verdicts s rid (hs_retries hc) oks"
proof -
  let ?l = "l\<lparr> hl_attempt_id := hl_attempt_id l + 1, hl_writes := hl_writes l @ ws \<rparr>"
  have inv: "loop_inv s rid (hs_retries hc) oks ?l"
    using assms(1) by (simp add: loop_inv_def)
  show ?thesis
  proof (cases res)
    case (Inl err)
    then have "record_probe_failure s rid (hs_retries hc) (lo_send ob) ?l =
        (fst (record_probe_failure s rid (hs_retries hc) (lo_send ob) ?l), l')"
        "goes_on \<longrightarrow> fst (record_probe_failure s rid (hs_retries hc) (lo_send ob) ?l)"
      using assms(3,4) by (auto simp: probe_turn_def Let_def split: prod.splits)
    moreover have "(res = Inr Outcome_Healthy) = False" "res \<noteq> Inr Outcome_Cancelled"
      using Inl by simp_all
    ultimately show ?thesis
      using failure_step [OF inv assms(2)] by (smt (verit, best))
  next
    case (Inr out)
    show ?thesis
    proof (cases out)
      case Outcome_Cancelled
      then show ?thesis
        using assms(1,3,4) Inr by (auto simp: probe_turn_def Let_def loop_inv_def)
    next
      case Outcome_Healthy
      obtain sent l1 where
        send: "send_health_event (lo_send ob) (ProcessEvent_Healthy s rid) ?l = (sent, l1)"
        by fastforce
      show ?thesis
        using assms(3,4) Inr Outcome_Healthy send send_health_event_cases [OF send] inv
        by (auto simp: probe_turn_def Let_def loop_inv_def verdict_after_def)
    qed
  qed
qed

lemma attempt_id_step:
  "probe_turn hc s rid ob l = (goes_on, l') \<Longrightarrow> hl_attempt_id l' = hl_attempt_id l + 1"
  by (auto simp: probe_turn_def record_probe_failure_def send_health_event_def Let_def
      split: prod.splits sum.splits health_outcome.splits if_splits)

lemma probe_turns_inv:
  assumes "loop_inv s rid (hs_retries hc) oks l" "hs_retries hc \<le> USIZE_MAX"
    and "probe_turns hc s rid obs l = (goes_on, l')"
  defines "all \<equiv> oks @ outcomes hc s rid (hl_attempt_id l) obs"
  shows "prefix (hl_events l') (verdicts s rid (hs_retries hc) all) \<and>
    (goes_on \<longrightarrow> hl_events l' = verdicts s rid (hs_retries hc) all \<and>
       length (outcomes hc s rid (hl_attempt_id l) obs) = length obs)"
  using assms(1,3) unfolding all_def
proof (induction obs arbitrary: l oks)
  case Nil
  then show ?case by (simp add: loop_inv_def)
next
  case (Cons ob obs)
  obtain g1 l1 where t: "probe_turn hc s rid ob l = (g1, l1)"
    by fastforce
  obtain res ws calls where r: "run_probe hc s rid (hl_attempt_id l + 1) (lo_probe ob) = (res, ws, calls)"
    by (cases "run_probe hc s rid (hl_attempt_id l + 1) (lo_probe ob)") auto
  define ok where "ok \<longleftrightarrow> res = Inr Outcome_Healthy"
  note step = turn_step [OF Cons.prems(1) assms(2) t r, folded ok_def]
  have ended: ?case if "\<not> g1" "hl_events l1 = verdicts s rid (hs_retries hc) oks"
  proof -
    have "hl_events l' = verdicts s rid (hs_retries hc) oks" "\<not> goes_on"
      using Cons.prems(2) t that by auto
    then show ?thesis by (metis verdicts_prefix)
  qed
  show ?case
  proof (cases "res = Inr Outcome_Cancelled")
    case True
    then show ?thesis using step ended by simp
  next
    case False
    then have outs: "outcomes hc s rid (hl_attempt_id l) (ob # obs) =
        ok # outcomes hc s rid (hl_attempt_id l1) obs"
      by (auto simp: ok_def r attempt_id_step [OF t] split: sum.split health_outcome.split)
    then have all: "oks @ outcomes hc s rid (hl_attempt_id l) (ob # obs) =
        (oks @ [ok]) @ outcomes hc s rid (hl_attempt_id l1) obs" by simp
    from step False consider "loop_inv s rid (hs_retries hc) (oks @ [ok]) l1"
      | "\<not> g1" "hl_events l1 = verdicts s rid (hs_retries hc) oks" by auto
    then show ?thesis
    proof cases
      case 1
      show ?thesis
      proof (cases g1)
        case True
        then show ?thesis
          using Cons.IH [OF 1] Cons.prems(2) t outs unfolding all by simp
      next
        case g1: False
        then have "hl_events l' = verdicts s rid (hs_retries hc) (oks @ [ok])" "\<not> goes_on"
          using Cons.prems(2) t 1 by (auto simp: loop_inv_def simp del: verdicts_snoc)
        then show ?thesis
          unfolding all by (metis verdicts_prefix)
      qed
    qed (rule ended)
  qed
qed


definition failing_turn :: loop_obs where
  "failing_turn =
     \<lparr> lo_probe = example_probe\<lparr> po_spawn := Inl ''no such file'' \<rparr>,
       lo_send = \<lparr> so_shutdown = False, so_terminate = False, so_open = True \<rparr>, lo_pause = True \<rparr>"


end
