(* ===== verification/Session_Probe.thy ===== *)
theory Session_Probe
  imports Control_Frames Config_Session
begin

text \<open>
  Control endpoints and the probes that find sessions: \<^verbatim>\<open>src/crates/micromux-control/src/endpoint.rs\<close>
  and \<^verbatim>\<open>src/crates/micromux-control/src/client.rs\<close>. What the operating system and the peers answer is
  a parameter: one record for each time the endpoints are probed.
\<close>

section \<open>Endpoints\<close>

datatype control_endpoint =
    ControlEndpoint_Unix string
  | ControlEndpoint_WindowsNamedPipe string

fun endpoint_text :: "control_endpoint \<Rightarrow> string" where
  "endpoint_text (ControlEndpoint_Unix path) = path"
| "endpoint_text (ControlEndpoint_WindowsNamedPipe name) = name"

record runtime_dir_status =
  rd_path :: string
  rd_usable :: bool
  rd_error :: "string option"

definition usable_runtime_dirs :: "runtime_dir_status list \<Rightarrow> string list" where
  "usable_runtime_dirs statuses = map rd_path (filter rd_usable statuses)"

text \<open>The first eight bytes of the SHA-256 digest of a path, in hexadecimal.\<close>

definition hex_nibble :: "nat \<Rightarrow> char" where
  "hex_nibble n = ''0123456789abcdef'' ! n"

definition hash_path :: "(string \<Rightarrow> string) \<Rightarrow> string \<Rightarrow> string" where
  "hash_path sha256 path =
     concat (map (\<lambda>b. let n = (of_char b :: nat) in [hex_nibble (n div 16), hex_nibble (n mod 16)])
       (take 8 (sha256 path)))"

definition endpoint_from_hash :: "string \<Rightarrow> string \<Rightarrow> control_endpoint" where
  "endpoint_from_hash runtime_dir hash = ControlEndpoint_Unix (path_join runtime_dir (hash @ ''.sock''))"

definition endpoint_for :: "(string \<Rightarrow> string) \<Rightarrow> string \<Rightarrow> string \<Rightarrow> control_endpoint" where
  "endpoint_for sha256 runtime_dir config_path =
     endpoint_from_hash runtime_dir (hash_path sha256 config_path)"

text \<open>The candidates for the runtime directory, the first place of each kept.\<close>

definition push_unique :: "string list \<Rightarrow> string \<Rightarrow> string list" where
  "push_unique candidates c = (if c \<in> set candidates then candidates else candidates @ [c])"

definition runtime_dir_candidates :: "string option \<Rightarrow> string option \<Rightarrow> string option \<Rightarrow> string \<Rightarrow> string list"
where
  "runtime_dir_candidates project xdg systemd fallback =
     foldl push_unique [] (option_list project @ option_list xdg @ option_list systemd @ [fallback])"

definition runtime_dir_statuses :: "(string \<Rightarrow> string option) \<Rightarrow> string list \<Rightarrow> runtime_dir_status list" where
  "runtime_dir_statuses ensure_private candidates =
     map (\<lambda>path. case ensure_private path of
            None \<Rightarrow> \<lparr> rd_path = path, rd_usable = True, rd_error = None \<rparr>
          | Some err \<Rightarrow> \<lparr> rd_path = path, rd_usable = False, rd_error = Some err \<rparr>) candidates"

fun runtime_dir :: "(string \<Rightarrow> string option) \<Rightarrow> string list \<Rightarrow> string option" where
  "runtime_dir ensure_private [] = None"
| "runtime_dir ensure_private (path # paths) =
     (case ensure_private path of None \<Rightarrow> Some path | Some err \<Rightarrow> runtime_dir ensure_private paths)"

section \<open>Errors of the client\<close>

datatype io_error_kind = IoKind_NotFound | IoKind_ConnectionRefused | IoKind_Other

datatype control_error =
    ControlError_Io io_error_kind string
  | ControlError_Serde string
  | ControlError_Unsupported
  | ControlError_Closed
  | ControlError_FrameTooLarge
  | ControlError_Timeout
  | ControlError_ProtocolMismatch protocol_version protocol_version
  | ControlError_Unexpected string

definition version_text :: "protocol_version \<Rightarrow> string" where
  "version_text v = decimal (unat (pv_major v)) @ ''.'' @ decimal (unat (pv_minor v))"

fun control_error_text :: "control_error \<Rightarrow> string" where
  "control_error_text (ControlError_Io iok message) = message"
| "control_error_text (ControlError_Serde message) =
     ''control protocol serialization error: '' @ message"
| "control_error_text ControlError_Unsupported = ''the control plane is not supported on this platform''"
| "control_error_text ControlError_Closed = ''control connection closed''"
| "control_error_text ControlError_FrameTooLarge = ''control protocol frame exceeded the maximum size''"
| "control_error_text ControlError_Timeout = ''control request timed out''"
| "control_error_text (ControlError_ProtocolMismatch peer ours) =
     ''control protocol version mismatch: peer='' @ version_text peer @ '', ours='' @ version_text ours"
| "control_error_text (ControlError_Unexpected message) = ''unexpected control response: '' @ message"

definition is_hard_connection_error :: "io_error_kind \<Rightarrow> bool" where
  "is_hard_connection_error iok \<longleftrightarrow> iok = IoKind_NotFound \<or> iok = IoKind_ConnectionRefused"

section \<open>Probing\<close>

text \<open>
  What happens at an endpoint within the time of a probe: nothing in time, the connect fails, or the
  \<^verbatim>\<open>Describe\<close> request is answered or fails.
\<close>

datatype dial =
    Dial_TimedOut
  | Dial_ConnectFailed control_error
  | Dial_Requested "control_error + response"

text \<open>The environment a client observes: peers, files, and the debug format of a reply.\<close>

record control_os =
  co_dial :: "control_endpoint \<Rightarrow> dial"
  co_is_socket :: "string \<Rightarrow> bool"
  co_read_dir :: "string \<Rightarrow> string list option"
  co_is_file :: "string \<Rightarrow> bool"
  co_canonicalize :: "string \<Rightarrow> string option"
  co_debug :: "response \<Rightarrow> string"

datatype endpoint_probe_result =
    EndpointProbeResult_Session session_info
  | EndpointProbeResult_Absent string
  | EndpointProbeResult_ProtocolMismatch protocol_version protocol_version
  | EndpointProbeResult_Unreachable string

record endpoint_probe =
  ep_endpoint :: control_endpoint
  ep_result :: endpoint_probe_result

definition client_describe :: "control_os \<Rightarrow> control_error + response \<Rightarrow> control_error + session_info"
where
  "client_describe os reply =
     (case reply of
        Inl err \<Rightarrow> Inl err
      | Inr (Response_Description info) \<Rightarrow>
          if is_compatible_with PROTOCOL_VERSION (si_protocol_version info) then Inr info
          else Inl (ControlError_ProtocolMismatch (si_protocol_version info) PROTOCOL_VERSION)
      | Inr other \<Rightarrow> Inl (ControlError_Unexpected (co_debug os other)))"

definition endpoint_path_is_socket :: "control_os \<Rightarrow> control_endpoint \<Rightarrow> bool" where
  "endpoint_path_is_socket os endpoint =
     (case endpoint of
        ControlEndpoint_Unix path \<Rightarrow> co_is_socket os path
      | ControlEndpoint_WindowsNamedPipe _ \<Rightarrow> False)"

definition probe_result :: "control_os \<Rightarrow> control_endpoint \<Rightarrow> endpoint_probe_result" where
  "probe_result os endpoint =
     (case co_dial os endpoint of
        Dial_TimedOut \<Rightarrow> EndpointProbeResult_Unreachable ''probe timed out''
      | Dial_ConnectFailed err \<Rightarrow>
          (case err of
             ControlError_Io iok message \<Rightarrow>
               if is_hard_connection_error iok \<or> \<not> endpoint_path_is_socket os endpoint
               then EndpointProbeResult_Absent (''connect: '' @ message)
               else EndpointProbeResult_Unreachable (control_error_text err)
           | _ \<Rightarrow> EndpointProbeResult_Unreachable (control_error_text err))
      | Dial_Requested reply \<Rightarrow>
          (case client_describe os reply of
             Inr info \<Rightarrow> EndpointProbeResult_Session info
           | Inl (ControlError_ProtocolMismatch peer ours) \<Rightarrow>
               EndpointProbeResult_ProtocolMismatch peer ours
           | Inl (ControlError_Io iok message) \<Rightarrow>
               if is_hard_connection_error iok
               then EndpointProbeResult_Absent (''describe: '' @ message)
               else EndpointProbeResult_Unreachable message
           | Inl ControlError_Closed \<Rightarrow> EndpointProbeResult_Unreachable ''closed before Describe''
           | Inl err \<Rightarrow> EndpointProbeResult_Unreachable (control_error_text err)))"

definition probe_endpoint :: "control_os \<Rightarrow> control_endpoint \<Rightarrow> endpoint_probe" where
  "probe_endpoint os endpoint = \<lparr> ep_endpoint = endpoint, ep_result = probe_result os endpoint \<rparr>"

definition probe_endpoints :: "control_os \<Rightarrow> control_endpoint list \<Rightarrow> endpoint_probe list" where
  "probe_endpoints os endpoints = map (probe_endpoint os) endpoints"

text \<open>\<^verbatim>\<open>Path::extension\<close> of a file name: what follows its last dot, unless the dot comes first.\<close>

definition file_extension :: "string \<Rightarrow> string option" where
  "file_extension name =
     (let tail = takeWhile (\<lambda>c. c \<noteq> CHR ''.'') (rev name) in
      if length tail + 1 < length name \<and> name \<noteq> ''..'' then Some (rev tail) else None)"

definition runtime_dir_endpoints :: "control_os \<Rightarrow> string \<Rightarrow> control_endpoint list" where
  "runtime_dir_endpoints os dir =
     (case co_read_dir os dir of
        None \<Rightarrow> []
      | Some names \<Rightarrow>
          map (\<lambda>name. ControlEndpoint_Unix (path_join dir name))
            (sort (filter (\<lambda>name. file_extension name = Some ''sock'') names)))"

definition probe_runtime_dirs :: "control_os \<Rightarrow> string list \<Rightarrow> endpoint_probe list" where
  "probe_runtime_dirs os dirs = probe_endpoints os (concat (map (runtime_dir_endpoints os) dirs))"

section \<open>Answering sessions\<close>

type_synonym answering = "control_endpoint \<times> session_info"

definition answering_session_probes :: "endpoint_probe list \<Rightarrow> answering list" where
  "answering_session_probes probes =
     List.map_filter
       (\<lambda>p. case ep_result p of EndpointProbeResult_Session info \<Rightarrow> Some (ep_endpoint p, info) | _ \<Rightarrow> None)
       probes"

definition add_session :: "answering list \<Rightarrow> answering \<Rightarrow> answering list" where
  "add_session sessions s =
     (if \<exists>e \<in> set sessions. is_same_instance (snd e) (snd s) then sessions else sessions @ [s])"

definition unique_answering_session_probes :: "endpoint_probe list \<Rightarrow> answering list" where
  "unique_answering_session_probes probes = foldl add_session [] (answering_session_probes probes)"

end
