(* ===== verification/Session_Select.thy ===== *)
theory Session_Select
  imports Session_Probe Structured_Log
begin

text \<open>
  Selecting a live session: \<^verbatim>\<open>src/crates/micromux-control/src/select.rs\<close>. A resolution may probe twice,
  first the endpoints it can derive and then every endpoint of the runtime directories; the
  environment may differ, so each takes its own.
\<close>

section \<open>Selectors and errors\<close>

datatype session_selector =
    SessionSelector_Current
  | SessionSelector_Name string
  | SessionSelector_Pid u32
  | SessionSelector_ConfigHash string

definition parse_u32 :: "string \<Rightarrow> int_error + u32" where
  "parse_u32 s = map_sum id of_nat (parse_unsigned (2 ^ 32 - 1) s)"

definition selector_parse :: "string \<Rightarrow> session_selector" where
  "selector_parse raw =
     (let raw = trim raw in
      if raw = [] \<or> eq_ignore_ascii_case raw ''current'' then SessionSelector_Current
      else case strip_prefix ''pid:'' raw of
        Some pid \<Rightarrow>
          (case parse_u32 (trim pid) of
             Inl _ \<Rightarrow> SessionSelector_Name raw
           | Inr pid \<Rightarrow> SessionSelector_Pid pid)
      | None \<Rightarrow>
          (case strip_prefix ''hash:'' raw of
             Some hash \<Rightarrow> SessionSelector_ConfigHash (trim hash)
           | None \<Rightarrow>
               (case strip_prefix ''name:'' raw of
                  Some name \<Rightarrow> SessionSelector_Name (trim name)
                | None \<Rightarrow> SessionSelector_Name raw)))"

datatype socket_probe_status =
    SocketProbeStatus_Session | SocketProbeStatus_Absent | SocketProbeStatus_ProtocolMismatch
  | SocketProbeStatus_Unreachable

record socket_probe_detail =
  sd_endpoint :: string
  sd_status :: socket_probe_status
  sd_message :: "string option"
  sd_peer_protocol_version :: "protocol_version option"
  sd_client_protocol_version :: "protocol_version option"
  sd_session :: "session_info option"

record probe_report =
  pr_summary :: string
  pr_config_path :: "string option"
  pr_runtime_dirs :: "runtime_dir_status list"
  pr_socket_probes :: "socket_probe_detail list"

datatype select_error =
    SelectError_NoSession probe_report
  | SelectError_Ambiguous string "session_info list"
  | SelectError_Busy string
  | SelectError_Unsupported
  | SelectError_Control control_error

fun select_error_from :: "control_error \<Rightarrow> select_error" where
  "select_error_from ControlError_Unsupported = SelectError_Unsupported"
| "select_error_from ControlError_Timeout =
     SelectError_Busy ''the micromux session did not answer in time''"
| "select_error_from other = SelectError_Control other"

type_synonym resolved = "select_error + answering"

section \<open>Reports\<close>

fun probe_detail :: "endpoint_probe \<Rightarrow> socket_probe_detail" where
  "probe_detail p =
     (let detail = (\<lambda>status message peer session.
            \<lparr> sd_endpoint = endpoint_text (ep_endpoint p), sd_status = status, sd_message = message,
              sd_peer_protocol_version = peer, sd_client_protocol_version = Some PROTOCOL_VERSION,
              sd_session = session \<rparr>)
      in case ep_result p of
           EndpointProbeResult_Session info \<Rightarrow>
             detail SocketProbeStatus_Session None (Some (si_protocol_version info)) (Some info)
         | EndpointProbeResult_Absent reason \<Rightarrow> detail SocketProbeStatus_Absent (Some reason) None None
         | EndpointProbeResult_ProtocolMismatch peer ours \<Rightarrow>
             (detail SocketProbeStatus_ProtocolMismatch
                (Some (''control protocol version mismatch: peer='' @ version_text peer @
                       '', ours='' @ version_text ours)) (Some peer) None)
             \<lparr> sd_client_protocol_version := Some ours \<rparr>
         | EndpointProbeResult_Unreachable reason \<Rightarrow>
             detail SocketProbeStatus_Unreachable (Some reason) None None)"

definition unusable_message :: "endpoint_probe \<Rightarrow> string option" where
  "unusable_message p =
     (case ep_result p of
        EndpointProbeResult_ProtocolMismatch peer ours \<Rightarrow>
          Some (endpoint_text (ep_endpoint p) @ '' -> protocol mismatch: peer='' @ version_text peer @
                '', ours='' @ version_text ours)
      | EndpointProbeResult_Unreachable reason \<Rightarrow>
          Some (endpoint_text (ep_endpoint p) @ '' -> '' @ reason)
      | _ \<Rightarrow> None)"

definition unusable_messages :: "endpoint_probe list \<Rightarrow> string list" where
  "unusable_messages probes = List.map_filter unusable_message probes"

definition ambiguous_selection :: "string \<Rightarrow> answering list \<Rightarrow> select_error" where
  "ambiguous_selection message matches = SelectError_Ambiguous message (map snd matches)"

definition classify_probe_matches ::
  "answering list \<Rightarrow> endpoint_probe list \<Rightarrow> string \<Rightarrow> string \<Rightarrow> string \<Rightarrow>
   (socket_probe_detail list \<Rightarrow> probe_report) \<Rightarrow> resolved"
where
  "classify_probe_matches matches probes describe hint busy_unit report =
     (if 1 < length matches then
        Inl (ambiguous_selection (describe @ '' matched '' @ decimal (length matches) @
               '' live sessions; '' @ hint) matches)
      else case matches of
        resolved # _ \<Rightarrow> Inr resolved
      | [] \<Rightarrow>
          (let unusable = unusable_messages probes in
           if unusable \<noteq> [] then
             Inl (SelectError_Busy (''no answering session matched '' @ describe @ ''; '' @
               decimal (length unusable) @ '' live '' @ busy_unit @
               '' were reachable but unusable and may be the target: '' @ join_with ''; '' unusable))
           else Inl (SelectError_NoSession (report (map probe_detail probes)))))"

section \<open>Resolving by name, process or hash\<close>

definition make_report ::
  "string \<Rightarrow> string option \<Rightarrow> runtime_dir_status list \<Rightarrow> socket_probe_detail list \<Rightarrow> probe_report"
where
  "make_report summary config_path statuses probes =
     \<lparr> pr_summary = summary, pr_config_path = config_path, pr_runtime_dirs = statuses,
       pr_socket_probes = probes \<rparr>"

definition resolve_scanned_selector ::
  "control_os \<Rightarrow> string list \<Rightarrow> runtime_dir_status list \<Rightarrow> string \<Rightarrow> string \<Rightarrow>
   (session_info \<Rightarrow> bool) \<Rightarrow> resolved"
where
  "resolve_scanned_selector os dirs statuses describe hint matches =
     (let probes = probe_runtime_dirs os dirs in
      classify_probe_matches
        (filter (\<lambda>(endpoint, info). matches info) (unique_answering_session_probes probes))
        probes describe hint ''session(s)''
        (make_report (''no session matched '' @ describe) None statuses))"

definition resolve_name :: "control_os \<Rightarrow> string list \<Rightarrow> runtime_dir_status list \<Rightarrow> string \<Rightarrow> resolved" where
  "resolve_name os dirs statuses name =
     resolve_scanned_selector os dirs statuses (''name `'' @ name @ ''`'')
       ''use pid: or hash: to disambiguate'' (\<lambda>info. si_name info = name)"

definition resolve_pid :: "control_os \<Rightarrow> string list \<Rightarrow> runtime_dir_status list \<Rightarrow> u32 \<Rightarrow> resolved" where
  "resolve_pid os dirs statuses pid =
     resolve_scanned_selector os dirs statuses (''pid '' @ decimal (unat pid))
       ''use hash: to disambiguate'' (\<lambda>info. si_pid info = pid)"

definition verify_any ::
  "control_os \<Rightarrow> control_endpoint list \<Rightarrow> string \<Rightarrow> (socket_probe_detail list \<Rightarrow> probe_report) \<Rightarrow> resolved"
where
  "verify_any os endpoints describe absent =
     (let probes = probe_endpoints os endpoints in
      classify_probe_matches (unique_answering_session_probes probes) probes describe
        ''use pid: or name: to disambiguate'' ''endpoint(s)'' absent)"

definition resolve_hash :: "control_os \<Rightarrow> string list \<Rightarrow> runtime_dir_status list \<Rightarrow> string \<Rightarrow> resolved" where
  "resolve_hash os dirs statuses hash =
     verify_any os (map (\<lambda>dir. endpoint_from_hash dir hash) dirs) (''hash '' @ hash)
       (make_report (''no session with hash '' @ hash) None statuses)"

section \<open>Resolving the current configuration\<close>

text \<open>\<^verbatim>\<open>Path::parent\<close> of any path.\<close>

definition dir_parent :: "string \<Rightarrow> string option" where
  "dir_parent path =
     (if is_absolute path then path_parent path
      else if path = [] then None
      else Some (rev (drop 1 (dropWhile (\<lambda>c. c \<noteq> CHR ''/'') (rev path)))))"

definition first_config :: "control_os \<Rightarrow> string \<Rightarrow> string option" where
  "first_config os dir =
     (case List.map_filter (\<lambda>name. co_canonicalize os (path_join dir name)) config_file_names of
        [] \<Rightarrow> None | path # _ \<Rightarrow> Some path)"

lemma dropWhile_length: "length (dropWhile P xs) \<le> length xs"
  by (induction xs) auto

lemma dir_parent_shorter: "dir_parent p = Some q \<Longrightarrow> length q < length p"
proof -
  assume p: "dir_parent p = Some q"
  have "length (dropWhile (\<lambda>c. c \<noteq> CHR ''/'') (rev p)) \<le> length p"
    using dropWhile_length [of _ "rev p"] by simp
  moreover have "p \<noteq> []"
    using p by (auto simp: dir_parent_def path_parent_def is_absolute_def)
  moreover have "length p \<noteq> 1" if "is_absolute p"
    using that p by (auto simp: is_absolute_def dir_parent_def path_parent_def length_Suc_conv
        split: list.splits)
  ultimately show ?thesis
    using p by (cases p) (auto simp: dir_parent_def path_parent_def Let_def split: if_splits)
qed

function find_config_upward :: "control_os \<Rightarrow> string option \<Rightarrow> string \<Rightarrow> string option" where
  "find_config_upward os home directory =
     (case first_config os directory of
        Some path \<Rightarrow> Some path
      | None \<Rightarrow>
          if home = Some directory then None
          else case dir_parent directory of
                 Some parent \<Rightarrow> find_config_upward os home parent
               | None \<Rightarrow> None)"
  by pat_completeness auto
termination
  by (relation "measure (\<lambda>(os, home, dir). length dir)") (auto simp: dir_parent_shorter)

declare find_config_upward.simps [simp del]

definition config_for_target :: "control_os \<Rightarrow> string option \<Rightarrow> string \<Rightarrow> string option" where
  "config_for_target os home path =
     (if co_is_file os path then co_canonicalize os path else find_config_upward os home path)"

definition session_matches_config_path :: "(string \<Rightarrow> string) \<Rightarrow> session_info \<Rightarrow> string \<Rightarrow> bool" where
  "session_matches_config_path sha256 info config_path \<longleftrightarrow> si_id info = hash_path sha256 config_path"

definition canonicalize_for_match :: "control_os \<Rightarrow> string \<Rightarrow> string" where
  "canonicalize_for_match os path = (case co_canonicalize os path of None \<Rightarrow> path | Some p \<Rightarrow> p)"

definition session_config_path_is_under :: "control_os \<Rightarrow> session_info \<Rightarrow> string \<Rightarrow> bool" where
  "session_config_path_is_under os info directory \<longleftrightarrow>
     si_config_path info \<noteq> [] \<and>
     path_starts_with (canonicalize_for_match os (si_config_path info))
       (canonicalize_for_match os directory)"

definition current_scan_matches :: "endpoint_probe list \<Rightarrow> (session_info \<Rightarrow> bool) \<Rightarrow> answering list" where
  "current_scan_matches probes matches =
     filter (\<lambda>(endpoint, info). matches info) (unique_answering_session_probes probes)"

definition resolve_unique_current_scan_matches ::
  "answering list \<Rightarrow> string \<Rightarrow> select_error + answering option"
where
  "resolve_unique_current_scan_matches matches describe =
     (if 1 < length matches then
        Inl (ambiguous_selection (describe @ '' matched '' @ decimal (length matches) @
               '' live sessions; use pid: or name: to disambiguate'') matches)
      else Inr (case matches of [] \<Rightarrow> None | resolved # _ \<Rightarrow> Some resolved))"

definition resolve_current_config_matches ::
  "(string \<Rightarrow> string) \<Rightarrow> endpoint_probe list \<Rightarrow> string \<Rightarrow> select_error + answering option"
where
  "resolve_current_config_matches sha256 probes config_path =
     resolve_unique_current_scan_matches
       (current_scan_matches probes (\<lambda>info. session_matches_config_path sha256 info config_path))
       ''the current config''"

definition resolve_current_config_by_scanning ::
  "(string \<Rightarrow> string) \<Rightarrow> control_os \<Rightarrow> string list \<Rightarrow> string \<Rightarrow> select_error + answering option"
where
  "resolve_current_config_by_scanning sha256 os dirs config_path =
     resolve_current_config_matches sha256 (probe_runtime_dirs os dirs) config_path"

definition resolve_current_project_by_scanning ::
  "(string \<Rightarrow> string) \<Rightarrow> control_os \<Rightarrow> string list \<Rightarrow> string \<Rightarrow> string \<Rightarrow> select_error + answering option"
where
  "resolve_current_project_by_scanning sha256 os dirs cwd config_path =
     (let probes = probe_runtime_dirs os dirs in
      and_then (resolve_current_config_matches sha256 probes config_path) (\<lambda>found.
        case found of
          Some resolved \<Rightarrow> Inr (Some resolved)
        | None \<Rightarrow>
            resolve_unique_current_scan_matches
              (current_scan_matches probes (\<lambda>info. session_config_path_is_under os info cwd))
              ''a config under the current directory''))"

definition or_error :: "select_error \<Rightarrow> answering option \<Rightarrow> resolved" where
  "or_error err found = (case found of Some resolved \<Rightarrow> Inr resolved | None \<Rightarrow> Inl err)"

definition no_session_summary :: "string \<Rightarrow> string" where
  "no_session_summary config_path =
     ''no running micromux session for '' @ config_path @
     ''; start one with the start_session tool, or run `micromux` in '' @
     (case path_parent config_path of None \<Rightarrow> config_path | Some dir \<Rightarrow> dir)"

text \<open>The endpoints derived from the configuration are probed in \<open>os\<close>, the scan in \<open>later\<close>.\<close>

definition resolve_current ::
  "(string \<Rightarrow> string) \<Rightarrow> string option \<Rightarrow> control_os \<Rightarrow> control_os \<Rightarrow> string list \<Rightarrow> runtime_dir_status list \<Rightarrow>
   string \<Rightarrow> string option \<Rightarrow> resolved"
where
  "resolve_current sha256 home os later dirs statuses cwd config_override =
     (let target = (case config_override of None \<Rightarrow> cwd | Some path \<Rightarrow> path) in
      case config_for_target os home target of
        None \<Rightarrow>
          Inl (SelectError_NoSession (make_report
            (if config_override \<noteq> None then ''no micromux config found at or above '' @ target
             else ''no micromux config found from the current directory'') None statuses []))
      | Some config_path \<Rightarrow>
          (case verify_any os (map (\<lambda>dir. endpoint_for sha256 dir config_path) dirs) ''the current config''
                  (make_report (no_session_summary config_path) (Some config_path) statuses) of
             Inr resolved \<Rightarrow> Inr resolved
           | Inl (SelectError_Busy message) \<Rightarrow>
               and_then (resolve_current_config_by_scanning sha256 later dirs config_path)
                 (or_error (SelectError_Busy message))
           | Inl (SelectError_NoSession report) \<Rightarrow>
               and_then (if config_override \<noteq> None
                         then resolve_current_config_by_scanning sha256 later dirs config_path
                         else resolve_current_project_by_scanning sha256 later dirs cwd config_path)
                 (or_error (SelectError_NoSession report))
           | Inl err \<Rightarrow> Inl err))"

definition resolve_selector_in_runtime_dirs ::
  "(string \<Rightarrow> string) \<Rightarrow> string option \<Rightarrow> control_os \<Rightarrow> control_os \<Rightarrow> string list \<Rightarrow> runtime_dir_status list \<Rightarrow>
   string \<Rightarrow> session_selector option \<Rightarrow> string option \<Rightarrow> resolved"
where
  "resolve_selector_in_runtime_dirs sha256 home os later dirs statuses cwd selector config_override =
     (case (case selector of None \<Rightarrow> SessionSelector_Current | Some s \<Rightarrow> s) of
        SessionSelector_Current \<Rightarrow>
          resolve_current sha256 home os later dirs statuses cwd config_override
      | SessionSelector_ConfigHash hash \<Rightarrow> resolve_hash os dirs statuses hash
      | SessionSelector_Name name \<Rightarrow> resolve_name os dirs statuses name
      | SessionSelector_Pid pid \<Rightarrow> resolve_pid os dirs statuses pid)"

text \<open>On Unix, where the transport is supported.\<close>

definition resolve_selector ::
  "(string \<Rightarrow> string) \<Rightarrow> string option \<Rightarrow> control_os \<Rightarrow> control_os \<Rightarrow> runtime_dir_status list \<Rightarrow>
   string \<Rightarrow> session_selector option \<Rightarrow> string option \<Rightarrow> resolved"
where
  "resolve_selector sha256 home os later statuses cwd selector config_override =
     (let dirs = usable_runtime_dirs statuses in
      if dirs = [] then
        Inl (SelectError_NoSession (make_report ''no runtime directory could be resolved'' None statuses []))
      else resolve_selector_in_runtime_dirs sha256 home os later dirs statuses cwd selector config_override)"

end
