(* ===== verification/Session_Select_Facts.thy ===== *)
theory Session_Select_Facts
  imports Session_Select
begin

text \<open>
  What session selection guarantees: it never guesses between sessions, and never takes another
  session for one that is there but does not answer properly.
\<close>

section \<open>Distinct instances\<close>

lemma same_instance_refl [simp]: "is_same_instance a a"
  by (simp add: is_same_instance_def)

lemma same_instance_sym: "is_same_instance a b \<Longrightarrow> is_same_instance b a"
  by (simp add: is_same_instance_def)

lemma same_instance_trans: "is_same_instance a b \<Longrightarrow> is_same_instance b c \<Longrightarrow> is_same_instance a c"
  by (simp add: is_same_instance_def)

definition distinct_instances :: "answering list \<Rightarrow> bool" where
  "distinct_instances = sorted_wrt (\<lambda>a b. \<not> is_same_instance (snd a) (snd b))"

lemma add_sessions:
  assumes "distinct_instances us"
  shows "distinct_instances (foldl add_session us ss) \<and>
    set (foldl add_session us ss) \<subseteq> set us \<union> set ss \<and>
    (\<forall>s \<in> set us \<union> set ss. \<exists>u \<in> set (foldl add_session us ss). is_same_instance (snd u) (snd s))"
  using assms
proof (induction ss arbitrary: us)
  case Nil
  then show ?case by (auto intro: same_instance_refl)
next
  case (Cons s ss)
  have step: "distinct_instances (add_session us s)" "set (add_session us s) \<subseteq> insert s (set us)"
      "\<exists>u \<in> set (add_session us s). is_same_instance (snd u) (snd s)" "set us \<subseteq> set (add_session us s)"
    using Cons.prems by (auto simp: add_session_def distinct_instances_def sorted_wrt_append)
  note IH = Cons.IH [OF step(1)]
  have "\<exists>u \<in> set (foldl add_session us (s # ss)). is_same_instance (snd u) (snd x)"
    if "x \<in> set us \<union> set (s # ss)" for x
  proof (cases "x = s")
    case True
    obtain u where u: "u \<in> set (add_session us s)" "is_same_instance (snd u) (snd s)"
      using step(3) by blast
    then obtain u' where "u' \<in> set (foldl add_session (add_session us s) ss)"
        "is_same_instance (snd u') (snd u)"
      using IH by blast
    then show ?thesis
      using u(2) True same_instance_trans by auto
  next
    case False
    then show ?thesis
      using IH that step(4) by auto
  qed
  then show ?case
    using IH step(2) by auto
qed

lemma unique_sessions:
  "distinct_instances (unique_answering_session_probes ps)"
  "u \<in> set (unique_answering_session_probes ps) \<Longrightarrow> u \<in> set (answering_session_probes ps)"
  "s \<in> set (answering_session_probes ps) \<Longrightarrow>
     \<exists>u \<in> set (unique_answering_session_probes ps). is_same_instance (snd u) (snd s)"
  using add_sessions [of "[]" "answering_session_probes ps"]
  by (auto simp: unique_answering_session_probes_def distinct_instances_def)

lemma answering_probes:
  "(ep, info) \<in> set (answering_session_probes (probe_endpoints os eps)) \<longleftrightarrow>
     ep \<in> set eps \<and> probe_result os ep = EndpointProbeResult_Session info"
  by (induction eps) (auto simp: answering_session_probes_def probe_endpoints_def probe_endpoint_def
      map_filter_simps split: endpoint_probe_result.splits)

lemma unusable_probes:
  "unusable_messages (probe_endpoints os eps) \<noteq> [] \<longleftrightarrow>
     (\<exists>ep \<in> set eps. (\<exists>peer ours. probe_result os ep = EndpointProbeResult_ProtocolMismatch peer ours) \<or>
        (\<exists>reason. probe_result os ep = EndpointProbeResult_Unreachable reason))"
  by (induction eps) (auto simp: unusable_messages_def probe_endpoints_def probe_endpoint_def
      map_filter_simps unusable_message_def split: endpoint_probe_result.splits)

section \<open>Matches\<close>

text \<open>The endpoints of a scan, and the sessions that answer at some endpoints.\<close>

definition scanned :: "control_os \<Rightarrow> string list \<Rightarrow> control_endpoint set" where
  "scanned os dirs = (\<Union>dir \<in> set dirs. set (runtime_dir_endpoints os dir))"

definition answers :: "control_os \<Rightarrow> control_endpoint set \<Rightarrow> control_endpoint \<Rightarrow> session_info \<Rightarrow> bool" where
  "answers os eps ep info \<longleftrightarrow> ep \<in> eps \<and> probe_result os ep = EndpointProbeResult_Session info"

definition unusable :: "control_os \<Rightarrow> control_endpoint \<Rightarrow> bool" where
  "unusable os ep \<longleftrightarrow>
     (case probe_result os ep of
        EndpointProbeResult_ProtocolMismatch _ _ \<Rightarrow> True
      | EndpointProbeResult_Unreachable _ \<Rightarrow> True
      | _ \<Rightarrow> False)"

lemma unusable_iff:
  "unusable os ep \<longleftrightarrow> (\<exists>peer ours. probe_result os ep = EndpointProbeResult_ProtocolMismatch peer ours) \<or>
     (\<exists>reason. probe_result os ep = EndpointProbeResult_Unreachable reason)"
  by (simp add: unusable_def split: endpoint_probe_result.split)

text \<open>What a resolution may answer, given the sessions that match among some endpoints.\<close>

fun resolution_ok ::
  "control_os \<Rightarrow> control_endpoint set \<Rightarrow> (session_info \<Rightarrow> bool) \<Rightarrow> resolved \<Rightarrow> bool"
where
  "resolution_ok os eps matches (Inr (ep, info)) \<longleftrightarrow>
     answers os eps ep info \<and> matches info \<and>
     (\<forall>ep' info'. answers os eps ep' info' \<and> matches info' \<longrightarrow> is_same_instance info info')"
| "resolution_ok os eps matches (Inl (SelectError_Ambiguous message infos)) \<longleftrightarrow>
     2 \<le> length infos \<and> sorted_wrt (\<lambda>a b. \<not> is_same_instance a b) infos \<and>
     (\<forall>info \<in> set infos. matches info \<and> (\<exists>ep. answers os eps ep info))"
| "resolution_ok os eps matches (Inl (SelectError_Busy message)) \<longleftrightarrow>
     (\<forall>ep info. answers os eps ep info \<longrightarrow> \<not> matches info) \<and> (\<exists>ep \<in> eps. unusable os ep)"
| "resolution_ok os eps matches (Inl (SelectError_NoSession report)) \<longleftrightarrow>
     (\<forall>ep info. answers os eps ep info \<longrightarrow> \<not> matches info) \<and> (\<forall>ep \<in> eps. \<not> unusable os ep)"
| "resolution_ok os eps matches (Inl err) \<longleftrightarrow> False"

text \<open>The answers of one instance agree on whether they match.\<close>

definition agree :: "control_os \<Rightarrow> control_endpoint set \<Rightarrow> (session_info \<Rightarrow> bool) \<Rightarrow> bool" where
  "agree os eps matches \<longleftrightarrow>
     (\<forall>ep a ep' b. answers os eps ep a \<and> answers os eps ep' b \<and> is_same_instance a b \<longrightarrow>
        matches a = matches b)"

lemma filter_answers:
  fixes os eps
  assumes resp: "agree os (set eps) matches"
  defines "ms \<equiv> filter (\<lambda>(ep, info). matches info) (unique_answering_session_probes (probe_endpoints os eps))"
  shows "distinct_instances ms"
    and "(ep, info) \<in> set ms \<Longrightarrow> answers os (set eps) ep info \<and> matches info"
    and "answers os (set eps) ep info \<Longrightarrow> matches info \<Longrightarrow> \<exists>u \<in> set ms. is_same_instance (snd u) info"
proof -
  show "distinct_instances ms"
    using unique_sessions(1) unfolding ms_def distinct_instances_def by (rule sorted_wrt_filter)
  show "(ep, info) \<in> set ms \<Longrightarrow> answers os (set eps) ep info \<and> matches info"
    by (auto simp: ms_def answers_def answering_probes dest!: unique_sessions(2))
  assume a: "answers os (set eps) ep info" "matches info"
  then have "(ep, info) \<in> set (answering_session_probes (probe_endpoints os eps))"
    by (simp add: answers_def answering_probes)
  then obtain u where u: "u \<in> set (unique_answering_session_probes (probe_endpoints os eps))"
      "is_same_instance (snd u) info"
    using unique_sessions(3) by fastforce
  moreover have "answers os (set eps) (fst u) (snd u)"
    using unique_sessions(2) [OF u(1)] answering_probes [of "fst u" "snd u" os eps]
    by (simp add: answers_def)
  ultimately have "matches (snd u)"
    using resp a unfolding agree_def by blast
  with u show "\<exists>u \<in> set ms. is_same_instance (snd u) info"
    by (intro bexI [of _ u]) (simp_all add: ms_def split_beta)
qed

lemma classify_ok:
  assumes resp: "agree os (set eps) matches"
  shows "resolution_ok os (set eps) matches
    (classify_probe_matches
      (filter (\<lambda>(ep, info). matches info) (unique_answering_session_probes (probe_endpoints os eps)))
      (probe_endpoints os eps) describe hint u report)"
proof -
  let ?ms = "filter (\<lambda>(ep, info). matches info) (unique_answering_session_probes (probe_endpoints os eps))"
  have ms: "distinct_instances ?ms"
    "(ep, info) \<in> set ?ms \<Longrightarrow> answers os (set eps) ep info \<and> matches info"
    "answers os (set eps) ep info \<Longrightarrow> matches info \<Longrightarrow> \<exists>u \<in> set ?ms. is_same_instance (snd u) info"
    for ep info
    using filter_answers [OF resp] by blast+
  show ?thesis
  proof (cases ?ms)
    case Nil
    then have "\<not> matches info" if "answers os (set eps) ep info" for ep info
      using ms(3) [OF that] by auto
    moreover have "unusable_messages (probe_endpoints os eps) \<noteq> [] \<longleftrightarrow> (\<exists>ep \<in> set eps. unusable os ep)"
      unfolding unusable_probes unusable_iff ..
    ultimately show ?thesis
      using Nil by (auto simp: classify_probe_matches_def Let_def)
  next
    case (Cons m rest)
    show ?thesis
    proof (cases rest)
      case Nil
      obtain ep info where m: "m = (ep, info)" by fastforce
      have "\<forall>ep' info'. answers os (set eps) ep' info' \<and> matches info' \<longrightarrow> is_same_instance info info'"
        using ms(3) Cons Nil m by fastforce
      then show ?thesis
        using ms(2) [of ep info] Cons Nil m by (simp add: classify_probe_matches_def)
    next
      case Cons2: (Cons m2 rest2)
      have "classify_probe_matches ?ms (probe_endpoints os eps) describe hint u report =
          Inl (SelectError_Ambiguous (describe @ '' matched '' @ decimal (length ?ms) @
            '' live sessions; '' @ hint) (map snd ?ms))"
        using Cons Cons2 by (simp add: classify_probe_matches_def ambiguous_selection_def)
      moreover have "sorted_wrt (\<lambda>a b. \<not> is_same_instance a b) (map snd ?ms)"
        using ms(1) by (simp add: distinct_instances_def sorted_wrt_map)
      moreover have "2 \<le> length ?ms"
        using Cons Cons2 by simp
      moreover have "matches info \<and> (\<exists>ep. answers os (set eps) ep info)" if "info \<in> set (map snd ?ms)" for info
        using that ms(2) by fastforce
      ultimately show ?thesis
        by (simp only: resolution_ok.simps length_map) blast
    qed
  qed
qed

lemma scan_endpoints: "set (concat (map (runtime_dir_endpoints os) dirs)) = scanned os dirs"
  by (auto simp: scanned_def)

lemma verify_ok: "resolution_ok os (set eps) (\<lambda>_. True) (verify_any os eps describe report)"
  using classify_ok [of os eps "\<lambda>_. True"] by (simp add: agree_def verify_any_def Let_def)

text \<open>
  C30. Selecting a session never guesses. Selecting by name (of sessions whose instances have one name
  each) or by process: a session that is returned answered with a compatible protocol version, has
  the name or the process id, and every session that matches is this very instance, whatever aliases
  its sockets have; more than one matching instance is an ambiguity that lists them, each once. If
  none matches, a socket that is busy or speaks another protocol makes the answer busy, and only
  when there is no such socket is the session said not to exist. Selecting by hash does the same
  among the sockets that the hash names, one for each runtime directory; there any session matches:
  its own identity is not compared with the hash.
\<close>

theorem selection_never_guesses:
  assumes "agree os (scanned os dirs) (\<lambda>info. si_name info = name)"
  shows "resolution_ok os (scanned os dirs) (\<lambda>info. si_name info = name)
      (resolve_name os dirs statuses name) \<and>
    resolution_ok os (scanned os dirs) (\<lambda>info. si_pid info = pid) (resolve_pid os dirs statuses pid) \<and>
    resolution_ok os ((\<lambda>dir. endpoint_from_hash dir hash) ` set dirs) (\<lambda>info. True)
      (resolve_hash os dirs statuses hash)"
proof (intro conjI)
  have pid: "agree os (scanned os dirs) (\<lambda>info. si_pid info = pid)"
    by (auto simp: agree_def is_same_instance_def)
  show "resolution_ok os (scanned os dirs) (\<lambda>info. si_name info = name) (resolve_name os dirs statuses name)"
    using assms unfolding resolve_name_def resolve_scanned_selector_def Let_def probe_runtime_dirs_def
      scan_endpoints [symmetric] by (rule classify_ok)
  show "resolution_ok os (scanned os dirs) (\<lambda>info. si_pid info = pid) (resolve_pid os dirs statuses pid)"
    using pid unfolding resolve_pid_def resolve_scanned_selector_def Let_def probe_runtime_dirs_def
      scan_endpoints [symmetric] by (rule classify_ok)
  show "resolution_ok os ((\<lambda>dir. endpoint_from_hash dir hash) ` set dirs) (\<lambda>info. True)
      (resolve_hash os dirs statuses hash)"
    using verify_ok [of os "map (\<lambda>dir. endpoint_from_hash dir hash) dirs"]
    by (simp only: resolve_hash_def set_map)
qed

text \<open>Two sessions of one name in one directory, the first with an alias.\<close>

definition sample_info :: "nat \<Rightarrow> session_info" where
  "sample_info pid =
     \<lparr> si_protocol_version = PROTOCOL_VERSION, si_id = ''aaa'', si_pid = of_nat pid, si_start_time = 1,
       si_name = ''shop'', si_working_dir = ''/srv'', si_config_path = ''/srv/micromux.yaml'',
       si_services = [], si_services_truncated = False, si_micromux_version = ''1'',
       si_capabilities = None \<rparr>"

definition sample_os :: control_os where
  "sample_os =
     \<lparr> co_dial = (\<lambda>ep. Dial_Requested (Inr (Response_Description
          (sample_info (if endpoint_text ep = ''/run/c.sock'' then 2 else 1))))),
       co_is_socket = (\<lambda>_. True),
       co_read_dir = (\<lambda>_. Some [''a.sock'', ''b.sock'', ''c.sock'', ''notes'']),
       co_is_file = (\<lambda>_. False), co_canonicalize = (\<lambda>_. None), co_debug = (\<lambda>_. []) \<rparr>"

theorem selection_never_guesses_witness:
  "resolution_ok sample_os (scanned sample_os [''/run'']) (\<lambda>info. si_name info = ''shop'')
     (resolve_name sample_os [''/run''] [] ''shop'') \<and>
   resolution_ok sample_os ((\<lambda>dir. endpoint_from_hash dir ''c'') ` set [''/run'']) (\<lambda>info. True)
     (resolve_hash sample_os [''/run''] [] ''c'') \<and>
   (case resolve_name sample_os [''/run''] [] ''shop'' of
      Inl (SelectError_Ambiguous _ infos) \<Rightarrow> map si_pid infos = [1, 2]
    | _ \<Rightarrow> False)"
proof -
  have "agree sample_os (scanned sample_os [''/run'']) (\<lambda>info. si_name info = ''shop'')"
    by (auto simp: agree_def answers_def probe_result_def sample_os_def client_describe_def
        sample_info_def is_compatible_with_def)
  from selection_never_guesses [OF this, of "[]" _ "''c''"]
  have "resolution_ok sample_os (scanned sample_os [''/run'']) (\<lambda>info. si_name info = ''shop'')
     (resolve_name sample_os [''/run''] [] ''shop'')"
    "resolution_ok sample_os ((\<lambda>dir. endpoint_from_hash dir ''c'') ` set [''/run'']) (\<lambda>info. True)
     (resolve_hash sample_os [''/run''] [] ''c'')"
    by blast+
  moreover have "case resolve_name sample_os [''/run''] [] ''shop'' of
      Inl (SelectError_Ambiguous _ infos) \<Rightarrow> map si_pid infos = [1, 2]
    | _ \<Rightarrow> False"
    by code_simp
  ultimately show ?thesis by blast
qed

section \<open>The current configuration\<close>

lemma scan_matches:
  assumes "resolve_unique_current_scan_matches
      (current_scan_matches (probe_runtime_dirs os dirs) matches) describe = Inr found"
  shows "case found of
      Some (ep, info) \<Rightarrow> answers os (scanned os dirs) ep info \<and> matches info
    | None \<Rightarrow> agree os (scanned os dirs) matches \<longrightarrow>
        (\<forall>ep info. answers os (scanned os dirs) ep info \<longrightarrow> \<not> matches info)"
proof -
  let ?eps = "concat (map (runtime_dir_endpoints os) dirs)"
  let ?ms = "current_scan_matches (probe_runtime_dirs os dirs) matches"
  have found: "found = (case ?ms of [] \<Rightarrow> None | r # _ \<Rightarrow> Some r)"
    using assms by (simp add: resolve_unique_current_scan_matches_def split: if_splits)
  show ?thesis
  proof (cases ?ms)
    case Nil
    have "\<not> matches info" if "agree os (scanned os dirs) matches" "answers os (scanned os dirs) ep info" for ep info
      using filter_answers(3) [of os ?eps matches ep info] Nil that unfolding scan_endpoints
      by (fastforce simp: current_scan_matches_def probe_runtime_dirs_def)
    then show ?thesis
      using found Nil by simp
  next
    case (Cons m rest)
    obtain ep info where m: "m = (ep, info)" by fastforce
    then have "(ep, info) \<in> set ?ms"
      using Cons by simp
    then have "(ep, info) \<in> set (answering_session_probes (probe_endpoints os ?eps))" "matches info"
      using unique_sessions(2) by (auto simp: current_scan_matches_def probe_runtime_dirs_def)
    then show ?thesis
      using found Cons m by (simp add: answers_def answering_probes scanned_def)
  qed
qed

lemma hash_agrees: "agree os eps (\<lambda>info. session_matches_config_path sha256 info config)"
  by (auto simp: agree_def session_matches_config_path_def is_same_instance_def)

lemma or_error_Inr [simp]: "or_error err found = Inr r \<longleftrightarrow> found = Some r"
  by (simp add: or_error_def split: option.split)

text \<open>
  C31. The current session is never replaced by another one. When the session of the current
  configuration is asked for, what is returned is one of three: the session that answers at an
  endpoint derived from the configuration file; a session found by scanning that carries the
  identity of this very file; or, only without an explicit file and only if every derived endpoint
  is dead and no session of the file answers anywhere, a session whose configuration file lies under
  the current directory. So a session that is busy or speaks another protocol is reported, not
  passed over for one of a neighbouring project.
\<close>

theorem current_never_retargeted:
  assumes "resolve_current sha256 home os later dirs statuses cwd override = Inr (ep, info)"
    and "config_for_target os home (case override of None \<Rightarrow> cwd | Some path \<Rightarrow> path) = Some config"
  defines "derived \<equiv> (\<lambda>dir. endpoint_for sha256 dir config) ` set dirs"
  shows "answers os derived ep info \<or>
    answers later (scanned later dirs) ep info \<and> si_id info = hash_path sha256 config \<or>
    answers later (scanned later dirs) ep info \<and> override = None \<and>
      session_config_path_is_under later info cwd \<and>
      (\<forall>d \<in> derived. \<exists>reason. probe_result os d = EndpointProbeResult_Absent reason) \<and>
      (\<forall>ep' info'. answers later (scanned later dirs) ep' info' \<longrightarrow> si_id info' \<noteq> hash_path sha256 config)"
proof -
  let ?eps = "map (\<lambda>dir. endpoint_for sha256 dir config) dirs"
  let ?rep = "make_report (no_session_summary config) (Some config) statuses"
  let ?direct = "verify_any os ?eps ''the current config'' ?rep"
  let ?own = "\<lambda>info. session_matches_config_path sha256 info config"
  have derived: "set ?eps = derived"
    by (simp add: derived_def)
  have ok: "resolution_ok os derived (\<lambda>_. True) ?direct"
    using verify_ok [of os ?eps] unfolding derived .
  have config: "resolve_current_config_by_scanning sha256 later dirs config = Inr found \<Longrightarrow>
      case found of
        Some (ep, info) \<Rightarrow> answers later (scanned later dirs) ep info \<and> si_id info = hash_path sha256 config
      | None \<Rightarrow> \<forall>ep info. answers later (scanned later dirs) ep info \<longrightarrow> si_id info \<noteq> hash_path sha256 config"
    for found
    using scan_matches [of later dirs ?own "''the current config''" found] hash_agrees
    by (simp add: resolve_current_config_by_scanning_def resolve_current_config_matches_def
        session_matches_config_path_def split: option.splits prod.splits)
  show ?thesis
  proof (cases ?direct)
    case (Inr r)
    then show ?thesis
      using assms(1,2) ok by (simp add: resolve_current_def)
  next
    case (Inl err)
    show ?thesis
    proof (cases err)
      case (SelectError_Busy message)
      then show ?thesis
        using assms(1,2) Inl config
        by (fastforce simp: resolve_current_def and_then_Inr)
    next
      case (SelectError_NoSession report)
      then have dead: "\<forall>d \<in> derived. \<exists>reason. probe_result os d = EndpointProbeResult_Absent reason"
        using ok Inl by (simp add: answers_def unusable_iff) (metis endpoint_probe_result.exhaust)
      show ?thesis
      proof (cases override)
        case None
        obtain found where found: "resolve_current_config_by_scanning sha256 later dirs config = Inr found"
            "case found of
               Some r \<Rightarrow> r = (ep, info)
             | None \<Rightarrow> resolve_unique_current_scan_matches
                 (current_scan_matches (probe_runtime_dirs later dirs)
                    (\<lambda>info. session_config_path_is_under later info cwd))
                 ''a config under the current directory'' = Inr (Some (ep, info))"
          using assms(1,2) Inl SelectError_NoSession None
          by (auto simp: resolve_current_def resolve_current_project_by_scanning_def
              resolve_current_config_by_scanning_def and_then_Inr Let_def split: option.splits)
        show ?thesis
          using found config [OF found(1)] dead None
            scan_matches [of later dirs "\<lambda>info. session_config_path_is_under later info cwd"
              "''a config under the current directory''" "Some (ep, info)"]
          by (cases found) (auto split: prod.splits)
      next
        case (Some path)
        then show ?thesis
          using assms(1,2) Inl SelectError_NoSession config
          by (fastforce simp: resolve_current_def and_then_Inr)
      qed
    qed (use assms(1,2) Inl in \<open>simp_all add: resolve_current_def\<close>)
  qed
qed

definition sample_project :: control_os where
  "sample_project = sample_os
     \<lparr> co_dial := (\<lambda>ep. Dial_Requested (Inr (Response_Description (sample_info 1)))),
       co_canonicalize := (\<lambda>path. if path = ''/srv/micromux.yaml'' then Some path else None) \<rparr>"

theorem current_never_retargeted_witness:
  "\<exists>ep info. resolve_current (\<lambda>_. ''AAAAAAAA'') None sample_project sample_project [''/run''] [] ''/srv'' None =
      Inr (ep, info) \<and>
    (answers sample_project {ControlEndpoint_Unix ''/run/4141414141414141.sock''} ep info \<or>
     answers sample_project (scanned sample_project [''/run'']) ep info)"
proof -
  let ?sha = "\<lambda>_. ''AAAAAAAA''"
  have "resolve_current ?sha None sample_project sample_project [''/run''] [] ''/srv'' None =
      Inr (ControlEndpoint_Unix ''/run/4141414141414141.sock'', sample_info 1)"
    by code_simp
  moreover have "config_for_target sample_project None ''/srv'' = Some ''/srv/micromux.yaml''"
    by code_simp
  moreover have "endpoint_for ?sha ''/run'' ''/srv/micromux.yaml'' =
      ControlEndpoint_Unix ''/run/4141414141414141.sock''"
    by code_simp
  ultimately show ?thesis
    using current_never_retargeted [of ?sha None sample_project sample_project "[''/run'']" "[]" "''/srv''" None]
    by fastforce
qed

text \<open>
  A hash selector is not checked: a selector that is an absolute path reaches a socket outside the
  runtime directories, and whatever session answers there is taken.
\<close>

lemma hash_selector_escapes:
  "endpoint_from_hash dir (CHR ''/'' # path) = ControlEndpoint_Unix (CHR ''/'' # path @ ''.sock'')"
  by (simp add: endpoint_from_hash_def path_join_def is_absolute_def)

lemma hash_selector_unchecked:
  assumes "probe_result os (endpoint_from_hash dir hash) = EndpointProbeResult_Session info"
  shows "resolve_hash os [dir] statuses hash = Inr (endpoint_from_hash dir hash, info)"
  using assms
  by (simp add: resolve_hash_def verify_any_def probe_endpoints_def probe_endpoint_def Let_def
      unique_answering_session_probes_def answering_session_probes_def map_filter_simps add_session_def
      classify_probe_matches_def)

end
