(* ===== verification/Agent_Requests.thy ===== *)
theory Agent_Requests
  imports Session_Select Control_Server
begin

text \<open>
  Requests of the tools of the MCP server: errors and session resolution
  (\<^verbatim>\<open>src/crates/micromux-mcp/src/select.rs\<close>), the conversion of replies
  (\<^verbatim>\<open>src/crates/micromux-mcp/src/convert.rs\<close>) and the connection to a session with its retry
  (\<^verbatim>\<open>src/crates/micromux-mcp/src/lib.rs\<close>). The debug format of a reply is a parameter.
\<close>

section \<open>Errors and resolution\<close>

record discovery_diagnostics =
  dg_summary :: string
  dg_executable :: string
  dg_version :: string
  dg_cwd :: string
  dg_config_path :: "string option"
  dg_xdg_runtime_dir :: "string option"
  dg_runtime_dirs :: "runtime_dir_status list"
  dg_socket_probes :: "socket_probe_detail list"

datatype tool_error =
    ToolError_NoSession discovery_diagnostics
  | ToolError_Ambiguous string
  | ToolError_Busy string
  | ToolError_Unsupported
  | ToolError_InvalidState string
  | ToolError_ConfigReload string
  | ToolError_Remote error_code string
  | ToolError_Control control_error
  | ToolError_Unexpected string

text \<open>The process the tools run in.\<close>

record tool_env =
  te_executable :: "string option"
  te_version :: string
  te_cwd :: string
  te_xdg_runtime_dir :: "string option"
  te_session :: "string option"
  te_sha256 :: "string \<Rightarrow> string"
  te_home :: "string option"

fun tool_error_from :: "control_error \<Rightarrow> tool_error" where
  "tool_error_from ControlError_Unsupported = ToolError_Unsupported"
| "tool_error_from ControlError_Timeout = ToolError_Busy ''the micromux session did not answer in time''"
| "tool_error_from other = ToolError_Control other"

definition selector_with_environment_fallback :: "tool_env \<Rightarrow> string option \<Rightarrow> session_selector option" where
  "selector_with_environment_fallback env raw =
     map_option selector_parse (case raw of None \<Rightarrow> te_session env | Some r \<Rightarrow> Some r)"

definition make_diagnostics ::
  "tool_env \<Rightarrow> string \<Rightarrow> string option \<Rightarrow> runtime_dir_status list \<Rightarrow> socket_probe_detail list \<Rightarrow>
   discovery_diagnostics"
where
  "make_diagnostics env summary config_path statuses probes =
     \<lparr> dg_summary = summary,
       dg_executable = (case te_executable env of None \<Rightarrow> ''<unknown>'' | Some path \<Rightarrow> path),
       dg_version = te_version env, dg_cwd = te_cwd env, dg_config_path = config_path,
       dg_xdg_runtime_dir = te_xdg_runtime_dir env, dg_runtime_dirs = statuses,
       dg_socket_probes = probes \<rparr>"

definition diagnostics_from_report :: "tool_env \<Rightarrow> probe_report \<Rightarrow> discovery_diagnostics" where
  "diagnostics_from_report env r =
     make_diagnostics env (pr_summary r) (pr_config_path r) (pr_runtime_dirs r) (pr_socket_probes r)"

fun map_select_error :: "tool_env \<Rightarrow> select_error \<Rightarrow> tool_error" where
  "map_select_error env (SelectError_NoSession report) =
     ToolError_NoSession (diagnostics_from_report env report)"
| "map_select_error env (SelectError_Ambiguous message infos) = ToolError_Ambiguous message"
| "map_select_error env (SelectError_Busy message) = ToolError_Busy message"
| "map_select_error env SelectError_Unsupported = ToolError_Unsupported"
| "map_select_error env (SelectError_Control err) = tool_error_from err"

definition resolve ::
  "tool_env \<Rightarrow> control_os \<Rightarrow> control_os \<Rightarrow> runtime_dir_status list \<Rightarrow> string option \<Rightarrow> tool_error + answering"
where
  "resolve env os later statuses raw =
     map_sum (map_select_error env) id
       (resolve_selector (te_sha256 env) (te_home env) os later statuses (te_cwd env)
         (selector_with_environment_fallback env raw) None)"

definition session_list_summary :: "session_info list \<Rightarrow> endpoint_probe list \<Rightarrow> string" where
  "session_list_summary sessions probes =
     (let count = (\<lambda>q. length (filter q probes));
          unusable = count (\<lambda>p. case ep_result p of
              EndpointProbeResult_ProtocolMismatch _ _ \<Rightarrow> True
            | EndpointProbeResult_Unreachable _ \<Rightarrow> True | _ \<Rightarrow> False);
          absent = count (\<lambda>p. case ep_result p of EndpointProbeResult_Absent _ \<Rightarrow> True | _ \<Rightarrow> False)
      in if sessions \<noteq> [] then
           ''found '' @ decimal (length sessions) @ '' answering micromux session(s)''
         else if 0 < unusable then
           ''found '' @ decimal unusable @
           '' socket(s) that exist but could not be used; inspect socket_probes for protocol/version/busy details''
         else if 0 < absent then
           ''found '' @ decimal absent @ '' stale socket(s), but no answering micromux session''
         else ''no micromux session sockets found'')"

definition list_sessions ::
  "tool_env \<Rightarrow> control_os \<Rightarrow> runtime_dir_status list \<Rightarrow> tool_error + session_info list \<times> discovery_diagnostics"
where
  "list_sessions env os statuses =
     (let dirs = usable_runtime_dirs statuses in
      if dirs = [] then
        Inl (ToolError_NoSession
          (make_diagnostics env ''no runtime directory could be resolved'' None statuses []))
      else
        let probes = probe_runtime_dirs os dirs;
            sessions = map snd (unique_answering_session_probes probes)
        in Inr (sessions, make_diagnostics env (session_list_summary sessions probes) None statuses
                  (map probe_detail probes)))"

definition answering_sessions :: "control_os \<Rightarrow> runtime_dir_status list \<Rightarrow> answering list" where
  "answering_sessions os statuses =
     (let dirs = usable_runtime_dirs statuses in
      if dirs = [] then [] else unique_answering_session_probes (probe_runtime_dirs os dirs))"

section \<open>Replies\<close>

fun error_code_text :: "error_code \<Rightarrow> string" where
  "error_code_text ErrorCode_UnknownService = ''UnknownService''"
| "error_code_text ErrorCode_UnknownRun = ''UnknownRun''"
| "error_code_text ErrorCode_NoSession = ''NoSession''"
| "error_code_text ErrorCode_Ambiguous = ''Ambiguous''"
| "error_code_text ErrorCode_Busy = ''Busy''"
| "error_code_text ErrorCode_Timeout = ''Timeout''"
| "error_code_text ErrorCode_InvalidState = ''InvalidState''"
| "error_code_text ErrorCode_ConfigReload = ''ConfigReload''"
| "error_code_text ErrorCode_PolicyDenied = ''PolicyDenied''"
| "error_code_text ErrorCode_LimitExceeded = ''LimitExceeded''"
| "error_code_text ErrorCode_RevisionMismatch = ''RevisionMismatch''"
| "error_code_text ErrorCode_InvalidSpec = ''InvalidSpec''"
| "error_code_text ErrorCode_SchedulerStopped = ''SchedulerStopped''"
| "error_code_text ErrorCode_UnsupportedPlatform = ''UnsupportedPlatform''"
| "error_code_text ErrorCode_ProtocolVersionMismatch = ''ProtocolVersionMismatch''"
| "error_code_text ErrorCode_BadRequest = ''BadRequest''"
| "error_code_text ErrorCode_Internal = ''Internal''"
| "error_code_text ErrorCode_Unknown = ''Unknown''"

definition remote_error :: "error_code \<Rightarrow> string \<Rightarrow> tool_error" where
  "remote_error code message =
     (if code = ErrorCode_Ambiguous then ToolError_Ambiguous message
      else if code \<in> {ErrorCode_Busy, ErrorCode_Timeout, ErrorCode_SchedulerStopped} then
        ToolError_Busy (error_code_text code @ '': '' @ message)
      else if code = ErrorCode_InvalidState then ToolError_InvalidState message
      else if code = ErrorCode_ConfigReload then ToolError_ConfigReload message
      else if code = ErrorCode_UnsupportedPlatform then ToolError_Unsupported
      else if code \<in> {ErrorCode_ProtocolVersionMismatch, ErrorCode_Internal} then
        ToolError_Unexpected (error_code_text code @ '': '' @ message)
      else ToolError_Remote code message)"

text \<open>Every conversion takes one kind of reply and maps errors and other replies alike.\<close>

definition convert_reply :: "(response \<Rightarrow> string) \<Rightarrow> (response \<Rightarrow> 'a option) \<Rightarrow> response \<Rightarrow> tool_error + 'a" where
  "convert_reply debug wanted response =
     (case wanted response of
        Some v \<Rightarrow> Inr v
      | None \<Rightarrow>
          (case response of
             Response_Error code message \<Rightarrow> Inl (remote_error code message)
           | other \<Rightarrow> Inl (ToolError_Unexpected (debug other))))"

definition convert_services where
  "convert_services debug = convert_reply debug (\<lambda>r. case r of Response_Services s \<Rightarrow> Some s | _ \<Rightarrow> None)"

definition convert_service where
  "convert_service debug = convert_reply debug (\<lambda>r. case r of Response_Service s \<Rightarrow> Some s | _ \<Rightarrow> None)"

definition convert_log_runs where
  "convert_log_runs debug = convert_reply debug (\<lambda>r. case r of Response_LogRuns s \<Rightarrow> Some s | _ \<Rightarrow> None)"

definition convert_health where
  "convert_health debug = convert_reply debug (\<lambda>r. case r of Response_Health s \<Rightarrow> Some s | _ \<Rightarrow> None)"

definition convert_health_history where
  "convert_health_history debug =
     convert_reply debug (\<lambda>r. case r of Response_HealthHistory s \<Rightarrow> Some s | _ \<Rightarrow> None)"

definition convert_events where
  "convert_events debug =
     convert_reply debug (\<lambda>r. case r of Response_Events evs truncated \<Rightarrow> Some (evs, truncated) | _ \<Rightarrow> None)"

definition convert_accepted where
  "convert_accepted debug = convert_reply debug (\<lambda>r. case r of Response_Accepted s \<Rightarrow> Some s | _ \<Rightarrow> None)"

definition convert_dynamic_service where
  "convert_dynamic_service debug =
     convert_reply debug (\<lambda>r. case r of Response_DynamicService s \<Rightarrow> Some s | _ \<Rightarrow> None)"

definition convert_reconcile where
  "convert_reconcile debug = convert_reply debug (\<lambda>r. case r of Response_Reconcile s \<Rightarrow> Some s | _ \<Rightarrow> None)"

definition convert_shutting_down where
  "convert_shutting_down debug =
     convert_reply debug (\<lambda>r. case r of Response_ShuttingDown \<Rightarrow> Some () | _ \<Rightarrow> None)"

section \<open>The connection\<close>

text \<open>
  \<^verbatim>\<open>SessionConn::request\<close> with what the first send, a reconnect and a second send give, and how often
  the request is sent.
\<close>

definition lost_connection :: "control_error \<Rightarrow> bool" where
  "lost_connection err \<longleftrightarrow> (case err of ControlError_Io _ _ \<Rightarrow> True | ControlError_Closed \<Rightarrow> True | _ \<Rightarrow> False)"

definition session_request ::
  "request \<Rightarrow> control_error + response \<Rightarrow> control_error + unit \<Rightarrow> control_error + response \<Rightarrow>
   (tool_error + response) \<times> nat"
where
  "session_request req sent reconnect again =
     (case sent of
        Inr response \<Rightarrow> (Inr response, 1)
      | Inl err \<Rightarrow>
          if lost_connection err \<and> is_retry_safe req then
            case reconnect of
              Inl e \<Rightarrow> (Inl (tool_error_from e), 1)
            | Inr _ \<Rightarrow> (map_sum tool_error_from id again, 2)
          else (Inl (tool_error_from err), 1))"

section \<open>Services of a session\<close>

definition session_selector_text :: "session_info \<Rightarrow> string" where
  "session_selector_text info = ''hash:'' @ si_id info"

definition session_has_service :: "session_info \<Rightarrow> string \<Rightarrow> bool" where
  "session_has_service info service \<longleftrightarrow>
     list_ex (\<lambda>brief. sb_id brief = service \<or> sb_name brief = service) (si_services info)"

definition matching_service :: "service_snapshot list \<Rightarrow> string \<Rightarrow> service_snapshot option" where
  "matching_service services selector =
     (case List.find (\<lambda>s. sn_id s = selector) services of
        Some s \<Rightarrow> Some s
      | None \<Rightarrow> List.find (\<lambda>s. sn_name s = selector) services)"

definition result_ok :: "'e + 'a \<Rightarrow> 'a option" where
  "result_ok r = (case r of Inl _ \<Rightarrow> None | Inr v \<Rightarrow> Some v)"

text \<open>\<open>send\<close> is a request on a connection of its own.\<close>

definition service_in_session ::
  "(response \<Rightarrow> string) \<Rightarrow> (control_endpoint \<Rightarrow> request \<Rightarrow> tool_error + response) \<Rightarrow> answering \<Rightarrow> string \<Rightarrow>
   service_snapshot option"
where
  "service_in_session debug send resolved service =
     (let (endpoint, info) = resolved
      in if 5 \<le> pv_minor (si_protocol_version info) then
           if \<not> si_services_truncated info \<and> \<not> session_has_service info service then None
           else result_ok (and_then (send endpoint (Request_GetService service)) (convert_service debug))
         else if \<not> session_has_service info service then None
         else Option.bind (result_ok (and_then (send endpoint Request_ListServices) (convert_services debug)))
                (\<lambda>services. matching_service services service))"

definition enrich_unknown_service ::
  "(response \<Rightarrow> string) \<Rightarrow> (control_endpoint \<Rightarrow> request \<Rightarrow> tool_error + response) \<Rightarrow> answering list \<Rightarrow>
   string \<Rightarrow> tool_error \<Rightarrow> tool_error"
where
  "enrich_unknown_service debug send siblings service err =
     (case err of
        ToolError_Remote ErrorCode_UnknownService message \<Rightarrow>
          (let found = filter (\<lambda>resolved. case service_in_session debug send resolved service of
                         Some snapshot \<Rightarrow> sn_id snapshot = service | None \<Rightarrow> False) siblings
           in if found = [] then err
              else ToolError_Remote ErrorCode_UnknownService
                (message @ ''. `'' @ service @
                 ''` was not found in the selected session but exists in '' @ decimal (length found) @
                 '' other answering session(s); retarget by passing one as `session`: '' @
                 join_with '', '' (map (\<lambda>(endpoint, info).
                   session_selector_text info @ '' (config '' @ si_config_path info @ '')'') found)))
      | _ \<Rightarrow> err)"

definition service_snapshot_of ::
  "(response \<Rightarrow> string) \<Rightarrow> string \<Rightarrow> tool_error + response \<Rightarrow> tool_error + service_snapshot"
where
  "service_snapshot_of debug service reply =
     and_then (and_then reply (convert_services debug)) (\<lambda>services.
       ok_or (ToolError_Remote ErrorCode_UnknownService (''unknown service `'' @ service @ ''`''))
         (List.find (\<lambda>s. sn_id s = service) services))"

end
