(* ===== verification/Agent_Wait.thy ===== *)
theory Agent_Wait
  imports Agent_Requests
begin

text \<open>
  Waiting for a service to become healthy or to exit, and what the tools report of it:
  \<^verbatim>\<open>src/crates/micromux-mcp/src/convert.rs\<close>, \<^verbatim>\<open>src/crates/micromux-mcp/src/tools/health.rs\<close> and
  \<^verbatim>\<open>src/crates/micromux-mcp/src/lib.rs\<close>. A wait is a function of the list of its turns: the reply to
  the poll, the clock after it, and what the subscription delivers until the next one.
\<close>

section \<open>Verdicts on a snapshot\<close>

datatype wait_outcome =
    WaitOutcome_Pending
  | WaitOutcome_Healthy
  | WaitOutcome_Exited "i32 option"
  | WaitOutcome_InvalidState

definition generation_ready :: "service_snapshot \<Rightarrow> u64 option \<Rightarrow> bool" where
  "generation_ready sn after =
     (case after of
        Some generation \<Rightarrow> generation < sn_run_generation sn
      | None \<Rightarrow> 1 \<le> sn_run_generation sn)"

definition evaluate :: "service_snapshot \<Rightarrow> u64 option \<Rightarrow> wait_outcome" where
  "evaluate sn after =
     (if sn_desired sn = Desired_Disabled then WaitOutcome_InvalidState
      else if \<not> generation_ready sn after then WaitOutcome_Pending
      else case sn_execution sn of
        Execution_Exited \<Rightarrow> WaitOutcome_Exited (sn_last_exit_code sn)
      | Execution_Running \<Rightarrow>
          if \<not> sn_healthcheck_configured sn \<or> sn_health sn = Some Health_Healthy
          then WaitOutcome_Healthy else WaitOutcome_Pending
      | _ \<Rightarrow> WaitOutcome_Pending)"

datatype exit_verdict = ExitVerdict_Exited | ExitVerdict_InvalidState

definition classify_exit :: "u64 option \<Rightarrow> service_snapshot \<Rightarrow> exit_verdict option" where
  "classify_exit after sn =
     (let ready = generation_ready sn after in
      if ready \<and> sn_execution sn = Execution_Exited then Some ExitVerdict_Exited
      else
        let unavailable = (sn_desired sn = Desired_Disabled \<or> sn_retired sn \<noteq> None);
            in_flight = (ready \<and> sn_execution sn \<in> {Execution_Starting, Execution_Running, Execution_Stopping})
        in if unavailable \<and> \<not> in_flight then Some ExitVerdict_InvalidState else None)"

section \<open>Waiting\<close>

datatype 'v snapshot_wait =
    SnapshotWait_Matched service_snapshot 'v
  | SnapshotWait_Timeout service_snapshot

definition WAIT_POLL_FLOOR :: duration where
  "WAIT_POLL_FLOOR = from_secs 1"

text \<open>How long a turn waits at most before the next poll.\<close>

definition poll_wait :: "instant \<Rightarrow> instant \<Rightarrow> duration" where
  "poll_wait deadline now = min (deadline - now) WAIT_POLL_FLOOR"

text \<open>
  What ends the wait of a turn: a relevant change, the end of the stream, or (None) the time. Appends
  to logs and heartbeats are not relevant.
\<close>

fun await_change :: "string \<Rightarrow> (unit + session_change option) list \<Rightarrow> bool option" where
  "await_change service [] = None"
| "await_change service (Inl e # items) = Some False"
| "await_change service (Inr None # items) = Some False"
| "await_change service (Inr (Some change) # items) =
     (if (ch_service_id change = service \<or> ch_service_id change = SESSION_WIDE) \<and>
         ch_kind change \<notin> {ChangeKind_Logs, ChangeKind_Heartbeat}
      then Some True else await_change service items)"

record wait_turn =
  wn_reply :: "tool_error + response"
  wn_now :: instant
  wn_stream :: "(unit + session_change option) list"

text \<open>
  \<^verbatim>\<open>wait_for_snapshot\<close>: None while the wait goes on. The flag says whether a subscription is open;
  without one the turn sleeps.
\<close>

fun wait_for_snapshot ::
  "(response \<Rightarrow> string) \<Rightarrow> string \<Rightarrow> instant \<Rightarrow> (service_snapshot \<Rightarrow> 'v option) \<Rightarrow> bool \<Rightarrow> wait_turn list \<Rightarrow>
   (tool_error + 'v snapshot_wait) option"
where
  "wait_for_snapshot debug service deadline classify subscribed [] = None"
| "wait_for_snapshot debug service deadline classify subscribed (t # ts) =
     (case service_snapshot_of debug service (wn_reply t) of
        Inl err \<Rightarrow> Some (Inl err)
      | Inr sn \<Rightarrow>
          (case classify sn of
             Some v \<Rightarrow> Some (Inr (SnapshotWait_Matched sn v))
           | None \<Rightarrow>
               if deadline \<le> wn_now t then Some (Inr (SnapshotWait_Timeout sn))
               else
                 let subscribed = subscribed \<and> await_change service (wn_stream t) \<noteq> Some False
                 in wait_for_snapshot debug service deadline classify subscribed ts))"

definition retired_service_message :: "string \<Rightarrow> retired_reason \<Rightarrow> string" where
  "retired_service_message service reason =
     (if reason = RetiredReason_Removed
      then ''service `'' @ service @ ''` was removed; re-add it to micromux.yaml and run reconcile_config''
      else ''service `'' @ service @ ''` is retired; use replace_dynamic_service to revive it'')"

section \<open>The health of the current run\<close>

definition health_attempt_matches_snapshot :: "service_snapshot \<Rightarrow> health_attempt \<Rightarrow> bool" where
  "health_attempt_matches_snapshot sn att \<longleftrightarrow>
     sn_execution sn = Execution_Running \<and> ha_run_generation att = sn_run_generation sn"

definition MAX_OUTPUT_LINES :: usize where
  "MAX_OUTPUT_LINES = 20"

definition bounded_attempt :: "health_attempt \<Rightarrow> health_attempt" where
  "bounded_attempt att =
     (if MAX_OUTPUT_LINES < length (ha_output att)
      then att\<lparr> ha_output := drop (length (ha_output att) - MAX_OUTPUT_LINES) (ha_output att) \<rparr>
      else att)"

definition latest_health :: "(response \<Rightarrow> string) \<Rightarrow> tool_error + response \<Rightarrow> health_attempt option" where
  "latest_health debug reply = Option.bind (result_ok (and_then reply (convert_health debug))) id"

definition latest_health_for_snapshot ::
  "(response \<Rightarrow> string) \<Rightarrow> service_snapshot \<Rightarrow> tool_error + response \<Rightarrow> health_attempt option"
where
  "latest_health_for_snapshot debug sn reply =
     (if sn_execution sn \<noteq> Execution_Running then None
      else Option.bind (latest_health debug reply)
             (\<lambda>att. if health_attempt_matches_snapshot sn att then Some att else None))"

datatype wait_conclusion =
    WaitConclusion_Healthy service_snapshot
  | WaitConclusion_Exited service_snapshot
  | WaitConclusion_Timeout service_snapshot "health_attempt option"

fun conclusion_snapshot :: "wait_conclusion \<Rightarrow> service_snapshot" where
  "conclusion_snapshot (WaitConclusion_Healthy sn) = sn"
| "conclusion_snapshot (WaitConclusion_Exited sn) = sn"
| "conclusion_snapshot (WaitConclusion_Timeout sn att) = sn"

fun needs_diagnosis :: "wait_conclusion \<Rightarrow> bool" where
  "needs_diagnosis (WaitConclusion_Healthy sn) = False"
| "needs_diagnosis _ = True"

datatype health_verdict = HealthVerdict_Healthy | HealthVerdict_Exited | HealthVerdict_InvalidState

definition classify_health :: "u64 option \<Rightarrow> service_snapshot \<Rightarrow> health_verdict option" where
  "classify_health after sn =
     (case evaluate sn after of
        WaitOutcome_Pending \<Rightarrow> None
      | WaitOutcome_Healthy \<Rightarrow> Some HealthVerdict_Healthy
      | WaitOutcome_Exited _ \<Rightarrow> Some HealthVerdict_Exited
      | WaitOutcome_InvalidState \<Rightarrow> Some HealthVerdict_InvalidState)"

definition wait_for_health ::
  "(response \<Rightarrow> string) \<Rightarrow> string \<Rightarrow> u64 option \<Rightarrow> instant \<Rightarrow> duration \<Rightarrow> bool \<Rightarrow> wait_turn list \<Rightarrow>
   tool_error + response \<Rightarrow> (tool_error + wait_conclusion) option"
where
  "wait_for_health debug service after started timeout subscribed turns health_reply =
     (case wait_for_snapshot debug service (started + timeout) (classify_health after) subscribed turns of
        None \<Rightarrow> None
      | Some (Inl err) \<Rightarrow> Some (Inl err)
      | Some (Inr (SnapshotWait_Matched sn HealthVerdict_Healthy)) \<Rightarrow> Some (Inr (WaitConclusion_Healthy sn))
      | Some (Inr (SnapshotWait_Matched sn HealthVerdict_Exited)) \<Rightarrow> Some (Inr (WaitConclusion_Exited sn))
      | Some (Inr (SnapshotWait_Matched sn HealthVerdict_InvalidState)) \<Rightarrow>
          Some (Inl (ToolError_InvalidState
            (case sn_retired sn of
               Some reason \<Rightarrow> retired_service_message service reason
             | None \<Rightarrow> ''service `'' @ service @ ''` is disabled and will not become healthy'')))
      | Some (Inr (SnapshotWait_Timeout sn)) \<Rightarrow>
          Some (Inr (WaitConclusion_Timeout sn
            (map_option bounded_attempt (latest_health_for_snapshot debug sn health_reply)))))"

text \<open>The wait of the tool \<^verbatim>\<open>wait_for_exit\<close>: its status, the exit code and the snapshot.\<close>

datatype wait_for_exit_status = WaitForExitStatus_Exited | WaitForExitStatus_Timeout

definition wait_for_exit ::
  "(response \<Rightarrow> string) \<Rightarrow> string \<Rightarrow> u64 option \<Rightarrow> instant \<Rightarrow> duration \<Rightarrow> bool \<Rightarrow> wait_turn list \<Rightarrow>
   (tool_error + wait_for_exit_status \<times> i32 option \<times> service_snapshot) option"
where
  "wait_for_exit debug service after started timeout subscribed turns =
     (case wait_for_snapshot debug service (started + timeout) (classify_exit after) subscribed turns of
        None \<Rightarrow> None
      | Some (Inl err) \<Rightarrow> Some (Inl err)
      | Some (Inr (SnapshotWait_Matched sn ExitVerdict_Exited)) \<Rightarrow>
          Some (Inr (WaitForExitStatus_Exited, sn_last_exit_code sn, sn))
      | Some (Inr (SnapshotWait_Matched sn ExitVerdict_InvalidState)) \<Rightarrow>
          Some (Inl (ToolError_InvalidState
            (case sn_retired sn of
               Some reason \<Rightarrow> retired_service_message service reason
             | None \<Rightarrow> ''service `'' @ service @ ''` is disabled with no qualifying run in flight'')))
      | Some (Inr (SnapshotWait_Timeout sn)) \<Rightarrow> Some (Inr (WaitForExitStatus_Timeout, None, sn)))"

section \<open>Reports\<close>

definition DASH :: string where
  "DASH = bytes [0xE2, 0x80, 0x94]"

definition timeout_hint :: "service_snapshot \<Rightarrow> string" where
  "timeout_hint sn =
     (case sn_execution sn of
        Execution_Running \<Rightarrow>
          if sn_healthcheck_configured sn \<and> sn_health sn \<noteq> Some Health_Healthy
          then ''the process is running but its healthcheck has not passed yet '' @ DASH @
               '' inspect latest_healthcheck (or call get_health); if the command is still '' @
               ''compiling/starting, wait again with a longer timeout_secs''
          else ''the process is running and may still be completing startup '' @ DASH @
               '' wait again or inspect get_logs''
      | Execution_Blocked \<Rightarrow>
          ''the service is waiting on a dependency that has not met its condition '' @ DASH @
          '' inspect get_service_events for the blocking dependencies, or wait_for_healthy on them first''
      | Execution_Stopping \<Rightarrow> ''the service is stopping''
      | Execution_Unknown \<Rightarrow>
          ''the session reported an unknown service state '' @ DASH @ '' inspect list_services''
      | Execution_Exited \<Rightarrow>
          ''the run has exited '' @ DASH @ '' inspect get_logs and the service'' @ [CHR 0x27] @
          ''s last_exit_code''
      | _ \<Rightarrow>
          ''the process has not finished starting '' @ DASH @
          '' wait again with a longer timeout_secs or inspect get_logs'')"

datatype wait_status = WaitStatus_Healthy | WaitStatus_Exited | WaitStatus_Timeout

text \<open>An optional field is absent or present; a nullable one is present with or without a value.\<close>

record wait_report =
  wr_status :: wait_status
  wr_service :: string
  wr_generation :: "u64 option"
  wr_exit_code :: "i32 option option"
  wr_waited_secs :: "nat option"
  wr_execution :: "execution option"
  wr_run_generation :: "u64 option"
  wr_healthcheck_configured :: "bool option"
  wr_health :: "health option option"
  wr_uptime_secs :: "nat option option"
  wr_latest_healthcheck :: "health_attempt option option"
  wr_hint :: "string option"

definition wait_result_healthy :: "string \<Rightarrow> u64 \<Rightarrow> wait_report" where
  "wait_result_healthy service generation =
     \<lparr> wr_status = WaitStatus_Healthy, wr_service = service, wr_generation = Some generation,
       wr_exit_code = None, wr_waited_secs = None, wr_execution = None, wr_run_generation = None,
       wr_healthcheck_configured = None, wr_health = None, wr_uptime_secs = None,
       wr_latest_healthcheck = None, wr_hint = None \<rparr>"

definition wait_result_exited :: "string \<Rightarrow> i32 option \<Rightarrow> u64 \<Rightarrow> wait_report" where
  "wait_result_exited service exit_code generation =
     \<lparr> wr_status = WaitStatus_Exited, wr_service = service, wr_generation = None,
       wr_exit_code = Some exit_code, wr_waited_secs = None, wr_execution = None,
       wr_run_generation = Some generation, wr_healthcheck_configured = None, wr_health = None,
       wr_uptime_secs = None, wr_latest_healthcheck = None,
       wr_hint = Some (''the run exited before becoming healthy '' @ DASH @ '' inspect get_logs for why'') \<rparr>"

definition wait_result_timeout ::
  "string \<Rightarrow> nat \<Rightarrow> service_snapshot \<Rightarrow> health_attempt option \<Rightarrow> wait_report"
where
  "wait_result_timeout service waited_secs sn latest =
     \<lparr> wr_status = WaitStatus_Timeout, wr_service = service, wr_generation = None, wr_exit_code = None,
       wr_waited_secs = Some waited_secs, wr_execution = Some (sn_execution sn),
       wr_run_generation = Some (sn_run_generation sn),
       wr_healthcheck_configured = Some (sn_healthcheck_configured sn), wr_health = Some (sn_health sn),
       wr_uptime_secs = Some (map_option (\<lambda>d. d div NANOS_PER_SEC) (sn_uptime sn)),
       wr_latest_healthcheck = Some latest, wr_hint = Some (timeout_hint sn) \<rparr>"

fun wait_result_from :: "string \<Rightarrow> duration \<Rightarrow> wait_conclusion \<Rightarrow> wait_report" where
  "wait_result_from service timeout (WaitConclusion_Healthy sn) =
     wait_result_healthy service (sn_run_generation sn)"
| "wait_result_from service timeout (WaitConclusion_Exited sn) =
     wait_result_exited service (sn_last_exit_code sn) (sn_run_generation sn)"
| "wait_result_from service timeout (WaitConclusion_Timeout sn latest) =
     wait_result_timeout service (timeout div NANOS_PER_SEC) sn latest"

section \<open>Signals\<close>

datatype signal_kind =
    SignalKind_ExitSignal | SignalKind_CrashLoop | SignalKind_HealthcheckTimeout
  | SignalKind_PortUnavailable

record agent_signal =
  sg_kind :: signal_kind
  sg_detail :: string
  sg_next_probe :: string

definition service_needs_diagnosis :: "service_snapshot \<Rightarrow> bool" where
  "service_needs_diagnosis sn \<longleftrightarrow>
     sn_desired sn \<noteq> Desired_Disabled \<and>
     (sn_execution sn \<noteq> Execution_Running \<or>
      sn_healthcheck_configured sn \<and> sn_health sn \<noteq> Some Health_Healthy)"

definition exit_meaning :: "i32 \<Rightarrow> string" where
  "exit_meaning code =
     (if code = 137 then '' (SIGKILL; often OOM)''
      else if code = 143 then '' (SIGTERM)''
      else if code = 139 then '' (SIGSEGV)''
      else if code = 127 then '' (command not found)''
      else if code = 126 then '' (command found but not executable)''
      else if code = 0 then '' (clean exit)''
      else [])"

definition exit_signal :: "service_snapshot \<Rightarrow> agent_signal option" where
  "exit_signal sn =
     (if sn_execution sn \<noteq> Execution_Exited then None
      else map_option (\<lambda>code.
        \<lparr> sg_kind = SignalKind_ExitSignal,
          sg_detail = ''last run exited with status '' @ show_i32 code @ exit_meaning code,
          sg_next_probe = ''inspect error_log_tail and the retained run with get_logs'' \<rparr>)
        (sn_last_exit_code sn))"

text \<open>The debug format of a duration is a parameter.\<close>

definition crash_loop_signal :: "(duration \<Rightarrow> string) \<Rightarrow> service_snapshot \<Rightarrow> agent_signal option" where
  "crash_loop_signal fmt sn =
     map_option (\<lambda>restart.
       \<lparr> sg_kind = SignalKind_CrashLoop,
         sg_detail = ''automatic restart backoff is active for '' @ fmt (rst_backoff_delay restart) @
           ''; remaining restart budget: '' @
           (case rst_restarts_remaining restart of None \<Rightarrow> ''unbounded'' | Some n \<Rightarrow> decimal n),
         sg_next_probe =
           ''inspect the exit signal and retained logs before the next restart attempt'' \<rparr>)
       (sn_restart_state sn)"

definition latest_attempt_text :: "health_attempt option \<Rightarrow> string" where
  "latest_attempt_text latest =
     (case Option.bind latest ha_result of
        Some result \<Rightarrow>
          (if hr_success result then ''latest completed attempt succeeded with exit status ''
           else ''latest completed attempt failed with exit status '') @ show_i32 (hr_exit_code result)
      | None \<Rightarrow> ''no healthcheck attempt has completed yet'')"

definition healthcheck_signal ::
  "(duration \<Rightarrow> string) \<Rightarrow> service_snapshot \<Rightarrow> health_attempt option \<Rightarrow> agent_signal option"
where
  "healthcheck_signal fmt sn latest =
     (if \<not> sn_healthcheck_configured sn \<or> sn_execution sn \<noteq> Execution_Running \<or>
         sn_health sn = Some Health_Healthy then None
      else
        let timing = (case sn_healthcheck sn of
              None \<Rightarrow> ''timing unavailable from this session snapshot''
            | Some h \<Rightarrow> ''retries: '' @ decimal (hc_retries h) @ '', interval: '' @ fmt (hc_interval h) @
                       '', timeout: '' @ fmt (hc_timeout h))
        in Some \<lparr> sg_kind = SignalKind_HealthcheckTimeout,
                  sg_detail = ''healthcheck has not become healthy ('' @ timing @ ''); '' @
                    latest_attempt_text latest,
                  sg_next_probe =
                    ''inspect latest_healthcheck output and wait for another state change'' \<rparr>)"

datatype port_probe = PortProbe_Available | PortProbe_Held | PortProbe_Unknown

fun classify_connect_result :: "io_error_kind + unit \<Rightarrow> port_probe" where
  "classify_connect_result (Inr ok) = PortProbe_Held"
| "classify_connect_result (Inl IoKind_ConnectionRefused) = PortProbe_Available"
| "classify_connect_result (Inl other) = PortProbe_Unknown"

text \<open>A connect that does not end within its budget (None) tells nothing.\<close>

definition probe_port :: "(io_error_kind + unit) option \<Rightarrow> port_probe" where
  "probe_port outcome = (case outcome of Some r \<Rightarrow> classify_connect_result r | None \<Rightarrow> PortProbe_Unknown)"

record port_owner =
  po_service :: string
  po_session :: string
  po_config_path :: string

record process_owner =
  ow_pid :: u32
  ow_command :: string

definition owner_in_session ::
  "(response \<Rightarrow> string) \<Rightarrow> u16 \<Rightarrow> session_info \<Rightarrow> tool_error + response \<Rightarrow> port_owner option"
where
  "owner_in_session debug port info reply =
     Option.bind (result_ok (and_then reply (convert_services debug))) (\<lambda>services.
       map_option (\<lambda>s. \<lparr> po_service = sn_id s, po_session = si_name info,
                         po_config_path = si_config_path info \<rparr>)
         (List.find (\<lambda>s. sn_execution s \<in> {Execution_Running, Execution_Stopping} \<and>
                        port \<in> set (sn_advertised_ports s)) services))"

definition micromux_port_owner ::
  "(response \<Rightarrow> string) \<Rightarrow> (control_endpoint \<Rightarrow> request \<Rightarrow> tool_error + response) \<Rightarrow> answering list \<Rightarrow>
   u16 \<Rightarrow> port_owner option"
where
  "micromux_port_owner debug send sessions port =
     (case List.map_filter (\<lambda>(endpoint, info).
             owner_in_session debug port info (send endpoint Request_ListServices)) sessions of
        [] \<Rightarrow> None | owner # _ \<Rightarrow> Some owner)"

fun execution_text :: "execution \<Rightarrow> string" where
  "execution_text Execution_Pending = ''Pending''"
| "execution_text Execution_Blocked = ''Blocked''"
| "execution_text Execution_Starting = ''Starting''"
| "execution_text Execution_Running = ''Running''"
| "execution_text Execution_Stopping = ''Stopping''"
| "execution_text Execution_Exited = ''Exited''"
| "execution_text Execution_Unknown = ''Unknown''"

definition port_signal ::
  "execution \<Rightarrow> u16 \<Rightarrow> port_owner option \<Rightarrow> process_owner option \<Rightarrow> agent_signal"
where
  "port_signal execution port micromux_owner process_owner =
     \<lparr> sg_kind = SignalKind_PortUnavailable,
       sg_detail =
         ''advertised port '' @ decimal (unat port) @
         '' is already held on 127.0.0.1 while the service is '' @ execution_text execution @
         (case micromux_owner of
            None \<Rightarrow> []
          | Some ow \<Rightarrow> ''; held by service '' @ [CHR 0x27] @ po_service ow @ [CHR 0x27] @ '' of session '' @
                       [CHR 0x27] @ po_session ow @ [CHR 0x27] @ '' ('' @ po_config_path ow @ '')'') @
         (case (micromux_owner, process_owner) of
            (_, Some ow) \<Rightarrow>
              ''; listener process pid '' @ decimal (unat (ow_pid ow)) @ '': '' @ ow_command ow
          | (None, None) \<Rightarrow> ''; held by a process owned by another user or unknown''
          | (Some _, None) \<Rightarrow> []),
       sg_next_probe =
         ''confirm before freeing the port '' @ DASH @ '' micromux never kills it for you'' \<rparr>"

text \<open>What is found at a port: the outcome of the connect, and the owners if it is held.\<close>

definition port_signals ::
  "(u16 \<Rightarrow> (io_error_kind + unit) option) \<Rightarrow> (u16 \<Rightarrow> port_owner option) \<Rightarrow> (u16 \<Rightarrow> process_owner option) \<Rightarrow>
   service_snapshot \<Rightarrow> agent_signal list"
where
  "port_signals connect micromux_owner process_owner sn =
     (if sn_execution sn \<notin> {Execution_Pending, Execution_Blocked, Execution_Starting, Execution_Exited}
      then []
      else map (\<lambda>port. port_signal (sn_execution sn) port (micromux_owner port) (process_owner port))
             (filter (\<lambda>port. probe_port (connect port) = PortProbe_Held) (sn_advertised_ports sn)))"

definition supervisor_signals ::
  "(duration \<Rightarrow> string) \<Rightarrow> (service_snapshot \<Rightarrow> agent_signal list) \<Rightarrow> service_snapshot \<Rightarrow>
   health_attempt option \<Rightarrow> agent_signal list"
where
  "supervisor_signals fmt ports sn latest =
     option_list (exit_signal sn) @ option_list (crash_loop_signal fmt sn) @
     option_list (healthcheck_signal fmt sn latest) @ ports sn"

end
