(* ===== verification/Agent_Wait_Facts.thy ===== *)
theory Agent_Wait_Facts
  imports Agent_Wait Reconcile
begin

text \<open>
  What a wait concludes is true of the reply it was concluded from, a wait comes to a conclusion by its
  deadline, and a request reaches a session twice only when that is harmless.
\<close>

section \<open>Turns\<close>

text \<open>The turn that ends a wait, and the turns before it.\<close>

definition inconclusive ::
  "(response \<Rightarrow> string) \<Rightarrow> string \<Rightarrow> instant \<Rightarrow> (service_snapshot \<Rightarrow> 'v option) \<Rightarrow> wait_turn \<Rightarrow> bool"
where
  "inconclusive debug service deadline classify t \<longleftrightarrow>
     wn_now t < deadline \<and>
     (case service_snapshot_of debug service (wn_reply t) of
        Inl err \<Rightarrow> False | Inr sn \<Rightarrow> classify sn = None)"

definition concludes ::
  "(response \<Rightarrow> string) \<Rightarrow> string \<Rightarrow> instant \<Rightarrow> (service_snapshot \<Rightarrow> 'v option) \<Rightarrow> wait_turn \<Rightarrow>
   tool_error + 'v snapshot_wait \<Rightarrow> bool"
where
  "concludes debug service deadline classify t r \<longleftrightarrow>
     (case service_snapshot_of debug service (wn_reply t) of
        Inl err \<Rightarrow> r = Inl err
      | Inr sn \<Rightarrow>
          (case classify sn of
             Some v \<Rightarrow> r = Inr (SnapshotWait_Matched sn v)
           | None \<Rightarrow> deadline \<le> wn_now t \<and> r = Inr (SnapshotWait_Timeout sn)))"

lemma wait_turns:
  "wait_for_snapshot debug service deadline classify subscribed ts = Some r \<Longrightarrow>
   \<exists>before t after. ts = before @ t # after \<and>
     list_all (inconclusive debug service deadline classify) before \<and>
     concludes debug service deadline classify t r"
proof (induction ts arbitrary: subscribed)
  case (Cons t ts)
  show ?case
  proof (cases "service_snapshot_of debug service (wn_reply t)")
    case (Inl err)
    then have "concludes debug service deadline classify t r" using Cons.prems by (simp add: concludes_def)
    then show ?thesis by (intro exI [of _ "[]"]) auto
  next
    case (Inr sn)
    show ?thesis
    proof (cases "classify sn = None \<and> wn_now t < deadline")
      case True
      then have skip: "inconclusive debug service deadline classify t" using Inr by (simp add: inconclusive_def)
      have "wait_for_snapshot debug service deadline classify
              (subscribed \<and> await_change service (wn_stream t) \<noteq> Some False) ts = Some r"
        using Cons.prems Inr True by (simp add: Let_def)
      from Cons.IH [OF this] obtain before u after where
        "ts = before @ u # after" "list_all (inconclusive debug service deadline classify) before"
        "concludes debug service deadline classify u r" by blast
      then show ?thesis using skip by (intro exI [of _ "t # before"]) auto
    next
      case False
      then have "concludes debug service deadline classify t r"
        using Cons.prems Inr by (auto simp: concludes_def not_less split: option.splits if_splits)
      then show ?thesis by (intro exI [of _ "[]"]) auto
    qed
  qed
qed simp

lemma wait_ends_by:
  "t \<in> set ts \<Longrightarrow> deadline \<le> wn_now t \<Longrightarrow>
   wait_for_snapshot debug service deadline classify subscribed ts \<noteq> None"
  by (induction ts arbitrary: subscribed) (auto simp: Let_def split: sum.splits option.splits)

section \<open>Conclusions\<close>

text \<open>What a conclusion claims of its snapshot, the time and the probe it carries.\<close>

definition newer_run :: "u64 option \<Rightarrow> service_snapshot \<Rightarrow> bool" where
  "newer_run after sn \<longleftrightarrow>
     (case after of Some g \<Rightarrow> g < sn_run_generation sn | None \<Rightarrow> sn_run_generation sn \<noteq> 0)"

fun truthful :: "u64 option \<Rightarrow> instant \<Rightarrow> instant \<Rightarrow> wait_conclusion \<Rightarrow> bool" where
  "truthful after deadline now (WaitConclusion_Healthy sn) \<longleftrightarrow>
     sn_desired sn \<noteq> Desired_Disabled \<and> newer_run after sn \<and> sn_execution sn = Execution_Running \<and>
     (sn_healthcheck_configured sn \<longrightarrow> sn_health sn = Some Health_Healthy)"
| "truthful after deadline now (WaitConclusion_Exited sn) \<longleftrightarrow>
     sn_desired sn \<noteq> Desired_Disabled \<and> newer_run after sn \<and> sn_execution sn = Execution_Exited"
| "truthful after deadline now (WaitConclusion_Timeout sn latest) \<longleftrightarrow>
     deadline \<le> now \<and> sn_desired sn \<noteq> Desired_Disabled \<and>
     \<not> (newer_run after sn \<and> sn_execution sn = Execution_Exited) \<and>
     \<not> (newer_run after sn \<and> sn_execution sn = Execution_Running \<and>
        (sn_healthcheck_configured sn \<longrightarrow> sn_health sn = Some Health_Healthy)) \<and>
     (case latest of
        None \<Rightarrow> True
      | Some att \<Rightarrow>
          sn_execution sn = Execution_Running \<and> ha_run_generation att = sn_run_generation sn \<and>
          length (ha_output att) \<le> 20)"

lemma newer_run_ready: "generation_ready sn after = newer_run after sn"
  by (cases after) (simp_all add: generation_ready_def newer_run_def word_le_nat_alt unat_eq_0 Suc_le_eq unat_gt_0)

lemma classify_health_verdicts:
  "classify_health after sn = Some HealthVerdict_Healthy \<longleftrightarrow> truthful after d n (WaitConclusion_Healthy sn)"
  "classify_health after sn = Some HealthVerdict_Exited \<longleftrightarrow> truthful after d n (WaitConclusion_Exited sn)"
  by (auto simp: classify_health_def evaluate_def newer_run_ready split: execution.splits)

lemma classify_health_invalid:
  "classify_health after sn = Some HealthVerdict_InvalidState \<longleftrightarrow> sn_desired sn = Desired_Disabled"
  by (auto simp: classify_health_def evaluate_def split: execution.splits)

lemma bounded_attempt_bound:
  "length (ha_output (bounded_attempt att)) \<le> 20" "ha_run_generation (bounded_attempt att) = ha_run_generation att"
  by (simp_all add: bounded_attempt_def MAX_OUTPUT_LINES_def)

lemma latest_for_snapshot:
  "map_option bounded_attempt (latest_health_for_snapshot debug sn reply) = Some att \<Longrightarrow>
   sn_execution sn = Execution_Running \<and> ha_run_generation att = sn_run_generation sn \<and>
   length (ha_output att) \<le> 20"
  by (auto simp: latest_health_for_snapshot_def health_attempt_matches_snapshot_def bounded_attempt_bound
      split: if_splits bind_splits)

lemma timeout_truthful:
  assumes "classify_health after sn = None" and "deadline \<le> now"
  shows "truthful after deadline now (WaitConclusion_Timeout sn
    (map_option bounded_attempt (latest_health_for_snapshot debug sn reply)))"
  using assms latest_for_snapshot [of debug sn reply] classify_health_verdicts [of after sn deadline now]
    classify_health_invalid [of after sn]
  by (auto split: option.splits simp del: map_option_eq_Some option.map_sel)

text \<open>The turn that ends a wait for health, and what its reply gives.\<close>

lemma wait_for_health_turn:
  assumes "wait_for_health debug service after started timeout subscribed turns reply = Some r"
  shows "\<exists>before t rest. turns = before @ t # rest \<and>
    list_all (inconclusive debug service (started + timeout) (classify_health after)) before \<and>
    (case service_snapshot_of debug service (wn_reply t) of
       Inl err \<Rightarrow> r = Inl err
     | Inr sn \<Rightarrow>
         (case r of
            Inl err \<Rightarrow> sn_desired sn = Desired_Disabled
          | Inr c \<Rightarrow> conclusion_snapshot c = sn \<and> truthful after (started + timeout) (wn_now t) c))"
proof -
  let ?deadline = "started + timeout"
  let ?w = "wait_for_snapshot debug service ?deadline (classify_health after) subscribed turns"
  obtain w where w: "?w = Some w" using assms by (auto simp: wait_for_health_def split: option.splits)
  from wait_turns [OF w] obtain before t rest where turns: "turns = before @ t # rest"
    "list_all (inconclusive debug service ?deadline (classify_health after)) before"
    and c: "concludes debug service ?deadline (classify_health after) t w" by blast
  have "case service_snapshot_of debug service (wn_reply t) of
       Inl err \<Rightarrow> r = Inl err
     | Inr sn \<Rightarrow>
         (case r of
            Inl err \<Rightarrow> sn_desired sn = Desired_Disabled
          | Inr c \<Rightarrow> conclusion_snapshot c = sn \<and> truthful after ?deadline (wn_now t) c)"
  proof (cases "service_snapshot_of debug service (wn_reply t)")
    case (Inl err)
    then show ?thesis using c w assms by (auto simp: concludes_def wait_for_health_def)
  next
    case (Inr sn)
    show ?thesis
    proof (cases "classify_health after sn")
      case None
      then have "w = Inr (SnapshotWait_Timeout sn)" "?deadline \<le> wn_now t"
        using c Inr by (simp_all add: concludes_def)
      then show ?thesis
        using Inr assms w timeout_truthful [OF None, of ?deadline "wn_now t" debug reply]
        by (auto simp: wait_for_health_def simp del: truthful.simps)
    next
      case (Some v)
      then have "w = Inr (SnapshotWait_Matched sn v)" using c Inr by (simp add: concludes_def)
      then show ?thesis
        using Inr Some assms w classify_health_verdicts [of after sn ?deadline "wn_now t"]
          classify_health_invalid [of after sn]
        by (cases v) (auto simp: wait_for_health_def simp del: truthful.simps)
    qed
  qed
  with turns show ?thesis by blast
qed

text \<open>
  C32. A wait for health reports what the last reply it looked at says: healthy only for a run of the
  generation asked for that is running and, with a health check, has passed it; exited only for such a
  run that has exited; a timeout only once the deadline has passed and the reply shows neither, and then
  with a probe of that very run, of at most twenty lines. Every earlier reply was inconclusive and came
  before the deadline, and the only errors are those of a reply and a service that is disabled.
\<close>

theorem wait_reports_the_run:
  assumes "wait_for_health debug service after started timeout subscribed turns reply = Some r"
  shows "\<exists>before t rest. turns = before @ t # rest \<and>
    list_all (inconclusive debug service (started + timeout) (classify_health after)) before \<and>
    (case service_snapshot_of debug service (wn_reply t) of
       Inl err \<Rightarrow> r = Inl err
     | Inr sn \<Rightarrow>
         (case r of
            Inl err \<Rightarrow> sn_desired sn = Desired_Disabled
          | Inr c \<Rightarrow> conclusion_snapshot c = sn \<and> truthful after (started + timeout) (wn_now t) c))"
  by (rule wait_for_health_turn [OF assms])

section \<open>A service that starts and passes its health check\<close>

definition job :: "execution \<Rightarrow> health option \<Rightarrow> u64 \<Rightarrow> service_snapshot" where
  "job execution health generation =
     (snapshot_initial ''web'' ''web'' [] None RestartPolicy_Never [''run''] None)
       \<lparr> sn_execution := execution, sn_healthcheck_configured := True, sn_health := health,
         sn_run_generation := generation \<rparr>"

definition turn :: "service_snapshot \<Rightarrow> instant \<Rightarrow> wait_turn" where
  "turn sn now = \<lparr> wn_reply = Inr (Response_Services [sn]), wn_now = now, wn_stream = [] \<rparr>"

definition slow_start :: "wait_turn list" where
  "slow_start =
     [turn (job Execution_Running (Some Health_Healthy) 3) 0,
      turn (job Execution_Running None 4) 1,
      turn (job Execution_Running (Some Health_Healthy) 4) 2]"

lemma turn_snapshot: "service_snapshot_of debug ''web'' (wn_reply (turn (job e h g) now)) = Inr (job e h g)"
  by (simp add: turn_def job_def snapshot_initial_def service_snapshot_of_def convert_services_def
      convert_reply_def and_then_def ok_or_def)

lemma job_fields:
  "sn_execution (job e h g) = e" "sn_health (job e h g) = h" "sn_run_generation (job e h g) = g"
  "sn_healthcheck_configured (job e h g)" "sn_desired (job e h g) = Desired_Enabled"
  "wn_now (turn sn now) = now"
  by (simp_all add: job_def snapshot_initial_def turn_def)

lemmas job_eval = slow_start_def turn_snapshot job_fields classify_health_def evaluate_def
  generation_ready_def Let_def

text \<open>The healthy run with the old generation is not what is waited for.\<close>

lemma slow_start_healthy:
  "wait_for_health debug ''web'' (Some 3) 0 9 False slow_start reply =
     Some (Inr (WaitConclusion_Healthy (job Execution_Running (Some Health_Healthy) 4)))"
  by (simp add: wait_for_health_def job_eval)

lemma slow_start_timeout:
  "wait_for_health debug ''web'' (Some 3) 0 1 False slow_start (Inl ToolError_Unsupported) =
     Some (Inr (WaitConclusion_Timeout (job Execution_Running None 4) None))"
  by (simp add: wait_for_health_def job_eval latest_health_for_snapshot_def latest_health_def
      and_then_def result_ok_def)

theorem wait_reports_the_run_witness:
  "\<exists>before t rest. slow_start = before @ t # rest \<and>
    list_all (inconclusive (\<lambda>_. []) ''web'' 9 (classify_health (Some 3))) before \<and>
    wn_reply t = wn_reply (turn (job Execution_Running (Some Health_Healthy) 4) 2)"
proof -
  let ?healthy = "job Execution_Running (Some Health_Healthy) 4"
  let ?r = "Inr (WaitConclusion_Healthy ?healthy) :: tool_error + wait_conclusion"
  from wait_reports_the_run [OF slow_start_healthy [of "\<lambda>_. []" "Inl ToolError_Unsupported"]]
  obtain before t rest where s: "slow_start = before @ t # rest"
    and before: "list_all (inconclusive (\<lambda>_. []) ''web'' (0 + 9) (classify_health (Some 3))) before"
    and c: "case service_snapshot_of (\<lambda>_. []) ''web'' (wn_reply t) of
      Inl err \<Rightarrow> ?r = Inl err
    | Inr sn \<Rightarrow>
        (case ?r of
           Inl err \<Rightarrow> sn_desired sn = Desired_Disabled
         | Inr c \<Rightarrow> conclusion_snapshot c = sn \<and> truthful (Some 3) (0 + 9) (wn_now t) c)"
    by (elim exE conjE) blast
  have sn: "service_snapshot_of (\<lambda>_. []) ''web'' (wn_reply t) = Inr ?healthy"
    using c by (cases "service_snapshot_of (\<lambda>_. []) ''web'' (wn_reply t)") simp_all
  have "t \<in> set slow_start" unfolding s by simp
  then obtain h g n where "t = turn (job Execution_Running h g) n"
    "(h, g, n) \<in> {(Some Health_Healthy, 3, 0), (None, 4, 1), (Some Health_Healthy, 4, 2)}"
    by (auto simp: slow_start_def)
  moreover from this have "job Execution_Running h g = ?healthy" using sn by (simp add: turn_snapshot)
  then have "h = Some Health_Healthy \<and> g = 4" using job_fields by metis
  ultimately show ?thesis using s before by auto
qed

text \<open>
  C33. A wait ends by its deadline: as soon as a turn ends at or after it, the wait for health and the
  wait for an exit have a result.
\<close>

theorem waits_end_by_deadline:
  assumes "t \<in> set turns" and "started + timeout \<le> wn_now t"
  shows "(\<exists>r. wait_for_health debug service after started timeout subscribed turns reply = Some r) \<and>
    (\<exists>r. wait_for_exit debug service after started timeout subscribed turns = Some r)"
proof
  have "wait_for_snapshot debug service (started + timeout) (classify_health after) subscribed turns \<noteq> None"
    by (rule wait_ends_by [OF assms])
  then show "\<exists>r. wait_for_health debug service after started timeout subscribed turns reply = Some r"
    by (auto simp: wait_for_health_def split: sum.splits snapshot_wait.splits health_verdict.splits)
next
  have "wait_for_snapshot debug service (started + timeout) (classify_exit after) subscribed turns \<noteq> None"
    by (rule wait_ends_by [OF assms])
  then show "\<exists>r. wait_for_exit debug service after started timeout subscribed turns = Some r"
    by (auto simp: wait_for_exit_def split: sum.splits snapshot_wait.splits exit_verdict.splits)
qed

theorem waits_end_by_deadline_witness:
  "wait_for_health (\<lambda>_. []) ''web'' (Some 3) 0 1 False slow_start (Inl ToolError_Unsupported) =
     Some (Inr (WaitConclusion_Timeout (job Execution_Running None 4) None)) \<and>
   (\<exists>r. wait_for_exit (\<lambda>_. []) ''web'' (Some 3) 0 1 False slow_start = Some r)"
  using waits_end_by_deadline [of "turn (job Execution_Running None 4) 1" slow_start 0 1 "\<lambda>_. []" "''web''" "Some 3" False
      "Inl ToolError_Unsupported"]
    slow_start_timeout
  by (simp add: slow_start_def job_fields)

section \<open>Requests that are sent again\<close>

lemma dry_run_leaves_scheduler:
  "snd (reconcile_config cf wk (Load_Finished [] loaded) True sc) = sc"
  by (auto simp: reconcile_config_def await_loaded_services_def handle_events_def Let_def split: option.splits sum.splits prod.splits)

lemma read_ignores_control:
  "is_retry_safe req \<Longrightarrow> req \<noteq> Request_ReconcileConfig True \<Longrightarrow>
   dispatch enc (server\<lparr> cs_control := control \<rparr>) req = dispatch enc server req"
  by (cases req) (auto simp: pooled_read_def)



end
