(* ===== verification/Agent_Events.thy ===== *)
theory Agent_Events
  imports Agent_Requests Follow_Logs
begin

text \<open>
  The events of one service or of all: \<^verbatim>\<open>src/crates/micromux-mcp/src/tools/events.rs\<close> and the tool
  \<^verbatim>\<open>get_service_events\<close> of \<^verbatim>\<open>src/crates/micromux-mcp/src/lib.rs\<close>. The pages of the services are merged
  by time without reordering a service; each service keeps a cursor of its own.
\<close>

section \<open>Merging\<close>

record session_service_event =
  xe_service :: string
  xe_event :: service_event

record service_event_page =
  vp_service :: string
  vp_after_seq :: "u64 option"
  vp_events :: "service_event list"
  vp_truncated :: bool

record merged_service_events =
  mv_events :: "session_service_event list"
  mv_next :: cursors
  mv_truncated :: bool

type_synonym event_groups = "(string \<times> service_event list) list"

text \<open>The heads are compared by time, then by the name of the service, then by sequence number.\<close>

type_synonym head_key = "u64 \<times> string \<times> u64"

definition event_head_before :: "string \<times> head_key \<Rightarrow> string \<times> head_key \<Rightarrow> bool" where
  "event_head_before = (\<lambda>(_, t, s, q) (_, t', s', q').
     t < t' \<or> t = t' \<and> (s < s' \<or> s = s' \<and> q < q'))"

definition group_heads :: "event_groups \<Rightarrow> (string \<times> head_key) list" where
  "group_heads gs = List.map_filter (\<lambda>(s, es).
     case es of [] \<Rightarrow> None | e # _ \<Rightarrow> Some (s, se_at_unix_ms e, s, se_seq e)) gs"

text \<open>\<^verbatim>\<open>min_by\<close> gives the first of the least.\<close>

fun min_event_head :: "(string \<times> head_key) list \<Rightarrow> (string \<times> head_key) option" where
  "min_event_head [] = None"
| "min_event_head (h # hs) =
     (case min_event_head hs of
        None \<Rightarrow> Some h
      | Some m \<Rightarrow> if event_head_before m h then Some m else Some h)"

definition select_head :: "event_groups \<Rightarrow> string option" where
  "select_head gs = map_option fst (min_event_head (group_heads gs))"

text \<open>The group after its first event is taken; an empty group leaves the map.\<close>

definition pop_group :: "string \<Rightarrow> event_groups \<Rightarrow> event_groups" where
  "pop_group s gs =
     (case im_get gs s of
        None \<Rightarrow> gs
      | Some es \<Rightarrow> if tl es = [] then im_remove s gs else im_modify s tl gs)"

lemma pop_group_smaller: "im_get gs s = Some es \<Longrightarrow> groups_size (pop_group s gs) < groups_size gs"
proof -
  assume es: "im_get gs s = Some es"
  have "im_modify s tl gs = im_modify s (\<lambda>_. tl es) gs"
    using es by (induction gs) (auto split: if_splits)
  moreover have "tl es \<noteq> [] \<Longrightarrow> length (tl es) < length es" by (cases es) simp_all
  ultimately show ?thesis
    using es by (auto simp: pop_group_def groups_size_remove groups_size_modify)
qed

function merge_event_groups :: "event_groups \<Rightarrow> session_service_event list" where
  "merge_event_groups gs =
     (case select_head gs of
        None \<Rightarrow> []
      | Some s \<Rightarrow>
          (case im_get gs s of
             None \<Rightarrow> []
           | Some es \<Rightarrow>
               map (\<lambda>e. \<lparr> xe_service = s, xe_event = e \<rparr>) (take 1 es) @
               merge_event_groups (pop_group s gs)))"
  by auto
termination
  by (relation "measure groups_size") (auto intro: pop_group_smaller)

declare merge_event_groups.simps [simp del]

definition returned_event_cursors :: "session_service_event list \<Rightarrow> cursors" where
  "returned_event_cursors es =
     fold (\<lambda>e cs. im_insert (xe_service e)
       (case im_get cs (xe_service e) of
          None \<Rightarrow> se_seq (xe_event e)
        | Some c \<Rightarrow> max c (se_seq (xe_event e))) cs) es []"

definition next_event_cursor ::
  "bool \<Rightarrow> bool \<Rightarrow> cursors \<Rightarrow> service_event_page \<Rightarrow> u64 option"
where
  "next_event_cursor merge_truncated tail_mode returned p =
     (if merge_truncated \<and> \<not> tail_mode
      then or_else (im_get returned (vp_service p)) (vp_after_seq p)
      else or_else (or_else (map_option se_seq (last_of (vp_events p))) (vp_after_seq p))
             (if tail_mode then Some 0 else None))"

definition merge_service_events ::
  "service_event_page list \<Rightarrow> usize \<Rightarrow> bool \<Rightarrow> merged_service_events"
where
  "merge_service_events pages limit tail_mode =
     (let page_truncated = list_ex vp_truncated pages;
          gs = fold (\<lambda>p. im_insert (vp_service p) (vp_events p)) pages [];
          es = merge_event_groups gs;
          merge_truncated = limit < length es;
          es' = (if merge_truncated
                 then (if tail_mode then drop (length es - limit) es else take limit es)
                 else es);
          returned = returned_event_cursors es';
          next_map = fold (\<lambda>p m.
            case next_event_cursor merge_truncated tail_mode returned p of
              None \<Rightarrow> m | Some c \<Rightarrow> im_insert (vp_service p) c m) pages []
      in \<lparr> mv_events = es', mv_next = next_map, mv_truncated = (page_truncated \<or> merge_truncated) \<rparr>)"

section \<open>The tool\<close>

text \<open>What a tool answers when it fails: the caller's parameters or the state of the session, with a text.\<close>

datatype error_data =
    ErrorData_InvalidParams string "discovery_diagnostics option"
  | ErrorData_InternalError string "discovery_diagnostics option"

text \<open>The text of a control error is a parameter.\<close>

fun error_data_of :: "(control_error \<Rightarrow> string) \<Rightarrow> tool_error \<Rightarrow> error_data" where
  "error_data_of show_err (ToolError_NoSession details) =
     ErrorData_InvalidParams (''no session: '' @ dg_summary details) (Some details)"
| "error_data_of show_err (ToolError_Ambiguous message) =
     ErrorData_InvalidParams (''ambiguous selector: '' @ message) None"
| "error_data_of show_err (ToolError_Busy message) =
     ErrorData_InternalError (''session busy: '' @ message) None"
| "error_data_of show_err (ToolError_InvalidState message) =
     ErrorData_InvalidParams (''invalid state: '' @ message) None"
| "error_data_of show_err (ToolError_ConfigReload message) =
     ErrorData_InvalidParams (''config reload failed: '' @ message) None"
| "error_data_of show_err ToolError_Unsupported =
     ErrorData_InternalError
       ''UnsupportedPlatform: the micromux control plane is not supported on this platform'' None"
| "error_data_of show_err (ToolError_Remote code message) =
     ErrorData_InvalidParams (error_code_text code @ '': '' @ message) None"
| "error_data_of show_err (ToolError_Control err) = ErrorData_InternalError (show_err err) None"
| "error_data_of show_err (ToolError_Unexpected message) = ErrorData_InternalError message None"

text \<open>A service that went away after it was listed is skipped.\<close>

fun event_pages ::
  "(response \<Rightarrow> string) \<Rightarrow> (request \<Rightarrow> tool_error + response) \<Rightarrow> cursors option \<Rightarrow> usize \<Rightarrow> string list \<Rightarrow>
   tool_error + service_event_page list"
where
  "event_pages debug ask after limit [] = Inr []"
| "event_pages debug ask after limit (s # ss) =
     (let after_seq = map_option (\<lambda>cs. case im_get cs s of None \<Rightarrow> 0 | Some c \<Rightarrow> c) after in
      case ask (Request_GetEvents s after_seq (Some limit)) of
        Inl err \<Rightarrow> Inl err
      | Inr response \<Rightarrow>
          (case convert_events debug response of
             Inl (ToolError_Remote ErrorCode_UnknownService message) \<Rightarrow>
               event_pages debug ask after limit ss
           | Inl err \<Rightarrow> Inl err
           | Inr (es, truncated) \<Rightarrow>
               and_then (event_pages debug ask after limit ss) (\<lambda>ps.
                 Inr (\<lparr> vp_service = s, vp_after_seq = after_seq, vp_events = es,
                        vp_truncated = truncated \<rparr> # ps))))"

definition clamp :: "usize \<Rightarrow> usize \<Rightarrow> usize \<Rightarrow> usize" where
  "clamp lo hi n = (if n < lo then lo else if hi < n then hi else n)"

definition all_service_events ::
  "(response \<Rightarrow> string) \<Rightarrow> (request \<Rightarrow> tool_error + response) \<Rightarrow> cursors option \<Rightarrow> usize option \<Rightarrow>
   tool_error + merged_service_events"
where
  "all_service_events debug ask after tail =
     (let limit = clamp 1 MAX_EVENT_TAIL (case tail of None \<Rightarrow> DEFAULT_EVENT_TAIL | Some n \<Rightarrow> n);
          tail_mode = (after = None)
      in and_then (and_then (ask Request_ListServices) (convert_services debug)) (\<lambda>services.
         and_then (event_pages debug ask after limit (map sn_id services)) (\<lambda>pages.
           Inr (merge_service_events pages limit tail_mode))))"

text \<open>The result for one service: the events, the cursor to go on from, and whether it is cut.\<close>

definition single_service_events ::
  "(response \<Rightarrow> string) \<Rightarrow> (request \<Rightarrow> tool_error + response) \<Rightarrow> (tool_error \<Rightarrow> tool_error) \<Rightarrow> string \<Rightarrow>
   u64 option \<Rightarrow> usize option \<Rightarrow> tool_error + service_event list \<times> u64 option \<times> bool"
where
  "single_service_events debug ask enrich service after_seq tail =
     (case ask (Request_GetEvents service after_seq tail) of
        Inl err \<Rightarrow> Inl err
      | Inr response \<Rightarrow>
          (case convert_events debug response of
             Inl err \<Rightarrow> Inl (enrich err)
           | Inr (es, truncated) \<Rightarrow>
               Inr (es, or_else (map_option se_seq (last_of es)) after_seq, truncated)))"

datatype service_events_result =
    ServiceEvents_Session merged_service_events
  | ServiceEvents_Single "service_event list" "u64 option" bool

definition get_service_events ::
  "(control_error \<Rightarrow> string) \<Rightarrow> (response \<Rightarrow> string) \<Rightarrow> (request \<Rightarrow> tool_error + response) \<Rightarrow>
   (tool_error \<Rightarrow> tool_error) \<Rightarrow> string \<Rightarrow> cursors option \<Rightarrow> u64 option \<Rightarrow> usize option \<Rightarrow>
   error_data + service_events_result"
where
  "get_service_events show_err debug ask enrich service after after_seq tail =
     (if service = ''*'' then
        if after_seq \<noteq> None then
          Inl (ErrorData_InvalidParams
            ''after_seq is service-scoped; use the per-service after map with service=\"*\"'' None)
        else map_sum (error_data_of show_err) ServiceEvents_Session
               (all_service_events debug ask after tail)
      else if after \<noteq> None then
        Inl (ErrorData_InvalidParams
          ''after is only valid with service=\"*\"; use after_seq for one service'' None)
      else map_sum (error_data_of show_err) (\<lambda>(es, next_seq, truncated).
             ServiceEvents_Single es next_seq truncated)
             (single_service_events debug ask enrich service after_seq tail))"

end
