(* ===== verification/Agent_Events_Facts.thy ===== *)
theory Agent_Events_Facts
  imports Agent_Events Follow_Facts Control_Facts
begin

text \<open>
  Following the events of all services of a session: what the merge keeps of a service, where its cursor
  goes, and that over the server of \<^verbatim>\<open>Control_Server\<close> no retained event is lost or repeated.
\<close>

section \<open>The merge\<close>

definition svc_events :: "string \<Rightarrow> session_service_event list \<Rightarrow> service_event list" where
  "svc_events s es = map xe_event (filter (\<lambda>e. xe_service e = s) es)"

lemma svc_events_append [simp]: "svc_events s (xs @ ys) = svc_events s xs @ svc_events s ys"
  by (simp add: svc_events_def)

lemma min_event_head_in: "min_event_head hs = Some h \<Longrightarrow> h \<in> set hs"
  by (induction hs arbitrary: h) (auto split: option.splits if_splits)

lemma min_event_head_None: "min_event_head hs = None \<longleftrightarrow> hs = []"
  by (cases hs) (auto split: option.splits)

lemma select_head_Some:
  assumes "im_wf gs" and "select_head gs = Some s"
  shows "\<exists>e es. im_get gs s = Some (e # es)"
proof -
  obtain k where "min_event_head (group_heads gs) = Some (s, k)"
    using assms(2) by (auto simp: select_head_def)
  then have "(s, k) \<in> set (group_heads gs)" by (rule min_event_head_in)
  then obtain e es where "(s, e # es) \<in> set gs"
    by (auto simp: group_heads_def map_filter_def split: list.splits)
  then show ?thesis using im_get_in_set [OF assms(1)] by blast
qed

lemma select_head_None: "select_head gs = None \<Longrightarrow> im_get gs s = Some es \<Longrightarrow> es = []"
  by (auto simp: select_head_def min_event_head_None group_heads_def map_filter_def filter_empty_conv
      split: list.splits dest!: map_of_SomeD)

lemma pop_group_get:
  "im_wf gs \<Longrightarrow> im_get gs s = Some (e # es) \<Longrightarrow>
   im_wf (pop_group s gs) \<and>
   (case im_get (pop_group s gs) t of None \<Rightarrow> [] | Some es \<Rightarrow> es) =
     (if t = s then es else (case im_get gs t of None \<Rightarrow> [] | Some es \<Rightarrow> es))"
  by (auto simp: pop_group_def imap_simps)

text \<open>The events of each service come out as they went in.\<close>

lemma merged_events:
  "im_wf gs \<Longrightarrow> svc_events s (merge_event_groups gs) = (case im_get gs s of None \<Rightarrow> [] | Some es \<Rightarrow> es)"
proof (induction gs rule: merge_event_groups.induct)
  case (1 gs)
  show ?case
  proof (cases "select_head gs")
    case None
    then show ?thesis
      using select_head_None [OF None, of s]
      by (subst merge_event_groups.simps) (auto simp: svc_events_def split: option.splits)
  next
    case (Some t)
    obtain e es where t: "im_get gs t = Some (e # es)" using select_head_Some [OF 1(2) Some] by blast
    note pop = pop_group_get [OF 1(2) t, of s]
    have IH: "svc_events s (merge_event_groups (pop_group t gs)) =
        (case im_get (pop_group t gs) s of None \<Rightarrow> [] | Some es \<Rightarrow> es)"
      using 1(1) [OF Some t] pop by blast
    have "merge_event_groups gs = \<lparr> xe_service = t, xe_event = e \<rparr> # merge_event_groups (pop_group t gs)"
      by (subst merge_event_groups.simps) (simp add: Some t)
    then show ?thesis using IH pop t by (auto simp: svc_events_def)
  qed
qed

lemma returned_event_cursors_get:
  "im_get (returned_event_cursors es) s =
     (if svc_events s es = [] then None else Some (Max (se_seq ` set (svc_events s es))))"
proof (induction es rule: rev_induct)
  case (snoc e es)
  show ?case
  proof (cases "xe_service e = s")
    case True
    then have own: "svc_events s (es @ [e]) = svc_events s es @ [xe_event e]"
      by (simp add: svc_events_def)
    show ?thesis
      using True snoc own
      by (cases "svc_events s es = []")
        (simp_all add: returned_event_cursors_def im_get_insert max.commute)
  next
    case False
    then have "svc_events s (es @ [e]) = svc_events s es" by (simp add: svc_events_def)
    then show ?thesis using snoc False by (simp add: returned_event_cursors_def im_get_insert)
  qed
qed (simp add: returned_event_cursors_def svc_events_def)

lemma group_of_page:
  "distinct (map vp_service ps) \<Longrightarrow> p \<in> set ps \<Longrightarrow>
   im_get (fold (\<lambda>p. im_insert (vp_service p) (vp_events p)) ps []) (vp_service p) = Some (vp_events p)"
  using get_fold_page [of vp_service ps p "[]" "\<lambda>p. Some (vp_events p)"] by simp

lemma groups_wf:
  "im_wf m \<Longrightarrow> im_wf (fold (\<lambda>p. im_insert (vp_service p) (vp_events p)) ps m)"
  by (induction ps arbitrary: m) simp_all

text \<open>A prefix of events in order is what lies up to its greatest sequence number.\<close>

lemma prefix_by_seq:
  assumes "sorted_wrt (\<lambda>x y. se_seq x < se_seq y) (xs @ ys)" and "xs \<noteq> []"
  shows "filter (\<lambda>e. se_seq e \<le> Max (se_seq ` set xs)) (xs @ ys) = xs"
proof -
  have "Max (se_seq ` set xs) < se_seq y" if "y \<in> set ys" for y
    using assms that by (auto simp: sorted_wrt_append)
  then have "filter (\<lambda>e. se_seq e \<le> Max (se_seq ` set xs)) ys = []"
    by (auto simp: filter_empty_conv not_le)
  moreover have "filter (\<lambda>e. se_seq e \<le> Max (se_seq ` set xs)) xs = xs"
    by (auto intro!: filter_True)
  ultimately show ?thesis by simp
qed

lemma seq_le_last:
  "sorted_wrt (\<lambda>x y. se_seq x < se_seq y) es \<Longrightarrow> x \<in> set es \<Longrightarrow> se_seq x \<le> se_seq (last es)"
  by (induction es) (auto intro: less_imp_le)

lemma merged_page:
  fixes pages limit
  defines "out \<equiv> merge_service_events pages limit False"
  assumes dist: "distinct (map vp_service pages)" and p: "p \<in> set pages"
    and a: "vp_after_seq p = Some a" and sorted: "sorted_wrt (\<lambda>x y. se_seq x < se_seq y) (vp_events p)"
    and beyond: "\<forall>e \<in> set (vp_events p). a < se_seq e"
  shows "\<exists>c. im_get (mv_next out) (vp_service p) = Some c \<and> (c = a \<or> c \<in> se_seq ` set (vp_events p)) \<and>
    svc_events (vp_service p) (mv_events out) = filter (\<lambda>e. se_seq e \<le> c) (vp_events p)"
proof -
  let ?s = "vp_service p" and ?es = "vp_events p"
  define m where "m = merge_event_groups (fold (\<lambda>p. im_insert (vp_service p) (vp_events p)) pages [])"
  have own: "svc_events ?s m = ?es"
    unfolding m_def by (subst merged_events) (simp_all add: groups_wf group_of_page [OF dist p])
  define kept where "kept = (if limit < length m then take limit m else m)"
  let ?next = "next_event_cursor (limit < length m) False (returned_event_cursors kept) p"
  note out = out_def merge_service_events_def Let_def m_def [symmetric] kept_def [symmetric]
  have choice: "(if limit < length m then if False then drop (length m - limit) m else take limit m else m) = kept"
    by (simp add: kept_def)
  have entries: "mv_events out = kept" unfolding out choice by simp
  have nxt: "im_get (mv_next out) ?s = ?next"
    unfolding out choice merged_service_events.select_convs
    by (rule get_fold_page [OF dist p]) simp
  show ?thesis
  proof (cases "limit < length m")
    case False
    then have k: "svc_events ?s kept = ?es" using own by (simp add: kept_def)
    show ?thesis
    proof (cases "?es = []")
      case True
      then show ?thesis using False k a by (simp add: nxt entries next_event_cursor_def or_else_def last_of_def)
    next
      case nonempty: False
      then have "filter (\<lambda>e. se_seq e \<le> se_seq (last ?es)) ?es = ?es"
        using seq_le_last [OF sorted] by (auto intro!: filter_True)
      then show ?thesis
        using False k nonempty by (simp add: nxt entries next_event_cursor_def or_else_def last_of_def)
    qed
  next
    case True
    have split: "svc_events ?s kept @ svc_events ?s (drop limit m) = ?es"
      using own True by (metis append_take_drop_id kept_def svc_events_append)
    show ?thesis
    proof (cases "svc_events ?s kept = []")
      case empty: True
      have "filter (\<lambda>e. se_seq e \<le> a) ?es = []" using beyond by (auto simp: filter_empty_conv not_le)
      then show ?thesis
        using True empty a by (simp add: nxt entries next_event_cursor_def returned_event_cursors_get or_else_def)
    next
      case False
      let ?c = "Max (se_seq ` set (svc_events ?s kept))"
      have "?c \<in> se_seq ` set (svc_events ?s kept)" using False by (intro Max_in) simp_all
      then have "?c \<in> se_seq ` set ?es" using split by (metis Un_iff image_Un set_append)
      moreover have "filter (\<lambda>e. se_seq e \<le> ?c) ?es = svc_events ?s kept"
        using prefix_by_seq [of "svc_events ?s kept" "svc_events ?s (drop limit m)"] sorted False split by simp
      ultimately show ?thesis
        using True False by (simp add: nxt entries next_event_cursor_def returned_event_cursors_get or_else_def)
    qed
  qed
qed

section \<open>The server's pages\<close>

text \<open>The cursor asked for, and the retained events that lie after it.\<close>

definition asked_after :: "cursors \<Rightarrow> string \<Rightarrow> u64" where
  "asked_after cs s = (case im_get cs s of None \<Rightarrow> 0 | Some c \<Rightarrow> c)"

definition events_beyond :: "u64 \<Rightarrow> service_entry \<Rightarrow> service_event list" where
  "events_beyond a e = filter (\<lambda>ev. a < se_seq ev) (en_events e)"

lemma bound_events_prefix: "\<exists>k. fst (bound_events enc es truncated False) = take k es"
proof (cases "events_response_fits enc es truncated")
  case True
  then have "fst (bound_events enc es truncated False) = take (length es) es"
    by (simp add: bound_events_def)
  then show ?thesis by blast
qed (auto simp: bound_events_def Let_def)

lemma query_events_prefix:
  "im_get (sm_services m) s = Some e \<Longrightarrow>
   \<exists>k. fst (query_events s (Some a) tail m) = take k (events_beyond a e)"
  by (auto simp: query_events_def events_beyond_def Let_def)

lemma get_events_prefix:
  assumes "im_get (sm_services m) s = Some e"
  shows "\<exists>k truncated. get_events enc m s (Some a) tail = Response_Events (take k (events_beyond a e)) truncated"
proof -
  define t where "t = Some (min (case tail of None \<Rightarrow> DEFAULT_EVENT_TAIL | Some n \<Rightarrow> n) MAX_EVENT_TAIL)"
  obtain es truncated where q: "query_events s (Some a) t m = (es, truncated)" by fastforce
  obtain es' truncated' where b: "bound_events enc es truncated False = (es', truncated')" by fastforce
  have "get_events enc m s (Some a) tail = Response_Events es' truncated'"
    using assms b q by (simp add: get_events_def Let_def t_def)
  moreover obtain k where "es = take k (events_beyond a e)"
    using query_events_prefix [OF assms, of a t] q by auto
  moreover obtain k' where "es' = take k' es" using bound_events_prefix [of enc es truncated] b by auto
  ultimately show ?thesis by (metis take_take)
qed

lemma events_beyond_sorted:
  assumes "entry_ok e" and "en_next_event_seq e \<noteq> U64_MAX"
  shows "sorted_wrt (\<lambda>x y. se_seq x < se_seq y) (events_beyond a e)"
proof -
  have "sorted_wrt (<) (map (\<lambda>ev. unat (se_seq ev)) (en_events e))"
    using assms by (simp add: entry_ok_def events_ok_def)
  then have "sorted_wrt (\<lambda>x y. se_seq x < se_seq y) (en_events e)"
    by (simp add: sorted_wrt_map word_less_nat_alt)
  then show ?thesis by (simp add: events_beyond_def sorted_wrt_filter)
qed

definition asks_server :: "encoder \<Rightarrow> control_server \<Rightarrow> request \<Rightarrow> tool_error + response" where
  "asks_server enc server req = Inr (dispatch enc server req)"

lemma served_pages:
  assumes "\<forall>s \<in> set ss. im_get (sm_services (cr_model (cs_reader server))) s \<noteq> None"
  shows "\<exists>pages. event_pages debug (asks_server enc server) (Some after) limit ss = Inr pages \<and>
    map vp_service pages = ss \<and>
    (\<forall>p \<in> set pages. vp_after_seq p = Some (asked_after after (vp_service p)) \<and>
       (\<exists>e k. im_get (sm_services (cr_model (cs_reader server))) (vp_service p) = Some e \<and>
          vp_events p = take k (events_beyond (asked_after after (vp_service p)) e)))"
  using assms
proof (induction ss)
  case (Cons s ss)
  then obtain e where e: "im_get (sm_services (cr_model (cs_reader server))) s = Some e" by auto
  let ?a = "asked_after after s"
  obtain k truncated where reply: "get_events enc (cr_model (cs_reader server)) s (Some ?a) (Some limit) =
      Response_Events (take k (events_beyond ?a e)) truncated"
    using get_events_prefix [OF e, of enc ?a "Some limit"] by blast
  obtain pages where pages: "event_pages debug (asks_server enc server) (Some after) limit ss = Inr pages"
    "map vp_service pages = ss"
    "\<forall>p \<in> set pages. vp_after_seq p = Some (asked_after after (vp_service p)) \<and>
       (\<exists>e k. im_get (sm_services (cr_model (cs_reader server))) (vp_service p) = Some e \<and>
          vp_events p = take k (events_beyond (asked_after after (vp_service p)) e))"
    using Cons by auto
  let ?p = "\<lparr> vp_service = s, vp_after_seq = Some ?a, vp_events = take k (events_beyond ?a e),
    vp_truncated = truncated \<rparr>"
  have "event_pages debug (asks_server enc server) (Some after) limit (s # ss) = Inr (?p # pages)"
    using reply pages(1)
    by (simp add: asks_server_def asked_after_def convert_events_def convert_reply_def and_then_def)
  then show ?case using pages e by (intro exI [of _ "?p # pages"]) auto
qed simp

lemma listed_services:
  "model_ok m \<Longrightarrow> map sn_id (query_services now m) = im_keys (sm_services m)"
proof -
  assume ok: "model_ok m"
  have "sn_id (current_snapshot now e) = s" if "(s, e) \<in> set (sm_services m)" for s e
    using that ok im_get_in_set [of "sm_services m"] by (auto simp: model_ok_def current_snapshot_def Let_def)
  then show ?thesis by (auto simp: query_services_def im_keys_def)
qed

text \<open>What lies between two cursors, when the later one is the earlier or that of a returned event.\<close>

lemma prefix_between:
  assumes "sorted_wrt (\<lambda>x y. se_seq x < se_seq y) es" and "\<forall>e \<in> set es. a < se_seq e"
    and "c = a \<or> c \<in> se_seq ` set (take k es)"
  shows "filter (\<lambda>e. se_seq e \<le> c) (take k es) = filter (\<lambda>e. se_seq e \<le> c) es"
proof -
  have "\<not> se_seq y \<le> c" if y: "y \<in> set (drop k es)" for y
  proof (cases "c = a")
    case True
    then show ?thesis using assms(2) y by (auto dest!: in_set_dropD simp: not_le)
  next
    case False
    then obtain x where "x \<in> set (take k es)" "c = se_seq x" using assms(3) by auto
    moreover have "sorted_wrt (\<lambda>x y. se_seq x < se_seq y) (take k es @ drop k es)" using assms(1) by simp
    ultimately show ?thesis using y by (auto simp: sorted_wrt_append not_le simp del: append_take_drop_id)
  qed
  then have "filter (\<lambda>e. se_seq e \<le> c) (drop k es) = []" by (simp add: filter_empty_conv)
  then show ?thesis by (metis append_Nil2 append_take_drop_id filter_append)
qed


definition sample_event :: "u64 \<Rightarrow> service_event" where
  "sample_event n =
     \<lparr> se_seq = n, se_at_unix_ms = 100 - n, se_run_generation = 1, se_kind = ServiceEventKind_Spawned,
       se_detail = [], se_exit_code = None, se_pid = None, se_delay_ms = None, se_blocked_on = None \<rparr>"

definition eventful_entry :: service_entry where
  "eventful_entry =
     (entry_new (example_snapshot ''web'') default_log_retention None False)
       \<lparr> en_events := map sample_event [1, 2, 3], en_next_event_seq := 4 \<rparr>"

definition eventful_reader :: control_reader where
  "eventful_reader =
     sample_reader\<lparr> cr_model := example_model\<lparr> sm_services := [(''web'', eventful_entry)] \<rparr> \<rparr>"

lemma eventful_ok: "model_ok (cr_model eventful_reader)"
  by (simp add: eventful_reader_def model_ok_def eventful_entry_def entry_ok_def events_ok_def health_ok_def
      runs_ok_def visible_ok_def run_ids_def buffer_seqs_def entry_new_def example_snapshot_def
      snapshot_initial_def clamp_retention_def default_log_retention_def im_wf_def im_keys_def U64_MAX_def
      sample_event_def buffer_new_def EVENT_HISTORY_def upt_rec)


end
