(* ===== verification/Agent_Diagnose.thy ===== *)
theory Agent_Diagnose
  imports Agent_Wait Agent_Events Pty_Filter
begin

text \<open>
  Diagnosing a service: likely causes in its logs, its timeline and hint, and the owner of a port that it
  advertises (\<^verbatim>\<open>src/crates/micromux-mcp/src/tools/health.rs\<close> and
  \<^verbatim>\<open>src/crates/micromux-mcp/src/tools/portowner.rs\<close>, on Linux).
\<close>

section \<open>The connection as the log tools use it\<close>

definition convert_logs :: "(response \<Rightarrow> string) \<Rightarrow> response \<Rightarrow> tool_error + logs_result" where
  "convert_logs debug = convert_reply debug (\<lambda>r. case r of
     Response_Logs ls truncated first \<Rightarrow>
       Some \<lparr> lr_lines = ls, lr_truncated = truncated, lr_first_retained_seq = first \<rparr>
   | _ \<Rightarrow> None)"

text \<open>The interface of \<^verbatim>\<open>Follow_Logs\<close> over requests and their conversion.\<close>

definition conn_of ::
  "(response \<Rightarrow> string) \<Rightarrow> (request \<Rightarrow> tool_error + response) \<Rightarrow> tool_error session_conn"
where
  "conn_of debug ask =
     \<lparr> cn_list_services =
         and_then (and_then (ask Request_ListServices) (convert_services debug)) (\<lambda>services.
           Inr (map sn_id services)),
       cn_follow_logs = (\<lambda>s generation after.
         and_then (ask (Request_FollowLogs s generation after)) (convert_logs debug)),
       cn_get_logs = (\<lambda>s generation tail.
         and_then (ask (Request_GetLogs s generation tail)) (convert_logs debug)),
       cn_list_log_runs = (\<lambda>s.
         and_then (and_then (ask (Request_ListLogRuns s)) (convert_log_runs debug)) (\<lambda>runs.
           Inr (map (\<lambda>row. \<lparr> lg_current = ls_current row, lg_last_seq = ls_last_seq row \<rparr>) runs))) \<rparr>"

section \<open>Likely causes\<close>

fun contains_text :: "string \<Rightarrow> string \<Rightarrow> bool" where
  "contains_text needle [] \<longleftrightarrow> needle = []"
| "contains_text needle (c # cs) \<longleftrightarrow>
     take (length needle) (c # cs) = needle \<or> contains_text needle cs"

definition is_likely_cause_entry :: "processed_entry \<Rightarrow> bool" where
  "is_likely_cause_entry e \<longleftrightarrow>
     pe_level e \<in> {Some ''error'', Some ''fatal''} \<or>
     list_ex (\<lambda>needle. contains_text needle (map ascii_lower (pe_line e)))
       [''[stderr]'', ''error'', ''failed'', ''panic'', ''exception'', ''traceback'', ''does not exist'']"

definition diagnosis_hint ::
  "service_snapshot \<Rightarrow> health_attempt option \<Rightarrow> processed_entry list \<Rightarrow> string"
where
  "diagnosis_hint sn latest error_log_tail =
     (case sn_execution sn of
        Execution_Exited \<Rightarrow>
          if error_log_tail = [] then ''service exited; inspect get_logs for the retained run''
          else ''service exited; error_log_tail contains likely cause lines''
      | Execution_Running \<Rightarrow>
          if sn_healthcheck_configured sn then
            (if latest \<noteq> None
             then ''service is running but healthcheck is not healthy; inspect latest_healthcheck output''
             else ''service is running but healthcheck is not healthy yet; no healthcheck attempt has completed'')
          else ''service state needs attention; inspect snapshot and logs''
      | Execution_Blocked \<Rightarrow>
          ''service is waiting on a dependency; inspect get_service_events for the blocking '' @
          ''dependencies''
      | Execution_Pending \<Rightarrow> ''service has not finished starting; inspect recent logs''
      | Execution_Starting \<Rightarrow> ''service has not finished starting; inspect recent logs''
      | Execution_Stopping \<Rightarrow> ''service is stopping''
      | Execution_Unknown \<Rightarrow> ''service reported an unknown execution state'')"

definition DIAGNOSE_LOG_SCAN :: usize where
  "DIAGNOSE_LOG_SCAN = 500"

definition fetch_log_tail ::
  "(response \<Rightarrow> string) \<Rightarrow> (request \<Rightarrow> tool_error + response) \<Rightarrow> string \<Rightarrow> u64 option \<Rightarrow>
   tool_error + logs_result"
where
  "fetch_log_tail debug ask service generation =
     and_then (ask (Request_GetLogs service generation (Some DIAGNOSE_LOG_SCAN))) (convert_logs debug)"

definition logs_for_diagnosis ::
  "(response \<Rightarrow> string) \<Rightarrow> (request \<Rightarrow> tool_error + response) \<Rightarrow> service_snapshot \<Rightarrow> tool_error + logs_result"
where
  "logs_for_diagnosis debug ask sn =
     (if 0 < sn_run_generation sn then
        (case fetch_log_tail debug ask (sn_id sn) (Some (sn_run_generation sn)) of
           Inr logs \<Rightarrow> Inr logs
         | Inl (ToolError_Remote ErrorCode_UnknownRun message) \<Rightarrow>
             fetch_log_tail debug ask (sn_id sn) None
         | Inl err \<Rightarrow> Inl err)
      else fetch_log_tail debug ask (sn_id sn) None)"

definition likely_cause_log_tail ::
  "log_library \<Rightarrow> (response \<Rightarrow> string) \<Rightarrow> (request \<Rightarrow> tool_error + response) \<Rightarrow> service_snapshot \<Rightarrow> usize \<Rightarrow>
   tool_error + processed_entry list \<times> bool"
where
  "likely_cause_log_tail lib debug ask sn limit =
     and_then (logs_for_diagnosis debug ask sn) (\<lambda>logs.
       let es = filter is_likely_cause_entry
                  (shape lib (lr_lines logs) (default_shape\<lparr>sh_format := LogFormat_Compact\<rparr>))
       in if limit < length es then
            (let (es', cut) = tail_preserving_record_boundaries es limit
             in Inr (es', lr_truncated logs \<or> cut))
          else Inr (es, lr_truncated logs))"

section \<open>Diagnoses\<close>

record service_diagnosis =
  dx_service :: string
  dx_snapshot :: service_snapshot
  dx_latest_healthcheck :: "health_attempt option"
  dx_timeline :: "service_event list"
  dx_signals :: "agent_signal list"
  dx_error_log_tail :: "processed_entry list"
  dx_logs_truncated :: bool
  dx_hint :: string

text \<open>The debug format of a duration and what is found at the ports of a service are parameters.\<close>

definition diagnose_service ::
  "log_library \<Rightarrow> (duration \<Rightarrow> string) \<Rightarrow> (service_snapshot \<Rightarrow> agent_signal list) \<Rightarrow> (response \<Rightarrow> string) \<Rightarrow>
   (request \<Rightarrow> tool_error + response) \<Rightarrow> service_snapshot \<Rightarrow> usize \<Rightarrow> tool_error + service_diagnosis"
where
  "diagnose_service lib fmt ports debug ask sn tail =
     (let latest = map_option bounded_attempt
                     (latest_health_for_snapshot debug sn (ask (Request_GetHealth (sn_id sn))));
          signals = supervisor_signals fmt ports sn latest;
          timeline = (case result_ok (and_then (ask (Request_GetEvents (sn_id sn) None (Some 10)))
                                        (convert_events debug)) of
                        Some (es, truncated) \<Rightarrow> es | None \<Rightarrow> [])
      in and_then (likely_cause_log_tail lib debug ask sn tail) (\<lambda>(error_log_tail, logs_truncated).
           Inr \<lparr> dx_service = sn_id sn, dx_snapshot = sn, dx_latest_healthcheck = latest,
                 dx_timeline = timeline, dx_signals = signals, dx_error_log_tail = error_log_tail,
                 dx_logs_truncated = logs_truncated,
                 dx_hint = diagnosis_hint sn latest error_log_tail \<rparr>))"

fun diagnose_all ::
  "(service_snapshot \<Rightarrow> 'e + 'd) \<Rightarrow> service_snapshot list \<Rightarrow> 'e + 'd list"
where
  "diagnose_all f [] = Inr []"
| "diagnose_all f (sn # sns) = and_then (f sn) (\<lambda>d. and_then (diagnose_all f sns) (\<lambda>ds. Inr (d # ds)))"

definition DEFAULT_DIAGNOSE_TAIL :: usize where
  "DEFAULT_DIAGNOSE_TAIL = 5"

definition MAX_DIAGNOSE_TAIL :: usize where
  "MAX_DIAGNOSE_TAIL = 20"

definition diagnose ::
  "log_library \<Rightarrow> (duration \<Rightarrow> string) \<Rightarrow> (service_snapshot \<Rightarrow> agent_signal list) \<Rightarrow> (response \<Rightarrow> string) \<Rightarrow>
   (request \<Rightarrow> tool_error + response) \<Rightarrow> usize option \<Rightarrow> tool_error + service_diagnosis list"
where
  "diagnose lib fmt ports debug ask tail_per_service =
     (let tail = clamp 1 MAX_DIAGNOSE_TAIL
                   (case tail_per_service of None \<Rightarrow> DEFAULT_DIAGNOSE_TAIL | Some n \<Rightarrow> n)
      in and_then (and_then (ask Request_ListServices) (convert_services debug)) (\<lambda>services.
           diagnose_all (\<lambda>sn. diagnose_service lib fmt ports debug ask sn tail)
             (filter service_needs_diagnosis services)))"

section \<open>The owner of a port\<close>

definition is_loopback_or_unspecified :: "string \<Rightarrow> bool" where
  "is_loopback_or_unspecified addr_hex =
     (let upper = map ascii_upper addr_hex in
      if length upper = 8 then upper = ''00000000'' \<or> upper = ''0100007F''
      else if length upper = 32 then
        list_all (\<lambda>c. c = CHR ''0'') upper \<or>
        upper = ''00000000000000000000000001000000'' \<or>
        suffix ''FFFF00000100007F'' upper \<or> suffix ''FFFF000000000000'' upper
      else False)"

text \<open>\<^verbatim>\<open>str::split_whitespace\<close>, \<^verbatim>\<open>rsplit_once\<close> and \<^verbatim>\<open>u16::from_str_radix\<close> for sixteen.\<close>

function words_of :: "string \<Rightarrow> string \<Rightarrow> string list" where
  "words_of word [] = (if word = [] then [] else [word])"
| "words_of word (c # cs) =
     (case leading WHITESPACE (c # cs) of
        None \<Rightarrow> words_of (word @ [c]) cs
      | Some w \<Rightarrow> (if word = [] then [] else [word]) @ words_of [] (drop (length w) (c # cs)))"
  by pat_completeness auto
termination
  by (relation "measure (\<lambda>(word, s). length s)") (auto dest!: leading_SomeD)

definition rsplit_once :: "char \<Rightarrow> string \<Rightarrow> (string \<times> string) option" where
  "rsplit_once d s = map_option (\<lambda>(after, before). (rev before, rev after)) (split_once d (rev s))"

definition hex_value :: "char \<Rightarrow> nat option" where
  "hex_value c =
     (if between 48 57 c then Some (of_char c - 48)
      else if between 65 70 c then Some (of_char c - 55)
      else if between 97 102 c then Some (of_char c - 87)
      else None)"

fun parse_hex_digits :: "nat \<Rightarrow> nat \<Rightarrow> string \<Rightarrow> nat option" where
  "parse_hex_digits m n [] = Some n"
| "parse_hex_digits m n (c # cs) =
     (case hex_value c of
        None \<Rightarrow> None
      | Some d \<Rightarrow> if m < 16 * n + d then None else parse_hex_digits m (16 * n + d) cs)"

definition parse_hex_u16 :: "string \<Rightarrow> nat option" where
  "parse_hex_u16 s =
     (case s of
        [] \<Rightarrow> None
      | c # cs \<Rightarrow>
          if c = CHR ''+'' \<and> cs \<noteq> [] then parse_hex_digits (2 ^ 16 - 1) 0 cs
          else parse_hex_digits (2 ^ 16 - 1) 0 s)"

definition nth_field :: "string list \<Rightarrow> nat \<Rightarrow> string option" where
  "nth_field columns i = (if i < length columns then Some (columns ! i) else None)"

definition listening_inode :: "string \<Rightarrow> u16 \<Rightarrow> nat option" where
  "listening_inode line port =
     (let columns = words_of [] line in
      if nth_field columns 3 \<noteq> Some ''0A'' then None
      else case Option.bind (nth_field columns 1) (rsplit_once (CHR '':'')) of
        None \<Rightarrow> None
      | Some (encoded_addr, encoded_port) \<Rightarrow>
          if \<not> is_loopback_or_unspecified encoded_addr then None
          else if parse_hex_u16 encoded_port \<noteq> Some (unat port) then None
          else Option.bind (nth_field columns 9) parse_u64)"

text \<open>The tables of the kernel, for IPv4 and IPv6, if they can be read.\<close>

definition socket_inode :: "string option list \<Rightarrow> u16 \<Rightarrow> nat option" where
  "socket_inode tables port =
     (case concat (map (\<lambda>table. case table of
             None \<Rightarrow> []
           | Some text \<Rightarrow> List.map_filter (\<lambda>line. listening_inode line port) (str_lines text)) tables) of
        [] \<Rightarrow> None | inode # _ \<Rightarrow> Some inode)"

text \<open>What \<^verbatim>\<open>/proc\<close> shows of an entry: its name, the targets of its descriptors, and its texts.\<close>

record proc_entry =
  pn_name :: string
  pn_fds :: "string option list option"
  pn_cmdline :: "string option"
  pn_comm :: "string option"

definition take_chars :: "nat \<Rightarrow> string \<Rightarrow> string" where
  "take_chars n s =
     (let starts = char_indices s in if n < length starts then take (starts ! n) s else s)"

definition command_for_pid :: "proc_entry \<Rightarrow> string" where
  "command_for_pid p =
     (let joined = map_option (\<lambda>bytes. join_with '' ''
            (map utf8_lossy (filter (\<lambda>part. part \<noteq> []) (split_char (CHR 0x00) [] bytes)))) (pn_cmdline p);
          comm = (case pn_comm p of Some text \<Rightarrow> if utf8_valid text then Some text else None | None \<Rightarrow> None);
          command = (case joined of
            Some c \<Rightarrow> if c \<noteq> [] then Some c else comm
          | None \<Rightarrow> comm)
      in take_chars 120 (case command of Some c \<Rightarrow> c | None \<Rightarrow> ''unknown command''))"

definition owns_socket :: "string \<Rightarrow> proc_entry \<Rightarrow> process_owner option" where
  "owns_socket target p =
     (case (parse_u32 (pn_name p), pn_fds p) of
        (Inr pid, Some links) \<Rightarrow>
          if Some target \<in> set links
          then Some \<lparr> ow_pid = pid, ow_command = command_for_pid p \<rparr> else None
      | _ \<Rightarrow> None)"

definition listening_owner ::
  "string option list \<Rightarrow> proc_entry list option \<Rightarrow> u16 \<Rightarrow> process_owner option"
where
  "listening_owner tables proc port =
     Option.bind (socket_inode tables port) (\<lambda>inode.
     Option.bind proc (\<lambda>entries.
       case List.map_filter (owns_socket (''socket:['' @ decimal inode @ '']'')) entries of
         [] \<Rightarrow> None | owner # _ \<Rightarrow> Some owner))"

end
