(* ===== verification/Agent_Log_Tools.thy ===== *)
theory Agent_Log_Tools
  imports Agent_Diagnose
begin

text \<open>
  The log tools of \<^verbatim>\<open>src/crates/micromux-mcp/src/lib.rs\<close>: filters from their arguments,
  \<^verbatim>\<open>get_logs\<close>, \<^verbatim>\<open>follow_logs\<close>, \<^verbatim>\<open>follow_all_logs\<close> and \<^verbatim>\<open>wait_for_log\<close>. The compiler of regular
  expressions, the clock and the parser of dates are parameters; a wait is a function of its polls.
\<close>

section \<open>Filters\<close>

definition GREP_PATTERN_MAX_BYTES :: nat where
  "GREP_PATTERN_MAX_BYTES = 64 * 1024"

type_synonym regex_compiler = "string \<Rightarrow> string + (string \<Rightarrow> bool)"

definition invalid_params :: "string \<Rightarrow> error_data + 'a" where
  "invalid_params message = Inl (ErrorData_InvalidParams message None)"

fun compile_grep :: "regex_compiler \<Rightarrow> string option \<Rightarrow> error_data + (string \<Rightarrow> bool) option" where
  "compile_grep build None = Inr None"
| "compile_grep build (Some pattern) =
     (if GREP_PATTERN_MAX_BYTES < length pattern then
        invalid_params (''grep regex exceeds the '' @ decimal GREP_PATTERN_MAX_BYTES @ ''-byte input limit'')
      else case build pattern of
        Inl err \<Rightarrow> invalid_params (''invalid grep regex: '' @ err)
      | Inr re \<Rightarrow> Inr (Some re))"

fun parse_min_level :: "string option \<Rightarrow> error_data + structured_log_level option" where
  "parse_min_level None = Inr None"
| "parse_min_level (Some level) =
     (case level_parse level of
        Some l \<Rightarrow> Inr (Some l)
      | None \<Rightarrow>
          invalid_params (''unknown level `'' @ level @ ''` (use trace|debug|info|warn|error|fatal)''))"

definition user_timestamp_to_unix_ms :: "nat \<Rightarrow> nat" where
  "user_timestamp_to_unix_ms v =
     (case numeric_timestamp_to_unix_ms v of
        Some ms \<Rightarrow> ms | None \<Rightarrow> min (v * 1000) (2 ^ 64 - 1))"

definition SINCE_UNITS :: "(string \<times> nat) list" where
  "SINCE_UNITS = [(''ms'', 1), (''s'', 1000), (''m'', 60000), (''h'', 3600000)]"

text \<open>In milliseconds.\<close>

definition parse_relative_duration :: "string \<Rightarrow> nat option" where
  "parse_relative_duration raw =
     (let raw = trim raw in
      case List.find (\<lambda>(unit_name, n). strip_suffix unit_name raw \<noteq> None) SINCE_UNITS of
        None \<Rightarrow> None
      | Some (unit_name, multiplier) \<Rightarrow>
          Option.bind (strip_suffix unit_name raw) (\<lambda>number.
          Option.bind (parse_u64 (trim number)) (\<lambda>v. u64_checked (v * multiplier))))"

definition parse_since_text :: "log_library \<Rightarrow> nat \<Rightarrow> string \<Rightarrow> error_data + nat" where
  "parse_since_text lib now_ms raw =
     (let raw = trim raw in
      if raw = [] then invalid_params ''since must not be empty''
      else case parse_relative_duration raw of
        Some ms \<Rightarrow> Inr (now_ms - ms)
      | None \<Rightarrow>
          (case Option.bind (ll_rfc3339 lib raw) (\<lambda>ms. if 0 \<le> ms then u64_checked (nat ms) else None) of
             Some ms \<Rightarrow> Inr ms
           | None \<Rightarrow>
               (case parse_u64 raw of
                  Some v \<Rightarrow> Inr (user_timestamp_to_unix_ms v)
                | None \<Rightarrow>
                    invalid_params (''since must be RFC3339, Unix seconds/ms/us/ns, or a relative duration '' @
                      ''like 30s, 2m, 1h, 500ms''))))"

fun parse_since :: "log_library \<Rightarrow> nat \<Rightarrow> string option \<Rightarrow> nat option \<Rightarrow> error_data + nat option" where
  "parse_since lib now_ms None None = Inr None"
| "parse_since lib now_ms None (Some timestamp) = Inr (Some timestamp)"
| "parse_since lib now_ms (Some raw) (Some timestamp) =
     invalid_params ''pass either since or since_unix_ms, not both''"
| "parse_since lib now_ms (Some raw) None = and_then (parse_since_text lib now_ms raw) (\<lambda>ms. Inr (Some ms))"

record log_filter_args =
  la_raw :: bool
  la_grep :: "string option"
  la_grep_context :: "usize option"
  la_min_level :: "string option"
  la_since :: "string option"
  la_since_unix_ms :: "nat option"
  la_trace_id :: "string option"
  la_format :: log_format

text \<open>The filters are those of \<open>shape_options\<close>, without a limit.\<close>

definition filters_from_args ::
  "regex_compiler \<Rightarrow> log_library \<Rightarrow> nat \<Rightarrow> log_filter_args \<Rightarrow> error_data + shape_options"
where
  "filters_from_args build lib now_ms args =
     and_then (compile_grep build (la_grep args)) (\<lambda>grep.
     and_then (parse_min_level (la_min_level args)) (\<lambda>min_level.
     and_then (parse_since lib now_ms (la_since args) (la_since_unix_ms args)) (\<lambda>since.
       Inr \<lparr> sh_raw = la_raw args, sh_grep = grep,
             sh_context = min (case la_grep_context args of None \<Rightarrow> 0 | Some n \<Rightarrow> n) 20,
             sh_min_level = min_level, sh_since_unix_ms = since, sh_trace_id = la_trace_id args,
             sh_limit = None, sh_format = la_format args \<rparr>)))"

definition filters_records :: "shape_options \<Rightarrow> bool" where
  "filters_records opts \<longleftrightarrow>
     sh_grep opts \<noteq> None \<or> sh_min_level opts \<noteq> None \<or> sh_since_unix_ms opts \<noteq> None \<or> sh_trace_id opts \<noteq> None"

section \<open>Reading logs\<close>

definition AGENT_LOG_TAIL :: usize where
  "AGENT_LOG_TAIL = 200"

definition AGENT_MAX_LOG_TAIL :: usize where
  "AGENT_MAX_LOG_TAIL = 2000"

text \<open>The tails of all services, each entry marked with its service.\<close>

fun service_tails ::
  "log_library \<Rightarrow> tool_error session_conn \<Rightarrow> (string \<Rightarrow> tool_error \<Rightarrow> error_data) \<Rightarrow> usize \<Rightarrow>
   shape_options \<Rightarrow> string list \<Rightarrow> error_data + processed_entry list \<times> bool"
where
  "service_tails lib conn enriched fetch_tail opts [] = Inr ([], False)"
| "service_tails lib conn enriched fetch_tail opts (s # ss) =
     and_then (map_err (enriched s) (fetch_and_shape_tail lib conn s None fetch_tail opts))
       (\<lambda>(es, window_full, server_truncated).
     and_then (service_tails lib conn enriched fetch_tail opts ss) (\<lambda>(rest, truncated).
       Inr (map (pe_service_update (\<lambda>_. Some s)) es @ rest,
            server_truncated \<or> window_full \<and> filters_records opts \<or> truncated)))"

definition keep_tail :: "processed_entry list \<Rightarrow> bool \<Rightarrow> usize \<Rightarrow> processed_entry list \<times> bool" where
  "keep_tail es truncated requested =
     (if requested < length es then
        (let (es', cut) = tail_preserving_record_boundaries es requested in (es', truncated \<or> cut))
      else (es, truncated))"

definition get_logs_tool ::
  "log_library \<Rightarrow> tool_error session_conn \<Rightarrow> (tool_error \<Rightarrow> error_data) \<Rightarrow>
   (string \<Rightarrow> tool_error \<Rightarrow> error_data) \<Rightarrow> shape_options \<Rightarrow> string \<Rightarrow> u64 option \<Rightarrow> usize option \<Rightarrow> error_data + processed_entry list \<times> bool"
where
  "get_logs_tool lib conn as_data enriched opts service generation tail =
     (let default_tail = (if generation \<noteq> None then AGENT_MAX_LOG_TAIL else AGENT_LOG_TAIL);
          requested_tail = min (case tail of None \<Rightarrow> default_tail | Some n \<Rightarrow> n) AGENT_MAX_LOG_TAIL;
          fetch_tail = (if filters_records opts then AGENT_MAX_LOG_TAIL else requested_tail)
      in if service = ''*'' then
           if generation \<noteq> None then
             invalid_params (''service=\"*\" only supports the current visible log stream; retained '' @
               ''run_generation is service-scoped'')
           else
             and_then (map_err as_data (cn_list_services conn)) (\<lambda>services.
             and_then (service_tails lib conn enriched fetch_tail opts services) (\<lambda>(es, truncated).
               Inr (keep_tail (merge_preserving_service_order es) truncated requested_tail)))
         else
           and_then (map_err (enriched service) (fetch_and_shape_tail lib conn service generation fetch_tail opts))
             (\<lambda>(es, window_full, server_truncated).
               Inr (keep_tail es
                 (server_truncated \<or>
                  window_full \<and> (filters_records opts \<or> length es < requested_tail)) requested_tail)))"

record follow_logs_result =
  fr_entries :: "processed_entry list"
  fr_next_seq :: "u64 option"
  fr_gap :: "follow_gap option"
  fr_truncated :: bool

definition follow_logs_tool ::
  "log_library \<Rightarrow> tool_error session_conn \<Rightarrow> (tool_error \<Rightarrow> error_data) \<Rightarrow> shape_options \<Rightarrow> string \<Rightarrow>
   u64 option \<Rightarrow> u64 option \<Rightarrow> error_data + follow_logs_result"
where
  "follow_logs_tool lib conn enriched opts service generation after =
     and_then (map_err enriched (cn_follow_logs conn service generation after)) (\<lambda>logs.
       Inr \<lparr> fr_entries = shape lib (lr_lines logs) opts,
             fr_next_seq = next_follow_cursor (lr_lines logs) after,
             fr_gap = follow_gap_of (lr_lines logs) (lr_first_retained_seq logs) after generation,
             fr_truncated = lr_truncated logs \<rparr>)"

definition follow_all_logs_tool ::
  "log_library \<Rightarrow> tool_error session_conn \<Rightarrow> (tool_error \<Rightarrow> error_data) \<Rightarrow> shape_options \<Rightarrow> cursors \<Rightarrow>
   usize option \<Rightarrow> error_data + merged_follow_output"
where
  "follow_all_logs_tool lib conn as_data opts after limit =
     map_err as_data (follow_all_current_logs lib conn after opts
       (clamp 1 AGENT_MAX_LOG_TAIL (case limit of None \<Rightarrow> AGENT_LOG_TAIL | Some n \<Rightarrow> n)))"

section \<open>Waiting for a log entry\<close>

datatype wait_for_log_status = WaitForLogStatus_Matched | WaitForLogStatus_Timeout

record wait_for_log_result =
  wl_status :: wait_for_log_status
  wl_entries :: "processed_entry list"
  wl_next_seq :: "u64 option"
  wl_next :: cursors
  wl_truncated :: bool
  wl_waited_secs :: "nat option"

text \<open>A poll: what the session answers in its time, and the clock after it.\<close>

record 'e log_poll =
  lp_conn :: "'e session_conn"
  lp_now :: instant

fun wait_for_service_log ::
  "log_library \<Rightarrow> (tool_error \<Rightarrow> error_data) \<Rightarrow> shape_options \<Rightarrow> usize \<Rightarrow> instant \<Rightarrow> duration \<Rightarrow> string \<Rightarrow> u64 \<Rightarrow>
   tool_error log_poll list \<Rightarrow> (error_data + wait_for_log_result) option"
where
  "wait_for_service_log lib enriched opts limit deadline timeout service cursor [] = None"
| "wait_for_service_log lib enriched opts limit deadline timeout service cursor (p # ps) =
     (case cn_follow_logs (lp_conn p) service None (Some cursor) of
        Inl err \<Rightarrow> Some (Inl (enriched err))
      | Inr logs \<Rightarrow>
          let raw_next_seq = (case next_follow_cursor (lr_lines logs) (Some cursor) of
                None \<Rightarrow> cursor | Some c \<Rightarrow> c);
              es = shape lib (lr_lines logs) opts
          in if es \<noteq> [] then
               (let (es', next_seq, truncated) =
                      truncate_wait_matches es raw_next_seq (lr_truncated logs) limit
                in Some (Inr \<lparr> wl_status = WaitForLogStatus_Matched, wl_entries = es',
                               wl_next_seq = Some next_seq, wl_next = [], wl_truncated = truncated,
                               wl_waited_secs = None \<rparr>))
             else if deadline \<le> lp_now p then
               Some (Inr \<lparr> wl_status = WaitForLogStatus_Timeout, wl_entries = [],
                           wl_next_seq = Some raw_next_seq, wl_next = [],
                           wl_truncated = lr_truncated logs,
                           wl_waited_secs = Some (timeout div NANOS_PER_SEC) \<rparr>)
             else wait_for_service_log lib enriched opts limit deadline timeout service raw_next_seq ps)"

fun wait_for_all_logs ::
  "log_library \<Rightarrow> (tool_error \<Rightarrow> error_data) \<Rightarrow> shape_options \<Rightarrow> usize \<Rightarrow> instant \<Rightarrow> duration \<Rightarrow> cursors \<Rightarrow>
   tool_error log_poll list \<Rightarrow> (error_data + wait_for_log_result) option"
where
  "wait_for_all_logs lib as_data opts limit deadline timeout cs [] = None"
| "wait_for_all_logs lib as_data opts limit deadline timeout cs (p # ps) =
     (case follow_all_current_logs lib (lp_conn p) cs opts limit of
        Inl err \<Rightarrow> Some (Inl (as_data err))
      | Inr merged \<Rightarrow>
          if mo_entries merged \<noteq> [] then
            Some (Inr \<lparr> wl_status = WaitForLogStatus_Matched, wl_entries = mo_entries merged,
                        wl_next_seq = None, wl_next = mo_next merged, wl_truncated = mo_truncated merged,
                        wl_waited_secs = None \<rparr>)
          else if deadline \<le> lp_now p then
            Some (Inr \<lparr> wl_status = WaitForLogStatus_Timeout, wl_entries = [], wl_next_seq = None,
                        wl_next = mo_next merged, wl_truncated = mo_truncated merged,
                        wl_waited_secs = Some (timeout div NANOS_PER_SEC) \<rparr>)
          else wait_for_all_logs lib as_data opts limit deadline timeout (mo_next merged) ps)"

definition DEFAULT_WAIT_TIMEOUT_SECS :: nat where
  "DEFAULT_WAIT_TIMEOUT_SECS = 60"

definition MAX_WAIT_TIMEOUT_SECS :: nat where
  "MAX_WAIT_TIMEOUT_SECS = 600"

definition wait_timeout :: "nat option \<Rightarrow> duration" where
  "wait_timeout secs =
     from_secs (min (case secs of None \<Rightarrow> DEFAULT_WAIT_TIMEOUT_SECS | Some n \<Rightarrow> n) MAX_WAIT_TIMEOUT_SECS)"

text \<open>\<open>conn\<close> answers before the first poll, when the cursors are not given.\<close>

definition wait_for_log ::
  "log_library \<Rightarrow> (tool_error \<Rightarrow> error_data) \<Rightarrow> (tool_error \<Rightarrow> error_data) \<Rightarrow> shape_options \<Rightarrow> usize option \<Rightarrow>
   instant \<Rightarrow> nat option \<Rightarrow> string \<Rightarrow> cursors \<Rightarrow> u64 option \<Rightarrow> tool_error session_conn \<Rightarrow>
   tool_error log_poll list \<Rightarrow> (error_data + wait_for_log_result) option"
where
  "wait_for_log lib as_data enriched opts limit started timeout_secs service after after_seq conn polls =
     (let limit = clamp 1 AGENT_MAX_LOG_TAIL (case limit of None \<Rightarrow> 20 | Some n \<Rightarrow> n);
          timeout = wait_timeout timeout_secs;
          deadline = started + timeout
      in if service = ''*'' then
           (case (if after = [] then map_err as_data (current_cursors conn) else Inr after) of
              Inl err \<Rightarrow> Some (Inl err)
            | Inr cs \<Rightarrow> wait_for_all_logs lib as_data opts limit deadline timeout cs polls)
         else
           (case (case after_seq of
                    Some c \<Rightarrow> Inr c
                  | None \<Rightarrow> map_err as_data (current_service_cursor conn service)) of
              Inl err \<Rightarrow> Some (Inl err)
            | Inr cursor \<Rightarrow>
                wait_for_service_log lib enriched opts limit deadline timeout service cursor polls))"

end
