(* ===== verification/Agent_Log_Facts.thy ===== *)
theory Agent_Log_Facts
  imports Agent_Log_Tools Follow_Facts Control_Facts
begin

text \<open>
  Waiting for a log entry of a service over the control server: every line from the cursor on that the
  session still retains is looked at, until a page has an entry that passes the filters or the deadline
  is over.
\<close>

section \<open>Cursors over a log\<close>

definition in_order :: "log_line list \<Rightarrow> bool" where
  "in_order = sorted_wrt (\<lambda>x y. ll_seq x < ll_seq y)"

definition lines_after :: "u64 \<Rightarrow> log_line list \<Rightarrow> log_line list" where
  "lines_after c ls = filter (\<lambda>l. c < ll_seq l) ls"

definition end_cursor :: "u64 \<Rightarrow> log_line list \<Rightarrow> u64" where
  "end_cursor c ls = (if ls = [] then c else ll_seq (last ls))"

lemma next_follow_cursor_end: "next_follow_cursor ls (Some c) = Some (end_cursor c ls)"
  by (simp add: next_follow_cursor_def last_of_def or_else_def end_cursor_def)

lemma end_cursor_append [simp]: "end_cursor (end_cursor c xs) ys = end_cursor c (xs @ ys)"
  by (simp add: end_cursor_def)

lemma in_order_after: "in_order ls \<Longrightarrow> in_order (lines_after c ls)"
  by (simp add: in_order_def lines_after_def sorted_wrt_filter)

lemma in_order_append: "in_order (xs @ ys) \<Longrightarrow> in_order xs \<and> in_order ys"
  by (simp add: in_order_def sorted_wrt_append)

lemma in_order_join:
  "in_order xs \<Longrightarrow> in_order ys \<Longrightarrow> (\<And>x y. x \<in> set xs \<Longrightarrow> y \<in> set ys \<Longrightarrow> ll_seq x < ll_seq y) \<Longrightarrow> in_order (xs @ ys)"
  by (simp add: in_order_def sorted_wrt_append)

lemma end_cursor_beyond:
  assumes "in_order (xs @ ys)" and "\<forall>l \<in> set (xs @ ys). c < ll_seq l"
  shows "c \<le> end_cursor c xs" and "\<forall>l \<in> set xs. ll_seq l \<le> end_cursor c xs"
    and "\<forall>l \<in> set ys. end_cursor c xs < ll_seq l"
proof -
  show "\<forall>l \<in> set xs. ll_seq l \<le> end_cursor c xs"
    using assms(1) sorted_seq_last [of xs] by (auto simp: end_cursor_def in_order_def sorted_wrt_append)
  show "c \<le> end_cursor c xs"
    using assms(2) by (auto simp: end_cursor_def intro!: less_imp_le)
  show "\<forall>l \<in> set ys. end_cursor c xs < ll_seq l"
    using assms by (auto simp: end_cursor_def in_order_def sorted_wrt_append)
qed

text \<open>A line as a reply has it: the text may be cut so that it fits a frame.\<close>

definition shown_as :: "log_line \<Rightarrow> log_line \<Rightarrow> bool" where
  "shown_as l k \<longleftrightarrow> (\<exists>n. l = k\<lparr> ll_line := take n (ll_line k) \<rparr>)"

lemma shown_as_seq: "shown_as l k \<Longrightarrow> ll_seq l = ll_seq k"
  by (auto simp: shown_as_def)

lemma shown_as_refl: "shown_as k k"
  by (auto simp: shown_as_def intro!: exI [of _ "length (ll_line k)"])

lemma shown_as_seqs: "list_all2 shown_as ls ks \<Longrightarrow> map ll_seq ls = map ll_seq ks"
  by (induction rule: list_all2_induct) (auto dest: shown_as_seq)

text \<open>
  A cursor value stays if no log ever loses it: in each log there is a line with it, or all lines are
  older.
\<close>

definition stays :: "log_line list list \<Rightarrow> u64 \<Rightarrow> bool" where
  "stays logs n \<longleftrightarrow> (\<forall>log \<in> set logs. n \<in> ll_seq ` set log \<or> (\<forall>x \<in> set log. ll_seq x < n))"

lemma page_reads_all:
  assumes "in_order kept" and "list_all2 shown_as ls (take n (lines_after c kept))"
  shows "in_order ls" and "\<forall>l \<in> set ls. c < ll_seq l \<and> (\<exists>k \<in> set kept. shown_as l k)"
    and "c < m \<Longrightarrow> m \<le> end_cursor c ls \<Longrightarrow> stays [kept] m \<Longrightarrow> m \<in> ll_seq ` set ls"
proof -
  let ?P = "lines_after c kept"
  have sorted: "in_order (take n ?P @ drop n ?P)" using in_order_after [OF assms(1)] by simp
  have seqs: "map ll_seq ls = map ll_seq (take n ?P)" by (rule shown_as_seqs [OF assms(2)])
  have set_seqs: "ll_seq ` set ls = ll_seq ` set (take n ?P)" using arg_cong [OF seqs, of set] by simp
  have "sorted_wrt (<) (map ll_seq (take n ?P))"
    using sorted by (simp only: in_order_def sorted_wrt_append sorted_wrt_map)
  then show "in_order ls" unfolding seqs [symmetric] by (simp only: in_order_def sorted_wrt_map)
  have "\<exists>k \<in> set (take n ?P). shown_as l k" if "l \<in> set ls" for l
    using assms(2) that by (metis in_set_conv_nth list_all2_conv_all_nth)
  then show "\<forall>l \<in> set ls. c < ll_seq l \<and> (\<exists>k \<in> set kept. shown_as l k)"
    by (fastforce simp: lines_after_def dest: in_set_takeD shown_as_seq)
  assume m: "c < m" "m \<le> end_cursor c ls" "stays [kept] m"
  have "ls \<noteq> []" using m(1,2) by (auto simp: end_cursor_def)
  then have ne: "take n ?P \<noteq> []" using seqs by (metis list.map_disc_iff)
  have end_eq: "end_cursor c ls = ll_seq (last (take n ?P))"
    using seqs \<open>ls \<noteq> []\<close> ne by (metis end_cursor_def last_map)
  have "last (take n ?P) \<in> set kept"
    using last_in_set [OF ne] by (auto simp: lines_after_def dest: in_set_takeD)
  then have "m \<in> ll_seq ` set kept" using m(2,3) end_eq by (fastforce simp: stays_def)
  then have "m \<in> ll_seq ` set (take n ?P @ drop n ?P)"
    unfolding append_take_drop_id using m(1) by (auto simp: lines_after_def)
  moreover have "end_cursor c ls < ll_seq k" if "k \<in> set (drop n ?P)" for k
    using sorted last_in_set [OF ne] that unfolding end_eq in_order_def sorted_wrt_append by blast
  then have "m \<notin> ll_seq ` set (drop n ?P)" using m(2) by fastforce
  ultimately show "m \<in> ll_seq ` set ls" unfolding set_seqs set_append by blast
qed

section \<open>The wait\<close>

text \<open>What the result is of the page that ends the wait.\<close>

definition ends_with_page ::
  "log_library \<Rightarrow> shape_options \<Rightarrow> usize \<Rightarrow> u64 \<Rightarrow> log_line list \<Rightarrow> wait_for_log_result \<Rightarrow> bool"
where
  "ends_with_page lib opts limit c page r \<longleftrightarrow>
     (if shape lib page opts \<noteq> [] then
        wl_status r = WaitForLogStatus_Matched \<and>
        (\<exists>cut next_seq cut'. truncate_wait_matches (shape lib page opts) (end_cursor c page) cut limit =
             (wl_entries r, next_seq, cut') \<and> wl_next_seq r = Some next_seq)
      else
        wl_status r = WaitForLogStatus_Timeout \<and> wl_entries r = [] \<and>
        wl_next_seq r = Some (end_cursor c page))"

text \<open>
  A session as a wait sees it, at each of its polls: it keeps some lines of the service, and whatever it
  is asked for, its reply has the next of these, as many as it likes. What it keeps at one poll need not
  be kept at the next.
\<close>

locale log_source =
  fixes poll :: "'q \<Rightarrow> tool_error log_poll" and service :: string
    and kept :: "'q \<Rightarrow> log_line list" and ok :: "'q \<Rightarrow> bool"
  assumes kept_in_order: "ok q \<Longrightarrow> in_order (kept q)"
    and page_of_kept: "ok q \<Longrightarrow> cn_follow_logs (lp_conn (poll q)) service None (Some c) = Inr logs \<Longrightarrow>
      \<exists>n. list_all2 shown_as (lr_lines logs) (take n (lines_after c (kept q)))"
begin

lemma wait_pages:
  assumes "\<forall>q \<in> set qs. ok q"
    and "wait_for_service_log lib enriched opts limit deadline timeout service cursor (map poll qs) = Some (Inr r)"
  shows "\<exists>skipped page. in_order (concat skipped @ page) \<and>
    (\<forall>l \<in> set (concat skipped @ page). cursor < ll_seq l \<and> (\<exists>q \<in> set qs. \<exists>k \<in> set (kept q). shown_as l k)) \<and>
    (\<forall>m. cursor < m \<longrightarrow> m \<le> end_cursor cursor (concat skipped @ page) \<longrightarrow> stays (map kept qs) m \<longrightarrow>
       m \<in> ll_seq ` set (concat skipped @ page)) \<and>
    (\<forall>ls \<in> set skipped. shape lib ls opts = []) \<and>
    ends_with_page lib opts limit (end_cursor cursor (concat skipped)) page r"
  using assms
proof (induction qs arbitrary: cursor)
  case (Cons q qs)
  obtain logs where logs: "cn_follow_logs (lp_conn (poll q)) service None (Some cursor) = Inr logs"
    using Cons.prems(2) by (cases "cn_follow_logs (lp_conn (poll q)) service None (Some cursor)") auto
  let ?ls = "lr_lines logs"
  have ok: "ok q" using Cons.prems(1) by simp
  obtain n where n: "list_all2 shown_as ?ls (take n (lines_after cursor (kept q)))"
    using page_of_kept [OF ok logs] by blast
  note reads = page_reads_all [OF kept_in_order [OF ok] n]
  have stays: "stays [kept q] m \<and> stays (map kept qs) m" if "stays (map kept (q # qs)) m" for m
    using that by (simp add: stays_def)
  have at_most: "ll_seq l \<le> end_cursor cursor ?ls" if "l \<in> set ?ls" for l
    using that reads(1) sorted_seq_last [of ?ls] by (auto simp: end_cursor_def in_order_def)
  have ahead: "cursor \<le> end_cursor cursor ?ls"
    using reads(2) by (auto simp: end_cursor_def intro!: less_imp_le)
  show ?case
  proof (cases "shape lib ?ls opts = [] \<and> lp_now (poll q) < deadline")
    case True
    then have "wait_for_service_log lib enriched opts limit deadline timeout service
        (end_cursor cursor ?ls) (map poll qs) = Some (Inr r)"
      using Cons.prems(2) logs by (simp add: next_follow_cursor_end Let_def)
    with Cons.IH [OF _ this] Cons.prems(1) obtain skipped page where ih:
      "in_order (concat skipped @ page)"
      "\<forall>l \<in> set (concat skipped @ page). end_cursor cursor ?ls < ll_seq l \<and>
         (\<exists>q \<in> set qs. \<exists>k \<in> set (kept q). shown_as l k)"
      "\<forall>m. end_cursor cursor ?ls < m \<longrightarrow> m \<le> end_cursor (end_cursor cursor ?ls) (concat skipped @ page) \<longrightarrow>
         stays (map kept qs) m \<longrightarrow> m \<in> ll_seq ` set (concat skipped @ page)"
      "\<forall>ls \<in> set skipped. shape lib ls opts = []"
      "ends_with_page lib opts limit (end_cursor (end_cursor cursor ?ls) (concat skipped)) page r" by auto
    have "in_order (?ls @ concat skipped @ page)"
      by (rule in_order_join [OF reads(1) ih(1)]) (use at_most ih(2) in \<open>blast intro: le_less_trans\<close>)
    moreover have "\<forall>l \<in> set (?ls @ concat skipped @ page). cursor < ll_seq l \<and>
        (\<exists>q \<in> set (q # qs). \<exists>k \<in> set (kept q). shown_as l k)"
      using reads(2) ih(2) ahead by (auto intro: le_less_trans)
    moreover have "m \<in> ll_seq ` set (?ls @ concat skipped @ page)"
      if m: "cursor < m" "m \<le> end_cursor cursor (?ls @ concat skipped @ page)" "stays (map kept (q # qs)) m" for m
    proof (cases "m \<le> end_cursor cursor ?ls")
      case True
      then show ?thesis using reads(3) [OF m(1)] stays [OF m(3)] by auto
    next
      case False
      then show ?thesis using ih(3) m(2) stays [OF m(3)] by (auto simp: image_Un not_le)
    qed
    ultimately show ?thesis
      using ih(4,5) True by (intro exI [of _ "?ls # skipped"] exI [of _ page]) simp
  next
    case False
    then have "ends_with_page lib opts limit cursor ?ls r"
      using Cons.prems(2) logs
      by (auto simp: ends_with_page_def next_follow_cursor_end Let_def split: if_splits prod.splits) blast
    then show ?thesis using reads stays
      by (intro exI [of _ "[]"] exI [of _ ?ls]) (auto simp: end_cursor_def)
  qed
qed simp

end

text \<open>
  The control server as such a session. At each poll it is in some state, or the request fails; its
  reply is bounded to a frame. It keeps the lines of the visible buffer of the service.
\<close>

record server_poll =
  sv_server :: control_server
  sv_lost :: "tool_error option"
  sv_now :: instant

definition ask_server :: "encoder \<Rightarrow> server_poll \<Rightarrow> request \<Rightarrow> tool_error + response" where
  "ask_server enc q req =
     (case sv_lost q of
        Some err \<Rightarrow> Inl err
      | None \<Rightarrow> Inr (response_within_frame enc (dispatch enc (sv_server q) req)))"

definition server_log_poll :: "encoder \<Rightarrow> (response \<Rightarrow> string) \<Rightarrow> server_poll \<Rightarrow> tool_error log_poll" where
  "server_log_poll enc debug q = \<lparr> lp_conn = conn_of debug (ask_server enc q), lp_now = sv_now q \<rparr>"

definition poll_model :: "server_poll \<Rightarrow> session_model" where
  "poll_model q = cr_model (cs_reader (sv_server q))"

definition visible_log :: "string \<Rightarrow> server_poll \<Rightarrow> log_line list" where
  "visible_log service q =
     (case im_get (sm_services (poll_model q)) service of
        None \<Rightarrow> [] | Some e \<Rightarrow> mb_entries (en_visible e))"

definition server_ok :: "string \<Rightarrow> server_poll \<Rightarrow> bool" where
  "server_ok service q \<longleftrightarrow> model_ok (poll_model q) \<and>
     (\<forall>e. im_get (sm_services (poll_model q)) service = Some e \<longrightarrow> en_next_log_seq e \<noteq> U64_MAX)"

lemma bounded_page:
  assumes "bound_follow_response_lines_page enc ls first = (page, truncated)"
  shows "\<exists>n. list_all2 shown_as page (take n ls)"
proof -
  have same: "list_all2 shown_as ks ks" for ks by (rule list.rel_refl) (rule shown_as_refl)
  have "\<exists>n. list_all2 shown_as page (take n ls)"
    if bound: "bound_follow_response_lines enc ls first = (page, truncated)"
  proof -
    have single: "list_all2 shown_as (option_list (if ls = [] then None else fit_single_log_line enc (hd ls) False first)) (take n ls)"
      if "n = length (option_list (if ls = [] then None else fit_single_log_line enc (hd ls) False first))" for n
      using that by (cases ls) (auto simp: option_list_def fit_single_log_line_def line_part_def shown_as_def Let_def)
    show ?thesis
      using bound same single
      by (auto simp: bound_follow_response_lines_def Let_def split: if_splits
          intro: exI [of _ "length ls"])
  qed
  then show ?thesis
    using assms same by (auto simp: bound_follow_response_lines_page_def Let_def split: if_splits)
qed

lemma framed_logs:
  "response_within_frame enc r = Response_Logs ls truncated first \<Longrightarrow> r = Response_Logs ls truncated first"
  by (cases r) (auto simp: response_within_frame_def split: if_splits option.splits)

lemma visible_in_order: "server_ok service q \<Longrightarrow> in_order (visible_log service q)"
  using pending_lines(2) [of "poll_model q" service]
  by (auto simp: server_ok_def visible_log_def in_order_def split: option.split)

lemma server_page:
  assumes ok: "server_ok service q"
    and reply: "cn_follow_logs (lp_conn (server_log_poll enc debug q)) service None (Some c) = Inr logs"
  shows "\<exists>n. list_all2 shown_as (lr_lines logs) (take n (lines_after c (visible_log service q)))"
proof -
  let ?r = "cs_reader (sv_server q)"
  have "sv_lost q = None"
    using reply by (cases "sv_lost q") (simp_all add: server_log_poll_def conn_of_def ask_server_def and_then_def)
  then have "convert_logs debug (response_within_frame enc (follow_logs enc ?r service None (Some c))) = Inr logs"
    using reply by (simp add: server_log_poll_def conn_of_def ask_server_def and_then_def)
  then obtain truncated first where
    "response_within_frame enc (follow_logs enc ?r service None (Some c)) = Response_Logs (lr_lines logs) truncated first"
    by (cases "response_within_frame enc (follow_logs enc ?r service None (Some c))")
       (auto simp: convert_logs_def convert_reply_def)
  then have logs: "follow_logs enc ?r service None (Some c) = Response_Logs (lr_lines logs) truncated first"
    by (rule framed_logs)
  then obtain e where e: "im_get (sm_services (poll_model q)) service = Some e"
    by (cases "im_get (sm_services (poll_model q)) service")
       (auto simp: follow_logs_def poll_model_def unknown_service_def)
  have "query_logs_since service c (poll_model q) =
      (first_retained_log_seq service (poll_model q), lines_after c (visible_log service q))"
    using pending_lines(1) [of "poll_model q" service e c] ok e
    by (simp add: server_ok_def visible_log_def lines_after_def)
  then have "follow_reply enc (first_retained_log_seq service (poll_model q))
      (lines_after c (visible_log service q)) = Response_Logs (lr_lines logs) truncated first"
    using logs e by (simp add: follow_logs_def poll_model_def)
  then show ?thesis
    using bounded_page [of enc "lines_after c (visible_log service q)"]
    by (simp add: follow_reply_def split: prod.splits)
qed

interpretation served: log_source "server_log_poll enc debug" service "visible_log service" "server_ok service"
  for enc debug service
  by unfold_locales (blast intro: visible_in_order server_page)+

lemma wait_for_service_log_ends:
  "q \<in> set polls \<Longrightarrow> deadline \<le> lp_now q \<Longrightarrow>
   wait_for_service_log lib enriched opts limit deadline timeout service cursor polls \<noteq> None"
  by (induction polls arbitrary: cursor) (auto simp: Let_def split: sum.splits prod.splits)

text \<open>A match that the limit cuts goes on after the last entry returned.\<close>

lemma matches_exact:
  assumes order: "in_order page" and limit: "sh_limit opts = None" "0 < limit" and es: "shape lib page opts \<noteq> []"
    and cut: "truncate_wait_matches (shape lib page opts) (end_cursor c page) t limit = (es, next_seq, t')"
  shows "es \<noteq> []" and "es = filter (\<lambda>e. pe_seq e \<le> next_seq) (shape lib page opts)"
    and "next_seq \<in> ll_seq ` set page"
proof -
  let ?es = "shape lib page opts"
  have shaped: "sorted_wrt (\<lambda>a b. pe_seq a \<le> pe_seq b) ?es"
    "\<forall>e \<in> set ?es. \<exists>l \<in> set page. pe_seq e = ll_seq l \<and> pe_run_generation e = ll_run_generation l"
    "\<forall>e \<in> set ?es. pe_service e = None"
    using shape_shaped [of page opts lib] order limit(1) by (simp_all add: shaped_from_def in_order_def)
  have run: "pe_run_generation a = pe_run_generation b"
    if ab: "a \<in> set ?es" "b \<in> set ?es" "pe_seq a = pe_seq b" for a b
  proof -
    obtain la where la: "la \<in> set page" "pe_seq a = ll_seq la" "pe_run_generation a = ll_run_generation la"
      using bspec [OF shaped(2) ab(1)] by blast
    obtain lb where lb: "lb \<in> set page" "pe_seq b = ll_seq lb" "pe_run_generation b = ll_run_generation lb"
      using bspec [OF shaped(2) ab(2)] by blast
    have "ll_seq la = ll_seq lb" using la(2) lb(2) ab(3) by simp
    then have "la = lb" by (rule sorted_seq_inj [OF order [unfolded in_order_def] la(1) lb(1)])
    then show ?thesis using la(3) lb(3) by simp
  qed
  have whole: "records_whole ?es"
    by (rule records_whole_sorted [where s = None, OF shaped(1)]) (use shaped(3) run in \<open>blast+\<close>)
  have page: "page \<noteq> []" using es shaped(2) by (cases ?es) auto
  have all: "?es = filter (\<lambda>e. pe_seq e \<le> end_cursor c page) ?es"
    using shaped(2) sorted_seq_last [of page] order page
    by (auto simp: end_cursor_def in_order_def filter_id_conv intro!: filter_True [symmetric])
  have last: "end_cursor c page \<in> ll_seq ` set page" using page by (simp add: end_cursor_def)
  obtain n where n: "n \<le> length ?es" "truncate_preserving_record_boundaries ?es limit = (take n ?es, n < length ?es)"
    "min limit (length ?es) \<le> n" "\<forall>x \<in> set (take n ?es). \<forall>y \<in> set (drop n ?es). \<not> same_record x y"
    using truncate_whole [OF whole, of limit] by blast
  have "0 < length ?es" using es by simp
  then have pos: "0 < n" using n(3) limit(2) by linarith
  then have kept: "take n ?es \<noteq> []" using es by simp
  have "es = ?es \<and> next_seq = end_cursor c page \<or> es = take n ?es \<and> next_seq = pe_seq (last (take n ?es))"
  proof (cases "length ?es \<le> limit")
    case True
    then show ?thesis using cut by (simp add: truncate_wait_matches_def)
  next
    case long: False
    show ?thesis
    proof (cases "n < length ?es")
      case True
      have "last_of (take n ?es) = Some (last (take n ?es))" unfolding last_of_def using kept by (rule if_not_P)
      then show ?thesis using cut n(2) long True by (auto simp: truncate_wait_matches_def)
    next
      case False
      then show ?thesis using cut n(2) long by (simp add: truncate_wait_matches_def)
    qed
  qed
  then consider (uncut) "es = ?es" "next_seq = end_cursor c page"
    | (cut) "es = take n ?es" "next_seq = pe_seq (last (take n ?es))" by blast
  then have "es \<noteq> [] \<and> es = filter (\<lambda>e. pe_seq e \<le> next_seq) ?es \<and> next_seq \<in> ll_seq ` set page"
  proof cases
    case uncut
    then show ?thesis using es all last by simp
  next
    case cut
    let ?c = "pe_seq (last (take n ?es))"
    have l: "last (take n ?es) \<in> set (take n ?es)" using kept by (rule last_in_set)
    have sorted: "sorted_wrt (\<lambda>a b. pe_seq a \<le> pe_seq b) (take n ?es @ drop n ?es)" using shaped(1) by simp
    have "?c < pe_seq y" if y: "y \<in> set (drop n ?es)" for y
    proof -
      have "pe_seq (last (take n ?es)) \<le> pe_seq y" using sorted l y unfolding sorted_wrt_append by blast
      moreover have "last (take n ?es) \<in> set ?es" "y \<in> set ?es" using l y by (auto dest: in_set_takeD in_set_dropD)
      then have "pe_seq (last (take n ?es)) \<noteq> pe_seq y"
        using n(4) l y run shaped(3) unfolding same_record_def by metis
      ultimately show ?thesis by simp
    qed
    then have "filter (\<lambda>e. pe_seq e \<le> ?c) (drop n ?es) = []" by (fastforce simp: filter_empty_conv)
    moreover have "pe_seq x \<le> ?c" if "x \<in> set (take n ?es)" for x
      using that sorted unfolding sorted_wrt_append
      by (cases "take n ?es" rule: rev_cases) (auto simp: sorted_wrt_append)
    then have "filter (\<lambda>e. pe_seq e \<le> ?c) (take n ?es) = take n ?es" by (auto intro: filter_True)
    ultimately have "filter (\<lambda>e. pe_seq e \<le> ?c) (take n ?es @ drop n ?es) = take n ?es"
      by (simp only: filter_append append_Nil2)
    moreover have "?c \<in> ll_seq ` set page" using shaped(2) l by (metis imageI in_set_takeD)
    ultimately show ?thesis using kept cut by simp
  qed
  then show "es \<noteq> []" "es = filter (\<lambda>e. pe_seq e \<le> next_seq) ?es" "next_seq \<in> ll_seq ` set page" by auto
qed

text \<open>
  What a wait that has not failed looked at, given what the session kept at its polls: pages without a
  match and the last one.
\<close>

definition nothing_missed ::
  "log_library \<Rightarrow> shape_options \<Rightarrow> u64 \<Rightarrow> log_line list list \<Rightarrow> wait_for_log_result \<Rightarrow> bool"
where
  "nothing_missed lib opts cursor logs r \<longleftrightarrow>
     (\<exists>skipped page c.
        in_order (concat skipped @ page) \<and>
        (\<forall>l \<in> set (concat skipped @ page). cursor < ll_seq l \<and>
           (\<exists>log \<in> set logs. \<exists>k \<in> set log. shown_as l k)) \<and>
        (\<forall>ls \<in> set skipped. shape lib ls opts = []) \<and>
        wl_next_seq r = Some c \<and> cursor \<le> c \<and>
        (\<forall>n. cursor < n \<longrightarrow> n \<le> c \<longrightarrow> stays logs n \<longrightarrow> n \<in> ll_seq ` set (concat skipped @ page)) \<and>
        wl_entries r = filter (\<lambda>e. pe_seq e \<le> c) (shape lib page opts) \<and>
        (case wl_status r of
           WaitForLogStatus_Matched \<Rightarrow> wl_entries r \<noteq> []
         | WaitForLogStatus_Timeout \<Rightarrow> shape lib page opts = []))"

lemma pages_nothing_missed:
  assumes limit: "sh_limit opts = None" "0 < limit"
    and order: "in_order (concat skipped @ page)"
    and source: "\<forall>l \<in> set (concat skipped @ page). cursor < ll_seq l \<and> (\<exists>log \<in> set logs. \<exists>k \<in> set log. shown_as l k)"
    and all: "\<forall>m. cursor < m \<longrightarrow> m \<le> end_cursor cursor (concat skipped @ page) \<longrightarrow> stays logs m \<longrightarrow>
      m \<in> ll_seq ` set (concat skipped @ page)"
    and none: "\<forall>ls \<in> set skipped. shape lib ls opts = []"
    and ends: "ends_with_page lib opts limit (end_cursor cursor (concat skipped)) page r"
  shows "nothing_missed lib opts cursor logs r"
proof -
  let ?read = "concat skipped @ page"
  have beyond: "in_order (?read @ [])" "\<forall>l \<in> set (?read @ []). cursor < ll_seq l" using order source by auto
  note beyond = end_cursor_beyond [OF this]
  show ?thesis
  proof (cases "shape lib page opts = []")
    case True
    then have "wl_status r = WaitForLogStatus_Timeout" "wl_entries r = []"
      "wl_next_seq r = Some (end_cursor cursor ?read)"
      using ends by (simp_all add: ends_with_page_def)
    then show ?thesis unfolding nothing_missed_def
      using order source all none beyond(1) True by (intro exI [of _ skipped] exI [of _ page]) auto
  next
    case False
    then obtain next_seq cut cut' where r: "wl_status r = WaitForLogStatus_Matched"
      "wl_next_seq r = Some next_seq"
      "truncate_wait_matches (shape lib page opts) (end_cursor (end_cursor cursor (concat skipped)) page) cut limit =
         (wl_entries r, next_seq, cut')"
      using ends by (auto simp: ends_with_page_def)
    have "in_order page" using in_order_append order by blast
    note m = matches_exact [OF this limit False r(3)]
    have le: "next_seq \<le> end_cursor cursor ?read" "cursor \<le> next_seq"
      using m(3) beyond(2) source by (auto intro: less_imp_le)
    have "\<forall>n. cursor < n \<longrightarrow> n \<le> next_seq \<longrightarrow> stays logs n \<longrightarrow> n \<in> ll_seq ` set ?read"
      using all le(1) by (meson order_trans)
    then show ?thesis unfolding nothing_missed_def
      using order source none le(2) m(1,2) r(1,2)
      by (intro exI [of _ skipped] exI [of _ page] exI [of _ next_seq] conjI) simp_all
  qed
qed


text \<open>
  Two polls of a session whose visible log evicts: the lines 5 and 8 that it has at the first poll are
  gone at the second, and the lines 9 and 10 are new.
\<close>

definition logged :: "nat list \<Rightarrow> service_entry" where
  "logged ns =
     stored_entry\<lparr> en_visible := (en_visible stored_entry)\<lparr> mb_entries := map wide_line ns \<rparr>,
       en_next_log_seq := 11 \<rparr>"

definition logging_server :: "control_server \<Rightarrow> nat list \<Rightarrow> control_server" where
  "logging_server server ns =
     server\<lparr> cs_reader := sample_reader\<lparr> cr_model := example_model\<lparr> sm_services := [(''web'', logged ns)] \<rparr> \<rparr> \<rparr>"

definition evicting_polls :: "control_server \<Rightarrow> server_poll list" where
  "evicting_polls server =
     [\<lparr> sv_server = logging_server server [5, 8], sv_lost = None, sv_now = 1 \<rparr>,
      \<lparr> sv_server = logging_server server [9, 10], sv_lost = None, sv_now = wait_timeout None \<rparr>]"

lemma evicting_ok: "\<forall>p \<in> set (evicting_polls server). server_ok ''web'' p"
  by (simp add: evicting_polls_def server_ok_def poll_model_def logging_server_def model_ok_def logged_def
      stored_entry_def entry_ok_def events_ok_def health_ok_def runs_ok_def visible_ok_def run_ids_def
      buffer_seqs_def wide_line_def entry_new_def example_snapshot_def snapshot_initial_def
      clamp_retention_def default_log_retention_def im_wf_def im_keys_def U64_MAX_def)


end
