(* ===== verification/Agent_Start.thy ===== *)
theory Agent_Start
  imports Agent_Events Pty_Filter
begin

text \<open>
  Starting a session for an agent: the permits, the search for a session that already runs, and the wait
  for the spawned one (\<^verbatim>\<open>src/crates/micromux-mcp/src/lib.rs\<close>,
  \<^verbatim>\<open>src/crates/micromux-mcp/src/tools/sessions.rs\<close>). Spawning, the child and the probes are
  observations, one record for each turn of the wait.
\<close>

section \<open>Permits\<close>

definition MAX_SESSION_STARTS_PER_WINDOW :: nat where
  "MAX_SESSION_STARTS_PER_WINDOW = 8"

definition SESSION_START_WINDOW :: duration where
  "SESSION_START_WINDOW = from_secs 60"

text \<open>
  A start needs the permission of the operator, the permit that serializes starts, and one of the permits
  of the window. The state is the times at which the latter are returned.
\<close>

definition acquire_start :: "bool \<Rightarrow> bool \<Rightarrow> instant \<Rightarrow> instant list \<Rightarrow> error_data + instant list" where
  "acquire_start allowed busy now returns =
     (if \<not> allowed then
        Inl (ErrorData_InvalidParams
          ''session startup is disabled; launch `micromux mcp --allow-session-start` to permit process spawning''
          None)
      else if busy then
        Inl (ErrorData_InvalidParams ''another session-start request is in progress'' None)
      else
        let held = filter (\<lambda>t. now < t) returns in
        if MAX_SESSION_STARTS_PER_WINDOW \<le> length held then
          Inl (ErrorData_InvalidParams
            ''session-start rate limit reached; wait before spawning another session'' None)
        else Inr (held @ [now + SESSION_START_WINDOW]))"

section \<open>Reports\<close>

record start_session_result =
  rs_started :: bool
  rs_already_running :: "bool option"
  rs_reachable :: "bool option"
  rs_config_path :: string
  rs_session :: "string option"
  rs_id :: "string option"
  rs_pid :: "u32 option"
  rs_endpoint :: "string option"
  rs_reason :: "string option"

definition already_running_report :: "session_info \<Rightarrow> start_session_result" where
  "already_running_report info =
     \<lparr> rs_started = False, rs_already_running = Some True, rs_reachable = None,
       rs_config_path = si_config_path info, rs_session = Some (si_name info),
       rs_id = Some (si_id info), rs_pid = Some (si_pid info), rs_endpoint = None, rs_reason = None \<rparr>"

definition start_session_report :: "session_info \<Rightarrow> bool \<Rightarrow> start_session_result" where
  "start_session_report info started =
     (if started then
        \<lparr> rs_started = True, rs_already_running = None, rs_reachable = None,
          rs_config_path = si_config_path info, rs_session = Some (si_name info),
          rs_id = Some (si_id info), rs_pid = Some (si_pid info), rs_endpoint = None, rs_reason = None \<rparr>
      else already_running_report info)"

definition ambiguous_start_session :: "string \<Rightarrow> nat \<Rightarrow> tool_error" where
  "ambiguous_start_session config_path sessions =
     ToolError_Ambiguous (''config '' @ config_path @ '' matched '' @ decimal sessions @
       '' live sessions; use list_sessions and stop the duplicate before starting another'')"

section \<open>A session that already runs\<close>

text \<open>A socket that cannot be used, while the lock of its owner is held.\<close>

definition unusable_owner :: "(control_endpoint \<Rightarrow> bool) \<Rightarrow> string \<Rightarrow> endpoint_probe \<Rightarrow> start_session_result option"
where
  "unusable_owner lock_held config_path p =
     (case (case ep_result p of
              EndpointProbeResult_ProtocolMismatch peer ours \<Rightarrow>
                Some (''control protocol version mismatch: peer='' @ version_text peer @
                      '', ours='' @ version_text ours)
            | EndpointProbeResult_Unreachable reason \<Rightarrow> Some reason
            | _ \<Rightarrow> None) of
        None \<Rightarrow> None
      | Some reason \<Rightarrow>
          if lock_held (ep_endpoint p) then
            Some \<lparr> rs_started = False, rs_already_running = Some True, rs_reachable = Some False,
                   rs_config_path = config_path, rs_session = None, rs_id = None, rs_pid = None,
                   rs_endpoint = Some (endpoint_text (ep_endpoint p)), rs_reason = Some reason \<rparr>
          else None)"

definition already_running_any ::
  "control_os \<Rightarrow> (control_endpoint \<Rightarrow> bool) \<Rightarrow> control_endpoint list \<Rightarrow> string \<Rightarrow>
   tool_error + start_session_result option"
where
  "already_running_any os lock_held endpoints config_path =
     (let probes = probe_endpoints os endpoints;
          sessions = unique_answering_session_probes probes
      in if 1 < length sessions then Inl (ambiguous_start_session config_path (length sessions))
         else case sessions of
           (endpoint, info) # _ \<Rightarrow> Inr (Some (already_running_report info))
         | [] \<Rightarrow>
             (case List.map_filter (unusable_owner lock_held config_path) probes of
                [] \<Rightarrow> Inr None | report # _ \<Rightarrow> Inr (Some report)))"

text \<open>The session that answers, and whether it is the child.\<close>

definition reachable_session_for_start ::
  "control_os \<Rightarrow> control_endpoint list \<Rightarrow> string \<Rightarrow> u32 option \<Rightarrow>
   tool_error + (bool \<times> session_info) option"
where
  "reachable_session_for_start os endpoints config_path child_pid =
     (let sessions = unique_answering_session_probes (probe_endpoints os endpoints)
      in if 1 < length sessions then Inl (ambiguous_start_session config_path (length sessions))
         else case sessions of
           [] \<Rightarrow> Inr None
         | (endpoint, info) # _ \<Rightarrow> Inr (Some (child_pid = Some (si_pid info), info)))"

section \<open>The message of a failed start\<close>

definition STDERR_TAIL :: nat where
  "STDERR_TAIL = 4 * 1024"

definition MAX_MESSAGE :: nat where
  "MAX_MESSAGE = 6 * 1024"

definition ELLIPSIS_LINE :: string where
  "ELLIPSIS_LINE = bytes [0xE2, 0x80, 0xA6, 10]"

definition boundary_from :: "string \<Rightarrow> nat \<Rightarrow> nat" where
  "boundary_from s i =
     (case List.find (\<lambda>j. \<not> utf8_cont (s ! j)) [i ..< length s] of None \<Rightarrow> length s | Some j \<Rightarrow> j)"

text \<open>The bytes of the file with the output, the removal of escapes and the directory of the logs are parameters.\<close>

definition start_failure_message ::
  "(string \<Rightarrow> string) \<Rightarrow> string option \<Rightarrow> string \<Rightarrow> string \<Rightarrow> string option \<Rightarrow> string"
where
  "start_failure_message strip_str log_dir base stderr_path file_content =
     (let content = (case file_content of
            None \<Rightarrow> [] | Some text \<Rightarrow> drop (length text - STDERR_TAIL) text);
          stderr = strip_str (utf8_lossy content);
          log_hint = (case log_dir of
            None \<Rightarrow> ''session log directory could not be resolved''
          | Some dir \<Rightarrow> ''session logs directory: '' @ dir);
          message = base @ [LF] @ ''captured stderr file: '' @ stderr_path @ [LF] @ log_hint @
            (if trim stderr \<noteq> [] then [LF] @ ''--- captured stderr (tail) ---'' @ [LF] @ trim stderr else [])
      in if MAX_MESSAGE < length message then
           let keep = MAX_MESSAGE - length ELLIPSIS_LINE
           in ELLIPSIS_LINE @ drop (boundary_from message (length message - keep)) message
         else message)"

section \<open>Waiting for the child\<close>

definition START_READY_TIMEOUT :: duration where
  "START_READY_TIMEOUT = from_secs 15"

definition CHILD_EXIT_GRACE :: duration where
  "CHILD_EXIT_GRACE = from_secs 3"

text \<open>A turn: whether the child is seen to have exited, and when; its process id; what the probes find; the clock after them.\<close>

record start_poll =
  pl_exited :: "string option"
  pl_now :: instant
  pl_child_pid :: "u32 option"
  pl_os :: control_os
  pl_checked_at :: instant

record start_outcome =
  so_result :: "error_data + start_session_result"
  so_killed :: bool
  so_exited :: "string option"
  so_stderr_kept :: bool

text \<open>The exit of the child that is known after a turn looked, and the deadline then.\<close>

definition observe_exit :: "start_poll \<Rightarrow> string option \<Rightarrow> instant \<Rightarrow> string option \<times> instant" where
  "observe_exit p child_exit deadline =
     (case (child_exit, pl_exited p) of
        (None, Some status) \<Rightarrow> (Some status, min deadline (pl_now p + CHILD_EXIT_GRACE))
      | _ \<Rightarrow> (child_exit, deadline))"

definition start_failure_base :: "string \<Rightarrow> string option \<Rightarrow> string" where
  "start_failure_base config_path child_exit =
     (case child_exit of
        Some status \<Rightarrow>
          ''`micromux serve` for '' @ config_path @ '' exited ('' @ status @ '') before becoming reachable''
      | None \<Rightarrow>
          ''`micromux serve` for '' @ config_path @ '' did not become reachable within '' @
          decimal (START_READY_TIMEOUT div NANOS_PER_SEC) @ ''s and was stopped'')"

fun start_loop ::
  "(tool_error \<Rightarrow> error_data) \<Rightarrow> (string \<Rightarrow> string) \<Rightarrow> control_endpoint list \<Rightarrow> string \<Rightarrow> instant \<Rightarrow>
   string option \<Rightarrow> start_poll list \<Rightarrow> start_outcome option"
where
  "start_loop error_data failure_message endpoints config_path deadline child_exit [] = None"
| "start_loop error_data failure_message endpoints config_path deadline child_exit (p # ps) =
     (let (child_exit, deadline) = observe_exit p child_exit deadline;
          child_pid = (if child_exit = None then pl_child_pid p else None)
      in case reachable_session_for_start (pl_os p) endpoints config_path child_pid of
           Inr (Some (started, info)) \<Rightarrow>
             Some \<lparr> so_result = Inr (start_session_report info started),
                    so_killed = (\<not> started \<and> child_exit = None), so_exited = child_exit, so_stderr_kept = False \<rparr>
         | Inl err \<Rightarrow>
             Some \<lparr> so_result = Inl (error_data err), so_killed = (child_exit = None),
                    so_exited = child_exit, so_stderr_kept = False \<rparr>
         | Inr None \<Rightarrow>
             if deadline \<le> pl_checked_at p then
               Some \<lparr> so_result = Inl (ErrorData_InternalError
                        (failure_message (start_failure_base config_path child_exit)) None),
                      so_killed = (child_exit = None), so_exited = child_exit, so_stderr_kept = True \<rparr>
             else start_loop error_data failure_message endpoints config_path deadline child_exit ps)"

section \<open>The whole start\<close>

text \<open>What the start observes before the wait: files and peers, the locks of the owners, and the spawn.\<close>

record start_env =
  sv_sha256 :: "string \<Rightarrow> string"
  sv_home :: "string option"
  sv_os :: control_os
  sv_statuses :: "runtime_dir_status list"
  sv_lock_held :: "control_endpoint \<Rightarrow> bool"
  sv_spawn_error :: "(bool \<times> string) option"
  sv_stderr_path :: string
  sv_stderr :: "string option"
  sv_strip_str :: "string \<Rightarrow> string"
  sv_log_dir :: "string option"
  sv_spawned_at :: instant
  sv_polls :: "start_poll list"

datatype start_result =
    Start_Rejected error_data
  | Start_AlreadyRunning start_session_result
  | Start_Spawned "start_outcome option"

definition start_for_target_unchecked ::
  "(control_error \<Rightarrow> string) \<Rightarrow> tool_env \<Rightarrow> start_env \<Rightarrow> string \<Rightarrow> start_result"
where
  "start_for_target_unchecked show_err env sv target =
     (case config_for_target (sv_os sv) (sv_home sv) target of
        None \<Rightarrow>
          Start_Rejected (ErrorData_InvalidParams (''no micromux config found at or above '' @ target) None)
      | Some config_path \<Rightarrow>
          let dirs = usable_runtime_dirs (sv_statuses sv);
              endpoints = map (\<lambda>dir. endpoint_for (sv_sha256 sv) dir config_path) dirs
          in if dirs = [] then
               Start_Rejected (ErrorData_InternalError ''no runtime directory could be resolved''
                 (Some (make_diagnostics env ''no runtime directory could be resolved''
                   (Some config_path) (sv_statuses sv) [])))
             else case already_running_any (sv_os sv) (sv_lock_held sv) endpoints config_path of
               Inl err \<Rightarrow> Start_Rejected (error_data_of show_err err)
             | Inr (Some report) \<Rightarrow> Start_AlreadyRunning report
             | Inr None \<Rightarrow>
                 (case sv_spawn_error sv of
                    Some (unsupported, message) \<Rightarrow>
                      Start_Rejected
                        (if unsupported then error_data_of show_err ToolError_Unsupported
                         else ErrorData_InternalError (''failed to spawn `micromux serve`: '' @ message) None)
                  | None \<Rightarrow>
                      Start_Spawned (start_loop (error_data_of show_err)
                        (\<lambda>base. start_failure_message (sv_strip_str sv) (sv_log_dir sv) base
                           (sv_stderr_path sv) (sv_stderr sv))
                        endpoints config_path (sv_spawned_at sv + START_READY_TIMEOUT) None (sv_polls sv))))"

definition start_for_target ::
  "(control_error \<Rightarrow> string) \<Rightarrow> tool_env \<Rightarrow> start_env \<Rightarrow> bool \<Rightarrow> bool \<Rightarrow> instant \<Rightarrow> instant list \<Rightarrow> string \<Rightarrow>
   start_result \<times> instant list"
where
  "start_for_target show_err env sv allowed busy now returns target =
     (case acquire_start allowed busy now returns of
        Inl err \<Rightarrow> (Start_Rejected err, returns)
      | Inr returns \<Rightarrow> (start_for_target_unchecked show_err env sv target, returns))"

end
