(* ===== verification/Agent_Tools.thy ===== *)
theory Agent_Tools
  imports Agent_Log_Tools Agent_Start
begin

text \<open>
  The tools of \<^verbatim>\<open>src/crates/micromux-mcp/src/lib.rs\<close> that change a session by one request, and those
  that read it by a few. A tool that changes something gives its effects, in order, and its answer, or none
  while it waits. Replies are parameters, one for each request that changes; requests that only read are
  answered by a function, one for each phase between two changes.
\<close>

section \<open>Runs of a tool\<close>

datatype tool_effect = Effect_Request request | Effect_StartSession

type_synonym 'a tool_run = "tool_effect list \<times> (error_data + 'a) option"

definition tool_ok :: "'a \<Rightarrow> 'a tool_run" where
  "tool_ok v = ([], Some (Inr v))"

definition tool_fail :: "error_data \<Rightarrow> 'a tool_run" where
  "tool_fail err = ([], Some (Inl err))"

definition tool_result :: "error_data + 'a \<Rightarrow> 'a tool_run" where
  "tool_result r = ([], Some r)"

text \<open>None while the wait goes on.\<close>

definition tool_wait :: "(error_data + 'a) option \<Rightarrow> 'a tool_run" where
  "tool_wait r = ([], r)"

definition tool_send :: "request \<Rightarrow> error_data + 'a \<Rightarrow> 'a tool_run" where
  "tool_send req reply = ([Effect_Request req], Some reply)"

definition tool_then :: "'a tool_run \<Rightarrow> ('a \<Rightarrow> 'b tool_run) \<Rightarrow> 'b tool_run" where
  "tool_then m f =
     (case snd m of
        None \<Rightarrow> (fst m, None)
      | Some (Inl err) \<Rightarrow> (fst m, Some (Inl err))
      | Some (Inr v) \<Rightarrow> (fst m @ fst (f v), snd (f v)))"

text \<open>What the tools of a server share: formats, the enrichment of errors, and what diagnoses need.\<close>

record tool_ctx =
  tx_show_err :: "control_error \<Rightarrow> string"
  tx_debug :: "response \<Rightarrow> string"
  tx_enrich :: "string \<Rightarrow> tool_error \<Rightarrow> tool_error"
  tx_lib :: log_library
  tx_fmt :: "duration \<Rightarrow> string"
  tx_ports :: "service_snapshot \<Rightarrow> agent_signal list"

definition as_error_data :: "tool_ctx \<Rightarrow> tool_error + 'a \<Rightarrow> error_data + 'a" where
  "as_error_data cx r = map_err (error_data_of (tx_show_err cx)) r"

definition service_result :: "tool_ctx \<Rightarrow> string \<Rightarrow> tool_error + 'a \<Rightarrow> error_data + 'a" where
  "service_result cx service r = map_err (\<lambda>err. error_data_of (tx_show_err cx) (tx_enrich cx service err)) r"

type_synonym asking = "request \<Rightarrow> tool_error + response"

definition snapshot_of :: "tool_ctx \<Rightarrow> asking \<Rightarrow> string \<Rightarrow> tool_error + service_snapshot" where
  "snapshot_of cx ask service = service_snapshot_of (tx_debug cx) service (ask Request_ListServices)"

definition diagnosis_of ::
  "tool_ctx \<Rightarrow> asking \<Rightarrow> service_snapshot \<Rightarrow> usize \<Rightarrow> tool_error + service_diagnosis"
where
  "diagnosis_of cx ask sn tail =
     diagnose_service (tx_lib cx) (tx_fmt cx) (tx_ports cx) (tx_debug cx) ask sn tail"

definition service_events_tail :: "tool_ctx \<Rightarrow> asking \<Rightarrow> string \<Rightarrow> error_data + service_event list" where
  "service_events_tail cx ask service =
     and_then (as_error_data cx (ask (Request_GetEvents service None (Some EVENT_HISTORY)))) (\<lambda>response.
     and_then (service_result cx service (convert_events (tx_debug cx) response)) (\<lambda>(es, truncated).
       Inr es))"

section \<open>Single changes\<close>

record session_ref =
  sx_session :: string
  sx_id :: string
  sx_pid :: u32
  sx_config_path :: string

definition session_ref_of :: "session_info \<Rightarrow> session_ref" where
  "session_ref_of info =
     \<lparr> sx_session = si_name info, sx_id = si_id info, sx_pid = si_pid info,
       sx_config_path = si_config_path info \<rparr>"

record mutation_result =
  mr_session_ref :: session_ref
  mr_accepted :: "service_command_ack list"
  mr_service :: string
  mr_generation :: "u64 option"
  mr_log_cursor :: "u64 option"

text \<open>The cursor earlier the change, None if it was not captured in time.\<close>

definition capture_mutation_cursor :: "(tool_error + u64) option \<Rightarrow> u64 option" where
  "capture_mutation_cursor captured =
     (case captured of Some (Inr cursor) \<Rightarrow> Some cursor | _ \<Rightarrow> None)"

definition acknowledged_generation :: "string \<Rightarrow> service_command_ack list \<Rightarrow> u64 option" where
  "acknowledged_generation service acks =
     map_option ca_observed_generation (List.find (\<lambda>ack. ca_service ack = service) acks)"

definition mutate ::
  "tool_ctx \<Rightarrow> tool_error + answering \<Rightarrow> (tool_error + u64) option \<Rightarrow> tool_error + unit \<Rightarrow> request \<Rightarrow>
   tool_error + response \<Rightarrow> string \<Rightarrow> mutation_result tool_run"
where
  "mutate cx resolved captured opened req reply service =
     tool_then (tool_result (as_error_data cx resolved)) (\<lambda>(endpoint, info).
     tool_then (tool_result (as_error_data cx opened)) (\<lambda>_.
     tool_then (tool_send req (as_error_data cx reply)) (\<lambda>response.
     tool_then (tool_result (service_result cx service (convert_accepted (tx_debug cx) response))) (\<lambda>acks.
       tool_ok \<lparr> mr_session_ref = session_ref_of info, mr_accepted = acks, mr_service = service,
                 mr_generation = acknowledged_generation service acks,
                 mr_log_cursor = capture_mutation_cursor captured \<rparr>))))"

definition restart_service where
  "restart_service cx resolved captured opened reply service =
     mutate cx resolved captured opened (Request_Restart service) reply service"

definition enable_service where
  "enable_service cx resolved captured opened reply service =
     mutate cx resolved captured opened (Request_Enable service) reply service"

definition disable_service where
  "disable_service cx resolved captured opened reply service =
     mutate cx resolved captured opened (Request_Disable service) reply service"

definition require_dynamic_capability :: "session_info \<Rightarrow> error_data + unit" where
  "require_dynamic_capability info =
     (if Option.bind (si_capabilities info) sp_dynamic_services \<noteq> None then Inr ()
      else Inl (ErrorData_InvalidParams
        (''PolicyDenied: dynamic services are disabled for this session; set '' @
         ''control.dynamic_services.enabled: true in '' @ si_config_path info @
         '' and restart the session'') None))"

definition dynamic_mutation ::
  "tool_ctx \<Rightarrow> tool_error + answering \<Rightarrow> request \<Rightarrow> tool_error + response \<Rightarrow> string \<Rightarrow>
   (answering \<times> dynamic_service_ack) tool_run"
where
  "dynamic_mutation cx resolved req reply service =
     tool_then (tool_result (as_error_data cx resolved)) (\<lambda>(endpoint, info).
     tool_then (tool_result (require_dynamic_capability info)) (\<lambda>_.
     tool_then (tool_send req (as_error_data cx reply)) (\<lambda>response.
     tool_then (tool_result (service_result cx service (convert_dynamic_service (tx_debug cx) response)))
       (\<lambda>receipt. tool_ok ((endpoint, info), receipt)))))"

definition restart_all ::
  "tool_ctx \<Rightarrow> tool_error + answering \<Rightarrow> tool_error + response \<Rightarrow>
   (session_ref \<times> service_command_ack list) tool_run"
where
  "restart_all cx resolved reply =
     tool_then (tool_result (as_error_data cx resolved)) (\<lambda>(endpoint, info).
     tool_then (tool_send Request_RestartAll (as_error_data cx reply)) (\<lambda>response.
     tool_then (tool_result (as_error_data cx (convert_accepted (tx_debug cx) response))) (\<lambda>acks.
       tool_ok (session_ref_of info, acks))))"

definition reconcile_config_tool ::
  "tool_ctx \<Rightarrow> tool_error + answering \<Rightarrow> tool_error + response \<Rightarrow> bool \<Rightarrow>
   (session_ref \<times> bool \<times> reconcile_action list) tool_run"
where
  "reconcile_config_tool cx resolved reply dry_run =
     tool_then (tool_result (as_error_data cx resolved)) (\<lambda>(endpoint, info).
     tool_then (tool_send (Request_ReconcileConfig dry_run) (as_error_data cx reply)) (\<lambda>response.
     tool_then (tool_result (as_error_data cx (convert_reconcile (tx_debug cx) response))) (\<lambda>receipt.
       tool_ok (session_ref_of info, rr_dry_run receipt, rr_actions receipt))))"

section \<open>Dynamic services\<close>

definition dynamic_result :: "answering \<times> dynamic_service_ack \<Rightarrow> session_ref \<times> dynamic_service_ack" where
  "dynamic_result m = (session_ref_of (snd (fst m)), snd m)"

definition dynamic_tool where
  "dynamic_tool cx resolved req reply service =
     tool_then (dynamic_mutation cx resolved req reply service) (\<lambda>m. tool_ok (dynamic_result m))"

definition start_dynamic_service_tool where
  "start_dynamic_service_tool cx resolved reply params =
     dynamic_tool cx resolved (Request_StartDynamicService params) reply (dp_service params)"

definition replace_dynamic_service_tool where
  "replace_dynamic_service_tool cx resolved reply expected_revision params =
     dynamic_tool cx resolved (Request_ReplaceDynamicService (dp_service params) expected_revision params)
       reply (dp_service params)"

definition renew_dynamic_service_tool where
  "renew_dynamic_service_tool cx resolved reply service expected_revision expires_after =
     dynamic_tool cx resolved (Request_RenewDynamicService service expected_revision expires_after) reply service"

definition stop_dynamic_service_tool where
  "stop_dynamic_service_tool cx resolved reply service =
     dynamic_tool cx resolved (Request_StopDynamicService service) reply service"

section \<open>Stopping a session\<close>

text \<open>A process seen through a pidfd; on Linux the open tells whether it has already gone (\<open>Inl True\<close>).\<close>

record exit_watch =
  xw_pid :: u32
  xw_pidfd :: bool
  xw_already_exited :: bool

definition valid_pid :: "u32 \<Rightarrow> bool" where
  "valid_pid pid \<longleftrightarrow> 0 < unat pid \<and> unat pid < 2 ^ 31"

definition exit_watch_new :: "u32 \<Rightarrow> bool + unit \<Rightarrow> bool \<Rightarrow> exit_watch" where
  "exit_watch_new pid pidfd_open registered =
     (let opened = (if valid_pid pid then Some pidfd_open else None)
      in \<lparr> xw_pid = pid, xw_pidfd = (opened = Some (Inr ()) \<and> registered),
           xw_already_exited = (opened = Some (Inl True)) \<rparr>)"

text \<open>\<open>gone\<close>: the signal finds no such process.\<close>

definition process_alive :: "u32 \<Rightarrow> bool \<Rightarrow> bool" where
  "process_alive pid gone \<longleftrightarrow> valid_pid pid \<and> \<not> gone"

fun wait_until_stopped :: "u32 \<Rightarrow> instant \<Rightarrow> (bool \<times> instant) list \<Rightarrow> bool option" where
  "wait_until_stopped pid deadline [] = None"
| "wait_until_stopped pid deadline ((gone, now) # polls) =
     (if \<not> process_alive pid gone then Some True
      else if deadline \<le> now then Some False
      else wait_until_stopped pid deadline polls)"

definition STOP_CONFIRM_TIMEOUT :: duration where
  "STOP_CONFIRM_TIMEOUT = from_secs 10"

text \<open>Whether the pidfd becomes readable in time, and the polls of a watch without one.\<close>

definition exit_watch_wait :: "exit_watch \<Rightarrow> bool option \<Rightarrow> instant \<Rightarrow> (bool \<times> instant) list \<Rightarrow> bool option" where
  "exit_watch_wait watch readable started polls =
     (if xw_already_exited watch then Some True
      else if xw_pidfd watch then readable
      else wait_until_stopped (xw_pid watch) (started + STOP_CONFIRM_TIMEOUT) polls)"

definition stop_session ::
  "tool_ctx \<Rightarrow> tool_error + answering \<Rightarrow> (u32 \<Rightarrow> exit_watch) \<Rightarrow> tool_error + response \<Rightarrow>
   (exit_watch \<Rightarrow> bool option) \<Rightarrow> (bool \<times> session_ref \<times> string option) tool_run"
where
  "stop_session cx resolved watch reply exited =
     tool_then (tool_result (as_error_data cx resolved)) (\<lambda>(endpoint, info).
     tool_then (tool_send Request_Shutdown (as_error_data cx reply)) (\<lambda>response.
     tool_then (tool_result (as_error_data cx (convert_shutting_down (tx_debug cx) response))) (\<lambda>_.
     tool_then (tool_wait (map_option Inr (exited (watch (si_pid info))))) (\<lambda>stopped.
       tool_ok (stopped, session_ref_of info,
         if stopped then None
         else Some (''shutdown was acknowledged but the process was still terminating after the confirm '' @
                    ''window; its ports may take another moment to free''))))))"

section \<open>Reads\<close>

record service_location =
  sz_session :: string
  sz_session_selector :: string
  sz_pid :: u32
  sz_config_path :: string
  sz_working_dir :: string
  sz_snapshot :: "service_snapshot option"

definition find_service ::
  "tool_ctx \<Rightarrow> tool_error + answering list \<Rightarrow> (control_endpoint \<Rightarrow> asking) \<Rightarrow> string \<Rightarrow>
   error_data + service_location list"
where
  "find_service cx sessions send service =
     and_then (as_error_data cx sessions) (\<lambda>sessions.
       Inr (List.map_filter (\<lambda>(endpoint, info).
         map_option (\<lambda>sn.
           \<lparr> sz_session = si_name info, sz_session_selector = session_selector_text info,
             sz_pid = si_pid info, sz_config_path = si_config_path info,
             sz_working_dir = si_working_dir info, sz_snapshot = Some sn \<rparr>)
           (service_in_session (tx_debug cx) send (endpoint, info) service)) sessions))"

text \<open>A tool that reads over the connection of the session.\<close>

definition on_connection ::
  "tool_ctx \<Rightarrow> tool_error + answering \<Rightarrow> tool_error + unit \<Rightarrow> (session_info \<Rightarrow> error_data + 'a) \<Rightarrow> error_data + 'a"
where
  "on_connection cx resolved opened read =
     and_then (as_error_data cx resolved) (\<lambda>(endpoint, info).
     and_then (as_error_data cx opened) (\<lambda>_. read info))"

text \<open>A tool that sends one request on a connection of its own.\<close>

definition asking_once ::
  "tool_ctx \<Rightarrow> tool_error + answering \<Rightarrow> tool_error + response \<Rightarrow>
   (session_info \<Rightarrow> response \<Rightarrow> error_data + 'a) \<Rightarrow> error_data + 'a"
where
  "asking_once cx resolved reply read =
     and_then (as_error_data cx resolved) (\<lambda>(endpoint, info).
     and_then (as_error_data cx reply) (\<lambda>response. read info response))"

definition list_services_tool ::
  "tool_ctx \<Rightarrow> tool_error + answering \<Rightarrow> tool_error + response \<Rightarrow>
   error_data + string \<times> string \<times> string \<times> service_snapshot list"
where
  "list_services_tool cx resolved reply =
     asking_once cx resolved reply (\<lambda>info response.
     and_then (as_error_data cx (convert_services (tx_debug cx) response)) (\<lambda>services.
       Inr (si_config_path info, si_name info, session_selector_text info, services)))"

definition list_log_runs_tool ::
  "tool_ctx \<Rightarrow> tool_error + answering \<Rightarrow> tool_error + response \<Rightarrow> string \<Rightarrow>
   error_data + string \<times> log_run_summary list"
where
  "list_log_runs_tool cx resolved reply service =
     asking_once cx resolved reply (\<lambda>info response.
     and_then (service_result cx service (convert_log_runs (tx_debug cx) response)) (\<lambda>runs.
       Inr (si_config_path info, runs)))"

definition log_cursors_tool ::
  "tool_ctx \<Rightarrow> tool_error + answering \<Rightarrow> tool_error + unit \<Rightarrow> asking \<Rightarrow> error_data + string \<times> cursors"
where
  "log_cursors_tool cx resolved opened ask =
     on_connection cx resolved opened (\<lambda>info.
     and_then (as_error_data cx (current_cursors (conn_of (tx_debug cx) ask))) (\<lambda>cs.
       Inr (si_config_path info, cs)))"

definition get_log_file_path ::
  "tool_ctx \<Rightarrow> tool_error + answering \<Rightarrow> tool_error + response \<Rightarrow> string \<Rightarrow> u64 option \<Rightarrow>
   error_data + string \<times> u64 \<times> string"
where
  "get_log_file_path cx resolved reply service run_gen =
     asking_once cx resolved reply (\<lambda>info response.
     and_then (service_result cx service (convert_log_runs (tx_debug cx) response)) (\<lambda>runs.
     and_then (ok_or (error_data_of (tx_show_err cx)
         (ToolError_Remote ErrorCode_UnknownRun (''service `'' @ service @ ''` has no retained run `'' @
           (case run_gen of None \<Rightarrow> ''current'' | Some g \<Rightarrow> show_u64 g) @ ''`'')))
         (case run_gen of
            Some g \<Rightarrow> List.find (\<lambda>row. ls_run_generation row = g) runs
          | None \<Rightarrow> List.find ls_current runs)) (\<lambda>row.
     and_then (ok_or (error_data_of (tx_show_err cx)
         (ToolError_InvalidState (''service `'' @ service @ ''` run `'' @ show_u64 (ls_run_generation row) @
           ''` is not disk-backed''))) (ls_path row)) (\<lambda>path.
       Inr (si_config_path info, ls_run_generation row, path)))))"

definition get_health_tool ::
  "tool_ctx \<Rightarrow> tool_error + answering \<Rightarrow> tool_error + unit \<Rightarrow> asking \<Rightarrow> string \<Rightarrow>
   error_data + string \<times> service_snapshot \<times> health_attempt option"
where
  "get_health_tool cx resolved opened ask service =
     on_connection cx resolved opened (\<lambda>info.
     and_then (service_result cx service (snapshot_of cx ask service)) (\<lambda>sn.
       Inr (si_config_path info, sn, map_option bounded_attempt
              (latest_health_for_snapshot (tx_debug cx) sn (ask (Request_GetHealth (sn_id sn)))))))"

definition get_health_history_tool ::
  "tool_ctx \<Rightarrow> tool_error + answering \<Rightarrow> tool_error + unit \<Rightarrow> asking \<Rightarrow> string \<Rightarrow>
   error_data + string \<times> service_snapshot \<times> health_attempt list"
where
  "get_health_history_tool cx resolved opened ask service =
     on_connection cx resolved opened (\<lambda>info.
     and_then (service_result cx service (snapshot_of cx ask service)) (\<lambda>sn.
     and_then (service_result cx service
         (and_then (ask (Request_GetHealthHistory service)) (convert_health_history (tx_debug cx)))) (\<lambda>attempts.
       Inr (si_config_path info, sn, map bounded_attempt attempts))))"

text \<open>Validation without a session: the file found from the target, and the report on it.\<close>

definition validate_config_tool ::
  "control_os \<Rightarrow> string option \<Rightarrow> (string \<Rightarrow> string + 'report) \<Rightarrow> string \<Rightarrow> string option \<Rightarrow>
   error_data + 'report"
where
  "validate_config_tool os home validate cwd path =
     (let target = (case path of None \<Rightarrow> cwd | Some p \<Rightarrow> p)
      in case config_for_target os home target of
           None \<Rightarrow> Inl (ErrorData_InvalidParams (''no micromux config found at or above '' @ target) None)
         | Some config_path \<Rightarrow> map_err (\<lambda>message. ErrorData_InvalidParams message None) (validate config_path))"

end
