(* ===== verification/Agent_Bundles.thy ===== *)
theory Agent_Bundles
  imports Agent_Tools
begin

text \<open>
  The tools of \<^verbatim>\<open>src/crates/micromux-mcp/src/lib.rs\<close> that change a service, wait for its run and report
  logs, events and a diagnosis in one answer, and the waits that end in such a report.
\<close>

section \<open>Limits and shared steps\<close>

definition DEFAULT_RESTART_LOG_LIMIT :: usize where
  "DEFAULT_RESTART_LOG_LIMIT = 100"

definition MAX_RESTART_LOG_LIMIT :: usize where
  "MAX_RESTART_LOG_LIMIT = 1000"

definition restart_log_limit :: "usize option \<Rightarrow> usize" where
  "restart_log_limit n =
     clamp 1 MAX_RESTART_LOG_LIMIT (case n of None \<Rightarrow> DEFAULT_RESTART_LOG_LIMIT | Some n \<Rightarrow> n)"

text \<open>A wait: when it starts, whether a subscription is open, its turns, and the reply to the probe at its end.\<close>

record health_wait =
  hw_started :: instant
  hw_subscribed :: bool
  hw_turns :: "wait_turn list"
  hw_health_reply :: "tool_error + response"

definition waited_health ::
  "tool_ctx \<Rightarrow> health_wait \<Rightarrow> string \<Rightarrow> u64 option \<Rightarrow> duration \<Rightarrow> (error_data + wait_conclusion) option"
where
  "waited_health cx hw service newer_than timeout =
     map_option (service_result cx service)
       (wait_for_health (tx_debug cx) service newer_than (hw_started hw) timeout (hw_subscribed hw)
         (hw_turns hw) (hw_health_reply hw))"

definition compact_logs ::
  "tool_ctx \<Rightarrow> asking \<Rightarrow> string \<Rightarrow> u64 \<Rightarrow> usize \<Rightarrow> error_data + processed_entry list \<times> bool"
where
  "compact_logs cx ask service cursor limit =
     service_result cx service (compact_logs_since (tx_lib cx) (conn_of (tx_debug cx) ask) service cursor limit)"

definition diagnosis_if_needed ::
  "tool_ctx \<Rightarrow> asking \<Rightarrow> string \<Rightarrow> wait_conclusion \<Rightarrow> usize \<Rightarrow> error_data + service_diagnosis option"
where
  "diagnosis_if_needed cx ask service conclusion tail =
     (if needs_diagnosis conclusion then
        and_then (service_result cx service (diagnosis_of cx ask (conclusion_snapshot conclusion) tail))
          (\<lambda>d. Inr (Some d))
      else Inr None)"

section \<open>Waits\<close>

definition wait_for_healthy_tool ::
  "tool_ctx \<Rightarrow> tool_error + answering \<Rightarrow> tool_error + unit \<Rightarrow> health_wait \<Rightarrow> string \<Rightarrow> u64 option \<Rightarrow>
   nat option \<Rightarrow> wait_report tool_run"
where
  "wait_for_healthy_tool cx resolved opened hw service newer_than timeout_secs =
     tool_then (tool_result (as_error_data cx resolved)) (\<lambda>(endpoint, info).
     tool_then (tool_result (as_error_data cx opened)) (\<lambda>_.
     tool_then (tool_wait (waited_health cx hw service newer_than (wait_timeout timeout_secs))) (\<lambda>conclusion.
       tool_ok (wait_result_from service (wait_timeout timeout_secs) conclusion))))"

record wait_for_exit_result =
  we_session_ref :: session_ref
  we_service :: string
  we_status :: wait_for_exit_status
  we_exit_code :: "i32 option"
  we_run_generation :: u64
  we_snapshot :: service_snapshot
  we_logs :: "processed_entry list"
  we_logs_truncated :: bool
  we_waited_secs :: nat

text \<open>\<open>earlier\<close> answers before the wait, \<open>later\<close> after it; \<open>ended\<close> is the clock at the end.\<close>

definition wait_for_exit_tool ::
  "tool_ctx \<Rightarrow> tool_error + answering \<Rightarrow> tool_error + unit \<Rightarrow> asking \<Rightarrow> health_wait \<Rightarrow> asking \<Rightarrow> instant \<Rightarrow>
   string \<Rightarrow> u64 option \<Rightarrow> nat option \<Rightarrow> usize option \<Rightarrow> wait_for_exit_result tool_run"
where
  "wait_for_exit_tool cx resolved opened earlier hw later ended service newer_than timeout_secs log_limit =
     tool_then (tool_result (as_error_data cx resolved)) (\<lambda>(endpoint, info).
     tool_then (tool_result (as_error_data cx opened)) (\<lambda>_.
     tool_then (tool_result (service_result cx service
         (current_service_cursor (conn_of (tx_debug cx) earlier) service))) (\<lambda>cursor.
     tool_then (tool_wait (map_option (service_result cx service)
         (wait_for_exit (tx_debug cx) service newer_than (hw_started hw) (wait_timeout timeout_secs)
           (hw_subscribed hw) (hw_turns hw)))) (\<lambda>(status, exit_code, sn).
     tool_then (tool_result (compact_logs cx later service cursor (restart_log_limit log_limit)))
       (\<lambda>(logs, logs_truncated).
       tool_ok \<lparr> we_session_ref = session_ref_of info, we_service = service, we_status = status,
                 we_exit_code = exit_code, we_run_generation = sn_run_generation sn, we_snapshot = sn,
                 we_logs = logs, we_logs_truncated = logs_truncated,
                 we_waited_secs = (ended - hw_started hw) div NANOS_PER_SEC \<rparr>)))))"

section \<open>Restart and wait\<close>

record restart_and_wait_result =
  rw_session_ref :: session_ref
  rw_service :: string
  rw_previous_generation :: u64
  rw_run_generation :: u64
  rw_outcome :: wait_report
  rw_snapshot :: service_snapshot
  rw_logs :: "processed_entry list"
  rw_logs_truncated :: bool
  rw_events :: "service_event list"
  rw_diagnosis :: "service_diagnosis option"

definition restart_service_and_wait ::
  "tool_ctx \<Rightarrow> tool_error + answering \<Rightarrow> tool_error + unit \<Rightarrow> asking \<Rightarrow> tool_error + response \<Rightarrow>
   health_wait \<Rightarrow> asking \<Rightarrow> string \<Rightarrow> nat option \<Rightarrow> usize option \<Rightarrow> restart_and_wait_result tool_run"
where
  "restart_service_and_wait cx resolved opened earlier reply hw later service timeout_secs log_limit =
     (let timeout = wait_timeout timeout_secs in
      tool_then (tool_result (as_error_data cx resolved)) (\<lambda>(endpoint, info).
      tool_then (tool_result (as_error_data cx opened)) (\<lambda>_.
      tool_then (tool_result (service_result cx service (snapshot_of cx earlier service))) (\<lambda>sn.
      if sn_desired sn = Desired_Disabled then
        tool_fail (error_data_of (tx_show_err cx) (ToolError_InvalidState (''service `'' @ service @
          ''` is disabled and cannot be restarted; use enable_service to start it'')))
      else
      tool_then (tool_result (as_error_data cx (current_cursors (conn_of (tx_debug cx) earlier)))) (\<lambda>cs.
      tool_then (tool_send (Request_Restart service) (as_error_data cx reply)) (\<lambda>response.
      tool_then (tool_result (service_result cx service (convert_accepted (tx_debug cx) response))) (\<lambda>acks.
      tool_then (tool_result (ok_or (error_data_of (tx_show_err cx) (ToolError_Unexpected
          (''restart acknowledgement omitted service `'' @ service @ ''`'')))
          (acknowledged_generation service acks))) (\<lambda>previous.
      tool_then (tool_wait (waited_health cx hw service (Some previous) timeout)) (\<lambda>conclusion.
      tool_then (tool_result (compact_logs cx later service
          (case im_get cs service of None \<Rightarrow> 0 | Some c \<Rightarrow> c) (restart_log_limit log_limit)))
        (\<lambda>(logs, logs_truncated).
      tool_then (tool_result (diagnosis_if_needed cx later service conclusion DEFAULT_DIAGNOSE_TAIL)) (\<lambda>diagnosis.
      tool_then (tool_result (service_events_tail cx later service)) (\<lambda>events.
        tool_ok \<lparr> rw_session_ref = session_ref_of info, rw_service = service,
                  rw_previous_generation = previous,
                  rw_run_generation = sn_run_generation (conclusion_snapshot conclusion),
                  rw_outcome = wait_result_from service timeout conclusion,
                  rw_snapshot = conclusion_snapshot conclusion, rw_logs = logs,
                  rw_logs_truncated = logs_truncated,
                  rw_events = filter (\<lambda>ev. previous \<le> se_run_generation ev) events,
                  rw_diagnosis = diagnosis \<rparr>))))))))))))"

section \<open>Start a dynamic service and wait\<close>

record start_dynamic_and_wait_result =
  sdw_session_ref :: session_ref
  sdw_receipt :: dynamic_service_ack
  sdw_outcome :: wait_report
  sdw_snapshot :: service_snapshot
  sdw_logs :: "processed_entry list"
  sdw_logs_truncated :: bool
  sdw_events :: "service_event list"
  sdw_diagnosis :: "service_diagnosis option"

definition start_dynamic_service_and_wait ::
  "tool_ctx \<Rightarrow> tool_error + answering \<Rightarrow> tool_error + response \<Rightarrow> tool_error + unit \<Rightarrow> health_wait \<Rightarrow> asking \<Rightarrow>
   dynamic_service_params \<Rightarrow> nat option \<Rightarrow> usize option \<Rightarrow> start_dynamic_and_wait_result tool_run"
where
  "start_dynamic_service_and_wait cx resolved reply opened hw later params timeout_secs log_limit =
     (let service = dp_service params; timeout = wait_timeout timeout_secs in
      tool_then (dynamic_mutation cx resolved (Request_StartDynamicService params) reply service)
        (\<lambda>((endpoint, info), receipt).
      tool_then (tool_result (as_error_data cx opened)) (\<lambda>_.
      tool_then (tool_wait (waited_health cx hw service (Some (da_observed_generation receipt)) timeout))
        (\<lambda>conclusion.
      tool_then (tool_result (compact_logs cx later service 0 (restart_log_limit log_limit)))
        (\<lambda>(logs, logs_truncated).
      tool_then (tool_result (diagnosis_if_needed cx later service conclusion DEFAULT_DIAGNOSE_TAIL)) (\<lambda>diagnosis.
      tool_then (if needs_diagnosis conclusion then tool_result (service_events_tail cx later service)
                 else tool_ok []) (\<lambda>events.
        tool_ok \<lparr> sdw_session_ref = session_ref_of info, sdw_receipt = receipt,
                  sdw_outcome = wait_result_from service timeout conclusion,
                  sdw_snapshot = conclusion_snapshot conclusion, sdw_logs = logs,
                  sdw_logs_truncated = logs_truncated, sdw_events = events,
                  sdw_diagnosis = diagnosis \<rparr>)))))))"

section \<open>Ensure that a service is ready\<close>

datatype ensure_action_kind =
    EnsureActionKind_StartedSession | EnsureActionKind_EnabledService | EnsureActionKind_Waited

record ensure_action =
  ea_kind :: ensure_action_kind
  ea_detail :: string

record ensure_service_ready_result =
  er_session_ref :: session_ref
  er_service :: string
  er_actions :: "ensure_action list"
  er_outcome :: wait_report
  er_snapshot :: service_snapshot
  er_diagnosis :: "service_diagnosis option"

text \<open>The answer of a start, None while it waits for the child.\<close>

fun start_answer :: "start_result \<Rightarrow> (error_data + start_session_result) option" where
  "start_answer (Start_Rejected err) = Some (Inl err)"
| "start_answer (Start_AlreadyRunning report) = Some (Inr report)"
| "start_answer (Start_Spawned outcome) = map_option so_result outcome"

definition start_session_tool :: "start_result \<Rightarrow> start_session_result tool_run" where
  "start_session_tool started = ([Effect_StartSession], start_answer started)"

text \<open>
  The session to drive and the action that got it. \<open>session\<close> is the argument of the caller;
  \<open>resolver\<close> and \<open>again\<close> are \<^verbatim>\<open>select::resolve\<close> before and after a start (\<open>resolve\<close> of
  \<open>Agent_Requests\<close>, which falls back to \<^verbatim>\<open>MICROMUX_SESSION\<close> without an argument).
\<close>

definition session_to_drive ::
  "tool_ctx \<Rightarrow> (string option \<Rightarrow> tool_error + answering) \<Rightarrow> string option \<Rightarrow> start_result \<Rightarrow>
   (string option \<Rightarrow> tool_error + answering) \<Rightarrow> (answering \<times> ensure_action list) tool_run"
where
  "session_to_drive cx resolver session started again =
     (let explicit_selector = session \<noteq> None in
      case resolver session of
        Inr found \<Rightarrow> tool_ok (found, [])
      | Inl (ToolError_NoSession dg) \<Rightarrow>
          if explicit_selector then tool_fail (error_data_of (tx_show_err cx) (ToolError_NoSession dg))
          else
            tool_then (start_session_tool started) (\<lambda>report.
            tool_then (tool_result (ok_or (ErrorData_InternalError
                ''start_session did not identify the reachable session'' None) (rs_id report))) (\<lambda>session_id.
            tool_then (tool_result (as_error_data cx (again (Some (''hash:'' @ session_id))))) (\<lambda>found.
              tool_ok (found,
                [\<lparr> ea_kind = EnsureActionKind_StartedSession,
                   ea_detail = (if rs_started report then ''started the micromux session''
                                else ''found the session started concurrently'') \<rparr>]))))
      | Inl err \<Rightarrow> tool_fail (error_data_of (tx_show_err cx) err))"

definition enable_if_disabled ::
  "tool_ctx \<Rightarrow> service_snapshot \<Rightarrow> tool_error + response \<Rightarrow> string \<Rightarrow>
   (u64 option \<times> ensure_action list) tool_run"
where
  "enable_if_disabled cx sn reply service =
     (if sn_desired sn = Desired_Disabled then
        tool_then (tool_send (Request_Enable service) (as_error_data cx reply)) (\<lambda>response.
        tool_then (tool_result (as_error_data cx (convert_accepted (tx_debug cx) response))) (\<lambda>acks.
        tool_then (tool_result (ok_or (ErrorData_InternalError
            (''enable acknowledgement omitted service `'' @ service @ ''`'') None)
            (acknowledged_generation service acks))) (\<lambda>generation.
          tool_ok (Some generation,
            [\<lparr> ea_kind = EnsureActionKind_EnabledService,
               ea_detail = ''enabled service from generation '' @ show_u64 generation \<rparr>]))))
      else tool_ok (None, []))"

text \<open>The part of the handler that follows once the session is known.\<close>

definition ensure_in_session ::
  "tool_ctx \<Rightarrow> session_info \<Rightarrow> ensure_action list \<Rightarrow> tool_error + unit \<Rightarrow> asking \<Rightarrow> tool_error + response \<Rightarrow>
   health_wait \<Rightarrow> asking \<Rightarrow> string \<Rightarrow> nat option \<Rightarrow> usize option \<Rightarrow> ensure_service_ready_result tool_run"
where
  "ensure_in_session cx info actions opened earlier reply hw later service timeout_secs log_limit =
     (let timeout = wait_timeout timeout_secs;
          limit = clamp 1 MAX_DIAGNOSE_TAIL
                    (case log_limit of None \<Rightarrow> DEFAULT_DIAGNOSE_TAIL | Some n \<Rightarrow> n) in
      tool_then (tool_result (as_error_data cx opened)) (\<lambda>_.
      tool_then (tool_result (service_result cx service (snapshot_of cx earlier service))) (\<lambda>sn.
      if evaluate sn None = WaitOutcome_Healthy then
        tool_ok \<lparr> er_session_ref = session_ref_of info, er_service = service, er_actions = actions,
                  er_outcome = wait_result_healthy service (sn_run_generation sn), er_snapshot = sn,
                  er_diagnosis = None \<rparr>
      else case sn_retired sn of
        Some reason \<Rightarrow>
          tool_fail (error_data_of (tx_show_err cx)
            (ToolError_InvalidState (retired_service_message service reason)))
      | None \<Rightarrow>
      tool_then (enable_if_disabled cx sn reply service) (\<lambda>(newer_than, enabled).
      tool_then (tool_wait (waited_health cx hw service newer_than timeout)) (\<lambda>conclusion.
      tool_then (tool_result (diagnosis_if_needed cx later service conclusion limit)) (\<lambda>diagnosis.
        tool_ok \<lparr> er_session_ref = session_ref_of info, er_service = service,
                  er_actions = actions @ enabled @
                    [\<lparr> ea_kind = EnsureActionKind_Waited,
                       ea_detail = ''waited for service readiness up to '' @
                         decimal (timeout div NANOS_PER_SEC) @ ''s'' \<rparr>],
                  er_outcome = wait_result_from service timeout conclusion,
                  er_snapshot = conclusion_snapshot conclusion, er_diagnosis = diagnosis \<rparr>))))))"

definition ensure_service_ready ::
  "tool_ctx \<Rightarrow> (string option \<Rightarrow> tool_error + answering) \<Rightarrow> string option \<Rightarrow> start_result \<Rightarrow>
   (string option \<Rightarrow> tool_error + answering) \<Rightarrow> tool_error + unit \<Rightarrow> asking \<Rightarrow> tool_error + response \<Rightarrow>
   health_wait \<Rightarrow> asking \<Rightarrow> string \<Rightarrow> nat option \<Rightarrow> usize option \<Rightarrow> ensure_service_ready_result tool_run"
where
  "ensure_service_ready cx resolver session started again opened earlier reply hw later service
     timeout_secs log_limit =
     tool_then (session_to_drive cx resolver session started again) (\<lambda>((endpoint, info), actions).
       ensure_in_session cx info actions opened earlier reply hw later service timeout_secs log_limit)"

end
