(* ===== verification/Agent_Bundles_Facts.thy ===== *)
theory Agent_Bundles_Facts
  imports Agent_Bundles Agent_Wait_Facts "HOL-Library.Sublist"
begin

text \<open>
  What the bundled tools change and what they report of it. A run of a tool may do a list of effects, each
  at most once and in that order, and gives its answer with the effects it had.
\<close>

section \<open>Runs of tools\<close>

definition may_do :: "'a tool_run \<Rightarrow> tool_effect list \<Rightarrow> bool" where
  "may_do m effects \<longleftrightarrow> subseq (fst m) effects"

definition gives :: "'a tool_run \<Rightarrow> 'a \<Rightarrow> tool_effect list \<Rightarrow> bool" where
  "gives m v effects \<longleftrightarrow> m = (effects, Some (Inr v))"

lemma may_do_then:
  "may_do m xs \<Longrightarrow> (\<And>v. may_do (f v) ys) \<Longrightarrow> may_do (tool_then m f) (xs @ ys)"
  by (auto simp: may_do_def tool_then_def list_emb_append_mono list_emb_prefix split: option.splits sum.splits
      intro: subseq_order.trans)

lemma may_do_read:
  "may_do m [] \<Longrightarrow> (\<And>v. may_do (f v) ys) \<Longrightarrow> may_do (tool_then m f) ys"
  using may_do_then [of m "[]" f ys] by simp

lemma may_do_change:
  "may_do m xs \<Longrightarrow> (\<And>v. may_do (f v) []) \<Longrightarrow> may_do (tool_then m f) xs"
  using may_do_then [of m xs f "[]"] by simp

lemma may_do_steps:
  "may_do (tool_result r) xs" "may_do (tool_wait w) xs" "may_do (tool_ok v) xs" "may_do (tool_fail err) xs"
  by (simp_all add: may_do_def tool_result_def tool_wait_def tool_ok_def tool_fail_def)

lemma may_do_send: "may_do (tool_send req reply) [Effect_Request req]"
  by (simp add: may_do_def tool_send_def)

lemma may_do_start: "may_do (start_session_tool started) [Effect_StartSession]"
  by (simp add: may_do_def start_session_tool_def)

lemma may_do_cases:
  "(\<And>x y. may_do (f x y) xs) \<Longrightarrow> may_do (case p of (x, y) \<Rightarrow> f x y) xs"
  "(\<And>x y. may_do (h x y z) xs) \<Longrightarrow> may_do ((case p of (x, y) \<Rightarrow> h x y) z) xs"
  "(b \<Longrightarrow> may_do m xs) \<Longrightarrow> (\<not> b \<Longrightarrow> may_do n xs) \<Longrightarrow> may_do (if b then m else n) xs"
  "may_do m xs \<Longrightarrow> (\<And>v. may_do (g v) xs) \<Longrightarrow> may_do (case q of None \<Rightarrow> m | Some v \<Rightarrow> g v) xs"
  by (simp_all split: prod.split option.split)

lemmas may_do_rules = may_do_steps may_do_cases may_do_read [OF may_do_steps(1)] may_do_read [OF may_do_steps(2)]
  may_do_change [OF may_do_send] may_do_change [OF may_do_start]

lemma gives_then:
  "gives (tool_then m f) w effects \<longleftrightarrow>
     (\<exists>v xs ys. gives m v xs \<and> gives (f v) w ys \<and> effects = xs @ ys)"
proof (cases "snd m")
  case None
  then show ?thesis by (auto simp: gives_def tool_then_def)
next
  case (Some r)
  then show ?thesis by (cases r) (cases m, auto simp: gives_def tool_then_def prod_eq_iff)+
qed

lemma gives_steps:
  "gives (tool_result r) v effects \<longleftrightarrow> effects = [] \<and> r = Inr v"
  "gives (tool_wait q) v effects \<longleftrightarrow> effects = [] \<and> q = Some (Inr v)"
  "gives (tool_ok u) v effects \<longleftrightarrow> effects = [] \<and> u = v"
  "\<not> gives (tool_fail err) v effects"
  "gives (tool_send req r) v effects \<longleftrightarrow> effects = [Effect_Request req] \<and> r = Inr v"
  by (auto simp: gives_def tool_result_def tool_wait_def tool_ok_def tool_fail_def tool_send_def)

lemma gives_cases:
  "gives (if b then tool_fail err else m) v effects \<longleftrightarrow> \<not> b \<and> gives m v effects"
  "gives (case p of (x, y) \<Rightarrow> f x y) v effects \<longleftrightarrow> gives (f (fst p) (snd p)) v effects"
  by (simp_all add: gives_steps split: prod.split)

lemma tool_eval:
  "tool_then (effects, Some (Inr v)) f = (effects @ fst (f v), snd (f v))"
  "tool_then (tool_result (Inr v)) f = f v" "tool_then (tool_ok v) f = f v" "tool_then (tool_wait (Some (Inr v))) f = f v"
  "tool_then (tool_send req (Inr v)) f = (Effect_Request req # fst (f v), snd (f v))"
  "as_error_data cx (Inr x) = Inr x" "service_result cx service (Inr x) = Inr x"
  by (simp_all add: tool_then_def tool_result_def tool_ok_def tool_wait_def tool_send_def as_error_data_def
      service_result_def map_err_def)

lemma answer_gives: "m = (effects, answer) \<Longrightarrow> answer = Some (Inr v) \<longleftrightarrow> gives m v effects"
  by (auto simp: gives_def)

lemma results_Inr:
  "as_error_data cx r = Inr v \<longleftrightarrow> r = Inr v" "service_result cx service r = Inr v \<longleftrightarrow> r = Inr v"
  by (simp_all add: as_error_data_def service_result_def map_err_Inr)

lemma convert_accepted_Inr: "convert_accepted debug response = Inr acks \<longleftrightarrow> response = Response_Accepted acks"
  by (auto simp: convert_accepted_def convert_reply_def split: response.splits option.splits)

section \<open>Conclusions\<close>

lemma snapshot_of_id: "service_snapshot_of debug service reply = Inr sn \<Longrightarrow> sn_id sn = service"
  by (auto simp: service_snapshot_of_def and_then_def ok_or_def find_Some_iff split: sum.splits option.splits)

lemma wait_concludes:
  assumes "wait_for_health debug service newer_than started timeout subscribed turns reply = Some (Inr c)"
  shows "sn_id (conclusion_snapshot c) = service"
    and "\<exists>now. truthful newer_than (started + timeout) now c"
proof -
  from wait_for_health_turn [OF assms] obtain skipped t rest where "turns = skipped @ t # rest"
    and "list_all (inconclusive debug service (started + timeout) (classify_health newer_than)) skipped"
    and "case service_snapshot_of debug service (wn_reply t) of
       Inl err \<Rightarrow> (Inr c :: tool_error + wait_conclusion) = Inl err
     | Inr sn \<Rightarrow>
         (case (Inr c :: tool_error + wait_conclusion) of
            Inl err \<Rightarrow> sn_desired sn = Desired_Disabled
          | Inr c \<Rightarrow> conclusion_snapshot c = sn \<and> truthful newer_than (started + timeout) (wn_now t) c)"
    by (elim exE conjE) blast
  with snapshot_of_id [of debug service "wn_reply t"]
  show "sn_id (conclusion_snapshot c) = service" "\<exists>now. truthful newer_than (started + timeout) now c"
    by (auto split: sum.splits)
qed

lemma waited_health_Some:
  "waited_health cx hw service newer_than timeout = Some (Inr c) \<longleftrightarrow>
     wait_for_health (tx_debug cx) service newer_than (hw_started hw) timeout (hw_subscribed hw)
       (hw_turns hw) (hw_health_reply hw) = Some (Inr c)"
  by (auto simp: waited_health_def results_Inr)

text \<open>What a report may say of the run it is about.\<close>

definition honest_report :: "u64 option \<Rightarrow> service_snapshot \<Rightarrow> wait_report \<Rightarrow> bool" where
  "honest_report newer_than sn report \<longleftrightarrow>
     wr_service report = sn_id sn \<and>
     (case wr_status report of
        WaitStatus_Healthy \<Rightarrow>
          wr_generation report = Some (sn_run_generation sn) \<and> newer_run newer_than sn \<and>
          sn_execution sn = Execution_Running \<and>
          (sn_healthcheck_configured sn \<longrightarrow> sn_health sn = Some Health_Healthy)
      | WaitStatus_Exited \<Rightarrow>
          wr_run_generation report = Some (sn_run_generation sn) \<and> newer_run newer_than sn \<and>
          sn_execution sn = Execution_Exited \<and> wr_exit_code report = Some (sn_last_exit_code sn)
      | WaitStatus_Timeout \<Rightarrow>
          wr_run_generation report = Some (sn_run_generation sn) \<and> wr_execution report = Some (sn_execution sn))"

lemmas report_defs = honest_report_def wait_result_healthy_def wait_result_exited_def wait_result_timeout_def

lemma waited_report:
  assumes "waited_health cx hw service newer_than timeout = Some (Inr c)"
  shows "honest_report newer_than (conclusion_snapshot c) (wait_result_from service timeout c)"
    and "needs_diagnosis c \<longleftrightarrow> wr_status (wait_result_from service timeout c) \<noteq> WaitStatus_Healthy"
  using wait_concludes [OF assms [unfolded waited_health_Some]]
  by (cases c; auto simp: report_defs)+

lemma diagnosis_presence:
  "diagnosis_if_needed cx ask service c tail = Inr d \<Longrightarrow> d \<noteq> None \<longleftrightarrow> needs_diagnosis c"
  by (auto simp: diagnosis_if_needed_def and_then_def split: if_splits sum.splits)

text \<open>All that an answer says of the run it waited for.\<close>

lemma waited_answer:
  assumes "waited_health cx hw service newer_than timeout = Some (Inr c)"
    and "diagnosis_if_needed cx ask service c tail = Inr d"
  shows "sn_id (conclusion_snapshot c) = service \<and>
    honest_report newer_than (conclusion_snapshot c) (wait_result_from service timeout c) \<and>
    (d \<noteq> None \<longleftrightarrow> wr_status (wait_result_from service timeout c) \<noteq> WaitStatus_Healthy)"
  using wait_concludes(1) [OF assms(1) [unfolded waited_health_Some]] waited_report [OF assms(1)]
    diagnosis_presence [OF assms(2)] by blast

section \<open>Restart and wait\<close>

lemma effects_after_result:
  "fst (tool_then (tool_result x) f) \<noteq> [] \<longleftrightarrow> (\<exists>v. x = Inr v \<and> fst (f v) \<noteq> [])"
  by (cases x) (simp_all add: tool_then_def tool_result_def)

lemma effects_unless:
  "fst (if b then tool_fail err else m) \<noteq> [] \<longleftrightarrow> \<not> b \<and> fst m \<noteq> []"
  "fst (case p of (x, y) \<Rightarrow> f x y) \<noteq> [] \<longleftrightarrow> fst (f (fst p) (snd p)) \<noteq> []"
  by (simp_all add: tool_fail_def split: prod.split)

text \<open>
  C36. Restarting a service and waiting for it sends at most the one restart, and sends it only after the
  session has shown a snapshot of the service in which it is not disabled: for a disabled service, or one
  without a snapshot, nothing is sent, whatever the answer. An answer reports the generation that the
  session acknowledged and a snapshot of that service; it says healthy or exited only of a later run,
  which is running (and, with a health check, has passed it) or has exited with the code given; it has a
  diagnosis exactly if the run is not healthy, and no event of a run before the restart.
\<close>

theorem restart_reports_the_new_run:
  assumes "restart_service_and_wait cx resolved opened earlier reply hw later service timeout_secs log_limit =
    (effects, answer)"
  shows "subseq effects [Effect_Request (Request_Restart service)] \<and>
    (effects \<noteq> [] \<longrightarrow>
       (\<exists>sn. snapshot_of cx earlier service = Inr sn \<and> sn_desired sn \<noteq> Desired_Disabled)) \<and>
    (\<forall>r. answer = Some (Inr r) \<longrightarrow>
       effects = [Effect_Request (Request_Restart service)] \<and>
       (\<exists>sn acks.
          snapshot_of cx earlier service = Inr sn \<and> sn_desired sn \<noteq> Desired_Disabled \<and>
          reply = Inr (Response_Accepted acks) \<and>
          acknowledged_generation service acks = Some (rw_previous_generation r)) \<and>
       sn_id (rw_snapshot r) = service \<and> rw_run_generation r = sn_run_generation (rw_snapshot r) \<and>
       honest_report (Some (rw_previous_generation r)) (rw_snapshot r) (rw_outcome r) \<and>
       (rw_diagnosis r \<noteq> None \<longleftrightarrow> wr_status (rw_outcome r) \<noteq> WaitStatus_Healthy) \<and>
       list_all (\<lambda>ev. rw_previous_generation r \<le> se_run_generation ev) (rw_events r))"
proof -
  let ?run = "restart_service_and_wait cx resolved opened earlier reply hw later service timeout_secs log_limit"
  have "may_do ?run [Effect_Request (Request_Restart service)]"
    unfolding restart_service_and_wait_def Let_def
    by (intro may_do_rules)
  moreover have "\<exists>sn. snapshot_of cx earlier service = Inr sn \<and> sn_desired sn \<noteq> Desired_Disabled"
    if "fst ?run \<noteq> []"
    using that unfolding restart_service_and_wait_def Let_def effects_after_result effects_unless results_Inr
    by blast
  moreover have "effects = [Effect_Request (Request_Restart service)] \<and>
    (\<exists>sn acks.
       snapshot_of cx earlier service = Inr sn \<and> sn_desired sn \<noteq> Desired_Disabled \<and>
       reply = Inr (Response_Accepted acks) \<and>
       acknowledged_generation service acks = Some (rw_previous_generation r)) \<and>
    sn_id (rw_snapshot r) = service \<and> rw_run_generation r = sn_run_generation (rw_snapshot r) \<and>
    honest_report (Some (rw_previous_generation r)) (rw_snapshot r) (rw_outcome r) \<and>
    (rw_diagnosis r \<noteq> None \<longleftrightarrow> wr_status (rw_outcome r) \<noteq> WaitStatus_Healthy) \<and>
    list_all (\<lambda>ev. rw_previous_generation r \<le> se_run_generation ev) (rw_events r)"
    (is ?statement) if "answer = Some (Inr r)" for r
  proof -
    have "gives ?run r effects" using assms that by (simp add: gives_def)
    then show ?statement
      unfolding restart_service_and_wait_def Let_def
      by (simp add: gives_then gives_steps gives_cases results_Inr ok_or_Inr convert_accepted_Inr)
        (elim exE conjE, frule (1) waited_answer, auto simp: list_all_iff)
  qed
  ultimately show ?thesis using assms by (simp add: may_do_def)
qed

section \<open>Ensure that a service is ready\<close>

definition performed :: "ensure_action_kind \<Rightarrow> ensure_service_ready_result \<Rightarrow> bool" where
  "performed k r \<longleftrightarrow> k \<in> ea_kind ` set (er_actions r)"

definition no_session :: "tool_error + answering \<Rightarrow> bool" where
  "no_session found \<longleftrightarrow> (\<exists>dg. found = Inl (ToolError_NoSession dg))"

lemma session_to_drive_may_do:
  "may_do (session_to_drive cx resolver session started again)
     (if session = None \<and> no_session (resolver session) then [Effect_StartSession] else [])"
  by (auto simp: session_to_drive_def no_session_def Let_def split: sum.split tool_error.split
      intro!: may_do_rules)

lemma enable_may_do:
  "may_do (enable_if_disabled cx sn reply service) [Effect_Request (Request_Enable service)]"
  unfolding enable_if_disabled_def by (intro may_do_rules)

lemma session_to_drive_gives:
  assumes "gives (session_to_drive cx resolver session started again) m effects"
  shows "effects = [] \<and> snd m = [] \<and> resolver session = Inr (fst m) \<or>
    effects = [Effect_StartSession] \<and> map ea_kind (snd m) = [EnsureActionKind_StartedSession] \<and>
    session = None \<and> no_session (resolver session)"
  using assms
  by (auto simp: session_to_drive_def no_session_def Let_def gives_then gives_steps start_session_tool_def gives_def [of "([_], _)"]
      split: sum.splits tool_error.splits if_splits)

lemma enable_gives:
  assumes "gives (enable_if_disabled cx sn reply service) m effects"
  shows "effects = [] \<and> m = (None, []) \<and> sn_desired sn \<noteq> Desired_Disabled \<or>
    effects = [Effect_Request (Request_Enable service)] \<and> fst m \<noteq> None \<and> sn_desired sn = Desired_Disabled \<and>
    map ea_kind (snd m) = [EnsureActionKind_EnabledService]"
  using assms by (auto simp: enable_if_disabled_def gives_then gives_steps split: if_splits)

lemma healthy_report:
  "evaluate sn None = WaitOutcome_Healthy \<Longrightarrow>
   honest_report None sn (wait_result_healthy (sn_id sn) (sn_run_generation sn))"
  by (auto simp: report_defs evaluate_def newer_run_ready split: if_splits execution.splits)

text \<open>
  What an answer may claim, with the effects it had, whether a session was found (\<open>found\<close>) and the
  snapshot of the service before anything was done to it (\<open>before\<close>).
\<close>

definition ensured ::
  "string \<Rightarrow> bool \<Rightarrow> service_snapshot \<Rightarrow> tool_effect list \<Rightarrow> ensure_service_ready_result \<Rightarrow> bool"
where
  "ensured service found before effects r \<longleftrightarrow>
     subseq (map ea_kind (er_actions r))
       [EnsureActionKind_StartedSession, EnsureActionKind_EnabledService, EnsureActionKind_Waited] \<and>
     (performed EnsureActionKind_StartedSession r \<longleftrightarrow> \<not> found) \<and>
     (performed EnsureActionKind_Waited r \<longleftrightarrow> evaluate before None \<noteq> WaitOutcome_Healthy) \<and>
     (performed EnsureActionKind_EnabledService r \<longleftrightarrow>
        evaluate before None \<noteq> WaitOutcome_Healthy \<and> sn_desired before = Desired_Disabled) \<and>
     effects =
       (if performed EnsureActionKind_StartedSession r then [Effect_StartSession] else []) @
       (if performed EnsureActionKind_EnabledService r then [Effect_Request (Request_Enable service)] else []) \<and>
     sn_id (er_snapshot r) = service \<and>
     (\<not> performed EnsureActionKind_Waited r \<longrightarrow>
        er_snapshot r = before \<and> wr_status (er_outcome r) = WaitStatus_Healthy) \<and>
     (\<exists>newer_than.
        honest_report newer_than (er_snapshot r) (er_outcome r) \<and>
        (performed EnsureActionKind_EnabledService r \<longleftrightarrow> newer_than \<noteq> None)) \<and>
     (er_diagnosis r \<noteq> None \<longleftrightarrow> wr_status (er_outcome r) \<noteq> WaitStatus_Healthy)"

lemma no_session_Inr [simp]: "\<not> no_session (Inr found)"
  by (simp add: no_session_def)

lemma ensured_at_once:
  assumes "snapshot_of cx earlier service = Inr sn" and "evaluate sn None = WaitOutcome_Healthy"
    and "gives (session_to_drive cx resolver session started again) (found, actions) effects"
  shows "ensured service (\<not> no_session (resolver session)) sn effects
    \<lparr> er_session_ref = ref, er_service = service, er_actions = actions,
      er_outcome = wait_result_healthy service (sn_run_generation sn), er_snapshot = sn, er_diagnosis = None \<rparr>"
  using healthy_report [OF assms(2)] snapshot_of_id [OF assms(1) [unfolded snapshot_of_def]]
    session_to_drive_gives [OF assms(3)] assms(2)
  by (auto simp: ensured_def performed_def wait_result_healthy_def)

lemma ensured_after_wait:
  assumes "waited_health cx hw service (fst m) timeout = Some (Inr c)"
    and "diagnosis_if_needed cx later service c tail = Inr d"
    and "gives (session_to_drive cx resolver session started again) (found, actions) effects"
    and "gives (enable_if_disabled cx sn reply service) m later_effects"
    and "evaluate sn None \<noteq> WaitOutcome_Healthy"
  shows "ensured service (\<not> no_session (resolver session)) sn (effects @ later_effects)
    \<lparr> er_session_ref = ref, er_service = service, 
      er_actions = actions @ snd m @ [\<lparr> ea_kind = EnsureActionKind_Waited, ea_detail = detail \<rparr>],
      er_outcome = wait_result_from service timeout c, er_snapshot = conclusion_snapshot c, er_diagnosis = d \<rparr>"
  using waited_answer [OF assms(1,2)] session_to_drive_gives [OF assms(3)] enable_gives [OF assms(4)] assms(5)
  by (elim disjE conjE) (auto simp: ensured_def performed_def)

lemma ensure_in_session_may_do:
  "may_do (ensure_in_session cx info actions opened earlier reply hw later service timeout_secs log_limit)
     [Effect_Request (Request_Enable service)]"
  unfolding ensure_in_session_def Let_def by (intro may_do_rules may_do_change [OF enable_may_do])

text \<open>An answer comes at once or after a wait.\<close>

lemma ensure_in_session_gives:
  assumes "gives (ensure_in_session cx info actions opened earlier reply hw later service timeout_secs log_limit) r ys"
  shows "\<exists>sn. snapshot_of cx earlier service = Inr sn \<and>
    (evaluate sn None = WaitOutcome_Healthy \<and> ys = [] \<and>
       r = \<lparr> er_session_ref = session_ref_of info, er_service = service, er_actions = actions,
         er_outcome = wait_result_healthy service (sn_run_generation sn), er_snapshot = sn, er_diagnosis = None \<rparr> \<or>
     evaluate sn None \<noteq> WaitOutcome_Healthy \<and>
       (\<exists>m c tail d detail.
          gives (enable_if_disabled cx sn reply service) m ys \<and>
          waited_health cx hw service (fst m) (wait_timeout timeout_secs) = Some (Inr c) \<and>
          diagnosis_if_needed cx later service c tail = Inr d \<and>
          r = \<lparr> er_session_ref = session_ref_of info, er_service = service,
            er_actions = actions @ snd m @ [\<lparr> ea_kind = EnsureActionKind_Waited, ea_detail = detail \<rparr>],
            er_outcome = wait_result_from service (wait_timeout timeout_secs) c,
            er_snapshot = conclusion_snapshot c, er_diagnosis = d \<rparr>))"
proof -
  from assms obtain sn where sn: "snapshot_of cx earlier service = Inr sn"
    unfolding ensure_in_session_def Let_def gives_then gives_steps results_Inr by blast
  show ?thesis
  proof (cases "evaluate sn None = WaitOutcome_Healthy")
    case True
    then show ?thesis
      using assms sn by (simp add: ensure_in_session_def gives_then gives_steps results_Inr Let_def)
  next
    case False
    then have "sn_retired sn = None"
      using assms sn by (auto simp: ensure_in_session_def gives_then gives_steps results_Inr Let_def
          split: option.splits)
    then show ?thesis
      using assms sn False
      by (clarsimp simp: ensure_in_session_def gives_then gives_steps gives_cases results_Inr Let_def
          simp del: split_paired_Ex split_paired_All) (rule exI, rule conjI, assumption, auto)
  qed
qed

text \<open>
  C37. Ensuring that a service is ready starts a session at most once, and only if the caller gave no
  session and none was found, and then sends at most one request that changes something, which enables
  the service. An answer lists exactly what was done, in order: a start if no session was found, an
  enabling if the service was disabled and not healthy, a wait if it was not healthy when it was first
  looked at, and nothing else. Without a wait it is the snapshot of a service that is healthy already;
  after a wait it says healthy or exited only of such a run, and of a later one if the service was
  enabled, and has a diagnosis exactly if the run is not healthy. A session that the environment names
  counts as found by the selector, not as given by the caller (\<^verbatim>\<open>environment_selector_starts\<close> below).
\<close>

theorem ensure_reports_what_it_did:
  assumes "ensure_service_ready cx resolver session started again opened earlier reply hw later
    service timeout_secs log_limit = (effects, answer)"
  shows "subseq effects
      ((if session = None \<and> no_session (resolver session) then [Effect_StartSession] else []) @
       [Effect_Request (Request_Enable service)]) \<and>
    (\<forall>r. answer = Some (Inr r) \<longrightarrow>
       (\<exists>before. snapshot_of cx earlier service = Inr before \<and>
          ensured service (\<not> no_session (resolver session)) before effects r))"
proof -
  let ?run = "ensure_service_ready cx resolver session started again opened earlier reply hw later
    service timeout_secs log_limit"
  have "may_do ?run ((if session = None \<and> no_session (resolver session) then [Effect_StartSession] else []) @
          [Effect_Request (Request_Enable service)])"
    unfolding ensure_service_ready_def
    by (rule may_do_then [OF session_to_drive_may_do]) (intro may_do_rules ensure_in_session_may_do)
  moreover have "\<exists>before. snapshot_of cx earlier service = Inr before \<and>
      ensured service (\<not> no_session (resolver session)) before effects r" if "answer = Some (Inr r)" for r
  proof -
    have "gives ?run r effects" using assms that by (simp add: gives_def)
    then obtain m xs ys where drive: "gives (session_to_drive cx resolver session started again) m xs"
      and rest: "gives (ensure_in_session cx (snd (fst m)) (snd m) opened earlier reply hw later service
        timeout_secs log_limit) r ys" and effects: "effects = xs @ ys"
      unfolding ensure_service_ready_def gives_then case_prod_unfold by blast
    from drive have drive: "gives (session_to_drive cx resolver session started again) (fst m, snd m) xs"
      by simp
    obtain sn where sn: "snapshot_of cx earlier service = Inr sn"
      using ensure_in_session_gives [OF rest] by blast
    have "ensured service (\<not> no_session (resolver session)) sn effects r"
    proof (cases "evaluate sn None = WaitOutcome_Healthy")
      case True
      then show ?thesis
        using ensure_in_session_gives [OF rest] sn effects ensured_at_once [OF sn True drive] by auto
    next
      case False
      then show ?thesis
        using ensure_in_session_gives [OF rest] sn effects ensured_after_wait [OF _ _ drive _ False] by auto
    qed
    then show ?thesis using sn by blast
  qed
  ultimately show ?thesis using assms by (simp add: may_do_def)
qed

text \<open>
  The comment in \<^verbatim>\<open>ensure_service_ready\<close> wants a start only for the session of the working directory,
  so that no session of another project than the one named is started and driven. But only the argument
  counts as naming one: if \<^verbatim>\<open>MICROMUX_SESSION\<close> names a session that is not found, one is started.
\<close>

lemma environment_selector_starts:
  assumes "te_session env = Some raw" and "no_session (resolve env os later_os statuses (Some raw))"
  shows "Effect_StartSession \<in> set (fst (ensure_service_ready cx (resolve env os later_os statuses) None
      started again opened earlier reply hw later service timeout_secs log_limit))"
    and "fst (ensure_service_ready cx (resolve env os later_os statuses) (Some raw)
      started again opened earlier reply hw later service timeout_secs log_limit) = []"
proof -
  have same: "resolve env os later_os statuses None = resolve env os later_os statuses (Some raw)"
    using assms(1) by (simp add: resolve_def selector_with_environment_fallback_def)
  obtain dg where dg: "resolve env os later_os statuses (Some raw) = Inl (ToolError_NoSession dg)"
    using assms(2) by (auto simp: no_session_def)
  have begins: "set (fst m) \<subseteq> set (fst (tool_then m f))" for m :: "'x tool_run" and f :: "'x \<Rightarrow> 'y tool_run"
    by (auto simp: tool_then_def split: option.split sum.split)
  have "Effect_StartSession \<in> set (fst (session_to_drive cx (resolve env os later_os statuses) None started again))"
    using begins [of "start_session_tool started"]
    by (auto simp: session_to_drive_def same dg start_session_tool_def)
  then show "Effect_StartSession \<in> set (fst (ensure_service_ready cx (resolve env os later_os statuses) None
      started again opened earlier reply hw later service timeout_secs log_limit))"
    unfolding ensure_service_ready_def using begins by blast
  show "fst (ensure_service_ready cx (resolve env os later_os statuses) (Some raw)
      started again opened earlier reply hw later service timeout_secs log_limit) = []"
    by (simp add: ensure_service_ready_def session_to_drive_def dg tool_fail_def tool_then_def Let_def)
qed

section \<open>A session with one service\<close>

definition web_tools :: tool_ctx where
  "web_tools =
     \<lparr> tx_show_err = (\<lambda>_. []), tx_debug = (\<lambda>_. []), tx_enrich = (\<lambda>_ err. err),
       tx_lib = \<lparr> ll_parse = (\<lambda>_. None), ll_stream = (\<lambda>_. None), ll_json = (\<lambda>_. []),
                  ll_strip_ansi = (\<lambda>text. text), ll_rfc3339 = (\<lambda>_. None), ll_date = (\<lambda>_. None) \<rparr>,
       tx_fmt = (\<lambda>_. []), tx_ports = (\<lambda>_. []) \<rparr>"

definition web_session :: answering where
  "web_session = (undefined,
     \<lparr> si_protocol_version = undefined, si_id = ''0a'', si_pid = 7, si_start_time = 0, si_name = ''app'',
       si_working_dir = ''/srv'', si_config_path = ''/srv/micromux.yaml'', si_services = [],
       si_services_truncated = False, si_micromux_version = ''1'', si_capabilities = None \<rparr>)"

definition web_asked :: "service_snapshot \<Rightarrow> asking" where
  "web_asked sn req =
     (case req of
        Request_ListServices \<Rightarrow> Inr (Response_Services [sn])
      | Request_ListLogRuns service \<Rightarrow> Inr (Response_LogRuns [])
      | Request_GetEvents service start tail \<Rightarrow> Inr (Response_Events [] False)
      | _ \<Rightarrow> Inr (Response_Logs [] False None))"

definition web_wait :: health_wait where
  "web_wait = \<lparr> hw_started = 0, hw_subscribed = False, hw_turns = slow_start,
                hw_health_reply = Inl ToolError_Unsupported \<rparr>"

abbreviation web_before :: asking where
  "web_before \<equiv> web_asked (job Execution_Running (Some Health_Healthy) 3)"

abbreviation web_after :: asking where
  "web_after \<equiv> web_asked (job Execution_Running (Some Health_Healthy) 4)"

lemma web_asked_eval:
  "web_asked sn Request_ListServices = Inr (Response_Services [sn])"
  "web_asked sn (Request_ListLogRuns service) = Inr (Response_LogRuns [])"
  "web_asked sn (Request_GetEvents service start tail) = Inr (Response_Events [] False)"
  "web_asked sn (Request_GetLogs service generation tail) = Inr (Response_Logs [] False None)"
  "web_asked sn (Request_FollowLogs service generation start) = Inr (Response_Logs [] False None)"
  by (simp_all add: web_asked_def)

lemma job_named: "sn_id (job e h g) = ''web''"
  by (simp add: job_def snapshot_initial_def)

lemma web_snapshot: "snapshot_of web_tools (web_asked (job e h g)) ''web'' = Inr (job e h g)"
  by (simp add: snapshot_of_def web_tools_def web_asked_eval service_snapshot_of_def convert_services_def
      convert_reply_def and_then_def ok_or_def job_named)

lemma web_stopped:
  "snapshot_of web_tools (web_asked ((job e h g)\<lparr> sn_desired := d \<rparr>)) ''web'' = Inr ((job e h g)\<lparr> sn_desired := d \<rparr>)"
  by (simp add: snapshot_of_def web_tools_def web_asked_eval service_snapshot_of_def convert_services_def
      convert_reply_def and_then_def ok_or_def job_named)

lemma job_retired: "sn_retired (job e h g) = None"
  by (simp add: job_def snapshot_initial_def)

lemma web_cursors:
  "current_cursors (conn_of (tx_debug web_tools) (web_asked (job e h g))) = Inr [(''web'', 0)]"
  by (simp add: current_cursors_def conn_of_def web_asked_eval convert_services_def convert_reply_def
      and_then_def current_service_cursor_def convert_log_runs_def convert_logs_def job_named last_of_def)

lemma web_waited:
  "waited_health web_tools web_wait ''web'' (Some 3) (from_secs 60) =
     Some (Inr (WaitConclusion_Healthy (job Execution_Running (Some Health_Healthy) 4)))"
  by (simp add: waited_health_def web_wait_def wait_for_health_def job_eval service_result_def map_err_def
      from_secs_def NANOS_PER_SEC_def)

lemma web_logs: "compact_logs web_tools (web_asked sn) ''web'' cursor limit = Inr ([], False)"
  by (simp add: compact_logs_def compact_logs_since_def conn_of_def web_asked_eval convert_logs_def
      convert_reply_def and_then_def service_result_def map_err_def shape_def Let_def default_shape_def)

lemma web_events: "service_events_tail web_tools (web_asked sn) ''web'' = Inr []"
  by (simp add: service_events_tail_def as_error_data_def service_result_def map_err_def web_asked_eval
      convert_events_def convert_reply_def and_then_def)

lemma web_restarted:
  "\<exists>r. restart_service_and_wait web_tools (Inr web_session) (Inr ()) web_before
     (Inr (Response_Accepted [\<lparr> ca_service = ''web'', ca_observed_generation = 3 \<rparr>])) web_wait web_after
     ''web'' None None = ([Effect_Request (Request_Restart ''web'')], Some (Inr r))"
  by (simp add: restart_service_and_wait_def wait_timeout_def DEFAULT_WAIT_TIMEOUT_SECS_def
      MAX_WAIT_TIMEOUT_SECS_def web_session_def tool_eval web_snapshot job_fields web_cursors web_waited
      convert_accepted_def convert_reply_def acknowledged_generation_def ok_or_def web_logs web_events
      diagnosis_if_needed_def tool_ok_def Let_def)

text \<open>The restart of a healthy service is answered with its next run, without a diagnosis.\<close>

theorem restart_reports_the_new_run_witness:
  "\<exists>r. restart_service_and_wait web_tools (Inr web_session) (Inr ()) web_before
     (Inr (Response_Accepted [\<lparr> ca_service = ''web'', ca_observed_generation = 3 \<rparr>])) web_wait web_after
     ''web'' None None = ([Effect_Request (Request_Restart ''web'')], Some (Inr r)) \<and>
     rw_previous_generation r = 3 \<and> honest_report (Some 3) (rw_snapshot r) (rw_outcome r)"
proof -
  from web_restarted obtain r where r: "restart_service_and_wait web_tools (Inr web_session) (Inr ()) web_before
     (Inr (Response_Accepted [\<lparr> ca_service = ''web'', ca_observed_generation = 3 \<rparr>])) web_wait web_after
     ''web'' None None = ([Effect_Request (Request_Restart ''web'')], Some (Inr r))" by blast
  from restart_reports_the_new_run [OF r] r show ?thesis by (auto simp: acknowledged_generation_def)
qed

lemma web_enabled:
  "enable_if_disabled web_tools ((job e h g)\<lparr> sn_desired := Desired_Disabled \<rparr>)
     (Inr (Response_Accepted [\<lparr> ca_service = ''web'', ca_observed_generation = 3 \<rparr>])) ''web'' =
   ([Effect_Request (Request_Enable ''web'')], Some (Inr (Some 3,
      [\<lparr> ea_kind = EnsureActionKind_EnabledService,
         ea_detail = ''enabled service from generation '' @ show_u64 3 \<rparr>])))"
  by (simp add: enable_if_disabled_def tool_eval convert_accepted_def convert_reply_def
      acknowledged_generation_def ok_or_def) (simp add: tool_ok_def)

lemma web_timeout: "wait_timeout None = from_secs 60"
  by (simp add: wait_timeout_def DEFAULT_WAIT_TIMEOUT_SECS_def MAX_WAIT_TIMEOUT_SECS_def)

lemma web_ensured:
  "\<exists>r. ensure_service_ready web_tools (\<lambda>_. Inr web_session) None (Start_Spawned None) (\<lambda>_. Inr web_session) (Inr ())
     (web_asked ((job Execution_Exited None 3)\<lparr> sn_desired := Desired_Disabled \<rparr>))
     (Inr (Response_Accepted [\<lparr> ca_service = ''web'', ca_observed_generation = 3 \<rparr>])) web_wait web_after
     ''web'' None None = ([Effect_Request (Request_Enable ''web'')], Some (Inr r)) \<and>
     map ea_kind (er_actions r) = [EnsureActionKind_EnabledService, EnsureActionKind_Waited]"
  by (simp add: ensure_service_ready_def ensure_in_session_def session_to_drive_def web_session_def tool_eval web_stopped web_enabled
      job_retired web_timeout web_waited evaluate_def diagnosis_if_needed_def Let_def)
    (simp add: tool_ok_def)

theorem ensure_reports_what_it_did_witness:
  "\<exists>r. ensure_service_ready web_tools (\<lambda>_. Inr web_session) None (Start_Spawned None) (\<lambda>_. Inr web_session) (Inr ())
     (web_asked ((job Execution_Exited None 3)\<lparr> sn_desired := Desired_Disabled \<rparr>))
     (Inr (Response_Accepted [\<lparr> ca_service = ''web'', ca_observed_generation = 3 \<rparr>])) web_wait web_after
     ''web'' None None = ([Effect_Request (Request_Enable ''web'')], Some (Inr r)) \<and>
     ensured ''web'' True ((job Execution_Exited None 3)\<lparr> sn_desired := Desired_Disabled \<rparr>)
       [Effect_Request (Request_Enable ''web'')] r \<and> performed EnsureActionKind_Waited r"
proof -
  from web_ensured obtain r where
    r: "ensure_service_ready web_tools (\<lambda>_. Inr web_session) None (Start_Spawned None) (\<lambda>_. Inr web_session) (Inr ())
     (web_asked ((job Execution_Exited None 3)\<lparr> sn_desired := Desired_Disabled \<rparr>))
     (Inr (Response_Accepted [\<lparr> ca_service = ''web'', ca_observed_generation = 3 \<rparr>])) web_wait web_after
     ''web'' None None = ([Effect_Request (Request_Enable ''web'')], Some (Inr r))"
    and k: "map ea_kind (er_actions r) = [EnsureActionKind_EnabledService, EnsureActionKind_Waited]" by (elim exE conjE) (rule that)
  have "set (map ea_kind (er_actions r)) = {EnsureActionKind_EnabledService, EnsureActionKind_Waited}"
    unfolding k by simp
  then have "performed EnsureActionKind_Waited r" by (auto simp: performed_def)
  moreover have "ensured ''web'' True ((job Execution_Exited None 3)\<lparr> sn_desired := Desired_Disabled \<rparr>)
      [Effect_Request (Request_Enable ''web'')] r"
    using ensure_reports_what_it_did [OF r, THEN conjunct2, THEN spec, THEN mp, OF refl]
    by (simp add: web_stopped)
  ultimately show ?thesis using r by (intro exI conjI)
qed

end
