(* ===== verification/Agent_Start_Facts.thy ===== *)
theory Agent_Start_Facts
  imports Agent_Start Session_Select_Facts
begin

text \<open>
  Starting sessions for agents: the permits bound how many processes are spawned, and a start never
  leaves a spawned process behind that is not the session it reports.
\<close>

section \<open>Permits\<close>

text \<open>The times of the requests that get their permits, with what else the requests find.\<close>

fun granted_starts :: "instant list \<Rightarrow> (bool \<times> bool \<times> instant) list \<Rightarrow> instant list" where
  "granted_starts returns [] = []"
| "granted_starts returns ((allowed, busy, now) # reqs) =
     (case acquire_start allowed busy now returns of
        Inl err \<Rightarrow> granted_starts returns reqs
      | Inr returns' \<Rightarrow> now # granted_starts returns' reqs)"

text \<open>Among the permits that are out, those taken since a time.\<close>

definition permits_since :: "instant \<Rightarrow> instant list \<Rightarrow> instant list" where
  "permits_since t returns = filter (\<lambda>r. t + SESSION_START_WINDOW \<le> r) returns"

lemma window_pos: "0 < SESSION_START_WINDOW"
  by (simp add: SESSION_START_WINDOW_def from_secs_def NANOS_PER_SEC_def)

lemma permits_kept:
  "t \<le> now \<Longrightarrow> now < t + SESSION_START_WINDOW \<Longrightarrow>
   permits_since t (filter (\<lambda>r. now < r) returns) = permits_since t returns"
  unfolding permits_since_def filter_filter by (rule filter_cong) auto

lemma granted_starts_from:
  "\<forall>(a, b, n) \<in> set reqs. now \<le> n \<Longrightarrow> \<forall>g \<in> set (granted_starts returns reqs). now \<le> g"
  by (induction reqs arbitrary: returns) (auto split: sum.splits)

lemma granted_in_window:
  assumes "sorted (map (\<lambda>(allowed, busy, now). now) reqs)"
    and "length (permits_since t returns) \<le> MAX_SESSION_STARTS_PER_WINDOW"
  shows "length (permits_since t returns) +
      length (filter (\<lambda>g. t \<le> g \<and> g < t + SESSION_START_WINDOW) (granted_starts returns reqs)) \<le>
    MAX_SESSION_STARTS_PER_WINDOW"
  using assms
proof (induction reqs arbitrary: returns)
  case (Cons req reqs)
  obtain allowed busy now where req: "req = (allowed, busy, now)" by (cases req)
  have sorted: "sorted (map (\<lambda>(allowed, busy, now). now) reqs)"
    and later: "\<forall>(a, b, n) \<in> set reqs. now \<le> n"
    using Cons.prems(1) req by auto
  show ?case
  proof (cases "acquire_start allowed busy now returns")
    case (Inl err)
    then show ?thesis using Cons.IH [OF sorted Cons.prems(2)] req by simp
  next
    case (Inr returns')
    let ?held = "filter (\<lambda>r. now < r) returns"
    have held: "length ?held < MAX_SESSION_STARTS_PER_WINDOW" "returns' = ?held @ [now + SESSION_START_WINDOW]"
      using Inr by (simp_all add: acquire_start_def Let_def split: if_splits)
    have few: "length (permits_since t ?held) \<le> length ?held"
      unfolding permits_since_def by (rule length_filter_le)
    consider (before) "now < t" | (inside) "t \<le> now" "now < t + SESSION_START_WINDOW"
      | (beyond) "t + SESSION_START_WINDOW \<le> now" by linarith
    then show ?thesis
    proof cases
      case before
      have "permits_since t ?held = permits_since t returns"
        unfolding permits_since_def filter_filter using before by (intro filter_cong) auto
      then have p: "permits_since t returns' = permits_since t returns"
        using held(2) before by (simp add: permits_since_def)
      then show ?thesis using Cons.IH [of returns'] sorted Cons.prems(2) req Inr before by simp
    next
      case inside
      then have "permits_since t returns' = permits_since t returns @ [now + SESSION_START_WINDOW]"
        using held(2) permits_kept [OF inside, of returns] by (simp add: permits_since_def)
      moreover from this have "length (permits_since t returns') \<le> MAX_SESSION_STARTS_PER_WINDOW"
        using held(1) few permits_kept [OF inside, of returns] by simp
      ultimately show ?thesis using Cons.IH [of returns'] sorted req Inr inside by simp
    next
      case beyond
      have "filter (\<lambda>g. t \<le> g \<and> g < t + SESSION_START_WINDOW) (granted_starts returns' reqs) = []"
        using granted_starts_from [OF later] beyond by (fastforce simp: filter_empty_conv)
      then show ?thesis using Cons.prems(2) req Inr beyond by simp
    qed
  qed
qed simp

text \<open>
  An agent cannot spawn sessions without bound: whatever it asks for and when, without the
  permission of the operator no start gets through, and with it at most eight in any sixty seconds.
\<close>

theorem session_starts_bounded:
  assumes "sorted (map (\<lambda>(allowed, busy, now). now) reqs)"
  shows "length (filter (\<lambda>g. t \<le> g \<and> g < t + SESSION_START_WINDOW) (granted_starts [] reqs)) \<le> 8 \<and>
    ((\<forall>(allowed, busy, now) \<in> set reqs. \<not> allowed \<or> busy) \<longrightarrow> granted_starts [] reqs = [])"
proof
  show "length (filter (\<lambda>g. t \<le> g \<and> g < t + SESSION_START_WINDOW) (granted_starts [] reqs)) \<le> 8"
    using granted_in_window [OF assms, of t "[]"] by (simp add: permits_since_def MAX_SESSION_STARTS_PER_WINDOW_def)
  show "(\<forall>(allowed, busy, now) \<in> set reqs. \<not> allowed \<or> busy) \<longrightarrow> granted_starts [] reqs = []"
    by (induction reqs) (auto simp: acquire_start_def)
qed

text \<open>A ninth request within the minute is turned away; one after it is not.\<close>

definition eager_requests :: "(bool \<times> bool \<times> instant) list" where
  "eager_requests = replicate 9 (True, False, 1) @ [(True, False, 1 + SESSION_START_WINDOW)]"

theorem session_starts_bounded_witness:
  "length (filter (\<lambda>g. 0 \<le> g \<and> g < 0 + SESSION_START_WINDOW) (granted_starts [] eager_requests)) \<le> 8 \<and>
   granted_starts [] eager_requests = replicate 8 1 @ [1 + SESSION_START_WINDOW]"
proof -
  have "sorted (map (\<lambda>(allowed, busy, now). now) eager_requests)"
    by (simp add: eager_requests_def sorted_append)
  moreover have "granted_starts [] eager_requests = replicate 8 1 @ [1 + SESSION_START_WINDOW]"
    using window_pos
    by (simp add: eager_requests_def numeral_eq_Suc acquire_start_def MAX_SESSION_STARTS_PER_WINDOW_def Let_def)
  ultimately show ?thesis using session_starts_bounded [of eager_requests 0] by simp
qed

section \<open>The spawned process\<close>

lemma reachable_start:
  assumes "reachable_session_for_start os endpoints config_path child_pid = Inr (Some (started, info))"
  shows "\<exists>ep. answers os (set endpoints) ep info" and "started \<longleftrightarrow> child_pid = Some (si_pid info)"
    and "answers os (set endpoints) ep' info' \<Longrightarrow> is_same_instance info info'"
proof -
  let ?us = "unique_answering_session_probes (probe_endpoints os endpoints)"
  obtain ep where us: "?us = [(ep, info)]" and started: "started \<longleftrightarrow> child_pid = Some (si_pid info)"
    using assms by (auto simp: reachable_session_for_start_def Let_def split: list.splits if_splits)
  have "(ep, info) \<in> set (answering_session_probes (probe_endpoints os endpoints))"
    using unique_sessions(2) [of "(ep, info)" "probe_endpoints os endpoints"] us by simp
  then show "\<exists>ep. answers os (set endpoints) ep info" by (auto simp: answering_probes answers_def)
  show "started \<longleftrightarrow> child_pid = Some (si_pid info)" by (fact started)
  assume "answers os (set endpoints) ep' info'"
  then have "(ep', info') \<in> set (answering_session_probes (probe_endpoints os endpoints))"
    by (simp add: answering_probes answers_def)
  then show "is_same_instance info info'"
    using unique_sessions(3) [of "(ep', info')" "probe_endpoints os endpoints"] us by simp
qed

text \<open>What an outcome says of the session it reports and of the spawned process.\<close>

definition outcome_true :: "control_endpoint list \<Rightarrow> start_poll \<Rightarrow> start_outcome \<Rightarrow> bool" where
  "outcome_true endpoints p out \<longleftrightarrow>
     (case so_result out of
        Inr report \<Rightarrow>
          (\<exists>ep info. answers (pl_os p) (set endpoints) ep info \<and>
             (\<forall>ep' info'. answers (pl_os p) (set endpoints) ep' info' \<longrightarrow> is_same_instance info info') \<and>
             report = start_session_report info (rs_started report) \<and>
             (rs_started report \<longleftrightarrow> so_exited out = None \<and> pl_child_pid p = Some (si_pid info))) \<and>
          (so_killed out \<longleftrightarrow> so_exited out = None \<and> \<not> rs_started report)
      | Inl err \<Rightarrow> so_killed out \<longleftrightarrow> so_exited out = None)"

lemma report_started [simp]: "rs_started (start_session_report info started) = started"
  by (simp add: start_session_report_def already_running_report_def)

lemma start_loop_outcome:
  "start_loop error_data failure_message endpoints config_path deadline child_exit polls = Some out \<Longrightarrow>
   \<exists>p \<in> set polls. outcome_true endpoints p out"
proof (induction polls arbitrary: deadline child_exit)
  case (Cons p ps)
  obtain ce dl where ob: "observe_exit p child_exit deadline = (ce, dl)" by fastforce
  let ?pid = "if ce = None then pl_child_pid p else None"
  let ?r = "reachable_session_for_start (pl_os p) endpoints config_path ?pid"
  show ?case
  proof (cases ?r)
    case (Inl err)
    then have "outcome_true endpoints p out" using Cons.prems ob by (auto simp: outcome_true_def)
    then show ?thesis by simp
  next
    case (Inr found)
    show ?thesis
    proof (cases found)
      case None
      show ?thesis
      proof (cases "dl \<le> pl_checked_at p")
        case True
        then have "outcome_true endpoints p out" using Cons.prems ob Inr None by (auto simp: outcome_true_def)
        then show ?thesis by simp
      next
        case False
        then have "start_loop error_data failure_message endpoints config_path dl ce ps = Some out"
          using Cons.prems ob Inr None by simp
        then show ?thesis using Cons.IH by fastforce
      qed
    next
      case (Some si)
      obtain started info where si: "si = (started, info)" by fastforce
      then have r: "?r = Inr (Some (started, info))" using Inr Some by simp
      have out: "out = \<lparr> so_result = Inr (start_session_report info started),
          so_killed = (\<not> started \<and> ce = None), so_exited = ce, so_stderr_kept = False \<rparr>"
        using Cons.prems ob r by simp
      have "outcome_true endpoints p out"
        using reachable_start [OF r] by (auto simp: outcome_true_def out split: if_splits)
      then show ?thesis by simp
    qed
  qed
qed simp

lemma observe_exit_deadline: "snd (observe_exit p child_exit deadline) \<le> deadline"
  by (simp add: observe_exit_def split: option.split)

lemma start_loop_ends:
  "p \<in> set polls \<Longrightarrow> deadline \<le> pl_checked_at p \<Longrightarrow>
   start_loop error_data failure_message endpoints config_path deadline child_exit polls \<noteq> None"
proof (induction polls arbitrary: deadline child_exit)
  case (Cons q ps)
  obtain ce dl where ob: "observe_exit q child_exit deadline = (ce, dl)" by fastforce
  then have "dl \<le> deadline" using observe_exit_deadline [of q child_exit deadline] by simp
  then have "p = q \<Longrightarrow> dl \<le> pl_checked_at q"
    "p \<noteq> q \<Longrightarrow> start_loop error_data failure_message endpoints config_path dl ce ps \<noteq> None"
    using Cons by auto
  then show ?case by (cases "p = q") (auto simp: ob split: sum.splits option.splits)
qed simp

text \<open>
  C39. A start leaves no process behind. A turn whose probes end at or after the deadline ends the wait;
  when the wait ends, the spawned process runs on only if it is itself the one session that answers and
  is reported as started: otherwise it has exited or is killed. A session reported as running answers
  at an endpoint of the configuration, and no other session does.
\<close>

theorem start_leaves_no_orphan:
  assumes "q \<in> set polls" and "deadline \<le> pl_checked_at q"
  shows "\<exists>out. start_loop error_data failure_message endpoints config_path deadline None polls = Some out \<and>
    (\<exists>p \<in> set polls.
       (so_killed out \<or> so_exited out \<noteq> None \<or>
        (\<exists>report. so_result out = Inr report \<and> rs_started report \<and> rs_pid report = pl_child_pid p)) \<and>
       (so_killed out \<longrightarrow> so_exited out = None) \<and>
       (\<forall>report. so_result out = Inr report \<longrightarrow>
          (\<exists>ep info. answers (pl_os p) (set endpoints) ep info \<and>
             (\<forall>ep' info'. answers (pl_os p) (set endpoints) ep' info' \<longrightarrow> is_same_instance info info') \<and>
             rs_pid report = Some (si_pid info) \<and> (rs_started report \<longrightarrow> \<not> so_killed out))))"
proof -
  have "start_loop error_data failure_message endpoints config_path deadline None polls \<noteq> None"
    by (rule start_loop_ends [OF assms])
  then obtain out where out: "start_loop error_data failure_message endpoints config_path deadline None polls = Some out"
    by blast
  from start_loop_outcome [OF out] obtain p where p: "p \<in> set polls" "outcome_true endpoints p out" by blast
  have pid: "rs_pid (start_session_report info started) = Some (si_pid info)" for info started
    by (simp add: start_session_report_def already_running_report_def)
  show ?thesis
  proof (intro exI [of _ out] conjI bexI [of _ p] out p(1))
    show "so_killed out \<or> so_exited out \<noteq> None \<or>
        (\<exists>report. so_result out = Inr report \<and> rs_started report \<and> rs_pid report = pl_child_pid p)"
    proof (cases "so_result out")
      case (Inl err)
      then show ?thesis using p(2) by (cases "so_exited out") (simp_all add: outcome_true_def)
    next
      case (Inr report)
      then obtain info where "report = start_session_report info (rs_started report)"
        "rs_started report \<longleftrightarrow> so_exited out = None \<and> pl_child_pid p = Some (si_pid info)"
        "so_killed out \<longleftrightarrow> so_exited out = None \<and> \<not> rs_started report"
        using p(2) [unfolded outcome_true_def Inr sum.case] by blast
      then show ?thesis using Inr pid by metis
    qed
    show "so_killed out \<longrightarrow> so_exited out = None"
      using p(2) by (cases "so_result out") (auto simp: outcome_true_def)
    show "\<forall>report. so_result out = Inr report \<longrightarrow>
          (\<exists>ep info. answers (pl_os p) (set endpoints) ep info \<and>
             (\<forall>ep' info'. answers (pl_os p) (set endpoints) ep' info' \<longrightarrow> is_same_instance info info') \<and>
             rs_pid report = Some (si_pid info) \<and> (rs_started report \<longrightarrow> \<not> so_killed out))"
    proof (intro allI impI)
      fix report assume r: "so_result out = Inr report"
      then obtain ep info where "answers (pl_os p) (set endpoints) ep info"
        "\<forall>ep' info'. answers (pl_os p) (set endpoints) ep' info' \<longrightarrow> is_same_instance info info'"
        "report = start_session_report info (rs_started report)" "so_killed out \<longleftrightarrow> so_exited out = None \<and> \<not> rs_started report"
        using p(2) [unfolded outcome_true_def r sum.case] by blast
      then show "\<exists>ep info. answers (pl_os p) (set endpoints) ep info \<and>
             (\<forall>ep' info'. answers (pl_os p) (set endpoints) ep' info' \<longrightarrow> is_same_instance info info') \<and>
             rs_pid report = Some (si_pid info) \<and> (rs_started report \<longrightarrow> \<not> so_killed out)"
        using pid by metis
    qed
  qed
qed

text \<open>A start that waits for one turn and then finds another process at its endpoint: the child is killed.\<close>

definition quiet_os :: control_os where
  "quiet_os = sample_os\<lparr> co_dial := (\<lambda>_. Dial_TimedOut) \<rparr>"

definition lost_race :: "start_poll list" where
  "lost_race =
     [\<lparr> pl_exited = None, pl_now = 0, pl_child_pid = Some 7, pl_os = quiet_os, pl_checked_at = 1 \<rparr>,
      \<lparr> pl_exited = None, pl_now = 2, pl_child_pid = Some 7, pl_os = sample_os, pl_checked_at = 9 \<rparr>]"

theorem start_leaves_no_orphan_witness:
  "\<exists>out. start_loop (\<lambda>_. ErrorData_InternalError [] None) (\<lambda>m. m) [ControlEndpoint_Unix ''/run/a.sock'']
      ''/srv/micromux.yaml'' 9 None lost_race = Some out \<and>
    so_result out = Inr (already_running_report (sample_info 1)) \<and> so_killed out \<and> so_exited out = None"
proof -
  let ?loop = "start_loop (\<lambda>_. ErrorData_InternalError [] None) (\<lambda>m. m) [ControlEndpoint_Unix ''/run/a.sock'']
      ''/srv/micromux.yaml'' 9 None lost_race"
  have in_time: "lost_race ! 1 \<in> set lost_race" "9 \<le> pl_checked_at (lost_race ! 1)"
    by (simp_all add: lost_race_def)
  from start_leaves_no_orphan [OF in_time]
  obtain out where out: "?loop = Some out" "so_killed out \<longrightarrow> so_exited out = None" by blast
  have "?loop = Some \<lparr> so_result = Inr (already_running_report (sample_info 1)), so_killed = True, so_exited = None,
      so_stderr_kept = False \<rparr>"
    by (simp add: lost_race_def observe_exit_def reachable_session_for_start_def probe_endpoints_def
        probe_endpoint_def probe_result_def quiet_os_def sample_os_def client_describe_def sample_info_def
        is_compatible_with_def unique_answering_session_probes_def answering_session_probes_def
        map_filter_simps add_session_def start_session_report_def)
  then show ?thesis using out by simp
qed

text \<open>The message of a failed start fits in a reply, however much the process printed.\<close>

lemma boundary_from_ge: "i \<le> length s \<Longrightarrow> i \<le> boundary_from s i"
  by (auto simp: boundary_from_def find_Some_iff split: option.split)

lemma start_failure_message_bounded:
  "length (start_failure_message strip_str log_dir base stderr_path file_content) \<le> MAX_MESSAGE"
proof -
  have cut: "length (ELLIPSIS_LINE @ drop (boundary_from s (length s - (MAX_MESSAGE - length ELLIPSIS_LINE))) s) \<le> MAX_MESSAGE"
    for s
    using boundary_from_ge [of "length s - (MAX_MESSAGE - 4)" s]
    by (simp add: ELLIPSIS_LINE_def bytes_def MAX_MESSAGE_def)
  have "length (if MAX_MESSAGE < length s
      then ELLIPSIS_LINE @ drop (boundary_from s (length s - (MAX_MESSAGE - length ELLIPSIS_LINE))) s else s) \<le> MAX_MESSAGE" for s
    using cut [of s] by (simp del: length_append)
  then show ?thesis unfolding start_failure_message_def Let_def .
qed

end
