(* ===== verification/Spec2Isabelle.thy ===== *)
theory Spec2Isabelle
  imports Idempotency Eviction Convergence Shutdown Environment_Facts Run_Log_Index
    Follow_Facts Control_Facts Config_Facts Pty_Facts Pty_Process_Facts Health_Facts
    Session_Select_Facts Agent_Wait_Facts Agent_Events_Facts Agent_Log_Facts Agent_Bundles_Facts Agent_Start_Facts
begin

text \<open>
  Micromux runs the services of one configuration file in one session: it starts them in dependency
  order inside pseudo-terminals, restarts them by policy, keeps their logs, and serves its state to
  a terminal interface, to a control socket and, through it, to agents. This development models the
  Rust crates \<^verbatim>\<open>micromux\<close>, \<^verbatim>\<open>micromux-control\<close> and \<^verbatim>\<open>micromux-mcp\<close> as HOL functions on explicit state
  and proves what their operations keep and compute. Paths below are under \<^verbatim>\<open>src/crates/\<close>.

  \<^bold>\<open>The program and its model.\<close>

  One task, the scheduler (\<^verbatim>\<open>micromux/src/scheduler.rs\<close>), owns the roster of services and their
  runtimes. It takes commands, terminal input and process events from channels, and timers; after
  each it makes a scheduling pass. It publishes what happens into the session model
  (\<^verbatim>\<open>micromux/src/model.rs\<close>), which the readers of a run's terminal write too, and from which every
  client reads. In the model a handler is a function from the state before to the state after, with
  its reply; a run of the task is a list of rounds (\<open>Commands.scheduler_step\<close>), in any order; the
  runs of a list of steps are the relation \<open>run\<close> of \<open>Prelude\<close>. A lock that is held for a whole
  operation makes the operation one step. Fallible code returns a sum type, the error on the left.

  \<^item> Data of a session: \<open>Spec\<close> (\<^verbatim>\<open>spec.rs\<close>, \<^verbatim>\<open>service.rs\<close>: definitions of services, normalization,
    overlay), \<open>Graph\<close> (\<^verbatim>\<open>graph.rs\<close>), \<open>Snapshot\<close> and \<open>Session_Model\<close> (\<^verbatim>\<open>model.rs\<close>: entries, writes and
    queries), \<open>Log_Buffer\<close> (\<^verbatim>\<open>model/memory.rs\<close>), \<open>Disk_Log\<close> (\<^verbatim>\<open>model/disk.rs\<close>: the queue to the disk
    worker), \<open>Run_Log\<close>, \<open>Run_Reader\<close> (\<^verbatim>\<open>model/disk.rs\<close>, \<^verbatim>\<open>model/runlog.rs\<close>: the worker, the files and
    their offset index).
  \<^item> From a file to a session: \<open>Config_Values\<close>, \<open>Config_Parse\<close> (\<^verbatim>\<open>config/mod.rs\<close>, \<^verbatim>\<open>config/v1.rs\<close>),
    \<open>Environment\<close> (\<^verbatim>\<open>env.rs\<close>, \<^verbatim>\<open>Service::new\<close>), \<open>Config_Session\<close> (\<^verbatim>\<open>lib.rs\<close>).
  \<^item> The scheduler: \<open>Runtime\<close> (one service: restart tracker, live process, drains), \<open>Schedule\<close>
    (\<^verbatim>\<open>scheduler/schedule.rs\<close>), \<open>Scheduler_State\<close> (with \<^verbatim>\<open>scheduler/control.rs\<close>), \<open>Dynamic\<close> (services
    created at run time, leases, eviction), \<open>Events\<close> (process events, timers, shutdown), \<open>Reconcile\<close>
    (configuration changes), \<open>Commands\<close> (commands, rounds, the loop), \<open>Input\<close> (\<^verbatim>\<open>scheduler/input.rs\<close>).
  \<^item> A run: \<open>Pty_Filter\<close>, \<open>Pty_Capture\<close>, \<open>Pty_Process\<close> (\<^verbatim>\<open>scheduler/pty.rs\<close>: the log reader, the
    writer, the termination task), \<open>Health_Output\<close>, \<open>Health_Check\<close> (\<^verbatim>\<open>health_check.rs\<close>).
  \<^item> Its clients: \<open>Control_Frames\<close>, \<open>Control_Server\<close> (\<^verbatim>\<open>micromux-control/src/protocol.rs\<close>,
    \<^verbatim>\<open>server/unix.rs\<close>); \<open>Session_Probe\<close>, \<open>Session_Select\<close> (\<^verbatim>\<open>endpoint.rs\<close>, \<^verbatim>\<open>client.rs\<close>, \<^verbatim>\<open>select.rs\<close>:
    endpoints, what answers there, and which session a selector means).
  \<^item> Agents, over the control server (\<^verbatim>\<open>micromux-mcp/src\<close>): \<open>Structured_Log\<close>, \<open>Agent_Logs\<close>,
    \<open>Follow_Logs\<close> (\<^verbatim>\<open>structured_log.rs\<close>, \<^verbatim>\<open>logproc.rs\<close>, \<^verbatim>\<open>tools/logs.rs\<close>: entries, filters, merged pages),
    \<open>Agent_Requests\<close> (\<^verbatim>\<open>select.rs\<close>, \<^verbatim>\<open>convert.rs\<close>: errors, replies, retries), \<open>Agent_Wait\<close>,
    \<open>Agent_Diagnose\<close> (\<^verbatim>\<open>tools/health.rs\<close>, \<^verbatim>\<open>tools/portowner.rs\<close>), \<open>Agent_Events\<close>
    (\<^verbatim>\<open>tools/events.rs\<close>), \<open>Agent_Start\<close> (\<^verbatim>\<open>tools/sessions.rs\<close>), and the tools themselves (\<^verbatim>\<open>lib.rs\<close>):
    \<open>Agent_Log_Tools\<close>, \<open>Agent_Tools\<close>, \<open>Agent_Bundles\<close>.

  Records and constructors keep the names of the code with a prefix for their type; \<open>Prelude\<close> and
  \<open>Std_Str\<close> hold the machine types, insertion-ordered maps and string operations of the standard
  library that the code uses. \<^verbatim>\<open>u64\<close> counters are words and wrap or saturate as written; \<^verbatim>\<open>usize\<close> and
  durations are natural numbers, saturating at \<open>USIZE_MAX\<close> where the code saturates. Strings are
  lists of UTF-8 bytes.

  \<^bold>\<open>What the lemmas show.\<close>

  \<^item> The scheduler as a whole: \<open>Publishing\<close> and \<open>Handlers\<close> keep the roster, the runtimes and the
    published model consistent (\<open>session_consistent\<close>); \<open>Roster_Spec\<close> is an abstract machine of the
    roster and \<open>Refinement\<close>, \<open>Rounds\<close> show that every handler implements its steps
    (\<open>round_implements_roster\<close>, \<open>session_roster_safe\<close>). \<open>Schedule_Pass\<close>: what a pass starts, what it
    holds back and why. \<open>Idempotency\<close>, \<open>Eviction\<close>, \<open>Convergence\<close>: replies are remembered within a
    window, the roster of retired services stays bounded, reconciliation is idempotent. \<open>Shutdown\<close>:
    which events of a run still count, no restart is lost, shutdown terminates every process.
  \<^item> Logs: bounds and exact queries of the visible tail and of the model (\<open>Log_Buffer\<close>,
    \<open>Session_Model\<close>); the metadata of a run is true of its file, writing and reading are inverse, and
    the index changes no page after a cursor (\<open>Run_Log_Facts\<close>, \<open>Run_Log_Index\<close>); pages of the control
    server, while at most 2000 lines are pending, and merged pages of agents lose and repeat nothing
    (\<open>Control_Facts\<close>, \<open>Agent_Logs_Facts\<close>, \<open>Follow_Facts\<close>).
  \<^item> A run: records are exactly the lines of visible text a service prints, buffers stay bounded, broken escape
    sequences end (\<open>Pty_Facts\<close>); a stop follows its protocol (\<open>Pty_Process_Facts\<close>); a probe's lines
    and verdicts (\<open>Health_Output\<close>, \<open>Health_Facts\<close>).
  \<^item> Clients: a selector never picks one of several sessions, and the current project is never
    confused with another (\<open>Session_Select_Facts\<close>); waits for health report what a reply shows of the
    run asked for, by their deadline, and a request is sent again only when that is harmless
    (\<open>Agent_Wait_Facts\<close>); the events of a session and a wait for a log entry miss nothing that
    the session retains (\<open>Agent_Events_Facts\<close>, \<open>Agent_Log_Facts\<close>); a start leaves no process behind (\<open>Agent_Start_Facts\<close>);
    the bundled tools change what they say and nothing else (\<open>Agent_Bundles_Facts\<close>).
  \<^item> Configuration: types, strict mode and validation (\<open>Config_Facts\<close>); environment files, templates
    and the environment of a service (\<open>Environment_Facts\<close>).

  Interfaces are locales: a bounded history (\<open>bounded_history\<close>) and a machine with an invariant
  (\<open>invariant_machine\<close>) in \<open>Prelude\<close>, the topological sort (\<open>toposort_contract\<close>) in \<open>Graph\<close>, the session
  that a wait for a log entry asks (\<open>log_source\<close>) in \<open>Agent_Log_Facts\<close>, and those the components state themselves; each is interpreted on the definitions of the code.

  \<^bold>\<open>Bounds and loops.\<close> Loops of the code are structural recursion or have a measure; there is no fuel.
  A loop that waits is a function of the list of what it observes, one entry for each turn, so it
  ends with the list; where the code must end by itself, a theorem says so (\<open>evict_retired_bounded\<close>,
  \<open>schedule_pass_fixpoint\<close>, \<open>shutdown_stops_everything\<close>).

  \<^bold>\<open>Parameters.\<close> Code that is not in the repository is an argument of the definitions that use it: the
  topological sort of \<^verbatim>\<open>petgraph\<close>, the YAML tree and scalars of \<^verbatim>\<open>yaml-spanned\<close>, the encodings of
  \<^verbatim>\<open>serde_json\<close>, the terminal emulator, regular expressions, dates, and the outcome of every system
  call. Hypotheses on them state documented behaviour, and each property with one has a witness.

  \<^bold>\<open>Not modelled.\<close> The wiring of tasks, channels and sockets (the \<^verbatim>\<open>start\<close> of a session, the select loops
  of a connection, the pool of log readers), whose effects the lists of rounds and observations range
  over; process and file-system calls, which are parameters, and the Windows job objects; the wire
  format of the serialization library; the schemas of the tools and their registration with \<^verbatim>\<open>rmcp\<close>;
  the terminal interface and the command line, which render and forward what the model holds.
\<close>

section \<open>A session\<close>

text \<open>
  C8. One session, one truth. After any rounds of a session (commands, input, process events,
  expiry, reloads and reconciliations in any order), the roster, the runtimes and the published
  model speak of the same services; every service is stored under its own id, its runtime is
  well-formed under the restart policy of its current definition, and the entry that clients read is
  exactly what its definition and its runtime project to.
\<close>

theorem session_consistent:
  assumes "toposort_contract (cf_toposort cf)" and "configured_ok services" and "load_ok ld"
    and "scheduler_start cf wk ld services spool = Inr sc0" and "run (scheduler_step cf) sc0 rounds sc"
  shows "case im_get (sc_services sc) i of
      None \<Rightarrow> im_get (sc_runtimes sc) i = None \<and> im_get (sm_services (sc_model sc)) i = None
    | Some s \<Rightarrow>
        svc_id s = i \<and>
        (\<exists>r e now. im_get (sc_runtimes sc) i = Some r \<and> runtime_ok (ss_restart (svc_spec s)) r \<and>
           im_get (sm_services (sc_model sc)) i = Some e \<and> entry_ok e \<and>
           (en_snapshot e, en_started_at e) = project_snapshot now s r)"
proof (cases "im_get (sc_services sc) i")
  case None
  have "im_get (sc_runtimes sc) i = None" "published (sc_model sc) i = None"
    using None session_inv(1) [OF assms] unfolding in_step_def roster_ok_def shown_def by blast+
  then show ?thesis using None by (simp add: published_def)
next
  case (Some s)
  note ros = session_inv(2) [OF assms]
  obtain r where r: "im_get (sc_runtimes sc) i = Some r" by (rule roster_ok_get [OF ros Some])
  obtain now where "published (sc_model sc) i = Some (project_snapshot now s r)"
    using session_inv(1) [OF assms] Some r unfolding in_step_def shown_def by blast
  then obtain e where e: "im_get (sm_services (sc_model sc)) i = Some e"
    "(en_snapshot e, en_started_at e) = project_snapshot now s r"
    by (auto simp: published_def)
  have "entry_ok e"
    using session_inv(1) [OF assms] e(1) by (auto simp: in_step_def shown_def model_ok_def)
  then show ?thesis
    using Some r e roster_okD [OF ros Some r] by auto
qed

theorem session_consistent_witness:
  "\<exists>r e now. im_get (sc_runtimes example_session) ''web'' = Some r \<and>
     im_get (sm_services (sc_model example_session)) ''web'' = Some e \<and>
     (en_snapshot e, en_started_at e) = project_snapshot now (example_service ''web'' [''db'']) r"
proof -
  have "im_get (sc_services example_session) ''web'' = Some (example_service ''web'' [''db''])"
    by (simp add: example_session_def schedule_pass_def reload_before_auto_restart_def with_context_def
        scheduler_new_def example_services_def Let_def)
  with session_consistent [OF example_toposort example_configured example_load_ok example_start run_Nil,
      of "''web''"]
  show ?thesis by auto
qed



text \<open>
  C10. The scheduler implements its contract. From every state a session can reach, one round of
  the task changes the roster only by steps of the abstract roster: starts within the limit with a
  granted lease and live dependencies, replacements by the next revision, renewals, stops, expiries
  that are due, configuration changes that leave dynamic services alone, and evictions of retired
  services nothing depends on.
\<close>

theorem round_implements_roster:
  assumes "toposort_contract (cf_toposort cf)" and "configured_ok services" and "load_ok ld"
    and "scheduler_start cf wk ld services spool = Inr sc0" and "run (scheduler_step cf) sc0 rounds sc"
    and "arm_ok a" and "load_ok ld'"
  shows "(\<lambda>v v'. roster_step (cf_policy cf) v (wk_now wk') v')\<^sup>*\<^sup>*
    (roster_of sc) (roster_of (run_round cf wk' a ld' sc))"
  using implements_round [OF assms(1,6,7), of wk' sc] session_inv(1,3) [OF assms(1-5)]
  by (simp add: implements_def)

theorem round_implements_roster_witness:
  "(\<lambda>v v'. roster_step (cf_policy example_config) v (wk_now example_wake) v')\<^sup>*\<^sup>*
    (roster_of example_session) (roster_of (example_round Arm_Expiry example_session))"
  unfolding example_round_def
  by (rule round_implements_roster [OF example_toposort example_configured example_load_ok example_start
        run_Nil _ example_load_ok]) (simp add: arm_ok_def)

end
